(* ===== verification/Tocin_Prelude.thy ===== *)
theory Tocin_Prelude
  imports Main
begin

text \<open>
  Shared vocabulary of the development: the character classes of \<open><cctype>\<close> that the
  lexer and the ownership utilities call (in the "C" locale, the program never calls
  \<open>setlocale\<close>), the decimal and hexadecimal conversions of the C++ standard library
  the sources use, and the small facts on lists and maps that several components share.
\<close>

section \<open>Collections\<close>

named_theorems char_class_defs \<open>definitions of the character classes\<close>
named_theorems loop_eqs \<open>one equation per branch of a loop\<close>

section \<open>Character classes\<close>

definition code :: "char \<Rightarrow> nat" where
  "code c = of_char c"

definition isdigit :: "char \<Rightarrow> bool" where
  "isdigit c \<longleftrightarrow> 48 \<le> code c \<and> code c \<le> 57"

definition isalpha :: "char \<Rightarrow> bool" where
  "isalpha c \<longleftrightarrow> (65 \<le> code c \<and> code c \<le> 90) \<or> (97 \<le> code c \<and> code c \<le> 122)"

definition isalnum :: "char \<Rightarrow> bool" where
  "isalnum c \<longleftrightarrow> isalpha c \<or> isdigit c"

definition isxdigit :: "char \<Rightarrow> bool" where
  "isxdigit c \<longleftrightarrow> isdigit c \<or> (65 \<le> code c \<and> code c \<le> 70) \<or> (97 \<le> code c \<and> code c \<le> 102)"

definition isspace :: "char \<Rightarrow> bool" where
  "isspace c \<longleftrightarrow> code c = 32 \<or> 9 \<le> code c \<and> code c \<le> 13"

declare isdigit_def [char_class_defs] isalpha_def [char_class_defs]
  isalnum_def [char_class_defs] isxdigit_def [char_class_defs] code_def [char_class_defs]

abbreviation NUL :: char where "NUL \<equiv> CHR 0x00"
abbreviation NL :: char where "NL \<equiv> CHR 0x0A"
abbreviation CR :: char where "CR \<equiv> CHR 0x0D"
abbreviation TAB :: char where "TAB \<equiv> CHR 0x09"
abbreviation BACKSLASH :: char where "BACKSLASH \<equiv> CHR 0x5C"
abbreviation DQUOTE :: char where "DQUOTE \<equiv> CHR 0x22"
abbreviation SQUOTE :: char where "SQUOTE \<equiv> CHR 0x27"
abbreviation BACKTICK :: char where "BACKTICK \<equiv> CHR 0x60"
abbreviation HASH :: char where "HASH \<equiv> CHR 0x23"

lemma code_less: "code c < 256"
  using horner_sum_of_bool_2_less [where 'a = nat,
    of "[digit0 c, digit1 c, digit2 c, digit3 c, digit4 c, digit5 c, digit6 c, digit7 c]"]
  by (simp add: code_def of_char_def)

section \<open>Conversions of the standard library\<close>

text \<open>\<open>std::to_string\<close> and \<open>operator<<\<close> on integers.\<close>

definition digit_char :: "nat \<Rightarrow> char" where
  "digit_char d = char_of (48 + d)"

fun show_nat :: "nat \<Rightarrow> string" where
  "show_nat n = (if n < 10 then [digit_char n] else show_nat (n div 10) @ [digit_char (n mod 10)])"

declare show_nat.simps [simp del]

definition show_int :: "int \<Rightarrow> string" where
  "show_int i = (if i < 0 then CHR ''-'' # show_nat (nat (- i)) else show_nat (nat i))"

definition digits_value :: "string \<Rightarrow> nat" where
  "digits_value s = foldl (\<lambda>v c. 10 * v + (code c - 48)) 0 s"

text \<open>\<open>std::stoll\<close> and \<open>std::stoi\<close>: blanks, a sign, and the digits up to the first other character;
  None is the exception, for no digit or a value outside the type of \<open>w\<close> bits.\<close>

definition stoi_value :: "nat \<Rightarrow> string \<Rightarrow> int option" where
  "stoi_value w x =
     (let y = dropWhile isspace x;
          ds = takeWhile isdigit (if y \<noteq> [] \<and> (hd y = CHR ''-'' \<or> hd y = CHR ''+'') then tl y else y);
          n = int (digits_value ds); i = (if y \<noteq> [] \<and> hd y = CHR ''-'' then - n else n)
      in if ds = [] then None else if i < - (2 ^ (w - 1)) \<or> i \<ge> 2 ^ (w - 1) then None else Some i)"

text \<open>The value of a hexadecimal digit and of a string of them (\<open>std::stoi(s, nullptr, 16)\<close>).\<close>

definition hex_value :: "char \<Rightarrow> nat" where
  "hex_value c =
     (if isdigit c then code c - 48
      else if 97 \<le> code c then code c - 97 + 10
      else code c - 65 + 10)"

definition hex_string_value :: "string \<Rightarrow> nat" where
  "hex_string_value s = foldl (\<lambda>v c. 16 * v + hex_value c) 0 s"

section \<open>Searching in strings\<close>

text \<open>\<open>s.find(p)\<close>; \<open>None\<close> is \<open>npos\<close>.\<close>

fun str_find :: "string \<Rightarrow> string \<Rightarrow> nat option" where
  "str_find p s =
     (if take (length p) s = p then Some 0
      else case s of [] \<Rightarrow> None | _ # cs \<Rightarrow> map_option Suc (str_find p cs))"

declare str_find.simps [simp del]

definition str_contains :: "string \<Rightarrow> string \<Rightarrow> bool" where
  "str_contains p s \<longleftrightarrow> str_find p s \<noteq> None"

definition starts_with :: "string \<Rightarrow> string \<Rightarrow> bool" where
  "starts_with p s \<longleftrightarrow> str_find p s = Some 0"

lemma starts_with_take: "starts_with p s \<longleftrightarrow> take (length p) s = p"
  by (auto simp: starts_with_def str_find.simps [of p s] split: list.split)

lemma str_find_char: "str_find [c] s = (if c \<in> set s then Some (length (takeWhile (\<lambda>d. d \<noteq> c) s)) else None)"
  by (induction s) (auto simp: str_find.simps)

section \<open>Facts shared by the components\<close>

lemma isdigit_isalnum [simp]: "isdigit c \<Longrightarrow> isalnum c"
  by (simp add: isalnum_def)

lemma isalpha_isalnum [simp]: "isalpha c \<Longrightarrow> isalnum c"
  by (simp add: isalnum_def)

lemma isdigit_isxdigit [simp]: "isdigit c \<Longrightarrow> isxdigit c"
  by (simp add: isxdigit_def)

lemma isdigit_not_isalpha [simp]: "isdigit c \<Longrightarrow> \<not> isalpha c"
  by (auto simp: isdigit_def isalpha_def)

lemma hex_value_less: "isxdigit c \<Longrightarrow> hex_value c < 16"
  by (auto simp: hex_value_def isxdigit_def isdigit_def)

lemma sorted_snoc: "sorted (xs @ [x]) \<longleftrightarrow> sorted xs \<and> (\<forall>y \<in> set xs. y \<le> x)"
  by (auto simp: sorted_append)

lemma takeWhile_dropWhile_length: "length (takeWhile P xs) + length (dropWhile P xs) = length xs"
  by (metis length_append takeWhile_dropWhile_id)

section \<open>Printing and reading numbers\<close>

lemma digit_char_isdigit: "d < 10 \<Longrightarrow> isdigit (digit_char d)"
  by (simp add: digit_char_def isdigit_def code_def)

lemma show_nat_digits: "list_all isdigit (show_nat n)"
  by (induction n rule: show_nat.induct) (subst show_nat.simps, simp add: digit_char_isdigit)

lemma digits_value_show: "digits_value (show_nat n) = n"
proof (induction n rule: show_nat.induct)
  case (1 n)
  then show ?case
    by (subst show_nat.simps) (simp add: digits_value_def digit_char_def code_def)
qed

lemma isdigit_not_sign: "isdigit c \<Longrightarrow> c \<noteq> CHR ''-''" "isdigit c \<Longrightarrow> c \<noteq> CHR ''+''" "isdigit c \<Longrightarrow> \<not> isspace c"
  by (auto simp: isdigit_def code_def isspace_def)

lemma show_nat_ends: "show_nat n \<noteq> []" "isdigit (hd (show_nat n))" "isdigit (last (show_nat n))"
proof -
  show n: "show_nat n \<noteq> []" using show_nat.simps [of n] by simp
  show "isdigit (hd (show_nat n))" "isdigit (last (show_nat n))"
    using show_nat_digits [of n] n by (auto simp: list_all_iff)
qed

text \<open>Reading undoes printing within the bounds of the type.\<close>

lemma stoi_show_int: "- (2 ^ (w - 1)) \<le> i \<Longrightarrow> i < 2 ^ (w - 1) \<Longrightarrow> stoi_value w (show_int i) = Some i"
proof -
  assume i: "- (2 ^ (w - 1)) \<le> i" "i < 2 ^ (w - 1)"
  have d: "takeWhile isdigit (show_nat n) = show_nat n" for n
    using show_nat_digits [of n] by (simp add: takeWhile_eq_all_conv list_all_iff)
  have s: "dropWhile isspace (show_nat n) = show_nat n" for n
    using show_nat_ends [of n] isdigit_not_sign(3) by (cases "show_nat n") auto
  show ?thesis
  proof (cases "i < 0")
    case True
    have "\<not> isspace (CHR ''-'')" by (simp add: isspace_def code_def)
    then show ?thesis using True i show_nat_ends by (simp add: stoi_value_def show_int_def digits_value_show d Let_def)
  next
    case False
    then show ?thesis using i show_nat_ends [of "nat i"] isdigit_not_sign(1,2) [of "hd (show_nat (nat i))"]
      by (auto simp: stoi_value_def show_int_def digits_value_show Let_def d s)
  qed
qed

end
