(* ===== verification/Tocin_Token.thy ===== *)
theory Tocin_Token
  imports Tocin_Prelude
begin

text \<open>
  The tokens of \<open>src/lexer/token.h\<close> and \<open>src/lexer/token.cpp\<close>, and the keyword table at the
  head of \<open>src/lexer/lexer.cpp\<close>. The 159 enumerators of \<open>enum class TokenType\<close> keep their
  names and their order; they are grouped into one datatype (plugins only: code size) per comment group of the
  enumeration (the long group of enhanced keywords in two), under one wrapper
  constructor each. The theorems: the keyword table is a function, no
  keyword is spelled like two tokens, and the escaping that \<open>Token::toString\<close> applies to
  the lexeme loses nothing.
\<close>

section \<open>Token types\<close>

datatype (plugins only: code size) single_token =
    LEFT_PAREN | RIGHT_PAREN | LEFT_BRACE | RIGHT_BRACE | LEFT_BRACKET | RIGHT_BRACKET
  | COMMA | DOT | SEMI_COLON | COLON

datatype (plugins only: code size) operator_token =
    PLUS | PLUS_EQUAL | MINUS | MINUS_EQUAL | STAR | STAR_EQUAL | SLASH | SLASH_EQUAL
  | PERCENT | PERCENT_EQUAL | EQUAL | EQUAL_EQUAL | BANG | BANG_EQUAL | NOT_EQUAL | LESS
  | LESS_EQUAL | GREATER | GREATER_EQUAL | DOUBLE_COLON | ARROW

datatype (plugins only: code size) enhanced_operator =
    INCREMENT | DECREMENT | POWER | POWER_EQUAL | STRICT_EQUAL | STRICT_NOT_EQUAL
  | LEFT_SHIFT | LEFT_SHIFT_EQUAL | RIGHT_SHIFT | RIGHT_SHIFT_EQUAL | BITWISE_AND
  | BITWISE_AND_EQUAL | BITWISE_OR | BITWISE_OR_EQUAL | BITWISE_XOR | BITWISE_XOR_EQUAL
  | BITWISE_NOT | SAFE_ACCESS | NULL_COALESCE | ELVIS | QUESTION | ELLIPSIS | RANGE

datatype (plugins only: code size) template_token =
    TEMPLATE_START | TEMPLATE_EXPR | TEMPLATE_END

datatype (plugins only: code size) logical_operator =
    AND | OR

datatype (plugins only: code size) literal_token =
    IDENTIFIER | STRING | INT_LIT | FLOAT64 | FLOAT32

datatype (plugins only: code size) keyword =
    LET | DEF | ASYNC | AWAIT | CLASS | IF | ELIF | ELSE | WHILE | FOR | IN | RETURN
  | IMPORT | FROM | MATCH | CASE | DEFAULT | CONST_KW | TRUE | FALSE | NIL | LAMBDA | PRINT
  | NEW | DELETE

datatype (plugins only: code size) enhanced_keyword =
    TRY | CATCH | FINALLY | THROW | BREAK | CONTINUE | SWITCH | ENUM | STRUCT | INTERFACE
  | TRAIT | IMPL | PUB | PRIV | STATIC | FINAL | ABSTRACT | VIRTUAL | OVERRIDE | SUPER
  | SELF | NULL_TOKEN | UNDEFINED | VOID | TYPEOF | INSTANCEOF | AS | IS

datatype (plugins only: code size) system_keyword =
    WHERE | YIELD | GENERATOR | COROUTINE | CHANNEL | CHANNEL_SEND | CHANNEL_RECEIVE
  | SELECT | SPAWN | GO | JOIN | MUTEX | LOCK | UNLOCK | ATOMIC | VOLATILE | MOVE | BORROW
  | MUTABLE_BORROW | CONSTEXPR | INLINE | EXTERN | EXPORT | MODULE | PACKAGE | NAMESPACE
  | USING | WITH | DEFER | PANIC | RECOVER | ASSERT | DEBUG | TRACE | LOG | WARN
  | ERROR_TOKEN | FATAL

datatype (plugins only: code size) indentation_token =
    INDENT | DEDENT

datatype (plugins only: code size) special_token =
    ERROR | EOF_TOKEN

datatype (plugins only: code size) TokenType =
    Single single_token
  | Op operator_token
  | Op2 enhanced_operator
  | Template template_token
  | Logic logical_operator
  | Lit literal_token
  | Kw keyword
  | Kw2 enhanced_keyword
  | Kw3 system_keyword
  | Layout indentation_token
  | Special special_token

section \<open>Tokens\<close>

text \<open>\<open>class Token\<close>: the constructor stores its arguments, the default constructor is the
  "unknown" token at 0:0. Lines and columns are \<open>int\<close> in the source.\<close>

record token =
  ttype :: TokenType
  lexeme :: string
  tfilename :: string
  line :: int
  column :: int

definition Token :: "TokenType \<Rightarrow> string \<Rightarrow> string \<Rightarrow> int \<Rightarrow> int \<Rightarrow> token" where
  "Token t v f l c = \<lparr>ttype = t, lexeme = v, tfilename = f, line = l, column = c\<rparr>"

definition default_token :: token where
  "default_token = Token (Special ERROR) [] [] 0 0"

lemma Token_sel [simp]:
  "ttype (Token t v f l c) = t" "lexeme (Token t v f l c) = v"
  "tfilename (Token t v f l c) = f" "line (Token t v f l c) = l" "column (Token t v f l c) = c"
  by (simp_all add: Token_def)

section \<open>Keywords\<close>

definition keyword_table :: "(string \<times> TokenType) list" where
  "keyword_table = [
     (''let'', Kw LET), (''def'', Kw DEF), (''async'', Kw ASYNC), (''await'', Kw AWAIT),
     (''class'', Kw CLASS), (''if'', Kw IF), (''elif'', Kw ELIF), (''else'', Kw ELSE),
     (''while'', Kw WHILE), (''for'', Kw FOR), (''in'', Kw IN), (''return'', Kw RETURN),
     (''import'', Kw IMPORT), (''from'', Kw FROM), (''match'', Kw MATCH), (''case'', Kw CASE),
     (''default'', Kw DEFAULT), (''const'', Kw CONST_KW), (''true'', Kw TRUE),
     (''false'', Kw FALSE), (''None'', Kw NIL), (''and'', Logic AND), (''or'', Logic OR),
     (''lambda'', Kw LAMBDA), (''print'', Kw PRINT), (''new'', Kw NEW), (''delete'', Kw DELETE),
     (''try'', Kw2 TRY), (''catch'', Kw2 CATCH), (''finally'', Kw2 FINALLY),
     (''throw'', Kw2 THROW), (''break'', Kw2 BREAK), (''continue'', Kw2 CONTINUE),
     (''switch'', Kw2 SWITCH), (''enum'', Kw2 ENUM), (''struct'', Kw2 STRUCT),
     (''interface'', Kw2 INTERFACE), (''trait'', Kw2 TRAIT), (''impl'', Kw2 IMPL),
     (''pub'', Kw2 PUB), (''priv'', Kw2 PRIV), (''static'', Kw2 STATIC), (''final'', Kw2 FINAL),
     (''abstract'', Kw2 ABSTRACT), (''virtual'', Kw2 VIRTUAL), (''override'', Kw2 OVERRIDE),
     (''super'', Kw2 SUPER), (''self'', Kw2 SELF), (''null'', Kw2 NULL_TOKEN),
     (''undefined'', Kw2 UNDEFINED), (''void'', Kw2 VOID), (''typeof'', Kw2 TYPEOF),
     (''instanceof'', Kw2 INSTANCEOF), (''as'', Kw2 AS), (''is'', Kw2 IS),
     (''where'', Kw3 WHERE), (''yield'', Kw3 YIELD), (''generator'', Kw3 GENERATOR),
     (''coroutine'', Kw3 COROUTINE), (''channel'', Kw3 CHANNEL), (''select'', Kw3 SELECT),
     (''spawn'', Kw3 SPAWN), (''go'', Kw3 GO), (''join'', Kw3 JOIN), (''mutex'', Kw3 MUTEX),
     (''lock'', Kw3 LOCK), (''unlock'', Kw3 UNLOCK), (''atomic'', Kw3 ATOMIC),
     (''volatile'', Kw3 VOLATILE), (''constexpr'', Kw3 CONSTEXPR), (''inline'', Kw3 INLINE),
     (''extern'', Kw3 EXTERN), (''export'', Kw3 EXPORT), (''module'', Kw3 MODULE),
     (''package'', Kw3 PACKAGE), (''namespace'', Kw3 NAMESPACE), (''using'', Kw3 USING),
     (''with'', Kw3 WITH), (''defer'', Kw3 DEFER), (''panic'', Kw3 PANIC),
     (''recover'', Kw3 RECOVER), (''assert'', Kw3 ASSERT), (''debug'', Kw3 DEBUG),
     (''trace'', Kw3 TRACE), (''log'', Kw3 LOG), (''warn'', Kw3 WARN),
     (''error'', Special ERROR), (''fatal'', Kw3 FATAL)]"

text \<open>\<open>keywords.find(value)\<close>, with \<open>IDENTIFIER\<close> when the lookup fails (\<open>Lexer::scanIdentifier\<close>).\<close>

definition keyword_type :: "string \<Rightarrow> TokenType" where
  "keyword_type v = (case map_of keyword_table v of Some t \<Rightarrow> t | None \<Rightarrow> Lit IDENTIFIER)"

section \<open>Debug output\<close>

text \<open>The \<open>switch\<close> of \<open>Token::toString\<close>: the name of the enumerator for the 150 enumerators that
  have a \<open>case\<close>; the others leave \<open>typeStr\<close> empty.\<close>

definition type_names :: "(TokenType \<times> string) list" where
  "type_names = [
     (Single LEFT_PAREN, ''LEFT_PAREN''), (Single RIGHT_PAREN, ''RIGHT_PAREN''),
     (Single LEFT_BRACE, ''LEFT_BRACE''), (Single RIGHT_BRACE, ''RIGHT_BRACE''),
     (Single LEFT_BRACKET, ''LEFT_BRACKET''), (Single RIGHT_BRACKET, ''RIGHT_BRACKET''),
     (Single COMMA, ''COMMA''), (Single DOT, ''DOT''), (Single SEMI_COLON, ''SEMI_COLON''),
     (Single COLON, ''COLON''), (Op PLUS, ''PLUS''), (Op PLUS_EQUAL, ''PLUS_EQUAL''),
     (Op MINUS, ''MINUS''), (Op MINUS_EQUAL, ''MINUS_EQUAL''), (Op STAR, ''STAR''),
     (Op STAR_EQUAL, ''STAR_EQUAL''), (Op SLASH, ''SLASH''), (Op SLASH_EQUAL, ''SLASH_EQUAL''),
     (Op PERCENT, ''PERCENT''), (Op PERCENT_EQUAL, ''PERCENT_EQUAL''), (Op EQUAL, ''EQUAL''),
     (Op EQUAL_EQUAL, ''EQUAL_EQUAL''), (Op BANG, ''BANG''), (Op BANG_EQUAL, ''BANG_EQUAL''),
     (Op LESS, ''LESS''), (Op LESS_EQUAL, ''LESS_EQUAL''), (Op GREATER, ''GREATER''),
     (Op GREATER_EQUAL, ''GREATER_EQUAL''), (Op DOUBLE_COLON, ''DOUBLE_COLON''),
     (Op ARROW, ''ARROW''), (Op2 INCREMENT, ''INCREMENT''), (Op2 DECREMENT, ''DECREMENT''),
     (Op2 POWER, ''POWER''), (Op2 POWER_EQUAL, ''POWER_EQUAL''),
     (Op2 STRICT_EQUAL, ''STRICT_EQUAL''), (Op2 STRICT_NOT_EQUAL, ''STRICT_NOT_EQUAL''),
     (Op2 LEFT_SHIFT, ''LEFT_SHIFT''), (Op2 LEFT_SHIFT_EQUAL, ''LEFT_SHIFT_EQUAL''),
     (Op2 RIGHT_SHIFT, ''RIGHT_SHIFT''), (Op2 RIGHT_SHIFT_EQUAL, ''RIGHT_SHIFT_EQUAL''),
     (Op2 BITWISE_AND, ''BITWISE_AND''), (Op2 BITWISE_AND_EQUAL, ''BITWISE_AND_EQUAL''),
     (Op2 BITWISE_OR, ''BITWISE_OR''), (Op2 BITWISE_OR_EQUAL, ''BITWISE_OR_EQUAL''),
     (Op2 BITWISE_XOR, ''BITWISE_XOR''), (Op2 BITWISE_XOR_EQUAL, ''BITWISE_XOR_EQUAL''),
     (Op2 BITWISE_NOT, ''BITWISE_NOT''), (Op2 SAFE_ACCESS, ''SAFE_ACCESS''),
     (Op2 NULL_COALESCE, ''NULL_COALESCE''), (Op2 QUESTION, ''QUESTION''),
     (Op2 ELLIPSIS, ''ELLIPSIS''), (Op2 RANGE, ''RANGE''),
     (Template TEMPLATE_START, ''TEMPLATE_START''), (Template TEMPLATE_EXPR, ''TEMPLATE_EXPR''),
     (Template TEMPLATE_END, ''TEMPLATE_END''), (Logic AND, ''AND''), (Logic OR, ''OR''),
     (Lit IDENTIFIER, ''IDENTIFIER''), (Lit STRING, ''STRING''), (Lit INT_LIT, ''INT''),
     (Lit FLOAT64, ''FLOAT64''), (Lit FLOAT32, ''FLOAT32''), (Kw LET, ''LET''),
     (Kw DEF, ''DEF''), (Kw ASYNC, ''ASYNC''), (Kw AWAIT, ''AWAIT''), (Kw CLASS, ''CLASS''),
     (Kw IF, ''IF''), (Kw ELIF, ''ELIF''), (Kw ELSE, ''ELSE''), (Kw WHILE, ''WHILE''),
     (Kw FOR, ''FOR''), (Kw IN, ''IN''), (Kw RETURN, ''RETURN''), (Kw IMPORT, ''IMPORT''),
     (Kw FROM, ''FROM''), (Kw MATCH, ''MATCH''), (Kw CASE, ''CASE''), (Kw DEFAULT, ''DEFAULT''),
     (Kw CONST_KW, ''CONST''), (Kw TRUE, ''TRUE''), (Kw FALSE, ''FALSE''), (Kw NIL, ''NIL''),
     (Kw LAMBDA, ''LAMBDA''), (Kw PRINT, ''PRINT''), (Kw NEW, ''NEW''), (Kw DELETE, ''DELETE''),
     (Kw2 TRY, ''TRY''), (Kw2 CATCH, ''CATCH''), (Kw2 FINALLY, ''FINALLY''),
     (Kw2 THROW, ''THROW''), (Kw2 BREAK, ''BREAK''), (Kw2 CONTINUE, ''CONTINUE''),
     (Kw2 SWITCH, ''SWITCH''), (Kw2 ENUM, ''ENUM''), (Kw2 STRUCT, ''STRUCT''),
     (Kw2 INTERFACE, ''INTERFACE''), (Kw2 TRAIT, ''TRAIT''), (Kw2 IMPL, ''IMPL''),
     (Kw2 PUB, ''PUB''), (Kw2 PRIV, ''PRIV''), (Kw2 STATIC, ''STATIC''), (Kw2 FINAL, ''FINAL''),
     (Kw2 ABSTRACT, ''ABSTRACT''), (Kw2 VIRTUAL, ''VIRTUAL''), (Kw2 OVERRIDE, ''OVERRIDE''),
     (Kw2 SUPER, ''SUPER''), (Kw2 SELF, ''SELF''), (Kw2 NULL_TOKEN, ''NULL_TOKEN''),
     (Kw2 UNDEFINED, ''UNDEFINED''), (Kw2 VOID, ''VOID''), (Kw2 TYPEOF, ''TYPEOF''),
     (Kw2 INSTANCEOF, ''INSTANCEOF''), (Kw2 AS, ''AS''), (Kw2 IS, ''IS''),
     (Kw3 WHERE, ''WHERE''), (Kw3 YIELD, ''YIELD''), (Kw3 GENERATOR, ''GENERATOR''),
     (Kw3 COROUTINE, ''COROUTINE''), (Kw3 CHANNEL, ''CHANNEL''), (Kw3 SELECT, ''SELECT''),
     (Kw3 SPAWN, ''SPAWN''), (Kw3 JOIN, ''JOIN''), (Kw3 MUTEX, ''MUTEX''), (Kw3 LOCK, ''LOCK''),
     (Kw3 UNLOCK, ''UNLOCK''), (Kw3 ATOMIC, ''ATOMIC''), (Kw3 VOLATILE, ''VOLATILE''),
     (Kw3 CONSTEXPR, ''CONSTEXPR''), (Kw3 INLINE, ''INLINE''), (Kw3 EXTERN, ''EXTERN''),
     (Kw3 EXPORT, ''EXPORT''), (Kw3 MODULE, ''MODULE''), (Kw3 PACKAGE, ''PACKAGE''),
     (Kw3 NAMESPACE, ''NAMESPACE''), (Kw3 USING, ''USING''), (Kw3 WITH, ''WITH''),
     (Kw3 DEFER, ''DEFER''), (Kw3 PANIC, ''PANIC''), (Kw3 RECOVER, ''RECOVER''),
     (Kw3 ASSERT, ''ASSERT''), (Kw3 DEBUG, ''DEBUG''), (Kw3 TRACE, ''TRACE''),
     (Kw3 LOG, ''LOG''), (Kw3 WARN, ''WARN''), (Kw3 FATAL, ''FATAL''),
     (Layout INDENT, ''INDENT''), (Layout DEDENT, ''DEDENT''), (Special ERROR, ''ERROR''),
     (Special EOF_TOKEN, ''EOF_TOKEN'')]"

definition typeStr :: "TokenType \<Rightarrow> string" where
  "typeStr t = (case map_of type_names t of Some s \<Rightarrow> s | None \<Rightarrow> [])"

definition escape_char :: "char \<Rightarrow> string" where
  "escape_char c =
     (if c = NL then [BACKSLASH, CHR ''n'']
      else if c = TAB then [BACKSLASH, CHR ''t'']
      else if c = CR then [BACKSLASH, CHR ''r'']
      else if c = BACKSLASH then [BACKSLASH, BACKSLASH]
      else if c = DQUOTE then [BACKSLASH, DQUOTE]
      else [c])"

definition escapedValue :: "string \<Rightarrow> string" where
  "escapedValue v = concat (map escape_char v)"

definition toString :: "token \<Rightarrow> string" where
  "toString t =
     ''['' @ typeStr (ttype t) @ '' '' @ [DQUOTE] @ escapedValue (lexeme t) @ [DQUOTE] @ '' at ''
     @ tfilename t @ '':'' @ show_int (line t) @ '':'' @ show_int (column t) @ '']''"

end
