(* ===== verification/Tocin_Errors.thy ===== *)
theory Tocin_Errors
  imports Tocin_Token
begin

text \<open>
  \<open>src/error/error_handler.h\<close> and \<open>src/error/error_handler.cpp\<close>: the 257 enumerators of
  \<open>enum class ErrorCode\<close> (one datatype per comment group of the enumeration), the
  \<open>switch\<close> of \<open>errorCodeToString\<close>, and the \<open>ErrorHandler\<close> object: its error list, the
  fatal flag, the mutex every operation takes, and the lines it prints. \<open>std::mutex\<close> is not
  recursive: an operation that takes it while it is held does not return, which the
  model makes a value (\<open>Inl Self_Deadlock\<close>).
\<close>

section \<open>Error codes\<close>

datatype (plugins only: code size) lexical_error =
    L001_INVALID_CHARACTER | L002_UNTERMINATED_STRING | L003_INVALID_NUMBER_FORMAT
  | L004_TOO_MANY_ERRORS | L005_INVALID_ESCAPE_SEQUENCE | L006_INVALID_UNICODE_ESCAPE
  | L007_INVALID_TEMPLATE_LITERAL

datatype (plugins only: code size) syntax_error =
    S001_UNEXPECTED_TOKEN | S002_MISSING_EXPECTED_TOKEN | S003_INVALID_EXPRESSION
  | S004_INVALID_STATEMENT | S005_INVALID_ASSIGNMENT_TARGET
  | S006_INVALID_FUNCTION_DECLARATION | S007_INVALID_CLASS_DECLARATION
  | S008_INVALID_IMPORT_STATEMENT | S009_INVALID_MATCH_STATEMENT
  | S010_INVALID_TRY_CATCH_BLOCK | S011_INVALID_LOOP_STATEMENT
  | S012_INVALID_SWITCH_STATEMENT | S013_INVALID_ENUM_DECLARATION
  | S014_INVALID_STRUCT_DECLARATION | S015_INVALID_INTERFACE_DECLARATION
  | S016_INVALID_TRAIT_DECLARATION | S017_INVALID_IMPL_BLOCK
  | S018_INVALID_MODULE_DECLARATION | S019_INVALID_NAMESPACE_DECLARATION
  | S020_INVALID_DEFER_STATEMENT

datatype (plugins only: code size) type_error =
    T001_TYPE_MISMATCH | T002_UNDEFINED_VARIABLE | T003_UNDEFINED_FUNCTION
  | T004_UNDEFINED_CLASS | T005_UNDEFINED_METHOD | T006_INVALID_OPERATOR_FOR_TYPE
  | T007_INVALID_FUNCTION_CALL | T008_INVALID_METHOD_CALL | T009_INVALID_CONSTRUCTOR_CALL
  | T010_INVALID_DESTRUCTOR_CALL | T011_INVALID_CAST | T012_INVALID_CONVERSION
  | T013_INVALID_ASSIGNMENT | T014_INVALID_RETURN_TYPE | T015_INVALID_PARAMETER_TYPE
  | T016_INVALID_GENERIC_TYPE | T017_INVALID_TRAIT_IMPLEMENTATION
  | T018_INVALID_INTERFACE_IMPLEMENTATION | T019_INVALID_INHERITANCE
  | T020_INVALID_OVERRIDE | T021_INVALID_ABSTRACT_METHOD | T022_INVALID_FINAL_OVERRIDE
  | T023_INVALID_STATIC_METHOD | T024_INVALID_VIRTUAL_METHOD | T025_INVALID_CONST_METHOD
  | T026_INVALID_MUTABLE_REFERENCE | T027_INVALID_IMMUTABLE_REFERENCE
  | T028_INVALID_MOVE_SEMANTICS | T029_INVALID_OWNERSHIP_TRANSFER
  | T030_INVALID_BORROW_CHECK | T031_UNDEFINED_TYPE | T032_CANNOT_INFER_TYPE
  | T033_INCORRECT_ARGUMENT_COUNT | T034_INCORRECT_ARGUMENT_TYPE

datatype (plugins only: code size) module_error =
    M001_DUPLICATE_DEFINITION | M002_CIRCULAR_DEPENDENCY | M003_INVALID_MODULE_PATH
  | M004_MODULE_NOT_FOUND | M005_INVALID_MODULE_FORMAT | M006_MODULE_NOT_FOUND
  | M007_INVALID_PACKAGE_NAME | M008_INVALID_NAMESPACE_NAME | M009_INVALID_IMPORT_PATH
  | M010_INVALID_EXPORT_STATEMENT | M011_INVALID_MODULE_STRUCTURE
  | M012_INVALID_PACKAGE_STRUCTURE | M013_INVALID_NAMESPACE_STRUCTURE
  | M014_INVALID_DEPENDENCY_DECLARATION | M015_INVALID_VERSION_SPECIFICATION

datatype (plugins only: code size) ffi_error =
    F001_FFI_CALL_FAILED | F002_INVALID_FFI_SIGNATURE | F003_INVALID_FFI_TYPE
  | F004_INVALID_FFI_LIBRARY | F005_INVALID_FFI_FUNCTION | F006_INVALID_FFI_PARAMETER
  | F007_INVALID_FFI_RETURN_TYPE | F008_INVALID_FFI_CALLING_CONVENTION
  | F009_INVALID_FFI_MARSHALING | F010_INVALID_FFI_UNMARSHALING
  | F011_INVALID_FFI_MEMORY_MANAGEMENT | F012_INVALID_FFI_ERROR_HANDLING
  | F013_INVALID_FFI_THREAD_SAFETY | F014_INVALID_FFI_EXCEPTION_HANDLING
  | F015_INVALID_FFI_RESOURCE_MANAGEMENT

datatype (plugins only: code size) concurrency_error =
    C001_CONCURRENCY_ERROR | C002_DEADLOCK_DETECTED | C003_RACE_CONDITION_DETECTED
  | C004_INVALID_THREAD_OPERATION | C005_INVALID_MUTEX_OPERATION
  | C006_INVALID_CONDITION_VARIABLE_OPERATION | C007_INVALID_SEMAPHORE_OPERATION
  | C008_INVALID_BARRIER_OPERATION | C009_INVALID_FUTURE_OPERATION
  | C010_INVALID_PROMISE_OPERATION | C011_INVALID_CHANNEL_OPERATION
  | C012_INVALID_SELECT_OPERATION | C013_INVALID_SPAWN_OPERATION
  | C014_INVALID_JOIN_OPERATION | C015_INVALID_YIELD_OPERATION
  | C016_INVALID_COROUTINE_OPERATION | C017_INVALID_GENERATOR_OPERATION
  | C018_INVALID_ASYNC_OPERATION | C019_INVALID_AWAIT_OPERATION
  | C020_INVALID_ATOMIC_OPERATION | C021_INVALID_MEMORY_ORDERING
  | C022_INVALID_FENCE_OPERATION | C023_INVALID_COMPARE_EXCHANGE_OPERATION
  | C024_INVALID_FETCH_OPERATION | C025_INVALID_STORE_OPERATION
  | C026_INVALID_LOAD_OPERATION | C027_INVALID_EXCHANGE_OPERATION
  | C028_INVALID_TEST_AND_SET_OPERATION | C029_INVALID_CLEAR_OPERATION
  | C030_INVALID_NOTIFY_OPERATION

datatype (plugins only: code size) runtime_error =
    R001_RUNTIME_ERROR | R002_NULL_POINTER_DEREFERENCE | R003_DIVISION_BY_ZERO
  | R004_ARRAY_INDEX_OUT_OF_BOUNDS | R005_STACK_OVERFLOW | R006_HEAP_OVERFLOW
  | R007_MEMORY_LEAK_DETECTED | R008_DOUBLE_FREE_DETECTED | R009_USE_AFTER_FREE_DETECTED
  | R010_BUFFER_OVERFLOW_DETECTED | R011_INTEGER_OVERFLOW_DETECTED
  | R012_FLOATING_POINT_EXCEPTION | R013_INVALID_MEMORY_ACCESS
  | R014_INVALID_MEMORY_ALIGNMENT | R015_INVALID_MEMORY_SIZE | R016_INVALID_MEMORY_ADDRESS
  | R017_INVALID_MEMORY_MAPPING | R018_INVALID_MEMORY_PROTECTION
  | R019_INVALID_MEMORY_PERMISSION | R020_INVALID_MEMORY_REGION
  | R021_INVALID_MEMORY_OPERATION | R022_INVALID_MEMORY_STATE
  | R023_INVALID_MEMORY_CONSISTENCY | R024_INVALID_MEMORY_ORDERING
  | R025_INVALID_MEMORY_FENCE | R026_INVALID_MEMORY_BARRIER
  | R027_INVALID_MEMORY_SYNCHRONIZATION | R028_INVALID_MEMORY_COHERENCE
  | R029_INVALID_MEMORY_VISIBILITY | R030_INVALID_MEMORY_PERSISTENCE

datatype (plugins only: code size) io_error =
    I001_FILE_NOT_FOUND | I002_FILE_ACCESS_DENIED | I003_READ_ERROR | I004_WRITE_ERROR
  | I005_FILE_ALREADY_EXISTS | I006_INVALID_FILE_PATH | I007_INVALID_FILE_FORMAT
  | I008_INVALID_FILE_ENCODING | I009_INVALID_FILE_PERMISSION | I010_INVALID_FILE_MODE
  | I011_INVALID_FILE_DESCRIPTOR | I012_INVALID_FILE_OPERATION | I013_INVALID_FILE_STATE
  | I014_INVALID_FILE_POSITION | I015_INVALID_FILE_SIZE | I016_INVALID_FILE_TIMESTAMP
  | I017_INVALID_FILE_ATTRIBUTE | I018_INVALID_FILE_METADATA | I019_INVALID_FILE_CONTENT
  | I020_INVALID_FILE_STRUCTURE | I021_INVALID_FILE_VERSION | I022_INVALID_FILE_CHECKSUM
  | I023_INVALID_FILE_SIGNATURE | I024_INVALID_FILE_HEADER | I025_INVALID_FILE_FOOTER
  | I026_INVALID_FILE_SECTION | I027_INVALID_FILE_SEGMENT | I028_INVALID_FILE_BLOCK
  | I029_INVALID_FILE_RECORD | I030_INVALID_FILE_ENTRY

datatype (plugins only: code size) compiler_error =
    C001_UNIMPLEMENTED_FEATURE | C002_CODEGEN_ERROR | C003_OPTIMIZATION_ERROR
  | C004_INTERNAL_ASSERTION_FAILED | C005_INVALID_IR_GENERATION
  | C006_INVALID_OPTIMIZATION_PASS | C007_INVALID_CODE_GENERATION | C008_INVALID_LINKING
  | C009_INVALID_ASSEMBLY_GENERATION | C010_INVALID_OBJECT_FILE_GENERATION
  | C011_INVALID_EXECUTABLE_GENERATION | C012_INVALID_LIBRARY_GENERATION
  | C013_INVALID_MODULE_GENERATION | C014_INVALID_PACKAGE_GENERATION
  | C015_INVALID_DISTRIBUTION_GENERATION | C016_INVALID_INSTALLER_GENERATION
  | C017_INVALID_DEPLOYMENT_GENERATION | C018_INVALID_PACKAGING | C019_INVALID_SIGNING
  | C020_INVALID_VERIFICATION | C021_INVALID_VALIDATION | C022_INVALID_SANITIZATION
  | C023_INVALID_TRANSFORMATION | C024_INVALID_EMISSION | C025_INVALID_SERIALIZATION
  | C026_INVALID_DESERIALIZATION | C027_INVALID_MARSHALING | C028_INVALID_UNMARSHALING
  | C029_INVALID_ENCODING | C030_INVALID_DECODING | C031_TYPECHECK_ERROR

datatype (plugins only: code size) pattern_error =
    P001_NON_EXHAUSTIVE_PATTERNS | P002_INVALID_PATTERN | P003_INVALID_PATTERN_BINDING
  | P004_INVALID_PATTERN_GUARD | P005_INVALID_PATTERN_TYPE

datatype (plugins only: code size) ownership_error =
    B001_USE_AFTER_MOVE | B002_BORROW_CONFLICT | B003_MUTABILITY_ERROR
  | B004_MOVE_BORROWED_VALUE | B005_INVALID_BORROW | B006_INVALID_MOVE
  | B007_INVALID_REFERENCE | B008_INVALID_LIFETIME | B009_INVALID_OWNERSHIP
  | B010_INVALID_BORROW_CHECK

datatype (plugins only: code size) generic_error =
    G001_GENERIC_ERROR | G002_UNKNOWN_ERROR | G003_UNEXPECTED_ERROR | G004_SYSTEM_ERROR
  | G005_PLATFORM_ERROR | G006_ENVIRONMENT_ERROR | G007_CONFIGURATION_ERROR
  | G008_INITIALIZATION_ERROR | G009_TERMINATION_ERROR | G010_CLEANUP_ERROR
  | G011_RESOURCE_ERROR | G012_MEMORY_ERROR | G013_THREAD_ERROR | G014_PROCESS_ERROR
  | G015_SIGNAL_ERROR | G016_INTERRUPT_ERROR | G017_EXCEPTION_ERROR | G018_ABORT_ERROR
  | G019_PANIC_ERROR | G020_ASSERTION_ERROR | G021_DEBUG_ERROR | G022_TRACE_ERROR
  | G023_LOG_ERROR | G024_WARN_ERROR | G025_ERROR_ERROR | G026_FATAL_ERROR
  | G027_CRITICAL_ERROR | G028_SEVERE_ERROR | G029_EMERGENCY_ERROR | G030_DISASTER_ERROR

datatype (plugins only: code size) ErrorCode =
    Lexical lexical_error
  | Syntax syntax_error
  | Type type_error
  | Module module_error
  | FFI ffi_error
  | Concurrency concurrency_error
  | Runtime runtime_error
  | IO io_error
  | Compiler compiler_error
  | Pattern pattern_error
  | Ownership ownership_error
  | Generic generic_error

section \<open>errorCodeToString\<close>

text \<open>The cases of the \<open>switch\<close>, group by group.\<close>

definition lexical_error_codes :: "(lexical_error \<times> string) list" where
  "lexical_error_codes =
    [(L001_INVALID_CHARACTER, ''L001''), (L002_UNTERMINATED_STRING, ''L002'')
     , (L003_INVALID_NUMBER_FORMAT, ''L003''), (L004_TOO_MANY_ERRORS, ''L004'')
     , (L005_INVALID_ESCAPE_SEQUENCE, ''L005''), (L006_INVALID_UNICODE_ESCAPE, ''L006'')
     , (L007_INVALID_TEMPLATE_LITERAL, ''L007'')]"

definition syntax_error_codes :: "(syntax_error \<times> string) list" where
  "syntax_error_codes =
    [(S001_UNEXPECTED_TOKEN, ''S001''), (S002_MISSING_EXPECTED_TOKEN, ''S002'')
     , (S003_INVALID_EXPRESSION, ''S003''), (S004_INVALID_STATEMENT, ''S004'')
     , (S005_INVALID_ASSIGNMENT_TARGET, ''S005'')
     , (S006_INVALID_FUNCTION_DECLARATION, ''S006'')
     , (S007_INVALID_CLASS_DECLARATION, ''S007'')
     , (S008_INVALID_IMPORT_STATEMENT, ''S008''), (S009_INVALID_MATCH_STATEMENT, ''S009'')
     , (S010_INVALID_TRY_CATCH_BLOCK, ''S010''), (S011_INVALID_LOOP_STATEMENT, ''S011'')
     , (S012_INVALID_SWITCH_STATEMENT, ''S012'')
     , (S013_INVALID_ENUM_DECLARATION, ''S013'')
     , (S014_INVALID_STRUCT_DECLARATION, ''S014'')
     , (S015_INVALID_INTERFACE_DECLARATION, ''S015'')
     , (S016_INVALID_TRAIT_DECLARATION, ''S016''), (S017_INVALID_IMPL_BLOCK, ''S017'')
     , (S018_INVALID_MODULE_DECLARATION, ''S018'')
     , (S019_INVALID_NAMESPACE_DECLARATION, ''S019'')
     , (S020_INVALID_DEFER_STATEMENT, ''S020'')]"

definition type_error_codes :: "(type_error \<times> string) list" where
  "type_error_codes =
    [(T001_TYPE_MISMATCH, ''T001''), (T002_UNDEFINED_VARIABLE, ''T002'')
     , (T003_UNDEFINED_FUNCTION, ''T003''), (T004_UNDEFINED_CLASS, ''T004'')
     , (T005_UNDEFINED_METHOD, ''T005''), (T006_INVALID_OPERATOR_FOR_TYPE, ''T006'')
     , (T007_INVALID_FUNCTION_CALL, ''T007''), (T008_INVALID_METHOD_CALL, ''T008'')
     , (T009_INVALID_CONSTRUCTOR_CALL, ''T009''), (T010_INVALID_DESTRUCTOR_CALL, ''T010'')
     , (T011_INVALID_CAST, ''T011''), (T012_INVALID_CONVERSION, ''T012'')
     , (T013_INVALID_ASSIGNMENT, ''T013''), (T014_INVALID_RETURN_TYPE, ''T014'')
     , (T015_INVALID_PARAMETER_TYPE, ''T015''), (T016_INVALID_GENERIC_TYPE, ''T016'')
     , (T017_INVALID_TRAIT_IMPLEMENTATION, ''T017'')
     , (T018_INVALID_INTERFACE_IMPLEMENTATION, ''T018'')
     , (T019_INVALID_INHERITANCE, ''T019''), (T020_INVALID_OVERRIDE, ''T020'')
     , (T021_INVALID_ABSTRACT_METHOD, ''T021''), (T022_INVALID_FINAL_OVERRIDE, ''T022'')
     , (T023_INVALID_STATIC_METHOD, ''T023''), (T024_INVALID_VIRTUAL_METHOD, ''T024'')
     , (T025_INVALID_CONST_METHOD, ''T025''), (T026_INVALID_MUTABLE_REFERENCE, ''T026'')
     , (T027_INVALID_IMMUTABLE_REFERENCE, ''T027'')
     , (T028_INVALID_MOVE_SEMANTICS, ''T028'')
     , (T029_INVALID_OWNERSHIP_TRANSFER, ''T029''), (T030_INVALID_BORROW_CHECK, ''T030'')]"

definition module_error_codes :: "(module_error \<times> string) list" where
  "module_error_codes =
    [(M001_DUPLICATE_DEFINITION, ''M001''), (M002_CIRCULAR_DEPENDENCY, ''M002'')
     , (M003_INVALID_MODULE_PATH, ''M003''), (M004_MODULE_NOT_FOUND, ''M004'')
     , (M005_INVALID_MODULE_FORMAT, ''M005''), (M006_MODULE_NOT_FOUND, ''M006'')
     , (M007_INVALID_PACKAGE_NAME, ''M007''), (M008_INVALID_NAMESPACE_NAME, ''M008'')
     , (M009_INVALID_IMPORT_PATH, ''M009''), (M010_INVALID_EXPORT_STATEMENT, ''M010'')
     , (M011_INVALID_MODULE_STRUCTURE, ''M011'')
     , (M012_INVALID_PACKAGE_STRUCTURE, ''M012'')
     , (M013_INVALID_NAMESPACE_STRUCTURE, ''M013'')
     , (M014_INVALID_DEPENDENCY_DECLARATION, ''M014'')
     , (M015_INVALID_VERSION_SPECIFICATION, ''M015'')]"

definition ffi_error_codes :: "(ffi_error \<times> string) list" where
  "ffi_error_codes =
    [(F001_FFI_CALL_FAILED, ''F001''), (F002_INVALID_FFI_SIGNATURE, ''F002'')
     , (F003_INVALID_FFI_TYPE, ''F003''), (F004_INVALID_FFI_LIBRARY, ''F004'')
     , (F005_INVALID_FFI_FUNCTION, ''F005''), (F006_INVALID_FFI_PARAMETER, ''F006'')
     , (F007_INVALID_FFI_RETURN_TYPE, ''F007'')
     , (F008_INVALID_FFI_CALLING_CONVENTION, ''F008'')
     , (F009_INVALID_FFI_MARSHALING, ''F009''), (F010_INVALID_FFI_UNMARSHALING, ''F010'')
     , (F011_INVALID_FFI_MEMORY_MANAGEMENT, ''F011'')
     , (F012_INVALID_FFI_ERROR_HANDLING, ''F012'')
     , (F013_INVALID_FFI_THREAD_SAFETY, ''F013'')
     , (F014_INVALID_FFI_EXCEPTION_HANDLING, ''F014'')
     , (F015_INVALID_FFI_RESOURCE_MANAGEMENT, ''F015'')]"

definition concurrency_error_codes :: "(concurrency_error \<times> string) list" where
  "concurrency_error_codes =
    [(C001_CONCURRENCY_ERROR, ''C001''), (C002_DEADLOCK_DETECTED, ''C002'')
     , (C003_RACE_CONDITION_DETECTED, ''C003''), (C004_INVALID_THREAD_OPERATION, ''C004'')
     , (C005_INVALID_MUTEX_OPERATION, ''C005'')
     , (C006_INVALID_CONDITION_VARIABLE_OPERATION, ''C006'')
     , (C007_INVALID_SEMAPHORE_OPERATION, ''C007'')
     , (C008_INVALID_BARRIER_OPERATION, ''C008'')
     , (C009_INVALID_FUTURE_OPERATION, ''C009'')
     , (C010_INVALID_PROMISE_OPERATION, ''C010'')
     , (C011_INVALID_CHANNEL_OPERATION, ''C011'')
     , (C012_INVALID_SELECT_OPERATION, ''C012''), (C013_INVALID_SPAWN_OPERATION, ''C013'')
     , (C014_INVALID_JOIN_OPERATION, ''C014''), (C015_INVALID_YIELD_OPERATION, ''C015'')
     , (C016_INVALID_COROUTINE_OPERATION, ''C016'')
     , (C017_INVALID_GENERATOR_OPERATION, ''C017'')
     , (C018_INVALID_ASYNC_OPERATION, ''C018''), (C019_INVALID_AWAIT_OPERATION, ''C019'')
     , (C020_INVALID_ATOMIC_OPERATION, ''C020''), (C021_INVALID_MEMORY_ORDERING, ''C021'')
     , (C022_INVALID_FENCE_OPERATION, ''C022'')
     , (C023_INVALID_COMPARE_EXCHANGE_OPERATION, ''C023'')
     , (C024_INVALID_FETCH_OPERATION, ''C024''), (C025_INVALID_STORE_OPERATION, ''C025'')
     , (C026_INVALID_LOAD_OPERATION, ''C026'')
     , (C027_INVALID_EXCHANGE_OPERATION, ''C027'')
     , (C028_INVALID_TEST_AND_SET_OPERATION, ''C028'')
     , (C029_INVALID_CLEAR_OPERATION, ''C029''), (C030_INVALID_NOTIFY_OPERATION, ''C030'')]"

definition runtime_error_codes :: "(runtime_error \<times> string) list" where
  "runtime_error_codes =
    [(R001_RUNTIME_ERROR, ''R001''), (R002_NULL_POINTER_DEREFERENCE, ''R002'')
     , (R003_DIVISION_BY_ZERO, ''R003''), (R004_ARRAY_INDEX_OUT_OF_BOUNDS, ''R004'')
     , (R005_STACK_OVERFLOW, ''R005''), (R006_HEAP_OVERFLOW, ''R006'')
     , (R007_MEMORY_LEAK_DETECTED, ''R007''), (R008_DOUBLE_FREE_DETECTED, ''R008'')
     , (R009_USE_AFTER_FREE_DETECTED, ''R009''), (R010_BUFFER_OVERFLOW_DETECTED, ''R010'')
     , (R011_INTEGER_OVERFLOW_DETECTED, ''R011'')
     , (R012_FLOATING_POINT_EXCEPTION, ''R012''), (R013_INVALID_MEMORY_ACCESS, ''R013'')
     , (R014_INVALID_MEMORY_ALIGNMENT, ''R014''), (R015_INVALID_MEMORY_SIZE, ''R015'')
     , (R016_INVALID_MEMORY_ADDRESS, ''R016''), (R017_INVALID_MEMORY_MAPPING, ''R017'')
     , (R018_INVALID_MEMORY_PROTECTION, ''R018'')
     , (R019_INVALID_MEMORY_PERMISSION, ''R019''), (R020_INVALID_MEMORY_REGION, ''R020'')
     , (R021_INVALID_MEMORY_OPERATION, ''R021''), (R022_INVALID_MEMORY_STATE, ''R022'')
     , (R023_INVALID_MEMORY_CONSISTENCY, ''R023'')
     , (R024_INVALID_MEMORY_ORDERING, ''R024''), (R025_INVALID_MEMORY_FENCE, ''R025'')
     , (R026_INVALID_MEMORY_BARRIER, ''R026'')
     , (R027_INVALID_MEMORY_SYNCHRONIZATION, ''R027'')
     , (R028_INVALID_MEMORY_COHERENCE, ''R028'')
     , (R029_INVALID_MEMORY_VISIBILITY, ''R029'')
     , (R030_INVALID_MEMORY_PERSISTENCE, ''R030'')]"

definition io_error_codes :: "(io_error \<times> string) list" where
  "io_error_codes =
    [(I001_FILE_NOT_FOUND, ''I001''), (I002_FILE_ACCESS_DENIED, ''I002'')
     , (I003_READ_ERROR, ''I003''), (I004_WRITE_ERROR, ''I004'')
     , (I005_FILE_ALREADY_EXISTS, ''I005''), (I006_INVALID_FILE_PATH, ''I006'')
     , (I007_INVALID_FILE_FORMAT, ''I007''), (I008_INVALID_FILE_ENCODING, ''I008'')
     , (I009_INVALID_FILE_PERMISSION, ''I009''), (I010_INVALID_FILE_MODE, ''I010'')
     , (I011_INVALID_FILE_DESCRIPTOR, ''I011''), (I012_INVALID_FILE_OPERATION, ''I012'')
     , (I013_INVALID_FILE_STATE, ''I013''), (I014_INVALID_FILE_POSITION, ''I014'')
     , (I015_INVALID_FILE_SIZE, ''I015''), (I016_INVALID_FILE_TIMESTAMP, ''I016'')
     , (I017_INVALID_FILE_ATTRIBUTE, ''I017''), (I018_INVALID_FILE_METADATA, ''I018'')
     , (I019_INVALID_FILE_CONTENT, ''I019''), (I020_INVALID_FILE_STRUCTURE, ''I020'')
     , (I021_INVALID_FILE_VERSION, ''I021''), (I022_INVALID_FILE_CHECKSUM, ''I022'')
     , (I023_INVALID_FILE_SIGNATURE, ''I023''), (I024_INVALID_FILE_HEADER, ''I024'')
     , (I025_INVALID_FILE_FOOTER, ''I025''), (I026_INVALID_FILE_SECTION, ''I026'')
     , (I027_INVALID_FILE_SEGMENT, ''I027''), (I028_INVALID_FILE_BLOCK, ''I028'')
     , (I029_INVALID_FILE_RECORD, ''I029''), (I030_INVALID_FILE_ENTRY, ''I030'')]"

definition compiler_error_codes :: "(compiler_error \<times> string) list" where
  "compiler_error_codes =
    [(C001_UNIMPLEMENTED_FEATURE, ''C001''), (C002_CODEGEN_ERROR, ''C002'')
     , (C003_OPTIMIZATION_ERROR, ''C003''), (C004_INTERNAL_ASSERTION_FAILED, ''C004'')
     , (C005_INVALID_IR_GENERATION, ''C005''), (C006_INVALID_OPTIMIZATION_PASS, ''C006'')
     , (C007_INVALID_CODE_GENERATION, ''C007''), (C008_INVALID_LINKING, ''C008'')
     , (C009_INVALID_ASSEMBLY_GENERATION, ''C009'')
     , (C010_INVALID_OBJECT_FILE_GENERATION, ''C010'')
     , (C011_INVALID_EXECUTABLE_GENERATION, ''C011'')
     , (C012_INVALID_LIBRARY_GENERATION, ''C012'')
     , (C013_INVALID_MODULE_GENERATION, ''C013'')
     , (C014_INVALID_PACKAGE_GENERATION, ''C014'')
     , (C015_INVALID_DISTRIBUTION_GENERATION, ''C015'')
     , (C016_INVALID_INSTALLER_GENERATION, ''C016'')
     , (C017_INVALID_DEPLOYMENT_GENERATION, ''C017''), (C018_INVALID_PACKAGING, ''C018'')
     , (C019_INVALID_SIGNING, ''C019''), (C020_INVALID_VERIFICATION, ''C020'')
     , (C021_INVALID_VALIDATION, ''C021''), (C022_INVALID_SANITIZATION, ''C022'')
     , (C023_INVALID_TRANSFORMATION, ''C023''), (C024_INVALID_EMISSION, ''C024'')
     , (C025_INVALID_SERIALIZATION, ''C025''), (C026_INVALID_DESERIALIZATION, ''C026'')
     , (C027_INVALID_MARSHALING, ''C027''), (C028_INVALID_UNMARSHALING, ''C028'')
     , (C029_INVALID_ENCODING, ''C029''), (C030_INVALID_DECODING, ''C030'')
     , (C031_TYPECHECK_ERROR, ''C031'')]"

definition pattern_error_codes :: "(pattern_error \<times> string) list" where
  "pattern_error_codes =
    [(P001_NON_EXHAUSTIVE_PATTERNS, ''P001''), (P002_INVALID_PATTERN, ''P002'')
     , (P003_INVALID_PATTERN_BINDING, ''P003''), (P004_INVALID_PATTERN_GUARD, ''P004'')
     , (P005_INVALID_PATTERN_TYPE, ''P005'')]"

definition ownership_error_codes :: "(ownership_error \<times> string) list" where
  "ownership_error_codes =
    [(B001_USE_AFTER_MOVE, ''B001''), (B002_BORROW_CONFLICT, ''B002'')
     , (B003_MUTABILITY_ERROR, ''B003''), (B004_MOVE_BORROWED_VALUE, ''B004'')
     , (B005_INVALID_BORROW, ''B005''), (B006_INVALID_MOVE, ''B006'')
     , (B007_INVALID_REFERENCE, ''B007''), (B008_INVALID_LIFETIME, ''B008'')
     , (B009_INVALID_OWNERSHIP, ''B009''), (B010_INVALID_BORROW_CHECK, ''B010'')]"

definition generic_error_codes :: "(generic_error \<times> string) list" where
  "generic_error_codes =
    [(G001_GENERIC_ERROR, ''G001''), (G002_UNKNOWN_ERROR, ''G002'')
     , (G003_UNEXPECTED_ERROR, ''G003''), (G004_SYSTEM_ERROR, ''G004'')
     , (G005_PLATFORM_ERROR, ''G005''), (G006_ENVIRONMENT_ERROR, ''G006'')
     , (G007_CONFIGURATION_ERROR, ''G007''), (G008_INITIALIZATION_ERROR, ''G008'')
     , (G009_TERMINATION_ERROR, ''G009''), (G010_CLEANUP_ERROR, ''G010'')
     , (G011_RESOURCE_ERROR, ''G011''), (G012_MEMORY_ERROR, ''G012'')
     , (G013_THREAD_ERROR, ''G013''), (G014_PROCESS_ERROR, ''G014'')
     , (G015_SIGNAL_ERROR, ''G015''), (G016_INTERRUPT_ERROR, ''G016'')
     , (G017_EXCEPTION_ERROR, ''G017''), (G018_ABORT_ERROR, ''G018'')
     , (G019_PANIC_ERROR, ''G019''), (G020_ASSERTION_ERROR, ''G020'')
     , (G021_DEBUG_ERROR, ''G021''), (G022_TRACE_ERROR, ''G022'')
     , (G023_LOG_ERROR, ''G023''), (G024_WARN_ERROR, ''G024'')
     , (G025_ERROR_ERROR, ''G025''), (G026_FATAL_ERROR, ''G026'')
     , (G027_CRITICAL_ERROR, ''G027''), (G028_SEVERE_ERROR, ''G028'')
     , (G029_EMERGENCY_ERROR, ''G029''), (G030_DISASTER_ERROR, ''G030'')]"

definition code_or_default :: "('c \<times> string) list \<Rightarrow> 'c \<Rightarrow> string" where
  "code_or_default table c = (case map_of table c of Some s \<Rightarrow> s | None \<Rightarrow> ''G001'')"

fun errorCodeToString :: "ErrorCode \<Rightarrow> string" where
  "errorCodeToString (Lexical c) = code_or_default lexical_error_codes c"
| "errorCodeToString (Syntax c) = code_or_default syntax_error_codes c"
| "errorCodeToString (Type c) = code_or_default type_error_codes c"
| "errorCodeToString (Module c) = code_or_default module_error_codes c"
| "errorCodeToString (FFI c) = code_or_default ffi_error_codes c"
| "errorCodeToString (Concurrency c) = code_or_default concurrency_error_codes c"
| "errorCodeToString (Runtime c) = code_or_default runtime_error_codes c"
| "errorCodeToString (IO c) = code_or_default io_error_codes c"
| "errorCodeToString (Compiler c) = code_or_default compiler_error_codes c"
| "errorCodeToString (Pattern c) = code_or_default pattern_error_codes c"
| "errorCodeToString (Ownership c) = code_or_default ownership_error_codes c"
| "errorCodeToString (Generic c) = code_or_default generic_error_codes c"

section \<open>The error handler\<close>

datatype ErrorSeverity = WARNING | ERROR_SEVERITY | FATAL_SEVERITY

text \<open>\<open>struct Error\<close>.\<close>

record Error =
  ecode :: ErrorCode
  emessage :: string
  efilename :: string
  eline :: int
  ecolumn :: int
  eseverity :: ErrorSeverity

text \<open>\<open>class ErrorHandler\<close>; \<open>mutex_held\<close> is the state of its mutex and \<open>cerr\<close> the lines
  printed so far.\<close>

record ErrorHandler =
  errors :: "Error list"
  mutex_held :: bool
  fatalErrorFound :: bool
  defaultFilename :: string
  cerr :: "string list"

datatype lock_error = Self_Deadlock

definition new_ErrorHandler :: ErrorHandler where
  "new_ErrorHandler = \<lparr>errors = [], mutex_held = False, fatalErrorFound = False,
     defaultFilename = ''<unknown>'', cerr = []\<rparr>"

text \<open>\<open>std::lock_guard<std::mutex> lock(mutex); \<dots>\<close>: the body runs with the mutex held, and
  the guard releases it when the body returns. Locking a mutex the thread holds
  never returns.\<close>

definition lock_guard ::
  "(ErrorHandler \<Rightarrow> lock_error + 'a \<times> ErrorHandler) \<Rightarrow> ErrorHandler \<Rightarrow> lock_error + 'a \<times> ErrorHandler" where
  "lock_guard body h =
     (if mutex_held h then Inl Self_Deadlock
      else case body (h\<lparr>mutex_held := True\<rparr>) of
             Inl e \<Rightarrow> Inl e
           | Inr (r, h') \<Rightarrow> Inr (r, h'\<lparr>mutex_held := False\<rparr>))"

definition effectiveFilename :: "ErrorHandler \<Rightarrow> string \<Rightarrow> string" where
  "effectiveFilename h filename = (if filename = [] then defaultFilename h else filename)"

definition report_line :: "string \<Rightarrow> ErrorCode \<Rightarrow> string \<Rightarrow> int \<Rightarrow> int \<Rightarrow> ErrorSeverity \<Rightarrow> string" where
  "report_line file ec msg l c sev =
     file @ '':'' @ show_int l @ '':'' @ show_int c @ '': ''
     @ (if sev = WARNING then ''warning'' else ''error'')
     @ '' ['' @ errorCodeToString ec @ '']: '' @ msg"

text \<open>The critical section of the primary \<open>reportError\<close>.\<close>

definition record_error ::
  "ErrorCode \<Rightarrow> string \<Rightarrow> string \<Rightarrow> int \<Rightarrow> int \<Rightarrow> ErrorSeverity \<Rightarrow> ErrorHandler \<Rightarrow> ErrorHandler" where
  "record_error ec msg filename l c sev h =
     (let file = effectiveFilename h filename in
      h\<lparr>errors := errors h @ [\<lparr>ecode = ec, emessage = msg, efilename = file, eline = l,
                              ecolumn = c, eseverity = sev\<rparr>],
        fatalErrorFound := (if sev = FATAL_SEVERITY then True else fatalErrorFound h),
        cerr := cerr h @ [report_line file ec msg l c sev]\<rparr>)"

definition reportError ::
  "ErrorCode \<Rightarrow> string \<Rightarrow> string \<Rightarrow> int \<Rightarrow> int \<Rightarrow> ErrorSeverity \<Rightarrow> ErrorHandler
     \<Rightarrow> lock_error + unit \<times> ErrorHandler" where
  "reportError ec msg filename l c sev =
     lock_guard (\<lambda>h. Inr ((), record_error ec msg filename l c sev h))"

text \<open>The overload that takes a token, and the one without a location.\<close>

definition reportError_token ::
  "ErrorCode \<Rightarrow> string \<Rightarrow> token \<Rightarrow> ErrorSeverity \<Rightarrow> ErrorHandler \<Rightarrow> lock_error + unit \<times> ErrorHandler" where
  "reportError_token ec msg t sev = reportError ec msg (tfilename t) (line t) (column t) sev"

definition reportError_general ::
  "ErrorCode \<Rightarrow> string \<Rightarrow> ErrorSeverity \<Rightarrow> ErrorHandler \<Rightarrow> lock_error + unit \<times> ErrorHandler" where
  "reportError_general ec msg sev h = reportError ec msg (defaultFilename h) 0 0 sev h"

definition hasErrors :: "ErrorHandler \<Rightarrow> lock_error + bool \<times> ErrorHandler" where
  "hasErrors = lock_guard (\<lambda>h. Inr
     (list_ex (\<lambda>e. eseverity e = ERROR_SEVERITY \<or> eseverity e = FATAL_SEVERITY) (errors h), h))"

definition hasFatalErrors :: "ErrorHandler \<Rightarrow> lock_error + bool \<times> ErrorHandler" where
  "hasFatalErrors = lock_guard (\<lambda>h. Inr
     (list_ex (\<lambda>e. eseverity e = FATAL_SEVERITY) (errors h), h))"

definition getErrors :: "ErrorHandler \<Rightarrow> lock_error + Error list \<times> ErrorHandler" where
  "getErrors = lock_guard (\<lambda>h. Inr (errors h, h))"

definition setFatal :: "bool \<Rightarrow> ErrorHandler \<Rightarrow> lock_error + unit \<times> ErrorHandler" where
  "setFatal fatal = lock_guard (\<lambda>h. Inr ((), h\<lparr>fatalErrorFound := fatal\<rparr>))"

text \<open>\<open>return fatalErrorFound || hasFatalErrors();\<close> under the guard: the call on the right
  takes the mutex again.\<close>

definition isFatal :: "ErrorHandler \<Rightarrow> lock_error + bool \<times> ErrorHandler" where
  "isFatal = lock_guard (\<lambda>h.
     if fatalErrorFound h then Inr (True, h) else hasFatalErrors h)"

definition clearErrors :: "ErrorHandler \<Rightarrow> lock_error + unit \<times> ErrorHandler" where
  "clearErrors = lock_guard (\<lambda>h. Inr ((), h\<lparr>errors := [], fatalErrorFound := False\<rparr>))"

text \<open>The operations a client can call, as one relation between handler states.\<close>

inductive handler_step :: "ErrorHandler \<Rightarrow> ErrorHandler \<Rightarrow> bool" where
  step_report: "reportError ec msg f l c sev h = Inr ((), h') \<Longrightarrow> handler_step h h'"
| step_report_token: "reportError_token ec msg tok sev h = Inr ((), h') \<Longrightarrow> handler_step h h'"
| step_report_general: "reportError_general ec msg sev h = Inr ((), h') \<Longrightarrow> handler_step h h'"
| step_hasErrors: "hasErrors h = Inr (b, h') \<Longrightarrow> handler_step h h'"
| step_hasFatalErrors: "hasFatalErrors h = Inr (b, h') \<Longrightarrow> handler_step h h'"
| step_getErrors: "getErrors h = Inr (es, h') \<Longrightarrow> handler_step h h'"
| step_isFatal: "isFatal h = Inr (b, h') \<Longrightarrow> handler_step h h'"
| step_clearErrors: "clearErrors h = Inr ((), h') \<Longrightarrow> handler_step h h'"

inductive handler_reachable :: "ErrorHandler \<Rightarrow> bool" where
  handler_start: "handler_reachable new_ErrorHandler"
| handler_next: "handler_reachable h \<Longrightarrow> handler_step h h' \<Longrightarrow> handler_reachable h'"

section \<open>Lemmas\<close>

lemmas handler_defs = lock_guard_def reportError_def reportError_token_def
  reportError_general_def hasErrors_def hasFatalErrors_def getErrors_def isFatal_def
  clearErrors_def record_error_def Let_def

lemma reportError_unlocked:
  "\<not> mutex_held h \<Longrightarrow>
   reportError ec msg f l c sev h = Inr ((), record_error ec msg f l c sev h)"
  by (simp add: reportError_def lock_guard_def record_error_def effectiveFilename_def Let_def)

lemma record_error_sel [simp]:
  "mutex_held (record_error ec msg f l c sev h) = mutex_held h"
  "length (errors (record_error ec msg f l c sev h)) = Suc (length (errors h))"
  by (simp_all add: record_error_def Let_def)

text \<open>The invariant of a handler nobody called \<open>setFatal\<close> on: the mutex is free between
  calls, and the flag agrees with the severities in the list.\<close>

definition handler_inv :: "ErrorHandler \<Rightarrow> bool" where
  "handler_inv h \<longleftrightarrow> \<not> mutex_held h
     \<and> fatalErrorFound h = list_ex (\<lambda>e. eseverity e = FATAL_SEVERITY) (errors h)"

lemma handler_inv_new: "handler_inv new_ErrorHandler"
  by (simp add: handler_inv_def new_ErrorHandler_def)

lemma handler_step_inv: "handler_step h h' \<Longrightarrow> handler_inv h \<Longrightarrow> handler_inv h'"
  by (induction rule: handler_step.induct)
     (auto simp: handler_inv_def handler_defs split: if_splits sum.splits)

lemma handler_reachable_inv: "handler_reachable h \<Longrightarrow> handler_inv h"
  by (induction rule: handler_reachable.induct) (auto intro: handler_inv_new handler_step_inv)

section \<open>Properties\<close>

text \<open>C11: on every handler a client can reach (one nobody called \<open>setFatal\<close> on), \<open>isFatal\<close> answers
  only when a fatal error was recorded; otherwise it takes its own mutex twice and never
  returns.\<close>

theorem isFatal_deadlocks:
  assumes "handler_reachable h"
  shows "isFatal h = (if list_ex (\<lambda>e. eseverity e = FATAL_SEVERITY) (errors h)
                      then Inr (True, h) else Inl Self_Deadlock)"
  using handler_reachable_inv [OF assms] by (simp add: handler_inv_def handler_defs)

lemma isFatal_deadlocks_witness:
  "isFatal new_ErrorHandler = Inl Self_Deadlock"
  using isFatal_deadlocks [OF handler_start] by (simp add: new_ErrorHandler_def)

text \<open>A report on a reachable handler returns, appends exactly its error with the file name
  filled in and prints one line, and afterwards \<open>hasErrors\<close> answers whether that error or an
  earlier one is not a warning.\<close>

theorem reportError_then_hasErrors:
  assumes "handler_reachable h"
  shows "reportError ec msg f l c sev h = Inr ((), record_error ec msg f l c sev h)
    \<and> errors (record_error ec msg f l c sev h) = errors h
        @ [\<lparr>ecode = ec, emessage = msg, efilename = effectiveFilename h f, eline = l,
            ecolumn = c, eseverity = sev\<rparr>]
    \<and> length (cerr (record_error ec msg f l c sev h)) = length (cerr h) + 1
    \<and> hasErrors (record_error ec msg f l c sev h)
        = Inr (sev \<noteq> WARNING \<or> list_ex (\<lambda>e. eseverity e \<noteq> WARNING) (errors h),
               record_error ec msg f l c sev h)"
proof -
  have sev: "(s = ERROR_SEVERITY \<or> s = FATAL_SEVERITY) = (s \<noteq> WARNING)" for s
    by (cases s) auto
  show ?thesis
    using handler_reachable_inv [OF assms]
    by (auto simp: handler_inv_def handler_defs effectiveFilename_def sev)
qed

lemma reportError_then_hasErrors_witness:
  "hasErrors (record_error (Lexical L001_INVALID_CHARACTER) ''m'' [] 1 2 WARNING new_ErrorHandler)
     = Inr (False, record_error (Lexical L001_INVALID_CHARACTER) ''m'' [] 1 2 WARNING new_ErrorHandler)"
  using reportError_then_hasErrors [OF handler_start] by (simp add: new_ErrorHandler_def)

text \<open>The names of each family, by their first letter. The compiler family has the letter of the
  concurrency family, its only name of its own is the last one.\<close>

definition code_families :: "(char \<times> string list) list" where
  "code_families =
     [(CHR ''L'', map snd lexical_error_codes), (CHR ''S'', map snd syntax_error_codes),
      (CHR ''T'', map snd type_error_codes), (CHR ''M'', map snd module_error_codes),
      (CHR ''F'', map snd ffi_error_codes), (CHR ''C'', map snd concurrency_error_codes @ [''C031'']),
      (CHR ''R'', map snd runtime_error_codes), (CHR ''I'', map snd io_error_codes),
      (CHR ''P'', map snd pattern_error_codes), (CHR ''B'', map snd ownership_error_codes),
      (CHR ''G'', map snd generic_error_codes)]"

definition code_number :: "string \<Rightarrow> nat" where
  "code_number s = foldl (\<lambda>n c. 10 * n + (code c - 48)) 0 (tl s)"

primrec consecutive :: "nat \<Rightarrow> nat list \<Rightarrow> bool" where
  "consecutive n [] \<longleftrightarrow> True"
| "consecutive n (x # xs) \<longleftrightarrow> x = n \<and> consecutive (Suc n) xs"

lemma consecutive_distinct: "consecutive n xs \<Longrightarrow> distinct xs \<and> (\<forall>x \<in> set xs. n \<le> x)"
  by (induction xs arbitrary: n) force+

definition numbered :: "char \<times> string list \<Rightarrow> bool" where
  "numbered f \<longleftrightarrow> list_all (\<lambda>s. hd s = fst f) (snd f)
     \<and> consecutive 1 (map code_number (snd f))"

lemma numbered_distinct:
  "list_all numbered fs \<Longrightarrow> distinct (map fst fs) \<Longrightarrow> distinct (concat (map snd fs))"
proof (induction fs)
  case (Cons f fs)
  have "distinct (map code_number (snd f))" using Cons.prems(1)
    by (auto simp: numbered_def dest: consecutive_distinct)
  then have "distinct (snd f)" by (simp add: distinct_map)
  moreover have "s \<notin> set (snd g)" if "s \<in> set (snd f)" "g \<in> set fs" for s g
  proof
    assume "s \<in> set (snd g)"
    moreover have "numbered f" "numbered g" using Cons.prems(1) that(2) by (auto simp: list_all_iff)
    ultimately have "fst f = hd s" "fst g = hd s" using that(1) by (auto simp: numbered_def list_all_iff)
    with Cons.prems(2) that(2) show False by (auto simp: image_iff)
  qed
  ultimately show ?case using Cons.IH Cons.prems by auto
qed simp

text \<open>No two codes that have a name of their own share it, except that the names of the
  concurrency codes are, one by one, the names of the first thirty compiler codes.\<close>

theorem error_code_names:
  "distinct (concat (map snd code_families))
   \<and> map snd compiler_error_codes = map snd concurrency_error_codes @ [''C031'']"
proof
  have "list_all numbered code_families" by code_simp
  moreover have "distinct (map fst code_families)" by (simp add: code_families_def)
  ultimately show "distinct (concat (map snd code_families))" by (rule numbered_distinct)
  show "map snd compiler_error_codes = map snd concurrency_error_codes @ [''C031'']" by code_simp
qed

text \<open>The codes T031 to T034 have no name and are printed as the unknown error.\<close>

theorem unnamed_error_codes:
  "errorCodeToString (Type c) = ''G001'' \<longleftrightarrow> c \<notin> set (map fst type_error_codes)"
proof -
  have "list_all (\<lambda>x. snd x \<noteq> ''G001'') type_error_codes" by code_simp
  then show ?thesis
    by (auto simp: code_or_default_def list_all_iff map_of_eq_None_iff image_iff
        split: option.split dest!: map_of_SomeD)
qed

end
