(* ===== verification/Tocin_Lexer_State.thy ===== *)
theory Tocin_Lexer_State
  imports Tocin_Errors "HOL-Library.Signed_Division"
begin

text \<open>
  The state of the lexer (the members of \<open>class Lexer\<close> in \<open>src/lexer/lexer.h\<close>), the cursor
  operations of \<open>src/lexer/lexer.cpp\<close>, \<open>reportError\<close>, and \<open>skipWhitespace\<close> with the comments. A
  read past the end is the NUL character that \<open>peek\<close>, \<open>peekNext\<close> and \<open>advance\<close> return there.

  Two locales state what an invariant of the lexer has to satisfy:
  \<open>cursor_invariant\<close> for a property kept by the operations that only move the cursor, and
  \<open>lexer_invariant\<close> for one that the operations emitting tokens keep too. Each loop of the
  lexer is shown once, inside the locales, to keep any such property. Two instances
  give the termination of the loops: \<open>moves\<close> (the cursor goes forward and nothing else
  changes) and \<open>ext\<close> (the cursor goes forward and tokens are appended).
\<close>

section \<open>State\<close>

text \<open>\<open>divided_by_zero\<close> is not a member of the class: it records that the run was killed by the division
  of \<open>handleIndentation\<close>. What the other fields are from then on has no meaning for the program.\<close>

record lexer =
  source :: string
  filename :: string
  tokens :: "token list"
  start :: nat
  current :: nat
  line_no :: int
  col_no :: int
  indentLevel :: int
  atLineStart :: bool
  indentSize :: int
  braceDepth :: int
  errorHandler :: ErrorHandler
  errorCount :: int
  maxErrors :: int
  divided_by_zero :: bool

definition Lexer :: "string \<Rightarrow> string \<Rightarrow> int \<Rightarrow> lexer" where
  "Lexer src file indent =
     \<lparr>source = src, filename = file, tokens = [], start = 0, current = 0, line_no = 1, col_no = 1,
      indentLevel = 0, atLineStart = True, indentSize = indent, braceDepth = 0,
      errorHandler = new_ErrorHandler, errorCount = 0, maxErrors = 100, divided_by_zero = False\<rparr>"

text \<open>The number of characters left: the measure of every loop below.\<close>

definition remaining :: "lexer \<Rightarrow> nat" where
  "remaining s = length (source s) - current s"

section \<open>Cursor operations\<close>

definition isAtEnd :: "lexer \<Rightarrow> bool" where
  "isAtEnd s \<longleftrightarrow> length (source s) \<le> current s"

definition peek :: "lexer \<Rightarrow> char" where
  "peek s = (if isAtEnd s then NUL else source s ! current s)"

definition peekNext :: "lexer \<Rightarrow> char" where
  "peekNext s = (if length (source s) \<le> current s + 1 then NUL else source s ! (current s + 1))"

text \<open>\<open>advance()\<close> returns the character it passes, that is \<open>peek()\<close> of the state before.
  \<open>adv\<close> is the state it leaves.\<close>

definition adv :: "lexer \<Rightarrow> lexer" where
  "adv s = (if isAtEnd s then s else s\<lparr>current := current s + 1, col_no := col_no s + 1\<rparr>)"

definition advance :: "lexer \<Rightarrow> char \<times> lexer" where
  "advance s = (peek s, adv s)"

text \<open>\<open>match(expected)\<close> returns true, and moves like \<open>advance()\<close>, exactly when
  \<open>matches expected\<close> holds.\<close>

definition matches :: "char \<Rightarrow> lexer \<Rightarrow> bool" where
  "matches expected s \<longleftrightarrow> \<not> isAtEnd s \<and> source s ! current s = expected"

text \<open>\<open>++line; column = 1;\<close> and, where the source has it, \<open>atLineStart = true;\<close>\<close>

definition count_line :: "bool \<Rightarrow> lexer \<Rightarrow> lexer" where
  "count_line mark s =
     s\<lparr>line_no := line_no s + 1, col_no := 1, atLineStart := mark \<or> atLineStart s\<rparr>"

definition emit :: "TokenType \<Rightarrow> string \<Rightarrow> int \<Rightarrow> int \<Rightarrow> lexer \<Rightarrow> lexer" where
  "emit t v l c s = s\<lparr>tokens := tokens s @ [Token t v (filename s) l c]\<rparr>"

text \<open>A token whose text ends at the current column: \<open>line, column - value.length()\<close>.\<close>

definition emit_here :: "TokenType \<Rightarrow> string \<Rightarrow> lexer \<Rightarrow> lexer" where
  "emit_here t v s = emit t v (line_no s) (col_no s - int (length v)) s"

definition reportLexError :: "lexical_error \<Rightarrow> string \<Rightarrow> lexer \<Rightarrow> lexer" where
  "reportLexError ec msg s =
     (let n = errorCount s + 1;
          h = record_error (Lexical ec) msg (filename s) (line_no s) (col_no s)
                ERROR_SEVERITY (errorHandler s)
      in s\<lparr>errorCount := n,
           errorHandler :=
             (if n \<ge> maxErrors s
              then record_error (Lexical L004_TOO_MANY_ERRORS)
                     ''Too many lexer errors, stopping tokenization''
                     (filename s) (line_no s) (col_no s) FATAL_SEVERITY h
              else h)\<rparr>)"

subsection \<open>Basic facts\<close>

lemma remaining_adv: "\<not> isAtEnd s \<Longrightarrow> remaining (adv s) < remaining s"
  by (simp add: remaining_def adv_def isAtEnd_def)

lemma remaining_simps [simp]:
  "remaining (count_line b s) = remaining s"
  "remaining (emit ty v l c s) = remaining s"
  "remaining (reportLexError e m s) = remaining s"
  "remaining (s\<lparr>start := n\<rparr>) = remaining s"
  "remaining (s\<lparr>atLineStart := b\<rparr>) = remaining s"
  by (simp_all add: remaining_def count_line_def emit_def reportLexError_def Let_def)

lemma line_no_simps [simp]:
  "line_no (adv s) = line_no s"
  "line_no (emit ty v l c s) = line_no s"
  "line_no (reportLexError e m s) = line_no s"
  "line_no (count_line b s) = line_no s + 1"
  by (simp_all add: adv_def emit_def reportLexError_def count_line_def Let_def)

lemma isAtEnd_remaining: "isAtEnd s \<longleftrightarrow> remaining s = 0"
  by (auto simp: isAtEnd_def remaining_def)

lemma remaining_adv_count_line: "\<not> isAtEnd s \<Longrightarrow> remaining (adv (count_line b s)) < remaining s"
  using remaining_adv [of "count_line b s"] by (simp add: isAtEnd_remaining)

lemma peek_not_end: "peek s = c \<Longrightarrow> c \<noteq> NUL \<Longrightarrow> \<not> isAtEnd s"
  by (auto simp: peek_def)

lemma matches_peek: "matches c s \<longleftrightarrow> \<not> isAtEnd s \<and> peek s = c"
  by (auto simp: matches_def peek_def)

section \<open>What an invariant of the lexer has to satisfy\<close>

locale cursor_invariant =
  fixes I :: "lexer \<Rightarrow> bool"
  assumes inv_adv: "I s \<Longrightarrow> I (adv s)"
    and inv_count_line: "I s \<Longrightarrow> I (count_line b s)"
    and inv_start: "I s \<Longrightarrow> I (s\<lparr>start := n\<rparr>)"
    and inv_atLineStart: "I s \<Longrightarrow> I (s\<lparr>atLineStart := m\<rparr>)"

text \<open>The token types the scanners emit besides braces, INDENT, DEDENT and the end of file.\<close>

definition plain :: "TokenType \<Rightarrow> bool" where
  "plain ty \<longleftrightarrow> ty \<noteq> Layout INDENT \<and> ty \<noteq> Layout DEDENT \<and> ty \<noteq> Special EOF_TOKEN
     \<and> ty \<noteq> Single LEFT_BRACE \<and> ty \<noteq> Single RIGHT_BRACE"

text \<open>\<open>I l s\<close> is the invariant together with: the next token may carry the line \<open>l\<close>. A string or a
  template is emitted with the line it starts on, every other token with the current line.\<close>

definition settled :: "(int \<Rightarrow> lexer \<Rightarrow> bool) \<Rightarrow> lexer \<Rightarrow> bool" where
  "settled I s \<longleftrightarrow> I (line_no s) s"

definition set_indent :: "int \<Rightarrow> lexer \<Rightarrow> lexer" where
  "set_indent new s =
     (let mk = (\<lambda>ty. Token (Layout ty) [] (filename s) (line_no s) (col_no s)) in
      s\<lparr>tokens := tokens s @
          (if new > indentLevel s then replicate (nat (new - indentLevel s)) (mk INDENT)
           else if new < indentLevel s then replicate (nat (indentLevel s - new)) (mk DEDENT)
           else []),
        indentLevel := new\<rparr>)"

text \<open>\<open>int newIndentLevel = spaces / indentSize\<close>: the quotient is rounded to zero, and a size of zero,
  which the constructor accepts, kills the process.\<close>

definition divide_indent :: "int \<Rightarrow> lexer \<Rightarrow> lexer" where
  "divide_indent spaces s =
     (if indentSize s = 0 then s\<lparr>divided_by_zero := True\<rparr>
      else set_indent (spaces sdiv indentSize s) s)"

definition change_brace :: "int \<Rightarrow> lexer \<Rightarrow> lexer" where
  "change_brace d s = s\<lparr>braceDepth := braceDepth s + d\<rparr>"

locale lexer_invariant =
  fixes I :: "int \<Rightarrow> lexer \<Rightarrow> bool"
  assumes cursor: "cursor_invariant (I l)"
    and settle: "I l s \<Longrightarrow> settled I s"
    and inv_report: "I l s \<Longrightarrow> I l (reportLexError ec m s)"
    and inv_emit: "I l s \<Longrightarrow> plain ty \<Longrightarrow> I l (emit ty v l c s)"
    and inv_set_indent: "settled I s \<Longrightarrow> (0 < indentSize s \<Longrightarrow> 0 \<le> n) \<Longrightarrow> settled I (set_indent n s)"
    and inv_divided: "settled I s \<Longrightarrow> indentSize s = 0 \<Longrightarrow> settled I (s\<lparr>divided_by_zero := True\<rparr>)"
    and inv_open_brace: "settled I s \<Longrightarrow> settled I (emit_here (Single LEFT_BRACE) v (change_brace 1 s))"
    and inv_close_brace: "settled I s \<Longrightarrow> settled I (emit_here (Single RIGHT_BRACE) v (change_brace (- 1) s))"
begin

sublocale cursor: cursor_invariant "I l" for l
  by (rule cursor)

lemma settled_adv: "settled I s \<Longrightarrow> settled I (adv s)"
  using cursor.inv_adv by (simp add: settled_def)

lemma settled_count_line: "settled I s \<Longrightarrow> settled I (count_line b s)"
  unfolding settled_def [of I s] by (rule settle [OF cursor.inv_count_line])

lemma settled_report: "settled I s \<Longrightarrow> settled I (reportLexError ec m s)"
  using inv_report by (simp add: settled_def)

lemma settled_emit_here: "settled I s \<Longrightarrow> plain ty \<Longrightarrow> settled I (emit_here ty v s)"
  using inv_emit by (simp add: settled_def emit_here_def)

lemma settled_divide_indent:
  assumes "settled I s" and "0 \<le> indentSize s \<Longrightarrow> 0 \<le> n"
  shows "settled I (divide_indent n s)"
proof -
  have "0 < indentSize s \<Longrightarrow> 0 \<le> n sdiv indentSize s"
    using assms(2) by (simp add: signed_divide_int_def sgn_if pos_imp_zdiv_nonneg_iff)
  then show ?thesis
    using assms(1) by (auto simp: divide_indent_def intro: inv_set_indent inv_divided)
qed

lemma settled_cursor: "settled I s \<Longrightarrow> (\<And>l. I l s \<Longrightarrow> I l t) \<Longrightarrow> settled I t"
  unfolding settled_def [of I s] by (rule settle)

end

text \<open>\<open>moves s t\<close>: \<open>t\<close> is reached from \<open>s\<close> by moving the cursor forward inside the source,
  with no token, error or indentation change in between.\<close>

definition moves :: "lexer \<Rightarrow> lexer \<Rightarrow> bool" where
  "moves s t \<longleftrightarrow> source t = source s \<and> filename t = filename s \<and> tokens t = tokens s
     \<and> indentLevel t = indentLevel s \<and> indentSize t = indentSize s \<and> braceDepth t = braceDepth s
     \<and> errorHandler t = errorHandler s \<and> errorCount t = errorCount s \<and> maxErrors t = maxErrors s
     \<and> current s \<le> current t \<and> current t \<le> max (current s) (length (source s))
     \<and> line_no s \<le> line_no t"

interpretation moves: cursor_invariant "moves s" for s
  by unfold_locales (auto simp: moves_def adv_def isAtEnd_def count_line_def)

lemma moves_refl [intro!, simp]: "moves s s"
  by (simp add: moves_def)

lemma moves_remaining: "moves s t \<Longrightarrow> remaining t \<le> remaining s"
  by (auto simp: moves_def remaining_def)

lemma moves_less:
  assumes "moves (adv s) t" and "\<not> isAtEnd s"
  shows "remaining t < remaining s"
  using moves_remaining [OF assms(1)] remaining_adv [OF assms(2)] by linarith

text \<open>\<open>ext s t\<close>: as \<open>moves\<close>, but tokens and errors may have been added on the way.\<close>

definition ext :: "lexer \<Rightarrow> lexer \<Rightarrow> bool" where
  "ext s t \<longleftrightarrow> source t = source s \<and> filename t = filename s \<and> indentSize t = indentSize s
     \<and> maxErrors t = maxErrors s \<and> errorCount s \<le> errorCount t
     \<and> current s \<le> current t \<and> current t \<le> max (current s) (length (source s))
     \<and> line_no s \<le> line_no t \<and> (\<exists>ts. tokens t = tokens s @ ts)"

interpretation ext: lexer_invariant "\<lambda>l. ext s" for s
  by unfold_locales
     (auto simp: ext_def settled_def adv_def isAtEnd_def count_line_def reportLexError_def Let_def
        emit_def emit_here_def set_indent_def change_brace_def)

lemma ext_refl [intro!, simp]: "ext s s"
  by (simp add: ext_def)

lemma ext_trans: "ext s t \<Longrightarrow> ext t u \<Longrightarrow> ext s u"
  by (auto simp: ext_def)

lemma settled_ext [simp]: "settled (\<lambda>l. ext s) t \<longleftrightarrow> ext s t"
  by (simp add: settled_def)

lemma ext_remaining: "ext s t \<Longrightarrow> remaining t \<le> remaining s"
  by (auto simp: ext_def remaining_def)

lemma ext_less: "ext (adv s) t \<Longrightarrow> \<not> isAtEnd s \<Longrightarrow> remaining t < remaining s"
  using ext_remaining [of "adv s" t] remaining_adv [of s] by linarith

section \<open>Whitespace and comments\<close>

text \<open>\<open>while (!isAtEnd() && !stop()) { if (peek() == '\n') { ++line; column = 1; \<dots> } advance(); }\<close>:
  the loop inside every comment. A line comment stops at the newline, so the inner
  test never fires there.\<close>

function skip_until :: "(lexer \<Rightarrow> bool) \<Rightarrow> bool \<Rightarrow> lexer \<Rightarrow> lexer" where
  "skip_until stop mark s =
     (if isAtEnd s \<or> stop s then s
      else skip_until stop mark (adv (if peek s = NL then count_line mark s else s)))"
  by pat_completeness auto
termination
  by (relation "measure (\<lambda>(stop, mark, s). remaining s)")
     (auto simp: remaining_adv remaining_adv_count_line)

declare skip_until.simps [simp del]

context cursor_invariant begin

lemma inv_skip_until: "I t \<Longrightarrow> I (skip_until stop mark t)"
proof (induction stop mark t rule: skip_until.induct)
  case (1 stop mark t)
  show ?case
  proof (cases "isAtEnd t \<or> stop t")
    case True
    with 1 show ?thesis by (simp add: skip_until.simps)
  next
    case False
    from "1.prems" have "I (adv (if peek t = NL then count_line mark t else t))"
      by (auto intro: inv_adv inv_count_line)
    from "1.IH" [OF False this] False show ?thesis by (subst skip_until.simps) simp
  qed
qed

end

definition at_newline :: "lexer \<Rightarrow> bool" where
  "at_newline s \<longleftrightarrow> peek s = NL"

definition at_star_slash :: "lexer \<Rightarrow> bool" where
  "at_star_slash s \<longleftrightarrow> peek s = CHR ''*'' \<and> peekNext s = CHR ''/''"

definition at_hash_hash :: "lexer \<Rightarrow> bool" where
  "at_hash_hash s \<longleftrightarrow> peek s = HASH \<and> peekNext s = HASH"

text \<open>After the two slashes of a C-style line comment, or the hash of a Python-style one.\<close>

definition line_comment :: "lexer \<Rightarrow> lexer" where
  "line_comment s =
     (let s1 = skip_until at_newline True s in
      if \<not> isAtEnd s1 \<and> peek s1 = NL then adv (count_line True s1) else s1)"

text \<open>After the opening of a C-style multi-line comment.\<close>

definition block_comment :: "lexer \<Rightarrow> lexer" where
  "block_comment s =
     (let s1 = skip_until at_star_slash True s in
      if \<not> isAtEnd s1 then adv (adv s1) else s1)"

text \<open>After the first hash: a second one opens a multi-line comment.\<close>

definition hash_comment :: "lexer \<Rightarrow> lexer" where
  "hash_comment s =
     (if matches HASH s then
        (let s1 = skip_until at_hash_hash True (adv s) in
         if matches HASH s1 then adv (adv s1) else s1)
      else line_comment s)"

context cursor_invariant begin

lemma inv_line_comment: "I t \<Longrightarrow> I (line_comment t)"
  by (auto simp: line_comment_def Let_def intro: inv_adv inv_count_line inv_skip_until)

lemma inv_block_comment: "I t \<Longrightarrow> I (block_comment t)"
  by (auto simp: block_comment_def Let_def intro: inv_adv inv_skip_until)

lemma inv_hash_comment: "I t \<Longrightarrow> I (hash_comment t)"
  by (auto simp: hash_comment_def Let_def intro: inv_adv inv_skip_until inv_line_comment)

lemmas inv_moves = inv_adv inv_count_line inv_start inv_atLineStart inv_skip_until
  inv_line_comment inv_block_comment inv_hash_comment

end

function skipWhitespace :: "lexer \<Rightarrow> lexer" where
  "skipWhitespace s =
     (let c = peek s in
      if c = CHR '' '' \<or> c = CR \<or> c = TAB then skipWhitespace (adv s)
      else if c = NL then skipWhitespace (adv (count_line True s))
      else if c = CHR ''/'' \<and> peekNext s = CHR ''/'' then skipWhitespace (line_comment (adv (adv s)))
      else if c = CHR ''/'' \<and> peekNext s = CHR ''*'' then skipWhitespace (block_comment (adv (adv s)))
      else if c = HASH then skipWhitespace (hash_comment (adv s))
      else s)"
  by pat_completeness auto
termination
proof (relation "measure remaining", goal_cases)
  case 1
  show ?case by simp
next
  case (2 s x)
  then show ?case by (auto intro: remaining_adv dest: peek_not_end)
next
  case (3 s x)
  then have "peek s = NL" by simp
  from peek_not_end [OF this] show ?case by (simp add: remaining_adv_count_line)
next
  case (4 s x)
  then have "peek s = CHR ''/''" by simp
  from peek_not_end [OF this] show ?case by (auto intro!: moves_less [of s] moves.inv_moves)
next
  case (5 s x)
  then have "peek s = CHR ''/''" by simp
  from peek_not_end [OF this] show ?case by (auto intro!: moves_less [of s] moves.inv_moves)
next
  case (6 s x)
  then have "peek s = HASH" by simp
  from peek_not_end [OF this] show ?case by (auto intro!: moves_less [of s] moves.inv_moves)
qed

declare skipWhitespace.simps [simp del]

context cursor_invariant begin

lemma inv_skipWhitespace: "I t \<Longrightarrow> I (skipWhitespace t)"
proof (induction t rule: skipWhitespace.induct)
  case (1 t)
  note IH = "1.IH" [OF refl] and It = "1.prems"
  show ?case
    by (subst skipWhitespace.simps) (auto simp: Let_def It intro!: IH inv_moves)
qed

end

end
