(* ===== verification/Tocin_Lexer.thy ===== *)
theory Tocin_Lexer
  imports Tocin_Lexer_State "HOL-Library.Word"
begin

text \<open>
  The scanners of \<open>src/lexer/lexer.cpp\<close>, one definition per method or loop in the order of the
  file, up to \<open>scanToken\<close> and \<open>tokenize\<close>. Every loop of the source is a
  recursive function whose termination is proved from the number of characters left,
  so \<open>tokenize\<close> is a total function. No call of \<open>scanToken\<close> throws (the
  argument of \<open>std::stoi\<close> and \<open>std::stoul\<close> is a non-empty string of at most six
  hexadecimal digits), so the \<open>catch\<close> branch of \<open>tokenize\<close> is not a branch of the model.
  The locale lemmas show that each scanner keeps any invariant of the lexer.
\<close>

section \<open>Indentation\<close>

text \<open>The spaces and tabs at the start of a line: \<open>(spaces, usedTab, usedSpace)\<close>.\<close>

function indent_loop :: "int \<Rightarrow> bool \<Rightarrow> bool \<Rightarrow> lexer \<Rightarrow> int \<times> bool \<times> bool \<times> lexer" where
  "indent_loop spaces usedTab usedSpace s =
     (if peek s = CHR '' '' then indent_loop (spaces + 1) usedTab True (adv s)
      else if peek s = TAB then indent_loop (spaces + indentSize s) True usedSpace (adv s)
      else (spaces, usedTab, usedSpace, s))"
  by pat_completeness auto
termination
  by (relation "measure (\<lambda>(n, t, b, s). remaining s)") (auto intro: remaining_adv dest: peek_not_end)

declare indent_loop.simps [simp del]

text \<open>\<open>set_indent\<close> emits one INDENT or DEDENT per level of difference; \<open>divide_indent\<close> computes the
  new level.\<close>

context cursor_invariant begin

lemma inv_indent_loop:
  "I t \<Longrightarrow> I (snd (snd (snd (indent_loop n a b t))))"
proof (induction n a b t rule: indent_loop.induct)
  case (1 n a b t)
  note It = inv_adv [OF "1.prems"]
  show ?case
  proof (cases "peek t = CHR '' ''")
    case True
    then show ?thesis using "1.IH"(1) [OF True It] by (subst indent_loop.simps) simp
  next
    case False
    then show ?thesis using "1.IH"(2) [OF False _ It] "1.prems"
      by (subst indent_loop.simps) simp
  qed
qed

end

lemma indent_loop_spaces: "0 \<le> n \<Longrightarrow> 0 \<le> indentSize t \<Longrightarrow> 0 \<le> fst (indent_loop n a b t)"
proof (induction n a b t rule: indent_loop.induct)
  case (1 n a b t)
  have "indentSize (adv t) = indentSize t" by (simp add: adv_def)
  with 1 show ?case by (subst indent_loop.simps) auto
qed

definition handleIndentation :: "lexer \<Rightarrow> lexer" where
  "handleIndentation s =
     (case indent_loop 0 False False s of (spaces, usedTab, usedSpace, s1) \<Rightarrow>
        if usedTab \<and> usedSpace then
          reportLexError L001_INVALID_CHARACTER ''Mixed tabs and spaces in indentation'' s1
        else if peek s1 = NL \<or> isAtEnd s1 then s1
        else if peek s1 = CHR ''/'' \<and> peekNext s1 = CHR ''/'' then line_comment (adv (adv s1))
        else if peek s1 = CHR ''/'' \<and> peekNext s1 = CHR ''*'' then block_comment (adv (adv s1))
        else if peek s1 = HASH then hash_comment (adv s1)
        else divide_indent spaces s1)"

context lexer_invariant begin

lemma settled_handleIndentation: "settled I t \<Longrightarrow> settled I (handleIndentation t)"
proof -
  assume st: "settled I t"
  obtain n a b u where eq: "indent_loop 0 False False t = (n, a, b, u)"
    by (metis prod_cases4)
  have u: "settled I u"
    using cursor.inv_indent_loop settled_cursor [OF st]
    by (metis eq snd_conv)
  have "0 \<le> indentSize u \<Longrightarrow> 0 \<le> n"
    using indent_loop_spaces [of 0 t False False] moves.inv_indent_loop [OF moves_refl, of t 0 False False]
    by (simp add: eq moves_def)
  moreover have "settled I (line_comment (adv (adv u)))" "settled I (block_comment (adv (adv u)))"
    "settled I (hash_comment (adv u))"
    by (auto intro!: settled_cursor [OF u] cursor.inv_moves)
  ultimately show ?thesis
    using u by (auto simp: handleIndentation_def eq intro!: settled_report settled_divide_indent)
qed

end

section \<open>Strings\<close>

text \<open>The one-character escapes of \<open>scanString\<close>.\<close>

definition simple_escape :: "char \<Rightarrow> char option" where
  "simple_escape c =
     (if c = CHR ''n'' then Some NL
      else if c = CHR ''r'' then Some CR
      else if c = CHR ''t'' then Some TAB
      else if c = CHR ''b'' then Some (CHR 0x08)
      else if c = CHR ''f'' then Some (CHR 0x0C)
      else if c = CHR ''v'' then Some (CHR 0x0B)
      else if c = CHR ''a'' then Some (CHR 0x07)
      else if c = BACKSLASH then Some BACKSLASH
      else if c = SQUOTE then Some SQUOTE
      else if c = DQUOTE then Some DQUOTE
      else if c = CHR ''0'' then Some NUL
      else None)"

text \<open>A hexadecimal escape: one or two digits after the \<open>x\<close>.\<close>

definition hex_escape :: "string \<Rightarrow> lexer \<Rightarrow> string \<times> lexer" where
  "hex_escape v s =
     (if isAtEnd s \<or> \<not> isxdigit (peekNext s) then
        (v @ ''x'', reportLexError L005_INVALID_ESCAPE_SEQUENCE ''Invalid hex escape sequence'' s)
      else
        (let s1 = adv s; d1 = peek s1; s2 = adv s1 in
         if \<not> isAtEnd s2 \<and> isxdigit (peek s2)
         then (v @ [char_of (hex_string_value [d1, peek s2])], adv s2)
         else (v @ [char_of (hex_string_value [d1])], s2)))"

function hex_digits :: "string \<Rightarrow> lexer \<Rightarrow> string \<times> lexer" where
  "hex_digits acc s =
     (if \<not> isAtEnd s \<and> peek s \<noteq> CHR ''}'' \<and> isxdigit (peek s)
      then hex_digits (acc @ [peek s]) (adv s) else (acc, s))"
  by pat_completeness auto
termination
  by (relation "measure (\<lambda>(acc, s). remaining s)") (auto intro: remaining_adv)

declare hex_digits.simps [simp del]

definition byte :: "32 word \<Rightarrow> char" where
  "byte w = char_of (unat w)"

definition utf8_tail :: "nat \<Rightarrow> 32 word \<Rightarrow> char" where
  "utf8_tail n cp = byte (or 0x80 (and (drop_bit n cp) 0x3F))"

definition utf8_encode :: "32 word \<Rightarrow> string" where
  "utf8_encode cp =
     (if cp \<le> 0x7F then [byte cp]
      else if cp \<le> 0x7FF then [byte (or 0xC0 (drop_bit 6 cp)), utf8_tail 0 cp]
      else if cp \<le> 0xFFFF then
        [byte (or 0xE0 (drop_bit 12 cp)), utf8_tail 6 cp, utf8_tail 0 cp]
      else
        [byte (or 0xF0 (drop_bit 18 cp)), utf8_tail 12 cp, utf8_tail 6 cp, utf8_tail 0 cp])"

text \<open>A Unicode escape. The test is on \<open>peek()\<close>, which is still the \<open>u\<close> of the escape.\<close>

definition unicode_escape :: "string \<Rightarrow> lexer \<Rightarrow> string \<times> lexer" where
  "unicode_escape v s =
     (if isAtEnd s \<or> peek s \<noteq> CHR ''{'' then
        (v @ ''u'', reportLexError L006_INVALID_UNICODE_ESCAPE ''Invalid unicode escape sequence'' s)
      else
        (case hex_digits [] (adv s) of (unicode, s1) \<Rightarrow>
           if isAtEnd s1 \<or> peek s1 \<noteq> CHR ''}'' \<or> unicode = [] \<or> length unicode > 6 then
             (v @ ''u{'' @ unicode,
              reportLexError L006_INVALID_UNICODE_ESCAPE ''Invalid unicode escape sequence'' s1)
           else (v @ utf8_encode (of_nat (hex_string_value unicode)), adv s1)))"

text \<open>The \<open>switch\<close> on the character after a backslash.\<close>

definition escape_sequence :: "char \<Rightarrow> string \<Rightarrow> lexer \<Rightarrow> string \<times> lexer" where
  "escape_sequence c v s =
     (case simple_escape c of
        Some e \<Rightarrow> (v @ [e], s)
      | None \<Rightarrow>
          if c = CHR ''x'' then hex_escape v s
          else if c = CHR ''u'' then unicode_escape v s
          else (v @ [c], reportLexError L005_INVALID_ESCAPE_SEQUENCE
                  (''Invalid escape sequence: '' @ [BACKSLASH, c]) s))"

subsection \<open>The escapes keep the invariants\<close>

context lexer_invariant begin

lemma inv_hex_digits: "I l t \<Longrightarrow> I l (snd (hex_digits acc t))"
proof (induction acc t rule: hex_digits.induct)
  case (1 acc t)
  note IH = "1.IH" [OF _ cursor.inv_adv [OF "1.prems"]]
  show ?case by (subst hex_digits.simps) (auto intro: IH "1.prems")
qed

lemma inv_escape_sequence: "I l t \<Longrightarrow> I l (snd (escape_sequence c v t))"
  by (auto simp: escape_sequence_def hex_escape_def unicode_escape_def Let_def case_prod_beta
      intro!: inv_report cursor.inv_adv inv_hex_digits split: option.splits)

end

lemma remaining_escape_sequence:
  assumes "(v', u) = escape_sequence c v s" and "\<not> isAtEnd s"
  shows "remaining (adv u) < remaining s"
proof -
  from ext.inv_escape_sequence [OF ext_refl, of s c v] assms(1) have "ext s u"
    by (metis snd_conv)
  then show ?thesis
    using ext_remaining [of s u] remaining_adv [of u] assms(2)
    by (cases "isAtEnd u") (auto simp: isAtEnd_remaining adv_def)
qed

subsection \<open>scanString\<close>

function string_loop :: "char \<Rightarrow> int \<Rightarrow> int \<Rightarrow> bool \<Rightarrow> string \<Rightarrow> lexer \<Rightarrow> lexer" where
  "string_loop quote sl sc escaped v s =
     (if isAtEnd s then
        emit (Special ERROR) [] sl sc
          (reportLexError L002_UNTERMINATED_STRING ''Unterminated string literal'' s)
      else
        let c = peek s in
        if c = NL then
          emit (Special ERROR) [] sl sc
            (reportLexError L002_UNTERMINATED_STRING ''Unterminated string literal'' s)
        else if escaped then
          (case escape_sequence c v s of (v', s1) \<Rightarrow> string_loop quote sl sc False v' (adv s1))
        else if c = BACKSLASH then string_loop quote sl sc True v (adv s)
        else if c = quote then emit (Lit STRING) v sl sc (adv s)
        else string_loop quote sl sc False (v @ [c]) (adv s))"
  by pat_completeness auto
termination
  by (relation "measure (\<lambda>(q, sl, sc, e, v, s). remaining s)")
     (auto intro: remaining_adv remaining_escape_sequence)

declare string_loop.simps [simp del]

text \<open>One equation per branch of the loop.\<close>

lemma string_loop_stop:
  "isAtEnd s \<or> peek s = NL \<Longrightarrow> string_loop q sl sc e v s =
     emit (Special ERROR) [] sl sc
       (reportLexError L002_UNTERMINATED_STRING ''Unterminated string literal'' s)"
  by (subst string_loop.simps) (auto simp: Let_def)

lemma string_loop_escaped:
  "\<not> isAtEnd s \<Longrightarrow> peek s \<noteq> NL \<Longrightarrow> escape_sequence (peek s) v s = (v', s1) \<Longrightarrow>
     string_loop q sl sc True v s = string_loop q sl sc False v' (adv s1)"
  by (subst string_loop.simps) (auto simp: Let_def)

lemma string_loop_backslash:
  "\<not> isAtEnd s \<Longrightarrow> peek s = BACKSLASH \<Longrightarrow>
     string_loop q sl sc False v s = string_loop q sl sc True v (adv s)"
  by (subst string_loop.simps) (auto simp: Let_def)

lemma string_loop_quote:
  "\<not> isAtEnd s \<Longrightarrow> peek s = q \<Longrightarrow> q \<noteq> NL \<Longrightarrow> q \<noteq> BACKSLASH \<Longrightarrow>
     string_loop q sl sc False v s = emit (Lit STRING) v sl sc (adv s)"
  by (subst string_loop.simps) (auto simp: Let_def)

lemma string_loop_char:
  "\<not> isAtEnd s \<Longrightarrow> peek s \<notin> {NL, BACKSLASH, q} \<Longrightarrow>
     string_loop q sl sc False v s = string_loop q sl sc False (v @ [peek s]) (adv s)"
  by (subst string_loop.simps) (auto simp: Let_def)

declare string_loop_stop [loop_eqs] string_loop_escaped [loop_eqs]
  string_loop_backslash [loop_eqs] string_loop_quote [loop_eqs] string_loop_char [loop_eqs]

context lexer_invariant begin

lemma inv_string_loop: "I sl t \<Longrightarrow> settled I (string_loop q sl sc e v t)"
proof (induction q sl sc e v t rule: string_loop.induct)
  case (1 q sl sc e v t)
  consider (stop) "isAtEnd t \<or> peek t = NL"
    | (esc) "\<not> isAtEnd t" "peek t \<noteq> NL" "e"
    | (bsl) "\<not> isAtEnd t" "peek t \<noteq> NL" "\<not> e" "peek t = BACKSLASH"
    | (quot) "\<not> isAtEnd t" "peek t \<noteq> NL" "\<not> e" "peek t \<noteq> BACKSLASH" "peek t = q"
    | (other) "\<not> isAtEnd t" "peek t \<noteq> NL" "\<not> e" "peek t \<noteq> BACKSLASH" "peek t \<noteq> q"
    by blast
  then show ?case
  proof cases
    case stop
    then show ?thesis
      by (auto simp: string_loop_stop plain_def intro!: settle inv_emit inv_report "1.prems")
  next
    case esc
    obtain v' s1 where es: "escape_sequence (peek t) v t = (v', s1)" by fastforce
    from inv_escape_sequence [OF "1.prems", of "peek t" v] have "I sl (adv s1)"
      by (auto simp: es intro: cursor.inv_adv)
    from "1.IH"(1) [OF esc(1) refl esc(2,3) es [symmetric] this] esc es show ?thesis
      by (simp add: string_loop_escaped)
  next
    case bsl
    with "1.IH"(2) [OF bsl(1) refl] cursor.inv_adv [OF "1.prems"] show ?thesis
      by (simp add: string_loop_backslash)
  next
    case quot
    then have "string_loop q sl sc e v t = emit (Lit STRING) v sl sc (adv t)"
      by (simp add: string_loop_quote)
    then show ?thesis
      by (auto simp: plain_def intro!: settle inv_emit cursor.inv_adv "1.prems")
  next
    case other
    with "1.IH"(3) [OF other(1) refl] cursor.inv_adv [OF "1.prems"] show ?thesis
      by (simp add: string_loop_char)
  qed
qed

end

text \<open>\<open>scanString\<close> is called with the opening quote consumed: \<open>quote\<close> is \<open>source[current - 1]\<close>.\<close>

definition scanString :: "lexer \<Rightarrow> lexer" where
  "scanString s =
     string_loop (source s ! (current s - 1)) (line_no s) (col_no s - 1) False [] s"

section \<open>Numbers and identifiers\<close>

text \<open>\<open>while (p(peek())) value += advance();\<close> for a class \<open>p\<close> that excludes the NUL of the end.\<close>

function collect :: "(char \<Rightarrow> bool) \<Rightarrow> string \<Rightarrow> lexer \<Rightarrow> string \<times> lexer" where
  "collect p v s =
     (if \<not> isAtEnd s \<and> p (peek s) then collect p (v @ [peek s]) (adv s) else (v, s))"
  by pat_completeness auto
termination
  by (relation "measure (\<lambda>(p, v, s). remaining s)") (auto intro: remaining_adv)

declare collect.simps [simp del]

text \<open>The number is reported and emitted where its scan stops.\<close>

definition number_error :: "string \<Rightarrow> string \<Rightarrow> lexer \<Rightarrow> lexer" where
  "number_error msg v s =
     emit_here (Special ERROR) v (reportLexError L003_INVALID_NUMBER_FORMAT msg s)"

text \<open>The type suffix, and the token.\<close>

definition number_suffix :: "bool \<Rightarrow> string \<Rightarrow> lexer \<Rightarrow> lexer" where
  "number_suffix isFloat v s =
     (let c = peek s;
          (f, v', s') =
            (if isAtEnd s then (isFloat, v, s)
             else if c = CHR ''f'' \<or> c = CHR ''F'' then (True, v @ [c], adv s)
             else if c = CHR ''l'' \<or> c = CHR ''L'' then (isFloat, v @ [c], adv s)
             else if c = CHR ''u'' \<or> c = CHR ''U'' then (isFloat, v @ [c], adv s)
             else (isFloat, v, s))
      in if f then emit_here (Lit FLOAT64) v' s' else emit_here (Lit INT_LIT) v' s')"

text \<open>The exponent, after the digits and the fraction of a decimal number.\<close>

definition number_exponent :: "bool \<Rightarrow> string \<Rightarrow> lexer \<Rightarrow> lexer" where
  "number_exponent isFloat v s =
     (if peek s = CHR ''e'' \<or> peek s = CHR ''E'' then
        (let v1 = v @ [peek s]; s1 = adv s;
             (v2, s2) = (if peek s1 = CHR ''+'' \<or> peek s1 = CHR ''-''
                         then (v1 @ [peek s1], adv s1) else (v1, s1))
         in if \<not> isdigit (peek s2) then number_error ''Invalid exponent in number'' v2 s2
            else (case collect isdigit v2 s2 of (v3, s3) \<Rightarrow> number_suffix True v3 s3))
      else number_suffix isFloat v s)"

definition number_fraction :: "string \<Rightarrow> lexer \<Rightarrow> lexer" where
  "number_fraction v s =
     (if peek s = CHR ''.'' \<and> isdigit (peekNext s) then
        (case collect isdigit (v @ [peek s]) (adv s) of (v1, s1) \<Rightarrow> number_exponent True v1 s1)
      else number_exponent False v s)"

definition scanNumber :: "lexer \<Rightarrow> lexer" where
  "scanNumber s =
     (let v = [peek s]; s1 = adv s; c = peek s1 in
      if v = ''0'' \<and> \<not> isAtEnd s1 \<and> (c = CHR ''x'' \<or> c = CHR ''X'') then
        (let v2 = v @ [c]; s2 = adv s1 in
         if \<not> isxdigit (peek s2) then number_error ''Invalid hexadecimal number'' v2 s2
         else (case collect isxdigit v2 s2 of (v3, s3) \<Rightarrow> number_suffix False v3 s3))
      else if v = ''0'' \<and> \<not> isAtEnd s1 \<and> (c = CHR ''b'' \<or> c = CHR ''B'') then
        (let v2 = v @ [c]; s2 = adv s1 in
         if peek s2 \<noteq> CHR ''0'' \<and> peek s2 \<noteq> CHR ''1'' then number_error ''Invalid binary number'' v2 s2
         else (case collect (\<lambda>d. d = CHR ''0'' \<or> d = CHR ''1'') v2 s2 of
                 (v3, s3) \<Rightarrow> number_suffix False v3 s3))
      else if v = ''0'' \<and> \<not> isAtEnd s1 \<and> isdigit c \<and> c \<noteq> CHR ''0'' then
        (case collect (\<lambda>d. isdigit d \<and> code d < code (CHR ''8'')) v s1 of
           (v3, s3) \<Rightarrow> number_suffix False v3 s3)
      else
        (case collect isdigit v s1 of (v3, s3) \<Rightarrow> number_fraction v3 s3))"

definition is_ident_char :: "char \<Rightarrow> bool" where
  "is_ident_char c \<longleftrightarrow> isalnum c \<or> c = CHR ''_''"

definition scanIdentifier :: "lexer \<Rightarrow> lexer" where
  "scanIdentifier s =
     (case collect is_ident_char [peek s] (adv s) of
        (v, s1) \<Rightarrow> emit_here (keyword_type v) v s1)"

lemma plain_keyword_type: "plain (keyword_type v)"
proof (cases "map_of keyword_table v")
  case None
  then show ?thesis by (simp add: keyword_type_def plain_def)
next
  case (Some ty)
  have "list_all plain (map snd keyword_table)"
    by (simp add: keyword_table_def plain_def)
  moreover have "ty \<in> set (map snd keyword_table)" using Some by (force dest: map_of_SomeD)
  ultimately show ?thesis using Some by (auto simp: keyword_type_def list_all_iff)
qed

context lexer_invariant begin

lemma inv_collect: "I l t \<Longrightarrow> I l (snd (collect p v t))"
proof (induction p v t rule: collect.induct)
  case (1 p v t)
  show ?case by (subst collect.simps) (auto intro!: "1.IH" cursor.inv_adv "1.prems")
qed

lemma settled_collect: "settled I t \<Longrightarrow> settled I (snd (collect p v t))"
  by (erule settled_cursor) (rule inv_collect)

lemma inv_number_error: "settled I t \<Longrightarrow> settled I (number_error msg v t)"
  by (auto simp: number_error_def plain_def intro!: settled_emit_here settled_report)

lemma inv_number_suffix: "settled I t \<Longrightarrow> settled I (number_suffix f v t)"
  by (auto simp: number_suffix_def Let_def plain_def intro!: settled_emit_here settled_adv)

lemma inv_number_exponent: "settled I t \<Longrightarrow> settled I (number_exponent f v t)"
  by (auto simp: number_exponent_def Let_def case_prod_beta
      intro!: inv_number_error inv_number_suffix settled_collect settled_adv)

lemma inv_number_fraction: "settled I t \<Longrightarrow> settled I (number_fraction v t)"
  by (auto simp: number_fraction_def case_prod_beta
      intro!: inv_number_exponent settled_collect settled_adv)

lemma inv_scanNumber: "settled I (adv t) \<Longrightarrow> settled I (scanNumber t)"
  by (auto simp: scanNumber_def Let_def case_prod_beta
      intro!: inv_number_error inv_number_suffix inv_number_fraction settled_collect settled_adv)

lemma inv_scanIdentifier:
  "settled I (adv t) \<Longrightarrow> settled I (scanIdentifier t)"
  by (auto simp: scanIdentifier_def case_prod_beta
      intro!: settled_emit_here settled_collect plain_keyword_type)

end

section \<open>Template literals\<close>

text \<open>The expression between the braces of an interpolation: the depth of open braces, the
  text and the state, or the state of the early return at a newline.\<close>

function template_expr :: "int \<Rightarrow> string \<Rightarrow> lexer \<Rightarrow> lexer + int \<times> string \<times> lexer" where
  "template_expr braceCount expr s =
     (if isAtEnd s \<or> braceCount \<le> 0 then Inr (braceCount, expr, s)
      else
        let c = peek s in
        if c = NL then
          Inl (reportLexError L002_UNTERMINATED_STRING ''Unterminated template literal expression'' s)
        else
          let n = (if c = CHR ''{'' then braceCount + 1
                   else if c = CHR ''}'' then braceCount - 1 else braceCount)
          in if n > 0 then template_expr n (expr @ [c]) (adv s) else Inr (n, expr, s))"
  by pat_completeness auto
termination
  by (relation "measure (\<lambda>(n, e, s). remaining s)") (auto intro: remaining_adv)

declare template_expr.simps [simp del]

text \<open>The escapes inside a template; an unknown one keeps its backslash.\<close>

definition template_escape :: "char \<Rightarrow> string" where
  "template_escape c =
     (if c = CHR ''n'' then [NL]
      else if c = CHR ''r'' then [CR]
      else if c = CHR ''t'' then [TAB]
      else if c = BACKTICK then [BACKTICK]
      else if c = CHR ''$'' then ''$''
      else if c = BACKSLASH then [BACKSLASH]
      else [BACKSLASH, c])"

definition template_state :: "lexer + int \<times> string \<times> lexer \<Rightarrow> lexer" where
  "template_state r = (case r of Inl s \<Rightarrow> s | Inr (n, e, s) \<Rightarrow> s)"

context lexer_invariant begin

lemma inv_template_expr: "I l t \<Longrightarrow> I l (template_state (template_expr n e t))"
proof (induction n e t rule: template_expr.induct)
  case (1 n e t)
  note IH = "1.IH" [simplified]
  from "1.prems" show ?case
    by (subst template_expr.simps)
       (auto simp: Let_def template_state_def [of "Inl _"] template_state_def [of "Inr _"]
          intro: inv_report cursor.inv_adv IH)
qed

end

lemma remaining_template_expr:
  assumes "template_expr n e (emit ty v l c (adv (adv s))) = Inr (n', e', u)" and "\<not> isAtEnd s"
  shows "remaining u < remaining s \<and> remaining (adv u) < remaining s"
proof -
  have "ext (adv s) (emit ty v l c (adv (adv s)))"
    by (auto simp: ext_def emit_def adv_def isAtEnd_def)
  from ext.inv_template_expr [OF this, of n e] assms(1) have "ext (adv s) u"
    by (simp add: template_state_def)
  then show ?thesis
    using ext_less [OF _ assms(2)] ext.cursor.inv_adv [of "adv s" u] by blast
qed

function template_loop :: "int \<Rightarrow> int \<Rightarrow> string \<Rightarrow> lexer \<Rightarrow> lexer" where
  "template_loop sl sc v s =
     (if isAtEnd s then
        reportLexError L002_UNTERMINATED_STRING ''Unterminated template literal'' s
      else if peek s = BACKTICK then emit (Template TEMPLATE_END) v sl sc (adv s)
      else if peek s = CHR ''$'' \<and> peekNext s = CHR ''{'' then
        (case template_expr 1 [] (emit (Template TEMPLATE_START) v sl sc (adv (adv s))) of
           Inl s1 \<Rightarrow> s1
         | Inr (braceCount, expr, s1) \<Rightarrow>
             if braceCount = 0 then
               (let s2 = adv s1;
                    s3 = emit (Template TEMPLATE_EXPR) expr (line_no s2)
                           (col_no s2 - int (length expr) - 1) s2
                in template_loop (line_no s3) (col_no s3) [] s3)
             else template_loop sl sc [] s1)
      else if peek s = BACKSLASH then
        (let s1 = adv s in template_loop sl sc (v @ template_escape (peek s1)) (adv s1))
      else
        (let s1 = (if peek s = NL then count_line False s else s)
         in template_loop sl sc (v @ [peek s]) (adv s1)))"
  by pat_completeness auto
termination
  by (relation "measure (\<lambda>(sl, sc, v, s). remaining s)")
     (auto simp: Let_def remaining_adv remaining_adv_count_line remaining_template_expr
        intro: ext_less [OF ext.cursor.inv_adv [OF ext_refl]])

declare template_loop.simps [simp del]

text \<open>The backtick is already consumed when \<open>scanTemplateLiteral\<close> starts with an \<open>advance()\<close> of
  its own.\<close>

definition scanTemplateLiteral :: "lexer \<Rightarrow> lexer" where
  "scanTemplateLiteral s = (let s1 = adv s in template_loop (line_no s1) (col_no s1) [] s1)"

context lexer_invariant begin

lemma inv_interpolation:
  assumes "I l t" and "template_expr 1 [] (emit (Template TEMPLATE_START) v l c (adv (adv t))) = r"
  shows "I l (template_state r)"
proof -
  have "I l (emit (Template TEMPLATE_START) v l c (adv (adv t)))"
    by (auto simp: plain_def intro!: inv_emit cursor.inv_adv assms(1))
  from inv_template_expr [OF this, of 1 "[]"] show ?thesis by (simp add: assms(2))
qed

lemma inv_template_loop: "I sl t \<Longrightarrow> settled I (template_loop sl sc v t)"
proof (induction sl sc v t rule: template_loop.induct)
  case (1 sl sc v t)
  note It = "1.prems"
  show ?case
  proof (cases "\<not> isAtEnd t \<and> peek t \<noteq> BACKTICK \<and> peek t = CHR ''$'' \<and> peekNext t = CHR ''{''")
    case True
    define r where "r = template_expr 1 [] (emit (Template TEMPLATE_START) v sl sc (adv (adv t)))"
    have Ir: "I sl (template_state r)" using It by (rule inv_interpolation) (simp add: r_def)
    have eq: "template_loop sl sc v t =
      (case r of Inl s1 \<Rightarrow> s1
       | Inr (n, expr, s1) \<Rightarrow>
           if n = 0 then
             (let s2 = adv s1;
                  s3 = emit (Template TEMPLATE_EXPR) expr (line_no s2)
                         (col_no s2 - int (length expr) - 1) s2
              in template_loop (line_no s3) (col_no s3) [] s3)
           else template_loop sl sc [] s1)"
      using True by (subst template_loop.simps) (simp add: r_def)
    show ?thesis
    proof (cases r)
      case (Inl u)
      with Ir eq show ?thesis by (auto simp: template_state_def intro: settle)
    next
      case (Inr p)
      then obtain n e u where r: "r = Inr (n, e, u)" by (cases p) auto
      from Ir r have u: "I sl u" by (simp add: template_state_def)
      have "settled I (adv u)" using settle [OF cursor.inv_adv [OF u]] .
      then have "settled I (emit (Template TEMPLATE_EXPR) e (line_no (adv u))
                   (col_no (adv u) - int (length e) - 1) (adv u))"
        by (simp add: settled_def plain_def inv_emit)
      with u show ?thesis
        using eq r True "1.IH"(1) "1.IH"(2) by (auto simp: r_def Let_def settled_def)
    qed
  next
    case False
    note moved = cursor.inv_adv [OF It] cursor.inv_adv [OF cursor.inv_adv [OF It]]
      cursor.inv_adv [OF cursor.inv_count_line [OF It]]
    have "settled I (emit (Template TEMPLATE_END) v sl sc (adv t))"
      by (rule settle [OF inv_emit [OF moved(1)]]) (simp add: plain_def)
    with False "1.IH"(3,4) settle [OF inv_report [OF It]] show ?thesis
      by (subst template_loop.simps) (auto simp: Let_def moved)
  qed
qed

lemma inv_scanString: "settled I t \<Longrightarrow> settled I (scanString t)"
  unfolding scanString_def settled_def [of I t] by (rule inv_string_loop)

lemma inv_scanTemplateLiteral: "settled I t \<Longrightarrow> settled I (scanTemplateLiteral t)"
  by (drule settled_adv) (unfold settled_def [of I "adv t"] scanTemplateLiteral_def Let_def,
    rule inv_template_loop)

lemma settled_skipWhitespace: "settled I t \<Longrightarrow> settled I (skipWhitespace t)"
  by (erule settled_cursor) (rule cursor.inv_skipWhitespace)

end

end
