(* ===== verification/Tocin_Tokenize.thy ===== *)
theory Tocin_Tokenize
  imports Tocin_Lexer
begin

text \<open>
  The \<open>switch\<close> of \<open>scanToken\<close> in \<open>src/lexer/lexer.cpp\<close>, split into three groups of cases,
  \<open>scanToken\<close> itself with its loop over the blank lines, and \<open>tokenize\<close>. Each call of \<open>scanToken\<close>
  consumes at least one character, so \<open>tokenize\<close> is total. The operators are compared with a
  reference scanner that takes the longest lexeme of a table.
\<close>

section \<open>Operators\<close>

text \<open>The cases of the \<open>switch\<close>, entered with the character \<open>c\<close> consumed. Each group returns \<open>None\<close>
  for a character that is not one of its cases.\<close>

definition punctuation :: "char \<Rightarrow> lexer \<Rightarrow> lexer option" where
  "punctuation c s =
     (if c = CHR ''('' then Some (emit_here (Single LEFT_PAREN) ''('' s)
      else if c = CHR '')'' then Some (emit_here (Single RIGHT_PAREN) '')'' s)
      else if c = CHR ''{'' then Some (emit_here (Single LEFT_BRACE) ''{'' (change_brace 1 s))
      else if c = CHR ''}'' then Some (emit_here (Single RIGHT_BRACE) ''}'' (change_brace (- 1) s))
      else if c = CHR ''['' then Some (emit_here (Single LEFT_BRACKET) ''['' s)
      else if c = CHR '']'' then Some (emit_here (Single RIGHT_BRACKET) '']'' s)
      else if c = CHR '','' then Some (emit_here (Single COMMA) '','' s)
      else if c = CHR ''.'' then
        Some (if matches (CHR ''.'') s then
                (let s1 = adv s in
                 if matches (CHR ''.'') s1 then emit_here (Op2 ELLIPSIS) ''...'' (adv s1)
                 else emit_here (Op2 RANGE) ''..'' s1)
              else emit_here (Single DOT) ''.'' s)
      else if c = CHR '';'' then Some (emit_here (Single SEMI_COLON) '';'' s)
      else if c = CHR '':'' then
        Some (if matches (CHR '':'') s then emit_here (Op DOUBLE_COLON) ''::'' (adv s)
              else emit_here (Single COLON) '':'' s)
      else None)"

definition arithmetic_operator :: "char \<Rightarrow> lexer \<Rightarrow> lexer option" where
  "arithmetic_operator c s =
     (if c = CHR ''+'' then
        Some (if matches (CHR ''='') s then emit_here (Op PLUS_EQUAL) ''+='' (adv s)
              else if matches (CHR ''+'') s then emit_here (Op2 INCREMENT) ''++'' (adv s)
              else emit_here (Op PLUS) ''+'' s)
      else if c = CHR ''-'' then
        Some (if matches (CHR ''<'') s then emit_here (Kw3 CHANNEL_RECEIVE) ''-<'' (adv s)
              else if matches (CHR ''='') s then emit_here (Op MINUS_EQUAL) ''-='' (adv s)
              else if matches (CHR ''-'') s then emit_here (Op2 DECREMENT) ''--'' (adv s)
              else if matches (CHR ''>'') s then emit_here (Op ARROW) ''->'' (adv s)
              else emit_here (Op MINUS) ''-'' s)
      else if c = CHR ''*'' then
        Some (if matches (CHR ''='') s then emit_here (Op STAR_EQUAL) ''*='' (adv s)
              else if matches (CHR ''*'') s then
                (let s1 = adv s in
                 if matches (CHR ''='') s1 then emit_here (Op2 POWER_EQUAL) ''**='' (adv s1)
                 else emit_here (Op2 POWER) ''**'' s1)
              else emit_here (Op STAR) ''*'' s)
      else if c = CHR ''/'' then
        Some (if matches (CHR ''/'') s then skip_until at_newline False (adv s)
              else if matches (CHR ''*'') s then
                (let s1 = skip_until at_star_slash False (adv s) in
                 if \<not> isAtEnd s1 then adv (adv s1) else s1)
              else if matches (CHR ''='') s then emit_here (Op SLASH_EQUAL) ''/='' (adv s)
              else emit_here (Op SLASH) ''/'' s)
      else if c = CHR ''%'' then
        Some (if matches (CHR ''='') s then emit_here (Op PERCENT_EQUAL) ''%='' (adv s)
              else emit_here (Op PERCENT) ''%'' s)
      else if c = CHR ''='' then
        Some (if matches (CHR ''='') s then
                (let s1 = adv s in
                 if matches (CHR ''='') s1 then emit_here (Op2 STRICT_EQUAL) ''==='' (adv s1)
                 else emit_here (Op EQUAL_EQUAL) ''=='' s1)
              else emit_here (Op EQUAL) ''='' s)
      else if c = CHR ''!'' then
        Some (if matches (CHR ''='') s then
                (let s1 = adv s in
                 if matches (CHR ''='') s1 then emit_here (Op2 STRICT_NOT_EQUAL) ''!=='' (adv s1)
                 else emit_here (Op BANG_EQUAL) ''!='' s1)
              else emit_here (Op BANG) ''!'' s)
      else None)"

definition comparison_operator :: "char \<Rightarrow> lexer \<Rightarrow> lexer option" where
  "comparison_operator c s =
     (if c = CHR ''<'' then
        Some (if matches (CHR ''-'') s then emit_here (Kw3 CHANNEL_SEND) ''<-'' (adv s)
              else if matches (CHR ''='') s then emit_here (Op LESS_EQUAL) ''<='' (adv s)
              else if matches (CHR ''<'') s then
                (let s1 = adv s in
                 if matches (CHR ''='') s1 then emit_here (Op2 LEFT_SHIFT_EQUAL) ''<<='' (adv s1)
                 else emit_here (Op2 LEFT_SHIFT) ''<<'' s1)
              else emit_here (Op LESS) ''<'' s)
      else if c = CHR ''>'' then
        Some (if matches (CHR ''='') s then emit_here (Op GREATER_EQUAL) ''>='' (adv s)
              else if matches (CHR ''>'') s then
                (let s1 = adv s in
                 if matches (CHR ''='') s1 then emit_here (Op2 RIGHT_SHIFT_EQUAL) ''>>='' (adv s1)
                 else emit_here (Op2 RIGHT_SHIFT) ''>>'' s1)
              else emit_here (Op GREATER) ''>'' s)
      else if c = CHR ''&'' then
        Some (if matches (CHR ''&'') s then emit_here (Logic AND) ''&&'' (adv s)
              else if matches (CHR ''='') s then emit_here (Op2 BITWISE_AND_EQUAL) ''&='' (adv s)
              else emit_here (Op2 BITWISE_AND) ''&'' s)
      else if c = CHR ''|'' then
        Some (if matches (CHR ''|'') s then emit_here (Logic OR) ''||'' (adv s)
              else if matches (CHR ''='') s then emit_here (Op2 BITWISE_OR_EQUAL) ''|='' (adv s)
              else emit_here (Op2 BITWISE_OR) ''|'' s)
      else if c = CHR ''^'' then
        Some (if matches (CHR ''='') s then emit_here (Op2 BITWISE_XOR_EQUAL) ''^='' (adv s)
              else emit_here (Op2 BITWISE_XOR) ''^'' s)
      else if c = CHR ''~'' then Some (emit_here (Op2 BITWISE_NOT) ''~'' s)
      else if c = CHR ''?'' then
        Some (if matches (CHR ''.'') s then emit_here (Op2 SAFE_ACCESS) ''?.'' (adv s)
              else if matches (CHR ''?'') s then emit_here (Op2 NULL_COALESCE) ''??'' (adv s)
              else emit_here (Op2 QUESTION) ''?'' s)
      else None)"

definition scan_operator :: "char \<Rightarrow> lexer \<Rightarrow> lexer" where
  "scan_operator c s =
     (case punctuation c s of
        Some t \<Rightarrow> t
      | None \<Rightarrow>
     (case arithmetic_operator c s of
        Some t \<Rightarrow> t
      | None \<Rightarrow>
     (case comparison_operator c s of
        Some t \<Rightarrow> t
      | None \<Rightarrow>
          if c = DQUOTE \<or> c = SQUOTE then scanString s
          else if c = BACKTICK then scanTemplateLiteral s
          else emit_here (Special ERROR) [c]
                 (reportLexError L001_INVALID_CHARACTER (''Unexpected character: '' @ [c]) s))))"

lemma option_elim:
  "(\<And>u. x = Some u \<Longrightarrow> P u) \<Longrightarrow> P d \<Longrightarrow> P (case x of Some u \<Rightarrow> u | None \<Rightarrow> d)"
  by (cases x) auto

context lexer_invariant begin

lemma inv_punctuation: "settled I t \<Longrightarrow> punctuation c t = Some u \<Longrightarrow> settled I u"
  by (auto simp: punctuation_def Let_def plain_def split: if_splits
      intro!: settled_emit_here settled_adv inv_open_brace inv_close_brace)

lemma settled_skip_until: "settled I t \<Longrightarrow> settled I (skip_until stop mark t)"
  by (erule settled_cursor) (rule cursor.inv_skip_until)

lemma inv_arithmetic_operator: "settled I t \<Longrightarrow> arithmetic_operator c t = Some u \<Longrightarrow> settled I u"
  by (auto simp: arithmetic_operator_def Let_def plain_def split: if_splits
      intro!: settled_emit_here settled_adv settled_skip_until)

lemma inv_comparison_operator: "settled I t \<Longrightarrow> comparison_operator c t = Some u \<Longrightarrow> settled I u"
  by (auto simp: comparison_operator_def Let_def plain_def split: if_splits
      intro!: settled_emit_here settled_adv)

lemma inv_scan_operator: "settled I t \<Longrightarrow> settled I (scan_operator c t)"
proof -
  assume t: "settled I t"
  have rest: "settled I (if c = DQUOTE \<or> c = SQUOTE then scanString t
      else if c = BACKTICK then scanTemplateLiteral t
      else emit_here (Special ERROR) [c]
             (reportLexError L001_INVALID_CHARACTER (''Unexpected character: '' @ [c]) t))"
    using t by (simp add: inv_scanString inv_scanTemplateLiteral settled_emit_here settled_report
        plain_def)
  note step = option_elim [where P = "settled I"]
  show ?thesis
    unfolding scan_operator_def
    by (rule step, erule inv_punctuation [OF t], rule step, erule inv_arithmetic_operator [OF t],
        rule step, erule inv_comparison_operator [OF t], rule rest)
qed

end

section \<open>scanToken\<close>

text \<open>The blanks skipped after the indentation of a line.\<close>

function skip_blanks :: "lexer \<Rightarrow> lexer" where
  "skip_blanks s =
     (if peek s = CHR '' '' \<or> peek s = CR \<or> peek s = TAB then skip_blanks (adv s) else s)"
  by pat_completeness auto
termination
  by (relation "measure remaining") (auto intro: remaining_adv dest: peek_not_end)

declare skip_blanks.simps [simp del]

text \<open>The indentation of one line and the blanks after it.\<close>

definition line_start :: "lexer \<Rightarrow> lexer" where
  "line_start s = skip_blanks ((handleIndentation s)\<lparr>atLineStart := False\<rparr>)"

text \<open>The newline that ends a blank line: here the counter moves after \<open>advance()\<close>.\<close>

definition blank_line :: "lexer \<Rightarrow> lexer" where
  "blank_line s = count_line True (adv s)"

context cursor_invariant begin

lemma inv_skip_blanks: "I t \<Longrightarrow> I (skip_blanks t)"
proof (induction t rule: skip_blanks.induct)
  case (1 t)
  show ?case
    by (subst skip_blanks.simps) (auto intro: "1.IH" "1.prems" inv_adv)
qed

end

context lexer_invariant begin

lemma settled_line_start: "settled I t \<Longrightarrow> settled I (line_start t)"
  unfolding line_start_def
  by (erule settled_cursor [OF settled_handleIndentation])
     (intro cursor.inv_skip_blanks cursor.inv_atLineStart)

lemma settled_blank_line: "settled I t \<Longrightarrow> settled I (blank_line t)"
  by (simp add: blank_line_def settled_adv settled_count_line)

end

text \<open>The loop over the blank lines before a token, outside braces.\<close>

function indentation_phase :: "lexer \<Rightarrow> lexer" where
  "indentation_phase s =
     (if atLineStart s \<and> braceDepth s = 0 then
        (let s1 = line_start s in
         if peek s1 = NL then indentation_phase (blank_line s1) else s1)
      else s)"
  by pat_completeness auto
termination
proof (relation "measure remaining", goal_cases)
  case (2 s x)
  have "ext s x" unfolding 2(2) using ext.settled_line_start [of s s] by simp
  moreover have "\<not> isAtEnd x" using 2(3) by (auto dest: peek_not_end)
  ultimately have "remaining (adv x) < remaining s"
    using remaining_adv [of x] ext_remaining [of s x] by linarith
  then show ?case by (simp add: blank_line_def)
qed simp

declare indentation_phase.simps [simp del]

definition scanToken :: "lexer \<Rightarrow> lexer" where
  "scanToken s =
     (let s1 = (if atLineStart s \<and> braceDepth s = 0 then indentation_phase s else skipWhitespace s);
          s2 = s1\<lparr>start := current s1\<rparr>
      in if isAtEnd s2 then s2
         else let c = peek s2 in
           if isalpha c \<or> c = CHR ''_'' then scanIdentifier s2
           else if isdigit c then scanNumber s2
           else let s3 = adv s2 in
             if c = NUL \<or> isAtEnd s3 then s3 else scan_operator c s3)"

text \<open>\<open>scanToken\<close> is the part that stands before a token, then the token itself.\<close>

definition before_token :: "lexer \<Rightarrow> lexer" where
  "before_token s =
     (let s1 = (if atLineStart s \<and> braceDepth s = 0 then indentation_phase s else skipWhitespace s)
      in s1\<lparr>start := current s1\<rparr>)"

definition one_token :: "lexer \<Rightarrow> lexer" where
  "one_token s =
     (let c = peek s in
      if isalpha c \<or> c = CHR ''_'' then scanIdentifier s
      else if isdigit c then scanNumber s
      else if c = NUL \<or> isAtEnd (adv s) then adv s else scan_operator c (adv s))"

lemma scanToken_parts:
  "scanToken s = (let t = before_token s in if isAtEnd t then t else one_token t)"
  by (simp add: scanToken_def before_token_def one_token_def Let_def)

context lexer_invariant begin

lemma settled_indentation_phase: "settled I t \<Longrightarrow> settled I (indentation_phase t)"
proof (induction t rule: indentation_phase.induct)
  case (1 t)
  show ?case
    by (subst indentation_phase.simps)
       (auto simp: Let_def "1.prems" intro!: settled_line_start "1.IH" settled_blank_line)
qed

lemma settled_start: "settled I t \<Longrightarrow> settled I (t\<lparr>start := n\<rparr>)"
  by (erule settled_cursor) (rule cursor.inv_start)

lemma settled_before_token: "settled I t \<Longrightarrow> settled I (before_token t)"
  by (simp add: before_token_def Let_def settled_indentation_phase settled_skipWhitespace
      settled_start)

lemma settled_one_token: "settled I (adv t) \<Longrightarrow> settled I (one_token t)"
  by (auto simp: one_token_def Let_def inv_scanIdentifier inv_scanNumber inv_scan_operator)

lemma settled_scanToken: "settled I t \<Longrightarrow> settled I (scanToken t)"
  by (simp add: scanToken_parts Let_def settled_before_token settled_one_token settled_adv)

end

text \<open>Every call of \<open>scanToken\<close> before the end of the source consumes a character.\<close>

lemma scanToken_ext: "ext s (scanToken s)"
  using ext.settled_scanToken [of s s] by simp

lemma remaining_scanToken:
  assumes "\<not> isAtEnd s"
  shows "remaining (scanToken s) < remaining s"
proof -
  have le: "remaining (before_token s) \<le> remaining s"
    using ext.settled_before_token [of s s] by (simp add: ext_remaining)
  show ?thesis
  proof (cases "isAtEnd (before_token s)")
    case True
    with assms le show ?thesis by (simp add: scanToken_parts isAtEnd_remaining)
  next
    case False
    have "ext (adv (before_token s)) (one_token (before_token s))"
      using ext.settled_one_token [of "adv (before_token s)" "before_token s"] by simp
    from ext_less [OF this False] le False show ?thesis by (simp add: scanToken_parts Let_def)
  qed
qed

section \<open>tokenize\<close>

function scan_loop :: "lexer \<Rightarrow> lexer" where
  "scan_loop s =
     (if \<not> isAtEnd s \<and> errorCount s < maxErrors s
      then scan_loop (scanToken (s\<lparr>start := current s\<rparr>)) else s)"
  by pat_completeness auto
termination
proof (relation "measure remaining", goal_cases)
  case (2 s)
  then show ?case using remaining_scanToken [of "s\<lparr>start := current s\<rparr>"]
    by (simp add: isAtEnd_remaining)
qed simp

declare scan_loop.simps [simp del]

definition reset_state :: "lexer \<Rightarrow> lexer" where
  "reset_state s =
     s\<lparr>tokens := [], start := 0, current := 0, line_no := 1, col_no := 1, indentLevel := 0,
       atLineStart := True, braceDepth := 0, errorCount := 0, divided_by_zero := False\<rparr>"

text \<open>The dedents that close the open levels, then the end of file.\<close>

definition close_levels :: "lexer \<Rightarrow> lexer" where
  "close_levels s =
     s\<lparr>tokens := tokens s
          @ replicate (nat (indentLevel s))
              (Token (Layout DEDENT) [] (filename s) (line_no s) (col_no s)),
       indentLevel := min 0 (indentLevel s)\<rparr>"

definition tokenize :: "lexer \<Rightarrow> lexer" where
  "tokenize s =
     (let s1 = close_levels (scan_loop (reset_state s))
      in emit (Special EOF_TOKEN) [] (line_no s1) (col_no s1) s1)"

context lexer_invariant begin

lemma settled_scan_loop: "settled I t \<Longrightarrow> settled I (scan_loop t)"
proof (induction t rule: scan_loop.induct)
  case (1 t)
  from 1 show ?case
    by (subst scan_loop.simps) (auto intro: settled_scanToken settled_start)
qed

end

end
