(* ===== verification/Tocin_Lexer_Invariants.thy ===== *)
theory Tocin_Lexer_Invariants
  imports Tocin_Tokenize
begin

text \<open>
  What every run of the lexer maintains, as interpretations of the contract
  \<open>lexer_invariant\<close>: \<open>well_lexed\<close> for the cursor, the lines, the nesting counters and the token
  kinds, \<open>accounted\<close> for the errors handed to the error handler. The facts on
  \<open>tokenize\<close> follow from the instances.
\<close>

section \<open>Well-formed states\<close>

definition count_type :: "TokenType \<Rightarrow> token list \<Rightarrow> int" where
  "count_type ty ts = int (length (filter (\<lambda>t. ttype t = ty) ts))"

lemma count_type_simps [simp]:
  "count_type ty [] = 0"
  "count_type ty (t # ts) = (if ttype t = ty then 1 else 0) + count_type ty ts"
  "count_type ty (ts @ us) = count_type ty ts + count_type ty us"
  "count_type ty (replicate n t) = (if ttype t = ty then int n else 0)"
  by (auto simp: count_type_def filter_replicate)

text \<open>A token of the file \<open>f\<close> that carries a line between the first one and \<open>l\<close>.\<close>

definition token_ok :: "string \<Rightarrow> int \<Rightarrow> token \<Rightarrow> bool" where
  "token_ok f l t \<longleftrightarrow>
     tfilename t = f \<and> 1 \<le> line t \<and> line t \<le> l \<and> ttype t \<noteq> Special EOF_TOKEN"

definition well_lexed :: "int \<Rightarrow> lexer \<Rightarrow> bool" where
  "well_lexed l s \<longleftrightarrow>
     1 \<le> l \<and> l \<le> line_no s \<and> current s \<le> length (source s)
   \<and> sorted (map line (tokens s)) \<and> (\<forall>t \<in> set (tokens s). token_ok (filename s) l t)
   \<and> count_type (Layout INDENT) (tokens s) - count_type (Layout DEDENT) (tokens s) = indentLevel s
   \<and> (0 < indentSize s \<longrightarrow> 0 \<le> indentLevel s)
   \<and> count_type (Single LEFT_BRACE) (tokens s) - count_type (Single RIGHT_BRACE) (tokens s)
       = braceDepth s"

lemma token_ok_mono: "token_ok f l t \<Longrightarrow> l \<le> m \<Longrightarrow> token_ok f m t"
  by (simp add: token_ok_def)

lemma sorted_lines_append:
  "sorted (map line ts) \<Longrightarrow> (\<forall>t \<in> set ts. token_ok f l t) \<Longrightarrow> (\<forall>u \<in> set us. line u = l) \<Longrightarrow>
   sorted (map line (ts @ us))"
  using sorted_replicate [of "length us" l]
  by (auto simp: sorted_append token_ok_def map_replicate_const [symmetric] cong: map_cong)

lemma well_lexed_add:
  assumes "well_lexed l s" and "\<forall>u \<in> set us. line u = l \<and> token_ok (filename s) l u"
    and "count_type (Layout INDENT) us - count_type (Layout DEDENT) us = k"
    and "0 < indentSize s \<Longrightarrow> 0 \<le> indentLevel s + k"
    and "count_type (Single LEFT_BRACE) us - count_type (Single RIGHT_BRACE) us = b"
    and "tokens t = tokens s @ us" "filename t = filename s" "source t = source s"
      "current t = current s" "line_no t = line_no s" "indentSize t = indentSize s"
      "indentLevel t = indentLevel s + k" "braceDepth t = braceDepth s + b"
  shows "well_lexed l t"
  using assms sorted_lines_append [of "tokens s" "filename s" l us]
  by (auto simp: well_lexed_def)

lemma well_lexed_emit:
  "well_lexed l s \<Longrightarrow> plain ty \<Longrightarrow> well_lexed l (emit ty v l c s)"
  by (rule well_lexed_add [where k = 0 and b = 0 and us = "[Token ty v (filename s) l c]"])
     (auto simp: emit_def plain_def token_ok_def well_lexed_def)

lemma well_lexed_set_indent:
  assumes "well_lexed (line_no s) s" and "0 < indentSize s \<Longrightarrow> 0 \<le> n"
  shows "well_lexed (line_no s) (set_indent n s)"
  by (rule well_lexed_add [OF assms(1), where k = "n - indentLevel s" and b = 0
        and us = "if n > indentLevel s
          then replicate (nat (n - indentLevel s))
                 (Token (Layout INDENT) [] (filename s) (line_no s) (col_no s))
          else if n < indentLevel s
          then replicate (nat (indentLevel s - n))
                 (Token (Layout DEDENT) [] (filename s) (line_no s) (col_no s))
          else []"])
     (use assms in \<open>auto simp: set_indent_def token_ok_def well_lexed_def\<close>)

lemma well_lexed_brace:
  assumes "well_lexed (line_no s) s"
  shows "well_lexed (line_no s) (emit_here (Single LEFT_BRACE) v (change_brace 1 s))"
    and "well_lexed (line_no s) (emit_here (Single RIGHT_BRACE) v (change_brace (- 1) s))"
  by (rule well_lexed_add [OF assms, where k = 0 and b = 1 and us =
        "[Token (Single LEFT_BRACE) v (filename s) (line_no s) (col_no s - int (length v))]"];
      use assms in \<open>auto simp: emit_here_def emit_def change_brace_def token_ok_def well_lexed_def\<close>)
     (rule well_lexed_add [OF assms, where k = 0 and b = "- 1" and us =
        "[Token (Single RIGHT_BRACE) v (filename s) (line_no s) (col_no s - int (length v))]"];
      use assms in \<open>auto simp: emit_here_def emit_def change_brace_def token_ok_def well_lexed_def\<close>)

lemma well_lexed_cursor: "cursor_invariant (well_lexed l)"
  by unfold_locales (auto simp: well_lexed_def adv_def isAtEnd_def count_line_def)

interpretation wf: lexer_invariant well_lexed
proof (rule lexer_invariant.intro)
  show "cursor_invariant (well_lexed l)" for l by (rule well_lexed_cursor)
  show "well_lexed l s \<Longrightarrow> settled well_lexed s" for l s
    by (auto simp: settled_def well_lexed_def intro: token_ok_mono)
  show "well_lexed l s \<Longrightarrow> well_lexed l (reportLexError ec m s)" for l s ec m
    by (simp add: well_lexed_def reportLexError_def Let_def)
  show "well_lexed l s \<Longrightarrow> plain ty \<Longrightarrow> well_lexed l (emit ty v l c s)" for l s ty v c
    by (rule well_lexed_emit)
  show "settled well_lexed s \<Longrightarrow> (0 < indentSize s \<Longrightarrow> 0 \<le> n) \<Longrightarrow> settled well_lexed (set_indent n s)"
    for s n
    using well_lexed_set_indent by (simp add: settled_def set_indent_def Let_def)
  show "settled well_lexed s \<Longrightarrow> indentSize s = 0 \<Longrightarrow> settled well_lexed (s\<lparr>divided_by_zero := True\<rparr>)"
    for s
    by (simp add: settled_def well_lexed_def)
  show "settled well_lexed s \<Longrightarrow> settled well_lexed (emit_here (Single LEFT_BRACE) v (change_brace 1 s))"
    and "settled well_lexed s \<Longrightarrow> settled well_lexed (emit_here (Single RIGHT_BRACE) v (change_brace (- 1) s))"
    for s v
    using well_lexed_brace by (simp_all add: settled_def emit_here_def change_brace_def)
qed

lemma tokenize_state:
  obtains t where "well_lexed (line_no t) t" and "t = scan_loop (reset_state s)"
proof -
  have "well_lexed 1 (reset_state s)" by (simp add: well_lexed_def reset_state_def)
  then have "settled well_lexed (reset_state s)" by (rule wf.settle)
  from wf.settled_scan_loop [OF this] show ?thesis using that by (simp add: settled_def)
qed

section \<open>Errors\<close>

text \<open>The errors the lexer has handed to its handler since \<open>n\<close> were there: one per count, and
  one more, fatal, for each count from \<open>maxErrors\<close> on.\<close>

definition accounted :: "ErrorHandler \<Rightarrow> int \<Rightarrow> lexer \<Rightarrow> bool" where
  "accounted h l s \<longleftrightarrow>
     0 \<le> errorCount s
   \<and> (\<exists>es. errors (errorHandler s) = errors h @ es
        \<and> int (length es) = errorCount s + max 0 (errorCount s - max 1 (maxErrors s) + 1)
        \<and> (\<forall>e \<in> set es. eseverity e \<noteq> WARNING)
        \<and> (list_ex (\<lambda>e. eseverity e = FATAL_SEVERITY) es
             \<longleftrightarrow> 0 < errorCount s \<and> maxErrors s \<le> errorCount s))"

lemma accounted_report: "accounted h l s \<Longrightarrow> accounted h l (reportLexError ec m s)"
proof -
  assume "accounted h l s"
  then obtain es where es: "errors (errorHandler s) = errors h @ es"
      "int (length es) = errorCount s + max 0 (errorCount s - max 1 (maxErrors s) + 1)"
      "\<forall>e \<in> set es. eseverity e \<noteq> WARNING"
      "list_ex (\<lambda>e. eseverity e = FATAL_SEVERITY) es \<longleftrightarrow> 0 < errorCount s \<and> maxErrors s \<le> errorCount s"
      "0 \<le> errorCount s"
    by (auto simp: accounted_def)
  then show ?thesis
    by (auto simp: accounted_def reportLexError_def record_error_def Let_def)
qed

interpretation acc: lexer_invariant "accounted h" for h
proof (rule lexer_invariant.intro)
  show "cursor_invariant (accounted h l)" for l
    by unfold_locales (auto simp: accounted_def adv_def count_line_def)
  show "accounted h l s \<Longrightarrow> accounted h l (reportLexError ec m s)" for l s ec m
    by (rule accounted_report)
qed (auto simp: settled_def accounted_def emit_def emit_here_def set_indent_def
      change_brace_def Let_def)

section \<open>tokenize\<close>

lemma scan_loop_stops: "isAtEnd (scan_loop s) \<or> maxErrors (scan_loop s) \<le> errorCount (scan_loop s)"
proof (induction s rule: scan_loop.induct)
  case (1 s)
  then show ?case by (subst (1 2 3) scan_loop.simps) auto
qed

lemma scan_loop_constant:
  "filename (scan_loop (reset_state s)) = filename s"
  "indentSize (scan_loop (reset_state s)) = indentSize s"
  "maxErrors (scan_loop (reset_state s)) = maxErrors s"
  "source (scan_loop (reset_state s)) = source s"
  using ext.settled_scan_loop [of "reset_state s" "reset_state s"]
  by (simp_all add: ext_def reset_state_def)

lemma tokenize_sel:
  "tokens (tokenize s) = tokens (scan_loop (reset_state s))
     @ replicate (nat (indentLevel (scan_loop (reset_state s))))
         (Token (Layout DEDENT) [] (filename s) (line_no (tokenize s)) (col_no (tokenize s)))
     @ [Token (Special EOF_TOKEN) [] (filename s) (line_no (tokenize s)) (col_no (tokenize s))]"
  "line_no (tokenize s) = line_no (scan_loop (reset_state s))"
  "errorCount (tokenize s) = errorCount (scan_loop (reset_state s))"
  "errorHandler (tokenize s) = errorHandler (scan_loop (reset_state s))"
  "maxErrors (tokenize s) = maxErrors s"
  "filename (tokenize s) = filename s"
  "isAtEnd (tokenize s) = isAtEnd (scan_loop (reset_state s))"
  by (simp_all add: tokenize_def close_levels_def emit_def Let_def scan_loop_constant isAtEnd_def)

lemma scan_loop_well_lexed:
  "well_lexed (line_no (tokenize s)) (scan_loop (reset_state s))"
  using tokenize_state [of s] by (metis tokenize_sel(2))

lemma tokenize_accounted: "accounted (errorHandler s) l (tokenize s)"
proof -
  have "accounted (errorHandler s) 1 (reset_state s)"
    by (simp add: accounted_def reset_state_def)
  then have "settled (accounted (errorHandler s)) (reset_state s)" by (rule acc.settle)
  then show ?thesis
    using acc.settled_scan_loop [of "errorHandler s" "reset_state s"]
    by (simp add: settled_def accounted_def tokenize_sel scan_loop_constant)
qed

section \<open>The indentation size\<close>

definition undivided :: "int \<Rightarrow> lexer \<Rightarrow> bool" where
  "undivided l s \<longleftrightarrow> indentSize s \<noteq> 0 \<longrightarrow> \<not> divided_by_zero s"

interpretation undivided: lexer_invariant undivided
proof (rule lexer_invariant.intro)
  show "cursor_invariant (undivided l)" for l
    by unfold_locales (auto simp: undivided_def adv_def count_line_def)
qed (auto simp: settled_def undivided_def emit_def emit_here_def set_indent_def
      change_brace_def reportLexError_def Let_def)

lemma tokenize_undivided: "indentSize s \<noteq> 0 \<Longrightarrow> \<not> divided_by_zero (tokenize s)"
  using undivided.settled_scan_loop [of "reset_state s"]
  by (simp add: settled_def undivided_def scan_loop_constant tokenize_def close_levels_def emit_def
      Let_def)
     (simp add: reset_state_def)

text \<open>A size of zero is accepted by the constructor, and the first line with a token on it kills
  the process.\<close>

lemma tokenize_zero_indent: "divided_by_zero (tokenize (Lexer ''x '' ''f'' 0))"
  by code_simp

text \<open>C1: With a positive indentation size \<open>tokenize\<close> always returns: no loop of it runs for ever and the
  division by the size does not trap. What it returns is a list of tokens of the lexer's own file,
  each on a line between 1 and the last line, none of them the end of file, followed by
  exactly one end-of-file token that stands on the last line.\<close>

theorem tokenize_ends_with_eof:
  assumes "0 < indentSize s"
  shows "\<not> divided_by_zero (tokenize s)
     \<and> (\<exists>ts c. tokens (tokenize s)
         = ts @ [Token (Special EOF_TOKEN) [] (filename s) (line_no (tokenize s)) c]
       \<and> list_all (token_ok (filename s) (line_no (tokenize s))) ts)"
proof -
  note nd = tokenize_undivided [of s]
  note wl = scan_loop_well_lexed [of s, unfolded well_lexed_def]
  then have "token_ok (filename s) (line_no (tokenize s))
      (Token (Layout DEDENT) [] (filename s) (line_no (tokenize s)) c)" for c
    by (simp add: token_ok_def)
  with wl nd assms show ?thesis
    by (auto simp: tokenize_sel(1) list_all_iff scan_loop_constant)
qed

lemma tokenize_ends_with_eof_witness:
  "\<not> divided_by_zero (tokenize (Lexer ''x '' ''f'' 4))
   \<and> (\<exists>ts c. tokens (tokenize (Lexer ''x '' ''f'' 4))
        = ts @ [Token (Special EOF_TOKEN) [] ''f'' (line_no (tokenize (Lexer ''x '' ''f'' 4))) c]
      \<and> list_all (token_ok ''f'' (line_no (tokenize (Lexer ''x '' ''f'' 4)))) ts)"
  using tokenize_ends_with_eof [of "Lexer ''x '' ''f'' 4"] by (simp add: Lexer_def)

text \<open>The tokens come in the order of the source: their lines never decrease.\<close>

theorem tokenize_lines_sorted: "sorted (map line (tokens (tokenize s)))"
  using scan_loop_well_lexed [of s]
  by (auto simp: tokenize_sel(1) well_lexed_def token_ok_def sorted_append)

text \<open>C8: for a positive indentation size every INDENT that \<open>tokenize\<close> emits is closed by a DEDENT,
  and the brace counter is the number of open braces minus the number of closed ones.\<close>

theorem tokenize_balanced:
  assumes "0 < indentSize s"
  shows "count_type (Layout INDENT) (tokens (tokenize s)) = count_type (Layout DEDENT) (tokens (tokenize s))
    \<and> braceDepth (tokenize s) = count_type (Single LEFT_BRACE) (tokens (tokenize s))
        - count_type (Single RIGHT_BRACE) (tokens (tokenize s))"
  using scan_loop_well_lexed [of s] assms
  by (simp add: tokenize_sel(1) well_lexed_def scan_loop_constant)
     (simp add: tokenize_def close_levels_def emit_def Let_def)

lemma tokenize_balanced_witness:
  "count_type (Layout INDENT) (tokens (tokenize (Lexer ''  if x {  '' ''f'' 2)))
     = count_type (Layout DEDENT) (tokens (tokenize (Lexer ''  if x {  '' ''f'' 2)))
   \<and> count_type (Layout INDENT) (tokens (tokenize (Lexer ''  if x {  '' ''f'' 2))) = 1
   \<and> braceDepth (tokenize (Lexer ''  if x {  '' ''f'' 2)) = 1"
proof -
  have "count_type (Layout INDENT) (tokens (tokenize (Lexer ''  if x {  '' ''f'' 2))) = 1"
    "braceDepth (tokenize (Lexer ''  if x {  '' ''f'' 2)) = 1"
    by code_simp+
  with tokenize_balanced [of "Lexer ''  if x {  '' ''f'' 2"] show ?thesis by (simp add: Lexer_def)
qed

text \<open>\<open>tokenize\<close> reads the whole source unless it stopped at the error limit.\<close>

theorem tokenize_complete:
  "current (tokenize s) = length (source s) \<or> maxErrors s \<le> errorCount (tokenize s)"
proof -
  have "current (scan_loop (reset_state s)) \<le> length (source s)"
    using scan_loop_well_lexed [of s] by (simp add: well_lexed_def scan_loop_constant)
  moreover have "current (tokenize s) = current (scan_loop (reset_state s))"
    by (simp add: tokenize_def close_levels_def emit_def Let_def)
  ultimately show ?thesis
    using scan_loop_stops [of "reset_state s"]
    by (auto simp: tokenize_sel isAtEnd_def scan_loop_constant)
qed

text \<open>The errors of a run are appended to the handler in order, one per count, none of them a
  warning, and a fatal one is there exactly when the limit was reached.\<close>

theorem tokenize_errors:
  assumes "0 < maxErrors s"
  shows "\<exists>es. errors (errorHandler (tokenize s)) = errors (errorHandler s) @ es
     \<and> int (length es) = errorCount (tokenize s) + max 0 (errorCount (tokenize s) - maxErrors s + 1)
     \<and> (list_ex (\<lambda>e. eseverity e = FATAL_SEVERITY) es \<longleftrightarrow> maxErrors s \<le> errorCount (tokenize s))"
  using tokenize_accounted [of s 1] assms by (auto simp: accounted_def tokenize_sel)

lemma tokenize_errors_witness:
  "\<exists>es. errors (errorHandler (tokenize (Lexer ''x @ y'' ''f'' 4))) = es \<and> length es = 1
     \<and> \<not> list_ex (\<lambda>e. eseverity e = FATAL_SEVERITY) es"
proof -
  have "errorCount (tokenize (Lexer ''x @ y'' ''f'' 4)) = 1" by code_simp
  with tokenize_errors [of "Lexer ''x @ y'' ''f'' 4"] show ?thesis
    by (simp add: Lexer_def new_ErrorHandler_def)
qed

end
