(* ===== verification/Tocin_Lexer_Spec.thy ===== *)
theory Tocin_Lexer_Spec
  imports Tocin_Lexer_Invariants "HOL-Library.Sublist"
begin

text \<open>
  What the scanners of \<open>src/lexer/lexer.cpp\<close> compute, stated on the text that is left: maximal
  munch for identifiers and keywords, decimal integers, operators as the longest lexeme of
  a table, string literals as the inverse of the escaping in \<open>Token::toString\<close>, and the
  round trip through \<open>tokenize\<close> of a printed list of words.
\<close>

section \<open>The text that is left\<close>

definition rest :: "lexer \<Rightarrow> string" where
  "rest s = drop (current s) (source s)"

definition adv_by :: "nat \<Rightarrow> lexer \<Rightarrow> lexer" where
  "adv_by n s = s\<lparr>current := current s + n, col_no := col_no s + int n\<rparr>"

lemma isAtEnd_rest: "isAtEnd s \<longleftrightarrow> rest s = []"
  by (auto simp: isAtEnd_def rest_def)

lemma peek_rest: "rest s = c # r \<Longrightarrow> peek s = c"
  using nth_via_drop [of "current s" "source s" c r] by (simp add: peek_def isAtEnd_rest rest_def)

lemma peek_rest_Nil: "rest s = [] \<Longrightarrow> peek s = NUL"
  by (simp add: peek_def isAtEnd_rest)

lemma rest_adv_by: "rest (adv_by n s) = drop n (rest s)"
  by (simp add: rest_def adv_by_def add.commute)

lemma adv_adv_by: "rest s \<noteq> [] \<Longrightarrow> adv s = adv_by 1 s"
  by (simp add: adv_def adv_by_def isAtEnd_rest)

lemma adv_by_simps [simp]:
  "adv_by 0 s = s" "adv_by m (adv_by n s) = adv_by (n + m) s"
  "line_no (adv_by n s) = line_no s" "col_no (adv_by n s) = col_no s + int n"
  "filename (adv_by n s) = filename s" "tokens (adv_by n s) = tokens s"
  "atLineStart (adv_by n s) = atLineStart s" "braceDepth (adv_by n s) = braceDepth s"
  "errorCount (adv_by n s) = errorCount s" "maxErrors (adv_by n s) = maxErrors s"
  "indentLevel (adv_by n s) = indentLevel s" "indentSize (adv_by n s) = indentSize s"
  by (simp_all add: adv_by_def)

lemma rest_adv: "rest s = c # r \<Longrightarrow> rest (adv s) = r" "rest s = c # r \<Longrightarrow> rest (adv_by (Suc 0) s) = r"
  by (simp_all add: adv_adv_by rest_adv_by)

lemma peekNext_rest: "rest s = c # d # r \<Longrightarrow> peekNext s = d"
  using peek_rest [of "adv s" d r] rest_adv(1) [of s c "d # r"]
  by (auto simp: peekNext_def peek_def adv_def isAtEnd_def split: if_splits)

lemma peekNext_rest_single: "rest s = [c] \<Longrightarrow> peekNext s = NUL"
  by (auto simp: peekNext_def rest_def dest!: arg_cong [where f = length])

lemma matches_rest: "matches c s \<longleftrightarrow> (\<exists>r. rest s = c # r)"
  by (cases "rest s") (auto simp: matches_peek isAtEnd_rest dest: peek_rest)

text \<open>A token with the lexeme \<open>v\<close> for the next \<open>n\<close> characters.\<close>

definition accept :: "TokenType \<Rightarrow> string \<Rightarrow> nat \<Rightarrow> lexer \<Rightarrow> lexer" where
  "accept ty v n s = emit ty v (line_no s) (col_no s) (adv_by n s)"

lemma accept_emit_here: "emit_here ty v (adv_by (length v) s) = accept ty v (length v) s"
  by (simp add: accept_def emit_here_def)

section \<open>Maximal munch\<close>

lemma collect_rest:
  "collect p v s =
     (v @ takeWhile p (rest s), adv_by (length (takeWhile p (rest s))) s)"
proof (induction p v s rule: collect.induct)
  case (1 p v s)
  show ?case
  proof (cases "\<not> isAtEnd s \<and> p (peek s)")
    case True
    then obtain r where r: "rest s = peek s # r"
      by (cases "rest s") (auto simp: isAtEnd_rest dest: peek_rest)
    with True 1 show ?thesis
      by (subst collect.simps) (simp add: rest_adv(2) [OF r] adv_adv_by)
  next
    case False
    then have "takeWhile p (rest s) = []"
      by (cases "rest s") (auto simp: isAtEnd_rest dest: peek_rest)
    with False show ?thesis by (subst collect.simps) auto
  qed
qed

lemma scanIdentifier_rest:
  assumes "rest s = c # r"
  shows "scanIdentifier s =
    (let w = c # takeWhile is_ident_char r in accept (keyword_type w) w (length w) s)"
  using assms accept_emit_here [of _ "c # takeWhile is_ident_char r" s]
  by (simp add: scanIdentifier_def collect_rest rest_adv peek_rest Let_def)
     (simp add: adv_adv_by)

text \<open>A letter or an underscore starts the longest run of identifier characters, and the run is
  one token: a keyword when it is in the keyword table, an identifier otherwise.\<close>

theorem identifier_maximal_munch:
  assumes "rest s = c # r" and "isalpha c \<or> c = CHR ''_''"
  shows "one_token s =
    (let w = c # takeWhile is_ident_char r in accept (keyword_type w) w (length w) s)"
  using assms by (simp add: one_token_def peek_rest scanIdentifier_rest)

lemma identifier_maximal_munch_witness:
  "one_token (Lexer ''let1 = 2'' ''f'' 4)
     = accept (Lit IDENTIFIER) ''let1'' (length ''let1'') (Lexer ''let1 = 2'' ''f'' 4)"
  using identifier_maximal_munch [of "Lexer ''let1 = 2'' ''f'' 4" "CHR ''l''" "''et1 = 2''"]
  by (simp add: rest_def Lexer_def is_ident_char_def char_class_defs keyword_type_def keyword_table_def)

text \<open>Every keyword of the table, before a character that cannot continue an identifier, is
  scanned as its own token type.\<close>

theorem keyword_scanned:
  assumes "map_of keyword_table k = Some ty" and "rest s = k @ r"
    and "r = [] \<or> \<not> is_ident_char (hd r)"
  shows "one_token s = accept ty k (length k) s"
proof -
  have "list_all (\<lambda>(k, ty). k \<noteq> [] \<and> isalpha (hd k) \<and> list_all is_ident_char k) keyword_table"
    by (simp add: keyword_table_def char_class_defs is_ident_char_def)
  with map_of_SomeD [OF assms(1)] assms(1)
  have k: "k \<noteq> []" "isalpha (hd k)" "list_all is_ident_char k" "keyword_type k = ty"
    by (auto simp: list_all_iff keyword_type_def)
  then obtain c k' where c: "k = c # k'" by (cases k) auto
  have "takeWhile is_ident_char (k' @ r) = k'"
    using k(3) c assms(3) by (cases r) (auto simp: list_all_iff)
  with identifier_maximal_munch [of s c "k' @ r"] assms(2) c k show ?thesis by simp
qed

lemma keyword_scanned_witness:
  "one_token (Lexer ''while(x)'' ''f'' 4) = accept (Kw WHILE) ''while'' (length ''while'') (Lexer ''while(x)'' ''f'' 4)"
  using keyword_scanned [of "''while''" "Kw WHILE" "Lexer ''while(x)'' ''f'' 4" "''(x)''"]
  by (simp add: rest_def Lexer_def is_ident_char_def char_class_defs keyword_table_def)

section \<open>Decimal integers\<close>

definition ends_number :: "string \<Rightarrow> bool" where
  "ends_number r \<longleftrightarrow>
     (case r of [] \<Rightarrow> True | c # _ \<Rightarrow> \<not> isdigit c \<and> c \<notin> set ''eEfFlLuU.xXbB'')"

lemma ends_number_takeWhile: "ends_number r \<Longrightarrow> takeWhile isdigit r = []"
  by (cases r) (auto simp: ends_number_def)

text \<open>A decimal integer without leading zeros, before a character that cannot continue a number,
  is one INT token with exactly its digits.\<close>

theorem decimal_integer:
  assumes "rest s = w @ r" and "w \<noteq> []" and "list_all isdigit w"
    and "hd w \<noteq> CHR ''0'' \<or> w = ''0''" and "ends_number r"
  shows "one_token s = accept (Lit INT_LIT) w (length w) s"
proof -
  obtain d ds where w: "w = d # ds" using assms(2) by (cases w) auto
  have r: "rest s = d # ds @ r" using assms(1) w by simp
  have d: "isdigit d" "takeWhile isdigit (ds @ r) = ds"
    using assms(3,5) w by (auto simp: list_all_iff takeWhile_append2 ends_number_takeWhile)
  define u where "u = adv_by (length w) s"
  have u: "rest u = r" by (simp add: u_def rest_adv_by assms(1))
  have suffix: "number_fraction w u = emit_here (Lit INT_LIT) w u"
    using assms(5) u
    by (cases r) (simp_all add: number_fraction_def number_exponent_def number_suffix_def Let_def
        isAtEnd_rest ends_number_def peek_rest peek_rest_Nil)
  have zero: "ds = [] \<and> rest (adv s) = r" if "d = CHR ''0''"
    using assms(4) that w r by (auto simp: rest_adv)
  have "scanNumber s = (case collect isdigit [d] (adv s) of (v, t) \<Rightarrow> number_fraction v t)"
  proof (cases "d = CHR ''0'' \<and> \<not> isAtEnd (adv s)")
    case True
    with zero assms(5) show ?thesis
      by (cases r) (auto simp: scanNumber_def Let_def peek_rest [OF r] isAtEnd_rest
          ends_number_def dest: peek_rest)
  next
    case False
    then show ?thesis by (auto simp: scanNumber_def Let_def peek_rest [OF r])
  qed
  also have "\<dots> = number_fraction w u"
    using d r by (simp add: collect_rest rest_adv(2) [OF r] w u_def adv_adv_by)
  also have "\<dots> = accept (Lit INT_LIT) w (length w) s"
    unfolding suffix by (simp add: u_def accept_emit_here)
  finally show ?thesis
    using d(1) by (auto simp: one_token_def Let_def peek_rest [OF r] isdigit_def code_def)
qed

lemma decimal_integer_witness:
  "one_token (Lexer ''42;'' ''f'' 4) = accept (Lit INT_LIT) ''42'' (length ''42'') (Lexer ''42;'' ''f'' 4)"
  using decimal_integer [of "Lexer ''42;'' ''f'' 4" "''42''" "'';''"]
  by (simp add: rest_def Lexer_def ends_number_def char_class_defs)

section \<open>Operators\<close>

text \<open>The lexemes of the \<open>switch\<close>, longest first.\<close>

definition operator_table :: "(string \<times> TokenType) list" where
  "operator_table = [
     (''...'', Op2 ELLIPSIS), (''**='', Op2 POWER_EQUAL), (''==='', Op2 STRICT_EQUAL),
     (''!=='', Op2 STRICT_NOT_EQUAL), (''<<='', Op2 LEFT_SHIFT_EQUAL), (''>>='', Op2 RIGHT_SHIFT_EQUAL),
     (''..'', Op2 RANGE), (''::'', Op DOUBLE_COLON), (''+='', Op PLUS_EQUAL), (''++'', Op2 INCREMENT),
     (''-<'', Kw3 CHANNEL_RECEIVE), (''-='', Op MINUS_EQUAL), (''--'', Op2 DECREMENT), (''->'', Op ARROW),
     (''*='', Op STAR_EQUAL), (''**'', Op2 POWER), (''/='', Op SLASH_EQUAL), (''%='', Op PERCENT_EQUAL),
     (''=='', Op EQUAL_EQUAL), (''!='', Op BANG_EQUAL), (''<-'', Kw3 CHANNEL_SEND), (''<='', Op LESS_EQUAL),
     (''<<'', Op2 LEFT_SHIFT), (''>='', Op GREATER_EQUAL), (''>>'', Op2 RIGHT_SHIFT), (''&&'', Logic AND),
     (''&='', Op2 BITWISE_AND_EQUAL), (''||'', Logic OR), (''|='', Op2 BITWISE_OR_EQUAL),
     (''^='', Op2 BITWISE_XOR_EQUAL), (''?.'', Op2 SAFE_ACCESS), (''??'', Op2 NULL_COALESCE),
     (''('', Single LEFT_PAREN), ('')'', Single RIGHT_PAREN), (''{'', Single LEFT_BRACE),
     (''}'', Single RIGHT_BRACE), (''['', Single LEFT_BRACKET), ('']'', Single RIGHT_BRACKET),
     ('','', Single COMMA), (''.'', Single DOT), ('';'', Single SEMI_COLON), ('':'', Single COLON),
     (''+'', Op PLUS), (''-'', Op MINUS), (''*'', Op STAR), (''/'', Op SLASH), (''%'', Op PERCENT),
     (''='', Op EQUAL), (''!'', Op BANG), (''<'', Op LESS), (''>'', Op GREATER),
     (''&'', Op2 BITWISE_AND), (''|'', Op2 BITWISE_OR), (''^'', Op2 BITWISE_XOR),
     (''~'', Op2 BITWISE_NOT), (''?'', Op2 QUESTION)]"

definition longest_operator :: "string \<Rightarrow> (string \<times> TokenType) option" where
  "longest_operator text = find (\<lambda>(w, ty). prefix w text) operator_table"

definition brace_delta :: "TokenType \<Rightarrow> int" where
  "brace_delta ty =
     (if ty = Single LEFT_BRACE then 1 else if ty = Single RIGHT_BRACE then - 1 else 0)"

text \<open>What the scan of an operator should be: the longest lexeme, and the brace counter.\<close>

definition accept_operator :: "string \<Rightarrow> TokenType \<Rightarrow> lexer \<Rightarrow> lexer" where
  "accept_operator w ty s = accept ty w (length w) (change_brace (brace_delta ty) s)"

lemma change_brace_simps [simp]:
  "rest (change_brace d s) = rest s" "change_brace 0 s = s"
  "line_no (change_brace d s) = line_no s" "col_no (change_brace d s) = col_no s"
  "adv_by n (change_brace d s) = change_brace d (adv_by n s)"
  by (simp_all add: rest_def change_brace_def adv_by_def)

lemma find_filter: "(\<And>x. x \<in> set xs \<Longrightarrow> P x \<Longrightarrow> Q x) \<Longrightarrow> find P xs = find P (filter Q xs)"
  by (induction xs) auto

lemma longest_operator_Cons:
  "longest_operator (c # t) =
     find (\<lambda>(w, ty). prefix w (c # t)) (filter (\<lambda>(w, ty). hd w = c) operator_table)"
proof -
  have "list_all (\<lambda>x. fst x \<noteq> []) operator_table" by (simp add: operator_table_def)
  then show ?thesis
    unfolding longest_operator_def list_all_iff
    by (intro find_filter) (force simp: prefix_Cons)
qed

lemma operators_by_start:
  "filter (\<lambda>(w, ty). hd w = CHR ''.'') operator_table = [(''...'', Op2 ELLIPSIS), (''..'', Op2 RANGE), (''.'', Single DOT)]"
  "filter (\<lambda>(w, ty). hd w = CHR ''*'') operator_table = [(''**='', Op2 POWER_EQUAL), (''*='', Op STAR_EQUAL), (''**'', Op2 POWER), (''*'', Op STAR)]"
  "filter (\<lambda>(w, ty). hd w = CHR ''='') operator_table = [(''==='', Op2 STRICT_EQUAL), (''=='', Op EQUAL_EQUAL), (''='', Op EQUAL)]"
  "filter (\<lambda>(w, ty). hd w = CHR ''!'') operator_table = [(''!=='', Op2 STRICT_NOT_EQUAL), (''!='', Op BANG_EQUAL), (''!'', Op BANG)]"
  "filter (\<lambda>(w, ty). hd w = CHR ''<'') operator_table = [(''<<='', Op2 LEFT_SHIFT_EQUAL), (''<-'', Kw3 CHANNEL_SEND), (''<='', Op LESS_EQUAL), (''<<'', Op2 LEFT_SHIFT), (''<'', Op LESS)]"
  "filter (\<lambda>(w, ty). hd w = CHR ''>'') operator_table = [(''>>='', Op2 RIGHT_SHIFT_EQUAL), (''>='', Op GREATER_EQUAL), (''>>'', Op2 RIGHT_SHIFT), (''>'', Op GREATER)]"
  "filter (\<lambda>(w, ty). hd w = CHR '':'') operator_table = [(''::'', Op DOUBLE_COLON), ('':'', Single COLON)]"
  "filter (\<lambda>(w, ty). hd w = CHR ''+'') operator_table = [(''+='', Op PLUS_EQUAL), (''++'', Op2 INCREMENT), (''+'', Op PLUS)]"
  "filter (\<lambda>(w, ty). hd w = CHR ''-'') operator_table = [(''-<'', Kw3 CHANNEL_RECEIVE), (''-='', Op MINUS_EQUAL), (''--'', Op2 DECREMENT), (''->'', Op ARROW), (''-'', Op MINUS)]"
  "filter (\<lambda>(w, ty). hd w = CHR ''/'') operator_table = [(''/='', Op SLASH_EQUAL), (''/'', Op SLASH)]"
  "filter (\<lambda>(w, ty). hd w = CHR ''%'') operator_table = [(''%='', Op PERCENT_EQUAL), (''%'', Op PERCENT)]"
  "filter (\<lambda>(w, ty). hd w = CHR ''&'') operator_table = [(''&&'', Logic AND), (''&='', Op2 BITWISE_AND_EQUAL), (''&'', Op2 BITWISE_AND)]"
  "filter (\<lambda>(w, ty). hd w = CHR ''|'') operator_table = [(''||'', Logic OR), (''|='', Op2 BITWISE_OR_EQUAL), (''|'', Op2 BITWISE_OR)]"
  "filter (\<lambda>(w, ty). hd w = CHR ''^'') operator_table = [(''^='', Op2 BITWISE_XOR_EQUAL), (''^'', Op2 BITWISE_XOR)]"
  "filter (\<lambda>(w, ty). hd w = CHR ''?'') operator_table = [(''?.'', Op2 SAFE_ACCESS), (''??'', Op2 NULL_COALESCE), (''?'', Op2 QUESTION)]"
  "filter (\<lambda>(w, ty). hd w = CHR ''('') operator_table = [(''('', Single LEFT_PAREN)]"
  "filter (\<lambda>(w, ty). hd w = CHR '')'') operator_table = [('')'', Single RIGHT_PAREN)]"
  "filter (\<lambda>(w, ty). hd w = CHR ''{'') operator_table = [(''{'', Single LEFT_BRACE)]"
  "filter (\<lambda>(w, ty). hd w = CHR ''}'') operator_table = [(''}'', Single RIGHT_BRACE)]"
  "filter (\<lambda>(w, ty). hd w = CHR ''['') operator_table = [(''['', Single LEFT_BRACKET)]"
  "filter (\<lambda>(w, ty). hd w = CHR '']'') operator_table = [('']'', Single RIGHT_BRACKET)]"
  "filter (\<lambda>(w, ty). hd w = CHR '','') operator_table = [('','', Single COMMA)]"
  "filter (\<lambda>(w, ty). hd w = CHR '';'') operator_table = [('';'', Single SEMI_COLON)]"
  "filter (\<lambda>(w, ty). hd w = CHR ''~'') operator_table = [(''~'', Op2 BITWISE_NOT)]"
  by code_simp+

lemma operator_table_starts:
  "list_all (\<lambda>(w, ty). hd w \<in> set ''.*=!<>:+-/%&|^?(){}[],;~'') operator_table"
  by code_simp

lemma scan_operator_longest:
  assumes "rest s = c # d # r" and "longest_operator (c # d # r) = Some (w, ty)"
    and "\<not> (c = CHR ''/'' \<and> d \<in> {CHR ''/'', CHR ''*''})"
  shows "scan_operator c (adv s) = accept_operator w ty s"
proof -
  define u where "u = adv s"
  have u: "u = adv_by 1 s" "rest u = d # r" "adv u = adv_by 2 s" "rest (adv_by 2 s) = r"
    "rest (adv_by 1 s) = d # r"
    using assms(1) by (simp_all add: u_def adv_adv_by rest_adv rest_adv_by numeral_2_eq_2)
  have m: "matches x u \<longleftrightarrow> d = x" "matches x (adv u) \<longleftrightarrow> prefix [x] r" for x
    using u(2-4) by (cases r; auto simp: matches_rest)+
  have e: "emit_here ty [a] u = accept ty [a] (Suc 0) s" "emit_here ty [a, b] (adv u) = accept ty [a, b] (Suc (Suc 0)) s"
     for ty a b unfolding u(3) unfolding u(1) by (simp_all add: emit_here_def accept_def eval_nat_numeral)
  have e3: "emit_here ty [a, b, c] (adv (adv u)) = accept ty [a, b, c] (Suc (Suc (Suc 0))) s"
    if "prefix [x] r" for ty a b c x r'
    using u(3,4) that by (cases r) (simp_all add: adv_adv_by emit_here_def accept_def eval_nat_numeral)
  have b: "emit_here ty [a] (change_brace n u) = accept ty [a] (Suc 0) (change_brace n s)" for ty a n
    unfolding u(1) by (simp add: emit_here_def accept_def)
  have "filter (\<lambda>(w, ty). hd w = c) operator_table \<noteq> []"
    using assms(2) by (auto simp: longest_operator_Cons)
  then have c: "c \<in> set ''.*=!<>:+-/%&|^?(){}[],;~''"
    using operator_table_starts by (auto simp: filter_empty_conv list_all_iff)
  have p: "prefix (x # xs) (y # ys) \<longleftrightarrow> y = x \<and> prefix xs ys" for x y :: char and xs ys
    by auto
  have "case longest_operator (c # d # r) of None \<Rightarrow> True
    | Some (w, ty) \<Rightarrow> scan_operator c u = accept_operator w ty s"
    using c assms(3) unfolding longest_operator_Cons list.set insert_iff empty_iff
    by (elim disjE; simp add: operators_by_start m e e3 b scan_operator_def punctuation_def
        arithmetic_operator_def comparison_operator_def accept_operator_def brace_delta_def p
        del: Cons_prefix_Cons)
  with assms(2) show ?thesis by (simp add: u_def)
qed

lemma operator_starts_not_word:
  assumes "longest_operator (c # t) = Some x"
  shows "\<not> isalnum c \<and> c \<noteq> CHR ''_'' \<and> c \<noteq> NUL \<and> c \<notin> {CHR '' '', TAB, CR, NL, HASH}"
proof -
  have "list_all (\<lambda>(w, ty). \<not> isalnum (hd w) \<and> hd w \<noteq> CHR ''_'' \<and> hd w \<noteq> NUL
      \<and> hd w \<notin> {CHR '' '', TAB, CR, NL, HASH}) operator_table"
    by code_simp
  moreover have "filter (\<lambda>(w, ty). hd w = c) operator_table \<noteq> []"
    using assms by (auto simp: longest_operator_Cons)
  ultimately show ?thesis by (auto simp: list_all_iff filter_empty_conv)
qed

lemma one_token_operator:
  assumes "rest s = c # d # r" and "longest_operator (c # d # r) = Some (w, ty)"
    and "\<not> (c = CHR ''/'' \<and> d \<in> {CHR ''/'', CHR ''*''})"
  shows "one_token s = accept_operator w ty s"
  using scan_operator_longest [OF assms] operator_starts_not_word [OF assms(2)] assms(1)
  by (auto simp: one_token_def Let_def peek_rest rest_adv isAtEnd_rest isalnum_def)

text \<open>C7: Where at least one more character follows in the source, and the two characters do not open a
  comment, an operator or bracket is scanned as the longest lexeme of the table that the source
  goes on with, and a brace moves the brace counter by one. (An operator that is the last character
  of the source is dropped without a token, see \<open>scanToken\<close>.)\<close>

theorem operator_longest_match:
  assumes "rest s = c # d # r" and "longest_operator (c # d # r) = Some (w, ty)"
    and "\<not> (c = CHR ''/'' \<and> d \<in> {CHR ''/'', CHR ''*''})"
  shows "one_token s = accept_operator w ty s"
  using one_token_operator [OF assms] .

lemma operator_longest_match_witness:
  "one_token (Lexer ''<<= 1'' ''f'' 4)
     = accept_operator ''<<='' (Op2 LEFT_SHIFT_EQUAL) (Lexer ''<<= 1'' ''f'' 4)"
proof -
  have "longest_operator ''<<= 1'' = Some (''<<='', Op2 LEFT_SHIFT_EQUAL)" by code_simp
  then show ?thesis
    using operator_longest_match [of "Lexer ''<<= 1'' ''f'' 4" "CHR ''<''" "CHR ''<''" "''= 1''"]
    by (simp add: rest_def Lexer_def)
qed

text \<open>An operator or bracket that is the last character of the source yields no token:
  \<open>scanToken\<close> returns as soon as \<open>advance()\<close> reaches the end.\<close>

theorem last_operator_dropped:
  assumes "rest s = [c]" and "longest_operator [c] = Some (w, ty)"
  shows "one_token s = adv s \<and> tokens (one_token s) = tokens s"
proof -
  have "one_token s = adv s"
    using operator_starts_not_word [OF assms(2)] assms(1)
    by (auto simp: one_token_def Let_def peek_rest rest_adv isAtEnd_rest isalnum_def)
  then show ?thesis by (simp add: adv_def)
qed

lemma last_operator_dropped_witness:
  "one_token (Lexer '';'' ''f'' 4) = adv (Lexer '';'' ''f'' 4) \<and> tokens (one_token (Lexer '';'' ''f'' 4)) = []"
proof -
  have "longest_operator '';'' = Some ('';'', Single SEMI_COLON)" by code_simp
  then show ?thesis
    using last_operator_dropped [of "Lexer '';'' ''f'' 4" "CHR '';''"]
    by (simp add: rest_def Lexer_def adv_def isAtEnd_def)
qed

section \<open>String literals\<close>

lemma escape_char_cases:
  obtains (plain) "escape_char c = [c]" "c \<notin> {NL, BACKSLASH, DQUOTE}"
  | (escaped) e where "escape_char c = [BACKSLASH, e]" "e \<noteq> NL" "simple_escape e = Some c"
  by (cases "c \<in> {NL, TAB, CR, BACKSLASH, DQUOTE}") (auto simp: escape_char_def simple_escape_def)

lemma string_loop_escapedValue:
  "rest t = escapedValue w @ DQUOTE # r \<Longrightarrow>
   string_loop DQUOTE sl sc False v t
     = emit (Lit STRING) (v @ w) sl sc (adv_by (length (escapedValue w) + 1) t)"
proof (induction w arbitrary: v t)
  case Nil
  then have "rest t = DQUOTE # r" by (simp add: escapedValue_def)
  then show ?case
    by (simp add: string_loop_quote peek_rest isAtEnd_rest adv_adv_by escapedValue_def)
next
  case (Cons c w)
  from Cons.prems have r: "rest t = escape_char c @ escapedValue w @ DQUOTE # r"
    by (simp add: escapedValue_def)
  show ?case
  proof (cases rule: escape_char_cases [of c])
    case plain
    then have "rest t = c # escapedValue w @ DQUOTE # r" using r by simp
    with plain Cons.IH [of "adv t" "v @ [c]"] show ?thesis
      by (simp add: string_loop_char peek_rest isAtEnd_rest rest_adv adv_adv_by escapedValue_def)
  next
    case (escaped e)
    then have r2: "rest t = BACKSLASH # e # escapedValue w @ DQUOTE # r" using r by simp
    then have r1: "rest (adv t) = e # escapedValue w @ DQUOTE # r"
      and r0: "rest (adv (adv t)) = escapedValue w @ DQUOTE # r"
      by (auto intro: rest_adv)
    have "escape_sequence e v (adv t) = (v @ [c], adv t)"
      using escaped(3) by (simp add: escape_sequence_def)
    with r2 r1 escaped(2) have "string_loop DQUOTE sl sc False v t
        = string_loop DQUOTE sl sc False (v @ [c]) (adv (adv t))"
      by (simp add: string_loop_backslash string_loop_escaped peek_rest isAtEnd_rest)
    also have "\<dots> = emit (Lit STRING) (v @ c # w) sl sc
        (adv_by (length (escapedValue w) + 1) (adv (adv t)))"
      using Cons.IH [OF r0, of "v @ [c]"] by simp
    also have "adv (adv t) = adv_by 2 t"
      using r2 r1 by (simp add: adv_adv_by numeral_2_eq_2)
    finally show ?thesis using escaped(1) by (simp add: escapedValue_def)
  qed
qed

lemma one_token_string:
  assumes "rest s = [DQUOTE] @ escapedValue w @ [DQUOTE] @ r"
  shows "one_token s = accept (Lit STRING) w (length (escapedValue w) + 2) s"
proof -
  have r: "rest s = DQUOTE # escapedValue w @ DQUOTE # r" using assms(1) by simp
  then have a: "adv s = adv_by 1 s" "rest (adv s) = escapedValue w @ DQUOTE # r"
    by (simp_all add: adv_adv_by rest_adv)
  have q: "source (adv s) ! (current (adv s) - 1) = DQUOTE"
    using peek_rest [OF r] r by (auto simp: peek_def adv_def isAtEnd_rest)
  have "one_token s = scan_operator DQUOTE (adv s)"
    using a(2) by (simp add: one_token_def Let_def peek_rest [OF r] isAtEnd_rest isalpha_def
        isdigit_def code_def)
  also have "\<dots> = scanString (adv s)"
    by (simp add: scan_operator_def punctuation_def arithmetic_operator_def comparison_operator_def)
  also have "\<dots> = accept (Lit STRING) w (length (escapedValue w) + 2) s"
    using string_loop_escapedValue [OF a(2)] unfolding scanString_def q
    by (simp add: a(1) accept_def)
  finally show ?thesis .
qed

text \<open>C6: scanning a double-quoted string undoes the escaping of \<open>Token::toString\<close>: for every
  string, the quoted \<open>escapedValue\<close> is one STRING token with the string itself.\<close>

theorem string_literal_roundtrip:
  assumes "rest s = [DQUOTE] @ escapedValue w @ [DQUOTE] @ r"
  shows "one_token s = accept (Lit STRING) w (length (escapedValue w) + 2) s"
  using one_token_string [OF assms] .

lemma string_literal_roundtrip_witness:
  "one_token (Lexer ([DQUOTE] @ escapedValue [CHR ''a'', NL, DQUOTE] @ [DQUOTE] @ '';'') ''f'' 4)
     = accept (Lit STRING) [CHR ''a'', NL, DQUOTE] (length (escapedValue [CHR ''a'', NL, DQUOTE]) + 2)
         (Lexer ([DQUOTE] @ escapedValue [CHR ''a'', NL, DQUOTE] @ [DQUOTE] @ '';'') ''f'' 4)"
  using string_literal_roundtrip
    [of "Lexer ([DQUOTE] @ escapedValue [CHR ''a'', NL, DQUOTE] @ [DQUOTE] @ '';'') ''f'' 4"
      "[CHR ''a'', NL, DQUOTE]" "'';''"]
  by (simp add: rest_def Lexer_def escapedValue_def escape_char_def)

text \<open>A Unicode escape is never decoded: the scanner looks for the brace at the \<open>u\<close> itself, so
  every \<open>u\<close> escape of a string is reported as invalid and stands for the letter.\<close>

theorem unicode_escape_rejected:
  assumes "rest s = CHR ''u'' # r"
  shows "escape_sequence (peek s) v s =
    (v @ ''u'', reportLexError L006_INVALID_UNICODE_ESCAPE ''Invalid unicode escape sequence'' s)"
  using assms
  by (simp add: peek_rest escape_sequence_def simple_escape_def unicode_escape_def isAtEnd_rest)

lemma unicode_escape_rejected_witness:
  "fst (escape_sequence (peek (Lexer ''u{41}'' ''f'' 4)) ''ab'' (Lexer ''u{41}'' ''f'' 4)) = ''abu''"
  using unicode_escape_rejected [of "Lexer ''u{41}'' ''f'' 4" "''{41}''" "''ab''"]
  by (simp add: rest_def Lexer_def)

lemma adv_errorCount: "errorCount (adv s) = errorCount s"
  by (simp add: adv_def)

text \<open>After a hexadecimal escape the scanner skips one more character, so a string whose
  last escape is \<open>\x41\<close> swallows its own closing quote.\<close>

theorem hex_escape_skips_quote:
  assumes "rest s = [BACKSLASH, CHR ''x'', a, b, DQUOTE, NL] @ r" and "isxdigit a" and "isxdigit b"
  shows "errorCount (string_loop DQUOTE sl sc False v s) = errorCount s + 1
    \<and> lexeme (last (tokens (string_loop DQUOTE sl sc False v s))) = []"
proof -
  have s0: "rest s = BACKSLASH # CHR ''x'' # a # b # DQUOTE # NL # r" using assms(1) by simp
  note s1 = rest_adv(1) [OF s0] and s2 = rest_adv(1) [OF rest_adv(1) [OF s0]]
  note s3 = rest_adv(1) [OF s2] and s4 = rest_adv(1) [OF rest_adv(1) [OF s2]]
  have "escape_sequence (CHR ''x'') v (adv s) =
    (v @ [char_of (hex_string_value [a, b])], adv (adv (adv (adv s))))"
    using assms(2,3) peek_rest [OF s2] peek_rest [OF s3] s3 peekNext_rest [OF s1]
    by (simp add: escape_sequence_def simple_escape_def hex_escape_def Let_def isAtEnd_rest s1)
  then have "string_loop DQUOTE sl sc False v s = string_loop DQUOTE sl sc False
      (v @ [char_of (hex_string_value [a, b])]) (adv (adv (adv (adv (adv s)))))"
    using peek_rest [OF s0] peek_rest [OF s1]
    by (simp add: string_loop_backslash string_loop_escaped isAtEnd_rest s0 s1)
  moreover have "peek (adv (adv (adv (adv (adv s))))) = NL"
    using rest_adv(1) [OF s4] by (rule peek_rest)
  ultimately show ?thesis
    by (simp add: string_loop_stop adv_errorCount) (simp add: emit_def reportLexError_def Let_def adv_errorCount)
qed

lemma hex_escape_skips_quote_witness:
  "errorCount (string_loop DQUOTE 1 1 False []
     (Lexer [BACKSLASH, CHR ''x'', CHR ''4'', CHR ''1'', DQUOTE, NL] ''f'' 4)) = 1"
  using hex_escape_skips_quote
    [of "Lexer [BACKSLASH, CHR ''x'', CHR ''4'', CHR ''1'', DQUOTE, NL] ''f'' 4" "CHR ''4''" "CHR ''1''" "[]"]
  by (simp add: rest_def Lexer_def char_class_defs)

end
