(* ===== verification/Tocin_Lexer_Roundtrip.thy ===== *)
theory Tocin_Lexer_Roundtrip
  imports Tocin_Lexer_Spec
begin

text \<open>
  Printing and scanning back: a list of words (identifiers and keywords, decimal integers,
  operators, string literals) printed with a space after each is tokenized to exactly
  those words and the end of file.
\<close>

section \<open>Words\<close>

datatype lexword = Ident string | Number string | Operator string | Str string

primrec word_ok :: "lexword \<Rightarrow> bool" where
  "word_ok (Ident w) \<longleftrightarrow> w \<noteq> [] \<and> (isalpha (hd w) \<or> hd w = CHR ''_'') \<and> list_all is_ident_char w"
| "word_ok (Number w) \<longleftrightarrow> w \<noteq> [] \<and> list_all isdigit w \<and> (hd w \<noteq> CHR ''0'' \<or> w = ''0'')"
| "word_ok (Operator w) \<longleftrightarrow> map_of operator_table w \<noteq> None"
| "word_ok (Str w) \<longleftrightarrow> True"

primrec word_text :: "lexword \<Rightarrow> string" where
  "word_text (Ident w) = w"
| "word_text (Number w) = w"
| "word_text (Operator w) = w"
| "word_text (Str w) = [DQUOTE] @ escapedValue w @ [DQUOTE]"

primrec word_token :: "lexword \<Rightarrow> TokenType \<times> string" where
  "word_token (Ident w) = (keyword_type w, w)"
| "word_token (Number w) = (Lit INT_LIT, w)"
| "word_token (Operator w) = (the (map_of operator_table w), w)"
| "word_token (Str w) = (Lit STRING, w)"

definition print_words :: "lexword list \<Rightarrow> string" where
  "print_words ws = concat (map (\<lambda>w. word_text w @ '' '') ws)"

text \<open>The tokens of words printed on the line \<open>l\<close> of the file \<open>f\<close> from the column \<open>c\<close> on.\<close>

primrec printed_tokens :: "string \<Rightarrow> int \<Rightarrow> int \<Rightarrow> lexword list \<Rightarrow> token list" where
  "printed_tokens f l c [] = []"
| "printed_tokens f l c (w # ws) =
     Token (fst (word_token w)) (snd (word_token w)) f l c
       # printed_tokens f l (c + int (length (word_text w)) + 1) ws"

definition accept_word :: "lexword \<Rightarrow> lexer \<Rightarrow> lexer" where
  "accept_word w s = accept (fst (word_token w)) (snd (word_token w)) (length (word_text w))
     (change_brace (brace_delta (fst (word_token w))) s)"

section \<open>One word\<close>

lemma table_operator:
  assumes "map_of operator_table w = Some ty"
  shows "longest_operator (w @ CHR '' '' # r) = Some (w, ty)"
    and "w \<noteq> [] \<and> \<not> prefix ''//'' w \<and> \<not> prefix ''/*'' w"
proof -
  have prefix_space: "prefix v (w @ CHR '' '' # r) \<longleftrightarrow> prefix v w" if "CHR '' '' \<notin> set v" for v
    using that
  proof (induction v arbitrary: w)
    case (Cons a v)
    then show ?case by (cases w) auto
  qed simp
  have "list_all (\<lambda>(v, ty). CHR '' '' \<notin> set v) operator_table" by code_simp
  then have "longest_operator (w @ CHR '' '' # r) = longest_operator w"
    unfolding longest_operator_def list_all_iff
    by (intro find_cong) (auto simp: prefix_space)
  moreover have "list_all (\<lambda>(v, ty). longest_operator v = Some (v, ty)
      \<and> v \<noteq> [] \<and> \<not> prefix ''//'' v \<and> \<not> prefix ''/*'' v) operator_table"
    by code_simp
  moreover have "(w, ty) \<in> set operator_table" using assms by (rule map_of_SomeD)
  ultimately show "longest_operator (w @ CHR '' '' # r) = Some (w, ty)"
    and "w \<noteq> [] \<and> \<not> prefix ''//'' w \<and> \<not> prefix ''/*'' w"
    by (auto simp: list_all_iff)
qed

lemma brace_delta_plain: "plain ty \<Longrightarrow> brace_delta ty = 0"
  by (simp add: brace_delta_def plain_def)

lemma one_token_word:
  assumes "word_ok w" and r: "rest s = word_text w @ CHR '' '' # r"
  shows "one_token s = accept_word w s"
proof (cases w)
  case (Ident v)
  with assms obtain c v' where v: "v = c # v'" "isalpha c \<or> c = CHR ''_''" "list_all is_ident_char v'"
    by (cases v) auto
  have "takeWhile is_ident_char (v' @ CHR '' '' # r) = v'"
    using v(3) by (simp add: list_all_iff takeWhile_append2 is_ident_char_def char_class_defs)
  with identifier_maximal_munch [of s c "v' @ CHR '' '' # r"] v r Ident show ?thesis
    by (simp add: accept_word_def Let_def brace_delta_plain plain_keyword_type)
next
  case (Number v)
  with decimal_integer [of s v "CHR '' '' # r"] assms show ?thesis
    by (simp add: accept_word_def brace_delta_def ends_number_def char_class_defs)
next
  case (Operator v)
  then obtain ty where ty: "map_of operator_table v = Some ty" using assms by auto
  from table_operator(2) [OF ty] obtain c v' where v: "v = c # v'" by (cases v) auto
  obtain d t where t: "v' @ CHR '' '' # r = d # t" by (cases v') auto
  then have "\<not> (c = CHR ''/'' \<and> d \<in> {CHR ''/'', CHR ''*''})"
    using table_operator(2) [OF ty] v by (cases v') auto
  with one_token_operator [of s c d t v ty] table_operator(1) [OF ty, of r] t v r Operator ty
  show ?thesis by (simp add: accept_word_def accept_operator_def)
next
  case (Str v)
  with one_token_string [of s v "CHR '' '' # r"] r show ?thesis
    by (simp add: accept_word_def brace_delta_def)
qed

lemma word_char_not_special:
  "isalnum c \<or> c = CHR ''_'' \<Longrightarrow> c \<notin> {CHR '' '', TAB, CR, NL, HASH, CHR ''/''}"
  by (auto simp: char_class_defs)

lemma word_text_start:
  assumes "word_ok w"
  obtains c t where "word_text w = c # t" and "c \<notin> {CHR '' '', TAB, CR, NL, HASH}"
    and "\<not> prefix ''//'' (word_text w) \<and> \<not> prefix ''/*'' (word_text w)"
proof (cases w)
  case (Operator v)
  then obtain ty where ty: "map_of operator_table v = Some ty" using assms by auto
  from table_operator(2) [OF ty] obtain c t where v: "v = c # t" by (cases v) auto
  have "longest_operator (c # t @ '' '') = Some (v, ty)"
    using table_operator(1) [OF ty, of "[]"] v by simp
  from operator_starts_not_word [OF this] table_operator(2) [OF ty] v Operator that
  show ?thesis by simp
next
  case (Ident v)
  with assms that word_char_not_special [of "hd v"] show ?thesis
    by (cases v) auto
next
  case (Number v)
  with assms that word_char_not_special [of "hd v"] show ?thesis
    by (cases v) auto
next
  case (Str v)
  with that show ?thesis by simp
qed

lemma word_start:
  assumes "word_ok w" and r: "rest s = word_text w @ CHR '' '' # r"
  shows "peek s \<notin> {CHR '' '', TAB, CR, NL, HASH} \<and> rest s \<noteq> []
    \<and> (peek s = CHR ''/'' \<longrightarrow> peekNext s \<notin> {CHR ''/'', CHR ''*''})"
proof -
  obtain c t where w: "word_text w = c # t" "c \<notin> {CHR '' '', TAB, CR, NL, HASH}"
    "\<not> prefix ''//'' (word_text w) \<and> \<not> prefix ''/*'' (word_text w)"
    using word_text_start [OF assms(1)] .
  then show ?thesis
    using r peek_rest [of s c] peekNext_rest [of s c] by (cases t) auto
qed

section \<open>The blanks around a word\<close>

lemma state_simps [simp]:
  "rest (s\<lparr>start := n\<rparr>) = rest s" "rest (s\<lparr>atLineStart := b\<rparr>) = rest s"
  "rest (emit ty v l c s) = rest s" "peek (s\<lparr>atLineStart := b\<rparr>) = peek s"
  by (simp_all add: rest_def emit_def peek_def isAtEnd_def)

lemma accept_word_sel:
  "rest (accept_word w s) = drop (length (word_text w)) (rest s)"
  "atLineStart (accept_word w s) = atLineStart s" "errorCount (accept_word w s) = errorCount s"
  "maxErrors (accept_word w s) = maxErrors s" "indentLevel (accept_word w s) = indentLevel s"
  "tokens (accept_word w s) = tokens s @ printed_tokens (filename s) (line_no s) (col_no s) [w]"
  "filename (accept_word w s) = filename s" "line_no (accept_word w s) = line_no s"
  "col_no (accept_word w s) = col_no s + int (length (word_text w))"
  by (simp_all add: accept_word_def accept_def rest_adv_by)
     (simp_all add: emit_def change_brace_def adv_by_def)

lemma skipWhitespace_word:
  assumes "word_ok w" and "rest s = word_text w @ CHR '' '' # r"
  shows "skipWhitespace s = s"
  using word_start [OF assms] by (subst skipWhitespace.simps) (auto simp: Let_def)

lemma skipWhitespace_space: "rest s = CHR '' '' # r \<Longrightarrow> skipWhitespace s = skipWhitespace (adv s)"
  by (subst skipWhitespace.simps) (simp add: peek_rest)

lemma skipWhitespace_end: "rest s = [] \<Longrightarrow> skipWhitespace s = s"
  by (subst skipWhitespace.simps) (simp add: peek_rest_Nil Let_def)

lemma indentation_phase_word:
  assumes "word_ok w" and "rest s = word_text w @ CHR '' '' # r"
    and "indentLevel s = 0" and "atLineStart s" and "braceDepth s = 0" and "0 < indentSize s"
  shows "indentation_phase s = s\<lparr>atLineStart := False\<rparr>"
proof -
  note w = word_start [OF assms(1,2)]
  have "indent_loop 0 False False s = (0, False, False, s)"
    using w by (subst indent_loop.simps) simp
  moreover have "divide_indent 0 s = s"
    using assms(3,6) by (simp add: divide_indent_def set_indent_def Let_def)
  ultimately have "handleIndentation s = s"
    using w by (auto simp: handleIndentation_def isAtEnd_rest)
  moreover have "skip_blanks (s\<lparr>atLineStart := False\<rparr>) = s\<lparr>atLineStart := False\<rparr>"
    using w by (subst skip_blanks.simps) simp
  ultimately show ?thesis
    using w assms(4,5)
    by (subst indentation_phase.simps) (simp add: line_start_def Let_def)
qed

lemma scanToken_blank:
  assumes "rest s = CHR '' '' # r" and "\<not> atLineStart s" and "skipWhitespace (adv s) = adv s"
  shows "scanToken s =
    (let u = (adv s)\<lparr>start := current (adv s)\<rparr> in if r = [] then u else one_token u)"
proof -
  have "before_token s = (adv s)\<lparr>start := current (adv s)\<rparr>"
    using assms by (simp add: before_token_def skipWhitespace_space Let_def)
  with rest_adv(1) [OF assms(1)] show ?thesis
    by (simp add: scanToken_parts isAtEnd_rest Let_def)
qed

lemma moved_sel:
  "rest s = c # r \<Longrightarrow> rest ((adv s)\<lparr>start := n\<rparr>) = r"
  "tokens ((adv s)\<lparr>start := n\<rparr>) = tokens s" "atLineStart ((adv s)\<lparr>start := n\<rparr>) = atLineStart s"
  "errorCount ((adv s)\<lparr>start := n\<rparr>) = errorCount s" "maxErrors ((adv s)\<lparr>start := n\<rparr>) = maxErrors s"
  "indentLevel ((adv s)\<lparr>start := n\<rparr>) = indentLevel s"
  "filename ((adv s)\<lparr>start := n\<rparr>) = filename s" "line_no ((adv s)\<lparr>start := n\<rparr>) = line_no s"
  "rest s = c # r \<Longrightarrow> col_no ((adv s)\<lparr>start := n\<rparr>) = col_no s + 1"
  by (simp_all add: rest_adv) (auto simp: adv_def isAtEnd_rest)

lemma scan_loop_words:
  "list_all word_ok ws \<Longrightarrow> rest s = CHR '' '' # print_words ws \<Longrightarrow> \<not> atLineStart s \<Longrightarrow>
   errorCount s < maxErrors s \<Longrightarrow>
   tokens (scan_loop s) = tokens s @ printed_tokens (filename s) (line_no s) (col_no s + 1) ws
   \<and> indentLevel (scan_loop s) = indentLevel s \<and> line_no (scan_loop s) = line_no s
   \<and> col_no (scan_loop s) = col_no s + 1 + int (length (print_words ws))"
proof (induction ws arbitrary: s)
  case Nil
  define t u where "t = s\<lparr>start := current s\<rparr>" and "u = (adv t)\<lparr>start := current (adv t)\<rparr>"
  have rt: "rest t = CHR '' '' # []" using Nil.prems(2) by (simp add: t_def print_words_def)
  then have "scanToken t = u"
    using scanToken_blank [OF rt] skipWhitespace_end [OF rest_adv(1) [OF rt]] Nil.prems(3)
    by (simp add: u_def t_def)
  moreover have "scan_loop u = u"
    using moved_sel(1) [OF rt] by (subst scan_loop.simps) (simp add: u_def isAtEnd_rest)
  ultimately have "scan_loop s = u"
    using Nil.prems by (subst scan_loop.simps) (simp add: t_def isAtEnd_rest)
  then show ?case
    by (simp add: u_def moved_sel(2-8) moved_sel(9) [OF rt] print_words_def) (simp add: t_def)
next
  case (Cons w ws)
  define t u where "t = s\<lparr>start := current s\<rparr>" and "u = (adv t)\<lparr>start := current (adv t)\<rparr>"
  have rt: "rest t = CHR '' '' # word_text w @ CHR '' '' # print_words ws"
    using Cons.prems(2) by (simp add: t_def print_words_def)
  have w: "word_ok w" "list_all word_ok ws" using Cons.prems(1) by simp_all
  have ru: "rest u = word_text w @ CHR '' '' # print_words ws"
    unfolding u_def by (rule moved_sel(1) [OF rt])
  have "scanToken t = accept_word w u"
    using scanToken_blank [OF rt] skipWhitespace_word [OF w(1) rest_adv(1) [OF rt]]
      one_token_word [OF w(1) ru] Cons.prems(3)
    by (simp add: u_def t_def)
  then have "scan_loop s = scan_loop (accept_word w u)"
    using Cons.prems by (subst scan_loop.simps) (simp add: t_def isAtEnd_rest)
  moreover have "rest (accept_word w u) = CHR '' '' # print_words ws"
    by (simp add: accept_word_sel ru)
  ultimately show ?case
    using Cons.IH [OF w(2), of "accept_word w u"] Cons.prems(3,4)
    by (simp add: accept_word_sel u_def moved_sel(2-8) moved_sel(9) [OF rt])
       (simp add: t_def print_words_def)
qed

text \<open>C5: Every list of words, printed with a space after each, is tokenized to exactly these words,
  each with its keyword or operator type, its text, the line 1 and the column where its first
  character was printed, and the end of file in the column after the last character.\<close>

theorem tokenize_words:
  assumes "list_all word_ok ws" and "0 < n"
  shows "tokens (tokenize (Lexer (print_words ws) f n))
    = printed_tokens f 1 1 ws
      @ [Token (Special EOF_TOKEN) [] f 1 (1 + int (length (print_words ws)))]"
proof -
  define s where "s = reset_state (Lexer (print_words ws) f n)"
  have s: "rest s = print_words ws" "tokens s = []" "indentLevel s = 0" "atLineStart s"
      "braceDepth s = 0" "errorCount s < maxErrors s" "line_no s = 1" "col_no s = 1" "filename s = f"
      "0 < indentSize s"
    using assms(2) by (simp_all add: s_def reset_state_def Lexer_def rest_def)
  have "tokens (scan_loop s) = printed_tokens f 1 1 ws \<and> indentLevel (scan_loop s) = 0
    \<and> line_no (scan_loop s) = 1 \<and> col_no (scan_loop s) = 1 + int (length (print_words ws))"
  proof (cases ws)
    case Nil
    then have "isAtEnd s" using s(1) by (simp add: isAtEnd_rest print_words_def)
    with Nil s show ?thesis by (subst (1 2 3 4) scan_loop.simps) (simp add: print_words_def)
  next
    case (Cons w ws')
    define t u where "t = s\<lparr>start := current s\<rparr>"
      and "u = t\<lparr>atLineStart := False, start := current t\<rparr>"
    have w: "word_ok w" "list_all word_ok ws'" using assms(1) Cons by simp_all
    have rt: "rest t = word_text w @ CHR '' '' # print_words ws'"
      using s(1) Cons by (simp add: t_def print_words_def)
    have "before_token t = u"
      using indentation_phase_word [OF w(1) rt] s by (simp add: before_token_def t_def u_def)
    moreover have ru: "rest u = word_text w @ CHR '' '' # print_words ws'"
      using rt by (simp add: u_def rest_def)
    ultimately have "scanToken t = accept_word w u"
      using one_token_word [OF w(1) ru] by (simp add: scanToken_parts isAtEnd_rest)
    then have "scan_loop s = scan_loop (accept_word w u)"
      using s rt by (subst scan_loop.simps) (simp add: t_def isAtEnd_rest)
    moreover have "rest (accept_word w u) = CHR '' '' # print_words ws'"
      by (simp add: accept_word_sel ru)
    ultimately show ?thesis
      using scan_loop_words [OF w(2), of "accept_word w u"] s Cons
      by (simp add: accept_word_sel u_def t_def print_words_def)
  qed
  moreover have "line_no (tokenize (Lexer (print_words ws) f n)) = line_no (scan_loop s)"
    "col_no (tokenize (Lexer (print_words ws) f n)) = col_no (scan_loop s)"
    by (simp_all add: s_def tokenize_def close_levels_def emit_def Let_def)
  ultimately show ?thesis
    by (simp add: tokenize_sel(1) s_def Lexer_def)
qed

lemma tokenize_words_witness:
  "tokens (tokenize (Lexer
     (print_words [Ident ''let'', Ident ''x'', Operator ''='', Number ''42'', Operator '';'']) ''f'' 4))
   = [Token (Kw LET) ''let'' ''f'' 1 1, Token (Lit IDENTIFIER) ''x'' ''f'' 1 5,
      Token (Op EQUAL) ''='' ''f'' 1 7, Token (Lit INT_LIT) ''42'' ''f'' 1 9,
      Token (Single SEMI_COLON) '';'' ''f'' 1 12, Token (Special EOF_TOKEN) [] ''f'' 1 14]"
proof -
  have "list_all word_ok [Ident ''let'', Ident ''x'', Operator ''='', Number ''42'', Operator '';'']"
    by code_simp
  moreover have "printed_tokens ''f'' 1 1
       [Ident ''let'', Ident ''x'', Operator ''='', Number ''42'', Operator '';'']
     = [Token (Kw LET) ''let'' ''f'' 1 1, Token (Lit IDENTIFIER) ''x'' ''f'' 1 5,
        Token (Op EQUAL) ''='' ''f'' 1 7, Token (Lit INT_LIT) ''42'' ''f'' 1 9,
        Token (Single SEMI_COLON) '';'' ''f'' 1 12]"
    by code_simp
  moreover have "length (print_words
      [Ident ''let'', Ident ''x'', Operator ''='', Number ''42'', Operator '';'']) = 13"
    by code_simp
  ultimately show ?thesis using tokenize_words [of _ 4 "''f''"] by simp
qed

end
