(* ===== verification/Tocin_Types.thy ===== *)
theory Tocin_Types
  imports Tocin_Token
begin

text \<open>
  The types of the source language: the classes of \<open>src/ast/types.h\<close> and the three type classes
  of \<open>src/ast/ast.h\<close>, with \<open>toString\<close> and \<open>clone\<close>. A type pointer of a member is never null in the
  model; the places where the source keeps a null type are options of the users.
\<close>

section \<open>Types\<close>

datatype (plugins only: code size) TypeKind =
    VOID_KIND | BOOL_KIND | INT_KIND | FLOAT_KIND | CHAR_KIND | STRING_KIND | ARRAY_KIND
  | MAP_KIND | FUNCTION_KIND | CLASS_KIND | INTERFACE_KIND | POINTER_KIND | REFERENCE_KIND
  | UNKNOWN_KIND

text \<open>One constructor per class derived from \<open>Type\<close>, with its members in order.\<close>

datatype (plugins only: code size) type =
    BasicType token TypeKind
  | NullableType token type
  | GenericType token string "type list"
  | FunctionType token "type list" type bool
  | TupleType token "type list"
  | ArrayType token type int
  | PointerType token type
  | ReferenceType token type bool
  | OptionType token type
  | ResultType token type type
  | TraitType token string "type list"
  | ChannelType token type bool bool
  | SimpleType token
  | UnionType token "type list"
  | ClassType token string

primrec type_token :: "type \<Rightarrow> token" where
  "type_token (BasicType t k) = t"
| "type_token (NullableType t b) = t"
| "type_token (GenericType t n as) = t"
| "type_token (FunctionType t ps r a) = t"
| "type_token (TupleType t es) = t"
| "type_token (ArrayType t e n) = t"
| "type_token (PointerType t p) = t"
| "type_token (ReferenceType t r m) = t"
| "type_token (OptionType t i) = t"
| "type_token (ResultType t ok e) = t"
| "type_token (TraitType t n as) = t"
| "type_token (ChannelType t e s r) = t"
| "type_token (SimpleType t) = t"
| "type_token (UnionType t ts) = t"
| "type_token (ClassType t n) = t"

section \<open>toString\<close>

text \<open>The loops \<open>if (i > 0) result += sep; result += types[i]->toString();\<close>\<close>

primrec join_with :: "string \<Rightarrow> string list \<Rightarrow> string" where
  "join_with sep [] = []"
| "join_with sep (x # xs) = x @ concat (map (\<lambda>y. sep @ y) xs)"

primrec basic_string :: "TypeKind \<Rightarrow> string" where
  "basic_string VOID_KIND = ''void''"
| "basic_string BOOL_KIND = ''bool''"
| "basic_string INT_KIND = ''int''"
| "basic_string FLOAT_KIND = ''float''"
| "basic_string CHAR_KIND = ''char''"
| "basic_string STRING_KIND = ''string''"
| "basic_string ARRAY_KIND = ''array''"
| "basic_string MAP_KIND = ''map''"
| "basic_string FUNCTION_KIND = ''function''"
| "basic_string CLASS_KIND = ''class''"
| "basic_string INTERFACE_KIND = ''interface''"
| "basic_string POINTER_KIND = ''pointer''"
| "basic_string REFERENCE_KIND = ''reference''"
| "basic_string UNKNOWN_KIND = ''unknown''"

definition nullable_string :: "string \<Rightarrow> string" where
  "nullable_string b = b @ ''?''"

definition generic_string :: "string \<Rightarrow> string list \<Rightarrow> string" where
  "generic_string n as = n @ ''<'' @ join_with '', '' as @ ''>''"

definition function_string :: "string list \<Rightarrow> string \<Rightarrow> bool \<Rightarrow> string" where
  "function_string ps r isAsync =
     ''('' @ join_with '', '' ps @ '') -> '' @ (if isAsync then ''async '' else []) @ r"

definition tuple_string :: "string list \<Rightarrow> string" where
  "tuple_string es = ''('' @ join_with '', '' es @ '')''"

definition array_string :: "string \<Rightarrow> int \<Rightarrow> string" where
  "array_string e n = (if n \<ge> 0 then e @ ''['' @ show_int n @ '']'' else e @ ''[]'')"

definition pointer_string :: "string \<Rightarrow> string" where
  "pointer_string p = ''*'' @ p"

definition reference_string :: "string \<Rightarrow> bool \<Rightarrow> string" where
  "reference_string r isMutable = ''&'' @ (if isMutable then ''mut '' else []) @ r"

definition option_string :: "string \<Rightarrow> string" where
  "option_string i = ''Option<'' @ i @ ''>''"

definition result_string :: "string \<Rightarrow> string \<Rightarrow> string" where
  "result_string ok e = ''Result<'' @ ok @ '', '' @ e @ ''>''"

definition trait_string :: "string \<Rightarrow> string list \<Rightarrow> string" where
  "trait_string n as =
     (if as = [] then ''trait '' @ n else ''trait '' @ n @ ''<'' @ join_with '', '' as @ ''>'')"

definition channel_string :: "string \<Rightarrow> bool \<Rightarrow> bool \<Rightarrow> string" where
  "channel_string e isSend isReceive =
     (if isSend \<and> \<not> isReceive then ''chan<-''
      else if \<not> isSend \<and> isReceive then ''<-chan'' else ''chan'') @ '' '' @ e"

definition union_string :: "string list \<Rightarrow> string" where
  "union_string ts = join_with '' | '' ts"

primrec type_toString :: "type \<Rightarrow> string" where
  "type_toString (BasicType t k) = basic_string k"
| "type_toString (NullableType t b) = nullable_string (type_toString b)"
| "type_toString (GenericType t n as) = generic_string n (map type_toString as)"
| "type_toString (FunctionType t ps r a) = function_string (map type_toString ps) (type_toString r) a"
| "type_toString (TupleType t es) = tuple_string (map type_toString es)"
| "type_toString (ArrayType t e n) = array_string (type_toString e) n"
| "type_toString (PointerType t p) = pointer_string (type_toString p)"
| "type_toString (ReferenceType t r m) = reference_string (type_toString r) m"
| "type_toString (OptionType t i) = option_string (type_toString i)"
| "type_toString (ResultType t ok e) = result_string (type_toString ok) (type_toString e)"
| "type_toString (TraitType t n as) = trait_string n (map type_toString as)"
| "type_toString (ChannelType t e s r) = channel_string (type_toString e) s r"
| "type_toString (SimpleType t) = lexeme t"
| "type_toString (UnionType t ts) = union_string (map type_toString ts)"
| "type_toString (ClassType t n) = n"

section \<open>The union constructor and clone\<close>

text \<open>The body of the constructor of \<open>UnionType\<close> tests the parameter \<open>types\<close>, not the member of the
  same name: the initialiser has moved the vector out of the parameter, which leaves it
  empty, so the constructor throws for every argument. \<open>None\<close> is the exception.\<close>

definition new_UnionType :: "token \<Rightarrow> type list \<Rightarrow> type option" where
  "new_UnionType t types =
     (let member = types; parameter = ([] :: type list) in
      if parameter = [] then None else Some (UnionType t member))"

text \<open>\<open>clone\<close> copies the token and the members; the first exception of a part is the result.\<close>

fun option_all :: "'a option list \<Rightarrow> 'a list option" where
  "option_all [] = Some []"
| "option_all (None # xs) = None"
| "option_all (Some x # xs) = map_option (\<lambda>ys. x # ys) (option_all xs)"

definition option_bind2 :: "'a option \<Rightarrow> 'b option \<Rightarrow> ('a \<Rightarrow> 'b \<Rightarrow> 'c) \<Rightarrow> 'c option" where
  "option_bind2 a b f = Option.bind a (\<lambda>x. map_option (f x) b)"

primrec type_clone :: "type \<Rightarrow> type option" where
  "type_clone (BasicType t k) = Some (BasicType t k)"
| "type_clone (NullableType t b) = map_option (NullableType t) (type_clone b)"
| "type_clone (GenericType t n as) = map_option (GenericType t n) (option_all (map type_clone as))"
| "type_clone (FunctionType t ps r a) =
     option_bind2 (option_all (map type_clone ps)) (type_clone r) (\<lambda>ps' r'. FunctionType t ps' r' a)"
| "type_clone (TupleType t es) = map_option (TupleType t) (option_all (map type_clone es))"
| "type_clone (ArrayType t e n) = map_option (\<lambda>e'. ArrayType t e' n) (type_clone e)"
| "type_clone (PointerType t p) = map_option (PointerType t) (type_clone p)"
| "type_clone (ReferenceType t r m) = map_option (\<lambda>r'. ReferenceType t r' m) (type_clone r)"
| "type_clone (OptionType t i) = map_option (OptionType t) (type_clone i)"
| "type_clone (ResultType t ok e) = option_bind2 (type_clone ok) (type_clone e) (ResultType t)"
| "type_clone (TraitType t n as) = map_option (TraitType t n) (option_all (map type_clone as))"
| "type_clone (ChannelType t e s r) = map_option (\<lambda>e'. ChannelType t e' s r) (type_clone e)"
| "type_clone (SimpleType t) = Some (SimpleType t)"
| "type_clone (UnionType t ts) = Option.bind (option_all (map type_clone ts)) (new_UnionType t)"
| "type_clone (ClassType t n) = Some (ClassType t n)"

primrec has_union :: "type \<Rightarrow> bool" where
  "has_union (BasicType t k) = False"
| "has_union (NullableType t b) = has_union b"
| "has_union (GenericType t n as) = list_ex id (map has_union as)"
| "has_union (FunctionType t ps r a) = (list_ex id (map has_union ps) \<or> has_union r)"
| "has_union (TupleType t es) = list_ex id (map has_union es)"
| "has_union (ArrayType t e n) = has_union e"
| "has_union (PointerType t p) = has_union p"
| "has_union (ReferenceType t r m) = has_union r"
| "has_union (OptionType t i) = has_union i"
| "has_union (ResultType t ok e) = (has_union ok \<or> has_union e)"
| "has_union (TraitType t n as) = list_ex id (map has_union as)"
| "has_union (ChannelType t e s r) = has_union e"
| "has_union (SimpleType t) = False"
| "has_union (UnionType t ts) = True"
| "has_union (ClassType t n) = False"

lemma new_UnionType_throws [simp]: "new_UnionType t types = None"
  by (simp add: new_UnionType_def)

lemma option_all_map:
  "(\<And>x. x \<in> set xs \<Longrightarrow> f x = (if P x then None else Some x)) \<Longrightarrow>
   option_all (map f xs) = (if list_ex id (map P xs) then None else Some xs)"
  by (induction xs) auto

text \<open>Cloning a type without a union gives the same type back; cloning a type with a union in
  it throws, because the union constructor always throws.\<close>

theorem type_clone_copy: "type_clone t = (if has_union t then None else Some t)"
  by (induction t) (simp_all add: option_all_map option_bind2_def)

end
