(* ===== verification/Tocin_Ast.thy ===== *)
theory Tocin_Ast
  imports Tocin_Types
begin

text \<open>
  The syntax tree of \<open>src/ast/ast.h\<close>: one constructor per class, with the token of the node
  first and then the members in the order of the source. A pointer the parser may leave null is
  an option. \<open>accept\<close> and the visitor are the constructors themselves.
\<close>

section \<open>Parameters\<close>

record TypeParameter =
  tp_token :: token
  tp_name :: string
  tp_constraints :: "type list"

text \<open>The constructor of \<open>Parameter\<close> throws for a null type.\<close>

record Parameter =
  param_name :: string
  param_type :: type
  param_isMoved :: bool

definition new_Parameter :: "string \<Rightarrow> type option \<Rightarrow> string + Parameter" where
  "new_Parameter n ty =
     (case ty of
        None \<Rightarrow> Inl ''Parameter type cannot be null''
      | Some t \<Rightarrow> Inr \<lparr>param_name = n, param_type = t, param_isMoved = False\<rparr>)"

section \<open>Expressions\<close>

datatype (plugins only: code size) LiteralType =
    INTEGER | FLOAT | BOOLEAN | STRING_LITERAL | NIL_LITERAL

datatype (plugins only: code size) expr =
    BinaryExpr token expr token expr
  | GroupingExpr token expr
  | LiteralExpr token string LiteralType
  | UnaryExpr token token expr
  | VariableExpr token string
  | AssignExpr token string expr expr
  | CallExpr token expr "expr list"
  | GetExpr token expr string
  | SetExpr token expr string expr
  | ListExpr token "expr list"
  | DictionaryExpr token "(expr \<times> expr) list"
  | LambdaExpr token "Parameter list" type expr
  | AwaitExpr token expr
  | NewExpr token expr "expr option"
  | DeleteExpr token expr
  | StringInterpolationExpr token "string list" "expr list"
  | ChannelSendExpr token expr expr
  | ChannelReceiveExpr token expr
  | ArrayLiteralExpr token "expr list"

primrec expr_token :: "expr \<Rightarrow> token" where
  "expr_token (BinaryExpr t l op r) = t"
| "expr_token (GroupingExpr t e) = t"
| "expr_token (LiteralExpr t v k) = t"
| "expr_token (UnaryExpr t op e) = t"
| "expr_token (VariableExpr t n) = t"
| "expr_token (AssignExpr t n tg e) = t"
| "expr_token (CallExpr t c as) = t"
| "expr_token (GetExpr t e n) = t"
| "expr_token (SetExpr t e n v) = t"
| "expr_token (ListExpr t es) = t"
| "expr_token (DictionaryExpr t es) = t"
| "expr_token (LambdaExpr t ps r b) = t"
| "expr_token (AwaitExpr t e) = t"
| "expr_token (NewExpr t e s) = t"
| "expr_token (DeleteExpr t e) = t"
| "expr_token (StringInterpolationExpr t ps es) = t"
| "expr_token (ChannelSendExpr t c v) = t"
| "expr_token (ChannelReceiveExpr t c) = t"
| "expr_token (ArrayLiteralExpr t es) = t"

text \<open>The two constructors of \<open>AssignExpr\<close>: to a variable, and to a target expression.\<close>

definition new_AssignExpr :: "token \<Rightarrow> string \<Rightarrow> expr \<Rightarrow> expr" where
  "new_AssignExpr t n v = AssignExpr t n (VariableExpr t n) v"

definition new_AssignExpr_target :: "token \<Rightarrow> expr \<Rightarrow> expr \<Rightarrow> expr" where
  "new_AssignExpr_target t target v = AssignExpr t [] target v"

definition isVariableAssignment :: "expr \<Rightarrow> bool" where
  "isVariableAssignment e = (case e of AssignExpr t n tg v \<Rightarrow> n \<noteq> [] | _ \<Rightarrow> False)"

text \<open>The constructor of \<open>LambdaExpr\<close> tests the parameter \<open>returnType\<close> after the initialiser has moved
  it into the member of the same name. The pointer that was moved from is null, so it
  throws for every argument.\<close>

definition new_LambdaExpr ::
  "token \<Rightarrow> Parameter list \<Rightarrow> type option \<Rightarrow> expr \<Rightarrow> string + expr" where
  "new_LambdaExpr t ps returnType body =
     (let member = returnType; parameter = (None :: type option) in
      case parameter of
        None \<Rightarrow> Inl ''LambdaExpr returnType cannot be null''
      | Some _ \<Rightarrow> Inr (LambdaExpr t ps (the member) body))"

text \<open>The \<open>getType\<close> methods; \<open>None\<close> is the null pointer.\<close>

primrec getType :: "expr \<Rightarrow> type option" where
  "getType (BinaryExpr t l op r) = None"
| "getType (GroupingExpr t e) = getType e"
| "getType (LiteralExpr t v k) = None"
| "getType (UnaryExpr t op e) = getType e"
| "getType (VariableExpr t n) = None"
| "getType (AssignExpr t n tg v) = getType v"
| "getType (CallExpr t c as) = getType c"
| "getType (GetExpr t ob n) = getType ob"
| "getType (SetExpr t ob n v) = getType v"
| "getType (ListExpr t es) = None"
| "getType (DictionaryExpr t es) = None"
| "getType (LambdaExpr t ps r b) = Some r"
| "getType (AwaitExpr t e) = getType e"
| "getType (NewExpr t e s) = None"
| "getType (DeleteExpr t e) = None"
| "getType (StringInterpolationExpr t ps es) = Some (SimpleType (Token (Lit STRING) ''string'' [] 0 0))"
| "getType (ChannelSendExpr t c v) = None"
| "getType (ChannelReceiveExpr t c) = None"
| "getType (ArrayLiteralExpr t es) = None"

section \<open>Statements\<close>

text \<open>The statements of a block may be null: \<open>blockStmt\<close> stores what \<open>declaration\<close> returns after an
  error.\<close>

datatype (plugins only: code size) stmt =
    ExpressionStmt token expr
  | VariableStmt token string "type option" "expr option" bool
  | BlockStmt token "stmt option list"
  | IfStmt token expr stmt "(expr \<times> stmt) list" "stmt option"
  | WhileStmt token expr stmt
  | ForStmt token string "type option" expr stmt
  | FunctionStmt token string "TypeParameter list" "Parameter list" type stmt bool
  | ReturnStmt token "expr option"
  | ClassStmt token string "TypeParameter list" "type option" "type list" "stmt list" "stmt list"
  | ImportStmt token string bool "(string \<times> string) list" string
  | ExportStmt token "string list" bool "stmt option"
  | ModuleStmt token string "stmt list"
  | MatchStmt token expr "(expr \<times> stmt) list" "stmt option"
  | SelectStmt token "(expr option \<times> stmt \<times> bool) list"
  | GoStmt token expr
  | TraitStmt token string "stmt list" "type list" "string list"
  | ImplStmt token string type "stmt list"

definition new_FunctionStmt ::
  "token \<Rightarrow> string \<Rightarrow> Parameter list \<Rightarrow> type \<Rightarrow> stmt \<Rightarrow> bool \<Rightarrow> stmt" where
  "new_FunctionStmt t n ps r b isAsync = FunctionStmt t n [] ps r b isAsync"

definition new_ClassStmt :: "token \<Rightarrow> string \<Rightarrow> stmt list \<Rightarrow> stmt list \<Rightarrow> stmt" where
  "new_ClassStmt t n fs ms = ClassStmt t n [] None [] fs ms"

definition new_ImportStmt :: "token \<Rightarrow> string \<Rightarrow> stmt" where
  "new_ImportStmt t m = ImportStmt t m True [] []"

lemma new_LambdaExpr_throws [simp]:
  "new_LambdaExpr t ps r b = Inl ''LambdaExpr returnType cannot be null''"
  by (simp add: new_LambdaExpr_def)

end
