(* ===== verification/Tocin_Parser_Core.thy ===== *)
theory Tocin_Parser_Core
  imports Tocin_Ast Tocin_Errors
begin

text \<open>
  The state of the parser (\<open>class Parser\<close> in \<open>src/parser/parser.h\<close>), the token operations of
  \<open>src/parser/parser.cpp\<close> as a state monad with exceptions, and the logic the productions are
  verified in. \<open>Throw\<close> is a C++ exception with the state it leaves, \<open>Out_Of_Range\<close> an access outside
  the token vector, \<open>No_Fuel\<close> the model's own cut-off of the recursion. The judgement \<open>spec\<close> says that
  a computation ends in neither of the last two, moves the cursor only forward by at least
  a number of tokens, and stays in a relation that the locale \<open>parser_relation\<close> leaves open.
\<close>

section \<open>State and monad\<close>

record ErrorContext =
  ctx_message :: string
  ctx_token :: token
  ctx_expectedTokens :: "TokenType list"
  ctx_isFatal :: bool

record parser =
  ptokens :: "token list"
  pcurrent :: nat
  phandler :: ErrorHandler
  perrors :: "ErrorContext list"

definition new_Parser :: "token list \<Rightarrow> parser" where
  "new_Parser ts = \<lparr>ptokens = ts, pcurrent = 0, phandler = new_ErrorHandler, perrors = []\<rparr>"

definition hasFatalContexts :: "parser \<Rightarrow> bool" where
  "hasFatalContexts s = list_ex ctx_isFatal (perrors s)"

datatype 'a outcome = Ret 'a parser | Throw string parser | Out_Of_Range | No_Fuel

type_synonym 'a parse = "parser \<Rightarrow> 'a outcome"

definition ret :: "'a \<Rightarrow> 'a parse" where
  "ret x s = Ret x s"

definition throw :: "string \<Rightarrow> 'a parse" where
  "throw e s = Throw e s"

definition no_fuel :: "'a parse" where
  "no_fuel s = No_Fuel"

definition pbind :: "'a parse \<Rightarrow> ('a \<Rightarrow> 'b parse) \<Rightarrow> 'b parse" where
  "pbind m f s =
     (case m s of Ret x t \<Rightarrow> f x t | Throw e t \<Rightarrow> Throw e t | Out_Of_Range \<Rightarrow> Out_Of_Range
      | No_Fuel \<Rightarrow> No_Fuel)"

text \<open>\<open>try { m } catch (const std::exception &e) { h(e.what()) }\<close>\<close>

definition try_catch :: "'a parse \<Rightarrow> (string \<Rightarrow> 'a parse) \<Rightarrow> 'a parse" where
  "try_catch m h s = (case m s of Throw e t \<Rightarrow> h e t | r \<Rightarrow> r)"

section \<open>Token operations\<close>

definition ppeek :: "token parse" where
  "ppeek s = (if pcurrent s < length (ptokens s) then Ret (ptokens s ! pcurrent s) s else Out_Of_Range)"

definition pprevious :: "token parse" where
  "pprevious s =
     (if 0 < pcurrent s \<and> pcurrent s \<le> length (ptokens s)
      then Ret (ptokens s ! (pcurrent s - 1)) s else Out_Of_Range)"

definition pisAtEnd :: "bool parse" where
  "pisAtEnd = pbind ppeek (\<lambda>t. ret (ttype t = Special EOF_TOKEN))"

definition pcheck :: "TokenType \<Rightarrow> bool parse" where
  "pcheck ty = pbind pisAtEnd (\<lambda>e. if e then ret False else pbind ppeek (\<lambda>t. ret (ttype t = ty)))"

definition pnext :: "unit parse" where
  "pnext s = Ret () (s\<lparr>pcurrent := pcurrent s + 1\<rparr>)"

definition padvance :: "token parse" where
  "padvance = pbind pisAtEnd (\<lambda>e. pbind (if e then ret () else pnext) (\<lambda>_. pprevious))"

definition pmatch :: "TokenType \<Rightarrow> bool parse" where
  "pmatch ty = pbind (pcheck ty) (\<lambda>b. if b then pbind padvance (\<lambda>_. ret True) else ret False)"

definition preport :: "ErrorCode \<Rightarrow> string \<Rightarrow> token \<Rightarrow> ErrorSeverity \<Rightarrow> unit parse" where
  "preport ec msg t sev s =
     Ret () (s\<lparr>phandler := record_error ec msg (tfilename t) (line t) (column t) sev (phandler s)\<rparr>)"

definition recordError :: "string \<Rightarrow> token \<Rightarrow> TokenType list \<Rightarrow> bool \<Rightarrow> unit parse" where
  "recordError msg t expected fatal s =
     Ret () (s\<lparr>perrors := perrors s @ [\<lparr>ctx_message = msg, ctx_token = t,
              ctx_expectedTokens = expected, ctx_isFatal = fatal\<rparr>]\<rparr>)"

definition perror :: "token \<Rightarrow> string \<Rightarrow> unit parse" where
  "perror t msg =
     pbind (preport (Syntax S001_UNEXPECTED_TOKEN) msg t ERROR_SEVERITY)
       (\<lambda>_. recordError msg t [] False)"

definition consume :: "TokenType \<Rightarrow> string \<Rightarrow> token parse" where
  "consume ty msg =
     pbind (pcheck ty) (\<lambda>b. if b then padvance
       else pbind ppeek (\<lambda>t. pbind (perror t msg) (\<lambda>_. ppeek)))"

text \<open>\<open>match(a) || match(b) || \<dots>\<close>\<close>

primrec match_any :: "TokenType list \<Rightarrow> bool parse" where
  "match_any [] = ret False"
| "match_any (ty # tys) = pbind (pmatch ty) (\<lambda>b. if b then ret True else match_any tys)"

section \<open>Token vectors and progress\<close>

text \<open>The vector ends with an end-of-file token and the cursor is inside it.\<close>

definition ends_with_eof :: "token list \<Rightarrow> bool" where
  "ends_with_eof ts \<longleftrightarrow> ts \<noteq> [] \<and> ttype (last ts) = Special EOF_TOKEN"

definition wf_parser :: "parser \<Rightarrow> bool" where
  "wf_parser s \<longleftrightarrow> ends_with_eof (ptokens s) \<and> pcurrent s < length (ptokens s)"

definition at_end :: "parser \<Rightarrow> bool" where
  "at_end s \<longleftrightarrow> ttype (ptokens s ! pcurrent s) = Special EOF_TOKEN"

definition tokens_left :: "parser \<Rightarrow> nat" where
  "tokens_left s = length (ptokens s) - 1 - pcurrent s"

lemma not_at_end_left: "wf_parser s \<Longrightarrow> \<not> at_end s \<Longrightarrow> 0 < tokens_left s"
  by (cases "pcurrent s = length (ptokens s) - 1")
     (auto simp: wf_parser_def ends_with_eof_def at_end_def tokens_left_def last_conv_nth)

lemma wf_parser_next: "wf_parser s \<Longrightarrow> \<not> at_end s \<Longrightarrow> wf_parser (s\<lparr>pcurrent := Suc (pcurrent s)\<rparr>)"
  using not_at_end_left [of s] by (auto simp: wf_parser_def tokens_left_def)

lemma ppeek_wf [simp]: "wf_parser s \<Longrightarrow> ppeek s = Ret (ptokens s ! pcurrent s) s"
  by (simp add: ppeek_def wf_parser_def)

lemma pisAtEnd_wf [simp]: "wf_parser s \<Longrightarrow> pisAtEnd s = Ret (at_end s) s"
  by (simp add: pisAtEnd_def pbind_def ret_def at_end_def)

lemma pcheck_wf [simp]:
  "wf_parser s \<Longrightarrow> pcheck ty s = Ret (\<not> at_end s \<and> ttype (ptokens s ! pcurrent s) = ty) s"
  by (simp add: pcheck_def pbind_def ret_def)

lemma padvance_not_end [simp]:
  "wf_parser s \<Longrightarrow> \<not> at_end s \<Longrightarrow>
   padvance s = Ret (ptokens s ! pcurrent s) (s\<lparr>pcurrent := Suc (pcurrent s)\<rparr>)"
  using wf_parser_next [of s]
  by (simp add: padvance_def pbind_def pnext_def pprevious_def wf_parser_def)

lemma padvance_end [simp]:
  "wf_parser s \<Longrightarrow> at_end s \<Longrightarrow> 0 < pcurrent s \<Longrightarrow> padvance s = Ret (ptokens s ! (pcurrent s - 1)) s"
  by (simp add: padvance_def pbind_def ret_def pprevious_def wf_parser_def)

lemma pmatch_wf [simp]:
  "wf_parser s \<Longrightarrow> pmatch ty s =
     (if \<not> at_end s \<and> ttype (ptokens s ! pcurrent s) = ty
      then Ret True (s\<lparr>pcurrent := Suc (pcurrent s)\<rparr>) else Ret False s)"
  by (simp add: pmatch_def pbind_def ret_def)

section \<open>The judgement\<close>

text \<open>\<open>advanced s t\<close>: the same tokens, the cursor not before.\<close>

definition advanced :: "parser \<Rightarrow> parser \<Rightarrow> bool" where
  "advanced s t \<longleftrightarrow> ptokens t = ptokens s \<and> pcurrent s \<le> pcurrent t \<and> pcurrent t < length (ptokens s)"

lemma advanced_refl: "wf_parser s \<Longrightarrow> advanced s s"
  by (simp add: advanced_def wf_parser_def)

lemma advanced_next:
  "wf_parser s \<Longrightarrow> \<not> at_end s \<Longrightarrow> advanced s (s\<lparr>pcurrent := Suc (pcurrent s)\<rparr>)"
  using wf_parser_next [of s] by (simp add: advanced_def wf_parser_def)

lemma advanced_trans: "advanced s t \<Longrightarrow> advanced t u \<Longrightarrow> advanced s u"
  by (simp add: advanced_def)

lemma advanced_wf: "advanced s t \<Longrightarrow> wf_parser s \<Longrightarrow> wf_parser t"
  by (simp add: advanced_def wf_parser_def)

locale parser_relation =
  fixes R :: "parser \<Rightarrow> parser \<Rightarrow> bool"
  assumes R_refl: "R s s"
    and R_trans: "R s t \<Longrightarrow> R t u \<Longrightarrow> R s u"
    and R_next: "R s (s\<lparr>pcurrent := n\<rparr>)"
    and R_report: "preport ec msg tok sev s = Ret () t \<Longrightarrow> ec \<noteq> Syntax S001_UNEXPECTED_TOKEN \<Longrightarrow> R s t"
    and R_error: "perror tok msg s = Ret () t \<Longrightarrow> R s t"
begin

text \<open>\<open>spec e b d c m\<close>: from a state at position \<open>b\<close> or later with at most \<open>d\<close> tokens left (and, when
  \<open>e\<close>, not at the end), \<open>m\<close> returns having consumed at least \<open>c\<close> tokens, or throws.\<close>

definition spec :: "bool \<Rightarrow> nat \<Rightarrow> nat \<Rightarrow> nat \<Rightarrow> 'a parse \<Rightarrow> bool" where
  "spec e b d c m \<longleftrightarrow>
     (\<forall>s. wf_parser s \<and> b \<le> pcurrent s \<and> tokens_left s \<le> d \<and> (e \<longrightarrow> \<not> at_end s) \<longrightarrow>
        (case m s of
           Ret x t \<Rightarrow> R s t \<and> advanced s t \<and> pcurrent s + c \<le> pcurrent t
         | Throw msg t \<Rightarrow> R s t \<and> advanced s t
         | _ \<Rightarrow> False))"

lemma specI:
  assumes "\<And>s. wf_parser s \<Longrightarrow> b \<le> pcurrent s \<Longrightarrow> tokens_left s \<le> d \<Longrightarrow> e \<longrightarrow> \<not> at_end s \<Longrightarrow>
     (case m s of
        Ret x t \<Rightarrow> R s t \<and> advanced s t \<and> pcurrent s + c \<le> pcurrent t
      | Throw msg t \<Rightarrow> R s t \<and> advanced s t
      | _ \<Rightarrow> False)"
  shows "spec e b d c m"
  using assms by (auto simp: spec_def)

lemma specD:
  assumes "spec e b d c m" "wf_parser s" "b \<le> pcurrent s" "tokens_left s \<le> d" "e \<longrightarrow> \<not> at_end s"
  shows "(\<exists>x t. m s = Ret x t \<and> R s t \<and> advanced s t \<and> pcurrent s + c \<le> pcurrent t)
    \<or> (\<exists>msg t. m s = Throw msg t \<and> R s t \<and> advanced s t)"
proof -
  have "case m s of
        Ret x t \<Rightarrow> R s t \<and> advanced s t \<and> pcurrent s + c \<le> pcurrent t
      | Throw msg t \<Rightarrow> R s t \<and> advanced s t
      | _ \<Rightarrow> False"
    using assms by (simp add: spec_def)
  then show ?thesis by (cases "m s") auto
qed

lemma spec_weaken:
  assumes "spec e b d c m" "b \<le> b'" "d' \<le> d" "c' \<le> c" "e \<Longrightarrow> e'"
  shows "spec e' b' d' c' m"
proof (rule specI)
  fix s assume "wf_parser s" "b' \<le> pcurrent s" "tokens_left s \<le> d'" "e' \<longrightarrow> \<not> at_end s"
  with specD [OF assms(1), of s] assms(2-5)
  show "case m s of
        Ret x t \<Rightarrow> R s t \<and> advanced s t \<and> pcurrent s + c' \<le> pcurrent t
      | Throw msg t \<Rightarrow> R s t \<and> advanced s t | _ \<Rightarrow> False"
    by auto
qed

lemma spec_ret: "spec e b d 0 (ret x)"
  by (rule specI) (simp add: ret_def R_refl advanced_refl)

lemma spec_throw: "spec e b d c (throw msg)"
  by (rule specI) (simp add: throw_def R_refl advanced_refl)

lemma spec_bind:
  assumes m: "spec e b d c m" and f: "\<And>x. spec False (b + c) (d - c) c' (f x)"
  shows "spec e b d (c + c') (pbind m f)"
proof (rule specI)
  fix s assume s: "wf_parser s" "b \<le> pcurrent s" "tokens_left s \<le> d" "e \<longrightarrow> \<not> at_end s"
  from specD [OF m s]
  show "case pbind m f s of
        Ret x t \<Rightarrow> R s t \<and> advanced s t \<and> pcurrent s + (c + c') \<le> pcurrent t
      | Throw msg t \<Rightarrow> R s t \<and> advanced s t | _ \<Rightarrow> False"
  proof (elim disjE exE conjE)
    fix x t assume ret: "m s = Ret x t" "R s t" "advanced s t" "pcurrent s + c \<le> pcurrent t"
    have t: "wf_parser t" "b + c \<le> pcurrent t" "tokens_left t \<le> d - c"
      using ret s advanced_wf [OF ret(3) s(1)] by (auto simp: advanced_def tokens_left_def)
    from specD [OF f [of x] t] ret show ?thesis
      by (auto simp: pbind_def intro: R_trans advanced_trans)
  qed (auto simp: pbind_def)
qed

lemma spec_peek: "spec e b d 0 ppeek" and spec_check: "spec e b d 0 (pcheck ty)"
  and spec_isAtEnd: "spec e b d 0 pisAtEnd"
  by (auto intro!: specI simp: R_refl advanced_refl)

lemma spec_previous: "spec e (Suc b) d 0 pprevious"
  by (rule specI) (auto simp: pprevious_def R_refl advanced_refl wf_parser_def advanced_def)

lemma spec_advance: "spec True b d 1 padvance" and spec_advance': "spec e (Suc b) d 0 padvance"
proof -
  show "spec True b d 1 padvance" by (rule specI) (simp add: R_next advanced_next)
  show "spec e (Suc b) d 0 padvance"
    by (rule specI, case_tac "at_end s") (simp_all add: R_next advanced_next R_refl advanced_refl)
qed

lemma spec_match:
  assumes "0 < d \<Longrightarrow> spec False (Suc b) (d - 1) c A" and "spec e b d c' B" and "c' \<le> Suc c"
  shows "spec e b d c' (pbind (pmatch ty) (\<lambda>x. if x then A else B))"
proof (rule specI)
  fix s assume s: "wf_parser s" "b \<le> pcurrent s" "tokens_left s \<le> d" "e \<longrightarrow> \<not> at_end s"
  let ?t = "s\<lparr>pcurrent := Suc (pcurrent s)\<rparr>"
  show "case pbind (pmatch ty) (\<lambda>x. if x then A else B) s of
        Ret x t \<Rightarrow> R s t \<and> advanced s t \<and> pcurrent s + c' \<le> pcurrent t
      | Throw msg t \<Rightarrow> R s t \<and> advanced s t | _ \<Rightarrow> False"
  proof (cases "\<not> at_end s \<and> ttype (ptokens s ! pcurrent s) = ty")
    case True
    have t: "wf_parser ?t" "Suc b \<le> pcurrent ?t" "tokens_left ?t \<le> d - 1" "0 < d" "advanced s ?t"
      using wf_parser_next [of s] not_at_end_left [of s] True s
      by (auto simp: tokens_left_def advanced_def wf_parser_def)
    from specD [OF assms(1) [OF t(4)] t(1-3)] True s(1) t(5) assms(3) show ?thesis
      by (auto simp: pbind_def intro: R_trans [OF R_next] advanced_trans)
  next
    case False
    have "pbind (pmatch ty) (\<lambda>x. if x then A else B) s = B s"
      using False s(1) by (auto simp: pbind_def)
    with specD [OF assms(2), of s] s show ?thesis by auto
  qed
qed

lemma spec_error: "spec e b d 0 (perror tok msg)"
proof (rule specI)
  fix s assume "wf_parser s"
  then show "case perror tok msg s of
        Ret x t \<Rightarrow> R s t \<and> advanced s t \<and> pcurrent s + 0 \<le> pcurrent t
      | Throw msg t \<Rightarrow> R s t \<and> advanced s t | _ \<Rightarrow> False"
    using R_error [of tok msg s]
    by (auto simp: perror_def pbind_def preport_def recordError_def advanced_def wf_parser_def)
qed

lemma spec_report: "ec \<noteq> Syntax S001_UNEXPECTED_TOKEN \<Longrightarrow> spec e b d 0 (preport ec msg tok sev)"
  by (rule specI)
     (use R_report [of ec msg tok sev] in \<open>auto simp: preport_def advanced_def wf_parser_def\<close>)

end

end
