(* ===== verification/Tocin_Parser_Expr.thy ===== *)
theory Tocin_Parser_Expr
  imports Tocin_Parser_Core
begin

text \<open>
  The productions of \<open>src/parser/parser.cpp\<close> for types, parameters and expressions. The
  recursion is open: a production takes the parser of the nested expressions as \<open>E\<close> and of
  the types as \<open>T\<close>, and every loop of the source takes the fuel \<open>k\<close>; \<open>assignment\<close> and \<open>parseType\<close> tie
  the knot by recursion on a number that bounds the nesting. Every iteration and
  every nested call consumes a token, so more fuel than there are tokens is enough: that is what the
  \<open>spec\<close> lemmas at the end of each section show.
\<close>

section \<open>Combinators for the control flow of the source\<close>

text \<open>\<open>if (match(a) || match(b)) { A } else { B }\<close>\<close>

definition if_match :: "TokenType list \<Rightarrow> 'a parse \<Rightarrow> 'a parse \<Rightarrow> 'a parse" where
  "if_match tys A B = pbind (match_any tys) (\<lambda>b. if b then A else B)"

text \<open>\<open>do { acc.push_back(item()); } while (match(sep));\<close>\<close>

primrec sep_list :: "TokenType \<Rightarrow> 'a parse \<Rightarrow> nat \<Rightarrow> 'a list \<Rightarrow> 'a list parse" where
  "sep_list sep item 0 acc = no_fuel"
| "sep_list sep item (Suc n) acc =
     pbind item (\<lambda>x. if_match [sep] (sep_list sep item n (acc @ [x])) (ret (acc @ [x])))"

text \<open>\<open>if (!check(close)) do \<dots> while (match(COMMA));\<close>\<close>

definition comma_list :: "TokenType \<Rightarrow> 'a parse \<Rightarrow> nat \<Rightarrow> 'a list parse" where
  "comma_list close item k =
     pbind (pcheck close) (\<lambda>c. if c then ret [] else sep_list (Single COMMA) item k [])"

text \<open>\<open>while (match(\<dots>)) { op = previous(); right = operand(); expr = BinaryExpr(op, expr, op, right); }\<close>\<close>

primrec binary_loop :: "TokenType list \<Rightarrow> expr parse \<Rightarrow> nat \<Rightarrow> expr \<Rightarrow> expr parse" where
  "binary_loop ops operand 0 e = no_fuel"
| "binary_loop ops operand (Suc n) e =
     if_match ops
       (pbind pprevious (\<lambda>op. pbind operand (\<lambda>right.
          binary_loop ops operand n (BinaryExpr op e op right))))
       (ret e)"

named_theorems parse_rules \<open>the judgement for each production and combinator\<close>

context parser_relation begin

lemma spec_if_match [parse_rules]:
  assumes "0 < d \<Longrightarrow> spec False (Suc b) (d - 1) 0 A" and "spec e b d c B" and "c \<le> 1"
  shows "spec e b d c (if_match tys A B)"
proof (induction tys)
  case Nil
  have "if_match [] A B = B" by (simp add: if_match_def pbind_def ret_def fun_eq_iff)
  with assms(2) show ?case by simp
next
  case (Cons ty tys)
  have "if_match (ty # tys) A B = pbind (pmatch ty) (\<lambda>x. if x then A else if_match tys A B)"
    by (auto simp: if_match_def pbind_def ret_def fun_eq_iff split: outcome.splits)
  then show ?case using spec_match [OF assms(1) Cons] assms(3) by simp
qed

lemma spec_bind0 [parse_rules]:
  assumes "spec e b d 0 m" and "\<And>x. spec False b d 0 (f x)"
  shows "spec e b d 0 (pbind m f)"
  using spec_bind [OF assms(1), of 0 f] assms(2) by simp

lemma spec_bind1 [parse_rules]:
  assumes "spec e b d (Suc 0) m" and "\<And>x. spec False b d 0 (f x)"
  shows "spec e b d (Suc 0) (pbind m f)"
proof -
  have "spec False (b + Suc 0) (d - Suc 0) 0 (f x)" for x
    by (rule spec_weaken [OF assms(2)]) simp_all
  from spec_bind [OF assms(1) this] show ?thesis by simp
qed

lemma spec_if [parse_rules]:
  "(x \<Longrightarrow> spec e b d c A) \<Longrightarrow> (\<not> x \<Longrightarrow> spec e b d c B) \<Longrightarrow> spec e b d c (if x then A else B)"
  by simp

lemma spec_consume [parse_rules]: "spec e b d 0 (consume ty msg)"
proof (rule specI)
  fix s assume s: "wf_parser s"
  show "case consume ty msg s of
        Ret x t \<Rightarrow> R s t \<and> advanced s t \<and> pcurrent s + 0 \<le> pcurrent t
      | Throw msg t \<Rightarrow> R s t \<and> advanced s t | _ \<Rightarrow> False"
  proof (cases "\<not> at_end s \<and> ttype (ptokens s ! pcurrent s) = ty")
    case True
    then show ?thesis
      using s wf_parser_next [of s] R_next [of s "Suc (pcurrent s)"]
      by (auto simp: consume_def pbind_def advanced_def wf_parser_def)
  next
    case False
    have "spec False 0 (tokens_left s) 0 (pbind (perror (ptokens s ! pcurrent s) msg) (\<lambda>_. ppeek))"
      by (intro spec_bind0 spec_error spec_peek)
    from specD [OF this s] False s show ?thesis
      by (auto simp: consume_def pbind_def)
  qed
qed

lemma spec_match0 [parse_rules]: "spec e b d 0 (pmatch ty)"
  by (rule specI) (simp add: R_refl R_next advanced_refl advanced_next)

text \<open>A computation that leaves the cursor where it is.\<close>

definition still :: "nat \<Rightarrow> 'a parse \<Rightarrow> bool" where
  "still b m \<longleftrightarrow> (\<forall>s. wf_parser s \<and> b \<le> pcurrent s \<longrightarrow>
     (\<exists>x t. m s = Ret x t \<and> R s t \<and> ptokens t = ptokens s \<and> pcurrent t = pcurrent s))"

lemma still_rules:
  "still b ppeek" "still b pisAtEnd" "still b (pcheck ty)" "still (Suc b) pprevious"
  "still b (perror tok msg)"
  using R_error by (auto simp: still_def R_refl pprevious_def wf_parser_def perror_def pbind_def
      preport_def recordError_def)

lemma spec_still:
  assumes m: "still b m" and f: "\<And>x. spec e b d c (f x)"
  shows "spec e b d c (pbind m f)"
proof (rule specI)
  fix s assume s: "wf_parser s" "b \<le> pcurrent s" "tokens_left s \<le> d" "e \<longrightarrow> \<not> at_end s"
  from m s obtain x t where t: "m s = Ret x t" "R s t" "ptokens t = ptokens s"
      "pcurrent t = pcurrent s"
    unfolding still_def by blast
  then have "wf_parser t" "b \<le> pcurrent t" "tokens_left t \<le> d" "e \<longrightarrow> \<not> at_end t"
    using s by (simp_all add: wf_parser_def tokens_left_def at_end_def)
  from specD [OF f [of x] this] t
  show "case pbind m f s of
        Ret x t \<Rightarrow> R s t \<and> advanced s t \<and> pcurrent s + c \<le> pcurrent t
      | Throw msg t \<Rightarrow> R s t \<and> advanced s t | _ \<Rightarrow> False"
    by (auto simp: pbind_def advanced_def intro: R_trans)
qed

declare spec_ret [parse_rules] spec_throw [parse_rules] spec_peek [parse_rules]
  spec_check [parse_rules] spec_isAtEnd [parse_rules] spec_previous [parse_rules]
  spec_error [parse_rules] spec_report [parse_rules]

lemma spec_sep_list:
  assumes "\<And>e b d. d \<le> D \<Longrightarrow> spec e b d 0 item"
  shows "d \<le> D \<Longrightarrow> d < n \<Longrightarrow> spec e b d 0 (sep_list sep item n acc)"
proof (induction n arbitrary: e b d acc)
  case (Suc n)
  show ?case
    by (auto intro!: parse_rules assms Suc simp: Suc.prems)
       (use Suc.prems in auto)
qed simp

lemma spec_comma_list:
  "(\<And>e b d. d \<le> D \<Longrightarrow> spec e b d 0 item) \<Longrightarrow> d \<le> D \<Longrightarrow> d < k \<Longrightarrow>
   spec e b d 0 (comma_list close item k)"
  by (auto simp: comma_list_def intro!: parse_rules spec_sep_list [where D = D])

lemma spec_binary_loop:
  assumes "\<And>e b d. d \<le> D \<Longrightarrow> spec e b d 0 operand"
  shows "d \<le> D \<Longrightarrow> d < n \<Longrightarrow> spec e b d 0 (binary_loop ops operand n x)"
proof (induction n arbitrary: e b d x)
  case (Suc n)
  show ?case
    by (auto intro!: parse_rules assms Suc simp: Suc.prems)
       (use Suc.prems in auto)
qed simp

end

section \<open>Types and parameters\<close>

text \<open>The rest of a generic, function or union type after its first token.\<close>

definition generic_type :: "type parse \<Rightarrow> nat \<Rightarrow> token \<Rightarrow> type parse" where
  "generic_type T k token =
     pbind (sep_list (Single COMMA) T k []) (\<lambda>typeArgs.
     pbind (consume (Op GREATER) ''Expected '>' after type arguments'') (\<lambda>_.
     ret (GenericType token (lexeme token) typeArgs)))"

definition function_type :: "type parse \<Rightarrow> nat \<Rightarrow> token \<Rightarrow> type parse" where
  "function_type T k token =
     pbind (comma_list (Single RIGHT_PAREN) T k) (\<lambda>paramTypes.
     pbind (consume (Single RIGHT_PAREN) ''Expected ')' after function type parameters'') (\<lambda>_.
     pbind (consume (Op ARROW) ''Expected '->' in function type'') (\<lambda>_.
     pbind T (\<lambda>returnType.
     ret (FunctionType token paramTypes returnType False)))))"

definition union_type :: "type parse \<Rightarrow> nat \<Rightarrow> token \<Rightarrow> type parse" where
  "union_type T k token =
     pbind (sep_list (Logic OR) T k [SimpleType token]) (\<lambda>types.
     case new_UnionType token types of
       None \<Rightarrow> throw ''UnionType requires non-empty types''
     | Some t \<Rightarrow> ret t)"

primrec parseType :: "nat \<Rightarrow> nat \<Rightarrow> type parse" where
  "parseType k 0 = no_fuel"
| "parseType k (Suc n) =
     pbind (consume (Lit IDENTIFIER) ''Expected type name'') (\<lambda>token.
     if_match [Op LESS] (generic_type (parseType k n) k token)
    (if_match [Single LEFT_PAREN] (function_type (parseType k n) k token)
    (if_match [Logic OR] (union_type (parseType k n) k token)
    (ret (SimpleType token)))))"

text \<open>The null test after \<open>parseType\<close> in \<open>parseParameters\<close> never fires: \<open>parseType\<close> does not return null.\<close>

definition parameter :: "type parse \<Rightarrow> Parameter parse" where
  "parameter T =
     pbind (consume (Lit IDENTIFIER) ''Expected parameter name'') (\<lambda>name.
     pbind (consume (Single COLON) ''Expected ':' after parameter name'') (\<lambda>_.
     pbind T (\<lambda>type.
     case new_Parameter (lexeme name) (Some type) of Inl e \<Rightarrow> throw e | Inr p \<Rightarrow> ret p)))"

definition parseParameters :: "type parse \<Rightarrow> nat \<Rightarrow> Parameter list parse" where
  "parseParameters T k = comma_list (Single RIGHT_PAREN) (parameter T) k"

context parser_relation begin

lemma spec_parseType: "d < k \<Longrightarrow> d < n \<Longrightarrow> spec e b d 0 (parseType k n)"
proof (induction n arbitrary: e b d)
  case (Suc n)
  have T: "spec e b d' 0 (parseType k n)" if "d' \<le> d - 1" "0 < d" for e b d'
    using Suc that by (intro Suc.IH) auto
  show ?case
    by (auto simp: generic_type_def function_type_def union_type_def
        intro!: parse_rules spec_sep_list [where D = "d - 1"] spec_comma_list [where D = "d - 1"] T)
       (use Suc.prems in auto)
qed simp

lemma spec_parseParameters: "d < k \<Longrightarrow> spec e b d 0 (parseParameters (parseType k k) k)"
  by (auto simp: parseParameters_def parameter_def new_Parameter_def
      intro!: parse_rules spec_comma_list [where D = d] spec_parseType)

end

section \<open>Primary expressions\<close>

definition grouping :: "expr parse \<Rightarrow> expr parse" where
  "grouping E =
     pbind E (\<lambda>e.
     pbind (consume (Single RIGHT_PAREN) ''Expected ')' after expression'') (\<lambda>_.
     ret (GroupingExpr (expr_token e) e)))"

definition list_literal :: "expr parse \<Rightarrow> nat \<Rightarrow> expr parse" where
  "list_literal E k =
     pbind (comma_list (Single RIGHT_BRACKET) E k) (\<lambda>elements.
     pbind (consume (Single RIGHT_BRACKET) ''Expected ']' after list'') (\<lambda>token.
     ret (ListExpr token elements)))"

definition dictionary_entry :: "expr parse \<Rightarrow> (expr \<times> expr) parse" where
  "dictionary_entry E =
     pbind E (\<lambda>key.
     pbind (consume (Single COLON) ''Expected ':' after dictionary key'') (\<lambda>_.
     pbind E (\<lambda>v. ret (key, v))))"

definition dictionary_literal :: "expr parse \<Rightarrow> nat \<Rightarrow> expr parse" where
  "dictionary_literal E k =
     pbind (comma_list (Single RIGHT_BRACE) (dictionary_entry E) k) (\<lambda>entries.
     pbind (consume (Single RIGHT_BRACE) ''Expected '}' after dictionary'') (\<lambda>token.
     ret (DictionaryExpr token entries)))"

definition none_type :: type where
  "none_type = SimpleType (Token (Kw NIL) ''None'' [] 0 0)"

definition lambda_expr :: "expr parse \<Rightarrow> type parse \<Rightarrow> nat \<Rightarrow> expr parse" where
  "lambda_expr E T k =
     pbind (consume (Single LEFT_PAREN) ''Expected '(' after lambda'') (\<lambda>_.
     pbind (parseParameters T k) (\<lambda>parameters.
     pbind (consume (Single RIGHT_PAREN) ''Expected ')' after lambda parameters'') (\<lambda>_.
     pbind (if_match [Op ARROW] T (ret none_type)) (\<lambda>returnType.
     pbind E (\<lambda>body.
     pbind pprevious (\<lambda>token.
     case new_LambdaExpr token parameters (Some returnType) body of
       Inl e \<Rightarrow> throw e
     | Inr x \<Rightarrow> ret x))))))"

definition literal :: "string \<Rightarrow> LiteralType \<Rightarrow> expr parse" where
  "literal v ty = pbind pprevious (\<lambda>token. ret (LiteralExpr token v ty))"

definition number_literal :: "expr parse" where
  "number_literal =
     pbind pprevious (\<lambda>token.
     ret (LiteralExpr token (lexeme token) (if ttype token = Lit INT_LIT then INTEGER else FLOAT)))"

definition string_literal :: "expr parse" where
  "string_literal = pbind pprevious (\<lambda>token. ret (LiteralExpr token (lexeme token) STRING_LITERAL))"

definition variable :: "expr parse" where
  "variable = pbind pprevious (\<lambda>token. ret (VariableExpr token (lexeme token)))"

definition no_primary :: "expr parse" where
  "no_primary =
     pbind ppeek (\<lambda>t. pbind (perror t ''Expected expression'') (\<lambda>_. throw ''Parse error''))"

definition primary :: "expr parse \<Rightarrow> type parse \<Rightarrow> nat \<Rightarrow> expr parse" where
  "primary E T k =
     if_match [Kw TRUE] (literal ''true'' BOOLEAN)
    (if_match [Kw FALSE] (literal ''false'' BOOLEAN)
    (if_match [Kw NIL] (literal ''None'' NIL_LITERAL)
    (if_match [Lit INT_LIT, Lit FLOAT64, Lit FLOAT32] number_literal
    (if_match [Lit STRING] string_literal
    (if_match [Lit IDENTIFIER] variable
    (if_match [Single LEFT_PAREN] (grouping E)
    (if_match [Single LEFT_BRACKET] (list_literal E k)
    (if_match [Single LEFT_BRACE] (dictionary_literal E k)
    (if_match [Kw LAMBDA] (lambda_expr E T k) no_primary)))))))))"

section \<open>Calls and unary expressions\<close>

primrec call_loop :: "expr parse \<Rightarrow> nat \<Rightarrow> nat \<Rightarrow> expr \<Rightarrow> expr parse" where
  "call_loop E k 0 e = no_fuel"
| "call_loop E k (Suc n) e =
     if_match [Single LEFT_PAREN]
       (pbind (comma_list (Single RIGHT_PAREN) E k) (\<lambda>arguments.
        pbind (consume (Single RIGHT_PAREN) ''Expected ')' after arguments'') (\<lambda>paren.
        call_loop E k n (CallExpr paren e arguments))))
    (if_match [Single DOT]
       (pbind (consume (Lit IDENTIFIER) (''Expected property name after '.'' @ [SQUOTE])) (\<lambda>name.
        call_loop E k n (GetExpr name e (lexeme name))))
    (if_match [Kw3 CHANNEL_SEND]
       (pbind E (\<lambda>v. pbind pprevious (\<lambda>token.
        call_loop E k n (ChannelSendExpr token e v))))
    (ret e)))"

definition call :: "expr parse \<Rightarrow> type parse \<Rightarrow> nat \<Rightarrow> expr parse" where
  "call E T k = pbind (primary E T k) (call_loop E k k)"

definition newExpr :: "expr parse \<Rightarrow> type parse \<Rightarrow> nat \<Rightarrow> expr parse" where
  "newExpr E T k =
     pbind pprevious (\<lambda>keyword.
     pbind (primary E T k) (\<lambda>e.
     if_match [Single LEFT_BRACKET]
       (pbind E (\<lambda>size.
        pbind (consume (Single RIGHT_BRACKET) ''Expect ']' after array size.'') (\<lambda>_.
        ret (NewExpr keyword e (Some size)))))
       (ret (NewExpr keyword e None))))"

definition deleteExpr :: "expr parse \<Rightarrow> type parse \<Rightarrow> nat \<Rightarrow> expr parse" where
  "deleteExpr E T k =
     pbind pprevious (\<lambda>keyword. pbind (primary E T k) (\<lambda>e. ret (DeleteExpr keyword e)))"

definition channelReceiveExpr :: "expr parse \<Rightarrow> expr parse" where
  "channelReceiveExpr E =
     pbind pprevious (\<lambda>keyword. pbind E (\<lambda>channel. ret (ChannelReceiveExpr keyword channel)))"

definition channelSendExpr :: "expr parse \<Rightarrow> expr parse" where
  "channelSendExpr E =
     pbind E (\<lambda>channel.
     pbind (consume (Kw3 CHANNEL_SEND) ''Expected '<-' for channel send'') (\<lambda>_.
     pbind E (\<lambda>v. pbind pprevious (\<lambda>token. ret (ChannelSendExpr token channel v)))))"

primrec unary :: "expr parse \<Rightarrow> type parse \<Rightarrow> nat \<Rightarrow> nat \<Rightarrow> expr parse" where
  "unary E T k 0 = no_fuel"
| "unary E T k (Suc n) =
     if_match [Op BANG, Op MINUS]
       (pbind pprevious (\<lambda>op. pbind (unary E T k n) (\<lambda>right. ret (UnaryExpr op op right))))
    (if_match [Kw AWAIT]
       (pbind (unary E T k n) (\<lambda>e. pbind pprevious (\<lambda>token. ret (AwaitExpr token e))))
    (if_match [Kw NEW] (newExpr E T k)
    (if_match [Kw DELETE] (deleteExpr E T k)
    (if_match [Kw3 CHANNEL_RECEIVE] (channelReceiveExpr E)
    (call E T k)))))"

section \<open>Binary expressions and assignment\<close>

definition factor :: "expr parse \<Rightarrow> type parse \<Rightarrow> nat \<Rightarrow> expr parse" where
  "factor E T k =
     pbind (unary E T k k) (binary_loop [Op STAR, Op SLASH, Op PERCENT] (unary E T k k) k)"

definition term_expr :: "expr parse \<Rightarrow> type parse \<Rightarrow> nat \<Rightarrow> expr parse" where
  "term_expr E T k = pbind (factor E T k) (binary_loop [Op PLUS, Op MINUS] (factor E T k) k)"

definition comparison :: "expr parse \<Rightarrow> type parse \<Rightarrow> nat \<Rightarrow> expr parse" where
  "comparison E T k =
     pbind (term_expr E T k)
       (binary_loop [Op LESS, Op LESS_EQUAL, Op GREATER, Op GREATER_EQUAL] (term_expr E T k) k)"

definition equality :: "expr parse \<Rightarrow> type parse \<Rightarrow> nat \<Rightarrow> expr parse" where
  "equality E T k =
     pbind (comparison E T k) (binary_loop [Op EQUAL_EQUAL, Op BANG_EQUAL] (comparison E T k) k)"

definition andExpr :: "expr parse \<Rightarrow> type parse \<Rightarrow> nat \<Rightarrow> expr parse" where
  "andExpr E T k = pbind (equality E T k) (binary_loop [Logic AND] (equality E T k) k)"

definition orExpr :: "expr parse \<Rightarrow> type parse \<Rightarrow> nat \<Rightarrow> expr parse" where
  "orExpr E T k = pbind (andExpr E T k) (binary_loop [Logic OR] (andExpr E T k) k)"

text \<open>\<open>assignment\<close> is right recursive and is what \<open>expression\<close> calls, so it ties the knot.\<close>

definition assign_to :: "token \<Rightarrow> expr \<Rightarrow> expr \<Rightarrow> expr parse" where
  "assign_to equals e v =
     (case e of
        VariableExpr t n \<Rightarrow> ret (new_AssignExpr equals n v)
      | GetExpr t object n \<Rightarrow> ret (SetExpr equals object n v)
      | _ \<Rightarrow> pbind (preport (Syntax S005_INVALID_ASSIGNMENT_TARGET) ''Invalid assignment target''
                     equals ERROR_SEVERITY) (\<lambda>_. ret e))"

primrec assignment :: "nat \<Rightarrow> nat \<Rightarrow> expr parse" where
  "assignment k 0 = no_fuel"
| "assignment k (Suc n) =
     pbind (orExpr (assignment k n) (parseType k k) k) (\<lambda>e.
     if_match [Op EQUAL]
       (pbind pprevious (\<lambda>equals. pbind (assignment k n) (\<lambda>v. assign_to equals e v)))
       (ret e))"

definition expression :: "nat \<Rightarrow> expr parse" where
  "expression k = assignment k k"

section \<open>The expressions meet their judgement\<close>

context parser_relation begin

lemma spec_zero: "spec e b d (Suc 0) m \<Longrightarrow> spec e b d 0 m"
  by (erule spec_weaken) auto

lemma spec_no_primary [parse_rules]: "spec e b d (Suc 0) no_primary"
proof -
  have "spec e b d (0 + Suc 0) no_primary"
    unfolding no_primary_def
    by (intro spec_bind spec_peek) (simp, intro spec_bind [where c = 0, simplified] spec_error spec_throw)
  then show ?thesis by simp
qed

lemma spec_primary:
  assumes E: "\<And>e b d. d < D \<Longrightarrow> spec e b d 0 E" and "D < k" and "d \<le> D"
  shows "spec e b d (Suc 0) (primary E (parseType k k) k)"
proof -
  have L: "spec e b d' 0 (comma_list close item k)"
    if "\<And>e b d. d < D \<Longrightarrow> spec e b d 0 item" "d' < D"
    for e b d' close and item :: "'z parse"
    using that assms(2) by (intro spec_comma_list [where D = "D - 1"]) auto
  show ?thesis
    unfolding primary_def literal_def number_literal_def string_literal_def variable_def
      grouping_def list_literal_def dictionary_literal_def dictionary_entry_def lambda_expr_def
    by (auto intro!: parse_rules E L spec_parseParameters spec_parseType)
       (use assms(2,3) in auto)
qed

lemma spec_call_loop:
  assumes E: "\<And>e b d. d < D \<Longrightarrow> spec e b d 0 E" and "D < k"
  shows "d \<le> D \<Longrightarrow> d < n \<Longrightarrow> spec e b d 0 (call_loop E k n x)"
proof (induction n arbitrary: e b d x)
  case (Suc n)
  have L: "spec e b d' 0 (comma_list close E k)" if "d' < D" for e b d' close
    using that assms by (intro spec_comma_list [where D = "D - 1"]) auto
  show ?case
    by (auto intro!: parse_rules E L Suc.IH) (use Suc.prems in auto)
qed simp

lemma spec_call:
  assumes "\<And>e b d. d < D \<Longrightarrow> spec e b d 0 E" and "D < k" and "d \<le> D"
  shows "spec e b d (Suc 0) (call E (parseType k k) k)"
  unfolding call_def
  by (intro spec_bind1 spec_primary [where D = D] spec_call_loop [where D = D]) (use assms in auto)

lemma spec_unary:
  assumes E: "\<And>e b d. d < D \<Longrightarrow> spec e b d 0 E" and "D < k"
  shows "d \<le> D \<Longrightarrow> d < n \<Longrightarrow> spec e b d (Suc 0) (unary E (parseType k k) k n)"
proof (induction n arbitrary: e b d)
  case (Suc n)
  have P: "spec e b d' 0 (primary E (parseType k k) k)" if "d' \<le> D" for e b d'
    by (rule spec_zero, rule spec_primary [where D = D]) (use that assms in auto)
  have U: "spec e b d' 0 (unary E (parseType k k) k n)" if "d' \<le> D" "d' < n" for e b d'
    by (rule spec_zero, rule Suc.IH) (use that in auto)
  have C: "spec e b d (Suc 0) (call E (parseType k k) k)" for e b
    by (rule spec_call [where D = D]) (use assms Suc.prems in auto)
  show ?case
    unfolding unary.simps newExpr_def deleteExpr_def channelReceiveExpr_def
    by (auto intro!: parse_rules P U C E) (use Suc.prems in auto)
qed simp

lemma spec_binary:
  assumes "\<And>e b d. d \<le> D \<Longrightarrow> spec e b d (Suc 0) operand" and "D < k" and "d \<le> D"
  shows "spec e b d (Suc 0) (pbind operand (binary_loop ops operand k))"
  by (intro spec_bind1 spec_binary_loop [where D = D] spec_zero) (use assms in auto)

lemma spec_orExpr:
  assumes "\<And>e b d. d < D \<Longrightarrow> spec e b d 0 E" and "D < k" and "d \<le> D"
  shows "spec e b d (Suc 0) (orExpr E (parseType k k) k)"
  unfolding orExpr_def andExpr_def equality_def comparison_def term_expr_def factor_def
  by (intro spec_binary [where D = D] spec_unary [where D = D]) (use assms in auto)

lemma spec_assignment: "D < k \<Longrightarrow> d \<le> D \<Longrightarrow> d < n \<Longrightarrow> spec e b d (Suc 0) (assignment k n)"
proof (induction n arbitrary: e b d)
  case (Suc n)
  have E: "spec e b d' 0 (assignment k n)" if "d' < d" for e b d'
    by (rule spec_zero, rule Suc.IH) (use that Suc.prems in auto)
  have A: "spec e b d' 0 (assign_to eq x v)" for e b d' eq x v
    by (auto simp: assign_to_def intro!: parse_rules split: expr.split)
  show ?case
    unfolding assignment.simps
    by (rule spec_bind1, rule spec_orExpr [where D = d])
       (auto intro!: parse_rules E A, (use Suc.prems in auto))
qed simp

lemma spec_expression: "d < k \<Longrightarrow> spec e b d (Suc 0) (expression k)"
  unfolding expression_def by (rule spec_assignment [where D = d]) auto

lemma spec_expression0: "d < k \<Longrightarrow> spec e b d 0 (expression k)"
  by (rule spec_zero) (rule spec_expression)

end

end
