(* ===== verification/Tocin_Parser.thy ===== *)
theory Tocin_Parser
  imports Tocin_Parser_Expr
begin

text \<open>
  The statements and declarations of \<open>src/parser/parser.cpp\<close>, the recovery after an error and
  \<open>parse\<close>. As for the expressions the recursion is open: \<open>D\<close> is the parser of the declarations
  inside a block. \<open>declaration_stmt\<close> ties the knot, \<open>parse\<close> runs it with one unit of fuel more than there
  are tokens.
\<close>

section \<open>Loops\<close>

text \<open>\<open>while (!check(RIGHT_BRACE) && !isAtEnd()) body\<close>\<close>

primrec until_brace :: "('a \<Rightarrow> 'a parse) \<Rightarrow> nat \<Rightarrow> 'a \<Rightarrow> 'a parse" where
  "until_brace body 0 acc = no_fuel"
| "until_brace body (Suc n) acc =
     pbind (pcheck (Single RIGHT_BRACE)) (\<lambda>c.
     pbind pisAtEnd (\<lambda>e.
     if \<not> c \<and> \<not> e then pbind (body acc) (until_brace body n) else ret acc))"

section \<open>Recovery\<close>

definition sync_types :: "TokenType list" where
  "sync_types = [Kw CLASS, Kw DEF, Kw ASYNC, Kw LET, Kw CONST_KW, Kw FOR, Kw IF, Kw WHILE,
     Kw RETURN, Kw IMPORT, Kw MATCH, Kw3 GO, Kw3 SELECT]"

primrec sync_loop :: "nat \<Rightarrow> unit parse" where
  "sync_loop 0 = no_fuel"
| "sync_loop (Suc n) =
     pbind pisAtEnd (\<lambda>e.
     if e then ret ()
     else pbind pprevious (\<lambda>p.
       if ttype p = Single SEMI_COLON then ret ()
       else pbind ppeek (\<lambda>t.
         if ttype t \<in> set sync_types then ret ()
         else pbind padvance (\<lambda>_. sync_loop n))))"

definition synchronize :: "nat \<Rightarrow> unit parse" where
  "synchronize k = pbind padvance (\<lambda>_. sync_loop k)"

section \<open>Simple statements\<close>

definition varDeclaration :: "nat \<Rightarrow> stmt parse" where
  "varDeclaration k =
     pbind pprevious (\<lambda>keyword.
     pbind (consume (Lit IDENTIFIER) ''Expected variable name'') (\<lambda>name.
     pbind (if_match [Single COLON] (pbind (parseType k k) (\<lambda>t. ret (Some t))) (ret None)) (\<lambda>ty.
     pbind (if_match [Op EQUAL] (pbind (expression k) (\<lambda>e. ret (Some e))) (ret None)) (\<lambda>initializer.
     pbind (consume (Single SEMI_COLON) ''Expected ';' after variable declaration'') (\<lambda>_.
     ret (VariableStmt name (lexeme name) ty initializer (ttype keyword = Kw CONST_KW)))))))"

definition expressionStmt :: "nat \<Rightarrow> stmt parse" where
  "expressionStmt k =
     pbind (expression k) (\<lambda>e.
     pbind (consume (Single SEMI_COLON) ''Expected ';' after expression'') (\<lambda>_.
     ret (ExpressionStmt (expr_token e) e)))"

definition returnStmt :: "nat \<Rightarrow> stmt parse" where
  "returnStmt k =
     pbind pprevious (\<lambda>keyword.
     pbind (pcheck (Single SEMI_COLON)) (\<lambda>c.
     pbind (if \<not> c then pbind (expression k) (\<lambda>e. ret (Some e)) else ret None) (\<lambda>v.
     pbind (consume (Single SEMI_COLON) ''Expected ';' after return value'') (\<lambda>_.
     ret (ReturnStmt keyword v)))))"

definition importStmt :: "stmt parse" where
  "importStmt =
     pbind (consume (Lit IDENTIFIER) ''Expected module name'') (\<lambda>module.
     pbind (consume (Single SEMI_COLON) ''Expected ';' after import'') (\<lambda>_.
     ret (new_ImportStmt module (lexeme module))))"

definition goStmt :: "nat \<Rightarrow> stmt parse" where
  "goStmt k =
     pbind pprevious (\<lambda>keyword.
     pbind (consume (Single LEFT_PAREN) (''Expected '(' after 'go'' @ [SQUOTE])) (\<lambda>_.
     pbind (expression k) (\<lambda>e.
     pbind (consume (Single RIGHT_PAREN) ''Expected ')' after goroutine expression'') (\<lambda>_.
     pbind (consume (Single SEMI_COLON) ''Expected ';' after goroutine statement'') (\<lambda>_.
     ret (GoStmt keyword e))))))"

section \<open>Statements with blocks\<close>

definition blockStmt :: "stmt option parse \<Rightarrow> nat \<Rightarrow> stmt parse" where
  "blockStmt D k =
     pbind (until_brace (\<lambda>acc. pbind D (\<lambda>s. ret (acc @ [s]))) k []) (\<lambda>statements.
     pbind (consume (Single RIGHT_BRACE) ''Expected '}' after block'') (\<lambda>_.
     pbind pprevious (\<lambda>token. ret (BlockStmt token statements))))"

primrec elif_loop :: "stmt option parse \<Rightarrow> nat \<Rightarrow> nat \<Rightarrow> (expr \<times> stmt) list \<Rightarrow> (expr \<times> stmt) list parse" where
  "elif_loop D k 0 acc = no_fuel"
| "elif_loop D k (Suc n) acc =
     if_match [Kw ELIF]
       (pbind (expression k) (\<lambda>condition.
        pbind (consume (Single LEFT_BRACE) ''Expected '{' after elif condition'') (\<lambda>_.
        pbind (blockStmt D k) (\<lambda>branch. elif_loop D k n (acc @ [(condition, branch)])))))
       (ret acc)"

definition ifStmt :: "stmt option parse \<Rightarrow> nat \<Rightarrow> stmt parse" where
  "ifStmt D k =
     pbind (expression k) (\<lambda>condition.
     pbind (consume (Single LEFT_BRACE) ''Expected '{' after if condition'') (\<lambda>_.
     pbind (blockStmt D k) (\<lambda>thenBranch.
     pbind (elif_loop D k k []) (\<lambda>elifBranches.
     pbind (if_match [Kw ELSE]
        (pbind (consume (Single LEFT_BRACE) ''Expected '{' after else'') (\<lambda>_.
         pbind (blockStmt D k) (\<lambda>b. ret (Some b)))) (ret None)) (\<lambda>elseBranch.
     ret (IfStmt (expr_token condition) condition thenBranch elifBranches elseBranch))))))"

definition whileStmt :: "stmt option parse \<Rightarrow> nat \<Rightarrow> stmt parse" where
  "whileStmt D k =
     pbind (expression k) (\<lambda>condition.
     pbind (consume (Single LEFT_BRACE) ''Expected '{' after while condition'') (\<lambda>_.
     pbind (blockStmt D k) (\<lambda>body.
     ret (WhileStmt (expr_token condition) condition body))))"

definition forStmt :: "stmt option parse \<Rightarrow> nat \<Rightarrow> stmt parse" where
  "forStmt D k =
     pbind (consume (Lit IDENTIFIER) ''Expected loop variable'') (\<lambda>variable.
     pbind (if_match [Single COLON] (pbind (parseType k k) (\<lambda>t. ret (Some t))) (ret None)) (\<lambda>ty.
     pbind (consume (Kw IN) ''Expected 'in' after loop variable'') (\<lambda>_.
     pbind (expression k) (\<lambda>iterable.
     pbind (consume (Single LEFT_BRACE) ''Expected '{' after for iterable'') (\<lambda>_.
     pbind (blockStmt D k) (\<lambda>body.
     ret (ForStmt variable (lexeme variable) ty iterable body)))))))"

definition functionDeclaration :: "stmt option parse \<Rightarrow> nat \<Rightarrow> stmt parse" where
  "functionDeclaration D k =
     pbind pprevious (\<lambda>keyword. let isAsync = (ttype keyword = Kw ASYNC) in
     pbind (if isAsync then pmatch (Kw DEF) else ret True) (\<lambda>ok.
     pbind (if ok then ret () else pbind pprevious (\<lambda>t.
        perror t (''Expected 'def' after 'async'' @ [SQUOTE]))) (\<lambda>_.
     pbind (consume (Lit IDENTIFIER) ''Expected function name'') (\<lambda>name.
     pbind (consume (Single LEFT_PAREN) ''Expected '(' after function name'') (\<lambda>_.
     pbind (parseParameters (parseType k k) k) (\<lambda>parameters.
     pbind (consume (Single RIGHT_PAREN) ''Expected ')' after parameters'') (\<lambda>_.
     pbind (if_match [Op ARROW, Single COLON] (parseType k k) (ret none_type)) (\<lambda>returnType.
     pbind (consume (Single LEFT_BRACE) ''Expected '{' before function body'') (\<lambda>_.
     pbind (blockStmt D k) (\<lambda>body.
     ret (new_FunctionStmt name (lexeme name) parameters returnType body isAsync)))))))))))"

definition unexpected_item :: "string \<Rightarrow> 'a \<Rightarrow> 'a parse" where
  "unexpected_item msg acc =
     pbind ppeek (\<lambda>t. pbind (perror t msg) (\<lambda>_. pbind padvance (\<lambda>_. ret acc)))"

definition class_member ::
  "stmt option parse \<Rightarrow> nat \<Rightarrow> stmt list \<times> stmt list \<Rightarrow> (stmt list \<times> stmt list) parse" where
  "class_member D k acc = (case acc of (fs, ms) \<Rightarrow>
     if_match [Kw LET, Kw CONST_KW] (pbind (varDeclaration k) (\<lambda>f. ret (fs @ [f], ms)))
    (if_match [Kw DEF, Kw ASYNC] (pbind (functionDeclaration D k) (\<lambda>m. ret (fs, ms @ [m])))
    (unexpected_item ''Expected field or method declaration'' (fs, ms))))"

definition classDeclaration :: "stmt option parse \<Rightarrow> nat \<Rightarrow> stmt parse" where
  "classDeclaration D k =
     pbind (consume (Lit IDENTIFIER) ''Expected class name'') (\<lambda>name.
     pbind (consume (Single LEFT_BRACE) ''Expected '{' before class body'') (\<lambda>_.
     pbind (until_brace (class_member D k) k ([], [])) (\<lambda>members.
     pbind (consume (Single RIGHT_BRACE) ''Expected '}' after class body'') (\<lambda>_.
     ret (new_ClassStmt name (lexeme name) (fst members) (snd members))))))"

text \<open>The body of a case is \<open>blockStmt()\<close> with no brace consumed before it.\<close>

definition match_item ::
  "stmt option parse \<Rightarrow> nat \<Rightarrow> (expr \<times> stmt) list \<times> stmt option
     \<Rightarrow> ((expr \<times> stmt) list \<times> stmt option) parse" where
  "match_item D k acc = (case acc of (cases, defaultCase) \<Rightarrow>
     if_match [Kw CASE]
       (pbind (expression k) (\<lambda>pattern.
        pbind (consume (Single COLON) ''Expected ':' after case pattern'') (\<lambda>_.
        pbind (blockStmt D k) (\<lambda>body. ret (cases @ [(pattern, body)], defaultCase)))))
    (if_match [Kw DEFAULT]
       (pbind (consume (Single COLON) ''Expected ':' after default'') (\<lambda>_.
        pbind (blockStmt D k) (\<lambda>body. ret (cases, Some body))))
    (unexpected_item (''Expected 'case' or 'default'' @ [SQUOTE]) (cases, defaultCase))))"

definition matchStmt :: "stmt option parse \<Rightarrow> nat \<Rightarrow> stmt parse" where
  "matchStmt D k =
     pbind (expression k) (\<lambda>v.
     pbind (consume (Single LEFT_BRACE) ''Expected '{' after match value'') (\<lambda>_.
     pbind (until_brace (match_item D k) k ([], None)) (\<lambda>items.
     pbind (consume (Single RIGHT_BRACE) ''Expected '}' after match'') (\<lambda>_.
     ret (MatchStmt (expr_token v) v (fst items) (snd items))))))"

definition select_channel :: "nat \<Rightarrow> expr parse" where
  "select_channel k =
     pbind (expression k) (\<lambda>firstExpr.
     if_match [Kw3 CHANNEL_SEND] (pbind (expression k) (\<lambda>_. ret firstExpr))
       (if ttype (expr_token firstExpr) = Kw3 CHANNEL_RECEIVE then expression k
        else pbind (consume (Kw3 CHANNEL_RECEIVE) ''Expected '<-' for channel receive'') (\<lambda>_.
          expression k)))"

definition select_item ::
  "stmt option parse \<Rightarrow> nat \<Rightarrow> (expr option \<times> stmt \<times> bool) list
     \<Rightarrow> (expr option \<times> stmt \<times> bool) list parse" where
  "select_item D k cases =
     if_match [Kw CASE]
       (pbind (select_channel k) (\<lambda>channel.
        pbind (consume (Single COLON) ''Expected ':' after case'') (\<lambda>_.
        pbind (blockStmt D k) (\<lambda>body. ret (cases @ [(Some channel, body, False)])))))
    (if_match [Kw DEFAULT]
       (pbind (consume (Single COLON) ''Expected ':' after default'') (\<lambda>_.
        pbind (blockStmt D k) (\<lambda>body. ret (cases @ [(None, body, True)]))))
    (unexpected_item ''Expected 'case' or 'default' in select statement'' cases))"

definition selectStmt :: "stmt option parse \<Rightarrow> nat \<Rightarrow> stmt parse" where
  "selectStmt D k =
     pbind pprevious (\<lambda>keyword.
     pbind (consume (Single LEFT_BRACE) (''Expected '{' after 'select'' @ [SQUOTE])) (\<lambda>_.
     pbind (until_brace (select_item D k) k []) (\<lambda>cases.
     pbind (consume (Single RIGHT_BRACE) ''Expected '}' after select statement'') (\<lambda>_.
     ret (SelectStmt keyword cases)))))"

section \<open>Declarations\<close>

definition statement :: "stmt option parse \<Rightarrow> nat \<Rightarrow> stmt parse" where
  "statement D k =
     if_match [Kw IF] (ifStmt D k)
    (if_match [Kw WHILE] (whileStmt D k)
    (if_match [Kw FOR] (forStmt D k)
    (if_match [Single LEFT_BRACE] (blockStmt D k)
    (if_match [Kw RETURN] (returnStmt k)
    (if_match [Kw MATCH] (matchStmt D k)
    (if_match [Kw3 GO] (goStmt k)
    (if_match [Kw3 SELECT] (selectStmt D k)
    (expressionStmt k))))))))"

definition declaration_body :: "stmt option parse \<Rightarrow> nat \<Rightarrow> stmt parse" where
  "declaration_body D k =
     if_match [Kw LET, Kw CONST_KW] (varDeclaration k)
    (if_match [Kw DEF, Kw ASYNC] (functionDeclaration D k)
    (if_match [Kw CLASS] (classDeclaration D k)
    (if_match [Kw IMPORT] importStmt
    (statement D k))))"

definition recover :: "nat \<Rightarrow> string \<Rightarrow> stmt option parse" where
  "recover k what =
     pbind (synchronize k) (\<lambda>_.
     pbind ppeek (\<lambda>t.
     pbind (preport (Syntax S004_INVALID_STATEMENT)
        (''Parser exception in declaration: '' @ what) t ERROR_SEVERITY) (\<lambda>_.
     ret None)))"

primrec declaration_stmt :: "nat \<Rightarrow> nat \<Rightarrow> stmt option parse" where
  "declaration_stmt k 0 = no_fuel"
| "declaration_stmt k (Suc n) =
     try_catch (pbind (declaration_body (declaration_stmt k n) k) (\<lambda>s. ret (Some s))) (recover k)"

section \<open>parse\<close>

primrec parse_loop :: "nat \<Rightarrow> nat \<Rightarrow> stmt list \<Rightarrow> stmt list parse" where
  "parse_loop k 0 acc = no_fuel"
| "parse_loop k (Suc n) acc =
     pbind pisAtEnd (\<lambda>e.
     if e then ret acc
     else pbind (declaration_stmt k k) (\<lambda>s.
       parse_loop k n (case s of None \<Rightarrow> acc | Some x \<Rightarrow> acc @ [x])))"

definition program :: "stmt list \<Rightarrow> stmt option parse" where
  "program statements s =
     (if length statements = 1 then Ret (Some (hd statements)) s
      else Ret (Some (BlockStmt
             (case ptokens s of [] \<Rightarrow> Token (Special EOF_TOKEN) [] [] 0 0 | t # ts \<Rightarrow> t)
             (map Some statements))) s)"

definition parse_with :: "nat \<Rightarrow> stmt option parse" where
  "parse_with k =
     try_catch (pbind (parse_loop k k []) program) (\<lambda>what.
       pbind (preport (Syntax S004_INVALID_STATEMENT) (''Parser exception: '' @ what)
         (Token (Special EOF_TOKEN) [] [] 0 0) FATAL_SEVERITY) (\<lambda>_. ret None))"

definition parse :: "stmt option parse" where
  "parse s = parse_with (Suc (length (ptokens s))) s"

section \<open>The statements meet their judgement\<close>

context parser_relation begin

lemma spec_until_brace:
  assumes "\<And>b d acc. d \<le> D \<Longrightarrow> spec True (Suc b) d (Suc 0) (body acc)"
  shows "d \<le> D \<Longrightarrow> d < n \<Longrightarrow> spec e (Suc b) d 0 (until_brace body n acc)"
proof (induction n arbitrary: e b d acc)
  case (Suc n)
  show ?case
  proof (rule specI)
    fix s assume s: "wf_parser s" "Suc b \<le> pcurrent s" "tokens_left s \<le> d" "e \<longrightarrow> \<not> at_end s"
    show "case until_brace body (Suc n) acc s of
        Ret x t \<Rightarrow> R s t \<and> advanced s t \<and> pcurrent s + 0 \<le> pcurrent t
      | Throw msg t \<Rightarrow> R s t \<and> advanced s t | _ \<Rightarrow> False"
    proof (cases "at_end s \<or> ttype (ptokens s ! pcurrent s) = Single RIGHT_BRACE")
      case True
      then have "until_brace body (Suc n) acc s = ret acc s"
        using s(1) by (auto simp: pbind_def)
      then show ?thesis using s(1) by (simp add: ret_def R_refl advanced_refl)
    next
      case False
      then have eq: "until_brace body (Suc n) acc s = pbind (body acc) (until_brace body n) s"
        using s(1) by (simp add: pbind_def)
      have d: "0 < d" using not_at_end_left [OF s(1)] False s(3) by simp
      have "spec True (Suc b) d (Suc 0 + 0) (pbind (body acc) (until_brace body n))"
        by (intro spec_bind assms) (use Suc.IH [of "d - 1" False "Suc b"] Suc.prems d in auto)
      from specD [OF this s(1-3)] False show ?thesis unfolding eq by auto
    qed
  qed
qed simp

lemma spec_sync_loop: "d < n \<Longrightarrow> spec e (Suc b) d 0 (sync_loop n)"
proof (induction n arbitrary: e b d)
  case (Suc n)
  show ?case
  proof (rule specI)
    fix s assume s: "wf_parser s" "Suc b \<le> pcurrent s" "tokens_left s \<le> d" "e \<longrightarrow> \<not> at_end s"
    show "case sync_loop (Suc n) s of
        Ret x t \<Rightarrow> R s t \<and> advanced s t \<and> pcurrent s + 0 \<le> pcurrent t
      | Throw msg t \<Rightarrow> R s t \<and> advanced s t | _ \<Rightarrow> False"
    proof (cases "at_end s")
      case True
      then show ?thesis using s(1) by (simp add: pbind_def ret_def R_refl advanced_refl)
    next
      case False
      have d: "0 < d" using not_at_end_left [OF s(1) False] s(3) by simp
      have "spec True (Suc b) d (Suc 0 + 0) (pbind padvance (\<lambda>_. sync_loop n))"
        by (intro spec_bind spec_advance [unfolded One_nat_def])
           (use Suc.IH [of "d - 1" False "Suc b"] Suc.prems d in auto)
      then have step: "spec True (Suc b) d 0 (pbind padvance (\<lambda>_. sync_loop n))"
        by (rule spec_weaken) auto
      have "spec True (Suc b) d 0 (pbind pprevious (\<lambda>p.
         if ttype p = Single SEMI_COLON then ret ()
         else pbind ppeek (\<lambda>t. if ttype t \<in> set sync_types then ret ()
           else pbind padvance (\<lambda>_. sync_loop n))))"
        by (rule spec_still, rule still_rules, rule spec_if, rule spec_ret,
            rule spec_still, rule still_rules, rule spec_if, rule spec_ret, rule step)
      from specD [OF this s(1-3)] False show ?thesis
        using s(1) by (auto simp: pbind_def)
    qed
  qed
qed simp

lemma spec_synchronize: "d < k \<Longrightarrow> spec e (Suc b) d 0 (synchronize k)"
  unfolding synchronize_def by (intro spec_bind0 spec_advance' spec_sync_loop)

lemma spec_synchronize_first: "d < k \<Longrightarrow> spec True b d (Suc 0) (synchronize k)"
proof -
  assume "d < k"
  then have "spec False (b + 1) (d - 1) 0 (sync_loop k)"
    using spec_sync_loop [of "d - 1" k False b] by simp
  from spec_bind [OF spec_advance this] show ?thesis by (simp add: synchronize_def)
qed

text \<open>The statement parsers, for a parser \<open>D\<close> of the declarations inside their blocks.\<close>

lemmas expr_rules = parse_rules spec_parseType spec_parseParameters spec_expression0

lemma spec_simple:
  assumes "d < k"
  shows "spec e (Suc b) d 0 (varDeclaration k)" "spec e (Suc b) d 0 (returnStmt k)"
    "spec e (Suc b) d 0 importStmt" "spec e (Suc b) d 0 (goStmt k)"
    "spec e b d (Suc 0) (expressionStmt k)"
  unfolding varDeclaration_def returnStmt_def importStmt_def goStmt_def expressionStmt_def
  by (auto intro!: expr_rules spec_expression) (use assms in auto)

lemma spec_blockStmt:
  assumes "\<And>b d. d \<le> E \<Longrightarrow> spec True b d (Suc 0) D" and "E < k" and "d \<le> E"
  shows "spec e (Suc b) d 0 (blockStmt D k)"
  unfolding blockStmt_def
  by (intro spec_bind0 spec_until_brace [where D = E] spec_bind1 parse_rules) (use assms in auto)

lemma spec_elif_loop:
  assumes D: "\<And>b d. d \<le> E \<Longrightarrow> spec True b d (Suc 0) D" and "E < k"
  shows "d \<le> E \<Longrightarrow> d < n \<Longrightarrow> spec e (Suc b) d 0 (elif_loop D k n acc)"
proof (induction n arbitrary: e b d acc)
  case (Suc n)
  have B: "spec e (Suc b) d' 0 (blockStmt D k)" if "d' \<le> E" for e b d'
    by (rule spec_blockStmt [where E = E]) (use that assms in auto)
  show ?case
    by (auto intro!: expr_rules B Suc.IH) (use Suc.prems assms(2) in auto)
qed simp

lemma spec_blocks:
  assumes D: "\<And>b d. d \<le> E \<Longrightarrow> spec True b d (Suc 0) D" and "E < k" and "d \<le> E"
  shows "spec e (Suc b) d 0 (ifStmt D k)" "spec e (Suc b) d 0 (whileStmt D k)"
    "spec e (Suc b) d 0 (forStmt D k)" "spec e (Suc b) d 0 (functionDeclaration D k)"
proof -
  have B: "spec e (Suc b) d' 0 (blockStmt D k)" if "d' \<le> E" for e b d'
    by (rule spec_blockStmt [where E = E]) (use that assms in auto)
  have L: "spec e (Suc b) d' 0 (elif_loop D k k [])" if "d' \<le> E" for e b d'
    by (rule spec_elif_loop [where E = E]) (use that assms in auto)
  show "spec e (Suc b) d 0 (ifStmt D k)" "spec e (Suc b) d 0 (whileStmt D k)"
    "spec e (Suc b) d 0 (forStmt D k)" "spec e (Suc b) d 0 (functionDeclaration D k)"
    unfolding ifStmt_def whileStmt_def forStmt_def functionDeclaration_def Let_def
    by (auto intro!: expr_rules B L) (use assms(2,3) in auto)
qed

lemma spec_unexpected_item: "spec True b d (Suc 0) (unexpected_item msg acc)"
  unfolding unexpected_item_def
  by (intro spec_still still_rules spec_bind1 spec_advance [unfolded One_nat_def] spec_ret)

lemma spec_items:
  assumes D: "\<And>b d. d \<le> E \<Longrightarrow> spec True b d (Suc 0) D" and "E < k" and "d \<le> E"
  shows "spec True b d (Suc 0) (class_member D k acc)" "spec True b d (Suc 0) (match_item D k acc')"
    "spec True b d (Suc 0) (select_item D k acc'')"
proof -
  have B: "spec e (Suc b) d' 0 (blockStmt D k)" if "d' \<le> E" for e b d'
    by (rule spec_blockStmt [where E = E]) (use that assms in auto)
  have F: "spec e (Suc b) d' 0 (functionDeclaration D k)" if "d' \<le> E" for e b d'
    by (rule spec_blocks [where E = E]) (use that assms in auto)
  show "spec True b d (Suc 0) (class_member D k acc)" "spec True b d (Suc 0) (match_item D k acc')"
    "spec True b d (Suc 0) (select_item D k acc'')"
    unfolding class_member_def match_item_def select_item_def select_channel_def case_prod_beta
    by (auto intro!: expr_rules B F spec_simple spec_unexpected_item) (use assms(2,3) in auto)
qed

lemma spec_containers:
  assumes D: "\<And>b d. d \<le> E \<Longrightarrow> spec True b d (Suc 0) D" and "E < k" and "d \<le> E"
  shows "spec e (Suc b) d 0 (classDeclaration D k)" "spec e (Suc b) d 0 (matchStmt D k)"
    "spec e (Suc b) d 0 (selectStmt D k)"
proof -
  have U: "spec e (Suc b) d' 0 (until_brace (class_member D k) k x)"
    "spec e (Suc b) d' 0 (until_brace (match_item D k) k y)"
    "spec e (Suc b) d' 0 (until_brace (select_item D k) k z)" if "d' \<le> E" for e b d' x y z
    by (rule spec_until_brace [where D = E], rule spec_items [where E = E], use that assms in auto)+
  show "spec e (Suc b) d 0 (classDeclaration D k)" "spec e (Suc b) d 0 (matchStmt D k)"
    "spec e (Suc b) d 0 (selectStmt D k)"
    unfolding classDeclaration_def matchStmt_def selectStmt_def
    by (auto intro!: expr_rules U) (use assms(2,3) in auto)
qed

lemma spec_declaration_body:
  assumes D: "\<And>b d. d < E \<Longrightarrow> spec True b d (Suc 0) D" and "E < k" and "d \<le> E"
  shows "spec e b d (Suc 0) (declaration_body D k)"
proof (cases "d = 0")
  case True
  show ?thesis
    unfolding declaration_body_def statement_def
    by (auto intro!: parse_rules spec_simple) (use assms(2) True in auto)
next
  case False
  have blocks: "spec e (Suc b) d' 0 (ifStmt D k)" "spec e (Suc b) d' 0 (whileStmt D k)"
    "spec e (Suc b) d' 0 (forStmt D k)" "spec e (Suc b) d' 0 (functionDeclaration D k)"
    "spec e (Suc b) d' 0 (classDeclaration D k)" "spec e (Suc b) d' 0 (matchStmt D k)"
    "spec e (Suc b) d' 0 (selectStmt D k)" "spec e (Suc b) d' 0 (blockStmt D k)"
    if "d' < E" for e b d'
    by (rule spec_blocks [where E = "E - 1"] spec_containers [where E = "E - 1"]
        spec_blockStmt [where E = "E - 1"]; use that assms in auto)+
  show ?thesis
    unfolding declaration_body_def statement_def
    by (auto intro!: parse_rules blocks spec_simple) (use assms(2,3) False in auto)
qed

lemma spec_recover: "d < k \<Longrightarrow> spec e (Suc b) d 0 (recover k what)"
  unfolding recover_def by (auto intro!: parse_rules spec_synchronize)

lemma spec_declaration: "d < n \<Longrightarrow> d < k \<Longrightarrow> spec True b d (Suc 0) (declaration_stmt k n)"
proof (induction n arbitrary: b d)
  case (Suc n)
  define m where "m = pbind (declaration_body (declaration_stmt k n) k) (\<lambda>s. ret (Some s))"
  have m: "spec True b d (Suc 0) m"
    unfolding m_def
    by (intro spec_bind1 spec_declaration_body [where E = d] Suc.IH spec_ret) (use Suc.prems in auto)
  show ?case
  proof (rule specI)
    fix s assume s: "wf_parser s" "b \<le> pcurrent s" "tokens_left s \<le> d" "True \<longrightarrow> \<not> at_end s"
    have eq: "declaration_stmt k (Suc n) s = try_catch m (recover k) s" by (simp add: m_def)
    from specD [OF m s]
    have "case try_catch m (recover k) s of
        Ret x t \<Rightarrow> R s t \<and> advanced s t \<and> pcurrent s + Suc 0 \<le> pcurrent t
      | Throw msg t \<Rightarrow> R s t \<and> advanced s t | _ \<Rightarrow> False"
    proof (elim disjE exE conjE)
      fix msg t assume t: "m s = Throw msg t" "R s t" "advanced s t"
      note wf = advanced_wf [OF t(3) s(1)]
      show ?thesis
      proof (cases "pcurrent s < pcurrent t")
        case True
        have "tokens_left t \<le> d" using t(3) s(3) by (auto simp: advanced_def tokens_left_def)
        from specD [OF spec_recover [OF Suc.prems(2), of False 0 msg] wf _ this] True t
        show ?thesis
          by (auto simp: try_catch_def advanced_def intro: R_trans)
      next
        case False
        then have same: "pcurrent t = pcurrent s" "ptokens t = ptokens s" "\<not> at_end t"
          using t(3) s(4) by (auto simp: advanced_def at_end_def)
        have "spec True b d (Suc 0) (recover k msg)"
          unfolding recover_def
          by (intro spec_bind1 spec_synchronize_first spec_bind0 spec_peek spec_report spec_ret)
             (use Suc.prems(2) in auto)
        from specD [OF this wf] same s t show ?thesis
          by (auto simp: try_catch_def advanced_def tokens_left_def intro: R_trans)
      qed
    qed (simp add: try_catch_def)
    then show "case declaration_stmt k (Suc n) s of
        Ret x t \<Rightarrow> R s t \<and> advanced s t \<and> pcurrent s + Suc 0 \<le> pcurrent t
      | Throw msg t \<Rightarrow> R s t \<and> advanced s t | _ \<Rightarrow> False"
      unfolding eq .
  qed
qed simp

lemma spec_parse_loop: "d < n \<Longrightarrow> d < k \<Longrightarrow> spec e b d 0 (parse_loop k n acc)"
proof (induction n arbitrary: e b d acc)
  case (Suc n)
  show ?case
  proof (rule specI)
    fix s assume s: "wf_parser s" "b \<le> pcurrent s" "tokens_left s \<le> d" "e \<longrightarrow> \<not> at_end s"
    show "case parse_loop k (Suc n) acc s of
        Ret x t \<Rightarrow> R s t \<and> advanced s t \<and> pcurrent s + 0 \<le> pcurrent t
      | Throw msg t \<Rightarrow> R s t \<and> advanced s t | _ \<Rightarrow> False"
    proof (cases "at_end s")
      case True
      then show ?thesis using s(1) by (simp add: pbind_def ret_def R_refl advanced_refl)
    next
      case False
      define f where "f x = parse_loop k n (case x of None \<Rightarrow> acc | Some y \<Rightarrow> acc @ [y])" for x
      have eq: "parse_loop k (Suc n) acc s = pbind (declaration_stmt k k) f s"
        using False s(1) by (simp add: pbind_def f_def cong: outcome.case_cong)
      have "0 < d" using not_at_end_left [OF s(1) False] s(3) by simp
      then have "spec True b d (Suc 0 + 0) (pbind (declaration_stmt k k) f)"
        unfolding f_def
        by (intro spec_bind spec_declaration Suc.IH) (use Suc.prems in auto)
      from specD [OF this s(1-3)] False show ?thesis unfolding eq by auto
    qed
  qed
qed simp

end

section \<open>What a run of the parser adds to the error lists\<close>

text \<open>\<open>error_growth s t\<close>: both error lists have grown, the contexts recorded are, in order, the
  unexpected-token errors reported to the handler, and none of them is marked fatal.\<close>

definition error_growth :: "parser \<Rightarrow> parser \<Rightarrow> bool" where
  "error_growth s t \<longleftrightarrow>
     (\<exists>es cs. errors (phandler t) = errors (phandler s) @ es \<and> perrors t = perrors s @ cs
        \<and> map ctx_message cs
            = map emessage (filter (\<lambda>e. ecode e = Syntax S001_UNEXPECTED_TOKEN) es)
        \<and> list_all (\<lambda>c. \<not> ctx_isFatal c) cs)"

lemma error_growth_trans: "error_growth s t \<Longrightarrow> error_growth t u \<Longrightarrow> error_growth s u"
  unfolding error_growth_def
proof (elim exE conjE, goal_cases)
  case (1 es es' cs cs')
  then show ?case by (intro exI [of _ "es @ es'"] exI [of _ "cs @ cs'"]) auto
qed

interpretation pe: parser_relation error_growth
proof (unfold_locales, goal_cases)
  case (1 s)
  then show ?case by (simp add: error_growth_def)
next
  case (2 s t u)
  then show ?case by (rule error_growth_trans)
next
  case (3 s n)
  then show ?case by (simp add: error_growth_def)
next
  case (4 ec msg tok sev s t)
  then show ?case by (auto simp: error_growth_def preport_def record_error_def Let_def)
next
  case (5 tok msg s t)
  then show ?case
    by (auto simp: error_growth_def perror_def preport_def recordError_def pbind_def
        record_error_def Let_def)
qed

section \<open>parse is total\<close>

text \<open>The computations that cannot throw.\<close>

definition no_throw :: "'a parse \<Rightarrow> bool" where
  "no_throw m \<longleftrightarrow> (\<forall>s e t. m s \<noteq> Throw e t)"

lemma no_throw_basic [parse_rules]:
  "no_throw (ret x)" "no_throw no_fuel" "no_throw ppeek" "no_throw pprevious" "no_throw pnext"
  "no_throw (preport ec msg tok sev)" "no_throw (program xs)"
  by (auto simp: no_throw_def ret_def no_fuel_def ppeek_def pprevious_def pnext_def preport_def
      program_def)

lemma no_throw_bind [parse_rules]: "no_throw m \<Longrightarrow> (\<And>x. no_throw (f x)) \<Longrightarrow> no_throw (pbind m f)"
  by (auto simp: no_throw_def pbind_def split: outcome.splits)

lemma no_throw_if [parse_rules]: "no_throw m \<Longrightarrow> no_throw m' \<Longrightarrow> no_throw (if b then m else m')"
  by simp

lemma no_throw_catch [parse_rules]: "(\<And>e. no_throw (h e)) \<Longrightarrow> no_throw (try_catch m h)"
  by (auto simp: no_throw_def try_catch_def split: outcome.splits)

lemma no_throw_sync_loop [parse_rules]: "no_throw (sync_loop n)"
  by (induction n) (auto simp: pisAtEnd_def padvance_def intro!: parse_rules)

lemma no_throw_declaration [parse_rules]: "no_throw (declaration_stmt k n)"
  by (cases n) (auto simp: recover_def synchronize_def pisAtEnd_def padvance_def intro!: parse_rules)

lemma no_throw_parse_loop [parse_rules]: "no_throw (parse_loop k n acc)"
  by (induction n arbitrary: acc) (auto simp: pisAtEnd_def intro!: parse_rules)

lemma parse_loop_at_end: "parse_loop k n acc s = Ret x t \<Longrightarrow> wf_parser s \<Longrightarrow> d = tokens_left s \<Longrightarrow>
    d < n \<Longrightarrow> n \<le> k \<Longrightarrow> at_end t"
proof (induction n arbitrary: acc s d)
  case (Suc n)
  show ?case
  proof (cases "at_end s")
    case True
    with Suc.prems show ?thesis by (simp add: pbind_def ret_def)
  next
    case False
    have "tokens_left s < k" using Suc.prems by simp
    then have "pe.spec True 0 (tokens_left s) (Suc 0) (declaration_stmt k k)"
      by (rule pe.spec_declaration [OF _ \<open>tokens_left s < k\<close>])
    from pe.specD [OF this Suc.prems(2)] False obtain y u where u:
      "declaration_stmt k k s = Ret y u" "advanced s u" "pcurrent s < pcurrent u"
      using no_throw_declaration [of k k] by (auto simp: no_throw_def)
    have "parse_loop k n (case y of None \<Rightarrow> acc | Some x \<Rightarrow> acc @ [x]) u = Ret x t"
      using Suc.prems(1,2) False u(1) by (simp add: pbind_def cong: outcome.case_cong)
    moreover have "tokens_left u < n"
      using u Suc.prems(3,4) not_at_end_left [OF Suc.prems(2) False]
      by (auto simp: tokens_left_def advanced_def)
    ultimately show ?thesis
      using Suc.IH [OF _ advanced_wf [OF u(2) Suc.prems(2)] refl] Suc.prems(5) by simp
  qed
qed (simp add: no_fuel_def)

lemma wf_new_Parser: "ends_with_eof ts \<Longrightarrow> wf_parser (new_Parser ts)"
  by (simp add: wf_parser_def new_Parser_def ends_with_eof_def)

lemma parse_result:
  assumes "ends_with_eof ts"
  obtains r t where "parse (new_Parser ts) = Ret (Some r) t" "error_growth (new_Parser ts) t"
    "ptokens t = ts" "at_end t" "pcurrent t < length ts"
proof -
  define s k where "s = new_Parser ts" and "k = Suc (length ts)"
  have wf: "wf_parser s" unfolding s_def using assms by (rule wf_new_Parser)
  have d: "tokens_left s < k" by (simp add: tokens_left_def s_def k_def new_Parser_def)
  from pe.specD [OF pe.spec_parse_loop [OF d d, of False 0 "[]"] wf]
  obtain xs t where t: "parse_loop k k [] s = Ret xs t" "error_growth s t" "advanced s t"
    using no_throw_parse_loop [of k k "[]"] by (auto simp: no_throw_def)
  have "at_end t" using parse_loop_at_end [OF t(1) wf refl d] by simp
  moreover have "\<exists>r. parse s = Ret (Some r) t"
    using t(1) by (simp add: parse_def parse_with_def s_def k_def new_Parser_def try_catch_def
        pbind_def program_def)
  ultimately show ?thesis
    using that t by (auto simp: s_def advanced_def new_Parser_def)
qed

text \<open>C2: on every token vector that ends with an end-of-file token, \<open>parse\<close> returns a program (never
  the null pointer), having read up to an end-of-file token and never outside the vector;
  no exception leaves it and the fuel is never used up.\<close>

theorem parse_total:
  assumes "ends_with_eof ts"
  shows "\<exists>r t. parse (new_Parser ts) = Ret (Some r) t \<and> ptokens t = ts
    \<and> pcurrent t < length ts \<and> ttype (ts ! pcurrent t) = Special EOF_TOKEN"
  using parse_result [OF assms] by (metis at_end_def)

text \<open>The tokens of \<open>x y;\<close>, which has a missing semicolon.\<close>

definition two_names :: "token list" where
  "two_names = [Token (Lit IDENTIFIER) ''x'' ''m.to'' 1 1, Token (Lit IDENTIFIER) ''y'' ''m.to'' 1 3,
     Token (Single SEMI_COLON) '';'' ''m.to'' 1 4, Token (Special EOF_TOKEN) [] ''m.to'' 1 5]"

lemma two_names_eof: "ends_with_eof two_names"
  by (simp add: two_names_def ends_with_eof_def)

lemma parse_total_witness:
  "\<exists>r t. parse (new_Parser two_names) = Ret (Some r) t \<and> pcurrent t < length two_names"
  using parse_total [OF two_names_eof] by blast

text \<open>The list that \<open>Parser::getErrors\<close> returns is, in order, the unexpected-token errors reported
  to the handler, and \<open>Parser::hasFatalErrors\<close> is never true.\<close>

theorem parse_error_contexts:
  assumes "ends_with_eof ts" and "parse (new_Parser ts) = Ret r t"
  shows "map ctx_message (perrors t)
      = map emessage (filter (\<lambda>e. ecode e = Syntax S001_UNEXPECTED_TOKEN) (errors (phandler t)))
    \<and> \<not> hasFatalContexts t"
proof -
  obtain r' t' where "parse (new_Parser ts) = Ret (Some r') t'" "error_growth (new_Parser ts) t'"
    using parse_result [OF assms(1)] by metis
  with assms(2) have "error_growth (new_Parser ts) t" by simp
  then show ?thesis
    by (auto simp: error_growth_def new_Parser_def new_ErrorHandler_def hasFatalContexts_def
        list_all_iff list_ex_iff)
qed

lemma parse_error_contexts_witness:
  "\<exists>r t. parse (new_Parser two_names) = Ret r t \<and> \<not> hasFatalContexts t"
proof -
  obtain r t where "parse (new_Parser two_names) = Ret r t"
    using parse_result [OF two_names_eof] by metis
  then show ?thesis using parse_error_contexts [OF two_names_eof] by blast
qed

end
