(* ===== verification/Tocin_Parser_Shape.thy ===== *)
theory Tocin_Parser_Shape
  imports Tocin_Parser
begin

text \<open>
  Which trees \<open>src/parser/parser.cpp\<close> builds: the node classes, operators and literal texts that
  occur in the result of \<open>parse\<close>. The phases after the parser rely on this, or fail to.
\<close>

section \<open>The trees\<close>

definition binary_operators :: "TokenType list" where
  "binary_operators = [Logic OR, Logic AND, Op EQUAL_EQUAL, Op BANG_EQUAL, Op LESS, Op LESS_EQUAL,
     Op GREATER, Op GREATER_EQUAL, Op PLUS, Op MINUS, Op STAR, Op SLASH, Op PERCENT]"

definition unary_operators :: "TokenType list" where
  "unary_operators = [Op BANG, Op MINUS]"

definition literal_text :: "string \<Rightarrow> LiteralType \<Rightarrow> token \<Rightarrow> bool" where
  "literal_text v k t =
     (case k of
        BOOLEAN \<Rightarrow> v = ''true'' \<and> ttype t = Kw TRUE \<or> v = ''false'' \<and> ttype t = Kw FALSE
      | NIL_LITERAL \<Rightarrow> v = ''None'' \<and> ttype t = Kw NIL
      | INTEGER \<Rightarrow> v = lexeme t \<and> ttype t = Lit INT_LIT
      | FLOAT \<Rightarrow> v = lexeme t \<and> ttype t \<in> {Lit FLOAT64, Lit FLOAT32}
      | STRING_LITERAL \<Rightarrow> v = lexeme t \<and> ttype t = Lit STRING)"

primrec parsed_expr :: "expr \<Rightarrow> bool" where
  "parsed_expr (BinaryExpr t l op r) =
     (ttype op \<in> set binary_operators \<and> parsed_expr l \<and> parsed_expr r)"
| "parsed_expr (GroupingExpr t e) = parsed_expr e"
| "parsed_expr (LiteralExpr t v k) = literal_text v k t"
| "parsed_expr (UnaryExpr t op e) = (ttype op \<in> set unary_operators \<and> parsed_expr e)"
| "parsed_expr (VariableExpr t n) = (ttype t = Lit IDENTIFIER \<and> n = lexeme t)"
| "parsed_expr (AssignExpr t n tg v) = (parsed_expr v \<and> ttype t = Op EQUAL \<and> (\<exists>u. tg = VariableExpr u n))"
| "parsed_expr (CallExpr t c as) = (parsed_expr c \<and> list_all id (map parsed_expr as))"
| "parsed_expr (GetExpr t e n) = parsed_expr e"
| "parsed_expr (SetExpr t e n v) = (parsed_expr e \<and> parsed_expr v)"
| "parsed_expr (ListExpr t es) = list_all id (map parsed_expr es)"
| "parsed_expr (DictionaryExpr t es) =
     list_all (\<lambda>p. fst p \<and> snd p) (map (map_prod parsed_expr parsed_expr) es)"
| "parsed_expr (LambdaExpr t ps r b) = False"
| "parsed_expr (AwaitExpr t e) = parsed_expr e"
| "parsed_expr (NewExpr t e sz) = (parsed_expr e \<and> pred_option id (map_option parsed_expr sz))"
| "parsed_expr (DeleteExpr t e) = parsed_expr e"
| "parsed_expr (StringInterpolationExpr t ps es) = False"
| "parsed_expr (ChannelSendExpr t c v) = (parsed_expr c \<and> parsed_expr v)"
| "parsed_expr (ChannelReceiveExpr t c) = (parsed_expr c \<and> ttype t = Kw3 CHANNEL_RECEIVE)"
| "parsed_expr (ArrayLiteralExpr t es) = False"

primrec parsed_stmt :: "stmt \<Rightarrow> bool" where
  "parsed_stmt (ExpressionStmt t e) = parsed_expr e"
| "parsed_stmt (VariableStmt t n ty i c) = pred_option parsed_expr i"
| "parsed_stmt (BlockStmt t ss) = list_all (pred_option id) (map (map_option parsed_stmt) ss)"
| "parsed_stmt (IfStmt t c th els el) =
     (parsed_expr c \<and> parsed_stmt th \<and> list_all (\<lambda>p. parsed_expr (fst p) \<and> snd p) (map (map_prod id parsed_stmt) els)
      \<and> pred_option id (map_option parsed_stmt el))"
| "parsed_stmt (WhileStmt t c b) = (parsed_expr c \<and> parsed_stmt b)"
| "parsed_stmt (ForStmt t v ty i b) = (parsed_expr i \<and> parsed_stmt b)"
| "parsed_stmt (FunctionStmt t n tps ps r b isAsync) = (tps = [] \<and> parsed_stmt b)"
| "parsed_stmt (ReturnStmt t v) = pred_option parsed_expr v"
| "parsed_stmt (ClassStmt t n tps sc ifs fs ms) =
     (tps = [] \<and> sc = None \<and> ifs = [] \<and> list_all id (map parsed_stmt fs) \<and> list_all id (map parsed_stmt ms))"
| "parsed_stmt (ImportStmt t m all syms al) = (all \<and> syms = [])"
| "parsed_stmt (ExportStmt t syms all d) = False"
| "parsed_stmt (ModuleStmt t n b) = False"
| "parsed_stmt (MatchStmt t v cs d) =
     (parsed_expr v \<and> list_all (\<lambda>p. parsed_expr (fst p) \<and> snd p) (map (map_prod id parsed_stmt) cs)
      \<and> pred_option id (map_option parsed_stmt d))"
| "parsed_stmt (SelectStmt t cs) =
     list_all (\<lambda>c. pred_option parsed_expr (fst c) \<and> fst (snd c)) (map (map_prod id (map_prod parsed_stmt id)) cs)"
| "parsed_stmt (GoStmt t e) = parsed_expr e"
| "parsed_stmt (TraitStmt t n ms st at) = False"
| "parsed_stmt (ImplStmt t n ty ms) = False"

section \<open>The judgement\<close>

text \<open>\<open>yields P m\<close>: every value that \<open>m\<close> returns satisfies \<open>P\<close>. \<open>after tys P m\<close>: so does every value it
  returns when the token before the cursor has one of the types \<open>tys\<close>.\<close>

definition yields :: "('a \<Rightarrow> bool) \<Rightarrow> 'a parse \<Rightarrow> bool" where
  "yields P m \<longleftrightarrow> (\<forall>s x t. m s = Ret x t \<longrightarrow> P x)"

definition prev_in :: "TokenType list \<Rightarrow> parser \<Rightarrow> bool" where
  "prev_in tys s \<longleftrightarrow> (\<exists>x. pprevious s = Ret x s \<and> ttype x \<in> set tys)"

definition after :: "TokenType list \<Rightarrow> ('a \<Rightarrow> bool) \<Rightarrow> 'a parse \<Rightarrow> bool" where
  "after tys P m \<longleftrightarrow> (\<forall>s x t. prev_in tys s \<longrightarrow> m s = Ret x t \<longrightarrow> P x)"

named_theorems shape \<open>what each production returns\<close>

lemma yieldsI: "(\<And>s x t. m s = Ret x t \<Longrightarrow> P x) \<Longrightarrow> yields P m"
  and yieldsD: "yields P m \<Longrightarrow> m s = Ret x t \<Longrightarrow> P x"
  by (auto simp: yields_def)

lemma after_yields [shape]: "yields P m \<Longrightarrow> after tys P m"
  by (simp add: yields_def after_def)

lemma after_previous: "(\<And>op. ttype op \<in> set tys \<Longrightarrow> yields P (f op)) \<Longrightarrow> after tys P (pbind pprevious f)"
  by (fastforce simp: after_def prev_in_def pbind_def dest: yieldsD)

lemma yields_ret [shape]: "P x \<Longrightarrow> yields P (ret x)"
  and yields_throw [shape]: "yields P (throw e)" and yields_no_fuel [shape]: "yields P no_fuel"
  by (auto simp: yields_def ret_def throw_def no_fuel_def)

lemma yields_bind:
  assumes "yields Q m" and "\<And>x. Q x \<Longrightarrow> yields P (f x)"
  shows "yields P (pbind m f)"
  by (rule yieldsI) (auto simp: pbind_def split: outcome.splits dest: assms [THEN yieldsD])

lemma yields_True: "yields (\<lambda>_. True) m"
  by (simp add: yields_def)

lemma yields_skip: "(\<And>x. yields P (f x)) \<Longrightarrow> yields P (pbind m f)"
  by (rule yields_bind [OF yields_True])

lemma yields_cond [shape]: "(b \<Longrightarrow> yields P m) \<Longrightarrow> (\<not> b \<Longrightarrow> yields P m') \<Longrightarrow> yields P (if b then m else m')"
  by simp

lemma yields_try [shape]: "yields P m \<Longrightarrow> (\<And>e. yields P (h e)) \<Longrightarrow> yields P (try_catch m h)"
  by (auto simp: yields_def try_catch_def split: outcome.splits)

lemma pmatch_prev: "pmatch ty s = Ret True t \<Longrightarrow> prev_in [ty] t"
  by (auto simp: pmatch_def pcheck_def pisAtEnd_def padvance_def pbind_def ret_def ppeek_def
      pnext_def pprevious_def prev_in_def split: outcome.splits if_splits)

lemma match_any_prev: "match_any tys s = Ret True t \<Longrightarrow> prev_in tys t"
proof (induction tys arbitrary: s)
  case (Cons ty tys)
  then show ?case
    using pmatch_prev [of ty s t]
    by (auto simp: pbind_def ret_def prev_in_def split: outcome.splits if_splits)
qed (simp add: ret_def)

lemma yields_if_match [shape]:
  assumes "after tys P A" and "yields P B"
  shows "yields P (if_match tys A B)"
  using assms
  by (auto simp: yields_def after_def if_match_def pbind_def split: outcome.splits if_splits
      dest: match_any_prev)

lemma yields_sep_list:
  "yields P item \<Longrightarrow> list_all P acc \<Longrightarrow> yields (list_all P) (sep_list sep item n acc)"
  by (induction n arbitrary: acc) (auto intro!: shape intro: yields_bind)

lemma yields_comma_list [shape]: "yields P item \<Longrightarrow> yields (list_all P) (comma_list close item k)"
  by (auto simp: comma_list_def intro!: shape yields_skip yields_sep_list)

lemma yields_until_brace:
  assumes "\<And>x. P x \<Longrightarrow> yields P (body x)"
  shows "P acc \<Longrightarrow> yields P (until_brace body n acc)"
proof (induction n arbitrary: acc)
  case (Suc n)
  show ?case
    unfolding until_brace.simps
    by (rule yields_skip, rule yields_skip, rule yields_cond,
        rule yields_bind [OF assms [OF Suc.prems]], erule Suc.IH, rule yields_ret, rule Suc.prems)
qed (simp add: shape)

section \<open>Expressions\<close>

lemma list_all_map_id [simp]: "list_all id (map f xs) = list_all f xs"
  by (simp add: list_all_iff)

text \<open>The contract of the parser of nested expressions that the productions take.\<close>

locale nested_parser =
  fixes E :: "expr parse"
  assumes E: "yields parsed_expr E"
begin

lemma yields_grouping [shape]: "yields parsed_expr (grouping E)"
  unfolding grouping_def by (rule yields_bind [OF E], rule yields_skip, rule yields_ret) simp

lemma yields_list [shape]: "yields parsed_expr (list_literal E k)"
  unfolding list_literal_def
  by (rule yields_bind [OF yields_comma_list [OF E]], rule yields_skip, rule yields_ret) simp

lemma yields_entry: "yields (\<lambda>p. parsed_expr (fst p) \<and> parsed_expr (snd p)) (dictionary_entry E)"
  unfolding dictionary_entry_def
  by (rule yields_bind [OF E], rule yields_skip, rule yields_bind [OF E], rule yields_ret) simp

lemma yields_dictionary [shape]: "yields parsed_expr (dictionary_literal E k)"
  unfolding dictionary_literal_def
  by (rule yields_bind [OF yields_comma_list [OF yields_entry]], rule yields_skip, rule yields_ret)
     (simp add: list_all_iff)

lemma yields_lambda [shape]: "yields parsed_expr (lambda_expr E T k)"
  unfolding lambda_expr_def by (auto intro!: yields_skip yields_throw)

lemma yields_primary [shape]: "yields parsed_expr (primary E T k)"
  unfolding primary_def literal_def number_literal_def string_literal_def variable_def no_primary_def
  by (auto intro!: shape after_previous yields_skip simp: literal_text_def)

lemma yields_call_loop: "parsed_expr e \<Longrightarrow> yields parsed_expr (call_loop E k n e)"
proof (induction n arbitrary: e)
  case (Suc n)
  show ?case
    unfolding call_loop.simps
    by (intro yields_if_match after_yields yields_bind [OF yields_comma_list [OF E]] yields_skip [where m = "consume _ _"]
        yields_bind [OF E] yields_skip [where m = pprevious] Suc.IH yields_ret)
       (use Suc.prems in simp_all)
qed (simp add: shape)

lemma yields_call [shape]: "yields parsed_expr (call E T k)"
  unfolding call_def by (rule yields_bind [OF yields_primary]) (rule yields_call_loop)

lemma yields_new [shape]: "yields parsed_expr (newExpr E T k)"
  unfolding newExpr_def
  by (intro yields_skip [where m = pprevious] yields_bind [OF yields_primary] yields_if_match
      after_yields yields_bind [OF E] yields_skip [where m = "consume _ _"] yields_ret) simp_all

lemma yields_delete [shape]: "yields parsed_expr (deleteExpr E T k)"
  unfolding deleteExpr_def
  by (intro yields_skip [where m = pprevious] yields_bind [OF yields_primary] yields_ret) simp

lemma after_receive: "after [Kw3 CHANNEL_RECEIVE] parsed_expr (channelReceiveExpr E)"
  unfolding channelReceiveExpr_def
  by (intro after_previous yields_bind [OF E] yields_ret) simp

lemma yields_unary: "yields parsed_expr (unary E T k n)"
proof (induction n)
  case (Suc n)
  have op: "after [Op BANG, Op MINUS] parsed_expr
      (pbind pprevious (\<lambda>op. pbind (unary E T k n) (\<lambda>right. ret (UnaryExpr op op right))))"
    by (intro after_previous yields_bind [OF Suc] yields_ret) (simp add: unary_operators_def)
  have aw: "yields parsed_expr (pbind (unary E T k n) (\<lambda>e. pbind pprevious (\<lambda>token. ret (AwaitExpr token e))))"
    by (intro yields_bind [OF Suc] yields_skip [where m = pprevious] yields_ret) simp
  show ?case
    unfolding unary.simps
    by (intro yields_if_match op after_yields [OF aw] after_receive after_yields [OF yields_new]
        after_yields [OF yields_delete] yields_call)
qed (simp add: shape)

lemma yields_binary_loop:
  assumes "set ops \<subseteq> set binary_operators" and X: "yields parsed_expr operand"
  shows "parsed_expr e \<Longrightarrow> yields parsed_expr (binary_loop ops operand n e)"
proof (induction n arbitrary: e)
  case (Suc n)
  show ?case
    unfolding binary_loop.simps
    by (intro yields_if_match after_previous yields_bind [OF X] Suc.IH yields_ret Suc.prems)
       (use Suc.prems assms(1) in auto)
qed (simp add: shape)

lemma yields_level:
  assumes "set ops \<subseteq> set binary_operators" and "yields parsed_expr operand"
  shows "yields parsed_expr (pbind operand (binary_loop ops operand k))"
  by (rule yields_bind [OF assms(2)]) (rule yields_binary_loop [OF assms])

lemma yields_orExpr: "yields parsed_expr (orExpr E T k)"
  unfolding orExpr_def andExpr_def equality_def comparison_def term_expr_def factor_def
  by (intro yields_level yields_unary) (simp_all add: binary_operators_def)

lemma after_assign_to:
  "parsed_expr e \<Longrightarrow> parsed_expr v \<Longrightarrow> ttype t = Op EQUAL \<Longrightarrow> yields parsed_expr (assign_to t e v)"
  by (cases e) (auto simp: assign_to_def new_AssignExpr_def intro!: shape yields_skip)

end

lemma yields_assignment: "yields parsed_expr (assignment k n)"
proof (induction n)
  case (Suc n)
  have nested: "nested_parser (assignment k n)" by (rule nested_parser.intro) (rule Suc)
  show ?case
    unfolding assignment.simps
    by (rule yields_bind [OF nested_parser.yields_orExpr [OF nested]], rule yields_if_match, rule after_previous,
        rule yields_bind [OF Suc], rule nested_parser.after_assign_to [OF nested]) (auto intro: yields_ret)
qed (simp add: shape)

lemma yields_expression [shape]: "yields parsed_expr (expression k)"
  unfolding expression_def by (rule yields_assignment)

interpretation expr: nested_parser "expression k" for k
  by unfold_locales (rule yields_expression)

section \<open>Statements\<close>

text \<open>The parser of the declarations inside a block: null, or a statement of the right shape.\<close>

abbreviation shaped_option :: "stmt option \<Rightarrow> bool" where
  "shaped_option \<equiv> pred_option parsed_stmt"

lemma pred_option_id [simp]: "pred_option id (map_option f x) = pred_option f x"
  by (cases x) simp_all

lemma list_all_option [simp]:
  "list_all (pred_option id) (map (map_option f) xs) = list_all (pred_option f) xs"
  by (simp add: list_all_iff)

abbreviation shaped_case :: "expr \<times> stmt \<Rightarrow> bool" where
  "shaped_case p \<equiv> parsed_expr (fst p) \<and> parsed_stmt (snd p)"

lemma yields_optional:
  "yields P m \<Longrightarrow> yields (pred_option P) (if_match tys (pbind m (\<lambda>x. ret (Some x))) (ret None))"
  by (intro yields_if_match after_yields yields_bind [of P m] yields_ret) simp_all

lemma yields_varDeclaration [shape]: "yields parsed_stmt (varDeclaration k)"
  unfolding varDeclaration_def
  by (intro yields_skip [where m = pprevious] yields_skip [where m = "consume _ _"]
      yields_skip [where m = "if_match [Single COLON] _ _"]
      yields_bind [OF yields_optional [OF yields_expression]] yields_ret) simp

lemma yields_expressionStmt [shape]: "yields parsed_stmt (expressionStmt k)"
  unfolding expressionStmt_def
  by (intro yields_bind [OF yields_expression] yields_skip [where m = "consume _ _"] yields_ret) simp

lemma yields_returnStmt [shape]: "yields parsed_stmt (returnStmt k)"
proof -
  have v: "yields (pred_option parsed_expr)
      (if \<not> c then pbind (expression k) (\<lambda>e. ret (Some e)) else ret None)" for c
    by (intro yields_cond yields_bind [OF yields_expression] yields_ret) simp_all
  show ?thesis
    unfolding returnStmt_def
    by (intro yields_skip [where m = pprevious] yields_skip [where m = "pcheck _"] yields_bind [OF v]
        yields_skip [where m = "consume _ _"] yields_ret) simp
qed

lemma yields_importStmt [shape]: "yields parsed_stmt importStmt"
  unfolding importStmt_def by (intro yields_skip yields_ret) (simp add: new_ImportStmt_def)

lemma yields_goStmt [shape]: "yields parsed_stmt (goStmt k)"
  unfolding goStmt_def
  by (intro yields_skip [where m = pprevious] yields_skip [where m = "consume _ _"]
      yields_bind [OF yields_expression] yields_ret) simp

locale nested_statements =
  fixes D :: "stmt option parse"
  assumes D: "yields shaped_option D"
begin

lemma yields_block [shape]: "yields parsed_stmt (blockStmt D k)"
proof -
  have u: "yields (list_all shaped_option) (until_brace (\<lambda>acc. pbind D (\<lambda>s. ret (acc @ [s]))) k [])"
    by (rule yields_until_brace, rule yields_bind [OF D], rule yields_ret) simp_all
  show ?thesis
    unfolding blockStmt_def
    by (rule yields_bind [OF u], rule yields_skip, rule yields_skip, rule yields_ret) simp
qed

lemma yields_elif_loop: "list_all shaped_case acc \<Longrightarrow> yields (list_all shaped_case) (elif_loop D k n acc)"
proof (induction n arbitrary: acc)
  case (Suc n)
  show ?case
    unfolding elif_loop.simps
    by (intro yields_if_match after_yields yields_bind [OF yields_expression]
        yields_skip [where m = "consume _ _"] yields_bind [OF yields_block] Suc.IH yields_ret)
       (use Suc.prems in simp_all)
qed (simp add: shape)

lemma yields_if [shape]: "yields parsed_stmt (ifStmt D k)"
proof -
  have el: "yields shaped_option (if_match [Kw ELSE]
      (pbind (consume (Single LEFT_BRACE) m) (\<lambda>_. pbind (blockStmt D k) (\<lambda>b. ret (Some b)))) (ret None))" for m
    by (intro yields_if_match after_yields yields_skip [where m = "consume _ _"]
        yields_bind [OF yields_block] yields_ret) simp_all
  show ?thesis
    unfolding ifStmt_def
    by (intro yields_bind [OF yields_expression] yields_skip [where m = "consume _ _"]
        yields_bind [OF yields_block] yields_bind [OF yields_elif_loop] yields_bind [OF el] yields_ret)
       (simp_all add: list_all_iff)
qed

lemma yields_while [shape]: "yields parsed_stmt (whileStmt D k)"
  unfolding whileStmt_def
  by (intro yields_bind [OF yields_expression] yields_skip [where m = "consume _ _"]
      yields_bind [OF yields_block] yields_ret) simp

lemma yields_for [shape]: "yields parsed_stmt (forStmt D k)"
  unfolding forStmt_def
  by (intro yields_skip [where m = "consume _ _"] yields_skip [where m = "if_match _ _ _"]
      yields_bind [OF yields_expression] yields_bind [OF yields_block] yields_ret) simp

lemma yields_function [shape]: "yields parsed_stmt (functionDeclaration D k)"
  unfolding functionDeclaration_def Let_def
  by ((rule yields_bind [OF yields_block] yields_skip)+, rule yields_ret)
     (simp add: new_FunctionStmt_def)

lemma yields_unexpected [shape]: "P acc \<Longrightarrow> yields P (unexpected_item msg acc)"
  unfolding unexpected_item_def by (intro yields_skip yields_ret)

lemma yields_class [shape]: "yields parsed_stmt (classDeclaration D k)"
proof -
  let ?P = "\<lambda>(fs, ms). list_all parsed_stmt fs \<and> list_all parsed_stmt ms"
  have "yields ?P (class_member D k acc)" if "?P acc" for acc
    using that unfolding class_member_def case_prod_beta
    by (intro yields_if_match after_yields yields_bind [OF yields_varDeclaration]
        yields_bind [OF yields_function] yields_ret yields_unexpected) auto
  then have u: "yields ?P (until_brace (class_member D k) k ([], []))"
    by (rule yields_until_brace) simp_all
  show ?thesis
    unfolding classDeclaration_def
    by (rule yields_skip, rule yields_skip, rule yields_bind [OF u], rule yields_skip, rule yields_ret)
       (auto simp: new_ClassStmt_def)
qed

lemma yields_match [shape]: "yields parsed_stmt (matchStmt D k)"
proof -
  let ?P = "\<lambda>p. list_all shaped_case (fst p) \<and> shaped_option (snd p)"
  have "yields ?P (match_item D k acc)" if "?P acc" for acc
    using that unfolding match_item_def case_prod_beta
    by (intro yields_if_match after_yields yields_bind [OF yields_expression] yields_skip [where m = "consume _ _"]
        yields_bind [OF yields_block] yields_ret yields_unexpected) auto
  then have u: "yields ?P (until_brace (match_item D k) k ([], None))"
    by (rule yields_until_brace) simp_all
  show ?thesis
    unfolding matchStmt_def
    by (rule yields_bind [OF yields_expression], rule yields_skip, rule yields_bind [OF u],
        rule yields_skip, rule yields_ret) (auto simp: list_all_iff)
qed

lemma yields_select [shape]: "yields parsed_stmt (selectStmt D k)"
proof -
  let ?P = "list_all (\<lambda>c. pred_option parsed_expr (fst c) \<and> parsed_stmt (fst (snd c)))"
  have ch: "yields parsed_expr (select_channel k)"
    unfolding select_channel_def
    by (intro yields_bind [OF yields_expression] yields_if_match after_yields yields_cond
        yields_skip [where m = "consume _ _"] yields_ret shape) simp_all
  have "yields ?P (select_item D k acc)" if "?P acc" for acc
    using that unfolding select_item_def
    by (intro yields_if_match after_yields yields_bind [OF ch] yields_skip [where m = "consume _ _"]
        yields_bind [OF yields_block] yields_ret yields_unexpected) auto
  then have u: "yields ?P (until_brace (select_item D k) k [])"
    by (rule yields_until_brace) simp_all
  show ?thesis
    unfolding selectStmt_def
    by (rule yields_skip, rule yields_skip, rule yields_bind [OF u], rule yields_skip, rule yields_ret)
       (auto simp: list_all_iff)
qed

lemma yields_declaration_body: "yields parsed_stmt (declaration_body D k)"
  unfolding declaration_body_def statement_def by (intro shape)

end

lemma yields_declaration: "yields shaped_option (declaration_stmt k n)"
proof (induction n)
  case (Suc n)
  have nested: "nested_statements (declaration_stmt k n)"
    by (rule nested_statements.intro) (rule Suc)
  show ?case
    unfolding declaration_stmt.simps recover_def
    by (rule yields_try, rule yields_bind [OF nested_statements.yields_declaration_body [OF nested]],
        rule yields_ret, simp, (rule yields_skip)+, rule yields_ret, simp)
qed (simp add: shape)

interpretation decl: nested_statements "declaration_stmt k n" for k n
  by unfold_locales (rule yields_declaration)

section \<open>The result of parse\<close>

lemma yields_parse_loop: "list_all parsed_stmt acc \<Longrightarrow> yields (list_all parsed_stmt) (parse_loop k n acc)"
proof (induction n arbitrary: acc)
  case (Suc n)
  have "yields (list_all parsed_stmt)
      (parse_loop k n (case s of None \<Rightarrow> acc | Some x \<Rightarrow> acc @ [x]))" if "shaped_option s" for s
    using Suc that by (cases s) simp_all
  then show ?case
    unfolding parse_loop.simps
    by (intro yields_skip [where m = pisAtEnd] yields_cond yields_ret Suc.prems
        yields_bind [OF yields_declaration])
qed (simp add: shape)

lemma yields_program: "list_all parsed_stmt ss \<Longrightarrow> yields shaped_option (program ss)"
  by (cases ss) (auto simp: yields_def program_def list_all_iff)

lemma parse_shaped: "parse s = Ret (Some r) t \<Longrightarrow> parsed_stmt r"
proof -
  assume r: "parse s = Ret (Some r) t"
  have "yields shaped_option (parse_with k)" for k
    unfolding parse_with_def
    by (rule yields_try, rule yields_bind [OF yields_parse_loop], simp, erule yields_program,
        rule yields_skip, rule yields_ret, simp)
  from yieldsD [OF this r [unfolded parse_def]] show ?thesis by simp
qed

text \<open>C12: whatever the tokens are, the tree that \<open>parse\<close> returns is built from the nodes, operators
  and literal texts that \<open>parsed_stmt\<close> and \<open>parsed_expr\<close> list: no lambda, no interpolation, no array
  literal, no trait, implementation, module or export, no null child outside a block, and the
  literal of \<open>None\<close> has the text \<open>None\<close>.\<close>

theorem parse_shape:
  assumes "parse (new_Parser ts) = Ret (Some r) t"
  shows "parsed_stmt r"
  using assms by (rule parse_shaped)

lemma parse_shape_witness:
  "\<exists>r t. parse (new_Parser two_names) = Ret (Some r) t \<and> parsed_stmt r"
proof -
  obtain r t where "parse (new_Parser two_names) = Ret (Some r) t"
    using parse_result [OF two_names_eof] by metis
  with parse_shape show ?thesis by blast
qed

end
