(* ===== verification/Tocin_Type_Objects.thy ===== *)
theory Tocin_Type_Objects
  imports Tocin_Types
begin

text \<open>
  The type objects of \<open>src/ast/types.h\<close> and \<open>src/ast/ast.h\<close> as \<open>Type::equals\<close> sees them.
  \<open>BasicType\<close>, \<open>SimpleType\<close>, \<open>UnionType\<close> and \<open>ClassType\<close> inherit \<open>Type::equals\<close>, which
  compares addresses; the other classes override it and compare their members. So a type object
  carries its address, and a fresh one is drawn for every \<open>make_shared\<close>. The objects that are
  compared are all alive at that time, so two of them have the same address only when they are
  the same object.
\<close>

section \<open>Objects\<close>

text \<open>One constructor per class, the address of the object first.\<close>

datatype (plugins only: code size) ctype =
    CBasic nat token TypeKind
  | CSimple nat token
  | CUnion nat token "ctype list"
  | CClass nat token string
  | CNullable nat token ctype
  | CGeneric nat token string "ctype list"
  | CFunction nat token "ctype list" ctype bool
  | CTuple nat token "ctype list"
  | CArray nat token ctype int
  | CPointer nat token ctype
  | CReference nat token ctype bool
  | COption nat token ctype
  | CResult nat token ctype ctype
  | CTrait nat token string "ctype list"
  | CChannel nat token ctype bool bool

primrec caddr :: "ctype \<Rightarrow> nat" where
  "caddr (CBasic a t k) = a"
| "caddr (CSimple a t) = a"
| "caddr (CUnion a t ts) = a"
| "caddr (CClass a t n) = a"
| "caddr (CNullable a t b) = a"
| "caddr (CGeneric a t n as) = a"
| "caddr (CFunction a t ps r y) = a"
| "caddr (CTuple a t es) = a"
| "caddr (CArray a t e n) = a"
| "caddr (CPointer a t p) = a"
| "caddr (CReference a t r m) = a"
| "caddr (COption a t i) = a"
| "caddr (CResult a t ok e) = a"
| "caddr (CTrait a t n as) = a"
| "caddr (CChannel a t e s r) = a"

text \<open>The type that an object describes, without the addresses.\<close>

primrec ctype_type :: "ctype \<Rightarrow> type" where
  "ctype_type (CBasic a t k) = BasicType t k"
| "ctype_type (CSimple a t) = SimpleType t"
| "ctype_type (CUnion a t ts) = UnionType t (map ctype_type ts)"
| "ctype_type (CClass a t n) = ClassType t n"
| "ctype_type (CNullable a t b) = NullableType t (ctype_type b)"
| "ctype_type (CGeneric a t n as) = GenericType t n (map ctype_type as)"
| "ctype_type (CFunction a t ps r y) = FunctionType t (map ctype_type ps) (ctype_type r) y"
| "ctype_type (CTuple a t es) = TupleType t (map ctype_type es)"
| "ctype_type (CArray a t e n) = ArrayType t (ctype_type e) n"
| "ctype_type (CPointer a t p) = PointerType t (ctype_type p)"
| "ctype_type (CReference a t r m) = ReferenceType t (ctype_type r) m"
| "ctype_type (COption a t i) = OptionType t (ctype_type i)"
| "ctype_type (CResult a t ok e) = ResultType t (ctype_type ok) (ctype_type e)"
| "ctype_type (CTrait a t n as) = TraitType t n (map ctype_type as)"
| "ctype_type (CChannel a t e s r) = ChannelType t (ctype_type e) s r"

section \<open>\<open>Type::equals\<close> and its overrides\<close>

text \<open>The loop over the members of two vectors, whose sizes are equal when it starts: it returns
  at the first pair that differs. The members of the left one are given as their \<open>equals\<close>.\<close>

fun members_equal :: "(ctype \<Rightarrow> bool) list \<Rightarrow> ctype list \<Rightarrow> bool" where
  "members_equal (f # fs) (b # bs) = (if \<not> f b then False else members_equal fs bs)"
| "members_equal fs bs = True"

definition nullable_equals :: "(ctype \<Rightarrow> bool) \<Rightarrow> ctype \<Rightarrow> bool" where
  "nullable_equals f other = (case other of CNullable b t' x \<Rightarrow> f x | _ \<Rightarrow> False)"

definition generic_equals :: "string \<Rightarrow> (ctype \<Rightarrow> bool) list \<Rightarrow> ctype \<Rightarrow> bool" where
  "generic_equals n fs other =
     (case other of
        CGeneric b t' n' bs \<Rightarrow>
          (if n \<noteq> n' \<or> length fs \<noteq> length bs then False else members_equal fs bs)
      | _ \<Rightarrow> False)"

definition function_equals :: "(ctype \<Rightarrow> bool) list \<Rightarrow> (ctype \<Rightarrow> bool) \<Rightarrow> bool \<Rightarrow> ctype \<Rightarrow> bool" where
  "function_equals fs g y other =
     (case other of
        CFunction b t' bs r y' \<Rightarrow>
          (if length fs \<noteq> length bs \<or> y \<noteq> y' then False
           else if \<not> g r then False
           else members_equal fs bs)
      | _ \<Rightarrow> False)"

definition tuple_equals :: "(ctype \<Rightarrow> bool) list \<Rightarrow> ctype \<Rightarrow> bool" where
  "tuple_equals fs other =
     (case other of
        CTuple b t' bs \<Rightarrow> (if length fs \<noteq> length bs then False else members_equal fs bs)
      | _ \<Rightarrow> False)"

definition array_equals :: "(ctype \<Rightarrow> bool) \<Rightarrow> int \<Rightarrow> ctype \<Rightarrow> bool" where
  "array_equals f n other = (case other of CArray b t' e n' \<Rightarrow> n = n' \<and> f e | _ \<Rightarrow> False)"

definition pointer_equals :: "(ctype \<Rightarrow> bool) \<Rightarrow> ctype \<Rightarrow> bool" where
  "pointer_equals f other = (case other of CPointer b t' p \<Rightarrow> f p | _ \<Rightarrow> False)"

definition reference_equals :: "(ctype \<Rightarrow> bool) \<Rightarrow> bool \<Rightarrow> ctype \<Rightarrow> bool" where
  "reference_equals f m other = (case other of CReference b t' r m' \<Rightarrow> m = m' \<and> f r | _ \<Rightarrow> False)"

definition option_equals :: "(ctype \<Rightarrow> bool) \<Rightarrow> ctype \<Rightarrow> bool" where
  "option_equals f other = (case other of COption b t' i \<Rightarrow> f i | _ \<Rightarrow> False)"

definition result_equals :: "(ctype \<Rightarrow> bool) \<Rightarrow> (ctype \<Rightarrow> bool) \<Rightarrow> ctype \<Rightarrow> bool" where
  "result_equals f g other = (case other of CResult b t' ok e \<Rightarrow> f ok \<and> g e | _ \<Rightarrow> False)"

definition trait_equals :: "string \<Rightarrow> (ctype \<Rightarrow> bool) list \<Rightarrow> ctype \<Rightarrow> bool" where
  "trait_equals n fs other =
     (case other of
        CTrait b t' n' bs \<Rightarrow>
          (if n \<noteq> n' \<or> length fs \<noteq> length bs then False else members_equal fs bs)
      | _ \<Rightarrow> False)"

definition channel_equals :: "(ctype \<Rightarrow> bool) \<Rightarrow> bool \<Rightarrow> bool \<Rightarrow> ctype \<Rightarrow> bool" where
  "channel_equals f s r other =
     (case other of CChannel b t' e s' r' \<Rightarrow> s = s' \<and> r = r' \<and> f e | _ \<Rightarrow> False)"

primrec type_equals :: "ctype \<Rightarrow> ctype \<Rightarrow> bool" where
  "type_equals (CBasic a t k) = (\<lambda>other. a = caddr other)"
| "type_equals (CSimple a t) = (\<lambda>other. a = caddr other)"
| "type_equals (CUnion a t ts) = (\<lambda>other. a = caddr other)"
| "type_equals (CClass a t n) = (\<lambda>other. a = caddr other)"
| "type_equals (CNullable a t b) = nullable_equals (type_equals b)"
| "type_equals (CGeneric a t n as) = generic_equals n (map type_equals as)"
| "type_equals (CFunction a t ps r y) = function_equals (map type_equals ps) (type_equals r) y"
| "type_equals (CTuple a t es) = tuple_equals (map type_equals es)"
| "type_equals (CArray a t e n) = array_equals (type_equals e) n"
| "type_equals (CPointer a t p) = pointer_equals (type_equals p)"
| "type_equals (CReference a t r m) = reference_equals (type_equals r) m"
| "type_equals (COption a t i) = option_equals (type_equals i)"
| "type_equals (CResult a t ok e) = result_equals (type_equals ok) (type_equals e)"
| "type_equals (CTrait a t n as) = trait_equals n (map type_equals as)"
| "type_equals (CChannel a t e s r) = channel_equals (type_equals e) s r"

lemmas equals_defs = nullable_equals_def generic_equals_def function_equals_def tuple_equals_def
  array_equals_def pointer_equals_def reference_equals_def option_equals_def result_equals_def
  trait_equals_def channel_equals_def

section \<open>What \<open>equals\<close> decides\<close>

text \<open>The shape of an object: of one that compares addresses only the address is left, of the
  others only the members that are compared.\<close>

primrec shape :: "ctype \<Rightarrow> ctype" where
  "shape (CBasic a t k) = CClass a default_token []"
| "shape (CSimple a t) = CClass a default_token []"
| "shape (CUnion a t ts) = CClass a default_token []"
| "shape (CClass a t n) = CClass a default_token []"
| "shape (CNullable a t b) = CNullable 0 default_token (shape b)"
| "shape (CGeneric a t n as) = CGeneric 0 default_token n (map shape as)"
| "shape (CFunction a t ps r y) = CFunction 0 default_token (map shape ps) (shape r) y"
| "shape (CTuple a t es) = CTuple 0 default_token (map shape es)"
| "shape (CArray a t e n) = CArray 0 default_token (shape e) n"
| "shape (CPointer a t p) = CPointer 0 default_token (shape p)"
| "shape (CReference a t r m) = CReference 0 default_token (shape r) m"
| "shape (COption a t i) = COption 0 default_token (shape i)"
| "shape (CResult a t ok e) = CResult 0 default_token (shape ok) (shape e)"
| "shape (CTrait a t n as) = CTrait 0 default_token n (map shape as)"
| "shape (CChannel a t e s r) = CChannel 0 default_token (shape e) s r"

text \<open>An address belongs to one object: those of \<open>L\<close> to objects that compare addresses, the others
  to objects of the other classes.\<close>

primrec placed :: "nat set \<Rightarrow> ctype \<Rightarrow> bool" where
  "placed L (CBasic a t k) = (a \<in> L)"
| "placed L (CSimple a t) = (a \<in> L)"
| "placed L (CUnion a t ts) = (a \<in> L)"
| "placed L (CClass a t n) = (a \<in> L)"
| "placed L (CNullable a t b) = (a \<notin> L \<and> placed L b)"
| "placed L (CGeneric a t n as) = (a \<notin> L \<and> list_all (placed L) as)"
| "placed L (CFunction a t ps r y) = (a \<notin> L \<and> list_all (placed L) ps \<and> placed L r)"
| "placed L (CTuple a t es) = (a \<notin> L \<and> list_all (placed L) es)"
| "placed L (CArray a t e n) = (a \<notin> L \<and> placed L e)"
| "placed L (CPointer a t p) = (a \<notin> L \<and> placed L p)"
| "placed L (CReference a t r m) = (a \<notin> L \<and> placed L r)"
| "placed L (COption a t i) = (a \<notin> L \<and> placed L i)"
| "placed L (CResult a t ok e) = (a \<notin> L \<and> placed L ok \<and> placed L e)"
| "placed L (CTrait a t n as) = (a \<notin> L \<and> list_all (placed L) as)"
| "placed L (CChannel a t e s r) = (a \<notin> L \<and> placed L e)"

lemma members_equal_shape:
  "\<lbrakk>\<And>x b. x \<in> set xs \<Longrightarrow> placed L x \<Longrightarrow> placed L b \<Longrightarrow> type_equals x b = (shape x = shape b);
    list_all (placed L) xs; list_all (placed L) bs; length xs = length bs\<rbrakk>
   \<Longrightarrow> members_equal (map type_equals xs) bs = (map shape xs = map shape bs)"
proof (induction xs arbitrary: bs)
  case (Cons x xs)
  then obtain b bs' where "bs = b # bs'" by (cases bs) auto
  then show ?case using Cons by simp
qed simp

lemma map_shape_length: "map shape xs = map shape ys \<Longrightarrow> length xs = length ys"
  by (rule map_eq_imp_length_eq)

lemma type_equals_shape: "placed L a \<Longrightarrow> placed L b \<Longrightarrow> type_equals a b = (shape a = shape b)"
proof (induction a arbitrary: b)
  case (CGeneric a t n as)
  then show ?case
    by (cases b) (auto simp: equals_defs members_equal_shape [where L = L] dest: map_shape_length)
next
  case (CFunction a t ps r y)
  then show ?case
    by (cases b) (auto simp: equals_defs members_equal_shape [where L = L] dest: map_shape_length)
next
  case (CTuple a t es)
  then show ?case
    by (cases b) (auto simp: equals_defs members_equal_shape [where L = L] dest: map_shape_length)
next
  case (CTrait a t n as)
  then show ?case
    by (cases b) (auto simp: equals_defs members_equal_shape [where L = L] dest: map_shape_length)
qed (case_tac b; auto simp: equals_defs)+

text \<open>Of objects that are alive together \<open>equals\<close> decides equality of their shapes, so it is an
  equivalence relation on them.\<close>

theorem equals_is_equivalence:
  "equiv {x. placed L x} {(x, y). placed L x \<and> placed L y \<and> type_equals x y}"
proof -
  have "{(x, y). placed L x \<and> placed L y \<and> type_equals x y}
      = {(x, y). x \<in> {x. placed L x} \<and> y \<in> {x. placed L x} \<and> shape x = shape y}"
    using type_equals_shape by auto
  then show ?thesis
    by (auto intro!: equivI refl_onI symI transI)
qed

lemma equals_is_equivalence_example:
  "type_equals (CGeneric 5 default_token ''List'' [CClass 1 default_token ''A''])
     (CGeneric 6 default_token ''List'' [CClass 1 default_token ''A''])
   \<and> \<not> type_equals (CGeneric 5 default_token ''List'' [CClass 1 default_token ''A''])
     (CGeneric 6 default_token ''List'' [CClass 2 default_token ''A''])"
  by (simp add: equals_defs)

end
