(* ===== verification/Tocin_Type_Checker.thy ===== *)
theory Tocin_Type_Checker
  imports Tocin_Ast Tocin_Errors Tocin_Type_Objects
begin

text \<open>
  \<open>src/type/type_checker.h\<close> and \<open>src/type/type_checker.cpp\<close>: the visitor over expressions and
  statements, and the assignability test, on the type objects of \<open>Tocin_Type_Objects\<close>.
\<close>

section \<open>Assignability\<close>

text \<open>The loop over the type arguments returns at the first pair that is not assignable; the sizes
  are equal when it starts.\<close>

fun all_assignable :: "(ctype \<Rightarrow> bool) list \<Rightarrow> ctype list \<Rightarrow> bool" where
  "all_assignable (f # fs) (b # bs) = (if \<not> f b then False else all_assignable fs bs)"
| "all_assignable fs bs = True"

definition basic_conversion :: "TypeKind \<Rightarrow> ctype \<Rightarrow> bool" where
  "basic_conversion k to =
     (case to of CBasic b t k' \<Rightarrow> k = INT_KIND \<and> k' = FLOAT_KIND | _ \<Rightarrow> False)"

definition generic_conversion :: "string \<Rightarrow> (ctype \<Rightarrow> bool) list \<Rightarrow> ctype \<Rightarrow> bool" where
  "generic_conversion n fs to =
     (case to of
        CGeneric b t n' bs \<Rightarrow> n = n' \<and> length fs = length bs \<and> all_assignable fs bs
      | _ \<Rightarrow> False)"

primrec isAssignable :: "ctype \<Rightarrow> ctype \<Rightarrow> bool" where
  "isAssignable (CBasic a t k) to = (type_equals (CBasic a t k) to \<or> basic_conversion k to)"
| "isAssignable (CSimple a t) to = type_equals (CSimple a t) to"
| "isAssignable (CUnion a t ts) to = type_equals (CUnion a t ts) to"
| "isAssignable (CClass a t n) to = type_equals (CClass a t n) to"
| "isAssignable (CNullable a t b) to = type_equals (CNullable a t b) to"
| "isAssignable (CGeneric a t n as) to =
     (type_equals (CGeneric a t n as) to \<or> generic_conversion n (map isAssignable as) to)"
| "isAssignable (CFunction a t ps r y) to = type_equals (CFunction a t ps r y) to"
| "isAssignable (CTuple a t es) to = type_equals (CTuple a t es) to"
| "isAssignable (CArray a t e n) to = type_equals (CArray a t e n) to"
| "isAssignable (CPointer a t p) to = type_equals (CPointer a t p) to"
| "isAssignable (CReference a t r m) to = type_equals (CReference a t r m) to"
| "isAssignable (COption a t i) to = type_equals (COption a t i) to"
| "isAssignable (CResult a t ok e) to = type_equals (CResult a t ok e) to"
| "isAssignable (CTrait a t n as) to = type_equals (CTrait a t n as) to"
| "isAssignable (CChannel a t e s r) to = type_equals (CChannel a t e s r) to"

definition isAssignable_ptr :: "ctype option \<Rightarrow> ctype option \<Rightarrow> bool" where
  "isAssignable_ptr from to =
     (case (from, to) of (Some a, Some b) \<Rightarrow> isAssignable a b | _ \<Rightarrow> False)"

definition typesCompatible :: "ctype option \<Rightarrow> ctype option \<Rightarrow> bool" where
  "typesCompatible t1 t2 =
     (case (t1, t2) of
        (Some a, Some b) \<Rightarrow>
          (if type_equals a b then True else isAssignable a b \<or> isAssignable b a)
      | _ \<Rightarrow> False)"

definition getChannelElementType :: "ctype option \<Rightarrow> ctype option" where
  "getChannelElementType ct =
     (case ct of
        Some (CGeneric a t n as) \<Rightarrow>
          (if n = ''Channel'' \<and> as \<noteq> [] then Some (hd as) else None)
      | _ \<Rightarrow> None)"

section \<open>State\<close>

text \<open>The members the visitor touches: the current type, the handler, and the next free address.\<close>

record checker =
  currentType :: "ctype option"
  checker_handler :: ErrorHandler
  next_address :: nat

definition new_TypeChecker :: "ErrorHandler \<Rightarrow> checker" where
  "new_TypeChecker h = \<lparr>currentType = None, checker_handler = h, next_address = 0\<rparr>"

definition set_type :: "ctype option \<Rightarrow> checker \<Rightarrow> checker" where
  "set_type ty s = s\<lparr>currentType := ty\<rparr>"

text \<open>\<open>currentType_ = std::make_shared<\<dots>>(\<dots>)\<close>\<close>

definition make_type :: "(nat \<Rightarrow> ctype) \<Rightarrow> checker \<Rightarrow> checker" where
  "make_type f s =
     s\<lparr>currentType := Some (f (next_address s)), next_address := next_address s + 1\<rparr>"

definition basic :: "TypeKind \<Rightarrow> checker \<Rightarrow> checker" where
  "basic k = make_type (\<lambda>a. CBasic a default_token k)"

definition void_simple :: "checker \<Rightarrow> checker" where
  "void_simple = make_type (\<lambda>a. CSimple a (Token (Lit IDENTIFIER) ''void'' [] 0 0))"

definition report_mismatch :: "string \<Rightarrow> token \<Rightarrow> checker \<Rightarrow> checker" where
  "report_mismatch msg t s =
     s\<lparr>checker_handler := record_error (Type T001_TYPE_MISMATCH) msg (tfilename t) (line t)
         (column t) ERROR_SEVERITY (checker_handler s)\<rparr>"

section \<open>Expressions\<close>

definition literal_kind :: "LiteralType \<Rightarrow> TypeKind" where
  "literal_kind k =
     (case k of INTEGER \<Rightarrow> INT_KIND | FLOAT \<Rightarrow> FLOAT_KIND | BOOLEAN \<Rightarrow> BOOL_KIND
      | STRING_LITERAL \<Rightarrow> STRING_KIND | NIL_LITERAL \<Rightarrow> VOID_KIND)"

text \<open>The loop over the elements of an array literal: a null element type is replaced, a type that is
  assignable neither way is reported and ends the loop.\<close>

fun element_loop :: "token \<Rightarrow> (checker \<Rightarrow> checker) list \<Rightarrow> ctype option \<Rightarrow> checker
    \<Rightarrow> ctype option \<times> checker" where
  "element_loop t [] el s = (el, s)"
| "element_loop t (v # vs) el s =
     (let s1 = v s; cur = currentType s1 in
      if el = None then element_loop t vs cur s1
      else if isAssignable_ptr cur el then element_loop t vs el s1
      else if isAssignable_ptr el cur then element_loop t vs cur s1
      else (el, report_mismatch ''Array literal has inconsistent element types'' t s1))"

definition array_literal :: "token \<Rightarrow> (checker \<Rightarrow> checker) list \<Rightarrow> checker \<Rightarrow> checker" where
  "array_literal t vs s =
     (let (el, s1) = element_loop t vs None s in
      case el of
        Some e \<Rightarrow> make_type (\<lambda>a. CGeneric a t ''array'' [e]) s1
      | None \<Rightarrow>
          (let e = CSimple (next_address s1) (Token (Lit IDENTIFIER) ''int'' [] 0 0);
               s2 = s1\<lparr>next_address := next_address s1 + 1\<rparr>
           in make_type (\<lambda>a. CGeneric a t ''array'' [e]) s2))"

text \<open>\<open>visitChannelReceiveExpr\<close> after the visit of the channel: \<open>getChannelElementType\<close> maps the null
  pointer to itself.\<close>

definition receive_type :: "checker \<Rightarrow> checker" where
  "receive_type s =
     (case currentType s of
        Some c \<Rightarrow> set_type (getChannelElementType (Some c)) s
      | None \<Rightarrow> set_type None s)"

primrec check_expr :: "expr \<Rightarrow> checker \<Rightarrow> checker" where
  "check_expr (BinaryExpr t l op r) = (\<lambda>s. basic INT_KIND (check_expr r (check_expr l s)))"
| "check_expr (GroupingExpr t e) = check_expr e"
| "check_expr (LiteralExpr t v k) = basic (literal_kind k)"
| "check_expr (UnaryExpr t op e) = check_expr e"
| "check_expr (VariableExpr t n) = basic INT_KIND"
| "check_expr (AssignExpr t n tg v) = check_expr v"
| "check_expr (CallExpr t c as) = (\<lambda>s. basic VOID_KIND (check_expr c s))"
| "check_expr (GetExpr t ob n) = (\<lambda>s. basic VOID_KIND (check_expr ob s))"
| "check_expr (SetExpr t ob n v) = (\<lambda>s. basic VOID_KIND (check_expr v (check_expr ob s)))"
| "check_expr (ListExpr t es) = make_type (\<lambda>a. CGeneric a t ''List'' [])"
| "check_expr (DictionaryExpr t es) = make_type (\<lambda>a. CGeneric a t ''Dict'' [])"
| "check_expr (LambdaExpr t ps r b) = make_type (\<lambda>a. CGeneric a t ''Function'' [])"
| "check_expr (AwaitExpr t e) = check_expr e"
| "check_expr (NewExpr t e sz) = (\<lambda>s. s)"
| "check_expr (DeleteExpr t e) = (\<lambda>s. basic VOID_KIND (check_expr e s))"
| "check_expr (StringInterpolationExpr t ps es) = basic STRING_KIND"
| "check_expr (ChannelSendExpr t c v) = (\<lambda>s. void_simple (check_expr v (check_expr c s)))"
| "check_expr (ChannelReceiveExpr t c) = (\<lambda>s. receive_type (check_expr c s))"
| "check_expr (ArrayLiteralExpr t es) = array_literal t (map check_expr es)"

section \<open>Statements\<close>

text \<open>A visit guarded by a test for the null pointer.\<close>

definition visit_opt :: "('a \<Rightarrow> checker \<Rightarrow> checker) \<Rightarrow> 'a option \<Rightarrow> checker \<Rightarrow> checker" where
  "visit_opt f x s = (case x of None \<Rightarrow> s | Some y \<Rightarrow> f y s)"

primrec visit_all :: "(checker \<Rightarrow> checker) list \<Rightarrow> checker \<Rightarrow> checker" where
  "visit_all [] s = s"
| "visit_all (v # vs) s = visit_all vs (v s)"

definition or_skip :: "(checker \<Rightarrow> checker) option \<Rightarrow> checker \<Rightarrow> checker" where
  "or_skip v = (case v of None \<Rightarrow> (\<lambda>s. s) | Some f \<Rightarrow> f)"

definition first_case :: "(checker \<Rightarrow> checker) list \<Rightarrow> checker \<Rightarrow> checker" where
  "first_case vs = (case vs of [] \<Rightarrow> (\<lambda>s. s) | v # _ \<Rightarrow> v)"

primrec check_stmt :: "stmt \<Rightarrow> checker \<Rightarrow> checker" where
  "check_stmt (ExpressionStmt t e) = check_expr e"
| "check_stmt (VariableStmt t n ty i c) = (\<lambda>s. set_type None (visit_opt check_expr i s))"
| "check_stmt (BlockStmt t ss) = visit_all (map or_skip (map (map_option check_stmt) ss))"
| "check_stmt (IfStmt t c th els el) =
     (\<lambda>s. set_type None (or_skip (map_option check_stmt el) (check_stmt th (check_expr c s))))"
| "check_stmt (WhileStmt t c b) = (\<lambda>s. set_type None (check_stmt b (check_expr c s)))"
| "check_stmt (ForStmt t v ty i b) = (\<lambda>s. set_type None (check_stmt b (check_expr i s)))"
| "check_stmt (FunctionStmt t n tps ps r b isAsync) = set_type None"
| "check_stmt (ReturnStmt t v) = (\<lambda>s. set_type None (visit_opt check_expr v s))"
| "check_stmt (ClassStmt t n tps sc ifs fs ms) = set_type None"
| "check_stmt (ImportStmt t m all syms al) = (\<lambda>s. s)"
| "check_stmt (ExportStmt t syms all d) = (\<lambda>s. s)"
| "check_stmt (ModuleStmt t n b) = visit_all (map check_stmt b)"
| "check_stmt (MatchStmt t v cs d) =
     (\<lambda>s. first_case (map snd (map (map_prod id check_stmt) cs)) (check_expr v s))"
| "check_stmt (SelectStmt t cs) = set_type None"
| "check_stmt (GoStmt t e) = (\<lambda>s. set_type None (check_expr e s))"
| "check_stmt (TraitStmt t n ms st at) = (\<lambda>s. set_type None (visit_all (map check_stmt ms) s))"
| "check_stmt (ImplStmt t n ty ms) = (\<lambda>s. set_type None (visit_all (map check_stmt ms) s))"

definition check :: "stmt option \<Rightarrow> checker \<Rightarrow> ctype option \<times> checker" where
  "check st s =
     (case st of None \<Rightarrow> (None, s) | Some x \<Rightarrow> (let s1 = check_stmt x s in (currentType s1, s1)))"

section \<open>The visitors of other namespaces, and goroutines\<close>

text \<open>These take an untyped pointer and cast it: \<open>None\<close> is the null pointer, and the members of the
  node may be null too.\<close>

definition visitMoveExpr :: "checker \<Rightarrow> checker" where
  "visitMoveExpr = set_type None"

definition visitGoExpr :: "checker \<Rightarrow> checker" where
  "visitGoExpr = void_simple"

definition ctype_string :: "ctype \<Rightarrow> string" where
  "ctype_string c = type_toString (ctype_type c)"

definition send_check :: "ctype option \<Rightarrow> ctype option \<Rightarrow> checker \<Rightarrow> checker" where
  "send_check ch val s =
     (case (ch, val) of
        (Some c, Some v) \<Rightarrow>
          (let el = getChannelElementType ch in
           if el \<noteq> None \<and> \<not> typesCompatible val el then
             s\<lparr>checker_handler := record_error (Type T001_TYPE_MISMATCH)
                 (''Cannot send value of type '' @ ctype_string v @ '' to channel of type ''
                   @ ctype_string c)
                 (defaultFilename (checker_handler s)) 0 0 ERROR_SEVERITY (checker_handler s)\<rparr>
           else s)
      | _ \<Rightarrow> s)"

definition send_parts :: "expr option \<Rightarrow> expr option \<Rightarrow> checker \<Rightarrow> checker" where
  "send_parts ch val s =
     (case ch of
        None \<Rightarrow> s
      | Some c \<Rightarrow>
          (let s1 = check_expr c s in
           case val of
             None \<Rightarrow> s1
           | Some v \<Rightarrow>
               (let s2 = check_expr v s1 in send_check (currentType s1) (currentType s2) s2)))"

definition visitRuntimeChannelSendExpr :: "(expr option \<times> expr option) option \<Rightarrow> checker \<Rightarrow> checker" where
  "visitRuntimeChannelSendExpr p s =
     (case p of None \<Rightarrow> set_type None s | Some (ch, val) \<Rightarrow> void_simple (send_parts ch val s))"

definition visitRuntimeChannelReceiveExpr :: "expr option option \<Rightarrow> checker \<Rightarrow> checker" where
  "visitRuntimeChannelReceiveExpr p s =
     (case p of
        Some (Some c) \<Rightarrow> receive_type (check_expr c s)
      | _ \<Rightarrow> set_type None s)"

definition visitRuntimeSelectStmt :: "stmt option list option \<Rightarrow> checker \<Rightarrow> checker" where
  "visitRuntimeSelectStmt p s =
     (case p of
        None \<Rightarrow> set_type None s
      | Some bodies \<Rightarrow> void_simple (visit_all (map (visit_opt check_stmt) bodies) s))"

definition is_function_type :: "type option \<Rightarrow> bool" where
  "is_function_type ty = (case ty of Some (FunctionType t ps r a) \<Rightarrow> True | _ \<Rightarrow> False)"

definition canRunAsGoroutine :: "expr option \<Rightarrow> checker \<Rightarrow> bool \<times> checker" where
  "canRunAsGoroutine p s =
     (case p of
        Some (CallExpr t c as) \<Rightarrow>
          (let e = CallExpr t c as; s1 = check_expr e s in
           if getType e = None then (False, s1)
           else if is_function_type (getType e) then (True, s1) else (False, s1))
      | _ \<Rightarrow> (False, s))"

definition validateGoroutineLaunch :: "expr option \<Rightarrow> expr list \<Rightarrow> checker \<Rightarrow> bool \<times> checker" where
  "validateGoroutineLaunch p args s =
     (let (ok, s1) = canRunAsGoroutine p s in
      if \<not> ok then (False, s1)
      else (case p of Some (CallExpr t c as) \<Rightarrow> (True, s1) | _ \<Rightarrow> (False, s1)))"

section \<open>Array literals\<close>

text \<open>What the element loop decides on literals, without addresses: two literals agree only when one
  is an integer and the other a float.\<close>

fun kinds_conflict :: "TypeKind \<Rightarrow> TypeKind list \<Rightarrow> bool" where
  "kinds_conflict k [] = False"
| "kinds_conflict k (k' # ks) =
     (if k' = INT_KIND \<and> k = FLOAT_KIND then kinds_conflict k ks
      else if k = INT_KIND \<and> k' = FLOAT_KIND then kinds_conflict k' ks
      else True)"

lemma make_type_sel [simp]:
  "currentType (make_type f s) = Some (f (next_address s))"
  "checker_handler (make_type f s) = checker_handler s"
  "next_address (make_type f s) = Suc (next_address s)"
  by (simp_all add: make_type_def)

lemma set_type_sel [simp]:
  "currentType (set_type ty s) = ty" "checker_handler (set_type ty s) = checker_handler s"
  "next_address (set_type ty s) = next_address s"
  by (simp_all add: set_type_def)

definition mismatch_error :: "token \<Rightarrow> checker \<Rightarrow> ErrorHandler" where
  "mismatch_error t s =
     checker_handler (report_mismatch ''Array literal has inconsistent element types'' t s)"

lemma mismatch_error_eq: "checker_handler s = checker_handler s' \<Longrightarrow> mismatch_error t s = mismatch_error t s'"
  by (simp add: mismatch_error_def report_mismatch_def)

lemma basic_sel [simp]:
  "currentType (basic k s) = Some (CBasic (next_address s) default_token k)"
  "checker_handler (basic k s) = checker_handler s"
  "next_address (basic k s) = Suc (next_address s)"
  by (simp_all add: basic_def)

lemma isAssignable_ptr_Some [simp]: "isAssignable_ptr (Some a) (Some b) = isAssignable a b"
  by (simp add: isAssignable_ptr_def)

lemma isAssignable_fresh: "a \<noteq> b \<Longrightarrow>
    isAssignable (CBasic a t k) (CBasic b t' k') = (k = INT_KIND \<and> k' = FLOAT_KIND)"
  by (simp add: basic_conversion_def)

lemma element_loop_literals:
  "a < next_address s \<Longrightarrow>
   checker_handler (snd (element_loop t (map basic ks) (Some (CBasic a default_token k)) s))
   = (if kinds_conflict k ks then mismatch_error t s else checker_handler s)"
proof (induction ks arbitrary: s a k)
  case (Cons k' ks)
  have ne: "next_address s \<noteq> a" "a \<noteq> next_address s" using Cons.prems by auto
  have IH: "checker_handler (snd (element_loop t (map basic ks) (Some (CBasic b default_token j)) (basic i s)))
      = (if kinds_conflict j ks then mismatch_error t s else checker_handler s)"
    if "b \<le> next_address s" for b i j
    using Cons.IH [of b "basic i s" j] that mismatch_error_eq [of "basic i s" s t] by simp
  show ?case
    using Cons.prems
    by (simp add: IH Let_def isAssignable_fresh [OF ne(1)] isAssignable_fresh [OF ne(2)]
        mismatch_error_def report_mismatch_def del: isAssignable.simps)
qed simp

lemma array_literal_handler: "checker_handler (array_literal t vs s)
    = checker_handler (snd (element_loop t vs None s))"
  by (auto simp: array_literal_def Let_def split: prod.split option.split)

text \<open>An array literal of literals is reported exactly when two neighbours of it, after widening
  to float, are not an integer and a float. The test for equal basic types compares the addresses of
  two fresh objects, so also two integers are inconsistent.\<close>

theorem array_of_literals:
  "checker_handler (check_expr
      (ArrayLiteralExpr t (map (\<lambda>(u, v, k). LiteralExpr u v k) ((u0, v0, k0) # ls))) s)
   = (if kinds_conflict (literal_kind k0) (map (\<lambda>(u, v, k). literal_kind k) ls) then mismatch_error t s
      else checker_handler s)"
proof -
  have map_eq: "map (check_expr \<circ> (\<lambda>(u, v, k). LiteralExpr u v k)) ls
      = map basic (map (\<lambda>(u, v, k). literal_kind k) ls)"
    by auto
  show ?thesis
    using element_loop_literals [of "next_address s" "basic (literal_kind k0) s" t
        "map (\<lambda>(u, v, k). literal_kind k) ls" "literal_kind k0"]
      mismatch_error_eq [of "basic (literal_kind k0) s" s t]
    by (simp add: array_literal_handler Let_def map_eq [unfolded map_map])
qed

end
