(* ===== verification/Tocin_Compiler.thy ===== *)
theory Tocin_Compiler
  imports Tocin_Lexer_Invariants Tocin_Parser_Shape Tocin_Type_Checker
begin

text \<open>
  \<open>Compiler::compile\<close> of \<open>src/compiler/compiler.h\<close> and \<open>src/compiler/compiler.cpp\<close>: the phases and the tests
  between them. The code generator, the optimizer, the printer of a module and the writer of
  the output file call LLVM and are parameters; \<open>'m\<close> is the type of modules.
\<close>

section \<open>Checking what the parser built\<close>

lemma receive_type_handler [simp]: "checker_handler (receive_type s) = checker_handler s"
  by (simp add: receive_type_def split: option.split)

lemma void_simple_handler [simp]: "checker_handler (void_simple s) = checker_handler s"
  by (simp add: void_simple_def)

lemma check_expr_silent: "parsed_expr e \<Longrightarrow> checker_handler (check_expr e s) = checker_handler s"
  by (induction e arbitrary: s) simp_all

lemma visit_opt_silent:
  "pred_option parsed_expr i \<Longrightarrow> checker_handler (visit_opt check_expr i s) = checker_handler s"
  by (cases i) (simp_all add: visit_opt_def check_expr_silent)

lemma visit_all_silent:
  "(\<And>v s. v \<in> set vs \<Longrightarrow> checker_handler (v s) = checker_handler s) \<Longrightarrow>
   checker_handler (visit_all vs s) = checker_handler s"
  by (induction vs arbitrary: s) simp_all

lemma check_stmt_silent: "parsed_stmt st \<Longrightarrow> checker_handler (check_stmt st s) = checker_handler s"
proof (induction st arbitrary: s)
  case (BlockStmt t ss)
  show ?case
    using BlockStmt
    by (auto simp: list_all_iff or_skip_def intro!: visit_all_silent split: option.splits)
       (metis option.set_intros pred_option_def)
next
  case (MatchStmt t v cs d)
  then show ?case
    by (cases cs) (fastforce simp: first_case_def check_expr_silent)+
next
  case (IfStmt t c th els el)
  then show ?case
    by (cases el) (auto simp: or_skip_def check_expr_silent)
qed (simp_all add: check_expr_silent visit_opt_silent)

text \<open>The type checker reports nothing on a tree that the parser returned.\<close>

theorem check_parsed_silent:
  assumes "parse (new_Parser ts) = Ret (Some r) t"
  shows "checker_handler (snd (check (Some r) (new_TypeChecker h))) = h"
  using check_stmt_silent [OF parse_shaped [OF assms]]
  by (simp add: check_def Let_def new_TypeChecker_def)

lemma check_parsed_silent_witness:
  "\<exists>r t. parse (new_Parser two_names) = Ret (Some r) t
    \<and> checker_handler (snd (check (Some r) (new_TypeChecker new_ErrorHandler))) = new_ErrorHandler"
proof -
  obtain r t where "parse (new_Parser two_names) = Ret (Some r) t"
    using parse_result [OF two_names_eof] by metis
  with check_parsed_silent show ?thesis by blast
qed

section \<open>The phases\<close>

record CompilationOptions =
  serializeAst :: bool
  optimize :: bool
  dumpIR :: bool
  optimizationLevel :: int
  outputFile :: string
  generateObject :: bool
  generateAssembly :: bool

text \<open>The state of a compiler: the handler it was given, its module, and the lines it printed.\<close>

record 'm compiler =
  compiler_handler :: ErrorHandler
  module_ptr :: "'m option"
  printed :: "string list"

text \<open>What is outside: \<open>IRGenerator::generate\<close>, \<open>optimizeModule\<close>, \<open>Module::print\<close> and \<open>outputToFile\<close>.\<close>

record 'm back_end =
  be_generate :: "stmt \<Rightarrow> ErrorHandler \<Rightarrow> 'm option \<times> ErrorHandler"
  be_optimize :: "int \<Rightarrow> 'm option \<Rightarrow> ErrorHandler \<Rightarrow> bool \<times> 'm option \<times> ErrorHandler"
  be_print :: "'m option \<Rightarrow> string"
  be_output :: "string \<Rightarrow> bool \<Rightarrow> bool \<Rightarrow> 'm option \<Rightarrow> ErrorHandler \<Rightarrow> bool \<times> ErrorHandler"

definition print_line :: "string \<Rightarrow> 'm compiler \<Rightarrow> 'm compiler" where
  "print_line l c = c\<lparr>printed := printed c @ [l]\<rparr>"

text \<open>\<open>if (fail || errorHandler.hasErrors()) { print; return false; } rest\<close>. The left operand of the
  disjunction short-circuits. \<open>None\<close>: the call does not return (the handler's mutex is held).\<close>

definition stop_on_errors ::
  "bool \<Rightarrow> string \<Rightarrow> ('m compiler \<Rightarrow> (bool \<times> 'm compiler) option) \<Rightarrow> 'm compiler
     \<Rightarrow> (bool \<times> 'm compiler) option" where
  "stop_on_errors fail msg rest c =
     (if fail then Some (False, print_line msg c)
      else case hasErrors (compiler_handler c) of
             Inl _ \<Rightarrow> None
           | Inr (b, h) \<Rightarrow>
               (let c1 = c\<lparr>compiler_handler := h\<rparr> in
                if b then Some (False, print_line msg c1) else rest c1))"

definition output_phase ::
  "'m back_end \<Rightarrow> CompilationOptions \<Rightarrow> 'm compiler \<Rightarrow> (bool \<times> 'm compiler) option" where
  "output_phase B opts c =
     (let c1 = (if dumpIR opts then print_line (be_print B (module_ptr c)) c else c) in
      if outputFile opts \<noteq> [] then
        (let (ok, h) = be_output B (outputFile opts) (generateObject opts) (generateAssembly opts)
                         (module_ptr c1) (compiler_handler c1);
             c2 = c1\<lparr>compiler_handler := h\<rparr>
         in if \<not> ok then Some (False, print_line ''Failed to output to file. See errors.'' c2)
            else Some (True, c2))
      else Some (True, c1))"

definition optimize_phase ::
  "'m back_end \<Rightarrow> CompilationOptions \<Rightarrow> 'm compiler \<Rightarrow> (bool \<times> 'm compiler) option" where
  "optimize_phase B opts c =
     (if optimize opts then
        (let (ok, m, h) = be_optimize B (optimizationLevel opts) (module_ptr c) (compiler_handler c);
             c1 = c\<lparr>module_ptr := m, compiler_handler := h\<rparr>
         in if \<not> ok then Some (False, print_line ''Optimization failed. See errors.'' c1)
            else output_phase B opts c1)
      else output_phase B opts c)"

definition generate_phase ::
  "'m back_end \<Rightarrow> CompilationOptions \<Rightarrow> stmt \<Rightarrow> 'm compiler \<Rightarrow> (bool \<times> 'm compiler) option" where
  "generate_phase B opts r c =
     (let (m, h) = be_generate B r (compiler_handler c);
          c1 = c\<lparr>module_ptr := m, compiler_handler := h\<rparr>
      in stop_on_errors (m = None) ''IR generation failed. See errors.'' (optimize_phase B opts) c1)"

definition check_phase ::
  "'m back_end \<Rightarrow> CompilationOptions \<Rightarrow> stmt \<Rightarrow> 'm compiler \<Rightarrow> (bool \<times> 'm compiler) option" where
  "check_phase B opts r c =
     (let c1 = (if serializeAst opts
                then print_line ''Would serialize AST to XML (not implemented).'' c else c);
          (ty, s) = check (Some r) (new_TypeChecker (compiler_handler c1))
      in stop_on_errors False ''Type checking failed. See errors.'' (generate_phase B opts r)
           (c1\<lparr>compiler_handler := checker_handler s\<rparr>))"

text \<open>The parser's outcomes that are not a value leave \<open>compile\<close> as an exception or are undefined
  behaviour: \<open>None\<close>.\<close>

definition parse_phase ::
  "'m back_end \<Rightarrow> CompilationOptions \<Rightarrow> token list \<Rightarrow> 'm compiler \<Rightarrow> (bool \<times> 'm compiler) option" where
  "parse_phase B opts ts c =
     (case parse (new_Parser ts) of
        Ret r t \<Rightarrow>
          stop_on_errors (r = None) ''Parsing failed. See errors.'' (check_phase B opts (the r)) c
      | _ \<Rightarrow> None)"

definition compile ::
  "'m back_end \<Rightarrow> string \<Rightarrow> string \<Rightarrow> CompilationOptions \<Rightarrow> 'm compiler
     \<Rightarrow> (bool \<times> 'm compiler) option" where
  "compile B src file opts c =
     (let ts = tokens (tokenize (Lexer src file 4)) in
      stop_on_errors False ''Lexical analysis failed. See errors.'' (parse_phase B opts ts) c)"

section \<open>Nothing that is wrong with a source stops its compilation\<close>

definition clean_handler :: "ErrorHandler \<Rightarrow> bool" where
  "clean_handler h \<longleftrightarrow> \<not> mutex_held h \<and> list_all (\<lambda>e. eseverity e = WARNING) (errors h)"

lemma severity_cases: "eseverity e = WARNING \<longleftrightarrow>
    \<not> (eseverity e = ERROR_SEVERITY \<or> eseverity e = FATAL_SEVERITY)"
  by (cases "eseverity e") simp_all

lemma hasErrors_clean: "clean_handler h \<Longrightarrow> hasErrors h = Inr (False, h)"
  by (cases h) (auto simp: clean_handler_def hasErrors_def lock_guard_def list_ex_iff list_all_iff)

lemma stop_clean: "clean_handler (compiler_handler c) \<Longrightarrow> stop_on_errors False msg rest c = rest c"
  by (simp add: stop_on_errors_def hasErrors_clean Let_def)

lemma tokenize_eof: "ends_with_eof (tokens (tokenize s))"
  by (simp add: ends_with_eof_def tokenize_sel)

definition announce :: "CompilationOptions \<Rightarrow> 'm compiler \<Rightarrow> 'm compiler" where
  "announce opts c = (if serializeAst opts
     then print_line ''Would serialize AST to XML (not implemented).'' c else c)"

text \<open>C13: whatever the source is, \<open>compile\<close> reaches the code generator. The lexer and the parser
  report to handlers of their own, the type checker reports nothing on a parsed tree, so with a
  handler that holds no error the result is that of the generator on the tree of the source:
  no lexical, syntax or type error stops a compilation.\<close>

theorem compile_reaches_generator:
  assumes "clean_handler (compiler_handler c)"
  shows "\<exists>r t. parse (new_Parser (tokens (tokenize (Lexer src file 4)))) = Ret (Some r) t
    \<and> compile B src file opts c = generate_phase B opts r (announce opts c)"
proof -
  obtain r t where r: "parse (new_Parser (tokens (tokenize (Lexer src file 4)))) = Ret (Some r) t"
    using parse_result [OF tokenize_eof] by metis
  have "check_phase B opts r c = generate_phase B opts r (announce opts c)"
    using check_stmt_silent [OF parse_shaped [OF r]] assms
    by (simp add: check_phase_def announce_def check_def new_TypeChecker_def Let_def stop_clean
        print_line_def)
  with r show ?thesis
    by (simp add: compile_def parse_phase_def stop_clean [OF assms] Let_def)
qed

definition echo_back_end :: "stmt back_end" where
  "echo_back_end = \<lparr>be_generate = (\<lambda>r h. (Some r, h)), be_optimize = (\<lambda>n m h. (True, m, h)),
     be_print = (\<lambda>m. []), be_output = (\<lambda>f x y m h. (True, h))\<rparr>"

lemma compile_reaches_generator_witness:
  "\<exists>r. compile echo_back_end ''let ; )'' ''m.to''
      \<lparr>serializeAst = False, optimize = False, dumpIR = False, optimizationLevel = 0,
       outputFile = [], generateObject = False, generateAssembly = False\<rparr>
      \<lparr>compiler_handler = new_ErrorHandler, module_ptr = None, printed = []\<rparr>
    = Some (True, \<lparr>compiler_handler = new_ErrorHandler, module_ptr = Some r, printed = []\<rparr>)"
proof -
  have clean: "clean_handler new_ErrorHandler"
    by (simp add: clean_handler_def new_ErrorHandler_def)
  show ?thesis
    using compile_reaches_generator [of "\<lparr>compiler_handler = new_ErrorHandler, module_ptr = None, printed = []\<rparr>"
        "''let ; )''" "''m.to''" echo_back_end "\<lparr>serializeAst = False, optimize = False, dumpIR = False,
         optimizationLevel = 0, outputFile = [], generateObject = False, generateAssembly = False\<rparr>"] clean
    by (auto simp: generate_phase_def echo_back_end_def announce_def stop_on_errors_def
        hasErrors_clean optimize_phase_def output_phase_def Let_def)
qed

end
