(* ===== verification/Tocin_Ownership.thy ===== *)
theory Tocin_Ownership
  imports Tocin_Prelude "HOL-Library.AList"
begin

text \<open>
  \<open>OwnershipStateTracker\<close> of \<open>src/type/ownership.h\<close> and \<open>src/type/ownership.cpp\<close>: the state of each
  variable, the stack of scopes, and every operation and query. The unordered map is an
  association list with distinct keys, an unordered set a set; the order of the lists the
  inspection functions return is not specified by the source.
\<close>

section \<open>State\<close>

datatype BorrowState = NOT_BORROWED | IMMUTABLE_BORROWED | MUTABLE_BORROWED

datatype MoveState = NOT_MOVED | MOVED

record VariableState =
  vs_isMoved :: bool
  vs_isBorrowed :: bool
  vs_isMutableBorrow :: bool
  vs_borrowCount :: nat
  vs_scopeLevel :: nat
  vs_activeLifetimes :: "string list"

definition new_VariableState :: VariableState where
  "new_VariableState = \<lparr>vs_isMoved = False, vs_isBorrowed = False, vs_isMutableBorrow = False,
     vs_borrowCount = 0, vs_scopeLevel = 0, vs_activeLifetimes = []\<rparr>"

record tracker =
  variableStates :: "(string \<times> VariableState) list"
  currentScopeLevel :: nat
  scopeVariables :: "string set list"

definition var_state :: "tracker \<Rightarrow> string \<Rightarrow> VariableState option" where
  "var_state t n = map_of (variableStates t) n"

section \<open>Operations\<close>

definition enterScope :: "tracker \<Rightarrow> tracker" where
  "enterScope t = t\<lparr>currentScopeLevel := currentScopeLevel t + 1,
                    scopeVariables := scopeVariables t @ [{}]\<rparr>"

definition new_tracker :: tracker where
  "new_tracker = enterScope \<lparr>variableStates = [], currentScopeLevel = 0, scopeVariables = []\<rparr>"

definition exitScope :: "tracker \<Rightarrow> tracker" where
  "exitScope t =
     (if currentScopeLevel t > 0 then
        (let t1 = (if scopeVariables t \<noteq> [] then
                     t\<lparr>variableStates :=
                         filter (\<lambda>(n, s). n \<notin> last (scopeVariables t)) (variableStates t),
                       scopeVariables := butlast (scopeVariables t)\<rparr>
                   else t)
         in t1\<lparr>currentScopeLevel := currentScopeLevel t1 - 1\<rparr>)
      else t)"

definition addVariable :: "string \<Rightarrow> tracker \<Rightarrow> tracker" where
  "addVariable n t =
     (if currentScopeLevel t > 0 \<and> scopeVariables t \<noteq> [] then
        t\<lparr>scopeVariables := butlast (scopeVariables t) @ [insert n (last (scopeVariables t))],
          variableStates := AList.update n
            (new_VariableState\<lparr>vs_scopeLevel := currentScopeLevel t\<rparr>) (variableStates t)\<rparr>
      else t)"

definition removeVariable :: "string \<Rightarrow> tracker \<Rightarrow> tracker" where
  "removeVariable n t = t\<lparr>variableStates := AList.delete n (variableStates t)\<rparr>"

text \<open>\<open>auto it = variableStates_.find(name); if (it != end()) { \<dots> it->second \<dots> }\<close>\<close>

definition update_var :: "string \<Rightarrow> (VariableState \<Rightarrow> VariableState) \<Rightarrow> tracker \<Rightarrow> tracker" where
  "update_var n f t =
     (case var_state t n of
        None \<Rightarrow> t
      | Some s \<Rightarrow> t\<lparr>variableStates := AList.update n (f s) (variableStates t)\<rparr>)"

definition markAsMoved :: "string \<Rightarrow> tracker \<Rightarrow> tracker" where
  "markAsMoved n = update_var n (\<lambda>s. s\<lparr>vs_isMoved := True\<rparr>)"

definition markAsBorrowed :: "string \<Rightarrow> bool \<Rightarrow> tracker \<Rightarrow> tracker" where
  "markAsBorrowed n isMutable = update_var n (\<lambda>s.
     s\<lparr>vs_isBorrowed := True, vs_isMutableBorrow := isMutable,
       vs_borrowCount := vs_borrowCount s + 1\<rparr>)"

definition markAsUnborrowed :: "string \<Rightarrow> tracker \<Rightarrow> tracker" where
  "markAsUnborrowed n = update_var n (\<lambda>s.
     s\<lparr>vs_isBorrowed := False, vs_isMutableBorrow := False,
       vs_borrowCount := (if vs_borrowCount s > 0 then vs_borrowCount s - 1 else vs_borrowCount s)\<rparr>)"

definition addLifetime :: "string \<Rightarrow> string \<Rightarrow> tracker \<Rightarrow> tracker" where
  "addLifetime n l = update_var n (\<lambda>s. s\<lparr>vs_activeLifetimes := vs_activeLifetimes s @ [l]\<rparr>)"

definition removeLifetime :: "string \<Rightarrow> string \<Rightarrow> tracker \<Rightarrow> tracker" where
  "removeLifetime n l = update_var n (\<lambda>s. s\<lparr>vs_activeLifetimes := removeAll l (vs_activeLifetimes s)\<rparr>)"

definition clear :: "tracker \<Rightarrow> tracker" where
  "clear t = enterScope (t\<lparr>variableStates := [], scopeVariables := [], currentScopeLevel := 0\<rparr>)"

section \<open>Queries\<close>

definition query :: "'a \<Rightarrow> (VariableState \<Rightarrow> 'a) \<Rightarrow> string \<Rightarrow> tracker \<Rightarrow> 'a" where
  "query d f n t = (case var_state t n of None \<Rightarrow> d | Some s \<Rightarrow> f s)"

definition isVariableMoved :: "string \<Rightarrow> tracker \<Rightarrow> bool" where
  "isVariableMoved = query False vs_isMoved"

definition isVariableBorrowed :: "string \<Rightarrow> tracker \<Rightarrow> bool" where
  "isVariableBorrowed = query False vs_isBorrowed"

definition isVariableMutableBorrowed :: "string \<Rightarrow> tracker \<Rightarrow> bool" where
  "isVariableMutableBorrowed = query False vs_isMutableBorrow"

definition canMoveVariable :: "string \<Rightarrow> tracker \<Rightarrow> bool" where
  "canMoveVariable = query True (\<lambda>s. \<not> vs_isMoved s \<and> \<not> vs_isBorrowed s)"

definition canBorrowVariable :: "string \<Rightarrow> bool \<Rightarrow> tracker \<Rightarrow> bool" where
  "canBorrowVariable n isMutable = query True (\<lambda>s.
     if vs_isMoved s then False
     else if isMutable then \<not> vs_isBorrowed s
     else \<not> vs_isMutableBorrow s) n"

definition getVariableLifetimes :: "string \<Rightarrow> tracker \<Rightarrow> string list" where
  "getVariableLifetimes = query [] vs_activeLifetimes"

definition getMovedVariables :: "tracker \<Rightarrow> string list" where
  "getMovedVariables t = map fst (filter (\<lambda>(n, s). vs_isMoved s) (variableStates t))"

definition getBorrowedVariables :: "tracker \<Rightarrow> string list" where
  "getBorrowedVariables t = map fst (filter (\<lambda>(n, s). vs_isBorrowed s) (variableStates t))"

definition getMutableBorrowedVariables :: "tracker \<Rightarrow> string list" where
  "getMutableBorrowedVariables t = map fst (filter (\<lambda>(n, s). vs_isMutableBorrow s) (variableStates t))"

definition getBorrowCount :: "string \<Rightarrow> tracker \<Rightarrow> nat" where
  "getBorrowCount = query 0 vs_borrowCount"

definition getBorrowState :: "string \<Rightarrow> tracker \<Rightarrow> BorrowState" where
  "getBorrowState = query NOT_BORROWED (\<lambda>s.
     if vs_isMutableBorrow s then MUTABLE_BORROWED
     else if vs_isBorrowed s then IMMUTABLE_BORROWED else NOT_BORROWED)"

definition getMoveState :: "string \<Rightarrow> tracker \<Rightarrow> MoveState" where
  "getMoveState = query NOT_MOVED (\<lambda>s. if vs_isMoved s then MOVED else NOT_MOVED)"

section \<open>Steps and invariant\<close>

inductive tracker_step :: "tracker \<Rightarrow> tracker \<Rightarrow> bool" where
  "tracker_step t (enterScope t)"
| "tracker_step t (exitScope t)"
| "tracker_step t (addVariable n t)"
| "tracker_step t (removeVariable n t)"
| "tracker_step t (markAsMoved n t)"
| "tracker_step t (markAsBorrowed n m t)"
| "tracker_step t (markAsUnborrowed n t)"
| "tracker_step t (addLifetime n l t)"
| "tracker_step t (removeLifetime n l t)"
| "tracker_step t (clear t)"

inductive tracker_reachable :: "tracker \<Rightarrow> bool" where
  tracker_start: "tracker_reachable new_tracker"
| tracker_next: "tracker_reachable t \<Longrightarrow> tracker_step t u \<Longrightarrow> tracker_reachable u"

definition var_ok :: "VariableState \<Rightarrow> bool" where
  "var_ok s \<longleftrightarrow> (vs_isMutableBorrow s \<longrightarrow> vs_isBorrowed s) \<and> (vs_isBorrowed s \<longrightarrow> 0 < vs_borrowCount s)"

definition tracker_inv :: "tracker \<Rightarrow> bool" where
  "tracker_inv t \<longleftrightarrow>
     currentScopeLevel t = length (scopeVariables t)
   \<and> distinct (map fst (variableStates t))
   \<and> (\<forall>(n, s) \<in> set (variableStates t). var_ok s \<and> n \<in> \<Union> (set (scopeVariables t)))"

lemma tracker_invI:
  assumes "currentScopeLevel t = length (scopeVariables t)" "distinct (map fst (variableStates t))"
    and "\<And>n s. (n, s) \<in> set (variableStates t) \<Longrightarrow> var_ok s"
    and "\<And>n s. (n, s) \<in> set (variableStates t) \<Longrightarrow> n \<in> \<Union> (set (scopeVariables t))"
  shows "tracker_inv t"
  using assms by (auto simp: tracker_inv_def)

lemma in_update: "(k, v) \<in> set (AList.update n s xs) \<Longrightarrow> k = n \<and> v = s \<or> (k, v) \<in> set xs"
  by (induction xs) (auto split: if_splits)

lemma inv_update_var:
  assumes "tracker_inv t" and "\<And>s. var_ok s \<Longrightarrow> var_ok (f s)"
  shows "tracker_inv (update_var n f t)"
proof (cases "var_state t n")
  case (Some s)
  then have mem: "(n, s) \<in> set (variableStates t)" by (auto simp: var_state_def dest: map_of_SomeD)
  show ?thesis
    using assms mem Some
    by (intro tracker_invI)
       (auto simp: update_var_def tracker_inv_def distinct_update dest!: in_update)
qed (use assms in \<open>simp add: update_var_def\<close>)

lemma tracker_step_inv: "tracker_step t u \<Longrightarrow> tracker_inv t \<Longrightarrow> tracker_inv u"
proof (induction rule: tracker_step.induct)
  case (2 t)
  show ?case
  proof (cases "scopeVariables t" rule: rev_cases)
    case (snoc vs v)
    with 2 show ?thesis
      by (auto simp: exitScope_def tracker_inv_def Let_def distinct_map_filter)
  qed (use 2 in \<open>simp add: exitScope_def tracker_inv_def\<close>)
next
  case (3 t n)
  show ?case
  proof (cases "scopeVariables t" rule: rev_cases)
    case (snoc vs v)
    with 3 show ?thesis
      by (intro tracker_invI)
         (auto simp: addVariable_def tracker_inv_def distinct_update var_ok_def new_VariableState_def
            dest!: in_update)
  qed (use 3 in \<open>simp add: addVariable_def tracker_inv_def\<close>)
qed (auto simp: markAsMoved_def markAsBorrowed_def markAsUnborrowed_def addLifetime_def
      removeLifetime_def var_ok_def intro!: inv_update_var,
     auto simp: enterScope_def removeVariable_def clear_def tracker_inv_def AList.delete_eq distinct_map_filter)

lemma tracker_inv_new: "tracker_inv new_tracker"
  by (simp add: tracker_inv_def new_tracker_def enterScope_def)

section \<open>Lookups after an operation\<close>

lemma var_state_update_var:
  "var_state (update_var n f t) m = (if m = n then map_option f (var_state t n) else var_state t m)"
  by (auto simp: update_var_def var_state_def update_conv split: option.split)

lemma var_state_add:
  "currentScopeLevel t > 0 \<Longrightarrow> scopeVariables t \<noteq> [] \<Longrightarrow>
   var_state (addVariable n t) = (var_state t)(n \<mapsto> new_VariableState\<lparr>vs_scopeLevel := currentScopeLevel t\<rparr>)"
  by (simp add: addVariable_def var_state_def update_conv' fun_eq_iff)

lemma var_state_remove: "var_state (removeVariable n t) = (var_state t)(n := None)"
  by (simp add: removeVariable_def var_state_def AList.delete_conv' fun_eq_iff)

lemma map_of_filter_key: "map_of (filter (\<lambda>(n, s). P n) xs) k = (if P k then map_of xs k else None)"
  by (induction xs) auto

lemma var_state_exit:
  "currentScopeLevel t > 0 \<Longrightarrow> scopeVariables t \<noteq> [] \<Longrightarrow>
   var_state (exitScope t) n = (if n \<in> last (scopeVariables t) then None else var_state t n)"
  by (simp add: exitScope_def var_state_def Let_def map_of_filter_key)

lemmas query_defs = query_def isVariableMoved_def isVariableBorrowed_def
  isVariableMutableBorrowed_def canMoveVariable_def canBorrowVariable_def getBorrowCount_def
  getBorrowState_def getMoveState_def

lemmas mark_defs = markAsMoved_def markAsBorrowed_def markAsUnborrowed_def addLifetime_def
  removeLifetime_def

section \<open>Properties\<close>

text \<open>C9: in every reachable state the scope level is the number of open scopes, every tracked
  variable is tracked once and belongs to an open scope, a mutable borrow is a borrow, and a
  borrowed variable has a positive count.\<close>

theorem tracker_invariant: "tracker_reachable t \<Longrightarrow> tracker_inv t"
  by (induction rule: tracker_reachable.induct) (auto intro: tracker_inv_new tracker_step_inv)

lemma tracker_invariant_witness:
  "tracker_inv (markAsBorrowed ''x'' True (addVariable ''x'' (enterScope new_tracker)))"
  by (intro tracker_invariant tracker_next [OF _ tracker_step.intros(1)]
      tracker_next [OF _ tracker_step.intros(3)] tracker_next [OF _ tracker_step.intros(6)]
      tracker_start)

text \<open>Leaving a scope that was just entered restores the state, and leaving it after a
  declaration forgets the variable of that name: also one of an outer scope that the
  declaration shadowed.\<close>

theorem scope_roundtrip:
  "exitScope (enterScope t) = t
   \<and> var_state (exitScope (addVariable n (enterScope t))) = (var_state t)(n := None)"
proof
  show "exitScope (enterScope t) = t"
    by (simp add: exitScope_def enterScope_def Let_def case_prod_beta)
  show "var_state (exitScope (addVariable n (enterScope t))) = (var_state t)(n := None)"
    by (auto simp: fun_eq_iff var_state_exit enterScope_def addVariable_def var_state_def
        exitScope_def Let_def map_of_filter_key update_conv)
qed

text \<open>C10: after a borrow of a tracked variable that is not moved, a mutable borrow is refused, and a
  further immutable one is allowed exactly when the borrow was immutable; a move is refused.\<close>

theorem borrow_exclusive:
  assumes "var_state t n = Some s" and "\<not> vs_isMoved s"
  shows "(canBorrowVariable n m (markAsBorrowed n b t) \<longleftrightarrow> \<not> m \<and> \<not> b)
    \<and> \<not> canMoveVariable n (markAsBorrowed n b t)"
  using assms by (auto simp: query_defs mark_defs var_state_update_var)

definition one_variable :: tracker where
  "one_variable = addVariable ''x'' new_tracker"

lemma one_variable_state:
  "var_state one_variable ''x'' = Some (new_VariableState\<lparr>vs_scopeLevel := 1\<rparr>)"
  by (simp add: one_variable_def new_tracker_def enterScope_def addVariable_def var_state_def)

lemma borrow_exclusive_witness:
  "canBorrowVariable ''x'' False (markAsBorrowed ''x'' False one_variable)
   \<and> \<not> canBorrowVariable ''x'' True (markAsBorrowed ''x'' False one_variable)"
  using borrow_exclusive [OF one_variable_state] by (simp add: new_VariableState_def)

text \<open>One \<open>markAsUnborrowed\<close> ends every borrow: after two immutable borrows and one release the
  count still is one, and yet a mutable borrow is allowed.\<close>

theorem unborrow_forgets_borrows:
  assumes "var_state t n = Some s" and "\<not> vs_isMoved s" and "vs_borrowCount s = 0"
  shows "getBorrowCount n (markAsUnborrowed n (markAsBorrowed n False (markAsBorrowed n False t))) = 1
    \<and> canBorrowVariable n True (markAsUnborrowed n (markAsBorrowed n False (markAsBorrowed n False t)))"
  using assms by (simp add: query_defs mark_defs var_state_update_var)

lemma unborrow_forgets_borrows_witness:
  "canBorrowVariable ''x'' True
     (markAsUnborrowed ''x'' (markAsBorrowed ''x'' False (markAsBorrowed ''x'' False one_variable)))"
  using unborrow_forgets_borrows [OF one_variable_state] by (simp add: new_VariableState_def)

text \<open>A moved variable stays moved, so it can be neither moved nor borrowed again, until a
  declaration of the same name replaces it or it is no longer tracked.\<close>

theorem moved_is_sticky:
  assumes "tracker_step t u" and "isVariableMoved n t" and "u \<noteq> addVariable n t"
  shows "var_state u n = None
    \<or> isVariableMoved n u \<and> \<not> canMoveVariable n u \<and> (\<forall>m. \<not> canBorrowVariable n m u)"
proof -
  have keep: "isVariableMoved n u \<and> \<not> canMoveVariable n u \<and> (\<forall>m. \<not> canBorrowVariable n m u)"
    if "isVariableMoved n u" for u
    using that by (auto simp: query_defs split: option.splits)
  have same: "isVariableMoved n u" if "var_state u n = var_state t n" for u
    using assms(2) that by (simp add: query_defs)
  have upd: "isVariableMoved n (update_var k f t)" if "\<And>s. vs_isMoved s \<Longrightarrow> vs_isMoved (f s)" for k f
    using assms(2) that by (auto simp: query_defs var_state_update_var split: option.splits)
  from assms(1,3) have "var_state u n = None \<or> isVariableMoved n u"
  proof cases
    case 2
    have "var_state (exitScope t) n = None \<or> var_state (exitScope t) n = var_state t n"
      by (cases "scopeVariables t = []") (auto simp: exitScope_def var_state_def Let_def map_of_filter_key)
    with 2 same show ?thesis by auto
  next
    case (3 k)
    with assms(3) have "var_state u n = var_state t n"
      by (auto simp: addVariable_def var_state_def update_conv)
    with same show ?thesis by blast
  next
    case 1
    with same show ?thesis by (simp add: var_state_def enterScope_def)
  next
    case (4 k)
    with same show ?thesis by (cases "k = n") (auto simp: var_state_remove)
  next
    case 10
    then show ?thesis by (simp add: var_state_def enterScope_def clear_def)
  qed (auto simp: mark_defs intro!: upd)
  with keep show ?thesis by blast
qed

lemma moved_is_sticky_witness:
  "isVariableMoved ''x'' (markAsUnborrowed ''x'' (markAsMoved ''x'' one_variable))"
proof -
  have moved: "isVariableMoved ''x'' (markAsMoved ''x'' one_variable)"
    and tracked: "var_state (markAsUnborrowed ''x'' (markAsMoved ''x'' one_variable)) ''x'' \<noteq> None"
    and moved_state: "markAsUnborrowed ''x'' (markAsMoved ''x'' one_variable)
      \<noteq> addVariable ''x'' (markAsMoved ''x'' one_variable)"
    by code_simp+
  from moved_is_sticky [OF tracker_step.intros(7) moved moved_state] tracked show ?thesis by blast
qed

text \<open>The operations on one variable leave every query on another one as it was.\<close>

theorem tracker_frame:
  assumes "k \<noteq> n"
  shows "var_state (markAsMoved k t) n = var_state t n
    \<and> var_state (markAsBorrowed k m t) n = var_state t n
    \<and> var_state (markAsUnborrowed k t) n = var_state t n
    \<and> var_state (addVariable k t) n = var_state t n
    \<and> var_state (removeVariable k t) n = var_state t n
    \<and> var_state (addLifetime k l t) n = var_state t n
    \<and> var_state (removeLifetime k l t) n = var_state t n"
  using assms
  by (auto simp: mark_defs var_state_update_var var_state_remove)
     (auto simp: addVariable_def var_state_def update_conv)

lemma tracker_frame_witness:
  "var_state (markAsMoved ''y'' one_variable) ''x'' = Some (new_VariableState\<lparr>vs_scopeLevel := 1\<rparr>)"
  using tracker_frame [of "''y''" "''x''" one_variable] one_variable_state by simp

end
