(* ===== verification/Tocin_Ownership_Checker.thy ===== *)
theory Tocin_Ownership_Checker
  imports Tocin_Ownership Tocin_Parser_Shape
begin

text \<open>
  \<open>OwnershipChecker\<close> and \<open>OwnershipUtils\<close> of \<open>src/type/ownership.h\<close> and \<open>src/type/ownership.cpp\<close>. A
  null pointer is \<open>None\<close>. The flags in the maps of the checker are only ever set to true, but the
  maps are modelled with their values, as the source has them.
\<close>

section \<open>Names in expressions\<close>

primrec root_name :: "expr \<Rightarrow> string" where
  "root_name (VariableExpr t n) = n"
| "root_name (GetExpr t ob n) = root_name ob"
| "root_name (BinaryExpr t l op r) = []"
| "root_name (GroupingExpr t e) = []"
| "root_name (LiteralExpr t v k) = []"
| "root_name (UnaryExpr t op e) = []"
| "root_name (AssignExpr t n tg v) = []"
| "root_name (CallExpr t c as) = []"
| "root_name (SetExpr t ob n v) = []"
| "root_name (ListExpr t es) = []"
| "root_name (DictionaryExpr t es) = []"
| "root_name (LambdaExpr t ps r b) = []"
| "root_name (AwaitExpr t e) = []"
| "root_name (NewExpr t e sz) = []"
| "root_name (DeleteExpr t e) = []"
| "root_name (StringInterpolationExpr t ps es) = []"
| "root_name (ChannelSendExpr t c v) = []"
| "root_name (ChannelReceiveExpr t c) = []"
| "root_name (ArrayLiteralExpr t es) = []"

definition getVariableName :: "expr option \<Rightarrow> string" where
  "getVariableName p = (case p of None \<Rightarrow> [] | Some e \<Rightarrow> root_name e)"

definition isVariableExpression :: "expr option \<Rightarrow> bool" where
  "isVariableExpression p =
     (case p of Some (VariableExpr t n) \<Rightarrow> True | Some (GetExpr t ob n) \<Rightarrow> True | _ \<Rightarrow> False)"

definition isAssignmentExpression :: "expr option \<Rightarrow> bool" where
  "isAssignmentExpression p = (case p of Some (AssignExpr t n tg v) \<Rightarrow> True | _ \<Rightarrow> False)"

definition isFunctionCall :: "expr option \<Rightarrow> bool" where
  "isFunctionCall p = (case p of Some (CallExpr t c as) \<Rightarrow> True | _ \<Rightarrow> False)"

section \<open>The checker\<close>

record ownership_checker =
  oc_handler :: ErrorHandler
  movedVariables :: "string \<Rightarrow> bool option"
  borrowedVariables :: "string \<Rightarrow> bool option"
  mutableBorrows :: "string \<Rightarrow> bool option"
  borrowCounts :: "string \<Rightarrow> nat option"
  oc_level :: nat
  oc_scopes :: "string set list"

definition oc_enterScope :: "ownership_checker \<Rightarrow> ownership_checker" where
  "oc_enterScope s = s\<lparr>oc_level := oc_level s + 1, oc_scopes := oc_scopes s @ [{}]\<rparr>"

definition new_OwnershipChecker :: "ErrorHandler \<Rightarrow> ownership_checker" where
  "new_OwnershipChecker h = oc_enterScope
     \<lparr>oc_handler = h, movedVariables = (\<lambda>_. None), borrowedVariables = (\<lambda>_. None),
      mutableBorrows = (\<lambda>_. None), borrowCounts = (\<lambda>_. None), oc_level = 0, oc_scopes = []\<rparr>"

definition forget :: "string set \<Rightarrow> (string \<Rightarrow> 'a option) \<Rightarrow> string \<Rightarrow> 'a option" where
  "forget ns m n = (if n \<in> ns then None else m n)"

definition oc_exitScope :: "ownership_checker \<Rightarrow> ownership_checker" where
  "oc_exitScope s =
     (if oc_level s > 0 then
        (let s1 = (if oc_scopes s \<noteq> [] then
                     (let ns = last (oc_scopes s) in
                      s\<lparr>movedVariables := forget ns (movedVariables s),
                        borrowedVariables := forget ns (borrowedVariables s),
                        mutableBorrows := forget ns (mutableBorrows s),
                        borrowCounts := forget ns (borrowCounts s),
                        oc_scopes := butlast (oc_scopes s)\<rparr>)
                   else s)
         in s1\<lparr>oc_level := oc_level s1 - 1\<rparr>)
      else s)"

definition addVariableToScope :: "string \<Rightarrow> ownership_checker \<Rightarrow> ownership_checker" where
  "addVariableToScope n s =
     (if oc_level s > 0 \<and> oc_scopes s \<noteq> [] then
        s\<lparr>oc_scopes := butlast (oc_scopes s) @ [insert n (last (oc_scopes s))]\<rparr>
      else s)"

definition isVariableInScope :: "string \<Rightarrow> ownership_checker \<Rightarrow> bool" where
  "isVariableInScope n s = list_ex (\<lambda>sc. n \<in> sc) (oc_scopes s)"

definition clearScopeVariables :: "ownership_checker \<Rightarrow> ownership_checker" where
  "clearScopeVariables s =
     s\<lparr>oc_scopes := [], movedVariables := (\<lambda>_. None), borrowedVariables := (\<lambda>_. None),
       mutableBorrows := (\<lambda>_. None), borrowCounts := (\<lambda>_. None)\<rparr>"

definition reportOwnershipError :: "string \<Rightarrow> ownership_checker \<Rightarrow> ownership_checker" where
  "reportOwnershipError msg s =
     s\<lparr>oc_handler := record_error (Ownership B009_INVALID_OWNERSHIP) msg
         (defaultFilename (oc_handler s)) 0 0 ERROR_SEVERITY (oc_handler s)\<rparr>"

subsection \<open>Queries\<close>

definition canMove :: "expr option \<Rightarrow> ownership_checker \<Rightarrow> bool" where
  "canMove p s =
     (if p = None then False
      else let n = getVariableName p in
        if n = [] then True
        else if movedVariables s n \<noteq> None then False
        else if borrowedVariables s n \<noteq> None then False
        else True)"

definition shouldMove :: "expr option \<Rightarrow> bool" where
  "shouldMove p =
     (if p = None then False else isAssignmentExpression p \<or> isFunctionCall p)"

definition isBorrowed :: "expr option \<Rightarrow> ownership_checker \<Rightarrow> bool" where
  "isBorrowed p s =
     (if p = None then False
      else let n = getVariableName p in
        if n = [] then False else borrowedVariables s n \<noteq> None)"

definition isMutable :: "expr option \<Rightarrow> ownership_checker \<Rightarrow> bool" where
  "isMutable p s =
     (if p = None then False
      else let n = getVariableName p in
        if n = [] then False
        else (case mutableBorrows s n of None \<Rightarrow> False | Some b \<Rightarrow> b))"

definition hasConflictingBorrows :: "expr option \<Rightarrow> ownership_checker \<Rightarrow> bool" where
  "hasConflictingBorrows p s =
     (if p = None then False
      else let n = getVariableName p in
        if n = [] then False
        else (let hasMutable = (mutableBorrows s n \<noteq> None);
                  hasImmutable = (borrowedVariables s n \<noteq> None)
              in hasMutable \<and> hasImmutable))"

definition isBorrowValid :: "expr option \<Rightarrow> expr option \<Rightarrow> ownership_checker \<Rightarrow> bool" where
  "isBorrowValid borrowed borrower s =
     (if borrowed = None \<or> borrower = None then False
      else let b = getVariableName borrowed; r = getVariableName borrower in
        if b = [] \<or> r = [] then True
        else if movedVariables s b \<noteq> None then False
        else True)"

definition checkMoveValidity :: "expr option \<Rightarrow> expr option \<Rightarrow> ownership_checker \<Rightarrow> bool" where
  "checkMoveValidity from to s =
     (if from = None \<or> to = None then False
      else if \<not> canMove from s then False
      else let t = getVariableName to in
        if t \<noteq> [] \<and> borrowedVariables s t \<noteq> None then False else True)"

definition isMoveSafe :: "expr option \<Rightarrow> ownership_checker \<Rightarrow> bool" where
  "isMoveSafe p s =
     (if p = None then False
      else let n = getVariableName p in
        if n = [] then True else \<not> isBorrowed p s \<and> \<not> isVariableExpression p)"

subsection \<open>Updates\<close>

definition oc_markAsMoved :: "expr option \<Rightarrow> ownership_checker \<Rightarrow> ownership_checker" where
  "oc_markAsMoved p s =
     (if p = None then s
      else let n = getVariableName p in
        if n \<noteq> [] then s\<lparr>movedVariables := (movedVariables s)(n \<mapsto> True)\<rparr> else s)"

text \<open>\<open>borrowCounts_[n]++\<close> on a missing key starts from 0.\<close>

definition oc_markAsBorrowed :: "expr option \<Rightarrow> bool \<Rightarrow> ownership_checker \<Rightarrow> ownership_checker" where
  "oc_markAsBorrowed p mut s =
     (if p = None then s
      else let n = getVariableName p in
        if n \<noteq> [] then
          s\<lparr>borrowedVariables := (borrowedVariables s)(n \<mapsto> True),
            mutableBorrows := (if mut then (mutableBorrows s)(n \<mapsto> True) else mutableBorrows s),
            borrowCounts := (borrowCounts s)
              (n \<mapsto> (case borrowCounts s n of None \<Rightarrow> 0 | Some k \<Rightarrow> k) + 1)\<rparr>
        else s)"

definition canTransferOwnership :: "expr option \<Rightarrow> expr option \<Rightarrow> ownership_checker \<Rightarrow> bool" where
  "canTransferOwnership = checkMoveValidity"

definition transferOwnership ::
  "expr option \<Rightarrow> expr option \<Rightarrow> ownership_checker \<Rightarrow> bool \<times> ownership_checker" where
  "transferOwnership from to s =
     (if \<not> canTransferOwnership from to s then (False, s) else (True, oc_markAsMoved from s))"

subsection \<open>Checks\<close>

definition checkVariableOwnership :: "string \<Rightarrow> ownership_checker \<Rightarrow> bool \<times> ownership_checker" where
  "checkVariableOwnership n s =
     (if n = [] then (True, s)
      else if movedVariables s n \<noteq> None then
        (False, reportOwnershipError (''Use of moved variable: '' @ n) s)
      else (True, s))"

definition checkBorrowRules :: "expr option \<Rightarrow> ownership_checker \<Rightarrow> bool \<times> ownership_checker" where
  "checkBorrowRules p s =
     (if p = None then (True, s)
      else if hasConflictingBorrows p s then
        (False, reportOwnershipError ''Conflicting borrows detected'' s)
      else (True, s))"

definition checkExpressionOwnership :: "expr option \<Rightarrow> ownership_checker \<Rightarrow> bool \<times> ownership_checker" where
  "checkExpressionOwnership p s =
     (if p = None then (True, s)
      else let n = getVariableName p;
               (ok, s1) = (if n \<noteq> [] then checkVariableOwnership n s else (True, s))
           in if \<not> ok then (False, s1)
              else let (ok2, s2) = checkBorrowRules p s1 in
                if \<not> ok2 then (False, s2) else (True, s2))"

definition checkStatementOwnership :: "stmt option \<Rightarrow> ownership_checker \<Rightarrow> bool \<times> ownership_checker" where
  "checkStatementOwnership p s = (True, s)"

text \<open>The handlers of exceptions around the two checks are left out: nothing below them throws.\<close>

definition checkExpression :: "expr option \<Rightarrow> ownership_checker \<Rightarrow> bool \<times> ownership_checker" where
  "checkExpression p s = (if p = None then (True, s) else checkExpressionOwnership p s)"

definition checkStatement :: "stmt option \<Rightarrow> ownership_checker \<Rightarrow> bool \<times> ownership_checker" where
  "checkStatement p s = (if p = None then (True, s) else checkStatementOwnership p s)"

record Lifetime =
  lt_name :: string
  lt_scopeLevel :: nat
  lt_isStatic :: bool
  lt_dependencies :: "string list"

definition analyzeLifetimes ::
  "stmt option \<Rightarrow> ownership_checker \<Rightarrow> Lifetime list \<Rightarrow> bool \<times> Lifetime list" where
  "analyzeLifetimes p s ls =
     (if p = None then (True, ls)
      else (True, ls @ [\<lparr>lt_name = ''lifetime_'' @ show_nat (length ls), lt_scopeLevel = oc_level s,
                         lt_isStatic = False, lt_dependencies = []\<rparr>]))"

definition checkLifetimeValidity :: "string \<Rightarrow> Lifetime list \<Rightarrow> bool" where
  "checkLifetimeValidity l ls = list_ex (\<lambda>x. lt_name x = l) ls"

section \<open>What the checker decides\<close>

text \<open>\<open>checkFunction\<close> looks at nothing: its argument is of a class without a definition.\<close>

definition checkFunction :: "ownership_checker \<Rightarrow> bool \<times> ownership_checker" where
  "checkFunction s = (True, s)"

text \<open>The public calls of the class. A null pointer is \<open>None\<close>.\<close>

datatype oc_call =
    Check_Expression "expr option"
  | Check_Statement "stmt option"
  | Check_Function
  | Can_Move "expr option"
  | Should_Move "expr option"
  | Is_Borrowed "expr option"
  | Is_Mutable "expr option"
  | Analyze_Lifetimes "stmt option" "Lifetime list"
  | Check_Lifetime string "Lifetime list"
  | Check_Borrow_Rules "expr option"
  | Has_Conflicting_Borrows "expr option"
  | Is_Borrow_Valid "expr option" "expr option"
  | Check_Move_Validity "expr option" "expr option"
  | Is_Move_Safe "expr option"
  | Mark_As_Moved "expr option"
  | Mark_As_Borrowed "expr option" bool
  | Can_Transfer "expr option" "expr option"
  | Transfer "expr option" "expr option"
  | Report_Error string

datatype oc_answer = Says bool | No_Answer | Lifetimes_Now bool "Lifetime list"

definition says :: "bool \<times> ownership_checker \<Rightarrow> oc_answer \<times> ownership_checker" where
  "says r = (Says (fst r), snd r)"

primrec run_call :: "oc_call \<Rightarrow> ownership_checker \<Rightarrow> oc_answer \<times> ownership_checker" where
  "run_call (Check_Expression p) s = says (checkExpression p s)"
| "run_call (Check_Statement p) s = says (checkStatement p s)"
| "run_call Check_Function s = says (checkFunction s)"
| "run_call (Can_Move p) s = (Says (canMove p s), s)"
| "run_call (Should_Move p) s = (Says (shouldMove p), s)"
| "run_call (Is_Borrowed p) s = (Says (isBorrowed p s), s)"
| "run_call (Is_Mutable p) s = (Says (isMutable p s), s)"
| "run_call (Analyze_Lifetimes p ls) s =
     (Lifetimes_Now (fst (analyzeLifetimes p s ls)) (snd (analyzeLifetimes p s ls)), s)"
| "run_call (Check_Lifetime l ls) s = (Says (checkLifetimeValidity l ls), s)"
| "run_call (Check_Borrow_Rules p) s = says (checkBorrowRules p s)"
| "run_call (Has_Conflicting_Borrows p) s = (Says (hasConflictingBorrows p s), s)"
| "run_call (Is_Borrow_Valid p q) s = (Says (isBorrowValid p q s), s)"
| "run_call (Check_Move_Validity p q) s = (Says (checkMoveValidity p q s), s)"
| "run_call (Is_Move_Safe p) s = (Says (isMoveSafe p s), s)"
| "run_call (Mark_As_Moved p) s = (No_Answer, oc_markAsMoved p s)"
| "run_call (Mark_As_Borrowed p m) s = (No_Answer, oc_markAsBorrowed p m s)"
| "run_call (Can_Transfer p q) s = (Says (canTransferOwnership p q s), s)"
| "run_call (Transfer p q) s = says (transferOwnership p q s)"
| "run_call (Report_Error msg) s = (No_Answer, reportOwnershipError msg s)"

type_synonym history = "(oc_call \<times> oc_answer) list"

text \<open>A client's calls, each with the answer it got.\<close>

primrec oc_session :: "oc_call list \<Rightarrow> ownership_checker \<Rightarrow> history \<times> ownership_checker" where
  "oc_session [] s = ([], s)"
| "oc_session (c # cs) s =
     (let (a, s1) = run_call c s; (r, t) = oc_session cs s1 in ((c, a) # r, t))"

subsection \<open>The specification\<close>

text \<open>What is known of a name is what the earlier calls said of it. It was moved if it was marked
  or given away in a transfer that was granted, and borrowed if it was marked; no call ends either.\<close>

definition names :: "string \<Rightarrow> expr option \<Rightarrow> bool" where
  "names n p \<longleftrightarrow> n \<noteq> [] \<and> getVariableName p = n"

definition moves_name :: "string \<Rightarrow> oc_call \<times> oc_answer \<Rightarrow> bool" where
  "moves_name n x \<longleftrightarrow>
     (case fst x of
        Mark_As_Moved p \<Rightarrow> names n p
      | Transfer p q \<Rightarrow> names n p \<and> snd x = Says True
      | _ \<Rightarrow> False)"

definition borrows_name :: "bool \<Rightarrow> string \<Rightarrow> oc_call \<times> oc_answer \<Rightarrow> bool" where
  "borrows_name need_mutable n x \<longleftrightarrow>
     (case fst x of Mark_As_Borrowed p m \<Rightarrow> names n p \<and> (need_mutable \<longrightarrow> m) | _ \<Rightarrow> False)"

definition moved_in :: "history \<Rightarrow> string \<Rightarrow> bool" where
  "moved_in h n \<longleftrightarrow> list_ex (moves_name n) h"

definition borrowed_in :: "bool \<Rightarrow> history \<Rightarrow> string \<Rightarrow> bool" where
  "borrowed_in need_mutable h n \<longleftrightarrow> list_ex (borrows_name need_mutable n) h"

text \<open>An expression without a variable at its root is free of all rules. A variable may be moved
  while it was neither moved nor borrowed, and used while it was neither moved nor borrowed mutably:
  a mutable borrow conflicts with itself. No expression with a variable at its root is safe to
  move.\<close>

definition movable :: "history \<Rightarrow> expr option \<Rightarrow> bool" where
  "movable h p \<longleftrightarrow> p \<noteq> None
     \<and> \<not> moved_in h (getVariableName p) \<and> \<not> borrowed_in False h (getVariableName p)"

definition transferable :: "history \<Rightarrow> expr option \<Rightarrow> expr option \<Rightarrow> bool" where
  "transferable h p q \<longleftrightarrow> movable h p \<and> q \<noteq> None \<and> \<not> borrowed_in False h (getVariableName q)"

primrec expected :: "history \<Rightarrow> oc_call \<Rightarrow> oc_answer" where
  "expected h (Check_Expression p) =
     Says (\<not> moved_in h (getVariableName p) \<and> \<not> borrowed_in True h (getVariableName p))"
| "expected h (Check_Statement p) = Says True"
| "expected h Check_Function = Says True"
| "expected h (Can_Move p) = Says (movable h p)"
| "expected h (Should_Move p) =
     Says (case p of Some (AssignExpr t n tg v) \<Rightarrow> True | Some (CallExpr t c as) \<Rightarrow> True | _ \<Rightarrow> False)"
| "expected h (Is_Borrowed p) = Says (borrowed_in False h (getVariableName p))"
| "expected h (Is_Mutable p) = Says (borrowed_in True h (getVariableName p))"
| "expected h (Analyze_Lifetimes p ls) =
     Lifetimes_Now True (if p = None then ls
       else ls @ [\<lparr>lt_name = ''lifetime_'' @ show_nat (length ls), lt_scopeLevel = 1,
                   lt_isStatic = False, lt_dependencies = []\<rparr>])"
| "expected h (Check_Lifetime l ls) = Says (l \<in> lt_name ` set ls)"
| "expected h (Check_Borrow_Rules p) = Says (\<not> borrowed_in True h (getVariableName p))"
| "expected h (Has_Conflicting_Borrows p) = Says (borrowed_in True h (getVariableName p))"
| "expected h (Is_Borrow_Valid p q) =
     Says (p \<noteq> None \<and> q \<noteq> None \<and> (getVariableName q = [] \<or> \<not> moved_in h (getVariableName p)))"
| "expected h (Check_Move_Validity p q) = Says (transferable h p q)"
| "expected h (Is_Move_Safe p) = Says (p \<noteq> None \<and> getVariableName p = [])"
| "expected h (Mark_As_Moved p) = No_Answer"
| "expected h (Mark_As_Borrowed p m) = No_Answer"
| "expected h (Can_Transfer p q) = Says (transferable h p q)"
| "expected h (Transfer p q) = Says (transferable h p q)"
| "expected h (Report_Error msg) = No_Answer"

text \<open>The messages a call leaves in the error handler.\<close>

definition complaint :: "history \<Rightarrow> oc_call \<Rightarrow> string list" where
  "complaint h c =
     (case c of
        Report_Error msg \<Rightarrow> [msg]
      | Check_Expression p \<Rightarrow>
          (if moved_in h (getVariableName p) then [''Use of moved variable: '' @ getVariableName p]
           else if borrowed_in True h (getVariableName p) then [''Conflicting borrows detected''] else [])
      | Check_Borrow_Rules p \<Rightarrow>
          (if borrowed_in True h (getVariableName p) then [''Conflicting borrows detected''] else [])
      | _ \<Rightarrow> [])"

primrec expected_session :: "history \<Rightarrow> oc_call list \<Rightarrow> history" where
  "expected_session h [] = []"
| "expected_session h (c # cs) =
     (c, expected h c) # expected_session (h @ [(c, expected h c)]) cs"

primrec complaints :: "history \<Rightarrow> oc_call list \<Rightarrow> string list" where
  "complaints h [] = []"
| "complaints h (c # cs) = complaint h c @ complaints (h @ [(c, expected h c)]) cs"

subsection \<open>The refinement\<close>

text \<open>The maps of the checker hold exactly what the history says.\<close>

definition remembers :: "ownership_checker \<Rightarrow> history \<Rightarrow> bool" where
  "remembers s h \<longleftrightarrow>
     (\<forall>n. movedVariables s n = (if moved_in h n then Some True else None)
        \<and> borrowedVariables s n = (if borrowed_in False h n then Some True else None)
        \<and> mutableBorrows s n = (if borrowed_in True h n then Some True else None))
   \<and> oc_level s = 1"

lemma known_append [simp]:
  "moved_in (h @ [x]) n \<longleftrightarrow> moved_in h n \<or> moves_name n x"
  "borrowed_in m (h @ [x]) n \<longleftrightarrow> borrowed_in m h n \<or> borrows_name m n x"
  "\<not> moved_in [] n" "\<not> borrowed_in m [] n"
  by (auto simp: moved_in_def borrowed_in_def)

lemma known_by_name:
  "moves_name n x \<Longrightarrow> n \<noteq> []" "borrows_name m n x \<Longrightarrow> n \<noteq> []" "borrows_name True n x \<Longrightarrow> borrows_name False n x"
  by (auto simp: moves_name_def borrows_name_def names_def split: oc_call.splits)

lemma known_names:
  "moved_in h n \<Longrightarrow> n \<noteq> []" "borrowed_in m h n \<Longrightarrow> n \<noteq> []" "borrowed_in True h n \<Longrightarrow> borrowed_in False h n"
  by (auto simp: moved_in_def borrowed_in_def list_ex_iff dest: known_by_name)

lemma known_nothing [simp]: "\<not> moved_in h []" "\<not> borrowed_in m h []"
  by (auto dest: known_names)

lemma no_name [simp]: "getVariableName None = []"
  by (simp add: getVariableName_def)

lemma remembers_sel:
  assumes "remembers s h"
  shows "movedVariables s n = (if moved_in h n then Some True else None)"
    and "borrowedVariables s n = (if borrowed_in False h n then Some True else None)"
    and "mutableBorrows s n = (if borrowed_in True h n then Some True else None)"
    and "oc_level s = 1"
  using assms by (simp_all add: remembers_def)

lemma named_is_variable: "getVariableName p \<noteq> [] \<Longrightarrow> isVariableExpression p"
  by (cases "the p") (auto simp: getVariableName_def isVariableExpression_def split: option.splits)

lemma asked:
  assumes "remembers s h"
  shows "canMove p s \<longleftrightarrow> movable h p" "checkMoveValidity p q s \<longleftrightarrow> transferable h p q"
    and "isBorrowed p s \<longleftrightarrow> borrowed_in False h (getVariableName p)"
    and "isMutable p s \<longleftrightarrow> borrowed_in True h (getVariableName p)"
    and "hasConflictingBorrows p s \<longleftrightarrow> borrowed_in True h (getVariableName p)"
    and "isMoveSafe p s \<longleftrightarrow> p \<noteq> None \<and> getVariableName p = []"
    and "isBorrowValid p q s \<longleftrightarrow>
      p \<noteq> None \<and> q \<noteq> None \<and> (getVariableName q = [] \<or> \<not> moved_in h (getVariableName p))"
proof -
  note m = remembers_sel [OF assms]
  show "canMove p s \<longleftrightarrow> movable h p"
    by (simp add: canMove_def movable_def Let_def m)
  then show "checkMoveValidity p q s \<longleftrightarrow> transferable h p q"
    by (auto simp: checkMoveValidity_def transferable_def movable_def Let_def m)
  show "isBorrowed p s \<longleftrightarrow> borrowed_in False h (getVariableName p)"
    by (auto simp: isBorrowed_def Let_def m)
  show "isMutable p s \<longleftrightarrow> borrowed_in True h (getVariableName p)"
    by (auto simp: isMutable_def Let_def m)
  show "hasConflictingBorrows p s \<longleftrightarrow> borrowed_in True h (getVariableName p)"
    by (auto simp: hasConflictingBorrows_def Let_def m dest: known_names(3))
  show "isMoveSafe p s \<longleftrightarrow> p \<noteq> None \<and> getVariableName p = []"
    using named_is_variable [of p] by (auto simp: isMoveSafe_def Let_def)
  show "isBorrowValid p q s \<longleftrightarrow>
      p \<noteq> None \<and> q \<noteq> None \<and> (getVariableName q = [] \<or> \<not> moved_in h (getVariableName p))"
    by (auto simp: isBorrowValid_def Let_def m)
qed

lemma remembers_quiet:
  assumes "remembers s h" and "\<And>n. \<not> moves_name n x" "\<And>m n. \<not> borrows_name m n x"
    and "movedVariables t = movedVariables s" "borrowedVariables t = borrowedVariables s"
      "mutableBorrows t = mutableBorrows s" "oc_level t = oc_level s"
  shows "remembers t (h @ [x])"
  using assms by (simp add: remembers_def)

lemma remembers_moved:
  assumes "remembers s h" and "\<And>n. moves_name n x \<longleftrightarrow> names n p" "\<And>m n. \<not> borrows_name m n x"
  shows "remembers (oc_markAsMoved p s) (h @ [x])"
  using assms by (auto simp: remembers_def oc_markAsMoved_def names_def Let_def)

lemma remembers_borrowed:
  assumes "remembers s h"
  shows "remembers (oc_markAsBorrowed p m s) (h @ [(Mark_As_Borrowed p m, a)])"
  using assms
  by (auto simp: remembers_def oc_markAsBorrowed_def moves_name_def borrows_name_def names_def Let_def)

abbreviation oc_messages :: "ownership_checker \<Rightarrow> string list" where
  "oc_messages s \<equiv> map emessage (errors (oc_handler s))"

lemma reported [simp]:
  "oc_messages (reportOwnershipError msg s) = oc_messages s @ [msg]"
  "movedVariables (reportOwnershipError msg s) = movedVariables s"
  "borrowedVariables (reportOwnershipError msg s) = borrowedVariables s"
  "mutableBorrows (reportOwnershipError msg s) = mutableBorrows s"
  "oc_level (reportOwnershipError msg s) = oc_level s"
  by (simp_all add: reportOwnershipError_def record_error_def Let_def)

lemma marked_messages [simp]:
  "oc_handler (oc_markAsMoved p s) = oc_handler s" "oc_handler (oc_markAsBorrowed p m s) = oc_handler s"
  by (simp_all add: oc_markAsMoved_def oc_markAsBorrowed_def Let_def)

lemma call_expected:
  assumes "remembers s h"
  shows "fst (run_call c s) = expected h c"
    and "remembers (snd (run_call c s)) (h @ [(c, expected h c)])"
    and "oc_messages (snd (run_call c s)) = oc_messages s @ complaint h c"
proof -
  note m = remembers_sel [OF assms] and a = asked [OF assms]
  note quiet = remembers_quiet [OF assms]
  have t: "transferOwnership p q s = (if transferable h p q then (True, oc_markAsMoved p s) else (False, s))"
    for p q
    by (simp add: transferOwnership_def canTransferOwnership_def a)
  have b: "checkBorrowRules p s =
      (if borrowed_in True h (getVariableName p) then
         (False, reportOwnershipError ''Conflicting borrows detected'' s) else (True, s))" for p
    by (auto simp: checkBorrowRules_def a)
  have v: "checkVariableOwnership n s =
      (if moved_in h n then (False, reportOwnershipError (''Use of moved variable: '' @ n) s)
       else (True, s))" for n
    by (auto simp: checkVariableOwnership_def m)
  have e: "checkExpression p s =
      (if moved_in h (getVariableName p) then
         (False, reportOwnershipError (''Use of moved variable: '' @ getVariableName p) s)
       else checkBorrowRules p s)" for p
    by (auto simp: checkExpression_def checkExpressionOwnership_def Let_def v b)
  show "fst (run_call c s) = expected h c"
    by (cases c)
       (auto simp: says_def a t b e m checkStatement_def checkStatementOwnership_def checkFunction_def
          shouldMove_def isAssignmentExpression_def isFunctionCall_def analyzeLifetimes_def
          checkLifetimeValidity_def list_ex_iff canTransferOwnership_def
          split: option.splits expr.splits)
  show "remembers (snd (run_call c s)) (h @ [(c, expected h c)])"
    by (cases c)
       (auto simp: says_def t b e moves_name_def borrows_name_def checkStatement_def
          checkStatementOwnership_def checkFunction_def
          intro!: quiet remembers_moved [OF assms] remembers_borrowed [OF assms])
  show "oc_messages (snd (run_call c s)) = oc_messages s @ complaint h c"
    by (cases c)
       (auto simp: says_def t b e complaint_def checkStatement_def checkStatementOwnership_def
          checkFunction_def)
qed

lemma session_expected:
  "remembers s h \<Longrightarrow> fst (oc_session cs s) = expected_session h cs
     \<and> oc_messages (snd (oc_session cs s)) = oc_messages s @ complaints h cs"
proof (induction cs arbitrary: s h)
  case (Cons c cs)
  note call = call_expected [OF Cons.prems, of c]
  show ?case
    using Cons.IH [OF call(2)] call(1,3) by (simp add: case_prod_beta Let_def)
qed simp

lemma remembers_new: "remembers (new_OwnershipChecker h) []"
  by (simp add: remembers_def new_OwnershipChecker_def oc_enterScope_def)

text \<open>C17: In every sequence of public calls, on any expressions and null pointers, a new ownership checker
  gives each call the answer that the earlier calls determine, and leaves exactly the messages they
  determine in the error handler. The specification knows only the calls and their answers: which names were marked
  as moved or given away in a granted transfer, and which were marked as borrowed, mutably or
  not.\<close>

theorem ownership_refines_rules:
  "fst (oc_session cs (new_OwnershipChecker h)) = expected_session [] cs
   \<and> oc_messages (snd (oc_session cs (new_OwnershipChecker h))) = map emessage (errors h) @ complaints [] cs"
  using session_expected [OF remembers_new, of cs h]
  by (simp add: new_OwnershipChecker_def oc_enterScope_def)

lemma expected_session_append:
  "expected_session h (cs @ [c]) =
     expected_session h cs @ [(c, expected (h @ expected_session h cs) c)]"
  by (induction cs arbitrary: h) simp_all

lemma expected_session_calls: "c \<in> set cs \<Longrightarrow> \<exists>a. (c, a) \<in> set (expected_session h cs)"
  by (induction cs arbitrary: h) auto

text \<open>A variable that was moved, or borrowed mutably even once, fails every later check,
  whatever is called in between; the borrow conflicts with itself, and no call ends it.\<close>

theorem mark_is_final:
  assumes "getVariableName p \<noteq> []" and "getVariableName q = getVariableName p"
    and "Mark_As_Moved p \<in> set cs \<or> Mark_As_Borrowed p True \<in> set cs"
  shows "snd (last (fst (oc_session (cs @ [Check_Expression q]) (new_OwnershipChecker h)))) = Says False"
proof -
  have "moved_in (expected_session [] cs) (getVariableName q)
      \<or> borrowed_in True (expected_session [] cs) (getVariableName q)"
    using assms(3)
  proof
    assume "Mark_As_Moved p \<in> set cs"
    then obtain a where "(Mark_As_Moved p, a) \<in> set (expected_session [] cs)"
      using expected_session_calls by blast
    then show ?thesis
      using assms(1,2) by (force simp: moved_in_def list_ex_iff moves_name_def names_def)
  next
    assume "Mark_As_Borrowed p True \<in> set cs"
    then obtain a where "(Mark_As_Borrowed p True, a) \<in> set (expected_session [] cs)"
      using expected_session_calls by blast
    then show ?thesis
      using assms(1,2) by (force simp: borrowed_in_def list_ex_iff borrows_name_def names_def)
  qed
  then show ?thesis
    using session_expected [OF remembers_new, of "cs @ [Check_Expression q]" h]
    by (auto simp: expected_session_append)
qed

lemma mark_is_final_witness:
  "snd (last (fst (oc_session
      ([Mark_As_Borrowed (Some (VariableExpr default_token ''x'')) True, Is_Mutable None]
       @ [Check_Expression (Some (GetExpr default_token (VariableExpr default_token ''x'') ''f''))])
      (new_OwnershipChecker new_ErrorHandler)))) = Says False"
  by (rule mark_is_final [of "Some (VariableExpr default_token ''x'')"]) (simp_all add: getVariableName_def)

section \<open>OwnershipUtils\<close>

subsection \<open>Names and expressions\<close>

definition isOwnedVariable :: "string \<Rightarrow> bool" where
  "isOwnedVariable n \<longleftrightarrow> starts_with ''owned_'' n \<or> starts_with ''own_'' n"

definition isBorrowedVariable :: "string \<Rightarrow> bool" where
  "isBorrowedVariable n \<longleftrightarrow> starts_with ''borrowed_'' n \<or> starts_with ''ref_'' n"

definition isMutableVariable :: "string \<Rightarrow> bool" where
  "isMutableVariable n \<longleftrightarrow> starts_with ''mut_'' n \<or> starts_with ''mutable_'' n"

definition unary_operator :: "expr option \<Rightarrow> TokenType option" where
  "unary_operator p = (case p of Some (UnaryExpr t op e) \<Rightarrow> Some (ttype op) | _ \<Rightarrow> None)"

definition isMoveExpression :: "expr option \<Rightarrow> bool" where
  "isMoveExpression p \<longleftrightarrow> unary_operator p = Some (Kw3 MOVE)"

definition isBorrowExpression :: "expr option \<Rightarrow> bool" where
  "isBorrowExpression p \<longleftrightarrow>
     unary_operator p = Some (Kw3 BORROW) \<or> unary_operator p = Some (Kw3 MUTABLE_BORROW)"

definition isMutableBorrowExpression :: "expr option \<Rightarrow> bool" where
  "isMutableBorrowExpression p \<longleftrightarrow> unary_operator p = Some (Kw3 MUTABLE_BORROW)"

definition isImmutableBorrowExpression :: "expr option \<Rightarrow> bool" where
  "isImmutableBorrowExpression p \<longleftrightarrow> unary_operator p = Some (Kw3 BORROW)"

subsection \<open>Types\<close>

definition isOwnedType :: "type option \<Rightarrow> bool" where
  "isOwnedType p =
     (case p of
        None \<Rightarrow> False
      | Some ty \<Rightarrow>
          (let s = type_toString ty in
           if s \<in> {''int'', ''float'', ''bool'', ''string'', ''char''} then True
           else if starts_with ''Array<'' s \<or> starts_with ''Box<'' s then True
           else False))"

definition isBorrowedType :: "type option \<Rightarrow> bool" where
  "isBorrowedType p =
     (case p of None \<Rightarrow> False
      | Some ty \<Rightarrow> (let s = type_toString ty in starts_with ''&'' s \<or> starts_with ''Ref<'' s))"

definition isMutableType :: "type option \<Rightarrow> bool" where
  "isMutableType p =
     (case p of None \<Rightarrow> False
      | Some ty \<Rightarrow> (let s = type_toString ty in starts_with ''mut '' s \<or> starts_with ''&mut '' s))"

definition named_type :: "string \<Rightarrow> type" where
  "named_type s = SimpleType (Token (Lit IDENTIFIER) s [] 0 0)"

text \<open>\<open>substr(find(" ") + 1)\<close>: when there is no blank, \<open>npos + 1\<close> wraps around to 0.\<close>

definition makeOwnedType :: "type option \<Rightarrow> type option" where
  "makeOwnedType p =
     (case p of
        None \<Rightarrow> None
      | Some ty \<Rightarrow>
          (let s = type_toString ty;
               s1 = (if starts_with ''&'' s then
                       (case str_find '' '' s of None \<Rightarrow> drop 0 s | Some i \<Rightarrow> drop (i + 1) s)
                     else s)
           in Some (named_type s1)))"

definition makeBorrowedType :: "type option \<Rightarrow> bool \<Rightarrow> type option" where
  "makeBorrowedType p mut =
     (case p of
        None \<Rightarrow> None
      | Some ty \<Rightarrow>
          (let s = type_toString ty in
           Some (named_type (if mut then ''&mut '' @ s else ''&'' @ s))))"

lemma named_type_string [simp]: "type_toString (named_type s) = s"
  by (simp add: named_type_def)

text \<open>\<open>makeOwnedType\<close> undoes \<open>makeBorrowedType\<close> for mutable references. For shared ones it
  never removes the marker alone: without a blank in the name the marker stays, with one
  everything up to the first blank goes.\<close>

theorem owned_of_borrowed:
  "map_option type_toString (makeOwnedType (makeBorrowedType (Some ty) True)) = Some (type_toString ty)
   \<and> map_option type_toString (makeOwnedType (makeBorrowedType (Some ty) False))
     = Some (if CHR '' '' \<in> set (type_toString ty)
             then tl (dropWhile (\<lambda>c. c \<noteq> CHR '' '') (type_toString ty))
             else ''&'' @ type_toString ty)"
proof -
  have drop_tw: "drop (length (takeWhile P xs)) xs = dropWhile P xs" for P and xs :: string
    by (induction xs) auto
  show ?thesis
    by (simp add: makeOwnedType_def makeBorrowedType_def starts_with_take str_find_char Let_def
        drop_Suc drop_tw tl_drop [symmetric])
qed

subsection \<open>Lifetimes\<close>

text \<open>The static counter is a parameter; it is an \<open>int\<close> that counts the calls of a run.\<close>

definition generateLifetimeName :: "nat \<Rightarrow> string \<times> nat" where
  "generateLifetimeName counter = (SQUOTE # CHR ''a'' # show_nat counter, counter + 1)"

definition lifetime_char :: "char \<Rightarrow> bool" where
  "lifetime_char c \<longleftrightarrow> isalnum c \<or> c = CHR ''_''"

definition isValidLifetimeName :: "string \<Rightarrow> bool" where
  "isValidLifetimeName n =
     (if n = [] then False
      else if hd n \<noteq> SQUOTE then False
      else list_all lifetime_char (tl n))"

lemma dropWhile_Cons_length: "dropWhile P s = q # cs \<Longrightarrow> length cs < length s"
  using length_dropWhile_le [of P s] by simp

text \<open>The loop of \<open>extractLifetimes\<close> on the text from \<open>pos\<close> on: the next quote, the characters of a
  name after it, and on from there.\<close>

function lifetime_loop :: "string \<Rightarrow> string list" where
  "lifetime_loop s =
     (case dropWhile (\<lambda>c. c \<noteq> SQUOTE) s of
        [] \<Rightarrow> []
      | q # cs \<Rightarrow>
          (let lifetime = q # takeWhile lifetime_char cs in
           (if isValidLifetimeName lifetime then [lifetime] else [])
           @ lifetime_loop (dropWhile lifetime_char cs)))"
  by pat_completeness auto

termination
  by (relation "measure length")
     (auto dest!: dropWhile_Cons_length intro: le_less_trans [OF length_dropWhile_le])

declare lifetime_loop.simps [simp del]

definition extractLifetimes :: "type option \<Rightarrow> string list" where
  "extractLifetimes p = (case p of None \<Rightarrow> [] | Some ty \<Rightarrow> lifetime_loop (type_toString ty))"

lemma lifetime_char_SQUOTE [simp]: "\<not> lifetime_char SQUOTE"
  by (simp add: lifetime_char_def char_class_defs)

lemma lifetime_loop_plain: "SQUOTE \<notin> set s \<Longrightarrow> lifetime_loop s = []"
proof -
  assume "SQUOTE \<notin> set s"
  then have none: "dropWhile (\<lambda>c. c \<noteq> SQUOTE) s = []" by (auto simp: dropWhile_eq_Nil_conv)
  show ?thesis by (subst lifetime_loop.simps, subst none) simp
qed

lemma lifetime_loop_step:
  assumes "SQUOTE \<notin> set pre" "list_all lifetime_char name" "rest = [] \<or> \<not> lifetime_char (hd rest)"
  shows "lifetime_loop (pre @ SQUOTE # name @ rest) = (SQUOTE # name) # lifetime_loop rest"
proof -
  have pre: "dropWhile (\<lambda>c. c \<noteq> SQUOTE) (pre @ SQUOTE # name @ rest) = SQUOTE # name @ rest"
    using assms(1) by (subst dropWhile_append2) auto
  have name: "takeWhile lifetime_char (name @ rest) = name" "dropWhile lifetime_char (name @ rest) = rest"
    using assms(2,3) by (cases rest; auto simp: list_all_iff takeWhile_append2 dropWhile_append2)+
  show ?thesis
    by (subst lifetime_loop.simps, subst pre)
       (use assms(2) in \<open>simp add: name Let_def isValidLifetimeName_def\<close>)
qed

text \<open>A text with lifetimes: each name, without its quote, comes with the text before it.\<close>

definition with_lifetimes :: "(string \<times> string) list \<Rightarrow> string" where
  "with_lifetimes ls = concat (map (\<lambda>(pre, name). pre @ SQUOTE # name) ls)"

definition plain_text :: "string \<Rightarrow> bool" where
  "plain_text s \<longleftrightarrow> s \<noteq> [] \<and> \<not> lifetime_char (hd s) \<and> SQUOTE \<notin> set s"

text \<open>\<open>extractLifetimes\<close> finds, in order, exactly the lifetimes that were written into the name
  of a type, when the text between two of them starts with a character that ends a name.\<close>

theorem extract_lifetimes_roundtrip:
  assumes "list_all (\<lambda>(pre, name). plain_text pre \<and> list_all lifetime_char name) ls"
    and "plain_text end"
  shows "extractLifetimes (Some (named_type (with_lifetimes ls @ end)))
    = map (\<lambda>(pre, name). SQUOTE # name) ls"
proof -
  have "lifetime_loop (with_lifetimes ls @ end) = map (\<lambda>(pre, name). SQUOTE # name) ls"
    using assms
  proof (induction ls)
    case Nil
    then show ?case by (simp add: with_lifetimes_def plain_text_def lifetime_loop_plain)
  next
    case (Cons l ls)
    obtain pre name where l: "l = (pre, name)" by (cases l)
    have rest: "\<not> lifetime_char (hd (with_lifetimes ls @ end))"
      using Cons.prems by (cases ls) (auto simp: with_lifetimes_def plain_text_def hd_append)
    show ?case
      using lifetime_loop_step [of pre name "with_lifetimes ls @ end"] rest Cons
      by (simp add: l with_lifetimes_def plain_text_def)
  qed
  then show ?thesis by (simp add: extractLifetimes_def)
qed

lemma extract_lifetimes_roundtrip_witness:
  "extractLifetimes (Some (named_type (''&'' @ SQUOTE # ''a, '' @ SQUOTE # ''b1>'')))
   = [SQUOTE # ''a'', SQUOTE # ''b1'']"
  using extract_lifetimes_roundtrip [of "[(''&'', ''a''), ('', '', ''b1'')]" "''>''"]
  by (simp add: plain_text_def lifetime_char_def char_class_defs with_lifetimes_def)

subsection \<open>The global tracker, and messages\<close>

definition canBorrowImmutably :: "string \<Rightarrow> tracker \<Rightarrow> bool" where
  "canBorrowImmutably n t = canBorrowVariable n False t"

definition canBorrowMutably :: "string \<Rightarrow> tracker \<Rightarrow> bool" where
  "canBorrowMutably n t = canBorrowVariable n True t"

definition hasActiveBorrows :: "string \<Rightarrow> tracker \<Rightarrow> bool" where
  "hasActiveBorrows n t = isVariableBorrowed n t"

definition hasMutableBorrow :: "string \<Rightarrow> tracker \<Rightarrow> bool" where
  "hasMutableBorrow n t = isVariableMutableBorrowed n t"

definition formatMoveError :: "string \<Rightarrow> string" where
  "formatMoveError n = ''Cannot move variable '' @ [SQUOTE] @ n @ SQUOTE # '' - it has been moved already''"

definition formatBorrowError :: "string \<Rightarrow> bool \<Rightarrow> string" where
  "formatBorrowError n mut = ''Cannot borrow '' @ [SQUOTE] @ n @ SQUOTE # '' as ''
     @ (if mut then ''mutable'' else ''immutable'') @ '' - conflicting borrows''"

definition formatLifetimeError :: "string \<Rightarrow> string" where
  "formatLifetimeError l = ''Lifetime '' @ [SQUOTE] @ l @ SQUOTE # '' does not live long enough''"

section \<open>Generated names\<close>

text \<open>The generated lifetime names are valid and pairwise different.\<close>

theorem generated_lifetimes:
  "isValidLifetimeName (fst (generateLifetimeName k))
   \<and> (fst (generateLifetimeName k) = fst (generateLifetimeName j) \<longleftrightarrow> k = j)"
proof -
  have "list_all lifetime_char (show_nat k)"
    using show_nat_digits [of k] by (auto simp: list_all_iff lifetime_char_def)
  moreover have "show_nat k = show_nat j \<longleftrightarrow> k = j"
    by (metis digits_value_show)
  ultimately show ?thesis
    by (simp add: generateLifetimeName_def isValidLifetimeName_def lifetime_char_def char_class_defs)
qed

text \<open>No tree of the parser has a move or borrow expression: the ownership utilities never
  recognise one.\<close>

theorem parsed_without_borrows:
  assumes "parsed_expr e"
  shows "\<not> isMoveExpression (Some e) \<and> \<not> isBorrowExpression (Some e)
    \<and> \<not> isMutableBorrowExpression (Some e) \<and> \<not> isImmutableBorrowExpression (Some e)"
  using assms
  by (cases e) (auto simp: isMoveExpression_def isBorrowExpression_def isMutableBorrowExpression_def
      isImmutableBorrowExpression_def unary_operator_def unary_operators_def)

lemma parsed_without_borrows_witness:
  "\<not> isMoveExpression (Some (UnaryExpr (Token (Op MINUS) ''-'' [] 1 1) (Token (Op MINUS) ''-'' [] 1 1)
     (VariableExpr (Token (Lit IDENTIFIER) ''x'' [] 1 2) ''x'')))"
  by (rule parsed_without_borrows [THEN conjunct1]) (simp add: unary_operators_def)

end
