(* ===== verification/Tocin_Null_Safety.thy ===== *)
theory Tocin_Null_Safety
  imports Tocin_Ownership_Checker
begin

text \<open>
  \<open>src/type/null_safety.h\<close> and \<open>src/type/null_safety.cpp\<close>: the checker, the utilities, and the flow
  analyzer. A null pointer is \<open>None\<close>. The source repeats many functions of the checker in the
  utilities; these are the definitions that start with \<open>utils\<close>.
\<close>

section \<open>Types\<close>

definition isNullableType :: "type option \<Rightarrow> bool" where
  "isNullableType p =
     (case p of
        None \<Rightarrow> False
      | Some ty \<Rightarrow>
          (let s = type_toString ty in
           str_contains ''?'' s \<or> str_contains ''nullable'' s \<or> str_contains ''null'' s))"

definition isNonNullType :: "type option \<Rightarrow> bool" where
  "isNonNullType p = (if p = None then False else \<not> isNullableType p)"

definition makeNullable :: "type option \<Rightarrow> type option" where
  "makeNullable p =
     (case p of
        None \<Rightarrow> None
      | Some ty \<Rightarrow>
          (let s = type_toString ty in
           if isNullableType p then p else Some (named_type (s @ ''?''))))"

definition makeNonNull :: "type option \<Rightarrow> type option" where
  "makeNonNull p =
     (case p of
        None \<Rightarrow> None
      | Some ty \<Rightarrow>
          (let s = type_toString ty in
           if isNonNullType p then p
           else (case str_find ''?'' s of
                   None \<Rightarrow> Some (named_type s)
                 | Some pos \<Rightarrow> Some (named_type (take pos s)))))"

definition resolveType :: "type option \<Rightarrow> type option" where
  "resolveType p =
     (if p = None then None else if isNullableType p then makeNonNull p else p)"

section \<open>Expressions\<close>

definition ns_variable_name :: "expr option \<Rightarrow> string" where
  "ns_variable_name p = (case p of None \<Rightarrow> [] | Some e \<Rightarrow> root_name e)"

definition ns_isVariableExpression :: "expr option \<Rightarrow> bool" where
  "ns_isVariableExpression p =
     (case p of Some (VariableExpr t n) \<Rightarrow> True | Some (GetExpr t ob n) \<Rightarrow> True | _ \<Rightarrow> False)"

definition isNullLiteral :: "expr option \<Rightarrow> bool" where
  "isNullLiteral p =
     (case p of Some (LiteralExpr t v k) \<Rightarrow> v = ''null'' \<or> v = ''nil'' | _ \<Rightarrow> False)"

definition isNotNullLiteral :: "expr option \<Rightarrow> bool" where
  "isNotNullLiteral p =
     (case p of
        Some (LiteralExpr t v k) \<Rightarrow> v \<noteq> ''null'' \<and> v \<noteq> ''nil''
      | Some (VariableExpr t n) \<Rightarrow> True
      | Some (CallExpr t c as) \<Rightarrow> True
      | _ \<Rightarrow> False)"

definition isNullCheck :: "expr option \<Rightarrow> bool" where
  "isNullCheck p =
     (case p of
        Some (BinaryExpr t l op r) \<Rightarrow>
          (if ttype op = Op EQUAL \<or> ttype op = Op NOT_EQUAL
           then isNullLiteral (Some l) \<or> isNullLiteral (Some r) else False)
      | _ \<Rightarrow> False)"

definition isSafeCall :: "expr option \<Rightarrow> bool" where
  "isSafeCall p = False"

definition isElvisOperator :: "expr option \<Rightarrow> bool" where
  "isElvisOperator p =
     (case p of Some (BinaryExpr t l op r) \<Rightarrow> ttype op = Op2 ELVIS | _ \<Rightarrow> False)"

definition isNullAssertion :: "expr option \<Rightarrow> bool" where
  "isNullAssertion p = False"

section \<open>The checker\<close>

record null_checker =
  nc_handler :: ErrorHandler
  nullableVariables :: "string \<Rightarrow> bool option"
  nullCheckedVariables :: "string \<Rightarrow> bool option"
  safeCallVariables :: "string \<Rightarrow> bool option"
  definitelyNull :: "string set"
  definitelyNonNull :: "string set"
  nullGuarded :: "string set"

definition new_NullSafetyChecker :: "ErrorHandler \<Rightarrow> null_checker" where
  "new_NullSafetyChecker h = \<lparr>nc_handler = h, nullableVariables = (\<lambda>_. None),
     nullCheckedVariables = (\<lambda>_. None), safeCallVariables = (\<lambda>_. None), definitelyNull = {},
     definitelyNonNull = {}, nullGuarded = {}\<rparr>"

definition canBeNull :: "expr option \<Rightarrow> null_checker \<Rightarrow> bool" where
  "canBeNull p s =
     (if p = None then False
      else let n = ns_variable_name p in
        if n \<noteq> [] then nullableVariables s n \<noteq> None else isNullLiteral p)"

definition isNullGuarded :: "expr option \<Rightarrow> null_checker \<Rightarrow> bool" where
  "isNullGuarded p s =
     (if p = None then False
      else let n = ns_variable_name p in if n = [] then False else n \<in> nullGuarded s)"

definition isDefinitelyNull :: "expr option \<Rightarrow> null_checker \<Rightarrow> bool" where
  "isDefinitelyNull p s =
     (if p = None then False
      else let n = ns_variable_name p in if n = [] then isNullLiteral p else n \<in> definitelyNull s)"

definition isDefinitelyNonNull :: "expr option \<Rightarrow> null_checker \<Rightarrow> bool" where
  "isDefinitelyNonNull p s =
     (if p = None then False
      else let n = ns_variable_name p in
        if n = [] then isNotNullLiteral p else n \<in> definitelyNonNull s)"

definition reportNullSafetyError :: "string \<Rightarrow> null_checker \<Rightarrow> null_checker" where
  "reportNullSafetyError msg s =
     s\<lparr>nc_handler := record_error (Type T001_TYPE_MISMATCH) msg (defaultFilename (nc_handler s)) 0 0
         ERROR_SEVERITY (nc_handler s)\<rparr>"

text \<open>The guard is asked about a null pointer, as in the source.\<close>

definition checkVariableNullSafety :: "string \<Rightarrow> null_checker \<Rightarrow> bool \<times> null_checker" where
  "checkVariableNullSafety n s =
     (if n = [] then (True, s)
      else if nullableVariables s n \<noteq> None then
        (if \<not> isNullGuarded None s \<and> \<not> isSafeCall None then
           (False, reportNullSafetyError (''Unsafe use of nullable variable: '' @ n) s)
         else (True, s))
      else (True, s))"

definition checkSafeCall :: "expr option \<Rightarrow> bool" where
  "checkSafeCall p = (if p = None then True else if isSafeCall p then True else True)"

definition checkElvisOperator :: "expr option \<Rightarrow> bool" where
  "checkElvisOperator p = (if p = None then True else if isElvisOperator p then True else True)"

definition checkNullAssertion :: "expr option \<Rightarrow> bool" where
  "checkNullAssertion p = True"

definition checkNullCheck :: "expr option \<Rightarrow> bool" where
  "checkNullCheck p = (if p = None then True else if isNullCheck p then True else True)"

definition checkExpressionNullSafety :: "expr option \<Rightarrow> null_checker \<Rightarrow> bool \<times> null_checker" where
  "checkExpressionNullSafety p s =
     (if p = None then (True, s)
      else let n = ns_variable_name p;
               (ok, s1) = (if n \<noteq> [] then checkVariableNullSafety n s else (True, s))
           in if \<not> ok then (False, s1)
              else if \<not> checkSafeCall p then (False, s1)
              else if \<not> checkElvisOperator p then (False, s1)
              else if \<not> checkNullAssertion p then (False, s1)
              else if \<not> checkNullCheck p then (False, s1)
              else (True, s1))"

definition ns_checkExpression :: "expr option \<Rightarrow> null_checker \<Rightarrow> bool \<times> null_checker" where
  "ns_checkExpression p s = (if p = None then (True, s) else checkExpressionNullSafety p s)"

definition ns_checkStatement :: "stmt option \<Rightarrow> null_checker \<Rightarrow> bool \<times> null_checker" where
  "ns_checkStatement p s = (True, s)"

definition analyzeNullFlow :: "stmt option \<Rightarrow> bool" where
  "analyzeNullFlow p = True"

definition markAsNullChecked :: "string \<Rightarrow> null_checker \<Rightarrow> null_checker" where
  "markAsNullChecked n s = s\<lparr>nullCheckedVariables := (nullCheckedVariables s)(n \<mapsto> True)\<rparr>"

definition markAsSafeCall :: "string \<Rightarrow> null_checker \<Rightarrow> null_checker" where
  "markAsSafeCall n s = s\<lparr>safeCallVariables := (safeCallVariables s)(n \<mapsto> True)\<rparr>"

definition markAsDefinitelyNull :: "string \<Rightarrow> null_checker \<Rightarrow> null_checker" where
  "markAsDefinitelyNull n s = s\<lparr>definitelyNull := insert n (definitelyNull s)\<rparr>"

definition markAsDefinitelyNonNull :: "string \<Rightarrow> null_checker \<Rightarrow> null_checker" where
  "markAsDefinitelyNonNull n s = s\<lparr>definitelyNonNull := insert n (definitelyNonNull s)\<rparr>"

definition markAsNullGuarded :: "string \<Rightarrow> null_checker \<Rightarrow> null_checker" where
  "markAsNullGuarded n s = s\<lparr>nullGuarded := insert n (nullGuarded s)\<rparr>"

text \<open>Every operation of the class that changes its state.\<close>

inductive null_reachable :: "ErrorHandler \<Rightarrow> null_checker \<Rightarrow> bool" for h where
  nr_start: "null_reachable h (new_NullSafetyChecker h)"
| nr_checked: "null_reachable h s \<Longrightarrow> null_reachable h (markAsNullChecked n s)"
| nr_safe: "null_reachable h s \<Longrightarrow> null_reachable h (markAsSafeCall n s)"
| nr_null: "null_reachable h s \<Longrightarrow> null_reachable h (markAsDefinitelyNull n s)"
| nr_nonnull: "null_reachable h s \<Longrightarrow> null_reachable h (markAsDefinitelyNonNull n s)"
| nr_guarded: "null_reachable h s \<Longrightarrow> null_reachable h (markAsNullGuarded n s)"
| nr_expr: "null_reachable h s \<Longrightarrow> null_reachable h (snd (ns_checkExpression p s))"
| nr_stmt: "null_reachable h s \<Longrightarrow> null_reachable h (snd (ns_checkStatement q s))"

lemma check_no_nullable:
  "nullableVariables s = (\<lambda>_. None) \<Longrightarrow> ns_checkExpression p s = (True, s)"
  by (simp add: ns_checkExpression_def checkExpressionNullSafety_def checkVariableNullSafety_def
      checkSafeCall_def checkElvisOperator_def checkNullAssertion_def checkNullCheck_def Let_def)

text \<open>No operation of the class declares a variable nullable, so the checker accepts every
  expression in every reachable state and never reports.\<close>

theorem null_checker_vacuous:
  assumes "null_reachable h s"
  shows "ns_checkExpression p s = (True, s) \<and> nc_handler s = h"
proof -
  have "nullableVariables s = (\<lambda>_. None) \<and> nc_handler s = h"
    using assms
  proof (induction rule: null_reachable.induct)
    case (nr_expr s p)
    then show ?case by (simp add: check_no_nullable)
  qed (simp_all add: new_NullSafetyChecker_def markAsNullChecked_def markAsSafeCall_def
      markAsDefinitelyNull_def markAsDefinitelyNonNull_def markAsNullGuarded_def ns_checkStatement_def)
  then show ?thesis by (simp add: check_no_nullable)
qed

lemma null_checker_vacuous_witness:
  "fst (ns_checkExpression (Some (VariableExpr default_token ''x''))
     (markAsDefinitelyNull ''x'' (new_NullSafetyChecker new_ErrorHandler)))"
  using null_checker_vacuous [OF nr_null [OF nr_start]] by simp

section \<open>NullSafetyUtils\<close>

definition utils_isNullableType :: "type option \<Rightarrow> bool" where
  "utils_isNullableType p =
     (case p of
        None \<Rightarrow> False
      | Some ty \<Rightarrow>
          (let s = type_toString ty in
           str_contains ''?'' s \<or> str_contains ''nullable'' s \<or> str_contains ''null'' s))"

definition utils_isNonNullType :: "type option \<Rightarrow> bool" where
  "utils_isNonNullType p = (if p = None then False else \<not> utils_isNullableType p)"

definition utils_makeNullable :: "type option \<Rightarrow> type option" where
  "utils_makeNullable p =
     (case p of
        None \<Rightarrow> None
      | Some ty \<Rightarrow>
          (let s = type_toString ty in
           if utils_isNullableType p then p else Some (named_type (s @ ''?''))))"

definition utils_makeNonNull :: "type option \<Rightarrow> type option" where
  "utils_makeNonNull p =
     (case p of
        None \<Rightarrow> None
      | Some ty \<Rightarrow>
          (let s = type_toString ty in
           if utils_isNonNullType p then p
           else (case str_find ''?'' s of
                   None \<Rightarrow> Some (named_type s)
                 | Some pos \<Rightarrow> Some (named_type (take pos s)))))"

definition extractInnerType :: "type option \<Rightarrow> type option" where
  "extractInnerType p = (if p = None then None else utils_makeNonNull p)"

definition utils_isNullLiteral :: "expr option \<Rightarrow> bool" where
  "utils_isNullLiteral p =
     (case p of Some (LiteralExpr t v k) \<Rightarrow> v = ''null'' \<or> v = ''nil'' | _ \<Rightarrow> False)"

definition utils_isNotNullLiteral :: "expr option \<Rightarrow> bool" where
  "utils_isNotNullLiteral p =
     (case p of
        Some (LiteralExpr t v k) \<Rightarrow> v \<noteq> ''null'' \<and> v \<noteq> ''nil''
      | Some (VariableExpr t n) \<Rightarrow> True
      | Some (CallExpr t c as) \<Rightarrow> True
      | _ \<Rightarrow> False)"

definition utils_isNullCheck :: "expr option \<Rightarrow> bool" where
  "utils_isNullCheck p =
     (case p of
        Some (BinaryExpr t l op r) \<Rightarrow>
          (if ttype op = Op EQUAL \<or> ttype op = Op NOT_EQUAL
           then utils_isNullLiteral (Some l) \<or> utils_isNullLiteral (Some r) else False)
      | _ \<Rightarrow> False)"

definition utils_isSafeCall :: "expr option \<Rightarrow> bool" where
  "utils_isSafeCall p = False"

definition utils_isElvisOperator :: "expr option \<Rightarrow> bool" where
  "utils_isElvisOperator p = False"

definition utils_isNullAssertion :: "expr option \<Rightarrow> bool" where
  "utils_isNullAssertion p = False"

definition utils_canBeNull :: "expr option \<Rightarrow> bool" where
  "utils_canBeNull p = False"

definition utils_isDefinitelyNull :: "expr option \<Rightarrow> bool" where
  "utils_isDefinitelyNull p = utils_isNullLiteral p"

definition utils_isDefinitelyNonNull :: "expr option \<Rightarrow> bool" where
  "utils_isDefinitelyNonNull p = utils_isNotNullLiteral p"

definition utils_isNullGuarded :: "expr option \<Rightarrow> bool" where
  "utils_isNullGuarded p = False"

definition null_operators :: "string list" where
  "null_operators = [''?.'', ''?:'', ''!!'', ''=='']"

definition formatNullPointerError :: "string \<Rightarrow> string" where
  "formatNullPointerError n = ''Null pointer dereference: '' @ n"

definition formatNullableAssignmentError :: "string \<Rightarrow> string" where
  "formatNullableAssignmentError n = ''Cannot assign nullable value to non-nullable variable: '' @ n"

definition formatNullCheckError :: "string \<Rightarrow> string" where
  "formatNullCheckError n = ''Unsafe null check: '' @ n"

definition formatSafeCallError :: "string \<Rightarrow> string" where
  "formatSafeCallError n = ''Unsafe call on nullable variable: '' @ n"

lemma utils_types:
  "utils_isNullableType p = isNullableType p" "utils_isNonNullType p = isNonNullType p"
  "utils_makeNullable p = makeNullable p" "utils_makeNonNull p = makeNonNull p"
  by (simp_all add: utils_isNullableType_def isNullableType_def utils_isNonNullType_def
      isNonNullType_def utils_makeNullable_def makeNullable_def utils_makeNonNull_def
      makeNonNull_def cong: option.case_cong)

section \<open>What the utilities recognise\<close>

definition nullable_text :: "string \<Rightarrow> bool" where
  "nullable_text s \<longleftrightarrow> CHR ''?'' \<in> set s \<or> str_contains ''nullable'' s \<or> str_contains ''null'' s"

lemma isNullableType_text: "isNullableType (Some ty) = nullable_text (type_toString ty)"
  by (simp add: isNullableType_def nullable_text_def str_contains_def [of "''?''"] str_find_char Let_def)

lemma isNonNullType_text: "isNonNullType (Some ty) = (\<not> nullable_text (type_toString ty))"
  by (simp add: isNonNullType_def isNullableType_text)

lemma no_question: "CHR ''?'' \<notin> set s \<Longrightarrow> takeWhile (\<lambda>c. c \<noteq> CHR ''?'') s = s"
  by (auto simp: takeWhile_eq_all_conv)

lemma makeNonNull_text:
  "map_option type_toString (makeNonNull (Some ty)) =
     Some (takeWhile (\<lambda>c. c \<noteq> CHR ''?'') (type_toString ty))"
proof -
  let ?s = "type_toString ty"
  have "\<not> nullable_text ?s \<Longrightarrow> CHR ''?'' \<notin> set ?s" by (simp add: nullable_text_def)
  then show ?thesis
    using takeWhile_eq_take [of "\<lambda>c. c \<noteq> CHR ''?''" ?s]
    by (auto simp: makeNonNull_def isNonNullType_text str_find_char Let_def no_question)
qed

text \<open>Removing nullability undoes adding it on every type that is not nullable, and a nullable
  type becomes non-null exactly when the name before its first question mark does not mention
  \<open>null\<close>: the type named \<open>nullptr\<close> stays nullable.\<close>

theorem nullability_roundtrip:
  "(isNonNullType (Some ty) \<longrightarrow>
      map_option type_toString (makeNonNull (makeNullable (Some ty))) = Some (type_toString ty))
   \<and> (isNonNullType (makeNonNull (Some ty)) \<longleftrightarrow>
        \<not> isNullableType (Some (named_type (takeWhile (\<lambda>c. c \<noteq> CHR ''?'') (type_toString ty)))))"
proof
  let ?s = "type_toString ty"
  show "isNonNullType (Some ty) \<longrightarrow>
      map_option type_toString (makeNonNull (makeNullable (Some ty))) = Some ?s"
  proof
    assume "isNonNullType (Some ty)"
    then have "\<not> nullable_text ?s" "CHR ''?'' \<notin> set ?s"
      by (simp_all add: isNonNullType_text nullable_text_def)
    then show "map_option type_toString (makeNonNull (makeNullable (Some ty))) = Some ?s"
      by (simp add: makeNullable_def isNullableType_text makeNonNull_text Let_def takeWhile_tail
          no_question)
  qed
  obtain ty' where "makeNonNull (Some ty) = Some ty'"
    "type_toString ty' = takeWhile (\<lambda>c. c \<noteq> CHR ''?'') ?s"
    using makeNonNull_text [of ty] by auto
  then show "isNonNullType (makeNonNull (Some ty)) \<longleftrightarrow>
      \<not> isNullableType (Some (named_type (takeWhile (\<lambda>c. c \<noteq> CHR ''?'') ?s)))"
    by (simp add: isNonNullType_text isNullableType_text)
qed

lemma nullability_roundtrip_witness:
  "map_option type_toString (makeNonNull (makeNullable (Some (named_type ''int'')))) = Some ''int''"
proof -
  have "isNonNullType (Some (named_type ''int''))" by code_simp
  then show ?thesis using nullability_roundtrip [of "named_type ''int''"] by simp
qed

text \<open>On the trees the parser builds no null test, safe call, elvis operator or assertion is ever
  recognised: the checks look for the operators \<open>=\<close> and \<open>NOT_EQUAL\<close>, the parser builds \<open>==\<close> and \<open>!=\<close>.
  And the literal \<open>None\<close>, whose text is \<open>None\<close>, counts as definitely not null.\<close>

theorem null_forms_unrecognised:
  assumes "parsed_expr e"
  shows "\<not> isNullCheck (Some e) \<and> \<not> isSafeCall (Some e) \<and> \<not> isElvisOperator (Some e)
    \<and> \<not> isNullAssertion (Some e)
    \<and> (\<forall>t v s. e = LiteralExpr t v NIL_LITERAL \<longrightarrow>
         isDefinitelyNonNull (Some e) s \<and> \<not> isDefinitelyNull (Some e) s)"
  using assms
  by (cases e)
     (auto simp: isNullCheck_def isSafeCall_def isElvisOperator_def isNullAssertion_def
        isDefinitelyNonNull_def isDefinitelyNull_def ns_variable_name_def isNotNullLiteral_def
        isNullLiteral_def literal_text_def binary_operators_def)

lemma null_forms_unrecognised_witness:
  "isDefinitelyNonNull (Some (LiteralExpr (Token (Kw NIL) ''None'' [] 1 1) ''None'' NIL_LITERAL))
     (new_NullSafetyChecker new_ErrorHandler)"
  using null_forms_unrecognised [of "LiteralExpr (Token (Kw NIL) ''None'' [] 1 1) ''None'' NIL_LITERAL"]
  by (simp add: literal_text_def)

section \<open>NullSafetyFlowAnalyzer\<close>

record FlowState =
  fs_isNullGuarded :: bool
  fs_isDefinitelyNull :: bool
  fs_isDefinitelyNonNull :: bool
  fs_isNullable :: bool

definition new_FlowState :: FlowState where
  "new_FlowState = \<lparr>fs_isNullGuarded = False, fs_isDefinitelyNull = False,
     fs_isDefinitelyNonNull = False, fs_isNullable = True\<rparr>"

record flow =
  flowStates :: "string \<Rightarrow> FlowState option"
  flow_scopes :: "string set list"
  flow_level :: nat

definition flow_enterScope :: "flow \<Rightarrow> flow" where
  "flow_enterScope s = s\<lparr>flow_level := flow_level s + 1, flow_scopes := flow_scopes s @ [{}]\<rparr>"

definition new_flow :: flow where
  "new_flow = flow_enterScope \<lparr>flowStates = (\<lambda>_. None), flow_scopes = [], flow_level = 0\<rparr>"

definition flow_exitScope :: "flow \<Rightarrow> flow" where
  "flow_exitScope s =
     (if flow_level s > 0 then
        (let s1 = (if flow_scopes s \<noteq> [] then
                     s\<lparr>flowStates := forget (last (flow_scopes s)) (flowStates s),
                       flow_scopes := butlast (flow_scopes s)\<rparr>
                   else s)
         in s1\<lparr>flow_level := flow_level s1 - 1\<rparr>)
      else s)"

definition flow_addVariable :: "string \<Rightarrow> flow \<Rightarrow> flow" where
  "flow_addVariable n s =
     (if flow_level s > 0 \<and> flow_scopes s \<noteq> [] then
        s\<lparr>flow_scopes := butlast (flow_scopes s) @ [insert n (last (flow_scopes s))],
          flowStates := (flowStates s)(n \<mapsto> new_FlowState)\<rparr>
      else s)"

definition flow_removeVariable :: "string \<Rightarrow> flow \<Rightarrow> flow" where
  "flow_removeVariable n s = s\<lparr>flowStates := (flowStates s)(n := None)\<rparr>"

definition flow_update :: "(FlowState \<Rightarrow> FlowState) \<Rightarrow> string \<Rightarrow> flow \<Rightarrow> flow" where
  "flow_update f n s =
     (case flowStates s n of
        None \<Rightarrow> s
      | Some x \<Rightarrow> s\<lparr>flowStates := (flowStates s)(n \<mapsto> f x)\<rparr>)"

definition flow_markAsNullGuarded :: "string \<Rightarrow> flow \<Rightarrow> flow" where
  "flow_markAsNullGuarded = flow_update (fs_isNullGuarded_update (\<lambda>_. True))"

definition flow_markAsDefinitelyNull :: "string \<Rightarrow> flow \<Rightarrow> flow" where
  "flow_markAsDefinitelyNull =
     flow_update (\<lambda>x. x\<lparr>fs_isDefinitelyNull := True, fs_isDefinitelyNonNull := False\<rparr>)"

definition flow_markAsDefinitelyNonNull :: "string \<Rightarrow> flow \<Rightarrow> flow" where
  "flow_markAsDefinitelyNonNull =
     flow_update (\<lambda>x. x\<lparr>fs_isDefinitelyNonNull := True, fs_isDefinitelyNull := False\<rparr>)"

definition flow_markAsNullable :: "string \<Rightarrow> flow \<Rightarrow> flow" where
  "flow_markAsNullable = flow_update (fs_isNullable_update (\<lambda>_. True))"

definition flow_clear :: "flow \<Rightarrow> flow" where
  "flow_clear s = flow_enterScope (s\<lparr>flowStates := (\<lambda>_. None), flow_scopes := [], flow_level := 0\<rparr>)"

definition flow_query :: "(FlowState \<Rightarrow> bool) \<Rightarrow> string \<Rightarrow> flow \<Rightarrow> bool" where
  "flow_query f n s = (case flowStates s n of None \<Rightarrow> False | Some x \<Rightarrow> f x)"

definition isVariableNullGuarded :: "string \<Rightarrow> flow \<Rightarrow> bool" where
  "isVariableNullGuarded = flow_query fs_isNullGuarded"

definition isVariableDefinitelyNull :: "string \<Rightarrow> flow \<Rightarrow> bool" where
  "isVariableDefinitelyNull = flow_query fs_isDefinitelyNull"

definition isVariableDefinitelyNonNull :: "string \<Rightarrow> flow \<Rightarrow> bool" where
  "isVariableDefinitelyNonNull = flow_query fs_isDefinitelyNonNull"

definition isVariableNullable :: "string \<Rightarrow> flow \<Rightarrow> bool" where
  "isVariableNullable = flow_query fs_isNullable"

text \<open>The three analyses answer true on every argument.\<close>

definition analyzeFlow :: "stmt option \<Rightarrow> bool" where
  "analyzeFlow p = True"

definition analyzeExpressionFlow :: "expr option \<Rightarrow> bool" where
  "analyzeExpressionFlow p = True"

definition analyzeConditionalFlow :: "expr option \<Rightarrow> stmt option \<Rightarrow> stmt option \<Rightarrow> bool" where
  "analyzeConditionalFlow c t e = True"

inductive flow_step :: "flow \<Rightarrow> flow \<Rightarrow> bool" where
  "flow_step s (flow_enterScope s)"
| "flow_step s (flow_exitScope s)"
| "flow_step s (flow_addVariable n s)"
| "flow_step s (flow_removeVariable n s)"
| "flow_step s (flow_markAsNullGuarded n s)"
| "flow_step s (flow_markAsDefinitelyNull n s)"
| "flow_step s (flow_markAsDefinitelyNonNull n s)"
| "flow_step s (flow_markAsNullable n s)"
| "flow_step s (flow_clear s)"

inductive flow_reachable :: "flow \<Rightarrow> bool" where
  flow_start: "flow_reachable new_flow"
| flow_next: "flow_reachable s \<Longrightarrow> flow_step s t \<Longrightarrow> flow_reachable t"

definition flow_ok :: "FlowState \<Rightarrow> bool" where
  "flow_ok x \<longleftrightarrow> \<not> (fs_isDefinitelyNull x \<and> fs_isDefinitelyNonNull x) \<and> fs_isNullable x"

definition flow_inv :: "flow \<Rightarrow> bool" where
  "flow_inv s \<longleftrightarrow> flow_level s = length (flow_scopes s)
     \<and> (\<forall>n x. flowStates s n = Some x \<longrightarrow> flow_ok x \<and> n \<in> \<Union> (set (flow_scopes s)))"

lemmas flow_marks = flow_markAsNullGuarded_def flow_markAsDefinitelyNull_def
  flow_markAsDefinitelyNonNull_def flow_markAsNullable_def

lemma flow_inv_update: "flow_inv s \<Longrightarrow> (\<And>x. flow_ok x \<Longrightarrow> flow_ok (f x)) \<Longrightarrow> flow_inv (flow_update f n s)"
  by (auto simp: flow_update_def flow_inv_def split: option.split)

lemma flow_step_inv: "flow_step s t \<Longrightarrow> flow_inv s \<Longrightarrow> flow_inv t"
proof (induction rule: flow_step.induct)
  case (2 s)
  then show ?case
    by (cases "flow_scopes s" rule: rev_cases)
       (auto simp: flow_exitScope_def flow_inv_def forget_def Let_def split: if_splits)
next
  case (3 s n)
  then show ?case
    by (cases "flow_scopes s" rule: rev_cases)
       (auto simp: flow_addVariable_def flow_inv_def new_FlowState_def flow_ok_def split: if_splits)
qed (auto simp: flow_marks flow_ok_def intro!: flow_inv_update,
     auto simp: flow_enterScope_def flow_removeVariable_def flow_clear_def flow_inv_def split: if_splits)

lemma flow_inv_new: "flow_inv new_flow"
  by (simp add: new_flow_def flow_enterScope_def flow_inv_def)

lemma flow_reachable_inv: "flow_reachable s \<Longrightarrow> flow_inv s"
  by (induction rule: flow_reachable.induct) (auto intro: flow_step_inv flow_inv_new)

text \<open>In every reachable state of the flow analyzer no variable is both definitely null and
  definitely not null, every tracked variable is still nullable, and it belongs to an open
  scope, of which there are as many as the level says.\<close>

theorem flow_invariant:
  assumes "flow_reachable s"
  shows "\<not> (isVariableDefinitelyNull n s \<and> isVariableDefinitelyNonNull n s)
    \<and> (isVariableNullable n s \<longleftrightarrow> flowStates s n \<noteq> None)
    \<and> (flowStates s n \<noteq> None \<longrightarrow> n \<in> \<Union> (set (flow_scopes s)))
    \<and> flow_level s = length (flow_scopes s)"
  using flow_reachable_inv [OF assms]
  by (auto simp: flow_inv_def flow_ok_def isVariableDefinitelyNull_def isVariableDefinitelyNonNull_def
      isVariableNullable_def flow_query_def split: option.splits)

lemma flow_invariant_witness:
  "isVariableNullable ''x'' (flow_markAsDefinitelyNull ''x'' (flow_addVariable ''x'' new_flow))"
proof -
  let ?s = "flow_markAsDefinitelyNull ''x'' (flow_addVariable ''x'' new_flow)"
  have "flow_reachable ?s"
    by (rule flow_next [OF flow_next [OF flow_start flow_step.intros(3)] flow_step.intros(6)])
  moreover have "flowStates ?s ''x'' \<noteq> None"
    by (simp add: flow_marks flow_update_def flow_addVariable_def new_flow_def flow_enterScope_def)
  ultimately show ?thesis using flow_invariant by blast
qed

end
