(* ===== verification/Tocin_Condition.thy ===== *)
theory Tocin_Condition
  imports Tocin_Prelude
begin

text \<open>
  \<open>std::condition_variable\<close> over a list of threads, for the channels and the asynchronous scheduler: what
  \<open>notify_one\<close> does, and when a program that notifies once per item loses no wake-up.
\<close>

text \<open>\<open>notify_one\<close> wakes some sleeping thread, if there is one.\<close>

definition notify_some :: "('t \<Rightarrow> 't) \<Rightarrow> ('t \<Rightarrow> bool) \<Rightarrow> 't list \<Rightarrow> 't list \<Rightarrow> bool" where
  "notify_some wake asleep ts us \<longleftrightarrow>
     (if list_ex asleep ts then \<exists>j < length ts. asleep (ts ! j) \<and> us = ts[j := wake (ts ! j)]
      else us = ts)"

definition number :: "('t \<Rightarrow> bool) \<Rightarrow> 't list \<Rightarrow> nat" where
  "number P ts = length (filter P ts)"

lemma number_update: "i < length ts \<Longrightarrow>
    number P (ts[i := t]) + (if P (ts ! i) then 1 else 0) = number P ts + (if P t then 1 else 0)"
proof (induction ts arbitrary: i)
  case (Cons x ts)
  then show ?case by (cases i) (auto simp: number_def)
qed simp

lemma list_ex_update: "i < length ts \<Longrightarrow> list_ex P (ts[i := t]) \<Longrightarrow> \<not> P t \<Longrightarrow> list_ex P ts"
  by (auto simp: list_ex_length nth_list_update split: if_splits)

text \<open>The threads that use one condition variable: which of them sleep and which have woken. What the
  variable owes its sleepers: as many woken threads as there are items to take.\<close>

locale condition_variable =
  fixes wake :: "'t \<Rightarrow> 't" and asleep awake :: "'t \<Rightarrow> bool"
  assumes wake_asleep: "asleep t \<Longrightarrow> awake (wake t)"
    and awake_not_asleep: "awake t \<Longrightarrow> \<not> asleep t"
    and asleep_wake: "\<not> asleep (wake t)"
begin

definition owed :: "nat \<Rightarrow> 't list \<Rightarrow> bool" where
  "owed items ts \<longleftrightarrow> (list_ex asleep ts \<longrightarrow> items \<le> number awake ts)"

lemma owed_none: "\<not> list_ex asleep ts \<Longrightarrow> owed items ts"
  by (simp add: owed_def)

lemma owed_zero [simp]: "owed 0 ts"
  by (simp add: owed_def)

lemma owed_less: "owed items ts \<Longrightarrow> items' \<le> items \<Longrightarrow> owed items' ts"
  by (auto simp: owed_def)

text \<open>A thread that is not woken changes to anything but a sleeper.\<close>

lemma owed_set:
  assumes "i < length ts" "owed items ts" "\<not> asleep t" "\<not> awake (ts ! i)"
  shows "owed items (ts[i := t])"
proof -
  have "number awake ts \<le> number awake (ts[i := t])"
    using number_update [OF assms(1), of awake t] assms(4) by simp
  then show ?thesis
    using assms list_ex_update [OF assms(1)] by (auto simp: owed_def)
qed

text \<open>A thread that takes an item, woken or not.\<close>

lemma owed_take:
  assumes "i < length ts" "owed (Suc items) ts" "\<not> asleep t"
  shows "owed items (ts[i := t])"
proof -
  have "number awake ts \<le> Suc (number awake (ts[i := t]))"
    using number_update [OF assms(1), of awake t] by (simp split: if_splits)
  then show ?thesis
    using assms list_ex_update [OF assms(1)] by (auto simp: owed_def)
qed

text \<open>An item arrives and one sleeper is notified.\<close>

lemma owed_notify:
  assumes "owed items ts" "notify_some wake asleep ts us"
  shows "owed (Suc items) us"
proof (cases "list_ex asleep ts")
  case True
  then obtain j where j: "j < length ts" "asleep (ts ! j)" "us = ts[j := wake (ts ! j)]"
    using assms(2) by (auto simp: notify_some_def)
  have not_awake: "\<not> awake (ts ! j)"
    using awake_not_asleep j(2) by blast
  have "number awake us = Suc (number awake ts)"
    using number_update [OF j(1), of awake "wake (ts ! j)"] j(3) wake_asleep [OF j(2)] not_awake by simp
  then show ?thesis
    using assms(1) True by (simp add: owed_def)
next
  case False
  then show ?thesis
    using assms(2) by (simp add: notify_some_def owed_none)
qed

lemma notified_asleep:
  assumes "notify_some wake asleep ts us" "list_ex asleep us"
  shows "list_ex asleep ts"
  using assms by (auto simp: notify_some_def split: if_splits)

lemma woken_all: "\<not> list_ex asleep (map wake ts)"
  by (auto simp: list_ex_iff asleep_wake)

lemma owed_awake: "owed items ts \<Longrightarrow> list_ex asleep ts \<Longrightarrow> 0 < items \<Longrightarrow> list_ex awake ts"
  by (rule ccontr) (auto simp: owed_def number_def list_ex_iff filter_empty_conv)

end

end
