(* ===== verification/Tocin_Channel.thy ===== *)
theory Tocin_Channel
  imports Tocin_Condition
begin

text \<open>
  \<open>Channel\<close> of \<open>src/runtime/concurrency.h\<close>: the operations on the buffer, and any number of threads
  that call them. An operation runs under the mutex from the lock, or from its wake-up, to the
  next wait or to its return, so each such stretch is one step. \<open>notify_one\<close> wakes any one
  sleeping thread, and a thread may also wake without a notification.
\<close>

section \<open>Operations\<close>

record 'a channel =
  ch_buffer :: "'a list"
  ch_capacity :: nat
  ch_closed :: bool

definition new_Channel :: "nat \<Rightarrow> 'a channel" where
  "new_Channel cap = \<lparr>ch_buffer = [], ch_capacity = cap, ch_closed = False\<rparr>"

text \<open>What a stretch ends with: the thread goes to sleep, or the call returns.\<close>

datatype 'r outcome = Sleep | Return 'r

text \<open>\<open>send\<close> from the test of the waiting predicate on.\<close>

definition send_woken :: "'a \<Rightarrow> 'a channel \<Rightarrow> bool outcome \<times> 'a channel" where
  "send_woken v c =
     (if ch_capacity c > 0 \<and> \<not> (length (ch_buffer c) < ch_capacity c \<or> ch_closed c) then (Sleep, c)
      else if ch_closed c then (Return False, c)
      else (Return True, c\<lparr>ch_buffer := ch_buffer c @ [v]\<rparr>))"

definition send :: "'a \<Rightarrow> 'a channel \<Rightarrow> bool outcome \<times> 'a channel" where
  "send v c = (if ch_closed c then (Return False, c) else send_woken v c)"

definition receive :: "'a channel \<Rightarrow> 'a option outcome \<times> 'a channel" where
  "receive c =
     (if \<not> (ch_buffer c \<noteq> [] \<or> ch_closed c) then (Sleep, c)
      else if ch_buffer c = [] \<and> ch_closed c then (Return None, c)
      else (Return (Some (hd (ch_buffer c))), c\<lparr>ch_buffer := tl (ch_buffer c)\<rparr>))"

definition close :: "'a channel \<Rightarrow> 'a channel" where
  "close c = c\<lparr>ch_closed := True\<rparr>"

definition isClosed :: "'a channel \<Rightarrow> bool" where
  "isClosed c = ch_closed c"

definition channel_size :: "'a channel \<Rightarrow> nat" where
  "channel_size c = length (ch_buffer c)"

text \<open>The default capacity 0 does not mean unbuffered: such a channel takes any number of values, and
  \<open>send\<close> never waits for a receiver.\<close>

lemma unbuffered_never_waits:
  "ch_capacity c = 0 \<Longrightarrow> send v c =
     (Return (\<not> ch_closed c), if ch_closed c then c else c\<lparr>ch_buffer := ch_buffer c @ [v]\<rparr>)"
  by (simp add: send_def send_woken_def)

section \<open>Threads\<close>

text \<open>A thread is outside the channel, about to lock it, asleep on one of the condition variables, or
  woken.\<close>

datatype 'a thread =
    Idle
  | Sending 'a | Send_Asleep 'a | Send_Awake 'a
  | Receiving | Recv_Asleep | Recv_Awake

fun wake :: "'a thread \<Rightarrow> 'a thread" where
  "wake (Send_Asleep v) = Send_Awake v"
| "wake Recv_Asleep = Recv_Awake"
| "wake t = t"

fun send_asleep :: "'a thread \<Rightarrow> bool" where
  "send_asleep (Send_Asleep v) = True" | "send_asleep t = False"

fun send_awake :: "'a thread \<Rightarrow> bool" where
  "send_awake (Send_Awake v) = True" | "send_awake t = False"

fun recv_asleep :: "'a thread \<Rightarrow> bool" where
  "recv_asleep Recv_Asleep = True" | "recv_asleep t = False"

fun recv_awake :: "'a thread \<Rightarrow> bool" where
  "recv_awake Recv_Awake = True" | "recv_awake t = False"

definition notify_one :: "('a thread \<Rightarrow> bool) \<Rightarrow> 'a thread list \<Rightarrow> 'a thread list \<Rightarrow> bool" where
  "notify_one = notify_some wake"

text \<open>The channel with its threads and the history of accepted and delivered values.\<close>

record 'a system =
  chan :: "'a channel"
  threads :: "'a thread list"
  accepted :: "'a list"
  delivered :: "'a list"

definition new_system :: "nat \<Rightarrow> nat \<Rightarrow> 'a system" where
  "new_system cap n =
     \<lparr>chan = new_Channel cap, threads = replicate n Idle, accepted = [], delivered = []\<rparr>"

definition set_thread :: "nat \<Rightarrow> 'a thread \<Rightarrow> 'a system \<Rightarrow> 'a system" where
  "set_thread i t s = s\<lparr>threads := (threads s)[i := t]\<rparr>"

text \<open>The effect of a stretch of \<open>send\<close> and of \<open>receive\<close> by thread \<open>i\<close>.\<close>

inductive after_send :: "nat \<Rightarrow> 'a \<Rightarrow> bool outcome \<times> 'a channel \<Rightarrow> 'a system \<Rightarrow> 'a system \<Rightarrow> bool" where
  "after_send i v (Sleep, c) s (set_thread i (Send_Asleep v) s)"
| "after_send i v (Return False, c) s (set_thread i Idle s)"
| "notify_one recv_asleep ((threads s)[i := Idle]) ts \<Longrightarrow>
     after_send i v (Return True, c) s
       (s\<lparr>chan := c, threads := ts, accepted := accepted s @ [v]\<rparr>)"

inductive after_receive :: "nat \<Rightarrow> 'a option outcome \<times> 'a channel \<Rightarrow> 'a system \<Rightarrow> 'a system \<Rightarrow> bool" where
  "after_receive i (Sleep, c) s (set_thread i Recv_Asleep s)"
| "after_receive i (Return None, c) s (set_thread i Idle s)"
| "notify_one send_asleep ((threads s)[i := Idle]) ts \<Longrightarrow>
     after_receive i (Return (Some v), c) s
       (s\<lparr>chan := c, threads := ts, delivered := delivered s @ [v]\<rparr>)"

inductive channel_step :: "'a system \<Rightarrow> 'a system \<Rightarrow> bool" where
  call_send: "i < length (threads s) \<Longrightarrow> threads s ! i = Idle \<Longrightarrow>
     channel_step s (set_thread i (Sending v) s)"
| call_receive: "i < length (threads s) \<Longrightarrow> threads s ! i = Idle \<Longrightarrow>
     channel_step s (set_thread i Receiving s)"
| run_send: "i < length (threads s) \<Longrightarrow> threads s ! i = Sending v \<Longrightarrow>
     after_send i v (send v (chan s)) s t \<Longrightarrow> channel_step s t"
| rerun_send: "i < length (threads s) \<Longrightarrow> threads s ! i = Send_Awake v \<Longrightarrow>
     after_send i v (send_woken v (chan s)) s t \<Longrightarrow> channel_step s t"
| run_receive: "i < length (threads s) \<Longrightarrow> threads s ! i \<in> {Receiving, Recv_Awake} \<Longrightarrow>
     after_receive i (receive (chan s)) s t \<Longrightarrow> channel_step s t"
| run_close: "i < length (threads s) \<Longrightarrow> threads s ! i = Idle \<Longrightarrow>
     channel_step s (s\<lparr>chan := close (chan s), threads := map wake (threads s)\<rparr>)"
| spurious: "i < length (threads s) \<Longrightarrow>
     channel_step s (set_thread i (wake (threads s ! i)) s)"

inductive channel_reachable :: "nat \<Rightarrow> nat \<Rightarrow> 'a system \<Rightarrow> bool" for cap n where
  channel_start: "channel_reachable cap n (new_system cap n)"
| channel_next: "channel_reachable cap n s \<Longrightarrow> channel_step s t \<Longrightarrow> channel_reachable cap n t"

section \<open>The condition variables\<close>

text \<open>Receivers wait for a value, senders for a free place.\<close>

interpretation not_empty: condition_variable wake recv_asleep recv_awake
proof
  fix t :: "'a thread"
  show "recv_asleep t \<Longrightarrow> recv_awake (wake t)" "recv_awake t \<Longrightarrow> \<not> recv_asleep t" "\<not> recv_asleep (wake t)"
    by (cases t; simp)+
qed

interpretation not_full: condition_variable wake send_asleep send_awake
proof
  fix t :: "'a thread"
  show "send_asleep t \<Longrightarrow> send_awake (wake t)" "send_awake t \<Longrightarrow> \<not> send_asleep t" "\<not> send_asleep (wake t)"
    by (cases t; simp)+
qed

lemmas notify_one_defs = notify_one_def notify_some_def
lemmas receivers_notified = not_empty.owed_notify [folded notify_one_def] not_empty.notified_asleep [folded notify_one_def]
lemmas senders_notified = not_full.owed_notify [folded notify_one_def] not_full.notified_asleep [folded notify_one_def]

section \<open>The invariant\<close>

text \<open>No wake-up is lost: the values owe the sleeping receivers woken ones, the free places owe the
  sleeping senders. After closing, nobody sleeps.\<close>

definition nobody_asleep :: "'a thread list \<Rightarrow> bool" where
  "nobody_asleep ts \<longleftrightarrow> \<not> list_ex recv_asleep ts \<and> \<not> list_ex send_asleep ts"

definition wakeups_ok :: "'a channel \<Rightarrow> 'a thread list \<Rightarrow> bool" where
  "wakeups_ok c ts \<longleftrightarrow>
     (ch_closed c \<longrightarrow> nobody_asleep ts)
   \<and> (ch_capacity c = 0 \<longrightarrow> \<not> list_ex send_asleep ts)
   \<and> not_empty.owed (length (ch_buffer c)) ts
   \<and> not_full.owed (ch_capacity c - length (ch_buffer c)) ts"

definition channel_inv :: "nat \<Rightarrow> nat \<Rightarrow> 'a system \<Rightarrow> bool" where
  "channel_inv cap n s \<longleftrightarrow>
     ch_capacity (chan s) = cap \<and> length (threads s) = n
   \<and> accepted s = delivered s @ ch_buffer (chan s)
   \<and> (0 < cap \<longrightarrow> length (ch_buffer (chan s)) \<le> cap)
   \<and> wakeups_ok (chan s) (threads s)"

definition sleeper :: "'a thread \<Rightarrow> bool" where
  "sleeper t \<longleftrightarrow> recv_asleep t \<or> send_asleep t"

lemma not_sleeper [simp]:
  "\<not> sleeper Idle" "\<not> sleeper (Sending v)" "\<not> sleeper Receiving" "\<not> sleeper (wake t)"
  by (cases t; simp add: sleeper_def)+

lemma nobody_asleep_update: "i < length ts \<Longrightarrow> nobody_asleep ts \<Longrightarrow> \<not> sleeper t \<Longrightarrow> nobody_asleep (ts[i := t])"
  by (auto simp: nobody_asleep_def sleeper_def dest: list_ex_update)

text \<open>A thread that is not woken turns into one that does not sleep.\<close>

lemma wakeups_quiet:
  assumes "i < length ts" "wakeups_ok c ts" "\<not> sleeper t" "\<not> recv_awake (ts ! i)" "\<not> send_awake (ts ! i)"
  shows "wakeups_ok c (ts[i := t])"
  using assms nobody_asleep_update [OF assms(1) _ assms(3)]
  by (auto simp: wakeups_ok_def sleeper_def dest: list_ex_update
      intro: not_empty.owed_set not_full.owed_set)

lemma wakeups_closed:
  assumes "i < length ts" "wakeups_ok c ts" "ch_closed c" "\<not> sleeper t"
  shows "wakeups_ok c (ts[i := t])"
  using assms nobody_asleep_update [OF assms(1) _ assms(4)]
  by (auto simp: wakeups_ok_def nobody_asleep_def intro: not_empty.owed_none not_full.owed_none)

lemma length_notified: "notify_one P ts us \<Longrightarrow> length us = length ts"
  by (auto simp: notify_one_defs split: if_splits)

lemma notified_recv_others:
  assumes "notify_one recv_asleep ts us"
  shows "not_full.owed k ts \<Longrightarrow> not_full.owed k us" "list_ex send_asleep us \<Longrightarrow> list_ex send_asleep ts"
proof -
  have other: "recv_asleep t \<Longrightarrow> \<not> send_awake t \<and> \<not> send_asleep (wake t)" for t :: "'a thread"
    by (cases t) auto
  show "not_full.owed k ts \<Longrightarrow> not_full.owed k us"
    using assms other by (auto simp: notify_one_defs intro: not_full.owed_set split: if_splits)
  show "list_ex send_asleep us \<Longrightarrow> list_ex send_asleep ts"
    using assms other by (auto simp: notify_one_defs dest: list_ex_update split: if_splits)
qed

lemma notified_send_others:
  assumes "notify_one send_asleep ts us"
  shows "not_empty.owed k ts \<Longrightarrow> not_empty.owed k us" "list_ex recv_asleep us \<Longrightarrow> list_ex recv_asleep ts"
proof -
  have other: "send_asleep t \<Longrightarrow> \<not> recv_awake t \<and> \<not> recv_asleep (wake t)" for t :: "'a thread"
    by (cases t) auto
  show "not_empty.owed k ts \<Longrightarrow> not_empty.owed k us"
    using assms other by (auto simp: notify_one_defs intro: not_empty.owed_set split: if_splits)
  show "list_ex recv_asleep us \<Longrightarrow> list_ex recv_asleep ts"
    using assms other by (auto simp: notify_one_defs dest: list_ex_update split: if_splits)
qed

lemma wakeups_send:
  assumes "i < length ts" "wakeups_ok c ts" "\<not> ch_closed c" "\<not> recv_awake (ts ! i)"
    "0 < ch_capacity c \<longrightarrow> length (ch_buffer c) < ch_capacity c"
    "notify_one recv_asleep (ts[i := Idle]) us"
  shows "wakeups_ok (c\<lparr>ch_buffer := ch_buffer c @ [v]\<rparr>) us"
proof -
  let ?ts = "ts[i := Idle]" and ?free = "ch_capacity c - Suc (length (ch_buffer c))"
  have "not_empty.owed (length (ch_buffer c)) ?ts"
    using assms by (intro not_empty.owed_set) (auto simp: wakeups_ok_def)
  moreover have "not_full.owed ?free ?ts"
  proof (cases "ch_capacity c = 0")
    case False
    then have "Suc ?free = ch_capacity c - length (ch_buffer c)"
      using assms(5) by simp
    then show ?thesis
      using assms(1,2) by (intro not_full.owed_take) (auto simp: wakeups_ok_def)
  qed simp
  ultimately show ?thesis
    using assms receivers_notified(1) [OF _ assms(6)] notified_recv_others [OF assms(6)]
    by (auto simp: wakeups_ok_def dest: list_ex_update)
qed

lemma wakeups_receive:
  assumes "i < length ts" "wakeups_ok c ts" "\<not> send_awake (ts ! i)" "ch_buffer c \<noteq> []"
    "0 < ch_capacity c \<longrightarrow> length (ch_buffer c) \<le> ch_capacity c"
    "notify_one send_asleep (ts[i := Idle]) us"
  shows "wakeups_ok (c\<lparr>ch_buffer := tl (ch_buffer c)\<rparr>) us"
proof -
  let ?ts = "ts[i := Idle]" and ?free = "ch_capacity c - length (ch_buffer c)"
  have "not_full.owed ?free ?ts"
    using assms by (intro not_full.owed_set) (auto simp: wakeups_ok_def)
  then have "not_full.owed (Suc ?free) us"
    using assms(6) by (rule senders_notified(1))
  then have full: "not_full.owed (ch_capacity c - (length (ch_buffer c) - 1)) us"
    by (rule not_full.owed_less) simp
  have "not_empty.owed (length (ch_buffer c) - 1) ?ts"
    using assms by (intro not_empty.owed_take) (auto simp: wakeups_ok_def)
  then show ?thesis
    using assms full notified_send_others [OF assms(6)] senders_notified(2) [OF assms(6)]
    by (auto simp: wakeups_ok_def nobody_asleep_def dest!: list_ex_update)
qed

lemma wakeups_recv_asleep:
  assumes "i < length ts" "wakeups_ok c ts" "ch_buffer c = []" "\<not> ch_closed c" "\<not> send_awake (ts ! i)"
  shows "wakeups_ok c (ts[i := Recv_Asleep])"
  using assms by (auto simp: wakeups_ok_def dest: list_ex_update intro: not_full.owed_set)

lemma wakeups_send_asleep:
  assumes "i < length ts" "wakeups_ok c ts" "0 < ch_capacity c" "ch_capacity c \<le> length (ch_buffer c)"
    "\<not> ch_closed c" "\<not> recv_awake (ts ! i)"
  shows "wakeups_ok c (ts[i := Send_Asleep v])"
  using assms by (auto simp: wakeups_ok_def intro: not_empty.owed_set)

lemma wakeups_close: "wakeups_ok (close c) (map wake ts)"
  by (simp add: wakeups_ok_def nobody_asleep_def close_def not_empty.woken_all not_full.woken_all
      not_empty.owed_none not_full.owed_none)

lemma wakeups_spurious:
  assumes "i < length ts" "wakeups_ok c ts"
  shows "wakeups_ok c (ts[i := wake (ts ! i)])"
proof (cases "wake (ts ! i) = ts ! i")
  case False
  then have "\<not> recv_awake (ts ! i) \<and> \<not> send_awake (ts ! i)"
    by (cases "ts ! i") auto
  then show ?thesis
    using wakeups_quiet [OF assms not_sleeper(4)] by blast
qed (use assms in simp)

section \<open>Every step keeps the invariant\<close>

lemma send_woken_outcome:
  "send_woken v c = (Sleep, d) \<longleftrightarrow>
     0 < ch_capacity c \<and> ch_capacity c \<le> length (ch_buffer c) \<and> \<not> ch_closed c \<and> d = c"
  "send_woken v c = (Return False, d) \<longleftrightarrow> ch_closed c \<and> d = c"
  "send_woken v c = (Return True, d) \<longleftrightarrow>
     \<not> ch_closed c \<and> (0 < ch_capacity c \<longrightarrow> length (ch_buffer c) < ch_capacity c)
     \<and> d = c\<lparr>ch_buffer := ch_buffer c @ [v]\<rparr>"
  by (auto simp: send_woken_def)

lemma receive_outcome:
  "receive c = (Sleep, d) \<longleftrightarrow> ch_buffer c = [] \<and> \<not> ch_closed c \<and> d = c"
  "receive c = (Return None, d) \<longleftrightarrow> ch_buffer c = [] \<and> ch_closed c \<and> d = c"
  "receive c = (Return (Some v), d) \<longleftrightarrow>
     ch_buffer c \<noteq> [] \<and> v = hd (ch_buffer c) \<and> d = c\<lparr>ch_buffer := tl (ch_buffer c)\<rparr>"
  by (auto simp: receive_def)

lemma inv_after_send:
  assumes inv: "channel_inv cap n s" and i: "i < length (threads s)" "threads s ! i \<in> {Sending v, Send_Awake v}"
    and step: "after_send i v (send_woken v (chan s)) s t"
  shows "channel_inv cap n t"
proof -
  have not_recv: "\<not> recv_awake (threads s ! i)"
    using i(2) by auto
  have ok: "wakeups_ok (chan s) (threads s)"
    using inv by (simp add: channel_inv_def)
  from step show ?thesis
  proof (cases rule: after_send.cases)
    case 1
    then show ?thesis
      using inv wakeups_send_asleep [OF i(1) ok _ _ _ not_recv]
      by (simp add: channel_inv_def set_thread_def send_woken_outcome)
  next
    case 2
    then show ?thesis
      using inv wakeups_closed [OF i(1) ok]
      by (simp add: channel_inv_def set_thread_def send_woken_outcome)
  next
    case (3 ts c)
    then have c: "\<not> ch_closed (chan s)" "c = chan s\<lparr>ch_buffer := ch_buffer (chan s) @ [v]\<rparr>"
        "0 < ch_capacity (chan s) \<longrightarrow> length (ch_buffer (chan s)) < ch_capacity (chan s)"
      by (simp_all add: send_woken_outcome)
    then show ?thesis
      using inv 3 wakeups_send [OF i(1) ok c(1) not_recv c(3) 3(3)]
      by (auto simp: channel_inv_def length_notified)
  qed
qed

lemma inv_after_receive:
  assumes inv: "channel_inv cap n s" and i: "i < length (threads s)" "threads s ! i \<in> {Receiving, Recv_Awake}"
    and step: "after_receive i (receive (chan s)) s t"
  shows "channel_inv cap n t"
proof -
  have not_send: "\<not> send_awake (threads s ! i)"
    using i(2) by auto
  have ok: "wakeups_ok (chan s) (threads s)"
    using inv by (simp add: channel_inv_def)
  from step show ?thesis
  proof (cases rule: after_receive.cases)
    case 1
    then show ?thesis
      using inv wakeups_recv_asleep [OF i(1) ok _ _ not_send]
      by (simp add: channel_inv_def set_thread_def receive_outcome)
  next
    case 2
    then show ?thesis
      using inv wakeups_closed [OF i(1) ok]
      by (simp add: channel_inv_def set_thread_def receive_outcome)
  next
    case (3 ts v c)
    then have c: "ch_buffer (chan s) \<noteq> []" "v = hd (ch_buffer (chan s))"
        "c = chan s\<lparr>ch_buffer := tl (ch_buffer (chan s))\<rparr>"
      using receive_outcome(3) [of "chan s" v c] by blast+
    have bound: "0 < ch_capacity (chan s) \<longrightarrow> length (ch_buffer (chan s)) \<le> ch_capacity (chan s)"
      using inv by (simp add: channel_inv_def)
    have "wakeups_ok c ts"
      using wakeups_receive [OF i(1) ok not_send c(1) bound 3(3)] c(3) by (simp del: channel.simps)
    then show ?thesis
      using inv 3(2) bound c length_notified [OF 3(3)]
      by (auto simp: channel_inv_def)
  qed
qed

lemma inv_set_quiet:
  assumes "channel_inv cap n s" "i < length (threads s)" "threads s ! i = Idle" "\<not> sleeper t"
  shows "channel_inv cap n (set_thread i t s)"
  using assms wakeups_quiet [OF assms(2), of "chan s" t] by (simp add: channel_inv_def set_thread_def)

lemma inv_set_wake: "channel_inv cap n s \<Longrightarrow> i < length (threads s) \<Longrightarrow>
    channel_inv cap n (set_thread i (wake (threads s ! i)) s)"
  using wakeups_spurious [of i "threads s" "chan s"] by (simp add: channel_inv_def set_thread_def)

lemma inv_close: "channel_inv cap n s \<Longrightarrow>
    channel_inv cap n (s\<lparr>chan := close (chan s), threads := map wake (threads s)\<rparr>)"
  using wakeups_close [of "chan s" "threads s"] by (simp add: channel_inv_def close_def)

lemma send_as_woken: "after_send i v (send v c) s t \<Longrightarrow> after_send i v (send_woken v c) s t"
  by (auto simp: send_def send_woken_def split: if_splits)

lemma inv_channel_step:
  assumes "channel_step s t" "channel_inv cap n s"
  shows "channel_inv cap n t"
  using assms
proof (cases rule: channel_step.cases)
  case (run_send i v)
  then show ?thesis
    using inv_after_send [OF assms(2) _ _ send_as_woken] by simp
next
  case (rerun_send i v)
  then show ?thesis
    using inv_after_send [OF assms(2)] by simp
next
  case (run_receive i)
  then show ?thesis
    using inv_after_receive [OF assms(2)] by simp
qed (simp_all add: assms(2) inv_set_quiet inv_set_wake inv_close)

lemma inv_new_system: "channel_inv cap n (new_system cap n)"
  by (auto simp: channel_inv_def new_system_def new_Channel_def wakeups_ok_def nobody_asleep_def list_ex_iff
      intro: not_full.owed_none)

lemma inv_reachable: "channel_reachable cap n s \<Longrightarrow> channel_inv cap n s"
  by (induction rule: channel_reachable.induct) (auto intro: inv_new_system inv_channel_step)

section \<open>What the channel promises\<close>

text \<open>C14: in every run of any number of threads the values received are those accepted by \<open>send\<close>, in
  that order and each once, followed by those still buffered; a bounded channel never holds more than
  its capacity.\<close>

theorem channel_fifo:
  assumes "channel_reachable cap n s"
  shows "accepted s = delivered s @ ch_buffer (chan s)
       \<and> (0 < cap \<longrightarrow> channel_size (chan s) \<le> cap)"
  using inv_reachable [OF assms] by (auto simp: channel_inv_def channel_size_def)

text \<open>No thread can run on: each is outside the channel or asleep.\<close>

definition stuck :: "'a system \<Rightarrow> bool" where
  "stuck s \<longleftrightarrow> list_all (\<lambda>t. t = Idle \<or> sleeper t) (threads s)"

lemma stuck_number: "stuck s \<Longrightarrow> number recv_awake (threads s) = 0 \<and> number send_awake (threads s) = 0"
  by (auto simp: stuck_def number_def list_all_iff filter_empty_conv sleeper_def
      elim!: recv_awake.elims send_awake.elims)

text \<open>C15: no wake-up is lost. When nothing runs any more, receivers sleep only on an open, empty
  channel and senders only on an open channel filled to its capacity; so they never sleep at the same
  time, and after \<open>close\<close> nobody sleeps.\<close>

theorem channel_no_lost_wakeup:
  assumes "channel_reachable cap n s" and "stuck s"
  shows "(list_ex recv_asleep (threads s) \<longrightarrow> ch_buffer (chan s) = [])
       \<and> (list_ex send_asleep (threads s) \<longrightarrow> 0 < cap \<and> channel_size (chan s) = cap)
       \<and> \<not> (list_ex recv_asleep (threads s) \<and> list_ex send_asleep (threads s))
       \<and> (isClosed (chan s) \<longrightarrow> nobody_asleep (threads s))"
  using inv_reachable [OF assms(1)] stuck_number [OF assms(2)]
  by (auto simp: channel_inv_def wakeups_ok_def not_empty.owed_def not_full.owed_def isClosed_def nobody_asleep_def
      channel_size_def)

text \<open>A receiver of a channel of one place goes to sleep, a sender fills it and wakes the receiver.\<close>

definition sleeping_receiver :: "nat system" where
  "sleeping_receiver = \<lparr>chan = new_Channel 1, threads = [Recv_Asleep, Idle], accepted = [], delivered = []\<rparr>"

definition woken_receiver :: "nat system" where
  "woken_receiver = \<lparr>chan = (new_Channel 1)\<lparr>ch_buffer := [7]\<rparr>, threads = [Recv_Awake, Idle],
     accepted = [7], delivered = []\<rparr>"

lemma sleeping_receiver_reachable: "channel_reachable 1 2 sleeping_receiver"
proof -
  let ?s = "set_thread 0 Receiving (new_system 1 2 :: nat system)"
  have "channel_reachable 1 2 ?s"
    by (rule channel_next [OF channel_start]) (rule call_receive; simp add: new_system_def numeral_2_eq_2)
  moreover have "receive (chan ?s) = (Sleep, chan ?s)"
    by (simp add: receive_def new_system_def new_Channel_def set_thread_def)
  then have "after_receive 0 (receive (chan ?s)) ?s (set_thread 0 Recv_Asleep ?s)"
    by (simp only: after_receive.intros)
  then have "channel_step ?s (set_thread 0 Recv_Asleep ?s)"
    by (intro run_receive [of 0]) (simp_all add: set_thread_def new_system_def numeral_2_eq_2)
  moreover have "set_thread 0 Recv_Asleep ?s = sleeping_receiver"
    by (simp add: set_thread_def new_system_def sleeping_receiver_def numeral_2_eq_2)
  ultimately show ?thesis
    by (auto intro: channel_next)
qed

lemma woken_receiver_reachable: "channel_reachable 1 2 woken_receiver"
proof -
  let ?s = "set_thread 1 (Sending 7) sleeping_receiver"
  have "channel_reachable 1 2 ?s"
    by (rule channel_next [OF sleeping_receiver_reachable]) (rule call_send; simp add: sleeping_receiver_def)
  moreover have "after_send 1 7 (send 7 (chan ?s)) ?s woken_receiver"
  proof -
    have "notify_one recv_asleep ((threads ?s)[1 := Idle]) [Recv_Awake, Idle]"
      by (auto simp: notify_one_defs set_thread_def sleeping_receiver_def)
    then have "after_send 1 7 (Return True, (new_Channel 1)\<lparr>ch_buffer := [7]\<rparr>) ?s
        (?s\<lparr>chan := (new_Channel 1)\<lparr>ch_buffer := [7]\<rparr>, threads := [Recv_Awake, Idle],
           accepted := accepted ?s @ [7]\<rparr>)"
      by (rule after_send.intros)
    then show ?thesis
      by (simp add: send_def send_woken_def set_thread_def sleeping_receiver_def woken_receiver_def new_Channel_def)
  qed
  then have "channel_step ?s woken_receiver"
    by (intro run_send [of 1 _ 7]) (simp_all add: set_thread_def sleeping_receiver_def)
  ultimately show ?thesis
    by (rule channel_next)
qed

lemma channel_fifo_witness:
  "accepted woken_receiver = delivered woken_receiver @ ch_buffer (chan woken_receiver)
   \<and> channel_size (chan woken_receiver) \<le> 1"
  using channel_fifo [OF woken_receiver_reachable] by simp

lemma channel_no_lost_wakeup_witness:
  "stuck sleeping_receiver \<and> list_ex recv_asleep (threads sleeping_receiver) \<and> ch_buffer (chan sleeping_receiver) = []"
proof -
  have asleep: "stuck sleeping_receiver" "list_ex recv_asleep (threads sleeping_receiver)"
    by (simp_all add: stuck_def sleeping_receiver_def sleeper_def)
  then show ?thesis
    using channel_no_lost_wakeup [OF sleeping_receiver_reachable asleep(1)] by blast
qed

end
