(* ===== verification/Tocin_Thread_Pool.thy ===== *)
theory Tocin_Thread_Pool
  imports Tocin_Prelude "HOL-Library.Multiset"
begin

text \<open>
  \<open>ThreadPool\<close> of \<open>src/runtime/concurrency.h\<close>: the workers' loop, \<open>submit\<close> and \<open>stop\<close>, as steps of any
  number of threads. A task is a number; what it computes does not matter to the pool. \<open>stop\<close> stores its
  flag without the mutex, so the store can fall between two steps of whoever holds the mutex; those two
  steps are apart here: a worker that found nothing to do and then sleeps, and a caller of \<open>submit\<close> that
  found the pool running and then queues its task.
\<close>

section \<open>State\<close>

datatype worker =
    Ready          \<comment> \<open>about to lock the mutex and test the waiting predicate\<close>
  | Nothing_To_Do  \<comment> \<open>the predicate was false; holds the mutex\<close>
  | Asleep
  | Running nat
  | Returned

datatype holder = Free | Worker nat | Submitter nat

datatype stopper = Not_Called | Stored | Joining

record pool =
  workers :: "worker list"
  tasks :: "nat list"
  should_stop :: bool
  mutex :: holder
  notifications :: nat   \<comment> \<open>callers of \<open>submit\<close> between the unlock and \<open>notify_one\<close>\<close>
  stop_call :: stopper
  submitted :: "nat list"
  taken :: "nat list"
  executed :: "nat list"

definition new_ThreadPool :: "nat \<Rightarrow> pool" where
  "new_ThreadPool n = \<lparr>workers = replicate n Ready, tasks = [], should_stop = False, mutex = Free,
     notifications = 0, stop_call = Not_Called, submitted = [], taken = [], executed = []\<rparr>"

definition active_threads :: "pool \<Rightarrow> nat" where
  "active_threads p = length (filter (\<lambda>w. case w of Running t \<Rightarrow> True | _ \<Rightarrow> False) (workers p))"

definition set_worker :: "nat \<Rightarrow> worker \<Rightarrow> pool \<Rightarrow> pool" where
  "set_worker i w p = p\<lparr>workers := (workers p)[i := w]\<rparr>"

text \<open>A worker that holds the mutex tests the predicate, and returns, takes a task or goes on to sleep.\<close>

definition worker_test :: "nat \<Rightarrow> pool \<Rightarrow> pool" where
  "worker_test i p =
     (if \<not> (should_stop p \<or> tasks p \<noteq> []) then set_worker i Nothing_To_Do (p\<lparr>mutex := Worker i\<rparr>)
      else if should_stop p \<and> tasks p = [] then set_worker i Returned p
      else set_worker i (Running (hd (tasks p)))
             (p\<lparr>tasks := tl (tasks p), taken := taken p @ [hd (tasks p)]\<rparr>))"

definition worker_run :: "nat \<Rightarrow> nat \<Rightarrow> pool \<Rightarrow> pool" where
  "worker_run i t p = set_worker i Ready (p\<lparr>executed := executed p @ [t]\<rparr>)"

text \<open>A caller of \<open>submit\<close> that found the pool running queues its task and unlocks.\<close>

definition submit_task :: "nat \<Rightarrow> pool \<Rightarrow> pool" where
  "submit_task t p = p\<lparr>mutex := Free, tasks := tasks p @ [t], submitted := submitted p @ [t],
                       notifications := Suc (notifications p)\<rparr>"

definition getQueuedTasks :: "pool \<Rightarrow> nat" where
  "getQueuedTasks p = length (tasks p)"

definition wake_worker :: "worker \<Rightarrow> worker" where
  "wake_worker w = (if w = Asleep then Ready else w)"

text \<open>The two statements of \<open>stop\<close> before it joins the workers.\<close>

definition stop_flag :: "pool \<Rightarrow> pool" where
  "stop_flag p = p\<lparr>should_stop := True, stop_call := Stored\<rparr>"

definition stop_notify_all :: "pool \<Rightarrow> pool" where
  "stop_notify_all p = p\<lparr>workers := map wake_worker (workers p), stop_call := Joining\<rparr>"

inductive pool_step :: "pool \<Rightarrow> pool \<Rightarrow> bool" where
  test: "i < length (workers p) \<Longrightarrow> workers p ! i = Ready \<Longrightarrow> mutex p = Free \<Longrightarrow>
     pool_step p (worker_test i p)"
| sleep: "i < length (workers p) \<Longrightarrow> workers p ! i = Nothing_To_Do \<Longrightarrow> mutex p = Worker i \<Longrightarrow>
     pool_step p (set_worker i Asleep (p\<lparr>mutex := Free\<rparr>))"
| run: "i < length (workers p) \<Longrightarrow> workers p ! i = Running t \<Longrightarrow>
     pool_step p (worker_run i t p)"
| submit_test: "mutex p = Free \<Longrightarrow> \<not> should_stop p \<Longrightarrow>
     pool_step p (p\<lparr>mutex := Submitter t\<rparr>)"
| submit_push: "mutex p = Submitter t \<Longrightarrow>
     pool_step p (submit_task t p)"
| notify_sleeper: "notifications p = Suc k \<Longrightarrow> i < length (workers p) \<Longrightarrow> workers p ! i = Asleep \<Longrightarrow>
     pool_step p (set_worker i Ready (p\<lparr>notifications := k\<rparr>))"
| notify_nobody: "notifications p = Suc k \<Longrightarrow> Asleep \<notin> set (workers p) \<Longrightarrow>
     pool_step p (p\<lparr>notifications := k\<rparr>)"
| stop_store: "stop_call p = Not_Called \<Longrightarrow>
     pool_step p (stop_flag p)"
| stop_notify: "stop_call p = Stored \<Longrightarrow>
     pool_step p (stop_notify_all p)"

text \<open>A condition variable may also wake a thread on its own.\<close>

inductive pool_reachable :: "nat \<Rightarrow> pool \<Rightarrow> bool" for n where
  pool_start: "pool_reachable n (new_ThreadPool n)"
| pool_next: "pool_reachable n p \<Longrightarrow> pool_step p q \<Longrightarrow> pool_reachable n q"
| pool_spurious: "pool_reachable n p \<Longrightarrow> i < length (workers p) \<Longrightarrow>
     pool_reachable n (set_worker i (wake_worker (workers p ! i)) p)"

section \<open>Every task once\<close>

definition task_of :: "worker \<Rightarrow> nat multiset" where
  "task_of w = (case w of Running t \<Rightarrow> {#t#} | _ \<Rightarrow> {#})"

definition running :: "worker list \<Rightarrow> nat multiset" where
  "running ws = (\<Sum>w\<in>#mset ws. task_of w)"

lemma task_of_simps [simp]:
  "task_of Ready = {#}" "task_of Nothing_To_Do = {#}" "task_of Asleep = {#}" "task_of Returned = {#}"
  "task_of (Running t) = {#t#}" "task_of (wake_worker w) = task_of w"
  by (simp_all add: task_of_def wake_worker_def)

lemma running_update: "i < length ws \<Longrightarrow>
    running (ws[i := w]) + task_of (ws ! i) = running ws + task_of w"
proof (induction ws arbitrary: i)
  case (Cons x ws)
  then show ?case
    by (cases i) (auto simp: running_def ac_simps)
qed simp

lemma running_quiet [simp]: "i < length ws \<Longrightarrow> task_of (ws ! i) = task_of w \<Longrightarrow>
    running (ws[i := w]) = running ws"
  using running_update [of i ws w] by simp

lemma running_woken [simp]: "running (map wake_worker ws) = running ws"
  by (induction ws) (simp_all add: running_def)

definition pool_inv :: "nat \<Rightarrow> pool \<Rightarrow> bool" where
  "pool_inv n p \<longleftrightarrow>
     length (workers p) = n
   \<and> submitted p = taken p @ tasks p
   \<and> mset (taken p) = mset (executed p) + running (workers p)
   \<and> (stop_call p \<noteq> Not_Called \<longrightarrow> should_stop p)
   \<and> (Returned \<in> set (workers p) \<longrightarrow> should_stop p \<and> tasks p = [] \<and> (\<forall>t. mutex p \<noteq> Submitter t))"

lemma set_update_other: "x \<in> set (ws[i := w]) \<Longrightarrow> x \<noteq> w \<Longrightarrow> x \<in> set ws"
  using set_update_subset_insert [of ws i w] by auto

lemma wake_worker_Returned [simp]: "Returned \<in> wake_worker ` A \<longleftrightarrow> Returned \<in> A"
  by (auto simp: wake_worker_def image_iff split: if_splits)

lemma inv_worker_test:
  assumes "pool_inv n p" "i < length (workers p)" "workers p ! i = Ready" "mutex p = Free"
  shows "pool_inv n (worker_test i p)"
  using assms running_update [of i "workers p" "Running (hd (tasks p))"]
  by (auto simp: pool_inv_def worker_test_def set_worker_def dest: set_update_other)

lemma inv_pool_step: "pool_step p q \<Longrightarrow> pool_inv n p \<Longrightarrow> pool_inv n q"
proof (induction rule: pool_step.induct)
  case (run i p t)
  then show ?case
    using running_update [of i "workers p" Ready]
    by (auto simp: worker_run_def pool_inv_def set_worker_def dest: set_update_other)
qed (auto simp: inv_worker_test, auto simp: pool_inv_def submit_task_def stop_flag_def stop_notify_all_def
      set_worker_def dest: set_update_other)

lemma inv_pool_reachable: "pool_reachable n p \<Longrightarrow> pool_inv n p"
proof (induction rule: pool_reachable.induct)
  case pool_start
  then show ?case
    by (simp add: pool_inv_def new_ThreadPool_def running_def)
next
  case (pool_spurious p i)
  then show ?case
    by (auto simp: pool_inv_def set_worker_def wake_worker_def list_update_id split: if_splits dest: set_update_other)
qed (auto intro: inv_pool_step)

text \<open>The pool takes the tasks in the order of \<open>submit\<close>, each once; a taken task is either done or
  running in exactly one worker.\<close>

theorem pool_exactly_once:
  assumes "pool_reachable n p"
  shows "submitted p = taken p @ tasks p
       \<and> mset (taken p) = mset (executed p) + running (workers p)"
  using inv_pool_reachable [OF assms] by (simp add: pool_inv_def)

lemma running_returned: "list_all (\<lambda>w. w = Returned) ws \<Longrightarrow> running ws = {#}"
  by (induction ws) (simp_all add: running_def)

lemma drained:
  assumes "pool_reachable n p" and "0 < n" and "list_all (\<lambda>w. w = Returned) (workers p)"
  shows "mset (executed p) = mset (submitted p)"
proof -
  have "Returned \<in> set (workers p)"
    using inv_pool_reachable [OF assms(1)] assms(2,3)
    by (cases "workers p") (auto simp: pool_inv_def)
  then show ?thesis
    using inv_pool_reachable [OF assms(1)] running_returned [OF assms(3)]
    by (simp add: pool_inv_def)
qed

text \<open>C16: when \<open>stop\<close> has joined the workers, every task that \<open>submit\<close> accepted has been executed
  exactly once: a worker leaves only when the queue is empty, and nothing is queued after that.\<close>

theorem pool_stop_drains:
  assumes "pool_reachable n p" and "0 < n" and "list_all (\<lambda>w. w = Returned) (workers p)"
  shows "mset (executed p) = mset (submitted p)"
  by (rule drained [OF assms])

text \<open>One worker, stopped between its test of the predicate and its sleep.\<close>

definition hung_pool :: pool where
  "hung_pool = (new_ThreadPool 1)\<lparr>workers := [Asleep], should_stop := True, stop_call := Joining\<rparr>"

lemma hung_pool_reachable: "pool_reachable 1 hung_pool"
proof -
  let ?idle = "set_worker 0 Nothing_To_Do ((new_ThreadPool 1)\<lparr>mutex := Worker 0\<rparr>)"
  let ?stored = "?idle\<lparr>should_stop := True, stop_call := Stored\<rparr>"
  let ?joining = "?stored\<lparr>workers := map wake_worker (workers ?stored), stop_call := Joining\<rparr>"
  have "pool_step (new_ThreadPool 1) ?idle"
    using test [of 0 "new_ThreadPool 1"] by (simp add: worker_test_def new_ThreadPool_def)
  moreover have "pool_step ?idle ?stored"
    using stop_store [of ?idle] by (simp add: new_ThreadPool_def set_worker_def stop_flag_def)
  moreover have "pool_step ?stored ?joining"
    using stop_notify [of ?stored] by (simp add: stop_notify_all_def)
  moreover have "pool_step ?joining hung_pool"
    using sleep [of 0 ?joining]
    by (simp add: new_ThreadPool_def set_worker_def hung_pool_def wake_worker_def)
  ultimately show ?thesis
    by (meson pool_next pool_start)
qed

inductive_cases pool_step_from: "pool_step p q"

text \<open>\<open>stop\<close> can wait forever. It stores its flag and notifies without the mutex, so both can
  fall between a worker's test of the predicate and its sleep; then the notification is lost and
  nothing is left that could wake the worker, which \<open>stop\<close> joins.\<close>

theorem pool_stop_hangs:
  "\<exists>p. pool_reachable 1 p \<and> stop_call p = Joining \<and> workers p = [Asleep] \<and> \<not> (\<exists>q. pool_step p q)"
proof (intro exI conjI)
  show "pool_reachable 1 hung_pool"
    by (rule hung_pool_reachable)
  show "\<not> (\<exists>q. pool_step hung_pool q)"
    by (auto simp: hung_pool_def new_ThreadPool_def elim!: pool_step_from)
qed (simp_all add: hung_pool_def)

text \<open>One worker that takes and runs one task, and then sees the stop.\<close>

definition drained_pool :: pool where
  "drained_pool = (new_ThreadPool 1)\<lparr>workers := [Returned], should_stop := True, notifications := 1,
     stop_call := Stored, submitted := [5], taken := [5], executed := [5]\<rparr>"

lemma drained_pool_reachable: "pool_reachable 1 drained_pool"
proof -
  let ?p0 = "new_ThreadPool 1"
  let ?p1 = "?p0\<lparr>mutex := Submitter 5\<rparr>"
  let ?p2 = "?p0\<lparr>tasks := [5], submitted := [5], notifications := 1\<rparr>"
  let ?p3 = "?p0\<lparr>workers := [Running 5], taken := [5], submitted := [5], notifications := 1\<rparr>"
  let ?p4 = "?p0\<lparr>taken := [5], submitted := [5], executed := [5], notifications := 1\<rparr>"
  let ?p5 = "?p4\<lparr>should_stop := True, stop_call := Stored\<rparr>"
  have "pool_step ?p0 ?p1"
    by (rule submit_test) (simp_all add: new_ThreadPool_def)
  moreover have "pool_step ?p1 ?p2"
    using submit_push [of ?p1 5] by (simp add: new_ThreadPool_def submit_task_def)
  moreover have "pool_step ?p2 ?p3"
    using test [of 0 ?p2] by (simp add: worker_test_def new_ThreadPool_def set_worker_def)
  moreover have "pool_step ?p3 ?p4"
    using run [of 0 ?p3 5] by (simp add: new_ThreadPool_def set_worker_def worker_run_def)
  moreover have "pool_step ?p4 ?p5"
    using stop_store [of ?p4] by (simp add: new_ThreadPool_def stop_flag_def)
  moreover have "pool_step ?p5 drained_pool"
    using test [of 0 ?p5] by (simp add: worker_test_def new_ThreadPool_def set_worker_def drained_pool_def)
  ultimately show ?thesis
    by (meson pool_next pool_start)
qed

lemma pool_exactly_once_witness: "submitted drained_pool = taken drained_pool @ tasks drained_pool"
  using pool_exactly_once [OF drained_pool_reachable] by blast

lemma pool_stop_drains_witness: "mset (executed drained_pool) = mset (submitted drained_pool)"
  by (rule pool_stop_drains [OF drained_pool_reachable]) (simp_all add: drained_pool_def)

end
