(* ===== verification/Tocin_LLVM.thy ===== *)
theory Tocin_LLVM
  imports Tocin_Ast Tocin_Errors
begin

text \<open>
  What \<open>src/codegen/ir_generator.cpp\<close> asks of LLVM. LLVM itself is not part of the sources: a call of
  the builder is recorded as an instruction of the block at the insertion point, and nothing
  is said about it but the type of its result; the builder's folding of constants is left out. The two verifiers are functions of the state.
  Calls that look up the module through the insertion point crash without one.
\<close>

section \<open>Types and values\<close>

datatype (plugins only: code size) ltype =
    Void_Ty | Int_Ty nat | Float_Ty | Double_Ty | Ptr_Ty | Struct_Ty string "ltype list"

text \<open>A floating-point constant is given by the text that \<open>std::stod\<close> reads. \<open>Reg\<close> is the result of
  the instruction with that number, \<open>Call_Reg\<close> that of a call.\<close>

datatype (plugins only: code size) lval =
    Const_Int nat int
  | Const_FP ltype string
  | Null_Ptr
  | Undef ltype
  | Global_String string
  | Global_Var string
  | Func_Val nat
  | Arg nat nat ltype
  | Size_Of ltype
  | Reg nat ltype
  | Call_Reg nat ltype

primrec val_type :: "lval \<Rightarrow> ltype" where
  "val_type (Const_Int w i) = Int_Ty w"
| "val_type (Const_FP ty x) = ty"
| "val_type Null_Ptr = Ptr_Ty"
| "val_type (Undef ty) = ty"
| "val_type (Global_String x) = Ptr_Ty"
| "val_type (Global_Var x) = Ptr_Ty"
| "val_type (Func_Val f) = Ptr_Ty"
| "val_type (Arg f i ty) = ty"
| "val_type (Size_Of ty) = Int_Ty 64"
| "val_type (Reg n ty) = ty"
| "val_type (Call_Reg n ty) = ty"

definition is_int :: "ltype \<Rightarrow> bool" where
  "is_int ty = (case ty of Int_Ty w \<Rightarrow> True | _ \<Rightarrow> False)"

definition is_fp :: "ltype \<Rightarrow> bool" where
  "is_fp ty \<longleftrightarrow> ty = Float_Ty \<or> ty = Double_Ty"

section \<open>Instructions\<close>

datatype (plugins only: code size) arith =
    Add | Sub | Mul | SDiv | SRem | And_Op | Or_Op | Xor_Op | Shl | AShr
  | FAdd | FSub | FMul | FDiv

datatype (plugins only: code size) unary_arith = Neg | FNeg | Not_Op

datatype (plugins only: code size) comparison_pred =
    ICmpEQ | ICmpNE | ICmpSLT | ICmpSLE | ICmpSGT | ICmpSGE
  | FCmpOEQ | FCmpONE | FCmpOLT | FCmpOLE | FCmpOGT | FCmpOGE

datatype (plugins only: code size) conversion =
    Int_Cast | FP_Cast | Bit_Cast | SExt | Trunc | FP_Trunc | FP_Ext | SI_To_FP | FP_To_SI
  | Ptr_To_Int | Int_To_Ptr

datatype (plugins only: code size) instr =
    Alloca ltype string
  | Load ltype lval
  | Store lval lval
  | Binary arith lval lval
  | Unary unary_arith lval
  | Compare comparison_pred lval lval
  | Convert conversion lval ltype
  | GEP ltype lval "lval list"
  | Struct_GEP ltype lval nat
  | Call_Instr lval "lval list"
  | Br nat
  | Cond_Br lval nat nat
  | Switch lval "nat list"
  | Ret_Instr lval
  | Ret_Void

primrec terminator :: "instr \<Rightarrow> bool" where
  "terminator (Alloca ty n) = False"
| "terminator (Load ty p) = False"
| "terminator (Store v p) = False"
| "terminator (Binary b x y) = False"
| "terminator (Unary u x) = False"
| "terminator (Compare p x y) = False"
| "terminator (Convert c x ty) = False"
| "terminator (GEP ty p ixs) = False"
| "terminator (Struct_GEP ty p i) = False"
| "terminator (Call_Instr f as) = False"
| "terminator (Br b) = True"
| "terminator (Cond_Br c x y) = True"
| "terminator (Switch v bs) = True"
| "terminator (Ret_Instr v) = True"
| "terminator Ret_Void = True"

type_synonym instrs = "(nat \<times> instr) list"

section \<open>State\<close>

record lfunction =
  fn_name :: string
  fn_return :: ltype
  fn_params :: "ltype list"
  fn_blocks :: "nat list"

text \<open>The module under construction, the builder and the members of \<open>IRGenerator\<close>. A symbol is the
  number of its \<open>alloca\<close> with the allocated type; the table may hold a null pointer. \<open>module_globals\<close> are
  the variables of the module with external linkage, which \<open>getGlobalVariable\<close> finds: string literals
  are private to the module.\<close>

type_synonym alloca = "nat \<times> ltype"

record gen =
  module_globals :: "string list"
  fun_table :: "lfunction list"
  block_code :: "nat \<Rightarrow> instrs"
  block_owner :: "nat \<Rightarrow> nat option"
  next_block :: nat
  next_reg :: nat
  insert_block :: "nat option"
  lastValue :: "lval option"
  currentFunction :: "nat option"
  namedValues :: "string \<Rightarrow> alloca option option"
  scopes :: "(string \<Rightarrow> alloca option) list"
  stdLibFunctions :: "string \<Rightarrow> nat option"
  gen_handler :: ErrorHandler
  currentModuleName :: string
  lambdaCounter :: nat
  nextId :: nat
  stod_accepts :: "string \<Rightarrow> bool"
  verify_function :: "lfunction list \<Rightarrow> (nat \<Rightarrow> instrs) \<Rightarrow> nat \<Rightarrow> string option"
  verify_module :: "lfunction list \<Rightarrow> (nat \<Rightarrow> instrs) \<Rightarrow> string option"

text \<open>How a visit ends: normally, with a C++ exception, or with undefined behaviour (a null pointer is
  dereferenced, or LLVM is called outside its contract).\<close>

datatype 'a emitted = Done 'a | Throws string | Crash

definition and_then :: "'a emitted \<Rightarrow> ('a \<Rightarrow> 'b emitted) \<Rightarrow> 'b emitted" where
  "and_then r k = (case r of Done s \<Rightarrow> k s | Throws x \<Rightarrow> Throws x | Crash \<Rightarrow> Crash)"

lemma and_then_simps [simp]:
  "and_then (Done s) k = k s" "and_then (Throws x) k = Throws x" "and_then Crash k = Crash"
  by (simp_all add: and_then_def)

lemma and_then_Done: "and_then r k = Done t \<longleftrightarrow> (\<exists>s. r = Done s \<and> k s = Done t)"
  by (cases r) simp_all

section \<open>Builder calls\<close>

definition set_last :: "lval option \<Rightarrow> gen \<Rightarrow> gen" where
  "set_last v s = s\<lparr>lastValue := v\<rparr>"

definition report :: "ErrorCode \<Rightarrow> string \<Rightarrow> gen \<Rightarrow> gen" where
  "report ec msg s = s\<lparr>gen_handler := record_error ec msg [] 0 0 ERROR_SEVERITY (gen_handler s)\<rparr>"

definition report_at :: "ErrorCode \<Rightarrow> string \<Rightarrow> token \<Rightarrow> gen \<Rightarrow> gen" where
  "report_at ec msg t s =
     s\<lparr>gen_handler := record_error ec msg (tfilename t) (line t) (column t) ERROR_SEVERITY (gen_handler s)\<rparr>"

text \<open>A new instruction goes to the end of the block at the insertion point, if there is one.\<close>

definition add_instr :: "instr \<Rightarrow> gen \<Rightarrow> gen" where
  "add_instr i s =
     (case insert_block s of
        None \<Rightarrow> s\<lparr>next_reg := next_reg s + 1\<rparr>
      | Some b \<Rightarrow> s\<lparr>block_code := (block_code s)(b := block_code s b @ [(next_reg s, i)]),
                    next_reg := next_reg s + 1\<rparr>)"

definition build :: "instr \<Rightarrow> ltype \<Rightarrow> (lval \<Rightarrow> gen \<Rightarrow> gen emitted) \<Rightarrow> gen \<Rightarrow> gen emitted" where
  "build i ty k s = k (Reg (next_reg s) ty) (add_instr i s)"

definition build_call :: "nat \<Rightarrow> lval list \<Rightarrow> (lval \<Rightarrow> gen \<Rightarrow> gen emitted) \<Rightarrow> gen \<Rightarrow> gen emitted" where
  "build_call f args k s =
     k (Call_Reg (next_reg s) (fn_return (fun_table s ! f))) (add_instr (Call_Instr (Func_Val f) args) s)"

definition at_block :: "(gen \<Rightarrow> gen emitted) \<Rightarrow> gen \<Rightarrow> gen emitted" where
  "at_block k s = (if insert_block s = None then Crash else k s)"

definition build_alloca :: "ltype \<Rightarrow> string \<Rightarrow> (alloca \<Rightarrow> gen \<Rightarrow> gen emitted) \<Rightarrow> gen \<Rightarrow> gen emitted" where
  "build_alloca ty n k = at_block (\<lambda>s. k (next_reg s, ty) (add_instr (Alloca ty n) s))"

definition build_load :: "ltype \<Rightarrow> lval \<Rightarrow> (lval \<Rightarrow> gen \<Rightarrow> gen emitted) \<Rightarrow> gen \<Rightarrow> gen emitted" where
  "build_load ty p k = at_block (build (Load ty p) ty k)"

definition build_store :: "lval \<Rightarrow> lval \<Rightarrow> (gen \<Rightarrow> gen emitted) \<Rightarrow> gen \<Rightarrow> gen emitted" where
  "build_store v p k = at_block (\<lambda>s. k (add_instr (Store v p) s))"

definition build_string :: "string \<Rightarrow> (lval \<Rightarrow> gen \<Rightarrow> gen emitted) \<Rightarrow> gen \<Rightarrow> gen emitted" where
  "build_string x k = at_block (k (Global_String x))"

text \<open>A cast to the type of the value is the value itself.\<close>

definition build_cast :: "conversion \<Rightarrow> lval \<Rightarrow> ltype \<Rightarrow> (lval \<Rightarrow> gen \<Rightarrow> gen emitted) \<Rightarrow> gen \<Rightarrow> gen emitted" where
  "build_cast c v ty k = (if val_type v = ty then k v else build (Convert c v ty) ty k)"

definition alloca_ptr :: "alloca \<Rightarrow> lval" where
  "alloca_ptr a = Reg (fst a) Ptr_Ty"

text \<open>\<open>ConstantInt::get(ty, n)\<close>, which is only defined on integer types.\<close>

definition const_int :: "ltype \<Rightarrow> int \<Rightarrow> (lval \<Rightarrow> gen \<Rightarrow> gen emitted) \<Rightarrow> gen \<Rightarrow> gen emitted" where
  "const_int ty n k s = (case ty of Int_Ty w \<Rightarrow> k (Const_Int w n) s | _ \<Rightarrow> Crash)"

abbreviation i64 :: ltype where "i64 \<equiv> Int_Ty 64"
abbreviation i32 :: ltype where "i32 \<equiv> Int_Ty 32"
abbreviation i1 :: ltype where "i1 \<equiv> Int_Ty 1"

section \<open>Blocks and functions\<close>

text \<open>\<open>BasicBlock::Create\<close> without and with a function, and \<open>insertInto\<close>.\<close>

definition new_block :: "(nat \<Rightarrow> gen \<Rightarrow> gen emitted) \<Rightarrow> gen \<Rightarrow> gen emitted" where
  "new_block k s = k (next_block s) (s\<lparr>next_block := next_block s + 1\<rparr>)"

definition insert_into :: "nat \<Rightarrow> nat \<Rightarrow> gen \<Rightarrow> gen" where
  "insert_into b f s =
     s\<lparr>block_owner := (block_owner s)(b := Some f),
       fun_table := (fun_table s)[f := (fun_table s ! f)\<lparr>fn_blocks := fn_blocks (fun_table s ! f) @ [b]\<rparr>]\<rparr>"

definition block_in :: "nat \<Rightarrow> (nat \<Rightarrow> gen \<Rightarrow> gen emitted) \<Rightarrow> gen \<Rightarrow> gen emitted" where
  "block_in f k = new_block (\<lambda>b s. k b (insert_into b f s))"

definition set_insert_point :: "nat \<Rightarrow> gen \<Rightarrow> gen" where
  "set_insert_point b s = s\<lparr>insert_block := Some b\<rparr>"

text \<open>\<open>builder.GetInsertBlock()->getParent()\<close>\<close>

definition parent_function :: "(nat \<Rightarrow> gen \<Rightarrow> gen emitted) \<Rightarrow> gen \<Rightarrow> gen emitted" where
  "parent_function k s =
     (case insert_block s of
        None \<Rightarrow> Crash
      | Some b \<Rightarrow> (case block_owner s b of None \<Rightarrow> Crash | Some f \<Rightarrow> k f s))"

text \<open>\<open>builder.GetInsertBlock()->getTerminator()\<close>: whether the last instruction is one.\<close>

definition has_terminator :: "instrs \<Rightarrow> bool" where
  "has_terminator xs \<longleftrightarrow> xs \<noteq> [] \<and> terminator (snd (last xs))"

definition unless_terminated :: "(gen \<Rightarrow> gen emitted) \<Rightarrow> gen \<Rightarrow> gen emitted" where
  "unless_terminated k s =
     (case insert_block s of
        None \<Rightarrow> Crash
      | Some b \<Rightarrow> if has_terminator (block_code s b) then Done s else k s)"

definition new_function ::
  "string \<Rightarrow> ltype \<Rightarrow> ltype list \<Rightarrow> (nat \<Rightarrow> gen \<Rightarrow> gen emitted) \<Rightarrow> gen \<Rightarrow> gen emitted" where
  "new_function n r ps k s =
     k (length (fun_table s))
       (s\<lparr>fun_table := fun_table s @ [\<lparr>fn_name = n, fn_return = r, fn_params = ps, fn_blocks = []\<rparr>]\<rparr>)"

text \<open>\<open>module->getFunction(name)\<close>: LLVM renames a second function of a name, so the first has it.\<close>

fun find_function :: "string \<Rightarrow> lfunction list \<Rightarrow> nat option" where
  "find_function n [] = None"
| "find_function n (f # fs) =
     (if fn_name f = n then Some 0 else map_option Suc (find_function n fs))"

definition getFunction :: "string \<Rightarrow> gen \<Rightarrow> nat option" where
  "getFunction n s = find_function n (fun_table s)"

definition function_args :: "nat \<Rightarrow> gen \<Rightarrow> lval list" where
  "function_args f s = map (\<lambda>(i, ty). Arg f i ty) (enumerate 0 (fn_params (fun_table s ! f)))"

end
