(* ===== verification/Tocin_Scopes.thy ===== *)
theory Tocin_Scopes
  imports Tocin_Prelude
begin

text \<open>
  What a table of nested scopes promises, for every class that keeps one: it behaves like a stack
  of maps from names, the innermost first, and what a block declares is gone after the block. The
  code generator and the compilation context interpret the locale.
\<close>

section \<open>A stack of maps\<close>

fun stack_lookup :: "(string \<Rightarrow> 'v option) list \<Rightarrow> string \<Rightarrow> 'v option" where
  "stack_lookup [] n = None"
| "stack_lookup (f # fs) n = (case f n of Some v \<Rightarrow> Some v | None \<Rightarrow> stack_lookup fs n)"

datatype 'v scope_op = Open_Scope | Close_Scope | Declare string 'v

text \<open>Sequences that close every scope they open and no other; \<open>d\<close> counts the open ones.\<close>

fun balanced :: "nat \<Rightarrow> 'v scope_op list \<Rightarrow> bool" where
  "balanced d [] = (d = 0)"
| "balanced d (Open_Scope # ops) = balanced (Suc d) ops"
| "balanced d (Close_Scope # ops) = (0 < d \<and> balanced (d - 1) ops)"
| "balanced d (Declare n v # ops) = balanced d ops"

fun run_scope_ops :: "('s \<Rightarrow> 's) \<Rightarrow> ('s \<Rightarrow> 's) \<Rightarrow> (string \<Rightarrow> 'v \<Rightarrow> 's \<Rightarrow> 's)
    \<Rightarrow> 'v scope_op list \<Rightarrow> 's \<Rightarrow> 's" where
  "run_scope_ops ent lv decl [] s = s"
| "run_scope_ops ent lv decl (Open_Scope # ops) s = run_scope_ops ent lv decl ops (ent s)"
| "run_scope_ops ent lv decl (Close_Scope # ops) s = run_scope_ops ent lv decl ops (lv s)"
| "run_scope_ops ent lv decl (Declare n v # ops) s = run_scope_ops ent lv decl ops (decl n v s)"

section \<open>The interface\<close>

locale scope_table =
  fixes stack :: "'s \<Rightarrow> (string \<Rightarrow> 'v option) list"
    and inv :: "'s \<Rightarrow> bool"
    and open_scope close_scope :: "'s \<Rightarrow> 's"
    and declare_name :: "string \<Rightarrow> 'v \<Rightarrow> 's \<Rightarrow> 's"
    and lookup_name :: "string \<Rightarrow> 's \<Rightarrow> 'v option"
    and bind_frame :: "string \<Rightarrow> 'v \<Rightarrow> (string \<Rightarrow> 'v option) \<Rightarrow> string \<Rightarrow> 'v option"
  assumes open_stack: "inv s \<Longrightarrow> stack (open_scope s) = Map.empty # stack s"
    and close_stack: "inv s \<Longrightarrow> 1 < length (stack s) \<Longrightarrow> stack (close_scope s) = tl (stack s)"
    and declare_stack: "inv s \<Longrightarrow> stack s = f # fs \<Longrightarrow> stack (declare_name n v s) = bind_frame n v f # fs"
    and lookup_stack: "inv s \<Longrightarrow> lookup_name n s = stack_lookup (stack s) n"
    and open_inv: "inv s \<Longrightarrow> inv (open_scope s)"
    and close_inv: "inv s \<Longrightarrow> 1 < length (stack s) \<Longrightarrow> inv (close_scope s)"
    and declare_inv: "inv s \<Longrightarrow> inv (declare_name n v s)"
begin

abbreviation run where
  "run \<equiv> run_scope_ops open_scope close_scope declare_name"

text \<open>Whatever a block does happens above the frames it started with.\<close>

lemma run_balanced:
  "\<lbrakk>inv s; stack s = fs @ base; length fs = Suc d; base \<noteq> []; balanced d ops\<rbrakk>
   \<Longrightarrow> inv (run ops s) \<and> (\<exists>f. stack (run ops s) = f # base)"
proof (induction d ops arbitrary: s fs rule: balanced.induct)
  case (1 d)
  then show ?case by (cases fs) auto
next
  case (2 d ops)
  then show ?case
    using "2.IH" [of "open_scope s" "Map.empty # fs"] by (simp add: open_stack open_inv)
next
  case (3 d ops)
  then obtain f fs' where fs: "fs = f # fs'" "length fs' = Suc (d - 1)" by (cases fs) auto
  moreover have "1 < length (stack s)" using 3 by (cases base) auto
  ultimately show ?case
    using "3.prems" "3.IH" [of "close_scope s" fs'] by (simp add: close_stack close_inv)
next
  case (4 d n v ops)
  then obtain f fs' where fs: "fs = f # fs'" "length fs' = d" by (cases fs) auto
  show ?case
    using "4.prems" "4.IH" [of "declare_name n v s" "bind_frame n v f # fs'"] fs
    by (simp add: declare_inv declare_stack [of s f "fs' @ base" n v])
qed

theorem block_restores_stack:
  assumes "inv s" "stack s \<noteq> []" "balanced 0 ops"
  shows "stack (close_scope (run ops (open_scope s))) = stack s"
    and "inv (close_scope (run ops (open_scope s)))"
proof -
  have "inv (run ops (open_scope s)) \<and> (\<exists>f. stack (run ops (open_scope s)) = f # stack s)"
    using assms run_balanced [of "open_scope s" "[Map.empty]" "stack s" 0 ops]
    by (simp add: open_stack open_inv)
  then show "stack (close_scope (run ops (open_scope s))) = stack s"
    and "inv (close_scope (run ops (open_scope s)))"
    using assms(2) by (auto simp: close_stack close_inv)
qed

lemma block_restores_lookup:
  "\<lbrakk>inv s; stack s \<noteq> []; balanced 0 ops\<rbrakk>
   \<Longrightarrow> lookup_name n (close_scope (run ops (open_scope s))) = lookup_name n s"
  by (simp add: lookup_stack block_restores_stack)

end

end
