(* ===== verification/Tocin_Codegen.thy ===== *)
theory Tocin_Codegen
  imports Tocin_LLVM Tocin_Scopes
begin

text \<open>
  The visitors of \<open>src/codegen/ir_generator.cpp\<close>. A visit takes the state to what \<open>emitted\<close> says; its
  result is the member \<open>lastValue\<close>, null when it failed. The class table is never filled by the
  code, so a look-up in it fails.
\<close>

section \<open>Standard library, types and variables\<close>

definition declare_lib :: "string list \<Rightarrow> string \<Rightarrow> ltype \<Rightarrow> ltype list \<Rightarrow> gen \<Rightarrow> gen" where
  "declare_lib keys n r ps s =
     s\<lparr>fun_table := fun_table s @ [\<lparr>fn_name = n, fn_return = r, fn_params = ps, fn_blocks = []\<rparr>],
       stdLibFunctions := (\<lambda>x. if x \<in> set keys then Some (length (fun_table s)) else stdLibFunctions s x)\<rparr>"

definition declareStdLibFunctions :: "gen \<Rightarrow> gen" where
  "declareStdLibFunctions s =
     declare_lib [''Future_get''] ''Future_get'' (Int_Ty 8) [Ptr_Ty]
    (declare_lib [''Promise_getFuture''] ''Promise_getFuture'' Ptr_Ty [Ptr_Ty]
    (declare_lib [''Promise_create''] ''Promise_create'' Ptr_Ty []
    (declare_lib [''free''] ''free'' Void_Ty [Ptr_Ty]
    (declare_lib [''malloc''] ''malloc'' Ptr_Ty [i64]
    (declare_lib [''printf'', ''print'', ''println''] ''printf'' i32 [Ptr_Ty] s)))))"

definition getStdLibFunction :: "string \<Rightarrow> gen \<Rightarrow> nat option" where
  "getStdLibFunction n s = stdLibFunctions s n"

definition new_IRGenerator :: "ErrorHandler \<Rightarrow> (string \<Rightarrow> bool)
    \<Rightarrow> (lfunction list \<Rightarrow> (nat \<Rightarrow> instrs) \<Rightarrow> nat \<Rightarrow> string option)
    \<Rightarrow> (lfunction list \<Rightarrow> (nat \<Rightarrow> instrs) \<Rightarrow> string option) \<Rightarrow> gen" where
  "new_IRGenerator h stod vf vm = declareStdLibFunctions
     \<lparr>module_globals = [], fun_table = [], block_code = (\<lambda>_. []), block_owner = (\<lambda>_. None), next_block = 0, next_reg = 0,
      insert_block = None, lastValue = None, currentFunction = None, namedValues = (\<lambda>_. None),
      scopes = [\<lambda>_. None], stdLibFunctions = (\<lambda>_. None), gen_handler = h,
      currentModuleName = ''default'', lambdaCounter = 0, nextId = 0, stod_accepts = stod,
      verify_function = vf, verify_module = vm\<rparr>"

definition mangleGenericName :: "string \<Rightarrow> type list \<Rightarrow> string" where
  "mangleGenericName b ts = b @ ''_'' @ concat (map (\<lambda>t. type_toString t @ ''_'') ts)"

definition basic_llvm :: "TypeKind \<Rightarrow> ltype" where
  "basic_llvm k =
     (if k = INT_KIND then i64 else if k = FLOAT_KIND then Double_Ty else if k = BOOL_KIND then i1
      else if k = STRING_KIND then Ptr_Ty else if k = VOID_KIND then Void_Ty else Ptr_Ty)"

definition simple_llvm :: "string \<Rightarrow> ltype" where
  "simple_llvm n =
     (if n = ''int'' \<or> n = ''i64'' then i64
      else if n = ''i32'' then i32
      else if n = ''i16'' then Int_Ty 16
      else if n = ''i8'' then Int_Ty 8
      else if n = ''float'' \<or> n = ''f64'' then Double_Ty
      else if n = ''f32'' \<or> n = ''float32'' then Float_Ty
      else if n = ''bool'' then i1
      else if n = ''string'' \<or> n = ''str'' then Ptr_Ty
      else if n = ''void'' \<or> n = ''None'' then Void_Ty
      else Ptr_Ty)"

definition getLLVMType :: "type option \<Rightarrow> ltype" where
  "getLLVMType p =
     (case p of
        None \<Rightarrow> Void_Ty
      | Some (BasicType t k) \<Rightarrow> basic_llvm k
      | Some (SimpleType t) \<Rightarrow> simple_llvm (type_toString (SimpleType t))
      | Some (GenericType t n as) \<Rightarrow>
          (if n = ''list'' then
             (if as \<noteq> [] then Struct_Ty (mangleGenericName ''list'' as) [i64, Ptr_Ty] else Void_Ty)
           else if n = ''dict'' then
             (if length as \<ge> 2 then Struct_Ty (mangleGenericName ''dict'' as) [i64, Ptr_Ty, Ptr_Ty] else Void_Ty)
           else Void_Ty)
      | Some _ \<Rightarrow> Void_Ty)"

definition gen_enterScope :: "gen \<Rightarrow> gen" where
  "gen_enterScope s = s\<lparr>scopes := (\<lambda>_. None) # scopes s\<rparr>"

definition gen_exitScope :: "gen \<Rightarrow> gen" where
  "gen_exitScope s = (if scopes s \<noteq> [] then s\<lparr>scopes := tl (scopes s)\<rparr> else s)"

fun scope_lookup :: "(string \<Rightarrow> alloca option) list \<Rightarrow> string \<Rightarrow> alloca option" where
  "scope_lookup [] n = None"
| "scope_lookup (sc # scs) n = (case sc n of Some a \<Rightarrow> Some a | None \<Rightarrow> scope_lookup scs n)"

definition scope_define :: "string \<Rightarrow> alloca \<Rightarrow> (string \<Rightarrow> alloca option) \<Rightarrow> string \<Rightarrow> alloca option" where
  "scope_define n a sc = sc(n \<mapsto> a)"

text \<open>\<open>currentScope->define(n, a)\<close>\<close>

definition gen_define :: "string \<Rightarrow> alloca \<Rightarrow> gen \<Rightarrow> gen" where
  "gen_define n a s =
     (case scopes s of [] \<Rightarrow> s | sc # scs \<Rightarrow> s\<lparr>scopes := scope_define n a sc # scs\<rparr>)"

lemma scope_lookup_stack: "scope_lookup scs n = stack_lookup scs n"
  by (induction scs n rule: scope_lookup.induct) (simp_all split: option.split)

lemma tl_not_empty: "1 < length xs \<Longrightarrow> tl xs \<noteq> []"
  by (cases xs) auto

interpretation gen_scopes: scope_table scopes "\<lambda>s. scopes s \<noteq> []" gen_enterScope gen_exitScope gen_define
  "\<lambda>n s. scope_lookup (scopes s) n" scope_define
  by unfold_locales (auto simp: gen_enterScope_def gen_exitScope_def gen_define_def scope_lookup_stack tl_not_empty [simplified] split: list.split)

text \<open>After a block the generator finds every variable where it found it before.\<close>

lemma gen_block_restores:
  "scopes s \<noteq> [] \<Longrightarrow> balanced 0 ops
   \<Longrightarrow> scopes (gen_exitScope (run_scope_ops gen_enterScope gen_exitScope gen_define ops (gen_enterScope s))) = scopes s"
  by (rule gen_scopes.block_restores_stack) auto

definition lookupVariable :: "string \<Rightarrow> gen \<Rightarrow> alloca option" where
  "lookupVariable n s =
     (case namedValues s n of Some a \<Rightarrow> a | None \<Rightarrow> scope_lookup (scopes s) n)"

text \<open>The place of a variable: its \<open>alloca\<close>, or a global variable of the module.\<close>

definition gen_getVariable :: "string \<Rightarrow> gen \<Rightarrow> lval option" where
  "gen_getVariable n s =
     (case lookupVariable n s of
        Some a \<Rightarrow> Some (alloca_ptr a)
      | None \<Rightarrow> if n \<in> set (module_globals s) then Some (Global_Var n) else None)"

text \<open>The instruction is put in front of the entry block of the function.\<close>

definition createEntryBlockAlloca ::
  "nat option \<Rightarrow> string \<Rightarrow> ltype \<Rightarrow> (alloca option \<Rightarrow> gen \<Rightarrow> gen emitted) \<Rightarrow> gen \<Rightarrow> gen emitted" where
  "createEntryBlockAlloca f n ty k s =
     (case f of
        None \<Rightarrow> k None (report (Compiler C002_CODEGEN_ERROR) ''Cannot create allocation outside of function'' s)
      | Some g \<Rightarrow>
          (let b = hd (fn_blocks (fun_table s ! g)) in
           k (Some (next_reg s, ty))
             (s\<lparr>block_code := (block_code s)(b := (next_reg s, Alloca ty n) # block_code s b),
                next_reg := next_reg s + 1\<rparr>)))"

definition bind_name :: "string \<Rightarrow> alloca option \<Rightarrow> gen \<Rightarrow> gen" where
  "bind_name n a s = s\<lparr>namedValues := (namedValues s)(n := Some a)\<rparr>"

section \<open>Literals\<close>

text \<open>\<open>std::stoll\<close>: blanks, a sign, and the digits up to the first other character.\<close>

definition stoll :: "string \<Rightarrow> int emitted" where
  "stoll x =
     (let y = dropWhile isspace x;
          negative = (y \<noteq> [] \<and> hd y = CHR ''-'');
          ds = takeWhile isdigit (if y \<noteq> [] \<and> (hd y = CHR ''-'' \<or> hd y = CHR ''+'') then tl y else y);
          n = int (digits_value ds); i = (if negative then - n else n)
      in if ds = [] then Throws ''std::invalid_argument''
         else if i < - (2 ^ 63) \<or> i \<ge> 2 ^ 63 then Throws ''std::out_of_range''
         else Done i)"

definition strip_quotes :: "string \<Rightarrow> string" where
  "strip_quotes x =
     (if length x \<ge> 2 \<and> (hd x = DQUOTE \<or> hd x = SQUOTE) \<and> (last x = DQUOTE \<or> last x = SQUOTE)
      then butlast (tl x) else x)"

fun process_escapes :: "string \<Rightarrow> string" where
  "process_escapes (c # d # cs) =
     (if c = BACKSLASH then
        (if d = CHR ''n'' then [NL] else if d = CHR ''t'' then [TAB] else if d = CHR ''r'' then [CR]
         else if d = BACKSLASH then [BACKSLASH] else if d = DQUOTE then [DQUOTE]
         else if d = SQUOTE then [SQUOTE] else [c, d]) @ process_escapes cs
      else c # process_escapes (d # cs))"
| "process_escapes cs = cs"

definition visitLiteralExpr :: "string \<Rightarrow> LiteralType \<Rightarrow> gen \<Rightarrow> gen emitted" where
  "visitLiteralExpr v k s =
     (case k of
        INTEGER \<Rightarrow> and_then (stoll v) (\<lambda>i. Done (set_last (Some (Const_Int 64 i)) s))
      | FLOAT \<Rightarrow>
          (if stod_accepts s v then Done (set_last (Some (Const_FP Double_Ty v)) s)
           else Throws ''std::out_of_range'')
      | STRING_LITERAL \<Rightarrow> build_string (process_escapes (strip_quotes v)) (\<lambda>x s. Done (set_last (Some x) s)) s
      | BOOLEAN \<Rightarrow> Done (set_last (Some (Const_Int 1 (if v = ''true'' then 1 else 0))) s)
      | NIL_LITERAL \<Rightarrow> Done (set_last (Some Null_Ptr) s))"

section \<open>Operators\<close>

definition finish :: "lval \<Rightarrow> gen \<Rightarrow> gen emitted" where
  "finish v s = Done (set_last (Some v) s)"

definition failed :: "ErrorCode \<Rightarrow> string \<Rightarrow> gen \<Rightarrow> gen emitted" where
  "failed ec msg s = Done (set_last None (report ec msg s))"

abbreviation both_int :: "lval \<Rightarrow> lval \<Rightarrow> bool" where
  "both_int l r \<equiv> is_int (val_type l) \<and> is_int (val_type r)"

abbreviation both_fp :: "lval \<Rightarrow> lval \<Rightarrow> bool" where
  "both_fp l r \<equiv> is_fp (val_type l) \<and> is_fp (val_type r)"

definition arith_op :: "arith \<Rightarrow> arith \<Rightarrow> string \<Rightarrow> lval \<Rightarrow> lval \<Rightarrow> gen \<Rightarrow> gen emitted" where
  "arith_op iop fop msg l r =
     (if both_int l r then build (Binary iop l r) (val_type l) finish
      else if both_fp l r then build (Binary fop l r) (val_type l) finish
      else failed (Type T001_TYPE_MISMATCH) msg)"

definition int_op :: "arith \<Rightarrow> string \<Rightarrow> lval \<Rightarrow> lval \<Rightarrow> gen \<Rightarrow> gen emitted" where
  "int_op iop msg l r =
     (if both_int l r then build (Binary iop l r) (val_type l) finish
      else failed (Type T001_TYPE_MISMATCH) msg)"

text \<open>On a pointer and an integer the code asks a pointer type for its array element type.\<close>

definition plus_op :: "lval \<Rightarrow> lval \<Rightarrow> gen \<Rightarrow> gen emitted" where
  "plus_op l r =
     (if both_int l r then build (Binary Add l r) (val_type l) finish
      else if both_fp l r then build (Binary FAdd l r) (val_type l) finish
      else if val_type l = Ptr_Ty \<and> is_int (val_type r) then (\<lambda>s. Crash)
      else failed (Type T001_TYPE_MISMATCH) ''Cannot add incompatible types'')"

definition equality_op :: "comparison_pred \<Rightarrow> comparison_pred \<Rightarrow> lval \<Rightarrow> lval \<Rightarrow> gen \<Rightarrow> gen emitted" where
  "equality_op ip fp l r =
     (if both_int l r then build (Compare ip l r) i1 finish
      else if both_fp l r then build (Compare fp l r) i1 finish
      else if val_type l = Ptr_Ty \<and> val_type r = Ptr_Ty then build (Compare ip l r) i1 finish
      else failed (Type T001_TYPE_MISMATCH) ''Cannot compare incompatible types'')"

definition order_op :: "comparison_pred \<Rightarrow> comparison_pred \<Rightarrow> lval \<Rightarrow> lval \<Rightarrow> gen \<Rightarrow> gen emitted" where
  "order_op ip fp l r =
     (if both_int l r then build (Compare ip l r) i1 finish
      else if both_fp l r then build (Compare fp l r) i1 finish
      else failed (Type T001_TYPE_MISMATCH) ''Cannot compare incompatible types'')"

text \<open>\<open>and\<close> and \<open>or\<close>: both operands have been evaluated when this is reached.\<close>

definition non_zero :: "lval \<Rightarrow> (lval \<Rightarrow> gen \<Rightarrow> gen emitted) \<Rightarrow> gen \<Rightarrow> gen emitted" where
  "non_zero v k = const_int (val_type v) 0 (\<lambda>z. build (Compare ICmpNE v z) i1 k)"

definition logic_op :: "arith \<Rightarrow> lval \<Rightarrow> lval \<Rightarrow> gen \<Rightarrow> gen emitted" where
  "logic_op iop l r =
     (if val_type l = i1 \<and> val_type r = i1 then build (Binary iop l r) i1 finish
      else non_zero l (\<lambda>lb. non_zero r (\<lambda>rb. build (Binary iop lb rb) i1 finish)))"

definition binary_op :: "TokenType \<Rightarrow> lval \<Rightarrow> lval \<Rightarrow> gen \<Rightarrow> gen emitted" where
  "binary_op ty l r =
     (if ty = Op PLUS then plus_op l r
      else if ty = Op MINUS then arith_op Sub FSub ''Cannot subtract incompatible types'' l r
      else if ty = Op STAR then arith_op Mul FMul ''Cannot multiply incompatible types'' l r
      else if ty = Op SLASH then arith_op SDiv FDiv ''Cannot divide incompatible types'' l r
      else if ty = Op PERCENT then int_op SRem ''Modulo only supported for integers'' l r
      else if ty = Op EQUAL_EQUAL then equality_op ICmpEQ FCmpOEQ l r
      else if ty = Op BANG_EQUAL then equality_op ICmpNE FCmpONE l r
      else if ty = Op LESS then order_op ICmpSLT FCmpOLT l r
      else if ty = Op LESS_EQUAL then order_op ICmpSLE FCmpOLE l r
      else if ty = Op GREATER then order_op ICmpSGT FCmpOGT l r
      else if ty = Op GREATER_EQUAL then order_op ICmpSGE FCmpOGE l r
      else if ty = Logic AND then logic_op And_Op l r
      else if ty = Logic OR then logic_op Or_Op l r
      else if ty = Op2 BITWISE_AND then int_op And_Op ''Bitwise AND only supported for integers'' l r
      else if ty = Op2 BITWISE_OR then int_op Or_Op ''Bitwise OR only supported for integers'' l r
      else if ty = Op2 BITWISE_XOR then int_op Xor_Op ''Bitwise XOR only supported for integers'' l r
      else if ty = Op2 LEFT_SHIFT then int_op Shl ''Left shift only supported for integers'' l r
      else if ty = Op2 RIGHT_SHIFT then int_op AShr ''Right shift only supported for integers'' l r
      else failed (Compiler C001_UNIMPLEMENTED_FEATURE) ''Unsupported binary operator'')"

definition step_variable :: "arith \<Rightarrow> arith \<Rightarrow> string \<Rightarrow> ltype \<Rightarrow> expr \<Rightarrow> gen \<Rightarrow> gen emitted" where
  "step_variable iop fop msg ty e =
     (case e of
        VariableExpr t n \<Rightarrow>
          (\<lambda>s. case gen_getVariable n s of
             None \<Rightarrow> failed (Type T002_UNDEFINED_VARIABLE) (''Variable '' @ [SQUOTE] @ n @ [SQUOTE] @ '' not found'') s
           | Some p \<Rightarrow>
               build_load ty p (\<lambda>cur.
                 if is_int ty then
                   const_int ty 1 (\<lambda>one. build (Binary iop cur one) ty (\<lambda>v. build_store v p (finish v)))
                 else if is_fp ty then
                   build (Binary fop cur (Const_FP ty ''1.0'')) ty (\<lambda>v. build_store v p (finish v))
                 else failed (Type T001_TYPE_MISMATCH) msg) s)
      | _ \<Rightarrow> failed (Compiler C001_UNIMPLEMENTED_FEATURE) ''Increment/decrement requires lvalue (variable)'')"

definition unary_op :: "TokenType \<Rightarrow> expr \<Rightarrow> lval \<Rightarrow> gen \<Rightarrow> gen emitted" where
  "unary_op ty e v =
     (if ty = Op MINUS then
        (if is_int (val_type v) then build (Unary Neg v) (val_type v) finish
         else if is_fp (val_type v) then build (Unary FNeg v) (val_type v) finish
         else failed (Type T001_TYPE_MISMATCH) ''Cannot apply unary minus to non-numeric type'')
      else if ty = Op BANG then
        (if val_type v = i1 then build (Unary Not_Op v) i1 finish
         else non_zero v (\<lambda>b. build (Unary Not_Op b) i1 finish))
      else if ty = Op2 BITWISE_NOT then
        (if is_int (val_type v) then build (Unary Not_Op v) (val_type v) finish
         else failed (Type T001_TYPE_MISMATCH) ''Cannot apply bitwise NOT to non-integer type'')
      else if ty = Op2 INCREMENT then step_variable Add FAdd ''Cannot increment non-numeric type'' (val_type v) e
      else if ty = Op2 DECREMENT then step_variable Sub FSub ''Cannot decrement non-numeric type'' (val_type v) e
      else failed (Compiler C001_UNIMPLEMENTED_FEATURE) ''Unhandled or unsupported unary operator'')"

section \<open>Variables and assignment\<close>

definition visitVariableExpr :: "string \<Rightarrow> gen \<Rightarrow> gen emitted" where
  "visitVariableExpr n s =
     (case lookupVariable n s of
        Some a \<Rightarrow> build_load (snd a) (alloca_ptr a) finish s
      | None \<Rightarrow> finish (Const_Int 32 0) s)"

text \<open>The casts before a store or a return: between integers, between floating-point types, or none.\<close>

definition numeric_cast ::
  "lval \<Rightarrow> ltype \<Rightarrow> (gen \<Rightarrow> gen emitted) \<Rightarrow> (lval \<Rightarrow> gen \<Rightarrow> gen emitted) \<Rightarrow> gen \<Rightarrow> gen emitted" where
  "numeric_cast v ty mismatch k =
     (if val_type v = ty then k v
      else if is_int (val_type v) \<and> is_int ty then build_cast Int_Cast v ty k
      else if is_fp (val_type v) \<and> is_fp ty then build_cast FP_Cast v ty k
      else mismatch)"

definition handleVariableAssignment :: "string \<Rightarrow> lval \<Rightarrow> gen \<Rightarrow> gen emitted" where
  "handleVariableAssignment n rhs s =
     (case (if scopes s \<noteq> [] then scope_lookup (scopes s) n else lookupVariable n s) of
        None \<Rightarrow> failed (Compiler C002_CODEGEN_ERROR) (''Undefined variable: '' @ n) s
      | Some a \<Rightarrow>
          numeric_cast rhs (snd a)
            (failed (Type T001_TYPE_MISMATCH) ''Initializer type does not match variable type'')
            (\<lambda>v. build_store v (alloca_ptr a) (finish rhs)) s)"

text \<open>With an empty class table a field is never found.\<close>

definition get_member :: "string \<Rightarrow> gen \<Rightarrow> gen emitted" where
  "get_member n s =
     (case lastValue s of
        None \<Rightarrow> Done s
      | Some v \<Rightarrow> failed (Type T002_UNDEFINED_VARIABLE) (''Undefined property or method: '' @ n) s)"

definition set_member :: "gen \<Rightarrow> gen emitted" where
  "set_member s =
     (case lastValue s of
        None \<Rightarrow> Done s
      | Some v \<Rightarrow>
          if val_type v = Ptr_Ty then
            failed (Compiler C002_CODEGEN_ERROR) ''Cannot determine pointed type for object'' s
          else failed (Compiler C002_CODEGEN_ERROR) ''Cannot access field of non-pointer type'' s)"

text \<open>\<open>visitAssignExpr\<close> after the value; the argument is the visit of the object of a field target.\<close>

definition assign_target :: "expr \<Rightarrow> (gen \<Rightarrow> gen emitted) \<Rightarrow> gen \<Rightarrow> gen emitted" where
  "assign_target tg object s =
     (case lastValue s of
        None \<Rightarrow> Done s
      | Some rhs \<Rightarrow>
          (case tg of
             VariableExpr t n \<Rightarrow> handleVariableAssignment n rhs s
           | GetExpr t ob n \<Rightarrow>
               and_then (object s) (\<lambda>s1.
                 if lastValue s1 = None then Done s1 else and_then (object s1) set_member)
           | BinaryExpr t l op r \<Rightarrow> failed (Type T001_TYPE_MISMATCH) ''Cannot assign to expression result'' s
           | _ \<Rightarrow> failed (Compiler C001_UNIMPLEMENTED_FEATURE) ''Unsupported assignment target type'' s))"

section \<open>Calls\<close>

text \<open>The visits of the arguments, each of which must leave a value.\<close>

fun visit_args :: "(gen \<Rightarrow> gen emitted) list \<Rightarrow> lval list \<Rightarrow> (lval list \<Rightarrow> gen \<Rightarrow> gen emitted) \<Rightarrow> gen \<Rightarrow> gen emitted" where
  "visit_args [] acc k s = k acc s"
| "visit_args (f # fs) acc k s =
     and_then (f s) (\<lambda>s1.
       case lastValue s1 of None \<Rightarrow> Done s1 | Some v \<Rightarrow> visit_args fs (acc @ [v]) k s1)"

text \<open>The function that a call by name means; a name of the REPL that is not defined gets an empty body.\<close>

definition direct_callee :: "string \<Rightarrow> lval \<Rightarrow> (lval \<Rightarrow> gen \<Rightarrow> gen emitted) \<Rightarrow> gen \<Rightarrow> gen emitted" where
  "direct_callee n callee k s =
     (case stdLibFunctions s n of
        Some f \<Rightarrow> k (Func_Val f) s
      | None \<Rightarrow>
          (case getFunction n s of
             Some f \<Rightarrow> k (Func_Val f) s
           | None \<Rightarrow>
               if starts_with ''repl_expr_'' n then
                 new_function n Void_Ty [] (\<lambda>f. block_in f (\<lambda>b s1.
                   k (Func_Val f) (add_instr Ret_Void (set_insert_point b s1)))) s
               else k callee s))"

definition call_value :: "(gen \<Rightarrow> gen emitted) list \<Rightarrow> lval \<Rightarrow> gen \<Rightarrow> gen emitted" where
  "call_value args callee =
     (case callee of
        Func_Val f \<Rightarrow> visit_args args [] (\<lambda>vs. build_call f vs finish)
      | _ \<Rightarrow> failed (Type T006_INVALID_OPERATOR_FOR_TYPE) ''Called value is not a function'')"

definition finish_call :: "expr \<Rightarrow> (gen \<Rightarrow> gen emitted) list \<Rightarrow> gen \<Rightarrow> gen emitted" where
  "finish_call c args s =
     (case lastValue s of
        None \<Rightarrow> Done s
      | Some callee \<Rightarrow>
          (case c of
             VariableExpr t n \<Rightarrow> direct_callee n callee (call_value args) s
           | _ \<Rightarrow> call_value args callee s))"

section \<open>Lists, dictionaries and strings\<close>

definition list_struct :: ltype where
  "list_struct = Struct_Ty [] [i64, Ptr_Ty]"

definition dict_struct :: ltype where
  "dict_struct = Struct_Ty [] [i64, Ptr_Ty, Ptr_Ty]"

definition with_malloc :: "(nat \<Rightarrow> gen \<Rightarrow> gen emitted) \<Rightarrow> gen \<Rightarrow> gen emitted" where
  "with_malloc k s =
     (case getStdLibFunction ''malloc'' s of
        Some f \<Rightarrow> k f s | None \<Rightarrow> new_function ''malloc'' Ptr_Ty [i64] k s)"

text \<open>\<open>*CreateGEP(ty, base, i) = v\<close>\<close>

definition store_at :: "ltype \<Rightarrow> lval \<Rightarrow> nat \<Rightarrow> lval \<Rightarrow> (gen \<Rightarrow> gen emitted) \<Rightarrow> gen \<Rightarrow> gen emitted" where
  "store_at ty base i v k = build (GEP ty base [Const_Int 64 (int i)]) Ptr_Ty (\<lambda>p. build_store v p k)"

text \<open>A field of the struct behind an \<open>alloca\<close> is set.\<close>

definition store_field :: "ltype \<Rightarrow> alloca \<Rightarrow> nat \<Rightarrow> lval \<Rightarrow> (gen \<Rightarrow> gen emitted) \<Rightarrow> gen \<Rightarrow> gen emitted" where
  "store_field ty a i v k = build (Struct_GEP ty (alloca_ptr a) i) Ptr_Ty (\<lambda>p. build_store v p k)"

definition createEmptyList :: "gen \<Rightarrow> gen emitted" where
  "createEmptyList =
     build_alloca list_struct ''empty_list'' (\<lambda>a.
     store_field list_struct a 0 (Const_Int 64 0) (
     store_field list_struct a 1 Null_Ptr (finish (alloca_ptr a))))"

fun list_rest :: "(gen \<Rightarrow> gen emitted) list \<Rightarrow> nat \<Rightarrow> ltype \<Rightarrow> lval \<Rightarrow> alloca \<Rightarrow> gen \<Rightarrow> gen emitted" where
  "list_rest [] i ty base a s = finish (alloca_ptr a) s"
| "list_rest (f # fs) i ty base a s =
     and_then (f s) (\<lambda>s1.
       case lastValue s1 of
         None \<Rightarrow> Done s1
       | Some v \<Rightarrow>
           if val_type v \<noteq> ty then
             Done (report (Type T001_TYPE_MISMATCH) ''List elements must have the same type'' s1)
           else store_at ty base i v (list_rest fs (i + 1) ty base a) s1)"

definition visitListExpr :: "(gen \<Rightarrow> gen emitted) list \<Rightarrow> gen \<Rightarrow> gen emitted" where
  "visitListExpr fs s =
     (case fs of
        [] \<Rightarrow> createEmptyList s
      | f # rest \<Rightarrow>
          and_then (f s) (\<lambda>s1.
            case lastValue s1 of
              None \<Rightarrow> Done s1
            | Some v \<Rightarrow>
                (let ty = val_type v; n = Const_Int 64 (int (length fs)) in
                 build_alloca list_struct ''list'' (\<lambda>a.
                 store_field list_struct a 0 n (
                 build (Binary Mul n (Size_Of ty)) i64 (\<lambda>total.
                 with_malloc (\<lambda>m. build_call m [total] (\<lambda>base.
                 store_field list_struct a 1 base (
                 build_cast Bit_Cast base Ptr_Ty (\<lambda>typed.
                 store_at ty typed 0 v (list_rest rest 1 ty typed a)))))))) s1)))"

definition createEmptyDictionary :: "gen \<Rightarrow> gen emitted" where
  "createEmptyDictionary =
     build_alloca dict_struct ''empty_dict'' (\<lambda>a.
     store_field dict_struct a 0 (Const_Int 64 0) (
     store_field dict_struct a 1 Null_Ptr (
     store_field dict_struct a 2 Null_Ptr (finish (alloca_ptr a)))))"

definition visit_entry ::
  "(gen \<Rightarrow> gen emitted) \<times> (gen \<Rightarrow> gen emitted) \<Rightarrow> (lval \<Rightarrow> lval \<Rightarrow> gen \<Rightarrow> gen emitted) \<Rightarrow> gen \<Rightarrow> gen emitted" where
  "visit_entry e k s =
     and_then (fst e s) (\<lambda>s1.
       case lastValue s1 of
         None \<Rightarrow> Done s1
       | Some key \<Rightarrow>
           and_then (snd e s1) (\<lambda>s2.
             case lastValue s2 of None \<Rightarrow> Done s2 | Some v \<Rightarrow> k key v s2))"

primrec dict_rest ::
  "((gen \<Rightarrow> gen emitted) \<times> (gen \<Rightarrow> gen emitted)) list \<Rightarrow> nat \<Rightarrow> ltype \<Rightarrow> ltype \<Rightarrow> lval \<Rightarrow> lval \<Rightarrow> alloca
     \<Rightarrow> gen \<Rightarrow> gen emitted" where
  "dict_rest [] i kt vt ks vs a = finish (alloca_ptr a)"
| "dict_rest (e # es) i kt vt ks vs a =
     visit_entry e (\<lambda>key v.
       if val_type key \<noteq> kt \<or> val_type v \<noteq> vt then
         (\<lambda>s. Done (report (Type T001_TYPE_MISMATCH) ''Dictionary keys and values must have consistent types'' s))
       else store_at kt ks i key (store_at vt vs i v (dict_rest es (i + 1) kt vt ks vs a)))"

text \<open>A \<open>malloc\<close> of so many elements of a type.\<close>

definition alloc_array :: "nat \<Rightarrow> nat \<Rightarrow> ltype \<Rightarrow> (lval \<Rightarrow> gen \<Rightarrow> gen emitted) \<Rightarrow> gen \<Rightarrow> gen emitted" where
  "alloc_array m n ty k =
     build (Binary Mul (Const_Int 64 (int n)) (Size_Of ty)) i64 (\<lambda>total.
     build_call m [total] (\<lambda>p. build_cast Bit_Cast p Ptr_Ty k))"

definition visitDictionaryExpr ::
  "((gen \<Rightarrow> gen emitted) \<times> (gen \<Rightarrow> gen emitted)) list \<Rightarrow> gen \<Rightarrow> gen emitted" where
  "visitDictionaryExpr es =
     (case es of
        [] \<Rightarrow> createEmptyDictionary
      | e # rest \<Rightarrow>
          visit_entry e (\<lambda>key v.
            let kt = val_type key; vt = val_type v; n = length es in
            build_alloca dict_struct ''dict'' (\<lambda>a.
            store_field dict_struct a 0 (Const_Int 64 (int n)) (\<lambda>s.
              case getStdLibFunction ''malloc'' s of
                None \<Rightarrow> Done (report (Compiler C002_CODEGEN_ERROR) ''Could not find malloc function'' s)
              | Some m \<Rightarrow>
                  alloc_array m n kt (\<lambda>ks.
                  alloc_array m n vt (\<lambda>vs.
                  store_field dict_struct a 1 ks (
                  store_field dict_struct a 2 vs (
                  store_at kt ks 0 key (
                  store_at vt vs 0 v (dict_rest rest 1 kt vt ks vs a)))))) s))))"

definition convertToString :: "lval \<Rightarrow> (lval \<Rightarrow> gen \<Rightarrow> gen emitted) \<Rightarrow> gen \<Rightarrow> gen emitted" where
  "convertToString v k s =
     (let ty = val_type v in
      if ty = Ptr_Ty then k v s
      else (case getStdLibFunction (if is_int ty then ''int_to_string'' else if is_fp ty then ''float_to_string''
                                    else ''to_string'') s of
              None \<Rightarrow> build_string ''[ERROR]'' k (report (Compiler C002_CODEGEN_ERROR)
                        ''Cannot convert value to string - missing conversion function'' s)
            | Some f \<Rightarrow> build_call f [v] k s))"

primrec concat_rest :: "nat \<Rightarrow> lval list \<Rightarrow> lval \<Rightarrow> (lval \<Rightarrow> gen \<Rightarrow> gen emitted) \<Rightarrow> gen \<Rightarrow> gen emitted" where
  "concat_rest f [] r k = k r"
| "concat_rest f (x # xs) r k = build_call f [r, x] (\<lambda>r'. concat_rest f xs r' k)"

definition concatenateStrings :: "lval list \<Rightarrow> (lval \<Rightarrow> gen \<Rightarrow> gen emitted) \<Rightarrow> gen \<Rightarrow> gen emitted" where
  "concatenateStrings xs k s =
     (case getStdLibFunction ''string_concat'' s of
        None \<Rightarrow> build_string ''[ERROR]'' k
                  (report (Compiler C002_CODEGEN_ERROR) ''String concatenation function not found'' s)
      | Some f \<Rightarrow> (case xs of [] \<Rightarrow> build_string [] k s | x # rest \<Rightarrow> concat_rest f rest x k s))"

fun interpolate :: "(gen \<Rightarrow> gen emitted) list \<Rightarrow> string list \<Rightarrow> lval list \<Rightarrow> gen \<Rightarrow> gen emitted" where
  "interpolate (f # fs) (x # xs) acc s =
     and_then (f s) (\<lambda>s1.
       case lastValue s1 of
         None \<Rightarrow> Done s1
       | Some v \<Rightarrow> convertToString v (\<lambda>t. build_string x (\<lambda>g. interpolate fs xs (acc @ [t, g]))) s1)"
| "interpolate fs xs acc s = concatenateStrings acc finish s"

definition visitStringInterpolationExpr :: "string list \<Rightarrow> (gen \<Rightarrow> gen emitted) list \<Rightarrow> gen \<Rightarrow> gen emitted" where
  "visitStringInterpolationExpr parts fs =
     (if length parts \<noteq> length fs + 1 then
        failed (Compiler C002_CODEGEN_ERROR) ''Malformed string interpolation expression''
      else build_string (hd parts) (\<lambda>g. interpolate fs (tl parts) [g]))"

section \<open>Channels\<close>

definition runtime_function :: "string \<Rightarrow> ltype \<Rightarrow> ltype list \<Rightarrow> (nat \<Rightarrow> gen \<Rightarrow> gen emitted) \<Rightarrow> gen \<Rightarrow> gen emitted" where
  "runtime_function n r ps k s =
     (case getFunction n s of Some f \<Rightarrow> k f s | None \<Rightarrow> new_function n r ps k s)"

definition send_value :: "lval \<Rightarrow> lval \<Rightarrow> gen \<Rightarrow> gen emitted" where
  "send_value c v =
     runtime_function ''runtime_channel_send'' i1 [Ptr_Ty, Ptr_Ty] (\<lambda>f.
     build_cast Bit_Cast c Ptr_Ty (\<lambda>cp. build_cast Bit_Cast v Ptr_Ty (\<lambda>vp.
     build_call f [cp, vp] finish)))"

definition send_values :: "token \<Rightarrow> lval option \<Rightarrow> gen \<Rightarrow> gen emitted" where
  "send_values t channel s =
     (case (channel, lastValue s) of
        (Some c, Some v) \<Rightarrow> send_value c v s
      | _ \<Rightarrow> Done (report_at (Concurrency C011_INVALID_CHANNEL_OPERATION)
                    ''Invalid channel or value in send operation'' t s))"

definition visitChannelSendExpr :: "token \<Rightarrow> (gen \<Rightarrow> gen emitted) \<Rightarrow> (gen \<Rightarrow> gen emitted) \<Rightarrow> gen \<Rightarrow> gen emitted" where
  "visitChannelSendExpr t channel value s =
     and_then (channel s) (\<lambda>s1. and_then (value s1) (send_values t (lastValue s1)))"

definition visitChannelReceiveExpr :: "token \<Rightarrow> (gen \<Rightarrow> gen emitted) \<Rightarrow> gen \<Rightarrow> gen emitted" where
  "visitChannelReceiveExpr t channel s =
     and_then (channel s) (\<lambda>s1.
       case lastValue s1 of
         Some c \<Rightarrow>
           runtime_function ''runtime_channel_receive'' Ptr_Ty [Ptr_Ty] (\<lambda>f.
           build_cast Bit_Cast c Ptr_Ty (\<lambda>cp. build_call f [cp] finish)) s1
       | None \<Rightarrow> Done (report_at (Concurrency C011_INVALID_CHANNEL_OPERATION)
                         ''Invalid channel in receive operation'' t s1))"

section \<open>Function bodies\<close>

text \<open>The value that a function returns when its body does not.\<close>

definition default_return :: "ltype \<Rightarrow> lval" where
  "default_return ty =
     (case ty of
        Int_Ty w \<Rightarrow> Const_Int w 0
      | Float_Ty \<Rightarrow> Const_FP Float_Ty ''0.0''
      | Double_Ty \<Rightarrow> Const_FP Double_Ty ''0.0''
      | Ptr_Ty \<Rightarrow> Null_Ptr
      | _ \<Rightarrow> Undef ty)"

definition start_function :: "nat \<Rightarrow> (gen \<Rightarrow> gen emitted) \<Rightarrow> gen \<Rightarrow> gen emitted" where
  "start_function f k = block_in f (\<lambda>b s. k (set_insert_point b (s\<lparr>currentFunction := Some f\<rparr>)))"

definition verified :: "nat \<Rightarrow> (string \<Rightarrow> gen \<Rightarrow> gen emitted) \<Rightarrow> (gen \<Rightarrow> gen emitted) \<Rightarrow> gen \<Rightarrow> gen emitted" where
  "verified f bad k s =
     (case verify_function s (fun_table s) (block_code s) f of None \<Rightarrow> k s | Some msg \<Rightarrow> bad msg s)"

definition erase_function :: "nat \<Rightarrow> gen \<Rightarrow> gen" where
  "erase_function f s =
     s\<lparr>fun_table := (fun_table s)[f := \<lparr>fn_name = [], fn_return = Void_Ty, fn_params = [], fn_blocks = []\<rparr>]\<rparr>"

primrec lambda_params :: "nat \<Rightarrow> (nat \<times> string \<times> ltype) list \<Rightarrow> (gen \<Rightarrow> gen emitted) \<Rightarrow> gen \<Rightarrow> gen emitted" where
  "lambda_params f [] k = k"
| "lambda_params f (p # ps) k =
     (case p of (i, n, ty) \<Rightarrow>
        createEntryBlockAlloca (Some f) n ty (\<lambda>a. case a of
          None \<Rightarrow> (\<lambda>s. Crash)
        | Some al \<Rightarrow> build_store (Arg f i ty) (alloca_ptr al) (\<lambda>s. lambda_params f ps k (bind_name n a s))))"

definition is_struct :: "ltype \<Rightarrow> bool" where
  "is_struct ty = (case ty of Struct_Ty n ts \<Rightarrow> True | _ \<Rightarrow> False)"

text \<open>\<open>outer\<close> is the state before the visit.\<close>

definition finish_lambda :: "gen \<Rightarrow> nat \<Rightarrow> gen \<Rightarrow> gen emitted" where
  "finish_lambda outer f s =
     finish (Func_Val f)
       (s\<lparr>namedValues := namedValues outer, currentFunction := currentFunction outer,
          insert_block := (case insert_block outer of None \<Rightarrow> insert_block s | Some b \<Rightarrow> Some b)\<rparr>)"

definition erase_lambda :: "string \<Rightarrow> nat \<Rightarrow> gen \<Rightarrow> gen emitted" where
  "erase_lambda msg f s = failed (Compiler C002_CODEGEN_ERROR) msg (erase_function f s)"

definition lambda_return :: "nat \<Rightarrow> ltype \<Rightarrow> (gen \<Rightarrow> gen emitted) \<Rightarrow> gen \<Rightarrow> gen emitted" where
  "lambda_return f ret k s =
     (case insert_block s of
        None \<Rightarrow> Crash
      | Some b \<Rightarrow>
          if has_terminator (block_code s b) then k s
          else if ret = Void_Ty then k (add_instr Ret_Void s)
          else if map_option val_type (lastValue s) = Some ret then
            k (add_instr (Ret_Instr (the (lastValue s))) s)
          else if \<not> is_struct ret then k (add_instr (Ret_Instr (default_return ret)) s)
          else erase_lambda ''Cannot generate default return value for lambda'' f s)"

definition visitLambdaExpr :: "Parameter list \<Rightarrow> type \<Rightarrow> (gen \<Rightarrow> gen emitted) \<Rightarrow> gen \<Rightarrow> gen emitted" where
  "visitLambdaExpr ps r body s =
     (let ret = getLLVMType (Some r); tys = map (\<lambda>p. getLLVMType (Some (param_type p))) ps in
      new_function (''lambda_'' @ show_nat (lambdaCounter s)) ret tys (\<lambda>f.
        start_function f (lambda_params f (zip [0..<length ps] (zip (map param_name ps) tys)) (\<lambda>s1.
          and_then (body s1) (lambda_return f ret (
            verified f (\<lambda>msg. erase_lambda ''Lambda verification failed'' f) (finish_lambda s f))))))
        (s\<lparr>lambdaCounter := lambdaCounter s + 1\<rparr>))"

section \<open>Expressions\<close>

definition with_last :: "(lval \<Rightarrow> gen \<Rightarrow> gen emitted) \<Rightarrow> gen \<Rightarrow> gen emitted" where
  "with_last k s = (case lastValue s of None \<Rightarrow> Done s | Some v \<Rightarrow> k v s)"

text \<open>\<open>visitNewExpr\<close> asks for the type of the node, which is null; \<open>visitArrayLiteralExpr\<close> and
  \<open>visitDeleteExpr\<close> are unfinished in the source.\<close>

fun gen_expr :: "expr \<Rightarrow> gen \<Rightarrow> gen emitted" where
  "gen_expr (BinaryExpr t l op r) =
     (\<lambda>s. and_then (gen_expr l s) (with_last (\<lambda>lv s1.
        and_then (gen_expr r s1) (with_last (\<lambda>rv. binary_op (ttype op) lv rv)))))"
| "gen_expr (GroupingExpr t e) = gen_expr e"
| "gen_expr (LiteralExpr t v k) = visitLiteralExpr v k"
| "gen_expr (UnaryExpr t op e) =
     (\<lambda>s. and_then (gen_expr e s) (with_last (unary_op (ttype op) e)))"
| "gen_expr (VariableExpr t n) = visitVariableExpr n"
| "gen_expr (AssignExpr t n tg v) =
     (\<lambda>s. and_then (gen_expr v s)
        (assign_target tg (case tg of GetExpr u ob m \<Rightarrow> gen_expr ob | _ \<Rightarrow> Done)))"
| "gen_expr (CallExpr t c as) =
     (\<lambda>s. and_then (gen_expr c s) (finish_call c (map gen_expr as)))"
| "gen_expr (GetExpr t ob n) = (\<lambda>s. and_then (gen_expr ob s) (get_member n))"
| "gen_expr (SetExpr t ob n v) = (\<lambda>s. and_then (gen_expr ob s) set_member)"
| "gen_expr (ListExpr t es) = visitListExpr (map gen_expr es)"
| "gen_expr (DictionaryExpr t es) = visitDictionaryExpr (map (\<lambda>(k, v). (gen_expr k, gen_expr v)) es)"
| "gen_expr (LambdaExpr t ps r b) = visitLambdaExpr ps r (gen_expr b)"
| "gen_expr (AwaitExpr t e) = gen_expr e"
| "gen_expr (NewExpr t e sz) = Done"
| "gen_expr (DeleteExpr t e) = gen_expr e"
| "gen_expr (StringInterpolationExpr t ps es) = visitStringInterpolationExpr ps (map gen_expr es)"
| "gen_expr (ChannelSendExpr t c v) = visitChannelSendExpr t (gen_expr c) (gen_expr v)"
| "gen_expr (ChannelReceiveExpr t c) = visitChannelReceiveExpr t (gen_expr c)"
| "gen_expr (ArrayLiteralExpr t es) = (if es = [] then createEmptyList else Done)"

end
