(* ===== verification/Tocin_Codegen_Stmt.thy ===== *)
theory Tocin_Codegen_Stmt
  imports Tocin_Codegen
begin

text \<open>
  The statement visitors of \<open>src/codegen/ir_generator.cpp\<close> and \<open>generate\<close>.
\<close>

section \<open>Variables and returns\<close>

text \<open>\<open>CreateStore\<close> to a null pointer crashes.\<close>

definition store_initial :: "alloca option \<Rightarrow> ltype \<Rightarrow> lval \<Rightarrow> gen \<Rightarrow> gen emitted" where
  "store_initial a ty v =
     numeric_cast v ty
       (\<lambda>s. Done (report (Type T001_TYPE_MISMATCH) ''Initializer type does not match variable type'' s))
       (\<lambda>v' s. case a of
          None \<Rightarrow> Crash
        | Some al \<Rightarrow> build_store v' (alloca_ptr al) Done (set_last (Some v') s))"

text \<open>The initializer is evaluated only when there is no last value.\<close>

definition initialize :: "string \<Rightarrow> ltype \<Rightarrow> (gen \<Rightarrow> gen emitted) option \<Rightarrow> alloca option \<Rightarrow> gen \<Rightarrow> gen emitted" where
  "initialize n ty init a s =
     (case init of
        None \<Rightarrow> Done s
      | Some f \<Rightarrow>
          (case lastValue s of
             Some v \<Rightarrow> store_initial a ty v s
           | None \<Rightarrow> and_then (f s) (with_last (store_initial a ty))))"

definition declare_variable :: "string \<Rightarrow> ltype \<Rightarrow> (gen \<Rightarrow> gen emitted) option \<Rightarrow> gen \<Rightarrow> gen emitted" where
  "declare_variable n ty init s =
     createEntryBlockAlloca (currentFunction s) n ty (\<lambda>a s1. initialize n ty init a (bind_name n a s1)) s"

definition visitVariableStmt :: "string \<Rightarrow> type option \<Rightarrow> (gen \<Rightarrow> gen emitted) option \<Rightarrow> gen \<Rightarrow> gen emitted" where
  "visitVariableStmt n ty init s =
     (case ty of
        Some t \<Rightarrow> declare_variable n (getLLVMType (Some t)) init s
      | None \<Rightarrow>
          (case init of
             Some f \<Rightarrow> and_then (f s) (with_last (\<lambda>v. declare_variable n (val_type v) init))
           | None \<Rightarrow>
               Done (report (Type T032_CANNOT_INFER_TYPE)
                 (''Cannot infer type for variable '' @ [SQUOTE] @ n @ [SQUOTE] @ '' without initializer'') s)))"

definition return_value :: "ltype \<Rightarrow> lval \<Rightarrow> gen \<Rightarrow> gen emitted" where
  "return_value ret v =
     numeric_cast v ret
       (\<lambda>s. Done (report (Type T001_TYPE_MISMATCH) ''Return value type does not match function return type'' s))
       (\<lambda>v' s. Done (add_instr (Ret_Instr v') (set_last (Some v') s)))"

definition return_from :: "(gen \<Rightarrow> gen emitted) option \<Rightarrow> ltype \<Rightarrow> gen \<Rightarrow> gen emitted" where
  "return_from value ret s =
     (case value of
        Some e \<Rightarrow> and_then (e s) (with_last (return_value ret))
      | None \<Rightarrow>
          if ret \<noteq> Void_Ty then
            Done (report (Type T001_TYPE_MISMATCH) ''Missing return value in non-void function'' s)
          else Done (add_instr Ret_Void s))"

definition visitReturnStmt :: "(gen \<Rightarrow> gen emitted) option \<Rightarrow> gen \<Rightarrow> gen emitted" where
  "visitReturnStmt value s =
     (case currentFunction s of
        None \<Rightarrow> Crash
      | Some f \<Rightarrow> return_from value (fn_return (fun_table s ! f)) s)"

section \<open>Branches and loops\<close>

definition to_bool :: "lval \<Rightarrow> (lval \<Rightarrow> gen \<Rightarrow> gen emitted) \<Rightarrow> gen \<Rightarrow> gen emitted" where
  "to_bool v k =
     (if val_type v = i1 then k v
      else if is_int (val_type v) then non_zero v k
      else if is_fp (val_type v) then build (Compare FCmpONE v (Const_FP (val_type v) ''0.0'')) i1 k
      else if val_type v = Ptr_Ty then build (Compare ICmpNE v Null_Ptr) i1 k
      else (\<lambda>s. Done (report (Type T001_TYPE_MISMATCH) ''Condition must be convertible to a boolean'' s)))"

definition scoped :: "(gen \<Rightarrow> gen emitted) \<Rightarrow> gen \<Rightarrow> gen emitted" where
  "scoped f s = and_then (f (gen_enterScope s)) (\<lambda>s1. Done (gen_exitScope s1))"

definition jump :: "nat \<Rightarrow> gen \<Rightarrow> gen emitted" where
  "jump b = unless_terminated (\<lambda>s. Done (add_instr (Br b) s))"

definition continue_at :: "nat \<Rightarrow> nat \<Rightarrow> gen \<Rightarrow> gen" where
  "continue_at b f s = set_insert_point b (insert_into b f s)"

definition if_blocks ::
  "lval \<Rightarrow> (gen \<Rightarrow> gen emitted) \<Rightarrow> (gen \<Rightarrow> gen emitted) option \<Rightarrow> gen \<Rightarrow> gen emitted" where
  "if_blocks cv th el =
     parent_function (\<lambda>f. block_in f (\<lambda>thenB.
       case el of
         None \<Rightarrow>
           new_block (\<lambda>cont s.
             and_then (scoped th (set_insert_point thenB (add_instr (Cond_Br cv thenB cont) s))) (\<lambda>s1.
             and_then (jump cont s1) (\<lambda>s2. Done (continue_at cont f s2))))
       | Some e \<Rightarrow>
           new_block (\<lambda>elseB. new_block (\<lambda>cont s.
             and_then (scoped th (set_insert_point thenB (add_instr (Cond_Br cv thenB elseB) s))) (\<lambda>s1.
             and_then (jump cont s1) (\<lambda>s2.
             and_then (scoped e (continue_at elseB f s2)) (\<lambda>s3.
             and_then (jump cont s3) (\<lambda>s4. Done (continue_at cont f s4)))))))))"

definition visitIfStmt ::
  "(gen \<Rightarrow> gen emitted) \<Rightarrow> (gen \<Rightarrow> gen emitted) \<Rightarrow> (gen \<Rightarrow> gen emitted) option \<Rightarrow> gen \<Rightarrow> gen emitted" where
  "visitIfStmt c th el s =
     and_then (c s) (with_last (\<lambda>v. to_bool v (\<lambda>cv. if_blocks cv th el)))"

definition visitWhileStmt :: "(gen \<Rightarrow> gen emitted) \<Rightarrow> (gen \<Rightarrow> gen emitted) \<Rightarrow> gen \<Rightarrow> gen emitted" where
  "visitWhileStmt c body =
     parent_function (\<lambda>f. block_in f (\<lambda>condB. new_block (\<lambda>loopB. new_block (\<lambda>afterB s.
       and_then (c (set_insert_point condB (add_instr (Br condB) s)))
         (with_last (\<lambda>v. to_bool v (\<lambda>cv s1.
            and_then (scoped body (continue_at loopB f (add_instr (Cond_Br cv loopB afterB) s1))) (\<lambda>s2.
            and_then (jump condB s2) (\<lambda>s3. Done (continue_at afterB f s3))))))))))"

text \<open>A loop over a list: the length is read once, then the body runs on each element.\<close>

definition then_do :: "(gen \<Rightarrow> gen) \<Rightarrow> (gen \<Rightarrow> gen emitted) \<Rightarrow> gen \<Rightarrow> gen emitted" where
  "then_do u k s = k (u s)"

definition list_field :: "int \<Rightarrow> lval \<Rightarrow> (lval \<Rightarrow> gen \<Rightarrow> gen emitted) \<Rightarrow> gen \<Rightarrow> gen emitted" where
  "list_field i l = build (GEP list_struct l [Const_Int 32 0, Const_Int 32 i]) Ptr_Ty"

definition for_element :: "ltype \<Rightarrow> lval \<Rightarrow> alloca \<Rightarrow> alloca \<Rightarrow> (gen \<Rightarrow> gen emitted) \<Rightarrow> gen \<Rightarrow> gen emitted" where
  "for_element vt l indexVar iterVar k =
     list_field 1 l (\<lambda>dataPtr.
     build_load Ptr_Ty dataPtr (\<lambda>data.
     build_load i64 (alloca_ptr indexVar) (\<lambda>index.
     build (GEP vt data [index]) Ptr_Ty (\<lambda>elementPtr.
     build_load vt elementPtr (\<lambda>element.
     build_store element (alloca_ptr iterVar) k)))))"

definition for_next :: "string \<Rightarrow> nat \<Rightarrow> nat \<Rightarrow> nat \<Rightarrow> lval \<Rightarrow> alloca \<Rightarrow> gen \<Rightarrow> gen emitted" where
  "for_next n f loopB afterB len indexVar =
     build_load i64 (alloca_ptr indexVar) (\<lambda>index.
     build (Binary Add index (Const_Int 64 1)) i64 (\<lambda>next.
     build_store next (alloca_ptr indexVar) (
     build (Compare ICmpSLT next len) i1 (\<lambda>cond.
     then_do (add_instr (Cond_Br cond loopB afterB)) (
     then_do (continue_at afterB f) (\<lambda>s. Done (s\<lparr>namedValues := (namedValues s)(n := None)\<rparr>)))))))"

definition visitForStmt ::
  "string \<Rightarrow> type option \<Rightarrow> (gen \<Rightarrow> gen emitted) \<Rightarrow> (gen \<Rightarrow> gen emitted) \<Rightarrow> gen \<Rightarrow> gen emitted" where
  "visitForStmt n ty it body =
     parent_function (\<lambda>f. block_in f (\<lambda>loopB. new_block (\<lambda>afterB s.
       and_then (it s) (with_last (\<lambda>l.
         build_alloca (getLLVMType ty) n (\<lambda>iterVar.
         then_do (bind_name n (Some iterVar)) (
         build_alloca i64 ''loop.index'' (\<lambda>indexVar.
         build_store (Const_Int 64 0) (alloca_ptr indexVar) (
         list_field 0 l (\<lambda>lengthPtr.
         build_load i64 lengthPtr (\<lambda>len.
         build_load i64 (alloca_ptr indexVar) (\<lambda>index.
         build (Compare ICmpSLT index len) i1 (\<lambda>cond.
         then_do (add_instr (Cond_Br cond loopB afterB)) (
         then_do (set_insert_point loopB) (
         for_element (getLLVMType ty) l indexVar iterVar (\<lambda>s1.
           and_then (body s1) (for_next n f loopB afterB len indexVar)))))))))))))))))"

section \<open>Functions\<close>

primrec store_params :: "nat \<Rightarrow> (nat \<times> string \<times> ltype) list \<Rightarrow> (gen \<Rightarrow> gen emitted) \<Rightarrow> gen \<Rightarrow> gen emitted" where
  "store_params f [] k = k"
| "store_params f (p # ps) k =
     (case p of (i, n, ty) \<Rightarrow>
        build_alloca ty n (\<lambda>a. build_store (Arg f i ty) (alloca_ptr a) (\<lambda>s.
          store_params f ps k (bind_name n (Some a) s))))"

definition param_types :: "Parameter list \<Rightarrow> ltype list" where
  "param_types ps = map (\<lambda>p. getLLVMType (Some (param_type p))) ps"

definition params_of :: "Parameter list \<Rightarrow> (nat \<times> string \<times> ltype) list" where
  "params_of ps = zip [0..<length ps] (zip (map param_name ps) (param_types ps))"

definition end_function :: "ltype \<Rightarrow> gen \<Rightarrow> gen emitted" where
  "end_function ret =
     unless_terminated (\<lambda>s. Done (add_instr (if ret = Void_Ty then Ret_Void else Ret_Instr (default_return ret)) s))"

definition leave_function :: "nat option \<Rightarrow> gen \<Rightarrow> gen" where
  "leave_function previous s = s\<lparr>currentFunction := previous, namedValues := (\<lambda>_. None)\<rparr>"

definition regular_function :: "string \<Rightarrow> Parameter list \<Rightarrow> type \<Rightarrow> (gen \<Rightarrow> gen emitted) \<Rightarrow> gen \<Rightarrow> gen emitted" where
  "regular_function n ps r body s =
     (let ret = getLLVMType (Some r); previous = currentFunction s in
      new_function n ret (param_types ps) (\<lambda>f.
        start_function f (store_params f (params_of ps) (\<lambda>s1.
          and_then (body s1) (\<lambda>s2.
          and_then (end_function ret s2) (
          verified f (\<lambda>msg s3. Done (leave_function previous (report (Compiler C002_CODEGEN_ERROR)
              (''Invalid LLVM IR generated for function '' @ [SQUOTE] @ n @ [SQUOTE] @ '': '' @ msg) s3)))
            (\<lambda>s3. Done (leave_function previous s3))))))) s)"

definition transformAsyncFunction :: "string \<Rightarrow> (nat \<Rightarrow> gen \<Rightarrow> gen emitted) \<Rightarrow> gen \<Rightarrow> gen emitted" where
  "transformAsyncFunction n k =
     new_function n Void_Ty [] (\<lambda>f. block_in f (\<lambda>b s. k f (add_instr Ret_Void (set_insert_point b s))))"

definition async_function :: "string \<Rightarrow> Parameter list \<Rightarrow> type \<Rightarrow> gen \<Rightarrow> gen emitted" where
  "async_function n ps r =
     transformAsyncFunction n (\<lambda>af. new_function n (getLLVMType (Some r)) (param_types ps) (\<lambda>f.
       block_in f (\<lambda>b. then_do (set_insert_point b) (
         build_call af (map (\<lambda>(i, n, ty). Arg f i ty) (params_of ps)) (\<lambda>future s.
           case getStdLibFunction ''Future_get'' s of
             None \<Rightarrow> Done (report (Compiler C002_CODEGEN_ERROR) ''Future_get method not found'' s)
           | Some g \<Rightarrow> build_call g [future] (\<lambda>v s1. Done (add_instr (Ret_Instr v) s1)) s)))))"

definition visitFunctionStmt ::
  "bool \<Rightarrow> TypeParameter list \<Rightarrow> string \<Rightarrow> Parameter list \<Rightarrow> type \<Rightarrow> (gen \<Rightarrow> gen emitted) \<Rightarrow> gen \<Rightarrow> gen emitted" where
  "visitFunctionStmt isAsync tps n ps r body =
     (if isAsync then async_function n ps r
      else if tps \<noteq> [] then Done
      else regular_function n ps r body)"

section \<open>Goroutines and select\<close>

text \<open>After its calls the code asks for the null constant of the type \<open>void\<close>, which does not exist.\<close>

definition is_call :: "lval \<Rightarrow> bool" where
  "is_call v = (case v of Call_Reg n ty \<Rightarrow> True | _ \<Rightarrow> False)"

definition visitGoStmt :: "token \<Rightarrow> (gen \<Rightarrow> gen emitted) \<Rightarrow> gen \<Rightarrow> gen emitted" where
  "visitGoStmt t e s =
     and_then (e s) (\<lambda>s1.
       case lastValue s1 of
         None \<Rightarrow> Done (report_at (Concurrency C013_INVALID_SPAWN_OPERATION) ''Invalid expression in go statement'' t s1)
       | Some v \<Rightarrow>
           if is_call v then Crash
           else Done (report_at (Concurrency C013_INVALID_SPAWN_OPERATION) ''Go statement requires a function call'' t s1))"

fun select_cases :: "nat \<Rightarrow> (gen \<Rightarrow> gen emitted) list \<Rightarrow> gen \<Rightarrow> gen emitted" where
  "select_cases f [] s = Crash"
| "select_cases f (b # bs) s =
     block_in f (\<lambda>caseB. then_do (set_insert_point caseB) (\<lambda>s1.
       and_then (b s1) (block_in f (\<lambda>endB.
         then_do (add_instr (Br endB)) (then_do (set_insert_point endB) (select_cases f bs)))))) s"

definition visitSelectStmt :: "(gen \<Rightarrow> gen emitted) list \<Rightarrow> gen \<Rightarrow> gen emitted" where
  "visitSelectStmt bodies s =
     new_function (''select_handler_'' @ show_nat (nextId s + 1)) i32 [] (\<lambda>f. block_in f (\<lambda>b.
       then_do (set_insert_point b) (
       runtime_function ''runtime_select'' i32 [i32] (\<lambda>rt.
       build_call rt [Const_Int 32 (int (length bodies))] (\<lambda>selected.
       then_do (add_instr (Ret_Instr selected)) (
       build_call f [] (\<lambda>caseIndex.
       then_do (add_instr (Switch caseIndex [])) (select_cases f bodies))))))))
     (s\<lparr>nextId := nextId s + 1\<rparr>)"

section \<open>Statements\<close>

fun visit_each :: "(gen \<Rightarrow> gen emitted) list \<Rightarrow> gen \<Rightarrow> gen emitted" where
  "visit_each [] s = Done s"
| "visit_each (f # fs) s = and_then (f s) (visit_each fs)"

definition optional_visit :: "(gen \<Rightarrow> gen emitted) option \<Rightarrow> gen \<Rightarrow> gen emitted" where
  "optional_visit f = (case f of None \<Rightarrow> Done | Some g \<Rightarrow> g)"

text \<open>The branches \<open>elif\<close>, the cases of a match after the first, and classes produce no code.\<close>

primrec gen_stmt :: "stmt \<Rightarrow> gen \<Rightarrow> gen emitted" where
  "gen_stmt (ExpressionStmt t e) = gen_expr e"
| "gen_stmt (VariableStmt t n ty i c) = visitVariableStmt n ty (map_option gen_expr i)"
| "gen_stmt (BlockStmt t ss) = scoped (visit_each (map optional_visit (map (map_option gen_stmt) ss)))"
| "gen_stmt (IfStmt t c th els el) = visitIfStmt (gen_expr c) (gen_stmt th) (map_option gen_stmt el)"
| "gen_stmt (WhileStmt t c b) = visitWhileStmt (gen_expr c) (gen_stmt b)"
| "gen_stmt (ForStmt t v ty i b) = visitForStmt v ty (gen_expr i) (gen_stmt b)"
| "gen_stmt (FunctionStmt t n tps ps r b isAsync) = visitFunctionStmt isAsync tps n ps r (gen_stmt b)"
| "gen_stmt (ReturnStmt t v) = visitReturnStmt (map_option gen_expr v)"
| "gen_stmt (ClassStmt t n tps sc ifs fs ms) = Done"
| "gen_stmt (ImportStmt t m all syms al) = Done"
| "gen_stmt (ExportStmt t syms all d) = Done"
| "gen_stmt (ModuleStmt t n b) =
     (\<lambda>s. and_then (visit_each (map gen_stmt b) (s\<lparr>currentModuleName := n\<rparr>))
        (\<lambda>s1. Done (s1\<lparr>currentModuleName := currentModuleName s\<rparr>)))"
| "gen_stmt (MatchStmt t v cs d) =
     (\<lambda>s. and_then (gen_expr v s)
        (case map snd (map (map_prod id gen_stmt) cs) of [] \<Rightarrow> Done | b # _ \<Rightarrow> b))"
| "gen_stmt (SelectStmt t cs) = visitSelectStmt (map (fst \<circ> snd) (map (map_prod id (map_prod gen_stmt id)) cs))"
| "gen_stmt (GoStmt t e) = visitGoStmt t (gen_expr e)"
| "gen_stmt (TraitStmt t n ms st at) = (\<lambda>s. and_then (visit_each (map gen_stmt ms) s) (\<lambda>_. Crash))"
| "gen_stmt (ImplStmt t n ty ms) = (\<lambda>s. and_then (visit_each (map gen_stmt ms) s) (\<lambda>_. Crash))"

text \<open>The module is returned, or null.\<close>

definition generate :: "stmt option \<Rightarrow> gen \<Rightarrow> (bool \<times> gen) emitted" where
  "generate ast s =
     (case ast of
        None \<Rightarrow>
          Done (False, s\<lparr>gen_handler := record_error (Compiler C002_CODEGEN_ERROR) ''Null AST passed to IRGenerator''
            [] 0 0 FATAL_SEVERITY (gen_handler s)\<rparr>)
      | Some x \<Rightarrow>
          and_then (scoped (gen_stmt x) s) (\<lambda>s1.
            Done (True, case verify_module s1 (fun_table s1) (block_code s1) of
                          None \<Rightarrow> s1
                        | Some msg \<Rightarrow> report (Compiler C002_CODEGEN_ERROR) (''Module verification failed: '' @ msg) s1)))"

end
