(* ===== verification/Tocin_Codegen_Relations.thy ===== *)
theory Tocin_Codegen_Relations
  imports Tocin_Codegen_Stmt
begin

text \<open>
  Relations between the state before and after a visit that every step of the generator respects. The first
  locale asks only for what an ordinary expression does, the second for everything.
\<close>

definition keeps :: "(gen \<Rightarrow> gen \<Rightarrow> bool) \<Rightarrow> (gen \<Rightarrow> gen emitted) \<Rightarrow> bool" where
  "keeps R f \<longleftrightarrow> (\<forall>s t. f s = Done t \<longrightarrow> R s t)"

lemma keepsI: "(\<And>s t. f s = Done t \<Longrightarrow> R s t) \<Longrightarrow> keeps R f"
  by (simp add: keeps_def)

lemma keepsD: "keeps R f \<Longrightarrow> f s = Done t \<Longrightarrow> R s t"
  by (simp add: keeps_def)

named_theorems keep \<open>visits that respect a relation\<close>

text \<open>Neither a lambda, which moves the insertion point, nor a call of a name of the REPL.\<close>

primrec plain_expr :: "expr \<Rightarrow> bool" where
  "plain_expr (BinaryExpr t l op r) = (plain_expr l \<and> plain_expr r)"
| "plain_expr (GroupingExpr t e) = plain_expr e"
| "plain_expr (LiteralExpr t v k) = True"
| "plain_expr (UnaryExpr t op e) = plain_expr e"
| "plain_expr (VariableExpr t n) = True"
| "plain_expr (AssignExpr t n tg v) = (plain_expr tg \<and> plain_expr v)"
| "plain_expr (CallExpr t c as) =
     (plain_expr c \<and> list_all id (map plain_expr as)
      \<and> (case c of VariableExpr u n \<Rightarrow> \<not> starts_with ''repl_expr_'' n | _ \<Rightarrow> True))"
| "plain_expr (GetExpr t ob n) = plain_expr ob"
| "plain_expr (SetExpr t ob n v) = (plain_expr ob \<and> plain_expr v)"
| "plain_expr (ListExpr t es) = list_all id (map plain_expr es)"
| "plain_expr (DictionaryExpr t es) = list_all (\<lambda>p. fst p \<and> snd p) (map (map_prod plain_expr plain_expr) es)"
| "plain_expr (LambdaExpr t ps r b) = False"
| "plain_expr (AwaitExpr t e) = plain_expr e"
| "plain_expr (NewExpr t e sz) = True"
| "plain_expr (DeleteExpr t e) = plain_expr e"
| "plain_expr (StringInterpolationExpr t ps es) = list_all id (map plain_expr es)"
| "plain_expr (ChannelSendExpr t c v) = (plain_expr c \<and> plain_expr v)"
| "plain_expr (ChannelReceiveExpr t c) = plain_expr c"
| "plain_expr (ArrayLiteralExpr t es) = True"

locale expr_relation =
  fixes R :: "gen \<Rightarrow> gen \<Rightarrow> bool"
  assumes R_refl: "R s s"
    and R_trans: "R s t \<Longrightarrow> R t u \<Longrightarrow> R s u"
    and R_add: "\<not> terminator i \<Longrightarrow> R s (add_instr i s)"
    and R_last: "R s (set_last v s)"
    and R_report: "R s (report ec msg s)" "R s (report_at ec msg tok s)"
    and R_declare: "R s (s\<lparr>fun_table := fun_table s @ [\<lparr>fn_name = n, fn_return = r, fn_params = ps, fn_blocks = []\<rparr>]\<rparr>)"
begin

lemma keeps_then: "(\<And>x. keeps R (k x)) \<Longrightarrow> (\<And>s. R s (u s)) \<Longrightarrow> keeps R (\<lambda>s. k (x s) (u s))"
  by (rule keepsI) (blast intro: R_trans dest: keepsD)

lemma keeps_read: "(\<And>x. keeps R (k x)) \<Longrightarrow> keeps R (\<lambda>s. k (x s) s)"
  by (rule keepsI) (blast dest: keepsD)

lemma keeps_then_state: "keeps R k \<Longrightarrow> (\<And>s. R s (u s)) \<Longrightarrow> keeps R (\<lambda>s. k (u s))"
  by (rule keeps_then)

lemma keeps_option: "(x = None \<Longrightarrow> keeps R f) \<Longrightarrow> (\<And>y. x = Some y \<Longrightarrow> keeps R (g y)) \<Longrightarrow>
    keeps R (case x of None \<Rightarrow> f | Some y \<Rightarrow> g y)"
  by (cases x) auto

lemma keeps_case [keep]: "keeps R f \<Longrightarrow> (\<And>y. keeps R (g y)) \<Longrightarrow>
    keeps R (\<lambda>s. case x s of None \<Rightarrow> f s | Some y \<Rightarrow> g y s)"
  by (rule keepsI) (auto dest: keepsD split: option.splits)

lemma keeps_Done [keep]: "keeps R Done"
  by (rule keepsI) (simp add: R_refl)

lemma keeps_Crash [keep]: "keeps R (\<lambda>s. Crash)"
  by (rule keepsI) simp

lemma keeps_Throws [keep]: "keeps R (\<lambda>s. Throws x)"
  by (rule keepsI) simp

lemma keeps_seq [keep]: "keeps R f \<Longrightarrow> keeps R k \<Longrightarrow> keeps R (\<lambda>s. and_then (f s) k)"
  by (rule keepsI) (auto simp: and_then_Done dest: keepsD intro: R_trans)

lemma keeps_with_last [keep]: "(\<And>v. keeps R (k v)) \<Longrightarrow> keeps R (with_last k)"
  by (rule keepsI) (auto simp: with_last_def R_refl dest: keepsD split: option.splits)

lemma keeps_if [keep]: "(b \<Longrightarrow> keeps R f) \<Longrightarrow> (\<not> b \<Longrightarrow> keeps R g) \<Longrightarrow> keeps R (if b then f else g)"
  by simp

lemma keeps_finish [keep]: "keeps R (finish v)"
  by (rule keepsI) (auto simp: finish_def R_last)

lemma keeps_failed [keep]: "keeps R (failed ec msg)"
  by (rule keepsI) (auto simp: failed_def intro: R_trans [OF R_report(1) R_last])

lemma keeps_report [keep]: "keeps R (\<lambda>s. Done (report ec msg s))" "keeps R (\<lambda>s. Done (report_at ec msg tok s))"
  by (rule keepsI, auto simp: R_report)+

lemma keeps_build [keep]: "\<not> terminator i \<Longrightarrow> (\<And>v. keeps R (k v)) \<Longrightarrow> keeps R (build i ty k)"
  unfolding build_def [abs_def] by (rule keeps_then) (simp_all add: R_add)

lemma keeps_at_block [keep]: "keeps R k \<Longrightarrow> keeps R (at_block k)"
  by (rule keepsI) (auto simp: at_block_def dest: keepsD split: if_splits)

lemma keeps_build_call [keep]: "(\<And>v. keeps R (k v)) \<Longrightarrow> keeps R (build_call f args k)"
  unfolding build_call_def [abs_def] by (rule keeps_then) (simp_all add: R_add)

lemma keeps_build_alloca [keep]: "(\<And>a. keeps R (k a)) \<Longrightarrow> keeps R (build_alloca ty n k)"
  unfolding build_alloca_def by (rule keeps_at_block, rule keeps_then) (simp_all add: R_add)

lemma keeps_build_load [keep]: "(\<And>v. keeps R (k v)) \<Longrightarrow> keeps R (build_load ty p k)"
  unfolding build_load_def by (intro keep) simp_all

lemma keeps_build_store [keep]: "keeps R k \<Longrightarrow> keeps R (build_store v p k)"
  unfolding build_store_def by (rule keeps_at_block, rule keeps_then_state) (simp_all add: R_add)

lemma keeps_build_string [keep]: "(\<And>v. keeps R (k v)) \<Longrightarrow> keeps R (build_string x k)"
  unfolding build_string_def by (intro keep)

lemma keeps_build_cast [keep]: "(\<And>v. keeps R (k v)) \<Longrightarrow> keeps R (build_cast c v ty k)"
  unfolding build_cast_def by (intro keep) simp_all

lemma keeps_const_int [keep]: "(\<And>v. keeps R (k v)) \<Longrightarrow> keeps R (const_int ty n k)"
  by (rule keepsI) (auto simp: const_int_def dest: keepsD split: ltype.splits)

lemma keeps_new_function [keep]: "(\<And>f. keeps R (k f)) \<Longrightarrow> keeps R (new_function n r ps k)"
  unfolding new_function_def [abs_def] by (rule keeps_then) (simp_all add: R_declare)

lemma keeps_runtime_function [keep]: "(\<And>f. keeps R (k f)) \<Longrightarrow> keeps R (runtime_function n r ps k)"
  unfolding runtime_function_def [abs_def] by (intro keep)

lemma keeps_with_malloc [keep]: "(\<And>f. keeps R (k f)) \<Longrightarrow> keeps R (with_malloc k)"
  unfolding with_malloc_def [abs_def] by (intro keep)

lemma keeps_numeric_cast [keep]:
  "keeps R f \<Longrightarrow> (\<And>v. keeps R (k v)) \<Longrightarrow> keeps R (numeric_cast v ty f k)"
  unfolding numeric_cast_def by (intro keep)

lemma keeps_non_zero [keep]: "(\<And>v. keeps R (k v)) \<Longrightarrow> keeps R (non_zero v k)"
  unfolding non_zero_def by (intro keep) simp_all

lemma keeps_store_at [keep]: "keeps R k \<Longrightarrow> keeps R (store_at ty p i v k)"
  unfolding store_at_def by (intro keep) simp_all

lemma keeps_store_field [keep]: "keeps R k \<Longrightarrow> keeps R (store_field ty a i v k)"
  unfolding store_field_def by (intro keep) simp_all

lemma keeps_binary_op [keep]: "keeps R (binary_op ty l r)"
  unfolding binary_op_def plus_op_def arith_op_def int_op_def equality_op_def order_op_def logic_op_def
  by (intro keep) simp_all

lemma keeps_literal [keep]: "keeps R (visitLiteralExpr v k)"
  by (rule keepsI)
     (auto simp: visitLiteralExpr_def and_then_Done R_last build_string_def at_block_def split: LiteralType.splits if_splits)

lemma keeps_step_variable [keep]: "keeps R (step_variable iop fop msg ty e)"
  unfolding step_variable_def by (cases e) (auto intro!: keep)

lemma keeps_unary_op [keep]: "keeps R (unary_op ty e v)"
  unfolding unary_op_def by (intro keep) simp_all

lemma keeps_variable [keep]: "keeps R (visitVariableExpr n)"
  unfolding visitVariableExpr_def [abs_def] by (intro keep)

lemma keeps_assignment [keep]: "keeps R (handleVariableAssignment n v)"
  unfolding handleVariableAssignment_def [abs_def] by (intro keep)

lemma keeps_get_member [keep]: "keeps R (get_member n)"
  unfolding get_member_def [abs_def] by (intro keep)

lemma keeps_if_state [keep]: "keeps R f \<Longrightarrow> keeps R g \<Longrightarrow> keeps R (\<lambda>s. if b s then f s else g s)"
  by (rule keepsI) (auto dest: keepsD split: if_splits)

lemma keeps_set_member [keep]: "keeps R set_member"
  unfolding set_member_def [abs_def] by (intro keep)

lemma keeps_assign_target [keep]: "keeps R f \<Longrightarrow> keeps R (assign_target tg f)"
  unfolding assign_target_def [abs_def] by (cases tg) (auto intro!: keep)

lemma keeps_visit_args [keep]:
  "list_all (keeps R) fs \<Longrightarrow> (\<And>vs. keeps R (k vs)) \<Longrightarrow> keeps R (visit_args fs acc k)"
proof (induction fs arbitrary: acc)
  case Nil
  then show ?case by (simp add: keeps_def)
next
  case (Cons f fs)
  then have "keeps R (\<lambda>s. and_then (f s) (\<lambda>s1. case lastValue s1 of None \<Rightarrow> Done s1
      | Some v \<Rightarrow> visit_args fs (acc @ [v]) k s1))"
    by (intro keep) simp_all
  then show ?case by (simp add: keeps_def)
qed

lemma keeps_call_value [keep]: "list_all (keeps R) fs \<Longrightarrow> keeps R (call_value fs c)"
  unfolding call_value_def by (cases c) (auto intro!: keep)

lemma keeps_direct_callee [keep]:
  assumes "\<not> starts_with ''repl_expr_'' n" "\<And>v. keeps R (k v)"
  shows "keeps R (direct_callee n c k)"
proof -
  have "direct_callee n c k = (\<lambda>s. case stdLibFunctions s n of Some f \<Rightarrow> k (Func_Val f) s
      | None \<Rightarrow> (case getFunction n s of Some f \<Rightarrow> k (Func_Val f) s | None \<Rightarrow> k c s))"
    by (rule ext) (simp add: direct_callee_def assms(1))
  then show ?thesis
    by (auto intro!: keep assms(2))
qed

lemma keeps_finish_call [keep]:
  "list_all (keeps R) fs \<Longrightarrow> (case c of VariableExpr u n \<Rightarrow> \<not> starts_with ''repl_expr_'' n | _ \<Rightarrow> True) \<Longrightarrow>
    keeps R (finish_call c fs)"
  unfolding finish_call_def [abs_def] by (cases c) (auto intro!: keep)

lemma keeps_list_rest [keep]: "list_all (keeps R) fs \<Longrightarrow> keeps R (list_rest fs i ty p a)"
proof (induction fs arbitrary: i)
  case Nil
  then show ?case using keepsD [OF keeps_finish] by (simp add: keeps_def)
next
  case (Cons f fs)
  then have "keeps R (\<lambda>s. and_then (f s) (\<lambda>s1. case lastValue s1 of None \<Rightarrow> Done s1
      | Some v \<Rightarrow> if val_type v \<noteq> ty then
             Done (report (Type T001_TYPE_MISMATCH) ''List elements must have the same type'' s1)
           else store_at ty p i v (list_rest fs (i + 1) ty p a) s1))"
    by (intro keep) simp_all
  then show ?case by (simp add: keeps_def)
qed

lemma keeps_list [keep]: "list_all (keeps R) fs \<Longrightarrow> keeps R (visitListExpr fs)"
  unfolding visitListExpr_def [abs_def] createEmptyList_def Let_def
  by (cases fs) (auto intro!: keep)

lemma keeps_empty_list [keep]: "keeps R createEmptyList"
  unfolding createEmptyList_def by (intro keep)

lemma keeps_visit_entry [keep]:
  "keeps R (fst e) \<Longrightarrow> keeps R (snd e) \<Longrightarrow> (\<And>a b. keeps R (k a b)) \<Longrightarrow> keeps R (visit_entry e k)"
  unfolding visit_entry_def [abs_def] by (intro keep)

lemma keeps_dict_rest [keep]:
  "list_all (\<lambda>e. keeps R (fst e) \<and> keeps R (snd e)) es \<Longrightarrow> keeps R (dict_rest es i kt vt ks vs a)"
  by (induction es arbitrary: i) (auto intro!: keep)

lemma keeps_alloc_array [keep]: "(\<And>p. keeps R (k p)) \<Longrightarrow> keeps R (alloc_array m n ty k)"
  unfolding alloc_array_def by (intro keep) simp_all

lemma keeps_dict [keep]:
  "list_all (\<lambda>e. keeps R (fst e) \<and> keeps R (snd e)) es \<Longrightarrow> keeps R (visitDictionaryExpr es)"
  unfolding visitDictionaryExpr_def createEmptyDictionary_def Let_def
  by (cases es) (auto intro!: keep)

lemma keeps_convert [keep]: "(\<And>v. keeps R (k v)) \<Longrightarrow> keeps R (convertToString v k)"
  unfolding convertToString_def [abs_def] Let_def
  by (intro keep keeps_if_state keeps_then_state [of "build_string _ k"]) (simp_all add: R_report keep)

lemma keeps_concat_rest [keep]: "(\<And>v. keeps R (k v)) \<Longrightarrow> keeps R (concat_rest f xs r k)"
  by (induction xs arbitrary: r) (auto intro!: keep)

lemma keeps_concatenate [keep]: "(\<And>v. keeps R (k v)) \<Longrightarrow> keeps R (concatenateStrings xs k)"
  unfolding concatenateStrings_def [abs_def]
  by (cases xs) (auto intro!: keep keeps_then_state [of "build_string _ k"] R_report)

lemma keeps_interpolate [keep]: "list_all (keeps R) fs \<Longrightarrow> keeps R (interpolate fs xs acc)"
proof (induction fs arbitrary: xs acc)
  case Nil
  then show ?case using keepsD [OF keeps_concatenate [OF keeps_finish]] by (simp add: keeps_def)
next
  case (Cons f fs)
  show ?case
  proof (cases xs)
    case Nil
    then show ?thesis using keepsD [OF keeps_concatenate [OF keeps_finish]] by (simp add: keeps_def)
  next
    case (Cons x ys)
    have "keeps R (\<lambda>s. and_then (f s) (\<lambda>s1. case lastValue s1 of None \<Rightarrow> Done s1
        | Some v \<Rightarrow> convertToString v (\<lambda>t. build_string x (\<lambda>g. interpolate fs ys (acc @ [t, g]))) s1))"
      using Cons.IH Cons.prems by (intro keep) simp_all
    then show ?thesis by (simp add: keeps_def Cons)
  qed
qed

lemma keeps_interpolation [keep]: "list_all (keeps R) fs \<Longrightarrow> keeps R (visitStringInterpolationExpr ps fs)"
  unfolding visitStringInterpolationExpr_def by (intro keep)

lemma keeps_send_value [keep]: "keeps R (send_value c v)"
  unfolding send_value_def by (intro keep)

lemma keeps_send_values [keep]: "keeps R (send_values t c)"
  unfolding send_values_def [abs_def] by (cases c) (auto intro!: keep)

lemma keeps_send [keep]: "keeps R c \<Longrightarrow> keeps R v \<Longrightarrow> keeps R (visitChannelSendExpr t c v)"
  by (rule keepsI)
     (auto simp: visitChannelSendExpr_def and_then_Done
        dest!: keepsD keepsD [OF keeps_send_values] intro: R_trans)

lemma keeps_receive [keep]: "keeps R c \<Longrightarrow> keeps R (visitChannelReceiveExpr t c)"
  unfolding visitChannelReceiveExpr_def [abs_def] by (intro keep)

theorem keeps_plain: "plain_expr e \<Longrightarrow> keeps R (gen_expr e)"
proof (induction e rule: gen_expr.induct)
  case (6 t n tg v)
  then show ?case by (cases tg) (auto intro!: keep)
next
  case (7 t c as)
  then have "list_all (keeps R) (map gen_expr as)"
    by (auto simp: list_all_iff)
  then show ?case using 7 by (auto intro!: keep)
next
  case (11 t es)
  then have "list_all (\<lambda>e. keeps R (fst e) \<and> keeps R (snd e)) (map (\<lambda>(k, v). (gen_expr k, gen_expr v)) es)"
    by (fastforce simp: list_all_iff)
  then show ?case by (auto intro!: keep)
qed (auto intro!: keep simp: list_all_iff)

end

section \<open>Every visit\<close>

locale visit_relation = expr_relation +
  assumes R_add_any: "R s (add_instr i s)"
    and R_code: "R s (s\<lparr>block_code := bc, next_reg := next_reg s + 1\<rparr>)"
    and R_block: "R s (s\<lparr>next_block := next_block s + 1\<rparr>)"
    and R_insert_into: "R s (insert_into b f s)"
    and R_insert: "R s (s\<lparr>insert_block := ib\<rparr>)"
    and R_current: "R s (s\<lparr>currentFunction := cf\<rparr>)"
    and R_named: "R s (s\<lparr>namedValues := nv\<rparr>)"
    and R_erase: "R s (erase_function f s)"
    and R_lambda: "R s (s\<lparr>lambdaCounter := lambdaCounter s + 1\<rparr>)"
    and R_next: "R s (s\<lparr>nextId := nextId s + 1\<rparr>)"
    and R_module: "R s (s\<lparr>currentModuleName := m\<rparr>)"
    and R_scope: "R (gen_enterScope s) t \<Longrightarrow> R s (gen_exitScope t)"
begin

lemma keeps_then_do [keep]: "(\<And>s. R s (u s)) \<Longrightarrow> keeps R k \<Longrightarrow> keeps R (then_do u k)"
  unfolding then_do_def [abs_def] by (rule keeps_then_state [of k u])

lemma R_insert_point: "R s (set_insert_point b s)"
  by (simp add: set_insert_point_def R_insert)

lemma R_continue: "R s (continue_at b f s)"
  unfolding continue_at_def by (rule R_trans [OF R_insert_into R_insert_point])

lemma R_bind: "R s (bind_name n a s)"
  by (simp add: bind_name_def R_named)

lemmas R_steps = R_add_any R_insert_point R_continue R_bind R_insert_into R_current R_erase R_last R_report

lemma keeps_new_block [keep]:
  assumes "\<And>b. keeps R (k b)"
  shows "keeps R (new_block k)"
  unfolding new_block_def [abs_def]
  by (rule keeps_then [of k "\<lambda>s. s\<lparr>next_block := next_block s + 1\<rparr>"]) (rule assms, rule R_block)

lemma keeps_block_in [keep]:
  assumes "\<And>b. keeps R (k b)"
  shows "keeps R (block_in f k)"
proof -
  have "keeps R (\<lambda>s. k b (insert_into b f s))" for b
    by (rule keeps_then_state [of "k b"]) (simp_all add: R_insert_into assms)
  then show ?thesis
    unfolding block_in_def by (rule keeps_new_block)
qed

lemma keeps_parent [keep]: "(\<And>f. keeps R (k f)) \<Longrightarrow> keeps R (parent_function k)"
  by (rule keepsI) (auto simp: parent_function_def dest: keepsD split: option.splits)

lemma keeps_unless_terminated [keep]: "keeps R k \<Longrightarrow> keeps R (unless_terminated k)"
  by (rule keepsI) (auto simp: unless_terminated_def R_refl dest: keepsD split: option.splits if_splits)

lemma keeps_Done_step: "(\<And>s. R s (u s)) \<Longrightarrow> keeps R (\<lambda>s. Done (u s))"
  by (rule keepsI) auto

lemma keeps_entry_alloca [keep]:
  assumes "\<And>a. keeps R (k a)"
  shows "keeps R (createEntryBlockAlloca f n ty k)"
proof (rule keepsI)
  fix s t
  assume run: "createEntryBlockAlloca f n ty k s = Done t"
  have "R s (s\<lparr>block_code := bc, next_reg := Suc (next_reg s)\<rparr>)" for bc
    using R_code [of s bc] by simp
  then show "R s t"
    using run by (auto simp: createEntryBlockAlloca_def Let_def dest!: keepsD [OF assms]
        intro: R_trans [OF R_report(1)] R_trans split: option.splits)
qed

lemma keeps_scoped [keep]: "keeps R f \<Longrightarrow> keeps R (scoped f)"
  by (rule keepsI) (auto simp: scoped_def and_then_Done intro: R_scope dest: keepsD)

lemma keeps_to_bool [keep]: "(\<And>v. keeps R (k v)) \<Longrightarrow> keeps R (to_bool v k)"
  unfolding to_bool_def by (intro keep) simp_all

lemma keeps_jump [keep]: "keeps R (jump b)"
  unfolding jump_def by (rule keeps_unless_terminated, rule keeps_Done_step, rule R_add_any)

lemma keeps_repl [keep]:
  assumes "\<And>v. keeps R (k v)"
  shows "keeps R (direct_callee n c k)"
proof -
  have "keeps R (\<lambda>s. k v (add_instr Ret_Void (set_insert_point b s)))" for v b
    by (rule keeps_then_state [of "k v" "\<lambda>s. add_instr Ret_Void (set_insert_point b s)"])
       (rule assms, rule R_trans [OF R_insert_point R_add_any])
  then show ?thesis
    unfolding direct_callee_def [abs_def]
    by (intro keeps_case keeps_if_state keeps_new_function keeps_block_in assms)
qed

lemma keeps_any_call [keep]: "list_all (keeps R) fs \<Longrightarrow> keeps R (finish_call c fs)"
  unfolding finish_call_def [abs_def] by (cases c) (auto intro!: keeps_case keeps_repl keeps_call_value keeps_Done)

lemma keeps_lambda_params [keep]: "keeps R k \<Longrightarrow> keeps R (lambda_params f ps k)"
proof (induction ps)
  case (Cons p ps)
  obtain i n ty where p: "p = (i, n, ty)" by (cases p)
  have "keeps R (\<lambda>s. lambda_params f ps k (bind_name n a s))" for a
    by (rule keeps_then_state [of "lambda_params f ps k" "bind_name n a"]) (simp_all add: Cons R_bind)
  then have "keeps R (case a of None \<Rightarrow> (\<lambda>s. Crash)
        | Some al \<Rightarrow> build_store (Arg f i ty) (alloca_ptr al) (\<lambda>s. lambda_params f ps k (bind_name n a s)))" for a
    by (intro keeps_option keeps_Crash keeps_build_store)
  then show ?case
    by (simp add: p keeps_entry_alloca)
qed simp

lemma keeps_start [keep]:
  assumes "keeps R k"
  shows "keeps R (start_function f k)"
proof -
  have "keeps R (\<lambda>s. k (set_insert_point b (s\<lparr>currentFunction := Some f\<rparr>)))" for b
    by (rule keeps_then_state [of k "\<lambda>s. set_insert_point b (s\<lparr>currentFunction := Some f\<rparr>)"])
       (rule assms, rule R_trans [OF R_current R_insert_point])
  then show ?thesis
    unfolding start_function_def by (rule keeps_block_in)
qed

lemma keeps_verified [keep]: "(\<And>m. keeps R (b m)) \<Longrightarrow> keeps R k \<Longrightarrow> keeps R (verified f b k)"
  unfolding verified_def [abs_def] by (intro keep)

lemma keeps_erase_lambda [keep]: "keeps R (erase_lambda m f)"
  unfolding erase_lambda_def [abs_def]
  by (rule keeps_then_state [of "failed (Compiler C002_CODEGEN_ERROR) m" "erase_function f"]) (rule keeps_failed, rule R_erase)

lemma keeps_lambda_return [keep]: "keeps R k \<Longrightarrow> keeps R (lambda_return f ret k)"
  by (rule keepsI)
     (auto simp: lambda_return_def dest!: keepsD keepsD [OF keeps_erase_lambda] split: option.splits if_splits
        intro: R_trans [OF R_add_any])

lemma keeps_finish_lambda [keep]: "keeps R (finish_lambda outer f)"
  unfolding finish_lambda_def [abs_def]
  by (rule keeps_then_state [of "finish (Func_Val f)" "\<lambda>s. s\<lparr>namedValues := namedValues outer,
          currentFunction := currentFunction outer,
          insert_block := (case insert_block outer of None \<Rightarrow> insert_block s | Some b \<Rightarrow> Some b)\<rparr>"], rule keeps_finish)
     (rule R_trans [OF R_named R_trans [OF R_current R_insert]])

lemma keeps_lambda [keep]:
  assumes "keeps R body"
  shows "keeps R (visitLambdaExpr ps r body)"
proof -
  have k: "keeps R (new_function n ret tys (\<lambda>f.
        start_function f (lambda_params f qs (\<lambda>s1.
          and_then (body s1) (lambda_return f ret (
            verified f (\<lambda>msg. erase_lambda ''Lambda verification failed'' f) (finish_lambda outer f)))))))"
    for n ret tys qs outer
    by (intro keep assms)
  show ?thesis
    using R_trans [OF R_lambda keepsD [OF k]]
    by (auto simp: visitLambdaExpr_def Let_def intro!: keepsI)
qed

theorem keeps_expr [keep]: "keeps R (gen_expr e)"
proof (induction e rule: gen_expr.induct)
  case (6 t n tg v)
  then show ?case by (cases tg) (auto intro!: keep)
next
  case (7 t c as)
  then show ?case by (auto intro!: keep keeps_any_call simp: list_all_iff)
next
  case (11 t es)
  then have "list_all (\<lambda>e. keeps R (fst e) \<and> keeps R (snd e)) (map (\<lambda>(k, v). (gen_expr k, gen_expr v)) es)"
    by (fastforce simp: list_all_iff)
  then show ?case by (auto intro!: keep)
qed (auto intro!: keep simp: list_all_iff)

lemma keeps_optional: "pred_option (keeps R) f \<Longrightarrow> keeps R (optional_visit f)"
  by (cases f) (auto simp: optional_visit_def keeps_Done)

lemma keeps_store_initial: "keeps R (store_initial a ty v)"
proof -
  have "keeps R (\<lambda>s. build_store v' p Done (set_last (Some v') s))" for v' p
    by (rule keeps_then_state [of "build_store v' p Done" "set_last (Some v')"]) (intro keep, rule R_last)
  then show ?thesis
    unfolding store_initial_def by (cases a) (auto intro!: keep)
qed

lemma keeps_initialize: "pred_option (keeps R) init \<Longrightarrow> keeps R (initialize n ty init a)"
  unfolding initialize_def [abs_def] by (cases init) (auto intro!: keep keeps_store_initial)

lemma keeps_declare:
  assumes "pred_option (keeps R) init"
  shows "keeps R (declare_variable n ty init)"
proof -
  have "keeps R (\<lambda>s1. initialize n ty init a (bind_name n a s1))" for a
    by (rule keeps_then_state [of "initialize n ty init a" "bind_name n a"])
       (rule keeps_initialize [OF assms], rule R_bind)
  then show ?thesis
    unfolding declare_variable_def [abs_def]
    by (rule keeps_read [of "\<lambda>cf. createEntryBlockAlloca cf n ty (\<lambda>a s1. initialize n ty init a (bind_name n a s1))"
          currentFunction, OF keeps_entry_alloca])
qed

lemma keeps_variable_stmt:
  assumes "pred_option (keeps R) init"
  shows "keeps R (visitVariableStmt n ty init)"
proof (cases ty)
  case None
  show ?thesis
  proof (cases init)
    case (Some f)
    have "keeps R (\<lambda>s. and_then (f s) (with_last (\<lambda>v. declare_variable n (val_type v) init)))"
      by (rule keeps_seq) (use assms Some in \<open>auto intro!: keeps_with_last keeps_declare\<close>)
    then show ?thesis
      using None Some by (simp add: visitVariableStmt_def [abs_def])
  qed (use None in \<open>simp add: visitVariableStmt_def [abs_def] keeps_report(1)\<close>)
next
  case (Some t)
  then show ?thesis
    using keeps_declare [OF assms] by (simp add: visitVariableStmt_def [abs_def])
qed

lemma keeps_return_value: "keeps R (return_value ret v)"
proof -
  have "keeps R (\<lambda>s. Done (add_instr (Ret_Instr v') (set_last (Some v') s)))" for v'
    by (rule keeps_Done_step, rule R_trans [OF R_last R_add_any])
  then show ?thesis
    unfolding return_value_def by (intro keep)
qed

lemma keeps_return_from: "pred_option (keeps R) v \<Longrightarrow> keeps R (return_from v ret)"
  unfolding return_from_def [abs_def]
  by (cases v) (auto intro!: keep keeps_return_value keeps_Done_step R_add_any)

lemma keeps_return:
  assumes "pred_option (keeps R) v"
  shows "keeps R (visitReturnStmt v)"
  by (rule keepsI)
     (auto simp: visitReturnStmt_def dest: keepsD [OF keeps_return_from [OF assms]] split: option.splits)

lemma keeps_if_blocks:
  assumes "keeps R th" "pred_option (keeps R) el"
  shows "keeps R (if_blocks cv th el)"
proof -
  have th: "keeps R (\<lambda>s. scoped th (set_insert_point b (add_instr i s)))" for b i
    by (rule keeps_then_state [of "scoped th" "\<lambda>s. set_insert_point b (add_instr i s)"])
       (rule keeps_scoped [OF assms(1)], rule R_trans [OF R_add_any R_insert_point])
  have cont: "keeps R (\<lambda>s. Done (continue_at b f s))" for b f
    by (rule keeps_Done_step, rule R_continue)
  have el: "keeps R (\<lambda>s. scoped e (continue_at b f s))" if "el = Some e" for e b f
    by (rule keeps_then_state [of "scoped e" "continue_at b f"])
       (use assms(2) that in \<open>simp_all add: keeps_scoped R_continue\<close>)
  show ?thesis
    unfolding if_blocks_def
    by (cases el) (auto intro!: keeps_parent keeps_block_in keeps_new_block keeps_seq th el cont keeps_jump)
qed

lemma keeps_if_stmt: "keeps R c \<Longrightarrow> keeps R th \<Longrightarrow> pred_option (keeps R) el \<Longrightarrow> keeps R (visitIfStmt c th el)"
  unfolding visitIfStmt_def [abs_def] by (intro keep keeps_if_blocks)

lemma keeps_while:
  assumes "keeps R c" "keeps R body"
  shows "keeps R (visitWhileStmt c body)"
proof -
  have c: "keeps R (\<lambda>s. c (set_insert_point b (add_instr i s)))" for b i
    by (rule keeps_then_state [of c "\<lambda>s. set_insert_point b (add_instr i s)"])
       (rule assms(1), rule R_trans [OF R_add_any R_insert_point])
  have body: "keeps R (\<lambda>s. scoped body (continue_at b f (add_instr i s)))" for b f i
    by (rule keeps_then_state [of "scoped body" "\<lambda>s. continue_at b f (add_instr i s)"])
       (rule keeps_scoped [OF assms(2)], rule R_trans [OF R_add_any R_continue])
  have cont: "keeps R (\<lambda>s. Done (continue_at b f s))" for b f
    by (rule keeps_Done_step, rule R_continue)
  show ?thesis
    unfolding visitWhileStmt_def
    by (intro keeps_parent keeps_block_in keeps_new_block keeps_seq keeps_with_last keeps_to_bool c body cont keeps_jump)
qed

lemma keeps_for:
  assumes "keeps R it" "keeps R body"
  shows "keeps R (visitForStmt n ty it body)"
proof -
  have erase: "keeps R (\<lambda>s. Done (s\<lparr>namedValues := (namedValues s)(n := None)\<rparr>))"
    by (rule keeps_Done_step, rule R_named)
  have element: "keeps R (for_element vt l i x k)" if "keeps R k" for vt l i x k
    unfolding for_element_def list_field_def using that by (intro keep) simp_all
  have "next": "keeps R (for_next n f b b' len i)" for f b b' len i
    unfolding for_next_def
    by (intro keeps_build_load keeps_build keeps_build_store keeps_then_do erase R_add_any R_continue) simp_all
  show ?thesis
    unfolding visitForStmt_def list_field_def
    by (intro keeps_parent keeps_block_in keeps_new_block keeps_seq keeps_with_last keeps_build_alloca
        keeps_build_load keeps_build keeps_build_store keeps_then_do element "next" assms
        R_add_any R_insert_point R_bind) simp_all
qed

lemma keeps_store_params: "keeps R k \<Longrightarrow> keeps R (store_params f ps k)"
proof (induction ps)
  case (Cons p ps)
  have "keeps R (\<lambda>s. store_params f ps k (bind_name n a s))" for n a
    by (rule keeps_then_state [of "store_params f ps k" "bind_name n a"]) (simp_all add: Cons R_bind)
  then show ?case
    by (cases p) (auto intro!: keeps_build_alloca keeps_build_store)
qed simp

lemma keeps_function:
  assumes "keeps R body"
  shows "keeps R (regular_function n ps r body)"
proof -
  have leave: "keeps R (\<lambda>s. Done (leave_function p s))" "keeps R (\<lambda>s. Done (leave_function p (report ec m s)))" for p ec m
    unfolding leave_function_def
    by (rule keeps_Done_step, rule R_trans [OF R_current R_named],
        rule keeps_Done_step, rule R_trans [OF R_report(1) R_trans [OF R_current R_named]])
  have "end": "keeps R (end_function ret)" for ret
    unfolding end_function_def by (rule keeps_unless_terminated, rule keeps_Done_step, rule R_add_any)
  have k: "keeps R (new_function n ret ts (\<lambda>f. start_function f (store_params f qs (\<lambda>s1.
          and_then (body s1) (\<lambda>s2. and_then (end_function ret s2) (
          verified f (\<lambda>msg s3. Done (leave_function p (report ec (m msg) s3)))
            (\<lambda>s3. Done (leave_function p s3))))))))" for ret ts qs p ec m
    by (intro keeps_new_function keeps_start keeps_store_params keeps_seq assms "end" keeps_verified leave)
  show ?thesis
    using keepsD [OF k] by (auto simp: regular_function_def Let_def intro!: keepsI)
qed

lemma keeps_async: "keeps R (async_function n ps r)"
proof -
  have call: "keeps R (\<lambda>s1. Done (add_instr (Ret_Instr v) s1))" for v
    by (rule keeps_Done_step, rule R_add_any)
  have k: "keeps R (\<lambda>s. k f (add_instr Ret_Void (set_insert_point b s)))" if "\<And>f. keeps R (k f)" for f b and k :: "nat \<Rightarrow> gen \<Rightarrow> gen emitted"
    by (rule keeps_then_state [of "k f" "\<lambda>s. add_instr Ret_Void (set_insert_point b s)"])
       (rule that, rule R_trans [OF R_insert_point R_add_any])
  show ?thesis
    unfolding async_function_def transformAsyncFunction_def
    by (intro keeps_new_function keeps_block_in k keeps_then_do R_insert_point keeps_build_call keeps_case keeps_report call)
qed

lemma keeps_function_stmt: "keeps R body \<Longrightarrow> keeps R (visitFunctionStmt a tps n ps r body)"
  unfolding visitFunctionStmt_def by (intro keeps_if keeps_async keeps_function keeps_Done)

lemma keeps_go:
  assumes "keeps R e"
  shows "keeps R (visitGoStmt t e)"
  using R_trans [OF keepsD [OF assms] R_report(2)] keepsD [OF assms]
  by (intro keepsI) (auto simp: visitGoStmt_def and_then_Done split: option.splits if_splits)

lemma keeps_select_cases: "list_all (keeps R) bs \<Longrightarrow> keeps R (select_cases f bs)"
proof (induction bs)
  case Nil
  show ?case by (rule keepsI) simp
next
  case (Cons b bs)
  have "keeps R (block_in f (\<lambda>caseB. then_do (set_insert_point caseB) (\<lambda>s1.
       and_then (b s1) (block_in f (\<lambda>endB.
         then_do (add_instr (Br endB)) (then_do (set_insert_point endB) (select_cases f bs)))))))"
    using Cons by (intro keeps_block_in keeps_then_do keeps_seq R_add_any R_insert_point) simp_all
  then show ?case by (simp add: keeps_def)
qed

lemma keeps_select:
  assumes "list_all (keeps R) bs"
  shows "keeps R (visitSelectStmt bs)"
proof -
  have k: "keeps R (new_function n i32 [] (\<lambda>f. block_in f (\<lambda>b.
       then_do (set_insert_point b) (
       runtime_function ''runtime_select'' i32 [i32] (\<lambda>rt.
       build_call rt [Const_Int 32 (int (length bs))] (\<lambda>selected.
       then_do (add_instr (Ret_Instr selected)) (
       build_call f [] (\<lambda>caseIndex.
       then_do (add_instr (Switch caseIndex [])) (select_cases f bs)))))))))" for n
    by (intro keeps_new_function keeps_block_in keeps_then_do keeps_runtime_function keeps_build_call
        R_insert_point R_add_any keeps_select_cases assms)
  show ?thesis
    by (rule keepsI) (auto simp: visitSelectStmt_def dest!: keepsD [OF k] intro: R_trans [OF R_next])
qed

lemma keeps_each: "list_all (keeps R) fs \<Longrightarrow> keeps R (visit_each fs)"
proof (induction fs)
  case (Cons f fs)
  then have "keeps R (\<lambda>s. and_then (f s) (visit_each fs))"
    by (intro keeps_seq) simp_all
  then show ?case by (simp add: keeps_def)
qed (simp add: keeps_def R_refl)

theorem keeps_stmt: "keeps R (gen_stmt st)"
proof (induction st)
  case (BlockStmt t ss)
  then show ?case
    by (auto intro!: keeps_scoped keeps_each keeps_optional simp: list_all_iff pred_option_def)
next
  case (ModuleStmt t n b)
  have "keeps R (visit_each (map gen_stmt b))"
    using ModuleStmt by (auto intro!: keeps_each simp: list_all_iff)
  then show ?case
    by (auto intro!: keepsI R_trans [OF R_module R_trans [OF _ R_module]] simp: and_then_Done dest: keepsD)
next
  case (MatchStmt t v cs d)
  then show ?case
    by (cases cs) (force intro!: keeps_seq keeps_expr keeps_Done)+
next
  case (SelectStmt t cs)
  then show ?case
    by (fastforce intro!: keeps_select simp: list_all_iff)
next
  case (TraitStmt t n ms st at)
  show ?case by (rule keepsI) (simp add: and_then_Done)
next
  case (ImplStmt t n ty ms)
  show ?case by (rule keepsI) (simp add: and_then_Done)
qed (auto intro!: keeps_expr keeps_variable_stmt keeps_if_stmt keeps_while keeps_for keeps_function_stmt keeps_return
      keeps_Done keeps_go simp: pred_option_def option.pred_map)

lemma keeps_generate: "generate ast s = Done (True, t) \<Longrightarrow> R s t"
  using keepsD [OF keeps_scoped [OF keeps_stmt]] R_trans [OF _ R_report(1)]
  unfolding generate_def by (cases ast) (auto simp: and_then_Done split: option.splits)

end

end
