(* ===== verification/Tocin_Codegen_Frame.thy ===== *)
theory Tocin_Codegen_Frame
  imports Tocin_Codegen_Relations
begin

text \<open>
  What no visit changes: the scope stack, the table of library functions and the earlier diagnostics. Variables
  are bound in \<open>namedValues\<close> and never in a scope, and this is why assignments cannot compile. The last
  section is about the initializer of a typed declaration.
\<close>

section \<open>The frame of a visit\<close>

definition frame :: "gen \<Rightarrow> gen \<Rightarrow> bool" where
  "frame s t \<longleftrightarrow> scopes t = scopes s \<and> stdLibFunctions t = stdLibFunctions s
     \<and> (\<exists>es. errors (gen_handler t) = errors (gen_handler s) @ es)
     \<and> (fatalErrorFound (gen_handler t) = fatalErrorFound (gen_handler s))
     \<and> next_reg s \<le> next_reg t \<and> next_block s \<le> next_block t
     \<and> length (fun_table s) \<le> length (fun_table t)"

lemma frame_trans: "frame s t \<Longrightarrow> frame t u \<Longrightarrow> frame s u"
  by (auto simp: frame_def)

lemma frame_add_instr: "frame s (add_instr i s)"
  by (simp add: frame_def add_instr_def split: option.split)

lemma frame_report: "frame s (report ec msg s)" "frame s (report_at ec msg tok s)"
  by (simp_all add: frame_def report_def report_at_def record_error_def Let_def)

interpretation fr: visit_relation frame
proof
  show "frame s s" for s by (simp add: frame_def)
  show "frame s t \<Longrightarrow> frame t u \<Longrightarrow> frame s u" for s t u by (rule frame_trans)
  show "\<not> terminator i \<Longrightarrow> frame s (add_instr i s)" for i s by (rule frame_add_instr)
  show "frame (gen_enterScope s) t \<Longrightarrow> frame s (gen_exitScope t)" for s t
    by (auto simp: frame_def gen_enterScope_def gen_exitScope_def)
qed (simp_all add: frame_report frame_add_instr, simp_all add: frame_def set_last_def insert_into_def erase_function_def)

text \<open>A statement leaves the scope stack and the library table as they were, only adds diagnostics, none of
  them fatal, and only adds functions, blocks and registers to the module.\<close>

theorem visit_frame:
  assumes "gen_stmt st s = Done t"
  shows "scopes t = scopes s \<and> stdLibFunctions t = stdLibFunctions s
    \<and> (\<exists>es. errors (gen_handler t) = errors (gen_handler s) @ es)
    \<and> fatalErrorFound (gen_handler t) = fatalErrorFound (gen_handler s)
    \<and> length (fun_table s) \<le> length (fun_table t) \<and> next_block s \<le> next_block t \<and> next_reg s \<le> next_reg t"
  using keepsD [OF fr.keeps_stmt assms] by (simp_all add: frame_def)

text \<open>A new generator, and one inside the first block of a function \<open>main\<close>: what the witnesses start from.\<close>

definition fresh_gen :: gen where
  "fresh_gen = new_IRGenerator new_ErrorHandler (\<lambda>_. True) (\<lambda>_ _ _. None) (\<lambda>_ _. None)"

text \<open>What evaluates a visit on a concrete state.\<close>

lemmas emit_defs = build_def build_call_def at_block_def build_alloca_def build_load_def build_store_def build_string_def
  build_cast_def const_int_def new_block_def block_in_def insert_into_def set_insert_point_def parent_function_def
  unless_terminated_def has_terminator_def new_function_def add_instr_def set_last_def finish_def with_last_def
  visitFunctionStmt_def regular_function_def start_function_def end_function_def leave_function_def verified_def
  params_of_def param_types_def visitReturnStmt_def return_from_def return_value_def numeric_cast_def
  visitIfStmt_def if_blocks_def to_bool_def scoped_def jump_def continue_at_def optional_visit_def
  visitLiteralExpr_def gen_enterScope_def gen_exitScope_def getLLVMType_def basic_llvm_def
  fresh_gen_def new_IRGenerator_def declareStdLibFunctions_def declare_lib_def getFunction_def

definition in_main :: gen where
  "in_main = (case new_function ''main'' i64 [] (\<lambda>f. start_function f Done) fresh_gen of Done s \<Rightarrow> s | _ \<Rightarrow> fresh_gen)"

section \<open>Assignments\<close>

text \<open>\<open>Scope::define\<close> is never called: the scopes of a generator are empty maps.\<close>

definition unbound :: "gen \<Rightarrow> bool" where
  "unbound s \<longleftrightarrow> scopes s \<noteq> [] \<and> (\<forall>sc \<in> set (scopes s). sc = (\<lambda>_. None))"

lemma unbound_lookup: "\<forall>sc \<in> set scs. sc = (\<lambda>_. None) \<Longrightarrow> scope_lookup scs n = None"
  by (induction scs) simp_all

lemma unbound_new: "unbound (new_IRGenerator h stod vf vm)"
  by (simp add: unbound_def new_IRGenerator_def declareStdLibFunctions_def declare_lib_def)

lemma unbound_enter: "unbound s \<Longrightarrow> unbound (gen_enterScope s)"
  by (simp add: unbound_def gen_enterScope_def)

lemma unbound_frame: "frame s t \<Longrightarrow> unbound s \<Longrightarrow> unbound t"
  by (simp add: frame_def unbound_def)

lemma unbound_assignment: "unbound s \<Longrightarrow>
    handleVariableAssignment n v s = failed (Compiler C002_CODEGEN_ERROR) (''Undefined variable: '' @ n) s"
  by (auto simp: handleVariableAssignment_def unbound_def unbound_lookup)

text \<open>In every state a generator reaches, an assignment to a variable emits the code of its
  right-hand side and then fails: there is no store and no value, and the variable is reported as undefined.\<close>

theorem assignment_fails:
  assumes "unbound s"
  shows "gen_expr (AssignExpr t n (VariableExpr u m) v) s = and_then (gen_expr v s) (\<lambda>s1.
    Done (if lastValue s1 = None then s1
          else set_last None (report (Compiler C002_CODEGEN_ERROR) (''Undefined variable: '' @ m) s1)))"
proof (cases "gen_expr v s")
  case (Done s1)
  have "unbound s1"
    using unbound_frame [OF keepsD [OF fr.keeps_expr Done] assms] .
  then show ?thesis
    by (simp add: Done assign_target_def unbound_assignment failed_def split: option.split)
qed simp_all

theorem assignment_never_compiles:
  assumes "unbound s" "gen_expr (AssignExpr t n (VariableExpr u m) v) s = Done w"
  shows "lastValue w = None"
proof -
  obtain s1 where "w = (if lastValue s1 = None then s1
      else set_last None (report (Compiler C002_CODEGEN_ERROR) (''Undefined variable: '' @ m) s1))"
    using assms(2) unfolding assignment_fails [OF assms(1)] and_then_Done by blast
  then show ?thesis by (simp add: set_last_def)
qed

section \<open>Initializers\<close>

lemma alloca_lastValue: "lastValue (bind_name n a s) = lastValue s"
  by (simp add: bind_name_def)

text \<open>The initializer of a declaration with a type is compiled only when the previous statement left
  no value. After one that did, the declaration stores that value, whatever its initializer is.\<close>

theorem typed_let_ignores_initializer:
  assumes "lastValue s \<noteq> None"
  shows "gen_stmt (VariableStmt t n (Some ty) (Some e) c) s = gen_stmt (VariableStmt t n (Some ty) (Some e') c) s"
  using assms
  by (auto simp: visitVariableStmt_def declare_variable_def createEntryBlockAlloca_def Let_def initialize_def
      alloca_lastValue report_def split: option.split)

text \<open>And the value stored is that of the statement before it.\<close>

theorem typed_let_stores_last:
  assumes "lastValue s = Some v" "val_type v = getLLVMType (Some ty)" "currentFunction s = Some f"
    "insert_block s = Some b" "gen_stmt (VariableStmt t n (Some ty) (Some e) c) s = Done u"
  shows "\<exists>a. lookupVariable n u = Some (a, getLLVMType (Some ty))
    \<and> last (block_code u b) = (next_reg u - 1, Store v (Reg a Ptr_Ty))"
  using assms
  by (auto simp: visitVariableStmt_def declare_variable_def createEntryBlockAlloca_def Let_def initialize_def
      store_initial_def numeric_cast_def build_store_def at_block_def bind_name_def add_instr_def set_last_def
      lookupVariable_def alloca_ptr_def)

section \<open>Witnesses\<close>

lemma visit_frame_witness:
  "\<exists>t. gen_stmt (ReturnStmt default_token None) in_main = Done t \<and> scopes t = scopes in_main
    \<and> length (errors (gen_handler t)) = 1"
proof -
  obtain t where t: "gen_stmt (ReturnStmt default_token None) in_main = Done t" "length (errors (gen_handler t)) = 1"
    by (simp add: in_main_def emit_defs report_def record_error_def Let_def new_ErrorHandler_def)
  then show ?thesis using visit_frame [OF t(1)] by simp
qed

lemma assignment_fails_witness:
  "gen_expr (AssignExpr default_token ''x'' (VariableExpr default_token ''x'') (LiteralExpr default_token ''true'' BOOLEAN))
     fresh_gen
   = Done (set_last None (report (Compiler C002_CODEGEN_ERROR) ''Undefined variable: x''
       (set_last (Some (Const_Int 1 1)) fresh_gen)))"
proof -
  have "unbound fresh_gen"
    by (simp add: fresh_gen_def unbound_new)
  from assignment_fails [OF this, of default_token "''x''" default_token "''x''" "LiteralExpr default_token ''true'' BOOLEAN"]
  show ?thesis
    unfolding gen_expr.simps(3) by (simp add: visitLiteralExpr_def set_last_def)
qed

lemma typed_let_ignores_initializer_witness:
  "gen_stmt (VariableStmt t ''x'' (Some (BasicType t INT_KIND)) (Some (LiteralExpr t ''1'' INTEGER)) False)
     (set_last (Some (Const_Int 64 7)) in_main)
   = gen_stmt (VariableStmt t ''x'' (Some (BasicType t INT_KIND)) (Some (LiteralExpr t ''2'' INTEGER)) False)
     (set_last (Some (Const_Int 64 7)) in_main)"
  by (rule typed_let_ignores_initializer) (simp add: set_last_def)

lemma typed_let_stores_last_witness:
  "\<exists>u a. gen_stmt (VariableStmt default_token ''x'' (Some (BasicType default_token BOOL_KIND))
       (Some (LiteralExpr default_token ''false'' BOOLEAN)) False) (set_last (Some (Const_Int 1 1)) in_main) = Done u
     \<and> lookupVariable ''x'' u = Some (a, i1) \<and> snd (last (block_code u 0)) = Store (Const_Int 1 1) (Reg a Ptr_Ty)"
proof -
  let ?st = "VariableStmt default_token ''x'' (Some (BasicType default_token BOOL_KIND))
       (Some (LiteralExpr default_token ''false'' BOOLEAN)) False"
  let ?s = "set_last (Some (Const_Int 1 1)) in_main"
  have ty: "getLLVMType (Some (BasicType default_token BOOL_KIND)) = i1"
    by (simp add: getLLVMType_def basic_llvm_def)
  have s: "lastValue ?s = Some (Const_Int 1 1)" "currentFunction ?s = Some 6" "insert_block ?s = Some 0"
    by (simp_all add: in_main_def emit_defs)
  obtain u where u: "gen_stmt ?st ?s = Done u"
    by (simp add: visitVariableStmt_def declare_variable_def createEntryBlockAlloca_def Let_def initialize_def
        store_initial_def bind_name_def in_main_def emit_defs)
  show ?thesis
    using typed_let_stores_last [OF s(1) _ s(2,3) u] u by (auto simp: ty)
qed

end
