(* ===== verification/Tocin_Codegen_Exec.thy ===== *)
theory Tocin_Codegen_Exec
  imports Tocin_Codegen_Frame "HOL-Library.Word" "HOL-Library.Signed_Division"
begin

text \<open>
  The code of an arithmetic or boolean expression computes its value. The instructions are those of LLVM, whose
  arithmetic is a parameter with the laws of its language reference; integers are 64-bit words.
\<close>

section \<open>Running straight-line code\<close>

datatype rval = W64 "64 word" | Truth bool

primrec type_of :: "rval \<Rightarrow> ltype" where
  "type_of (W64 w) = i64"
| "type_of (Truth b) = i1"

record llvm_ops =
  run_binary :: "arith \<Rightarrow> rval \<Rightarrow> rval \<Rightarrow> rval option"
  run_unary :: "unary_arith \<Rightarrow> rval \<Rightarrow> rval option"
  run_compare :: "comparison_pred \<Rightarrow> rval \<Rightarrow> rval \<Rightarrow> bool option"

text \<open>Signed division truncates, and is undefined by zero and on overflow.\<close>

definition division_defined :: "64 word \<Rightarrow> 64 word \<Rightarrow> bool" where
  "division_defined x y \<longleftrightarrow> y \<noteq> 0 \<and> \<not> (sint x = - (2 ^ 63) \<and> sint y = -1)"

text \<open>The laws of the language reference for the instructions that expressions use.\<close>

definition langref :: "llvm_ops \<Rightarrow> bool" where
  "langref ops \<longleftrightarrow> (\<forall>x y.
       run_binary ops Add (W64 x) (W64 y) = Some (W64 (x + y))
     \<and> run_binary ops Sub (W64 x) (W64 y) = Some (W64 (x - y))
     \<and> run_binary ops Mul (W64 x) (W64 y) = Some (W64 (x * y))
     \<and> (division_defined x y \<longrightarrow> run_binary ops SDiv (W64 x) (W64 y) = Some (W64 (word_of_int (sint x sdiv sint y)))
                              \<and> run_binary ops SRem (W64 x) (W64 y) = Some (W64 (word_of_int (sint x smod sint y))))
     \<and> run_unary ops Neg (W64 x) = Some (W64 (- x))
     \<and> run_compare ops ICmpEQ (W64 x) (W64 y) = Some (x = y)
     \<and> run_compare ops ICmpNE (W64 x) (W64 y) = Some (x \<noteq> y)
     \<and> run_compare ops ICmpSLT (W64 x) (W64 y) = Some (sint x < sint y)
     \<and> run_compare ops ICmpSLE (W64 x) (W64 y) = Some (sint x \<le> sint y)
     \<and> run_compare ops ICmpSGT (W64 x) (W64 y) = Some (sint y < sint x)
     \<and> run_compare ops ICmpSGE (W64 x) (W64 y) = Some (sint y \<le> sint x))
   \<and> (\<forall>a b.
       run_binary ops And_Op (Truth a) (Truth b) = Some (Truth (a \<and> b))
     \<and> run_binary ops Or_Op (Truth a) (Truth b) = Some (Truth (a \<or> b))
     \<and> run_unary ops Not_Op (Truth a) = Some (Truth (\<not> a))
     \<and> run_compare ops ICmpEQ (Truth a) (Truth b) = Some (a = b)
     \<and> run_compare ops ICmpNE (Truth a) (Truth b) = Some (a \<noteq> b))"

definition operand :: "(nat \<Rightarrow> rval option) \<Rightarrow> lval \<Rightarrow> rval option" where
  "operand regs v =
     (case v of
        Const_Int w i \<Rightarrow> (if w = 64 then Some (W64 (word_of_int i)) else if w = 1 then Some (Truth (odd i)) else None)
      | Reg n ty \<Rightarrow> regs n
      | _ \<Rightarrow> None)"

text \<open>An address is the number of its \<open>alloca\<close>.\<close>

definition instr_value :: "llvm_ops \<Rightarrow> (nat \<Rightarrow> rval option) \<Rightarrow> instr \<Rightarrow> (nat \<Rightarrow> rval option) \<Rightarrow> rval option" where
  "instr_value ops mem i regs =
     (case i of
        Load ty p \<Rightarrow> (case p of Reg a ty' \<Rightarrow> mem a | _ \<Rightarrow> None)
      | Binary b x y \<Rightarrow> Option.bind (operand regs x) (\<lambda>u. Option.bind (operand regs y) (run_binary ops b u))
      | Unary q x \<Rightarrow> Option.bind (operand regs x) (run_unary ops q)
      | Compare p x y \<Rightarrow>
          Option.bind (operand regs x) (\<lambda>u. Option.bind (operand regs y) (\<lambda>v. map_option Truth (run_compare ops p u v)))
      | _ \<Rightarrow> None)"

primrec exec :: "llvm_ops \<Rightarrow> (nat \<Rightarrow> rval option) \<Rightarrow> instrs \<Rightarrow> (nat \<Rightarrow> rval option) \<Rightarrow> (nat \<Rightarrow> rval option) option" where
  "exec ops mem [] regs = Some regs"
| "exec ops mem (x # xs) regs =
     (case instr_value ops mem (snd x) regs of
        None \<Rightarrow> None
      | Some v \<Rightarrow> exec ops mem xs (regs(fst x := Some v)))"

lemma exec_append:
  "exec ops mem (xs @ ys) regs = Option.bind (exec ops mem xs regs) (exec ops mem ys)"
  by (induction xs arbitrary: regs) (auto split: option.split)

section \<open>The value of an expression\<close>

primrec truthy :: "rval \<Rightarrow> bool" where
  "truthy (W64 w) = (w \<noteq> 0)"
| "truthy (Truth b) = b"

definition word_value :: "TokenType \<Rightarrow> 64 word \<Rightarrow> 64 word \<Rightarrow> rval option" where
  "word_value op x y =
     (if op = Op PLUS then Some (W64 (x + y))
      else if op = Op MINUS then Some (W64 (x - y))
      else if op = Op STAR then Some (W64 (x * y))
      else if op = Op SLASH then (if division_defined x y then Some (W64 (word_of_int (sint x sdiv sint y))) else None)
      else if op = Op PERCENT then (if division_defined x y then Some (W64 (word_of_int (sint x smod sint y))) else None)
      else if op = Op EQUAL_EQUAL then Some (Truth (x = y))
      else if op = Op BANG_EQUAL then Some (Truth (x \<noteq> y))
      else if op = Op LESS then Some (Truth (sint x < sint y))
      else if op = Op LESS_EQUAL then Some (Truth (sint x \<le> sint y))
      else if op = Op GREATER then Some (Truth (sint y < sint x))
      else if op = Op GREATER_EQUAL then Some (Truth (sint y \<le> sint x))
      else None)"

definition binary_value :: "TokenType \<Rightarrow> rval \<Rightarrow> rval \<Rightarrow> rval option" where
  "binary_value op u v =
     (if op = Logic AND then Some (Truth (truthy u \<and> truthy v))
      else if op = Logic OR then Some (Truth (truthy u \<or> truthy v))
      else case (u, v) of
        (W64 x, W64 y) \<Rightarrow> word_value op x y
      | (Truth a, Truth b) \<Rightarrow>
          if op = Op EQUAL_EQUAL then Some (Truth (a = b)) else if op = Op BANG_EQUAL then Some (Truth (a \<noteq> b)) else None
      | _ \<Rightarrow> None)"

definition unary_value :: "TokenType \<Rightarrow> rval \<Rightarrow> rval option" where
  "unary_value op v =
     (if op = Op BANG then Some (Truth (\<not> truthy v))
      else if op = Op MINUS then (case v of W64 x \<Rightarrow> Some (W64 (- x)) | _ \<Rightarrow> None)
      else None)"

definition literal_value :: "string \<Rightarrow> LiteralType \<Rightarrow> rval option" where
  "literal_value x k =
     (case k of
        INTEGER \<Rightarrow>
          if x \<noteq> [] \<and> list_all isdigit x \<and> digits_value x < 2 ^ 63 then Some (W64 (of_nat (digits_value x))) else None
      | BOOLEAN \<Rightarrow> Some (Truth (x = ''true''))
      | _ \<Rightarrow> None)"

fun eval_expr :: "(string \<Rightarrow> rval option) \<Rightarrow> expr \<Rightarrow> rval option" where
  "eval_expr env (LiteralExpr t x k) = literal_value x k"
| "eval_expr env (VariableExpr t n) = env n"
| "eval_expr env (GroupingExpr t e) = eval_expr env e"
| "eval_expr env (UnaryExpr t op e) = Option.bind (eval_expr env e) (unary_value (ttype op))"
| "eval_expr env (BinaryExpr t l op r) =
     Option.bind (eval_expr env l) (\<lambda>u. Option.bind (eval_expr env r) (binary_value (ttype op) u))"
| "eval_expr env e = None"

section \<open>What a piece of code computes\<close>

definition below :: "nat \<Rightarrow> lval \<Rightarrow> bool" where
  "below k v = (case v of Reg n ty \<Rightarrow> n < k | _ \<Rightarrow> True)"

definition holds :: "(nat \<Rightarrow> rval option) \<Rightarrow> nat \<Rightarrow> (lval \<times> rval) list \<Rightarrow> bool" where
  "holds regs k vs \<longleftrightarrow> list_all (\<lambda>(r, v). operand regs r = Some v \<and> below k r) vs"

definition emits :: "llvm_ops \<Rightarrow> (nat \<Rightarrow> rval option) \<Rightarrow> nat \<Rightarrow> gen \<Rightarrow> gen \<Rightarrow> (lval \<times> rval) list \<Rightarrow> (lval \<times> rval) list \<Rightarrow> bool" where
  "emits ops mem b s t vs us \<longleftrightarrow> insert_block s = Some b \<and> insert_block t = Some b
     \<and> namedValues t = namedValues s \<and> scopes t = scopes s \<and> next_reg s \<le> next_reg t
     \<and> (\<exists>xs. block_code t = (block_code s)(b := block_code s b @ xs)
          \<and> (\<forall>regs. holds regs (next_reg s) vs \<longrightarrow>
               (\<exists>regs'. exec ops mem xs regs = Some regs' \<and> holds regs' (next_reg t) us
                  \<and> (\<forall>n < next_reg s. regs' n = regs n))))"

lemma holds_simps [simp]:
  "holds regs k []" "holds regs k ((r, v) # vs) \<longleftrightarrow> operand regs r = Some v \<and> below k r \<and> holds regs k vs"
  "holds regs k (vs @ us) \<longleftrightarrow> holds regs k vs \<and> holds regs k us"
  by (auto simp: holds_def)

lemma below_mono: "below k r \<Longrightarrow> k \<le> l \<Longrightarrow> below l r"
  by (auto simp: below_def split: lval.splits)

lemma operand_same: "below k r \<Longrightarrow> \<forall>n < k. regs' n = regs n \<Longrightarrow> operand regs' r = operand regs r"
  by (cases r) (simp_all add: operand_def below_def)

lemma holds_same: "holds regs k vs \<Longrightarrow> \<forall>n < k. regs' n = regs n \<Longrightarrow> k \<le> l \<Longrightarrow> holds regs' l vs"
proof (induction vs)
  case (Cons v vs)
  then show ?case
    using operand_same [of k "fst v" regs' regs] below_mono [of k "fst v" l] by (cases v) simp
qed simp

lemma emits_trans:
  assumes st: "emits ops mem b s t vs us" and tu: "emits ops mem b t u us ws"
  shows "emits ops mem b s u vs ws"
proof -
  obtain xs where xs: "block_code t = (block_code s)(b := block_code s b @ xs)"
      "\<And>regs. holds regs (next_reg s) vs \<Longrightarrow> \<exists>regs'. exec ops mem xs regs = Some regs' \<and> holds regs' (next_reg t) us
        \<and> (\<forall>n < next_reg s. regs' n = regs n)"
    using st by (auto simp: emits_def)
  obtain ys where ys: "block_code u = (block_code t)(b := block_code t b @ ys)"
      "\<And>regs. holds regs (next_reg t) us \<Longrightarrow> \<exists>regs'. exec ops mem ys regs = Some regs' \<and> holds regs' (next_reg u) ws
        \<and> (\<forall>n < next_reg t. regs' n = regs n)"
    using tu by (auto simp: emits_def)
  have le: "next_reg s \<le> next_reg t"
    using st by (simp add: emits_def)
  have "\<exists>regs'. exec ops mem (xs @ ys) regs = Some regs' \<and> holds regs' (next_reg u) ws \<and> (\<forall>n < next_reg s. regs' n = regs n)"
    if "holds regs (next_reg s) vs" for regs
    using xs(2) [OF that] ys(2) le by (fastforce simp: exec_append)
  then show ?thesis
    using st tu xs(1) ys(1) unfolding emits_def by (auto intro!: exI [of _ "xs @ ys"])
qed

lemma emits_frame:
  assumes "emits ops mem b s t vs us"
  shows "emits ops mem b s t (ws @ vs) (ws @ us)"
proof -
  obtain xs where xs: "block_code t = (block_code s)(b := block_code s b @ xs)"
      "\<And>regs. holds regs (next_reg s) vs \<Longrightarrow> \<exists>regs'. exec ops mem xs regs = Some regs' \<and> holds regs' (next_reg t) us
        \<and> (\<forall>n < next_reg s. regs' n = regs n)"
    using assms by (auto simp: emits_def)
  have le: "next_reg s \<le> next_reg t"
    using assms by (simp add: emits_def)
  have "\<exists>regs'. exec ops mem xs regs = Some regs' \<and> holds regs' (next_reg t) (ws @ us)
      \<and> (\<forall>n < next_reg s. regs' n = regs n)" if "holds regs (next_reg s) (ws @ vs)" for regs
    using xs(2) [of regs] that holds_same [OF _ _ le, of regs ws] by auto
  then show ?thesis
    using assms xs(1) unfolding emits_def by blast
qed

lemma emits_last [simp]: "insert_block s = Some b \<Longrightarrow> emits ops mem b s (set_last v s) vs vs"
  by (auto simp: emits_def set_last_def intro!: exI [of _ "[]"])

lemma emits_instr:
  assumes "insert_block s = Some b"
    and run: "\<And>regs. holds regs (next_reg s) vs \<Longrightarrow> instr_value ops mem i regs = Some x"
  shows "emits ops mem b s (add_instr i s) vs ((Reg (next_reg s) ty, x) # vs)"
proof -
  have "holds (regs(next_reg s := Some x)) (Suc (next_reg s)) vs" if "holds regs (next_reg s) vs" for regs
    by (rule holds_same [OF that]) simp_all
  then show ?thesis
    using assms unfolding emits_def add_instr_def
    by (auto intro!: exI [of _ "[(next_reg s, i)]"] simp: operand_def below_def)
qed

lemma emits_weaken: "emits ops mem b s t vs us \<Longrightarrow> set ws \<subseteq> set us \<Longrightarrow> emits ops mem b s t vs ws"
  unfolding emits_def holds_def list_all_iff by (elim conjE exE) (intro conjI exI; blast)

text \<open>A visit that ends with a value of that type in a register or a constant.\<close>

definition delivers ::
  "llvm_ops \<Rightarrow> (nat \<Rightarrow> rval option) \<Rightarrow> nat \<Rightarrow> (gen \<Rightarrow> gen emitted) \<Rightarrow> gen \<Rightarrow> (lval \<times> rval) list \<Rightarrow> rval \<Rightarrow> bool" where
  "delivers ops mem b f s vs v \<longleftrightarrow>
     (\<exists>t r. f s = Done t \<and> lastValue t = Some r \<and> val_type r = type_of v \<and> emits ops mem b s t vs [(r, v)])"

lemma delivers_build:
  assumes "insert_block s = Some b" "type_of x = ty"
    and "\<And>regs. holds regs (next_reg s) vs \<Longrightarrow> instr_value ops mem i regs = Some x"
  shows "delivers ops mem b (build i ty finish) s vs x"
proof -
  have "emits ops mem b s (add_instr i s) vs ((Reg (next_reg s) ty, x) # vs)"
    by (rule emits_instr) (use assms in auto)
  then have "emits ops mem b s (set_last (Some (Reg (next_reg s) ty)) (add_instr i s)) vs [(Reg (next_reg s) ty, x)]"
    by (rule emits_trans [OF emits_weaken emits_last]) (simp_all add: assms(1) add_instr_def)
  then show ?thesis
    using assms(2) unfolding delivers_def build_def finish_def
    by (intro exI conjI) (assumption | simp add: set_last_def)+
qed

lemma delivers_then:
  assumes "insert_block s = Some b"
    and "\<And>regs. holds regs (next_reg s) vs \<Longrightarrow> instr_value ops mem i regs = Some x"
    and "\<And>t r. val_type r = ty \<Longrightarrow> insert_block t = Some b \<Longrightarrow> delivers ops mem b (k r) t ((r, x) # vs) v"
  shows "delivers ops mem b (build i ty k) s vs v"
proof -
  have step: "emits ops mem b s (add_instr i s) vs ((Reg (next_reg s) ty, x) # vs)"
    by (rule emits_instr) (use assms in auto)
  have "delivers ops mem b (k (Reg (next_reg s) ty)) (add_instr i s) ((Reg (next_reg s) ty, x) # vs) v"
    by (rule assms(3)) (simp_all add: assms(1) add_instr_def)
  then show ?thesis
    unfolding delivers_def build_def using emits_trans [OF step] by blast
qed

lemma delivers_finish:
  assumes "insert_block s = Some b" "val_type r = type_of v" "(r, v) \<in> set vs"
  shows "delivers ops mem b (finish r) s vs v"
proof -
  have "emits ops mem b s (set_last (Some r) s) vs [(r, v)]"
    using assms by (intro emits_weaken [OF emits_last]) simp_all
  then show ?thesis
    using assms(2) unfolding delivers_def finish_def by (intro exI conjI) (simp_all add: set_last_def)
qed

lemma is_int_type: "is_int (type_of v)"
  by (cases v) (simp_all add: is_int_def)

section \<open>Operators\<close>

lemma delivers_non_zero:
  assumes "langref ops" "insert_block s = Some b" "val_type r = type_of v" "(r, v) \<in> set vs"
    and "\<And>t r'. val_type r' = i1 \<Longrightarrow> insert_block t = Some b \<Longrightarrow> delivers ops mem b (k r') t ((r', Truth (truthy v)) # vs) w"
  shows "delivers ops mem b (non_zero r k) s vs w"
proof -
  have r: "operand regs r = Some v" if "holds regs n vs" for regs n
    using that assms(4) by (auto simp: holds_def list_all_iff)
  have laws: "run_compare ops ICmpNE (W64 x) (W64 y) = Some (x \<noteq> y)"
    "run_compare ops ICmpNE (Truth a) (Truth c) = Some (a \<noteq> c)" for x y a c
    using assms(1) by (simp_all add: langref_def)
  show ?thesis
  proof (cases v)
    case (W64 x)
    then have "non_zero r k s = build (Compare ICmpNE r (Const_Int 64 0)) i1 k s"
      using assms(3) by (simp add: non_zero_def const_int_def)
    moreover have "delivers ops mem b (build (Compare ICmpNE r (Const_Int 64 0)) i1 k) s vs w"
      by (rule delivers_then [where x = "Truth (truthy v)"])
         (use assms(2,5) r W64 laws in \<open>auto simp: instr_value_def operand_def [of _ "Const_Int _ _"]\<close>)
    ultimately show ?thesis by (simp add: delivers_def)
  next
    case (Truth a)
    then have "non_zero r k s = build (Compare ICmpNE r (Const_Int 1 0)) i1 k s"
      using assms(3) by (simp add: non_zero_def const_int_def)
    moreover have "delivers ops mem b (build (Compare ICmpNE r (Const_Int 1 0)) i1 k) s vs w"
      by (rule delivers_then [where x = "Truth (truthy v)"])
         (use assms(2,5) r Truth laws in \<open>auto simp: instr_value_def operand_def [of _ "Const_Int _ _"]\<close>)
    ultimately show ?thesis by (simp add: delivers_def)
  qed
qed

lemma delivers_binary:
  assumes "langref ops" "insert_block s = Some b" "val_type l = type_of u" "val_type r = type_of v"
    and "binary_value op u v = Some x" and mem: "(l, u) \<in> set vs" "(r, v) \<in> set vs"
  shows "delivers ops mem b (binary_op op l r) s vs x"
proof -
  have args: "operand regs l = Some u \<and> operand regs r = Some v" if "holds regs n vs" for regs n
    using that mem by (auto simp: holds_def list_all_iff)
  have logic: "delivers ops mem b (logic_op iop l r) s vs (Truth c)"
    if law: "\<And>a a'. run_binary ops iop (Truth a) (Truth a') = Some (Truth (g a a'))" and c: "c = g (truthy u) (truthy v)"
    for iop g c
  proof (cases "\<exists>a a'. u = Truth a \<and> v = Truth a'")
    case True
    then have "logic_op iop l r = build (Binary iop l r) i1 finish"
      using assms(3,4) by (auto simp: logic_op_def)
    moreover have "delivers ops mem b (build (Binary iop l r) i1 finish) s vs (Truth c)"
      by (rule delivers_build) (use True args law c assms(2) in \<open>auto simp: instr_value_def\<close>)
    ultimately show ?thesis by simp
  next
    case False
    then have "\<not> (val_type l = i1 \<and> val_type r = i1)"
      using assms(3,4) by (cases u; cases v) auto
    then have "logic_op iop l r = non_zero l (\<lambda>lb. non_zero r (\<lambda>rb. build (Binary iop lb rb) i1 finish))"
      unfolding logic_op_def by (rule if_not_P)
    moreover have "delivers ops mem b (non_zero l (\<lambda>lb. non_zero r (\<lambda>rb. build (Binary iop lb rb) i1 finish))) s vs (Truth c)"
      by (intro delivers_non_zero [OF assms(1) _ assms(3)] delivers_non_zero [OF assms(1) _ assms(4)] delivers_build)
         (use mem law c assms(2) in \<open>auto simp: instr_value_def\<close>)
    ultimately show ?thesis by simp
  qed
  have word: "delivers ops mem b (binary_op op l r) s vs x"
    if uv: "u = W64 p" "v = W64 q" and x: "word_value op p q = Some x" for p q
    using x assms(1,3,4) args uv assms(2)
    by (auto simp: word_value_def binary_op_def plus_op_def arith_op_def int_op_def equality_op_def order_op_def is_int_def
        langref_def instr_value_def intro!: delivers_build split: if_splits)
  have truth: "delivers ops mem b (binary_op op l r) s vs x"
    if "u = Truth p" "v = Truth q" "op = Op EQUAL_EQUAL \<and> x = Truth (p = q) \<or> op = Op BANG_EQUAL \<and> x = Truth (p \<noteq> q)" for p q
    using that assms(1,3,4) args assms(2)
    by (auto simp: binary_op_def equality_op_def is_int_def langref_def instr_value_def intro!: delivers_build)
  have laws: "run_binary ops And_Op (Truth a) (Truth a') = Some (Truth (a \<and> a'))"
    "run_binary ops Or_Op (Truth a) (Truth a') = Some (Truth (a \<or> a'))" for a a'
    using assms(1) by (simp_all add: langref_def)
  consider "op = Logic AND" "x = Truth (truthy u \<and> truthy v)" | "op = Logic OR" "x = Truth (truthy u \<or> truthy v)"
    | p q where "u = W64 p" "v = W64 q" "word_value op p q = Some x"
    | p q where "u = Truth p" "v = Truth q" "op = Op EQUAL_EQUAL \<and> x = Truth (p = q) \<or> op = Op BANG_EQUAL \<and> x = Truth (p \<noteq> q)"
    using assms(5) by (auto simp: binary_value_def split: if_splits rval.splits)
  then show ?thesis
  proof cases
    case 1
    then show ?thesis using logic [OF laws(1)] by (simp add: binary_op_def)
  next
    case 2
    then show ?thesis using logic [OF laws(2)] by (simp add: binary_op_def)
  qed (rule word, assumption+, rule truth, assumption+)
qed

lemma delivers_unary:
  assumes "langref ops" "insert_block s = Some b" "val_type r = type_of v" "unary_value op v = Some x" "(r, v) \<in> set vs"
  shows "delivers ops mem b (unary_op op e r) s vs x"
proof -
  have args: "operand regs r = Some v" if "holds regs n vs" for regs n
    using that assms(5) by (auto simp: holds_def list_all_iff)
  have law: "run_unary ops Not_Op (Truth a) = Some (Truth (\<not> a))" "run_unary ops Neg (W64 p) = Some (W64 (- p))" for a p
    using assms(1) by (simp_all add: langref_def)
  have yes: "delivers ops mem b (build (Unary Not_Op r') i1 finish) t vs' (Truth (\<not> truthy v))"
    if "insert_block t = Some b" "(r', Truth (truthy v)) \<in> set vs'" for r' t vs'
    by (rule delivers_build) (use that law in \<open>auto simp: instr_value_def holds_def list_all_iff\<close>)
  consider p where "op = Op MINUS" "v = W64 p" "x = W64 (- p)" | "op = Op BANG" "x = Truth (\<not> truthy v)"
    using assms(4) by (auto simp: unary_value_def split: if_splits rval.splits)
  then show ?thesis
  proof cases
    case 1
    then show ?thesis
      using assms(2,3) args law
      by (auto simp: unary_op_def is_int_def instr_value_def intro!: delivers_build)
  next
    case 2
    show ?thesis
    proof (cases v)
      case (Truth a)
      then show ?thesis
        using 2 yes [of s r vs] assms(2,3,5) by (simp add: unary_op_def)
    next
      case (W64 p)
      then have "unary_op op e r = non_zero r (\<lambda>c. build (Unary Not_Op c) i1 finish)"
        using 2 assms(3) by (simp add: unary_op_def)
      then show ?thesis
        using 2 by (auto simp del: One_nat_def intro!: delivers_non_zero [OF assms(1,2,3,5)] yes)
    qed
  qed
qed

section \<open>Expressions\<close>

text \<open>Every variable of the environment is bound to an \<open>alloca\<close> of the type of its value, which the memory holds.\<close>

definition agrees :: "(string \<Rightarrow> rval option) \<Rightarrow> (nat \<Rightarrow> rval option) \<Rightarrow> gen \<Rightarrow> bool" where
  "agrees env mem s \<longleftrightarrow>
     (\<forall>n v. env n = Some v \<longrightarrow> (\<exists>a. lookupVariable n s = Some (a, type_of v) \<and> mem a = Some v))"

lemma agrees_emits: "emits ops mem b s t vs us \<Longrightarrow> agrees env mem s \<Longrightarrow> agrees env mem t"
proof -
  assume "emits ops mem b s t vs us" "agrees env mem s"
  moreover from this(1) have "lookupVariable n t = lookupVariable n s" for n
    by (cases "namedValues s n") (simp_all add: emits_def lookupVariable_def)
  ultimately show "agrees env mem t" by (simp add: agrees_def)
qed

lemma stoll_digits:
  assumes "x \<noteq> []" "list_all isdigit x" "digits_value x < 2 ^ 63"
  shows "stoll x = Done (int (digits_value x))"
proof -
  obtain c cs where x: "x = c # cs" "isdigit c"
    using assms(1,2) by (cases x) auto
  then have sign: "\<not> isspace c" "c \<noteq> CHR ''-''" "c \<noteq> CHR ''+''"
    by (auto simp: isspace_def isdigit_def code_def)
  have digits: "takeWhile isdigit cs = cs"
    using assms(2) x(1) takeWhile_eq_all_conv [of isdigit cs] by (auto simp: list_all_iff)
  show ?thesis
    using x sign assms(3) by (simp add: stoll_def Let_def digits)
qed

lemma delivers_literal:
  "insert_block s = Some b \<Longrightarrow> literal_value x k = Some v \<Longrightarrow> delivers ops mem b (visitLiteralExpr x k) s [] v"
proof -
  assume s: "insert_block s = Some b" and v: "literal_value x k = Some v"
  obtain r where r: "visitLiteralExpr x k s = Done (set_last (Some r) s)" "val_type r = type_of v"
      "operand (\<lambda>_. None) r = Some v" "\<And>regs. operand regs r = operand (\<lambda>_. None) r" "\<And>n. below n r"
    using v by (auto simp: literal_value_def visitLiteralExpr_def stoll_digits operand_def below_def
        split: LiteralType.splits if_splits)
  have "emits ops mem b s (set_last (Some r) s) [] [(r, v)]"
    using s r by (auto simp: emits_def set_last_def intro!: exI [of _ "[]"])
  then show "delivers ops mem b (visitLiteralExpr x k) s [] v"
    using r unfolding delivers_def by (intro exI conjI) (simp_all add: set_last_def)
qed

lemma delivers_variable:
  assumes "insert_block s = Some b" "agrees env mem s" "env n = Some v"
  shows "delivers ops mem b (visitVariableExpr n) s [] v"
proof -
  obtain a where a: "lookupVariable n s = Some (a, type_of v)" "mem a = Some v"
    using assms(2,3) by (auto simp: agrees_def)
  have "delivers ops mem b (build (Load (type_of v) (Reg a Ptr_Ty)) (type_of v) finish) s [] v"
    by (rule delivers_build) (use assms(1) a(2) in \<open>simp_all add: instr_value_def\<close>)
  then show ?thesis
    using a(1) assms(1) by (simp add: delivers_def visitVariableExpr_def build_load_def at_block_def alloca_ptr_def)
qed

lemma delivers_with_last:
  assumes "delivers ops mem b f s [] u" "agrees env mem s"
    and k: "\<And>r t. lastValue t = Some r \<Longrightarrow> val_type r = type_of u \<Longrightarrow> emits ops mem b s t [] [(r, u)] \<Longrightarrow>
       insert_block t = Some b \<Longrightarrow> agrees env mem t \<Longrightarrow> delivers ops mem b (k r) t [(r, u)] v"
  shows "delivers ops mem b (\<lambda>s. and_then (f s) (with_last k)) s [] v"
proof -
  obtain t r where t: "f s = Done t" "lastValue t = Some r" "val_type r = type_of u" "emits ops mem b s t [] [(r, u)]"
    using assms(1) by (auto simp: delivers_def)
  have "insert_block t = Some b" "agrees env mem t"
    using t(4) agrees_emits [OF t(4) assms(2)] by (simp_all add: emits_def)
  from k [OF t(2,3,4) this] show ?thesis
    using t emits_trans [OF t(4)] by (auto simp: delivers_def with_last_def)
qed

lemma delivers_frame: "delivers ops mem b f s [] v \<Longrightarrow>
    \<exists>t r. f s = Done t \<and> lastValue t = Some r \<and> val_type r = type_of v \<and> emits ops mem b s t ws (ws @ [(r, v)])"
  unfolding delivers_def using emits_frame [of ops mem b s _ "[]" _ ws] by fastforce

lemma delivers_expr:
  assumes "langref ops"
  shows "eval_expr env e = Some v \<Longrightarrow> insert_block s = Some b \<Longrightarrow> agrees env mem s \<Longrightarrow>
    delivers ops mem b (gen_expr e) s [] v"
proof (induction e arbitrary: s v rule: gen_expr.induct)
  case (1 t l op r)
  obtain u w where uw: "eval_expr env l = Some u" "eval_expr env r = Some w" "binary_value (ttype op) u w = Some v"
    using 1(3) by (auto simp: bind_eq_Some_conv)
  have "delivers ops mem b (\<lambda>s. and_then (gen_expr l s) (with_last (\<lambda>lv s1.
        and_then (gen_expr r s1) (with_last (\<lambda>rv. binary_op (ttype op) lv rv))))) s [] v"
  proof (rule delivers_with_last [OF 1(1) [OF uw(1) 1(4,5)] 1(5)])
    fix lv t1
    assume lv: "val_type lv = type_of u" "insert_block t1 = Some b" "agrees env mem t1"
    obtain t2 rv where t2: "gen_expr r t1 = Done t2" "lastValue t2 = Some rv" "val_type rv = type_of w"
        "emits ops mem b t1 t2 [(lv, u)] ([(lv, u)] @ [(rv, w)])"
      using delivers_frame [OF 1(2) [OF uw(2) lv(2,3)]] by blast
    have "delivers ops mem b (binary_op (ttype op) lv rv) t2 ([(lv, u)] @ [(rv, w)]) v"
      by (rule delivers_binary [OF assms _ lv(1) t2(3) uw(3)]) (use t2(4) in \<open>simp_all add: emits_def\<close>)
    then show "delivers ops mem b (\<lambda>s1. and_then (gen_expr r s1) (with_last (\<lambda>rv. binary_op (ttype op) lv rv))) t1 [(lv, u)] v"
      using t2 emits_trans [OF t2(4)] by (auto simp: delivers_def with_last_def)
  qed
  then show ?case by simp
next
  case (4 t op e)
  obtain u where u: "eval_expr env e = Some u" "unary_value (ttype op) u = Some v"
    using 4(2) by (auto simp: bind_eq_Some_conv)
  have "delivers ops mem b (\<lambda>s. and_then (gen_expr e s) (with_last (unary_op (ttype op) e))) s [] v"
    by (rule delivers_with_last [OF 4(1) [OF u(1) 4(3,4)] 4(4)])
       (rule delivers_unary [OF assms _ _ u(2)], simp_all)
  then show ?case by simp
qed (auto intro: delivers_literal delivers_variable)

text \<open>C3: wherever an expression over 64-bit integers and booleans has a value, the generator emits code for it at
  the insertion point that runs to its end and leaves that value, of the right type, as the last value: constants
  are in range, division is by a non-zero divisor without overflow, and comparisons are signed.\<close>

theorem compiled_expression:
  assumes "langref ops" "eval_expr env e = Some v" "insert_block s = Some b" "agrees env mem s"
  shows "\<exists>t r xs regs. gen_expr e s = Done t \<and> lastValue t = Some r \<and> val_type r = type_of v
    \<and> block_code t = (block_code s)(b := block_code s b @ xs)
    \<and> exec ops mem xs (\<lambda>_. None) = Some regs \<and> operand regs r = Some v"
  using delivers_expr [OF assms] unfolding delivers_def emits_def by force

definition reference_ops :: llvm_ops where
  "reference_ops = \<lparr>
     run_binary = (\<lambda>i u v. case (u, v) of
        (W64 x, W64 y) \<Rightarrow>
          if i = Add then Some (W64 (x + y)) else if i = Sub then Some (W64 (x - y))
          else if i = Mul then Some (W64 (x * y))
          else if i = SDiv \<and> division_defined x y then Some (W64 (word_of_int (sint x sdiv sint y)))
          else if i = SRem \<and> division_defined x y then Some (W64 (word_of_int (sint x smod sint y))) else None
      | (Truth a, Truth c) \<Rightarrow>
          if i = And_Op then Some (Truth (a \<and> c)) else if i = Or_Op then Some (Truth (a \<or> c)) else None
      | _ \<Rightarrow> None),
     run_unary = (\<lambda>i u. case u of
        W64 x \<Rightarrow> if i = Neg then Some (W64 (- x)) else None
      | Truth a \<Rightarrow> if i = Not_Op then Some (Truth (\<not> a)) else None),
     run_compare = (\<lambda>i u v. case (u, v) of
        (W64 x, W64 y) \<Rightarrow>
          if i = ICmpEQ then Some (x = y) else if i = ICmpNE then Some (x \<noteq> y)
          else if i = ICmpSLT then Some (sint x < sint y) else if i = ICmpSLE then Some (sint x \<le> sint y)
          else if i = ICmpSGT then Some (sint y < sint x) else if i = ICmpSGE then Some (sint y \<le> sint x) else None
      | (Truth a, Truth c) \<Rightarrow>
          if i = ICmpEQ then Some (a = c) else if i = ICmpNE then Some (a \<noteq> c) else None
      | _ \<Rightarrow> None)\<rparr>"

lemma compiled_expression_witness:
  defines "e \<equiv> BinaryExpr default_token
    (BinaryExpr default_token (LiteralExpr default_token ''6'' INTEGER) (default_token\<lparr>ttype := Op STAR\<rparr>)
      (LiteralExpr default_token ''7'' INTEGER))
    (default_token\<lparr>ttype := Op GREATER\<rparr>) (LiteralExpr default_token ''41'' INTEGER)"
  shows "langref reference_ops \<and> eval_expr (\<lambda>_. None) e = Some (Truth True)
    \<and> (\<exists>u r xs regs. gen_expr e in_main = Done u \<and> lastValue u = Some r \<and> val_type r = i1
        \<and> block_code u = (block_code in_main)(0 := block_code in_main 0 @ xs)
        \<and> exec reference_ops (\<lambda>_. None) xs (\<lambda>_. None) = Some regs \<and> operand regs r = Some (Truth True))"
proof -
  have ref: "langref reference_ops"
    by (simp add: langref_def reference_ops_def)
  have v: "eval_expr (\<lambda>_. None) e = Some (Truth True)"
    by (simp add: e_def literal_value_def isdigit_def code_def digits_value_def binary_value_def word_value_def)
  have "insert_block in_main = Some 0" "agrees (\<lambda>_. None) (\<lambda>_. None) in_main"
    by (simp_all add: in_main_def emit_defs agrees_def)
  from compiled_expression [OF ref v this] ref v show ?thesis by simp
qed

section \<open>Integer literals\<close>

lemma stoll_big:
  assumes "x \<noteq> []" "list_all isdigit x" "2 ^ 63 \<le> digits_value x"
  shows "stoll x = Throws ''std::out_of_range''"
proof -
  obtain c cs where x: "x = c # cs" "isdigit c"
    using assms(1,2) by (cases x) auto
  then have sign: "\<not> isspace c" "c \<noteq> CHR ''-''" "c \<noteq> CHR ''+''"
    by (auto simp: isspace_def isdigit_def code_def)
  have digits: "takeWhile isdigit cs = cs"
    using assms(2) x(1) takeWhile_eq_all_conv [of isdigit cs] by (auto simp: list_all_iff)
  show ?thesis
    using x sign assms(3) by (simp add: stoll_def Let_def digits)
qed

text \<open>The digits that a number prints as compile to the 64-bit constant of that number, and to an exception from
  \<open>2 ^ 63\<close> on. A hexadecimal literal compiles to 0, because it is read up to its \<open>x\<close> in base ten.\<close>

theorem integer_literal:
  "visitLiteralExpr (show_nat n) INTEGER s =
     (if n < 2 ^ 63 then Done (set_last (Some (Const_Int 64 (int n))) s) else Throws ''std::out_of_range'')
   \<and> visitLiteralExpr (''0x'' @ cs) INTEGER s = Done (set_last (Some (Const_Int 64 0)) s)"
proof -
  have "stoll (''0x'' @ cs) = Done 0"
    by (simp add: stoll_def isspace_def isdigit_def code_def digits_value_def)
  moreover have "show_nat n \<noteq> []"
    by (subst show_nat.simps) simp
  ultimately show ?thesis
    using stoll_digits [of "show_nat n"] stoll_big [of "show_nat n"] show_nat_digits [of n]
    by (auto simp: visitLiteralExpr_def digits_value_show)
qed

end
