(* ===== verification/Tocin_Codegen_Blocks.thy ===== *)
theory Tocin_Codegen_Blocks
  imports Tocin_Codegen_Frame
begin

text \<open>
  The basic blocks of a generated function: in LLVM a block ends with its only terminator. This
  is proved for the bodies in which \<open>return\<close> comes last in a block and which hold no lambda, function, select,
  go, trait or impl; the header says what the generator does with the others.
\<close>

section \<open>Blocks\<close>

definition straight :: "instrs \<Rightarrow> bool" where
  "straight xs \<longleftrightarrow> list_all (\<lambda>x. \<not> terminator (snd x)) xs"

definition closed_block :: "instrs \<Rightarrow> bool" where
  "closed_block xs \<longleftrightarrow> xs \<noteq> [] \<and> terminator (snd (last xs)) \<and> straight (butlast xs)"

lemma straight_simps [simp]:
  "straight []" "straight (x # xs) \<longleftrightarrow> \<not> terminator (snd x) \<and> straight xs"
  "straight (xs @ ys) \<longleftrightarrow> straight xs \<and> straight ys"
  by (simp_all add: straight_def)

lemma closed_snoc: "closed_block (xs @ [x]) \<longleftrightarrow> straight xs \<and> terminator (snd x)"
  by (auto simp: closed_block_def)

lemma closed_Cons: "\<not> terminator (snd x) \<Longrightarrow> closed_block xs \<Longrightarrow> closed_block (x # xs)"
  by (auto simp: closed_block_def)

lemma straight_open: "straight xs \<Longrightarrow> \<not> has_terminator xs"
  by (auto simp: has_terminator_def straight_def list_all_iff)

lemma closed_has: "closed_block xs \<Longrightarrow> has_terminator xs"
  by (simp add: closed_block_def has_terminator_def)

section \<open>Ordinary expressions stay in their block\<close>

definition in_line :: "gen \<Rightarrow> gen \<Rightarrow> bool" where
  "in_line s t \<longleftrightarrow> insert_block t = insert_block s \<and> currentFunction t = currentFunction s
     \<and> block_owner t = block_owner s \<and> next_block t = next_block s
     \<and> (\<exists>fs. fun_table t = fun_table s @ fs)
     \<and> (\<forall>b. insert_block s \<noteq> Some b \<longrightarrow> block_code t b = block_code s b)
     \<and> (\<forall>b. insert_block s = Some b \<longrightarrow> (\<exists>xs. straight xs \<and> block_code t b = block_code s b @ xs))"

lemma in_line_refl: "in_line s s"
  by (auto simp: in_line_def intro: exI [of _ "[]"])

lemma in_line_trans:
  assumes "in_line s t" "in_line t u"
  shows "in_line s u"
proof -
  have "\<exists>xs. straight xs \<and> block_code u b = block_code s b @ xs" if b: "insert_block s = Some b" for b
  proof -
    obtain xs where "straight xs" "block_code t b = block_code s b @ xs"
      using assms(1) b by (auto simp: in_line_def)
    moreover obtain ys where "straight ys" "block_code u b = block_code t b @ ys"
      using assms b by (auto simp: in_line_def)
    ultimately show ?thesis by (intro exI [of _ "xs @ ys"]) simp
  qed
  then show ?thesis
    using assms by (auto simp: in_line_def)
qed

lemma in_line_add: "\<not> terminator i \<Longrightarrow> in_line s (add_instr i s)"
  by (auto simp: in_line_def add_instr_def split: option.split)

interpretation il: expr_relation in_line
proof
  show "in_line s t \<Longrightarrow> in_line t u \<Longrightarrow> in_line s u" for s t u by (rule in_line_trans)
  show "\<not> terminator i \<Longrightarrow> in_line s (add_instr i s)" for i s by (rule in_line_add)
qed (auto simp: in_line_def set_last_def report_def report_at_def intro: exI [of _ "[]"])

text \<open>The code of an ordinary expression is appended to the current block and holds no jump; no block is created.
  So \<open>and\<close> and \<open>or\<close> always evaluate both operands.\<close>

theorem expression_in_line:
  assumes "plain_expr e" "gen_expr e s = Done t" "insert_block s = Some b"
  shows "insert_block t = Some b \<and> next_block t = next_block s \<and> block_owner t = block_owner s
    \<and> (\<exists>xs. straight xs \<and> block_code t = (block_code s)(b := block_code s b @ xs))"
proof -
  have t: "in_line s t"
    by (rule keepsD [OF il.keeps_plain [OF assms(1)] assms(2)])
  then obtain xs where xs: "straight xs" "block_code t b = block_code s b @ xs"
    using assms(3) by (auto simp: in_line_def)
  have "block_code t = (block_code s)(b := block_code s b @ xs)"
  proof
    fix c
    show "block_code t c = ((block_code s)(b := block_code s b @ xs)) c"
      using t xs(2) assms(3) by (cases "c = b") (auto simp: in_line_def)
  qed
  then show ?thesis
    using t xs(1) assms(3) by (auto simp: in_line_def)
qed

lemma expression_in_line_witness:
  defines "e \<equiv> BinaryExpr default_token (LiteralExpr default_token ''false'' BOOLEAN)
    (default_token\<lparr>ttype := Logic AND\<rparr>) (LiteralExpr default_token ''true'' BOOLEAN)"
  shows "\<exists>t xs. gen_expr e in_main = Done t \<and> next_block t = next_block in_main \<and> straight xs
    \<and> block_code t = (block_code in_main)(0 := block_code in_main 0 @ xs) \<and> length (block_code t 0) = 1"
proof -
  have s: "insert_block in_main = Some 0" "plain_expr e"
    by (simp_all add: in_main_def emit_defs e_def)
  obtain t where t: "gen_expr e in_main = Done t" "length (block_code t 0) = 1"
    by (simp add: e_def in_main_def emit_defs binary_op_def logic_op_def)
  show ?thesis
    using expression_in_line [OF s(2) t(1) s(1)] t by blast
qed

section \<open>The invariant\<close>

text \<open>Function \<open>f\<close> is compiled at block \<open>b\<close>; the blocks of \<open>P\<close> are created and not yet filled.\<close>

definition shape :: "nat \<Rightarrow> nat set \<Rightarrow> nat \<Rightarrow> gen \<Rightarrow> bool" where
  "shape f P b s \<longleftrightarrow> insert_block s = Some b \<and> currentFunction s = Some f \<and> f < length (fun_table s)
     \<and> block_owner s b = Some f \<and> b < next_block s \<and> b \<notin> P \<and> (\<forall>c \<in> P. c < next_block s)
     \<and> (\<forall>c. c \<in> P \<or> next_block s \<le> c \<longrightarrow> straight (block_code s c))
     \<and> (\<forall>c \<in> set (fn_blocks (fun_table s ! f)). c < next_block s
          \<and> (c = b \<or> c \<in> P \<or> closed_block (block_code s c)))"

definition opened :: "nat \<Rightarrow> nat set \<Rightarrow> gen \<Rightarrow> bool" where
  "opened f P s \<longleftrightarrow> (\<exists>b. shape f P b s \<and> straight (block_code s b))"

definition at_end :: "nat \<Rightarrow> nat set \<Rightarrow> gen \<Rightarrow> bool" where
  "at_end f P s \<longleftrightarrow> (\<exists>b. shape f P b s \<and> (straight (block_code s b) \<or> closed_block (block_code s b)))"

lemma opened_at_end: "opened f P s \<Longrightarrow> at_end f P s"
  by (auto simp: opened_def at_end_def)

lemma opened_in_line: "in_line s t \<Longrightarrow> opened f P s \<Longrightarrow> opened f P t"
  unfolding opened_def
proof (elim exE conjE)
  fix b
  assume t: "in_line s t" and b: "shape f P b s" "straight (block_code s b)"
  have same: "block_code t c = block_code s c" if "c \<noteq> b" for c
    using that t b(1) by (auto simp: in_line_def shape_def)
  have "straight (block_code t b)"
    using t b by (auto simp: in_line_def shape_def)
  moreover have "fn_blocks (fun_table t ! f) = fn_blocks (fun_table s ! f)" "f < length (fun_table t)"
    using t b(1) by (auto simp: in_line_def shape_def nth_append)
  moreover have "insert_block t = insert_block s" "currentFunction t = currentFunction s"
    "block_owner t = block_owner s" "next_block t = next_block s"
    using t by (simp_all add: in_line_def)
  moreover have "straight (block_code t c)" if "c \<in> P \<or> next_block s \<le> c" for c
    using that b(1) same [of c] by (cases "c = b") (auto simp: shape_def)
  moreover have "closed_block (block_code t c)" if "closed_block (block_code s c)" "c \<noteq> b" for c
    using that same by simp
  ultimately show "\<exists>b. shape f P b t \<and> straight (block_code t b)"
    using b(1) by (intro exI [of _ b]) (auto simp: shape_def)
qed

text \<open>The steps that do not touch the blocks.\<close>

definition same_blocks :: "gen \<Rightarrow> gen \<Rightarrow> bool" where
  "same_blocks s t \<longleftrightarrow> insert_block t = insert_block s \<and> currentFunction t = currentFunction s
     \<and> block_owner t = block_owner s \<and> next_block t = next_block s \<and> fun_table t = fun_table s
     \<and> block_code t = block_code s"

lemma same_blocks_simps [simp]:
  "same_blocks s (set_last v s)" "same_blocks s (report ec m s)" "same_blocks s (report_at ec m tok s)"
  "same_blocks s (bind_name n a s)" "same_blocks s (gen_enterScope s)" "same_blocks s (gen_exitScope s)" "same_blocks s s"
  "same_blocks s (s\<lparr>currentModuleName := x\<rparr>)" "same_blocks s (s\<lparr>namedValues := nv\<rparr>)"
  by (simp_all add: same_blocks_def set_last_def report_def report_at_def bind_name_def gen_enterScope_def gen_exitScope_def)

lemma opened_same: "same_blocks s t \<Longrightarrow> opened f P s \<Longrightarrow> opened f P t"
  by (simp add: same_blocks_def opened_def shape_def)

lemma at_end_same: "same_blocks s t \<Longrightarrow> at_end f P s \<Longrightarrow> at_end f P t"
  by (simp add: same_blocks_def at_end_def shape_def)

lemma opened_alloca:
  assumes "opened f P s"
  shows "opened f P (s\<lparr>block_code := (block_code s)(h := (r, Alloca ty n) # block_code s h), next_reg := k\<rparr>)"
proof -
  obtain b where "shape f P b s" "straight (block_code s b)"
    using assms by (auto simp: opened_def)
  then show ?thesis
    unfolding opened_def by (intro exI [of _ b]) (auto simp: shape_def intro: closed_Cons)
qed

lemma opened_add: "\<not> terminator i \<Longrightarrow> opened f P s \<Longrightarrow> opened f P (add_instr i s)"
  by (rule opened_in_line [OF in_line_add])

text \<open>The block at the insertion point has its terminator.\<close>

definition finished :: "nat \<Rightarrow> nat set \<Rightarrow> gen \<Rightarrow> bool" where
  "finished f P s \<longleftrightarrow> (\<exists>b. shape f P b s \<and> closed_block (block_code s b))"

lemma at_end_cases: "at_end f P s \<longleftrightarrow> opened f P s \<or> finished f P s"
  by (auto simp: at_end_def opened_def finished_def)

lemma terminate: "terminator i \<Longrightarrow> opened f P s \<Longrightarrow> finished f P (add_instr i s)"
  unfolding opened_def finished_def
  by (elim exE conjE, rule_tac x = b in exI) (auto simp: shape_def add_instr_def closed_snoc)

lemma opened_new_block:
  assumes "opened f P s"
  shows "opened f (insert (next_block s) P) (s\<lparr>next_block := next_block s + 1\<rparr>)"
proof -
  obtain b where "shape f P b s" "straight (block_code s b)"
    using assms by (auto simp: opened_def)
  then show ?thesis
    unfolding opened_def by (intro exI [of _ b]) (fastforce simp: shape_def)
qed

lemma shape_insert_into:
  assumes "shape f P b s" "c \<in> P \<or> c = b"
  shows "shape f P b (insert_into c f s)"
  using assms by (auto simp: shape_def insert_into_def)

lemma insert_into_code: "block_code (insert_into b f s) = block_code s"
  by (simp add: insert_into_def)

lemma opened_block_in:
  assumes "opened f P s" "b = next_block s" "s' = insert_into b f (s\<lparr>next_block := next_block s + 1\<rparr>)"
  shows "opened f (insert b P) s'" "block_owner s' b = Some f"
proof -
  obtain d where "shape f (insert b P) d (s\<lparr>next_block := next_block s + 1\<rparr>)" "straight (block_code s d)"
    using opened_new_block [OF assms(1)] assms(2) by (auto simp: opened_def)
  then show "opened f (insert b P) s'"
    unfolding opened_def assms(3) by (intro exI [of _ d]) (simp add: shape_insert_into insert_into_code)
qed (simp add: assms insert_into_def)

lemma finished_switch:
  assumes "finished f P s" "c \<in> P" "block_owner s c = Some f"
  shows "opened f (P - {c}) (set_insert_point c s)"
proof -
  obtain b where b: "shape f P b s" "closed_block (block_code s b)"
    using assms(1) by (auto simp: finished_def)
  then show ?thesis
    using assms(2,3) unfolding opened_def
    by (intro exI [of _ c]) (auto simp: shape_def set_insert_point_def)
qed

lemma finished_continue:
  assumes "finished f P s" "c \<in> P"
  shows "opened f (P - {c}) (continue_at c f s)"
proof -
  have "finished f P (insert_into c f s)"
    using assms by (auto simp: finished_def insert_into_code intro: shape_insert_into)
  then show ?thesis
    unfolding continue_at_def by (rule finished_switch) (simp_all add: assms insert_into_def)
qed

lemma finished_jump: "at_end f P s \<Longrightarrow> jump c s = Done t \<Longrightarrow> finished f P t"
  unfolding at_end_cases
proof (elim disjE)
  assume "opened f P s" "jump c s = Done t"
  then show "finished f P t"
    by (auto simp: jump_def unless_terminated_def opened_def shape_def straight_open
        intro!: terminate dest: straight_open split: option.splits if_splits)
next
  assume "finished f P s" "jump c s = Done t"
  then show "finished f P t"
    by (auto simp: jump_def unless_terminated_def finished_def shape_def closed_has split: option.splits if_splits)
qed

section \<open>Visits\<close>

definition ends :: "nat \<Rightarrow> (gen \<Rightarrow> gen emitted) \<Rightarrow> bool" where
  "ends f g \<longleftrightarrow> (\<forall>P s t. opened f P s \<longrightarrow> g s = Done t \<longrightarrow> at_end f P t)"

definition runs :: "nat \<Rightarrow> (gen \<Rightarrow> gen emitted) \<Rightarrow> bool" where
  "runs f g \<longleftrightarrow> (\<forall>P s t. opened f P s \<longrightarrow> g s = Done t \<longrightarrow> opened f P t)"

lemma runsI: "(\<And>P s t. opened f P s \<Longrightarrow> g s = Done t \<Longrightarrow> opened f P t) \<Longrightarrow> runs f g"
  by (simp add: runs_def)

lemma endsI: "(\<And>P s t. opened f P s \<Longrightarrow> g s = Done t \<Longrightarrow> at_end f P t) \<Longrightarrow> ends f g"
  by (simp add: ends_def)

lemma runsD: "runs f g \<Longrightarrow> opened f P s \<Longrightarrow> g s = Done t \<Longrightarrow> opened f P t"
  by (simp add: runs_def)

lemma endsD: "ends f g \<Longrightarrow> opened f P s \<Longrightarrow> g s = Done t \<Longrightarrow> at_end f P t"
  by (simp add: ends_def)

lemma runs_ends: "runs f g \<Longrightarrow> ends f g"
  by (blast intro: endsI opened_at_end dest: runsD)

lemma runs_line: "keeps in_line g \<Longrightarrow> runs f g"
  by (blast intro: runsI opened_in_line dest: keepsD)

lemma runs_seq: "runs f g \<Longrightarrow> runs f k \<Longrightarrow> runs f (\<lambda>s. and_then (g s) k)"
  by (rule runsI) (auto simp: and_then_Done dest: runsD)

lemma ends_seq: "runs f g \<Longrightarrow> ends f k \<Longrightarrow> ends f (\<lambda>s. and_then (g s) k)"
  by (rule endsI) (auto simp: and_then_Done dest: runsD endsD)

lemma runs_with_last: "(\<And>v. runs f (k v)) \<Longrightarrow> runs f (with_last k)"
  by (rule runsI) (auto simp: with_last_def dest: runsD split: option.splits)

lemma ends_with_last: "(\<And>v. ends f (k v)) \<Longrightarrow> ends f (with_last k)"
  by (rule endsI) (auto simp: with_last_def opened_at_end dest: endsD split: option.splits)

lemma runs_scoped: "runs f g \<Longrightarrow> runs f (scoped g)"
  by (rule runsI) (auto simp: scoped_def and_then_Done intro!: opened_same [OF same_blocks_simps(6)]
      dest: opened_same [OF same_blocks_simps(5)] runsD)

lemma ends_scoped: "ends f g \<Longrightarrow> ends f (scoped g)"
  by (rule endsI) (auto simp: scoped_def and_then_Done intro!: at_end_same [OF same_blocks_simps(6)]
      dest: opened_same [OF same_blocks_simps(5)] endsD)

lemma runs_then: "(\<And>P s. opened f P s \<Longrightarrow> opened f P (u s)) \<Longrightarrow> runs f k \<Longrightarrow> runs f (\<lambda>s. k (u s))"
  by (rule runsI) (blast dest: runsD)

lemma build_outcome: "build i ty k s = Done t \<Longrightarrow> \<not> terminator i \<Longrightarrow> \<exists>v s1. in_line s s1 \<and> k v s1 = Done t"
  unfolding build_def using in_line_add by blast

lemma to_bool_outcome:
  "to_bool v k s = Done t \<Longrightarrow> (\<exists>cv s1. in_line s s1 \<and> k cv s1 = Done t) \<or> in_line s t"
  unfolding to_bool_def non_zero_def const_int_def
  using in_line_refl [of s] keepsD [OF il.keeps_report(1)]
  by (auto split: if_splits ltype.splits dest!: build_outcome)

lemma numeric_cast_outcome:
  "numeric_cast v ty m k s = Done t \<Longrightarrow> (\<exists>v' s1. in_line s s1 \<and> k v' s1 = Done t) \<or> m s = Done t"
  unfolding numeric_cast_def build_cast_def
  using in_line_refl [of s] by (auto split: if_splits dest!: build_outcome)

lemma runs_to_bool: "(\<And>v. runs f (k v)) \<Longrightarrow> runs f (to_bool v k)"
  by (rule runsI) (blast dest: to_bool_outcome runsD intro: opened_in_line)

section \<open>Branches and loops\<close>

lemma opened_parent: "opened f P s \<Longrightarrow> parent_function k s = k f s"
  by (auto simp: parent_function_def opened_def shape_def)

lemma opened_fresh: "opened f P s \<Longrightarrow> next_block s \<notin> P"
  by (auto simp: opened_def shape_def)

lemma opened_drop:
  assumes "opened f P s" "c \<notin> set (fn_blocks (fun_table s ! f))"
  shows "opened f (P - {c}) s"
proof -
  obtain b where "shape f P b s" "straight (block_code s b)"
    using assms(1) by (auto simp: opened_def)
  then show ?thesis
    using assms(2) unfolding opened_def by (intro exI [of _ b]) (auto simp: shape_def)
qed

lemma in_line_blocks: "in_line s t \<Longrightarrow> opened f P s \<Longrightarrow> fn_blocks (fun_table t ! f) = fn_blocks (fun_table s ! f)"
  by (auto simp: in_line_def opened_def shape_def nth_append)

lemma switch_to:
  assumes "opened f P s" "terminator i" "c \<in> P" "block_owner s c = Some f"
  shows "opened f (P - {c}) (set_insert_point c (add_instr i s))"
  by (rule finished_switch [OF terminate])
     (use assms in \<open>simp_all add: add_instr_def split: option.split\<close>)

lemma jump_continue:
  "at_end f P s \<Longrightarrow> c \<in> P \<Longrightarrow> jump d s = Done t \<Longrightarrow> opened f (P - {c}) (continue_at c f t)"
  by (rule finished_continue [OF finished_jump])

lemma while_body:
  assumes body: "ends f body" and s: "opened f (insert e (insert l P)) s"
    and run: "and_then (scoped body (continue_at l f (add_instr (Cond_Br cv l e) s)))
      (\<lambda>s1. and_then (jump b s1) (\<lambda>s2. Done (continue_at e f s2))) = Done u"
    and fresh: "l \<notin> P" "e \<notin> insert l P"
  shows "opened f P u"
proof -
  obtain s1 s2 where r: "scoped body (continue_at l f (add_instr (Cond_Br cv l e) s)) = Done s1"
      "jump b s1 = Done s2" "u = continue_at e f s2"
    using run by (auto simp: and_then_Done)
  have "opened f (insert e (insert l P) - {l}) (continue_at l f (add_instr (Cond_Br cv l e) s))"
    using s by (intro finished_continue terminate) simp_all
  then have "at_end f (insert e (insert l P) - {l}) s1"
    using endsD [OF ends_scoped [OF body] _ r(1)] by blast
  then have "opened f (insert e (insert l P) - {l} - {e}) u"
    using fresh r by (auto intro: jump_continue)
  moreover have "insert e (insert l P) - {l} - {e} = P"
    using fresh by auto
  ultimately show ?thesis by simp
qed

text \<open>The states before a loop and before a branch: \<open>b\<close> is a block of the function, the others are not yet.\<close>

lemma opened_three:
  assumes s: "opened f P s"
    and "b = next_block s" "s1 = insert_into b f (s\<lparr>next_block := next_block s + 1\<rparr>)"
    and "l = next_block s1" "s2 = s1\<lparr>next_block := next_block s1 + 1\<rparr>"
    and "e = next_block s2" "s3 = s2\<lparr>next_block := next_block s2 + 1\<rparr>"
  shows "opened f (insert l (insert b P)) s2" "opened f (insert e (insert l (insert b P))) s3"
    "block_owner s2 b = Some f" "block_owner s3 b = Some f"
    "b \<notin> P" "l \<notin> insert b P" "e \<notin> insert l (insert b P)"
proof -
  have s1: "opened f (insert b P) s1" "block_owner s1 b = Some f"
    using opened_block_in [OF s assms(2,3)] .
  have s2: "opened f (insert l (insert b P)) s2"
    using opened_new_block [OF s1(1)] assms by simp
  then show "opened f (insert l (insert b P)) s2" "opened f (insert e (insert l (insert b P))) s3"
    using opened_new_block [OF s2(1)] assms by simp_all
  show "block_owner s2 b = Some f" "block_owner s3 b = Some f"
    using s1(2) assms by simp_all
  show "b \<notin> P" "l \<notin> insert b P" "e \<notin> insert l (insert b P)"
    using opened_fresh [OF s] opened_fresh [OF s1(1)] opened_fresh [OF s2(1)] assms by simp_all
qed

lemma runs_if_blocks:
  assumes th: "ends f th" and el: "pred_option (ends f) el"
  shows "runs f (if_blocks cv th el)"
proof (rule runsI)
  fix P s t
  assume s: "opened f P s" and run: "if_blocks cv th el s = Done t"
  define b where "b = next_block s"
  define s1 where "s1 = insert_into b f (s\<lparr>next_block := next_block s + 1\<rparr>)"
  define c where "c = next_block s1"
  define s2 where "s2 = s1\<lparr>next_block := next_block s1 + 1\<rparr>"
  define d where "d = next_block s2"
  define s3 where "s3 = s2\<lparr>next_block := next_block s2 + 1\<rparr>"
  note three = opened_three [OF s b_def s1_def c_def s2_def d_def s3_def]
  show "opened f P t"
  proof (cases el)
    case None
    obtain s3 s4 where run': "scoped th (set_insert_point b (add_instr (Cond_Br cv b c) s2)) = Done s3"
        "jump c s3 = Done s4" "t = continue_at c f s4"
      using run by (auto simp: if_blocks_def opened_parent [OF s] None block_in_def new_block_def and_then_Done
          b_def s1_def s2_def c_def)
    have "opened f (insert c (insert b P) - {b}) (set_insert_point b (add_instr (Cond_Br cv b c) s2))"
      using three(1,3) by (intro switch_to) simp_all
    then have "at_end f (insert c (insert b P) - {b}) s3"
      using endsD [OF ends_scoped [OF th] _ run'(1)] by blast
    then have "opened f (insert c (insert b P) - {b} - {c}) t"
      using three(5-7) run' by (auto intro: jump_continue)
    moreover have "insert c (insert b P) - {b} - {c} = P"
      using three(5-7) by auto
    ultimately show ?thesis by simp
  next
    case (Some e)
    obtain s4 s5 s6 s7 where run': "scoped th (set_insert_point b (add_instr (Cond_Br cv b c) s3)) = Done s4"
        "jump d s4 = Done s5" "scoped e (continue_at c f s5) = Done s6" "jump d s6 = Done s7" "t = continue_at d f s7"
      using run by (auto simp: if_blocks_def opened_parent [OF s] Some block_in_def new_block_def and_then_Done
          b_def s1_def s2_def c_def s3_def d_def)
    have "opened f (insert d (insert c (insert b P)) - {b}) (set_insert_point b (add_instr (Cond_Br cv b c) s3))"
      using three(2,4) by (intro switch_to) simp_all
    then have "at_end f (insert d (insert c (insert b P)) - {b}) s4"
      using endsD [OF ends_scoped [OF th] _ run'(1)] by blast
    then have "opened f (insert d (insert c (insert b P)) - {b} - {c}) (continue_at c f s5)"
      using three(5-7) run' by (intro jump_continue) auto
    then have "at_end f (insert d (insert c (insert b P)) - {b} - {c}) s6"
      using endsD [OF ends_scoped _ run'(3)] el Some by simp
    then have "opened f (insert d (insert c (insert b P)) - {b} - {c} - {d}) t"
      using three(5-7) run' by (auto intro: jump_continue)
    moreover have "insert d (insert c (insert b P)) - {b} - {c} - {d} = P"
      using three(5-7) by auto
    ultimately show ?thesis by simp
  qed
qed

lemma runs_if: "keeps in_line c \<Longrightarrow> ends f th \<Longrightarrow> pred_option (ends f) el \<Longrightarrow> runs f (visitIfStmt c th el)"
  unfolding visitIfStmt_def [abs_def]
  by (intro runs_seq runs_line runs_with_last runs_to_bool runs_if_blocks)

lemma runs_while:
  assumes c: "keeps in_line c" and body: "ends f body"
  shows "runs f (visitWhileStmt c body)"
proof (rule runsI)
  fix P s t
  assume s: "opened f P s" and run: "visitWhileStmt c body s = Done t"
  define b where "b = next_block s"
  define s1 where "s1 = insert_into b f (s\<lparr>next_block := next_block s + 1\<rparr>)"
  define l where "l = next_block s1"
  define s2 where "s2 = s1\<lparr>next_block := next_block s1 + 1\<rparr>"
  define e where "e = next_block s2"
  define s3 where "s3 = s2\<lparr>next_block := next_block s2 + 1\<rparr>"
  note three = opened_three [OF s b_def s1_def l_def s2_def e_def s3_def]
  note fresh = three(5-7)
  let ?k = "\<lambda>cv s4. and_then (scoped body (continue_at l f (add_instr (Cond_Br cv l e) s4)))
    (\<lambda>s5. and_then (jump b s5) (\<lambda>s6. Done (continue_at e f s6)))"
  have run': "and_then (c (set_insert_point b (add_instr (Br b) s3))) (with_last (\<lambda>v. to_bool v ?k)) = Done t"
    using run by (simp add: visitWhileStmt_def opened_parent [OF s] block_in_def new_block_def
        b_def s1_def s2_def l_def s3_def e_def)
  have loop: "opened f P u" if "opened f (insert e (insert l P)) s4" "?k cv s4 = Done u" for cv s4 u
    using while_body [OF body that] fresh by auto
  have "opened f (insert e (insert l (insert b P)) - {b}) (set_insert_point b (add_instr (Br b) s3))"
    using three(2,4) by (intro switch_to) simp_all
  moreover have "insert e (insert l (insert b P)) - {b} = insert e (insert l P)"
    using fresh by auto
  ultimately have start: "opened f (insert e (insert l P)) (set_insert_point b (add_instr (Br b) s3))"
    by simp
  have blocks: "l \<notin> set (fn_blocks (fun_table u ! f)) \<and> e \<notin> set (fn_blocks (fun_table u ! f))"
    if "in_line (set_insert_point b (add_instr (Br b) s3)) u" for u
  proof -
    have "f < length (fun_table s)" "\<forall>x \<in> set (fn_blocks (fun_table s ! f)). x < next_block s"
      using s by (auto simp: opened_def shape_def)
    moreover have "fn_blocks (fun_table (set_insert_point b (add_instr (Br b) s3)) ! f) = fn_blocks (fun_table s ! f) @ [b]"
      using calculation(1) by (simp add: s3_def s2_def s1_def insert_into_def set_insert_point_def add_instr_def split: option.split)
    moreover have "fn_blocks (fun_table u ! f) = fn_blocks (fun_table (set_insert_point b (add_instr (Br b) s3)) ! f)"
      by (rule in_line_blocks [OF that start])
    moreover have "next_block s \<le> l" "next_block s \<le> e"
      by (simp_all add: l_def e_def s1_def s2_def insert_into_def)
    ultimately show ?thesis using fresh by auto
  qed
  have stop: "opened f P u" if line: "in_line (set_insert_point b (add_instr (Br b) s3)) u" for u
  proof -
    have "opened f (insert e (insert l P) - {l} - {e}) u"
      using blocks [OF line] opened_in_line [OF line start] by (intro opened_drop) simp_all
    moreover have "insert e (insert l P) - {l} - {e} = P"
      using fresh by auto
    ultimately show ?thesis by simp
  qed
  obtain s4 where s4: "c (set_insert_point b (add_instr (Br b) s3)) = Done s4"
      "with_last (\<lambda>v. to_bool v ?k) s4 = Done t"
    using run' unfolding and_then_Done by blast
  have line: "in_line (set_insert_point b (add_instr (Br b) s3)) s4"
    by (rule keepsD [OF c s4(1)])
  show "opened f P t"
  proof (cases "lastValue s4")
    case None
    then show ?thesis using s4(2) stop [OF line] by (simp add: with_last_def)
  next
    case (Some v)
    then consider cv s5 where "in_line s4 s5" "?k cv s5 = Done t" | "in_line s4 t"
      using s4(2) to_bool_outcome [of v ?k s4 t] by (auto simp: with_last_def)
    then show ?thesis
    proof cases
      case 1
      then show ?thesis
        using loop opened_in_line [OF in_line_trans [OF line] start] by blast
    next
      case 2
      then show ?thesis using stop in_line_trans [OF line] by blast
    qed
  qed
qed

section \<open>Statements\<close>

lemma runs_optional: "pred_option (runs f) g \<Longrightarrow> runs f (optional_visit g)"
  by (cases g) (auto simp: optional_visit_def runs_def)

lemma ends_optional: "pred_option (ends f) g \<Longrightarrow> ends f (optional_visit g)"
  by (cases g) (auto simp: optional_visit_def ends_def opened_at_end)

lemma ends_each: "list_all (runs f) (butlast gs) \<Longrightarrow> list_all (ends f) gs \<Longrightarrow> ends f (visit_each gs)"
proof (induction gs)
  case (Cons g gs)
  show ?case
  proof (cases "gs = []")
    case True
    then show ?thesis using Cons.prems by (auto simp: ends_def and_then_Done)
  next
    case False
    then have "ends f (\<lambda>s. and_then (g s) (visit_each gs))"
      using Cons by (intro ends_seq) simp_all
    then show ?thesis by (simp add: ends_def)
  qed
qed (simp add: ends_def opened_at_end)

lemma runs_each: "list_all (runs f) gs \<Longrightarrow> runs f (visit_each gs)"
proof (induction gs)
  case (Cons g gs)
  then have "runs f (\<lambda>s. and_then (g s) (visit_each gs))"
    by (intro runs_seq) simp_all
  then show ?case by (simp add: runs_def)
qed (simp add: runs_def)

lemma opened_store_initial:
  assumes s: "opened f P s" and run: "store_initial a ty v s = Done t"
  shows "opened f P t"
proof -
  note outcome = numeric_cast_outcome [OF run [unfolded store_initial_def]]
  have store: "opened f P u" if "build_store v' p Done (set_last x s1) = Done u" "opened f P s1" for v' p x s1 u
    using that by (auto simp: build_store_def at_block_def split: if_splits
        intro!: opened_add opened_same [OF same_blocks_simps(1)])
  show ?thesis
    using outcome
  proof (elim disjE exE conjE)
    fix v' s1
    assume "in_line s s1" and "(case a of None \<Rightarrow> Crash
        | Some al \<Rightarrow> build_store v' (alloca_ptr al) Done (set_last (Some v') s1)) = Done t"
    then show ?thesis
      using s by (cases a) (auto intro: store opened_in_line)
  qed (use s in \<open>auto intro!: opened_same [OF same_blocks_simps(2)]\<close>)
qed

lemma runs_declare:
  assumes "pred_option (keeps in_line) init"
  shows "runs f (declare_variable n ty init)"
proof (rule runsI)
  fix P s t
  assume s: "opened f P s" and run: "declare_variable n ty init s = Done t"
  have "\<exists>a s1. opened f P s1 \<and> initialize n ty init a (bind_name n a s1) = Done t"
    using run opened_alloca [OF s] opened_same [OF same_blocks_simps(2) s]
    by (cases "currentFunction s") (fastforce simp: declare_variable_def createEntryBlockAlloca_def Let_def)+
  then obtain a s1 where s1: "opened f P s1" "initialize n ty init a (bind_name n a s1) = Done t"
    by blast
  have "opened f P (bind_name n a s1)"
    by (rule opened_same [OF _ s1(1)]) simp
  then show "opened f P t"
    using s1(2) assms
    by (auto simp: initialize_def and_then_Done with_last_def split: option.splits
        dest: opened_store_initial runsD [OF runs_line])
qed

lemma runs_variable:
  assumes "pred_option (keeps in_line) init"
  shows "runs f (visitVariableStmt n ty init)"
proof -
  have "runs f (\<lambda>s. and_then (g s) (with_last (\<lambda>v. declare_variable n (val_type v) init)))" if "init = Some g" for g
    using assms that by (intro runs_seq runs_line runs_with_last runs_declare) simp_all
  then show ?thesis
    using runs_declare [OF assms] unfolding visitVariableStmt_def [abs_def]
    by (cases ty; cases init) (auto intro!: runsI opened_same [OF same_blocks_simps(2)])
qed

lemma at_end_return_value: "opened f P s \<Longrightarrow> return_value ret x s = Done t \<Longrightarrow> at_end f P t"
  unfolding return_value_def at_end_cases
  by (drule numeric_cast_outcome)
     (auto intro!: terminate opened_same [OF same_blocks_simps(1)] opened_same [OF same_blocks_simps(2)]
        dest: opened_in_line)

lemma ends_return:
  assumes "pred_option (keeps in_line) v"
  shows "ends f (visitReturnStmt v)"
proof (rule endsI)
  fix P s t
  assume s: "opened f P s" and run: "visitReturnStmt v s = Done t"
  then obtain ret where ret: "return_from v ret s = Done t"
    by (auto simp: visitReturnStmt_def split: option.splits)
  show "at_end f P t"
  proof (cases v)
    case None
    then show ?thesis
      using ret s terminate [of Ret_Void f P s] opened_same [OF same_blocks_simps(2) s]
      by (auto simp: return_from_def at_end_cases split: if_splits)
  next
    case (Some g)
    then obtain s1 where s1: "g s = Done s1" "with_last (return_value ret) s1 = Done t"
      using ret by (auto simp: return_from_def and_then_Done)
    have "keeps in_line g"
      using assms Some by simp
    then have "opened f P s1"
      using opened_in_line [OF keepsD [of in_line g] s] s1(1) by blast
    then show ?thesis
      using s1(2) by (auto simp: with_last_def opened_at_end dest: at_end_return_value split: option.splits)
  qed
qed

text \<open>The bodies this is about, and the statements after which the block is still open.\<close>

primrec falls :: "stmt \<Rightarrow> bool" where
  "falls (ExpressionStmt t e) = True"
| "falls (VariableStmt t n ty i c) = True"
| "falls (BlockStmt t ss) = list_all (pred_option id) (map (map_option falls) ss)"
| "falls (IfStmt t c th els el) = True"
| "falls (WhileStmt t c b) = True"
| "falls (ForStmt t v ty i b) = True"
| "falls (FunctionStmt t n tps ps r b isAsync) = True"
| "falls (ReturnStmt t v) = False"
| "falls (ClassStmt t n tps sc ifs fs ms) = True"
| "falls (ImportStmt t m all syms al) = True"
| "falls (ExportStmt t syms all d) = True"
| "falls (ModuleStmt t n b) = list_all id (map falls b)"
| "falls (MatchStmt t v cs d) = (case map snd (map (map_prod id falls) cs) of [] \<Rightarrow> True | b # _ \<Rightarrow> b)"
| "falls (SelectStmt t cs) = True"
| "falls (GoStmt t e) = True"
| "falls (TraitStmt t n ms st at) = True"
| "falls (ImplStmt t n ty ms) = True"

primrec tidy :: "stmt \<Rightarrow> bool" where
  "tidy (ExpressionStmt t e) = plain_expr e"
| "tidy (VariableStmt t n ty i c) = pred_option plain_expr i"
| "tidy (BlockStmt t ss) =
     (list_all (pred_option id) (map (map_option tidy) ss) \<and> list_all (pred_option falls) (butlast ss))"
| "tidy (IfStmt t c th els el) = (plain_expr c \<and> tidy th \<and> pred_option id (map_option tidy el))"
| "tidy (WhileStmt t c b) = (plain_expr c \<and> tidy b)"
| "tidy (ForStmt t v ty i b) = False"
| "tidy (FunctionStmt t n tps ps r b isAsync) = False"
| "tidy (ReturnStmt t v) = pred_option plain_expr v"
| "tidy (ClassStmt t n tps sc ifs fs ms) = True"
| "tidy (ImportStmt t m all syms al) = True"
| "tidy (ExportStmt t syms all d) = True"
| "tidy (ModuleStmt t n b) = (list_all id (map tidy b) \<and> list_all falls (butlast b))"
| "tidy (MatchStmt t v cs d) = (plain_expr v \<and> list_all snd (map (map_prod id tidy) cs))"
| "tidy (SelectStmt t cs) = False"
| "tidy (GoStmt t e) = False"
| "tidy (TraitStmt t n ms st at) = False"
| "tidy (ImplStmt t n ty ms) = False"

lemma keeps_plain_option: "pred_option plain_expr e \<Longrightarrow> pred_option (keeps in_line) (map_option gen_expr e)"
  by (cases e) (auto intro: il.keeps_plain)

lemma visit_runs: "runs f g \<Longrightarrow> ends f g \<and> (b \<longrightarrow> runs f g)"
  by (simp add: runs_ends)

text \<open>Both halves together, since a sequence needs the first of every statement but the last.\<close>

lemma tidy_visits: "tidy st \<Longrightarrow> ends f (gen_stmt st) \<and> (falls st \<longrightarrow> runs f (gen_stmt st))"
proof (induction st)
  case (BlockStmt t ss)
  have "list_all (ends f) (map optional_visit (map (map_option gen_stmt) ss))"
    using BlockStmt by (fastforce simp: list_all_iff pred_option_def intro!: ends_optional)
  moreover have "list_all (runs f) (butlast (map optional_visit (map (map_option gen_stmt) ss)))"
    using BlockStmt
    by (fastforce simp: list_all_iff pred_option_def map_butlast [symmetric] intro!: runs_optional dest: in_set_butlastD)
  moreover have "list_all (runs f) (map optional_visit (map (map_option gen_stmt) ss))"
    if "falls (BlockStmt t ss)"
    using BlockStmt that by (fastforce simp: list_all_iff pred_option_def intro!: runs_optional)
  ultimately show ?case
    by (auto intro!: ends_scoped ends_each runs_scoped runs_each)
next
  case (ModuleStmt t n b)
  have all: "list_all (ends f) (map gen_stmt b)"
    using ModuleStmt by (auto simp: list_all_iff)
  have front: "list_all (runs f) (butlast (map gen_stmt b))"
    using ModuleStmt by (auto simp: list_all_iff map_butlast [symmetric] dest: in_set_butlastD)
  have every: "list_all (runs f) (map gen_stmt b)" if "falls (ModuleStmt t n b)"
    using ModuleStmt that by (auto simp: list_all_iff)
  have enter: "opened f P (s\<lparr>currentModuleName := x\<rparr>)" if "opened f P s" for P s x
    by (rule opened_same [OF _ that]) simp
  have leave: "at_end f P (s\<lparr>currentModuleName := x\<rparr>)" if "at_end f P s" for P s x
    by (rule at_end_same [OF _ that]) simp
  show ?case
    using endsD [OF ends_each [OF front all]] runsD [OF runs_each [OF every]]
    by (auto intro!: endsI runsI leave enter simp: and_then_Done; blast intro: enter)
next
  case (MatchStmt t v cs d)
  have v: "runs f (gen_expr v)"
    using MatchStmt by (auto intro: runs_line il.keeps_plain)
  show ?case
  proof (cases cs)
    case Nil
    then show ?thesis
      using v by (auto simp: runs_def ends_def and_then_Done opened_at_end)
  next
    case (Cons c cs')
    then have "ends f (gen_stmt (snd c)) \<and> (falls (snd c) \<longrightarrow> runs f (gen_stmt (snd c)))"
      using MatchStmt by (cases c) force
    then show ?thesis
      using v Cons by (cases c) (auto intro!: ends_seq runs_seq)
  qed
next
  case (ExpressionStmt t e)
  then show ?case
    by (intro visit_runs) (simp add: runs_line il.keeps_plain)
next
  case (VariableStmt t n ty i c)
  then show ?case
    by (intro visit_runs) (simp add: runs_variable keeps_plain_option)
next
  case (IfStmt t c th els el)
  then have "pred_option (ends f) (map_option gen_stmt el)"
    by (cases el) simp_all
  then show ?case
    using IfStmt by (intro visit_runs) (simp add: runs_if il.keeps_plain)
next
  case (WhileStmt t c b)
  then show ?case
    by (intro visit_runs) (simp add: runs_while il.keeps_plain)
next
  case (ReturnStmt t v)
  then show ?case
    by (simp add: ends_return keeps_plain_option)
qed (simp_all add: visit_runs runs_def)

section \<open>Functions\<close>

lemma store_params_outcome:
  "store_params g ps k s = Done t \<Longrightarrow> opened f P s \<Longrightarrow> \<exists>s1. opened f P s1 \<and> k s1 = Done t"
proof (induction ps arbitrary: s)
  case (Cons p ps)
  obtain i n ty where p: "p = (i, n, ty)" by (cases p)
  have "opened f P (bind_name n (Some (next_reg s, ty))
      (add_instr (Store (Arg g i ty) (alloca_ptr (next_reg s, ty))) (add_instr (Alloca ty n) s)))"
    by (intro opened_same [OF same_blocks_simps(4)] opened_add Cons.prems) simp_all
  then show ?case
    using Cons.IH Cons.prems(1)
    by (auto simp: p build_alloca_def build_store_def at_block_def split: if_splits)
qed auto

lemma start_opened:
  assumes "f < length (fun_table s)" "fn_blocks (fun_table s ! f) = []" "\<forall>c. next_block s \<le> c \<longrightarrow> block_code s c = []"
    and "start_function f k s = Done t"
  shows "\<exists>s1. opened f {} s1 \<and> k s1 = Done t"
proof -
  define b where "b = next_block s"
  define s1 where "s1 = set_insert_point b (insert_into b f (s\<lparr>next_block := next_block s + 1\<rparr>)\<lparr>currentFunction := Some f\<rparr>)"
  have "k s1 = Done t"
    using assms(4) by (simp add: start_function_def block_in_def new_block_def s1_def b_def)
  moreover have "shape f {} b s1" "straight (block_code s1 b)"
    using assms(1-3) by (auto simp: shape_def s1_def b_def set_insert_point_def insert_into_def)
  ultimately show ?thesis by (auto simp: opened_def)
qed

lemma end_function_finished: "at_end f P s \<Longrightarrow> end_function ret s = Done t \<Longrightarrow> finished f P t"
  unfolding at_end_cases
proof (elim disjE)
  assume "opened f P s" "end_function ret s = Done t"
  then show "finished f P t"
    by (auto simp: end_function_def unless_terminated_def opened_def shape_def
        intro!: terminate dest: straight_open split: option.splits if_splits)
next
  assume "finished f P s" "end_function ret s = Done t"
  then show "finished f P t"
    by (auto simp: end_function_def unless_terminated_def finished_def shape_def closed_has split: option.splits if_splits)
qed

lemma finished_blocks: "finished f {} s \<Longrightarrow> c \<in> set (fn_blocks (fun_table s ! f)) \<Longrightarrow> closed_block (block_code s c)"
  by (auto simp: finished_def shape_def)

text \<open>C4: When a plain function declaration (no type parameters, not asynchronous) with a tidy body is
  generated without an exception, every basic block of its function holds exactly one
  terminator, at its end. Tidy means: in a block nothing follows a statement that ends with
  \<open>return\<close>, and there are no \<open>for\<close>, \<open>select\<close> or \<open>go\<close> statements, nested functions, traits,
  implementations and lambdas, and no call of a variable named like an expression of the prompt. Without
  this the claim is false: for \<open>return 1; x;\<close> the generator emits two terminators.\<close>

theorem function_blocks_closed:
  assumes "tidy body" "\<forall>c. next_block s \<le> c \<longrightarrow> block_code s c = []"
    and "gen_stmt (FunctionStmt tok n [] ps r body False) s = Done t"
  shows "\<forall>c \<in> set (fn_blocks (fun_table t ! length (fun_table s))). closed_block (block_code t c)"
proof -
  let ?f = "length (fun_table s)"
  let ?body = "\<lambda>s1. and_then (gen_stmt body s1) (\<lambda>s2. and_then (end_function (getLLVMType (Some r)) s2) (
      verified ?f (\<lambda>msg s3. Done (leave_function (currentFunction s) (report (Compiler C002_CODEGEN_ERROR)
          (''Invalid LLVM IR generated for function '' @ [SQUOTE] @ n @ [SQUOTE] @ '': '' @ msg) s3)))
        (\<lambda>s3. Done (leave_function (currentFunction s) s3))))"
  let ?s = "s\<lparr>fun_table := fun_table s @ [\<lparr>fn_name = n, fn_return = getLLVMType (Some r),
      fn_params = param_types ps, fn_blocks = []\<rparr>]\<rparr>"
  have start: "start_function ?f (store_params ?f (params_of ps) ?body) ?s = Done t"
    using assms(3) by (simp add: visitFunctionStmt_def regular_function_def Let_def new_function_def)
  have "\<exists>s1. opened ?f {} s1 \<and> store_params ?f (params_of ps) ?body s1 = Done t"
    by (rule start_opened [OF _ _ _ start]) (use assms(2) in simp_all)
  then obtain s1 where "opened ?f {} s1" "store_params ?f (params_of ps) ?body s1 = Done t"
    by blast
  then obtain s2 where s2: "opened ?f {} s2" "?body s2 = Done t"
    using store_params_outcome by blast
  then obtain s3 s4 where s3: "gen_stmt body s2 = Done s3" "end_function (getLLVMType (Some r)) s3 = Done s4"
      and t: "block_code t = block_code s4" "fun_table t = fun_table s4"
    by (auto simp: and_then_Done verified_def leave_function_def report_def split: option.splits)
  have "at_end ?f {} s3"
    using tidy_visits [OF assms(1), of ?f] s2(1) s3(1) by (auto simp: ends_def)
  then have "finished ?f {} s4"
    by (rule end_function_finished [OF _ s3(2)])
  then show ?thesis
    using finished_blocks t by auto
qed

text \<open>The function \<open>f\<close> with the body \<open>if (true) return;\<close> has three blocks.\<close>

lemma function_blocks_closed_witness:
  "case gen_stmt (FunctionStmt default_token ''f'' [] [] (BasicType default_token VOID_KIND)
      (IfStmt default_token (LiteralExpr default_token ''true'' BOOLEAN) (ReturnStmt default_token None) [] None) False)
      fresh_gen of
     Done t \<Rightarrow> fn_blocks (fun_table t ! 6) = [0, 1, 2] \<and> (\<forall>c \<in> {0, 1, 2}. closed_block (block_code t c))
   | _ \<Rightarrow> False"
proof -
  let ?body = "IfStmt default_token (LiteralExpr default_token ''true'' BOOLEAN) (ReturnStmt default_token None) [] None"
  let ?run = "gen_stmt (FunctionStmt default_token ''f'' [] [] (BasicType default_token VOID_KIND) ?body False) fresh_gen"
  have run: "case ?run of Done t \<Rightarrow> fn_blocks (fun_table t ! 6) = [0, 1, 2] | _ \<Rightarrow> False"
    by (simp add: emit_defs Let_def)
  have fresh: "length (fun_table fresh_gen) = 6" "block_code fresh_gen = (\<lambda>_. [])"
    by (simp_all add: fresh_gen_def new_IRGenerator_def declareStdLibFunctions_def declare_lib_def)
  obtain t where t: "?run = Done t" "fn_blocks (fun_table t ! 6) = [0, 1, 2]"
    using run by (auto split: emitted.splits)
  have "tidy ?body" by simp
  then have "\<forall>c \<in> set (fn_blocks (fun_table t ! 6)). closed_block (block_code t c)"
    using function_blocks_closed [OF _ _ t(1)] fresh by simp
  then show ?thesis
    using t by simp
qed

end
