(* ===== verification/Tocin_Codegen_Extra.thy ===== *)
theory Tocin_Codegen_Extra
  imports Tocin_Codegen_Frame
begin

text \<open>
  The functions of \<open>src/codegen/ir_generator.cpp\<close> that nothing else in the file calls: implicit conversions, the
  main function and \<open>printf\<close>, methods, and the visitors that take a \<open>void\<close> pointer.
\<close>

section \<open>Implicit conversions\<close>

fun width :: "ltype \<Rightarrow> nat" where
  "width (Int_Ty w) = w"
| "width ty = 0"

definition canConvertImplicitly :: "ltype \<Rightarrow> ltype \<Rightarrow> bool" where
  "canConvertImplicitly a b =
     (if a = b then True
      else if is_int a \<and> is_int b then True
      else if is_fp a \<and> is_fp b then True
      else if is_int a \<and> is_fp b then True
      else if is_fp a \<and> is_int b then True
      else if a = Ptr_Ty \<and> is_int b then width b \<ge> 32
      else if is_int a \<and> b = Ptr_Ty then width a \<ge> 32
      else a = Ptr_Ty \<and> b = Ptr_Ty)"

text \<open>The result is the value or null.\<close>

definition converted :: "conversion \<Rightarrow> lval \<Rightarrow> ltype \<Rightarrow> gen \<Rightarrow> (lval option \<times> gen) emitted" where
  "converted c v ty s = Done (Some (Reg (next_reg s) ty), add_instr (Convert c v ty) s)"

definition implicitConversion :: "lval \<Rightarrow> ltype \<Rightarrow> gen \<Rightarrow> (lval option \<times> gen) emitted" where
  "implicitConversion v ty s =
     (let a = val_type v in
      if a = ty then Done (Some v, s)
      else if \<not> canConvertImplicitly a ty then
        Done (None, report (Compiler C002_CODEGEN_ERROR) ''Cannot implicitly convert between types'' s)
      else if is_int a \<and> is_int ty then converted (if width a < width ty then SExt else Trunc) v ty s
      else if is_fp a \<and> is_fp ty then converted (if a = Double_Ty \<and> ty = Float_Ty then FP_Trunc else FP_Ext) v ty s
      else if is_int a \<and> is_fp ty then converted SI_To_FP v ty s
      else if is_fp a \<and> is_int ty then converted FP_To_SI v ty s
      else if a = Ptr_Ty \<and> is_int ty then converted Ptr_To_Int v ty s
      else if is_int a \<and> ty = Ptr_Ty then converted Int_To_Ptr v ty s
      else if a = Ptr_Ty \<and> ty = Ptr_Ty then converted Bit_Cast v ty s
      else Done (None, report (Compiler C002_CODEGEN_ERROR) ''Unsupported implicit conversion'' s))"

section \<open>Main and printf\<close>

definition createMainFunction :: "gen \<Rightarrow> gen emitted" where
  "createMainFunction =
     new_function ''main'' i32 [] (\<lambda>f. block_in f (\<lambda>b s.
       Done (add_instr (Ret_Instr (Const_Int 32 0)) (set_insert_point b s))))"

definition declarePrintFunction :: "gen \<Rightarrow> gen" where
  "declarePrintFunction = declare_lib [''printf''] ''printf'' i32 [Ptr_Ty]"

section \<open>Visitors of the runtime nodes\<close>

text \<open>An operand that left no value is a null pointer, whose type the code asks for.\<close>

definition stub_call ::
  "string \<Rightarrow> ltype \<Rightarrow> lval option list \<Rightarrow> (lval \<Rightarrow> gen \<Rightarrow> gen emitted) \<Rightarrow> gen \<Rightarrow> gen emitted" where
  "stub_call n r args k s =
     (if None \<in> set args then Crash
      else case getStdLibFunction n s of
        Some f \<Rightarrow> build_call f (map the args) k s
      | None \<Rightarrow> new_function n r (map (val_type \<circ> the) args) (\<lambda>f. build_call f (map the args) k) s)"

definition gen_visitMoveExpr :: "expr option \<Rightarrow> gen \<Rightarrow> gen emitted" where
  "gen_visitMoveExpr e s = (case e of Some x \<Rightarrow> gen_expr x s | None \<Rightarrow> Done (set_last None s))"

definition gen_visitGoExpr :: "expr option \<Rightarrow> gen \<Rightarrow> gen emitted" where
  "gen_visitGoExpr e s =
     (case e of
        Some x \<Rightarrow> and_then (gen_expr x s) (\<lambda>s1.
          stub_call ''__tocin_go_launch'' Void_Ty [lastValue s1] (\<lambda>v s2. Done (set_last None s2)) s1)
      | None \<Rightarrow> Done (set_last None s))"

definition gen_visitRuntimeChannelSendExpr :: "(expr \<times> expr) option \<Rightarrow> gen \<Rightarrow> gen emitted" where
  "gen_visitRuntimeChannelSendExpr e s =
     (case e of
        Some (c, v) \<Rightarrow> and_then (gen_expr c s) (\<lambda>s1. and_then (gen_expr v s1) (\<lambda>s2.
          stub_call ''__tocin_chan_send'' Void_Ty [lastValue s1, lastValue s2] (\<lambda>x s3. Done (set_last None s3)) s2))
      | None \<Rightarrow> Done (set_last None s))"

definition gen_visitRuntimeChannelReceiveExpr :: "expr option \<Rightarrow> gen \<Rightarrow> gen emitted" where
  "gen_visitRuntimeChannelReceiveExpr e s =
     (case e of
        Some c \<Rightarrow> and_then (gen_expr c s) (\<lambda>s1.
          stub_call ''__tocin_chan_recv'' Ptr_Ty [lastValue s1] finish s1)
      | None \<Rightarrow> Done (set_last None s))"

definition gen_visitRuntimeSelectStmt :: "gen \<Rightarrow> gen emitted" where
  "gen_visitRuntimeSelectStmt = stub_call ''__tocin_chan_select'' i32 [] finish"

section \<open>Methods\<close>

definition method_return :: "ltype \<Rightarrow> gen \<Rightarrow> gen emitted" where
  "method_return ret =
     unless_terminated (\<lambda>s. Done (
       if ret = Void_Ty then add_instr Ret_Void s
       else if is_int ret \<or> is_fp ret \<or> ret = Ptr_Ty then add_instr (Ret_Instr (default_return ret)) s
       else report (Compiler C002_CODEGEN_ERROR) ''Cannot generate default return value for method'' s))"

text \<open>The state before the visit is restored unless the verification fails. The method is entered in the table
  of class methods before its body is visited.\<close>

definition leave_method :: "gen \<Rightarrow> nat \<Rightarrow> gen \<Rightarrow> gen emitted" where
  "leave_method outer f =
     verified f
       (\<lambda>msg s. Done (erase_function f (report (Compiler C002_CODEGEN_ERROR) ''Method verification failed'' s)))
       (\<lambda>s. Done (s\<lparr>namedValues := namedValues outer, currentFunction := currentFunction outer,
          insert_block := (case insert_block outer of None \<Rightarrow> insert_block s | Some b \<Rightarrow> Some b)\<rparr>))"

definition generateMethod ::
  "string \<Rightarrow> string \<Rightarrow> Parameter list \<Rightarrow> type \<Rightarrow> stmt \<Rightarrow> (string \<Rightarrow> nat option) \<Rightarrow> gen
     \<Rightarrow> (gen \<times> (string \<Rightarrow> nat option)) emitted" where
  "generateMethod className n ps r body classMethods s =
     (let ret = getLLVMType (Some r); tys = Ptr_Ty # param_types ps; names = ''this'' # map param_name ps in
      and_then
        (new_function (className @ ''_'' @ n) ret tys (\<lambda>f. block_in f (\<lambda>b s1.
           lambda_params f (zip [0..<length tys] (zip names tys))
             (\<lambda>s2. and_then (gen_stmt body s2) (\<lambda>s3. and_then (method_return ret s3) (leave_method s f)))
             (set_insert_point b (s1\<lparr>currentFunction := Some f, namedValues := (\<lambda>_. None)\<rparr>)))) s)
        (\<lambda>t. Done (t, classMethods(className @ ''.'' @ n := Some (length (fun_table s))))))"

section \<open>Conversions are total on what they accept\<close>

text \<open>An implicit conversion gives a value of the target type exactly for the pairs of types the predicate
  admits, and then reports nothing; otherwise it gives null, reports once and emits nothing. The message on an
  unsupported conversion is unreachable.\<close>

theorem implicit_conversion:
  "if val_type v = ty then implicitConversion v ty s = Done (Some v, s)
   else if canConvertImplicitly (val_type v) ty then
     (\<exists>c. implicitConversion v ty s = Done (Some (Reg (next_reg s) ty), add_instr (Convert c v ty) s))
   else implicitConversion v ty s =
     Done (None, report (Compiler C002_CODEGEN_ERROR) ''Cannot implicitly convert between types'' s)"
  by (auto simp: implicitConversion_def canConvertImplicitly_def converted_def)

end
