(* ===== verification/Tocin_Scheduler.thy ===== *)
theory Tocin_Scheduler
  imports Tocin_Prelude "HOL-Library.Word" "HOL-Library.Multiset"
begin

text \<open>
  \<open>runtime/lightweight_scheduler.h\<close> and \<open>runtime/lightweight_scheduler.cpp\<close>: fibers, the work-stealing queue,
  workers and the scheduler. Counters are 64-bit words. The parts of \<open>pop\<close> and \<open>steal\<close> outside the mutex are
  functions of their own, so that other threads can act between them.
\<close>

section \<open>Fibers\<close>

datatype State = Ready | Running | Suspended | Completed

datatype Priority = Critical | High | Normal | Low | Background

primrec priority_code :: "Priority \<Rightarrow> nat" where
  "priority_code Critical = 0"
| "priority_code High = 1"
| "priority_code Normal = 2"
| "priority_code Low = 3"
| "priority_code Background = 4"

text \<open>\<open>fiber_calls\<close> counts the calls of the function.\<close>

record fiber =
  fiber_id :: nat
  fiber_state :: State
  fiber_priority :: Priority
  fiber_calls :: nat

definition new_Fiber :: "nat \<Rightarrow> Priority \<Rightarrow> fiber" where
  "new_Fiber i p = \<lparr>fiber_id = i, fiber_state = Ready, fiber_priority = p, fiber_calls = 0\<rparr>"

definition yield :: "fiber \<Rightarrow> fiber" where
  "yield f = (if fiber_state f = Running then f\<lparr>fiber_state := Suspended\<rparr> else f)"

definition complete :: "fiber \<Rightarrow> fiber" where
  "complete f = f\<lparr>fiber_state := Completed\<rparr>"

definition isCompleted :: "fiber \<Rightarrow> bool" where
  "isCompleted f \<longleftrightarrow> fiber_state f = Completed"

text \<open>\<open>func\<close> is how often the function calls \<open>yield\<close> on its fiber, if there is a function.\<close>

definition resume :: "nat option \<Rightarrow> fiber \<Rightarrow> fiber" where
  "resume func f =
     (if fiber_state f = Completed then f
      else let g = f\<lparr>fiber_state := Running\<rparr> in
        case func of
          None \<Rightarrow> g
        | Some n \<Rightarrow> complete ((yield ^^ n) (g\<lparr>fiber_calls := fiber_calls g + 1\<rparr>)))"

text \<open>\<open>resume\<close> takes no lock, so other threads act between its test of the state, its write and call, the
  calls of \<open>yield\<close> in the function, and \<open>complete\<close>. (The state of a fiber is a plain member; its reads and
  writes are taken one at a time.)\<close>

datatype resume_at = Testing | Entering | In_Function nat | Returned

definition resume_step :: "nat option \<Rightarrow> fiber \<times> resume_at \<Rightarrow> fiber \<times> resume_at" where
  "resume_step func = (\<lambda>(f, r).
     case r of
       Testing \<Rightarrow> (f, if fiber_state f = Completed then Returned else Entering)
     | Entering \<Rightarrow>
         (let g = f\<lparr>fiber_state := Running\<rparr> in
          case func of
            None \<Rightarrow> (g, Returned)
          | Some n \<Rightarrow> (g\<lparr>fiber_calls := fiber_calls g + 1\<rparr>, In_Function n))
     | In_Function n \<Rightarrow> (if n = 0 then (complete f, Returned) else (yield f, In_Function (n - 1)))
     | Returned \<Rightarrow> (f, Returned))"

text \<open>Without another thread the steps make up \<open>resume\<close>.\<close>

lemma resume_in_function: "(resume_step func ^^ Suc n) (f, In_Function n) = (complete ((yield ^^ n) f), Returned)"
proof (induction n arbitrary: f)
  case (Suc n)
  then show ?case
    by (simp add: resume_step_def funpow_Suc_right del: funpow.simps)
qed (simp add: resume_step_def)

lemma resume_steps: "\<exists>k. (resume_step func ^^ k) (f, Testing) = (resume func f, Returned)"
proof (cases "fiber_state f = Completed")
  case True
  then show ?thesis by (intro exI [of _ 1]) (simp add: resume_step_def resume_def)
next
  case False
  show ?thesis
  proof (cases func)
    case None
    then show ?thesis
      using False by (intro exI [of _ 2]) (simp add: numeral_2_eq_2 resume_step_def resume_def)
  next
    case (Some n)
    let ?g = "f\<lparr>fiber_state := Running, fiber_calls := fiber_calls f + 1\<rparr>"
    have "(resume_step func ^^ (Suc n + 2)) (f, Testing) = (resume_step func ^^ Suc n) (?g, In_Function n)"
      unfolding funpow_add using False Some by (simp add: numeral_2_eq_2 resume_step_def)
    then show ?thesis
      using resume_in_function [of n func ?g] False Some by (intro exI [of _ "Suc n + 2"]) (simp add: resume_def)
  qed
qed

section \<open>The work-stealing queue\<close>

record 'a PriorityItem =
  item :: 'a
  priority :: int
  insertOrder :: "64 word"

record 'a queue =
  items :: "'a list"
  priorityItems :: "'a PriorityItem list"
  bottom_index :: "64 word"
  top_index :: "64 word"
  insertCounter :: "64 word"

definition new_WorkStealingQueue :: "'a queue" where
  "new_WorkStealingQueue = \<lparr>items = [], priorityItems = [], bottom_index = 0, top_index = 0, insertCounter = 0\<rparr>"

definition push :: "'a \<Rightarrow> 'a queue \<Rightarrow> 'a queue" where
  "push x q = q\<lparr>items := items q @ [x], bottom_index := of_nat (length (items q @ [x]))\<rparr>"

definition before :: "'a PriorityItem \<Rightarrow> 'a PriorityItem \<Rightarrow> bool" where
  "before a b =
     (if priority a \<noteq> priority b then priority a < priority b else insertOrder a < insertOrder b)"

text \<open>The list is sorted before the insertion, so sorting is an insertion behind the items that are not later.\<close>

fun insert_item :: "'a PriorityItem \<Rightarrow> 'a PriorityItem list \<Rightarrow> 'a PriorityItem list" where
  "insert_item x [] = [x]"
| "insert_item x (y # ys) = (if before x y then x # y # ys else y # insert_item x ys)"

definition pushPriority :: "'a \<Rightarrow> int \<Rightarrow> 'a queue \<Rightarrow> 'a queue" where
  "pushPriority x p q =
     (let is = insert_item \<lparr>item = x, priority = p, insertOrder = insertCounter q\<rparr> (priorityItems q)
      in q\<lparr>insertCounter := insertCounter q + 1, priorityItems := is, bottom_index := of_nat (length is)\<rparr>)"

text \<open>\<open>pop\<close>: the decrement of \<open>bottom\<close>, the test, and the part under the mutex. The test gives the value of
  \<open>top\<close> when the code goes on.\<close>

definition pop_load :: "'a queue \<Rightarrow> 64 word" where
  "pop_load q = bottom_index q - 1"

definition pop_store :: "64 word \<Rightarrow> 'a queue \<Rightarrow> 'a queue" where
  "pop_store b q = q\<lparr>bottom_index := b\<rparr>"

definition pop_locked :: "64 word \<Rightarrow> 64 word \<Rightarrow> 'a queue \<Rightarrow> 'a option \<times> 'a queue" where
  "pop_locked b t q =
     (if priorityItems q \<noteq> [] then
        (Some (item (last (priorityItems q))),
         q\<lparr>priorityItems := butlast (priorityItems q), bottom_index := of_nat (length (priorityItems q) - 1)\<rparr>)
      else if length (items q) \<le> unat b then (None, q)
      else if b = t then
        (if top_index q = t then (Some (items q ! unat b), q\<lparr>top_index := t + 1, bottom_index := t + 1\<rparr>)
         else (None, q\<lparr>bottom_index := top_index q + 1\<rparr>))
      else (Some (items q ! unat b), q))"

definition pop_tested :: "64 word \<Rightarrow> 64 word \<Rightarrow> 'a queue \<Rightarrow> 'a option \<times> 'a queue" where
  "pop_tested b t q = (if b < t then (None, q\<lparr>bottom_index := t\<rparr>) else pop_locked b t q)"

definition pop :: "'a queue \<Rightarrow> 'a option \<times> 'a queue" where
  "pop q = (let b = pop_load q; q1 = pop_store b q in pop_tested b (top_index q1) q1)"

definition steal_locked :: "64 word \<Rightarrow> 'a queue \<Rightarrow> 'a option \<times> 'a queue" where
  "steal_locked t q =
     (if priorityItems q \<noteq> [] then
        (Some (item (hd (priorityItems q))), q\<lparr>priorityItems := tl (priorityItems q), top_index := top_index q + 1\<rparr>)
      else if length (items q) \<le> unat t then (None, q)
      else if top_index q = t then (Some (items q ! unat t), q\<lparr>top_index := t + 1\<rparr>)
      else (None, q))"

definition steal :: "'a queue \<Rightarrow> 'a option \<times> 'a queue" where
  "steal q = (if bottom_index q \<le> top_index q then (None, q) else steal_locked (top_index q) q)"

fun remove_first :: "('a PriorityItem \<Rightarrow> bool) \<Rightarrow> 'a PriorityItem list \<Rightarrow> ('a \<times> 'a PriorityItem list) option" where
  "remove_first P [] = None"
| "remove_first P (x # xs) =
     (if P x then Some (item x, xs) else map_option (\<lambda>(y, ys). (y, x # ys)) (remove_first P xs))"

definition stealPriority :: "int \<Rightarrow> 'a queue \<Rightarrow> 'a option \<times> 'a queue" where
  "stealPriority minPriority q =
     (case remove_first (\<lambda>x. priority x \<le> minPriority) (priorityItems q) of
        None \<Rightarrow> (None, q)
      | Some (x, is) \<Rightarrow> (Some x, q\<lparr>priorityItems := is, top_index := top_index q + 1\<rparr>))"

definition isEmpty :: "'a queue \<Rightarrow> bool" where
  "isEmpty q \<longleftrightarrow> bottom_index q \<le> top_index q"

definition queue_size :: "'a queue \<Rightarrow> 64 word" where
  "queue_size q = (if bottom_index q > top_index q then bottom_index q - top_index q else 0)"

section \<open>The queue as a double-ended queue\<close>

text \<open>What the queue still holds. The vector is never shortened: what \<open>pop\<close> took stays behind \<open>bottom\<close>.\<close>

definition pending :: "'a queue \<Rightarrow> 'a list" where
  "pending q = drop (unat (top_index q)) (take (unat (bottom_index q)) (items q))"

definition left_behind :: "'a queue \<Rightarrow> 'a list" where
  "left_behind q = drop (unat (bottom_index q)) (items q)"

text \<open>A queue without priorities: \<open>top\<close> is at most \<open>bottom\<close> and the length, and the vector is shorter than
  \<open>2 ^ 63\<close>. Before the first push a \<open>pop\<close> may have moved \<open>bottom\<close> below 0.\<close>

definition queue_ok :: "'a queue \<Rightarrow> bool" where
  "queue_ok q \<longleftrightarrow> priorityItems q = [] \<and> length (items q) < 2 ^ 63 \<and> top_index q \<le> bottom_index q
     \<and> unat (top_index q) \<le> length (items q)
     \<and> (0 < unat (bottom_index q) \<and> unat (bottom_index q) \<le> length (items q) \<or> items q = [])"

lemma ok_new: "queue_ok new_WorkStealingQueue" by (simp add: queue_ok_def new_WorkStealingQueue_def)

lemma unat_small: "n < 2 ^ 63 \<Longrightarrow> unat (word_of_nat n :: 64 word) = n"
  by (simp add: unat_of_nat take_bit_nat_eq_self)

lemma drop_split: "t \<le> b \<Longrightarrow> drop t xs = drop t (take b xs) @ drop b xs"
  by (metis append_take_drop_id diff_is_0_eq drop_append drop_drop drop_take le_add_diff_inverse2 append_Nil2 drop_eq_Nil2 length_take min.cobounded2 nat_le_linear take_all)

lemma push_pending:
  assumes "queue_ok q" "length (items q) + 1 < 2 ^ 63"
  shows "pending (push x q) = pending q @ left_behind q @ [x]" "queue_ok (push x q)" "left_behind (push x q) = []"
proof -
  have b: "unat (word_of_nat (Suc (length (items q))) :: 64 word) = Suc (length (items q))"
    using assms(2) by (intro unat_small) simp
  have "unat (top_index q) \<le> unat (bottom_index q)" using assms(1) by (simp add: queue_ok_def word_le_nat_alt)
  then show "pending (push x q) = pending q @ left_behind q @ [x]"
    using assms b drop_split [of "unat (top_index q)" "unat (bottom_index q)" "items q"]
    by (simp add: pending_def left_behind_def push_def queue_ok_def)
  show "queue_ok (push x q)" "left_behind (push x q) = []"
    using assms b by (auto simp: queue_ok_def push_def left_behind_def word_le_nat_alt)
qed

lemma steal_pending:
  assumes "queue_ok q"
  shows "steal q = (if pending q = [] then (None, q) else (Some (hd (pending q)), q\<lparr>top_index := top_index q + 1\<rparr>))"
proof -
  have tb: "unat (top_index q) \<le> unat (bottom_index q)" "unat (top_index q) \<le> length (items q)" "priorityItems q = []"
    using assms by (simp_all add: queue_ok_def word_le_nat_alt)
  have "pending q = [] \<longleftrightarrow> bottom_index q \<le> top_index q \<or> length (items q) \<le> unat (top_index q)"
    by (auto simp: pending_def word_le_nat_alt)
  moreover have "hd (pending q) = items q ! unat (top_index q)" if "\<not> bottom_index q \<le> top_index q" "unat (top_index q) < length (items q)"
    using that by (simp add: pending_def word_le_nat_alt hd_drop_conv_nth)
  ultimately show ?thesis
    using tb by (auto simp: steal_def steal_locked_def)
qed
lemma unat_all_ones: "unat (- 1 :: 64 word) = 2 ^ 64 - 1"
  by (simp add: unsigned_minus_1_eq_mask mask_eq_exp_minus_1)

lemma pop_pending:
  assumes "queue_ok q"
  shows "pop q =
    (if pending q = [] then
       (None, if bottom_index q = top_index q \<and> top_index q \<noteq> 0 then q else q\<lparr>bottom_index := bottom_index q - 1\<rparr>)
     else (Some (last (pending q)),
       if bottom_index q - 1 = top_index q then q\<lparr>top_index := top_index q + 1, bottom_index := top_index q + 1\<rparr>
       else q\<lparr>bottom_index := bottom_index q - 1\<rparr>))"
proof -
  define b where "b = bottom_index q"
  define t where "t = top_index q"
  have q: "priorityItems q = []" "unat t \<le> unat b" "unat t \<le> length (items q)" "length (items q) < 2 ^ 63"
      "0 < unat b \<and> unat b \<le> length (items q) \<or> items q = []"
    using assms by (simp_all add: queue_ok_def word_le_nat_alt b_def t_def)
  have run: "pop q = pop_tested (b - 1) t (q\<lparr>bottom_index := b - 1\<rparr>)"
    by (simp add: pop_def pop_load_def pop_store_def Let_def b_def t_def)
  consider "b = 0" | "items q = []" "b \<noteq> 0" | "b \<noteq> 0" "b = t" "unat b \<le> length (items q)"
    | "b \<noteq> 0" "unat t < unat b" "unat b \<le> length (items q)"
    using q(2,5) by (metis le_neq_implies_less word_unat_eq_iff)
  then show ?thesis
  proof cases
    case 1
    then have "t = 0" using q(2) by (simp add: unat_eq_0)
    then show ?thesis
      using 1 q run unat_all_ones unfolding pop_tested_def pop_locked_def
      by (simp add: pending_def b_def [symmetric] t_def [symmetric])
  next
    case 2
    then have "t = 0" using q(3) by (auto simp: unat_eq_0)
    then show ?thesis
      using 2 q run unfolding pop_tested_def pop_locked_def
      by (simp add: pending_def b_def [symmetric] t_def [symmetric])
  next
    case 3
    then have "0 < unat t" by (simp add: unat_gt_0)
    then have "b - 1 < t" using 3 by (simp add: word_less_nat_alt unat_minus_one)
    then show ?thesis
      using 3 q run unfolding pop_tested_def
      by (simp add: pending_def b_def [symmetric] t_def [symmetric])
  next
    case 4
    have u: "unat (b - 1) = unat b - 1" using 4(1) by (rule unat_minus_one)
    then have "\<not> b - 1 < t" "unat (b - 1) < length (items q)"
      using 4 by (auto simp: word_less_nat_alt)
    moreover have "last (pending q) = items q ! unat (b - 1)" "pending q \<noteq> []"
      using 4 u by (auto simp: pending_def b_def [symmetric] t_def [symmetric] last_conv_nth min_def)
    ultimately show ?thesis
      using 4 q run unfolding pop_tested_def pop_locked_def
      by (auto simp: b_def [symmetric] t_def [symmetric])
  qed
qed

lemma unat_Suc_word: "unat t < 2 ^ 63 \<Longrightarrow> unat (t + 1 :: 64 word) = Suc (unat t)"
  by (simp add: unat_plus_simple [THEN iffD1] unat_word_ariths)

lemma queue_okD:
  assumes "queue_ok q"
  shows "priorityItems q = []" "unat (top_index q) \<le> unat (bottom_index q)" "unat (top_index q) \<le> length (items q)"
    "unat (top_index q) < 2 ^ 63" "0 < unat (bottom_index q) \<and> unat (bottom_index q) \<le> length (items q) \<or> items q = []" "length (items q) < 2 ^ 63"
  using assms by (simp_all add: queue_ok_def word_le_nat_alt)

lemma pending_nonempty:
  assumes "queue_ok q" "pending q \<noteq> []"
  shows "unat (top_index q) < unat (bottom_index q)" "unat (bottom_index q) \<le> length (items q)"
  using assms queue_okD(5) [OF assms(1)] by (auto simp: pending_def)

lemma pop_ok:
  assumes q: "queue_ok q"
  shows "pending (snd (pop q)) = butlast (pending q)" "queue_ok (snd (pop q))"
proof -
  note ok = queue_okD [OF q]
  have "pending (snd (pop q)) = butlast (pending q) \<and> queue_ok (snd (pop q))"
  proof (cases "pending q = []")
    case True
    show ?thesis
    proof (cases "items q = []")
      case empty: True
      then have "top_index q = 0"
        using ok(3) by (simp add: unat_eq_0)
      then show ?thesis
        using q True empty unfolding pop_pending [OF q] by (simp add: pending_def queue_ok_def)
    next
      case False
      then have "unat (bottom_index q) = unat (top_index q)" "0 < unat (bottom_index q)"
        using True ok(2,3,5) by (auto simp: pending_def)
      then have "bottom_index q = top_index q" "top_index q \<noteq> 0"
        by (simp_all add: word_unat_eq_iff)
      then show ?thesis
        using q True unfolding pop_pending [OF q] by simp
    qed
  next
    case False
    note tb = pending_nonempty [OF q False]
    have b: "unat (bottom_index q - 1) = unat (bottom_index q) - 1"
      using tb(1) by (intro unat_minus_one) auto
    have t: "unat (top_index q + 1) = Suc (unat (top_index q))"
      using ok(4) by (rule unat_Suc_word)
    show ?thesis
    proof (cases "bottom_index q - 1 = top_index q")
      case True
      then have "unat (bottom_index q) = Suc (unat (top_index q))"
        using b tb(1) by simp
      then show ?thesis
        using True False ok tb t unfolding pop_pending [OF q]
        by (auto simp: pending_def queue_ok_def take_Suc_conv_app_nth)
    next
      case neq: False
      then have "unat (top_index q) < unat (bottom_index q) - 1"
        using b tb(1) word_unat_eq_iff [of "bottom_index q - 1" "top_index q"] by simp
      then show ?thesis
        using neq False ok tb b unfolding pop_pending [OF q]
        by (auto simp: pending_def queue_ok_def word_le_nat_alt butlast_take drop_butlast [symmetric])
    qed
  qed
  then show "pending (snd (pop q)) = butlast (pending q)" "queue_ok (snd (pop q))" by blast+
qed

lemma steal_ok:
  assumes q: "queue_ok q"
  shows "pending (snd (steal q)) = tl (pending q)" "queue_ok (snd (steal q))"
proof -
  note ok = queue_okD [OF q]
  have t: "unat (top_index q + 1) = Suc (unat (top_index q))"
    using ok(4) by (rule unat_Suc_word)
  have "pending (snd (steal q)) = tl (pending q) \<and> queue_ok (snd (steal q))"
  proof (cases "pending q = []")
    case False
    then show ?thesis
      using pending_nonempty [OF q False] ok t
      unfolding steal_pending [OF q] by (auto simp: pending_def queue_ok_def word_le_nat_alt drop_Suc tl_drop)
  qed (simp add: steal_pending [OF q] q)
  then show "pending (snd (steal q)) = tl (pending q)" "queue_ok (snd (steal q))" by blast+
qed

text \<open>C18: used by one thread the queue is a double-ended queue of what is pending: \<open>pop\<close> takes the last element,
  \<open>steal\<close> the first, and neither returns anything when it is empty. But \<open>push\<close> also brings back every element
  that \<open>pop\<close> has taken since the previous push.\<close>

theorem queue_refines_deque:
  assumes "queue_ok q"
  shows "fst (pop q) = (if pending q = [] then None else Some (last (pending q)))
    \<and> pending (snd (pop q)) = butlast (pending q) \<and> queue_ok (snd (pop q))
    \<and> fst (steal q) = (if pending q = [] then None else Some (hd (pending q)))
    \<and> pending (snd (steal q)) = tl (pending q) \<and> queue_ok (snd (steal q))
    \<and> (length (items q) + 1 < 2 ^ 63 \<longrightarrow>
         pending (push x q) = pending q @ left_behind q @ [x] \<and> queue_ok (push x q))"
  using pop_ok [OF assms] steal_ok [OF assms] push_pending [OF assms]
  by (simp add: pop_pending [OF assms] steal_pending [OF assms])

lemma pop_left_behind:
  assumes q: "queue_ok q" and two: "2 \<le> length (pending q)"
  shows "left_behind (snd (pop q)) = last (pending q) # left_behind q"
proof -
  have ne: "pending q \<noteq> []" using two by auto
  note tb = pending_nonempty [OF q ne]
  have b: "unat (bottom_index q - 1) = unat (bottom_index q) - 1"
    using tb(1) by (intro unat_minus_one) auto
  have "unat (top_index q) + 1 < unat (bottom_index q)"
    using two by (simp add: pending_def)
  then have "bottom_index q - 1 \<noteq> top_index q"
    using b by auto
  moreover have "last (pending q) = items q ! (unat (bottom_index q) - 1)"
    using tb by (simp add: pending_def last_conv_nth min_def)
  ultimately show ?thesis
    using ne b tb Cons_nth_drop_Suc [of "unat (bottom_index q) - 1" "items q"] unfolding pop_pending [OF q]
    by (simp add: left_behind_def)
qed

text \<open>A task that \<open>pop\<close> has returned is returned a second time after the next push, when the queue held another
  task besides it.\<close>

theorem pop_returns_twice:
  assumes "queue_ok q" "left_behind q = []" "2 \<le> length (pending q)" "length (items q) + 1 < 2 ^ 63"
  shows "fst (pop (snd (pop (push y (snd (pop q)))))) = fst (pop q)"
proof -
  have ne: "pending q \<noteq> []" using assms(3) by auto
  note ok = pop_ok [OF assms(1)]
  have "length (items (snd (pop q))) = length (items q)"
    unfolding pop_pending [OF assms(1)] by simp
  then have push: "pending (push y (snd (pop q))) = butlast (pending q) @ [last (pending q), y]"
      "queue_ok (push y (snd (pop q)))"
    using push_pending [OF ok(2), of y] pop_left_behind [OF assms(1,3)] assms(2,4) ok(1) by simp_all
  have "pending (snd (pop (push y (snd (pop q))))) = pending q"
    using pop_ok(1) [OF push(2)] push(1) ne by (simp add: butlast_append)
  then show ?thesis
    using pop_pending [OF pop_ok(2) [OF push(2)]] pop_pending [OF assms(1)] ne by simp
qed

lemma pop_returns_twice_witness:
  "fst (pop (push (2::nat) (push 1 new_WorkStealingQueue))) = Some 2
   \<and> fst (pop (snd (pop (push 3 (snd (pop (push 2 (push (1::nat) new_WorkStealingQueue)))))))) = Some 2"
proof -
  let ?q = "push (2::nat) (push 1 new_WorkStealingQueue)"
  have ok: "queue_ok (push (1::nat) new_WorkStealingQueue)" "left_behind (push (1::nat) new_WorkStealingQueue) = []"
      "pending (push (1::nat) new_WorkStealingQueue) = [1]"
    using push_pending [OF ok_new, of "1::nat"] by (simp_all add: new_WorkStealingQueue_def pending_def left_behind_def)
  have q: "queue_ok ?q" "left_behind ?q = []" "pending ?q = [1, 2]"
    using push_pending [OF ok(1), of 2] ok by (simp_all add: new_WorkStealingQueue_def push_def)
  have len: "length (items ?q) + 1 < 2 ^ 63"
    by (simp add: push_def new_WorkStealingQueue_def)
  have "fst (pop ?q) = Some 2"
    using pop_pending [OF q(1)] q(3) by simp
  then show ?thesis
    using pop_returns_twice [OF q(1,2) _ len, of 3] q(3) by simp
qed

lemma queue_refines_deque_witness:
  "fst (pop (push 3 new_WorkStealingQueue)) = Some (3::nat)"
proof -
  have "pending (push 3 new_WorkStealingQueue) = [3::nat]" "queue_ok (push (3::nat) new_WorkStealingQueue)"
    using push_pending [OF ok_new, of "3::nat"] by (simp_all add: new_WorkStealingQueue_def pending_def left_behind_def)
  then show ?thesis using queue_refines_deque [of "push (3::nat) new_WorkStealingQueue" 0] by simp
qed

text \<open>\<open>pop\<close> changes \<open>bottom\<close> without the mutex. When another thread pushes between its load and its store, on
  a queue that has become empty, the new task is not pending afterwards: nobody gets it before the next push.\<close>

theorem push_lost:
  assumes "queue_ok q" "pending q = []" "items q \<noteq> []" "length (items q) + 1 < 2 ^ 63"
  shows "\<exists>r. pop_tested (pop_load q) (top_index q) (pop_store (pop_load q) (push x q)) = (None, r)
    \<and> queue_ok r \<and> pending r = [] \<and> x \<in> set (items r) \<and> fst (steal r) = None \<and> fst (pop r) = None"
proof -
  note ok = queue_okD [OF assms(1)]
  have tb: "bottom_index q = top_index q" "0 < unat (top_index q)"
    using assms(2,3) ok(2,3,5) by (auto simp: pending_def word_unat_eq_iff)
  then have less: "top_index q - 1 < top_index q"
    by (simp add: word_less_nat_alt unat_minus_one unat_gt_0)
  let ?r = "(push x q)\<lparr>bottom_index := top_index q\<rparr>"
  have run: "pop_tested (pop_load q) (top_index q) (pop_store (pop_load q) (push x q)) = (None, ?r)"
    using tb less by (simp add: pop_tested_def pop_load_def pop_store_def push_def)
  have r: "queue_ok ?r" "pending ?r = []"
    using ok tb assms(4) by (auto simp: queue_ok_def pending_def push_def)
  then show ?thesis
    using run pop_pending [OF r(1)] steal_pending [OF r(1)] by (auto simp: push_def)
qed

lemma push_lost_witness:
  "let q = snd (pop (push (1::nat) new_WorkStealingQueue)) in
    fst (pop_tested (pop_load q) (top_index q) (pop_store (pop_load q) (push 2 q))) = None"
proof -
  let ?p = "push (1::nat) new_WorkStealingQueue"
  note p = push_pending [OF ok_new, of "1::nat"]
  have ok: "queue_ok ?p" "pending ?p = [1]"
    using p by (simp_all add: new_WorkStealingQueue_def pending_def left_behind_def)
  have "items (snd (pop ?p)) = [1]"
    unfolding pop_pending [OF ok(1)] by (simp add: push_def new_WorkStealingQueue_def)
  then show ?thesis
    using push_lost [of "snd (pop ?p)" 2] pop_ok [OF ok(1)] ok(2) by (auto simp: Let_def)
qed

section \<open>Workers\<close>

text \<open>A queue holds the numbers of fibers. \<open>worker_at\<close> is the place in \<open>Worker::run\<close> where the thread of
  the worker is: in the loop, in \<open>pop\<close>, in \<open>resume\<close>, or nowhere when there is no thread.\<close>

datatype place =
    No_Thread
  | Loop_Test
  | Pop_Start
  | Pop_Loaded "64 word"
  | Pop_Stored "64 word"
  | Pop_Empty "64 word"
  | Pop_Locking "64 word" "64 word"
  | Resuming nat resume_at
  | Resumed nat

record Worker =
  worker_queue :: "nat queue"
  numaNode :: int
  cpuAffinity :: int
  worker_running :: bool
  worker_stopping :: bool
  fibersExecuted :: "64 word"
  fibersStolen :: "64 word"
  worker_at :: place

definition new_Worker :: "int \<Rightarrow> int \<Rightarrow> Worker" where
  "new_Worker node cpu = \<lparr>worker_queue = new_WorkStealingQueue, numaNode = node, cpuAffinity = cpu,
     worker_running = False, worker_stopping = False, fibersExecuted = 0, fibersStolen = 0, worker_at = No_Thread\<rparr>"

definition worker_start :: "Worker \<Rightarrow> Worker" where
  "worker_start w =
     (if worker_running w then w else w\<lparr>worker_running := True, worker_stopping := False, worker_at := Loop_Test\<rparr>)"

definition worker_stop :: "Worker \<Rightarrow> Worker" where
  "worker_stop w = w\<lparr>worker_stopping := True\<rparr>"

definition addFiber :: "nat \<Rightarrow> Worker \<Rightarrow> Worker" where
  "addFiber f w = w\<lparr>worker_queue := push f (worker_queue w)\<rparr>"

definition stealFiber :: "Worker \<Rightarrow> nat option \<times> Worker" where
  "stealFiber w =
     (case steal (worker_queue w) of
        (None, q) \<Rightarrow> (None, w\<lparr>worker_queue := q\<rparr>)
      | (Some f, q) \<Rightarrow> (Some f, w\<lparr>worker_queue := q, fibersStolen := fibersStolen w + 1\<rparr>))"

definition setCPUAffinity :: "int \<Rightarrow> Worker \<Rightarrow> Worker" where
  "setCPUAffinity cpu w = w\<lparr>cpuAffinity := cpu\<rparr>"

definition setNUMANode :: "int \<Rightarrow> Worker \<Rightarrow> Worker" where
  "setNUMANode node w = w\<lparr>numaNode := node\<rparr>"

text \<open>One step of the thread of a worker. Each load and store of \<open>pop\<close> outside the mutex is a step of its own.\<close>

definition worker_step ::
  "(nat \<Rightarrow> nat option) \<Rightarrow> Worker \<Rightarrow> (nat \<Rightarrow> fiber) \<Rightarrow> Worker \<times> (nat \<Rightarrow> fiber)" where
  "worker_step func w fs =
     (let q = worker_queue w in
      case worker_at w of
        No_Thread \<Rightarrow> (w, fs)
      | Loop_Test \<Rightarrow>
          (if worker_running w \<and> \<not> worker_stopping w then w\<lparr>worker_at := Pop_Start\<rparr>
           else w\<lparr>worker_running := False, worker_at := No_Thread\<rparr>, fs)
      | Pop_Start \<Rightarrow> (w\<lparr>worker_at := Pop_Loaded (pop_load q)\<rparr>, fs)
      | Pop_Loaded b \<Rightarrow> (w\<lparr>worker_queue := pop_store b q, worker_at := Pop_Stored b\<rparr>, fs)
      | Pop_Stored b \<Rightarrow>
          (let t = top_index q in
           (w\<lparr>worker_at := if b < t then Pop_Empty t else Pop_Locking b t\<rparr>, fs))
      | Pop_Empty t \<Rightarrow> (w\<lparr>worker_queue := q\<lparr>bottom_index := t\<rparr>, worker_at := Loop_Test\<rparr>, fs)
      | Pop_Locking b t \<Rightarrow>
          (case pop_locked b t q of
             (None, q1) \<Rightarrow> (w\<lparr>worker_queue := q1, worker_at := Loop_Test\<rparr>, fs)
           | (Some f, q1) \<Rightarrow> (w\<lparr>worker_queue := q1, worker_at := Resuming f Testing\<rparr>, fs))
      | Resuming f r \<Rightarrow>
          (let (g, r1) = resume_step (func f) (fs f, r) in
           (w\<lparr>worker_at := if r1 = Returned then Resumed f else Resuming f r1\<rparr>, fs(f := g)))
      | Resumed f \<Rightarrow>
          (if isCompleted (fs f) then w\<lparr>fibersExecuted := fibersExecuted w + 1, worker_at := Loop_Test\<rparr>
           else w\<lparr>worker_queue := push f q, worker_at := Loop_Test\<rparr>, fs))"

section \<open>Scheduler\<close>

text \<open>\<open>balancer\<close> is the place of the balancing thread: before a round, at worker \<open>i\<close> as thief and \<open>j\<close> as
  victim, inside \<open>steal\<close> of the victim's queue, or with a stolen fiber. \<open>overlaps\<close> counts for the theorems how
  often a worker passed the test of \<open>resume\<close> while another one was inside the same fiber.\<close>

datatype balancer_at =
    Round_Over
  | Victim nat nat
  | Stealing nat nat "64 word"
  | Steal_Locking nat nat "64 word"
  | Carrying nat nat

record scheduler =
  workers :: "Worker list"
  nextWorker :: "64 word"
  activeFibers :: "64 word"
  completedFibers :: "64 word"
  scheduler_running :: bool
  fiberStackSize :: "64 word"
  numaAware :: bool
  numNUMANodes :: nat
  nextFiber :: nat
  fibers :: "nat \<Rightarrow> fiber"
  balancer :: balancer_at
  overlaps :: "nat \<Rightarrow> nat"

text \<open>\<open>detectNUMATopology\<close> and \<open>hardware_concurrency\<close> ask the operating system: their answers are arguments. Every
  branch of the first gives at least one node.\<close>

definition initialize_workers :: "nat \<Rightarrow> nat \<Rightarrow> scheduler \<Rightarrow> scheduler" where
  "initialize_workers n nodes s =
     (let m = (if n = 0 then 1 else n);
          perNode = (m + nodes - 1) div nodes;
          ws = (if numaAware s \<and> nodes > 0
                then map (\<lambda>i. new_Worker (int (i div perNode)) (int (i div perNode * perNode + i mod perNode))) [0..<m]
                else map (\<lambda>i. new_Worker (-1) (-1)) [0..<m])
      in s\<lparr>numNUMANodes := nodes, workers := workers s @ ws\<rparr>)"

definition new_LightweightScheduler :: "nat \<Rightarrow> nat \<Rightarrow> scheduler" where
  "new_LightweightScheduler n nodes = initialize_workers n nodes
     \<lparr>workers = [], nextWorker = 0, activeFibers = 0, completedFibers = 0, scheduler_running = False,
      fiberStackSize = 4096, numaAware = False, numNUMANodes = 0, nextFiber = 1, fibers = (\<lambda>i. new_Fiber i Normal),
      balancer = Round_Over, overlaps = (\<lambda>i. 0)\<rparr>"

definition scheduler_start :: "scheduler \<Rightarrow> scheduler" where
  "scheduler_start s =
     (if scheduler_running s then s
      else s\<lparr>scheduler_running := True, workers := map worker_start (workers s)\<rparr>)"

definition scheduler_stop :: "scheduler \<Rightarrow> scheduler" where
  "scheduler_stop s = s\<lparr>scheduler_running := False, workers := map worker_stop (workers s)\<rparr>"

text \<open>The predicate that \<open>waitAll\<close> waits for.\<close>

definition all_done :: "scheduler \<Rightarrow> bool" where
  "all_done s \<longleftrightarrow> activeFibers s = 0"

definition setMaxWorkers :: "nat \<Rightarrow> nat \<Rightarrow> scheduler \<Rightarrow> scheduler" where
  "setMaxWorkers n nodes s =
     (if scheduler_running s then s else initialize_workers n nodes (s\<lparr>workers := []\<rparr>))"

definition setFiberStackSize :: "64 word \<Rightarrow> scheduler \<Rightarrow> scheduler" where
  "setFiberStackSize n s = s\<lparr>fiberStackSize := max n 1024\<rparr>"

definition enableNUMAAwareness :: "nat \<Rightarrow> nat \<Rightarrow> bool \<Rightarrow> scheduler \<Rightarrow> scheduler" where
  "enableNUMAAwareness hardware nodes enable s =
     (if scheduler_running s then s
      else initialize_workers hardware nodes (s\<lparr>numaAware := enable, workers := []\<rparr>))"

definition setWorkerAffinity :: "nat \<Rightarrow> int \<Rightarrow> int \<Rightarrow> scheduler \<Rightarrow> scheduler" where
  "setWorkerAffinity i cpu node s =
     (if i < length (workers s)
      then s\<lparr>workers := (workers s)[i := setNUMANode node (setCPUAffinity cpu (workers s ! i))]\<rparr> else s)"

fun find_node :: "nat \<Rightarrow> Worker list \<Rightarrow> nat option" where
  "find_node i [] = None"
| "find_node i (w # ws) = (if numaNode w = 0 then Some i else find_node (i + 1) ws)"

definition round_robin :: "scheduler \<Rightarrow> nat \<times> scheduler" where
  "round_robin s = (unat (nextWorker s) mod length (workers s), s\<lparr>nextWorker := nextWorker s + 1\<rparr>)"

definition selectWorkerForFiber :: "Priority \<Rightarrow> scheduler \<Rightarrow> nat \<times> scheduler" where
  "selectWorkerForFiber p s =
     (if \<not> numaAware s \<or> numNUMANodes s \<le> 1 then round_robin s
      else if priority_code p \<le> priority_code High then
        (case find_node 0 (workers s) of Some i \<Rightarrow> (i, s) | None \<Rightarrow> round_robin s)
      else round_robin s)"

definition goWithPriority :: "Priority \<Rightarrow> scheduler \<Rightarrow> nat \<times> scheduler" where
  "goWithPriority p s =
     (let f = nextFiber s;
          s1 = s\<lparr>nextFiber := f + 1, fibers := (fibers s)(f := new_Fiber f p)\<rparr>;
          (i, s2) = selectWorkerForFiber p s1
      in (f, s2\<lparr>workers := (workers s2)[i := addFiber f (workers s2 ! i)], activeFibers := activeFibers s2 + 1\<rparr>))"

definition go :: "scheduler \<Rightarrow> nat \<times> scheduler" where
  "go = goWithPriority Normal"

text \<open>Worker \<open>i\<close> takes one fiber from the first other worker that has one.\<close>

fun steal_for :: "nat \<Rightarrow> nat list \<Rightarrow> Worker list \<Rightarrow> Worker list" where
  "steal_for i [] ws = ws"
| "steal_for i (j # js) ws =
     (if i = j then steal_for i js ws
      else case stealFiber (ws ! j) of
        (None, w) \<Rightarrow> steal_for i js (ws[j := w])
      | (Some f, w) \<Rightarrow> (ws[j := w])[i := addFiber f (ws[j := w] ! i)])"

definition balanceLoad :: "scheduler \<Rightarrow> scheduler" where
  "balanceLoad s =
     (if length (workers s) < 2 then s
      else s\<lparr>workers := foldl (\<lambda>ws i. steal_for i [0..<length ws] ws) (workers s) [0..<length (workers s)]\<rparr>)"

text \<open>One step of the balancing thread. The loads of \<open>steal\<close> outside the mutex are steps of their own.\<close>

definition next_thief :: "nat \<Rightarrow> scheduler \<Rightarrow> balancer_at" where
  "next_thief i s = (if i + 1 < length (workers s) then Victim (i + 1) 0 else Round_Over)"

definition balancer_step :: "scheduler \<Rightarrow> scheduler" where
  "balancer_step s =
     (case balancer s of
        Round_Over \<Rightarrow>
          (if scheduler_running s \<and> 2 \<le> length (workers s) then s\<lparr>balancer := Victim 0 0\<rparr> else s)
      | Victim i j \<Rightarrow>
          s\<lparr>balancer :=
            if length (workers s) \<le> j then next_thief i s
            else if i = j then Victim i (j + 1)
            else Stealing i j (top_index (worker_queue (workers s ! j)))\<rparr>
      | Stealing i j t \<Rightarrow>
          s\<lparr>balancer := if bottom_index (worker_queue (workers s ! j)) \<le> t then Victim i (j + 1) else Steal_Locking i j t\<rparr>
      | Steal_Locking i j t \<Rightarrow>
          (let w = workers s ! j in
           case steal_locked t (worker_queue w) of
             (None, q) \<Rightarrow> s\<lparr>workers := (workers s)[j := w\<lparr>worker_queue := q\<rparr>], balancer := Victim i (j + 1)\<rparr>
           | (Some f, q) \<Rightarrow>
               s\<lparr>workers := (workers s)[j := w\<lparr>worker_queue := q, fibersStolen := fibersStolen w + 1\<rparr>], balancer := Carrying i f\<rparr>)
      | Carrying i f \<Rightarrow> s\<lparr>workers := (workers s)[i := addFiber f (workers s ! i)], balancer := next_thief i s\<rparr>)"

section \<open>Runs of a scheduler\<close>

text \<open>What happens to a scheduler, in any order: calls of its operations, steps of its workers, steps of the
  balancing thread. A call of \<open>setMaxWorkers\<close> or \<open>enableNUMAAwareness\<close> first waits for the threads of the workers
  to end (their destructor joins them). The balancing thread is detached and nobody waits for it: when the
  workers are destroyed during its round, what follows is undefined.\<close>

datatype command =
    Go Priority
  | Start
  | Stop
  | Set_Max nat nat
  | Set_Stack "64 word"
  | Enable_NUMA nat nat bool
  | Set_Affinity nat int int
  | Work nat
  | Balance

definition within :: "nat \<Rightarrow> place \<Rightarrow> bool" where
  "within f p = (case p of Resuming g r \<Rightarrow> g = f \<and> r \<noteq> Testing | _ \<Rightarrow> False)"

abbreviation places :: "scheduler \<Rightarrow> place list" where
  "places s \<equiv> map worker_at (workers s)"

definition passes_test :: "place \<Rightarrow> place \<Rightarrow> nat \<Rightarrow> bool" where
  "passes_test p p1 f \<longleftrightarrow> p = Resuming f Testing \<and> p1 = Resuming f Entering"

definition work :: "(nat \<Rightarrow> nat) \<Rightarrow> nat \<Rightarrow> scheduler \<Rightarrow> scheduler" where
  "work yields i s =
     (if i < length (workers s) then
        (let w = workers s ! i; (w1, fs) = worker_step (\<lambda>f. Some (yields f)) w (fibers s)
         in s\<lparr>workers := (workers s)[i := w1], fibers := fs,
              overlaps := (\<lambda>f. overlaps s f
                + (if passes_test (worker_at w) (worker_at w1) f \<and> list_ex (within f) (places s) then 1 else 0))\<rparr>)
      else s)"

definition replaced :: "(scheduler \<Rightarrow> scheduler) \<Rightarrow> scheduler \<Rightarrow> scheduler option" where
  "replaced f s =
     (if scheduler_running s then Some (f s)
      else if \<not> list_all (\<lambda>p. p = No_Thread) (places s) then Some s
      else if balancer s \<noteq> Round_Over then None
      else Some (f s))"

primrec scheduler_do :: "(nat \<Rightarrow> nat) \<Rightarrow> command \<Rightarrow> scheduler \<Rightarrow> scheduler option" where
  "scheduler_do yields (Go p) s = Some (snd (goWithPriority p s))"
| "scheduler_do yields Start s = Some (scheduler_start s)"
| "scheduler_do yields Stop s = Some (scheduler_stop s)"
| "scheduler_do yields (Set_Max n nodes) s = replaced (setMaxWorkers n nodes) s"
| "scheduler_do yields (Set_Stack k) s = Some (setFiberStackSize k s)"
| "scheduler_do yields (Enable_NUMA hw nodes b) s = replaced (enableNUMAAwareness hw nodes b) s"
| "scheduler_do yields (Set_Affinity i cpu node) s = Some (setWorkerAffinity i cpu node s)"
| "scheduler_do yields (Work i) s = Some (work yields i s)"
| "scheduler_do yields Balance s = Some (balancer_step s)"

primrec scheduler_run :: "(nat \<Rightarrow> nat) \<Rightarrow> command list \<Rightarrow> scheduler \<Rightarrow> scheduler option" where
  "scheduler_run yields [] s = Some s"
| "scheduler_run yields (c # cs) s = Option.bind (scheduler_do yields c s) (scheduler_run yields cs)"

text \<open>An invariant that every command keeps holds after every run.\<close>

lemma run_invariant:
  assumes "\<And>c s t. P s \<Longrightarrow> scheduler_do yields c s = Some t \<Longrightarrow> P t"
  shows "P s \<Longrightarrow> scheduler_run yields cs s = Some t \<Longrightarrow> P t"
proof (induction cs arbitrary: s)
  case (Cons c cs)
  then show ?case using assms by (auto split: bind_splits)
qed simp

section \<open>Calls of a fiber's function\<close>

lemma initialize_sel [simp]:
  "fibers (initialize_workers n m s) = fibers s" "nextFiber (initialize_workers n m s) = nextFiber s"
  "activeFibers (initialize_workers n m s) = activeFibers s" "completedFibers (initialize_workers n m s) = completedFibers s"
  "balancer (initialize_workers n m s) = balancer s" "overlaps (initialize_workers n m s) = overlaps s"
  by (simp_all add: initialize_workers_def Let_def)

lemma select_sel:
  "selectWorkerForFiber p s = (i, t) \<Longrightarrow> fibers t = fibers s \<and> nextFiber t = nextFiber s \<and> workers t = workers s
    \<and> activeFibers t = activeFibers s \<and> completedFibers t = completedFibers s \<and> balancer t = balancer s \<and> overlaps t = overlaps s"
  by (auto simp: selectWorkerForFiber_def round_robin_def split: if_splits option.splits)

text \<open>Queues, workers and the balancing thread hold only numbers of fibers that exist.\<close>

definition holds_below :: "nat \<Rightarrow> nat queue \<Rightarrow> bool" where
  "holds_below n q \<longleftrightarrow> (\<forall>f \<in> set (items q). f < n) \<and> (\<forall>x \<in> set (priorityItems q). item x < n)"

definition place_below :: "nat \<Rightarrow> place \<Rightarrow> bool" where
  "place_below n p = (case p of Resuming f r \<Rightarrow> f < n | Resumed f \<Rightarrow> f < n | _ \<Rightarrow> True)"

definition worker_below :: "nat \<Rightarrow> Worker \<Rightarrow> bool" where
  "worker_below n w \<longleftrightarrow> holds_below n (worker_queue w) \<and> place_below n (worker_at w)
     \<and> (\<not> worker_running w \<longrightarrow> worker_at w = No_Thread)"

definition balancer_below :: "nat \<Rightarrow> nat \<Rightarrow> balancer_at \<Rightarrow> bool" where
  "balancer_below k n p =
     (case p of
        Round_Over \<Rightarrow> True
      | Victim i j \<Rightarrow> i < k
      | Stealing i j t \<Rightarrow> i < k \<and> j < k
      | Steal_Locking i j t \<Rightarrow> i < k \<and> j < k
      | Carrying i f \<Rightarrow> i < k \<and> f < n)"

definition known :: "scheduler \<Rightarrow> bool" where
  "known s \<longleftrightarrow> list_all (worker_below (nextFiber s)) (workers s)
     \<and> balancer_below (length (workers s)) (nextFiber s) (balancer s)"

lemma below_push: "holds_below n (push f q) = (f < n \<and> holds_below n q)"
  by (auto simp: holds_below_def push_def)

lemma below_pop: "holds_below n q \<Longrightarrow> pop_locked b t q = (r, q1) \<Longrightarrow> holds_below n q1 \<and> (\<forall>f. r = Some f \<longrightarrow> f < n)"
  by (auto simp: holds_below_def pop_locked_def split: if_splits dest!: in_set_butlastD)

lemma below_steal: "holds_below n q \<Longrightarrow> steal_locked t q = (r, q1) \<Longrightarrow> holds_below n q1 \<and> (\<forall>f. r = Some f \<longrightarrow> f < n)"
  by (auto simp: holds_below_def steal_locked_def split: if_splits dest: list.set_sel(2))

lemma holds_mono:
  "holds_below n q \<Longrightarrow> n \<le> m \<Longrightarrow> holds_below m q" "place_below n p \<Longrightarrow> n \<le> m \<Longrightarrow> place_below m p"
  by (auto simp: holds_below_def place_below_def split: place.splits)

lemma below_new: "worker_below n (new_Worker node cpu)"
  by (simp add: worker_below_def new_Worker_def holds_below_def new_WorkStealingQueue_def place_below_def)

lemma below_initialize:
  "list_all (worker_below n) (workers s) \<Longrightarrow> list_all (worker_below n) (workers (initialize_workers k m s))"
  by (auto simp: initialize_workers_def Let_def list_all_iff below_new)

lemma below_worker_step:
  assumes "worker_below n w" "worker_step func w fs = (w1, fs1)"
  shows "worker_below n w1"
proof -
  have "holds_below n (pop_store b q) = holds_below n q" "holds_below n (q\<lparr>bottom_index := b\<rparr>) = holds_below n q" for b q
    by (simp_all add: holds_below_def pop_store_def)
  then show ?thesis
    using assms
    by (auto simp: worker_step_def worker_below_def place_below_def Let_def below_push split: place.splits if_splits prod.splits option.splits
        dest: below_pop)
qed

text \<open>For one fiber: every call but one began with a test that was passed while somebody was inside, and when
  nobody is inside the fiber is completed or was never called.\<close>

definition entering :: "nat \<Rightarrow> place list \<Rightarrow> nat" where
  "entering f ps = length (filter (\<lambda>p. p = Resuming f Entering) ps)"

definition calls_ok :: "place list \<Rightarrow> nat \<Rightarrow> fiber \<Rightarrow> nat \<Rightarrow> bool" where
  "calls_ok ps f g k \<longleftrightarrow>
     fiber_calls g + entering f ps \<le> 1 + k
     \<and> (fiber_state g = Completed \<longrightarrow> 0 < fiber_calls g)
     \<and> (\<forall>n. Resuming f (In_Function n) \<in> set ps \<longrightarrow> 0 < fiber_calls g)
     \<and> (list_ex (within f) ps \<or> fiber_state g = (if fiber_calls g = 0 then Ready else Completed))
     \<and> Resuming f Returned \<notin> set ps"

lemma nobody_entering: "\<not> list_ex (within f) ps \<Longrightarrow> filter (\<lambda>p. p = Resuming f Entering) ps = []"
  by (auto simp: list_ex_iff within_def filter_empty_conv)

lemma calls_ok_other:
  assumes "calls_ok (as @ p # bs) f g k" "\<forall>r. p \<noteq> Resuming f r" "\<forall>r. p1 = Resuming f r \<longrightarrow> r = Testing"
  shows "calls_ok (as @ p1 # bs) f g k"
proof -
  have "\<not> within f p" "\<not> within f p1"
    using assms(2,3) by (auto simp: within_def split: place.splits)
  then show ?thesis
    using assms by (auto simp: calls_ok_def entering_def)
qed

lemma calls_ok_step:
  assumes ok: "calls_ok (as @ worker_at w # bs) f (fs f) k"
    and step: "worker_step (\<lambda>f. Some (yields f)) w fs = (w1, fs1)"
  shows "calls_ok (as @ worker_at w1 # bs) f (fs1 f)
    (k + (if passes_test (worker_at w) (worker_at w1) f \<and> list_ex (within f) (as @ worker_at w # bs) then 1 else 0))"
proof (cases "\<exists>r. worker_at w = Resuming f r")
  case False
  have "fs1 f = fs f" "\<forall>r. worker_at w1 = Resuming f r \<longrightarrow> r = Testing"
    using False step by (auto simp: worker_step_def Let_def split: place.splits if_splits prod.splits option.splits)
  moreover have "\<not> passes_test (worker_at w) (worker_at w1) f"
    using False by (simp add: passes_test_def)
  ultimately show ?thesis
    using calls_ok_other [OF ok, of "worker_at w1"] False by simp
next
  case True
  then obtain r where r: "worker_at w = Resuming f r" by blast
  show ?thesis
  proof (cases r)
    case Testing
    then show ?thesis
      using ok step r
      by (auto simp: worker_step_def resume_step_def calls_ok_def entering_def passes_test_def within_def nobody_entering split: if_splits)
  next
    case Entering
    then show ?thesis
      using ok step r
      by (auto simp: worker_step_def resume_step_def calls_ok_def entering_def passes_test_def within_def)
  next
    case (In_Function n)
    then show ?thesis
      using ok step r
      by (auto simp: worker_step_def resume_step_def calls_ok_def entering_def passes_test_def within_def complete_def yield_def split: if_splits)
  next
    case Returned
    then show ?thesis using ok r by (simp add: calls_ok_def)
  qed
qed

text \<open>A thread that starts is not inside a fiber.\<close>

lemma calls_ok_started:
  assumes "list_all2 (\<lambda>p q. p = q \<or> p = No_Thread \<and> q = Loop_Test) ps qs" "calls_ok ps f g c"
  shows "calls_ok qs f g c"
proof -
  have "entering f ps = entering f qs \<and> list_ex (within f) ps = list_ex (within f) qs
      \<and> (\<forall>r. Resuming f r \<in> set ps \<longleftrightarrow> Resuming f r \<in> set qs)"
    using assms(1) by (induction rule: list_all2_induct) (auto simp: entering_def within_def)
  then show ?thesis using assms(2) by (simp add: calls_ok_def)
qed

definition sched_ok :: "scheduler \<Rightarrow> bool" where
  "sched_ok s \<longleftrightarrow> known s \<and> (\<forall>f. calls_ok (places s) f (fibers s f) (overlaps s f))"

lemma known_update:
  assumes "list_all (worker_below n) ws" "i < length ws \<Longrightarrow> worker_below n w"
  shows "list_all (worker_below n) (ws[i := w])"
  using assms by (cases "i < length ws") (auto simp: list_all_length nth_list_update)

lemma known_nth: "list_all (worker_below n) ws \<Longrightarrow> i < length ws \<Longrightarrow> worker_below n (ws ! i)"
  by (simp add: list_all_length)

lemma no_place:
  assumes "place_below n p" "n \<le> f" shows "Resuming f r \<noteq> p" "\<not> within f p"
  using assms by (auto simp: place_below_def within_def split: place.splits)

lemma places_same [simp]: "(places s)[j := worker_at (workers s ! j)] = places s"
  by (cases "j < length (workers s)") (simp_all add: list_update_same_conv list_update_beyond)

lemma go_ok: assumes "sched_ok s" shows "sched_ok (snd (goWithPriority p s))"
proof -
  define s1 where "s1 = s\<lparr>nextFiber := nextFiber s + 1, fibers := (fibers s)(nextFiber s := new_Fiber (nextFiber s) p)\<rparr>"
  obtain i s2 where sel: "selectWorkerForFiber p s1 = (i, s2)" by fastforce
  have k: "list_all (worker_below (nextFiber s + 1)) (workers s)"
    "balancer_below (length (workers s)) (nextFiber s + 1) (balancer s)"
    using assms holds_mono [where n = "nextFiber s" and m = "nextFiber s + 1"]
    by (auto simp: sched_ok_def known_def list_all_iff worker_below_def balancer_below_def split: balancer_at.splits)
  have w: "i < length (workers s) \<Longrightarrow> worker_below (nextFiber s + 1) (addFiber (nextFiber s) (workers s ! i))"
    using known_nth [OF k(1), of i] by (simp add: worker_below_def addFiber_def below_push)
  have "\<forall>p \<in> set (places s). place_below (nextFiber s) p"
    using assms by (auto simp: sched_ok_def known_def list_all_iff worker_below_def)
  then have "list_all (\<lambda>p. \<not> within (nextFiber s) p \<and> (\<forall>r. Resuming (nextFiber s) r \<noteq> p)) (places s)"
    unfolding list_all_iff using no_place by blast
  then have "calls_ok (places s) (nextFiber s) (new_Fiber (nextFiber s) p) (overlaps s (nextFiber s))"
    by (auto simp: calls_ok_def entering_def new_Fiber_def list_all_iff list_ex_iff filter_empty_conv comp_def nobody_entering)
  moreover have "places (snd (goWithPriority p s)) = places s"
    using select_sel [OF sel] sel unfolding goWithPriority_def Let_def s1_def [symmetric]
    by (auto simp: s1_def map_update addFiber_def)
  ultimately show ?thesis
    using assms k w select_sel [OF sel] sel unfolding goWithPriority_def Let_def s1_def [symmetric]
    by (auto simp: sched_ok_def known_def s1_def intro: known_update)
qed

lemma work_ok: assumes "sched_ok s" shows "sched_ok (work yields i s)"
proof (cases "i < length (workers s)")
  case True
  let ?w = "workers s ! i"
  obtain w1 fs where step: "worker_step (\<lambda>f. Some (yields f)) ?w (fibers s) = (w1, fs)" by fastforce
  have split: "places s = take i (places s) @ worker_at ?w # drop (Suc i) (places s)"
    using id_take_nth_drop [of i "places s"] True by simp
  have "places (work yields i s) = take i (places s) @ worker_at w1 # drop (Suc i) (places s)"
    using True step by (simp add: work_def map_update upd_conv_take_nth_drop take_map drop_map)
  moreover have "calls_ok (take i (places s) @ worker_at ?w # drop (Suc i) (places s)) f (fibers s f) (overlaps s f)" for f
    using assms unfolding split [symmetric] by (simp add: sched_ok_def)
  note calls_ok_step [OF this step, unfolded split [symmetric]]
  moreover have "worker_below (nextFiber s) w1"
    using assms True below_worker_step [OF _ step] by (simp add: sched_ok_def known_def known_nth)
  ultimately show ?thesis
    using assms True step by (auto simp: sched_ok_def known_def work_def intro: known_update)
qed (simp add: work_def assms)

lemma balancer_ok: assumes "sched_ok s" shows "sched_ok (balancer_step s)"
proof -
  have k: "list_all (worker_below (nextFiber s)) (workers s)"
    using assms by (simp add: sched_ok_def known_def)
  have below: "balancer_below (length (workers s)) (nextFiber s) (balancer s)"
    using assms by (simp add: sched_ok_def known_def)
  show ?thesis
  proof (cases "balancer s")
    case (Steal_Locking i j t)
    let ?w = "workers s ! j"
    obtain r q where r: "steal_locked t (worker_queue ?w) = (r, q)" by fastforce
    have ij: "i < length (workers s)" "j < length (workers s)"
      using below Steal_Locking by (simp_all add: balancer_below_def)
    have w: "worker_below (nextFiber s) ?w" "holds_below (nextFiber s) q" "\<forall>f. r = Some f \<longrightarrow> f < nextFiber s"
      using below_steal [OF _ r] known_nth [OF k ij(2)] by (auto simp: worker_below_def)
    then show ?thesis
      using assms Steal_Locking r ij
      by (cases r) (auto simp: balancer_step_def Let_def sched_ok_def known_def balancer_below_def worker_below_def map_update intro!: known_update)
  next
    case (Carrying i f)
    then have "worker_below (nextFiber s) (addFiber f (workers s ! i))"
      using below known_nth [OF k, of i] by (simp add: balancer_below_def worker_below_def addFiber_def below_push)
    then show ?thesis
      using assms Carrying below
      by (auto simp: balancer_step_def next_thief_def sched_ok_def known_def balancer_below_def map_update addFiber_def intro!: known_update)
  qed (use assms in \<open>auto simp: balancer_step_def next_thief_def sched_ok_def known_def balancer_below_def\<close>)
qed

lemma calls_ok_no_thread: "list_all (\<lambda>p. p = No_Thread) ps \<Longrightarrow> calls_ok [] f g c = calls_ok ps f g c"
  by (induction ps) (auto simp: calls_ok_def entering_def within_def)

lemma initialize_ok:
  assumes "workers u = []" "balancer u = Round_Over" "\<forall>f. calls_ok [] f (fibers u f) (overlaps u f)"
  shows "sched_ok (initialize_workers k m u)"
proof -
  have "list_all (\<lambda>p. p = No_Thread) (places (initialize_workers k m u))"
    using assms(1) by (auto simp: initialize_workers_def new_Worker_def Let_def list_all_iff)
  moreover have "list_all (worker_below (nextFiber u)) (workers (initialize_workers k m u))"
    using below_initialize [of "nextFiber u" u] assms(1) by simp
  ultimately show ?thesis
    using assms calls_ok_no_thread by (simp add: sched_ok_def known_def balancer_below_def)
qed

lemma replaced_ok:
  assumes "sched_ok s" "replaced (setMaxWorkers k m) s = Some t \<or> replaced (enableNUMAAwareness k m b) s = Some t"
  shows "sched_ok t"
proof (cases "scheduler_running s \<or> \<not> list_all (\<lambda>p. p = No_Thread) (places s)")
  case True
  then have "t = s"
    using assms(2) by (auto simp: replaced_def setMaxWorkers_def enableNUMAAwareness_def split: if_splits)
  then show ?thesis using assms(1) by simp
next
  case False
  then have "\<forall>f. calls_ok [] f (fibers s f) (overlaps s f)"
    using assms(1) calls_ok_no_thread [of "places s"] by (simp add: sched_ok_def)
  moreover have "balancer s = Round_Over"
    "t = initialize_workers k m (s\<lparr>workers := []\<rparr>) \<or> t = initialize_workers k m (s\<lparr>numaAware := b, workers := []\<rparr>)"
    using False assms(2) by (auto simp: replaced_def setMaxWorkers_def enableNUMAAwareness_def split: if_splits)
  ultimately show ?thesis
    using initialize_ok [of "s\<lparr>workers := []\<rparr>" k m] initialize_ok [of "s\<lparr>numaAware := b, workers := []\<rparr>" k m] by auto
qed

lemma scheduler_do_ok: assumes "sched_ok s" "scheduler_do yields c s = Some t" shows "sched_ok t"
proof (cases c)
  case (Set_Max k m)
  then show ?thesis using assms replaced_ok [OF assms(1)] by auto
next
  case (Enable_NUMA k m b)
  then show ?thesis using assms replaced_ok [OF assms(1)] by auto
next
  case Start
  have "place_below (nextFiber s) Loop_Test" by (simp add: place_below_def)
  then have "list_all (worker_below (nextFiber s)) (map worker_start (workers s))"
    using assms(1) by (auto simp: sched_ok_def known_def list_all_iff worker_below_def worker_start_def)
  moreover have "list_all2 (\<lambda>p q. p = q \<or> p = No_Thread \<and> q = Loop_Test) (places s) (map worker_at (map worker_start (workers s)))"
    using assms(1) by (auto simp: sched_ok_def known_def list_all_iff worker_below_def worker_start_def list.rel_map intro!: list.rel_refl_strong)
  note calls_ok_started [OF this]
  ultimately show ?thesis
    using assms Start by (auto simp: scheduler_start_def sched_ok_def known_def)
next
  case Stop
  have "worker_at \<circ> worker_stop = worker_at"
    by (simp add: worker_stop_def fun_eq_iff)
  then show ?thesis
    using assms Stop by (auto simp: scheduler_stop_def sched_ok_def known_def list_all_iff worker_below_def worker_stop_def)
next
  case (Set_Affinity i cpu node)
  have "worker_below n (setNUMANode node (setCPUAffinity cpu w)) = worker_below n w"
    "worker_at (setNUMANode node (setCPUAffinity cpu w)) = worker_at w" for n w
    by (simp_all add: setNUMANode_def setCPUAffinity_def worker_below_def)
  then show ?thesis
    using assms Set_Affinity
    by (auto simp: setWorkerAffinity_def sched_ok_def known_def map_update intro!: known_update known_nth)
next
  case (Set_Stack k)
  then show ?thesis using assms by (auto simp: setFiberStackSize_def sched_ok_def known_def)
qed (use assms in \<open>auto simp: go_ok work_ok balancer_ok\<close>)

lemma sched_ok_new: "sched_ok (new_LightweightScheduler n nodes)"
  unfolding new_LightweightScheduler_def
  by (rule initialize_ok) (simp_all add: calls_ok_def entering_def new_Fiber_def)

text \<open>C19: in every run of a scheduler, whatever the queues return twice and however the steps of the workers and of
  the balancing thread interleave, the function of a fiber is called at most once more often than a worker
  passed the test of \<open>resume\<close> while another worker was inside the same fiber; and when nobody is inside, the fiber
  is \<open>Ready\<close> if it was never called and \<open>Completed\<close> if it was: \<open>yield\<close> leaves no fiber suspended.\<close>

theorem repeated_calls_overlap:
  "case scheduler_run yields cs (new_LightweightScheduler n nodes) of
     None \<Rightarrow> True
   | Some s \<Rightarrow>
       fiber_calls (fibers s f) \<le> 1 + overlaps s f
       \<and> (list_ex (within f) (places s)
          \<or> fiber_state (fibers s f) = (if fiber_calls (fibers s f) = 0 then Ready else Completed))"
proof (cases "scheduler_run yields cs (new_LightweightScheduler n nodes)")
  case (Some s)
  have "sched_ok s"
    by (rule run_invariant [where P = sched_ok, OF _ sched_ok_new Some]) (erule (1) scheduler_do_ok)
  then have "calls_ok (places s) f (fibers s f) (overlaps s f)" by (simp add: sched_ok_def)
  then show ?thesis using Some by (simp add: calls_ok_def)
qed simp

text \<open>Two workers call the function of one fiber: the first worker pops the third fiber and is inside it when a
  push brings it back into the queue; the balancing thread takes it to the second worker, which pops it, passes
  the test and calls the function.\<close>

definition called_twice :: "command list" where
  "called_twice =
     [Go Normal, Go Normal, Go Normal, Start] @ replicate 7 (Work 0) @ [Go Normal, Go Normal]
     @ replicate 20 Balance @ replicate 7 (Work 1)"

lemma two_workers_in_one_fiber:
  "map_option (\<lambda>s. (fiber_calls (fibers s 3), overlaps s 3, places s))
     (scheduler_run (\<lambda>_. 3) called_twice (new_LightweightScheduler 2 1))
   = Some (2, 1, [Resuming 3 (In_Function 3), Resuming 3 (In_Function 3)])"
  by code_simp

section \<open>Waiting for all fibers\<close>

text \<open>\<open>go\<close> counts the fibers, and nothing counts down.\<close>

definition counts_fibers :: "scheduler \<Rightarrow> bool" where
  "counts_fibers s \<longleftrightarrow> activeFibers s = of_nat (nextFiber s - 1) \<and> completedFibers s = 0 \<and> 0 < nextFiber s"

lemma counts_go: assumes "counts_fibers s" shows "counts_fibers (snd (goWithPriority p s))"
proof -
  have "of_nat (nextFiber s) = (of_nat (nextFiber s - 1) + 1 :: 64 word)"
    using assms by (metis Suc_diff_1 of_nat_Suc add.commute counts_fibers_def)
  then show ?thesis
    using assms by (auto simp: counts_fibers_def goWithPriority_def Let_def split: prod.split dest: select_sel)
qed

lemma counts_do: "counts_fibers s \<Longrightarrow> scheduler_do yields c s = Some t \<Longrightarrow> counts_fibers t"
proof (cases c)
  case Balance
  assume "counts_fibers s" "scheduler_do yields c s = Some t"
  then show ?thesis
    using Balance by (auto simp: counts_fibers_def balancer_step_def Let_def split: balancer_at.splits option.splits prod.splits)
qed (auto simp: counts_go, auto simp: counts_fibers_def scheduler_start_def scheduler_stop_def replaced_def setMaxWorkers_def
    setFiberStackSize_def enableNUMAAwareness_def setWorkerAffinity_def work_def Let_def split: if_splits prod.splits)

text \<open>The number of active fibers counts every call of \<open>go\<close> and never goes down, so the condition of
  \<open>waitAll\<close> is false in every state after the first call, until \<open>2 ^ 64\<close> of them.\<close>

theorem wait_all_blocks:
  assumes "scheduler_run yields cs (new_LightweightScheduler n nodes) = Some s"
  shows "all_done s \<longleftrightarrow> 2 ^ 64 dvd (nextFiber s - 1)"
proof -
  have new: "counts_fibers (new_LightweightScheduler n nodes)"
    by (simp add: counts_fibers_def new_LightweightScheduler_def)
  have "counts_fibers s"
    by (rule run_invariant [where P = counts_fibers, OF _ new assms]) (erule (1) counts_do)
  then have "activeFibers s = of_nat (nextFiber s - 1)" by (simp add: counts_fibers_def)
  then show ?thesis
    using word_of_nat_eq_0_iff [where 'a = 64, of "nextFiber s - 1"] unfolding all_done_def by simp
qed

lemma wait_all_blocks_witness:
  "\<exists>s. scheduler_run (\<lambda>_. 3) [Go Normal] (new_LightweightScheduler 1 1) = Some s \<and> \<not> all_done s"
proof -
  let ?s = "snd (goWithPriority Normal (new_LightweightScheduler 1 1))"
  have "scheduler_run (\<lambda>_. 3) [Go Normal] (new_LightweightScheduler 1 1) = Some ?s" by simp
  moreover have "nextFiber ?s = 2"
    by (simp add: goWithPriority_def selectWorkerForFiber_def round_robin_def new_LightweightScheduler_def
        initialize_workers_def Let_def)
  ultimately show ?thesis using wait_all_blocks by fastforce
qed

section \<open>Load balancing\<close>

definition tasks :: "Worker list \<Rightarrow> nat multiset" where
  "tasks ws = sum_list (map (\<lambda>w. mset (pending (worker_queue w))) ws)"

text \<open>Queues that nothing was popped from since the last push, with room for \<open>k\<close> more.\<close>

definition roomy :: "nat \<Rightarrow> Worker \<Rightarrow> bool" where
  "roomy k w \<longleftrightarrow> queue_ok (worker_queue w) \<and> left_behind (worker_queue w) = [] \<and> length (items (worker_queue w)) + k < 2 ^ 63"

lemma tasks_update: "i < length ws \<Longrightarrow>
    tasks (ws[i := w]) + mset (pending (worker_queue (ws ! i))) = tasks ws + mset (pending (worker_queue w))"
  by (induction ws arbitrary: i) (auto simp: tasks_def less_Suc_eq_0_disj ac_simps)

lemma steal_roomy:
  assumes "roomy k w" "stealFiber w = (r, w')"
  shows "roomy k w'" "mset (pending (worker_queue w)) = mset (pending (worker_queue w')) + (case r of None \<Rightarrow> {#} | Some f \<Rightarrow> {#f#})"
proof -
  let ?q = "worker_queue w"
  have q: "queue_ok ?q" "left_behind ?q = []" "length (items ?q) + k < 2 ^ 63"
    using assms(1) by (simp_all add: roomy_def)
  have w': "worker_queue w' = snd (steal ?q)" "r = fst (steal ?q)"
    using assms(2) by (auto simp: stealFiber_def split: prod.splits option.splits)
  have "left_behind (snd (steal ?q)) = [] \<and> items (snd (steal ?q)) = items ?q"
    using q(2) unfolding steal_pending [OF q(1)] by (simp add: left_behind_def)
  then show "roomy k w'"
    using steal_ok(2) [OF q(1)] q(3) w' by (simp add: roomy_def)
  show "mset (pending ?q) = mset (pending (worker_queue w')) + (case r of None \<Rightarrow> {#} | Some f \<Rightarrow> {#f#})"
    using steal_ok(1) [OF q(1)] w' unfolding steal_pending [OF q(1)]
    by (cases "pending ?q") auto
qed

lemma add_roomy:
  assumes "roomy (Suc k) w"
  shows "roomy k (addFiber f w)" "mset (pending (worker_queue (addFiber f w))) = mset (pending (worker_queue w)) + {#f#}"
  using assms push_pending [of "worker_queue w" f]
  by (auto simp: roomy_def addFiber_def push_def)

lemma roomy_mono: "roomy k w \<Longrightarrow> l \<le> k \<Longrightarrow> roomy l w"
  by (simp add: roomy_def)

lemma steal_for_tasks:
  "list_all (roomy (Suc k)) ws \<Longrightarrow> i < length ws \<Longrightarrow> \<forall>j \<in> set js. j < length ws \<Longrightarrow>
    tasks (steal_for i js ws) = tasks ws \<and> list_all (roomy k) (steal_for i js ws) \<and> length (steal_for i js ws) = length ws"
proof (induction js arbitrary: ws)
  case Nil
  then show ?case by (auto simp: list_all_iff intro: roomy_mono)
next
  case (Cons j js)
  show ?case
  proof (cases "i = j")
    case True
    then show ?thesis using Cons by simp
  next
    case False
    have j: "j < length ws" "roomy (Suc k) (ws ! j)"
      using Cons.prems by (auto simp: list_all_length)
    obtain r w where w: "stealFiber (ws ! j) = (r, w)" by fastforce
    note st = steal_roomy [OF j(2) w]
    have all: "list_all (roomy (Suc k)) (ws[j := w])"
      using Cons.prems(1) st(1) j(1) by (auto simp: list_all_length nth_list_update)
    show ?thesis
    proof (cases r)
      case None
      then have "tasks (ws[j := w]) = tasks ws"
        using tasks_update [OF j(1), of w] st(2) by simp
      then show ?thesis
        using Cons.IH [OF all] Cons.prems None w False by simp
    next
      case (Some f)
      let ?ws = "ws[j := w]"
      have i: "i < length ?ws" "roomy (Suc k) (?ws ! i)"
        using Cons.prems(2) all by (simp_all add: list_all_length)
      note add = add_roomy [OF i(2), of f]
      have "tasks (?ws[i := addFiber f (?ws ! i)]) = tasks ?ws + {#f#}"
        using tasks_update [OF i(1), of "addFiber f (?ws ! i)"] add(2) by simp
      moreover have "tasks ?ws + {#f#} = tasks ws"
        using tasks_update [OF j(1), of w] st(2) Some by simp
      moreover have "list_all (roomy k) (?ws[i := addFiber f (?ws ! i)])"
        using all add(1) i(1) by (auto simp: list_all_length nth_list_update intro: roomy_mono)
      ultimately show ?thesis
        using False w Some by simp
    qed
  qed
qed

lemma balance_tasks:
  "list_all (roomy (length is + k)) ws \<Longrightarrow> \<forall>i \<in> set is. i < length ws \<Longrightarrow>
    tasks (foldl (\<lambda>ws i. steal_for i [0..<length ws] ws) ws is) = tasks ws"
proof (induction "is" arbitrary: ws)
  case (Cons i js)
  then show ?case
    using steal_for_tasks [of "length js + k" ws i "[0..<length ws]"] by simp
qed simp

text \<open>A round of the balancing thread moves tasks between the queues without losing or doubling one, as long as
  no worker has popped since the last push to its queue.\<close>

theorem balance_keeps_tasks:
  assumes "list_all (roomy (length (workers s))) (workers s)"
  shows "tasks (workers (balanceLoad s)) = tasks (workers s)"
  using assms balance_tasks [of "[0..<length (workers s)]" 0 "workers s"]
  by (simp add: balanceLoad_def)

lemma balance_keeps_tasks_witness:
  "tasks (workers (balanceLoad (snd (go (new_LightweightScheduler 2 1))))) = {#1#}"
proof -
  let ?s = "snd (go (new_LightweightScheduler 2 1))"
  let ?w = "addFiber 1 (new_Worker (-1) (-1))"
  have ws: "workers ?s = [?w, new_Worker (-1) (-1)]"
    by (simp add: go_def goWithPriority_def selectWorkerForFiber_def round_robin_def new_LightweightScheduler_def
        initialize_workers_def Let_def upt_rec)
  have "roomy 3 (new_Worker (-1) (-1))"
    using ok_new by (simp add: roomy_def new_Worker_def new_WorkStealingQueue_def left_behind_def)
  then have "roomy 2 ?w" "roomy 2 (new_Worker (-1) (-1))" "mset (pending (worker_queue ?w)) = {#1#}"
    using add_roomy [of 2 "new_Worker (-1) (-1)" 1]
    by (auto simp: roomy_def new_Worker_def new_WorkStealingQueue_def pending_def numeral_2_eq_2 numeral_3_eq_3)
  moreover have "pending (worker_queue (new_Worker (-1) (-1))) = []"
    by (simp add: new_Worker_def new_WorkStealingQueue_def pending_def)
  ultimately show ?thesis
    using balance_keeps_tasks [of ?s] ws by (simp add: tasks_def numeral_2_eq_2)
qed

text \<open>With NUMA awareness worker \<open>i\<close> gets processor \<open>i\<close> and a node below the number of nodes.\<close>

theorem numa_layout:
  assumes "numaAware s" "0 < nodes" "i < n" "workers s = []"
  shows "cpuAffinity (workers (initialize_workers n nodes s) ! i) = int i
    \<and> numaNode (workers (initialize_workers n nodes s) ! i) < int nodes"
proof -
  let ?per = "(n + nodes - 1) div nodes"
  have "n + nodes - 1 = ?per * nodes + (n + nodes - 1) mod nodes" "(n + nodes - 1) mod nodes < nodes"
    using assms(2) by simp_all
  then have "n \<le> ?per * nodes"
    by linarith
  moreover from this have "0 < ?per"
    using assms(3) by (intro gr0I) simp
  ultimately have "i div ?per < nodes"
    using assms(3) by (simp add: div_less_iff_less_mult mult.commute)
  then show ?thesis
    using assms by (simp add: initialize_workers_def new_Worker_def Let_def)
qed

lemma numa_layout_witness:
  "numaNode (workers (initialize_workers 4 2 (new_LightweightScheduler 1 1\<lparr>numaAware := True, workers := []\<rparr>)) ! 3) < 2"
  using numa_layout [of "new_LightweightScheduler 1 1\<lparr>numaAware := True, workers := []\<rparr>" 2 3 4] by simp

end
