(* ===== verification/Tocin_Main.thy ===== *)
theory Tocin_Main
  imports Tocin_Compiler Tocin_Codegen_Frame
begin

text \<open>
  \<open>src/main.cpp\<close>: the command line, the interactive loop, and the class \<open>EnhancedCompiler\<close> that runs the phases on one
  source, here with the code generator itself. The build options \<open>WITH_WASM\<close>, \<open>WITH_DEBUGGER\<close>, \<open>WITH_PYTHON\<close> and
  \<open>WITH_PACKAGE_MANAGER\<close> are off. What LLVM does with the finished module is a parameter.
\<close>

section \<open>Options\<close>

record EnhancedOptions =
  eo_dumpIR :: bool
  eo_optimize :: bool
  eo_level :: int
  eo_output :: string
  eo_ffi :: bool
  eo_concurrency :: bool
  eo_advanced :: bool
  eo_macros :: bool
  eo_async :: bool
  eo_debugger :: bool
  eo_wasm :: bool
  eo_target :: string
  eo_packages :: bool

definition default_options :: EnhancedOptions where
  "default_options = \<lparr>eo_dumpIR = False, eo_optimize = False, eo_level = 2, eo_output = [], eo_ffi = True,
     eo_concurrency = True, eo_advanced = True, eo_macros = True, eo_async = True, eo_debugger = False,
     eo_wasm = False, eo_target = ''native'', eo_packages = True\<rparr>"

definition flag_option :: "string \<Rightarrow> (EnhancedOptions \<Rightarrow> EnhancedOptions) option" where
  "flag_option a =
     (if a = ''--dump-ir'' then Some (\<lambda>o1. o1\<lparr>eo_dumpIR := True\<rparr>)
      else if a = ''-O0'' then Some (\<lambda>o1. o1\<lparr>eo_optimize := True, eo_level := 0\<rparr>)
      else if a = ''-O1'' then Some (\<lambda>o1. o1\<lparr>eo_optimize := True, eo_level := 1\<rparr>)
      else if a = ''-O2'' then Some (\<lambda>o1. o1\<lparr>eo_optimize := True, eo_level := 2\<rparr>)
      else if a = ''-O3'' then Some (\<lambda>o1. o1\<lparr>eo_optimize := True, eo_level := 3\<rparr>)
      else if a = ''--no-ffi'' then Some (\<lambda>o1. o1\<lparr>eo_ffi := False\<rparr>)
      else if a = ''--no-concurrency'' then Some (\<lambda>o1. o1\<lparr>eo_concurrency := False\<rparr>)
      else if a = ''--no-advanced'' then Some (\<lambda>o1. o1\<lparr>eo_advanced := False\<rparr>)
      else if a = ''--no-macros'' then Some (\<lambda>o1. o1\<lparr>eo_macros := False\<rparr>)
      else if a = ''--no-async'' then Some (\<lambda>o1. o1\<lparr>eo_async := False\<rparr>)
      else if a = ''--debug'' then Some (\<lambda>o1. o1\<lparr>eo_debugger := True\<rparr>)
      else if a = ''--enable-python'' \<or> a = ''--enable-javascript'' \<or> a = ''--enable-cpp''
        then Some (\<lambda>o1. o1\<lparr>eo_ffi := True\<rparr>)
      else None)"

datatype arguments = Accepted EnhancedOptions string | Help | Unknown_Option string

text \<open>\<open>-o\<close> and \<open>--target\<close> take the next argument; as the last argument they are unknown options.\<close>

fun parse_arguments :: "string list \<Rightarrow> EnhancedOptions \<Rightarrow> string \<Rightarrow> arguments" where
  "parse_arguments [] o1 f = Accepted o1 f"
| "parse_arguments [a] o1 f =
     (if a = ''--help'' then Help
      else case flag_option a of
        Some u \<Rightarrow> Accepted (u o1) f
      | None \<Rightarrow> if a \<noteq> [] \<and> hd a = CHR ''-'' then Unknown_Option a else Accepted o1 a)"
| "parse_arguments (a # b # rest) o1 f =
     (if a = ''--help'' then Help
      else case flag_option a of
        Some u \<Rightarrow> parse_arguments (b # rest) (u o1) f
      | None \<Rightarrow>
          if a = ''-o'' then parse_arguments rest (o1\<lparr>eo_output := b\<rparr>) f
          else if a = ''--target'' then parse_arguments rest (o1\<lparr>eo_target := b\<rparr>) f
          else if a \<noteq> [] \<and> hd a = CHR ''-'' then Unknown_Option a
          else parse_arguments (b # rest) o1 a)"

section \<open>One compilation\<close>

text \<open>What is outside: the verifiers and \<open>std::stod\<close> that the generator asks, the module built from its calls, the
  pass pipelines, the printer, and the result of opening an output file, a message if it fails.\<close>

record 'm toolchain =
  tc_stod :: "string \<Rightarrow> bool"
  tc_verify_function :: "lfunction list \<Rightarrow> (nat \<Rightarrow> instrs) \<Rightarrow> nat \<Rightarrow> string option"
  tc_verify_module :: "lfunction list \<Rightarrow> (nat \<Rightarrow> instrs) \<Rightarrow> string option"
  tc_module :: "lfunction list \<Rightarrow> (nat \<Rightarrow> instrs) \<Rightarrow> 'm"
  tc_pipeline :: "int \<Rightarrow> 'm \<Rightarrow> 'm"
  tc_print :: "'m \<Rightarrow> string"
  tc_open :: "string \<Rightarrow> string option"

text \<open>The handler of the program, its standard output, and the files it wrote.\<close>

record driver =
  drv_handler :: ErrorHandler
  drv_out :: "string list"
  drv_files :: "(string \<times> string) list"

text \<open>How a call ends: it returns, an exception leaves \<open>main\<close>, undefined behaviour, or a mutex is locked twice.\<close>

datatype 'a ended = Returns 'a | Uncaught string | Undefined | Hangs

definition ask_fatal :: "(bool \<Rightarrow> driver \<Rightarrow> 'a ended) \<Rightarrow> driver \<Rightarrow> 'a ended" where
  "ask_fatal k d =
     (case hasFatalErrors (drv_handler d) of Inl e \<Rightarrow> Hangs | Inr (b, h) \<Rightarrow> k b (d\<lparr>drv_handler := h\<rparr>))"

definition note_error :: "ErrorCode \<Rightarrow> string \<Rightarrow> string \<Rightarrow> driver \<Rightarrow> driver" where
  "note_error c msg file d = d\<lparr>drv_handler := record_error c msg file 0 0 ERROR_SEVERITY (drv_handler d)\<rparr>"

definition optimizeModule :: "'m toolchain \<Rightarrow> int \<Rightarrow> 'm \<Rightarrow> 'm" where
  "optimizeModule L level m = (if level = 0 \<or> level = 1 \<or> level = 2 \<or> level = 3 then tc_pipeline L level m else m)"

definition output_path :: "string \<Rightarrow> string" where
  "output_path p = (if CHR ''.'' \<in> set p then p else p @ ''.ll'')"

definition write_output :: "'m toolchain \<Rightarrow> EnhancedOptions \<Rightarrow> string \<Rightarrow> 'm \<Rightarrow> driver \<Rightarrow> (bool \<times> driver) ended" where
  "write_output L opts file m d =
     (if eo_output opts \<noteq> [] then
        (case tc_open L (output_path (eo_output opts)) of
           Some msg \<Rightarrow> Returns (False, note_error (IO I003_READ_ERROR) (''Could not open output file: '' @ msg) file d)
         | None \<Rightarrow> ask_fatal (\<lambda>b d1. Returns (\<not> b, d1))
             (d\<lparr>drv_files := drv_files d @ [(output_path (eo_output opts), tc_print L m)]\<rparr>))
      else ask_fatal (\<lambda>b d1. Returns (\<not> b, d1)) d)"

definition finish_module :: "'m toolchain \<Rightarrow> EnhancedOptions \<Rightarrow> string \<Rightarrow> 'm \<Rightarrow> driver \<Rightarrow> (bool \<times> driver) ended" where
  "finish_module L opts file m d =
     write_output L opts file m
       (if eo_dumpIR opts then d\<lparr>drv_out := drv_out d @ [tc_print L m]\<rparr> else d)"

definition compileToNative ::
  "'m toolchain \<Rightarrow> EnhancedOptions \<Rightarrow> string \<Rightarrow> stmt \<Rightarrow> driver \<Rightarrow> (bool \<times> driver) ended" where
  "compileToNative L opts file p d =
     (case generate (Some p) (new_IRGenerator (drv_handler d) (tc_stod L) (tc_verify_function L) (tc_verify_module L)) of
        Throws x \<Rightarrow> Uncaught x
      | Crash \<Rightarrow> Undefined
      | Done (made, g) \<Rightarrow>
          ask_fatal (\<lambda>fatal d1.
            if fatal \<or> \<not> made then Returns (False, d1)
            else case tc_verify_module L (fun_table g) (block_code g) of
              Some msg \<Rightarrow>
                Returns (False, note_error (Compiler C002_CODEGEN_ERROR) (''Invalid LLVM IR generated: '' @ msg) file d1)
            | None \<Rightarrow>
                let m = tc_module L (fun_table g) (block_code g) in
                if eo_optimize opts then
                  ask_fatal (\<lambda>b. finish_module L opts file (if b then m else optimizeModule L (eo_level opts) m)) d1
                else finish_module L opts file m d1)
            (d\<lparr>drv_handler := gen_handler g\<rparr>))"

definition compileToWASM :: "driver \<Rightarrow> (bool \<times> driver) ended" where
  "compileToWASM d = Returns (False, d)"

definition processMacros :: "string \<Rightarrow> string \<Rightarrow> string" where
  "processMacros src file = src"

definition check_and_generate ::
  "'m toolchain \<Rightarrow> EnhancedOptions \<Rightarrow> string \<Rightarrow> stmt \<Rightarrow> driver \<Rightarrow> (bool \<times> driver) ended" where
  "check_and_generate L opts file p d =
     ask_fatal (\<lambda>fatal d1.
       if fatal then Returns (False, d1)
       else if eo_target opts = ''wasm'' \<and> eo_wasm opts then compileToWASM d1
       else compileToNative L opts file p d1)
     (d\<lparr>drv_handler := checker_handler (snd (check (Some p) (new_TypeChecker (drv_handler d))))\<rparr>)"

definition parse_and_check ::
  "'m toolchain \<Rightarrow> EnhancedOptions \<Rightarrow> string \<Rightarrow> token list \<Rightarrow> driver \<Rightarrow> (bool \<times> driver) ended" where
  "parse_and_check L opts file ts d =
     (case parse (new_Parser ts) of
        Ret r t \<Rightarrow>
          ask_fatal (\<lambda>fatal d1.
            if fatal then Returns (False, d1)
            else case r of None \<Rightarrow> Returns (False, d1) | Some p \<Rightarrow> check_and_generate L opts file p d1) d
      | Throw x t \<Rightarrow> Uncaught x
      | _ \<Rightarrow> Undefined)"

definition enhanced_compile ::
  "'m toolchain \<Rightarrow> string \<Rightarrow> string \<Rightarrow> EnhancedOptions \<Rightarrow> driver \<Rightarrow> (bool \<times> driver) ended" where
  "enhanced_compile L src file opts d =
     (let processed = (if eo_macros opts then processMacros src file else src);
          ts = tokens (tokenize (Lexer processed file 4))
      in ask_fatal (\<lambda>fatal d1. if fatal then Returns (False, d1) else parse_and_check L opts file ts d1) d)"

section \<open>The interactive loop\<close>

record repl =
  replState :: string
  replCounter :: nat
  repl_driver :: driver

definition repl_options :: EnhancedOptions where
  "repl_options = default_options\<lparr>eo_dumpIR := True, eo_optimize := True, eo_level := 2\<rparr>"

definition blank :: "char \<Rightarrow> bool" where
  "blank c \<longleftrightarrow> c = CHR '' '' \<or> c = TAB \<or> c = CR \<or> c = NL"

definition trim :: "string \<Rightarrow> string" where
  "trim l = rev (dropWhile blank (rev (dropWhile blank l)))"

definition end_line :: "string \<Rightarrow> string" where
  "end_line l = (if last l \<noteq> CHR '';'' then l @ '';'' else l)"

definition repl_name :: "nat \<Rightarrow> string" where
  "repl_name n = ''repl_expr_'' @ show_nat n"

definition wrap_expression :: "nat \<Rightarrow> string \<Rightarrow> string" where
  "wrap_expression n l =
     ''def '' @ repl_name n @ ''() {'' @ NL # ''    '' @ l @ NL # ''}'' @ NL # repl_name n @ ''();''"

text \<open>The text that a line adds to the state: a declaration, a definition, or an expression in a function of its
  own that is then called.\<close>

datatype entry = Given string | Wrapped nat string

primrec entry_text :: "entry \<Rightarrow> string" where
  "entry_text (Given l) = l"
| "entry_text (Wrapped n l) = wrap_expression n l"

definition repl_entry :: "nat \<Rightarrow> string \<Rightarrow> entry" where
  "repl_entry n l =
     (if starts_with ''let '' l \<or> starts_with ''const '' l then Given (end_line l)
      else if starts_with ''def '' l \<or> starts_with ''class '' l \<or> starts_with ''trait '' l \<or> starts_with ''import '' l
      then Given l
      else Wrapped n (end_line l))"

definition say :: "string \<Rightarrow> repl \<Rightarrow> repl" where
  "say x s = s\<lparr>repl_driver := (repl_driver s)\<lparr>drv_out := drv_out (repl_driver s) @ [x]\<rparr>\<rparr>"

definition forget_errors :: "(repl \<Rightarrow> 'a ended) \<Rightarrow> repl \<Rightarrow> 'a ended" where
  "forget_errors k s =
     (case clearErrors (drv_handler (repl_driver s)) of
        Inl e \<Rightarrow> Hangs
      | Inr (u, h) \<Rightarrow> k (s\<lparr>repl_driver := (repl_driver s)\<lparr>drv_handler := h\<rparr>\<rparr>))"

definition repl_compile :: "'m toolchain \<Rightarrow> string \<Rightarrow> (repl \<Rightarrow> repl ended) \<Rightarrow> repl \<Rightarrow> repl ended" where
  "repl_compile L l k s =
     (let e = repl_entry (replCounter s) l;
          moduleSource = replState s @ NL # entry_text e;
          s1 = (case e of Given x \<Rightarrow> s | Wrapped n x \<Rightarrow> s\<lparr>replCounter := replCounter s + 1\<rparr>)
      in case enhanced_compile L moduleSource ''<repl>'' repl_options (repl_driver s1) of
           Returns (ok, d) \<Rightarrow>
             (if ok then k (say ''> '' (s1\<lparr>replState := moduleSource, repl_driver := d\<rparr>))
              else forget_errors (k \<circ> say ''> '') (s1\<lparr>repl_driver := d\<rparr>))
         | Uncaught x \<Rightarrow> Uncaught x
         | Undefined \<Rightarrow> Undefined
         | Hangs \<Rightarrow> Hangs)"

definition repl_command :: "string \<Rightarrow> string option" where
  "repl_command l =
     (if l = ''debug'' then Some ''Debugger commands: break, step, continue, variables, stack''
      else if l = ''package'' then Some ''Package commands: install, uninstall, search, list''
      else if l = ''async'' then Some ''Async commands: await, future, promise''
      else if l = ''macro'' then Some ''Macro commands: define, expand, list''
      else None)"

fun repl_loop :: "'m toolchain \<Rightarrow> string list \<Rightarrow> repl \<Rightarrow> repl ended" where
  "repl_loop L [] s = Returns s"
| "repl_loop L (l # ls) s =
     (if l = ''exit'' \<or> l = ''quit'' then Returns s
      else if l = ''clear'' then
        forget_errors (\<lambda>s1. repl_loop L ls (say ''> '' (s1\<lparr>replState := [], replCounter := 0\<rparr>))) s
      else case repl_command l of
        Some x \<Rightarrow> repl_loop L ls (say ''> '' (say (x @ [NL]) s))
      | None \<Rightarrow>
          if trim l = [] then repl_loop L ls (say ''> '' s)
          else repl_compile L (trim l) (repl_loop L ls) s)"

definition repl_banner :: string where
  "repl_banner = ''Tocin Enhanced REPL (type 'exit' to quit, 'clear' to reset)'' @ NL #
     ''Commands: debug, package, async, macro'' @ NL # ''> ''"

definition runEnhancedRepl :: "'m toolchain \<Rightarrow> string list \<Rightarrow> driver \<Rightarrow> repl ended" where
  "runEnhancedRepl L ls d =
     repl_loop L ls (say repl_banner \<lparr>replState = [], replCounter = 0, repl_driver = d\<rparr>)"

section \<open>The program\<close>

definition start_driver :: driver where
  "start_driver = \<lparr>drv_handler = new_ErrorHandler, drv_out = [], drv_files = []\<rparr>"

text \<open>\<open>args\<close> are the arguments after the program's name, \<open>fs\<close> the files that can be read, \<open>ls\<close> the lines of the standard
  input. The usage text and what goes to the standard error are left out. The result has the exit code.\<close>

definition compile_file ::
  "'m toolchain \<Rightarrow> (string \<Rightarrow> string option) \<Rightarrow> EnhancedOptions \<Rightarrow> string \<Rightarrow> driver \<Rightarrow> (int \<times> driver) ended" where
  "compile_file L fs opts file d =
     (if file = [] then Returns (1, d)
      else case fs file of
        None \<Rightarrow> Returns (1, note_error (IO I001_FILE_NOT_FOUND) (''Could not open file: '' @ file) [] d)
      | Some src \<Rightarrow>
          (case enhanced_compile L src file opts d of
             Returns (ok, d1) \<Rightarrow> Returns (if ok then 0 else 1, d1)
           | Uncaught x \<Rightarrow> Uncaught x
           | Undefined \<Rightarrow> Undefined
           | Hangs \<Rightarrow> Hangs))"

definition tocin_main ::
  "'m toolchain \<Rightarrow> (string \<Rightarrow> string option) \<Rightarrow> string list \<Rightarrow> string list \<Rightarrow> (int \<times> driver) ended" where
  "tocin_main L fs ls args =
     (if args = [] then
        (case runEnhancedRepl L ls start_driver of
           Returns s \<Rightarrow> Returns (0, repl_driver s)
         | Uncaught x \<Rightarrow> Uncaught x
         | Undefined \<Rightarrow> Undefined
         | Hangs \<Rightarrow> Hangs)
      else case parse_arguments args default_options [] of
        Help \<Rightarrow> Returns (0, start_driver)
      | Unknown_Option a \<Rightarrow> Returns (1, start_driver)
      | Accepted opts file \<Rightarrow> compile_file L fs opts file start_driver)"

section \<open>The command line is read back\<close>

definition print_arguments :: "EnhancedOptions \<Rightarrow> string \<Rightarrow> string list" where
  "print_arguments o1 f =
     (if eo_dumpIR o1 then [''--dump-ir''] else [])
     @ (if eo_optimize o1 then [''-O'' @ show_int (eo_level o1)] else [])
     @ (if eo_output o1 \<noteq> [] then [''-o'', eo_output o1] else [])
     @ (if eo_target o1 \<noteq> ''native'' then [''--target'', eo_target o1] else [])
     @ (if eo_ffi o1 then [] else [''--no-ffi''])
     @ (if eo_concurrency o1 then [] else [''--no-concurrency''])
     @ (if eo_advanced o1 then [] else [''--no-advanced''])
     @ (if eo_macros o1 then [] else [''--no-macros''])
     @ (if eo_async o1 then [] else [''--no-async''])
     @ (if eo_debugger o1 then [''--debug''] else [])
     @ [f]"

text \<open>No argument enables the target WASM or turns the package manager off.\<close>

definition expressible :: "EnhancedOptions \<Rightarrow> bool" where
  "expressible o1 \<longleftrightarrow> \<not> eo_wasm o1 \<and> eo_packages o1
     \<and> (if eo_optimize o1 then eo_level o1 \<in> {0, 1, 2, 3} else eo_level o1 = 2)"

lemma parse_flag:
  assumes "flag_option a = Some u"
  shows "parse_arguments (a # as) o1 f = parse_arguments as (u o1) f"
proof -
  have "a \<noteq> ''--help''" using assms by (auto simp: flag_option_def)
  then show ?thesis using assms by (cases as) simp_all
qed

lemma flag_values: "flag_option ''-o'' = None" "flag_option ''--target'' = None"
  by (simp_all add: flag_option_def)

lemma parse_value:
  "parse_arguments (''-o'' # b # as) o1 f = parse_arguments as (o1\<lparr>eo_output := b\<rparr>) f"
  "parse_arguments (''--target'' # b # as) o1 f = parse_arguments as (o1\<lparr>eo_target := b\<rparr>) f"
  by (simp_all add: flag_values)

lemma parse_file: "f = [] \<or> hd f \<noteq> CHR ''-'' \<Longrightarrow> parse_arguments [f] o1 g = Accepted o1 f"
  by (cases f) (auto simp: flag_option_def)

lemma level_flag:
  "n \<in> {0, 1, 2, 3} \<Longrightarrow> flag_option (''-O'' @ show_int n) = Some (\<lambda>o1. o1\<lparr>eo_optimize := True, eo_level := n\<rparr>)"
proof -
  assume n: "n \<in> {0, 1, 2, 3}"
  have "show_nat k = [digit_char k]" if "k < 10" for k
    using that by (simp add: show_nat.simps [of k])
  then have "show_int n = [digit_char (nat n)]"
    using n by (auto simp: show_int_def)
  moreover have "digit_char 0 = CHR ''0''" "digit_char 1 = CHR ''1''" "digit_char 2 = CHR ''2''" "digit_char 3 = CHR ''3''"
    by code_simp+
  ultimately show ?thesis
    using n by (auto simp: flag_option_def)
qed

text \<open>One step of the loop for each piece of the printed arguments.\<close>

lemma parse_steps:
  "parse_arguments ((if c then [''--dump-ir''] else []) @ as) o1 f = parse_arguments as (o1\<lparr>eo_dumpIR := c \<or> eo_dumpIR o1\<rparr>) f"
  "parse_arguments ((if c then [] else [''--no-ffi'']) @ as) o1 f = parse_arguments as (o1\<lparr>eo_ffi := c \<and> eo_ffi o1\<rparr>) f"
  "parse_arguments ((if c then [] else [''--no-concurrency'']) @ as) o1 f = parse_arguments as (o1\<lparr>eo_concurrency := c \<and> eo_concurrency o1\<rparr>) f"
  "parse_arguments ((if c then [] else [''--no-advanced'']) @ as) o1 f = parse_arguments as (o1\<lparr>eo_advanced := c \<and> eo_advanced o1\<rparr>) f"
  "parse_arguments ((if c then [] else [''--no-macros'']) @ as) o1 f = parse_arguments as (o1\<lparr>eo_macros := c \<and> eo_macros o1\<rparr>) f"
  "parse_arguments ((if c then [] else [''--no-async'']) @ as) o1 f = parse_arguments as (o1\<lparr>eo_async := c \<and> eo_async o1\<rparr>) f"
  "parse_arguments ((if c then [''--debug''] else []) @ as) o1 f = parse_arguments as (o1\<lparr>eo_debugger := c \<or> eo_debugger o1\<rparr>) f"
  "parse_arguments ((if b \<noteq> [] then [''-o'', b] else []) @ as) o1 f = parse_arguments as (o1\<lparr>eo_output := if b \<noteq> [] then b else eo_output o1\<rparr>) f"
  "parse_arguments ((if b \<noteq> t then [''--target'', b] else []) @ as) o1 f = parse_arguments as (o1\<lparr>eo_target := if b \<noteq> t then b else eo_target o1\<rparr>) f"
  by (simp_all add: parse_flag flag_option_def parse_value del: parse_arguments.simps)

lemma parse_level:
  "n \<in> {0, 1, 2, 3} \<or> \<not> c \<Longrightarrow> parse_arguments ((if c then [''-O'' @ show_int n] else []) @ as) o1 f
    = parse_arguments as (o1\<lparr>eo_optimize := c \<or> eo_optimize o1, eo_level := if c then n else eo_level o1\<rparr>) f"
  using parse_flag [OF level_flag, of n as o1 f] by auto

text \<open>C21: every combination of options that the command line can express is read back from its arguments, when the
  file name does not start with a minus sign.\<close>

theorem arguments_roundtrip:
  assumes "expressible o1" "f = [] \<or> hd f \<noteq> CHR ''-''"
  shows "parse_arguments (print_arguments o1 f) default_options [] = Accepted o1 f"
proof -
  have level: "eo_level o1 \<in> {0, 1, 2, 3} \<or> \<not> eo_optimize o1"
    using assms(1) by (auto simp: expressible_def)
  show ?thesis
    unfolding print_arguments_def parse_steps parse_level [OF level] parse_file [OF assms(2)]
    using assms(1) by (cases o1) (simp add: default_options_def expressible_def split: if_splits)
qed

lemma arguments_roundtrip_witness:
  "parse_arguments (print_arguments (default_options\<lparr>eo_optimize := True, eo_output := ''x.ll''\<rparr>) ''a.to'') default_options []
    = Accepted (default_options\<lparr>eo_optimize := True, eo_output := ''x.ll''\<rparr>) ''a.to''"
  by (rule arguments_roundtrip) (simp_all add: expressible_def default_options_def)

section \<open>Diagnostics do not stop a compilation\<close>

definition no_fatal :: "ErrorHandler \<Rightarrow> bool" where
  "no_fatal h \<longleftrightarrow> \<not> mutex_held h \<and> list_all (\<lambda>e. eseverity e \<noteq> FATAL_SEVERITY) (errors h)"

lemma no_fatal_record: "no_fatal h \<Longrightarrow> no_fatal (record_error c msg f l k ERROR_SEVERITY h)"
  by (simp add: no_fatal_def record_error_def Let_def)

lemma ask_no_fatal: "no_fatal (drv_handler d) \<Longrightarrow> ask_fatal k d = k False d"
  by (cases d, cases "drv_handler d")
     (auto simp: ask_fatal_def no_fatal_def hasFatalErrors_def lock_guard_def list_ex_iff list_all_iff)

text \<open>What a visit does to the handler and to the verifiers.\<close>

definition quiet :: "gen \<Rightarrow> gen \<Rightarrow> bool" where
  "quiet s t \<longleftrightarrow> (no_fatal (gen_handler s) \<longrightarrow> no_fatal (gen_handler t)) \<and> verify_module t = verify_module s
     \<and> (\<exists>es. errors (gen_handler t) = errors (gen_handler s) @ es)"

lemma quiet_report: "quiet s (report c msg s)" "quiet s (report_at c msg tok s)"
  by (simp_all add: quiet_def report_def report_at_def no_fatal_record) (simp_all add: record_error_def Let_def)

lemma quiet_add: "quiet s (add_instr i s)"
  by (simp add: quiet_def add_instr_def split: option.split)

interpretation qt: visit_relation quiet
proof
  show "quiet s s" for s by (simp add: quiet_def)
  show "quiet s t \<Longrightarrow> quiet t u \<Longrightarrow> quiet s u" for s t u by (auto simp: quiet_def)
  show "quiet (gen_enterScope s) t \<Longrightarrow> quiet s (gen_exitScope t)" for s t
    by (auto simp: quiet_def gen_enterScope_def gen_exitScope_def)
qed (simp_all add: quiet_report quiet_add, simp_all add: quiet_def set_last_def insert_into_def erase_function_def)

lemma generate_quiet:
  assumes "generate (Some p) s = Done (m, g)"
  shows "m \<and> quiet s g"
proof -
  obtain s1 where s1: "scoped (gen_stmt p) s = Done s1"
      "(m, g) = (True, case verify_module s1 (fun_table s1) (block_code s1) of None \<Rightarrow> s1
         | Some msg \<Rightarrow> report (Compiler C002_CODEGEN_ERROR) (''Module verification failed: '' @ msg) s1)"
    using assms unfolding generate_def option.case and_then_Done by blast
  have "quiet s s1"
    using keepsD [OF qt.keeps_scoped [OF qt.keeps_stmt] s1(1)] .
  then show ?thesis
    using s1(2) qt.R_trans [OF _ quiet_report(1)] by (auto split: option.splits)
qed

lemma generate_module:
  "generate (Some p) s = Done (m, g) \<Longrightarrow> scoped (gen_stmt p) s = Done s1 \<Longrightarrow>
    fun_table g = fun_table s1 \<and> block_code g = block_code s1"
  by (auto simp: generate_def report_def split: option.splits)

lemma new_gen_sel [simp]:
  "gen_handler (new_IRGenerator h f vf vm) = h" "verify_module (new_IRGenerator h f vf vm) = vm"
  by (simp_all add: new_IRGenerator_def declareStdLibFunctions_def declare_lib_def)

text \<open>The output file, if one is asked for, can be opened.\<close>

definition output_opens :: "'m toolchain \<Rightarrow> EnhancedOptions \<Rightarrow> bool" where
  "output_opens L opts \<longleftrightarrow> eo_output opts = [] \<or> tc_open L (output_path (eo_output opts)) = None"

definition keeps_errors :: "ErrorHandler \<Rightarrow> driver \<Rightarrow> bool" where
  "keeps_errors h d \<longleftrightarrow> no_fatal (drv_handler d) \<and> (\<exists>es. errors (drv_handler d) = errors h @ es)"

lemma noted:
  "no_fatal (drv_handler d) \<Longrightarrow> no_fatal (drv_handler (note_error c msg f d))"
  "errors (drv_handler (note_error c msg f d)) = errors (drv_handler d) @ [\<lparr>ecode = c, emessage = msg,
     efilename = effectiveFilename (drv_handler d) f, eline = 0, ecolumn = 0, eseverity = ERROR_SEVERITY\<rparr>]"
  by (simp_all add: note_error_def no_fatal_record) (simp add: record_error_def Let_def)

lemma finish_result:
  assumes "no_fatal (drv_handler d)"
  shows "\<exists>d1. finish_module L opts file m d = Returns (output_opens L opts, d1) \<and> keeps_errors (drv_handler d) d1"
  using assms
  by (auto simp: finish_module_def write_output_def output_opens_def keeps_errors_def ask_no_fatal noted split: option.split)

lemma native_result:
  assumes "no_fatal (drv_handler d)"
    and "generate (Some p) (new_IRGenerator (drv_handler d) (tc_stod L) (tc_verify_function L) (tc_verify_module L)) = Done (m, g)"
  shows "\<exists>d1. compileToNative L opts file p d
      = Returns (tc_verify_module L (fun_table g) (block_code g) = None \<and> output_opens L opts, d1)
    \<and> keeps_errors (gen_handler g) d1"
proof -
  have g: "m" "no_fatal (gen_handler g)"
    using generate_quiet [OF assms(2)] assms(1) by (simp_all add: quiet_def)
  let ?d = "d\<lparr>drv_handler := gen_handler g\<rparr>"
  have fin: "\<exists>d1. finish_module L opts file M ?d = Returns (output_opens L opts, d1) \<and> keeps_errors (gen_handler g) d1" for M
    using finish_result [of ?d] g(2) by simp
  have ask: "ask_fatal k ?d = k False ?d" for k :: "bool \<Rightarrow> driver \<Rightarrow> (bool \<times> driver) ended"
    using g(2) by (simp add: ask_no_fatal)
  show ?thesis
  proof (cases "tc_verify_module L (fun_table g) (block_code g)")
    case None
    then show ?thesis
      using fin g(1) by (simp add: compileToNative_def assms(2) ask Let_def)
  next
    case (Some msg)
    have "keeps_errors (gen_handler g) (note_error c x f ?d)" for c x f
      using g(2) by (simp add: keeps_errors_def noted)
    then show ?thesis
      using Some g(1) by (simp add: compileToNative_def assms(2) ask)
  qed
qed

text \<open>C20: on a handler without fatal errors, a compilation answers true exactly if the code generator returns, LLVM's
  verifier accepts the module and the output file opens. The diagnostics of the lexer, the parser, the type checker and
  the generator have no part in it: they are kept in the handler, and \<open>main\<close> exits with 0.\<close>

theorem diagnostics_do_not_fail:
  assumes "no_fatal (drv_handler d)" "\<not> eo_wasm opts"
  shows "\<exists>p t. parse (new_Parser (tokens (tokenize (Lexer src file 4)))) = Ret (Some p) t
    \<and> (case generate (Some p) (new_IRGenerator (drv_handler d) (tc_stod L) (tc_verify_function L) (tc_verify_module L)) of
         Throws x \<Rightarrow> enhanced_compile L src file opts d = Uncaught x
       | Crash \<Rightarrow> enhanced_compile L src file opts d = Undefined
       | Done (m, g) \<Rightarrow> \<exists>d1. enhanced_compile L src file opts d
           = Returns (tc_verify_module L (fun_table g) (block_code g) = None \<and> output_opens L opts, d1)
           \<and> (\<exists>es. errors (drv_handler d1) = errors (gen_handler g) @ es))"
proof -
  obtain p t where p: "parse (new_Parser (tokens (tokenize (Lexer src file 4)))) = Ret (Some p) t"
    using parse_result [OF tokenize_eof] by metis
  have "checker_handler (snd (check (Some p) (new_TypeChecker (drv_handler d)))) = drv_handler d"
    using check_stmt_silent [OF parse_shaped [OF p]] by (simp add: check_def new_TypeChecker_def Let_def)
  then have run: "enhanced_compile L src file opts d = compileToNative L opts file p d"
    using assms p
    by (simp add: enhanced_compile_def processMacros_def Let_def ask_no_fatal parse_and_check_def check_and_generate_def)
  let ?g = "generate (Some p) (new_IRGenerator (drv_handler d) (tc_stod L) (tc_verify_function L) (tc_verify_module L))"
  show ?thesis
  proof (cases ?g)
    case (Done r)
    obtain m g where r: "r = (m, g)" by (cases r)
    show ?thesis
      using p native_result [OF assms(1) Done [unfolded r], of opts "file"] Done r
      by (intro exI [of _ p] exI [of _ t]) (auto simp: run keeps_errors_def)
  qed (use p in \<open>auto simp: run compileToNative_def\<close>)
qed

text \<open>An accepting toolchain for the witnesses.\<close>

definition accepting :: "nat toolchain" where
  "accepting = \<lparr>tc_stod = (\<lambda>_. True), tc_verify_function = (\<lambda>_ _ _. None), tc_verify_module = (\<lambda>_ _. None),
     tc_module = (\<lambda>fs c. length fs), tc_pipeline = (\<lambda>_ m. m), tc_print = show_nat, tc_open = (\<lambda>_. None)\<rparr>"

lemma diagnostics_do_not_fail_witness:
  "\<exists>p t. parse (new_Parser (tokens (tokenize (Lexer ''x = 1'' ''a.to'' 4)))) = Ret (Some p) t
    \<and> (\<forall>m g. generate (Some p) (new_IRGenerator new_ErrorHandler (\<lambda>_. True) (\<lambda>_ _ _. None) (\<lambda>_ _. None)) = Done (m, g) \<longrightarrow>
        (\<exists>d1. enhanced_compile accepting ''x = 1'' ''a.to'' default_options start_driver = Returns (True, d1)))"
proof -
  have ok: "no_fatal (drv_handler start_driver)" "\<not> eo_wasm default_options" "output_opens accepting default_options"
    by (simp_all add: no_fatal_def start_driver_def new_ErrorHandler_def default_options_def output_opens_def)
  let ?g = "\<lambda>p. generate (Some p) (new_IRGenerator new_ErrorHandler (\<lambda>_. True) (\<lambda>_ _ _. None) (\<lambda>_ _. None))"
  have sel: "tc_stod accepting = (\<lambda>_. True)" "tc_verify_function accepting = (\<lambda>_ _ _. None)"
      "tc_verify_module accepting = (\<lambda>_ _. None)" "drv_handler start_driver = new_ErrorHandler"
    by (simp_all add: accepting_def start_driver_def)
  obtain p t where p: "parse (new_Parser (tokens (tokenize (Lexer ''x = 1'' ''a.to'' 4)))) = Ret (Some p) t"
      "case ?g p of Throws x \<Rightarrow> enhanced_compile accepting ''x = 1'' ''a.to'' default_options start_driver = Uncaught x
       | Crash \<Rightarrow> enhanced_compile accepting ''x = 1'' ''a.to'' default_options start_driver = Undefined
       | Done (m, g) \<Rightarrow> \<exists>d1. enhanced_compile accepting ''x = 1'' ''a.to'' default_options start_driver = Returns (True, d1)
           \<and> (\<exists>es. errors (drv_handler d1) = errors (gen_handler g) @ es)"
    using diagnostics_do_not_fail [OF ok(1,2), of "''x = 1''" "''a.to''" accepting] ok(3) sel
    by (auto cong: emitted.case_cong)
  then show ?thesis
    by (intro exI [of _ p] exI [of _ t]) auto
qed

section \<open>The code of a call follows a return\<close>

text \<open>LLVM's verifier rejects a block with an instruction behind a terminator.\<close>

definition misplaced :: "(nat \<Rightarrow> instrs) \<Rightarrow> bool" where
  "misplaced c \<longleftrightarrow> (\<exists>b xs t y ys. c b = xs @ [t, y] @ ys \<and> terminator (snd t))"

lemma misplacedI:
  assumes "has_terminator (c b)"
  shows "misplaced (c(b := c b @ [y]))"
proof -
  have "(c(b := c b @ [y])) b = butlast (c b) @ [last (c b), y] @ []" "terminator (snd (last (c b)))"
    using assms by (simp_all add: has_terminator_def)
  then show ?thesis unfolding misplaced_def by blast
qed

lemma misplaced_append:
  assumes "misplaced c"
  shows "misplaced (c(b := c b @ [z]))"
proof -
  obtain d xs t y ys where c: "c d = xs @ [t, y] @ ys" "terminator (snd t)"
    using assms unfolding misplaced_def by blast
  then have "(c(b := c b @ [z])) d = xs @ [t, y] @ (if d = b then ys @ [z] else ys)"
    by auto
  with c(2) show ?thesis unfolding misplaced_def by blast
qed

text \<open>The insertion point stands behind a terminator.\<close>

definition behind_terminator :: "gen \<Rightarrow> bool" where
  "behind_terminator s \<longleftrightarrow> (\<exists>b. insert_block s = Some b \<and> has_terminator (block_code s b))"

lemma end_function_behind: "end_function r s = Done t \<Longrightarrow> behind_terminator t"
  by (auto simp: end_function_def unless_terminated_def behind_terminator_def add_instr_def has_terminator_def
      split: option.splits if_splits)

lemma store_params_then:
  "store_params f ps k s = Done t \<Longrightarrow> \<exists>u. k u = Done t"
  by (induction ps arbitrary: s)
     (auto simp: build_alloca_def build_store_def at_block_def split: if_splits prod.splits)

lemma regular_function_behind:
  assumes "regular_function n ps r body s = Done t"
  shows "behind_terminator t"
proof -
  have fin: "behind_terminator t" if e: "end_function (getLLVMType (Some r)) u = Done v"
      and t: "verified f (\<lambda>msg s3. Done (leave_function q (report c (m msg) s3))) (\<lambda>s3. Done (leave_function q s3)) v = Done t"
    for u v f c q and m :: "string \<Rightarrow> string"
    using end_function_behind [OF e] t
    by (auto simp: verified_def behind_terminator_def leave_function_def report_def split: option.splits)
  show ?thesis
    using assms unfolding regular_function_def new_function_def start_function_def block_in_def new_block_def Let_def
    by (auto dest!: store_params_then simp: and_then_Done intro: fin)
qed

lemma call_misplaced:
  assumes "behind_terminator s" "starts_with ''repl_expr_'' f"
    and "gen_expr (CallExpr t (VariableExpr u f) []) s = Done w"
  shows "misplaced (block_code w)"
proof -
  have add: "misplaced (block_code (add_instr i s1))" if "behind_terminator s1 \<or> misplaced (block_code s1)" for i s1
    using that misplacedI misplaced_append by (auto simp: behind_terminator_def add_instr_def split: option.split)
  obtain s1 where s1: "visitVariableExpr f s = Done s1" "finish_call (VariableExpr u f) [] s1 = Done w"
    using assms(3) by (auto simp: and_then_Done)
  have "behind_terminator (set_last v s2) = behind_terminator s2" "block_code (set_last v s2) = block_code s2" for v s2
    by (simp_all add: behind_terminator_def set_last_def)
  then have s1ok: "behind_terminator s1 \<or> misplaced (block_code s1)" "lastValue s1 \<noteq> None"
    using s1(1) assms(1) add
    by (auto simp: visitVariableExpr_def build_load_def at_block_def build_def finish_def split: option.splits if_splits)
       (auto simp: set_last_def)
  have call: "misplaced (block_code v)" if "build_call g vs finish r = Done v" "behind_terminator r \<or> misplaced (block_code r)" for g vs r v
    using that add by (auto simp: build_call_def finish_def set_last_def)
  have new: "behind_terminator (add_instr Ret_Void (set_insert_point b r))" for b r
    by (simp add: behind_terminator_def set_insert_point_def add_instr_def has_terminator_def)
  show ?thesis
    using s1ok s1(2) assms(2) call new
    by (auto simp: finish_call_def direct_callee_def call_value_def new_function_def block_in_def new_block_def
        split: option.splits)
qed

text \<open>A program that ends like what the interactive loop makes of an expression: a function, and a call of a name
  \<open>repl_expr_\<close>.\<close>

fun repl_call :: "stmt option \<Rightarrow> bool" where
  "repl_call (Some (ExpressionStmt u (CallExpr v (VariableExpr w f) []))) = starts_with ''repl_expr_'' f"
| "repl_call _ = False"

fun plain_function :: "stmt option \<Rightarrow> bool" where
  "plain_function (Some (FunctionStmt x n [] ps r b False)) = True"
| "plain_function _ = False"

fun ends_in_repl_call :: "stmt \<Rightarrow> bool" where
  "ends_in_repl_call (BlockStmt t ss) = (case rev ss of c # f # rest \<Rightarrow> repl_call c \<and> plain_function f | _ \<Rightarrow> False)"
| "ends_in_repl_call _ = False"

lemma visit_each_append: "visit_each (fs @ gs) s = and_then (visit_each fs s) (visit_each gs)"
  by (induction fs arbitrary: s) (auto simp: and_then_def split: emitted.split)

lemma ends_in_repl_callE:
  assumes "ends_in_repl_call p"
  obtains t ss x n ps r b u v w f where
    "p = BlockStmt t (ss @ [Some (FunctionStmt x n [] ps r b False), Some (ExpressionStmt u (CallExpr v (VariableExpr w f) []))])"
    "starts_with ''repl_expr_'' f"
proof (cases p)
  case (BlockStmt t ss)
  obtain c fn rest where ss: "ss = rev rest @ [fn, c]" "repl_call c" "plain_function fn"
    using assms BlockStmt by (auto simp: rev_swap split: list.splits)
  moreover obtain u v w f where "c = Some (ExpressionStmt u (CallExpr v (VariableExpr w f) []))" "starts_with ''repl_expr_'' f"
    using ss(2) by (cases c rule: repl_call.cases) simp_all
  moreover obtain x n ps r b where "fn = Some (FunctionStmt x n [] ps r b False)"
    using ss(3) by (cases fn rule: plain_function.cases) simp_all
  ultimately show ?thesis
    using that BlockStmt by blast
qed (use assms in auto)

lemma repl_call_misplaced:
  assumes "ends_in_repl_call p" "generate (Some p) s = Done (m, g)"
  shows "misplaced (block_code g)"
proof -
  obtain t ss x n ps r b u v w f where p:
    "p = BlockStmt t (ss @ [Some (FunctionStmt x n [] ps r b False), Some (ExpressionStmt u (CallExpr v (VariableExpr w f) []))])"
    "starts_with ''repl_expr_'' f"
    using assms(1) by (rule ends_in_repl_callE)
  obtain s1 where s1: "scoped (gen_stmt p) s = Done s1"
    using assms(2) unfolding generate_def option.case and_then_Done by blast
  obtain s2 s3 s4 where "regular_function n ps r (gen_stmt b) s2 = Done s3"
      "gen_expr (CallExpr v (VariableExpr w f) []) s3 = Done s4" "block_code s1 = block_code s4"
    using s1 unfolding p(1)
    by (auto simp: scoped_def and_then_Done visit_each_append optional_visit_def visitFunctionStmt_def gen_exitScope_def
        simp del: gen_expr.simps)
  then show ?thesis
    using call_misplaced [OF regular_function_behind p(2)] generate_module [OF assms(2) s1] by metis
qed

text \<open>The interactive loop puts an expression into a function and calls it after the definition. The
  generator's insertion point is then still behind the return of that function, so with a verifier that rejects an
  instruction behind a terminator no such program is accepted: an expression at the prompt never compiles.\<close>

theorem repl_expression_rejected:
  assumes "ends_in_repl_call p" "\<And>fs c. misplaced c \<Longrightarrow> tc_verify_module L fs c \<noteq> None"
  shows "compileToNative L opts file p d \<noteq> Returns (True, d1)"
proof (cases "generate (Some p) (new_IRGenerator (drv_handler d) (tc_stod L) (tc_verify_function L) (tc_verify_module L))")
  case (Done r)
  obtain m g where r: "r = (m, g)" by (cases r)
  have "tc_verify_module L (fun_table g) (block_code g) \<noteq> None"
    using repl_call_misplaced [OF assms(1) Done [unfolded r]] assms(2) by blast
  then show ?thesis
    by (auto simp: compileToNative_def Done r ask_fatal_def split: sum.splits if_splits option.splits)
qed (simp_all add: compileToNative_def)

definition strict :: "nat toolchain" where
  "strict = accepting\<lparr>tc_verify_module := (\<lambda>fs c. if misplaced c then Some ''terminator in the middle of a block'' else None)\<rparr>"

lemma repl_expression_rejected_witness:
  "compileToNative strict repl_options ''<repl>''
     (BlockStmt default_token [Some (FunctionStmt default_token ''repl_expr_0'' [] [] (BasicType default_token INT_KIND) (BlockStmt default_token []) False),
       Some (ExpressionStmt default_token (CallExpr default_token (VariableExpr default_token ''repl_expr_0'') []))])
     start_driver \<noteq> Returns (True, start_driver)"
  by (rule repl_expression_rejected) (simp_all add: strict_def starts_with_take)

section \<open>The state of the interactive loop\<close>

definition render :: "entry list \<Rightarrow> string" where
  "render es = concat (map (\<lambda>e. NL # entry_text e) es)"

primrec entry_number :: "entry \<Rightarrow> nat list" where
  "entry_number (Given l) = []"
| "entry_number (Wrapped n l) = [n]"

definition numbers :: "entry list \<Rightarrow> nat list" where
  "numbers es = concat (map entry_number es)"

text \<open>The state is the text of the accepted lines; the functions in it have increasing numbers below the counter.\<close>

definition repl_history :: "repl \<Rightarrow> entry list \<Rightarrow> bool" where
  "repl_history s es \<longleftrightarrow> replState s = render es \<and> sorted_wrt (<) (numbers es @ [replCounter s])"

lemma history_driver [simp]: "repl_history (s\<lparr>repl_driver := d\<rparr>) es = repl_history s es"
  by (simp add: repl_history_def)

lemma history_say [simp]: "repl_history (say x s) es = repl_history s es"
  by (simp add: repl_history_def say_def)

lemma history_forget:
  assumes "forget_errors k s = Returns t" "repl_history s es"
  obtains u where "k u = Returns t" "repl_history u es"
  using assms by (auto simp: forget_errors_def split: sum.splits prod.splits)

lemma history_compile:
  assumes "repl_compile L l k s = Returns t" "repl_history s es"
  obtains u fs where "k u = Returns t" "repl_history u fs"
proof -
  define e where "e = repl_entry (replCounter s) l"
  define s1 where "s1 = (case e of Given x \<Rightarrow> s | Wrapped n x \<Rightarrow> s\<lparr>replCounter := replCounter s + 1\<rparr>)"
  have e: "entry_number e = [] \<and> s1 = s \<or> entry_number e = [replCounter s] \<and> s1 = s\<lparr>replCounter := replCounter s + 1\<rparr>"
    by (simp add: e_def s1_def repl_entry_def)
  have old: "repl_history s1 es"
    using e assms(2) by (auto simp: repl_history_def sorted_wrt_append)
  have new: "repl_history (s1\<lparr>replState := replState s @ NL # entry_text e, repl_driver := d\<rparr>) (es @ [e])" for d
    using e assms(2) by (auto simp: repl_history_def render_def numbers_def sorted_wrt_append) (metis less_SucI)
  consider (ok) d where "k (say ''> '' (s1\<lparr>replState := replState s @ NL # entry_text e, repl_driver := d\<rparr>)) = Returns t"
    | (fail) d where "forget_errors (k \<circ> say ''> '') (s1\<lparr>repl_driver := d\<rparr>) = Returns t"
    using assms(1) unfolding repl_compile_def Let_def e_def [symmetric] s1_def [symmetric]
    by (auto split: ended.splits if_splits prod.splits)
  then show ?thesis
  proof cases
    case ok
    then show ?thesis using that new by (metis history_say)
  next
    case fail
    then obtain u where "k (say ''> '' u) = Returns t" "repl_history u es"
      using old by (elim history_forget) (auto simp: comp_def)
    then show ?thesis using that by (metis history_say)
  qed
qed

lemma history_loop: "repl_loop L ls s = Returns t \<Longrightarrow> repl_history s es \<Longrightarrow> \<exists>fs. repl_history t fs"
proof (induction ls arbitrary: s es)
  case (Cons l ls)
  let ?clear = "\<lambda>s1. repl_loop L ls (say ''> '' (s1\<lparr>replState := [], replCounter := 0\<rparr>))"
  have empty: "repl_history (say ''> '' (u\<lparr>replState := [], replCounter := 0\<rparr>)) []" for u
    by (simp add: repl_history_def render_def numbers_def say_def)
  show ?case
  proof (cases "l = ''exit'' \<or> l = ''quit''")
    case False
    consider "l = ''clear''" | x where "l \<noteq> ''clear''" "repl_command l = Some x"
      | "l \<noteq> ''clear''" "repl_command l = None" "trim l = []" | "l \<noteq> ''clear''" "repl_command l = None" "trim l \<noteq> []"
      by blast
    then show ?thesis
    proof cases
      case 1
      then have "forget_errors ?clear s = Returns t" using Cons.prems(1) by simp
      then obtain u where "?clear u = Returns t" using Cons.prems(2) by (rule history_forget)
      then show ?thesis by (rule Cons.IH [OF _ empty])
    next
      case 4
      then have "repl_compile L (trim l) (repl_loop L ls) s = Returns t" using Cons.prems(1) False by simp
      then obtain u fs where "repl_loop L ls u = Returns t" "repl_history u fs" using Cons.prems(2) by (rule history_compile)
      then show ?thesis by (rule Cons.IH)
    qed (use Cons False in auto)
  qed (use Cons in auto)
qed auto

lemma show_nat_inject: "show_nat m = show_nat n \<Longrightarrow> m = n"
  by (metis digits_value_show)

text \<open>The names that the interactive loop invents are all different: the functions in its state carry different
  numbers, below the counter.\<close>

theorem repl_names_fresh:
  assumes "runEnhancedRepl L ls d = Returns s"
  shows "\<exists>es. replState s = render es \<and> distinct (map repl_name (numbers es @ [replCounter s]))"
proof -
  have "repl_history (say repl_banner \<lparr>replState = [], replCounter = 0, repl_driver = d\<rparr>) []"
    unfolding history_say by (simp add: repl_history_def render_def numbers_def)
  then obtain es where es: "repl_history s es"
    using history_loop assms unfolding runEnhancedRepl_def by blast
  then have "distinct (numbers es @ [replCounter s])"
    unfolding repl_history_def by (simp add: strict_sorted_iff)
  moreover have "inj repl_name"
    by (rule injI) (simp add: repl_name_def show_nat_inject)
  ultimately have "distinct (map repl_name (numbers es @ [replCounter s]))"
    unfolding distinct_map by (blast intro: inj_on_subset)
  with es show ?thesis unfolding repl_history_def by blast
qed

end
