(* ===== verification/Tocin_Async.thy ===== *)
theory Tocin_Async
  imports Tocin_Condition "HOL-Library.Multiset"
begin

text \<open>
  \<open>AsyncScheduler\<close> and \<open>AsyncSystem\<close> of \<open>src/runtime/async_system.h\<close>. The workers and the callers of \<open>waitForAll\<close> sleep on the
  same condition variable. Everything that changes the queue or the flag holds the mutex, so a stretch under
  the mutex is one step; the notification of \<open>submit\<close> comes after its unlock and is a step of its own. A task is a
  number.
\<close>

section \<open>State\<close>

datatype async_thread =
    Work_Ready      \<comment> \<open>a worker before its test of the predicate\<close>
  | Work_Asleep
  | Work_Running nat
  | Work_Returned
  | Outside         \<comment> \<open>a thread of the program\<close>
  | Wait_Ready      \<comment> \<open>in \<open>waitForAll\<close>, before the test\<close>
  | Wait_Asleep

record async =
  async_threads :: "async_thread list"
  async_tasks :: "nat list"
  async_stop :: bool
  async_notify :: nat       \<comment> \<open>callers of \<open>submit\<close> between the unlock and \<open>notify_one\<close>\<close>
  async_joining :: bool     \<comment> \<open>\<open>stopWorkers\<close> has notified all\<close>
  async_submitted :: "nat list"
  async_executed :: "nat list"

text \<open>The scheduler with its workers, and the threads of the program that may call it.\<close>

definition new_AsyncScheduler :: "nat \<Rightarrow> nat \<Rightarrow> async" where
  "new_AsyncScheduler workers clients =
     \<lparr>async_threads = replicate workers Work_Ready @ replicate clients Outside, async_tasks = [], async_stop = False,
      async_notify = 0, async_joining = False, async_submitted = [], async_executed = []\<rparr>"

fun async_asleep :: "async_thread \<Rightarrow> bool" where
  "async_asleep Work_Asleep = True"
| "async_asleep Wait_Asleep = True"
| "async_asleep t = False"

fun async_wake :: "async_thread \<Rightarrow> async_thread" where
  "async_wake Work_Asleep = Work_Ready"
| "async_wake Wait_Asleep = Wait_Ready"
| "async_wake t = t"

definition set_async :: "nat \<Rightarrow> async_thread \<Rightarrow> async \<Rightarrow> async" where
  "set_async i t p = p\<lparr>async_threads := (async_threads p)[i := t]\<rparr>"

section \<open>Operations\<close>

text \<open>A worker under the mutex: it sleeps, returns, or takes a task.\<close>

definition async_test :: "nat \<Rightarrow> async \<Rightarrow> async" where
  "async_test i p =
     (if \<not> (async_stop p \<or> async_tasks p \<noteq> []) then set_async i Work_Asleep p
      else if async_stop p \<and> async_tasks p = [] then set_async i Work_Returned p
      else set_async i (Work_Running (hd (async_tasks p))) (p\<lparr>async_tasks := tl (async_tasks p)\<rparr>))"

definition async_run :: "nat \<Rightarrow> nat \<Rightarrow> async \<Rightarrow> async" where
  "async_run i t p = set_async i Work_Ready (p\<lparr>async_executed := async_executed p @ [t]\<rparr>)"

definition async_submit :: "nat \<Rightarrow> async \<Rightarrow> async" where
  "async_submit t p = p\<lparr>async_tasks := async_tasks p @ [t], async_submitted := async_submitted p @ [t],
     async_notify := async_notify p + 1\<rparr>"

definition waitForAll_test :: "nat \<Rightarrow> async \<Rightarrow> async" where
  "waitForAll_test i p = set_async i (if async_tasks p = [] then Outside else Wait_Asleep) p"

definition getPendingTaskCount :: "async \<Rightarrow> nat" where
  "getPendingTaskCount p = length (async_tasks p)"

definition async_stop_store :: "async \<Rightarrow> async" where
  "async_stop_store p = p\<lparr>async_stop := True\<rparr>"

definition async_notify_all :: "async \<Rightarrow> async" where
  "async_notify_all p = p\<lparr>async_threads := map async_wake (async_threads p), async_joining := True\<rparr>"

text \<open>The steps of the threads that are inside the scheduler.\<close>

inductive async_step :: "async \<Rightarrow> async \<Rightarrow> bool" where
  async_tests: "i < length (async_threads p) \<Longrightarrow> async_threads p ! i = Work_Ready \<Longrightarrow> async_step p (async_test i p)"
| async_runs: "i < length (async_threads p) \<Longrightarrow> async_threads p ! i = Work_Running t \<Longrightarrow> async_step p (async_run i t p)"
| async_waits: "i < length (async_threads p) \<Longrightarrow> async_threads p ! i = Wait_Ready \<Longrightarrow> async_step p (waitForAll_test i p)"
| async_notifies: "async_notify p = Suc k \<Longrightarrow> notify_some async_wake async_asleep (async_threads p) ts \<Longrightarrow>
     async_step p (p\<lparr>async_threads := ts, async_notify := k\<rparr>)"

text \<open>What the program does, and spurious wake-ups. \<open>delay\<close> submits from a thread of its own.\<close>

inductive async_call :: "async \<Rightarrow> async \<Rightarrow> bool" where
  call_submit: "async_call p (async_submit t p)"
| call_wait: "i < length (async_threads p) \<Longrightarrow> async_threads p ! i = Outside \<Longrightarrow> async_call p (set_async i Wait_Ready p)"
| call_stop: "async_call p (async_stop_store p)"
| call_notify_all: "async_stop p \<Longrightarrow> async_call p (async_notify_all p)"
| async_spurious: "i < length (async_threads p) \<Longrightarrow> async_call p (set_async i (async_wake (async_threads p ! i)) p)"

inductive async_reachable :: "nat \<Rightarrow> nat \<Rightarrow> async \<Rightarrow> bool" for n m where
  async_start: "async_reachable n m (new_AsyncScheduler n m)"
| async_next: "async_reachable n m p \<Longrightarrow> async_step p q \<Longrightarrow> async_reachable n m q"
| async_calls: "async_reachable n m p \<Longrightarrow> async_call p q \<Longrightarrow> async_reachable n m q"

section \<open>The invariant\<close>

text \<open>The workers' share of the condition variable.\<close>

definition work_asleep :: "async_thread \<Rightarrow> bool" where "work_asleep t \<longleftrightarrow> t = Work_Asleep"
definition work_ready :: "async_thread \<Rightarrow> bool" where "work_ready t \<longleftrightarrow> t = Work_Ready"

interpretation work: condition_variable async_wake work_asleep work_ready
proof
  fix t show "work_asleep t \<Longrightarrow> work_ready (async_wake t)" "work_ready t \<Longrightarrow> \<not> work_asleep t" "\<not> work_asleep (async_wake t)"
    by (cases t; simp add: work_asleep_def work_ready_def)+
qed

fun async_task :: "async_thread \<Rightarrow> nat multiset" where
  "async_task (Work_Running t) = {#t#}"
| "async_task t = {#}"

definition in_work :: "async_thread list \<Rightarrow> nat multiset" where
  "in_work ts = sum_list (map async_task ts)"

lemma in_work_none: "(\<And>t. t \<in> set ts \<Longrightarrow> async_task t = {#}) \<Longrightarrow> in_work ts = {#}"
  by (induction ts) (simp_all add: in_work_def)

lemma in_work_update: "i < length ts \<Longrightarrow> in_work (ts[i := t]) + async_task (ts ! i) = in_work ts + async_task t"
  by (induction ts arbitrary: i) (auto simp: in_work_def less_Suc_eq_0_disj ac_simps)

lemma in_work_quiet: "i < length ts \<Longrightarrow> async_task (ts ! i) = async_task t \<Longrightarrow> in_work (ts[i := t]) = in_work ts"
  using in_work_update [of i ts t] by simp

lemma async_task_wake [simp]: "async_task (async_wake t) = async_task t"
  by (cases t) simp_all

lemma in_work_woken [simp]: "in_work (map async_wake ts) = in_work ts"
  by (simp add: in_work_def comp_def)

fun is_worker :: "async_thread \<Rightarrow> bool" where
  "is_worker Outside = False" | "is_worker Wait_Ready = False" | "is_worker Wait_Asleep = False" | "is_worker t = True"

lemma is_worker_wake [simp]: "is_worker (async_wake t) = is_worker t"
  by (cases t) simp_all

definition async_inv :: "nat \<Rightarrow> nat \<Rightarrow> async \<Rightarrow> bool" where
  "async_inv n m p \<longleftrightarrow>
     map is_worker (async_threads p) = replicate n True @ replicate m False
   \<and> mset (async_submitted p) = mset (async_executed p) + in_work (async_threads p) + mset (async_tasks p)
   \<and> (async_joining p \<longrightarrow> async_stop p \<and> \<not> list_ex work_asleep (async_threads p))
   \<and> (Work_Returned \<in> set (async_threads p) \<longrightarrow> async_stop p)"

lemma workers_update: "i < length ts \<Longrightarrow> is_worker t = is_worker (ts ! i) \<Longrightarrow> map is_worker (ts[i := t]) = map is_worker ts"
  by (simp add: map_update list_update_same_conv)

lemma returned_update: "Work_Returned \<in> set (ts[i := t]) \<Longrightarrow> t = Work_Returned \<or> Work_Returned \<in> set ts"
  using set_update_subset_insert [of ts i t] by blast

lemma wake_returned: "async_wake t = Work_Returned \<longleftrightarrow> t = Work_Returned"
  by (cases t) simp_all

lemma not_asleep_update: "i < length ts \<Longrightarrow> \<not> list_ex work_asleep ts \<Longrightarrow> \<not> work_asleep t \<Longrightarrow> \<not> list_ex work_asleep (ts[i := t])"
  by (auto dest: list_ex_update)

lemmas async_update = in_work_update workers_update returned_update not_asleep_update set_async_def

lemma inv_test:
  assumes "async_inv n m p" "i < length (async_threads p)" "async_threads p ! i = Work_Ready"
  shows "async_inv n m (async_test i p)"
proof -
  have w: "is_worker t \<Longrightarrow> map is_worker ((async_threads p)[i := t]) = map is_worker (async_threads p)" for t
    using assms by (simp add: workers_update)
  have t: "in_work ((async_threads p)[i := t]) = in_work (async_threads p) + async_task t" for t
    using assms in_work_update [of i "async_threads p" t] by simp
  have a: "async_joining p \<Longrightarrow> \<not> work_asleep t \<Longrightarrow> \<not> list_ex work_asleep ((async_threads p)[i := t])" for t
    using assms by (auto simp: async_inv_def dest: list_ex_update)
  show ?thesis
    using assms(1) a [of Work_Returned] a [of "Work_Running x" for x]
    by (cases "async_tasks p") (auto simp: async_inv_def async_test_def set_async_def w t work_asleep_def dest: returned_update)
qed

lemma inv_change:
  assumes "async_inv n m p" "i < length (async_threads p)" "is_worker t = is_worker (async_threads p ! i)"
    "async_task t = async_task (async_threads p ! i)" "t \<noteq> Work_Asleep"
    "t = Work_Returned \<Longrightarrow> async_threads p ! i = Work_Returned"
  shows "async_inv n m (set_async i t p)"
proof -
  have "async_threads p ! i = Work_Returned \<Longrightarrow> Work_Returned \<in> set (async_threads p)"
    using assms(2) by (metis nth_mem)
  then show ?thesis
    using assms in_work_quiet [OF assms(2), of t] returned_update [of "async_threads p" i t] not_asleep_update [OF assms(2), of t]
    by (auto simp: async_inv_def set_async_def workers_update work_asleep_def)
qed

lemma inv_wake: "async_inv n m p \<Longrightarrow> i < length (async_threads p) \<Longrightarrow> async_inv n m (set_async i (async_wake (async_threads p ! i)) p)"
  by (rule inv_change; (cases "async_threads p ! i"; simp))

lemma inv_notify:
  assumes "async_inv n m p" "notify_some async_wake async_asleep (async_threads p) ts"
  shows "async_inv n m (p\<lparr>async_threads := ts, async_notify := k\<rparr>)"
proof -
  have "async_inv n m (p\<lparr>async_threads := ts\<rparr>)"
    using assms inv_wake by (auto simp: notify_some_def set_async_def split: if_splits)
  then show ?thesis by (simp add: async_inv_def)
qed

lemma inv_step: "async_step p q \<Longrightarrow> async_inv n m p \<Longrightarrow> async_inv n m q"
proof (induction rule: async_step.induct)
  case (async_runs i p t)
  then show ?case
    using in_work_update [of i "async_threads p" Work_Ready]
    by (auto simp: async_run_def async_inv_def set_async_def workers_update work_asleep_def dest: returned_update list_ex_update)
next
  case (async_waits i p)
  then show ?case unfolding waitForAll_test_def by (intro inv_change) (auto split: if_splits)
qed (simp_all add: inv_test inv_notify)

lemma inv_call: "async_call p q \<Longrightarrow> async_inv n m p \<Longrightarrow> async_inv n m q"
proof (induction rule: async_call.induct)
  case (call_notify_all p)
  then show ?case
    using work.woken_all by (auto simp: async_notify_all_def async_inv_def comp_def wake_returned image_iff)
qed (auto simp: inv_wake intro: inv_change, auto simp: async_inv_def async_submit_def async_stop_store_def)

lemma inv_async: "async_reachable n m p \<Longrightarrow> async_inv n m p"
proof (induction rule: async_reachable.induct)
  case async_start
  have "sum_list (replicate k {#}) = ({#} :: nat multiset)" for k
    by (induction k) simp_all
  then show ?case by (auto simp: async_inv_def new_AsyncScheduler_def in_work_def)
qed (auto intro: inv_step inv_call)

text \<open>In every run, with any number of workers and of callers, each submitted task is queued, in work in exactly one
  worker, or executed.\<close>

theorem async_tasks_once:
  assumes "async_reachable n m p"
  shows "mset (async_submitted p) = mset (async_executed p) + in_work (async_threads p) + mset (async_tasks p)"
  using inv_async [OF assms] by (simp add: async_inv_def)

lemma async_tasks_once_witness:
  "mset (async_submitted (new_AsyncScheduler 2 1)) = in_work (async_threads (new_AsyncScheduler 2 1))"
  using async_tasks_once [OF async_start [of 2 1]] by (simp add: new_AsyncScheduler_def)

section \<open>Wake-ups\<close>

text \<open>A scheduler without callers of \<open>waitForAll\<close>: the tasks that no pending notification stands for owe the sleeping
  workers woken ones.\<close>

definition async_owed :: "async \<Rightarrow> bool" where
  "async_owed p \<longleftrightarrow> work.owed (length (async_tasks p) - async_notify p) (async_threads p)"

lemma asleep_worker: "is_worker t \<Longrightarrow> async_asleep t = work_asleep t"
  by (cases t) (simp_all add: work_asleep_def)

lemma notify_worker:
  assumes "list_all is_worker ts" "notify_some async_wake async_asleep ts us"
  shows "notify_some async_wake work_asleep ts us"
  using assms by (auto simp: notify_some_def list_all_length list_ex_length asleep_worker split: if_splits)

lemma only_workers:
  assumes "async_inv n 0 p"
  shows "list_all is_worker (async_threads p)"
proof -
  have "set (map is_worker (async_threads p)) \<subseteq> {True}"
    using assms unfolding async_inv_def by (auto simp del: set_map)
  then show ?thesis by (auto simp: list_all_iff)
qed

lemma owed_step:
  assumes "async_step p q" "async_inv n 0 p" "async_owed p"
  shows "async_owed q"
  using assms
proof (induction rule: async_step.induct)
  case (async_tests i p)
  have run: "work.owed (length (tl (async_tasks p)) - async_notify p) ((async_threads p)[i := Work_Running x])" for x
  proof (cases "length (async_tasks p) - async_notify p")
    case (Suc k)
    then show ?thesis
      using work.owed_take [OF async_tests(1), of k "Work_Running x"] async_tests by (auto simp: async_owed_def work_asleep_def intro: work.owed_less)
  next
    case 0
    then have "length (tl (async_tasks p)) - async_notify p = 0" by simp
    then show ?thesis by (metis work.owed_zero)
  qed
  then show ?case
    by (cases "async_tasks p") (auto simp: async_test_def async_owed_def set_async_def)
next
  case (async_runs i p t)
  then show ?case
    by (auto simp: async_run_def async_owed_def set_async_def work_asleep_def work_ready_def intro: work.owed_set)
next
  case (async_waits i p)
  then have "is_worker Wait_Ready"
    using only_workers by (metis list_all_length)
  then show ?case by simp
next
  case (async_notifies p k ts)
  have "work.owed (Suc (length (async_tasks p) - Suc k)) ts"
    using work.owed_notify [OF _ notify_worker [OF only_workers async_notifies(2)]] async_notifies by (auto simp: async_owed_def)
  then show ?case by (auto simp: async_owed_def intro: work.owed_less)
qed

lemma owed_call:
  assumes "async_call p q" "async_inv n 0 p" "async_owed p"
  shows "async_owed q"
  using assms
proof (induction rule: async_call.induct)
  case (call_wait i p)
  then have "is_worker Outside"
    using only_workers by (metis list_all_length)
  then show ?case by simp
next
  case (call_notify_all p)
  show ?case unfolding async_owed_def async_notify_all_def by (simp add: work.owed_none work.woken_all)
next
  case (async_spurious i p)
  have "async_threads p ! i = Work_Ready \<Longrightarrow> (async_threads p)[i := Work_Ready] = async_threads p"
    by (metis list_update_id)
  then show ?case
    using async_spurious work.owed_set [OF async_spurious(1), of _ "async_wake (async_threads p ! i)"]
    by (cases "async_threads p ! i = Work_Ready") (auto simp: async_owed_def set_async_def work.asleep_wake work_ready_def)
qed (auto simp: async_owed_def async_submit_def async_stop_store_def)

text \<open>No thread of the scheduler can go on: what is left are sleeping and returned ones.\<close>

definition async_stuck :: "async \<Rightarrow> bool" where
  "async_stuck p \<longleftrightarrow> (\<forall>q. \<not> async_step p q)"

inductive_cases async_stepE: "async_step p q"

lemma notify_some_ex: "\<exists>us. notify_some wake asleep ts us"
  by (auto simp: notify_some_def list_ex_length)

lemma stuck_threads:
  assumes "async_stuck p" "t \<in> set (async_threads p)"
  shows "t = Work_Asleep \<or> t = Work_Returned \<or> t = Outside \<or> t = Wait_Asleep"
proof -
  obtain i where "i < length (async_threads p)" "async_threads p ! i = t"
    using assms(2) by (auto simp: in_set_conv_nth)
  then show ?thesis
    using assms(1) async_step.intros(1-3) unfolding async_stuck_def by (cases t) blast+
qed

lemma stuck_notify: "async_stuck p \<Longrightarrow> async_notify p = 0"
  using async_notifies notify_some_ex unfolding async_stuck_def by (cases "async_notify p") blast+

lemma sleeping_stuck:
  assumes "async_notify p = 0" "\<And>t. t \<in> set (async_threads p) \<Longrightarrow> t = Work_Asleep \<or> t = Wait_Asleep"
  shows "async_stuck p"
proof -
  have "async_threads p ! i = Work_Asleep \<or> async_threads p ! i = Wait_Asleep" if "i < length (async_threads p)" for i
    using assms(2) nth_mem [OF that] by blast
  then show ?thesis
    using assms(1) unfolding async_stuck_def by (fastforce elim!: async_stepE)
qed

lemma rest_executed:
  assumes "async_reachable n 0 p" "async_stuck p" "0 < n" "\<not> async_stop p"
  shows "mset (async_executed p) = mset (async_submitted p)"
proof -
  have owed: "async_owed q" if "async_reachable n 0 q" for q
    using that
  proof (induction rule: async_reachable.induct)
    case async_start
    show ?case by (simp add: async_owed_def new_AsyncScheduler_def)
  qed (auto intro: owed_step owed_call inv_async)
  note inv = inv_async [OF assms(1)]
  have asleep: "t = Work_Asleep" if "t \<in> set (async_threads p)" for t
    using stuck_threads [OF assms(2) that] inv assms(4) only_workers [OF inv] that
    by (auto simp: async_inv_def list_all_iff)
  then have "number work_ready (async_threads p) = 0"
    by (auto simp: number_def work_ready_def filter_empty_conv)
  moreover have work: "in_work (async_threads p) = {#}"
    by (rule in_work_none) (drule asleep, simp)
  moreover have "length (async_threads p) = n"
    using inv unfolding async_inv_def by (metis add_0_right length_append length_map length_replicate)
  then have "list_ex work_asleep (async_threads p)"
    using assms(3) asleep by (cases "async_threads p") (auto simp: work_asleep_def)
  ultimately have "async_tasks p = []"
    using owed [OF assms(1)] stuck_notify [OF assms(2)] by (simp_all add: async_owed_def work.owed_def)
  then show ?thesis
    using inv work by (simp add: async_inv_def)
qed

text \<open>As long as nobody calls \<open>waitForAll\<close>, no wake-up is lost: when the scheduler rests and was not stopped, every
  submitted task has been executed.\<close>

theorem async_no_lost_wakeup:
  assumes "async_reachable n 0 p" "async_stuck p" "0 < n" "\<not> async_stop p"
  shows "mset (async_executed p) = mset (async_submitted p)"
  by (rule rest_executed [OF assms])

lemma async_no_lost_wakeup_witness:
  "\<exists>p. async_reachable 1 0 p \<and> async_stuck p \<and> mset (async_executed p) = mset (async_submitted p)"
proof -
  let ?p = "async_test 0 (new_AsyncScheduler 1 0)"
  have p: "async_threads ?p = [Work_Asleep]" "async_notify ?p = 0" "\<not> async_stop ?p"
    by (simp_all add: async_test_def new_AsyncScheduler_def set_async_def)
  have reach: "async_reachable 1 0 ?p"
    by (rule async_next [OF async_start async_tests]) (simp_all add: new_AsyncScheduler_def)
  have "async_stuck ?p"
    using p by (intro sleeping_stuck) simp_all
  then show ?thesis
    using async_no_lost_wakeup [OF reach _ _ p(3)] reach by (intro exI [of _ ?p]) simp
qed

text \<open>One worker and one caller of \<open>waitForAll\<close>, both asleep.\<close>

definition stolen_wakeup :: async where
  "stolen_wakeup = \<lparr>async_threads = [Work_Asleep, Wait_Asleep], async_tasks = [3], async_stop = False, async_notify = 0,
     async_joining = False, async_submitted = [1, 2, 3], async_executed = [1, 2]\<rparr>"

lemma stolen_wakeup_reachable: "async_reachable 1 1 stolen_wakeup"
proof -
  define S where "S ts qs k su ex = \<lparr>async_threads = ts, async_tasks = qs, async_stop = False, async_notify = k,
     async_joining = False, async_submitted = su, async_executed = ex\<rparr>" for ts qs k su ex
  note upd = S_def async_test_def async_run_def async_submit_def waitForAll_test_def set_async_def
  have 0: "async_reachable 1 1 (S [Work_Ready, Outside] [] 0 [] [])"
    using async_start [of 1 1] by (simp add: new_AsyncScheduler_def S_def)
  have 1: "async_reachable 1 1 (S [Work_Ready, Outside] [1, 2] 2 [1, 2] [])"
    using async_calls [OF async_calls [OF 0 call_submit [of _ 1]] call_submit [of _ 2]] by (simp add: upd numeral_2_eq_2)
  have 2: "async_reachable 1 1 (S [Work_Ready, Outside] [1, 2] 0 [1, 2] [])"
    using async_next [OF async_next [OF 1 async_notifies [of _ 1 "[Work_Ready, Outside]"]] async_notifies [of _ 0 "[Work_Ready, Outside]"]]
    by (simp add: S_def notify_some_def numeral_2_eq_2)
  have 3: "async_reachable 1 1 (S [Work_Running 1, Outside] [2] 0 [1, 2] [])"
    using async_next [OF 2 async_tests [of 0]] by (simp add: upd)
  have 4: "async_reachable 1 1 (S [Work_Running 1, Wait_Asleep] [2] 0 [1, 2] [])"
    using async_next [OF async_calls [OF 3 call_wait [of 1]] async_waits [of 1]] by (simp add: upd)
  have 5: "async_reachable 1 1 (S [Work_Running 2, Wait_Asleep] [] 0 [1, 2] [1])"
    using async_next [OF async_next [OF 4 async_runs [of 0 _ 1]] async_tests [of 0]] by (simp add: upd)
  have 6: "async_reachable 1 1 (S [Work_Asleep, Wait_Asleep] [] 0 [1, 2] [1, 2])"
    using async_next [OF async_next [OF 5 async_runs [of 0 _ 2]] async_tests [of 0]] by (simp add: upd)
  have 7: "async_reachable 1 1 (S [Work_Asleep, Wait_Asleep] [3] 1 [1, 2, 3] [1, 2])"
    using async_calls [OF 6 call_submit [of _ 3]] by (simp add: upd)
  have "notify_some async_wake async_asleep [Work_Asleep, Wait_Asleep] [Work_Asleep, Wait_Ready]"
    unfolding notify_some_def by (auto intro!: exI [of _ 1])
  then have 8: "async_reachable 1 1 (S [Work_Asleep, Wait_Ready] [3] 0 [1, 2, 3] [1, 2])"
    using async_next [OF 7 async_notifies [of _ 0 "[Work_Asleep, Wait_Ready]"]] by (simp add: S_def)
  show ?thesis
    using async_next [OF 8 async_waits [of 1]] by (simp add: upd stolen_wakeup_def)
qed

text \<open>A caller of \<open>waitForAll\<close> breaks this. It sleeps on the variable of the workers, nobody notifies when the queue
  gets empty, and \<open>submit\<close> notifies one thread of either kind: the notification can go to the caller, which sleeps
  again because of the new task, while the only worker sleeps on. The task is not executed, and the call has not
  returned although all earlier tasks are done.\<close>

theorem async_wakeup_stolen:
  "\<exists>p. async_reachable 1 1 p \<and> async_stuck p \<and> async_tasks p \<noteq> [] \<and> Wait_Asleep \<in> set (async_threads p)"
proof (intro exI conjI)
  show "async_reachable 1 1 stolen_wakeup"
    by (rule stolen_wakeup_reachable)
  show "async_stuck stolen_wakeup"
    by (rule sleeping_stuck) (auto simp: stolen_wakeup_def)
qed (simp_all add: stolen_wakeup_def)

section \<open>Stopping\<close>

fun async_weight :: "async_thread \<Rightarrow> nat" where
  "async_weight Work_Ready = 1" | "async_weight (Work_Running t) = 2" | "async_weight Wait_Ready = 1" | "async_weight t = 0"

definition async_measure :: "async \<Rightarrow> nat" where
  "async_measure p = 2 * length (async_tasks p) + 2 * async_notify p + sum_list (map async_weight (async_threads p))"

lemma weight_update: "i < length ts \<Longrightarrow> sum_list (map async_weight (ts[i := t])) + async_weight (ts ! i)
    = sum_list (map async_weight ts) + async_weight t"
  by (induction ts arbitrary: i) (auto simp: less_Suc_eq_0_disj)

lemma weight_less: "i < length ts \<Longrightarrow> async_weight t + k < async_weight (ts ! i) + l \<Longrightarrow>
    sum_list (map async_weight (ts[i := t])) + k < sum_list (map async_weight ts) + l"
  using weight_update [of i ts t] by linarith

lemma async_step_measure: "async_step p q \<Longrightarrow> async_measure q < async_measure p"
proof (induction rule: async_step.induct)
  case (async_tests i p)
  have "sum_list (map async_weight ((async_threads p)[i := t])) + k < sum_list (map async_weight (async_threads p)) + l"
    if "async_weight t + k < 1 + l" for t k l
    using weight_less [OF async_tests(1), of t k l] async_tests(2) that by simp
  from this [of Work_Asleep 0 0] this [of Work_Returned 0 0] this [of "Work_Running x" 0 2 for x] show ?case
    by (cases "async_tasks p") (auto simp: async_measure_def async_test_def set_async_def)
next
  case (async_runs i p t)
  then show ?case
    using weight_less [OF async_runs(1), of Work_Ready 0 0] by (simp add: async_measure_def async_run_def set_async_def)
next
  case (async_waits i p)
  then show ?case
    using weight_less [OF async_waits(1), of _ 0 0] by (auto simp: async_measure_def waitForAll_test_def set_async_def)
next
  case (async_notifies p k ts)
  have "sum_list (map async_weight ts) + 0 < sum_list (map async_weight (async_threads p)) + 2"
  proof (cases "list_ex async_asleep (async_threads p)")
    case True
    then obtain j where j: "j < length (async_threads p)" "async_asleep (async_threads p ! j)"
        "ts = (async_threads p)[j := async_wake (async_threads p ! j)]"
      using async_notifies(2) by (auto simp: notify_some_def)
    then show ?thesis
      unfolding j(3) by (intro weight_less) (cases "async_threads p ! j"; simp)+
  qed (use async_notifies(2) in \<open>simp add: notify_some_def\<close>)
  then show ?case
    using async_notifies(1) by (simp add: async_measure_def)
qed

lemma async_steps_bounded: "(async_step ^^ j) p q \<Longrightarrow> j + async_measure q \<le> async_measure p"
proof (induction j arbitrary: q)
  case (Suc j)
  then show ?case using async_step_measure by fastforce
qed simp

lemma joining_step: "async_step p q \<Longrightarrow> async_joining q = async_joining p"
  by (induction rule: async_step.induct)
     (simp_all add: async_test_def async_run_def waitForAll_test_def set_async_def)

text \<open>Stopping terminates. The flag is set under the mutex, so no worker can sleep after the notification: from then on
  every run of the scheduler is finite, and where it ends all workers have returned and can be joined.\<close>

theorem async_stop_returns:
  assumes "async_reachable n m p" "async_joining p"
  shows "\<exists>k. \<forall>j q. (async_step ^^ j) p q \<longrightarrow> j \<le> k
    \<and> (async_stuck q \<longrightarrow> (\<forall>t \<in> set (async_threads q). is_worker t \<longrightarrow> t = Work_Returned))"
proof -
  have q: "async_reachable n m q \<and> async_joining q" if "(async_step ^^ j) p q" for j q
    using that
  proof (induction j arbitrary: q)
    case (Suc j)
    then show ?case using async_next joining_step by (metis relpowp_Suc_E)
  qed (simp add: assms)
  have "t = Work_Returned" if "(async_step ^^ j) p q" "async_stuck q" "t \<in> set (async_threads q)" "is_worker t" for j q t
    using stuck_threads [OF that(2,3)] that(3,4) q [OF that(1)] inv_async [of n m q]
    by (auto simp: async_inv_def list_ex_iff work_asleep_def)
  then show ?thesis
    using async_steps_bounded by (intro exI [of _ "async_measure p"]) fastforce
qed

lemma async_stop_returns_witness:
  "\<exists>p k. async_reachable 1 0 p \<and> async_joining p \<and> (\<forall>j q. (async_step ^^ j) p q \<longrightarrow> j \<le> k)"
proof -
  let ?p = "async_notify_all (async_stop_store (new_AsyncScheduler 1 0))"
  have "async_reachable 1 0 ?p"
    by (intro async_calls [OF async_calls [OF async_start call_stop] call_notify_all]) (simp add: async_stop_store_def)
  moreover have "async_joining ?p" by (simp add: async_notify_all_def)
  ultimately show ?thesis using async_stop_returns by blast
qed

section \<open>The global scheduler and coroutines\<close>

text \<open>\<open>schedulerMutex\<close> is not recursive: \<open>None\<close> is a thread that locks it twice.\<close>

record async_system =
  schedulerLocked :: bool
  globalScheduler :: "async option"

definition async_initialize :: "nat \<Rightarrow> async_system \<Rightarrow> async_system option" where
  "async_initialize workers s =
     (if schedulerLocked s then None
      else Some (if globalScheduler s = None then s\<lparr>globalScheduler := Some (new_AsyncScheduler workers 0)\<rparr> else s))"

definition getScheduler :: "nat \<Rightarrow> async_system \<Rightarrow> (async option \<times> async_system) option" where
  "getScheduler hardware s =
     (if schedulerLocked s then None
      else if globalScheduler s = None then
        (case async_initialize hardware (s\<lparr>schedulerLocked := True\<rparr>) of
           None \<Rightarrow> None
         | Some s1 \<Rightarrow> Some (globalScheduler s1, s1\<lparr>schedulerLocked := False\<rparr>))
      else Some (globalScheduler s, s))"

text \<open>\<open>getScheduler\<close> never returns before \<open>initialize\<close> was called: it would call it with the mutex held.\<close>

theorem getScheduler_deadlocks:
  "getScheduler hardware s = None \<longleftrightarrow> schedulerLocked s \<or> globalScheduler s = None"
  by (simp add: getScheduler_def async_initialize_def)

record coroutine =
  co_continuation :: "nat option"
  co_suspended :: bool

definition new_CoroutineContext :: coroutine where
  "new_CoroutineContext = \<lparr>co_continuation = None, co_suspended = False\<rparr>"

definition co_suspend :: "coroutine \<Rightarrow> coroutine" where
  "co_suspend c = c\<lparr>co_suspended := True\<rparr>"

definition setContinuation :: "nat option \<Rightarrow> coroutine \<Rightarrow> coroutine" where
  "setContinuation k c = c\<lparr>co_continuation := k\<rparr>"

definition co_resume :: "coroutine \<times> async \<Rightarrow> coroutine \<times> async" where
  "co_resume = (\<lambda>(c, p).
     case co_continuation c of
       Some t \<Rightarrow> if co_suspended c then (c\<lparr>co_suspended := False\<rparr>, async_submit t p) else (c, p)
     | None \<Rightarrow> (c, p))"

text \<open>A second resume without a suspend in between submits nothing.\<close>

lemma co_resume_once: "co_resume (co_resume s) = co_resume s"
  by (cases s) (simp add: co_resume_def split: option.split)

end
