(* ===== verification/Tocin_Context.thy ===== *)
theory Tocin_Context
  imports Tocin_Scopes Tocin_Type_Objects
begin

text \<open>
  \<open>src/compiler/compilation_context.h\<close> and \<open>src/compiler/compilation_context.cpp\<close>: the symbol
  tables of a compilation. A look-up returns a pointer into a table; here it returns what the
  pointer points to. The scope level stays below \<open>2 ^ 31\<close>, so that its conversion to \<open>int\<close> is
  exact. A \<open>void*\<close> is a number, null is 0; a time point is the number of microseconds that the
  clock shows, and a timing is kept in microseconds, which the code divides by 1000.
\<close>

section \<open>State\<close>

record ctx_symbol =
  sym_name :: string
  sym_type :: "ctype option"
  sym_constant :: bool
  sym_global :: bool
  sym_level :: nat

record ctx_function =
  cf_name :: string
  cf_return :: "ctype option"
  cf_parameters :: "ctype list"
  cf_parameter_names :: "string list"
  cf_variadic :: bool
  cf_generic :: bool
  cf_generic_params :: "string list"

record ctx_class =
  cc_name :: string
  cc_type :: "ctype option"
  cc_members :: "string list"
  cc_member_types :: "ctype list"
  cc_methods :: "ctx_function list"
  cc_abstract :: bool
  cc_generic :: bool
  cc_generic_params :: "string list"

record ctx_trait =
  ct_name :: string
  ct_methods :: "ctx_function list"
  ct_generic_params :: "string list"

record ctx_module =
  cm_name :: string
  cm_path :: string
  cm_loaded :: bool
  cm_exports :: "string list"

record ctx_instance =
  ci_base :: string
  ci_arguments :: "ctype list"
  ci_type :: "ctype option"

type_synonym ctx_tables = "nat \<Rightarrow> (string \<Rightarrow> ctx_symbol option) option"

record compilation =
  ctx_filename :: string
  ctx_module_name :: string
  scope_level :: nat
  symbol_tables :: ctx_tables
  ctx_functions :: "string \<Rightarrow> ctx_function option"
  ctx_overloads :: "string \<Rightarrow> ctx_function list option"
  ctx_classes :: "string \<Rightarrow> ctx_class option"
  ctx_traits :: "string \<Rightarrow> ctx_trait option"
  ctx_modules :: "string \<Rightarrow> ctx_module option"
  ctx_instances :: "ctx_instance list"
  ctx_hot :: bool
  ctx_jit :: bool
  ctx_optimization :: int
  ctx_ffi :: bool
  ctx_concurrency :: bool
  ctx_advanced :: bool
  ctx_compiling :: bool
  ctx_symbols :: "string \<Rightarrow> nat option"
  ctx_dependencies :: "string list"
  ctx_errors :: "string list"
  ctx_warnings :: "string list"
  ctx_timers :: "string \<Rightarrow> int option"
  ctx_timings :: "string \<Rightarrow> int option"
  ctx_hot_symbols :: "string set"
  ctx_locked :: bool

definition new_CompilationContext :: "string \<Rightarrow> compilation" where
  "new_CompilationContext fname =
     \<lparr>ctx_filename = fname, ctx_module_name = ''main'', scope_level = 0, symbol_tables = Map.empty,
      ctx_functions = Map.empty, ctx_overloads = Map.empty, ctx_classes = Map.empty,
      ctx_traits = Map.empty, ctx_modules = Map.empty, ctx_instances = [], ctx_hot = True,
      ctx_jit = True, ctx_optimization = 2, ctx_ffi = True, ctx_concurrency = True,
      ctx_advanced = True, ctx_compiling = False, ctx_symbols = Map.empty, ctx_dependencies = [],
      ctx_errors = [], ctx_warnings = [], ctx_timers = Map.empty, ctx_timings = Map.empty,
      ctx_hot_symbols = {}, ctx_locked = False\<rparr>"

definition ctx_setFilename :: "string \<Rightarrow> compilation \<Rightarrow> compilation" where
  "ctx_setFilename x s = s\<lparr>ctx_filename := x\<rparr>"

definition ctx_setCurrentModule :: "string \<Rightarrow> compilation \<Rightarrow> compilation" where
  "ctx_setCurrentModule x s = s\<lparr>ctx_module_name := x\<rparr>"

definition ctx_setHotHybridEnabled :: "bool \<Rightarrow> compilation \<Rightarrow> compilation" where
  "ctx_setHotHybridEnabled x s = s\<lparr>ctx_hot := x\<rparr>"

definition ctx_setJITEnabled :: "bool \<Rightarrow> compilation \<Rightarrow> compilation" where
  "ctx_setJITEnabled x s = s\<lparr>ctx_jit := x\<rparr>"

definition ctx_setOptimizationLevel :: "int \<Rightarrow> compilation \<Rightarrow> compilation" where
  "ctx_setOptimizationLevel x s = s\<lparr>ctx_optimization := x\<rparr>"

definition ctx_setFFIEnabled :: "bool \<Rightarrow> compilation \<Rightarrow> compilation" where
  "ctx_setFFIEnabled x s = s\<lparr>ctx_ffi := x\<rparr>"

definition ctx_setConcurrencyEnabled :: "bool \<Rightarrow> compilation \<Rightarrow> compilation" where
  "ctx_setConcurrencyEnabled x s = s\<lparr>ctx_concurrency := x\<rparr>"

definition ctx_setAdvancedFeaturesEnabled :: "bool \<Rightarrow> compilation \<Rightarrow> compilation" where
  "ctx_setAdvancedFeaturesEnabled x s = s\<lparr>ctx_advanced := x\<rparr>"

definition ctx_setCompiling :: "bool \<Rightarrow> compilation \<Rightarrow> compilation" where
  "ctx_setCompiling x s = s\<lparr>ctx_compiling := x\<rparr>"

section \<open>Diagnostics\<close>

definition ctx_place :: "string \<Rightarrow> nat \<Rightarrow> nat \<Rightarrow> string" where
  "ctx_place fname l c =
     (if l > 0 then
        fname @ '':'' @ show_nat l @ (if c > 0 then '':'' @ show_nat c else [])
      else fname)"

definition ctx_addError :: "string \<Rightarrow> nat \<Rightarrow> nat \<Rightarrow> compilation \<Rightarrow> compilation" where
  "ctx_addError msg l c s =
     s\<lparr>ctx_errors := ctx_errors s @ [ctx_place (ctx_filename s) l c @ '': error: '' @ msg]\<rparr>"

definition ctx_addWarning :: "string \<Rightarrow> nat \<Rightarrow> nat \<Rightarrow> compilation \<Rightarrow> compilation" where
  "ctx_addWarning msg l c s =
     s\<lparr>ctx_warnings := ctx_warnings s @ [ctx_place (ctx_filename s) l c @ '': warning: '' @ msg]\<rparr>"

definition ctx_clearErrors :: "compilation \<Rightarrow> compilation" where
  "ctx_clearErrors s = s\<lparr>ctx_errors := []\<rparr>"

definition ctx_clearWarnings :: "compilation \<Rightarrow> compilation" where
  "ctx_clearWarnings s = s\<lparr>ctx_warnings := []\<rparr>"

section \<open>Scopes and symbols\<close>

definition ctx_enterScope :: "compilation \<Rightarrow> compilation" where
  "ctx_enterScope s =
     (let l = scope_level s + 1
      in s\<lparr>scope_level := l, symbol_tables := (symbol_tables s)(l \<mapsto> Map.empty)\<rparr>)"

definition ctx_exitScope :: "compilation \<Rightarrow> compilation" where
  "ctx_exitScope s =
     (if scope_level s > 0 then
        s\<lparr>symbol_tables := (symbol_tables s)(scope_level s := None), scope_level := scope_level s - 1\<rparr>
      else s)"

text \<open>\<open>symbolTables_[level]\<close> inserts an empty table when there is none.\<close>

definition table_at :: "ctx_tables \<Rightarrow> nat \<Rightarrow> string \<Rightarrow> ctx_symbol option" where
  "table_at ts l = (case ts l of None \<Rightarrow> Map.empty | Some t \<Rightarrow> t)"

definition declare_symbol :: "ctx_symbol \<Rightarrow> compilation \<Rightarrow> bool \<times> compilation" where
  "declare_symbol sb s =
     (let l = scope_level s; t = table_at (symbol_tables s) l;
          s1 = s\<lparr>symbol_tables := (symbol_tables s)(l \<mapsto> t)\<rparr>
      in if t (sym_name sb) \<noteq> None then
           (False, ctx_addError (''Symbol '' @ [SQUOTE] @ sym_name sb @ [SQUOTE]
                     @ '' already declared in current scope'') 0 0 s1)
         else (True, s1\<lparr>symbol_tables := (symbol_tables s1)(l \<mapsto> t(sym_name sb \<mapsto> sb))\<rparr>))"

definition new_symbol :: "string \<Rightarrow> ctype option \<Rightarrow> bool \<Rightarrow> nat \<Rightarrow> ctx_symbol" where
  "new_symbol n ty const l =
     \<lparr>sym_name = n, sym_type = ty, sym_constant = const, sym_global = (l = 0), sym_level = l\<rparr>"

definition declareSymbol :: "string \<Rightarrow> ctype option \<Rightarrow> bool \<Rightarrow> compilation \<Rightarrow> bool \<times> compilation" where
  "declareSymbol n ty const s = declare_symbol (new_symbol n ty const (scope_level s)) s"

primrec search_scopes :: "ctx_tables \<Rightarrow> string \<Rightarrow> nat \<Rightarrow> ctx_symbol option" where
  "search_scopes ts n 0 = (case ts 0 of None \<Rightarrow> None | Some t \<Rightarrow> t n)"
| "search_scopes ts n (Suc l) =
     (case ts (Suc l) of
        Some t \<Rightarrow> (case t n of Some sb \<Rightarrow> Some sb | None \<Rightarrow> search_scopes ts n l)
      | None \<Rightarrow> search_scopes ts n l)"

definition lookupSymbol :: "string \<Rightarrow> compilation \<Rightarrow> ctx_symbol option" where
  "lookupSymbol n s = search_scopes (symbol_tables s) n (scope_level s)"

definition isSymbolDeclared :: "string \<Rightarrow> compilation \<Rightarrow> bool" where
  "isSymbolDeclared n s = (lookupSymbol n s \<noteq> None)"

section \<open>Functions, classes, traits and modules\<close>

text \<open>The second and every later function of a name only goes to the overloads.\<close>

definition declareFunction :: "ctx_function \<Rightarrow> compilation \<Rightarrow> bool \<times> compilation" where
  "declareFunction f s =
     (True,
      if ctx_functions s (cf_name f) \<noteq> None then
        s\<lparr>ctx_overloads := (ctx_overloads s)(cf_name f \<mapsto>
            (case ctx_overloads s (cf_name f) of None \<Rightarrow> [] | Some fs \<Rightarrow> fs) @ [f])\<rparr>
      else s\<lparr>ctx_functions := (ctx_functions s)(cf_name f \<mapsto> f)\<rparr>)"

definition lookupFunction :: "string \<Rightarrow> compilation \<Rightarrow> ctx_function option" where
  "lookupFunction n s = ctx_functions s n"

definition lookupOverloadedFunctions :: "string \<Rightarrow> compilation \<Rightarrow> ctx_function list" where
  "lookupOverloadedFunctions n s = (case ctx_overloads s n of None \<Rightarrow> [] | Some fs \<Rightarrow> fs)"

definition already_declared :: "string \<Rightarrow> string \<Rightarrow> string" where
  "already_declared kind n = kind @ '' '' @ [SQUOTE] @ n @ [SQUOTE] @ '' already declared''"

definition declareClass :: "ctx_class \<Rightarrow> compilation \<Rightarrow> bool \<times> compilation" where
  "declareClass c s =
     (if ctx_classes s (cc_name c) \<noteq> None then
        (False, ctx_addError (already_declared ''Class'' (cc_name c)) 0 0 s)
      else (True, s\<lparr>ctx_classes := (ctx_classes s)(cc_name c \<mapsto> c)\<rparr>))"

definition lookupClass :: "string \<Rightarrow> compilation \<Rightarrow> ctx_class option" where
  "lookupClass n s = ctx_classes s n"

definition declareTrait :: "ctx_trait \<Rightarrow> compilation \<Rightarrow> bool \<times> compilation" where
  "declareTrait c s =
     (if ctx_traits s (ct_name c) \<noteq> None then
        (False, ctx_addError (already_declared ''Trait'' (ct_name c)) 0 0 s)
      else (True, s\<lparr>ctx_traits := (ctx_traits s)(ct_name c \<mapsto> c)\<rparr>))"

definition lookupTrait :: "string \<Rightarrow> compilation \<Rightarrow> ctx_trait option" where
  "lookupTrait n s = ctx_traits s n"

definition addDependency :: "string \<Rightarrow> compilation \<Rightarrow> compilation" where
  "addDependency d s =
     (if d \<notin> set (ctx_dependencies s) then s\<lparr>ctx_dependencies := ctx_dependencies s @ [d]\<rparr> else s)"

definition importModule :: "string \<Rightarrow> string \<Rightarrow> compilation \<Rightarrow> bool \<times> compilation" where
  "importModule n path s =
     (if ctx_modules s n \<noteq> None then (True, s)
      else (True, addDependency n (s\<lparr>ctx_modules := (ctx_modules s)(n \<mapsto>
             \<lparr>cm_name = n, cm_path = path, cm_loaded = False, cm_exports = []\<rparr>)\<rparr>)))"

definition lookupModule :: "string \<Rightarrow> compilation \<Rightarrow> ctx_module option" where
  "lookupModule n s = ctx_modules s n"

section \<open>Generic instantiations\<close>

text \<open>The test of both loops: the same name, as many arguments, and equal ones.\<close>

definition same_instance :: "ctx_instance \<Rightarrow> string \<Rightarrow> ctype list \<Rightarrow> bool" where
  "same_instance i base as \<longleftrightarrow> ci_base i = base \<and> length (ci_arguments i) = length as
     \<and> members_equal (map type_equals (ci_arguments i)) as"

definition registerGenericInstantiation :: "ctx_instance \<Rightarrow> compilation \<Rightarrow> bool \<times> compilation" where
  "registerGenericInstantiation i s =
     (if \<exists>e \<in> set (ctx_instances s). same_instance e (ci_base i) (ci_arguments i) then (True, s)
      else (True, s\<lparr>ctx_instances := ctx_instances s @ [i]\<rparr>))"

fun find_instance :: "ctx_instance list \<Rightarrow> string \<Rightarrow> ctype list \<Rightarrow> ctype option" where
  "find_instance [] base as = None"
| "find_instance (e # es) base as = (if same_instance e base as then ci_type e else find_instance es base as)"

definition lookupGenericInstantiation :: "string \<Rightarrow> ctype list \<Rightarrow> compilation \<Rightarrow> ctype option" where
  "lookupGenericInstantiation base as s = find_instance (ctx_instances s) base as"

section \<open>What the mutex guards\<close>

text \<open>\<open>mutex_\<close> is not recursive: a thread that holds it through \<open>lock\<close> and asks for it again never
  goes on. The result is None then.\<close>

definition ctx_lock :: "compilation \<Rightarrow> compilation option" where
  "ctx_lock s = (if ctx_locked s then None else Some (s\<lparr>ctx_locked := True\<rparr>))"

definition ctx_unlock :: "compilation \<Rightarrow> compilation" where
  "ctx_unlock s = s\<lparr>ctx_locked := False\<rparr>"

definition guarded :: "(compilation \<Rightarrow> 'a) \<Rightarrow> compilation \<Rightarrow> 'a option" where
  "guarded f s = (if ctx_locked s then None else Some (f s))"

definition ctx_addSymbol :: "string \<Rightarrow> nat \<Rightarrow> compilation \<Rightarrow> compilation option" where
  "ctx_addSymbol n p = guarded (\<lambda>s. s\<lparr>ctx_symbols := (ctx_symbols s)(n \<mapsto> p)\<rparr>)"

definition ctx_getSymbol :: "string \<Rightarrow> compilation \<Rightarrow> nat option" where
  "ctx_getSymbol n = guarded (\<lambda>s. case ctx_symbols s n of Some p \<Rightarrow> p | None \<Rightarrow> 0)"

definition ctx_hasSymbol :: "string \<Rightarrow> compilation \<Rightarrow> bool option" where
  "ctx_hasSymbol n = guarded (\<lambda>s. ctx_symbols s n \<noteq> None)"

definition ctx_pushError :: "string \<Rightarrow> compilation \<Rightarrow> compilation option" where
  "ctx_pushError e = guarded (\<lambda>s. s\<lparr>ctx_errors := ctx_errors s @ [e]\<rparr>)"

definition ctx_startTimer :: "int \<Rightarrow> string \<Rightarrow> compilation \<Rightarrow> compilation option" where
  "ctx_startTimer now phase = guarded (\<lambda>s. s\<lparr>ctx_timers := (ctx_timers s)(phase \<mapsto> now)\<rparr>)"

definition ctx_endTimer :: "int \<Rightarrow> string \<Rightarrow> compilation \<Rightarrow> (int \<times> compilation) option" where
  "ctx_endTimer now phase = guarded (\<lambda>s.
     case ctx_timers s phase of
       None \<Rightarrow> (0, s)
     | Some begun \<Rightarrow>
         (now - begun, s\<lparr>ctx_timings := (ctx_timings s)(phase \<mapsto> now - begun),
                         ctx_timers := (ctx_timers s)(phase := None)\<rparr>))"

definition markForHotReload :: "string \<Rightarrow> compilation \<Rightarrow> compilation option" where
  "markForHotReload n = guarded (\<lambda>s. s\<lparr>ctx_hot_symbols := insert n (ctx_hot_symbols s)\<rparr>)"

definition clearHotReloadSymbols :: "compilation \<Rightarrow> compilation" where
  "clearHotReloadSymbols s = s\<lparr>ctx_hot_symbols := {}\<rparr>"


section \<open>The scopes are a stack\<close>

text \<open>The tables from the current level down to the global one.\<close>

definition ctx_stack :: "compilation \<Rightarrow> (string \<Rightarrow> ctx_symbol option) list" where
  "ctx_stack s = map (table_at (symbol_tables s)) (rev [0..<Suc (scope_level s)])"

text \<open>No table lies above the current level.\<close>

definition levels_ok :: "compilation \<Rightarrow> bool" where
  "levels_ok s \<longleftrightarrow> (\<forall>l > scope_level s. symbol_tables s l = None)"

definition bind_symbol :: "string \<Rightarrow> ctx_symbol \<Rightarrow> (string \<Rightarrow> ctx_symbol option) \<Rightarrow> string \<Rightarrow> ctx_symbol option" where
  "bind_symbol n sb t = (if t n \<noteq> None then t else t(n \<mapsto> sb\<lparr>sym_name := n\<rparr>))"

definition ctx_declare :: "string \<Rightarrow> ctx_symbol \<Rightarrow> compilation \<Rightarrow> compilation" where
  "ctx_declare n sb s = snd (declare_symbol (sb\<lparr>sym_name := n\<rparr>) s)"

lemma upt_rev_Suc: "rev [0..<Suc l] = l # rev [0..<l]"
  by simp

lemma table_at_upd: "table_at (ts(l := x)) k = (if k = l then (case x of None \<Rightarrow> Map.empty | Some t \<Rightarrow> t) else table_at ts k)"
  by (simp add: table_at_def)

lemma tables_below: "l \<le> m \<Longrightarrow> map (table_at (ts(m := x))) (rev [0..<l]) = map (table_at ts) (rev [0..<l])"
  by (auto simp: table_at_upd)

lemma search_scopes_stack:
  "search_scopes ts n l = stack_lookup (map (table_at ts) (rev [0..<Suc l])) n"
  by (induction l) (auto simp: table_at_def split: option.split)

lemma ctx_addError_sel [simp]:
  "symbol_tables (ctx_addError m i j s) = symbol_tables s" "scope_level (ctx_addError m i j s) = scope_level s"
  by (simp_all add: ctx_addError_def)

lemma declare_symbol_sel [simp]: "scope_level (snd (declare_symbol sb s)) = scope_level s"
  by (simp add: declare_symbol_def Let_def)

lemma declare_symbol_tables: "symbol_tables (snd (declare_symbol sb s))
    = (symbol_tables s)(scope_level s \<mapsto> bind_symbol (sym_name sb) sb (table_at (symbol_tables s) (scope_level s)))"
  by (simp add: declare_symbol_def Let_def bind_symbol_def)

lemma bind_symbol_name: "bind_symbol n (sb\<lparr>sym_name := m\<rparr>) = bind_symbol n sb"
  by (simp add: bind_symbol_def fun_eq_iff)

interpretation ctx_scopes: scope_table ctx_stack levels_ok ctx_enterScope ctx_exitScope ctx_declare lookupSymbol bind_symbol
proof unfold_locales
  fix s :: compilation
  show "ctx_stack (ctx_enterScope s) = Map.empty # ctx_stack s" if "levels_ok s"
    by (simp add: ctx_stack_def ctx_enterScope_def Let_def upt_rev_Suc [of "Suc (scope_level s)"] table_at_upd
        tables_below [of "Suc (scope_level s)"] del: upt_Suc rev.simps)
  show "ctx_stack (ctx_exitScope s) = tl (ctx_stack s)" if "levels_ok s" "1 < length (ctx_stack s)"
    using that(2) by (cases "scope_level s") (simp_all add: ctx_stack_def ctx_exitScope_def tables_below table_at_upd)
  show "ctx_stack (ctx_declare n v s) = bind_symbol n v f # fs" if "levels_ok s" "ctx_stack s = f # fs" for n v f fs
    using that(2) by (auto simp: ctx_stack_def ctx_declare_def declare_symbol_tables table_at_upd bind_symbol_name)
  show "lookupSymbol n s = stack_lookup (ctx_stack s) n" for n
    by (simp add: lookupSymbol_def ctx_stack_def search_scopes_stack)
  show "levels_ok (ctx_enterScope s)" if "levels_ok s"
    using that by (simp add: levels_ok_def ctx_enterScope_def Let_def)
  show "levels_ok (ctx_exitScope s)" if "levels_ok s" "1 < length (ctx_stack s)"
    using that(1) by (auto simp: levels_ok_def ctx_exitScope_def)
  show "levels_ok (ctx_declare n v s)" if "levels_ok s" for n v
    using that by (simp add: levels_ok_def ctx_declare_def declare_symbol_tables)
qed

definition ctx_run :: "ctx_symbol scope_op list \<Rightarrow> compilation \<Rightarrow> compilation" where
  "ctx_run = run_scope_ops ctx_enterScope ctx_exitScope ctx_declare"

text \<open>C22: whatever a block declares, after it every name means what it meant before.\<close>

theorem context_block:
  assumes "levels_ok s" "balanced 0 ops"
  shows "lookupSymbol n (ctx_exitScope (ctx_run ops (ctx_enterScope s))) = lookupSymbol n s"
  unfolding ctx_run_def
  by (rule ctx_scopes.block_restores_lookup [OF assms(1) _ assms(2)]) (simp add: ctx_stack_def)

lemma context_block_witness:
  "lookupSymbol ''x'' (ctx_exitScope (ctx_run [Open_Scope, Declare ''x'' (new_symbol ''x'' None True 1), Close_Scope]
      (ctx_enterScope (snd (declareSymbol ''x'' None False (new_CompilationContext ''m''))))))
   = Some (new_symbol ''x'' None False 0)"
proof -
  let ?s = "snd (declareSymbol ''x'' None False (new_CompilationContext ''m''))"
  have "levels_ok ?s"
    by (simp add: levels_ok_def declareSymbol_def declare_symbol_tables) (simp add: new_CompilationContext_def)
  then have "lookupSymbol ''x'' (ctx_exitScope (ctx_run
      [Open_Scope, Declare ''x'' (new_symbol ''x'' None True 1), Close_Scope] (ctx_enterScope ?s))) = lookupSymbol ''x'' ?s"
    by (rule context_block) simp
  also have "\<dots> = Some (new_symbol ''x'' None False 0)"
    by (simp add: lookupSymbol_def declareSymbol_def declare_symbol_def Let_def new_symbol_def
        new_CompilationContext_def table_at_def)
  finally show ?thesis .
qed

text \<open>A declaration succeeds exactly when the current scope does not have the name; then the name means the
  new symbol. A refused one changes no look-up and leaves an error message.\<close>

theorem declare_then_lookup:
  "fst (declareSymbol n ty c s) = (table_at (symbol_tables s) (scope_level s) n = None)
   \<and> lookupSymbol m (snd (declareSymbol n ty c s))
     = (if m = n \<and> fst (declareSymbol n ty c s) then Some (new_symbol n ty c (scope_level s)) else lookupSymbol m s)
   \<and> (ctx_errors (snd (declareSymbol n ty c s)) = ctx_errors s) = fst (declareSymbol n ty c s)"
proof -
  have "lookupSymbol m (snd (declareSymbol n ty c s))
      = (if m = n \<and> table_at (symbol_tables s) (scope_level s) n = None
         then Some (new_symbol n ty c (scope_level s)) else lookupSymbol m s)"
    by (auto simp: lookupSymbol_def search_scopes_stack declareSymbol_def declare_symbol_tables table_at_upd
        bind_symbol_def new_symbol_def tables_below split: option.split)
  then show ?thesis
    by (simp add: declareSymbol_def declare_symbol_def Let_def new_symbol_def ctx_addError_def)
qed


section \<open>The invariant of the tables\<close>

definition keyed :: "('a \<Rightarrow> string) \<Rightarrow> (string \<Rightarrow> 'a option) \<Rightarrow> bool" where
  "keyed name t \<longleftrightarrow> (\<forall>n x. t n = Some x \<longrightarrow> name x = n)"

lemma keyed_empty [simp]: "keyed f Map.empty"
  by (simp add: keyed_def)

lemma keyed_upd: "keyed f t \<Longrightarrow> f x = n \<Longrightarrow> keyed f (t(n \<mapsto> x))"
  by (simp add: keyed_def)

text \<open>Each table has the names of its entries as keys, only a declared function has overloads, a
  module is a dependency, and no two instantiations are equal.\<close>

definition context_ok :: "compilation \<Rightarrow> bool" where
  "context_ok s \<longleftrightarrow> levels_ok s
     \<and> (\<forall>l. keyed sym_name (table_at (symbol_tables s) l))
     \<and> keyed cf_name (ctx_functions s) \<and> keyed cc_name (ctx_classes s)
     \<and> keyed ct_name (ctx_traits s) \<and> keyed cm_name (ctx_modules s)
     \<and> dom (ctx_overloads s) \<subseteq> dom (ctx_functions s)
     \<and> dom (ctx_modules s) \<subseteq> set (ctx_dependencies s) \<and> distinct (ctx_dependencies s)
     \<and> sorted_wrt (\<lambda>i j. \<not> same_instance i (ci_base j) (ci_arguments j)) (ctx_instances s)"

datatype context_op =
    Enter_Scope | Exit_Scope
  | Declare_Symbol ctx_symbol
  | Declare_Function ctx_function
  | Declare_Class ctx_class
  | Declare_Trait ctx_trait
  | Import_Module string string
  | Add_Dependency string
  | Register_Instance ctx_instance
  | Add_Error string nat nat

primrec context_apply :: "context_op \<Rightarrow> compilation \<Rightarrow> compilation" where
  "context_apply Enter_Scope s = ctx_enterScope s"
| "context_apply Exit_Scope s = ctx_exitScope s"
| "context_apply (Declare_Symbol sb) s = snd (declare_symbol sb s)"
| "context_apply (Declare_Function f) s = snd (declareFunction f s)"
| "context_apply (Declare_Class c) s = snd (declareClass c s)"
| "context_apply (Declare_Trait t) s = snd (declareTrait t s)"
| "context_apply (Import_Module n path) s = snd (importModule n path s)"
| "context_apply (Add_Dependency d) s = addDependency d s"
| "context_apply (Register_Instance i) s = snd (registerGenericInstantiation i s)"
| "context_apply (Add_Error m l c) s = ctx_addError m l c s"

lemmas context_defs = ctx_addError_def declareFunction_def declareClass_def declareTrait_def
  importModule_def addDependency_def registerGenericInstantiation_def

lemma context_op_ok: "context_ok s \<Longrightarrow> context_ok (context_apply x s)"
proof (cases x)
  case Enter_Scope
  then show "context_ok s \<Longrightarrow> ?thesis"
    by (auto simp: context_ok_def levels_ok_def ctx_enterScope_def Let_def table_at_upd)
next
  case Exit_Scope
  then show "context_ok s \<Longrightarrow> ?thesis"
    by (auto simp: context_ok_def levels_ok_def ctx_exitScope_def table_at_upd)
next
  case (Declare_Symbol sb)
  let ?t = "table_at (symbol_tables s) (scope_level s)"
  have "keyed sym_name ?t \<Longrightarrow> keyed sym_name (bind_symbol (sym_name sb) sb ?t)"
    by (simp add: bind_symbol_def keyed_upd)
  moreover have "snd (declare_symbol sb s) = s\<lparr>symbol_tables := (symbol_tables s)(scope_level s \<mapsto>
      bind_symbol (sym_name sb) sb ?t), ctx_errors := ctx_errors (snd (declare_symbol sb s))\<rparr>"
    by (simp add: declare_symbol_def Let_def bind_symbol_def ctx_addError_def)
  then obtain e where "snd (declare_symbol sb s) = s\<lparr>symbol_tables := (symbol_tables s)(scope_level s \<mapsto>
      bind_symbol (sym_name sb) sb ?t), ctx_errors := e\<rparr>"
    by blast
  ultimately show "context_ok s \<Longrightarrow> ?thesis"
    using Declare_Symbol by (auto simp: context_ok_def levels_ok_def table_at_upd)
next
  case (Register_Instance i)
  then show "context_ok s \<Longrightarrow> ?thesis"
    by (auto simp: context_ok_def levels_ok_def registerGenericInstantiation_def sorted_wrt_append)
qed (auto simp: context_ok_def levels_ok_def context_defs keyed_upd)

text \<open>In every state that the operations reach each table has the names of its entries as keys, no table
  lies above the current scope, only a declared function has overloads, a module is a dependency once,
  and no generic instantiation is registered twice.\<close>

theorem context_invariant: "context_ok (fold context_apply ops (new_CompilationContext fname))"
proof -
  have "context_ok s \<Longrightarrow> context_ok (fold context_apply ops s)" for s
    by (induction ops arbitrary: s) (simp_all add: context_op_ok)
  moreover have "context_ok (new_CompilationContext fname)"
    by (simp add: context_ok_def levels_ok_def new_CompilationContext_def table_at_def)
  ultimately show ?thesis by simp
qed

text \<open>The overloads of a name are all its functions but the first.\<close>

lemma overloads_without_first:
  "lookupOverloadedFunctions n (fold (\<lambda>f s. snd (declareFunction f s)) fs (new_CompilationContext fname))
   = tl (filter (\<lambda>f. cf_name f = n) fs)"
proof -
  let ?d = "\<lambda>f s. snd (declareFunction f s)"
  have "lookupOverloadedFunctions n (fold ?d fs s) = lookupOverloadedFunctions n s
      @ (if lookupFunction n s = None then tl (filter (\<lambda>f. cf_name f = n) fs)
         else filter (\<lambda>f. cf_name f = n) fs)" if "dom (ctx_overloads s) \<subseteq> dom (ctx_functions s)" for s
    using that
  proof (induction fs arbitrary: s)
    case (Cons f fs)
    have "dom (ctx_overloads (?d f s)) \<subseteq> dom (ctx_functions (?d f s))"
      using Cons.prems by (auto simp: declareFunction_def)
    moreover have "lookupOverloadedFunctions n (?d f s) = lookupOverloadedFunctions n s
        @ (if cf_name f = n \<and> lookupFunction n s \<noteq> None then [f] else [])"
      "lookupFunction n (?d f s) = (if cf_name f = n \<and> lookupFunction n s = None then Some f else lookupFunction n s)"
      by (auto simp: declareFunction_def lookupOverloadedFunctions_def lookupFunction_def split: option.split)
    ultimately show ?case
      using Cons.IH [of "?d f s"] by simp
  qed simp
  then show ?thesis
    by (simp add: new_CompilationContext_def lookupFunction_def lookupOverloadedFunctions_def)
qed

text \<open>A look-up of an instantiation finds what was registered first: a later registration does not
  change it, and one that was not found is found after its registration.\<close>

lemma find_instance_append:
  "find_instance (es @ [i]) base as
   = (if \<exists>e \<in> set es. same_instance e base as then find_instance es base as
      else if same_instance i base as then ci_type i else None)"
  by (induction es) auto

lemma generic_first_wins:
  "lookupGenericInstantiation base as s = Some ty
   \<Longrightarrow> lookupGenericInstantiation base as (snd (registerGenericInstantiation i s)) = Some ty"
proof -
  have "find_instance es base as = Some ty \<Longrightarrow> \<exists>e \<in> set es. same_instance e base as" for es
    by (induction es) (auto split: if_splits)
  then show "lookupGenericInstantiation base as s = Some ty \<Longrightarrow> ?thesis"
    by (simp add: lookupGenericInstantiation_def registerGenericInstantiation_def find_instance_append)
qed

end
