(* ===== verification/Tocin_Static_Analyzer.thy ===== *)
theory Tocin_Static_Analyzer
  imports Tocin_Prelude
begin

text \<open>
  The class \<open>StaticAnalyzer\<close> of \<open>interpreter/src/Interpreter.cpp\<close>: the table of symbols, the call
  graph, the search for a cycle and the list of unused symbols. The library does not fix the order
  in which an \<open>unordered_map\<close> is iterated; it is an argument. The search inserts empty entries into
  the map that the outer loop iterates, and the loop may meet them or not: the order may hold
  them. An insertion that exceeds the load of the buckets rehashes the map, which ends the life of the
  iterator of the loop. How many insertions fit before is up to the library: the number \<open>room\<close> is an
  argument. The references to elements, which the recursion uses, survive a rehash.
\<close>

section \<open>State and operations\<close>

record symbol_info =
  si_type :: string
  si_mutable :: bool
  si_nullable :: bool
  si_dependencies :: "string list"

record analyzer =
  symbol_table :: "string \<Rightarrow> symbol_info option"
  call_graph :: "string \<Rightarrow> string list option"

definition new_StaticAnalyzer :: analyzer where
  "new_StaticAnalyzer = \<lparr>symbol_table = Map.empty, call_graph = Map.empty\<rparr>"

definition analyzeSymbol :: "string \<Rightarrow> symbol_info \<Rightarrow> analyzer \<Rightarrow> analyzer" where
  "analyzeSymbol n info a = a\<lparr>symbol_table := (symbol_table a)(n \<mapsto> info)\<rparr>"

text \<open>\<open>callGraph[n]\<close>, as a value and as an insertion of an empty entry.\<close>

definition calls :: "(string \<Rightarrow> string list option) \<Rightarrow> string \<Rightarrow> string list" where
  "calls g n = (case g n of None \<Rightarrow> [] | Some ns \<Rightarrow> ns)"

definition touch :: "string \<Rightarrow> (string \<Rightarrow> string list option) \<Rightarrow> string \<Rightarrow> string list option" where
  "touch n g = g(n \<mapsto> calls g n)"

definition call_dependency :: "string \<Rightarrow> string \<Rightarrow> analyzer \<Rightarrow> analyzer" where
  "call_dependency caller callee a =
     a\<lparr>call_graph := (call_graph a)(caller \<mapsto> calls (call_graph a) caller @ [callee])\<rparr>"

text \<open>The maps \<open>visited\<close> and \<open>recursionStack\<close> of flags are the sets of names whose flag is true;
  \<open>insertions\<close> counts the entries added to the graph.\<close>

record search =
  graph :: "string \<Rightarrow> string list option"
  insertions :: nat
  visited :: "string set"
  on_stack :: "string set"

text \<open>The flags of a name are set, and \<open>callGraph[node]\<close> is read.\<close>

definition enter_name :: "string \<Rightarrow> search \<Rightarrow> search" where
  "enter_name n s =
     s\<lparr>visited := insert n (visited s), on_stack := insert n (on_stack s), graph := touch n (graph s),
       insertions := insertions s + (if graph s n = None then 1 else 0)\<rparr>"

text \<open>\<open>isCyclicUtil\<close> and its loop over the callees. None means that the fuel was too little.\<close>

fun isCyclicUtil :: "nat \<Rightarrow> string \<Rightarrow> search \<Rightarrow> (bool \<times> search) option"
  and callee_loop :: "nat \<Rightarrow> string list \<Rightarrow> search \<Rightarrow> (bool \<times> search) option" where
  "isCyclicUtil 0 n s = None"
| "isCyclicUtil (Suc k) n s =
     (if n \<notin> visited s then
        (let s1 = enter_name n s
         in case callee_loop k (calls (graph s1) n) s1 of
              None \<Rightarrow> None
            | Some (True, s2) \<Rightarrow> Some (True, s2)
            | Some (False, s2) \<Rightarrow> Some (False, s2\<lparr>on_stack := on_stack s2 - {n}\<rparr>))
      else Some (False, s\<lparr>on_stack := on_stack s - {n}\<rparr>))"
| "callee_loop k [] s = Some (False, s)"
| "callee_loop k (m # ms) s =
     (if m \<notin> visited s then
        (case isCyclicUtil k m s of
           None \<Rightarrow> None
         | Some (True, s1) \<Rightarrow> Some (True, s1)
         | Some (False, s1) \<Rightarrow> if m \<in> on_stack s1 then Some (True, s1) else callee_loop k ms s1)
      else if m \<in> on_stack s then Some (True, s)
      else callee_loop k ms s)"

text \<open>The loop over the map. After the call for an element the iterator moves on, which is undefined
  behaviour when an insertion has rehashed the map.\<close>

datatype cycle_result = Out_Of_Fuel | Iterator_Invalid | Cycle_Answer bool search

fun cycle_loop :: "nat \<Rightarrow> nat \<Rightarrow> string list \<Rightarrow> search \<Rightarrow> cycle_result" where
  "cycle_loop room k [] s = Cycle_Answer False s"
| "cycle_loop room k (n # ns) s =
     (case isCyclicUtil k n s of
        None \<Rightarrow> Out_Of_Fuel
      | Some (True, s1) \<Rightarrow> Cycle_Answer True s1
      | Some (False, s1) \<Rightarrow>
          if room < insertions s1 then Iterator_Invalid else cycle_loop room k ns s1)"

text \<open>Fuel for every name that the graph mentions, and one more.\<close>

definition cycle_fuel :: "(string \<Rightarrow> string list option) \<Rightarrow> string list \<Rightarrow> nat" where
  "cycle_fuel g order = Suc (length order + length (concat (map (calls g) order)))"

datatype detection = Never_Ends | Undefined_Behaviour | Detected bool analyzer

definition detectCircularDependencies :: "nat \<Rightarrow> string list \<Rightarrow> analyzer \<Rightarrow> detection" where
  "detectCircularDependencies room order a =
     (case cycle_loop room (cycle_fuel (call_graph a) order) order
             \<lparr>graph = call_graph a, insertions = 0, visited = {}, on_stack = {}\<rparr> of
        Out_Of_Fuel \<Rightarrow> Never_Ends
      | Iterator_Invalid \<Rightarrow> Undefined_Behaviour
      | Cycle_Answer b s \<Rightarrow> Detected b (a\<lparr>call_graph := graph s\<rparr>))"

definition getUnusedSymbols :: "string list \<Rightarrow> string list \<Rightarrow> analyzer \<Rightarrow> string list" where
  "getUnusedSymbols graph_order table_order a =
     (let used = fold (\<lambda>n u. u \<union> set (calls (call_graph a) n)) graph_order {}
      in filter (\<lambda>n. n \<notin> used) table_order)"

section \<open>The search\<close>

definition edges :: "(string \<Rightarrow> string list option) \<Rightarrow> (string \<times> string) set" where
  "edges g = {(x, y). y \<in> set (calls g x)}"

lemma calls_touch [simp]: "calls (touch n g) = calls g"
  by (rule ext) (simp add: calls_def touch_def)

lemma enter_name_sel [simp]:
  "visited (enter_name n s) = insert n (visited s)" "on_stack (enter_name n s) = insert n (on_stack s)"
  "graph (enter_name n s) = touch n (graph s)"
  by (simp_all add: enter_name_def)

lemma edges_touch [simp]: "edges (touch n g) = edges g"
  by (simp add: edges_def)

text \<open>Black names are visited and not on the stack. Their callees are black, and none is on a cycle.\<close>

definition black :: "search \<Rightarrow> string set" where
  "black s = visited s - on_stack s"

definition search_ok :: "search \<Rightarrow> bool" where
  "search_ok s \<longleftrightarrow> on_stack s \<subseteq> visited s
     \<and> (\<forall>x \<in> black s. set (calls (graph s) x) \<subseteq> black s \<and> (x, x) \<notin> (edges (graph s))\<^sup>+)"

lemma black_closed: "search_ok s \<Longrightarrow> (x, y) \<in> (edges (graph s))\<^sup>* \<Longrightarrow> x \<in> black s \<Longrightarrow> y \<in> black s"
  by (erule rtrancl_induct) (auto simp: search_ok_def edges_def)

text \<open>What a finished part of the search keeps.\<close>

definition goes_on :: "search \<Rightarrow> search \<Rightarrow> bool" where
  "goes_on s t \<longleftrightarrow> search_ok t \<and> on_stack t = on_stack s \<and> visited s \<subseteq> visited t
     \<and> calls (graph t) = calls (graph s)"

lemma goes_on_refl: "search_ok s \<Longrightarrow> goes_on s s"
  by (simp add: goes_on_def)

lemma goes_on_trans: "goes_on s t \<Longrightarrow> goes_on t u \<Longrightarrow> goes_on s u"
  by (auto simp: goes_on_def)

definition has_cycle :: "(string \<Rightarrow> string list option) \<Rightarrow> bool" where
  "has_cycle g \<longleftrightarrow> (\<exists>x. (x, x) \<in> (edges g)\<^sup>+)"

lemma edges_calls: "calls g = calls h \<Longrightarrow> edges g = edges h"
  by (simp add: edges_def)

text \<open>A name whose callees are all black becomes black itself.\<close>

lemma blacken:
  assumes ok: "search_ok s" and n: "n \<in> on_stack s" and cs: "set (calls (graph s) n) \<subseteq> black s"
  shows "search_ok (s\<lparr>on_stack := on_stack s - {n}\<rparr>)"
proof -
  let ?t = "s\<lparr>on_stack := on_stack s - {n}\<rparr>"
  have b: "black ?t = insert n (black s)"
    using ok n by (auto simp: black_def search_ok_def)
  have "(n, n) \<notin> (edges (graph s))\<^sup>+"
  proof
    assume "(n, n) \<in> (edges (graph s))\<^sup>+"
    then obtain y where "(n, y) \<in> edges (graph s)" "(y, n) \<in> (edges (graph s))\<^sup>*"
      by (meson tranclD)
    then have "n \<in> black s"
      using cs black_closed [OF ok] by (auto simp: edges_def)
    then show False using n by (simp add: black_def)
  qed
  then show ?thesis
    using ok cs by (auto simp: search_ok_def b)
qed

lemma search_sound:
  "\<lbrakk>isCyclicUtil k n s = Some (b, t); search_ok s; n \<notin> visited s;
    \<forall>x \<in> on_stack s. (x, n) \<in> (edges (graph s))\<^sup>*\<rbrakk>
   \<Longrightarrow> if b then has_cycle (graph s) else goes_on s t \<and> n \<in> black t"
  "\<lbrakk>callee_loop k ms s = Some (b, t); search_ok s; n \<in> on_stack s; set ms \<subseteq> set (calls (graph s) n);
    \<forall>x \<in> on_stack s. (x, n) \<in> (edges (graph s))\<^sup>*\<rbrakk>
   \<Longrightarrow> if b then has_cycle (graph s) else goes_on s t \<and> set ms \<subseteq> black t"
proof (induction k n s and k ms s arbitrary: b t and n b t rule: isCyclicUtil_callee_loop.induct)
  case (2 k n s)
  let ?s1 = "enter_name n s"
  have e1: "edges (graph ?s1) = edges (graph s)" "calls (graph ?s1) = calls (graph s)" by simp_all
  have "black ?s1 = black s" using "2.prems"(3) by (auto simp: black_def)
  then have ok1: "search_ok ?s1"
    using "2.prems"(2) by (auto simp: search_ok_def)
  obtain b' s2 where loop: "callee_loop k (calls (graph ?s1) n) ?s1 = Some (b', s2)"
    using "2.prems"(1,3) by (auto simp: Let_def split: option.splits)
  have IH: "if b' then has_cycle (graph ?s1) else goes_on ?s1 s2 \<and> set (calls (graph ?s1) n) \<subseteq> black s2"
    by (rule "2.IH" [OF "2.prems"(3) refl loop ok1]) (use "2.prems"(4) in auto)
  show ?case
  proof (cases b')
    case True
    then show ?thesis using IH "2.prems"(1,3) loop by (auto simp: has_cycle_def)
  next
    case False
    then have g: "goes_on ?s1 s2" and cs: "set (calls (graph s2) n) \<subseteq> black s2"
      using IH by (auto simp: goes_on_def)
    then have "search_ok (s2\<lparr>on_stack := on_stack s2 - {n}\<rparr>)"
      by (intro blacken) (auto simp: goes_on_def)
    moreover have "n \<notin> on_stack s" using "2.prems"(2,3) by (auto simp: search_ok_def)
    ultimately show ?thesis
      using False "2.prems"(1,3) loop g by (auto simp: goes_on_def black_def)
  qed
next
  case (4 k m ms s)
  have edge: "(n, m) \<in> edges (graph s)" using "4.prems"(4) by (auto simp: edges_def)
  then have reach: "\<forall>x \<in> on_stack s. (x, m) \<in> (edges (graph s))\<^sup>*"
    using "4.prems"(5) by (meson rtrancl.rtrancl_into_rtrancl)
  have rest: "if b then has_cycle (graph s) else goes_on s t \<and> set ms \<subseteq> black t \<and> m \<in> black t"
    if g: "goes_on s s1" and mb: "m \<in> black s1" and run: "callee_loop k ms s1 = Some (b, t)"
      and IH: "\<lbrakk>search_ok s1; n \<in> on_stack s1; set ms \<subseteq> set (calls (graph s1) n);
        \<forall>x \<in> on_stack s1. (x, n) \<in> (edges (graph s1))\<^sup>*\<rbrakk>
        \<Longrightarrow> if b then has_cycle (graph s1) else goes_on s1 t \<and> set ms \<subseteq> black t" for s1
  proof -
    have e: "edges (graph s1) = edges (graph s)"
      by (rule edges_calls) (use g in \<open>simp add: goes_on_def\<close>)
    have "if b then has_cycle (graph s1) else goes_on s1 t \<and> set ms \<subseteq> black t"
      by (rule IH) (use g "4.prems"(3,4,5) in \<open>auto simp: goes_on_def e\<close>)
    then show ?thesis
      using g mb by (auto simp: has_cycle_def e goes_on_def black_def split: if_splits)
  qed
  show ?case
  proof (cases "m \<in> visited s")
    case True
    show ?thesis
    proof (cases "m \<in> on_stack s")
      case on: True
      then have "(m, m) \<in> (edges (graph s))\<^sup>+"
        using "4.prems"(5) edge by (meson rtrancl_into_trancl1)
      then show ?thesis using True on "4.prems"(1) by (auto simp: has_cycle_def)
    next
      case False
      have "if b then has_cycle (graph s) else goes_on s t \<and> set ms \<subseteq> black t \<and> m \<in> black t"
      proof (rule rest [OF goes_on_refl [OF "4.prems"(2)]])
        show "m \<in> black s" using True False by (simp add: black_def)
        show run: "callee_loop k ms s = Some (b, t)" using True False "4.prems"(1) by simp
        show "if b then has_cycle (graph s) else goes_on s t \<and> set ms \<subseteq> black t"
          if "search_ok s" "n \<in> on_stack s" "set ms \<subseteq> set (calls (graph s) n)"
            "\<forall>x \<in> on_stack s. (x, n) \<in> (edges (graph s))\<^sup>*"
          by (rule "4.IH"(3) [OF _ _ run that]) (use True False in auto)
      qed
      then show ?thesis by (auto split: if_splits)
    qed
  next
    case False
    obtain b1 s1 where call: "isCyclicUtil k m s = Some (b1, s1)"
      using "4.prems"(1) False by (auto split: option.splits)
    have IH1: "if b1 then has_cycle (graph s) else goes_on s s1 \<and> m \<in> black s1"
      by (rule "4.IH"(1) [OF False call "4.prems"(2) False reach])
    show ?thesis
    proof (cases b1)
      case True
      then show ?thesis using IH1 call False "4.prems"(1) by simp
    next
      case nb: False
      then have g: "goes_on s s1" and mb: "m \<in> black s1" using IH1 by auto
      have "m \<notin> on_stack s1" using mb by (simp add: black_def)
      then have run: "callee_loop k ms s1 = Some (b, t)"
        using call False nb "4.prems"(1) by simp
      have "if b then has_cycle (graph s) else goes_on s t \<and> set ms \<subseteq> black t \<and> m \<in> black t"
        by (rule rest [OF g mb run]) (rule "4.IH"(2) [OF False call _ _ _ run], use nb \<open>m \<notin> on_stack s1\<close> in auto)
      then show ?thesis by (auto split: if_splits)
    qed
  qed
qed (auto simp: goes_on_refl)


section \<open>The fuel is enough\<close>

definition advances :: "search \<Rightarrow> (bool \<times> search) option \<Rightarrow> bool" where
  "advances s r \<longleftrightarrow> (\<exists>b t. r = Some (b, t) \<and> visited s \<subseteq> visited t \<and> calls (graph t) = calls (graph s))"

lemma search_total:
  "\<lbrakk>finite U; n \<in> U; \<forall>x \<in> U. set (calls (graph s) x) \<subseteq> U; card (U - visited s) < k\<rbrakk>
   \<Longrightarrow> advances s (isCyclicUtil k n s)"
  "\<lbrakk>finite U; set ms \<subseteq> U; \<forall>x \<in> U. set (calls (graph s) x) \<subseteq> U; card (U - visited s) < k \<or> U \<subseteq> visited s\<rbrakk>
   \<Longrightarrow> advances s (callee_loop k ms s)"
proof (induction k n s and k ms s rule: isCyclicUtil_callee_loop.induct)
  case (2 k n s)
  let ?s1 = "enter_name n s"
  show ?case
  proof (cases "n \<in> visited s")
    case False
    have "card (U - visited ?s1) < card (U - visited s)"
      using "2.prems"(1,2) False by (intro psubset_card_mono) auto
    then have "card (U - visited ?s1) < k \<or> U \<subseteq> visited ?s1"
      using "2.prems"(4) by simp
    then have "advances ?s1 (callee_loop k (calls (graph ?s1) n) ?s1)"
      by (intro "2.IH" [OF False refl "2.prems"(1)]) (use "2.prems"(2,3) in auto)
    then show ?thesis
      using False by (auto simp: advances_def Let_def split: bool.split)
  qed (auto simp: advances_def)
next
  case (4 k m ms s)
  have k: "m \<notin> visited s \<Longrightarrow> card (U - visited s) < k"
    using "4.prems"(2,4) by auto
  show ?case
  proof (cases "m \<in> visited s")
    case True
    then show ?thesis using "4.IH"(3) "4.prems" by (auto simp: advances_def)
  next
    case False
    have "advances s (isCyclicUtil k m s)"
      by (rule "4.IH"(1) [OF False "4.prems"(1) _ "4.prems"(3) k [OF False]]) (use "4.prems"(2) in simp)
    then obtain b1 s1 where call: "isCyclicUtil k m s = Some (b1, s1)" "visited s \<subseteq> visited s1"
      "calls (graph s1) = calls (graph s)"
      by (auto simp: advances_def)
    have "card (U - visited s1) \<le> card (U - visited s)"
      using "4.prems"(1) call(2) by (intro card_mono) auto
    then have "card (U - visited s1) < k" using k [OF False] by simp
    then have "advances s1 (callee_loop k ms s1)" if "\<not> b1" "m \<notin> on_stack s1"
      using that by (intro "4.IH"(2) [OF False call(1) _ _ _ "4.prems"(1)]) (use "4.prems"(2,3) call(3) in auto)
    then show ?thesis
      using False call by (auto simp: advances_def split: bool.split)
  qed
qed (auto simp: advances_def)

section \<open>The entries that the search adds\<close>

definition graph_names :: "(string \<Rightarrow> string list option) \<Rightarrow> string set" where
  "graph_names g = dom g \<union> Range (edges g)"

definition missing :: "(string \<Rightarrow> string list option) \<Rightarrow> string set" where
  "missing g = graph_names g - dom g"

text \<open>The graph has grown from \<open>g\<close> by entries for names of it, which were counted; every visited name
  has one.\<close>

definition grown :: "(string \<Rightarrow> string list option) \<Rightarrow> search \<Rightarrow> bool" where
  "grown g s \<longleftrightarrow> calls (graph s) = calls g \<and> dom g \<subseteq> dom (graph s) \<and> dom (graph s) \<subseteq> graph_names g
     \<and> visited s \<subseteq> dom (graph s) \<and> finite (dom (graph s) - dom g)
     \<and> insertions s = card (dom (graph s) - dom g)"

lemma dom_touch: "dom (touch n g) = insert n (dom g)"
  by (auto simp: touch_def)

lemma grown_enter: "grown g s \<Longrightarrow> n \<in> graph_names g \<Longrightarrow> grown g (enter_name n s)"
  by (cases "graph s n") (auto simp: grown_def enter_name_def dom_touch insert_Diff_if insert_absorb domIff)

lemma grown_stack: "grown g s \<Longrightarrow> grown g (s\<lparr>on_stack := X\<rparr>)"
  by (simp add: grown_def)

lemma edges_dom: "(n, m) \<in> edges g \<Longrightarrow> n \<in> dom g \<and> m \<in> set (calls g n)"
  by (cases "g n") (auto simp: edges_def calls_def)

lemma callee_names: "m \<in> set (calls g n) \<Longrightarrow> m \<in> graph_names g"
  by (auto simp: graph_names_def edges_def)

lemma search_grown:
  "\<lbrakk>isCyclicUtil k n s = Some (b, t); grown g s; n \<in> graph_names g\<rbrakk> \<Longrightarrow> grown g t"
  "\<lbrakk>callee_loop k ms s = Some (b, t); grown g s; set ms \<subseteq> graph_names g\<rbrakk> \<Longrightarrow> grown g t"
proof (induction k n s and k ms s arbitrary: b t and b t rule: isCyclicUtil_callee_loop.induct)
  case (2 k n s)
  show ?case
  proof (cases "n \<in> visited s")
    case True
    then show ?thesis using "2.prems" by (auto intro: grown_stack)
  next
    case False
    have g: "grown g (enter_name n s)" by (rule grown_enter [OF "2.prems"(2,3)])
    obtain b' s2 where loop: "callee_loop k (calls (graph (enter_name n s)) n) (enter_name n s) = Some (b', s2)"
      using "2.prems"(1) False by (auto simp: Let_def split: option.splits)
    have "set (calls (graph (enter_name n s)) n) \<subseteq> graph_names g"
      using "2.prems"(2) callee_names by (auto simp: grown_def)
    from "2.IH" [OF False refl loop g this] show ?thesis
      using "2.prems"(1) False loop by (auto simp: Let_def intro: grown_stack split: bool.splits)
  qed
next
  case (4 k m ms s)
  then show ?case
    by (auto split: if_splits option.splits bool.splits)
qed auto

text \<open>Later calls of the loop only add entries.\<close>

lemma grown_counts:
  assumes "finite (missing g)" and "grown g s"
  shows "insertions s \<le> card (missing g)"
proof -
  have "dom (graph s) - dom g \<subseteq> missing g" using assms(2) by (auto simp: grown_def missing_def)
  from card_mono [OF assms(1) this] show ?thesis using assms(2) by (simp add: grown_def)
qed

section \<open>The answer\<close>

text \<open>One call of the loop.\<close>

lemma cycle_call:
  assumes "finite U" "n \<in> U" "\<forall>x \<in> U. set (calls (graph s) x) \<subseteq> U" "card U < k"
    and ok: "search_ok s" "on_stack s = {}"
  shows "\<exists>b t. isCyclicUtil k n s = Some (b, t) \<and> calls (graph t) = calls (graph s)
     \<and> (if b then has_cycle (graph s)
        else search_ok t \<and> on_stack t = {} \<and> visited s \<subseteq> visited t \<and> n \<in> visited t)"
proof -
  have "card (U - visited s) < k"
    using assms(1,4) card_mono [of U "U - visited s"] by simp
  then have "advances s (isCyclicUtil k n s)"
    using assms(1-3) by (intro search_total) auto
  then obtain b t where call: "isCyclicUtil k n s = Some (b, t)" "calls (graph t) = calls (graph s)"
    by (auto simp: advances_def)
  have "if b then has_cycle (graph s)
      else search_ok t \<and> on_stack t = {} \<and> visited s \<subseteq> visited t \<and> n \<in> visited t"
  proof (cases "n \<in> visited s")
    case True
    then show ?thesis
      using call(1) ok by (cases k; fastforce simp: search_ok_def black_def)
  next
    case False
    then show ?thesis
      using search_sound(1) [OF call(1) ok(1) False] ok(2)
      by (auto simp: goes_on_def black_def split: if_splits)
  qed
  then show ?thesis using call by blast
qed

lemma cycle_loop_correct:
  "\<lbrakk>finite U; set ns \<subseteq> U; \<forall>x \<in> U. set (calls g x) \<subseteq> U; card U < k; search_ok s; on_stack s = {};
    set ns \<subseteq> graph_names g; grown g s\<rbrakk>
   \<Longrightarrow> (\<exists>t. cycle_loop room k ns s = Cycle_Answer True t \<and> calls (graph t) = calls g \<and> has_cycle g)
    \<or> (\<exists>t. grown g t \<and> room < insertions t \<and> cycle_loop room k ns s = Iterator_Invalid)
    \<or> (\<exists>t. cycle_loop room k ns s = Cycle_Answer False t \<and> grown g t \<and> search_ok t \<and> on_stack t = {}
         \<and> visited s \<union> set ns \<subseteq> visited t \<and> (ns \<noteq> [] \<longrightarrow> insertions t \<le> room))"
proof (induction ns arbitrary: s)
  case (Cons n ns)
  have gs: "calls (graph s) = calls g" using Cons.prems(8) by (simp add: grown_def)
  have U: "\<forall>x \<in> U. set (calls (graph s) x) \<subseteq> U" using Cons.prems(3) gs by simp
  have hc: "has_cycle (graph s) = has_cycle g" using edges_calls [OF gs] by (simp add: has_cycle_def)
  obtain b t where call: "isCyclicUtil k n s = Some (b, t)" "calls (graph t) = calls g"
    "if b then has_cycle g
     else search_ok t \<and> on_stack t = {} \<and> visited s \<subseteq> visited t \<and> n \<in> visited t"
    using cycle_call [OF Cons.prems(1) _ U Cons.prems(4-6), of n] Cons.prems(2)
    unfolding hc gs by auto
  have t: "grown g t"
    using search_grown(1) [OF call(1) Cons.prems(8)] Cons.prems(7) by simp
  show ?case
  proof (cases "b \<or> room < insertions t")
    case True
    then show ?thesis using call t by (cases b) auto
  next
    case False
    then show ?thesis
      using Cons.IH [of t] Cons.prems(1-4,7) call t
      by (cases ns; auto; blast)
  qed
qed auto

text \<open>Without a cycle, a search that went through the whole map has added every missing name.\<close>

lemma all_added:
  assumes "grown g t" and "search_ok t" "on_stack t = {}" and "dom g \<subseteq> visited t"
  shows "dom (graph t) - dom g = missing g"
proof -
  have "m \<in> dom (graph t)" if "(n, m) \<in> edges g" for n m
  proof -
    have "n \<in> dom g" using edges_dom [OF that] by simp
    then have "n \<in> black t" using assms(3,4) by (auto simp: black_def)
    then have "m \<in> visited t"
      using that assms(1,2) by (auto simp: search_ok_def black_def edges_def grown_def)
    then show ?thesis using assms(1) by (auto simp: grown_def)
  qed
  then have "graph_names g \<subseteq> dom (graph t)"
    using assms(1) by (auto simp: graph_names_def grown_def)
  then show ?thesis using assms(1) by (auto simp: grown_def missing_def)
qed

lemma finite_names:
  assumes "finite (dom g)"
  shows "finite (graph_names g)"
proof -
  have "Range (edges g) \<subseteq> (\<Union>n \<in> dom g. set (calls g n))"
    using edges_dom by fast
  then show ?thesis
    using assms finite_subset [of "Range (edges g)" "\<Union>n \<in> dom g. set (calls g n)"]
    by (simp add: graph_names_def)
qed

lemma finished_acyclic:
  assumes "search_ok t" "on_stack t = {}" "dom g \<subseteq> visited t" "calls (graph t) = calls g"
  shows "\<not> has_cycle g"
proof
  assume "has_cycle g"
  then obtain x where x: "(x, x) \<in> (edges g)\<^sup>+" by (auto simp: has_cycle_def)
  then obtain y where "(x, y) \<in> edges g" by (meson tranclD)
  then have "x \<in> dom g" using edges_dom by blast
  then have "x \<in> black t" using assms(2,3) by (auto simp: black_def)
  then show False
    using x assms(1) edges_calls [OF assms(4)] by (auto simp: search_ok_def)
qed

text \<open>C23: For every order in which the map is iterated, the search ends. If the call graph has no cycle it
  answers so, unless the names without an entry, which it adds to the map, are more than fit into
  the buckets: then the loop uses an invalid iterator. If there is a cycle it answers so, or it has used
  an invalid iterator before, which takes as many missing names. The edges stay as they are. So the
  answer is right whenever every name of the graph has an entry of its own.\<close>

theorem cycle_detection_correct:
  assumes "dom (call_graph a) \<subseteq> set order" and "set order \<subseteq> graph_names (call_graph a)"
  shows "(\<exists>a'. detectCircularDependencies room order a = Detected (has_cycle (call_graph a)) a'
             \<and> edges (call_graph a') = edges (call_graph a)
             \<and> (has_cycle (call_graph a) \<or> card (missing (call_graph a)) \<le> room))
       \<or> detectCircularDependencies room order a = Undefined_Behaviour
           \<and> room < card (missing (call_graph a))"
proof -
  let ?g = "call_graph a"
  let ?U = "set (order @ concat (map (calls ?g) order))"
  let ?s = "\<lparr>graph = ?g, insertions = 0, visited = {}, on_stack = {}\<rparr>"
  have outside: "calls ?g x = []" if "x \<notin> set order" for x
    using assms that by (auto simp: calls_def split: option.split)
  have closed: "\<forall>x \<in> ?U. set (calls ?g x) \<subseteq> ?U"
    using outside by (fastforce simp: )
  have card: "card ?U < cycle_fuel ?g order"
    using card_length [of "order @ concat (map (calls ?g) order)"] by (simp add: cycle_fuel_def)
  have fin: "finite (dom ?g)" using assms(1) finite_subset by blast
  have s: "search_ok ?s" "on_stack ?s = {}" "grown ?g ?s"
    by (auto simp: search_ok_def black_def grown_def graph_names_def)
  have missing: "finite (missing ?g)" using finite_names [OF fin] by (simp add: missing_def)
  consider t where "cycle_loop room (cycle_fuel ?g order) order ?s = Cycle_Answer True t"
      "calls (graph t) = calls ?g" "has_cycle ?g"
    | t where "grown ?g t" "room < insertions t" "cycle_loop room (cycle_fuel ?g order) order ?s = Iterator_Invalid"
    | t where "cycle_loop room (cycle_fuel ?g order) order ?s = Cycle_Answer False t" "grown ?g t" "search_ok t"
        "on_stack t = {}" "set order \<subseteq> visited t" "order \<noteq> [] \<longrightarrow> insertions t \<le> room"
    using cycle_loop_correct [OF _ _ closed card s(1,2) assms(2) s(3), of room] by auto
  then show ?thesis
  proof cases
    case 1
    then show ?thesis
      using edges_calls [OF 1(2)] by (auto simp: detectCircularDependencies_def)
  next
    case 2
    then show ?thesis
      using grown_counts [OF missing 2(1)] by (simp add: detectCircularDependencies_def)
  next
    case (3 t)
    have dom: "dom ?g \<subseteq> visited t" using assms(1) 3(5) by blast
    have g: "calls (graph t) = calls ?g" using 3(2) by (simp add: grown_def)
    have "card (missing ?g) \<le> room"
    proof (cases "order = []")
      case True
      then have "missing ?g = {}" using assms(1) outside by (auto simp: missing_def graph_names_def edges_def)
      then show ?thesis by simp
    next
      case False
      then show ?thesis
        using all_added [OF 3(2-4) dom] 3(2,6) by (simp add: grown_def)
    qed
    then show ?thesis
      using 3(1) finished_acyclic [OF 3(3,4) dom g] edges_calls [OF g]
      by (simp add: detectCircularDependencies_def)
  qed
qed

lemma cycle_detection_correct_witness:
  "\<exists>a'. detectCircularDependencies 0 [''A'', ''B'', ''C'']
      (call_dependency ''C'' ''A'' (call_dependency ''B'' ''C'' (call_dependency ''A'' ''B'' new_StaticAnalyzer)))
    = Detected True a'"
proof -
  let ?a = "call_dependency ''C'' ''A'' (call_dependency ''B'' ''C'' (call_dependency ''A'' ''B'' new_StaticAnalyzer))"
  have e: "(''A'', ''B'') \<in> edges (call_graph ?a)" "(''B'', ''C'') \<in> edges (call_graph ?a)"
    "(''C'', ''A'') \<in> edges (call_graph ?a)"
    by (auto simp: edges_def calls_def call_dependency_def new_StaticAnalyzer_def)
  have d: "dom (call_graph ?a) = set [''A'', ''B'', ''C'']"
    by (auto simp: call_dependency_def new_StaticAnalyzer_def)
  have "Range (edges (call_graph ?a)) \<subseteq> set [''A'', ''B'', ''C'']"
    by (auto simp: edges_def calls_def call_dependency_def new_StaticAnalyzer_def split: if_splits)
  then have "missing (call_graph ?a) = {}" "set [''A'', ''B'', ''C''] \<subseteq> graph_names (call_graph ?a)"
    unfolding missing_def graph_names_def d by auto
  moreover have "has_cycle (call_graph ?a)"
    unfolding has_cycle_def by (rule exI [of _ "''A''"]) (use e in \<open>meson trancl.simps\<close>)
  ultimately show ?thesis
    using cycle_detection_correct [of ?a "[''A'', ''B'', ''C'']" 0] d by auto
qed

text \<open>The smallest call graph, one caller and one callee, already has a missing name: where the map has
  no room for it, the iterator of the loop is invalid.\<close>

lemma cycle_detection_undefined:
  "detectCircularDependencies 0 [''A''] (call_dependency ''A'' ''B'' new_StaticAnalyzer) = Undefined_Behaviour"
  by (simp add: detectCircularDependencies_def cycle_fuel_def call_dependency_def new_StaticAnalyzer_def
      calls_def touch_def enter_name_def)

text \<open>The unused symbols are those of the table that no name depends on.\<close>

lemma unused_symbols:
  assumes "dom (call_graph a) \<subseteq> set graph_order" "dom (symbol_table a) = set table_order"
  shows "set (getUnusedSymbols graph_order table_order a) = dom (symbol_table a) - Range (edges (call_graph a))"
proof -
  have "fold (\<lambda>n u. u \<union> set (calls (call_graph a) n)) ns v = v \<union> (\<Union>n \<in> set ns. set (calls (call_graph a) n))" for ns v
    by (induction ns arbitrary: v) auto
  moreover have "Range (edges (call_graph a)) = (\<Union>n \<in> set graph_order. set (calls (call_graph a) n))"
  proof -
    have "n \<in> set graph_order" if "y \<in> set (calls (call_graph a) n)" for y n
      using that assms(1) by (cases "call_graph a n") (auto simp: calls_def)
    then show ?thesis by (fastforce simp: edges_def Range_iff)
  qed
  ultimately show ?thesis
    using assms(2) by (auto simp: getUnusedSymbols_def Let_def)
qed

end
