(* ===== verification/Tocin_Collectors.thy ===== *)
theory Tocin_Collectors
  imports Tocin_Prelude "HOL-Library.Word"
begin

text \<open>
  The two memory managers of \<open>interpreter/src/Interpreter.cpp\<close>: \<open>MemoryManager\<close> with its mark and
  sweep, and \<open>GenerationalGC\<close>. An address is a number, a \<open>size_t\<close> a word of 64 bits. A missing
  entry of the map \<open>references\<close> is the empty set, which is what every access inserts. The order in
  which an \<open>unordered_map\<close> is iterated is an argument; a \<open>std::set\<close> is iterated in the order of the
  addresses. The mutex is a flag: who locks it twice never returns, and the result is None.
\<close>

section \<open>\<open>MemoryManager\<close>\<close>

record manager =
  object_sizes :: "nat \<Rightarrow> 64 word option"
  references :: "nat \<Rightarrow> nat set"
  total_memory :: "64 word"

definition max_memory :: "64 word" where
  "max_memory = 1024 * 1024 * 1024"

definition new_MemoryManager :: manager where
  "new_MemoryManager = \<lparr>object_sizes = Map.empty, references = (\<lambda>_. {}), total_memory = 0\<rparr>"

definition mm_addReference :: "nat \<Rightarrow> nat \<Rightarrow> manager \<Rightarrow> manager" where
  "mm_addReference p q m = m\<lparr>references := (references m)(p := insert q (references m p))\<rparr>"

definition mm_removeReference :: "nat \<Rightarrow> nat \<Rightarrow> manager \<Rightarrow> manager" where
  "mm_removeReference p q m = m\<lparr>references := (references m)(p := references m p - {q})\<rparr>"

text \<open>The loop over the queue. A name can be in it several times.\<close>

partial_function (option) mark_loop :: "(nat \<Rightarrow> nat set) \<Rightarrow> nat list \<Rightarrow> nat set \<Rightarrow> nat set option" where
  "mark_loop refs q reachable =
     (case q of
        [] \<Rightarrow> Some reachable
      | p # rest \<Rightarrow>
          (let reached = insert p reachable
           in mark_loop refs (rest @ filter (\<lambda>r. r \<notin> reached) (sorted_list_of_set (refs p))) reached))"

text \<open>The start of the marking: every object without references.\<close>

definition mark_roots :: "nat list \<Rightarrow> manager \<Rightarrow> nat list" where
  "mark_roots order m = filter (\<lambda>p. references m p = {}) order"

definition size_of :: "manager \<Rightarrow> nat \<Rightarrow> 64 word" where
  "size_of m p = (case object_sizes m p of None \<Rightarrow> 0 | Some n \<Rightarrow> n)"

definition sweep_object :: "nat set \<Rightarrow> nat \<Rightarrow> manager \<Rightarrow> manager" where
  "sweep_object reachable p m =
     (if p \<notin> reachable then
        m\<lparr>total_memory := total_memory m - size_of m p, object_sizes := (object_sizes m)(p := None)\<rparr>
      else m)"

definition collectGarbage :: "bool \<Rightarrow> nat list \<Rightarrow> manager \<Rightarrow> manager option" where
  "collectGarbage held order m =
     (if held then None
      else case mark_loop (references m) (mark_roots order m) {} of
             None \<Rightarrow> None
           | Some reachable \<Rightarrow> Some (fold (sweep_object reachable) order m))"

datatype 'a allocation = Allocated 'a | Limit_Exceeded | Never_Returns

definition put_object :: "nat \<Rightarrow> 64 word \<Rightarrow> manager \<Rightarrow> manager" where
  "put_object p n m = m\<lparr>object_sizes := (object_sizes m)(p \<mapsto> n), total_memory := total_memory m + n\<rparr>"

text \<open>\<open>allocate\<close>, where \<open>new T()\<close> returns the address \<open>p\<close>. It holds the mutex.\<close>

definition mm_allocate :: "nat list \<Rightarrow> nat \<Rightarrow> 64 word \<Rightarrow> manager \<Rightarrow> manager allocation" where
  "mm_allocate order p n m =
     (if total_memory m + n > max_memory then
        (case collectGarbage True order m of
           None \<Rightarrow> Never_Returns
         | Some m1 \<Rightarrow>
             if total_memory m1 + n > max_memory then Limit_Exceeded else Allocated (put_object p n m1))
      else Allocated (put_object p n m))"

section \<open>What the collection keeps\<close>

lemma mark_leaves:
  "\<forall>p \<in> set q. refs p = {} \<Longrightarrow> mark_loop refs q r = Some (r \<union> set q)"
  by (induction q arbitrary: r) (simp_all add: mark_loop.simps)

lemma fold_sweep_sizes:
  "object_sizes (fold (sweep_object R) order m) = (\<lambda>p. if p \<in> set order - R then None else object_sizes m p)"
  by (induction order arbitrary: m) (auto simp: sweep_object_def fun_eq_iff)

lemma fold_sweep_references [simp]: "references (fold (sweep_object R) order m) = references m"
  by (induction order arbitrary: m) (simp_all add: sweep_object_def)

lemma sweep_object_total:
  "total_memory (sweep_object R p m) = total_memory m - (if p \<notin> R then size_of m p else 0)"
  by (simp add: sweep_object_def)

lemma sweep_object_other: "q \<noteq> p \<Longrightarrow> size_of (sweep_object R p m) q = size_of m q"
  by (simp add: size_of_def sweep_object_def)

lemma fold_sweep_total:
  "distinct order \<Longrightarrow> total_memory (fold (sweep_object R) order m)
     = total_memory m - (\<Sum>p \<leftarrow> filter (\<lambda>p. p \<notin> R) order. size_of m p)"
proof (induction order arbitrary: m)
  case (Cons p order)
  have "sum_list (map (size_of (sweep_object R p m)) (filter (\<lambda>p. p \<notin> R) order))
      = sum_list (map (size_of m) (filter (\<lambda>p. p \<notin> R) order))"
    by (rule arg_cong [where f = sum_list], intro map_cong refl sweep_object_other) (use Cons.prems in auto)
  then show ?case
    using Cons.prems Cons.IH [of "sweep_object R p m"] by (simp add: sweep_object_total)
qed simp

text \<open>C24: a collection that returns frees exactly the objects that hold references, whoever refers to them,
  and keeps exactly those that hold none; the count goes down by the sizes of the freed ones.\<close>

theorem collection_frees_holders:
  assumes "dom (object_sizes m) = set order" "distinct order"
  shows "collectGarbage False order m = Some (m\<lparr>
           object_sizes := object_sizes m |` {p. references m p = {}},
           total_memory := total_memory m - (\<Sum>p \<leftarrow> filter (\<lambda>p. references m p \<noteq> {}) order. size_of m p)\<rparr>)"
proof -
  let ?R = "set (mark_roots order m)"
  have mark: "mark_loop (references m) (mark_roots order m) {} = Some ?R"
    by (subst mark_leaves) (auto simp: mark_roots_def)
  have R: "p \<notin> ?R \<longleftrightarrow> references m p \<noteq> {}" if "p \<in> set order" for p
    using that by (simp add: mark_roots_def)
  have "object_sizes (fold (sweep_object ?R) order m) = object_sizes m |` {p. references m p = {}}"
    using R assms(1) by (force simp: fold_sweep_sizes restrict_map_def fun_eq_iff)
  moreover have "filter (\<lambda>p. p \<notin> ?R) order = filter (\<lambda>p. references m p \<noteq> {}) order"
    using R by (intro filter_cong) auto
  ultimately have "fold (sweep_object ?R) order m = m\<lparr>
      object_sizes := object_sizes m |` {p. references m p = {}},
      total_memory := total_memory m - (\<Sum>p \<leftarrow> filter (\<lambda>p. references m p \<noteq> {}) order. size_of m p)\<rparr>"
    by (intro manager.equality) (simp_all add: fold_sweep_total [OF assms(2)])
  then show ?thesis by (simp only: collectGarbage_def mark option.case if_False)
qed

text \<open>\<open>allocate\<close> never throws: over the limit it waits for the mutex that it holds.\<close>

lemma allocate_over_limit:
  "mm_allocate order p n m
   = (if total_memory m + n > max_memory then Never_Returns else Allocated (put_object p n m))"
  by (simp add: mm_allocate_def collectGarbage_def)


lemma collection_frees_holders_witness:
  "collectGarbage False [1, 2] (mm_addReference 1 2 (put_object 2 8 (put_object 1 16 new_MemoryManager)))
   = Some (\<lparr>object_sizes = [2 \<mapsto> 8], references = (\<lambda>_. {})(1 := {2}), total_memory = 8\<rparr>)"
proof -
  let ?m = "\<lparr>object_sizes = [1 \<mapsto> 16, 2 \<mapsto> 8], references = (\<lambda>_. {})(1 := {2}), total_memory = 24\<rparr> :: manager"
  have "mm_addReference 1 2 (put_object 2 8 (put_object 1 16 new_MemoryManager)) = ?m"
    by (simp add: mm_addReference_def put_object_def new_MemoryManager_def)
  moreover have "collectGarbage False [1, 2] ?m = Some (?m\<lparr>
      object_sizes := object_sizes ?m |` {p. references ?m p = {}},
      total_memory := total_memory ?m - (\<Sum>p \<leftarrow> filter (\<lambda>p. references ?m p \<noteq> {}) [1, 2]. size_of ?m p)\<rparr>)"
    by (rule collection_frees_holders) auto
  moreover have "object_sizes ?m |` {p. references ?m p = {}} = [2 \<mapsto> 8]"
    by (auto simp: restrict_map_def fun_eq_iff)
  ultimately show ?thesis by (simp add: size_of_def)
qed

section \<open>\<open>GenerationalGC\<close>\<close>

record generation =
  gen_objects :: "nat set"
  gen_max :: "64 word"
  gen_current :: "64 word"

record collector =
  generations :: "generation list"
  object_ages :: "nat \<Rightarrow> nat option"
  gc_total :: "64 word"

definition new_GenerationalGC :: collector where
  "new_GenerationalGC =
     \<lparr>generations = map (\<lambda>n. \<lparr>gen_objects = {}, gen_max = n, gen_current = 0\<rparr>)
        [1024 * 1024, 10 * 1024 * 1024, 100 * 1024 * 1024],
      object_ages = Map.empty, gc_total = 0\<rparr>"

definition age_of :: "collector \<Rightarrow> nat \<Rightarrow> nat" where
  "age_of c p = (case object_ages c p of None \<Rightarrow> 0 | Some n \<Rightarrow> n)"

definition gc_addReference :: "nat \<Rightarrow> nat \<Rightarrow> collector \<Rightarrow> collector" where
  "gc_addReference p q c =
     (case object_ages c q of None \<Rightarrow> c | Some n \<Rightarrow> c\<lparr>object_ages := (object_ages c)(q \<mapsto> n + 1)\<rparr>)"

text \<open>The mark phase: \<open>objectAges[obj]\<close> inserts an age where there is none, and the queue holds
  what was referenced once. The loop over the queue only moves it to the set.\<close>

definition gen_list :: "generation \<Rightarrow> nat list" where
  "gen_list g = sorted_list_of_set (gen_objects g)"

definition gc_touch :: "nat \<Rightarrow> collector \<Rightarrow> collector" where
  "gc_touch p c = c\<lparr>object_ages := (object_ages c)(p \<mapsto> age_of c p)\<rparr>"

definition gc_queue :: "collector \<Rightarrow> nat list" where
  "gc_queue c = filter (\<lambda>p. age_of c p > 0) (concat (map gen_list (generations c)))"

definition gc_reachable :: "nat list \<Rightarrow> nat set" where
  "gc_reachable q = fold insert q {}"

definition set_objects :: "nat \<Rightarrow> (nat set \<Rightarrow> nat set) \<Rightarrow> collector \<Rightarrow> collector" where
  "set_objects g f c = c\<lparr>generations := (generations c)[g := (generations c ! g)\<lparr>gen_objects := f (gen_objects (generations c ! g))\<rparr>]\<rparr>"

text \<open>What the sweep does with one object of the generation \<open>g\<close>; \<open>sizeof(*it)\<close> is the size of a
  pointer.\<close>

definition gc_sweep_object :: "nat set \<Rightarrow> nat \<Rightarrow> nat \<Rightarrow> collector \<Rightarrow> collector" where
  "gc_sweep_object reachable g p c =
     (if p \<notin> reachable then set_objects g (\<lambda>s. s - {p}) (c\<lparr>gc_total := gc_total c - 8\<rparr>)
      else if age_of c p > 0 \<and> g \<noteq> length (generations c) - 1 then
        set_objects g (\<lambda>s. s - {p}) (set_objects (g + 1) (insert p) c)
      else c)"

definition gc_sweep :: "nat set \<Rightarrow> nat \<Rightarrow> collector \<Rightarrow> collector" where
  "gc_sweep reachable g c = fold (gc_sweep_object reachable g) (gen_list (generations c ! g)) c"

definition gc_collect :: "bool \<Rightarrow> collector \<Rightarrow> collector option" where
  "gc_collect held c =
     (if held then None
      else
        (let c1 = fold gc_touch (concat (map gen_list (generations c))) c;
             reachable = gc_reachable (gc_queue c1)
         in Some (fold (gc_sweep reachable) [0..<length (generations c1)] c1)))"

definition gc_put :: "nat \<Rightarrow> 64 word \<Rightarrow> collector \<Rightarrow> collector" where
  "gc_put p n c =
     (let c1 = set_objects 0 (insert p) c; g = generations c1 ! 0
      in c1\<lparr>generations := (generations c1)[0 := g\<lparr>gen_current := gen_current g + n\<rparr>],
            object_ages := (object_ages c1)(p \<mapsto> 0), gc_total := gc_total c1 + n\<rparr>)"

definition gc_allocate :: "nat \<Rightarrow> 64 word \<Rightarrow> collector \<Rightarrow> collector allocation" where
  "gc_allocate p n c =
     (if gc_total c + n > max_memory then
        (case gc_collect True c of
           None \<Rightarrow> Never_Returns
         | Some c1 \<Rightarrow> if gc_total c1 + n > max_memory then Limit_Exceeded else Allocated (gc_put p n c1))
      else Allocated (gc_put p n c))"


section \<open>What the generational collection keeps\<close>

definition obj :: "collector \<Rightarrow> nat \<Rightarrow> nat set" where
  "obj c i = gen_objects (generations c ! i)"

lemma set_objects_sel [simp]:
  "length (generations (set_objects g f c)) = length (generations c)"
  "object_ages (set_objects g f c) = object_ages c" "gc_total (set_objects g f c) = gc_total c"
  "age_of (set_objects g f c) = age_of c"
  by (simp_all add: set_objects_def age_of_def fun_eq_iff)

lemma obj_set_objects [simp]:
  "i < length (generations c) \<Longrightarrow> obj (set_objects g f c) i = (if i = g then f (obj c g) else obj c i)"
  by (simp add: obj_def set_objects_def nth_list_update)

lemma total_update [simp]:
  "obj (c\<lparr>gc_total := t\<rparr>) = obj c" "age_of (c\<lparr>gc_total := t\<rparr>) = age_of c"
  by (simp_all add: obj_def age_of_def fun_eq_iff)

text \<open>One generation: a dead object is dropped and counted with eight bytes, a live one moves up, except
  from the last generation.\<close>

lemma sweep_list:
  fixes c :: collector
  assumes "g < length (generations c)" "\<forall>p \<in> set xs \<inter> R. age_of c p > 0"
  defines "c' \<equiv> fold (gc_sweep_object R g) xs c"
  shows "length (generations c') = length (generations c) \<and> object_ages c' = object_ages c
     \<and> gc_total c' = gc_total c - 8 * of_nat (length (filter (\<lambda>p. p \<notin> R) xs))
     \<and> (\<forall>i < length (generations c). obj c' i =
          (if i = g then obj c g - (if g = length (generations c) - 1 then set xs - R else set xs)
           else if i = Suc g then obj c i \<union> (set xs \<inter> R) else obj c i))"
  using assms(1,2) unfolding c'_def
proof (induction xs arbitrary: c)
  case (Cons p xs)
  let ?d = "gc_sweep_object R g p c"
  have d: "length (generations ?d) = length (generations c)" "object_ages ?d = object_ages c"
    "gc_total ?d = gc_total c - (if p \<notin> R then 8 else 0)"
    by (auto simp: gc_sweep_object_def)
  have o: "obj ?d i = (if i = g then obj c g - (if g = length (generations c) - 1 then {p} - R else {p})
           else if i = Suc g then obj c i \<union> ({p} \<inter> R) else obj c i)" if "i < length (generations c)" for i
    using that Cons.prems by (auto simp: gc_sweep_object_def)
  have a: "age_of ?d = age_of c" using d(2) by (simp add: age_of_def fun_eq_iff)
  note IH = Cons.IH [of ?d, unfolded d a]
  show ?case
    using IH Cons.prems o by (auto simp: algebra_simps)
qed simp

lemma fold_touch:
  "generations (fold gc_touch ps c) = generations c" "gc_total (fold gc_touch ps c) = gc_total c"
  "age_of (fold gc_touch ps c) = age_of c"
proof -
  have "generations (gc_touch p c) = generations c \<and> gc_total (gc_touch p c) = gc_total c \<and> age_of (gc_touch p c) = age_of c" for p c
    by (auto simp: gc_touch_def age_of_def fun_eq_iff)
  then show "generations (fold gc_touch ps c) = generations c" "gc_total (fold gc_touch ps c) = gc_total c"
    "age_of (fold gc_touch ps c) = age_of c"
    by (induction ps arbitrary: c) simp_all
qed


lemma sweep_generation:
  assumes "g < length (generations c)" "finite (obj c g)" "\<forall>p \<in> R. age_of c p > 0"
  shows "length (generations (gc_sweep R g c)) = length (generations c)"
    and "age_of (gc_sweep R g c) = age_of c"
    and "gc_total (gc_sweep R g c) = gc_total c - 8 * of_nat (card (obj c g - R))"
    and "i < length (generations c) \<Longrightarrow> obj (gc_sweep R g c) i =
           (if i = g then (if g = length (generations c) - 1 then obj c g \<inter> R else {})
            else if i = Suc g then obj c i \<union> (obj c g \<inter> R) else obj c i)"
proof -
  have xs: "gen_list (generations c ! g) = sorted_list_of_set (obj c g)" by (simp add: gen_list_def obj_def)
  have len: "length (filter (\<lambda>p. p \<notin> R) (sorted_list_of_set (obj c g))) = card (obj c g - R)"
  proof -
    have "distinct (filter (\<lambda>p. p \<notin> R) (sorted_list_of_set (obj c g)))" by simp
    then have "length (filter (\<lambda>p. p \<notin> R) (sorted_list_of_set (obj c g)))
        = card (set (filter (\<lambda>p. p \<notin> R) (sorted_list_of_set (obj c g))))"
      by (simp only: distinct_card)
    also have "set (filter (\<lambda>p. p \<notin> R) (sorted_list_of_set (obj c g))) = obj c g - R"
      using assms(2) by auto
    finally show ?thesis .
  qed
  have "\<forall>p \<in> set (sorted_list_of_set (obj c g)) \<inter> R. age_of c p > 0" using assms(3) by auto
  note all = sweep_list [OF assms(1) this]
  show "length (generations (gc_sweep R g c)) = length (generations c)"
    "age_of (gc_sweep R g c) = age_of c"
    "gc_total (gc_sweep R g c) = gc_total c - 8 * of_nat (card (obj c g - R))"
    using all by (simp_all add: gc_sweep_def xs len age_of_def fun_eq_iff)
  show "i < length (generations c) \<Longrightarrow> obj (gc_sweep R g c) i =
           (if i = g then (if g = length (generations c) - 1 then obj c g \<inter> R else {})
            else if i = Suc g then obj c i \<union> (obj c g \<inter> R) else obj c i)"
    using all assms(2) by (auto simp: gc_sweep_def xs)
qed

lemma reachable_set: "gc_reachable q = set q"
proof -
  have "fold insert q r = r \<union> set q" for r by (induction q arbitrary: r) auto
  then show ?thesis by (simp add: gc_reachable_def)
qed

definition dead_in :: "collector \<Rightarrow> nat \<Rightarrow> nat set" where
  "dead_in c i = {p \<in> obj c i. age_of c p = 0}"

text \<open>After one generational collection the two young generations are empty and the old one holds every
  object that was ever referenced; the others are freed, whatever their size for eight bytes each.\<close>

theorem generational_collection:
  assumes three: "length (generations c) = 3" and fin: "finite (obj c 0)" "finite (obj c 1)" "finite (obj c 2)"
  shows "\<exists>c'. gc_collect False c = Some c' \<and> obj c' 0 = {} \<and> obj c' 1 = {}
     \<and> obj c' 2 = {p \<in> obj c 0 \<union> obj c 1 \<union> obj c 2. age_of c p > 0}
     \<and> gc_total c' = gc_total c - 8 * of_nat (card (dead_in c 0) + card (dead_in c 1) + card (dead_in c 2))"
proof -
  define c1 where "c1 = fold gc_touch (concat (map gen_list (generations c))) c"
  define R where "R = set (gc_queue c1)"
  define c2 where "c2 = gc_sweep R 0 c1"
  define c3 where "c3 = gc_sweep R 1 c2"
  define c4 where "c4 = gc_sweep R 2 c3"
  have gs: "generations c = [generations c ! 0, generations c ! 1, generations c ! 2]"
    using three by (intro nth_equalityI) (auto simp: less_Suc_eq numeral_3_eq_3 numeral_2_eq_2)
  have s1: "length (generations c1) = 3" "age_of c1 = age_of c" "gc_total c1 = gc_total c" "obj c1 = obj c"
    using three by (simp_all add: c1_def fold_touch obj_def fun_eq_iff)
  have "set (concat (map gen_list (generations c))) = obj c 0 \<union> obj c 1 \<union> obj c 2"
    using fin by (subst gs) (auto simp: gen_list_def obj_def)
  then have live: "R = {p \<in> obj c 0 \<union> obj c 1 \<union> obj c 2. age_of c p > 0}"
    by (auto simp: R_def gc_queue_def c1_def fold_touch)
  then have Rage: "\<forall>p \<in> R. age_of c p > 0" by simp
  have s2: "length (generations c2) = 3" "age_of c2 = age_of c"
    "gc_total c2 = gc_total c - 8 * of_nat (card (obj c 0 - R))"
    "obj c2 0 = {}" "obj c2 1 = obj c 1 \<union> (obj c 0 \<inter> R)" "obj c2 2 = obj c 2"
    using sweep_generation [of 0 c1 R, folded c2_def] Rage fin s1 by simp_all
  have s3: "length (generations c3) = 3" "age_of c3 = age_of c"
    "gc_total c3 = gc_total c2 - 8 * of_nat (card (obj c2 1 - R))"
    "obj c3 0 = {}" "obj c3 1 = {}" "obj c3 2 = obj c 2 \<union> (obj c2 1 \<inter> R)"
    using sweep_generation [of 1 c2 R, folded c3_def] Rage fin s2 by simp_all
  have s4: "gc_total c4 = gc_total c3 - 8 * of_nat (card (obj c3 2 - R))"
    "obj c4 0 = {}" "obj c4 1 = {}" "obj c4 2 = obj c3 2 \<inter> R"
    using sweep_generation [of 2 c3 R, folded c4_def] Rage fin s2 s3 by simp_all
  have dead: "obj c 0 - R = dead_in c 0" "obj c2 1 - R = dead_in c 1" "obj c3 2 - R = dead_in c 2"
    unfolding s2(5) s3(6) dead_in_def using live by auto
  have "[0..<3::nat] = [0, 1, 2]" by (simp add: upt_rec)
  then have "gc_collect False c = Some c4"
    using s1(1) by (simp add: gc_collect_def Let_def c1_def [symmetric] reachable_set R_def [symmetric] c2_def c3_def c4_def)
  moreover have "obj c4 2 = {p \<in> obj c 0 \<union> obj c 1 \<union> obj c 2. age_of c p > 0}"
    unfolding s4(4) s3(6) s2(5) using live by auto
  moreover have "gc_total c4 = gc_total c - 8 * of_nat (card (dead_in c 0) + card (dead_in c 1) + card (dead_in c 2))"
    unfolding s4(1) s3(3) s2(3) dead by (simp add: algebra_simps)
  ultimately show ?thesis using s4(2,3) by blast
qed

lemma generational_collection_witness:
  "\<exists>c'. gc_collect False (gc_addReference 1 2 (gc_put 2 64 (gc_put 1 64 new_GenerationalGC))) = Some c'
     \<and> obj c' 2 = {2} \<and> gc_total c' = 120"
proof -
  let ?c = "gc_addReference 1 2 (gc_put 2 64 (gc_put 1 64 new_GenerationalGC))"
  have c: "generations ?c = [\<lparr>gen_objects = {1, 2}, gen_max = 1024 * 1024, gen_current = 128\<rparr>,
      \<lparr>gen_objects = {}, gen_max = 10 * 1024 * 1024, gen_current = 0\<rparr>,
      \<lparr>gen_objects = {}, gen_max = 100 * 1024 * 1024, gen_current = 0\<rparr>]"
    "object_ages ?c = [1 \<mapsto> 0, 2 \<mapsto> 1]" "gc_total ?c = 128"
    by (auto simp: gc_addReference_def gc_put_def new_GenerationalGC_def set_objects_def Let_def fun_eq_iff)
  have o: "obj ?c 0 = {1, 2}" "obj ?c 1 = {}" "obj ?c 2 = {}" "length (generations ?c) = 3"
    unfolding obj_def c by simp_all
  have a: "age_of ?c 1 = 0" "age_of ?c 2 = 1"
    unfolding age_of_def c by simp_all
  have "{p \<in> {1, 2}. age_of ?c p > 0} = {2}" "dead_in ?c 0 = {1}" "dead_in ?c 1 = {}" "dead_in ?c 2 = {}"
    unfolding dead_in_def o using a by auto
  then show ?thesis
    using generational_collection [of ?c] o c(3) by auto
qed

end
