(* ===== verification/Tocin_Interpreter.thy ===== *)
theory Tocin_Interpreter
  imports Tocin_Static_Analyzer Tocin_Collectors
begin

text \<open>
  The environments of \<open>interpreter/src/Environment.cpp\<close> and the small state classes of
  \<open>interpreter/src/Interpreter.cpp\<close>: \<open>ValueCache\<close>, the call stack of \<open>EnhancedErrorHandler\<close>,
  \<open>PerformanceMonitor\<close>, \<open>TypeSystem\<close>, \<open>NullSafety\<close> and \<open>LoopSafety\<close>. The values are a type
  variable. Every method of these classes locks the mutex of its object for its whole body, so
  calls from several threads are calls one after the other.
\<close>

section \<open>Environments\<close>

text \<open>An environment holds a table and the environment that encloses it, which never changes: it is
  the list of the tables of its chain, the own one first. The tables are shared by all chains that
  hold them, so they lie in a store; a new environment gets the next number.\<close>

type_synonym environment = "nat list"
type_synonym 'v tables = "nat \<Rightarrow> string \<Rightarrow> 'v option"

record 'v env_store =
  env_tables :: "'v tables"
  env_next :: nat

definition new_Environment :: "environment option \<Rightarrow> 'v env_store \<Rightarrow> environment \<times> 'v env_store" where
  "new_Environment enclosing s =
     (env_next s # (case enclosing of None \<Rightarrow> [] | Some e \<Rightarrow> e),
      s\<lparr>env_tables := (env_tables s)(env_next s := Map.empty), env_next := env_next s + 1\<rparr>)"

definition env_define :: "environment \<Rightarrow> string \<Rightarrow> 'v \<Rightarrow> 'v env_store \<Rightarrow> 'v env_store" where
  "env_define e n v s = s\<lparr>env_tables := (env_tables s)(hd e := (env_tables s (hd e))(n \<mapsto> v))\<rparr>"

text \<open>\<open>get\<close> and \<open>assign\<close> throw when no table of the chain has the name.\<close>

fun env_get :: "environment \<Rightarrow> string \<Rightarrow> 'v env_store \<Rightarrow> string + 'v" where
  "env_get [] n s = Inl (''Undefined variable: '' @ n)"
| "env_get (t # e) n s = (case env_tables s t n of Some v \<Rightarrow> Inr v | None \<Rightarrow> env_get e n s)"

fun env_assign :: "environment \<Rightarrow> string \<Rightarrow> 'v \<Rightarrow> 'v env_store \<Rightarrow> string + 'v env_store" where
  "env_assign [] n v s = Inl (''Undefined variable: '' @ n)"
| "env_assign (t # e) n v s =
     (case env_tables s t n of
        Some old \<Rightarrow> Inr (s\<lparr>env_tables := (env_tables s)(t := (env_tables s t)(n \<mapsto> v))\<rparr>)
      | None \<Rightarrow> env_assign e n v s)"

text \<open>The table in which a chain finds a name.\<close>

fun env_holder :: "environment \<Rightarrow> string \<Rightarrow> 'v env_store \<Rightarrow> nat option" where
  "env_holder [] n s = None"
| "env_holder (t # e) n s = (if env_tables s t n \<noteq> None then Some t else env_holder e n s)"

lemma env_get_holder:
  "env_get e n s = (case env_holder e n s of None \<Rightarrow> Inl (''Undefined variable: '' @ n)
                    | Some t \<Rightarrow> Inr (the (env_tables s t n)))"
  by (induction e) (auto split: option.split)

lemma env_assign_holder:
  "env_assign e n v s =
     (case env_holder e n s of
        None \<Rightarrow> Inl (''Undefined variable: '' @ n)
      | Some t \<Rightarrow> Inr (s\<lparr>env_tables := (env_tables s)(t := (env_tables s t)(n \<mapsto> v))\<rparr>))"
  by (induction e) (auto split: option.split)

lemma holder_defined: "env_holder e n s = Some t \<Longrightarrow> env_tables s t n \<noteq> None"
  by (induction e) (auto split: if_splits)

lemma holder_assign:
  "env_tables s t n \<noteq> None
   \<Longrightarrow> env_holder e m (s\<lparr>env_tables := (env_tables s)(t := (env_tables s t)(n \<mapsto> v))\<rparr>) = env_holder e m s"
  by (induction e) auto

text \<open>C25: an assignment fails exactly when reading the name fails, with the same message. After one that
  succeeds every environment, whatever chain it has, reads the new value where it found the name in
  the same table and the old value of everything else.\<close>

theorem assign_seen_by_sharers:
  "(case env_assign e n v s of
      Inl msg \<Rightarrow> env_get e n s = Inl msg
    | Inr s' \<Rightarrow> (\<exists>old. env_get e n s = Inr old)
        \<and> env_get e' m s' = (if m = n \<and> env_holder e' n s = env_holder e n s then Inr v else env_get e' m s))"
proof (cases "env_holder e n s")
  case (Some t)
  let ?s = "s\<lparr>env_tables := (env_tables s)(t := (env_tables s t)(n \<mapsto> v))\<rparr>"
  have "env_holder e' m ?s = env_holder e' m s"
    by (rule holder_assign [OF holder_defined [OF Some]])
  then have "env_get e' m ?s = (if m = n \<and> env_holder e' n s = Some t then Inr v else env_get e' m s)"
    by (auto simp: env_get_holder split: option.split)
  then show ?thesis
    using Some by (simp add: env_assign_holder env_get_holder)
qed (simp add: env_assign_holder env_get_holder)

text \<open>A definition in an environment is seen there and never fails.\<close>

lemma define_get: "env_get (t # e) n (env_define (t # e) n v s) = Inr v"
  by (simp add: env_define_def)

section \<open>\<open>ValueCache\<close>\<close>

text \<open>\<open>oldest\<close> is the key that \<open>begin()\<close> stands at; the library may put any entry first.\<close>

definition cache_max :: nat where
  "cache_max = 1000"

definition cache_put :: "string \<Rightarrow> string \<Rightarrow> 'v \<Rightarrow> (string \<Rightarrow> 'v option) \<Rightarrow> string \<Rightarrow> 'v option" where
  "cache_put oldest k v c =
     (let c1 = (if card (dom c) \<ge> cache_max then c(oldest := None) else c) in c1(k \<mapsto> v))"

definition cache_get :: "string \<Rightarrow> (string \<Rightarrow> 'v option) \<Rightarrow> 'v option" where
  "cache_get k c = c k"

text \<open>The cache never has more than its maximum, and a look-up returns what was last put; a put at the
  limit drops an entry even when its key is in the cache already.\<close>

lemma cache_bounded:
  assumes "finite (dom c)" "card (dom c) \<le> cache_max" "card (dom c) = cache_max \<Longrightarrow> oldest \<in> dom c"
  shows "card (dom (cache_put oldest k v c)) \<le> cache_max" "cache_get k (cache_put oldest k v c) = Some v"
proof -
  have "card (dom c - {oldest}) < cache_max" if "card (dom c) = cache_max"
    using assms that card_Diff1_less [of "dom c" oldest] by simp
  then show "card (dom (cache_put oldest k v c)) \<le> cache_max"
    using assms(1,2) by (auto simp: cache_put_def Let_def card_insert_if)
qed (simp add: cache_get_def cache_put_def Let_def)

lemma cache_forgets_at_limit:
  "\<lbrakk>card (dom c) = cache_max; k \<in> dom c; oldest \<in> dom c; oldest \<noteq> k\<rbrakk>
   \<Longrightarrow> cache_get oldest (cache_put oldest k v c) = None"
  by (simp add: cache_get_def cache_put_def)

section \<open>Call stack and monitor\<close>

definition pushCall :: "string \<Rightarrow> string list \<Rightarrow> string list" where
  "pushCall f stack = stack @ [f]"

definition popCall :: "string list \<Rightarrow> string list" where
  "popCall stack = (if stack \<noteq> [] then butlast stack else stack)"

text \<open>What \<open>reportError\<close> prints, line by line.\<close>

definition print_call_stack :: "string \<Rightarrow> string list \<Rightarrow> string list" where
  "print_call_stack msg stack =
     [''Error: '' @ msg, ''Call stack:''] @ map (\<lambda>f. ''  at '' @ f) (rev stack)"

definition recordExecution :: "string \<Rightarrow> int \<Rightarrow> (string \<Rightarrow> int option) \<Rightarrow> string \<Rightarrow> int option" where
  "recordExecution oper d t = t(oper \<mapsto> (case t oper of None \<Rightarrow> 0 | Some x \<Rightarrow> x) + d)"

definition printStats :: "string list \<Rightarrow> (string \<Rightarrow> int option) \<Rightarrow> string list" where
  "printStats order t =
     [[], ''Performance Statistics:''] @ map (\<lambda>oper. oper @ '': '' @ show_int (the (t oper)) @ ''ns'') order"

lemma popCall_pushCall [simp]: "popCall (pushCall f stack) = stack"
  by (simp add: popCall_def pushCall_def)

text \<open>The monitor adds up what was recorded for an operation.\<close>

lemma recorded_sum:
  "(case fold (\<lambda>(oper, d). recordExecution oper d) rs Map.empty oper of None \<Rightarrow> 0 | Some x \<Rightarrow> x)
   = (\<Sum>(o', d) \<leftarrow> rs. if o' = oper then d else 0)"
proof -
  have "(case fold (\<lambda>(oper, d). recordExecution oper d) rs t oper of None \<Rightarrow> 0 | Some x \<Rightarrow> x)
      = (case t oper of None \<Rightarrow> 0 | Some x \<Rightarrow> x) + (\<Sum>(o', d) \<leftarrow> rs. if o' = oper then d else 0)" for t
    by (induction rs arbitrary: t) (auto simp: recordExecution_def)
  from this [of Map.empty] show ?thesis by simp
qed

section \<open>\<open>TypeSystem\<close> and \<open>NullSafety\<close>\<close>

text \<open>A \<open>type_index\<close> is a number.\<close>

definition registerType :: "string \<Rightarrow> nat \<Rightarrow> (string \<Rightarrow> nat option) \<Rightarrow> string \<Rightarrow> nat option" where
  "registerType n ty r = r(n \<mapsto> ty)"

definition isTypeCompatible :: "string \<Rightarrow> string \<Rightarrow> (string \<Rightarrow> nat option) \<Rightarrow> bool" where
  "isTypeCompatible t1 t2 r =
     (if r t1 = None \<or> r t2 = None then False else r t1 = r t2)"

definition markNullable :: "string \<Rightarrow> string set \<Rightarrow> string set" where
  "markNullable n s = insert n s"

definition var_isNullable :: "string \<Rightarrow> string set \<Rightarrow> bool" where
  "var_isNullable n s = (n \<in> s)"

definition checkNull :: "string \<Rightarrow> bool \<Rightarrow> string set \<Rightarrow> string option" where
  "checkNull n is_null s =
     (if is_null \<and> \<not> var_isNullable n s
      then Some (''Null value assigned to non-nullable variable: '' @ n) else None)"

section \<open>\<open>LoopSafety\<close>\<close>

definition max_iterations :: nat where
  "max_iterations = 1000000"

type_synonym loops = "string \<Rightarrow> nat option"

definition enterLoop :: "string \<Rightarrow> loops \<Rightarrow> loops" where
  "enterLoop l s = s(l \<mapsto> 0)"

text \<open>The counter is increased before the test, also when the call throws.\<close>

definition incrementLoop :: "string \<Rightarrow> loops \<Rightarrow> string option \<times> loops" where
  "incrementLoop l s =
     (let n = (case s l of None \<Rightarrow> 0 | Some n \<Rightarrow> n) + 1; s1 = s(l \<mapsto> n)
      in (if n > max_iterations then Some (''Loop exceeded maximum iterations: '' @ l) else None, s1))"

definition exitLoop :: "string \<Rightarrow> loops \<Rightarrow> loops" where
  "exitLoop l s = s(l := None)"

lemma incrementLoop_Some:
  "s l = Some n \<Longrightarrow> incrementLoop l s =
     (if n \<ge> max_iterations then Some (''Loop exceeded maximum iterations: '' @ l) else None, s(l \<mapsto> n + 1))"
  by (simp add: incrementLoop_def)

end
