(* ===== verification/Tocin_Ffi_Value.thy ===== *)
theory Tocin_Ffi_Value
  imports Tocin_Prelude "HOL-Library.Word" "HOL-Library.AList" "HOL-Library.Multiset"
begin

text \<open>
  \<open>src/ffi/ffi_value.h\<close> and the methods of \<open>FFIValue\<close> that \<open>src/ffi/ffi_value.cpp\<close> defines. Doubles
  are a type variable, and what the code asks of them is a record of functions. A pointer is a
  number, null is 0, a callback is a number too. An \<open>unordered_map\<close> is the list of its entries in
  the order of the library. The metadata of a value is left out: neither copying nor moving keeps
  it, so that whether the elements of a vector have theirs depends on its reallocations.
\<close>

section \<open>Values\<close>

datatype ffi_type =
    UNDEFINED_TYPE | NULL_TYPE | BOOLEAN_TYPE | INTEGER_TYPE | FLOAT_TYPE | STRING_TYPE | ARRAY_TYPE
  | OBJECT_TYPE | FUNCTION_TYPE | POINTER_TYPE | BINARY_TYPE

text \<open>\<open>type_\<close>, \<open>value_\<close>, \<open>pointerTypeName_\<close>, \<open>pointerOwned_\<close>, \<open>functionCallback_\<close>, \<open>errorMessage_\<close>; the
  alternatives of the variant.\<close>

datatype (plugins only: code size) 'd ffi =
    FFI (ffi_getType: ffi_type) (ffi_payload: "'d payload") (ffi_pointer_name: string)
      (ffi_owned: bool) (ffi_callback: "nat option") (ffi_message: string)
  and 'd payload =
    P_None | P_Bool bool | P_Int "64 word" | P_Double 'd | P_String string | P_Array "'d ffi list"
  | P_Object "(string \<times> 'd ffi) list" | P_Pointer nat | P_Binary "8 word list"

definition ffi_make :: "ffi_type \<Rightarrow> 'd payload \<Rightarrow> 'd ffi" where
  "ffi_make t p = FFI t p [] False None []"

definition ffi_undefined :: "'d ffi" where
  "ffi_undefined = ffi_make UNDEFINED_TYPE P_None"

definition ffi_of_pointer :: "nat \<Rightarrow> string \<Rightarrow> 'd ffi" where
  "ffi_of_pointer p n = FFI POINTER_TYPE (P_Pointer p) n False None []"

definition ffi_createNull :: "'d ffi" where
  "ffi_createNull = ffi_make NULL_TYPE P_None"

section \<open>Copying, moving and destroying\<close>

text \<open>\<open>copyFrom\<close> into a fresh value: the copy owns no pointer, and its elements are copies as well.\<close>

primrec ffi_copy :: "'d ffi \<Rightarrow> 'd ffi" and payload_copy :: "'d payload \<Rightarrow> 'd payload" where
  "ffi_copy (FFI t p n w c e) = FFI t (payload_copy p) n False c e"
| "payload_copy P_None = P_None"
| "payload_copy (P_Bool b) = P_Bool b"
| "payload_copy (P_Int i) = P_Int i"
| "payload_copy (P_Double d) = P_Double d"
| "payload_copy (P_String s) = P_String s"
| "payload_copy (P_Array vs) = P_Array (map ffi_copy vs)"
| "payload_copy (P_Object kvs) = P_Object (map (map_prod id ffi_copy) kvs)"
| "payload_copy (P_Pointer p) = P_Pointer p"
| "payload_copy (P_Binary bs) = P_Binary bs"

text \<open>\<open>std::get\<close>: None is the exception.\<close>

definition get_pointer :: "'d payload \<Rightarrow> nat option" where
  "get_pointer p = (case p of P_Pointer a \<Rightarrow> Some a | _ \<Rightarrow> None)"

text \<open>What \<open>cleanup\<close> does itself: it gives an address to \<open>free\<close>, or \<open>std::get\<close> throws because the
  content of an owned pointer is not a pointer.\<close>

datatype cleanup_event = Frees nat | Get_Throws

definition own_free :: "ffi_type \<Rightarrow> 'd payload \<Rightarrow> bool \<Rightarrow> cleanup_event list" where
  "own_free t p owned =
     (if t = POINTER_TYPE \<and> owned then
        (case get_pointer p of
           Some a \<Rightarrow> if a \<noteq> 0 then [Frees a] else []
         | None \<Rightarrow> [Get_Throws])
      else [])"

text \<open>What the destructor of a value does, with those of its elements. After a \<open>Get_Throws\<close> nothing
  follows in the program: an exception leaves a destructor.\<close>

primrec ffi_frees :: "'d ffi \<Rightarrow> cleanup_event list" and payload_frees :: "'d payload \<Rightarrow> cleanup_event list" where
  "ffi_frees (FFI t p n w c e) = own_free t p w @ payload_frees p"
| "payload_frees P_None = []"
| "payload_frees (P_Bool b) = []"
| "payload_frees (P_Int i) = []"
| "payload_frees (P_Double d) = []"
| "payload_frees (P_String s) = []"
| "payload_frees (P_Array vs) = concat (map ffi_frees vs)"
| "payload_frees (P_Object kvs) = concat (map snd (map (map_prod id ffi_frees) kvs))"
| "payload_frees (P_Pointer p) = []"
| "payload_frees (P_Binary bs) = []"

text \<open>The constructors from a vector and from a map copy the elements.\<close>

definition ffi_of_vector :: "'d ffi list \<Rightarrow> 'd ffi" where
  "ffi_of_vector vs = ffi_make ARRAY_TYPE (P_Array (map ffi_copy vs))"

definition ffi_of_map :: "(string \<times> 'd ffi) list \<Rightarrow> 'd ffi" where
  "ffi_of_map kvs = ffi_make OBJECT_TYPE (P_Object (map (map_prod id ffi_copy) kvs))"

text \<open>The copy assignment; \<open>self\<close> says that both sides are the same object.\<close>

definition ffi_assign :: "bool \<Rightarrow> 'd ffi \<Rightarrow> 'd ffi \<Rightarrow> cleanup_event list \<times> 'd ffi" where
  "ffi_assign self other v = (if \<not> self then (ffi_frees v, ffi_copy other) else ([], v))"

text \<open>A moved container is empty, a moved scalar keeps its value.\<close>

definition moved_payload :: "'d payload \<Rightarrow> 'd payload" where
  "moved_payload p =
     (case p of P_String s \<Rightarrow> P_String [] | P_Array vs \<Rightarrow> P_Array [] | P_Object kvs \<Rightarrow> P_Object []
      | P_Binary bs \<Rightarrow> P_Binary [] | _ \<Rightarrow> p)"

text \<open>\<open>moveFrom\<close>: the new value and what is left of the other one.\<close>

definition ffi_move :: "'d ffi \<Rightarrow> 'd ffi \<times> 'd ffi" where
  "ffi_move v =
     (v, FFI UNDEFINED_TYPE (moved_payload (ffi_payload v)) [] False None [])"

text \<open>The move assignment: what is cleaned up, the left side and what is left of the right side.\<close>

definition ffi_assign_move :: "bool \<Rightarrow> 'd ffi \<Rightarrow> 'd ffi \<Rightarrow> cleanup_event list \<times> 'd ffi \<times> 'd ffi" where
  "ffi_assign_move self other v =
     (if \<not> self then (ffi_frees v, ffi_move other) else ([], v, other))"

section \<open>Extraction\<close>

definition get_bool :: "'d payload \<Rightarrow> bool option" where
  "get_bool p = (case p of P_Bool b \<Rightarrow> Some b | _ \<Rightarrow> None)"

definition get_int :: "'d payload \<Rightarrow> 64 word option" where
  "get_int p = (case p of P_Int i \<Rightarrow> Some i | _ \<Rightarrow> None)"

definition get_double :: "'d payload \<Rightarrow> 'd option" where
  "get_double p = (case p of P_Double d \<Rightarrow> Some d | _ \<Rightarrow> None)"

definition get_string :: "'d payload \<Rightarrow> string option" where
  "get_string p = (case p of P_String s \<Rightarrow> Some s | _ \<Rightarrow> None)"

definition get_array :: "'d payload \<Rightarrow> 'd ffi list option" where
  "get_array p = (case p of P_Array vs \<Rightarrow> Some vs | _ \<Rightarrow> None)"

definition get_object :: "'d payload \<Rightarrow> (string \<times> 'd ffi) list option" where
  "get_object p = (case p of P_Object kvs \<Rightarrow> Some kvs | _ \<Rightarrow> None)"

definition get_binary :: "'d payload \<Rightarrow> 8 word list option" where
  "get_binary p = (case p of P_Binary bs \<Rightarrow> Some bs | _ \<Rightarrow> None)"

lemmas payload_gets = get_bool_def get_int_def get_double_def get_string_def get_array_def
  get_object_def get_pointer_def get_binary_def

record 'd float_ops =
  fl_nonzero :: "'d \<Rightarrow> bool"
  fl_equal :: "'d \<Rightarrow> 'd \<Rightarrow> bool"
  fl_of_int :: "64 word \<Rightarrow> 'd"
  fl_of_bool :: "bool \<Rightarrow> 'd"
  fl_to_int32 :: "'d \<Rightarrow> 32 word"
  fl_to_int64 :: "'d \<Rightarrow> 64 word"
  fl_parse :: "string \<Rightarrow> 'd option"
  fl_text :: "'d \<Rightarrow> string"
  fl_zero :: 'd

definition asBoolean :: "'d float_ops \<Rightarrow> 'd ffi \<Rightarrow> bool option" where
  "asBoolean fo v =
     (let p = ffi_payload v
      in case ffi_getType v of
           BOOLEAN_TYPE \<Rightarrow> get_bool p
         | INTEGER_TYPE \<Rightarrow> map_option (\<lambda>i. i \<noteq> 0) (get_int p)
         | FLOAT_TYPE \<Rightarrow> map_option (fl_nonzero fo) (get_double p)
         | STRING_TYPE \<Rightarrow> map_option (\<lambda>s. s \<noteq> []) (get_string p)
         | ARRAY_TYPE \<Rightarrow> map_option (\<lambda>vs. vs \<noteq> []) (get_array p)
         | OBJECT_TYPE \<Rightarrow> map_option (\<lambda>kvs. kvs \<noteq> []) (get_object p)
         | _ \<Rightarrow> Some False)"

definition asInt32 :: "'d float_ops \<Rightarrow> 'd ffi \<Rightarrow> 32 word option" where
  "asInt32 fo v =
     (let p = ffi_payload v
      in case ffi_getType v of
           INTEGER_TYPE \<Rightarrow> map_option ucast (get_int p)
         | FLOAT_TYPE \<Rightarrow> map_option (fl_to_int32 fo) (get_double p)
         | BOOLEAN_TYPE \<Rightarrow> map_option (\<lambda>b. if b then 1 else 0) (get_bool p)
         | STRING_TYPE \<Rightarrow> map_option (\<lambda>s. case stoi_value 32 s of None \<Rightarrow> 0 | Some i \<Rightarrow> word_of_int i) (get_string p)
         | _ \<Rightarrow> Some 0)"

definition asInt64 :: "'d float_ops \<Rightarrow> 'd ffi \<Rightarrow> 64 word option" where
  "asInt64 fo v =
     (let p = ffi_payload v
      in case ffi_getType v of
           INTEGER_TYPE \<Rightarrow> get_int p
         | FLOAT_TYPE \<Rightarrow> map_option (fl_to_int64 fo) (get_double p)
         | BOOLEAN_TYPE \<Rightarrow> map_option (\<lambda>b. if b then 1 else 0) (get_bool p)
         | STRING_TYPE \<Rightarrow> map_option (\<lambda>s. case stoi_value 64 s of None \<Rightarrow> 0 | Some i \<Rightarrow> word_of_int i) (get_string p)
         | _ \<Rightarrow> Some 0)"

text \<open>\<open>asFloat\<close>: \<open>single\<close> rounds a double, \<open>so\<close> are the operations of single precision.\<close>

definition asFloat :: "('d \<Rightarrow> 'f) \<Rightarrow> 'f float_ops \<Rightarrow> 'd ffi \<Rightarrow> 'f option" where
  "asFloat single so v =
     (let p = ffi_payload v
      in case ffi_getType v of
           FLOAT_TYPE \<Rightarrow> map_option single (get_double p)
         | INTEGER_TYPE \<Rightarrow> map_option (fl_of_int so) (get_int p)
         | BOOLEAN_TYPE \<Rightarrow> map_option (fl_of_bool so) (get_bool p)
         | STRING_TYPE \<Rightarrow> map_option (\<lambda>s. case fl_parse so s of None \<Rightarrow> fl_zero so | Some d \<Rightarrow> d) (get_string p)
         | _ \<Rightarrow> Some (fl_zero so))"

definition asDouble :: "'d float_ops \<Rightarrow> 'd ffi \<Rightarrow> 'd option" where
  "asDouble fo v =
     (let p = ffi_payload v
      in case ffi_getType v of
           FLOAT_TYPE \<Rightarrow> get_double p
         | INTEGER_TYPE \<Rightarrow> map_option (fl_of_int fo) (get_int p)
         | BOOLEAN_TYPE \<Rightarrow> map_option (fl_of_bool fo) (get_bool p)
         | STRING_TYPE \<Rightarrow> map_option (\<lambda>s. case fl_parse fo s of None \<Rightarrow> fl_zero fo | Some d \<Rightarrow> d) (get_string p)
         | _ \<Rightarrow> Some (fl_zero fo))"

definition asString :: "'d float_ops \<Rightarrow> 'd ffi \<Rightarrow> string option" where
  "asString fo v =
     (let p = ffi_payload v
      in case ffi_getType v of
           STRING_TYPE \<Rightarrow> get_string p
         | INTEGER_TYPE \<Rightarrow> map_option (\<lambda>i. show_int (sint i)) (get_int p)
         | FLOAT_TYPE \<Rightarrow> map_option (fl_text fo) (get_double p)
         | BOOLEAN_TYPE \<Rightarrow> map_option (\<lambda>b. if b then ''true'' else ''false'') (get_bool p)
         | NULL_TYPE \<Rightarrow> Some ''null''
         | UNDEFINED_TYPE \<Rightarrow> Some ''undefined''
         | ARRAY_TYPE \<Rightarrow> Some ''[Array]''
         | OBJECT_TYPE \<Rightarrow> Some ''[Object]''
         | POINTER_TYPE \<Rightarrow> Some ''[Pointer]''
         | FUNCTION_TYPE \<Rightarrow> Some ''[Function]''
         | BINARY_TYPE \<Rightarrow> Some ''[BinaryData]'')"

definition asPointer :: "'d ffi \<Rightarrow> nat option" where
  "asPointer v = (if ffi_getType v = POINTER_TYPE then get_pointer (ffi_payload v) else Some 0)"

definition asBinaryData :: "'d ffi \<Rightarrow> 8 word list option" where
  "asBinaryData v = (if ffi_getType v = BINARY_TYPE then get_binary (ffi_payload v) else Some [])"

definition asArray :: "'d ffi \<Rightarrow> 'd ffi list option" where
  "asArray v = (if ffi_getType v = ARRAY_TYPE then get_array (ffi_payload v) else Some [])"

definition asObject :: "'d ffi \<Rightarrow> (string \<times> 'd ffi) list option" where
  "asObject v = (if ffi_getType v = OBJECT_TYPE then get_object (ffi_payload v) else Some [])"

definition getTypeName :: "'d ffi \<Rightarrow> string" where
  "getTypeName v =
     (case ffi_getType v of
        UNDEFINED_TYPE \<Rightarrow> ''undefined'' | NULL_TYPE \<Rightarrow> ''null'' | BOOLEAN_TYPE \<Rightarrow> ''boolean''
      | INTEGER_TYPE \<Rightarrow> ''integer'' | FLOAT_TYPE \<Rightarrow> ''float'' | STRING_TYPE \<Rightarrow> ''string''
      | ARRAY_TYPE \<Rightarrow> ''array'' | OBJECT_TYPE \<Rightarrow> ''object'' | FUNCTION_TYPE \<Rightarrow> ''function''
      | POINTER_TYPE \<Rightarrow> ''pointer'' | BINARY_TYPE \<Rightarrow> ''binary'')"


section \<open>Arrays and objects\<close>

text \<open>An operation cleans up some values and returns, or \<open>std::get\<close> throws, or it writes outside the
  vector. A value that is passed in is not an element of the value that is changed.\<close>

datatype 'a ffi_out = Fine "cleanup_event list" 'a | Bad_Variant | Out_Of_Bounds

definition with_payload :: "'d payload \<Rightarrow> 'd ffi \<Rightarrow> 'd ffi" where
  "with_payload p v = FFI (ffi_getType v) p (ffi_pointer_name v) (ffi_owned v) (ffi_callback v) (ffi_message v)"

definition retype :: "ffi_type \<Rightarrow> 'd payload \<Rightarrow> 'd ffi \<Rightarrow> 'd ffi" where
  "retype t p v = FFI t p (ffi_pointer_name v) (ffi_owned v) (ffi_callback v) (ffi_message v)"

text \<open>The conversion that the changing operations start with; the old content is destroyed, an owned
  pointer is not freed.\<close>

definition to_array :: "'d ffi \<Rightarrow> cleanup_event list \<times> 'd ffi" where
  "to_array v =
     (if ffi_getType v \<noteq> ARRAY_TYPE then (payload_frees (ffi_payload v), retype ARRAY_TYPE (P_Array []) v)
      else ([], v))"

definition to_object :: "'d ffi \<Rightarrow> cleanup_event list \<times> 'd ffi" where
  "to_object v =
     (if ffi_getType v \<noteq> OBJECT_TYPE then (payload_frees (ffi_payload v), retype OBJECT_TYPE (P_Object []) v)
      else ([], v))"

definition all_frees :: "'d ffi list \<Rightarrow> cleanup_event list" where
  "all_frees vs = concat (map ffi_frees vs)"

definition arraySize :: "'d ffi \<Rightarrow> nat option" where
  "arraySize v = (if ffi_getType v = ARRAY_TYPE then map_option length (get_array (ffi_payload v)) else Some 0)"

definition arrayGet :: "64 word \<Rightarrow> 'd ffi \<Rightarrow> 'd ffi option" where
  "arrayGet i v =
     (if ffi_getType v = ARRAY_TYPE then
        (case get_array (ffi_payload v) of
           None \<Rightarrow> None
         | Some vs \<Rightarrow> Some (if unat i < length vs then ffi_copy (vs ! unat i) else ffi_undefined))
      else Some ffi_undefined)"

definition resize :: "nat \<Rightarrow> 'd ffi list \<Rightarrow> 'd ffi list" where
  "resize n vs = take n vs @ replicate (n - length vs) ffi_undefined"

definition arraySet :: "64 word \<Rightarrow> 'd ffi \<Rightarrow> 'd ffi \<Rightarrow> 'd ffi ffi_out" where
  "arraySet i x v =
     (let (fs, v1) = to_array v
      in case get_array (ffi_payload v1) of
           None \<Rightarrow> Bad_Variant
         | Some vs \<Rightarrow>
             (let n = unat (i + 1);
                  vs1 = (if unat i \<ge> length vs then resize n vs else vs);
                  fs1 = (if unat i \<ge> length vs then all_frees (drop n vs) else [])
              in if unat i < length vs1 then
                   Fine (fs @ fs1 @ ffi_frees (vs1 ! unat i))
                     (with_payload (P_Array (vs1[unat i := ffi_copy x])) v1)
                 else Out_Of_Bounds))"

definition arrayPush :: "'d ffi \<Rightarrow> 'd ffi \<Rightarrow> 'd ffi ffi_out" where
  "arrayPush x v =
     (let (fs, v1) = to_array v
      in case get_array (ffi_payload v1) of
           None \<Rightarrow> Bad_Variant
         | Some vs \<Rightarrow> Fine fs (with_payload (P_Array (vs @ [ffi_copy x])) v1))"

text \<open>The result is a copy of the last element, which is destroyed then.\<close>

definition arrayPop :: "'d ffi \<Rightarrow> ('d ffi \<times> 'd ffi) ffi_out" where
  "arrayPop v =
     (if ffi_getType v = ARRAY_TYPE then
        (case get_array (ffi_payload v) of
           None \<Rightarrow> Bad_Variant
         | Some vs \<Rightarrow>
             if vs \<noteq> [] then Fine (ffi_frees (last vs)) (ffi_copy (last vs), with_payload (P_Array (butlast vs)) v)
             else Fine [] (ffi_undefined, v))
      else Fine [] (ffi_undefined, v))"

definition arrayClear :: "'d ffi \<Rightarrow> 'd ffi ffi_out" where
  "arrayClear v =
     (if ffi_getType v = ARRAY_TYPE then
        (case get_array (ffi_payload v) of
           None \<Rightarrow> Bad_Variant
         | Some vs \<Rightarrow> Fine (all_frees vs) (with_payload (P_Array []) v))
      else Fine [] v)"

definition objectSize :: "'d ffi \<Rightarrow> nat option" where
  "objectSize v = (if ffi_getType v = OBJECT_TYPE then map_option length (get_object (ffi_payload v)) else Some 0)"

definition objectHas :: "string \<Rightarrow> 'd ffi \<Rightarrow> bool option" where
  "objectHas k v =
     (if ffi_getType v = OBJECT_TYPE then map_option (\<lambda>kvs. map_of kvs k \<noteq> None) (get_object (ffi_payload v))
      else Some False)"

definition objectGet :: "string \<Rightarrow> 'd ffi \<Rightarrow> 'd ffi option" where
  "objectGet k v =
     (if ffi_getType v = OBJECT_TYPE then
        map_option (\<lambda>kvs. case map_of kvs k of None \<Rightarrow> ffi_undefined | Some x \<Rightarrow> ffi_copy x)
          (get_object (ffi_payload v))
      else Some ffi_undefined)"

definition entry_frees :: "string \<Rightarrow> (string \<times> 'd ffi) list \<Rightarrow> cleanup_event list" where
  "entry_frees k kvs = (case map_of kvs k of None \<Rightarrow> [] | Some x \<Rightarrow> ffi_frees x)"

definition objectSet :: "string \<Rightarrow> 'd ffi \<Rightarrow> 'd ffi \<Rightarrow> 'd ffi ffi_out" where
  "objectSet k x v =
     (let (fs, v1) = to_object v
      in case get_object (ffi_payload v1) of
           None \<Rightarrow> Bad_Variant
         | Some kvs \<Rightarrow>
             Fine (fs @ entry_frees k kvs) (with_payload (P_Object (AList.update k (ffi_copy x) kvs)) v1))"

definition objectRemove :: "string \<Rightarrow> 'd ffi \<Rightarrow> 'd ffi ffi_out" where
  "objectRemove k v =
     (if ffi_getType v = OBJECT_TYPE then
        (case get_object (ffi_payload v) of
           None \<Rightarrow> Bad_Variant
         | Some kvs \<Rightarrow> Fine (entry_frees k kvs) (with_payload (P_Object (AList.delete k kvs)) v))
      else Fine [] v)"

definition objectKeys :: "'d ffi \<Rightarrow> string list option" where
  "objectKeys v = (if ffi_getType v = OBJECT_TYPE then map_option (map fst) (get_object (ffi_payload v)) else Some [])"

definition objectClear :: "'d ffi \<Rightarrow> 'd ffi ffi_out" where
  "objectClear v =
     (if ffi_getType v = OBJECT_TYPE then
        (case get_object (ffi_payload v) of
           None \<Rightarrow> Bad_Variant
         | Some kvs \<Rightarrow> Fine (all_frees (map snd kvs)) (with_payload (P_Object []) v))
      else Fine [] v)"

definition asArray_ref :: "'d ffi \<Rightarrow> 'd ffi ffi_out" where
  "asArray_ref v =
     (let (fs, v1) = to_array v in if get_array (ffi_payload v1) = None then Bad_Variant else Fine fs v1)"

definition asObject_ref :: "'d ffi \<Rightarrow> 'd ffi ffi_out" where
  "asObject_ref v =
     (let (fs, v1) = to_object v in if get_object (ffi_payload v1) = None then Bad_Variant else Fine fs v1)"

definition setPointerOwnership :: "bool \<Rightarrow> 'd ffi \<Rightarrow> 'd ffi" where
  "setPointerOwnership b v =
     FFI (ffi_getType v) (ffi_payload v) (ffi_pointer_name v) b (ffi_callback v) (ffi_message v)"

definition createArray :: "nat \<Rightarrow> 'd ffi" where
  "createArray n = ffi_of_vector (replicate n ffi_undefined)"

definition createObject :: "'d ffi" where
  "createObject = ffi_of_map []"

definition createBinaryData :: "8 word list option \<Rightarrow> nat \<Rightarrow> 'd ffi" where
  "createBinaryData d n =
     ffi_make BINARY_TYPE (P_Binary (case d of None \<Rightarrow> replicate n 0 | Some bs \<Rightarrow> take n bs))"

section \<open>Equality\<close>

text \<open>The comparison of two vectors of the same size, and of two maps: every entry of the left one has
  an equal entry in the right one. Both stop at the first difference. None is an exception.\<close>

fun elements_equal :: "('d ffi \<Rightarrow> bool option) list \<Rightarrow> 'd ffi list \<Rightarrow> bool option" where
  "elements_equal (f # fs) (w # ws) =
     (case f w of None \<Rightarrow> None | Some False \<Rightarrow> Some False | Some True \<Rightarrow> elements_equal fs ws)"
| "elements_equal fs ws = Some True"

fun entries_equal :: "(string \<times> ('d ffi \<Rightarrow> bool option)) list \<Rightarrow> (string \<times> 'd ffi) list \<Rightarrow> bool option" where
  "entries_equal [] kws = Some True"
| "entries_equal ((k, f) # kfs) kws =
     (case map_of kws k of
        None \<Rightarrow> Some False
      | Some w \<Rightarrow>
          (case f w of None \<Rightarrow> None | Some False \<Rightarrow> Some False | Some True \<Rightarrow> entries_equal kfs kws))"

definition both :: "('a \<Rightarrow> 'a \<Rightarrow> bool) \<Rightarrow> 'a option \<Rightarrow> 'a option \<Rightarrow> bool option" where
  "both eq x y = (case (x, y) of (Some a, Some b) \<Rightarrow> Some (eq a b) | _ \<Rightarrow> None)"

definition tagged_equal :: "'d float_ops \<Rightarrow> ffi_type \<Rightarrow> 'd payload \<Rightarrow> ('d payload \<Rightarrow> bool option) \<Rightarrow> 'd ffi \<Rightarrow> bool option" where
  "tagged_equal fo t p deep other =
     (let q = ffi_payload other
      in if t \<noteq> ffi_getType other then Some False
         else case t of
           BOOLEAN_TYPE \<Rightarrow> both (=) (get_bool p) (get_bool q)
         | INTEGER_TYPE \<Rightarrow> both (=) (get_int p) (get_int q)
         | FLOAT_TYPE \<Rightarrow> both (fl_equal fo) (get_double p) (get_double q)
         | STRING_TYPE \<Rightarrow> both (=) (get_string p) (get_string q)
         | ARRAY_TYPE \<Rightarrow> deep q
         | OBJECT_TYPE \<Rightarrow> deep q
         | POINTER_TYPE \<Rightarrow> both (=) (get_pointer p) (get_pointer q)
         | BINARY_TYPE \<Rightarrow> both (=) (get_binary p) (get_binary q)
         | _ \<Rightarrow> Some True)"

definition arrays_equal :: "('d ffi \<Rightarrow> bool option) list \<Rightarrow> 'd payload \<Rightarrow> bool option" where
  "arrays_equal fs q =
     (case get_array q of None \<Rightarrow> None | Some ws \<Rightarrow> if length fs \<noteq> length ws then Some False else elements_equal fs ws)"

definition objects_equal :: "(string \<times> ('d ffi \<Rightarrow> bool option)) list \<Rightarrow> 'd payload \<Rightarrow> bool option" where
  "objects_equal kfs q =
     (case get_object q of None \<Rightarrow> None | Some kws \<Rightarrow> if length kfs \<noteq> length kws then Some False else entries_equal kfs kws)"

primrec ffi_equal :: "'d float_ops \<Rightarrow> 'd ffi \<Rightarrow> 'd ffi \<Rightarrow> bool option"
  and payload_equal :: "'d float_ops \<Rightarrow> 'd payload \<Rightarrow> 'd payload \<Rightarrow> bool option" where
  "ffi_equal fo (FFI t p n w c e) = tagged_equal fo t p (payload_equal fo p)"
| "payload_equal fo P_None = (\<lambda>q. None)"
| "payload_equal fo (P_Bool b) = (\<lambda>q. None)"
| "payload_equal fo (P_Int i) = (\<lambda>q. None)"
| "payload_equal fo (P_Double d) = (\<lambda>q. None)"
| "payload_equal fo (P_String s) = (\<lambda>q. None)"
| "payload_equal fo (P_Array vs) = arrays_equal (map (ffi_equal fo) vs)"
| "payload_equal fo (P_Object kvs) = objects_equal (map (map_prod id (ffi_equal fo)) kvs)"
| "payload_equal fo (P_Pointer a) = (\<lambda>q. None)"
| "payload_equal fo (P_Binary bs) = (\<lambda>q. None)"

end
