(* ===== verification/Tocin_Ffi_Store.thy ===== *)
theory Tocin_Ffi_Store
  imports Tocin_Ffi_Value
begin

text \<open>
  Programs over values of \<open>FFIValue\<close>: the type tag always fits the content, so that no \<open>std::get\<close>
  throws, in destructors, extractions and comparisons too, and an address is given to \<open>free\<close> at most as
  often as somebody made a value its owner.
\<close>

section \<open>Tag and content\<close>

definition fits :: "ffi_type \<Rightarrow> 'd payload \<Rightarrow> bool" where
  "fits t p \<longleftrightarrow>
     (case t of
        UNDEFINED_TYPE \<Rightarrow> True | NULL_TYPE \<Rightarrow> True
      | BOOLEAN_TYPE \<Rightarrow> get_bool p \<noteq> None | INTEGER_TYPE \<Rightarrow> get_int p \<noteq> None
      | FLOAT_TYPE \<Rightarrow> get_double p \<noteq> None | STRING_TYPE \<Rightarrow> get_string p \<noteq> None
      | ARRAY_TYPE \<Rightarrow> get_array p \<noteq> None | OBJECT_TYPE \<Rightarrow> get_object p \<noteq> None
      | FUNCTION_TYPE \<Rightarrow> False
      | POINTER_TYPE \<Rightarrow> get_pointer p \<noteq> None | BINARY_TYPE \<Rightarrow> get_binary p \<noteq> None)"

text \<open>Tag and content fit everywhere in the value, and the keys of an object are distinct.\<close>

primrec ffi_ok :: "'d ffi \<Rightarrow> bool" and payload_ok :: "'d payload \<Rightarrow> bool" where
  "ffi_ok (FFI t p n w c e) = (fits t p \<and> payload_ok p)"
| "payload_ok P_None = True"
| "payload_ok (P_Bool b) = True"
| "payload_ok (P_Int i) = True"
| "payload_ok (P_Double d) = True"
| "payload_ok (P_String s) = True"
| "payload_ok (P_Array vs) = list_all id (map ffi_ok vs)"
| "payload_ok (P_Object kvs) = (distinct (map fst kvs) \<and> list_all id (map snd (map (map_prod id ffi_ok) kvs)))"
| "payload_ok (P_Pointer a) = True"
| "payload_ok (P_Binary bs) = True"

lemma list_all_id_map: "list_all id (map f xs) = (\<forall>x \<in> set xs. f x)"
  by (induction xs) auto

lemma payload_ok_containers [simp]:
  "payload_ok (P_Array vs) = (\<forall>v \<in> set vs. ffi_ok v)"
  "payload_ok (P_Object kvs) = (distinct (map fst kvs) \<and> (\<forall>(k, v) \<in> set kvs. ffi_ok v))"
  by (auto simp: list_all_id_map)

declare payload_ok.simps(6,7) [simp del]

lemma ffi_ok_sel: "ffi_ok v = (fits (ffi_getType v) (ffi_payload v) \<and> payload_ok (ffi_payload v))"
  by (cases v) simp

lemma fits_simps [simp]:
  "fits UNDEFINED_TYPE p" "fits NULL_TYPE p" "fits ARRAY_TYPE (P_Array vs)" "fits OBJECT_TYPE (P_Object kvs)"
  "\<not> fits FUNCTION_TYPE p"
  by (simp_all add: fits_def payload_gets)

lemma fits_array: "fits ARRAY_TYPE p \<Longrightarrow> \<exists>vs. p = P_Array vs"
  by (auto simp: fits_def payload_gets split: payload.splits)

lemma fits_object: "fits OBJECT_TYPE p \<Longrightarrow> \<exists>kvs. p = P_Object kvs"
  by (auto simp: fits_def payload_gets split: payload.splits)

lemma fits_copy: "fits t p \<Longrightarrow> fits t (payload_copy p)"
  by (cases t; cases p) (simp_all add: fits_def payload_gets)

lemma copy_ok:
  fixes v :: "'d ffi" and p :: "'d payload"
  shows "ffi_ok v \<Longrightarrow> ffi_ok (ffi_copy v)" "payload_ok p \<Longrightarrow> payload_ok (payload_copy p)"
proof (induction v and p)
  case (P_Object kvs)
  then show ?case by (force simp: comp_def split: prod.splits)
qed (auto simp: fits_copy)

section \<open>Owned pointers\<close>

lemma copy_frees [simp]:
  fixes v :: "'d ffi" and p :: "'d payload"
  shows "ffi_frees (ffi_copy v) = []" "payload_frees (payload_copy p) = []"
  by (induction v and p) (force simp: own_free_def)+

lemma frees_undefined [simp]: "ffi_frees ffi_undefined = []" "ffi_ok ffi_undefined" "payload_frees P_None = []"
  by (simp_all add: ffi_undefined_def ffi_make_def own_free_def)

lemma frees_array [simp]: "payload_frees (P_Array vs) = all_frees vs"
  by (simp add: all_frees_def)

lemma frees_object [simp]: "payload_frees (P_Object kvs) = all_frees (map snd kvs)"
  by (simp add: all_frees_def comp_def)

declare payload_frees.simps(6,7) [simp del]

lemma all_frees_simps [simp]:
  "all_frees [] = []" "all_frees (v # vs) = ffi_frees v @ all_frees vs"
  "all_frees (vs @ ws) = all_frees vs @ all_frees ws" "all_frees (replicate n ffi_undefined) = []"
  by (auto simp: all_frees_def)

lemma frees_sel: "ffi_frees v = own_free (ffi_getType v) (ffi_payload v) (ffi_owned v) @ payload_frees (ffi_payload v)"
  by (cases v) simp

lemma all_frees_update:
  "i < length vs \<Longrightarrow> mset (all_frees (vs[i := v])) + mset (ffi_frees (vs ! i)) = mset (all_frees vs) + mset (ffi_frees v)"
proof (induction vs arbitrary: i)
  case (Cons w vs)
  then show ?case by (cases i) (auto simp: algebra_simps)
qed simp

lemma all_frees_alist_update:
  "mset (all_frees (map snd (AList.update k v kvs))) + mset (entry_frees k kvs)
   = mset (all_frees (map snd kvs)) + mset (ffi_frees v)"
  by (induction kvs) (auto simp: entry_frees_def algebra_simps)

lemma all_frees_alist_delete:
  "distinct (map fst kvs) \<Longrightarrow>
   mset (all_frees (map snd (AList.delete k kvs))) + mset (entry_frees k kvs) = mset (all_frees (map snd kvs))"
proof (induction kvs)
  case (Cons kv kvs)
  have "k \<notin> set (map fst kvs) \<Longrightarrow> AList.delete k kvs = kvs"
    by (induction kvs) auto
  then show ?case using Cons by (cases kv) (auto simp: entry_frees_def algebra_simps)
qed (simp add: entry_frees_def)

text \<open>What an operation may do to a value: its content stays well formed, and what it frees and what
  the new value owns was owned before.\<close>

definition sound :: "'d ffi \<Rightarrow> 'd ffi ffi_out \<Rightarrow> bool" where
  "sound v r \<longleftrightarrow>
     (case r of
        Fine fs w \<Rightarrow> ffi_ok w \<and> mset fs + mset (ffi_frees w) \<subseteq># mset (ffi_frees v)
      | Bad_Variant \<Rightarrow> False
      | Out_Of_Bounds \<Rightarrow> True)"

lemma own_free_array [simp]: "own_free ARRAY_TYPE p w = []" "own_free OBJECT_TYPE p w = []"
  by (simp_all add: own_free_def)

lemma to_array_array:
  assumes "ffi_ok v"
  shows "\<exists>fs vs. to_array v = (fs, retype ARRAY_TYPE (P_Array vs) v) \<and> (\<forall>x \<in> set vs. ffi_ok x)
     \<and> mset fs + mset (all_frees vs) \<subseteq># mset (ffi_frees v)"
proof (cases "ffi_getType v = ARRAY_TYPE")
  case True
  then obtain vs where "ffi_payload v = P_Array vs" "\<forall>x \<in> set vs. ffi_ok x"
    using assms fits_array [of "ffi_payload v"] by (auto simp: ffi_ok_sel [of v])
  moreover have "retype (ffi_getType v) (ffi_payload v) v = v" by (cases v) (simp add: retype_def)
  ultimately show ?thesis
    using True by (intro exI [of _ "[]"] exI [of _ vs]) (simp add: to_array_def frees_sel)
qed (auto simp: to_array_def frees_sel)

lemma to_object_object:
  assumes "ffi_ok v"
  shows "\<exists>fs kvs. to_object v = (fs, retype OBJECT_TYPE (P_Object kvs) v) \<and> distinct (map fst kvs) \<and> (\<forall>(k, x) \<in> set kvs. ffi_ok x)
     \<and> mset fs + mset (all_frees (map snd kvs)) \<subseteq># mset (ffi_frees v)"
proof (cases "ffi_getType v = OBJECT_TYPE")
  case True
  then obtain kvs where "ffi_payload v = P_Object kvs" "distinct (map fst kvs)" "\<forall>(k, x) \<in> set kvs. ffi_ok x"
    using assms fits_object [of "ffi_payload v"] by (auto simp: ffi_ok_sel [of v])
  moreover have "retype (ffi_getType v) (ffi_payload v) v = v" by (cases v) (simp add: retype_def)
  ultimately show ?thesis
    using True by (intro exI [of _ "[]"] exI [of _ kvs]) (simp add: to_object_def frees_sel)
qed (auto simp: to_object_def frees_sel)

lemma retype_ok [simp]:
  "ffi_ok (retype ARRAY_TYPE (P_Array vs) v) = (\<forall>x \<in> set vs. ffi_ok x)"
  "ffi_ok (retype OBJECT_TYPE (P_Object kvs) v) = (distinct (map fst kvs) \<and> (\<forall>(k, x) \<in> set kvs. ffi_ok x))"
  "ffi_frees (retype ARRAY_TYPE (P_Array vs) v) = all_frees vs"
  "ffi_frees (retype OBJECT_TYPE (P_Object kvs) v) = all_frees (map snd kvs)"
  "with_payload p (retype t q v) = retype t p v" "ffi_payload (retype t p v) = p"
  by (simp_all add: retype_def with_payload_def)


text \<open>The result of an operation together with what it does to the value.\<close>

lemma take_drop_frees: "mset (all_frees (take n vs)) + mset (all_frees (drop n vs)) = mset (all_frees vs)"
  using all_frees_simps(3) [of "take n vs" "drop n vs"] by (metis append_take_drop_id mset_append)

lemma resize_sound:
  "\<forall>x \<in> set vs. ffi_ok x \<Longrightarrow> \<forall>x \<in> set (resize n vs). ffi_ok x"
  "mset (all_frees (resize n vs)) + mset (all_frees (drop n vs)) = mset (all_frees vs)"
  "length (resize n vs) = n"
  by (auto simp: resize_def take_drop_frees dest: in_set_takeD)

lemma arraySet_sound: assumes "ffi_ok v" "ffi_ok x" shows "sound v (arraySet i x v)"
proof -
  obtain fs vs where v: "to_array v = (fs, retype ARRAY_TYPE (P_Array vs) v)" "\<forall>x \<in> set vs. ffi_ok x"
    "mset fs + mset (all_frees vs) \<subseteq># mset (ffi_frees v)"
    using to_array_array [OF assms(1)] by blast
  define ws where "ws = (if unat i \<ge> length vs then resize (unat (i + 1)) vs else vs)"
  define gs where "gs = (if unat i \<ge> length vs then all_frees (drop (unat (i + 1)) vs) else [])"
  have ws: "\<forall>x \<in> set ws. ffi_ok x" "mset (all_frees ws) + mset gs = mset (all_frees vs)"
    using resize_sound v(2) by (auto simp: ws_def gs_def)
  have r: "arraySet i x v = (if unat i < length ws then
      Fine (fs @ gs @ ffi_frees (ws ! unat i)) (retype ARRAY_TYPE (P_Array (ws[unat i := ffi_copy x])) v) else Out_Of_Bounds)"
    by (simp add: arraySet_def v(1) get_array_def Let_def ws_def gs_def)
  have "mset fs + (mset gs + (mset (all_frees (ws[unat i := ffi_copy x])) + mset (ffi_frees (ws ! unat i)))) \<subseteq># mset (ffi_frees v)"
    if "unat i < length ws"
    using v(3) ws(2) all_frees_update [OF that, of "ffi_copy x"] by (simp add: ac_simps)
  then show ?thesis
    using ws(1) copy_ok(1) [OF assms(2)] by (auto simp: r sound_def ac_simps dest!: set_update_subset_insert [THEN subsetD])
qed

lemma arrayPush_sound: assumes "ffi_ok v" "ffi_ok x" shows "sound v (arrayPush x v)"
proof -
  obtain fs vs where v: "to_array v = (fs, retype ARRAY_TYPE (P_Array vs) v)" "\<forall>x \<in> set vs. ffi_ok x"
    "mset fs + mset (all_frees vs) \<subseteq># mset (ffi_frees v)"
    using to_array_array [OF assms(1)] by blast
  then show ?thesis
    using copy_ok(1) [OF assms(2)] by (auto simp: sound_def arrayPush_def get_array_def)
qed

lemma objectSet_sound: assumes "ffi_ok v" "ffi_ok x" shows "sound v (objectSet k x v)"
proof -
  obtain fs kvs where v: "to_object v = (fs, retype OBJECT_TYPE (P_Object kvs) v)" "distinct (map fst kvs)"
    "\<forall>(k, x) \<in> set kvs. ffi_ok x" "mset fs + mset (all_frees (map snd kvs)) \<subseteq># mset (ffi_frees v)"
    using to_object_object [OF assms(1)] by blast
  have "mset fs + (mset (all_frees (map snd (AList.update k (ffi_copy x) kvs))) + mset (entry_frees k kvs)) \<subseteq># mset (ffi_frees v)"
    using v(4) by (simp add: all_frees_alist_update)
  moreover have "\<forall>(k', y) \<in> set (AList.update k (ffi_copy x) kvs). ffi_ok y"
    using v(3) copy_ok(1) [OF assms(2)] by (induction kvs) auto
  ultimately show ?thesis
    using v(2) by (auto simp: sound_def objectSet_def v(1) get_object_def distinct_update ac_simps)
qed

lemma array_value:
  assumes "ffi_ok v" "ffi_getType v = ARRAY_TYPE"
  obtains vs where "ffi_payload v = P_Array vs" "\<forall>x \<in> set vs. ffi_ok x" "ffi_frees v = all_frees vs"
    "\<forall>p. with_payload p v = retype ARRAY_TYPE p v"
  using assms fits_array [of "ffi_payload v"]
  by (auto simp: ffi_ok_sel [of v] frees_sel with_payload_def retype_def)

lemma object_value:
  assumes "ffi_ok v" "ffi_getType v = OBJECT_TYPE"
  obtains kvs where "ffi_payload v = P_Object kvs" "distinct (map fst kvs)" "\<forall>(k, x) \<in> set kvs. ffi_ok x"
    "ffi_frees v = all_frees (map snd kvs)" "\<forall>p. with_payload p v = retype OBJECT_TYPE p v"
  using assms fits_object [of "ffi_payload v"]
  by (auto simp: ffi_ok_sel [of v] frees_sel with_payload_def retype_def)

lemma arrayPop_sound:
  assumes "ffi_ok v"
  obtains fs x w where "arrayPop v = Fine fs (x, w)" "ffi_ok x" "ffi_frees x = []" "sound v (Fine fs w)"
proof (cases "ffi_getType v = ARRAY_TYPE")
  case True
  obtain vs where v: "ffi_payload v = P_Array vs" "\<forall>x \<in> set vs. ffi_ok x" "ffi_frees v = all_frees vs"
    "\<forall>p. with_payload p v = retype ARRAY_TYPE p v"
    by (rule array_value [OF assms True])
  show ?thesis
  proof (cases vs rule: rev_cases)
    case Nil
    then show ?thesis
      using True v assms that [of "[]" ffi_undefined v] by (simp add: arrayPop_def get_array_def sound_def)
  next
    case (snoc ws w)
    then show ?thesis
      using True v copy_ok(1) [of w] that [of "ffi_frees w" "ffi_copy w" "retype ARRAY_TYPE (P_Array ws) v"]
      by (simp add: arrayPop_def get_array_def sound_def)
  qed
next
  case False
  then show ?thesis
    using assms that [of "[]" ffi_undefined v] by (simp add: arrayPop_def sound_def)
qed

lemma arrayClear_sound: assumes "ffi_ok v" shows "sound v (arrayClear v)"
proof (cases "ffi_getType v = ARRAY_TYPE")
  case True
  obtain vs where v: "ffi_payload v = P_Array vs" "\<forall>x \<in> set vs. ffi_ok x" "ffi_frees v = all_frees vs"
    "\<forall>p. with_payload p v = retype ARRAY_TYPE p v"
    by (rule array_value [OF assms True])
  then show ?thesis
    using True by (simp add: arrayClear_def get_array_def sound_def)
qed (simp add: arrayClear_def sound_def assms)

lemma objectClear_sound: assumes "ffi_ok v" shows "sound v (objectClear v)"
proof (cases "ffi_getType v = OBJECT_TYPE")
  case True
  obtain kvs where v: "ffi_payload v = P_Object kvs" "distinct (map fst kvs)" "\<forall>(k, x) \<in> set kvs. ffi_ok x"
    "ffi_frees v = all_frees (map snd kvs)" "\<forall>p. with_payload p v = retype OBJECT_TYPE p v"
    by (rule object_value [OF assms True])
  then show ?thesis
    using True by (simp add: objectClear_def get_object_def sound_def)
qed (simp add: objectClear_def sound_def assms)

lemma objectRemove_sound: assumes "ffi_ok v" shows "sound v (objectRemove k v)"
proof (cases "ffi_getType v = OBJECT_TYPE")
  case True
  obtain kvs where v: "ffi_payload v = P_Object kvs" "distinct (map fst kvs)" "\<forall>(k, x) \<in> set kvs. ffi_ok x"
    "ffi_frees v = all_frees (map snd kvs)" "\<forall>p. with_payload p v = retype OBJECT_TYPE p v"
    by (rule object_value [OF assms True])
  have "\<forall>(k', x) \<in> set (AList.delete k kvs). ffi_ok x"
    using v(3) by (auto simp: AList.delete_eq)
  then show ?thesis
    using True v all_frees_alist_delete [OF v(2), of k]
    by (auto simp: objectRemove_def get_object_def sound_def distinct_delete ac_simps)
qed (simp add: objectRemove_def sound_def assms)

lemma asArray_ref_sound: "ffi_ok v \<Longrightarrow> sound v (asArray_ref v)"
  using to_array_array [of v] by (auto simp: asArray_ref_def get_array_def sound_def)

lemma asObject_ref_sound: "ffi_ok v \<Longrightarrow> sound v (asObject_ref v)"
  using to_object_object [of v] by (auto simp: asObject_ref_def get_object_def sound_def)

lemma arrayGet_ok: assumes "ffi_ok v" obtains x where "arrayGet i v = Some x" "ffi_ok x" "ffi_frees x = []"
proof (cases "ffi_getType v = ARRAY_TYPE")
  case True
  obtain vs where v: "ffi_payload v = P_Array vs" "\<forall>x \<in> set vs. ffi_ok x" "ffi_frees v = all_frees vs"
    "\<forall>p. with_payload p v = retype ARRAY_TYPE p v"
    by (rule array_value [OF assms True])
  show ?thesis
  proof (cases "unat i < length vs")
    case in_range: True
    then have "ffi_ok (ffi_copy (vs ! unat i))" using v(2) by (intro copy_ok(1)) auto
    then show ?thesis
      using in_range True v that [of "ffi_copy (vs ! unat i)"] by (simp add: arrayGet_def get_array_def)
  next
    case False
    then show ?thesis
      using True v that [of ffi_undefined] by (simp add: arrayGet_def get_array_def)
  qed
qed (use that in \<open>simp add: arrayGet_def\<close>)

lemma objectGet_ok: assumes "ffi_ok v" obtains x where "objectGet k v = Some x" "ffi_ok x" "ffi_frees x = []"
proof (cases "ffi_getType v = OBJECT_TYPE")
  case True
  obtain kvs where v: "ffi_payload v = P_Object kvs" "distinct (map fst kvs)" "\<forall>(k, x) \<in> set kvs. ffi_ok x"
    "ffi_frees v = all_frees (map snd kvs)" "\<forall>p. with_payload p v = retype OBJECT_TYPE p v"
    by (rule object_value [OF assms True])
  show ?thesis
  proof (cases "map_of kvs k")
    case None
    then show ?thesis using True v that [of ffi_undefined] by (simp add: objectGet_def get_object_def)
  next
    case (Some x)
    then have "ffi_ok (ffi_copy x)" using v(3) map_of_SomeD [of kvs k x] by (intro copy_ok(1)) auto
    then show ?thesis
      using Some True v that [of "ffi_copy x"] by (simp add: objectGet_def get_object_def)
  qed
qed (use that in \<open>simp add: objectGet_def\<close>)


section \<open>Programs\<close>

text \<open>Variables are numbers into a list, a destroyed one is None. A value is made by one of the
  constructors from another type; each operation is one statement of a client. The operand of a changing
  operation is another variable than the one that changes, except in assignments; an operation on a variable that does not
  exist does nothing. \<open>granted\<close> counts the addresses that a pointer value became the owner of through \<open>setPointerOwnership\<close>.\<close>

datatype getter =
    As_Boolean | As_Int32 | As_Int64 | As_Float | As_Double | As_String | As_Pointer | As_Binary_Data | As_Const_Array
  | As_Const_Object | Array_Size | Object_Size | Object_Has string | Object_Keys

datatype 'd ffi_op =
    Make_Undefined | Make_Null | Make_Bool bool | Make_Int "64 word" | Make_Double 'd | Make_String string
  | Make_Pointer nat string | Make_Array nat | Make_Object | Make_Binary "8 word list option" nat
  | Make_Vector "nat list" | Make_Map "(string \<times> nat) list"
  | Copy_Of nat | Move_Of nat | Assign_Copy nat nat | Assign_Move nat nat | Destroy nat
  | Own_Pointer nat bool
  | Array_Set nat "64 word" nat | Array_Push nat nat | Array_Pop nat | Array_Get nat "64 word" | Array_Clear nat
  | Object_Set nat string nat | Object_Get nat string | Object_Remove nat string | Object_Clear nat
  | As_Array nat | As_Object nat | Extract nat getter | Compare nat nat

record 'd ffi_state =
  ffi_vars :: "'d ffi option list"
  ffi_freed :: "cleanup_event multiset"
  ffi_granted :: "nat multiset"

definition ffi_start :: "'d ffi_state" where
  "ffi_start = \<lparr>ffi_vars = [], ffi_freed = {#}, ffi_granted = {#}\<rparr>"

datatype 'd ffi_run = Goes_On "'d ffi_state" | Throws_Bad_Access | Writes_Outside

definition var :: "'d ffi_state \<Rightarrow> nat \<Rightarrow> 'd ffi option" where
  "var s x = (if x < length (ffi_vars s) then ffi_vars s ! x else None)"

definition add_var :: "'d ffi \<Rightarrow> 'd ffi_state \<Rightarrow> 'd ffi_state" where
  "add_var v s = s\<lparr>ffi_vars := ffi_vars s @ [Some v]\<rparr>"

definition put_var :: "nat \<Rightarrow> 'd ffi option \<Rightarrow> cleanup_event list \<Rightarrow> 'd ffi_state \<Rightarrow> 'd ffi_state" where
  "put_var x w fs s = s\<lparr>ffi_vars := (ffi_vars s)[x := w], ffi_freed := ffi_freed s + mset fs\<rparr>"

text \<open>The program goes on after a cleanup in which nothing threw.\<close>

definition cleaned_up :: "cleanup_event list \<Rightarrow> 'd ffi_state \<Rightarrow> 'd ffi_run" where
  "cleaned_up fs s = (if Get_Throws \<in> set fs then Throws_Bad_Access else Goes_On s)"

definition change :: "nat \<Rightarrow> ('d ffi \<Rightarrow> 'd ffi ffi_out) \<Rightarrow> 'd ffi_state \<Rightarrow> 'd ffi_run" where
  "change x f s =
     (case var s x of
        None \<Rightarrow> Goes_On s
      | Some v \<Rightarrow>
          (case f v of
             Fine fs w \<Rightarrow> cleaned_up fs (put_var x (Some w) fs s)
           | Bad_Variant \<Rightarrow> Throws_Bad_Access
           | Out_Of_Bounds \<Rightarrow> Writes_Outside))"

definition change_with :: "nat \<Rightarrow> nat \<Rightarrow> ('d ffi \<Rightarrow> 'd ffi \<Rightarrow> 'd ffi ffi_out) \<Rightarrow> 'd ffi_state \<Rightarrow> 'd ffi_run" where
  "change_with x y f s = (case var s y of Some w \<Rightarrow> if x \<noteq> y then change x (f w) s else Goes_On s | None \<Rightarrow> Goes_On s)"

definition read_into :: "nat \<Rightarrow> ('d ffi \<Rightarrow> 'd ffi option) \<Rightarrow> 'd ffi_state \<Rightarrow> 'd ffi_run" where
  "read_into x f s =
     (case var s x of
        None \<Rightarrow> Goes_On s
      | Some v \<Rightarrow> (case f v of None \<Rightarrow> Throws_Bad_Access | Some w \<Rightarrow> Goes_On (add_var w s)))"

text \<open>\<open>setPointerOwnership(b)\<close> on a value that owns nothing makes it the owner of the address it holds.\<close>

definition grants :: "bool \<Rightarrow> 'd ffi \<Rightarrow> nat multiset" where
  "grants b v =
     (if b \<and> \<not> ffi_owned v \<and> ffi_getType v = POINTER_TYPE then
        (case ffi_payload v of P_Pointer a \<Rightarrow> {#a#} | _ \<Rightarrow> {#})
      else {#})"

definition get_value :: "'d float_ops \<Rightarrow> ('d \<Rightarrow> 'f) \<Rightarrow> 'f float_ops \<Rightarrow> getter \<Rightarrow> 'd ffi \<Rightarrow> unit option" where
  "get_value fo single so g v =
     (case g of
        As_Boolean \<Rightarrow> map_option (\<lambda>_. ()) (asBoolean fo v)
      | As_Int32 \<Rightarrow> map_option (\<lambda>_. ()) (asInt32 fo v)
      | As_Int64 \<Rightarrow> map_option (\<lambda>_. ()) (asInt64 fo v)
      | As_Float \<Rightarrow> map_option (\<lambda>_. ()) (asFloat single so v)
      | As_Double \<Rightarrow> map_option (\<lambda>_. ()) (asDouble fo v)
      | As_String \<Rightarrow> map_option (\<lambda>_. ()) (asString fo v)
      | As_Pointer \<Rightarrow> map_option (\<lambda>_. ()) (asPointer v)
      | As_Binary_Data \<Rightarrow> map_option (\<lambda>_. ()) (asBinaryData v)
      | As_Const_Array \<Rightarrow> map_option (\<lambda>_. ()) (asArray v)
      | As_Const_Object \<Rightarrow> map_option (\<lambda>_. ()) (asObject v)
      | Array_Size \<Rightarrow> map_option (\<lambda>_. ()) (arraySize v)
      | Object_Size \<Rightarrow> map_option (\<lambda>_. ()) (objectSize v)
      | Object_Has k \<Rightarrow> map_option (\<lambda>_. ()) (objectHas k v)
      | Object_Keys \<Rightarrow> map_option (\<lambda>_. ()) (objectKeys v))"

definition ask :: "nat \<Rightarrow> ('d ffi \<Rightarrow> 'b option) \<Rightarrow> 'd ffi_state \<Rightarrow> 'd ffi_run" where
  "ask x f s =
     (case var s x of
        None \<Rightarrow> Goes_On s
      | Some v \<Rightarrow> (case f v of None \<Rightarrow> Throws_Bad_Access | Some _ \<Rightarrow> Goes_On s))"

primrec ffi_step :: "'d float_ops \<Rightarrow> ('d \<Rightarrow> 'f) \<Rightarrow> 'f float_ops \<Rightarrow> 'd ffi_op \<Rightarrow> 'd ffi_state \<Rightarrow> 'd ffi_run" where
  "ffi_step fo single so Make_Undefined s = Goes_On (add_var ffi_undefined s)"
| "ffi_step fo single so Make_Null s = Goes_On (add_var ffi_createNull s)"
| "ffi_step fo single so (Make_Bool b) s = Goes_On (add_var (ffi_make BOOLEAN_TYPE (P_Bool b)) s)"
| "ffi_step fo single so (Make_Int i) s = Goes_On (add_var (ffi_make INTEGER_TYPE (P_Int i)) s)"
| "ffi_step fo single so (Make_Double d) s = Goes_On (add_var (ffi_make FLOAT_TYPE (P_Double d)) s)"
| "ffi_step fo single so (Make_String t) s = Goes_On (add_var (ffi_make STRING_TYPE (P_String t)) s)"
| "ffi_step fo single so (Make_Pointer p n) s = Goes_On (add_var (ffi_of_pointer p n) s)"
| "ffi_step fo single so (Make_Array n) s = Goes_On (add_var (createArray n) s)"
| "ffi_step fo single so Make_Object s = Goes_On (add_var createObject s)"
| "ffi_step fo single so (Make_Binary d n) s = Goes_On (add_var (createBinaryData d n) s)"
| "ffi_step fo single so (Make_Vector xs) s = Goes_On (add_var (ffi_of_vector (List.map_filter (var s) xs)) s)"
| "ffi_step fo single so (Make_Map kxs) s =
     Goes_On (add_var (ffi_of_map (AList.clearjunk (List.map_filter (\<lambda>(k, x). map_option (Pair k) (var s x)) kxs))) s)"
| "ffi_step fo single so (Copy_Of x) s = read_into x (\<lambda>v. Some (ffi_copy v)) s"
| "ffi_step fo single so (Move_Of x) s =
     (case var s x of
        None \<Rightarrow> Goes_On s
      | Some v \<Rightarrow> Goes_On (add_var (fst (ffi_move v)) (put_var x (Some (snd (ffi_move v))) [] s)))"
| "ffi_step fo single so (Assign_Copy x y) s =
     (case (var s x, var s y) of
        (Some v, Some w) \<Rightarrow>
          (let (fs, u) = ffi_assign (x = y) w v in cleaned_up fs (put_var x (Some u) fs s))
      | _ \<Rightarrow> Goes_On s)"
| "ffi_step fo single so (Assign_Move x y) s =
     (case (var s x, var s y) of
        (Some v, Some w) \<Rightarrow>
          (let (fs, u, rest) = ffi_assign_move (x = y) w v
           in cleaned_up fs (put_var x (Some u) fs (put_var y (Some rest) [] s)))
      | _ \<Rightarrow> Goes_On s)"
| "ffi_step fo single so (Destroy x) s =
     (case var s x of
        None \<Rightarrow> Goes_On s
      | Some v \<Rightarrow> cleaned_up (ffi_frees v) (put_var x None (ffi_frees v) s))"
| "ffi_step fo single so (Own_Pointer x b) s =
     (case var s x of
        None \<Rightarrow> Goes_On s
      | Some v \<Rightarrow> Goes_On (put_var x (Some (setPointerOwnership b v)) []
                     (s\<lparr>ffi_granted := ffi_granted s + grants b v\<rparr>)))"
| "ffi_step fo single so (Array_Set x i y) s = change_with x y (arraySet i) s"
| "ffi_step fo single so (Array_Push x y) s = change_with x y arrayPush s"
| "ffi_step fo single so (Array_Pop x) s =
     (case var s x of
        None \<Rightarrow> Goes_On s
      | Some v \<Rightarrow>
          (case arrayPop v of
             Fine fs r \<Rightarrow> cleaned_up fs (add_var (fst r) (put_var x (Some (snd r)) fs s))
           | Bad_Variant \<Rightarrow> Throws_Bad_Access
           | Out_Of_Bounds \<Rightarrow> Writes_Outside))"
| "ffi_step fo single so (Array_Get x i) s = read_into x (arrayGet i) s"
| "ffi_step fo single so (Array_Clear x) s = change x arrayClear s"
| "ffi_step fo single so (Object_Set x k y) s = change_with x y (objectSet k) s"
| "ffi_step fo single so (Object_Get x k) s = read_into x (objectGet k) s"
| "ffi_step fo single so (Object_Remove x k) s = change x (objectRemove k) s"
| "ffi_step fo single so (Object_Clear x) s = change x objectClear s"
| "ffi_step fo single so (As_Array x) s = change x asArray_ref s"
| "ffi_step fo single so (As_Object x) s = change x asObject_ref s"
| "ffi_step fo single so (Extract x g) s = ask x (get_value fo single so g) s"
| "ffi_step fo single so (Compare x y) s =
     (case var s y of None \<Rightarrow> Goes_On s | Some w \<Rightarrow> ask x (\<lambda>v. ffi_equal fo v w) s)"

fun ffi_program :: "'d float_ops \<Rightarrow> ('d \<Rightarrow> 'f) \<Rightarrow> 'f float_ops \<Rightarrow> 'd ffi_op list \<Rightarrow> 'd ffi_state \<Rightarrow> 'd ffi_run" where
  "ffi_program fo single so [] s = Goes_On s"
| "ffi_program fo single so (c # cs) s =
     (case ffi_step fo single so c s of Goes_On s1 \<Rightarrow> ffi_program fo single so cs s1 | r \<Rightarrow> r)"

section \<open>No exception and no double free\<close>

definition owned_by :: "'d ffi option list \<Rightarrow> cleanup_event multiset" where
  "owned_by vs = mset (concat (map (\<lambda>v. case v of None \<Rightarrow> [] | Some w \<Rightarrow> ffi_frees w) vs))"

text \<open>\<open>e\<close> is owned by a value that is in no variable at the moment.\<close>

definition state_with :: "cleanup_event multiset \<Rightarrow> 'd ffi_state \<Rightarrow> bool" where
  "state_with e s \<longleftrightarrow> (\<forall>v. Some v \<in> set (ffi_vars s) \<longrightarrow> ffi_ok v)
     \<and> ffi_freed s + owned_by (ffi_vars s) + e \<subseteq># image_mset Frees (ffi_granted s)"

definition state_ok :: "'d ffi_state \<Rightarrow> bool" where
  "state_ok s \<longleftrightarrow> state_with {#} s"

definition run_ok :: "'d ffi_run \<Rightarrow> bool" where
  "run_ok r \<longleftrightarrow> (case r of Goes_On s \<Rightarrow> state_ok s | Throws_Bad_Access \<Rightarrow> False | Writes_Outside \<Rightarrow> True)"

lemma owned_by_add: "owned_by (vs @ [Some v]) = owned_by vs + mset (ffi_frees v)"
  by (simp add: owned_by_def)

lemma owned_by_update:
  "x < length vs \<Longrightarrow> owned_by (vs[x := w]) + owned_by [vs ! x] = owned_by vs + owned_by [w]"
proof (induction vs arbitrary: x)
  case (Cons v vs)
  then show ?case by (cases x) (auto simp: owned_by_def algebra_simps)
qed simp

lemma var_Some: "var s x = Some v \<longleftrightarrow> x < length (ffi_vars s) \<and> ffi_vars s ! x = Some v"
  by (auto simp: var_def)

lemma var_with: "state_with e s \<Longrightarrow> var s x = Some v \<Longrightarrow> ffi_ok v"
  unfolding state_with_def var_Some by (metis nth_mem)

lemma var_ok: "state_ok s \<Longrightarrow> var s x = Some v \<Longrightarrow> ffi_ok v"
  unfolding state_ok_def by (rule var_with)

lemma add_var_with: "state_with (e + mset (ffi_frees v)) s \<Longrightarrow> ffi_ok v \<Longrightarrow> state_with e (add_var v s)"
  by (auto simp: state_with_def add_var_def owned_by_add ac_simps)

lemma add_var_ok: "state_ok s \<Longrightarrow> ffi_ok v \<Longrightarrow> ffi_frees v = [] \<Longrightarrow> state_ok (add_var v s)"
  by (simp add: state_ok_def add_var_with)

lemma put_var_with:
  assumes "state_with e s" "var s x = Some v" "\<forall>u. w = Some u \<longrightarrow> ffi_ok u"
    "mset fs + owned_by [w] + e' \<subseteq># mset (ffi_frees v) + e"
  shows "state_with e' (put_var x w fs s)"
proof -
  have o: "owned_by ((ffi_vars s)[x := w]) + mset (ffi_frees v) = owned_by (ffi_vars s) + owned_by [w]"
    using assms(2) owned_by_update [of x "ffi_vars s" w] by (simp add: var_Some owned_by_def)
  have "ffi_freed s + mset fs + owned_by ((ffi_vars s)[x := w]) + e' + (mset (ffi_frees v) + e)
      = ffi_freed s + owned_by (ffi_vars s) + e + (mset fs + owned_by [w] + e')"
    using o by (simp add: ac_simps)
  also have "\<dots> \<subseteq># image_mset Frees (ffi_granted s) + (mset (ffi_frees v) + e)"
    by (rule subset_mset.add_mono) (use assms(1,4) in \<open>simp_all add: state_with_def\<close>)
  finally have "ffi_freed s + mset fs + owned_by ((ffi_vars s)[x := w]) + e' \<subseteq># image_mset Frees (ffi_granted s)" by simp
  moreover have "\<forall>u. Some u \<in> set ((ffi_vars s)[x := w]) \<longrightarrow> ffi_ok u"
    using assms(1,3) set_update_subset_insert [of "ffi_vars s" x w] by (auto simp: state_with_def)
  ultimately show ?thesis by (simp add: state_with_def put_var_def)
qed

lemma put_var_ok:
  assumes "state_ok s" "var s x = Some v" "\<forall>u. w = Some u \<longrightarrow> ffi_ok u"
    "mset fs + owned_by [w] \<subseteq># mset (ffi_frees v)"
  shows "state_ok (put_var x w fs s)"
  unfolding state_ok_def
  by (rule put_var_with [OF assms(1) [unfolded state_ok_def] assms(2,3)]) (use assms(4) in simp)

text \<open>What was freed had been granted, so nothing threw in a cleanup.\<close>

lemma cleaned_up_ok:
  assumes "state_ok s" "mset fs \<subseteq># ffi_freed s"
  shows "run_ok (cleaned_up fs s)"
proof -
  have "ffi_freed s + owned_by (ffi_vars s) \<subseteq># image_mset Frees (ffi_granted s)"
    using assms(1) by (simp add: state_ok_def state_with_def)
  then have "mset fs \<subseteq># image_mset Frees (ffi_granted s)"
    using assms(2) by (meson mset_subset_eq_add_left subset_mset.order_trans)
  from set_mset_mono [OF this] show ?thesis
    using assms(1) by (auto simp: cleaned_up_def run_ok_def)
qed

lemma put_var_run:
  assumes "state_ok s" "var s x = Some v" "\<forall>u. w = Some u \<longrightarrow> ffi_ok u"
    "mset fs + owned_by [w] \<subseteq># mset (ffi_frees v)"
  shows "run_ok (cleaned_up fs (put_var x w fs s))"
  by (rule cleaned_up_ok [OF put_var_ok [OF assms]]) (simp add: put_var_def)

lemma change_ok:
  assumes "state_ok s" "\<And>v. ffi_ok v \<Longrightarrow> sound v (f v)"
  shows "run_ok (change x f s)"
proof (cases "var s x")
  case (Some v)
  then show ?thesis
    using assms(2) [OF var_ok [OF assms(1) Some]] put_var_run [OF assms(1) Some]
    by (auto simp: change_def sound_def owned_by_def run_ok_def [of Writes_Outside] split: ffi_out.splits)
qed (use assms in \<open>simp add: change_def run_ok_def\<close>)

lemma change_with_ok:
  "state_ok s \<Longrightarrow> (\<And>v w. ffi_ok v \<Longrightarrow> ffi_ok w \<Longrightarrow> sound v (f w v)) \<Longrightarrow> run_ok (change_with x y f s)"
  using var_ok [of s y] change_ok [of s] by (auto simp: change_with_def run_ok_def split: option.split)

lemma read_into_ok:
  "state_ok s \<Longrightarrow> (\<And>v. ffi_ok v \<Longrightarrow> \<exists>w. f v = Some w \<and> ffi_ok w \<and> ffi_frees w = []) \<Longrightarrow> run_ok (read_into x f s)"
  using var_ok [of s x] add_var_ok [of s]
  by (fastforce simp: read_into_def run_ok_def split: option.split)


lemma owned_by_one [simp]: "owned_by [Some v] = mset (ffi_frees v)" "owned_by [None] = {#}"
  by (simp_all add: owned_by_def)

lemma moved: "fst (ffi_move v) = v" "ffi_ok v \<Longrightarrow> ffi_ok (snd (ffi_move v))" "ffi_frees (snd (ffi_move v)) = []"
proof -
  show "fst (ffi_move v) = v" by (simp add: ffi_move_def)
  show "ffi_frees (snd (ffi_move v)) = []"
    by (cases "ffi_payload v") (simp_all add: ffi_move_def moved_payload_def own_free_def)
  show "ffi_ok v \<Longrightarrow> ffi_ok (snd (ffi_move v))"
    by (cases "ffi_payload v") (simp_all add: ffi_move_def moved_payload_def)
qed

lemma constructed_ok:
  "\<forall>v \<in> set vs. ffi_ok v \<Longrightarrow> ffi_ok (ffi_of_vector vs)"
  "distinct (map fst kvs) \<Longrightarrow> \<forall>(k, v) \<in> set kvs. ffi_ok v \<Longrightarrow> ffi_ok (ffi_of_map kvs)"
  "ffi_frees (ffi_of_vector vs) = []" "ffi_frees (ffi_of_map kvs) = []"
  by (auto simp: ffi_of_vector_def ffi_of_map_def ffi_make_def copy_ok all_frees_def split: prod.splits)

lemma made_ok:
  "ffi_ok ffi_createNull" "ffi_ok (ffi_make BOOLEAN_TYPE (P_Bool b))" "ffi_ok (ffi_make INTEGER_TYPE (P_Int i))"
  "ffi_ok (ffi_make FLOAT_TYPE (P_Double d))" "ffi_ok (ffi_make STRING_TYPE (P_String t))" "ffi_ok (ffi_of_pointer p n)"
  "ffi_ok (createArray k)" "ffi_ok createObject" "ffi_ok (createBinaryData bs k)"
  by (simp_all add: constructed_ok createArray_def createObject_def)
     (simp_all add: ffi_createNull_def ffi_make_def ffi_of_pointer_def createBinaryData_def fits_def payload_gets)

lemma made_frees:
  "ffi_frees ffi_createNull = []" "ffi_frees (ffi_make BOOLEAN_TYPE (P_Bool b)) = []"
  "ffi_frees (ffi_make INTEGER_TYPE (P_Int i)) = []" "ffi_frees (ffi_make FLOAT_TYPE (P_Double d)) = []"
  "ffi_frees (ffi_make STRING_TYPE (P_String t)) = []" "ffi_frees (ffi_of_pointer p n) = []"
  "ffi_frees (createArray k) = []" "ffi_frees createObject = []" "ffi_frees (createBinaryData bs k) = []"
  by (simp_all add: constructed_ok createArray_def createObject_def)
     (simp_all add: ffi_createNull_def ffi_make_def ffi_of_pointer_def createBinaryData_def own_free_def)

lemma ownership_frees:
  assumes "ffi_ok v"
  shows "mset (ffi_frees (setPointerOwnership b v)) \<subseteq># mset (ffi_frees v) + image_mset Frees (grants b v)"
  using assms
  by (cases v) (auto simp: setPointerOwnership_def grants_def own_free_def fits_def payload_gets split: payload.splits)

text \<open>No extraction throws on such a value.\<close>

lemma extraction_ok:
  assumes "ffi_ok v"
  shows "asBoolean fo v \<noteq> None" "asInt32 fo v \<noteq> None" "asInt64 fo v \<noteq> None" "asDouble fo v \<noteq> None"
    "asFloat single so v \<noteq> None"
    "asString fo v \<noteq> None" "asPointer v \<noteq> None" "asBinaryData v \<noteq> None" "asArray v \<noteq> None" "asObject v \<noteq> None"
    "arraySize v \<noteq> None" "objectSize v \<noteq> None" "objectHas k v \<noteq> None" "objectKeys v \<noteq> None"
proof -
  have "fits (ffi_getType v) (ffi_payload v)" using assms by (simp add: ffi_ok_sel)
  then show "asBoolean fo v \<noteq> None" "asInt32 fo v \<noteq> None" "asInt64 fo v \<noteq> None" "asDouble fo v \<noteq> None"
    "asFloat single so v \<noteq> None"
    "asString fo v \<noteq> None" "asPointer v \<noteq> None" "asBinaryData v \<noteq> None" "asArray v \<noteq> None" "asObject v \<noteq> None"
    "arraySize v \<noteq> None" "objectSize v \<noteq> None" "objectHas k v \<noteq> None" "objectKeys v \<noteq> None"
    by (cases "ffi_getType v"; simp add: fits_def asBoolean_def asInt32_def asInt64_def asDouble_def asString_def
        asFloat_def asPointer_def asBinaryData_def asArray_def asObject_def arraySize_def objectSize_def
        objectHas_def objectKeys_def Let_def)+
qed

lemma get_value_ok: "ffi_ok v \<Longrightarrow> get_value fo single so g v \<noteq> None"
  using extraction_ok [of v] by (cases g) (auto simp: get_value_def)

text \<open>Neither does a comparison.\<close>

lemma elements_equal_ok:
  "(\<And>v w. v \<in> set vs \<Longrightarrow> w \<in> set ws \<Longrightarrow> f v w \<noteq> None) \<Longrightarrow> elements_equal (map f vs) ws \<noteq> None"
proof (induction vs arbitrary: ws)
  case (Cons v vs)
  show ?case
  proof (cases ws)
    case (Cons w us)
    have "f v w \<noteq> None" "elements_equal (map f vs) us \<noteq> None"
      using Cons.prems [of v w] Cons.IH [of us] Cons.prems Cons by auto
    then show ?thesis using Cons by (auto split: option.split bool.split)
  qed simp
qed simp

lemma entries_equal_ok:
  "(\<And>k v w. (k, v) \<in> set kvs \<Longrightarrow> w \<in> snd ` set kws \<Longrightarrow> f v w \<noteq> None) \<Longrightarrow>
   entries_equal (map (map_prod id f) kvs) kws \<noteq> None"
proof (induction kvs)
  case (Cons kv kvs)
  obtain k v where kv: "kv = (k, v)" by (cases kv)
  have rest: "entries_equal (map (map_prod id f) kvs) kws \<noteq> None"
    by (rule Cons.IH) (metis Cons.prems list.set_intros(2))
  have "f v w \<noteq> None" if "map_of kws k = Some w" for w
    using Cons.prems [of k v w] map_of_SomeD [OF that] kv by force
  then show ?case using rest kv by (auto simp: id_def split: option.split bool.split)
qed simp

lemma comparison_ok:
  fixes v :: "'d ffi" and p :: "'d payload"
  shows "ffi_ok v \<Longrightarrow> ffi_ok w \<Longrightarrow> ffi_equal fo v w \<noteq> None"
    and "payload_ok p \<Longrightarrow> payload_ok q \<Longrightarrow>
      (get_array p \<noteq> None \<and> get_array q \<noteq> None) \<or> (get_object p \<noteq> None \<and> get_object q \<noteq> None) \<Longrightarrow>
      payload_equal fo p q \<noteq> None"
proof (induction v and p arbitrary: w and q)
  case (FFI t p n w' c e)
  have "fits t p" "payload_ok p" using FFI.prems(1) by simp_all
  moreover have "fits (ffi_getType w) (ffi_payload w)" "payload_ok (ffi_payload w)"
    using FFI.prems(2) by (simp_all add: ffi_ok_sel)
  ultimately show ?case
    using FFI.IH [of "ffi_payload w"] by (cases t) (auto simp: tagged_equal_def fits_def both_def Let_def)
next
  case (P_Array vs)
  then obtain ws where q: "q = P_Array ws" by (cases q) (auto simp: payload_gets)
  have "elements_equal (map (ffi_equal fo) vs) ws \<noteq> None"
    using P_Array.prems P_Array.IH by (intro elements_equal_ok) (auto simp: q)
  then show ?case by (cases "length vs = length ws") (simp_all add: q arrays_equal_def get_array_def)
next
  case (P_Object kvs)
  then obtain kws where q: "q = P_Object kws" by (cases q) (auto simp: payload_gets)
  have "entries_equal (map (map_prod id (ffi_equal fo)) kvs) kws \<noteq> None"
    using P_Object.prems P_Object.IH by (intro entries_equal_ok) (fastforce simp: q)
  then show ?case by (cases "length kvs = length kws") (simp_all add: q objects_equal_def get_object_def)
qed (auto simp: payload_gets)

lemma ask_ok:
  "state_ok s \<Longrightarrow> (\<And>v. ffi_ok v \<Longrightarrow> f v \<noteq> None) \<Longrightarrow> run_ok (ask x f s)"
  using var_ok [of s x] by (cases "var s x") (fastforce simp: ask_def run_ok_def split: option.split)+

lemma vars_ok: "state_ok s \<Longrightarrow> \<forall>v \<in> set (List.map_filter (var s) xs). ffi_ok v"
  using var_ok by (fastforce simp: List.map_filter_def)

lemma step_ok: "state_ok s \<Longrightarrow> run_ok (ffi_step fo single so c s)"
proof (cases c)
  case (Copy_Of x)
  assume s: "state_ok s"
  show ?thesis unfolding Copy_Of ffi_step.simps
    by (rule read_into_ok [OF s]) (simp add: copy_ok)
next
  case (Move_Of x)
  assume s: "state_ok s"
  show ?thesis
  proof (cases "var s x")
    case (Some v)
    have "state_with ({#} + mset (ffi_frees v)) (put_var x (Some (snd (ffi_move v))) [] s)"
      by (rule put_var_with [OF s [unfolded state_ok_def] Some]) (use var_ok [OF s Some] moved in auto)
    then show ?thesis
      using Some Move_Of add_var_with [of "{#}" v, OF _ var_ok [OF s Some]] by (simp add: run_ok_def moved state_ok_def)
  qed (use s Move_Of in \<open>simp add: run_ok_def\<close>)
next
  case (Assign_Copy x y)
  assume s: "state_ok s"
  show ?thesis
  proof (cases "var s x = None \<or> var s y = None")
    case False
    then obtain v w where vw: "var s x = Some v" "var s y = Some w" by auto
    have "run_ok (cleaned_up (ffi_frees v) (put_var x (Some (ffi_copy w)) (ffi_frees v) s))"
      "run_ok (cleaned_up [] (put_var x (Some v) [] s))"
      by (rule put_var_run [OF s vw(1)]; use copy_ok(1) [OF var_ok [OF s vw(2)]] var_ok [OF s vw(1)] in simp)+
    then show ?thesis using vw Assign_Copy by (auto simp: ffi_assign_def)
  qed (use s Assign_Copy in \<open>auto simp: run_ok_def split: option.split\<close>)
next
  case (Assign_Move x y)
  assume s: "state_ok s"
  show ?thesis
  proof (cases "var s x = None \<or> var s y = None")
    case False
    then obtain v w where vw: "var s x = Some v" "var s y = Some w" by auto
    show ?thesis
    proof (cases "x = y")
      case True
      have "state_ok (put_var x (Some v) [] s)"
        by (rule put_var_ok [OF s vw(1)]) (use var_ok [OF s vw(1)] in simp_all)
      moreover have "var (put_var x (Some v) [] s) x = Some v" using vw unfolding var_Some by (simp add: put_var_def)
      ultimately have "run_ok (cleaned_up [] (put_var x (Some v) [] (put_var x (Some v) [] s)))"
        by (rule put_var_run) (use var_ok [OF s vw(1)] in simp_all)
      then show ?thesis using True vw Assign_Move by (simp add: ffi_assign_move_def)
    next
      case False
      let ?s1 = "put_var y (Some (snd (ffi_move w))) [] s"
      have 1: "state_with (mset (ffi_frees w)) ?s1"
        by (rule put_var_with [OF s [unfolded state_ok_def] vw(2)]) (use var_ok [OF s vw(2)] moved in auto)
      have "var ?s1 x = Some v" using vw False unfolding var_Some by (simp add: put_var_def)
      then have "state_with {#} (put_var x (Some w) (ffi_frees v) ?s1)"
        by (rule put_var_with [OF 1]) (use var_ok [OF s vw(2)] in auto)
      then have "run_ok (cleaned_up (ffi_frees v) (put_var x (Some w) (ffi_frees v) ?s1))"
        by (intro cleaned_up_ok) (simp_all add: state_ok_def put_var_def)
      then show ?thesis using vw Assign_Move False by (simp add: ffi_assign_move_def ffi_move_def)
    qed
  qed (use s Assign_Move in \<open>auto simp: run_ok_def split: option.split\<close>)
next
  case (Destroy x)
  assume s: "state_ok s"
  show ?thesis using s Destroy put_var_run [of s x _ None] by (auto simp: run_ok_def [of "Goes_On s" for s] split: option.split)
next
  case (Own_Pointer x b)
  assume s: "state_ok s"
  show ?thesis
  proof (cases "var s x")
    case (Some v)
    let ?w = "setPointerOwnership b v"
    let ?s1 = "s\<lparr>ffi_granted := ffi_granted s + grants b v\<rparr>"
    have "state_with (image_mset Frees (grants b v)) ?s1" using s by (auto simp: state_ok_def state_with_def)
    moreover have "var ?s1 x = Some v" using Some by (simp add: var_Some)
    moreover have "ffi_ok ?w" using var_ok [OF s Some] by (cases v) (simp add: setPointerOwnership_def)
    moreover have "mset (ffi_frees ?w) \<subseteq># mset (ffi_frees v) + image_mset Frees (grants b v)"
      by (rule ownership_frees [OF var_ok [OF s Some]])
    ultimately have "state_with {#} (put_var x (Some ?w) [] ?s1)"
      by (intro put_var_with [of "image_mset Frees (grants b v)"]) auto
    then show ?thesis using Some Own_Pointer by (simp add: run_ok_def state_ok_def)
  qed (use s Own_Pointer in \<open>simp add: run_ok_def\<close>)
next
  case (Array_Set x i y)
  assume s: "state_ok s"
  show ?thesis unfolding Array_Set ffi_step.simps by (rule change_with_ok [OF s arraySet_sound])
next
  case (Array_Push x y)
  assume s: "state_ok s"
  show ?thesis unfolding Array_Push ffi_step.simps by (rule change_with_ok [OF s arrayPush_sound])
next
  case (Array_Pop x)
  assume s: "state_ok s"
  show ?thesis
  proof (cases "var s x")
    case (Some v)
    obtain fs r w where p: "arrayPop v = Fine fs (r, w)" "ffi_ok r" "ffi_frees r = []" "sound v (Fine fs w)"
      using arrayPop_sound [OF var_ok [OF s Some]] .
    have "state_ok (put_var x (Some w) fs s)"
      using p(4) by (intro put_var_ok [OF s Some]) (auto simp: sound_def)
    then have "run_ok (cleaned_up fs (add_var r (put_var x (Some w) fs s)))"
      by (intro cleaned_up_ok add_var_ok [OF _ p(2,3)]) (simp_all add: put_var_def add_var_def)
    then show ?thesis using Some p Array_Pop by simp
  qed (use s Array_Pop in \<open>simp add: run_ok_def\<close>)
next
  case (Array_Get x i)
  assume s: "state_ok s"
  show ?thesis unfolding Array_Get ffi_step.simps by (rule read_into_ok [OF s]) (metis arrayGet_ok)
next
  case (Array_Clear x)
  assume s: "state_ok s"
  show ?thesis unfolding Array_Clear ffi_step.simps by (rule change_ok [OF s arrayClear_sound])
next
  case (Object_Set x k y)
  assume s: "state_ok s"
  show ?thesis unfolding Object_Set ffi_step.simps by (rule change_with_ok [OF s objectSet_sound])
next
  case (Object_Get x k)
  assume s: "state_ok s"
  show ?thesis unfolding Object_Get ffi_step.simps by (rule read_into_ok [OF s]) (metis objectGet_ok)
next
  case (Object_Remove x k)
  assume s: "state_ok s"
  show ?thesis unfolding Object_Remove ffi_step.simps by (rule change_ok [OF s objectRemove_sound])
next
  case (Object_Clear x)
  assume s: "state_ok s"
  show ?thesis unfolding Object_Clear ffi_step.simps by (rule change_ok [OF s objectClear_sound])
next
  case (As_Array x)
  assume s: "state_ok s"
  show ?thesis unfolding As_Array ffi_step.simps by (rule change_ok [OF s asArray_ref_sound])
next
  case (As_Object x)
  assume s: "state_ok s"
  show ?thesis unfolding As_Object ffi_step.simps by (rule change_ok [OF s asObject_ref_sound])
next
  case (Make_Vector xs)
  assume s: "state_ok s"
  show ?thesis
    using add_var_ok [OF s constructed_ok(1) [OF vars_ok [OF s]] constructed_ok(3)] Make_Vector by (simp add: run_ok_def)
next
  case (Make_Map kxs)
  assume s: "state_ok s"
  let ?kvs = "List.map_filter (\<lambda>(k, x). map_option (Pair k) (var s x)) kxs"
  have "\<forall>(k, v) \<in> set ?kvs. ffi_ok v"
    using var_ok [OF s] by (fastforce simp: List.map_filter_def)
  then have "\<forall>(k, v) \<in> set (AList.clearjunk ?kvs). ffi_ok v"
    by (auto simp: graph_map_of [symmetric] dest!: in_graphD map_of_SomeD)
  then show ?thesis
    using add_var_ok [OF s constructed_ok(2) constructed_ok(4)] Make_Map distinct_clearjunk [of ?kvs]
    by (simp add: run_ok_def)
next
  case (Extract x g)
  assume s: "state_ok s"
  show ?thesis unfolding Extract ffi_step.simps by (rule ask_ok [OF s get_value_ok])
next
  case (Compare x y)
  assume s: "state_ok s"
  show ?thesis
    using s Compare ask_ok [OF s comparison_ok(1)] var_ok [OF s, of y] by (auto simp: run_ok_def [of "Goes_On s" for s] split: option.split)
qed (simp_all add: run_ok_def add_var_ok made_ok made_frees)


lemma copy_copy [simp]:
  fixes v :: "'d ffi" and p :: "'d payload"
  shows "ffi_copy (ffi_copy v) = ffi_copy v" "payload_copy (payload_copy p) = payload_copy p"
  by (induction v and p) force+

text \<open>\<open>arraySet\<close> makes the vector long enough for every index but the greatest \<open>size_t\<close>: there the new
  size wraps to zero, the elements are destroyed and the write goes outside. Otherwise the element
  at the index is a copy of the value.\<close>

theorem array_set_wraps:
  assumes "ffi_ok v" "arraySize v = Some n" "n < 2 ^ 64"
  shows "if i = - 1 then arraySet i x v = Out_Of_Bounds
         else \<exists>fs w. arraySet i x v = Fine fs w \<and> arrayGet i w = Some (ffi_copy x)
           \<and> arraySize w = Some (max n (unat i + 1))"
proof -
  obtain fs vs where v: "to_array v = (fs, retype ARRAY_TYPE (P_Array vs) v)"
    using to_array_array [OF assms(1)] by blast
  have "ffi_payload (snd (to_array v)) = P_Array vs" by (simp add: v)
  then have n: "length vs = n"
    using assms(2) by (auto simp: to_array_def arraySize_def get_array_def split: if_splits)
  define ws where "ws = (if unat i \<ge> length vs then resize (unat (i + 1)) vs else vs)"
  have r: "arraySet i x v = (if unat i < length ws then
      Fine (fs @ (if unat i \<ge> length vs then all_frees (drop (unat (i + 1)) vs) else []) @ ffi_frees (ws ! unat i))
        (retype ARRAY_TYPE (P_Array (ws[unat i := ffi_copy x])) v) else Out_Of_Bounds)"
    by (simp add: arraySet_def v get_array_def Let_def ws_def)
  have top: "unat (- 1 :: 64 word) = 2 ^ 64 - 1" by (simp add: unsigned_minus_1_eq_mask mask_eq_exp_minus_1)
  show ?thesis
  proof (cases "i = - 1")
    case True
    then have "ws = []" using n assms(3) top by (simp add: ws_def resize_def)
    then show ?thesis using True r by simp
  next
    case False
    then have "unat i \<noteq> 2 ^ 64 - 1" using top by (metis word_unat_eq_iff)
    moreover have "unat i < 2 ^ 64" using unsigned_less [of i] by simp
    ultimately have "unat (i + 1) = unat i + 1" by (simp add: unat_word_ariths)
    then have "length ws = max n (unat i + 1)" using n by (auto simp: ws_def resize_def)
    then show ?thesis
      using False by (auto simp: r arrayGet_def arraySize_def retype_def get_array_def)
  qed
qed

lemma array_set_wraps_witness:
  "arraySet (- 1) (ffi_of_pointer 0 []) (createArray 2) = Out_Of_Bounds
   \<and> (\<exists>fs w. arraySet 3 (ffi_of_pointer 0 []) (createArray 2) = Fine fs w \<and> arraySize w = Some 4)"
proof -
  have a: "ffi_ok (createArray 2)" "arraySize (createArray 2) = Some 2" "(2::nat) < 2 ^ 64"
    by (simp add: made_ok) (simp_all add: arraySize_def createArray_def ffi_of_vector_def ffi_make_def get_array_def)
  show ?thesis
    using array_set_wraps [OF a, of "- 1" "ffi_of_pointer 0 []"] array_set_wraps [OF a, of 3 "ffi_of_pointer 0 []"]
    by auto
qed

text \<open>Popping an element that owns a pointer returns the pointer after it was freed.\<close>

theorem array_pop_dangles:
  assumes "ffi_getType v = ARRAY_TYPE" "ffi_payload v = P_Array (vs @ [w])"
    and "ffi_getType w = POINTER_TYPE" "ffi_payload w = P_Pointer p" "ffi_owned w" "p \<noteq> 0"
  shows "\<exists>fs r v'. arrayPop v = Fine fs (r, v') \<and> asPointer r = Some p \<and> Frees p \<in> set fs"
proof -
  have "ffi_payload (ffi_copy w) = P_Pointer p" "ffi_getType (ffi_copy w) = POINTER_TYPE"
    using assms(3,4) by (cases w; simp)+
  then show ?thesis
    using assms by (auto simp: arrayPop_def get_array_def get_pointer_def asPointer_def frees_sel own_free_def)
qed

lemma array_pop_dangles_witness:
  "\<exists>fs r v'. arrayPop (ffi_make ARRAY_TYPE (P_Array [setPointerOwnership True (ffi_of_pointer 64 ''buf'')])) = Fine fs (r, v')
     \<and> asPointer r = Some 64 \<and> Frees 64 \<in> set fs"
  by (rule array_pop_dangles [where vs = "[]" and w = "setPointerOwnership True (ffi_of_pointer 64 ''buf'')"])
    (simp_all add: ffi_make_def setPointerOwnership_def ffi_of_pointer_def)

section \<open>Equality\<close>

lemma elements_equal_same: "(\<And>v. v \<in> set vs \<Longrightarrow> f v (g v) = Some True) \<Longrightarrow> elements_equal (map f vs) (map g vs) = Some True"
  by (induction vs) simp_all

lemma entries_equal_same:
  "\<lbrakk>\<And>k v. (k, v) \<in> set kvs \<Longrightarrow> map_of kws k = Some (g v) \<and> f v (g v) = Some True\<rbrakk>
   \<Longrightarrow> entries_equal (map (map_prod id f) kvs) kws = Some True"
proof (induction kvs)
  case (Cons kv kvs)
  obtain k v where "kv = (k, v)" by (cases kv)
  moreover have "map_of kws k = Some (g v)" "f v (g v) = Some True"
    using Cons.prems [of k v] calculation by simp_all
  moreover have "entries_equal (map (map_prod id f) kvs) kws = Some True"
    by (rule Cons.IH) (use Cons.prems in auto)
  ultimately show ?case by (simp add: id_def)
qed simp

text \<open>A value equals its copy, when its doubles equal themselves.\<close>

lemma copy_equal:
  fixes v :: "'d ffi" and p :: "'d payload"
  assumes refl: "\<forall>d. fl_equal fo d d"
  shows "ffi_ok v \<Longrightarrow> ffi_equal fo v (ffi_copy v) = Some True"
    and "payload_ok p \<Longrightarrow> (case p of P_Array vs \<Rightarrow> payload_equal fo p (payload_copy p) = Some True
        | P_Object kvs \<Rightarrow> payload_equal fo p (payload_copy p) = Some True | _ \<Rightarrow> True)"
proof (induction v and p)
  case (FFI t p n w c e)
  then show ?case
    using refl by (cases t; cases p) (auto simp: tagged_equal_def fits_def payload_gets both_def Let_def)
next
  case (P_Array vs)
  then show ?case by (auto simp: arrays_equal_def get_array_def intro!: elements_equal_same)
next
  case (P_Object kvs)
  then have d: "distinct (map fst kvs)" by simp
  have "entries_equal (map (map_prod id (ffi_equal fo)) kvs) (map (map_prod id ffi_copy) kvs) = Some True"
  proof (rule entries_equal_same)
    fix k v assume kv: "(k, v) \<in> set kvs"
    then have "map_of kvs k = Some v" using d by simp
    then have "map_of (map (map_prod id ffi_copy) kvs) k = Some (ffi_copy v)"
      by (simp add: map_prod_def map_of_map)
    then show "map_of (map (map_prod id ffi_copy) kvs) k = Some (ffi_copy v) \<and> ffi_equal fo v (ffi_copy v) = Some True"
      using P_Object kv by fastforce
  qed
  then show ?case by (simp add: objects_equal_def get_object_def)
qed auto

end
