(* ===== verification/Tocin_Stdlib.thy ===== *)
theory Tocin_Stdlib
  imports Tocin_Ffi_Store Tocin_Types
begin

text \<open>
  The functions that \<open>src/compiler/stdlib.cpp\<close> registers, on values of \<open>FFIValue\<close>. The length of a
  string is below \<open>2 ^ 63\<close>. The functions of \<open><cmath>\<close> are parameters. A loop that never ends is None.
  The random number is an argument.
\<close>

section \<open>Results\<close>

datatype 'd std_result =
    Returns "'d ffi" | Throws_Error string | Throws_Variant | Undefined_Behaviour

definition with_text :: "'d float_ops \<Rightarrow> 'd ffi \<Rightarrow> (string \<Rightarrow> 'd std_result) \<Rightarrow> 'd std_result" where
  "with_text fo v k = (case asString fo v of None \<Rightarrow> Throws_Variant | Some s \<Rightarrow> k s)"

definition with_int :: "'d float_ops \<Rightarrow> 'd ffi \<Rightarrow> (64 word \<Rightarrow> 'd std_result) \<Rightarrow> 'd std_result" where
  "with_int fo v k = (case asInt64 fo v of None \<Rightarrow> Throws_Variant | Some i \<Rightarrow> k i)"

definition with_double :: "'d float_ops \<Rightarrow> 'd ffi \<Rightarrow> ('d \<Rightarrow> 'd std_result) \<Rightarrow> 'd std_result" where
  "with_double fo v k = (case asDouble fo v of None \<Rightarrow> Throws_Variant | Some d \<Rightarrow> k d)"

definition ret_string :: "string \<Rightarrow> 'd std_result" where
  "ret_string s = Returns (ffi_make STRING_TYPE (P_String s))"

definition ret_bool :: "bool \<Rightarrow> 'd std_result" where
  "ret_bool b = Returns (ffi_make BOOLEAN_TYPE (P_Bool b))"

definition ret_int :: "64 word \<Rightarrow> 'd std_result" where
  "ret_int i = Returns (ffi_make INTEGER_TYPE (P_Int i))"

definition ret_double :: "'d \<Rightarrow> 'd std_result" where
  "ret_double d = Returns (ffi_make FLOAT_TYPE (P_Double d))"

definition has_types :: "ffi_type list \<Rightarrow> 'd ffi list \<Rightarrow> bool" where
  "has_types ts args \<longleftrightarrow> map ffi_getType args = ts"

section \<open>Strings of the library\<close>

fun begins_with :: "string \<Rightarrow> string \<Rightarrow> bool" where
  "begins_with [] s = True"
| "begins_with (p # ps) (c # cs) = (p = c \<and> begins_with ps cs)"
| "begins_with (p # ps) [] = False"

text \<open>\<open>find\<close>: the first position at which the pattern stands, from \<open>pos\<close> on.\<close>

fun find_first :: "string \<Rightarrow> string \<Rightarrow> nat option" where
  "find_first p s =
     (if begins_with p s then Some 0
      else case s of [] \<Rightarrow> None | c # cs \<Rightarrow> map_option Suc (find_first p cs))"

declare find_first.simps [simp del]

definition find_from :: "string \<Rightarrow> string \<Rightarrow> nat \<Rightarrow> nat option" where
  "find_from p s pos =
     (if pos \<le> length s then map_option (\<lambda>i. pos + i) (find_first p (drop pos s)) else None)"

definition substr :: "string \<Rightarrow> nat \<Rightarrow> nat \<Rightarrow> string" where
  "substr s pos n = take n (drop pos s)"

definition is_blank :: "char \<Rightarrow> bool" where
  "is_blank c \<longleftrightarrow> c \<in> {CHR '' '', TAB, NL, CR}"

definition toupper :: "char \<Rightarrow> char" where
  "toupper c = (if 97 \<le> code c \<and> code c \<le> 122 then char_of (code c - 32) else c)"

definition tolower :: "char \<Rightarrow> char" where
  "tolower c = (if 65 \<le> code c \<and> code c \<le> 90 then char_of (code c + 32) else c)"

section \<open>The registered string functions\<close>

definition std_str_length :: "'d float_ops \<Rightarrow> 'd ffi list \<Rightarrow> 'd std_result" where
  "std_str_length fo args =
     (if \<not> has_types [STRING_TYPE] args then Throws_Error ''str_length expects one string''
      else with_text fo (args ! 0) (\<lambda>s. ret_int (of_nat (length s))))"

definition std_str_concat :: "'d float_ops \<Rightarrow> 'd ffi list \<Rightarrow> 'd std_result" where
  "std_str_concat fo args =
     (if \<not> has_types [STRING_TYPE, STRING_TYPE] args then Throws_Error ''str_concat expects two strings''
      else with_text fo (args ! 0) (\<lambda>s. with_text fo (args ! 1) (\<lambda>t. ret_string (s @ t))))"

definition std_str_slice :: "'d float_ops \<Rightarrow> 'd ffi list \<Rightarrow> 'd std_result" where
  "std_str_slice fo args =
     (if \<not> has_types [STRING_TYPE, INTEGER_TYPE, INTEGER_TYPE] args then
        Throws_Error ''str_slice expects string, start, end''
      else with_text fo (args ! 0) (\<lambda>s. with_int fo (args ! 1) (\<lambda>a. with_int fo (args ! 2) (\<lambda>b.
        (if sint a < 0 \<or> sint b > int (length s) \<or> sint a > sint b then ret_string []
         else ret_string (substr s (nat (sint a)) (nat (sint b - sint a))))))))"

definition std_str_to_upper :: "'d float_ops \<Rightarrow> 'd ffi list \<Rightarrow> 'd std_result" where
  "std_str_to_upper fo args =
     (if \<not> has_types [STRING_TYPE] args then Throws_Error ''str_to_upper expects one string''
      else with_text fo (args ! 0) (\<lambda>s. ret_string (map toupper s)))"

definition std_str_to_lower :: "'d float_ops \<Rightarrow> 'd ffi list \<Rightarrow> 'd std_result" where
  "std_str_to_lower fo args =
     (if \<not> has_types [STRING_TYPE] args then Throws_Error ''str_to_lower expects one string''
      else with_text fo (args ! 0) (\<lambda>s. ret_string (map tolower s)))"

definition trim_blanks :: "string \<Rightarrow> string" where
  "trim_blanks s =
     (let start = length (takeWhile is_blank s)
      in if start = length s then []
         else (let stop = length s - 1 - length (takeWhile is_blank (rev s))
               in substr s start (stop - start + 1)))"

definition std_str_trim :: "'d float_ops \<Rightarrow> 'd ffi list \<Rightarrow> 'd std_result" where
  "std_str_trim fo args =
     (if \<not> has_types [STRING_TYPE] args then Throws_Error ''str_trim expects one string''
      else with_text fo (args ! 0) (\<lambda>s. ret_string (trim_blanks s)))"

partial_function (option) replace_loop :: "string \<Rightarrow> string \<Rightarrow> string \<Rightarrow> nat \<Rightarrow> string option" where
  "replace_loop from to s pos =
     (case find_from from s pos of
        None \<Rightarrow> Some s
      | Some p \<Rightarrow> replace_loop from to (take p s @ to @ drop (p + length from) s) (p + length to))"

definition std_str_replace :: "'d float_ops \<Rightarrow> 'd ffi list \<Rightarrow> 'd std_result option" where
  "std_str_replace fo args =
     (if \<not> has_types [STRING_TYPE, STRING_TYPE, STRING_TYPE] args then
        Some (Throws_Error ''str_replace expects three strings'')
      else case (asString fo (args ! 0), asString fo (args ! 1), asString fo (args ! 2)) of
             (Some s, Some from, Some to) \<Rightarrow> map_option ret_string (replace_loop from to s 0)
           | _ \<Rightarrow> Some Throws_Variant)"

definition std_str_contains :: "'d float_ops \<Rightarrow> 'd ffi list \<Rightarrow> 'd std_result" where
  "std_str_contains fo args =
     (if \<not> has_types [STRING_TYPE, STRING_TYPE] args then Throws_Error ''str_contains expects two strings''
      else with_text fo (args ! 0) (\<lambda>s. with_text fo (args ! 1) (\<lambda>t. ret_bool (find_from t s 0 \<noteq> None))))"

definition std_str_starts_with :: "'d float_ops \<Rightarrow> 'd ffi list \<Rightarrow> 'd std_result" where
  "std_str_starts_with fo args =
     (if \<not> has_types [STRING_TYPE, STRING_TYPE] args then Throws_Error ''str_starts_with expects two strings''
      else with_text fo (args ! 0) (\<lambda>s. with_text fo (args ! 1) (\<lambda>t. ret_bool (substr s 0 (length t) = t))))"

definition std_str_ends_with :: "'d float_ops \<Rightarrow> 'd ffi list \<Rightarrow> 'd std_result" where
  "std_str_ends_with fo args =
     (if \<not> has_types [STRING_TYPE, STRING_TYPE] args then Throws_Error ''str_ends_with expects two strings''
      else with_text fo (args ! 0) (\<lambda>s. with_text fo (args ! 1) (\<lambda>t.
        if length t > length s then ret_bool False
        else ret_bool (drop (length s - length t) s = t))))"

partial_function (option) split_loop :: "string \<Rightarrow> string \<Rightarrow> nat \<Rightarrow> string list \<Rightarrow> string list option" where
  "split_loop delimiter s prev parts =
     (case find_from delimiter s prev of
        None \<Rightarrow> Some (parts @ [drop prev s])
      | Some p \<Rightarrow> split_loop delimiter s (p + length delimiter) (parts @ [substr s prev (p - prev)]))"

definition std_str_split :: "'d float_ops \<Rightarrow> 'd ffi list \<Rightarrow> 'd std_result option" where
  "std_str_split fo args =
     (if \<not> has_types [STRING_TYPE, STRING_TYPE] args then Some (Throws_Error ''str_split expects two strings'')
      else case (asString fo (args ! 0), asString fo (args ! 1)) of
             (Some s, Some delimiter) \<Rightarrow>
               map_option (\<lambda>parts. Returns (ffi_make ARRAY_TYPE (P_Array
                   (map (\<lambda>x. ffi_make STRING_TYPE (P_String x)) parts))))
                 (split_loop delimiter s 0 [])
           | _ \<Rightarrow> Some Throws_Variant)"

text \<open>What \<open>print\<close> writes, without the line end; it returns null.\<close>

definition print_item :: "'d float_ops \<Rightarrow> 'd ffi \<Rightarrow> string option" where
  "print_item fo v =
     (case ffi_getType v of
        INTEGER_TYPE \<Rightarrow> map_option (\<lambda>i. show_int (sint i)) (asInt64 fo v)
      | FLOAT_TYPE \<Rightarrow> map_option (fl_text fo) (asDouble fo v)
      | BOOLEAN_TYPE \<Rightarrow> map_option (\<lambda>b. if b then ''true'' else ''false'') (get_bool (ffi_payload v))
      | STRING_TYPE \<Rightarrow> asString fo v
      | _ \<Rightarrow> Some ''unknown'')"

section \<open>The registered functions on numbers\<close>

record 'd math_ops =
  m_sqrt :: "'d \<Rightarrow> 'd"
  m_pow :: "'d \<Rightarrow> 'd \<Rightarrow> 'd"
  m_sin :: "'d \<Rightarrow> 'd"
  m_cos :: "'d \<Rightarrow> 'd"
  m_tan :: "'d \<Rightarrow> 'd"
  m_abs :: "'d \<Rightarrow> 'd"
  m_floor :: "'d \<Rightarrow> 'd"
  m_ceil :: "'d \<Rightarrow> 'd"
  m_round :: "'d \<Rightarrow> 'd"
  m_log :: "'d \<Rightarrow> 'd"
  m_exp :: "'d \<Rightarrow> 'd"

text \<open>A float argument is taken as it is, any other one through \<open>asInt64\<close>.\<close>

definition number_arg :: "'d float_ops \<Rightarrow> 'd ffi \<Rightarrow> ('d \<Rightarrow> 'd std_result) \<Rightarrow> 'd std_result" where
  "number_arg fo v k =
     (if ffi_getType v = FLOAT_TYPE then with_double fo v k else with_int fo v (\<lambda>i. k (fl_of_int fo i)))"

definition math_one :: "string \<Rightarrow> ('d \<Rightarrow> 'd) \<Rightarrow> 'd float_ops \<Rightarrow> 'd ffi list \<Rightarrow> 'd std_result" where
  "math_one name f fo args =
     (if length args \<noteq> 1 then Throws_Error (name @ '' expects one number'')
      else number_arg fo (args ! 0) (\<lambda>d. ret_double (f d)))"

definition std_math_sqrt :: "'d math_ops \<Rightarrow> 'd float_ops \<Rightarrow> 'd ffi list \<Rightarrow> 'd std_result" where
  "std_math_sqrt mo fo args =
     (if \<not> has_types [FLOAT_TYPE] args then Throws_Error ''sqrt expects one float''
      else with_double fo (args ! 0) (\<lambda>d. ret_double (m_sqrt mo d)))"

definition std_math_pow :: "'d math_ops \<Rightarrow> 'd float_ops \<Rightarrow> 'd ffi list \<Rightarrow> 'd std_result" where
  "std_math_pow mo fo args =
     (if length args \<noteq> 2 then Throws_Error ''pow expects two numbers''
      else number_arg fo (args ! 0) (\<lambda>b. number_arg fo (args ! 1) (\<lambda>e. ret_double (m_pow mo b e))))"

text \<open>\<open>std::abs\<close> of the least integer is outside the type.\<close>

definition std_math_abs :: "'d math_ops \<Rightarrow> 'd float_ops \<Rightarrow> 'd ffi list \<Rightarrow> 'd std_result" where
  "std_math_abs mo fo args =
     (if length args \<noteq> 1 then Throws_Error ''abs expects one number''
      else if ffi_getType (args ! 0) = FLOAT_TYPE then with_double fo (args ! 0) (\<lambda>d. ret_double (m_abs mo d))
      else with_int fo (args ! 0) (\<lambda>i.
        if sint i = - (2 ^ 63) then Undefined_Behaviour else ret_int (word_of_int (abs (sint i)))))"

definition std_math_random :: "'d \<Rightarrow> 'd ffi list \<Rightarrow> 'd std_result" where
  "std_math_random r args = ret_double r"

text \<open>The table of the names, the functions of one number included; \<open>print\<close> is separate.\<close>

definition std_call :: "'d math_ops \<Rightarrow> 'd float_ops \<Rightarrow> 'd \<Rightarrow> string \<Rightarrow> 'd ffi list \<Rightarrow> 'd std_result option option" where
  "std_call mo fo r n args =
     map_of
       [(''str_length'', Some (std_str_length fo args)), (''str_concat'', Some (std_str_concat fo args)),
        (''str_slice'', Some (std_str_slice fo args)), (''math_sqrt'', Some (std_math_sqrt mo fo args)),
        (''math_pow'', Some (std_math_pow mo fo args)), (''math_sin'', Some (math_one ''sin'' (m_sin mo) fo args)),
        (''math_cos'', Some (math_one ''cos'' (m_cos mo) fo args)), (''math_tan'', Some (math_one ''tan'' (m_tan mo) fo args)),
        (''math_abs'', Some (std_math_abs mo fo args)), (''math_floor'', Some (math_one ''floor'' (m_floor mo) fo args)),
        (''math_ceil'', Some (math_one ''ceil'' (m_ceil mo) fo args)), (''math_round'', Some (math_one ''round'' (m_round mo) fo args)),
        (''math_log'', Some (math_one ''log'' (m_log mo) fo args)), (''math_exp'', Some (math_one ''exp'' (m_exp mo) fo args)),
        (''math_random'', Some (std_math_random r args)), (''str_to_upper'', Some (std_str_to_upper fo args)),
        (''str_to_lower'', Some (std_str_to_lower fo args)), (''str_trim'', Some (std_str_trim fo args)),
        (''str_replace'', std_str_replace fo args), (''str_contains'', Some (std_str_contains fo args)),
        (''str_starts_with'', Some (std_str_starts_with fo args)), (''str_ends_with'', Some (std_str_ends_with fo args)),
        (''str_split'', std_str_split fo args)] n"

section \<open>Searching\<close>

lemma begins_with_append: "begins_with p s \<longleftrightarrow> (\<exists>t. s = p @ t)"
  by (induction p s rule: begins_with.induct) auto

lemma find_first_Some:
  "find_first p s = Some i \<Longrightarrow> i + length p \<le> length s \<and> (\<exists>t. drop i s = p @ t) \<and> (\<forall>j < i. \<not> begins_with p (drop j s))"
proof (induction p s arbitrary: i rule: find_first.induct)
  case (1 p s)
  show ?case
  proof (cases "begins_with p s")
    case True
    then show ?thesis
      using "1.prems" by (auto simp: find_first.simps [of p s] begins_with_append)
  next
    case False
    then obtain c cs k where s: "s = c # cs" "find_first p cs = Some k" "i = Suc k"
      using "1.prems" by (auto simp: find_first.simps [of p s] split: list.splits)
    then have IH: "k + length p \<le> length cs \<and> (\<exists>t. drop k cs = p @ t) \<and> (\<forall>j < k. \<not> begins_with p (drop j cs))"
      using "1.IH" False by blast
    moreover have "\<not> begins_with p (drop j s)" if "j < i" for j
      using that IH False s by (cases j) auto
    ultimately show ?thesis using s by auto
  qed
qed

lemma find_first_None: "find_first p s = None \<Longrightarrow> \<not> begins_with p (drop j s) \<or> j > length s"
proof (induction p s arbitrary: j rule: find_first.induct)
  case (1 p s)
  have "\<not> begins_with p s" using "1.prems" by (auto simp: find_first.simps [of p s] split: if_splits)
  show ?case
  proof (cases s)
    case Nil
    then show ?thesis using \<open>\<not> begins_with p s\<close> by (cases j) auto
  next
    case (Cons c cs)
    have "find_first p cs = None"
      using "1.prems" \<open>\<not> begins_with p s\<close> Cons by (simp add: find_first.simps [of p "c # cs"])
    then have "\<not> begins_with p (drop k cs) \<or> k > length cs" for k
      using "1.IH" \<open>\<not> begins_with p s\<close> Cons by blast
    then show ?thesis using \<open>\<not> begins_with p s\<close> Cons by (cases j) auto
  qed
qed

lemma find_empty: "find_first [] s = Some 0"
  by (simp add: find_first.simps)

text \<open>A text holds a pattern when it stands somewhere in it.\<close>

definition occurs_in :: "string \<Rightarrow> string \<Rightarrow> bool" where
  "occurs_in p s \<longleftrightarrow> (\<exists>a b. s = a @ p @ b)"

lemma occurs_begins: "occurs_in p s \<longleftrightarrow> (\<exists>j \<le> length s. begins_with p (drop j s))"
proof
  assume "occurs_in p s"
  then obtain a b where "s = a @ p @ b" by (auto simp: occurs_in_def)
  then show "\<exists>j \<le> length s. begins_with p (drop j s)"
    by (intro exI [of _ "length a"]) (simp add: begins_with_append)
next
  assume "\<exists>j \<le> length s. begins_with p (drop j s)"
  then obtain j t where "drop j s = p @ t" by (auto simp: begins_with_append)
  then show "occurs_in p s" unfolding occurs_in_def by (metis append_take_drop_id)
qed

lemma find_first_occurs: "find_first p s = None \<longleftrightarrow> \<not> occurs_in p s"
proof (cases "find_first p s")
  case None
  then show ?thesis using find_first_None [OF None] by (metis occurs_begins not_less)
next
  case (Some i)
  then show ?thesis using find_first_Some [OF Some] by (auto simp: occurs_begins begins_with_append intro!: exI [of _ i])
qed

text \<open>The text before the first occurrence does not hold the pattern.\<close>

lemma before_first: "find_first p s = Some i \<Longrightarrow> p \<noteq> [] \<Longrightarrow> \<not> occurs_in p (take i s)"
proof
  assume i: "find_first p s = Some i" "p \<noteq> []" and "occurs_in p (take i s)"
  then obtain a b where ab: "take i s = a @ p @ b" by (auto simp: occurs_in_def)
  have le: "i \<le> length s" using find_first_Some [OF i(1)] by simp
  have "drop (length a) s = p @ b @ drop i s"
    using ab by (metis append_assoc append_eq_conv_conj append_take_drop_id)
  then have "begins_with p (drop (length a) s)" by (auto simp: begins_with_append)
  moreover have "length a < i" using ab i(2) le by (metis append_Nil2 length_append length_greater_0_conv length_take less_add_same_cancel1 min.absorb2 trans_less_add1)
  ultimately show False using find_first_Some [OF i(1)] by blast
qed


section \<open>Splitting and replacing\<close>

lemma join_with_Cons: "ys \<noteq> [] \<Longrightarrow> join_with sep (x # ys) = x @ sep @ join_with sep ys"
  by (cases ys) simp_all

lemma find_from_append: "find_from p (pre @ rest) (length pre) = map_option (\<lambda>i. length pre + i) (find_first p rest)"
  by (simp add: find_from_def)

lemma pieces:
  assumes d: "d \<noteq> []"
  shows "\<exists>parts. parts \<noteq> [] \<and> join_with d parts = rest \<and> (\<forall>x \<in> set parts. \<not> occurs_in d x)
    \<and> (\<forall>pre acc. split_loop d (pre @ rest) (length pre) acc = Some (acc @ parts))
    \<and> (\<forall>pre to. replace_loop d to (pre @ rest) (length pre) = Some (pre @ join_with to parts))"
proof (induction rest rule: length_induct)
  case (1 rest)
  show ?case
  proof (cases "find_first d rest")
    case None
    then have "split_loop d (pre @ rest) (length pre) acc = Some (acc @ [rest])"
      "replace_loop d to (pre @ rest) (length pre) = Some (pre @ rest)" for pre acc to
      by (simp_all add: split_loop.simps [of d "pre @ rest"] replace_loop.simps [of d to "pre @ rest"] find_from_append)
    then show ?thesis
      using None find_first_occurs [of d rest] by (intro exI [of _ "[rest]"]) simp
  next
    case (Some i)
    obtain t where t: "drop i rest = d @ t" "i + length d \<le> length rest"
      using find_first_Some [OF Some] by blast
    then have rest: "take i rest @ d @ t = rest" by (metis append_take_drop_id)
    have len: "length (take i rest) = i" using t(2) by simp
    have "length (drop i rest) = length d + length t" by (simp add: t(1))
    moreover have "0 < length d" using d by simp
    ultimately have "length t < length rest" using t(2) unfolding length_drop by linarith
    then obtain ps where ps: "ps \<noteq> []" "join_with d ps = t" "\<forall>x \<in> set ps. \<not> occurs_in d x"
      "\<And>pre acc. split_loop d (pre @ t) (length pre) acc = Some (acc @ ps)"
      "\<And>pre to. replace_loop d to (pre @ t) (length pre) = Some (pre @ join_with to ps)"
      using 1 [rule_format, of t] by blast
    let ?h = "take i rest"
    have split: "split_loop d (pre @ rest) (length pre) acc = Some (acc @ ?h # ps)" for pre acc
    proof -
      have "split_loop d (pre @ rest) (length pre) acc
          = split_loop d (pre @ rest) (length pre + i + length d) (acc @ [?h])"
        using Some by (simp add: split_loop.simps [of d "pre @ rest" "length pre"] find_from_append substr_def)
      also have "\<dots> = split_loop d ((pre @ ?h @ d) @ t) (length (pre @ ?h @ d)) (acc @ [?h])"
      proof -
        have "pre @ rest = (pre @ ?h @ d) @ t" using rest by simp
        moreover have "length (pre @ ?h @ d) = length pre + i + length d" by (simp only: length_append len add.assoc)
        ultimately show ?thesis by metis
      qed
      finally show ?thesis unfolding ps(4) by simp
    qed
    have replace: "replace_loop d to (pre @ rest) (length pre) = Some (pre @ join_with to (?h # ps))" for pre to
    proof -
      have "take (length pre + i) (pre @ rest) = pre @ ?h" by simp
      moreover have "drop (length pre + i + length d) (pre @ rest) = t"
      proof -
        have "drop (i + length d) rest = drop (length d) (drop i rest)" by (simp add: add.commute)
        then show ?thesis by (simp add: t(1) add.assoc)
      qed
      ultimately have "replace_loop d to (pre @ rest) (length pre)
          = replace_loop d to ((pre @ ?h @ to) @ t) (length (pre @ ?h @ to))"
        using Some len by (simp add: replace_loop.simps [of d to "pre @ rest" "length pre"] find_from_append add.assoc)
      then show ?thesis unfolding ps(5) by (simp only: join_with_Cons [OF ps(1)] append_assoc)
    qed
    have "\<not> occurs_in d ?h" using before_first [OF Some d] .
    moreover have "join_with d (?h # ps) = rest" by (simp only: join_with_Cons [OF ps(1)] ps(2) rest)
    ultimately show ?thesis
      using split replace ps(3) by (intro exI [of _ "?h # ps"]) simp
  qed
qed

abbreviation text_value :: "string \<Rightarrow> 'd ffi" where
  "text_value s \<equiv> ffi_make STRING_TYPE (P_String s)"

lemma text_value_sel [simp]:
  "asString fo (text_value s) = Some s" "ffi_getType (text_value s) = STRING_TYPE"
  by (simp_all add: asString_def ffi_make_def get_string_def)

text \<open>C28: with a delimiter that is not empty \<open>str_split\<close> ends; its parts do not hold the delimiter and give the
  text back when they are joined by it. Joined by another text they are what \<open>str_replace\<close> returns.\<close>

theorem split_join_replace:
  assumes "d \<noteq> []"
  shows "\<exists>parts. std_str_split fo [text_value s, text_value d]
             = Some (Returns (ffi_make ARRAY_TYPE (P_Array (map text_value parts))))
         \<and> join_with d parts = s \<and> (\<forall>x \<in> set parts. \<not> occurs_in d x)
         \<and> (\<forall>to. std_str_replace fo [text_value s, text_value d, text_value to] = Some (ret_string (join_with to parts)))"
proof -
  obtain parts where p: "join_with d parts = s" "\<forall>x \<in> set parts. \<not> occurs_in d x"
    "\<forall>pre acc. split_loop d (pre @ s) (length pre) acc = Some (acc @ parts)"
    "\<forall>pre to. replace_loop d to (pre @ s) (length pre) = Some (pre @ join_with to parts)"
    using pieces [OF assms, of s] by blast
  have "split_loop d s 0 [] = Some parts" "replace_loop d to s 0 = Some (join_with to parts)" for to
    using p(3) [rule_format, of "[]" "[]"] p(4) [rule_format, of to "[]"] by simp_all
  then show ?thesis
    using p(1,2) by (intro exI [of _ parts]) (simp add: std_str_split_def std_str_replace_def has_types_def)
qed

lemma split_join_replace_witness:
  "\<forall>fo :: int float_ops. \<exists>parts. std_str_split fo [text_value ''a, b'', text_value '', ''] = Some (Returns (ffi_make ARRAY_TYPE (P_Array (map text_value parts))))
     \<and> join_with '', '' parts = ''a, b''"
proof
  fix fo :: "int float_ops"
  show "\<exists>parts. std_str_split fo [text_value ''a, b'', text_value '', ''] = Some (Returns (ffi_make ARRAY_TYPE (P_Array (map text_value parts))))
     \<and> join_with '', '' parts = ''a, b''"
    using split_join_replace [of "'', ''" fo "''a, b''"] by auto
qed

text \<open>With an empty delimiter or an empty pattern the loops of \<open>str_split\<close> and \<open>str_replace\<close> never end.\<close>

theorem empty_pattern_never_returns:
  "std_str_split fo [text_value s, text_value []] = None
   \<and> std_str_replace fo [text_value s, text_value [], text_value to] = None"
proof -
  have "d \<noteq> [] \<or> prev > length s" if "split_loop d s prev acc = Some r" for d s prev acc r
    using that
    by (rule split_loop.raw_induct [where P = "\<lambda>d s prev acc r. d \<noteq> [] \<or> prev > length s", rotated]) (fastforce simp: find_from_def find_empty split: option.splits if_splits)
  from this [of "[]" s 0 "[]"] have 1: "split_loop [] s 0 [] = None" by (cases "split_loop [] s 0 []") auto
  have "d \<noteq> [] \<or> pos > length s" if "replace_loop d to s pos = Some r" for d to s pos r
    using that
    by (rule replace_loop.raw_induct [where P = "\<lambda>d to s pos r. d \<noteq> [] \<or> pos > length s", rotated]) (fastforce simp: find_from_def find_empty split: option.splits if_splits)
  from this [of "[]" to s 0] have "replace_loop [] to s 0 = None" by (cases "replace_loop [] to s 0") auto
  with 1 show ?thesis by (simp add: std_str_split_def std_str_replace_def has_types_def)
qed

text \<open>\<open>str_trim\<close> takes the longest blank ends off.\<close>

lemma trim_blanks_eq:
  "trim_blanks s = rev (dropWhile is_blank (rev (dropWhile is_blank s)))"
proof (cases "dropWhile is_blank s = []")
  case True
  then have "takeWhile is_blank s = s" by (metis append.right_neutral takeWhile_dropWhile_id)
  then show ?thesis by (simp only: trim_blanks_def Let_def True rev.simps dropWhile.simps if_True simp_thms)
next
  case False
  let ?a = "takeWhile is_blank s" and ?r = "dropWhile is_blank s"
  have s: "s = ?a @ ?r" by simp
  have "\<not> is_blank (hd ?r)" using False by (rule hd_dropWhile)
  then have b: "takeWhile is_blank (rev s) = takeWhile is_blank (rev ?r)"
    using False by (subst s) (simp only: rev_append, intro takeWhile_append1 [of "hd ?r"], auto)
  have len: "length s = length ?a + length ?r" by (metis length_append takeWhile_dropWhile_id)
  have r: "length ?r = length (takeWhile is_blank (rev ?r)) + length (dropWhile is_blank (rev ?r))"
    by (metis length_append length_rev takeWhile_dropWhile_id)
  have "dropWhile is_blank (rev ?r) \<noteq> []"
    using False \<open>\<not> is_blank (hd ?r)\<close> by (metis dropWhile_eq_Nil_conv hd_in_set set_rev)
  then have pos: "0 < length (dropWhile is_blank (rev ?r))" by simp
  have "length ?a \<noteq> length s"
    "length s - 1 - length (takeWhile is_blank (rev ?r)) - length ?a + 1 = length ?r - length (takeWhile is_blank (rev ?r))"
    using len r pos by linarith+
  then have "trim_blanks s = substr s (length ?a) (length ?r - length (takeWhile is_blank (rev ?r)))"
    by (simp only: trim_blanks_def Let_def b if_False)
  also have "\<dots> = take (length ?r - length (takeWhile is_blank (rev ?r))) ?r"
    by (simp add: substr_def dropWhile_eq_drop [symmetric])
  also have "\<dots> = rev (drop (length (takeWhile is_blank (rev ?r))) (rev ?r))"
    by (simp add: rev_drop)
  finally show ?thesis by (simp add: dropWhile_eq_drop [of is_blank "rev ?r"])
qed

lemma trim_ends:
  "\<exists>a b. s = a @ trim_blanks s @ b \<and> list_all is_blank a \<and> list_all is_blank b
     \<and> (trim_blanks s \<noteq> [] \<longrightarrow> \<not> is_blank (hd (trim_blanks s)) \<and> \<not> is_blank (last (trim_blanks s)))"
proof -
  let ?r = "dropWhile is_blank s"
  let ?b = "rev (takeWhile is_blank (rev ?r))"
  have r: "?r = trim_blanks s @ ?b"
    unfolding trim_blanks_eq by (metis rev_append rev_rev_ident takeWhile_dropWhile_id)
  have "s = takeWhile is_blank s @ trim_blanks s @ ?b"
    using r by (metis takeWhile_dropWhile_id)
  moreover have "list_all is_blank (takeWhile is_blank s)" "list_all is_blank ?b"
    by (auto simp: list_all_iff dest: set_takeWhileD)
  moreover have "\<not> is_blank (hd (trim_blanks s))" if "trim_blanks s \<noteq> []"
    using that r hd_dropWhile [of is_blank s] by (metis append_is_Nil_conv hd_append2)
  moreover have "\<not> is_blank (last (trim_blanks s))" if "trim_blanks s \<noteq> []"
    using that hd_dropWhile [of is_blank "rev ?r"] unfolding trim_blanks_eq by (simp add: last_rev)
  ultimately show ?thesis by blast
qed

end
