(* ===== verification/Tocin_Ffi_Cpp.thy ===== *)
theory Tocin_Ffi_Cpp
  imports Tocin_Ffi_Value
begin

text \<open>
  The C++ bridge, \<open>CppFFIImpl\<close> and its wrappers in \<open>src/ffi/ffi_cpp.cpp\<close>. The dynamic linker, the
  functions of the libraries, \<open>malloc\<close> and the growth of a vector are a parameter; its answers may
  depend on the calls so far, which the state records in order. A null pointer is 0. The map of
  libraries is the list of its entries in the order of the library.
\<close>

section \<open>The outside\<close>

text \<open>What the called function finds in a slot of \<open>arg_values\<close>. \<open>Freed_Text\<close> is a pointer to the
  characters of a temporary string that is gone, \<open>Freed_Slot\<close> a slot in a buffer that is gone.\<close>

datatype 'd call_arg =
    Int32_Arg "32 word" | Int64_Arg "64 word" | Double_Arg 'd | Pointer_Arg nat | Freed_Text | Freed_Slot

datatype arg_type = SINT32_ARG | SINT64_ARG | DOUBLE_ARG | POINTER_ARG

datatype 'd ffi_event =
    Lib_Opened string nat | Lib_Closed nat | Symbol_Asked nat string nat
  | Called nat "'d call_arg list" | Allocated nat | Released nat | Cleanup_Throws
  | Passed_By_Caller nat

text \<open>\<open>Passed_By_Caller\<close> is an address that a client hands to \<open>callFunctionPtr\<close>, \<open>Cleanup_Throws\<close> an
  exception that leaves a destructor.\<close>

definition event_of_cleanup :: "cleanup_event \<Rightarrow> 'd ffi_event" where
  "event_of_cleanup e = (case e of Frees a \<Rightarrow> Released a | Get_Throws \<Rightarrow> Cleanup_Throws)"

record 'd outside =
  dl_open :: "'d ffi_event list \<Rightarrow> string \<Rightarrow> nat"
  dl_symbol :: "'d ffi_event list \<Rightarrow> nat \<Rightarrow> string \<Rightarrow> nat"
  dl_message :: "'d ffi_event list \<Rightarrow> string"
  interface_ok :: "arg_type list \<Rightarrow> bool"
  call_result :: "'d ffi_event list \<Rightarrow> nat \<Rightarrow> 'd call_arg list \<Rightarrow> nat"
  malloc_result :: "'d ffi_event list \<Rightarrow> 64 word \<Rightarrow> nat"
  next_capacity :: "nat \<Rightarrow> nat"
  variant_message :: string
  result_in_place :: bool
  out_floats :: "'d float_ops"

section \<open>State\<close>

text \<open>The static variables, and \<open>initialized_\<close> of every bridge object.\<close>

record 'd cpp_state =
  loadedLibraries :: "(string \<times> nat) list"
  registeredFunctions :: "(string \<times> nat) list"
  cpp_error :: string
  cpp_events :: "'d ffi_event list"
  cpp_initialized :: "nat \<Rightarrow> bool"

definition new_cpp :: "'d cpp_state" where
  "new_cpp = \<lparr>loadedLibraries = [], registeredFunctions = [], cpp_error = [], cpp_events = [], cpp_initialized = \<lambda>i. False\<rparr>"

definition add_event :: "'d ffi_event \<Rightarrow> 'd cpp_state \<Rightarrow> 'd cpp_state" where
  "add_event e s = s\<lparr>cpp_events := cpp_events s @ [e]\<rparr>"

definition cpp_fail :: "string \<Rightarrow> 'd cpp_state \<Rightarrow> 'd cpp_state" where
  "cpp_fail msg s = s\<lparr>cpp_error := msg\<rparr>"

text \<open>A variable of type \<open>FFIValue\<close> with its metadata. Copying and moving leave the metadata of the
  target alone, so that a fresh copy has none.\<close>

record 'd cpp_value =
  cpp_held :: "'d ffi"
  cpp_metadata :: "string \<rightharpoonup> string"

definition cpp_plain :: "'d ffi \<Rightarrow> 'd cpp_value" where
  "cpp_plain v = \<lparr>cpp_held = v, cpp_metadata = Map.empty\<rparr>"

definition cpp_copy :: "'d cpp_value \<Rightarrow> 'd cpp_value" where
  "cpp_copy x = cpp_plain (ffi_copy (cpp_held x))"

definition setMetadata :: "string \<Rightarrow> string \<Rightarrow> 'd cpp_value \<Rightarrow> 'd cpp_value" where
  "setMetadata k v x = x\<lparr>cpp_metadata := (cpp_metadata x)(k \<mapsto> v)\<rparr>"

definition getMetadata :: "string \<Rightarrow> 'd cpp_value \<Rightarrow> string" where
  "getMetadata k x = (case cpp_metadata x k of None \<Rightarrow> [] | Some v \<Rightarrow> v)"

definition hasMetadata :: "string \<Rightarrow> 'd cpp_value \<Rightarrow> bool" where
  "hasMetadata k x = (cpp_metadata x k \<noteq> None)"

definition isPointer :: "'d cpp_value \<Rightarrow> bool" where
  "isPointer x = (ffi_getType (cpp_held x) = POINTER_TYPE)"

section \<open>Libraries and symbols\<close>

definition isLibraryLoaded :: "string \<Rightarrow> 'd cpp_state \<Rightarrow> bool" where
  "isLibraryLoaded p s = (map_of (loadedLibraries s) p \<noteq> None)"

definition loadLibrary :: "'d outside \<Rightarrow> string \<Rightarrow> 'd cpp_state \<Rightarrow> bool \<times> 'd cpp_state" where
  "loadLibrary env p s =
     (if isLibraryLoaded p s then (True, s)
      else let h = dl_open env (cpp_events s) p;
               s1 = add_event (Lib_Opened p h) s
           in if h = 0 then (False, cpp_fail (''Failed to load library: '' @ dl_message env (cpp_events s1)) s1)
              else (True, s1\<lparr>loadedLibraries := AList.update p h (loadedLibraries s1)\<rparr>))"

definition unloadLibrary :: "string \<Rightarrow> 'd cpp_state \<Rightarrow> bool \<times> 'd cpp_state" where
  "unloadLibrary p s =
     (case map_of (loadedLibraries s) p of
        None \<Rightarrow> (False, s)
      | Some h \<Rightarrow>
          let s1 = (if h \<noteq> 0 then add_event (Lib_Closed h) s else s)
          in (True, s1\<lparr>loadedLibraries := AList.delete p (loadedLibraries s1)\<rparr>))"

definition library_handle :: "string \<Rightarrow> 'd cpp_state \<Rightarrow> nat" where
  "library_handle p s = (case map_of (loadedLibraries s) p of None \<Rightarrow> 0 | Some h \<Rightarrow> h)"

definition getSymbol :: "'d outside \<Rightarrow> string \<Rightarrow> string \<Rightarrow> 'd cpp_state \<Rightarrow> nat \<times> 'd cpp_state" where
  "getSymbol env p n s =
     (let h = library_handle p s
      in if h = 0 then (0, cpp_fail (''Library not loaded: '' @ p) s)
         else let a = dl_symbol env (cpp_events s) h n;
                  s1 = add_event (Symbol_Asked h n a) s
              in if a = 0 then (0, cpp_fail (''Symbol not found: '' @ dl_message env (cpp_events s1)) s1)
                 else (a, s1))"

definition hasSymbol :: "'d outside \<Rightarrow> string \<Rightarrow> string \<Rightarrow> 'd cpp_state \<Rightarrow> bool \<times> 'd cpp_state" where
  "hasSymbol env p n s =
     (let h = library_handle p s
      in if h = 0 then (False, s)
         else let a = dl_symbol env (cpp_events s) h n
              in (a \<noteq> 0, add_event (Symbol_Asked h n a) s))"

definition put_function :: "string \<Rightarrow> nat \<Rightarrow> 'd cpp_state \<Rightarrow> 'd cpp_state" where
  "put_function n a s = s\<lparr>registeredFunctions := AList.update n a (registeredFunctions s)\<rparr>"

definition registerFunction :: "'d outside \<Rightarrow> string \<Rightarrow> string \<Rightarrow> 'd cpp_state \<Rightarrow> bool \<times> 'd cpp_state" where
  "registerFunction env p f s =
     (let (a, s1) = getSymbol env p f s
      in if a = 0 then (False, s1) else (True, put_function f a s1))"

text \<open>The guard that \<open>registerClass\<close> and \<open>registerTemplate\<close> begin with.\<close>

definition ensure_loaded :: "'d outside \<Rightarrow> string \<Rightarrow> 'd cpp_state \<Rightarrow> bool \<times> 'd cpp_state" where
  "ensure_loaded env p s = (if \<not> isLibraryLoaded p s then loadLibrary env p s else (True, s))"

definition registerClass :: "'d outside \<Rightarrow> string \<Rightarrow> string \<Rightarrow> 'd cpp_state \<Rightarrow> bool \<times> 'd cpp_state" where
  "registerClass env p c s =
     (let (loaded, s1) = ensure_loaded env p s
      in if \<not> loaded then (False, s1)
         else let ctorName = c @ ''_create'';
                  dtorName = c @ ''_destroy'';
                  (ctor, s2) = getSymbol env p ctorName s1;
                  (dtor, s3) = getSymbol env p dtorName s2
              in if ctor = 0 \<or> dtor = 0 then
                   (False, cpp_fail (''Class must export '' @ ctorName @ '' and '' @ dtorName @ '' functions'') s3)
                 else (True, put_function (c @ ''::__dtor'') dtor (put_function (c @ ''::__ctor'') ctor s3)))"

definition registerTemplate :: "'d outside \<Rightarrow> string \<Rightarrow> string \<Rightarrow> 'd cpp_state \<Rightarrow> bool \<times> 'd cpp_state" where
  "registerTemplate env p t s =
     (let (loaded, s1) = ensure_loaded env p s
      in if \<not> loaded then (False, s1)
         else let n = t @ ''_instantiate'';
                  (a, s2) = getSymbol env p n s1
              in if a = 0 then (False, cpp_fail (''Template must export '' @ n @ '' function'') s2)
                 else (True, put_function (''template::'' @ t @ ''::instantiate'') a s2))"

section \<open>Calling\<close>

text \<open>The four vectors that keep the converted arguments. A push into a full vector moves it into a new
  buffer, and the pointers into the old one dangle.\<close>

datatype storage = Int_Storage | Long_Storage | Double_Storage | Ptr_Storage

record buffer =
  buf_capacity :: nat
  buf_length :: nat
  buf_number :: nat

definition empty_buffer :: buffer where
  "empty_buffer = \<lparr>buf_capacity = 0, buf_length = 0, buf_number = 0\<rparr>"

definition buffer_push :: "(nat \<Rightarrow> nat) \<Rightarrow> buffer \<Rightarrow> buffer" where
  "buffer_push grow b =
     (if buf_length b < buf_capacity b then b\<lparr>buf_length := buf_length b + 1\<rparr>
      else \<lparr>buf_capacity = grow (buf_length b), buf_length = buf_length b + 1, buf_number = buf_number b + 1\<rparr>)"

definition convert_arg :: "'d float_ops \<Rightarrow> 'd ffi \<Rightarrow> (storage \<times> arg_type \<times> 'd call_arg) option" where
  "convert_arg fo v =
     (case ffi_getType v of
        BOOLEAN_TYPE \<Rightarrow> map_option (\<lambda>b. (Int_Storage, SINT32_ARG, Int32_Arg (if b then 1 else 0))) (asBoolean fo v)
      | INTEGER_TYPE \<Rightarrow>
          map_option (\<lambda>i. if - (2 ^ 31) \<le> sint i \<and> sint i \<le> 2 ^ 31 - 1
                          then (Int_Storage, SINT32_ARG, Int32_Arg (ucast i))
                          else (Long_Storage, SINT64_ARG, Int64_Arg i)) (asInt64 fo v)
      | FLOAT_TYPE \<Rightarrow> map_option (\<lambda>d. (Double_Storage, DOUBLE_ARG, Double_Arg d)) (asDouble fo v)
      | STRING_TYPE \<Rightarrow> map_option (\<lambda>t. (Ptr_Storage, POINTER_ARG, Freed_Text)) (asString fo v)
      | POINTER_TYPE \<Rightarrow> map_option (\<lambda>p. (Ptr_Storage, POINTER_ARG, Pointer_Arg p)) (asPointer v)
      | _ \<Rightarrow> Some (Ptr_Storage, POINTER_ARG, Pointer_Arg 0))"

text \<open>Each argument is pushed, and \<open>&storage.back()\<close> is the buffer of that moment.\<close>

primrec place_args ::
  "(nat \<Rightarrow> nat) \<Rightarrow> (storage \<times> 'a) list \<Rightarrow> (storage \<Rightarrow> buffer) \<Rightarrow> (storage \<times> nat \<times> 'a) list \<times> (storage \<Rightarrow> buffer)" where
  "place_args grow [] bs = ([], bs)"
| "place_args grow (x # xs) bs =
     (let b = buffer_push grow (bs (fst x));
          (slots, bs') = place_args grow xs (bs(fst x := b))
      in ((fst x, buf_number b, snd x) # slots, bs'))"

definition read_slots :: "(nat \<Rightarrow> nat) \<Rightarrow> (storage \<times> 'd call_arg) list \<Rightarrow> 'd call_arg list" where
  "read_slots grow xs =
     (let (slots, bs) = place_args grow xs (\<lambda>st. empty_buffer)
      in map (\<lambda>(st, n, a). if n = buf_number (bs st) then a else Freed_Slot) slots)"

definition callFunctionPtr ::
  "'d outside \<Rightarrow> nat \<Rightarrow> string \<Rightarrow> 'd ffi list \<Rightarrow> 'd cpp_state \<Rightarrow> 'd ffi \<times> 'd cpp_state" where
  "callFunctionPtr env a name args s =
     (if a = 0 then (ffi_undefined, cpp_fail ''Invalid function pointer'' s)
      else case those (map (convert_arg (out_floats env)) args) of
             None \<Rightarrow> (ffi_undefined, cpp_fail (''FFI call failed: '' @ variant_message env) s)
           | Some cs \<Rightarrow>
               if \<not> interface_ok env (map (fst \<circ> snd) cs) then
                 (ffi_undefined, cpp_fail ''Failed to prepare FFI call interface'' s)
               else let vs = read_slots (next_capacity env) (map (\<lambda>(st, ty, v). (st, v)) cs);
                        r = call_result env (cpp_events s) a vs;
                        s1 = add_event (Called a vs) s
                    in (if r \<noteq> 0 then ffi_of_pointer r ''unknown'' else ffi_undefined, s1))"

definition function_of :: "string \<Rightarrow> 'd cpp_state \<Rightarrow> nat option" where
  "function_of n s = map_of (registeredFunctions s) n"

definition hasFunction :: "string \<Rightarrow> 'd cpp_state \<Rightarrow> bool" where
  "hasFunction n s = (function_of n s \<noteq> None)"

text \<open>The lookup of a registered function, an error message when it is missing, and the call.\<close>

definition call_registered ::
  "'d outside \<Rightarrow> string \<Rightarrow> string \<Rightarrow> string \<Rightarrow> 'd ffi list \<Rightarrow> 'd cpp_state \<Rightarrow> 'd ffi \<times> 'd cpp_state" where
  "call_registered env key name missing args s =
     (case function_of key s of
        None \<Rightarrow> (ffi_undefined, cpp_fail (missing @ name) s)
      | Some a \<Rightarrow> callFunctionPtr env a key args s)"

definition callFunction :: "'d outside \<Rightarrow> string \<Rightarrow> 'd ffi list \<Rightarrow> 'd cpp_state \<Rightarrow> 'd ffi \<times> 'd cpp_state" where
  "callFunction env f args s = call_registered env f f ''Function not found: '' args s"

section \<open>Classes, instances and templates\<close>

text \<open>The assignment of a fresh value in \<open>destroyInstance\<close> frees a pointer that the instance owns. The
  instance that \<open>createInstance\<close> returns keeps its metadata when the compiler builds the result
  in place; a move would lose it.\<close>

definition createInstance ::
  "'d outside \<Rightarrow> string \<Rightarrow> 'd ffi list \<Rightarrow> 'd cpp_state \<Rightarrow> 'd cpp_value \<times> 'd cpp_state" where
  "createInstance env c args s =
     (case function_of (c @ ''::__ctor'') s of
        None \<Rightarrow> (cpp_plain ffi_undefined, cpp_fail (''Class not registered: '' @ c) s)
      | Some a \<Rightarrow>
          let (v, s1) = callFunctionPtr env a (c @ ''::__ctor'') args s;
              x = (if isPointer (cpp_plain v) then setMetadata ''__class'' c (cpp_plain v) else cpp_plain v)
          in (if result_in_place env then x else cpp_plain (cpp_held x), s1))"

definition destroyInstance ::
  "'d outside \<Rightarrow> string \<Rightarrow> 'd cpp_value \<Rightarrow> 'd cpp_state \<Rightarrow> (bool \<times> 'd cpp_value) \<times> 'd cpp_state" where
  "destroyInstance env c x s =
     (if \<not> isPointer x then ((False, x), cpp_fail ''Cannot destroy non-pointer instance'' s)
      else case function_of (c @ ''::__dtor'') s of
             None \<Rightarrow> ((False, x), cpp_fail (''Class not registered: '' @ c) s)
           | Some a \<Rightarrow>
               let (r, s1) = callFunctionPtr env a (c @ ''::__dtor'') [ffi_copy (cpp_held x)] s
               in ((True, x\<lparr>cpp_held := ffi_undefined\<rparr>),
                   s1\<lparr>cpp_events := cpp_events s1 @ map event_of_cleanup (ffi_frees (cpp_held x))\<rparr>))"

text \<open>The tests that the operations on an instance share; the class name when they pass.\<close>

definition instance_class :: "string \<Rightarrow> 'd cpp_value \<Rightarrow> string + string" where
  "instance_class what x =
     (if \<not> isPointer x then Inl (''Cannot '' @ what @ '' non-pointer instance'')
      else if getMetadata ''__class'' x = [] then Inl ''Instance does not have class metadata''
      else Inr (getMetadata ''__class'' x))"

definition getMember :: "'d outside \<Rightarrow> 'd cpp_value \<Rightarrow> string \<Rightarrow> 'd cpp_state \<Rightarrow> 'd ffi \<times> 'd cpp_state" where
  "getMember env x m s =
     (case instance_class ''get member of'' x of
        Inl e \<Rightarrow> (ffi_undefined, cpp_fail e s)
      | Inr c \<Rightarrow>
          call_registered env (c @ ''_get_'' @ m) (c @ ''_get_'' @ m) ''Member getter not found: ''
            [ffi_copy (cpp_held x)] s)"

definition setMember ::
  "'d outside \<Rightarrow> 'd cpp_value \<Rightarrow> string \<Rightarrow> 'd ffi \<Rightarrow> 'd cpp_state \<Rightarrow> bool \<times> 'd cpp_state" where
  "setMember env x m v s =
     (case instance_class ''set member of'' x of
        Inl e \<Rightarrow> (False, cpp_fail e s)
      | Inr c \<Rightarrow>
          (case function_of (c @ ''_set_'' @ m) s of
             None \<Rightarrow> (False, cpp_fail (''Member setter not found: '' @ c @ ''_set_'' @ m) s)
           | Some a \<Rightarrow>
               (True, snd (callFunctionPtr env a (c @ ''_set_'' @ m) [ffi_copy (cpp_held x), ffi_copy v] s))))"

definition callMethod ::
  "'d outside \<Rightarrow> 'd cpp_value \<Rightarrow> string \<Rightarrow> 'd ffi list \<Rightarrow> 'd cpp_state \<Rightarrow> 'd ffi \<times> 'd cpp_state" where
  "callMethod env x m args s =
     (case instance_class ''call method on'' x of
        Inl e \<Rightarrow> (ffi_undefined, cpp_fail e s)
      | Inr c \<Rightarrow>
          call_registered env (c @ ''_'' @ m) (c @ ''_'' @ m) ''Method not found: ''
            (ffi_copy (cpp_held x) # map ffi_copy args) s)"

definition callStaticMethod ::
  "'d outside \<Rightarrow> string \<Rightarrow> string \<Rightarrow> 'd ffi list \<Rightarrow> 'd cpp_state \<Rightarrow> 'd ffi \<times> 'd cpp_state" where
  "callStaticMethod env c m args s =
     call_registered env (c @ ''_static_'' @ m) (c @ ''_static_'' @ m) ''Static method not found: '' args s"

primrec comma_separated :: "string list \<Rightarrow> string" where
  "comma_separated [] = []"
| "comma_separated (t # ts) = t @ concat (map (\<lambda>u. '','' @ u) ts)"

definition instance_name :: "string \<Rightarrow> string list \<Rightarrow> string" where
  "instance_name t tys = t @ ''<'' @ comma_separated tys @ ''>''"

text \<open>None is the exception of \<open>asString\<close>.\<close>

definition instantiateTemplate ::
  "'d outside \<Rightarrow> string \<Rightarrow> string list \<Rightarrow> 'd cpp_state \<Rightarrow> string option \<times> 'd cpp_state" where
  "instantiateTemplate env t tys s =
     (case function_of (''template::'' @ t @ ''::instantiate'') s of
        None \<Rightarrow> (Some [], cpp_fail (''Template not registered: '' @ t) s)
      | Some a \<Rightarrow>
          let (r, s1) = callFunctionPtr env a (t @ ''::instantiate'') (map (\<lambda>ty. ffi_make STRING_TYPE (P_String ty)) tys) s
          in (if ffi_getType r = STRING_TYPE then asString (out_floats env) r else Some (instance_name t tys), s1))"

section \<open>Values, memory and errors\<close>

definition toFFIValue :: "'v option \<Rightarrow> 'd ffi" where
  "toFFIValue v = (case v of None \<Rightarrow> ffi_createNull | Some x \<Rightarrow> ffi_undefined)"

definition fromFFIValue :: "'d ffi \<Rightarrow> 'v option" where
  "fromFFIValue v = None"

definition createVector :: "'d ffi list \<Rightarrow> 'd ffi" where
  "createVector vs = ffi_make ARRAY_TYPE (P_Array (map ffi_copy vs))"

text \<open>Only the entries whose key is a string are kept; a later entry replaces an earlier one.\<close>

primrec map_entries :: "'d float_ops \<Rightarrow> ('d ffi \<times> 'd ffi) list \<Rightarrow> (string \<times> 'd ffi) list \<Rightarrow> (string \<times> 'd ffi) list option" where
  "map_entries fo [] kvs = Some kvs"
| "map_entries fo (e # es) kvs =
     (if ffi_getType (fst e) = STRING_TYPE then
        (case asString fo (fst e) of
           None \<Rightarrow> None
         | Some k \<Rightarrow> map_entries fo es (AList.update k (ffi_copy (snd e)) kvs))
      else map_entries fo es kvs)"

definition createMap :: "'d float_ops \<Rightarrow> ('d ffi \<times> 'd ffi) list \<Rightarrow> 'd ffi option" where
  "createMap fo es = map_option (\<lambda>kvs. ffi_make OBJECT_TYPE (P_Object (map (map_prod id ffi_copy) kvs))) (map_entries fo es [])"

definition allocateMemory :: "'d outside \<Rightarrow> 64 word \<Rightarrow> string \<Rightarrow> 'd cpp_state \<Rightarrow> 'd ffi \<times> 'd cpp_state" where
  "allocateMemory env n ty s =
     (let a = malloc_result env (cpp_events s) n;
          s1 = add_event (Allocated a) s
      in if a = 0 then (ffi_undefined, cpp_fail ''Memory allocation failed'' s1) else (ffi_of_pointer a ty, s1))"

definition deallocateMemory :: "'d cpp_value \<Rightarrow> 'd cpp_state \<Rightarrow> (bool \<times> 'd cpp_state) option" where
  "deallocateMemory x s =
     (if isPointer x then map_option (\<lambda>a. (True, add_event (Released a) s)) (asPointer (cpp_held x))
      else Some (False, s))"

definition createReference :: "nat \<Rightarrow> 'd ffi" where
  "createReference addr = ffi_of_pointer addr ''reference''"

definition dereference :: "'d cpp_value \<Rightarrow> 'd cpp_state \<Rightarrow> 'd ffi \<times> 'd cpp_state" where
  "dereference x s =
     (if \<not> isPointer x then (ffi_undefined, cpp_fail ''Cannot dereference non-pointer value'' s)
      else (ffi_undefined, s))"

definition cpp_hasError :: "'d cpp_state \<Rightarrow> bool" where
  "cpp_hasError s = (cpp_error s \<noteq> [])"

definition cpp_clearError :: "'d cpp_state \<Rightarrow> 'd cpp_state" where
  "cpp_clearError s = s\<lparr>cpp_error := []\<rparr>"

definition cpp_eval :: "string \<Rightarrow> 'd cpp_state \<Rightarrow> 'd ffi \<times> 'd cpp_state" where
  "cpp_eval src s = (ffi_undefined, cpp_fail ''C++ FFI does not support eval'' s)"

definition getVariable :: "string \<Rightarrow> 'd cpp_state \<Rightarrow> 'd ffi \<times> 'd cpp_state" where
  "getVariable n s = (ffi_undefined, cpp_fail ''Variable access not implemented'' s)"

definition setVariable :: "string \<Rightarrow> 'd ffi \<Rightarrow> 'd cpp_state \<Rightarrow> 'd cpp_state" where
  "setVariable n v s = cpp_fail ''Variable setting not implemented'' s"

definition getSupportedFeatures :: "string list" where
  "getSupportedFeatures = [''dynamic_library_loading'', ''function_calling'', ''basic_types'']"

definition supportsFeature :: "string \<Rightarrow> bool" where
  "supportsFeature f = (f \<in> set getSupportedFeatures)"

text \<open>\<open>initialize\<close>, \<open>finalize\<close> and the destructor of the bridge object \<open>i\<close>; the tables are shared by all
  of them.\<close>

definition cpp_initialize :: "nat \<Rightarrow> 'd cpp_state \<Rightarrow> bool \<times> 'd cpp_state" where
  "cpp_initialize i s = (True, s\<lparr>cpp_initialized := (cpp_initialized s)(i := True)\<rparr>)"

definition close_all :: "(string \<times> nat) list \<Rightarrow> 'd cpp_state \<Rightarrow> 'd cpp_state" where
  "close_all ls s = s\<lparr>cpp_events := cpp_events s @ map Lib_Closed (filter (\<lambda>h. h \<noteq> 0) (map snd ls))\<rparr>"

definition cpp_finalize :: "nat \<Rightarrow> 'd cpp_state \<Rightarrow> 'd cpp_state" where
  "cpp_finalize i s =
     (close_all (loadedLibraries s) s)
       \<lparr>loadedLibraries := [], registeredFunctions := [], cpp_initialized := (cpp_initialized s)(i := False)\<rparr>"

definition cpp_destroy :: "nat \<Rightarrow> 'd cpp_state \<Rightarrow> 'd cpp_state" where
  "cpp_destroy i s = (if cpp_initialized s i then cpp_finalize i s else s)"

section \<open>The wrapper objects\<close>

text \<open>\<open>CppLibrary\<close>: the path, \<open>loaded_\<close> and \<open>handle_\<close>.\<close>

record cpp_library =
  lib_path :: string
  lib_loaded :: bool
  lib_handle :: nat

definition lib_load :: "'d outside \<Rightarrow> cpp_library \<Rightarrow> 'd cpp_state \<Rightarrow> (bool \<times> cpp_library) \<times> 'd cpp_state" where
  "lib_load env l s =
     (if lib_loaded l then ((True, l), s)
      else let (b, s1) = loadLibrary env (lib_path l) s;
               l1 = l\<lparr>lib_loaded := b\<rparr>
           in ((b, if b then l1\<lparr>lib_handle := library_handle (lib_path l) s1\<rparr> else l1), s1))"

definition lib_unload :: "cpp_library \<Rightarrow> 'd cpp_state \<Rightarrow> (bool \<times> cpp_library) \<times> 'd cpp_state" where
  "lib_unload l s =
     (if \<not> lib_loaded l then ((True, l), s)
      else let (b, s1) = unloadLibrary (lib_path l) s
           in ((b, if b then l\<lparr>lib_loaded := False, lib_handle := 0\<rparr> else l), s1))"

definition lib_getSymbol :: "'d outside \<Rightarrow> cpp_library \<Rightarrow> string \<Rightarrow> 'd cpp_state \<Rightarrow> nat \<times> 'd cpp_state" where
  "lib_getSymbol env l n s = (if \<not> lib_loaded l then (0, s) else getSymbol env (lib_path l) n s)"

definition lib_hasSymbol :: "'d outside \<Rightarrow> cpp_library \<Rightarrow> string \<Rightarrow> 'd cpp_state \<Rightarrow> bool \<times> 'd cpp_state" where
  "lib_hasSymbol env l n s = (if \<not> lib_loaded l then (False, s) else hasSymbol env (lib_path l) n s)"

definition lib_registerFunction :: "'d outside \<Rightarrow> cpp_library \<Rightarrow> string \<Rightarrow> 'd cpp_state \<Rightarrow> bool \<times> 'd cpp_state" where
  "lib_registerFunction env l f s = (if \<not> lib_loaded l then (False, s) else registerFunction env (lib_path l) f s)"

definition lib_registerClass :: "'d outside \<Rightarrow> cpp_library \<Rightarrow> string \<Rightarrow> 'd cpp_state \<Rightarrow> bool \<times> 'd cpp_state" where
  "lib_registerClass env l c s = (if \<not> lib_loaded l then (False, s) else registerClass env (lib_path l) c s)"

definition lib_registerTemplate :: "'d outside \<Rightarrow> cpp_library \<Rightarrow> string \<Rightarrow> 'd cpp_state \<Rightarrow> bool \<times> 'd cpp_state" where
  "lib_registerTemplate env l t s = (if \<not> lib_loaded l then (False, s) else registerTemplate env (lib_path l) t s)"

text \<open>\<open>CppClass\<close> and \<open>CppTemplate\<close> forward to the bridge under the names below. \<open>CppInstance\<close> keeps a copy of the
  instance it is given.\<close>

definition class_hasMethod :: "string \<Rightarrow> string \<Rightarrow> 'd cpp_state \<Rightarrow> bool" where
  "class_hasMethod c m s = hasFunction (c @ ''_'' @ m) s"

definition class_hasStaticMethod :: "string \<Rightarrow> string \<Rightarrow> 'd cpp_state \<Rightarrow> bool" where
  "class_hasStaticMethod c m s = hasFunction (c @ ''_static_'' @ m) s"

definition class_hasMember :: "string \<Rightarrow> string \<Rightarrow> 'd cpp_state \<Rightarrow> bool" where
  "class_hasMember c m s = hasFunction (c @ ''_get_'' @ m) s"

definition template_hasInstantiation :: "string \<Rightarrow> string list \<Rightarrow> 'd cpp_state \<Rightarrow> bool" where
  "template_hasInstantiation t tys s = hasFunction (instance_name t tys) s"

record 'd cpp_instance =
  inst_value :: "'d cpp_value"
  inst_class :: string

definition new_CppInstance :: "'d cpp_value \<Rightarrow> string \<Rightarrow> 'd cpp_instance" where
  "new_CppInstance x c = \<lparr>inst_value = cpp_copy x, inst_class = c\<rparr>"

definition inst_callMethod ::
  "'d outside \<Rightarrow> 'd cpp_instance \<Rightarrow> string \<Rightarrow> 'd ffi list \<Rightarrow> 'd cpp_state \<Rightarrow> 'd ffi \<times> 'd cpp_state" where
  "inst_callMethod env i m args s = callMethod env (inst_value i) m args s"

definition inst_getMember :: "'d outside \<Rightarrow> 'd cpp_instance \<Rightarrow> string \<Rightarrow> 'd cpp_state \<Rightarrow> 'd ffi \<times> 'd cpp_state" where
  "inst_getMember env i m s = getMember env (inst_value i) m s"

definition inst_setMember ::
  "'d outside \<Rightarrow> 'd cpp_instance \<Rightarrow> string \<Rightarrow> 'd ffi \<Rightarrow> 'd cpp_state \<Rightarrow> bool \<times> 'd cpp_state" where
  "inst_setMember env i m v s = setMember env (inst_value i) m v s"

section \<open>Arguments\<close>

text \<open>How many of the arguments go to a storage.\<close>

definition uses :: "storage \<Rightarrow> (storage \<times> 'a) list \<Rightarrow> nat" where
  "uses st xs = length (filter (\<lambda>x. fst x = st) xs)"

lemma uses_simps [simp]:
  "uses st [] = 0" "uses st (x # xs) = (if fst x = st then Suc (uses st xs) else uses st xs)"
  by (simp_all add: uses_def)

lemma place_args_length: "length (fst (place_args grow xs bs)) = length xs"
  by (induction xs arbitrary: bs) (auto simp: Let_def split: prod.splits, metis fst_conv)

lemma place_args_buffers:
  "snd (place_args grow xs bs) st = (buffer_push grow ^^ uses st xs) (bs st)"
  by (induction xs arbitrary: bs) (auto simp: Let_def case_prod_beta funpow_swap1)

lemma place_args_same: "map (\<lambda>(st, n, a). (st, a)) (fst (place_args grow xs bs)) = xs"
  by (induction xs arbitrary: bs) (auto simp: Let_def case_prod_beta)

text \<open>The first buffer of a storage has room for \<open>grow 0\<close> values.\<close>

definition first_buffer :: "(nat \<Rightarrow> nat) \<Rightarrow> nat \<Rightarrow> buffer \<Rightarrow> bool" where
  "first_buffer grow k b \<longleftrightarrow> k \<le> grow 0 \<and> b = (if k = 0 then empty_buffer else \<lparr>buf_capacity = grow 0, buf_length = k, buf_number = 1\<rparr>)"

lemma first_buffer_push:
  "first_buffer grow k b \<Longrightarrow> k < grow 0 \<Longrightarrow> first_buffer grow (Suc k) (buffer_push grow b)"
  by (auto simp: first_buffer_def buffer_push_def empty_buffer_def)

lemma first_buffer_pushes:
  "first_buffer grow k b \<Longrightarrow> k + n \<le> grow 0 \<Longrightarrow> first_buffer grow (k + n) ((buffer_push grow ^^ n) b)"
proof (induction n)
  case (Suc n)
  then show ?case using first_buffer_push [of grow "k + n" "(buffer_push grow ^^ n) b"] by simp
qed simp

lemma buffer_number_mono: "buf_number b \<le> buf_number ((buffer_push grow ^^ n) b)"
  by (induction n) (auto simp: buffer_push_def elim: order_trans)

lemma full_buffer_moves:
  fixes grow :: "nat \<Rightarrow> nat"
  assumes "0 < grow 0" and "grow 0 < n"
  shows "1 < buf_number ((buffer_push grow ^^ n) empty_buffer)"
proof -
  let ?b = "(buffer_push grow ^^ grow 0) empty_buffer"
  have "first_buffer grow (0 + grow 0) ?b"
    by (rule first_buffer_pushes) (simp_all add: first_buffer_def)
  then have 1: "buf_number (buffer_push grow ?b) = 2"
    using assms(1) by (simp add: first_buffer_def buffer_push_def)
  have "n = (n - Suc (grow 0)) + Suc (grow 0)" using assms(2) by simp
  then have "(buffer_push grow ^^ n) empty_buffer
    = (buffer_push grow ^^ (n - Suc (grow 0))) (buffer_push grow ?b)"
    by (metis comp_apply funpow.simps(2) funpow_add)
  then show ?thesis using buffer_number_mono [of "buffer_push grow ?b" "n - Suc (grow 0)" grow] 1 by simp
qed

lemma place_args_first:
  assumes "\<forall>st. first_buffer grow (k st) (bs st)" and "\<forall>st. k st + uses st xs \<le> grow 0"
  shows "\<forall>(st, n, a) \<in> set (fst (place_args grow xs bs)). n = 1"
  using assms
proof (induction xs arbitrary: k bs)
  case (Cons x xs)
  let ?b = "buffer_push grow (bs (fst x))"
  let ?k = "k(fst x := Suc (k (fst x)))"
  have k: "k (fst x) < grow 0" using Cons.prems(2) [rule_format, of "fst x"] by simp
  then have b: "first_buffer grow (Suc (k (fst x))) ?b"
    using Cons.prems(1) by (intro first_buffer_push) auto
  have "\<forall>(st, n, a) \<in> set (fst (place_args grow xs (bs(fst x := ?b)))). n = 1"
  proof (rule Cons.IH)
    show "\<forall>st. first_buffer grow (?k st) ((bs(fst x := ?b)) st)" using b Cons.prems(1) by simp
    show "\<forall>st. ?k st + uses st xs \<le> grow 0"
      using Cons.prems(2) by (auto split: if_splits)
  qed
  moreover have "buf_number ?b = 1" using b by (simp add: first_buffer_def)
  ultimately show ?case by (simp add: Let_def case_prod_beta)
qed simp

lemma place_args_head:
  assumes "0 < uses st xs" and "first_buffer grow 0 (bs st)" and "0 < grow 0"
  shows "\<exists>a. (st, 1, a) \<in> set (fst (place_args grow xs bs))"
  using assms
proof (induction xs arbitrary: bs)
  case (Cons x xs)
  show ?case
  proof (cases "fst x = st")
    case True
    have "buf_number (buffer_push grow (bs st)) = 1"
      using Cons.prems(2,3) by (simp add: first_buffer_def buffer_push_def empty_buffer_def)
    then show ?thesis using True by (auto simp: Let_def case_prod_beta)
  next
    case False
    let ?bs = "bs(fst x := buffer_push grow (bs (fst x)))"
    have "\<exists>a. (st, 1, a) \<in> set (fst (place_args grow xs ?bs))"
      using False Cons.prems by (intro Cons.IH) auto
    then show ?thesis by (auto simp: Let_def case_prod_beta)
  qed
qed simp

lemma read_slots_eq:
  "read_slots grow xs =
     map (\<lambda>(st, n, a). if n = buf_number ((buffer_push grow ^^ uses st xs) empty_buffer) then a else Freed_Slot)
       (fst (place_args grow xs (\<lambda>st. empty_buffer)))"
  unfolding read_slots_def Let_def case_prod_beta by (simp add: place_args_buffers)

lemma read_slots_roomy:
  assumes "\<forall>st. uses st xs \<le> grow 0"
  shows "read_slots grow xs = map snd xs"
proof -
  let ?slots = "fst (place_args grow xs (\<lambda>st. empty_buffer))"
  have "\<forall>(st, n, a) \<in> set ?slots. n = 1"
    by (rule place_args_first [where k = "\<lambda>st. 0"]) (use assms in \<open>simp_all add: first_buffer_def\<close>)
  moreover have "buf_number ((buffer_push grow ^^ uses st xs) empty_buffer) = 1" if "(st, n, a) \<in> set ?slots" for st n a
  proof -
    have "(st, a) \<in> set (map (\<lambda>(st, n, a). (st, a)) ?slots)" using that by force
    then have "(st, a) \<in> set xs" by (simp only: place_args_same)
    then have "0 < uses st xs" by (force simp: uses_def filter_empty_conv)
    then show ?thesis
      using first_buffer_pushes [of grow 0 empty_buffer "uses st xs"] assms by (simp add: first_buffer_def)
  qed
  ultimately have "read_slots grow xs = map (\<lambda>(st, n, a). a) ?slots"
    unfolding read_slots_eq by (intro map_cong) auto
  also have "\<dots> = map snd (map (\<lambda>(st, n, a). (st, a)) ?slots)" by (simp add: case_prod_beta)
  finally show ?thesis by (simp only: place_args_same)
qed

lemma read_slots_freed:
  assumes "0 < grow 0" and "grow 0 < uses st xs"
  shows "Freed_Slot \<in> set (read_slots grow xs)"
proof -
  obtain a where "(st, 1, a) \<in> set (fst (place_args grow xs (\<lambda>st. empty_buffer)))"
    using place_args_head [of st xs grow "\<lambda>st. empty_buffer"] assms by (auto simp: first_buffer_def)
  then show ?thesis
    using full_buffer_moves [where grow = grow and n = "uses st xs", OF assms] unfolding read_slots_eq by force
qed

text \<open>C30: a call through a non-null address passes every argument as it was converted as long as no storage gets more
  values than its first buffer has room for; when one does, the called function reads freed memory. The
  first buffer of the usual libraries has room for one value.\<close>

theorem arguments_delivered:
  assumes "0 < next_capacity env 0" and "a \<noteq> 0"
    and "those (map (convert_arg (out_floats env)) args) = Some cs" and "interface_ok env (map (fst \<circ> snd) cs)"
  shows "\<exists>vs. snd (callFunctionPtr env a name args s) = add_event (Called a vs) s
    \<and> (if \<forall>st. uses st cs \<le> next_capacity env 0 then vs = map (snd \<circ> snd) cs else Freed_Slot \<in> set vs)"
proof -
  let ?xs = "map (\<lambda>(st, ty, v). (st, v)) cs"
  have u: "uses st ?xs = uses st cs" for st
    by (induction cs) (auto simp: uses_def)
  have m: "map snd ?xs = map (snd \<circ> snd) cs" by (simp add: comp_def case_prod_beta)
  have "if \<forall>st. uses st cs \<le> next_capacity env 0 then read_slots (next_capacity env) ?xs = map (snd \<circ> snd) cs
        else Freed_Slot \<in> set (read_slots (next_capacity env) ?xs)"
    using read_slots_roomy [of ?xs "next_capacity env"] read_slots_freed [of "next_capacity env" _ ?xs] assms(1)
    unfolding u m by (auto simp: not_le)
  then show ?thesis
    using assms(2-4) by (intro exI [of _ "read_slots (next_capacity env) ?xs"]) (simp add: callFunctionPtr_def Let_def)
qed

text \<open>An environment in which every library opens as number 7, every symbol is found at address 9, every call
  returns null and the capacity of a vector doubles.\<close>

definition plain_floats :: "int float_ops" where
  "plain_floats =
     \<lparr>fl_nonzero = \<lambda>d. d \<noteq> 0, fl_equal = (=), fl_of_int = sint, fl_of_bool = (\<lambda>b. if b then 1 else 0),
      fl_to_int32 = word_of_int, fl_to_int64 = word_of_int, fl_parse = \<lambda>t. None, fl_text = show_int, fl_zero = 0\<rparr>"

definition plain_outside :: "int outside" where
  "plain_outside =
     \<lparr>dl_open = \<lambda>es p. 7, dl_symbol = \<lambda>es h n. 9, dl_message = \<lambda>es. ''error'', interface_ok = \<lambda>ts. True,
      call_result = \<lambda>es a vs. 0, malloc_result = \<lambda>es n. 5, next_capacity = \<lambda>n. if n = 0 then 1 else 2 * n,
      variant_message = ''bad_variant_access'', result_in_place = True, out_floats = plain_floats\<rparr>"

lemma arguments_delivered_witness:
  "\<exists>vs. snd (callFunctionPtr plain_outside 9 ''add'' [ffi_make INTEGER_TYPE (P_Int 1), ffi_make INTEGER_TYPE (P_Int 2)] new_cpp)
       = add_event (Called 9 vs) new_cpp \<and> Freed_Slot \<in> set vs"
proof -
  let ?cs = "[(Int_Storage, SINT32_ARG, Int32_Arg 1), (Int_Storage, SINT32_ARG, Int32_Arg 2)]"
  let ?args = "[ffi_make INTEGER_TYPE (P_Int 1), ffi_make INTEGER_TYPE (P_Int 2)]"
  have "0 < next_capacity plain_outside 0" "(9::nat) \<noteq> 0"
    "those (map (convert_arg (out_floats plain_outside)) ?args) = Some ?cs"
    "interface_ok plain_outside (map (fst \<circ> snd) ?cs)"
    by (simp_all add: plain_outside_def convert_arg_def ffi_make_def asInt64_def get_int_def)
  note delivered = arguments_delivered [OF this, of "''add''" new_cpp]
  have "\<not> uses Int_Storage ?cs \<le> next_capacity plain_outside 0" by (simp add: plain_outside_def)
  then have n: "\<not> (\<forall>st. uses st ?cs \<le> next_capacity plain_outside 0)" by blast
  show ?thesis using delivered unfolding if_not_P [OF n] .
qed

section \<open>Handles and addresses\<close>

text \<open>How often a handle was opened and closed; an event is allowed when its handle is open, or when its address
  came from the linker or from the caller of \<open>callFunctionPtr\<close> just before.\<close>

definition opened_times :: "nat \<Rightarrow> 'd ffi_event list \<Rightarrow> nat" where
  "opened_times h es = length (filter (\<lambda>e. case e of Lib_Opened p g \<Rightarrow> g = h | _ \<Rightarrow> False) es)"

definition closed_times :: "nat \<Rightarrow> 'd ffi_event list \<Rightarrow> nat" where
  "closed_times h es = length (filter (\<lambda>e. case e of Lib_Closed g \<Rightarrow> g = h | _ \<Rightarrow> False) es)"

definition was_found :: "'d ffi_event list \<Rightarrow> nat \<Rightarrow> bool" where
  "was_found es a \<longleftrightarrow> a \<noteq> 0 \<and> list_ex (\<lambda>e. case e of Symbol_Asked h n b \<Rightarrow> b = a | _ \<Rightarrow> False) es"

definition event_allowed :: "'d ffi_event list \<Rightarrow> 'd ffi_event \<Rightarrow> bool" where
  "event_allowed past e =
     (case e of
        Lib_Closed h \<Rightarrow> closed_times h past < opened_times h past
      | Symbol_Asked h n a \<Rightarrow> closed_times h past < opened_times h past
      | Called a vs \<Rightarrow> was_found past a \<or> past \<noteq> [] \<and> last past = Passed_By_Caller a
      | _ \<Rightarrow> True)"

primrec allowed_from :: "'d ffi_event list \<Rightarrow> 'd ffi_event list \<Rightarrow> bool" where
  "allowed_from past [] = True"
| "allowed_from past (e # es) = (event_allowed past e \<and> allowed_from (past @ [e]) es)"

lemma allowed_append: "allowed_from past (es @ fs) = (allowed_from past es \<and> allowed_from (past @ es) fs)"
  by (induction es arbitrary: past) auto

lemma event_counts [simp]:
  "opened_times h [] = 0" "closed_times h [] = 0"
  "opened_times h (es @ fs) = opened_times h es + opened_times h fs"
  "closed_times h (es @ fs) = closed_times h es + closed_times h fs"
  "opened_times h (e # es) = (case e of Lib_Opened p g \<Rightarrow> if g = h then 1 else 0 | _ \<Rightarrow> 0) + opened_times h es"
  "closed_times h (e # es) = (case e of Lib_Closed g \<Rightarrow> if g = h then 1 else 0 | _ \<Rightarrow> 0) + closed_times h es"
  by (simp_all add: opened_times_def closed_times_def split: ffi_event.split)

lemma was_found_append [simp]: "was_found es a \<Longrightarrow> was_found (es @ fs) a"
  by (simp add: was_found_def)

definition cpp_inv :: "'d cpp_state \<Rightarrow> bool" where
  "cpp_inv s \<longleftrightarrow>
     allowed_from [] (cpp_events s) \<and> distinct (map fst (loadedLibraries s)) \<and> 0 \<notin> set (map snd (loadedLibraries s))
     \<and> (\<forall>h. h \<noteq> 0 \<longrightarrow> opened_times h (cpp_events s) = closed_times h (cpp_events s) + count_list (map snd (loadedLibraries s)) h)
     \<and> list_all (\<lambda>(n, a). was_found (cpp_events s) a) (registeredFunctions s)"

lemma cpp_inv_new: "cpp_inv new_cpp"
  by (simp add: cpp_inv_def new_cpp_def)

lemma cpp_inv_fields [simp]:
  "cpp_inv (cpp_fail m s) = cpp_inv s" "cpp_inv (s\<lparr>cpp_error := m\<rparr>) = cpp_inv s"
  "cpp_inv (s\<lparr>cpp_initialized := f\<rparr>) = cpp_inv s"
  "cpp_events (cpp_fail m s) = cpp_events s" "registeredFunctions (cpp_fail m s) = registeredFunctions s"
  "loadedLibraries (cpp_fail m s) = loadedLibraries s"
  by (simp_all add: cpp_inv_def cpp_fail_def)

lemma cpp_inv_event:
  assumes "cpp_inv s" and "event_allowed (cpp_events s) e"
    and "\<forall>p h. e \<noteq> Lib_Opened p h \<or> h = 0" and "\<forall>h. e \<noteq> Lib_Closed h"
  shows "cpp_inv (add_event e s)"
proof -
  have "opened_times h [e] = 0 \<and> closed_times h [e] = 0" if "h \<noteq> 0" for h
    using assms(3,4) that by (cases e) auto
  then show ?thesis
    using assms(1,2) by (auto simp: cpp_inv_def add_event_def allowed_append list_all_iff split del: if_split)
qed

lemma handle_open:
  assumes "cpp_inv s" and "map_of (loadedLibraries s) p = Some h"
  shows "h \<noteq> 0 \<and> closed_times h (cpp_events s) < opened_times h (cpp_events s)"
proof -
  have "h \<in> set (map snd (loadedLibraries s))" using assms(2) by (force dest: map_of_SomeD)
  then have "h \<noteq> 0" "count_list (map snd (loadedLibraries s)) h \<noteq> 0"
    using assms(1) by (metis cpp_inv_def, metis count_list_0_iff)
  then show ?thesis using assms(1) by (simp add: cpp_inv_def)
qed

text \<open>A run of the bridge keeps the invariant and forgets no address.\<close>

definition cpp_runs :: "'d cpp_state \<Rightarrow> 'd cpp_state \<Rightarrow> bool" where
  "cpp_runs s s' \<longleftrightarrow>
     (cpp_inv s \<longrightarrow> cpp_inv s' \<and> (\<forall>a. was_found (cpp_events s) a \<longrightarrow> was_found (cpp_events s') a))"

named_theorems runs_intros

lemma runs_refl [runs_intros]: "cpp_runs s s"
  by (simp add: cpp_runs_def)

lemma runs_fields [simp]:
  "cpp_runs s (cpp_fail m s1) = cpp_runs s s1" "cpp_runs s (s1\<lparr>cpp_initialized := f\<rparr>) = cpp_runs s s1"
  by (simp_all add: cpp_runs_def)

lemma runs_trans: "cpp_runs s s1 \<Longrightarrow> cpp_runs s1 s2 \<Longrightarrow> cpp_runs s s2"
  by (simp add: cpp_runs_def)

lemma runs_event:
  "(cpp_inv s \<Longrightarrow> event_allowed (cpp_events s) e) \<Longrightarrow> (\<forall>p h. e \<noteq> Lib_Opened p h \<or> h = 0) \<Longrightarrow> (\<forall>h. e \<noteq> Lib_Closed h)
   \<Longrightarrow> cpp_runs s (add_event e s)"
  using cpp_inv_event [of s e] by (auto simp: cpp_runs_def add_event_def)

lemma update_absent: "map_of l p = None \<Longrightarrow> AList.update p h l = l @ [(p, h)]"
  by (induction l) (auto split: if_splits)

lemma count_delete:
  "distinct (map fst l) \<Longrightarrow> map_of l p = Some h
   \<Longrightarrow> count_list (map snd l) g = count_list (map snd (AList.delete p l)) g + (if g = h then 1 else 0)"
  by (induction l) (auto simp: delete_id split: if_splits)

lemma runs_load [runs_intros]: "cpp_runs s (snd (loadLibrary env p s))"
proof (cases "isLibraryLoaded p s \<or> dl_open env (cpp_events s) p = 0")
  case True
  then show ?thesis
    using runs_event [of s "Lib_Opened p 0"]
    by (auto simp: loadLibrary_def Let_def runs_refl event_allowed_def intro: runs_trans)
next
  case False
  let ?h = "dl_open env (cpp_events s) p"
  have p: "map_of (loadedLibraries s) p = None" using False by (simp add: isLibraryLoaded_def)
  show ?thesis
    using False p
    by (auto simp: cpp_runs_def cpp_inv_def loadLibrary_def Let_def add_event_def allowed_append event_allowed_def
        update_absent map_of_eq_None_iff list_all_iff split del: if_split cong: if_cong)
qed

lemma runs_unload [runs_intros]: "cpp_runs s (snd (unloadLibrary p s))"
proof (cases "map_of (loadedLibraries s) p")
  case None
  then show ?thesis by (simp add: unloadLibrary_def runs_refl)
next
  case (Some h)
  have "cpp_inv (snd (unloadLibrary p s))" if s: "cpp_inv s"
  proof -
    have d: "distinct (map fst (loadedLibraries s))" using s by (simp add: cpp_inv_def)
    have h: "h \<noteq> 0" "closed_times h (cpp_events s) < opened_times h (cpp_events s)"
      using handle_open [OF s Some] by simp_all
    have "set (map snd (AList.delete p (loadedLibraries s))) \<subseteq> set (map snd (loadedLibraries s))"
      by (auto simp: AList.delete_eq)
    then show ?thesis
      using s h d count_delete [OF d Some] distinct_delete [OF d, of p]
      by (auto simp: unloadLibrary_def Some cpp_inv_def add_event_def allowed_append event_allowed_def list_all_iff Let_def)
  qed
  then show ?thesis by (auto simp: cpp_runs_def unloadLibrary_def Some add_event_def Let_def)
qed

lemma runs_ask:
  assumes "library_handle p s = h" "h \<noteq> 0"
  shows "cpp_runs s (add_event (Symbol_Asked h n a) s)"
proof (rule runs_event)
  assume "cpp_inv s"
  moreover have "map_of (loadedLibraries s) p = Some h"
    using assms by (auto simp: library_handle_def split: option.splits)
  ultimately show "event_allowed (cpp_events s) (Symbol_Asked h n a)"
    using handle_open [of s p h] by (simp add: event_allowed_def)
qed simp_all

lemma runs_symbol [runs_intros]: "cpp_runs s (snd (getSymbol env p n s))" "cpp_runs s (snd (hasSymbol env p n s))"
  using runs_ask [of p s]
  by (auto simp: getSymbol_def hasSymbol_def Let_def runs_refl intro: runs_trans)

lemma symbol_found:
  "getSymbol env p n s = (a, s1) \<Longrightarrow> a \<noteq> 0 \<Longrightarrow> was_found (cpp_events s1) a"
  by (auto simp: getSymbol_def Let_def add_event_def was_found_def split: if_splits)

lemma runs_put:
  assumes "cpp_runs s s1" and "was_found (cpp_events s1) a"
  shows "cpp_runs s (put_function n a s1)"
proof -
  have "set (AList.update n a fs) \<subseteq> insert (n, a) (set fs)" for fs
    by (induction fs) auto
  then have "list_all (\<lambda>(n, a). was_found (cpp_events s1) a) (AList.update n a (registeredFunctions s1))"
    if "list_all (\<lambda>(n, a). was_found (cpp_events s1) a) (registeredFunctions s1)"
    using assms(2) that by (fastforce simp: list_all_iff)
  then show ?thesis using assms(1) by (auto simp: cpp_runs_def put_function_def cpp_inv_def)
qed

lemma registered_found: "cpp_inv s \<Longrightarrow> function_of n s = Some a \<Longrightarrow> was_found (cpp_events s) a"
  by (auto simp: cpp_inv_def function_of_def list_all_iff dest: map_of_SomeD)

lemma runs_call:
  "function_of n s = Some a \<Longrightarrow> cpp_runs s (snd (callFunctionPtr env a name args s))"
  using registered_found [of s n a] runs_event [of s "Called a vs" for vs]
  by (auto simp: callFunctionPtr_def Let_def runs_refl event_allowed_def split: option.split)

lemma runs_registered [runs_intros]: "cpp_runs s (snd (call_registered env key name missing args s))"
  by (auto simp: call_registered_def runs_refl runs_call split: option.split)

text \<open>The call of an address that the caller passes.\<close>

definition call_passed :: "'d outside \<Rightarrow> nat \<Rightarrow> string \<Rightarrow> 'd ffi list \<Rightarrow> 'd cpp_state \<Rightarrow> 'd cpp_state" where
  "call_passed env a name args s = snd (callFunctionPtr env a name args (add_event (Passed_By_Caller a) s))"

lemma runs_passed [runs_intros]: "cpp_runs s (call_passed env a name args s)"
proof -
  let ?s1 = "add_event (Passed_By_Caller a) s"
  have "cpp_runs s ?s1" by (rule runs_event) (simp_all add: event_allowed_def)
  moreover have "cpp_runs ?s1 (snd (callFunctionPtr env a name args ?s1))"
    using runs_event [of ?s1 "Called a vs" for vs]
    by (auto simp: callFunctionPtr_def Let_def runs_refl event_allowed_def split: option.split)
       (simp_all add: add_event_def)
  ultimately show ?thesis unfolding call_passed_def by (rule runs_trans)
qed

lemma runs_released: "cpp_runs s s1 \<Longrightarrow> cpp_runs s (s1\<lparr>cpp_events := cpp_events s1 @ map event_of_cleanup as\<rparr>)"
proof (induction "as" rule: rev_induct)
  case (snoc a as)
  let ?s2 = "s1\<lparr>cpp_events := cpp_events s1 @ map event_of_cleanup as\<rparr>"
  have "cpp_runs ?s2 (add_event (event_of_cleanup a) ?s2)"
    by (rule runs_event) (simp_all add: event_allowed_def event_of_cleanup_def split: cleanup_event.split)
  then show ?case using runs_trans [OF snoc.IH [OF snoc.prems]] by (simp add: add_event_def)
qed simp

lemma runs_ensure [runs_intros]: "cpp_runs s (snd (ensure_loaded env p s))"
  by (simp add: ensure_loaded_def runs_intros)

lemma runs_register [runs_intros]:
  "cpp_runs s (snd (registerFunction env p f s))"
  using runs_symbol(1) [of s env p f] symbol_found [of env p f s]
  by (auto simp: registerFunction_def case_prod_beta intro!: runs_put)

lemma runs_class [runs_intros]: "cpp_runs s (snd (registerClass env p c s))"
proof -
  obtain b s1 where 1: "ensure_loaded env p s = (b, s1)" by fastforce
  obtain a s2 where 2: "getSymbol env p (c @ ''_create'') s1 = (a, s2)" by fastforce
  obtain d s3 where 3: "getSymbol env p (c @ ''_destroy'') s2 = (d, s3)" by fastforce
  have r1: "cpp_runs s s1" using runs_ensure [of s env p] by (simp add: 1)
  moreover have "cpp_runs s1 s2" using runs_symbol(1) [of s1 env p "c @ ''_create''"] by (simp add: 2)
  moreover have r3: "cpp_runs s2 s3" using runs_symbol(1) [of s2 env p "c @ ''_destroy''"] by (simp add: 3)
  ultimately have r: "cpp_runs s s3" using runs_trans by blast
  have "cpp_runs s (put_function (c @ ''::__dtor'') d (put_function (c @ ''::__ctor'') a s3))" if "a \<noteq> 0" "d \<noteq> 0"
  proof -
    have f: "cpp_inv s \<Longrightarrow> was_found (cpp_events s3) a" "was_found (cpp_events s3) d"
      using symbol_found [OF 2] symbol_found [OF 3] that r1 \<open>cpp_runs s1 s2\<close> r3 by (auto simp: cpp_runs_def)
    show ?thesis
    proof (cases "cpp_inv s")
      case True
      have 1: "cpp_runs s (put_function (c @ ''::__ctor'') a s3)" using runs_put [OF r] f True by blast
      have 2: "was_found (cpp_events (put_function (c @ ''::__ctor'') a s3)) d"
        using f(2) True by (simp add: put_function_def)
      show ?thesis by (rule runs_put [OF 1 2])
    qed (simp add: cpp_runs_def)
  qed
  then show ?thesis using r r1 by (simp add: registerClass_def 1 2 3 Let_def)
qed

lemma runs_template [runs_intros]: "cpp_runs s (snd (registerTemplate env p t s))"
proof -
  obtain b s1 where 1: "ensure_loaded env p s = (b, s1)" by fastforce
  obtain a s2 where 2: "getSymbol env p (t @ ''_instantiate'') s1 = (a, s2)" by fastforce
  have r1: "cpp_runs s s1" using runs_ensure [of s env p] by (simp add: 1)
  moreover have "cpp_runs s1 s2" using runs_symbol(1) [of s1 env p "t @ ''_instantiate''"] by (simp add: 2)
  ultimately have "cpp_runs s s2" by (rule runs_trans)
  then show ?thesis
    using r1 symbol_found [OF 2] runs_put [of s s2 a] by (simp add: registerTemplate_def 1 2 Let_def)
qed

lemma runs_instances [runs_intros]:
  "cpp_runs s (snd (createInstance env c args s))" "cpp_runs s (snd (destroyInstance env c x s))"
  "cpp_runs s (snd (getMember env x m s))" "cpp_runs s (snd (setMember env x m v s))"
  "cpp_runs s (snd (callMethod env x m args s))" "cpp_runs s (snd (callStaticMethod env c m args s))"
  "cpp_runs s (snd (instantiateTemplate env t tys s))"
  by (auto simp: createInstance_def destroyInstance_def getMember_def setMember_def callMethod_def callStaticMethod_def
      instantiateTemplate_def case_prod_beta Let_def runs_refl runs_registered runs_call
      intro!: runs_released split: option.split sum.split)

lemma runs_close:
  assumes "cpp_inv s"
  shows "cpp_inv (cpp_finalize i s)"
proof -
  have close: "allowed_from past (map Lib_Closed hs)"
    if "\<forall>h \<in> set hs. closed_times h past + count_list hs h \<le> opened_times h past" for past hs
    using that
  proof (induction hs arbitrary: past)
    case (Cons h hs)
    have "allowed_from (past @ [Lib_Closed h]) (map Lib_Closed hs)"
      using Cons.prems by (intro Cons.IH) auto
    then show ?case using Cons.prems by (simp add: event_allowed_def)
  qed simp
  have f: "filter ((<) 0) (map snd (loadedLibraries s)) = map snd (loadedLibraries s)"
    using assms unfolding filter_id_conv cpp_inv_def by (metis neq0_conv)
  have n: "opened_times h (map (Lib_Closed \<circ> snd) ls) = 0"
    "closed_times h (map (Lib_Closed \<circ> snd) ls) = count_list (map snd ls) h" for h and ls :: "(string \<times> nat) list"
    by (induction ls) auto
  have "allowed_from (cpp_events s) (map Lib_Closed (map snd (loadedLibraries s)))"
    using assms by (intro close) (metis (no_types, lifting) cpp_inv_def order_refl)
  then show ?thesis
    using assms by (simp add: cpp_inv_def cpp_finalize_def close_all_def f allowed_append n del: filter_map)
qed

lemma runs_finalize [runs_intros]: "cpp_runs s (cpp_finalize i s)" "cpp_runs s (cpp_destroy i s)"
  using runs_close [of s i] by (auto simp: cpp_runs_def cpp_destroy_def) (auto simp: cpp_finalize_def close_all_def)

lemma runs_memory [runs_intros]:
  "cpp_runs s (snd (allocateMemory env n ty s))"
  "deallocateMemory x s = Some (b, s1) \<Longrightarrow> cpp_runs s s1"
  using runs_event [of s "Allocated a" for a] runs_event [of s "Released a" for a]
  by (auto simp: allocateMemory_def deallocateMemory_def Let_def event_allowed_def runs_refl split: if_splits)

section \<open>Sequences of operations\<close>

text \<open>The operations of the bridge; its wrapper objects only forward to them.\<close>

datatype 'd cpp_op =
    Initialize_Op nat | Finalize_Op nat | Destroy_Op nat | Load_Op string | Unload_Op string
  | Get_Symbol_Op string string | Has_Symbol_Op string string | Register_Function_Op string string
  | Register_Class_Op string string | Register_Template_Op string string | Call_Op string "'d ffi list"
  | Create_Op string "'d ffi list" | Destroy_Instance_Op string "'d cpp_value" | Get_Member_Op "'d cpp_value" string
  | Set_Member_Op "'d cpp_value" string "'d ffi" | Call_Method_Op "'d cpp_value" string "'d ffi list"
  | Call_Static_Op string string "'d ffi list" | Instantiate_Op string "string list" | Allocate_Op "64 word" string
  | Deallocate_Op "'d cpp_value" | Dereference_Op "'d cpp_value" | Eval_Op string | Get_Variable_Op string
  | Set_Variable_Op string "'d ffi" | Clear_Error_Op | Call_Pointer_Op nat string "'d ffi list"

primrec cpp_step :: "'d outside \<Rightarrow> 'd cpp_op \<Rightarrow> 'd cpp_state \<Rightarrow> 'd cpp_state" where
  "cpp_step env (Initialize_Op i) s = snd (cpp_initialize i s)"
| "cpp_step env (Finalize_Op i) s = cpp_finalize i s"
| "cpp_step env (Destroy_Op i) s = cpp_destroy i s"
| "cpp_step env (Load_Op p) s = snd (loadLibrary env p s)"
| "cpp_step env (Unload_Op p) s = snd (unloadLibrary p s)"
| "cpp_step env (Get_Symbol_Op p n) s = snd (getSymbol env p n s)"
| "cpp_step env (Has_Symbol_Op p n) s = snd (hasSymbol env p n s)"
| "cpp_step env (Register_Function_Op p f) s = snd (registerFunction env p f s)"
| "cpp_step env (Register_Class_Op p c) s = snd (registerClass env p c s)"
| "cpp_step env (Register_Template_Op p t) s = snd (registerTemplate env p t s)"
| "cpp_step env (Call_Op f args) s = snd (callFunction env f args s)"
| "cpp_step env (Create_Op c args) s = snd (createInstance env c args s)"
| "cpp_step env (Destroy_Instance_Op c x) s = snd (destroyInstance env c x s)"
| "cpp_step env (Get_Member_Op x m) s = snd (getMember env x m s)"
| "cpp_step env (Set_Member_Op x m v) s = snd (setMember env x m v s)"
| "cpp_step env (Call_Method_Op x m args) s = snd (callMethod env x m args s)"
| "cpp_step env (Call_Static_Op c m args) s = snd (callStaticMethod env c m args s)"
| "cpp_step env (Instantiate_Op t tys) s = snd (instantiateTemplate env t tys s)"
| "cpp_step env (Allocate_Op n ty) s = snd (allocateMemory env n ty s)"
| "cpp_step env (Deallocate_Op x) s = (case deallocateMemory x s of None \<Rightarrow> s | Some r \<Rightarrow> snd r)"
| "cpp_step env (Dereference_Op x) s = snd (dereference x s)"
| "cpp_step env (Eval_Op src) s = snd (cpp_eval src s)"
| "cpp_step env (Get_Variable_Op n) s = snd (getVariable n s)"
| "cpp_step env (Set_Variable_Op n v) s = setVariable n v s"
| "cpp_step env Clear_Error_Op s = cpp_clearError s"
| "cpp_step env (Call_Pointer_Op a name args) s = call_passed env a name args s"

lemma runs_step: "cpp_runs s (cpp_step env oper s)"
  by (cases oper)
    (auto simp: runs_intros callFunction_def cpp_initialize_def dereference_def cpp_eval_def getVariable_def
      setVariable_def cpp_clearError_def cpp_fail_def [symmetric] split: option.split)

lemma inv_steps: "cpp_inv s \<Longrightarrow> cpp_inv (fold (cpp_step env) ops s)"
  by (induction ops arbitrary: s) (use runs_step in \<open>auto simp: cpp_runs_def\<close>)

text \<open>C29: In every sequence of operations, by any number of bridge objects, a library is closed, and a symbol is asked
  of it, only while it is open, and every address that is called was given by the linker before or is the
  address that a client hands to \<open>callFunctionPtr\<close> in this very call. (Whether the library of the address is still
  open is another matter, see \<open>unloaded_function_called\<close>.)\<close>

theorem bridge_handles_open: "allowed_from [] (cpp_events (fold (cpp_step env) ops new_cpp))"
  using inv_steps [OF cpp_inv_new, of env ops] unfolding cpp_inv_def by blast

text \<open>Unloading a library leaves its functions registered, so that a later call jumps into the library that was
  closed. This happens for every library that opens and has the symbol.\<close>

theorem unloaded_function_called:
  assumes "\<forall>es. dl_open env es p \<noteq> 0" and "\<forall>es h. dl_symbol env es h f \<noteq> 0" and "interface_ok env []"
  shows "\<exists>h a. cpp_events (fold (cpp_step env) [Load_Op p, Register_Function_Op p f, Unload_Op p, Call_Op f []] new_cpp)
     = [Lib_Opened p h, Symbol_Asked h f a, Lib_Closed h, Called a []]"
proof -
  obtain h where h: "dl_open env [] p = h" "h \<noteq> 0" using assms(1) by blast
  obtain a where a: "dl_symbol env [Lib_Opened p h] h f = a" "a \<noteq> 0" using assms(2) by blast
  show ?thesis
    using assms(3) h a
    by (intro exI [of _ h] exI [of _ a])
      (simp add: loadLibrary_def isLibraryLoaded_def new_cpp_def add_event_def registerFunction_def getSymbol_def
        library_handle_def put_function_def unloadLibrary_def callFunction_def call_registered_def function_of_def
        callFunctionPtr_def read_slots_def Let_def)
qed

lemma unloaded_function_called_witness:
  "\<exists>h a. cpp_events (fold (cpp_step plain_outside)
       [Load_Op ''m.so'', Register_Function_Op ''m.so'' ''f'', Unload_Op ''m.so'', Call_Op ''f'' []] new_cpp)
     = [Lib_Opened ''m.so'' h, Symbol_Asked h ''f'' a, Lib_Closed h, Called a []]"
  by (rule unloaded_function_called) (simp_all add: plain_outside_def)

text \<open>Releasing the same memory twice is not noticed: the value keeps its pointer.\<close>

lemma released_twice:
  "isPointer x \<Longrightarrow> asPointer (cpp_held x) = Some a \<Longrightarrow>
   cpp_events (fold (cpp_step env) [Deallocate_Op x, Deallocate_Op x] s) = cpp_events s @ [Released a, Released a]"
  by (simp add: deallocateMemory_def add_event_def)

text \<open>The end of one bridge object closes the libraries of all of them.\<close>

lemma finalize_shared:
  "loadedLibraries (cpp_finalize i s) = [] \<and> registeredFunctions (cpp_finalize i s) = []
   \<and> (j \<noteq> i \<longrightarrow> cpp_initialized (cpp_finalize i s) j = cpp_initialized s j)"
  by (simp add: cpp_finalize_def close_all_def)

text \<open>A \<open>CppInstance\<close> never reaches the library: its copy of the instance has lost the class name, so that every
  call of a method and every access to a member only sets the error message, even for an instance that
  \<open>createInstance\<close> made.\<close>

theorem wrapped_instance_unusable:
  "let i = new_CppInstance x c;
       why = (\<lambda>what. if isPointer x then ''Instance does not have class metadata'' else ''Cannot '' @ what @ '' non-pointer instance'')
   in inst_callMethod env i m args s = (ffi_undefined, cpp_fail (why ''call method on'') s)
      \<and> inst_getMember env i m s = (ffi_undefined, cpp_fail (why ''get member of'') s)
      \<and> inst_setMember env i m v s = (False, cpp_fail (why ''set member of'') s)"
proof -
  have "isPointer (cpp_copy x) = isPointer x"
    by (cases x; cases "cpp_held x") (simp add: isPointer_def cpp_copy_def cpp_plain_def)
  moreover have "getMetadata k (cpp_copy x) = []" for k
    by (simp add: getMetadata_def cpp_copy_def cpp_plain_def)
  ultimately show ?thesis
    by (simp add: Let_def new_CppInstance_def inst_callMethod_def inst_getMember_def inst_setMember_def
        callMethod_def getMember_def setMember_def instance_class_def)
qed

text \<open>An instance that is used directly has its methods, when the result of \<open>createInstance\<close> is built in place.\<close>

lemma created_instance_class:
  "result_in_place env \<Longrightarrow> isPointer (fst (createInstance env c args s)) \<Longrightarrow> c \<noteq> []
   \<Longrightarrow> instance_class what (fst (createInstance env c args s)) = Inr c"
  by (auto simp: createInstance_def instance_class_def getMetadata_def setMetadata_def cpp_plain_def isPointer_def
      ffi_undefined_def ffi_make_def case_prod_beta Let_def split: option.splits if_splits)

text \<open>What a template function returns is never looked at: a call gives a pointer or nothing.\<close>

lemma template_name:
  "function_of (''template::'' @ t @ ''::instantiate'') s \<noteq> None
   \<Longrightarrow> fst (instantiateTemplate env t tys s) = Some (instance_name t tys)"
  by (auto simp: instantiateTemplate_def callFunctionPtr_def ffi_undefined_def ffi_make_def ffi_of_pointer_def Let_def
      split: option.splits)

end
