(* ===== verification/Tocin_Ffi_Cpp_Utils.thy ===== *)
theory Tocin_Ffi_Cpp_Utils
  imports Tocin_Ffi_Cpp Tocin_Types
begin

text \<open>
  \<open>CppStdLib\<close> and \<open>CppUtils\<close> of \<open>src/ffi/ffi_cpp.cpp\<close>: vectors, maps and strings as values of the bridge,
  the sorting and searching of arrays, the mangling of names and the text of wrappers. None is an
  exception of \<open>std::get\<close>. The sizes are those of a machine with pointers of 64 bits.
\<close>

section \<open>Strings, vectors, maps\<close>

definition std_initialize :: "nat \<Rightarrow> bool \<times> (bool \<times> nat)" where
  "std_initialize ffi = (True, (True, ffi))"

definition std_isAvailable :: "bool \<times> nat \<Rightarrow> bool" where
  "std_isAvailable s = (fst s \<and> snd s \<noteq> 0)"

definition createString :: "string \<Rightarrow> 'd ffi" where
  "createString t = ffi_make STRING_TYPE (P_String t)"

definition getString :: "'d float_ops \<Rightarrow> 'd ffi \<Rightarrow> string option" where
  "getString fo v = (if ffi_getType v = STRING_TYPE then asString fo v else Some [])"

definition stringConcat :: "'d float_ops \<Rightarrow> 'd ffi \<Rightarrow> 'd ffi \<Rightarrow> 'd ffi option" where
  "stringConcat fo a b =
     (if ffi_getType a = STRING_TYPE \<and> ffi_getType b = STRING_TYPE then
        option_bind2 (asString fo a) (asString fo b) (\<lambda>s t. createString (s @ t))
      else Some ffi_undefined)"

definition stringLength :: "'d float_ops \<Rightarrow> 'd ffi \<Rightarrow> nat option" where
  "stringLength fo v = (if ffi_getType v = STRING_TYPE then map_option length (asString fo v) else Some 0)"

definition int_item :: "32 word \<Rightarrow> 'd ffi" where
  "int_item i = ffi_make INTEGER_TYPE (P_Int (scast i))"

definition double_item :: "'d \<Rightarrow> 'd ffi" where
  "double_item d = ffi_make FLOAT_TYPE (P_Double d)"

definition createIntVector :: "32 word list \<Rightarrow> 'd ffi" where
  "createIntVector is = createVector (map int_item is)"

definition createDoubleVector :: "'d list \<Rightarrow> 'd ffi" where
  "createDoubleVector ds = createVector (map double_item ds)"

definition createStringVector :: "string list \<Rightarrow> 'd ffi" where
  "createStringVector ts = createVector (map createString ts)"

text \<open>The elements of the wanted type in order; the others are skipped.\<close>

definition vector_items :: "ffi_type \<Rightarrow> ('d ffi \<Rightarrow> 'a option) \<Rightarrow> 'd ffi \<Rightarrow> 'a list option" where
  "vector_items ty get v =
     (if ffi_getType v = ARRAY_TYPE then
        (case asArray v of
           None \<Rightarrow> None
         | Some vs \<Rightarrow> those (map get (filter (\<lambda>x. ffi_getType x = ty) vs)))
      else Some [])"

definition getIntVector :: "'d float_ops \<Rightarrow> 'd ffi \<Rightarrow> 32 word list option" where
  "getIntVector fo = vector_items INTEGER_TYPE (\<lambda>x. map_option ucast (asInt64 fo x))"

definition getDoubleVector :: "'d float_ops \<Rightarrow> 'd ffi \<Rightarrow> 'd list option" where
  "getDoubleVector fo = vector_items FLOAT_TYPE (asDouble fo)"

definition getStringVector :: "'d float_ops \<Rightarrow> 'd ffi \<Rightarrow> string list option" where
  "getStringVector fo = vector_items STRING_TYPE (asString fo)"

text \<open>A map of the library is the list of its entries, with distinct keys.\<close>

definition create_map :: "('a \<Rightarrow> 'd ffi) \<Rightarrow> (string \<times> 'a) list \<Rightarrow> 'd ffi" where
  "create_map item kvs =
     ffi_make OBJECT_TYPE (P_Object (map (map_prod id ffi_copy) (fold (\<lambda>(k, x). AList.update k (item x)) kvs [])))"

definition createStringIntMap :: "(string \<times> 32 word) list \<Rightarrow> 'd ffi" where
  "createStringIntMap = create_map int_item"

definition createStringDoubleMap :: "(string \<times> 'd) list \<Rightarrow> 'd ffi" where
  "createStringDoubleMap = create_map double_item"

primrec map_items :: "ffi_type \<Rightarrow> ('d ffi \<Rightarrow> 'a option) \<Rightarrow> (string \<times> 'd ffi) list \<Rightarrow> (string \<times> 'a) list \<Rightarrow> (string \<times> 'a) list option" where
  "map_items ty get [] r = Some r"
| "map_items ty get (kv # kvs) r =
     (if ffi_getType (snd kv) = ty then
        (case get (snd kv) of None \<Rightarrow> None | Some x \<Rightarrow> map_items ty get kvs (AList.update (fst kv) x r))
      else map_items ty get kvs r)"

definition object_items :: "ffi_type \<Rightarrow> ('d ffi \<Rightarrow> 'a option) \<Rightarrow> 'd ffi \<Rightarrow> (string \<times> 'a) list option" where
  "object_items ty get v =
     (if ffi_getType v = OBJECT_TYPE then
        (case asObject v of None \<Rightarrow> None | Some kvs \<Rightarrow> map_items ty get kvs [])
      else Some [])"

definition getStringIntMap :: "'d float_ops \<Rightarrow> 'd ffi \<Rightarrow> (string \<times> 32 word) list option" where
  "getStringIntMap fo = object_items INTEGER_TYPE (\<lambda>x. map_option ucast (asInt64 fo x))"

definition getStringDoubleMap :: "'d float_ops \<Rightarrow> 'd ffi \<Rightarrow> (string \<times> 'd) list option" where
  "getStringDoubleMap fo = object_items FLOAT_TYPE (asDouble fo)"

section \<open>Sorting and searching\<close>

text \<open>The order of \<open>std::string\<close>, which compares characters as unsigned.\<close>

fun text_less :: "string \<Rightarrow> string \<Rightarrow> bool" where
  "text_less xs [] = False"
| "text_less [] (y # ys) = True"
| "text_less (x # xs) (y # ys) = (code x < code y \<or> (x = y \<and> text_less xs ys))"

text \<open>The comparison that \<open>sort\<close> gives to \<open>std::sort\<close>, with the order of doubles as an argument.\<close>

definition ffi_less :: "'d float_ops \<Rightarrow> ('d \<Rightarrow> 'd \<Rightarrow> bool) \<Rightarrow> 'd ffi \<Rightarrow> 'd ffi \<Rightarrow> bool option" where
  "ffi_less fo dless a b =
     (if ffi_getType a = INTEGER_TYPE \<and> ffi_getType b = INTEGER_TYPE then
        option_bind2 (asInt64 fo a) (asInt64 fo b) (\<lambda>i j. sint i < sint j)
      else if ffi_getType a = FLOAT_TYPE \<and> ffi_getType b = FLOAT_TYPE then
        option_bind2 (asDouble fo a) (asDouble fo b) dless
      else if ffi_getType a = STRING_TYPE \<and> ffi_getType b = STRING_TYPE then
        option_bind2 (asString fo a) (asString fo b) text_less
      else Some False)"

text \<open>What \<open>std::sort\<close> asks of a comparison: it is irreflexive and transitive, and so is being
  incomparable. It gives a sorted permutation then, and anything may happen otherwise.\<close>

definition strict_weak :: "('a \<Rightarrow> 'a \<Rightarrow> bool) \<Rightarrow> 'a list \<Rightarrow> bool" where
  "strict_weak lt xs \<longleftrightarrow>
     list_all (\<lambda>a. \<not> lt a a \<and> list_all (\<lambda>b. list_all (\<lambda>c.
        (lt a b \<and> lt b c \<longrightarrow> lt a c)
        \<and> (\<not> lt a b \<and> \<not> lt b a \<and> \<not> lt b c \<and> \<not> lt c b \<longrightarrow> \<not> lt a c \<and> \<not> lt c a)) xs) xs) xs"

definition sort_defined :: "'d float_ops \<Rightarrow> ('d \<Rightarrow> 'd \<Rightarrow> bool) \<Rightarrow> 'd ffi list \<Rightarrow> bool" where
  "sort_defined fo dless xs \<longleftrightarrow>
     list_all (\<lambda>a. list_all (\<lambda>b. ffi_less fo dless a b \<noteq> None) xs) xs
     \<and> strict_weak (\<lambda>a b. ffi_less fo dless a b = Some True) xs"

definition std_sort_gives :: "'d float_ops \<Rightarrow> ('d \<Rightarrow> 'd \<Rightarrow> bool) \<Rightarrow> 'd ffi list \<Rightarrow> 'd ffi list \<Rightarrow> bool" where
  "std_sort_gives fo dless xs ys \<longleftrightarrow>
     (sort_defined fo dless xs \<longrightarrow>
        mset ys = mset xs \<and> sorted_wrt (\<lambda>a b. ffi_less fo dless b a \<noteq> Some True) ys)"

text \<open>The results that \<open>sort\<close> may have.\<close>

definition sort_gives :: "'d float_ops \<Rightarrow> ('d \<Rightarrow> 'd \<Rightarrow> bool) \<Rightarrow> 'd ffi \<Rightarrow> 'd ffi \<Rightarrow> bool" where
  "sort_gives fo dless v r \<longleftrightarrow>
     (if ffi_getType v \<noteq> ARRAY_TYPE then r = ffi_copy v
      else case asArray v of
             None \<Rightarrow> False
           | Some vs \<Rightarrow> \<exists>ys. std_sort_gives fo dless (map ffi_copy vs) ys \<and> r = createVector ys)"

definition same_item :: "'d float_ops \<Rightarrow> 'd ffi \<Rightarrow> 'd ffi \<Rightarrow> bool option" where
  "same_item fo a b =
     (if ffi_getType a \<noteq> ffi_getType b then Some False
      else case ffi_getType a of
             INTEGER_TYPE \<Rightarrow> both (=) (asInt64 fo a) (asInt64 fo b)
           | FLOAT_TYPE \<Rightarrow> both (fl_equal fo) (asDouble fo a) (asDouble fo b)
           | STRING_TYPE \<Rightarrow> both (=) (asString fo a) (asString fo b)
           | _ \<Rightarrow> Some False)"

primrec find_loop :: "'d float_ops \<Rightarrow> 'd ffi \<Rightarrow> 'd ffi list \<Rightarrow> nat \<Rightarrow> 'd ffi option" where
  "find_loop fo x [] i = Some ffi_undefined"
| "find_loop fo x (v # vs) i =
     (case same_item fo v x of
        None \<Rightarrow> None
      | Some True \<Rightarrow> Some (ffi_make INTEGER_TYPE (P_Int (of_nat i)))
      | Some False \<Rightarrow> find_loop fo x vs (i + 1))"

definition std_find :: "'d float_ops \<Rightarrow> 'd ffi \<Rightarrow> 'd ffi \<Rightarrow> 'd ffi option" where
  "std_find fo v x =
     (if ffi_getType v \<noteq> ARRAY_TYPE then Some ffi_undefined
      else case asArray v of None \<Rightarrow> None | Some vs \<Rightarrow> find_loop fo x (map ffi_copy vs) 0)"

definition std_transform :: "'d ffi \<Rightarrow> nat \<Rightarrow> 'd ffi" where
  "std_transform v f = ffi_copy v"

section \<open>Names and types\<close>

definition type_code :: "string \<Rightarrow> string" where
  "type_code t =
     (if t = ''int'' then ''i'' else if t = ''long'' then ''l'' else if t = ''float'' then ''f''
      else if t = ''double'' then ''d'' else if t = ''bool'' then ''b'' else if t = ''char'' then ''c''
      else if t = ''void'' then ''v'' else show_nat (length t) @ t)"

definition mangleFunctionName :: "string \<Rightarrow> string list \<Rightarrow> string" where
  "mangleFunctionName f ts = ''_Z'' @ show_nat (length f) @ f @ concat (map type_code ts)"

definition demangleFunctionName :: "string \<Rightarrow> string" where
  "demangleFunctionName m = m"

definition tocinTypeToCpp :: "string \<Rightarrow> string" where
  "tocinTypeToCpp t =
     (if t = ''int'' then ''int'' else if t = ''int64'' then ''long long'' else if t = ''float'' then ''float''
      else if t = ''float64'' then ''double'' else if t = ''bool'' then ''bool''
      else if t = ''string'' then ''std::string'' else if t = ''void'' then ''void'' else t)"

definition cppTypeToTocin :: "string \<Rightarrow> string" where
  "cppTypeToTocin t =
     (if t = ''int'' then ''int'' else if t = ''long long'' then ''int64'' else if t = ''float'' then ''float''
      else if t = ''double'' then ''float64'' else if t = ''bool'' then ''bool''
      else if t = ''std::string'' then ''string'' else if t = ''void'' then ''void'' else t)"

definition cpp_getTypeSize :: "string \<Rightarrow> nat" where
  "cpp_getTypeSize t =
     (if t = ''char'' then 1 else if t = ''short'' then 2 else if t = ''int'' then 4 else if t = ''long'' then 8
      else if t = ''long long'' then 8 else if t = ''float'' then 4 else if t = ''double'' then 8
      else if t = ''bool'' then 1 else if CHR ''*'' \<in> set t then 8 else 0)"

text \<open>The text of the wrappers; the parameters are numbered from 0.\<close>

definition wrapper_params :: "string list \<Rightarrow> string list" where
  "wrapper_params ts = map (\<lambda>(i, t). tocinTypeToCpp t @ '' arg'' @ show_nat i) (enumerate 0 ts)"

definition wrapper_args :: "string list \<Rightarrow> string list" where
  "wrapper_args ts = map (\<lambda>i. ''arg'' @ show_nat i) [0..<length ts]"

definition generateCppWrapper :: "string \<Rightarrow> string list \<Rightarrow> string \<Rightarrow> string" where
  "generateCppWrapper f ts ret =
     ''extern \"C\" '' @ tocinTypeToCpp ret @ '' '' @ f @ ''_wrapper('' @ join_with '', '' (wrapper_params ts) @ '') {'' @ [NL]
     @ ''    return '' @ f @ ''('' @ join_with '', '' (wrapper_args ts) @ '');'' @ [NL] @ ''}'' @ [NL]"

definition method_wrapper :: "string \<Rightarrow> string \<Rightarrow> string" where
  "method_wrapper c m =
     ''extern \"C\" void '' @ c @ ''_'' @ m @ ''(void* obj) {'' @ [NL]
     @ ''    static_cast<'' @ c @ ''*>(obj)->'' @ m @ ''();'' @ [NL] @ ''}'' @ [NL, NL]"

definition generateClassWrapper :: "string \<Rightarrow> string list \<Rightarrow> string" where
  "generateClassWrapper c ms =
     ''// Wrapper for class '' @ c @ [NL, NL]
     @ ''extern \"C\" void* '' @ c @ ''_create() {'' @ [NL] @ ''    return new '' @ c @ ''();'' @ [NL] @ ''}'' @ [NL, NL]
     @ ''extern \"C\" void '' @ c @ ''_destroy(void* obj) {'' @ [NL]
     @ ''    delete static_cast<'' @ c @ ''*>(obj);'' @ [NL] @ ''}'' @ [NL, NL]
     @ concat (map (method_wrapper c) ms)"

section \<open>Exceptions and objects\<close>

definition isCppException :: "'d cpp_value \<Rightarrow> bool" where
  "isCppException x = (ffi_getType (cpp_held x) = OBJECT_TYPE \<and> hasMetadata ''__exception'' x)"

definition extractCppException :: "'d cpp_value \<Rightarrow> string" where
  "extractCppException x = (if isCppException x then getMetadata ''__exception_message'' x else [])"

definition createCppException :: "string \<Rightarrow> string \<Rightarrow> 'd cpp_value" where
  "createCppException ty msg =
     setMetadata ''__exception_message'' msg (setMetadata ''__exception_type'' ty
       (setMetadata ''__exception'' ''true'' (cpp_plain ffi_undefined)))"

definition getObjectSize :: "'d cpp_value \<Rightarrow> nat" where
  "getObjectSize x = 0"

definition isValidPointer :: "'d cpp_value \<Rightarrow> bool option" where
  "isValidPointer x = (if isPointer x then map_option (\<lambda>a. a \<noteq> 0) (asPointer (cpp_held x)) else Some False)"

definition cloneObject :: "'d cpp_value \<Rightarrow> 'd cpp_value" where
  "cloneObject x = cpp_copy x"

section \<open>Mangled names\<close>

definition proper_name :: "string \<Rightarrow> bool" where
  "proper_name n \<longleftrightarrow> n \<noteq> [] \<and> \<not> isdigit (hd n)"

lemma span_digits:
  "list_all isdigit ds \<Longrightarrow> proper_name n
   \<Longrightarrow> takeWhile isdigit (ds @ n @ rest) = ds \<and> dropWhile isdigit (ds @ n @ rest) = n @ rest"
  by (induction ds) (cases n; simp add: proper_name_def)+

lemmas span_show_nat = span_digits [OF show_nat_digits]

text \<open>A name after its length can be read back.\<close>

lemma counted_name_inject:
  assumes "proper_name n" and "proper_name m"
    and "show_nat (length n) @ n @ rest = show_nat (length m) @ m @ rest'"
  shows "n = m \<and> rest = rest'"
proof -
  have "show_nat (length n) = show_nat (length m)" "n @ rest = m @ rest'"
    using span_show_nat [OF assms(1), of "length n" rest] span_show_nat [OF assms(2), of "length m" rest'] assms(3)
    by metis+
  moreover from this have "length n = length m" by (metis digits_value_show)
  ultimately show ?thesis by simp
qed

definition letter_codes :: "(string \<times> string) list" where
  "letter_codes = [(''int'', ''i''), (''long'', ''l''), (''float'', ''f''), (''double'', ''d''), (''bool'', ''b''), (''char'', ''c''), (''void'', ''v'')]"

lemma type_code_cases:
  "type_code t = (case map_of letter_codes t of Some c \<Rightarrow> c | None \<Rightarrow> show_nat (length t) @ t)"
  by (simp add: type_code_def letter_codes_def)

lemma show_nat_start: "\<exists>c cs. show_nat k = c # cs \<and> isdigit c"
proof -
  have "show_nat k \<noteq> []" by (subst show_nat.simps) simp
  then show ?thesis using show_nat_digits [of k] by (cases "show_nat k") auto
qed

lemma letter_codes_ok:
  "list_all (\<lambda>(n, c). c \<noteq> [] \<and> tl c = [] \<and> \<not> isdigit (hd c)) letter_codes" "distinct (map snd letter_codes)"
  by code_simp+

lemma letter_start: "map_of letter_codes t = Some c \<Longrightarrow> \<exists>x. c = [x] \<and> \<not> isdigit x"
  using letter_codes_ok(1) by (cases c) (auto simp: list_all_iff dest!: map_of_SomeD)

lemma letter_inject:
  "map_of letter_codes t = Some c \<Longrightarrow> map_of letter_codes u = Some c \<Longrightarrow> t = u"
  using letter_codes_ok(2) by (auto simp: distinct_map dest!: map_of_SomeD dest: inj_onD [of _ _ "(t, c)" "(u, c)"])

lemma type_code_inject:
  assumes "proper_name t" and "proper_name u" and "type_code t @ rest = type_code u @ rest'"
  shows "t = u \<and> rest = rest'"
proof (cases "map_of letter_codes t")
  case None
  then have t: "type_code t = show_nat (length t) @ t" by (simp add: type_code_cases)
  show ?thesis
  proof (cases "map_of letter_codes u")
    case None
    then show ?thesis using assms t counted_name_inject [of t u rest rest'] by (simp add: type_code_cases)
  next
    case (Some c)
    then show ?thesis using letter_start [OF Some] show_nat_start [of "length t"] assms(3) t by (auto simp: type_code_cases)
  qed
next
  case (Some c)
  then obtain x where c: "c = [x]" "\<not> isdigit x" using letter_start by blast
  show ?thesis
  proof (cases "map_of letter_codes u")
    case None
    then show ?thesis using Some c show_nat_start [of "length u"] assms(3) by (auto simp: type_code_cases)
  next
    case u: (Some d)
    then obtain y where "d = [y]" using letter_start by blast
    then show ?thesis using Some u c assms(3) letter_inject [of t c u] by (simp add: type_code_cases)
  qed
qed

lemma type_code_not_empty: "proper_name t \<Longrightarrow> type_code t \<noteq> []"
  using letter_start [of t] show_nat_start [of "length t"]
  by (auto simp: type_code_cases proper_name_def split: option.split)

text \<open>Two functions get the same mangled name only if their names and parameter types are the same, when no name
  is empty or begins with a digit.\<close>

theorem mangling_injective:
  assumes "proper_name f" and "proper_name g" and "list_all proper_name ts" and "list_all proper_name us"
  shows "mangleFunctionName f ts = mangleFunctionName g us \<longleftrightarrow> f = g \<and> ts = us"
proof
  assume "mangleFunctionName f ts = mangleFunctionName g us"
  then have "show_nat (length f) @ f @ concat (map type_code ts) = show_nat (length g) @ g @ concat (map type_code us)"
    by (simp add: mangleFunctionName_def)
  then have "f = g" "concat (map type_code ts) = concat (map type_code us)"
    using counted_name_inject assms(1,2) by blast+
  moreover have "ts = us" if "concat (map type_code ts) = concat (map type_code us)"
    using that assms(3,4)
  proof (induction ts arbitrary: us)
    case Nil
    then show ?case using type_code_not_empty by (cases us) auto
  next
    case (Cons t ts)
    then obtain u us' where us: "us = u # us'" using type_code_not_empty [of t] by (cases us) auto
    have "t = u \<and> concat (map type_code ts) = concat (map type_code us')"
      by (rule type_code_inject) (use Cons.prems us in auto)
    then show ?case using Cons us by simp
  qed
  ultimately show "f = g \<and> ts = us" by blast
qed simp

lemma mangling_injective_witness:
  "mangleFunctionName ''f'' [''int'', ''Point''] \<noteq> mangleFunctionName ''f'' [''int'', ''bool'']"
  using mangling_injective [of "''f''" "''f''" "[''int'', ''Point'']" "[''int'', ''bool'']"]
  by (simp add: proper_name_def isdigit_def code_def)

section \<open>Vectors and sorting\<close>

lemma those_map_Some: "(\<And>x. x \<in> set xs \<Longrightarrow> f x = Some (g x)) \<Longrightarrow> those (map f xs) = Some (map g xs)"
  by (induction xs) auto

lemma item_sel [simp]:
  "ffi_getType (int_item i) = INTEGER_TYPE" "asInt64 fo (int_item i) = Some (scast i)"
  "ffi_copy (int_item i) = int_item i"
  "ffi_getType (double_item d) = FLOAT_TYPE" "asDouble fo (double_item d) = Some d"
  "ffi_copy (double_item d) = double_item d"
  "ffi_getType (createString t) = STRING_TYPE" "asString fo (createString t) = Some t"
  "ffi_copy (createString t) = createString t"
  by (simp_all add: int_item_def double_item_def createString_def ffi_make_def asInt64_def asDouble_def asString_def
      payload_gets)

lemma vector_sel [simp]:
  "ffi_getType (createVector vs) = ARRAY_TYPE" "asArray (createVector vs) = Some (map ffi_copy vs)"
  by (simp_all add: createVector_def ffi_make_def asArray_def get_array_def)

lemma down_up: "ucast (scast (x :: 32 word) :: 64 word) = x"
  by transfer (simp add: take_bit_signed_take_bit)

lemma up_sint: "sint (scast (x :: 32 word) :: 64 word) = sint x"
  by (simp add: sint_up_scast is_up)

text \<open>A vector of integers, of doubles or of strings comes back from its value as it was.\<close>

lemma vectors_return:
  "getIntVector fo (createIntVector is) = Some is"
  "getDoubleVector fo (createDoubleVector ds) = Some ds"
  "getStringVector fo (createStringVector ts) = Some ts"
  by (simp_all add: getIntVector_def createIntVector_def getDoubleVector_def createDoubleVector_def
      getStringVector_def createStringVector_def vector_items_def comp_def those_map_Some [where g = id, simplified]
      filter_map down_up)

lemma int_less:
  "ffi_less fo dless (int_item i) (int_item j) = Some (sint i < sint j)"
  by (simp add: ffi_less_def option_bind2_def up_sint)

lemma ints_sort_defined: "sort_defined fo dless (map int_item is)"
  by (auto simp: sort_defined_def strict_weak_def int_less list_all_iff)

lemma sort_map_sint: "sort (map sint is) = map sint (sort_key sint is)"
  by (rule properties_for_sort) simp_all

lemma sorted_ints_unique:
  fixes ys :: "'d ffi list"
  assumes "mset ys = mset (map int_item is)" and "sorted_wrt (\<lambda>a b. ffi_less fo dless b a \<noteq> Some True) ys"
  shows "ys = map int_item (sort_key sint is)"
proof -
  have inj: "inj (int_item :: 32 word \<Rightarrow> 'd ffi)"
    by (rule injI) (metis down_up int_item_def ffi_make_def ffi.inject payload.inject(2))
  have "set ys = set (map int_item is)" by (metis assms(1) set_mset_mset)
  then obtain js where js: "ys = map int_item js" by (metis ex_map_conv image_iff list.set_map)
  have "image_mset int_item (mset js) = image_mset (int_item :: 32 word \<Rightarrow> 'd ffi) (mset is)"
    using assms(1) by (simp add: js)
  then have m: "mset (map sint js) = mset (map sint is)"
    using inj by (metis multiset.inj_map inj_eq mset_map)
  have "sorted (map sint js)"
    using assms(2) by (simp add: js sorted_wrt_map int_less not_less)
  then have "map sint js = map sint (sort_key sint is)"
    using properties_for_sort [OF m] by (simp add: sort_map_sint)
  then have "js = sort_key sint is" by (metis inj_map_eq_map injI signed_word_eqI)
  then show ?thesis by (simp add: js)
qed

lemma ints_sorted:
  "sorted_wrt (\<lambda>a b. ffi_less fo dless b a \<noteq> Some True) (map int_item (sort_key sint is))"
  using sorted_sort_key [of sint "is"] by (simp add: sorted_wrt_map int_less not_less)

text \<open>Sorting an array of integers gives the array of the same integers in ascending order, whatever the
  library's algorithm.\<close>

theorem sort_integers:
  "sort_gives fo dless (createIntVector is) r \<longleftrightarrow> r = createIntVector (sort_key sint is)"
proof -
  have "std_sort_gives fo dless (map int_item is) ys \<longleftrightarrow> ys = map int_item (sort_key sint is)" for ys
    using sorted_ints_unique [of ys "is" fo dless] ints_sorted [of fo dless "is"]
    by (auto simp: std_sort_gives_def ints_sort_defined)
  then show ?thesis by (simp add: sort_gives_def createIntVector_def comp_def)
qed

text \<open>An array with numbers and strings is outside the contract of \<open>std::sort\<close>: 2 and 1 are both incomparable with a
  string, but not with each other.\<close>

lemma mixed_sort_undefined:
  "\<not> sort_defined fo dless [int_item 2, createString t, int_item 1]"
  by (simp add: sort_defined_def strict_weak_def ffi_less_def option_bind2_def up_sint)

text \<open>The exceptions that the bridge makes are not recognised: they are undefined values, not objects.\<close>

lemma exceptions_lost:
  "isCppException (createCppException ty msg) = False \<and> extractCppException (createCppException ty msg) = []"
  by (simp add: isCppException_def extractCppException_def createCppException_def setMetadata_def cpp_plain_def
      ffi_undefined_def ffi_make_def)

text \<open>Type names survive the way to C++ and back, but for three of C++'s own.\<close>

lemma type_names_return:
  "cppTypeToTocin (tocinTypeToCpp t) =
     (if t = ''long long'' then ''int64'' else if t = ''double'' then ''float64'' else if t = ''std::string'' then ''string'' else t)"
  by (simp add: cppTypeToTocin_def tocinTypeToCpp_def)

end
