(* ===== verification/Tocin_Macros.thy ===== *)
theory Tocin_Macros
  imports Tocin_Codegen_Frame
begin

text \<open>
  The macros of \<open>src/compiler/macro_system.cpp\<close>: the table, the depth limit, the macros that functions are turned
  into, and the eleven built-in expanders. An expander may leave pointers null where the syntax tree has none, so
  that the new nodes have a datatype of their own, with the tree that they are when no such pointer is null.
\<close>

section \<open>New nodes\<close>

datatype (plugins only: code size) macro_expr =
    Given expr
  | New_Literal token string LiteralType
  | New_Variable token string
  | New_Binary token macro_expr token macro_expr
  | New_Call token "macro_expr option" "macro_expr list"

datatype (plugins only: code size) macro_stmt =
    Given_Stmt stmt
  | New_Expression token macro_expr
  | New_Let token string macro_expr
  | New_Block token "macro_stmt option list"
  | New_If token macro_expr "macro_stmt option" "macro_stmt option"
  | New_For token string macro_expr "macro_stmt option"
  | New_Match token macro_expr

text \<open>The syntax tree, None when a pointer is null that every visitor follows.\<close>

primrec expr_tree :: "macro_expr \<Rightarrow> expr option" where
  "expr_tree (Given e) = Some e"
| "expr_tree (New_Literal t v k) = Some (LiteralExpr t v k)"
| "expr_tree (New_Variable t n) = Some (VariableExpr t n)"
| "expr_tree (New_Binary t l op r) = option_bind2 (expr_tree l) (expr_tree r) (\<lambda>a b. BinaryExpr t a op b)"
| "expr_tree (New_Call t c as) =
     (case map_option expr_tree c of
        None \<Rightarrow> None
      | Some x \<Rightarrow> option_bind2 x (option_all (map expr_tree as)) (CallExpr t))"

primrec stmt_tree :: "macro_stmt \<Rightarrow> stmt option" where
  "stmt_tree (Given_Stmt s) = Some s"
| "stmt_tree (New_Expression t e) = map_option (ExpressionStmt t) (expr_tree e)"
| "stmt_tree (New_Let t n e) = map_option (\<lambda>x. VariableStmt t n None (Some x) False) (expr_tree e)"
| "stmt_tree (New_Block t ss) =
     map_option (BlockStmt t) (option_all (map (\<lambda>s. case s of None \<Rightarrow> Some None | Some x \<Rightarrow> map_option Some x) (map (map_option stmt_tree) ss)))"
| "stmt_tree (New_If t c th el) =
     (case map_option stmt_tree th of
        None \<Rightarrow> None
      | Some x \<Rightarrow>
          (case map_option stmt_tree el of
             None \<Rightarrow> option_bind2 (expr_tree c) x (\<lambda>a b. IfStmt t a b [] None)
           | Some y \<Rightarrow> Option.bind y (\<lambda>b'. option_bind2 (expr_tree c) x (\<lambda>a b. IfStmt t a b [] (Some b')))))"
| "stmt_tree (New_For t v i b) =
     (case map_option stmt_tree b of
        None \<Rightarrow> None
      | Some x \<Rightarrow> option_bind2 (expr_tree i) x (ForStmt t v None))"
| "stmt_tree (New_Match t e) = map_option (\<lambda>x. MatchStmt t x [] None) (expr_tree e)"

text \<open>\<open>dynamic_pointer_cast<ast::Statement>\<close> of an expression: no class is both, so the result is null.\<close>

definition as_statement :: "expr \<Rightarrow> macro_stmt option" where
  "as_statement e = None"

section \<open>Contexts and macros\<close>

record macro_context =
  mc_macroName :: string
  mc_arguments :: "expr list"
  mc_capturedVars :: "string \<rightharpoonup> expr"
  mc_expansionDepth :: int

type_synonym expander = "macro_context \<Rightarrow> ErrorHandler \<Rightarrow> macro_stmt option \<times> ErrorHandler"

datatype macro_definition =
    Function_Macro string "string list" "stmt option" bool
  | Procedural_Macro string expander

primrec macro_getName :: "macro_definition \<Rightarrow> string" where
  "macro_getName (Function_Macro n ps b v) = n"
| "macro_getName (Procedural_Macro n f) = n"

primrec macro_getParameterCount :: "macro_definition \<Rightarrow> nat" where
  "macro_getParameterCount (Function_Macro n ps b v) = length ps"
| "macro_getParameterCount (Procedural_Macro n f) = 0"

primrec macro_isVariadic :: "macro_definition \<Rightarrow> bool" where
  "macro_isVariadic (Function_Macro n ps b v) = v"
| "macro_isVariadic (Procedural_Macro n f) = True"

definition macro_error :: "ErrorCode \<Rightarrow> string \<Rightarrow> ErrorHandler \<Rightarrow> ErrorHandler" where
  "macro_error ec msg h = record_error ec msg (defaultFilename h) 0 0 ERROR_SEVERITY h"

text \<open>\<open>FunctionMacro::expand\<close>: the visitor that should substitute the arguments looks variables up in
  \<open>capturedVars\<close> and changes nothing, so that what it visits has no effect.\<close>

definition capture_arguments :: "string list \<Rightarrow> macro_context \<Rightarrow> macro_context" where
  "capture_arguments ps ctx =
     ctx\<lparr>mc_capturedVars := mc_capturedVars ctx ++ map_of (rev (zip ps (mc_arguments ctx)))\<rparr>"

definition expand_function :: "string \<Rightarrow> string list \<Rightarrow> stmt option \<Rightarrow> bool \<Rightarrow> expander" where
  "expand_function n ps body variadic ctx h =
     (if \<not> variadic \<and> length (mc_arguments ctx) \<noteq> length ps then
        (None, macro_error (Syntax S001_UNEXPECTED_TOKEN)
           (''Macro '' @ [CHR 0x27] @ n @ [CHR 0x27] @ '' expects '' @ show_nat (length ps) @ '' arguments, got ''
              @ show_nat (length (mc_arguments ctx))) h)
      else let subContext = capture_arguments ps ctx
           in (map_option Given_Stmt body, h))"

primrec macro_expand :: "macro_definition \<Rightarrow> expander" where
  "macro_expand (Function_Macro n ps b v) = expand_function n ps b v"
| "macro_expand (Procedural_Macro n f) = f"

section \<open>The built-in macros\<close>

definition macro_token :: "TokenType \<Rightarrow> string \<Rightarrow> token" where
  "macro_token ty v = Token ty v [] 0 0"

abbreviation string_token :: "string \<Rightarrow> token" where
  "string_token \<equiv> macro_token (Lit STRING)"

abbreviation name_token :: "string \<Rightarrow> token" where
  "name_token \<equiv> macro_token (Lit IDENTIFIER)"

abbreviation let_token :: token where "let_token \<equiv> macro_token (Kw LET) ''let''"
abbreviation brace_token :: token where "brace_token \<equiv> macro_token (Single LEFT_BRACE) [CHR 0x7B]"
abbreviation semi_token :: token where "semi_token \<equiv> macro_token (Single SEMI_COLON) '';''"
abbreviation plus_token :: token where "plus_token \<equiv> macro_token (Op PLUS) ''+''"
abbreviation minus_token :: token where "minus_token \<equiv> macro_token (Op MINUS) ''-''"

definition string_node :: "string \<Rightarrow> macro_expr" where
  "string_node v = New_Literal (string_token v) v STRING_LITERAL"

definition named_variable :: "string \<Rightarrow> macro_expr" where
  "named_variable n = New_Variable (name_token n) n"

text \<open>The test on the number of arguments that most expanders begin with.\<close>

definition require :: "nat \<Rightarrow> string \<Rightarrow> expander \<Rightarrow> expander" where
  "require n msg f ctx h =
     (if length (mc_arguments ctx) < n then (None, macro_error (Syntax S001_UNEXPECTED_TOKEN) msg h) else f ctx h)"

definition debugMacro :: expander where
  "debugMacro ctx h =
     (let n = length (mc_arguments ctx);
          info = ''Debug: '' @ mc_macroName ctx @ (if n \<noteq> 0 then '' with '' @ show_nat n @ '' arguments'' else [])
      in (Some (New_Expression (string_token info)
            (New_Call (name_token ''print'') (Some (string_node info)) [])), h))"

text \<open>The value of an argument that is a literal, and a default otherwise.\<close>

definition macro_literal :: "string \<Rightarrow> expr \<Rightarrow> string" where
  "macro_literal d e = (case e of LiteralExpr t v k \<Rightarrow> v | _ \<Rightarrow> d)"

definition assertMacro :: expander where
  "assertMacro =
     require 1 ''assert macro requires at least one argument'' (\<lambda>ctx h.
       let as = mc_arguments ctx;
           msg = (if length as > 1 then macro_literal ''Assertion failed'' (as ! 1) else ''Assertion failed'');
           throwStmt = New_Expression (string_token msg) (New_Call (name_token ''throw'') (Some (string_node msg)) [])
       in (Some (New_If (macro_token (Kw IF) ''if'') (Given (as ! 0)) (Some (New_Block brace_token [Some throwStmt])) None), h))"

text \<open>The calls of the clock: a variable with the method's name is the callee.\<close>

definition clock_call :: "string \<Rightarrow> string \<Rightarrow> macro_expr" where
  "clock_call call object = New_Call (name_token call) (Some (New_Variable (name_token object) ''now'')) []"

definition elapsed_let :: "string \<Rightarrow> macro_expr \<Rightarrow> macro_stmt" where
  "elapsed_let n now = New_Let let_token n (New_Binary minus_token now minus_token (named_variable ''start_time''))"

definition print_stmt :: "token \<Rightarrow> string \<Rightarrow> string \<Rightarrow> macro_stmt" where
  "print_stmt t msg n =
     New_Expression semi_token (New_Call (name_token ''print'')
       (Some (New_Binary t (string_node msg) plus_token (named_variable n))) [])"

definition measureMacro :: expander where
  "measureMacro =
     require 1 ''measure macro requires at least one argument'' (\<lambda>ctx h.
       let e = mc_arguments ctx ! 0;
           measured = (case as_statement e of Some s \<Rightarrow> s | None \<Rightarrow> New_Expression (expr_token e) (Given e))
       in (Some (New_Block brace_token
             [Some (New_Let let_token ''start_time'' (clock_call ''Date.now'' ''Date'')), Some measured,
              Some (elapsed_let ''elapsed'' (clock_call ''Date.now'' ''Date'')),
              Some (print_stmt plus_token ''Execution time: '' ''elapsed'')]), h))"

definition repeatMacro :: expander where
  "repeatMacro =
     require 2 ''repeat macro requires count and body arguments'' (\<lambda>ctx h.
       (Some (New_For (macro_token (Kw FOR) ''for'') ''i'' (Given (mc_arguments ctx ! 0)) (as_statement (mc_arguments ctx ! 1))), h))"

definition ifMacro :: expander where
  "ifMacro =
     require 2 ''if macro requires condition and then body'' (\<lambda>ctx h.
       let as = mc_arguments ctx
       in (Some (New_If (macro_token (Kw IF) ''if'') (Given (as ! 0)) (as_statement (as ! 1))
                   (if length as > 2 then as_statement (as ! 2) else None)), h))"

definition matchMacro :: expander where
  "matchMacro =
     require 1 ''match macro requires expression argument'' (\<lambda>ctx h.
       (Some (New_Match (macro_token (Kw MATCH) ''match'') (Given (mc_arguments ctx ! 0))), h))"

definition forMacro :: expander where
  "forMacro =
     require 2 ''for macro requires iterator and body'' (\<lambda>ctx h.
       (Some (New_For (macro_token (Kw FOR) ''for'') [] (Given (mc_arguments ctx ! 0)) (as_statement (mc_arguments ctx ! 1))), h))"

definition letMacro :: expander where
  "letMacro =
     require 2 ''let macro requires name and value'' (\<lambda>ctx h.
       (Some (New_Let let_token (macro_literal ''temp'' (mc_arguments ctx ! 0)) (Given (mc_arguments ctx ! 1))), h))"

definition tryMacro :: expander where
  "tryMacro =
     require 1 ''try macro requires body'' (\<lambda>ctx h.
       (Some (New_Block brace_token [as_statement (mc_arguments ctx ! 0)]), h))"

text \<open>The timestamp of \<open>logMacro\<close>, a call with a null callee, is built and not used.\<close>

definition logMacro :: expander where
  "logMacro =
     require 1 ''log macro requires message'' (\<lambda>ctx h.
       (Some (New_Expression semi_token (New_Call (name_token ''print'')
          (Some (New_Binary plus_token (string_node ''[LOG] '') plus_token (Given (mc_arguments ctx ! 0)))) [])), h))"

definition profileMacro :: expander where
  "profileMacro =
     require 1 ''profile macro requires function name'' (\<lambda>ctx h.
       let n = macro_literal ''function'' (mc_arguments ctx ! 0)
       in (Some (New_Block brace_token
             [Some (New_Let let_token ''start_time'' (clock_call ''performance.now'' ''performance'')),
              Some (New_Expression semi_token (New_Call (name_token n) None [])),
              Some (elapsed_let ''duration'' (clock_call ''performance.now'' ''performance'')),
              Some (print_stmt (name_token ''concat'') (''Function '' @ n @ '' took: '') ''duration'')]), h))"

section \<open>The macro system\<close>

record macro_system =
  ms_macros :: "string \<rightharpoonup> macro_definition"
  ms_maxExpansionDepth :: int

definition registerMacro :: "macro_definition option \<Rightarrow> macro_system \<Rightarrow> macro_system" where
  "registerMacro m ms =
     (case m of
        None \<Rightarrow> ms
      | Some d \<Rightarrow> ms\<lparr>ms_macros := (ms_macros ms)(macro_getName d \<mapsto> d)\<rparr>)"

definition builtin_macros :: "(string \<times> expander) list" where
  "builtin_macros =
     [(''debug'', debugMacro), (''assert'', assertMacro), (''measure'', measureMacro), (''repeat'', repeatMacro),
      (''if'', ifMacro), (''match'', matchMacro), (''for'', forMacro), (''let'', letMacro), (''try'', tryMacro),
      (''log'', logMacro), (''profile'', profileMacro)]"

definition registerBuiltinMacros :: "macro_system \<Rightarrow> macro_system" where
  "registerBuiltinMacros = fold (\<lambda>(n, f). registerMacro (Some (Procedural_Macro n f))) builtin_macros"

definition new_MacroSystem :: macro_system where
  "new_MacroSystem = registerBuiltinMacros \<lparr>ms_macros = Map.empty, ms_maxExpansionDepth = 100\<rparr>"

definition expandMacro :: "macro_system \<Rightarrow> string \<Rightarrow> expander" where
  "expandMacro ms n ctx h =
     (case ms_macros ms n of
        None \<Rightarrow> (None, macro_error (Type T003_UNDEFINED_FUNCTION) (''Undefined macro: '' @ n) h)
      | Some d \<Rightarrow>
          if mc_expansionDepth ctx > ms_maxExpansionDepth ms then
            (None, macro_error (Compiler C001_UNIMPLEMENTED_FEATURE) ''Macro expansion depth limit exceeded'' h)
          else macro_expand d (ctx\<lparr>mc_expansionDepth := mc_expansionDepth ctx + 1\<rparr>) h)"

definition hasMacro :: "macro_system \<Rightarrow> string \<Rightarrow> bool" where
  "hasMacro ms n = (ms_macros ms n \<noteq> None)"

definition getMacro :: "macro_system \<Rightarrow> string \<Rightarrow> macro_definition option" where
  "getMacro ms n = ms_macros ms n"

text \<open>A function as a macro. It is variadic when the name of the last parameter has three dots anywhere; the first
  three characters of the name are dropped then.\<close>

definition has_dots :: "string \<Rightarrow> bool" where
  "has_dots n = list_ex (\<lambda>i. take 3 (drop i n) = ''...'') [0..<length n]"

definition parseMacroDefinition :: "stmt option \<Rightarrow> macro_definition option" where
  "parseMacroDefinition s =
     (case s of
        Some (FunctionStmt t n tps ps r body isAsync) \<Rightarrow>
          let names = map param_name ps;
              variadic = names \<noteq> [] \<and> has_dots (last names)
          in Some (Function_Macro n (if variadic then butlast names @ [drop 3 (last names)] else names) (Some body) variadic)
      | _ \<Rightarrow> None)"

text \<open>\<open>processMacros\<close> walks over blocks and expression statements and puts back what it finds; an expression is
  returned as it is.\<close>

definition process_expr :: "expr \<Rightarrow> expr" where
  "process_expr e = e"

primrec process_stmt :: "stmt \<Rightarrow> stmt" where
  "process_stmt (ExpressionStmt t e) = ExpressionStmt t (process_expr e)"
| "process_stmt (BlockStmt t ss) = BlockStmt t (map (map_option process_stmt) ss)"
| "process_stmt (VariableStmt t n ty i c) = VariableStmt t n ty i c"
| "process_stmt (IfStmt t c th els el) = IfStmt t c th els el"
| "process_stmt (WhileStmt t c b) = WhileStmt t c b"
| "process_stmt (ForStmt t v ty i b) = ForStmt t v ty i b"
| "process_stmt (FunctionStmt t n tps ps r b isAsync) = FunctionStmt t n tps ps r b isAsync"
| "process_stmt (ReturnStmt t v) = ReturnStmt t v"
| "process_stmt (ClassStmt t n tps sc ifs fs ms) = ClassStmt t n tps sc ifs fs ms"
| "process_stmt (ImportStmt t m all syms al) = ImportStmt t m all syms al"
| "process_stmt (ExportStmt t syms all d) = ExportStmt t syms all d"
| "process_stmt (ModuleStmt t n b) = ModuleStmt t n b"
| "process_stmt (MatchStmt t v cs d) = MatchStmt t v cs d"
| "process_stmt (SelectStmt t cs) = SelectStmt t cs"
| "process_stmt (GoStmt t e) = GoStmt t e"
| "process_stmt (TraitStmt t n ms st at) = TraitStmt t n ms st at"
| "process_stmt (ImplStmt t n ty ms) = ImplStmt t n ty ms"

definition process_macros :: "stmt option \<Rightarrow> stmt option" where
  "process_macros s = map_option process_stmt s"

text \<open>The number is drawn at random from 1000 to 9999.\<close>

definition generateUniqueIdentifier :: "nat \<Rightarrow> string \<Rightarrow> string" where
  "generateUniqueIdentifier drawn base = base @ ''_'' @ show_nat drawn"

section \<open>Theorems\<close>

text \<open>Macros in a program are never expanded: \<open>processMacros\<close> is the identity.\<close>

lemma process_stmt_same: "process_stmt s = s"
proof (induction s)
  case (BlockStmt t ss)
  then have "map_option process_stmt x = x" if "x \<in> set ss" for x
    using that by (cases x) auto
  then show ?case by (simp add: map_idI)
qed (simp_all add: process_expr_def)

theorem macros_not_expanded: "process_macros s = s"
  by (cases s) (simp_all add: process_macros_def process_stmt_same)

text \<open>A macro made of a function expands to the function's own body, whatever the arguments.\<close>

theorem function_macro_ignores_arguments:
  "ms_macros ms n = Some (Function_Macro n ps (Some b) v) \<Longrightarrow> mc_expansionDepth ctx \<le> ms_maxExpansionDepth ms
   \<Longrightarrow> v \<or> length (mc_arguments ctx) = length ps \<Longrightarrow> expandMacro ms n ctx h = (Some (Given_Stmt b), h)"
  by (auto simp: expandMacro_def expand_function_def Let_def)

lemma builtin_registered:
  "ms_macros new_MacroSystem n = map_option (Procedural_Macro n) (map_of builtin_macros n)"
  by (simp add: new_MacroSystem_def registerBuiltinMacros_def builtin_macros_def registerMacro_def)

lemma max_depth: "ms_maxExpansionDepth new_MacroSystem = 100"
  by (simp add: new_MacroSystem_def registerBuiltinMacros_def builtin_macros_def registerMacro_def)

lemmas expander_defs = debugMacro_def assertMacro_def measureMacro_def repeatMacro_def ifMacro_def matchMacro_def
  forMacro_def letMacro_def tryMacro_def logMacro_def profileMacro_def require_def clock_call_def elapsed_let_def
  print_stmt_def string_node_def named_variable_def as_statement_def Let_def

text \<open>The expander that a call of a built-in macro runs.\<close>

lemma expand_builtin:
  assumes "(n, f) \<in> set builtin_macros" and "mc_expansionDepth ctx \<le> 100"
  shows "expandMacro new_MacroSystem n ctx h = f (ctx\<lparr>mc_expansionDepth := mc_expansionDepth ctx + 1\<rparr>) h"
proof -
  have "distinct (map fst builtin_macros)" by (simp add: builtin_macros_def)
  then have "map_of builtin_macros n = Some f" using assms(1) by simp
  then show ?thesis using assms(2) by (simp add: expandMacro_def builtin_registered max_depth)
qed

definition null_bodies :: "string list" where
  "null_bodies = [''repeat'', ''if'', ''for'', ''profile'']"

definition expands_to :: "string \<Rightarrow> expander \<Rightarrow> bool" where
  "expands_to n f \<longleftrightarrow>
     (\<forall>ctx h. 2 \<le> length (mc_arguments ctx) \<longrightarrow>
        (\<exists>m. f ctx h = (Some m, h) \<and> (stmt_tree m = None \<longleftrightarrow> n \<in> set null_bodies)))"

lemma builtin_expands: "list_all (\<lambda>(n, f). expands_to n f) builtin_macros"
proof -
  have "expands_to ''debug'' debugMacro" "expands_to ''assert'' assertMacro" "expands_to ''measure'' measureMacro"
    "expands_to ''repeat'' repeatMacro" "expands_to ''if'' ifMacro" "expands_to ''match'' matchMacro"
    "expands_to ''for'' forMacro" "expands_to ''let'' letMacro" "expands_to ''try'' tryMacro"
    "expands_to ''log'' logMacro" "expands_to ''profile'' profileMacro"
    by (auto simp: expands_to_def null_bodies_def expander_defs option_bind2_def)
  then show ?thesis by (simp add: builtin_macros_def)
qed

text \<open>With two arguments, which every built-in macro accepts, and the depth limit not exceeded an expansion
  succeeds without a message. The expansions of \<open>repeat\<close>, \<open>if\<close> and \<open>for\<close>, whose body is an expression and so no
  statement, and of \<open>profile\<close>, which calls null, are no syntax tree: they have a null pointer that every
  visitor follows. The others are.\<close>

theorem builtin_expansions:
  assumes "n \<in> set (map fst builtin_macros)" and "2 \<le> length (mc_arguments ctx)" and "mc_expansionDepth ctx \<le> 100"
  shows "\<exists>m. expandMacro new_MacroSystem n ctx h = (Some m, h) \<and> (stmt_tree m = None \<longleftrightarrow> n \<in> set null_bodies)"
proof -
  obtain f where f: "(n, f) \<in> set builtin_macros" using assms(1) by auto
  then have "expands_to n f" using builtin_expands by (auto simp: list_all_iff)
  then show ?thesis using assms(2) unfolding expand_builtin [OF f assms(3)] by (simp add: expands_to_def)
qed

definition two_arguments :: macro_context where
  "two_arguments =
     \<lparr>mc_macroName = ''repeat'', mc_arguments = [LiteralExpr default_token ''3'' INTEGER, VariableExpr default_token ''x''],
      mc_capturedVars = Map.empty, mc_expansionDepth = 0\<rparr>"

lemma builtin_expansions_witness:
  "\<exists>m. expandMacro new_MacroSystem ''repeat'' two_arguments new_ErrorHandler = (Some m, new_ErrorHandler) \<and> stmt_tree m = None"
  using builtin_expansions [of "''repeat''" two_arguments new_ErrorHandler]
  by (simp add: builtin_macros_def two_arguments_def null_bodies_def)

text \<open>A call whose callee is a string is rejected by the code generator; outside a function it crashes.\<close>

lemma string_call_rejected:
  "gen_expr (CallExpr t (LiteralExpr u v STRING_LITERAL) as) s =
     (if insert_block s = None then Crash
      else Done (set_last None (report (Type T006_INVALID_OPERATOR_FOR_TYPE) ''Called value is not a function''
             (set_last (Some (Global_String (process_escapes (strip_quotes v)))) s))))"
  by (simp add: visitLiteralExpr_def build_string_def at_block_def finish_call_def call_value_def failed_def set_last_def)

text \<open>The expansion of \<open>debug\<close> prints nothing: the message is the callee of the call, not its argument. The
  code generator crashes on it outside of a function and reports it as no function inside of one, without any code.\<close>

theorem debug_never_prints:
  assumes "mc_expansionDepth ctx \<le> 100"
  shows "\<exists>m st msg. expandMacro new_MacroSystem ''debug'' ctx h = (Some m, h) \<and> stmt_tree m = Some st
    \<and> gen_stmt st s =
        (if insert_block s = None then Crash
         else Done (set_last None (report (Type T006_INVALID_OPERATOR_FOR_TYPE) ''Called value is not a function''
                (set_last (Some (Global_String msg)) s))))"
proof -
  have "(''debug'', debugMacro) \<in> set builtin_macros" by (simp add: builtin_macros_def)
  from expand_builtin [OF this assms] show ?thesis
    by (auto simp: debugMacro_def string_node_def Let_def option_bind2_def string_call_rejected simp del: gen_expr.simps)
qed

lemma debug_never_prints_witness:
  "\<exists>m st msg. expandMacro new_MacroSystem ''debug'' two_arguments new_ErrorHandler = (Some m, new_ErrorHandler)
    \<and> stmt_tree m = Some st
    \<and> gen_stmt st fresh_gen =
        (if insert_block fresh_gen = None then Crash
         else Done (set_last None (report (Type T006_INVALID_OPERATOR_FOR_TYPE) ''Called value is not a function''
                (set_last (Some (Global_String msg)) fresh_gen))))"
  by (rule debug_never_prints) (simp add: two_arguments_def)

end
