(* ===== verification/Tocin_Traits.thy ===== *)
theory Tocin_Traits
  imports Tocin_Types "HOL-Library.AList" "HOL-Library.Multiset" "HOL-Library.Sublist"
begin

text \<open>
  The traits of namespace \<open>type\<close> in \<open>src/type/traits.h\<close> and \<open>src/type/traits.cpp\<close>: traits, implementations,
  bounds, the registry and the solver. Traits and implementations are shared pointers, numbered in the order of
  their creation, so that a change after the registration is seen by the registry. The map of implementations is
  the list of its entries.
\<close>

section \<open>Traits and implementations\<close>

record trait_method =
  tm_name :: string
  tm_parameter_types :: "string list"
  tm_return_type :: string
  tm_is_default :: bool
  tm_default_implementation :: string
  tm_documentation :: string

record associated_type =
  ta_name :: string
  ta_default_type :: string
  ta_constraints :: "string list"
  ta_documentation :: string

record trait_object =
  tr_name :: string
  tr_methods :: "trait_method list"
  tr_associated_types :: "associated_type list"
  tr_super_traits :: "string list"
  tr_documentation :: string
  tr_is_marker :: bool
  tr_is_auto :: bool

definition new_Trait :: "string \<Rightarrow> trait_object" where
  "new_Trait n =
     \<lparr>tr_name = n, tr_methods = [], tr_associated_types = [], tr_super_traits = [], tr_documentation = [],
      tr_is_marker = False, tr_is_auto = False\<rparr>"

definition trait_addMethod :: "trait_method \<Rightarrow> trait_object \<Rightarrow> trait_object" where
  "trait_addMethod m t = t\<lparr>tr_methods := tr_methods t @ [m]\<rparr>"

definition trait_addAssociatedType :: "associated_type \<Rightarrow> trait_object \<Rightarrow> trait_object" where
  "trait_addAssociatedType a t = t\<lparr>tr_associated_types := tr_associated_types t @ [a]\<rparr>"

definition trait_addSuperTrait :: "string \<Rightarrow> trait_object \<Rightarrow> trait_object" where
  "trait_addSuperTrait n t = t\<lparr>tr_super_traits := tr_super_traits t @ [n]\<rparr>"

definition trait_setMarkerTrait :: "bool \<Rightarrow> trait_object \<Rightarrow> trait_object" where
  "trait_setMarkerTrait b t = t\<lparr>tr_is_marker := b\<rparr>"

definition trait_setAutoTrait :: "bool \<Rightarrow> trait_object \<Rightarrow> trait_object" where
  "trait_setAutoTrait b t = t\<lparr>tr_is_auto := b\<rparr>"

definition trait_setDocumentation :: "string \<Rightarrow> trait_object \<Rightarrow> trait_object" where
  "trait_setDocumentation d t = t\<lparr>tr_documentation := d\<rparr>"

definition trait_hasMethod :: "string \<Rightarrow> trait_object \<Rightarrow> bool" where
  "trait_hasMethod n t = list_ex (\<lambda>m. tm_name m = n) (tr_methods t)"

definition trait_getMethod :: "string \<Rightarrow> trait_object \<Rightarrow> trait_method option" where
  "trait_getMethod n t = find (\<lambda>m. tm_name m = n) (tr_methods t)"

record trait_impl =
  ti_trait_name :: string
  ti_type_name :: string
  ti_method_implementations :: "string \<rightharpoonup> string"
  ti_associated_type_values :: "string \<rightharpoonup> string"
  ti_where_clauses :: "string list"

definition new_TraitImpl :: "string \<Rightarrow> string \<Rightarrow> trait_impl" where
  "new_TraitImpl t ty =
     \<lparr>ti_trait_name = t, ti_type_name = ty, ti_method_implementations = Map.empty,
      ti_associated_type_values = Map.empty, ti_where_clauses = []\<rparr>"

definition impl_addMethodImplementation :: "string \<Rightarrow> string \<Rightarrow> trait_impl \<Rightarrow> trait_impl" where
  "impl_addMethodImplementation n b i = i\<lparr>ti_method_implementations := (ti_method_implementations i)(n \<mapsto> b)\<rparr>"

definition impl_addAssociatedTypeValue :: "string \<Rightarrow> string \<Rightarrow> trait_impl \<Rightarrow> trait_impl" where
  "impl_addAssociatedTypeValue n v i = i\<lparr>ti_associated_type_values := (ti_associated_type_values i)(n \<mapsto> v)\<rparr>"

definition impl_addWhereClause :: "string \<Rightarrow> trait_impl \<Rightarrow> trait_impl" where
  "impl_addWhereClause c i = i\<lparr>ti_where_clauses := ti_where_clauses i @ [c]\<rparr>"

definition impl_getMethodImplementation :: "string \<Rightarrow> trait_impl \<Rightarrow> string option" where
  "impl_getMethodImplementation n i = ti_method_implementations i n"

definition impl_getAssociatedTypeValue :: "string \<Rightarrow> trait_impl \<Rightarrow> string option" where
  "impl_getAssociatedTypeValue n i = ti_associated_type_values i n"

definition impl_isComplete :: "trait_object \<Rightarrow> trait_impl \<Rightarrow> bool" where
  "impl_isComplete t i =
     list_all (\<lambda>m. tm_is_default m \<or> impl_getMethodImplementation (tm_name m) i \<noteq> None) (tr_methods t)"

section \<open>Constraints and bounds\<close>

record type_constraint =
  tc_trait_name :: string
  tc_type_parameters :: "string list"
  tc_lifetime_parameters :: "string list"

definition new_TypeConstraint :: "string \<Rightarrow> string list \<Rightarrow> type_constraint" where
  "new_TypeConstraint t ps = \<lparr>tc_trait_name = t, tc_type_parameters = ps, tc_lifetime_parameters = []\<rparr>"

definition constraint_addTypeParameter :: "string \<Rightarrow> type_constraint \<Rightarrow> type_constraint" where
  "constraint_addTypeParameter p c = c\<lparr>tc_type_parameters := tc_type_parameters c @ [p]\<rparr>"

definition constraint_addLifetimeParameter :: "string \<Rightarrow> type_constraint \<Rightarrow> type_constraint" where
  "constraint_addLifetimeParameter l c = c\<lparr>tc_lifetime_parameters := tc_lifetime_parameters c @ [l]\<rparr>"

definition constraint_toString :: "type_constraint \<Rightarrow> string" where
  "constraint_toString c =
     tc_trait_name c @ (if tc_type_parameters c \<noteq> [] then ''<'' @ join_with '', '' (tc_type_parameters c) @ ''>'' else [])"

record trait_bound =
  tb_constraints :: "type_constraint list"
  tb_bound_type :: string

definition new_TraitBound :: "string \<Rightarrow> trait_bound" where
  "new_TraitBound ty = \<lparr>tb_constraints = [], tb_bound_type = ty\<rparr>"

definition bound_addConstraint :: "type_constraint \<Rightarrow> trait_bound \<Rightarrow> trait_bound" where
  "bound_addConstraint c b = b\<lparr>tb_constraints := tb_constraints b @ [c]\<rparr>"

definition bound_toString :: "trait_bound \<Rightarrow> string" where
  "bound_toString b =
     tb_bound_type b @ (if tb_constraints b \<noteq> [] then '': '' @ join_with '' + '' (map constraint_toString (tb_constraints b)) else [])"

section \<open>The registry\<close>

record trait_world =
  tw_traits :: "trait_object list"
  tw_impls :: "trait_impl list"
  tw_registered :: "string \<rightharpoonup> nat"
  tw_implementations :: "(string \<times> nat list) list"

definition new_world :: trait_world where
  "new_world = \<lparr>tw_traits = [], tw_impls = [], tw_registered = Map.empty, tw_implementations = []\<rparr>"

definition impl_key :: "string \<Rightarrow> string \<Rightarrow> string" where
  "impl_key t ty = t @ '' for '' @ ty"

definition registerTrait :: "nat \<Rightarrow> trait_world \<Rightarrow> trait_world" where
  "registerTrait a w = w\<lparr>tw_registered := (tw_registered w)(tr_name (tw_traits w ! a) \<mapsto> a)\<rparr>"

definition implementations_of :: "string \<Rightarrow> trait_world \<Rightarrow> nat list" where
  "implementations_of k w = (case map_of (tw_implementations w) k of None \<Rightarrow> [] | Some is \<Rightarrow> is)"

definition registerImplementation :: "nat \<Rightarrow> trait_world \<Rightarrow> trait_world" where
  "registerImplementation a w =
     (let i = tw_impls w ! a;
          k = impl_key (ti_trait_name i) (ti_type_name i)
      in w\<lparr>tw_implementations := AList.update k (implementations_of k w @ [a]) (tw_implementations w)\<rparr>)"

definition world_getTrait :: "string \<Rightarrow> trait_world \<Rightarrow> nat option" where
  "world_getTrait n w = tw_registered w n"

definition getImplementation :: "string \<Rightarrow> string \<Rightarrow> trait_world \<Rightarrow> nat option" where
  "getImplementation t ty w =
     (case map_of (tw_implementations w) (impl_key t ty) of
        Some (a # as) \<Rightarrow> Some a
      | _ \<Rightarrow> None)"

definition typeImplementsTrait :: "string \<Rightarrow> string \<Rightarrow> trait_world \<Rightarrow> bool" where
  "typeImplementsTrait ty t w = (getImplementation t ty w \<noteq> None)"

definition getImplementationsForTrait :: "string \<Rightarrow> trait_world \<Rightarrow> nat list" where
  "getImplementationsForTrait t w =
     concat (map snd (filter (\<lambda>(k, as). prefix (t @ '' for '') k) (tw_implementations w)))"

section \<open>The solver\<close>

definition satisfiesBound :: "string \<Rightarrow> trait_bound \<Rightarrow> trait_world \<Rightarrow> bool" where
  "satisfiesBound ty b w = list_all (\<lambda>c. typeImplementsTrait ty (tc_trait_name c) w) (tb_constraints b)"

definition findMethodImplementation :: "string \<Rightarrow> string \<Rightarrow> string \<Rightarrow> trait_world \<Rightarrow> string" where
  "findMethodImplementation ty t m w =
     (case Option.bind (getImplementation t ty w) (\<lambda>a. impl_getMethodImplementation m (tw_impls w ! a)) of
        Some b \<Rightarrow> b
      | None \<Rightarrow>
          (case Option.bind (world_getTrait t w) (\<lambda>a. trait_getMethod m (tw_traits w ! a)) of
             Some d \<Rightarrow> if tm_is_default d then tm_default_implementation d else []
           | None \<Rightarrow> []))"

definition resolveAssociatedType :: "string \<Rightarrow> string \<Rightarrow> string \<Rightarrow> trait_world \<Rightarrow> string" where
  "resolveAssociatedType ty t n w =
     (case Option.bind (getImplementation t ty w) (\<lambda>a. impl_getAssociatedTypeValue n (tw_impls w ! a)) of
        Some v \<Rightarrow> v
      | None \<Rightarrow>
          (case Option.bind (world_getTrait t w) (\<lambda>a. find (\<lambda>x. ta_name x = n) (tr_associated_types (tw_traits w ! a))) of
             Some x \<Rightarrow> ta_default_type x
           | None \<Rightarrow> []))"

section \<open>Programs over traits\<close>

text \<open>\<open>createTrait\<close> and \<open>createTraitImpl\<close> make objects, the others change or register an object by its number.\<close>

datatype trait_op =
    Create_Trait string
  | Change_Trait nat "trait_object \<Rightarrow> trait_object"
  | Create_Impl string string
  | Change_Impl nat "trait_impl \<Rightarrow> trait_impl"
  | Register_Trait nat
  | Register_Impl nat

definition createTrait :: "string \<Rightarrow> trait_world \<Rightarrow> trait_world" where
  "createTrait n w = w\<lparr>tw_traits := tw_traits w @ [new_Trait n]\<rparr>"

definition createTraitImpl :: "string \<Rightarrow> string \<Rightarrow> trait_world \<Rightarrow> trait_world" where
  "createTraitImpl t ty w = w\<lparr>tw_impls := tw_impls w @ [new_TraitImpl t ty]\<rparr>"

text \<open>A number without an object is skipped: the source has no such pointer.\<close>

primrec trait_step :: "trait_op \<Rightarrow> trait_world \<Rightarrow> trait_world" where
  "trait_step (Create_Trait n) w = createTrait n w"
| "trait_step (Change_Trait a f) w =
     (if a < length (tw_traits w) then w\<lparr>tw_traits := (tw_traits w)[a := f (tw_traits w ! a)]\<rparr> else w)"
| "trait_step (Create_Impl t ty) w = createTraitImpl t ty w"
| "trait_step (Change_Impl a f) w =
     (if a < length (tw_impls w) then w\<lparr>tw_impls := (tw_impls w)[a := f (tw_impls w ! a)]\<rparr> else w)"
| "trait_step (Register_Trait a) w = (if a < length (tw_traits w) then registerTrait a w else w)"
| "trait_step (Register_Impl a) w = (if a < length (tw_impls w) then registerImplementation a w else w)"

text \<open>The registrations of implementations in order, with the names they had then.\<close>

definition registration :: "trait_op \<Rightarrow> trait_world \<Rightarrow> (string \<times> string \<times> nat) list" where
  "registration oper w =
     (case oper of
        Register_Impl a \<Rightarrow>
          if a < length (tw_impls w) then [(ti_trait_name (tw_impls w ! a), ti_type_name (tw_impls w ! a), a)] else []
      | _ \<Rightarrow> [])"

primrec registrations :: "trait_op list \<Rightarrow> trait_world \<Rightarrow> (string \<times> string \<times> nat) list" where
  "registrations [] w = []"
| "registrations (oper # ops) w = registration oper w @ registrations ops (trait_step oper w)"

section \<open>The registry as a list of registrations\<close>

lemma registrations_snoc:
  "registrations (ops @ [oper]) w = registrations ops w @ registration oper (fold trait_step ops w)"
  by (induction ops arbitrary: w) simp_all

text \<open>The entries that a table of buckets has under the keys with a property.\<close>

definition bucket_entries :: "(string \<Rightarrow> bool) \<Rightarrow> (string \<times> nat list) list \<Rightarrow> nat list" where
  "bucket_entries P tbl = concat (map snd (filter (\<lambda>(k, as). P k) tbl))"

lemma bucket_entries_update:
  "mset (bucket_entries P (AList.update k ((case map_of tbl k of None \<Rightarrow> [] | Some as \<Rightarrow> as) @ [a]) tbl))
   = mset (bucket_entries P tbl) + (if P k then {#a#} else {#})"
  by (induction tbl) (auto simp: bucket_entries_def)

definition reg_key :: "string \<times> string \<times> nat \<Rightarrow> string" where
  "reg_key r = impl_key (fst r) (fst (snd r))"

definition table_ok :: "(string \<times> string \<times> nat) list \<Rightarrow> trait_world \<Rightarrow> bool" where
  "table_ok regs w \<longleftrightarrow>
     (\<forall>k. implementations_of k w = map (snd \<circ> snd) (filter (\<lambda>r. reg_key r = k) regs))
     \<and> (\<forall>P. mset (bucket_entries P (tw_implementations w)) = mset (map (snd \<circ> snd) (filter (P \<circ> reg_key) regs)))"

lemma table_ok_step:
  assumes "table_ok regs w"
  shows "table_ok (regs @ registration oper w) (trait_step oper w)"
proof (cases oper)
  case (Register_Impl a)
  show ?thesis
  proof (cases "a < length (tw_impls w)")
    case True
    let ?i = "tw_impls w ! a"
    let ?k = "impl_key (ti_trait_name ?i) (ti_type_name ?i)"
    have "implementations_of k (registerImplementation a w) =
        (if k = ?k then implementations_of k w @ [a] else implementations_of k w)" for k
      by (auto simp: registerImplementation_def implementations_of_def update_conv' Let_def)
    moreover have "mset (bucket_entries P (tw_implementations (registerImplementation a w)))
        = mset (bucket_entries P (tw_implementations w)) + (if P ?k then {#a#} else {#})" for P
      using bucket_entries_update [of P ?k "tw_implementations w" a]
      by (simp add: registerImplementation_def implementations_of_def Let_def)
    ultimately show ?thesis
      using assms True by (simp add: Register_Impl registration_def table_ok_def reg_key_def)
  qed (use assms in \<open>simp add: Register_Impl registration_def\<close>)
qed (use assms in \<open>simp_all add: registration_def table_ok_def implementations_of_def createTrait_def createTraitImpl_def
    registerTrait_def\<close>)

lemma table_ok_run: "table_ok (registrations ops new_world) (fold trait_step ops new_world)"
proof (induction ops rule: rev_induct)
  case Nil
  show ?case by (simp add: table_ok_def new_world_def implementations_of_def bucket_entries_def)
next
  case (snoc oper ops)
  then show ?case using table_ok_step [OF snoc] by (simp add: registrations_snoc)
qed

lemma find_hd: "find P xs = (case filter P xs of [] \<Rightarrow> None | x # _ \<Rightarrow> Some x)"
  by (induction xs) auto

lemma getImplementation_first:
  "getImplementation t ty w = (case implementations_of (impl_key t ty) w of [] \<Rightarrow> None | a # _ \<Rightarrow> Some a)"
  by (auto simp: getImplementation_def implementations_of_def split: option.split list.split)

text \<open>Keys of trait names without a blank are not ambiguous.\<close>

definition one_word :: "string \<Rightarrow> bool" where
  "one_word t \<longleftrightarrow> CHR '' '' \<notin> set t"

lemma one_word_split:
  assumes "one_word t"
  shows "takeWhile (\<lambda>c. c \<noteq> CHR '' '') (t @ CHR '' '' # rest) = t"
    and "dropWhile (\<lambda>c. c \<noteq> CHR '' '') (t @ CHR '' '' # rest) = CHR '' '' # rest"
proof -
  have "c \<noteq> CHR '' ''" if "c \<in> set t" for c using assms that by (auto simp: one_word_def)
  then show "takeWhile (\<lambda>c. c \<noteq> CHR '' '') (t @ CHR '' '' # rest) = t"
    and "dropWhile (\<lambda>c. c \<noteq> CHR '' '') (t @ CHR '' '' # rest) = CHR '' '' # rest"
    by (simp_all add: takeWhile_append2 dropWhile_append2)
qed

lemma impl_key_prefix:
  assumes "one_word t" and "one_word u"
  shows "prefix (t @ '' for '') (impl_key u ty) \<longleftrightarrow> t = u"
proof
  assume "prefix (t @ '' for '') (impl_key u ty)"
  then obtain rest where "u @ CHR '' '' # ''for '' @ ty = t @ CHR '' '' # ''for '' @ rest"
    by (auto simp: impl_key_def prefix_def)
  then show "t = u" using one_word_split(1) [OF assms(1)] one_word_split(1) [OF assms(2)] by metis
qed (simp add: impl_key_def)

lemma impl_key_inject:
  assumes "one_word t" and "one_word u" and "impl_key t ty = impl_key u uy"
  shows "t = u \<and> ty = uy"
proof -
  have "t = u" using impl_key_prefix [OF assms(1,2), of uy] assms(3) by (metis impl_key_def append_assoc prefixI)
  then show ?thesis using assms(3) by (simp add: impl_key_def)
qed

text \<open>C31: when no trait name has a blank, the registry is the list of the registrations: a lookup gives the first
  implementation that was registered for the trait and the type, and the implementations of a trait are those that
  were registered for it, each as often as it was.\<close>

theorem registry_refines_registrations:
  assumes "one_word t" and "list_all (one_word \<circ> fst) (registrations ops new_world)"
  shows "let w = fold trait_step ops new_world; regs = registrations ops new_world
   in getImplementation t ty w = map_option (snd \<circ> snd) (find (\<lambda>r. fst r = t \<and> fst (snd r) = ty) regs)
      \<and> mset (getImplementationsForTrait t w) = mset (map (snd \<circ> snd) (filter (\<lambda>r. fst r = t) regs))"
proof -
  let ?w = "fold trait_step ops new_world" and ?regs = "registrations ops new_world"
  have words: "one_word (fst r)" if "r \<in> set ?regs" for r
    using assms(2) that by (simp add: list_all_iff)
  have ok: "table_ok ?regs ?w" by (rule table_ok_run)
  have f: "filter (\<lambda>r. reg_key r = impl_key t ty) ?regs = filter (\<lambda>r. fst r = t \<and> fst (snd r) = ty) ?regs"
  proof (rule filter_cong [OF refl])
    fix r
    assume "r \<in> set ?regs"
    then show "reg_key r = impl_key t ty \<longleftrightarrow> fst r = t \<and> fst (snd r) = ty"
      using impl_key_inject [OF words assms(1), of r "fst (snd r)" ty] by (auto simp: reg_key_def)
  qed
  have "implementations_of (impl_key t ty) ?w = map (snd \<circ> snd) (filter (\<lambda>r. fst r = t \<and> fst (snd r) = ty) ?regs)"
    using ok f by (simp add: table_ok_def)
  then have 1: "getImplementation t ty ?w = map_option (snd \<circ> snd) (find (\<lambda>r. fst r = t \<and> fst (snd r) = ty) ?regs)"
    by (simp add: getImplementation_first find_hd split: list.split)
  have "filter ((\<lambda>k. prefix (t @ '' for '') k) \<circ> reg_key) ?regs = filter (\<lambda>r. fst r = t) ?regs"
    by (rule filter_cong) (use words impl_key_prefix [OF assms(1)] in \<open>auto simp: reg_key_def\<close>)
  moreover have "getImplementationsForTrait t ?w = bucket_entries (\<lambda>k. prefix (t @ '' for '') k) (tw_implementations ?w)"
    by (simp add: getImplementationsForTrait_def bucket_entries_def)
  moreover have "mset (bucket_entries P (tw_implementations ?w)) = mset (map (snd \<circ> snd) (filter (P \<circ> reg_key) ?regs))" for P
    using ok unfolding table_ok_def by blast
  ultimately have 2: "mset (getImplementationsForTrait t ?w) = mset (map (snd \<circ> snd) (filter (\<lambda>r. fst r = t) ?regs))"
    by (simp only:)
  show ?thesis unfolding Let_def using 1 2 by (rule conjI)
qed

definition two_impls :: "trait_op list" where
  "two_impls =
     [Create_Impl ''Show'' ''int'', Create_Impl ''Show'' ''int'', Create_Impl ''Eq'' ''int'', Register_Impl 1, Register_Impl 0, Register_Impl 2]"

lemma registry_refines_registrations_witness:
  "getImplementation ''Show'' ''int'' (fold trait_step two_impls new_world) = Some 1"
proof -
  have regs: "registrations two_impls new_world = [(''Show'', ''int'', 1), (''Show'', ''int'', 0), (''Eq'', ''int'', 2)]"
    by (simp add: two_impls_def registration_def new_world_def createTraitImpl_def new_TraitImpl_def registerImplementation_def Let_def)
  have "one_word ''Show''" "list_all (one_word \<circ> fst) (registrations two_impls new_world)"
    by (simp_all add: one_word_def regs)
  from registry_refines_registrations [OF this, of "''int''"] show ?thesis by (simp add: regs Let_def)
qed

text \<open>With a blank in a name two different implementations share a key: here the trait \<open>x for\<close> has none for \<open>B\<close>.\<close>

lemma ambiguous_key:
  "getImplementation ''x for'' ''B'' (fold trait_step [Create_Impl ''x'' ''for B'', Register_Impl 0] new_world) = Some 0"
  by (simp add: createTraitImpl_def new_world_def registerImplementation_def implementations_of_def new_TraitImpl_def
      impl_key_def getImplementation_def Let_def)

section \<open>Resolution\<close>

lemma getMethod_hasMethod:
  assumes "trait_hasMethod m t"
  obtains d where "trait_getMethod m t = Some d" "d \<in> set (tr_methods t)" "tm_name d = m"
proof (cases "trait_getMethod m t")
  case None
  then show thesis using assms by (auto simp: trait_getMethod_def trait_hasMethod_def find_None_iff list_ex_iff)
next
  case (Some d)
  then have "d \<in> set (tr_methods t) \<and> tm_name d = m" by (auto simp: trait_getMethod_def find_Some_iff)
  then show thesis using that Some by blast
qed

text \<open>A complete implementation of a registered trait resolves every method of the trait: to its own body or,
  without one, to the default of the trait.\<close>

theorem complete_impl_resolves:
  assumes "getImplementation t ty w = Some a" and "world_getTrait t w = Some b"
    and "impl_isComplete (tw_traits w ! b) (tw_impls w ! a)" and "trait_hasMethod m (tw_traits w ! b)"
  shows "\<exists>d. trait_getMethod m (tw_traits w ! b) = Some d
    \<and> (case impl_getMethodImplementation m (tw_impls w ! a) of
         Some body \<Rightarrow> findMethodImplementation ty t m w = body
       | None \<Rightarrow> tm_is_default d \<and> findMethodImplementation ty t m w = tm_default_implementation d)"
proof -
  obtain d where d: "trait_getMethod m (tw_traits w ! b) = Some d" "d \<in> set (tr_methods (tw_traits w ! b))" "tm_name d = m"
    using getMethod_hasMethod [OF assms(4)] .
  then have "tm_is_default d \<or> impl_getMethodImplementation m (tw_impls w ! a) \<noteq> None"
    using assms(3) by (auto simp: impl_isComplete_def list_all_iff)
  then show ?thesis using d(1) assms(1,2) by (auto simp: findMethodImplementation_def split: option.split)
qed

text \<open>A bound asks only whether something was registered: not for the trait, not for completeness, not for the
  type parameters and not for the super traits.\<close>

lemma bound_needs_registration:
  "satisfiesBound ty b w \<longleftrightarrow> (\<forall>c \<in> set (tb_constraints b). implementations_of (impl_key (tc_trait_name c) ty) w \<noteq> [])"
  by (auto simp: satisfiesBound_def typeImplementsTrait_def getImplementation_first list_all_iff split: list.split)

text \<open>A change through the shared pointer after the registration is seen.\<close>

lemma late_method_seen:
  "getImplementation t ty w = Some a \<Longrightarrow> a < length (tw_impls w)
   \<Longrightarrow> findMethodImplementation ty t m (trait_step (Change_Impl a (impl_addMethodImplementation m body)) w) = body"
  by (simp add: findMethodImplementation_def getImplementation_def impl_addMethodImplementation_def impl_getMethodImplementation_def)

end
