(* ===== verification/Tocin_Ffi_JavaScript.thy ===== *)
theory Tocin_Ffi_JavaScript
  imports Tocin_Stdlib
begin

text \<open>
  The bridge to JavaScript of \<open>src/ffi/ffi_javascript.cpp\<close>, which keeps its state in memory and
  evaluates literals by itself. \<open>state_\<close> is never null after the constructor. The file system is a
  parameter. Values that the bridge stores are copies and own no pointer, so that overwriting one
  frees nothing. A \<open>std::get\<close> that throws is None.
\<close>

section \<open>State\<close>

record 'd js_state =
  js_initialized :: bool
  js_ready :: bool
  js_lastError :: string
  js_modules :: "(string \<times> bool) list"
  js_variables :: "(string \<times> 'd ffi) list"
  js_functions :: "(string \<times> 'd ffi) list"

definition new_js :: "'d js_state" where
  "new_js = \<lparr>js_initialized = False, js_ready = False, js_lastError = [], js_modules = [],
     js_variables = [], js_functions = []\<rparr>"

definition js_fail :: "string \<Rightarrow> 'd js_state \<Rightarrow> 'd js_state" where
  "js_fail m s = s\<lparr>js_lastError := m\<rparr>"

abbreviation js_not_ready :: string where
  "js_not_ready \<equiv> ''JavaScript FFI not initialized''"

definition js_initialize :: "'d js_state \<Rightarrow> bool \<times> 'd js_state" where
  "js_initialize s = (True, s\<lparr>js_ready := True, js_initialized := True, js_lastError := []\<rparr>)"

definition js_finalize :: "'d js_state \<Rightarrow> 'd js_state" where
  "js_finalize s = s\<lparr>js_ready := False, js_modules := [], js_variables := [], js_functions := [],
     js_initialized := False\<rparr>"

definition js_getVersion :: string where
  "js_getVersion = ''1.0.0-stub''"

definition js_callFunction :: "string \<Rightarrow> 'd ffi list \<Rightarrow> 'd js_state \<Rightarrow> 'd ffi \<times> 'd js_state" where
  "js_callFunction f args s =
     (if \<not> js_ready s then (ffi_undefined, js_fail js_not_ready s)
      else case map_of (js_functions s) f of
             Some v \<Rightarrow> (ffi_copy v, s)
           | None \<Rightarrow> (ffi_undefined, js_fail (''Function not found: '' @ f) s))"

definition js_hasFunction :: "string \<Rightarrow> 'd js_state \<Rightarrow> bool" where
  "js_hasFunction f s \<longleftrightarrow> js_ready s \<and> map_of (js_functions s) f \<noteq> None"

definition js_loadModule :: "string \<Rightarrow> 'd js_state \<Rightarrow> bool \<times> 'd js_state" where
  "js_loadModule m s =
     (if \<not> js_ready s then (False, js_fail js_not_ready s)
      else (True, s\<lparr>js_modules := AList.update m True (js_modules s)\<rparr>))"

definition js_unloadModule :: "string \<Rightarrow> 'd js_state \<Rightarrow> bool \<times> 'd js_state" where
  "js_unloadModule m s =
     (if \<not> js_ready s then (False, s)
      else if map_of (js_modules s) m \<noteq> None then (True, s\<lparr>js_modules := AList.delete m (js_modules s)\<rparr>)
      else (False, s))"

definition js_isModuleLoaded :: "string \<Rightarrow> 'd js_state \<Rightarrow> bool" where
  "js_isModuleLoaded m s \<longleftrightarrow> js_ready s \<and> map_of (js_modules s) m = Some True"

definition js_loadModuleFromCode :: "string \<Rightarrow> string \<Rightarrow> 'd js_state \<Rightarrow> bool \<times> 'd js_state" where
  "js_loadModuleFromCode m c s =
     (if \<not> js_ready s then (False, s) else (True, s\<lparr>js_modules := AList.update m True (js_modules s)\<rparr>))"

definition js_toFFIValue :: "'v option \<Rightarrow> 'd ffi" where
  "js_toFFIValue v = (if v = None then ffi_undefined else ffi_undefined)"

definition js_fromFFIValue :: "'d ffi \<Rightarrow> 'v option" where
  "js_fromFFIValue v = None"

definition js_hasError :: "'d js_state \<Rightarrow> bool" where
  "js_hasError s \<longleftrightarrow> js_lastError s \<noteq> []"

definition js_getLastError :: "'d js_state \<Rightarrow> string" where
  "js_getLastError s = js_lastError s"

definition js_clearError :: "'d js_state \<Rightarrow> 'd js_state" where
  "js_clearError s = s\<lparr>js_lastError := []\<rparr>"

definition js_getSupportedFeatures :: "string list" where
  "js_getSupportedFeatures = [''eval'', ''modules'', ''objects'', ''arrays'', ''promises'']"

definition js_supportsFeature :: "string \<Rightarrow> bool" where
  "js_supportsFeature f \<longleftrightarrow> f \<in> set js_getSupportedFeatures"

definition js_isAvailable :: "'d js_state \<Rightarrow> bool" where
  "js_isAvailable s \<longleftrightarrow> js_initialized s \<and> js_ready s"

definition js_getVariable :: "string \<Rightarrow> 'd js_state \<Rightarrow> 'd ffi" where
  "js_getVariable n s =
     (if \<not> js_ready s then ffi_undefined
      else case map_of (js_variables s) n of Some v \<Rightarrow> ffi_copy v | None \<Rightarrow> ffi_undefined)"

definition js_setVariable :: "string \<Rightarrow> 'd ffi \<Rightarrow> 'd js_state \<Rightarrow> 'd js_state" where
  "js_setVariable n v s =
     (if js_ready s then s\<lparr>js_variables := AList.update n (ffi_copy v) (js_variables s)\<rparr> else s)"

definition js_getGlobal :: "string \<Rightarrow> 'd js_state \<Rightarrow> 'd ffi" where
  "js_getGlobal n s = js_getVariable n s"

definition js_setGlobal :: "string \<Rightarrow> 'd ffi \<Rightarrow> 'd js_state \<Rightarrow> bool \<times> 'd js_state" where
  "js_setGlobal n v s = (True, js_setVariable n v s)"

section \<open>Evaluation\<close>

definition js_trim :: "string \<Rightarrow> string" where
  "js_trim s = rev (dropWhile is_blank (rev (dropWhile is_blank s)))"

definition js_quoted :: "string \<Rightarrow> bool" where
  "js_quoted s \<longleftrightarrow> 2 \<le> length s \<and>
     (s ! 0 = DQUOTE \<and> last s = DQUOTE \<or> s ! 0 = SQUOTE \<and> last s = SQUOTE)"

definition js_inside :: "string \<Rightarrow> string" where
  "js_inside s = substr s 1 (length s - 2)"

definition js_enclosed :: "char \<Rightarrow> char \<Rightarrow> string \<Rightarrow> bool" where
  "js_enclosed a b s \<longleftrightarrow> 2 \<le> length s \<and> s ! 0 = a \<and> last s = b"

text \<open>The texts between the commas; the one after the last comma is left out if it is empty.\<close>

function js_pieces :: "string \<Rightarrow> string list" where
  "js_pieces s =
     (if CHR '','' \<in> set s
      then takeWhile (\<lambda>c. c \<noteq> CHR '','') s # js_pieces (tl (dropWhile (\<lambda>c. c \<noteq> CHR '','') s))
      else if s = [] then [] else [s])"
  by auto
termination
proof (relation "measure length")
  fix s :: string assume "CHR '','' \<in> set s"
  then have "dropWhile (\<lambda>c. c \<noteq> CHR '','') s \<noteq> []" by (auto simp: dropWhile_eq_Nil_conv)
  moreover have "length (dropWhile (\<lambda>c. c \<noteq> CHR '','') s) \<le> length s" by (rule length_dropWhile_le)
  ultimately show "(tl (dropWhile (\<lambda>c. c \<noteq> CHR '','') s), s) \<in> measure length"
    by (cases "dropWhile (\<lambda>c. c \<noteq> CHR '','') s") auto
qed simp

declare js_pieces.simps [simp del]

text \<open>The key and the text of the value of a pair.\<close>

definition js_pair :: "string \<Rightarrow> (string \<times> string) option" where
  "js_pair p =
     (if CHR '':'' \<in> set p then
        (let k = js_trim (takeWhile (\<lambda>c. c \<noteq> CHR '':'') p)
         in Some (if js_quoted k then js_inside k else k, tl (dropWhile (\<lambda>c. c \<noteq> CHR '':'') p)))
      else None)"

primrec js_elements :: "(string \<Rightarrow> 's \<Rightarrow> 'd ffi \<times> 's) \<Rightarrow> string list \<Rightarrow> 's \<Rightarrow> 'd ffi list \<times> 's" where
  "js_elements ev [] s = ([], s)"
| "js_elements ev (p # ps) s =
     (let (v, s1) = ev p s; (vs, s2) = js_elements ev ps s1 in (v # vs, s2))"

primrec js_members ::
  "(string \<Rightarrow> 's \<Rightarrow> 'd ffi \<times> 's) \<Rightarrow> string list \<Rightarrow> (string \<times> 'd ffi) list \<Rightarrow> 's \<Rightarrow> (string \<times> 'd ffi) list \<times> 's" where
  "js_members ev [] ms s = (ms, s)"
| "js_members ev (p # ps) ms s =
     (case js_pair p of
        None \<Rightarrow> js_members ev ps ms s
      | Some (k, t) \<Rightarrow> (let (v, s1) = ev t s in js_members ev ps (AList.update k v ms) s1))"

lemma js_elements_cong [fundef_cong]:
  assumes "ps = qs" "s = t" "\<And>p s. p \<in> set qs \<Longrightarrow> ev p s = ev' p s"
  shows "js_elements ev ps s = js_elements ev' qs t"
  using assms(3) unfolding assms(1,2) by (induction qs arbitrary: t) (auto split: prod.splits)

lemma js_members_cong [fundef_cong]:
  assumes "ps = qs" "ms = ns" "s = t" "\<And>p k x s. p \<in> set qs \<Longrightarrow> js_pair p = Some (k, x) \<Longrightarrow> ev x s = ev' x s"
  shows "js_members ev ps ms s = js_members ev' qs ns t"
  using assms(4) unfolding assms(1-3)
proof (induction qs arbitrary: ns t)
  case (Cons q qs)
  have "js_members ev qs ms s = js_members ev' qs ms s" for ms s
    using Cons.IH Cons.prems by (meson list.set_intros(2))
  then show ?case using Cons.prems [of q] by (auto split: prod.splits option.splits)
qed simp

definition js_number :: "'d float_ops \<Rightarrow> string \<Rightarrow> 'd ffi option" where
  "js_number fo t =
     (if CHR ''.'' \<in> set t then map_option (\<lambda>d. ffi_make FLOAT_TYPE (P_Double d)) (fl_parse fo t)
      else if t \<noteq> [] \<and> (isdigit (t ! 0) \<or> t ! 0 = CHR ''-'') then
        map_option (\<lambda>i. ffi_make INTEGER_TYPE (P_Int (word_of_int i))) (stoi_value 32 t)
      else None)"

abbreviation js_complex :: string where
  "js_complex \<equiv> ''Complex JavaScript expressions require V8 integration (not available). Build with V8 support enabled.''"

lemma js_trim_length: "length (js_trim s) \<le> length s"
  unfolding js_trim_def using length_dropWhile_le [of is_blank s]
    length_dropWhile_le [of is_blank "rev (dropWhile is_blank s)"] by simp

lemma js_trim_set: "set (js_trim s) \<subseteq> set s"
  unfolding js_trim_def by (auto dest!: set_dropWhileD)

lemma js_pieces_length: "p \<in> set (js_pieces s) \<Longrightarrow> length p \<le> length s"
proof (induction s rule: js_pieces.induct)
  case (1 s)
  have "length (tl (dropWhile (\<lambda>c. c \<noteq> CHR '','') s)) \<le> length s"
    using length_dropWhile_le [of "\<lambda>c. c \<noteq> CHR '',''" s] by simp
  moreover have "p \<in> set (if CHR '','' \<in> set s
      then takeWhile (\<lambda>c. c \<noteq> CHR '','') s # js_pieces (tl (dropWhile (\<lambda>c. c \<noteq> CHR '','') s))
      else if s = [] then [] else [s])"
    using "1.prems" js_pieces.simps [of s] by simp
  ultimately show ?case using "1.IH" length_takeWhile_le [of "\<lambda>c. c \<noteq> CHR '',''" s]
    by (auto split: if_splits)
qed

lemma js_pair_length: "js_pair p = Some (k, t) \<Longrightarrow> length t \<le> length p"
  using length_dropWhile_le [of "\<lambda>c. c \<noteq> CHR '':''" p] by (auto simp: js_pair_def Let_def split: if_splits)

lemma js_inside_length: "2 \<le> length s \<Longrightarrow> length (js_inside s) < length s"
  by (simp add: js_inside_def substr_def)

lemma js_piece_less:
  assumes "js_enclosed a b (js_trim c)" "p \<in> set (js_pieces (js_inside (js_trim c)))"
  shows "length p < length c"
  using js_pieces_length [OF assms(2)] js_inside_length [of "js_trim c"] js_trim_length [of c] assms(1)
  by (simp add: js_enclosed_def)

function js_eval :: "'d float_ops \<Rightarrow> string \<Rightarrow> 'd js_state \<Rightarrow> 'd ffi \<times> 'd js_state" where
  "js_eval fo c s =
     (if \<not> js_ready s then (ffi_undefined, js_fail js_not_ready s)
      else let t = js_trim c in
        if t = ''true'' then (ffi_make BOOLEAN_TYPE (P_Bool True), s)
        else if t = ''false'' then (ffi_make BOOLEAN_TYPE (P_Bool False), s)
        else if t = ''null'' \<or> t = ''undefined'' then (ffi_undefined, s)
        else case js_number fo t of
          Some v \<Rightarrow> (v, s)
        | None \<Rightarrow>
            if js_quoted t then (ffi_make STRING_TYPE (P_String (js_inside t)), s)
            else if js_enclosed (CHR ''['') (CHR '']'') t then
              (let (vs, s1) = js_elements (\<lambda>p. js_eval fo p) (js_pieces (js_inside t)) s
               in (ffi_make ARRAY_TYPE (P_Array (map ffi_copy vs)), s1))
            else if js_enclosed (CHR ''{'') (CHR ''}'') t then
              (let (ms, s1) = js_members (\<lambda>p. js_eval fo p) (js_pieces (js_inside t)) [] s
               in (ffi_make OBJECT_TYPE (P_Object (map (map_prod id ffi_copy) ms)), s1))
            else (ffi_undefined, js_fail js_complex s))"
  by auto
termination
proof (relation "measure (\<lambda>(fo, c, s). length c)")
  fix fo :: "'d float_ops" and c :: string and s s1 :: "'d js_state" and t p
  assume "t = js_trim c" "js_enclosed (CHR ''['') (CHR '']'') t" "p \<in> set (js_pieces (js_inside t))"
  then show "((fo, p, s1), fo, c, s) \<in> measure (\<lambda>(fo, c, s). length c)" using js_piece_less by auto
next
  fix fo :: "'d float_ops" and c :: string and s s1 :: "'d js_state" and t p k x
  assume "t = js_trim c" "js_enclosed (CHR ''{'') (CHR ''}'') t" "p \<in> set (js_pieces (js_inside t))" "js_pair p = Some (k, x)"
  then show "((fo, x, s1), fo, c, s) \<in> measure (\<lambda>(fo, c, s). length c)"
    using js_piece_less js_pair_length by fastforce
qed simp

declare js_eval.simps [simp del]

definition js_executeCode :: "'d float_ops \<Rightarrow> string \<Rightarrow> 'd js_state \<Rightarrow> 'd ffi \<times> 'd js_state" where
  "js_executeCode fo c s = js_eval fo c s"

definition js_executeFile ::
  "(string \<Rightarrow> string option) \<Rightarrow> 'd float_ops \<Rightarrow> string \<Rightarrow> 'd js_state \<Rightarrow> 'd ffi \<times> 'd js_state" where
  "js_executeFile files fo f s =
     (if \<not> js_ready s then (ffi_undefined, js_fail js_not_ready s)
      else case files f of
             None \<Rightarrow> (ffi_undefined, js_fail (''Failed to open file: '' @ f) s)
           | Some c \<Rightarrow> js_eval fo c s)"

section \<open>Objects and arrays\<close>

definition js_callMethod :: "'d ffi \<Rightarrow> string \<Rightarrow> 'd ffi list \<Rightarrow> 'd js_state \<Rightarrow> ('d ffi \<times> 'd js_state) option" where
  "js_callMethod v m args s =
     (if \<not> js_ready s then Some (ffi_undefined, js_fail js_not_ready s)
      else if ffi_getType v \<noteq> OBJECT_TYPE then Some (ffi_undefined, js_fail ''Cannot call method on non-object value'' s)
      else case asObject v of
        None \<Rightarrow> None
      | Some kvs \<Rightarrow>
          (case map_of kvs m of
             None \<Rightarrow> Some (ffi_undefined, js_fail (''Method not found: '' @ m) s)
           | Some f \<Rightarrow>
               let is_fun = (ffi_getType f = FUNCTION_TYPE); is_arr = (ffi_getType v = ARRAY_TYPE) in
               if is_fun \<and> m = ''length'' \<and> is_arr then
                 map_option (\<lambda>vs. (ffi_make INTEGER_TYPE (P_Int (scast (of_nat (length vs) :: 32 word))), s)) (asArray v)
               else if is_fun \<and> m = ''push'' \<and> is_arr \<and> args \<noteq> [] then
                 map_option (\<lambda>vs. (ffi_make INTEGER_TYPE (P_Int (scast (of_nat (length vs + length args) :: 32 word))), s)) (asArray v)
               else if is_fun \<and> m = ''pop'' \<and> is_arr then
                 map_option (\<lambda>vs. (if vs \<noteq> [] then ffi_copy (last vs) else ffi_undefined, s)) (asArray v)
               else if is_fun \<and> ffi_getType f = STRING_TYPE \<and> (m = ''toString'' \<or> m = ''valueOf'') then
                 Some (ffi_copy v, s)
               else Some (ffi_undefined,
                 js_fail ''Complex method calls require V8 integration (not available). Build with V8 support enabled.'' s)))"

definition js_createObject :: "(string \<times> 'd ffi) list \<Rightarrow> 'd ffi" where
  "js_createObject kvs = ffi_make OBJECT_TYPE (P_Object (map (map_prod id ffi_copy) kvs))"

definition js_getProperty :: "'d ffi \<Rightarrow> string \<Rightarrow> 'd ffi option" where
  "js_getProperty v k =
     (if ffi_getType v \<noteq> OBJECT_TYPE then Some ffi_undefined
      else map_option (\<lambda>kvs. case map_of kvs k of Some x \<Rightarrow> ffi_copy x | None \<Rightarrow> ffi_undefined) (asObject v))"

definition js_setProperty :: "'d ffi \<Rightarrow> string \<Rightarrow> 'd ffi \<Rightarrow> (bool \<times> 'd ffi) ffi_out" where
  "js_setProperty v k x =
     (if ffi_getType v \<noteq> OBJECT_TYPE then Fine [] (False, v)
      else case asObject v of
             None \<Rightarrow> Bad_Variant
           | Some kvs \<Rightarrow> Fine (entry_frees k kvs) (True, with_payload (P_Object (AList.update k (ffi_copy x) kvs)) v))"

definition js_hasProperty :: "'d ffi \<Rightarrow> string \<Rightarrow> bool option" where
  "js_hasProperty v k =
     (if ffi_getType v \<noteq> OBJECT_TYPE then Some False else map_option (\<lambda>kvs. map_of kvs k \<noteq> None) (asObject v))"

definition js_createArray :: "'d ffi list \<Rightarrow> 'd ffi" where
  "js_createArray vs = ffi_make ARRAY_TYPE (P_Array (map ffi_copy vs))"

definition js_getArrayElement :: "'d ffi \<Rightarrow> 64 word \<Rightarrow> 'd ffi option" where
  "js_getArrayElement v i =
     (if ffi_getType v \<noteq> ARRAY_TYPE then Some ffi_undefined
      else map_option (\<lambda>vs. if unat i < length vs then ffi_copy (vs ! unat i) else ffi_undefined) (asArray v))"

definition js_setArrayElement :: "'d ffi \<Rightarrow> 64 word \<Rightarrow> 'd ffi \<Rightarrow> (bool \<times> 'd ffi) ffi_out" where
  "js_setArrayElement v i x =
     (if ffi_getType v \<noteq> ARRAY_TYPE then Fine [] (False, v)
      else case asArray v of
             None \<Rightarrow> Bad_Variant
           | Some vs \<Rightarrow>
               if unat i < length vs then
                 Fine (ffi_frees (vs ! unat i)) (True, with_payload (P_Array (vs[unat i := ffi_copy x])) v)
               else Fine [] (False, v))"

definition js_getArrayLength :: "'d ffi \<Rightarrow> nat option" where
  "js_getArrayLength v = (if ffi_getType v \<noteq> ARRAY_TYPE then Some 0 else map_option length (asArray v))"

definition js_pushToArray :: "'d ffi \<Rightarrow> 'd ffi \<Rightarrow> (bool \<times> 'd ffi) ffi_out" where
  "js_pushToArray v x =
     (if ffi_getType v \<noteq> ARRAY_TYPE then Fine [] (False, v)
      else case asArray v of
             None \<Rightarrow> Bad_Variant
           | Some vs \<Rightarrow> Fine [] (True, with_payload (P_Array (vs @ [ffi_copy x])) v))"

section \<open>Promises\<close>

datatype promise_state = PROMISE_PENDING | PROMISE_FULFILLED | PROMISE_REJECTED

record 'd js_promise =
  promise_state :: promise_state
  promise_value :: "'d ffi"
  promise_reason :: string

definition createPromise :: "'d js_promise" where
  "createPromise = \<lparr>promise_state = PROMISE_PENDING, promise_value = ffi_undefined, promise_reason = []\<rparr>"

definition resolvePromise :: "'d ffi \<Rightarrow> 'd js_promise \<Rightarrow> bool \<times> 'd js_promise" where
  "resolvePromise v p =
     (if promise_state p \<noteq> PROMISE_PENDING then (False, p)
      else (True, p\<lparr>promise_state := PROMISE_FULFILLED, promise_value := ffi_copy v\<rparr>))"

definition rejectPromise :: "string \<Rightarrow> 'd js_promise \<Rightarrow> bool \<times> 'd js_promise" where
  "rejectPromise r p =
     (if promise_state p \<noteq> PROMISE_PENDING then (False, p)
      else (True, p\<lparr>promise_state := PROMISE_REJECTED, promise_reason := r\<rparr>))"

definition promise_number :: "promise_state \<Rightarrow> int" where
  "promise_number s = (case s of PROMISE_PENDING \<Rightarrow> 0 | PROMISE_FULFILLED \<Rightarrow> 1 | PROMISE_REJECTED \<Rightarrow> 2)"

definition promiseToFFIValue :: "'d js_promise \<Rightarrow> 'd ffi" where
  "promiseToFFIValue p =
     js_createObject
       [(''state'', ffi_make INTEGER_TYPE (P_Int (word_of_int (promise_number (promise_state p))))),
        (''value'', ffi_copy (promise_value p)), (''reason'', ffi_make STRING_TYPE (P_String (promise_reason p)))]"

definition awaitPromise :: "'d float_ops \<Rightarrow> 'd ffi \<Rightarrow> 'd ffi option" where
  "awaitPromise fo v =
     (if ffi_getType v \<noteq> OBJECT_TYPE then Some ffi_undefined
      else case map_option (map (map_prod id ffi_copy)) (asObject v) of
             None \<Rightarrow> None
           | Some obj \<Rightarrow>
               (case (map_of obj ''state'', map_of obj ''value'') of
                  (Some st, Some x) \<Rightarrow>
                    (case asInt32 fo st of
                       None \<Rightarrow> None
                     | Some i \<Rightarrow> Some (if sint i = promise_number PROMISE_FULFILLED then ffi_copy x else ffi_undefined))
                | _ \<Rightarrow> Some ffi_undefined))"

definition isPromise :: "'d ffi \<Rightarrow> bool option" where
  "isPromise v =
     (if ffi_getType v \<noteq> OBJECT_TYPE then Some False
      else map_option (\<lambda>kvs. \<forall>k \<in> set [''state'', ''value'', ''reason'']. map_of kvs k \<noteq> None) (asObject v))"

definition isJavaScriptObject :: "'d ffi \<Rightarrow> bool" where
  "isJavaScriptObject v \<longleftrightarrow> ffi_getType v = OBJECT_TYPE"

definition getJavaScriptTypeName :: "'d ffi \<Rightarrow> string" where
  "getJavaScriptTypeName v =
     (case ffi_getType v of
        UNDEFINED_TYPE \<Rightarrow> ''undefined'' | NULL_TYPE \<Rightarrow> ''null'' | BOOLEAN_TYPE \<Rightarrow> ''boolean''
      | INTEGER_TYPE \<Rightarrow> ''number'' | FLOAT_TYPE \<Rightarrow> ''number'' | STRING_TYPE \<Rightarrow> ''string''
      | ARRAY_TYPE \<Rightarrow> ''array'' | OBJECT_TYPE \<Rightarrow> ''object'' | FUNCTION_TYPE \<Rightarrow> ''function''
      | _ \<Rightarrow> ''unknown'')"

definition ffiValueToJS :: "'d ffi \<Rightarrow> 'd ffi" where
  "ffiValueToJS v = ffi_copy v"

definition jsValueToFFI :: "'d ffi \<Rightarrow> 'd ffi" where
  "jsValueToFFI v = ffi_copy v"


section \<open>Evaluation of printed literals\<close>

datatype js_literal = Js_Null | Js_Bool bool | Js_Int "32 word" | Js_Text string

definition js_literal_text :: "js_literal \<Rightarrow> string" where
  "js_literal_text l =
     (case l of Js_Null \<Rightarrow> ''null'' | Js_Bool b \<Rightarrow> (if b then ''true'' else ''false'')
      | Js_Int i \<Rightarrow> show_int (sint i) | Js_Text t \<Rightarrow> DQUOTE # t @ [DQUOTE])"

definition js_literal_value :: "js_literal \<Rightarrow> 'd ffi" where
  "js_literal_value l =
     (case l of Js_Null \<Rightarrow> ffi_undefined | Js_Bool b \<Rightarrow> ffi_make BOOLEAN_TYPE (P_Bool b)
      | Js_Int i \<Rightarrow> ffi_make INTEGER_TYPE (P_Int (scast i)) | Js_Text t \<Rightarrow> ffi_make STRING_TYPE (P_String t))"

definition plain_literal :: "js_literal \<Rightarrow> bool" where
  "plain_literal l = (case l of Js_Text t \<Rightarrow> CHR '','' \<notin> set t \<and> CHR ''.'' \<notin> set t | _ \<Rightarrow> True)"

fun js_join :: "string list \<Rightarrow> string" where
  "js_join [] = []"
| "js_join [t] = t"
| "js_join (t # u # us) = t @ '', '' @ js_join (u # us)"

definition js_list_text :: "js_literal list \<Rightarrow> string" where
  "js_list_text ls = ''['' @ js_join (map js_literal_text ls) @ '']''"

lemma js_trim_id:
  assumes "t \<noteq> []" "\<not> is_blank (hd t)" "\<not> is_blank (last t)"
  shows "js_trim t = t" "js_trim (CHR '' '' # t) = t"
proof -
  have "dropWhile is_blank t = t" using assms(1,2) by (cases t) auto
  moreover have "dropWhile is_blank (rev t) = rev t"
    using assms(1,3) by (cases t rule: rev_cases) auto
  ultimately show "js_trim t = t" "js_trim (CHR '' '' # t) = t" by (simp_all add: js_trim_def is_blank_def)
qed

lemma digit_not:
  "isdigit c \<Longrightarrow> c \<noteq> CHR '',''" "isdigit c \<Longrightarrow> c \<noteq> CHR ''.''" "isdigit c \<Longrightarrow> \<not> is_blank c" "isdigit c \<Longrightarrow> c \<noteq> CHR ''-''"
  "isdigit c \<Longrightarrow> c \<noteq> CHR ''+''" "isdigit c \<Longrightarrow> \<not> isspace c" "isdigit c \<Longrightarrow> c \<notin> set ''tfnu''"
  by (auto simp: isdigit_def code_def is_blank_def isspace_def)

lemma show_int_chars: "c \<in> set (show_int i) \<Longrightarrow> isdigit c \<or> c = CHR ''-''"
  using show_nat_digits by (auto simp: show_int_def list_all_iff split: if_splits)

lemma show_int_shape:
  "show_int i \<noteq> []" "isdigit (hd (show_int i)) \<or> hd (show_int i) = CHR ''-''" "isdigit (last (show_int i))"
  using show_nat_ends by (auto simp: show_int_def)

lemma show_int_ends: "\<not> is_blank (hd (show_int i))" "\<not> is_blank (last (show_int i))"
proof -
  have "\<not> is_blank (CHR ''-'')" by (simp add: is_blank_def)
  then show "\<not> is_blank (hd (show_int i))" "\<not> is_blank (last (show_int i))"
    using show_int_shape(2,3) [of i] digit_not(3) by metis+
qed

lemma js_literal_text_ends: "js_literal_text l \<noteq> []" "\<not> is_blank (hd (js_literal_text l))" "\<not> is_blank (last (js_literal_text l))"
  by (simp_all add: js_literal_text_def show_int_shape(1) show_int_ends split: js_literal.split)
     (simp_all add: is_blank_def)

lemma js_literal_text_set: "plain_literal l \<Longrightarrow> CHR '','' \<notin> set (js_literal_text l) \<and> CHR ''.'' \<notin> set (js_literal_text l)"
proof (cases l)
  case (Js_Int i)
  then show ?thesis
    using show_int_chars [of "CHR '',''" "sint i"] show_int_chars [of "CHR ''.''" "sint i"]
      digit_not(1) [of "CHR '',''"] digit_not(2) [of "CHR ''.''"]
    by (auto simp: js_literal_text_def)
qed (simp_all add: js_literal_text_def plain_literal_def)

lemma js_eval_word:
  assumes "js_ready s"
  shows "js_trim c = ''true'' \<Longrightarrow> js_eval fo c s = (ffi_make BOOLEAN_TYPE (P_Bool True), s)"
    and "js_trim c = ''false'' \<Longrightarrow> js_eval fo c s = (ffi_make BOOLEAN_TYPE (P_Bool False), s)"
    and "js_trim c = ''null'' \<Longrightarrow> js_eval fo c s = (ffi_undefined, s)"
  using assms by (subst js_eval.simps, simp)+

lemma js_eval_other:
  assumes "js_ready s" "js_trim c \<notin> {''true'', ''false'', ''null'', ''undefined''}"
  shows "js_eval fo c s =
    (case js_number fo (js_trim c) of
       Some v \<Rightarrow> (v, s)
     | None \<Rightarrow>
         if js_quoted (js_trim c) then (ffi_make STRING_TYPE (P_String (js_inside (js_trim c))), s)
         else if js_enclosed (CHR ''['') (CHR '']'') (js_trim c) then
           (let (vs, s1) = js_elements (\<lambda>p. js_eval fo p) (js_pieces (js_inside (js_trim c))) s
            in (ffi_make ARRAY_TYPE (P_Array (map ffi_copy vs)), s1))
         else if js_enclosed (CHR ''{'') (CHR ''}'') (js_trim c) then
           (let (ms, s1) = js_members (\<lambda>p. js_eval fo p) (js_pieces (js_inside (js_trim c))) [] s
            in (ffi_make OBJECT_TYPE (P_Object (map (map_prod id ffi_copy) ms)), s1))
         else (ffi_undefined, js_fail js_complex s))"
proof -
  have "js_trim c \<noteq> ''true''" "js_trim c \<noteq> ''false''" "\<not> (js_trim c = ''null'' \<or> js_trim c = ''undefined'')"
    using assms(2) by auto
  then show ?thesis using assms(1) unfolding js_eval.simps [of fo c s] Let_def by (simp only: if_False if_True not_True_eq_False)
qed

lemma literal_evaluates:
  assumes "js_ready s" "plain_literal l" "js_trim c = js_literal_text l"
  shows "js_eval fo c s = (js_literal_value l, s)"
proof (cases l)
  case (Js_Int i)
  have r: "- (2 ^ 31) \<le> sint i" "sint i < 2 ^ 31" using sint_ge [of i] sint_lt [of i] by simp_all
  obtain d ds where sh: "show_int (sint i) = d # ds" "isdigit d \<or> d = CHR ''-''"
    using show_int_shape(1,2) [of "sint i"] by (cases "show_int (sint i)") auto
  have words: "js_trim c \<notin> {''true'', ''false'', ''null'', ''undefined''}"
    using sh digit_not(7) [of d] assms(3) Js_Int by (auto simp: js_literal_text_def)
  have "stoi_value 32 (show_int (sint i)) = Some (sint i)" using stoi_show_int [of 32] r by simp
  then have "js_number fo (js_trim c) = Some (js_literal_value l)"
    using js_literal_text_set [OF assms(2)] sh Js_Int assms(3)
    by (simp add: js_number_def js_literal_text_def js_literal_value_def)
  then show ?thesis unfolding js_eval_other [OF assms(1) words] by simp
next
  case (Js_Text t)
  have "js_number fo (js_trim c) = None"
    using js_literal_text_set [OF assms(2)] Js_Text assms(3) by (simp add: js_number_def js_literal_text_def isdigit_def code_def)
  moreover have "js_quoted (js_trim c)" "js_inside (js_trim c) = t"
    using Js_Text assms(3) by (simp_all add: js_literal_text_def js_quoted_def js_inside_def substr_def)
  moreover have words: "js_trim c \<notin> {''true'', ''false'', ''null'', ''undefined''}"
    using Js_Text assms(3) by (simp add: js_literal_text_def)
  ultimately show ?thesis unfolding js_eval_other [OF assms(1) words] Js_Text by (simp add: js_literal_value_def)
next
  case (Js_Bool b)
  then show ?thesis using js_eval_word(1,2) [OF assms(1)] assms(3)
    by (cases b) (simp_all add: js_literal_text_def js_literal_value_def)
next
  case Js_Null
  then show ?thesis using js_eval_word(3) [OF assms(1)] assms(3) by (simp add: js_literal_text_def js_literal_value_def)
qed


lemma js_elements_literals:
  assumes "js_ready s" "list_all2 (\<lambda>p l. plain_literal l \<and> js_trim p = js_literal_text l) ps ls"
  shows "js_elements (\<lambda>p. js_eval fo p) ps s = (map js_literal_value ls, s)"
  using assms(2) by (induction rule: list_all2_induct) (auto simp: literal_evaluates [OF assms(1)])

lemma js_pieces_first:
  assumes "CHR '','' \<notin> set t"
  shows "js_pieces (t @ CHR '','' # r) = t # js_pieces r" "t \<noteq> [] \<Longrightarrow> js_pieces t = [t]"
proof -
  have "takeWhile (\<lambda>c. c \<noteq> CHR '','') (t @ CHR '','' # r) = t" "dropWhile (\<lambda>c. c \<noteq> CHR '','') (t @ CHR '','' # r) = CHR '','' # r"
    using assms by (auto simp: takeWhile_append dropWhile_append)
  then show "js_pieces (t @ CHR '','' # r) = t # js_pieces r" by (simp add: js_pieces.simps [of "t @ CHR '','' # r"])
  show "t \<noteq> [] \<Longrightarrow> js_pieces t = [t]" using assms by (simp add: js_pieces.simps [of t])
qed

lemma join_pieces:
  assumes "list_all plain_literal ls" "ls \<noteq> []" "pad \<in> {[], '' ''}"
  shows "list_all2 (\<lambda>p l. plain_literal l \<and> js_trim p = js_literal_text l) (js_pieces (pad @ js_join (map js_literal_text ls))) ls"
  using assms
proof (induction ls arbitrary: pad rule: induct_list012)
  case (2 l)
  have "CHR '','' \<notin> set (pad @ js_literal_text l)" "pad @ js_literal_text l \<noteq> []"
    using js_literal_text_set js_literal_text_ends(1) 2 by auto
  then show ?case using js_pieces_first(2) [of "pad @ js_literal_text l"] js_trim_id [OF js_literal_text_ends] 2 by auto
next
  case (3 l m ls)
  have "CHR '','' \<notin> set (pad @ js_literal_text l)" using js_literal_text_set 3 by auto
  from js_pieces_first(1) [OF this, of "'' '' @ js_join (map js_literal_text (m # ls))"]
  have "js_pieces (pad @ js_join (map js_literal_text (l # m # ls)))
    = (pad @ js_literal_text l) # js_pieces ('' '' @ js_join (map js_literal_text (m # ls)))" by simp
  moreover have "js_trim (pad @ js_literal_text l) = js_literal_text l"
    using js_trim_id [OF js_literal_text_ends] 3 by auto
  moreover have "list_all2 (\<lambda>p l. plain_literal l \<and> js_trim p = js_literal_text l)
      (js_pieces ('' '' @ js_join (map js_literal_text (m # ls)))) (m # ls)"
    using "3.prems"(1) by (intro "3.IH"(2)) auto
  ultimately show ?case using "3.prems"(1) by (simp del: js_join.simps)
qed simp

lemma copy_literal: "ffi_copy (js_literal_value l) = js_literal_value l"
  by (cases l) (simp_all add: js_literal_value_def ffi_make_def ffi_undefined_def)

lemma join_set: "list_all plain_literal ls \<Longrightarrow> CHR ''.'' \<notin> set (js_join (map js_literal_text ls))"
  using js_literal_text_set by (induction ls rule: induct_list012) auto

text \<open>C32: the evaluator turns the text of a list of nulls, booleans, 32-bit integers and texts without a comma
  and a period back into the array of their values and reports nothing. (At a comma it splits the list even inside
  a text, and a period makes it read what begins with a number as a fraction.)\<close>

theorem js_array_roundtrip:
  assumes "js_ready s" "list_all plain_literal ls"
  shows "js_eval fo (js_list_text ls) s = (ffi_make ARRAY_TYPE (P_Array (map js_literal_value ls)), s)"
proof -
  define t where "t = js_list_text ls"
  have t: "t = CHR ''['' # js_join (map js_literal_text ls) @ [CHR '']'']" by (simp add: t_def js_list_text_def)
  have tr: "js_trim t = t" using js_trim_id(1) [of t] by (simp add: t is_blank_def)
  have inside: "js_inside t = js_join (map js_literal_text ls)" by (simp add: t js_inside_def substr_def)
  have "CHR ''.'' \<notin> set t" using join_set [OF assms(2)] by (simp add: t)
  then have n: "js_number fo t = None" by (simp add: t js_number_def isdigit_def code_def)
  have words: "js_trim t \<notin> {''true'', ''false'', ''null'', ''undefined''}" unfolding tr by (simp add: t)
  have q: "\<not> js_quoted t" "js_enclosed (CHR ''['') (CHR '']'') t" by (simp_all add: t js_quoted_def js_enclosed_def)
  have "js_elements (\<lambda>p. js_eval fo p) (js_pieces (js_inside t)) s = (map js_literal_value ls, s)"
  proof (cases "ls = []")
    case False
    then show ?thesis using js_elements_literals [OF assms(1)] join_pieces [OF assms(2) False, of "[]"] inside by simp
  qed (simp add: inside js_pieces.simps)
  then have "js_eval fo t s = (ffi_make ARRAY_TYPE (P_Array (map js_literal_value ls)), s)"
    unfolding js_eval_other [OF assms(1) words] tr n using q by (simp add: comp_def copy_literal)
  then show ?thesis by (simp add: t_def)
qed

lemma js_array_roundtrip_witness:
  "\<forall>fo :: int float_ops. js_eval fo ''[null, -7, \"a b\", true]'' (snd (js_initialize new_js)) =
    (ffi_make ARRAY_TYPE (P_Array [ffi_undefined, ffi_make INTEGER_TYPE (P_Int (- 7)), ffi_make STRING_TYPE (P_String ''a b''),
       ffi_make BOOLEAN_TYPE (P_Bool True)]), snd (js_initialize new_js))"
proof
  fix fo :: "int float_ops"
  have "js_list_text [Js_Null, Js_Int (- 7), Js_Text ''a b'', Js_Bool True] = ''[null, -7, \"a b\", true]''" by code_simp
  then show "js_eval fo ''[null, -7, \"a b\", true]'' (snd (js_initialize new_js)) =
    (ffi_make ARRAY_TYPE (P_Array [ffi_undefined, ffi_make INTEGER_TYPE (P_Int (- 7)), ffi_make STRING_TYPE (P_String ''a b''),
       ffi_make BOOLEAN_TYPE (P_Bool True)]), snd (js_initialize new_js))"
    using js_array_roundtrip [of "snd (js_initialize new_js)" "[Js_Null, Js_Int (- 7), Js_Text ''a b'', Js_Bool True]" fo]
    by (simp add: js_initialize_def plain_literal_def js_literal_value_def)
qed


section \<open>Nesting\<close>

definition ffi_children :: "'d ffi \<Rightarrow> 'd ffi list" where
  "ffi_children v = (case ffi_payload v of P_Array vs \<Rightarrow> vs | P_Object kvs \<Rightarrow> map snd kvs | _ \<Rightarrow> [])"

lemma children_simps [simp]:
  "ffi_children (ffi_make t (P_Array vs)) = vs" "ffi_children (ffi_make t (P_Object kvs)) = map snd kvs"
  "ffi_children (ffi_make t (P_Bool b)) = []" "ffi_children (ffi_make t (P_String x)) = []" "ffi_children ffi_undefined = []"
  by (simp_all add: ffi_children_def ffi_make_def ffi_undefined_def)

lemma children_copy: "length (ffi_children (ffi_copy v)) = length (ffi_children v)"
proof -
  obtain t p n w c e where "v = FFI t p n w c e" by (cases v)
  then show ?thesis by (cases p) (simp_all add: ffi_children_def)
qed

lemma children_number: "js_number fo t = Some v \<Longrightarrow> ffi_children v = []"
  by (auto simp: js_number_def ffi_children_def ffi_make_def split: if_splits)

lemma js_elements_length: "length (fst (js_elements ev ps s)) = length ps"
  by (induction ps arbitrary: s) (simp_all add: case_prod_beta Let_def)

lemma js_elements_values: "v \<in> set (fst (js_elements ev ps s)) \<Longrightarrow> \<exists>p \<in> set ps. \<exists>s1. v = fst (ev p s1)"
proof (induction ps arbitrary: s)
  case (Cons p ps)
  then have "v = fst (ev p s) \<or> v \<in> set (fst (js_elements ev ps (snd (ev p s))))"
    by (simp add: case_prod_beta Let_def)
  then show ?case using Cons.IH by auto
qed simp

lemma update_values: "v \<in> snd ` set (AList.update k x ms) \<Longrightarrow> v = x \<or> v \<in> snd ` set ms"
proof (induction ms)
  case (Cons m ms)
  then show ?case by (cases m) (auto split: if_splits simp: image_iff)
qed simp

lemma update_length: "length (AList.update k v ms) \<le> Suc (length ms)"
  by (induction ms) auto

lemma js_members_fst: "length (fst (js_members ev ps ms s)) \<le> length ms + length ps"
proof (induction ps arbitrary: ms s)
  case (Cons p ps)
  show ?case
  proof (cases "js_pair p")
    case (Some kt)
    obtain k t where kt: "kt = (k, t)" by (cases kt)
    have "length (fst (js_members ev ps (AList.update k (fst (ev t s)) ms) (snd (ev t s))))
      \<le> length (AList.update k (fst (ev t s)) ms) + length ps" by (rule Cons)
    then show ?thesis using update_length [of k "fst (ev t s)" ms] Some kt by (simp add: case_prod_beta Let_def)
  qed (use Cons [of ms s] in simp)
qed simp

lemma js_members_values:
  "v \<in> snd ` set (fst (js_members ev ps ms s)) \<Longrightarrow>
    v \<in> snd ` set ms \<or> (\<exists>p \<in> set ps. \<exists>k t s1. js_pair p = Some (k, t) \<and> v = fst (ev t s1))"
proof (induction ps arbitrary: ms s)
  case (Cons p ps)
  show ?case
  proof (cases "js_pair p")
    case (Some kt)
    obtain k t where kt: "kt = (k, t)" by (cases kt)
    have "v \<in> snd ` set (AList.update k (fst (ev t s)) ms)
      \<or> (\<exists>p \<in> set ps. \<exists>k t s1. js_pair p = Some (k, t) \<and> v = fst (ev t s1))"
      using Cons.IH [of "AList.update k (fst (ev t s)) ms" "snd (ev t s)"] Cons.prems Some kt by (simp add: case_prod_beta Let_def)
    then show ?thesis
    proof
      assume "v \<in> snd ` set (AList.update k (fst (ev t s)) ms)"
      then have "v = fst (ev t s) \<or> v \<in> snd ` set ms" by (rule update_values)
      then show ?thesis using Some kt by (metis list.set_intros(1))
    qed (metis list.set_intros(2))
  qed (use Cons in \<open>auto\<close>)
qed simp

lemma js_pieces_no_comma: "p \<in> set (js_pieces s) \<Longrightarrow> CHR '','' \<notin> set p"
proof (induction s rule: js_pieces.induct)
  case (1 s)
  have "p \<in> set (if CHR '','' \<in> set s
      then takeWhile (\<lambda>c. c \<noteq> CHR '','') s # js_pieces (tl (dropWhile (\<lambda>c. c \<noteq> CHR '','') s))
      else if s = [] then [] else [s])"
    using "1.prems" js_pieces.simps [of s] by simp
  then show ?case using "1.IH" by (auto split: if_splits dest: set_takeWhileD)
qed

lemma js_pieces_one: "CHR '','' \<notin> set s \<Longrightarrow> length (js_pieces s) \<le> 1"
  by (simp add: js_pieces.simps [of s])

lemma js_pair_set: "js_pair p = Some (k, t) \<Longrightarrow> set t \<subseteq> set p"
  by (cases "dropWhile (\<lambda>c. c \<noteq> CHR '':'') p")
     (auto simp: js_pair_def Let_def split: if_splits dest: set_dropWhileD intro: set_dropWhileD [of _ "\<lambda>c. c \<noteq> CHR '':''"])

lemma js_inside_set: "set (js_inside t) \<subseteq> set t"
  by (auto simp: js_inside_def substr_def dest!: in_set_takeD in_set_dropD)

lemma narrow_without_comma:
  assumes "CHR '','' \<notin> set c"
  shows "length (ffi_children (fst (js_eval fo c s))) \<le> 1"
proof -
  let ?ps = "js_pieces (js_inside (js_trim c))"
  have "CHR '','' \<notin> set (js_inside (js_trim c))" using assms js_inside_set js_trim_set by blast
  then have one: "length ?ps \<le> 1" by (rule js_pieces_one)
  consider "\<not> js_ready s" | "js_ready s" "js_trim c \<in> {''true'', ''false'', ''null'', ''undefined''}"
    | "js_ready s" "js_trim c \<notin> {''true'', ''false'', ''null'', ''undefined''}" by blast
  then show ?thesis
  proof cases
    case 3
    have "length (fst (js_elements (\<lambda>p. js_eval fo p) ?ps s)) \<le> 1" using one by (simp add: js_elements_length)
    moreover have "length (fst (js_members (\<lambda>p. js_eval fo p) ?ps [] s)) \<le> 1"
      using one js_members_fst [of "\<lambda>p. js_eval fo p" ?ps "[]" s] by simp
    ultimately show ?thesis unfolding js_eval_other [OF 3]
      by (auto simp: case_prod_beta dest: children_number split: option.splits)
  qed (auto simp: js_eval.simps [of fo c s])
qed

text \<open>The evaluator splits at every comma, so that an array or object inside of another one never has more than
  one entry, whatever the text.\<close>

theorem js_nesting_lost: "list_all (\<lambda>x. length (ffi_children x) \<le> 1) (ffi_children (fst (js_eval fo c s)))"
proof -
  let ?ps = "js_pieces (js_inside (js_trim c))"
  have elements: "length (ffi_children v) \<le> 1" if v: "v \<in> set (fst (js_elements (\<lambda>p. js_eval fo p) ?ps s))" for v
  proof -
    obtain p s1 where "p \<in> set ?ps" "v = fst (js_eval fo p s1)" using js_elements_values [OF v] by blast
    then show ?thesis using narrow_without_comma [OF js_pieces_no_comma] by simp
  qed
  have members: "length (ffi_children v) \<le> 1" if v: "v \<in> snd ` set (fst (js_members (\<lambda>p. js_eval fo p) ?ps [] s))" for v
  proof -
    obtain p k t s1 where p: "p \<in> set ?ps" "js_pair p = Some (k, t)" "v = fst (js_eval fo t s1)"
      using js_members_values [OF v] by auto
    have "CHR '','' \<notin> set t" using js_pieces_no_comma [OF p(1)] js_pair_set [OF p(2)] by blast
    then show ?thesis using narrow_without_comma p(3) by simp
  qed
  consider "\<not> js_ready s" | "js_ready s" "js_trim c \<in> {''true'', ''false'', ''null'', ''undefined''}"
    | "js_ready s" "js_trim c \<notin> {''true'', ''false'', ''null'', ''undefined''}" by blast
  then show ?thesis
  proof cases
    case 3
    show ?thesis unfolding js_eval_other [OF 3] using elements members
      by (auto simp: case_prod_beta list_all_iff children_copy dest: children_number split: option.splits)
  qed (auto simp: js_eval.simps [of fo c s])
qed


section \<open>Calls\<close>

definition only_error :: "'d js_state \<Rightarrow> 'd js_state \<Rightarrow> bool" where
  "only_error s t \<longleftrightarrow> t = s\<lparr>js_lastError := js_lastError t\<rparr>"

lemma only_error_intros [intro]:
  "only_error s s" "only_error s (js_fail m s)" "only_error s t \<Longrightarrow> only_error t u \<Longrightarrow> only_error s u"
  unfolding only_error_def js_fail_def by (cases s; cases t; cases u; simp)+

lemma only_error_elements:
  "(\<And>p s. p \<in> set ps \<Longrightarrow> only_error s (snd (ev p s))) \<Longrightarrow> only_error s (snd (js_elements ev ps s))"
proof (induction ps arbitrary: s)
  case (Cons p ps)
  have "only_error s (snd (ev p s))" using Cons.prems by simp
  moreover have "only_error (snd (ev p s)) (snd (js_elements ev ps (snd (ev p s))))" using Cons by simp
  ultimately have "only_error s (snd (js_elements ev ps (snd (ev p s))))" by blast
  then show ?case by (simp add: case_prod_beta Let_def)
qed auto

lemma only_error_members:
  "(\<And>p k x s. p \<in> set ps \<Longrightarrow> js_pair p = Some (k, x) \<Longrightarrow> only_error s (snd (ev x s))) \<Longrightarrow>
    only_error s (snd (js_members ev ps ms s))"
proof (induction ps arbitrary: ms s)
  case (Cons p ps)
  have IH: "only_error t (snd (js_members ev ps ns t))" for ns t
    using Cons.prems by (intro Cons.IH) (metis list.set_intros(2))
  show ?case
  proof (cases "js_pair p")
    case (Some kt)
    obtain k t where kt: "kt = (k, t)" by (cases kt)
    then have "only_error s (snd (ev t s))" using Cons.prems [of p k t s] Some by simp
    then have "only_error s (snd (js_members ev ps (AList.update k (fst (ev t s)) ms) (snd (ev t s))))"
      using IH by blast
    then show ?thesis using Some kt by (simp add: case_prod_beta Let_def)
  qed (use IH in simp)
qed auto

lemma js_eval_only_error: "only_error s (snd (js_eval fo c s))"
proof (induction "length c" arbitrary: c s rule: less_induct)
  case less
  let ?ps = "js_pieces (js_inside (js_trim c))"
  consider "\<not> js_ready s" | "js_ready s" "js_trim c \<in> {''true'', ''false'', ''null'', ''undefined''}"
    | "js_ready s" "js_trim c \<notin> {''true'', ''false'', ''null'', ''undefined''}" by blast
  then show ?case
  proof cases
    case 3
    have "only_error s (snd (js_elements (\<lambda>p. js_eval fo p) ?ps s))" if "js_enclosed (CHR ''['') (CHR '']'') (js_trim c)"
      using that js_piece_less less by (intro only_error_elements) blast
    moreover have "only_error s (snd (js_members (\<lambda>p. js_eval fo p) ?ps [] s))"
      if "js_enclosed (CHR ''{'') (CHR ''}'') (js_trim c)"
    proof (rule only_error_members)
      fix p k x t assume "p \<in> set ?ps" "js_pair p = Some (k, x)"
      then have "length x < length c" using js_piece_less [OF that] js_pair_length le_less_trans by blast
      then show "only_error t (snd (js_eval fo x t))" by (rule less)
    qed
    ultimately show ?thesis unfolding js_eval_other [OF 3] by (auto simp: case_prod_beta split: option.split)
  qed (auto simp: js_eval.simps [of fo c s])
qed

text \<open>The operations of the bridge, in any order.\<close>

datatype 'd js_op =
    Js_Initialize | Js_Finalize | Js_Load string | Js_Unload string | Js_Load_Code string string
  | Js_Set string "'d ffi" | Js_Clear_Error | Js_Evaluate string | Js_Run_File string
  | Js_Call string "'d ffi list" | Js_Method "'d ffi" string "'d ffi list"

primrec js_step :: "(string \<Rightarrow> string option) \<Rightarrow> 'd float_ops \<Rightarrow> 'd js_op \<Rightarrow> 'd js_state \<Rightarrow> 'd js_state" where
  "js_step files fo Js_Initialize s = snd (js_initialize s)"
| "js_step files fo Js_Finalize s = js_finalize s"
| "js_step files fo (Js_Load m) s = snd (js_loadModule m s)"
| "js_step files fo (Js_Unload m) s = snd (js_unloadModule m s)"
| "js_step files fo (Js_Load_Code m c) s = snd (js_loadModuleFromCode m c s)"
| "js_step files fo (Js_Set n v) s = snd (js_setGlobal n v s)"
| "js_step files fo Js_Clear_Error s = js_clearError s"
| "js_step files fo (Js_Evaluate c) s = snd (js_executeCode fo c s)"
| "js_step files fo (Js_Run_File f) s = snd (js_executeFile files fo f s)"
| "js_step files fo (Js_Call f args) s = snd (js_callFunction f args s)"
| "js_step files fo (Js_Method v m args) s = (case js_callMethod v m args s of None \<Rightarrow> s | Some (r, t) \<Rightarrow> t)"

lemma only_error_functions: "only_error s t \<Longrightarrow> js_functions t = js_functions s"
  unfolding only_error_def by (metis js_state.ext_inject js_state.surjective js_state.update_convs(3))

lemma method_only_error: "js_callMethod v m args s = Some (r, t) \<Longrightarrow> only_error s t"
  by (auto simp: js_callMethod_def Let_def split: if_splits option.splits)

lemma no_functions: "js_functions s = [] \<Longrightarrow> js_functions (js_step files fo op s) = []"
proof (cases op)
  case (Js_Evaluate c)
  then show "js_functions s = [] \<Longrightarrow> ?thesis"
    using only_error_functions [OF js_eval_only_error [of s fo c]] by (simp add: js_executeCode_def)
next
  case (Js_Run_File f)
  then show "js_functions s = [] \<Longrightarrow> ?thesis" using only_error_functions [OF js_eval_only_error [of s fo]]
    by (auto simp: js_executeFile_def js_fail_def split: option.split)
next
  case (Js_Method v m args)
  then show "js_functions s = [] \<Longrightarrow> ?thesis" using only_error_functions [OF method_only_error [of v m args s]]
    by (auto split: option.split)
qed (auto simp: js_initialize_def js_finalize_def js_loadModule_def js_unloadModule_def js_loadModuleFromCode_def
    js_setGlobal_def js_setVariable_def js_clearError_def js_callFunction_def js_fail_def split: option.split)

lemma method_fails:
  "case js_callMethod v m args s of None \<Rightarrow> \<not> ffi_ok v | Some (r, t) \<Rightarrow> r = ffi_undefined \<and> js_hasError t"
proof -
  have call: "js_callMethod v m args s =
    (if \<not> js_ready s then Some (ffi_undefined, js_fail js_not_ready s)
     else if ffi_getType v \<noteq> OBJECT_TYPE then Some (ffi_undefined, js_fail ''Cannot call method on non-object value'' s)
     else map_option (\<lambda>kvs. (ffi_undefined, js_fail (if map_of kvs m = None then ''Method not found: '' @ m else
       ''Complex method calls require V8 integration (not available). Build with V8 support enabled.'') s)) (asObject v))"
  proof (cases "ffi_getType v = OBJECT_TYPE")
    case True
    have "\<not> (ffi_getType f = FUNCTION_TYPE \<and> ffi_getType f = STRING_TYPE \<and> b)" for f :: "'a ffi" and b by simp
    then show ?thesis using True unfolding js_callMethod_def Let_def
      by (simp only: ffi_type.distinct simp_thms if_True if_False) (simp split: option.split)
  qed (simp add: js_callMethod_def)
  have "asObject v \<noteq> None" if "ffi_ok v" "ffi_getType v = OBJECT_TYPE"
    using that fits_object [of "ffi_payload v"] by (auto simp: asObject_def ffi_ok_sel get_object_def)
  then show ?thesis
    unfolding call by (cases "asObject v") (auto simp: js_fail_def js_hasError_def)
qed

text \<open>Nothing registers a function, and an object is never an array, nor a function a string: after any
  operations every call of a function, and every call of a method of a well-formed value, gives undefined and
  an error.\<close>

theorem js_calls_fail:
  "let s = fold (js_step files fo) ops new_js; (r, t) = js_callFunction f args s
   in r = ffi_undefined \<and> js_hasError t \<and> \<not> js_hasFunction f s
     \<and> (case js_callMethod v m args s of None \<Rightarrow> \<not> ffi_ok v | Some (r', t') \<Rightarrow> r' = ffi_undefined \<and> js_hasError t')"
proof -
  define s where "s = fold (js_step files fo) ops new_js"
  have "js_functions (fold (js_step files fo) ops s) = []" if "js_functions s = []" for s
    using that by (induction ops arbitrary: s) (simp_all add: no_functions)
  then have "js_functions s = []" by (simp add: s_def new_js_def)
  then show ?thesis unfolding s_def [symmetric] Let_def using method_fails [of v m args s]
    by (simp add: js_callFunction_def js_hasFunction_def js_fail_def js_hasError_def split: option.split)
qed

section \<open>Settling\<close>

datatype 'd settlement = Resolve "'d ffi" | Reject string

primrec settle :: "'d settlement \<Rightarrow> 'd js_promise \<Rightarrow> bool \<times> 'd js_promise" where
  "settle (Resolve v) p = resolvePromise v p"
| "settle (Reject r) p = rejectPromise r p"

text \<open>The first settlement of a promise wins: it returns true, all later ones return false and change nothing.
  Waiting for the promise gives the value that resolved it, and undefined for a rejected one.\<close>

theorem promise_settled_once:
  "let p = snd (settle x createPromise)
   in fst (settle x createPromise) \<and> fold (\<lambda>y p. snd (settle y p)) ys p = p \<and> list_all (\<lambda>y. \<not> fst (settle y p)) ys
     \<and> awaitPromise fo (promiseToFFIValue p) = Some (case x of Resolve v \<Rightarrow> ffi_copy v | Reject r \<Rightarrow> ffi_undefined)"
proof -
  define p where "p = snd (settle x createPromise)"
  have "promise_state p \<noteq> PROMISE_PENDING"
    by (cases x) (simp_all add: p_def createPromise_def resolvePromise_def rejectPromise_def)
  then have settled: "settle y p = (False, p)" for y by (cases y) (simp_all add: resolvePromise_def rejectPromise_def)
  then have "fold (\<lambda>y p. snd (settle y p)) ys p = p" by (induction ys) simp_all
  moreover have "awaitPromise fo (promiseToFFIValue p) = Some (case x of Resolve v \<Rightarrow> ffi_copy v | Reject r \<Rightarrow> ffi_undefined)"
    by (cases x) (simp_all add: p_def createPromise_def resolvePromise_def rejectPromise_def awaitPromise_def
      promiseToFFIValue_def js_createObject_def asObject_def ffi_make_def get_object_def asInt32_def get_int_def
      promise_number_def ffi_undefined_def)
  ultimately show ?thesis using settled unfolding p_def [symmetric]
    by (cases x) (simp_all add: createPromise_def resolvePromise_def rejectPromise_def list_all_iff)
qed

end
