(* ===== verification/Tocin_Ffi_Python.thy ===== *)
theory Tocin_Ffi_Python
  imports Tocin_Ffi_Store
begin

text \<open>
  The bridge to Python of \<open>src/ffi/ffi_python.cpp\<close>. CPython is a parameter: a record of the functions
  that the code calls, on a state of the interpreter. An object is a number, null is 0. A reference that
  a call gives to the bridge, and a reference that the bridge gives up or that a call steals, is recorded.
  Memory is never exhausted.
\<close>

section \<open>The interface of CPython\<close>

record ('i, 'd) python =
  py_none :: nat
  py_isInitialized :: "'i \<Rightarrow> bool"
  py_initialize_api :: "'i \<Rightarrow> 'i"
  py_version :: string
  py_add_module :: "string \<Rightarrow> 'i \<Rightarrow> nat \<times> 'i"
  py_import :: "nat \<Rightarrow> 'i \<Rightarrow> nat \<times> 'i"
  py_module_dict :: "nat \<Rightarrow> 'i \<Rightarrow> nat"
  py_all_modules :: "'i \<Rightarrow> nat"
  py_dict_get :: "nat \<Rightarrow> string \<Rightarrow> 'i \<Rightarrow> nat"
  py_dict_set :: "nat \<Rightarrow> string \<Rightarrow> nat \<Rightarrow> 'i \<Rightarrow> 'i"
  py_dict_del :: "nat \<Rightarrow> string \<Rightarrow> 'i \<Rightarrow> bool \<times> 'i"
  py_dict_contains :: "nat \<Rightarrow> nat \<Rightarrow> 'i \<Rightarrow> bool"
  py_callable :: "nat \<Rightarrow> 'i \<Rightarrow> bool"
  py_new_int :: "64 word \<Rightarrow> 'i \<Rightarrow> nat \<times> 'i"
  py_new_float :: "'d \<Rightarrow> 'i \<Rightarrow> nat \<times> 'i"
  py_new_text :: "string \<Rightarrow> 'i \<Rightarrow> nat \<times> 'i"
  py_new_bool :: "bool \<Rightarrow> 'i \<Rightarrow> nat \<times> 'i"
  py_new_tuple :: "nat \<Rightarrow> 'i \<Rightarrow> nat \<times> 'i"
  py_new_list :: "nat \<Rightarrow> 'i \<Rightarrow> nat \<times> 'i"
  py_new_dict :: "'i \<Rightarrow> nat \<times> 'i"
  py_set_item :: "nat \<Rightarrow> nat \<Rightarrow> nat \<Rightarrow> 'i \<Rightarrow> 'i"
  py_call :: "nat \<Rightarrow> nat \<Rightarrow> 'i \<Rightarrow> nat \<times> 'i"
  py_run_eval :: "string \<Rightarrow> nat \<Rightarrow> 'i \<Rightarrow> nat \<times> 'i"
  py_run_file :: "string \<Rightarrow> nat \<Rightarrow> 'i \<Rightarrow> nat \<times> 'i"
  py_run_simple :: "string \<Rightarrow> 'i \<Rightarrow> 'i"
  py_err_print :: "'i \<Rightarrow> 'i"
  py_err_clear :: "'i \<Rightarrow> 'i"
  py_err_occurred :: "'i \<Rightarrow> bool"
  py_err_message :: "'i \<Rightarrow> string option option"
  py_isLong :: "nat \<Rightarrow> 'i \<Rightarrow> bool"
  py_isFloat :: "nat \<Rightarrow> 'i \<Rightarrow> bool"
  py_isText :: "nat \<Rightarrow> 'i \<Rightarrow> bool"
  py_isBool :: "nat \<Rightarrow> 'i \<Rightarrow> bool"
  py_isList :: "nat \<Rightarrow> 'i \<Rightarrow> bool"
  py_isDict :: "nat \<Rightarrow> 'i \<Rightarrow> bool"
  py_isTrue :: "nat \<Rightarrow> 'i \<Rightarrow> bool"
  py_long_value :: "nat \<Rightarrow> 'i \<Rightarrow> 64 word \<times> 'i"
  py_float_value :: "nat \<Rightarrow> 'i \<Rightarrow> 'd \<times> 'i"
  py_utf8 :: "nat \<Rightarrow> 'i \<Rightarrow> string option \<times> 'i"
  py_list_items :: "nat \<Rightarrow> 'i \<Rightarrow> nat list"
  py_dict_items :: "nat \<Rightarrow> 'i \<Rightarrow> (nat \<times> nat) list"

datatype py_ref = New_Ref nat | Gone_Ref nat

record 'i py_state =
  py_initialized :: bool
  py_interp :: 'i
  py_refs :: "py_ref list"

text \<open>A run returns, or \<open>std::get\<close> throws, or a string is built from null, or the recursion of the
  conversion has not ended within the depth that is allowed.\<close>

datatype 'a py_out = Py_Done 'a | Py_Throws | Py_Null_Text | Py_Deep

type_synonym ('a, 'i) py_run = "'i py_state \<Rightarrow> ('a \<times> 'i py_state) py_out"

definition py_ret :: "'a \<Rightarrow> ('a, 'i) py_run" where
  "py_ret a s = Py_Done (a, s)"

definition py_bind :: "('a, 'i) py_run \<Rightarrow> ('a \<Rightarrow> ('b, 'i) py_run) \<Rightarrow> ('b, 'i) py_run" where
  "py_bind m f s =
     (case m s of Py_Done (a, t) \<Rightarrow> f a t | Py_Throws \<Rightarrow> Py_Throws | Py_Null_Text \<Rightarrow> Py_Null_Text | Py_Deep \<Rightarrow> Py_Deep)"

text \<open>Calls of the interface: one that reads, one that changes, one that returns, one whose result is a new reference.\<close>

definition py_ask :: "('i \<Rightarrow> 'a) \<Rightarrow> ('a, 'i) py_run" where
  "py_ask f s = Py_Done (f (py_interp s), s)"

definition py_do :: "('i \<Rightarrow> 'i) \<Rightarrow> (unit, 'i) py_run" where
  "py_do f s = Py_Done ((), s\<lparr>py_interp := f (py_interp s)\<rparr>)"

definition py_get :: "('i \<Rightarrow> 'a \<times> 'i) \<Rightarrow> ('a, 'i) py_run" where
  "py_get f s = (let (a, i) = f (py_interp s) in Py_Done (a, s\<lparr>py_interp := i\<rparr>))"

definition py_new :: "('i \<Rightarrow> nat \<times> 'i) \<Rightarrow> (nat, 'i) py_run" where
  "py_new f s =
     (let (a, i) = f (py_interp s)
      in Py_Done (a, s\<lparr>py_interp := i, py_refs := py_refs s @ (if a = 0 then [] else [New_Ref a])\<rparr>))"

definition py_gone :: "nat \<Rightarrow> (unit, 'i) py_run" where
  "py_gone a s = Py_Done ((), s\<lparr>py_refs := py_refs s @ (if a = 0 then [] else [Gone_Ref a])\<rparr>)"

definition py_lift :: "'a option \<Rightarrow> ('a, 'i) py_run" where
  "py_lift x s = (case x of None \<Rightarrow> Py_Throws | Some a \<Rightarrow> Py_Done (a, s))"

section \<open>Values of Python\<close>

text \<open>\<open>pythonToFFIValue\<close>, with the depth of the recursion that is allowed.\<close>

primrec py_each :: "('a \<Rightarrow> ('b, 'i) py_run) \<Rightarrow> 'a list \<Rightarrow> ('b list, 'i) py_run" where
  "py_each f [] = py_ret []"
| "py_each f (x # xs) = py_bind (f x) (\<lambda>y. py_bind (py_each f xs) (\<lambda>ys. py_ret (y # ys)))"

definition py_text :: "('i, 'd) python \<Rightarrow> nat \<Rightarrow> (string, 'i) py_run" where
  "py_text A a = py_bind (py_get (py_utf8 A a)) (\<lambda>t. case t of None \<Rightarrow> (\<lambda>s. Py_Null_Text) | Some x \<Rightarrow> py_ret x)"

definition py_entry :: "('i, 'd) python \<Rightarrow> (nat \<Rightarrow> ('d ffi, 'i) py_run) \<Rightarrow> nat \<times> nat \<Rightarrow> ((string \<times> 'd ffi) list, 'i) py_run" where
  "py_entry A conv kv =
     py_bind (py_ask (py_isText A (fst kv))) (\<lambda>text.
       if text then
         py_bind (py_text A (fst kv)) (\<lambda>k. py_bind (conv (snd kv)) (\<lambda>v. py_ret [(k, v)]))
       else py_ret [])"

definition fill_map :: "(string \<times> 'd ffi) list \<Rightarrow> (string \<times> 'd ffi) list" where
  "fill_map kvs = fold (\<lambda>(k, v). AList.update k v) kvs []"

primrec pythonToFFIValue :: "('i, 'd) python \<Rightarrow> nat \<Rightarrow> nat \<Rightarrow> ('d ffi, 'i) py_run" where
  "pythonToFFIValue A 0 = (\<lambda>a s. Py_Deep)"
| "pythonToFFIValue A (Suc n) = (\<lambda>a.
     if a = 0 \<or> a = py_none A then py_ret ffi_undefined
     else py_bind (py_ask (\<lambda>i. i)) (\<lambda>i.
       if py_isLong A a i then
         py_bind (py_get (py_long_value A a)) (\<lambda>w. py_ret (ffi_make INTEGER_TYPE (P_Int w)))
       else if py_isFloat A a i then
         py_bind (py_get (py_float_value A a)) (\<lambda>d. py_ret (ffi_make FLOAT_TYPE (P_Double d)))
       else if py_isText A a i then
         py_bind (py_text A a) (\<lambda>x. py_ret (ffi_make STRING_TYPE (P_String x)))
       else if py_isBool A a i then
         py_ret (ffi_make BOOLEAN_TYPE (P_Bool (py_isTrue A a i)))
       else if py_isList A a i then
         py_bind (py_each (pythonToFFIValue A n) (py_list_items A a i)) (\<lambda>vs.
           py_ret (ffi_make ARRAY_TYPE (P_Array (map ffi_copy vs))))
       else if py_isDict A a i then
         py_bind (py_each (py_entry A (pythonToFFIValue A n)) (py_dict_items A a i)) (\<lambda>kvs.
           py_ret (ffi_make OBJECT_TYPE (P_Object (map (map_prod id ffi_copy) (fill_map (concat kvs))))))
       else py_ret ffi_undefined))"

declare pythonToFFIValue.simps [simp del]

text \<open>The conversion of an argument, which stands in five functions; None stands for all but four types.\<close>

definition py_object_of :: "('i, 'd) python \<Rightarrow> 'd float_ops \<Rightarrow> 'd ffi \<Rightarrow> (nat, 'i) py_run" where
  "py_object_of A fo v =
     (case ffi_getType v of
        INTEGER_TYPE \<Rightarrow> py_bind (py_lift (asInt64 fo v)) (\<lambda>w. py_new (py_new_int A w))
      | FLOAT_TYPE \<Rightarrow> py_bind (py_lift (asDouble fo v)) (\<lambda>d. py_new (py_new_float A d))
      | STRING_TYPE \<Rightarrow> py_bind (py_lift (asString fo v)) (\<lambda>x. py_new (py_new_text A x))
      | BOOLEAN_TYPE \<Rightarrow> py_bind (py_lift (asBoolean fo v)) (\<lambda>b. py_new (py_new_bool A b))
      | _ \<Rightarrow> py_ret (py_none A))"

text \<open>The loops that put the arguments into a tuple or a list: \<open>PyTuple_SetItem\<close> and \<open>PyList_SetItem\<close>
  steal the reference.\<close>

primrec py_fill :: "('i, 'd) python \<Rightarrow> 'd float_ops \<Rightarrow> nat \<Rightarrow> nat \<Rightarrow> 'd ffi list \<Rightarrow> (unit, 'i) py_run" where
  "py_fill A fo t k [] = py_ret ()"
| "py_fill A fo t k (v # vs) =
     py_bind (py_object_of A fo v) (\<lambda>a. py_bind (py_do (py_set_item A t k a)) (\<lambda>_.
       py_bind (py_gone a) (\<lambda>_. py_fill A fo t (Suc k) vs)))"

section \<open>The operations of the bridge\<close>

definition new_python :: "'i \<Rightarrow> 'i py_state" where
  "new_python i = \<lparr>py_initialized = False, py_interp = i, py_refs = []\<rparr>"

definition py_initialize :: "('i, 'd) python \<Rightarrow> (bool, 'i) py_run" where
  "py_initialize A s =
     (if \<not> py_initialized s then
        (let i = (if \<not> py_isInitialized A (py_interp s) then py_initialize_api A (py_interp s) else py_interp s)
         in Py_Done (True, s\<lparr>py_interp := i, py_initialized := True\<rparr>))
      else Py_Done (True, s))"

definition py_finalize :: "'i py_state \<Rightarrow> 'i py_state" where
  "py_finalize s = s\<lparr>py_initialized := False\<rparr>"

definition py_getVersion :: "('i, 'd) python \<Rightarrow> string" where
  "py_getVersion A = py_version A"

definition when_initialized :: "'a \<Rightarrow> ('a, 'i) py_run \<Rightarrow> ('a, 'i) py_run" where
  "when_initialized r m s = (if \<not> py_initialized s then Py_Done (r, s) else m s)"

definition ensure_initialized :: "('i, 'd) python \<Rightarrow> ('a, 'i) py_run \<Rightarrow> ('a, 'i) py_run" where
  "ensure_initialized A m s = (if \<not> py_initialized s then py_bind (py_initialize A) (\<lambda>_. m) s else m s)"

abbreviation main_module :: string where "main_module \<equiv> ''__main__''"

text \<open>A result that may be null, which is printed then, is converted and given up.\<close>

definition py_take_result :: "('i, 'd) python \<Rightarrow> nat \<Rightarrow> nat \<Rightarrow> ('d ffi, 'i) py_run" where
  "py_take_result A n r =
     (if r = 0 then py_bind (py_do (py_err_print A)) (\<lambda>_. py_ret ffi_undefined)
      else py_bind (pythonToFFIValue A n r) (\<lambda>v. py_bind (py_gone r) (\<lambda>_. py_ret v)))"

definition py_callFunction ::
  "('i, 'd) python \<Rightarrow> 'd float_ops \<Rightarrow> nat \<Rightarrow> string \<Rightarrow> 'd ffi list \<Rightarrow> ('d ffi, 'i) py_run" where
  "py_callFunction A fo n f args =
     when_initialized ffi_undefined
      (py_bind (py_get (py_add_module A main_module)) (\<lambda>m.
         if m = 0 then py_ret ffi_undefined
         else py_bind (py_ask (py_module_dict A m)) (\<lambda>d. py_bind (py_ask (py_dict_get A d f)) (\<lambda>func.
           py_bind (py_ask (py_callable A func)) (\<lambda>c.
             if func = 0 \<or> \<not> c then py_ret ffi_undefined
             else py_bind (py_new (py_new_tuple A (length args))) (\<lambda>t.
               py_bind (py_fill A fo t 0 args) (\<lambda>_. py_bind (py_new (py_call A func t)) (\<lambda>r.
                 py_bind (py_gone t) (\<lambda>_. py_take_result A n r)))))))))"

definition py_hasFunction :: "('i, 'd) python \<Rightarrow> string \<Rightarrow> (bool, 'i) py_run" where
  "py_hasFunction A f =
     when_initialized False
      (py_bind (py_get (py_add_module A main_module)) (\<lambda>m.
         if m = 0 then py_ret False
         else py_bind (py_ask (py_module_dict A m)) (\<lambda>d. py_bind (py_ask (py_dict_get A d f)) (\<lambda>func.
           py_bind (py_ask (py_callable A func)) (\<lambda>c. py_ret (func \<noteq> 0 \<and> c))))))"

definition py_loadModule :: "('i, 'd) python \<Rightarrow> string \<Rightarrow> (bool, 'i) py_run" where
  "py_loadModule A m =
     ensure_initialized A
      (py_bind (py_new (py_new_text A m)) (\<lambda>name. py_bind (py_new (py_import A name)) (\<lambda>md.
         py_bind (py_gone name) (\<lambda>_.
           if md \<noteq> 0 then
             py_bind (py_get (py_add_module A main_module)) (\<lambda>mm. py_bind (py_ask (py_module_dict A mm)) (\<lambda>d.
               py_bind (py_do (py_dict_set A d m md)) (\<lambda>_. py_bind (py_gone md) (\<lambda>_. py_ret True))))
           else py_bind (py_do (py_err_print A)) (\<lambda>_. py_ret False)))))"

definition py_unloadModule :: "('i, 'd) python \<Rightarrow> string \<Rightarrow> (bool, 'i) py_run" where
  "py_unloadModule A m =
     when_initialized False
      (py_bind (py_get (py_add_module A main_module)) (\<lambda>mm. py_bind (py_ask (py_module_dict A mm)) (\<lambda>d.
         py_get (py_dict_del A d m))))"

definition py_isModuleLoaded :: "('i, 'd) python \<Rightarrow> string \<Rightarrow> (bool, 'i) py_run" where
  "py_isModuleLoaded A m =
     when_initialized False
      (py_bind (py_ask (py_all_modules A)) (\<lambda>ms. py_bind (py_new (py_new_text A m)) (\<lambda>name.
         py_bind (py_ask (py_dict_contains A ms name)) (\<lambda>b. py_bind (py_gone name) (\<lambda>_. py_ret b)))))"

definition py_toFFIValue :: "'v option \<Rightarrow> 'd ffi" where
  "py_toFFIValue v = ffi_undefined"

definition py_fromFFIValue :: "'d ffi \<Rightarrow> 'v option" where
  "py_fromFFIValue v = None"

definition py_hasError :: "('i, 'd) python \<Rightarrow> 'i py_state \<Rightarrow> bool" where
  "py_hasError A s = py_err_occurred A (py_interp s)"

text \<open>\<open>PyErr_Fetch\<close> and \<open>PyErr_Restore\<close> move the error out and in again. The text of its value is read
  between them: there is none, or it has no encoding, which gives a null string, or it is a string.\<close>

definition py_getLastError :: "('i, 'd) python \<Rightarrow> (string, 'i) py_run" where
  "py_getLastError A =
     py_bind (py_ask (\<lambda>i. i)) (\<lambda>i.
       if \<not> py_err_occurred A i then py_ret []
       else case py_err_message A i of
              None \<Rightarrow> py_ret []
            | Some None \<Rightarrow> (\<lambda>s. Py_Null_Text)
            | Some (Some x) \<Rightarrow> py_ret x)"

definition py_clearError :: "('i, 'd) python \<Rightarrow> (unit, 'i) py_run" where
  "py_clearError A = py_do (py_err_clear A)"

definition py_getSupportedFeatures :: "string list" where
  "py_getSupportedFeatures = [''function_calls'', ''module_loading'', ''eval'', ''variables'', ''objects'', ''lists'',
     ''dicts'', ''tuples'']"

definition py_supportsFeature :: "string \<Rightarrow> bool" where
  "py_supportsFeature f \<longleftrightarrow> f \<in> set py_getSupportedFeatures"

definition py_eval :: "('i, 'd) python \<Rightarrow> nat \<Rightarrow> string \<Rightarrow> ('d ffi, 'i) py_run" where
  "py_eval A n c =
     ensure_initialized A
      (py_bind (py_get (py_add_module A main_module)) (\<lambda>m. py_bind (py_ask (py_module_dict A m)) (\<lambda>d.
         py_bind (py_new (py_run_eval A c d)) (py_take_result A n))))"

definition py_getVariable :: "('i, 'd) python \<Rightarrow> nat \<Rightarrow> string \<Rightarrow> ('d ffi, 'i) py_run" where
  "py_getVariable A n x =
     when_initialized ffi_undefined
      (py_bind (py_get (py_add_module A main_module)) (\<lambda>m. py_bind (py_ask (py_module_dict A m)) (\<lambda>d.
         py_bind (py_ask (py_dict_get A d x)) (\<lambda>a. if a = 0 then py_ret ffi_undefined else pythonToFFIValue A n a))))"

text \<open>\<open>PyDict_SetItemString\<close> takes a reference of its own; the one of the bridge is given up, unless it is None.\<close>

definition py_store :: "('i, 'd) python \<Rightarrow> 'd float_ops \<Rightarrow> nat \<Rightarrow> string \<Rightarrow> 'd ffi \<Rightarrow> (unit, 'i) py_run" where
  "py_store A fo d x v =
     py_bind (py_object_of A fo v) (\<lambda>a. py_bind (py_do (py_dict_set A d x a)) (\<lambda>_.
       if a \<noteq> py_none A then py_gone a else py_ret ()))"

definition py_setVariable :: "('i, 'd) python \<Rightarrow> 'd float_ops \<Rightarrow> string \<Rightarrow> 'd ffi \<Rightarrow> (unit, 'i) py_run" where
  "py_setVariable A fo x v =
     ensure_initialized A
      (py_bind (py_get (py_add_module A main_module)) (\<lambda>m. py_bind (py_ask (py_module_dict A m)) (\<lambda>d. py_store A fo d x v)))"

definition py_isAvailable :: "('i, 'd) python \<Rightarrow> 'i py_state \<Rightarrow> bool" where
  "py_isAvailable A s \<longleftrightarrow> py_initialized s \<or> py_isInitialized A (py_interp s)"

definition py_executeCode :: "('i, 'd) python \<Rightarrow> nat \<Rightarrow> string \<Rightarrow> ('d ffi, 'i) py_run" where
  "py_executeCode A n c =
     ensure_initialized A
      (py_bind (py_get (py_add_module A main_module)) (\<lambda>m. py_bind (py_ask (py_module_dict A m)) (\<lambda>d.
         py_bind (py_new (py_run_file A c d)) (py_take_result A n))))"

definition py_executeFile :: "('i, 'd) python \<Rightarrow> (string \<Rightarrow> bool) \<Rightarrow> string \<Rightarrow> (bool, 'i) py_run" where
  "py_executeFile A opens f =
     ensure_initialized A
      (if \<not> opens f then py_ret False
       else py_bind (py_get (py_add_module A main_module)) (\<lambda>m. py_bind (py_do (py_run_simple A f)) (\<lambda>_.
         py_bind (py_ask (py_err_occurred A)) (\<lambda>e. py_ret (\<not> e)))))"

definition py_callMethod :: "'d ffi \<Rightarrow> string \<Rightarrow> 'd ffi list \<Rightarrow> 'd ffi" where
  "py_callMethod v m args = ffi_undefined"

definition py_getAttribute :: "'d ffi \<Rightarrow> string \<Rightarrow> 'd ffi" where
  "py_getAttribute v a = ffi_undefined"

definition py_setAttribute :: "'d ffi \<Rightarrow> string \<Rightarrow> 'd ffi \<Rightarrow> bool" where
  "py_setAttribute v a x = False"

definition py_createList :: "('i, 'd) python \<Rightarrow> 'd float_ops \<Rightarrow> nat \<Rightarrow> 'd ffi list \<Rightarrow> ('d ffi, 'i) py_run" where
  "py_createList A fo n vs =
     py_bind (py_new (py_new_list A (length vs))) (\<lambda>t. py_bind (py_fill A fo t 0 vs) (\<lambda>_.
       py_bind (pythonToFFIValue A n t) (\<lambda>v. py_bind (py_gone t) (\<lambda>_. py_ret v))))"

definition py_createTuple :: "('i, 'd) python \<Rightarrow> 'd float_ops \<Rightarrow> nat \<Rightarrow> 'd ffi list \<Rightarrow> ('d ffi, 'i) py_run" where
  "py_createTuple A fo n vs =
     py_bind (py_new (py_new_tuple A (length vs))) (\<lambda>t. py_bind (py_fill A fo t 0 vs) (\<lambda>_.
       py_bind (pythonToFFIValue A n t) (\<lambda>v. py_bind (py_gone t) (\<lambda>_. py_ret v))))"

primrec py_store_all :: "('i, 'd) python \<Rightarrow> 'd float_ops \<Rightarrow> nat \<Rightarrow> (string \<times> 'd ffi) list \<Rightarrow> (unit, 'i) py_run" where
  "py_store_all A fo d [] = py_ret ()"
| "py_store_all A fo d (kv # kvs) = py_bind (py_store A fo d (fst kv) (snd kv)) (\<lambda>_. py_store_all A fo d kvs)"

definition py_createDict :: "('i, 'd) python \<Rightarrow> 'd float_ops \<Rightarrow> nat \<Rightarrow> (string \<times> 'd ffi) list \<Rightarrow> ('d ffi, 'i) py_run" where
  "py_createDict A fo n kvs =
     py_bind (py_new (py_new_dict A)) (\<lambda>d. py_bind (py_store_all A fo d kvs) (\<lambda>_.
       py_bind (pythonToFFIValue A n d) (\<lambda>v. py_bind (py_gone d) (\<lambda>_. py_ret v))))"

definition isPythonObject :: "'d ffi \<Rightarrow> bool" where
  "isPythonObject v \<longleftrightarrow> ffi_getType v = OBJECT_TYPE"

definition getPythonTypeName :: "'d ffi \<Rightarrow> string" where
  "getPythonTypeName v =
     (case ffi_getType v of
        INTEGER_TYPE \<Rightarrow> ''int'' | FLOAT_TYPE \<Rightarrow> ''float'' | STRING_TYPE \<Rightarrow> ''str'' | BOOLEAN_TYPE \<Rightarrow> ''bool''
      | ARRAY_TYPE \<Rightarrow> ''list'' | OBJECT_TYPE \<Rightarrow> ''dict'' | NULL_TYPE \<Rightarrow> ''NoneType'' | _ \<Rightarrow> ''unknown'')"

definition ffiValueToPython :: "'d ffi \<Rightarrow> 'd ffi" where
  "ffiValueToPython v = ffi_copy v"

definition pythonValueToFFI :: "'d ffi \<Rightarrow> 'd ffi" where
  "pythonValueToFFI v = ffi_copy v"


section \<open>Reference counts\<close>

text \<open>References received minus references given up, for an object.\<close>

definition py_net :: "'i py_state \<Rightarrow> nat \<Rightarrow> int" where
  "py_net s a = int (count_list (py_refs s) (New_Ref a)) - int (count_list (py_refs s) (Gone_Ref a))"

definition gains :: "('a, 'i) py_run \<Rightarrow> ('a \<Rightarrow> nat \<Rightarrow> int) \<Rightarrow> bool" where
  "gains m g \<longleftrightarrow> (\<forall>s r t. m s = Py_Done (r, t) \<longrightarrow> (\<forall>a. py_net t a = py_net s a + g r a))"

definition one_ref :: "nat \<Rightarrow> nat \<Rightarrow> int" where
  "one_ref a b = (if a = b \<and> a \<noteq> 0 then 1 else 0)"

lemma one_ref_simps [simp]: "one_ref 0 b = 0" "a \<noteq> 0 \<Longrightarrow> one_ref a a = 1"
  by (simp_all add: one_ref_def)

abbreviation no_refs :: "('a, 'i) py_run \<Rightarrow> bool" where
  "no_refs m \<equiv> gains m (\<lambda>r a. 0)"

lemma gains_bind: "gains m g \<Longrightarrow> (\<And>r. gains (f r) (\<lambda>x a. h x a - g r a)) \<Longrightarrow> gains (py_bind m f) h"
  unfolding gains_def py_bind_def by (fastforce split: py_out.splits)

lemma gains_ret: "(\<And>a. h x a = 0) \<Longrightarrow> gains (py_ret x) h"
  by (simp add: gains_def py_ret_def)

lemma gains_steps:
  "no_refs (py_ask f)" "no_refs (py_do g)" "no_refs (py_get k)" "no_refs (py_lift x)"
  "gains (py_new n) one_ref" "gains (py_gone b) (\<lambda>r a. - one_ref b a)" "gains (\<lambda>s. Py_Null_Text) h" "gains (\<lambda>s. Py_Deep) h"
  by (auto simp: gains_def py_ask_def py_do_def py_get_def py_lift_def py_new_def py_gone_def py_net_def one_ref_def
      split: prod.splits option.splits)

lemma gains_cong: "gains m g \<Longrightarrow> (\<And>r a. g r a = h r a) \<Longrightarrow> gains m h"
  by (simp add: gains_def)

lemma no_refs_bind: "no_refs m \<Longrightarrow> (\<And>r. gains (f r) h) \<Longrightarrow> gains (py_bind m f) h"
  using gains_bind [of m "\<lambda>r a. 0" f h] by simp

lemma new_bind: "(\<And>r. gains (f r) (\<lambda>x a. h x a - one_ref r a)) \<Longrightarrow> gains (py_bind (py_new n) f) h"
  using gains_bind [OF gains_steps(5)] .

lemma gone_bind: "(\<And>r. gains (f r) (\<lambda>x a. h x a + one_ref b a)) \<Longrightarrow> gains (py_bind (py_gone b) f) h"
  by (rule gains_bind [OF gains_steps(6)]) simp

lemmas no_refs_steps = gains_steps(1-4,7,8)
lemmas ask_bind = no_refs_bind [OF gains_steps(1)] no_refs_bind [OF gains_steps(2)] no_refs_bind [OF gains_steps(3)]
  no_refs_bind [OF gains_steps(4)]

lemma no_refs_each: "(\<And>x. no_refs (f x)) \<Longrightarrow> no_refs (py_each f xs)"
  by (induction xs) (auto intro!: no_refs_bind gains_ret)

lemma no_refs_text: "no_refs (py_text A a)"
  unfolding py_text_def by (auto intro!: ask_bind gains_ret no_refs_steps split: option.split)

lemma no_refs_entry: "(\<And>a. no_refs (conv a)) \<Longrightarrow> no_refs (py_entry A conv kv)"
  unfolding py_entry_def
  by (rule ask_bind) (auto intro!: no_refs_bind [OF no_refs_text] gains_ret intro: no_refs_bind)

lemma no_refs_convert: "no_refs (pythonToFFIValue A n a)"
proof (induction n arbitrary: a)
  case (Suc n)
  show ?case unfolding pythonToFFIValue.simps
    by (auto intro!: ask_bind gains_ret no_refs_bind [OF no_refs_text] no_refs_bind [OF no_refs_each [OF Suc]]
        no_refs_bind [OF no_refs_each [OF no_refs_entry [OF Suc]]])
qed (simp add: pythonToFFIValue.simps no_refs_steps)

text \<open>Values that have no conversion: None stands for them.\<close>

definition unconverted :: "'d ffi list \<Rightarrow> nat" where
  "unconverted vs = length (filter (\<lambda>v. ffi_getType v \<notin> {INTEGER_TYPE, FLOAT_TYPE, STRING_TYPE, BOOLEAN_TYPE}) vs)"

text \<open>What is asked of CPython: None is an object, and no new object of another type is None.\<close>

definition none_apart :: "('i, 'd) python \<Rightarrow> bool" where
  "none_apart A \<longleftrightarrow> py_none A \<noteq> 0
    \<and> (\<forall>w i. fst (py_new_int A w i) \<noteq> py_none A) \<and> (\<forall>d i. fst (py_new_float A d i) \<noteq> py_none A)
    \<and> (\<forall>x i. fst (py_new_text A x i) \<noteq> py_none A) \<and> (\<forall>b i. fst (py_new_bool A b i) \<noteq> py_none A)"

definition lost_none :: "('i, 'd) python \<Rightarrow> nat \<Rightarrow> nat \<Rightarrow> int" where
  "lost_none A k a = (if a = py_none A then - int k else 0)"

lemma new_apart: "(\<And>i. fst (k i) \<noteq> b) \<Longrightarrow> gains (py_new k) (\<lambda>r a. if r = b then h a else one_ref r a)"
  by (auto simp: gains_def py_new_def py_net_def one_ref_def case_prod_beta)

lemma gains_object:
  assumes "none_apart A"
  shows "gains (py_object_of A fo v) (\<lambda>r a. if r = py_none A then 0 else one_ref r a)"
  using assms unfolding py_object_of_def none_apart_def
  by (cases "ffi_getType v") (auto intro!: ask_bind gains_ret new_apart)

lemma gains_fill:
  assumes "none_apart A"
  shows "gains (py_fill A fo t k vs) (\<lambda>r. lost_none A (unconverted vs))"
proof (induction vs arbitrary: k)
  case (Cons v vs)
  have item: "gains (py_object_of A fo v)
    (\<lambda>r a. one_ref r a - (if ffi_getType v \<notin> {INTEGER_TYPE, FLOAT_TYPE, STRING_TYPE, BOOLEAN_TYPE} then one_ref (py_none A) a else 0))"
    using assms unfolding py_object_of_def none_apart_def
    by (cases "ffi_getType v") (auto intro!: ask_bind gains_ret gains_cong [OF gains_steps(5)])
  show ?case unfolding py_fill.simps
    by (rule gains_bind [OF item], rule ask_bind(2), rule gone_bind, rule gains_cong [OF Cons])
       (use assms in \<open>auto simp: unconverted_def lost_none_def one_ref_def none_apart_def\<close>)
qed (simp add: gains_ret unconverted_def lost_none_def)

lemma no_refs_initialize: "no_refs (py_initialize A)"
  by (auto simp: gains_def py_initialize_def py_net_def Let_def split: if_splits)

lemma gains_when: "gains m h \<Longrightarrow> gains (py_bind (py_initialize A) (\<lambda>_. m)) h"
  by (rule no_refs_bind [OF no_refs_initialize])

lemma gains_ensure: "gains m h \<Longrightarrow> gains (ensure_initialized A m) h"
  using gains_when [of m h A] by (auto simp: ensure_initialized_def gains_def)

lemma no_refs_when: "no_refs m \<Longrightarrow> no_refs (when_initialized r m)"
  by (auto simp: when_initialized_def gains_def split: if_splits)

lemma gains_take: "(\<And>x a. h x a = - one_ref r a) \<Longrightarrow> gains (py_take_result A n r) h"
  unfolding py_take_result_def
  by (auto intro!: ask_bind gains_ret gone_bind no_refs_bind [OF no_refs_convert])

lemma no_refs_store: "none_apart A \<Longrightarrow> no_refs (py_store A fo d x v)"
  unfolding py_store_def
  by (rule gains_bind [OF gains_object], assumption, rule ask_bind(2))
     (auto intro!: gains_ret gains_cong [OF gains_steps(6)])


section \<open>Programs over the bridge\<close>

datatype 'd py_op =
    Py_Initialize_Op | Py_Finalize_Op | Py_Call_Op string "'d ffi list" | Py_Has_Op string | Py_Load_Op string
  | Py_Unload_Op string | Py_Loaded_Op string | Py_Clear_Op | Py_Error_Op | Py_Eval_Op string | Py_Get_Op string
  | Py_Set_Op string "'d ffi" | Py_Code_Op string | Py_File_Op string | Py_List_Op "'d ffi list"
  | Py_Tuple_Op "'d ffi list" | Py_Dict_Op "(string \<times> 'd ffi) list"

definition py_done :: "('a, 'i) py_run \<Rightarrow> (unit, 'i) py_run" where
  "py_done m = py_bind m (\<lambda>_. py_ret ())"

primrec py_step ::
  "('i, 'd) python \<Rightarrow> 'd float_ops \<Rightarrow> (string \<Rightarrow> bool) \<Rightarrow> nat \<Rightarrow> 'd py_op \<Rightarrow> (unit, 'i) py_run" where
  "py_step A fo opens n Py_Initialize_Op = py_done (py_initialize A)"
| "py_step A fo opens n Py_Finalize_Op = (\<lambda>s. Py_Done ((), py_finalize s))"
| "py_step A fo opens n (Py_Call_Op f vs) = py_done (py_callFunction A fo n f vs)"
| "py_step A fo opens n (Py_Has_Op f) = py_done (py_hasFunction A f)"
| "py_step A fo opens n (Py_Load_Op m) = py_done (py_loadModule A m)"
| "py_step A fo opens n (Py_Unload_Op m) = py_done (py_unloadModule A m)"
| "py_step A fo opens n (Py_Loaded_Op m) = py_done (py_isModuleLoaded A m)"
| "py_step A fo opens n Py_Clear_Op = py_clearError A"
| "py_step A fo opens n Py_Error_Op = py_done (py_getLastError A)"
| "py_step A fo opens n (Py_Eval_Op c) = py_done (py_eval A n c)"
| "py_step A fo opens n (Py_Get_Op x) = py_done (py_getVariable A n x)"
| "py_step A fo opens n (Py_Set_Op x v) = py_setVariable A fo x v"
| "py_step A fo opens n (Py_Code_Op c) = py_done (py_executeCode A n c)"
| "py_step A fo opens n (Py_File_Op f) = py_done (py_executeFile A opens f)"
| "py_step A fo opens n (Py_List_Op vs) = py_done (py_createList A fo n vs)"
| "py_step A fo opens n (Py_Tuple_Op vs) = py_done (py_createTuple A fo n vs)"
| "py_step A fo opens n (Py_Dict_Op kvs) = py_done (py_createDict A fo n kvs)"

primrec py_program ::
  "('i, 'd) python \<Rightarrow> 'd float_ops \<Rightarrow> (string \<Rightarrow> bool) \<Rightarrow> nat \<Rightarrow> 'd py_op list \<Rightarrow> (unit, 'i) py_run" where
  "py_program A fo opens n [] = py_ret ()"
| "py_program A fo opens n (op # ops) = py_bind (py_step A fo opens n op) (\<lambda>_. py_program A fo opens n ops)"

text \<open>How often an operation gives None to a call that steals it.\<close>

definition call_reached :: "('i, 'd) python \<Rightarrow> string \<Rightarrow> 'i py_state \<Rightarrow> bool" where
  "call_reached A f s \<longleftrightarrow> py_initialized s \<and>
     (let (m, i) = py_add_module A main_module (py_interp s); func = py_dict_get A (py_module_dict A m i) f i
      in m \<noteq> 0 \<and> func \<noteq> 0 \<and> py_callable A func i)"

definition none_stolen :: "('i, 'd) python \<Rightarrow> 'd py_op \<Rightarrow> 'i py_state \<Rightarrow> nat" where
  "none_stolen A op s =
     (case op of
        Py_Call_Op f vs \<Rightarrow> if call_reached A f s then unconverted vs else 0
      | Py_List_Op vs \<Rightarrow> unconverted vs | Py_Tuple_Op vs \<Rightarrow> unconverted vs | _ \<Rightarrow> 0)"

primrec none_stolen_by ::
  "('i, 'd) python \<Rightarrow> 'd float_ops \<Rightarrow> (string \<Rightarrow> bool) \<Rightarrow> nat \<Rightarrow> 'd py_op list \<Rightarrow> 'i py_state \<Rightarrow> nat" where
  "none_stolen_by A fo opens n [] s = 0"
| "none_stolen_by A fo opens n (op # ops) s =
     none_stolen A op s + (case py_step A fo opens n op s of Py_Done (u, t) \<Rightarrow> none_stolen_by A fo opens n ops t | _ \<Rightarrow> 0)"

lemma gains_done: "gains m (\<lambda>r. h) \<Longrightarrow> gains (py_done m) (\<lambda>r. h)"
  unfolding py_done_def by (rule gains_bind, assumption) (rule gains_ret, simp)

lemma gains_collection:
  assumes "none_apart A"
  shows "gains (py_bind (py_new k) (\<lambda>t. py_bind (py_fill A fo t 0 vs) (\<lambda>_. py_bind (pythonToFFIValue A n t) (\<lambda>v.
      py_bind (py_gone t) (\<lambda>_. py_ret v))))) (\<lambda>r. lost_none A (unconverted vs))"
  by (rule new_bind, rule gains_bind [OF gains_fill [OF assms]], rule no_refs_bind [OF no_refs_convert], rule gone_bind)
     (simp add: gains_ret)

lemma gains_call:
  assumes "none_apart A"
  shows "gains (py_bind (py_new k) (\<lambda>t. py_bind (py_fill A fo t 0 vs) (\<lambda>_. py_bind (py_new (c t)) (\<lambda>r.
      py_bind (py_gone t) (\<lambda>_. py_take_result A n r))))) (\<lambda>r. lost_none A (unconverted vs))"
  by (rule new_bind, rule gains_bind [OF gains_fill [OF assms]], rule new_bind, rule gone_bind, rule gains_take) simp

lemma no_refs_store_all: "none_apart A \<Longrightarrow> no_refs (py_store_all A fo d kvs)"
  by (induction kvs) (auto intro!: gains_ret no_refs_bind [OF no_refs_store])

lemma lost_none_0 [simp]: "lost_none A 0 = (\<lambda>a. 0)"
  by (simp add: lost_none_def fun_eq_iff)

lemma bind_calls:
  "py_bind (py_get k) f s = f (fst (k (py_interp s))) (s\<lparr>py_interp := snd (k (py_interp s))\<rparr>)"
  "py_bind (py_ask q) g s = g (q (py_interp s)) s"
  by (simp_all add: py_bind_def py_get_def py_ask_def case_prod_beta)

lemma call_counts:
  assumes "none_apart A" "py_callFunction A fo n f vs s = Py_Done (r, t)"
  shows "py_net t a = py_net s a + lost_none A (none_stolen A (Py_Call_Op f vs) s) a"
proof -
  define i where "i = snd (py_add_module A main_module (py_interp s))"
  define func where "func = py_dict_get A (py_module_dict A (fst (py_add_module A main_module (py_interp s))) i) f i"
  have reached: "call_reached A f s \<longleftrightarrow> py_initialized s \<and> fst (py_add_module A main_module (py_interp s)) \<noteq> 0
    \<and> func \<noteq> 0 \<and> py_callable A func i"
    by (simp add: call_reached_def func_def i_def case_prod_beta Let_def)
  have call: "py_callFunction A fo n f vs s =
    (if \<not> py_initialized s then Py_Done (ffi_undefined, s)
     else if \<not> call_reached A f s then Py_Done (ffi_undefined, s\<lparr>py_interp := i\<rparr>)
     else py_bind (py_new (py_new_tuple A (length vs))) (\<lambda>t. py_bind (py_fill A fo t 0 vs) (\<lambda>_.
       py_bind (py_new (py_call A func t)) (\<lambda>r. py_bind (py_gone t) (\<lambda>_. py_take_result A n r)))) (s\<lparr>py_interp := i\<rparr>))"
    unfolding reached py_callFunction_def when_initialized_def bind_calls
    by (simp add: bind_calls py_ret_def i_def [symmetric] func_def [symmetric])
  show ?thesis
  proof (cases "call_reached A f s")
    case True
    then have "py_bind (py_new (py_new_tuple A (length vs))) (\<lambda>t. py_bind (py_fill A fo t 0 vs) (\<lambda>_.
       py_bind (py_new (py_call A func t)) (\<lambda>r. py_bind (py_gone t) (\<lambda>_. py_take_result A n r)))) (s\<lparr>py_interp := i\<rparr>)
       = Py_Done (r, t)"
      using assms(2) unfolding call using reached by simp
    then have "py_net t a = py_net (s\<lparr>py_interp := i\<rparr>) a + lost_none A (unconverted vs) a"
      using gains_call [OF assms(1)] unfolding gains_def by blast
    then show ?thesis using True by (simp add: none_stolen_def py_net_def)
  next
    case False
    then show ?thesis using assms(2) unfolding call by (auto simp: none_stolen_def py_net_def split: if_splits)
  qed
qed

lemma no_refs_others:
  "no_refs (py_hasFunction A f)" "no_refs (py_loadModule A m)" "no_refs (py_unloadModule A m)" "no_refs (py_isModuleLoaded A m)"
  "no_refs (py_eval A n c)" "no_refs (py_getVariable A n x)" "no_refs (py_executeCode A n c)" "no_refs (py_executeFile A opens c)"
  "no_refs (py_clearError A)" "no_refs (py_getLastError A)"
proof -
  show "no_refs (py_hasFunction A f)" "no_refs (py_unloadModule A m)" "no_refs (py_getVariable A n x)" "no_refs (py_clearError A)"
    by (auto simp: py_hasFunction_def py_unloadModule_def py_getVariable_def py_clearError_def
      intro!: no_refs_when ask_bind gains_ret no_refs_convert no_refs_steps)
  show "no_refs (py_isModuleLoaded A m)" unfolding py_isModuleLoaded_def
    by (intro no_refs_when ask_bind new_bind gone_bind gains_ret) simp
  show "no_refs (py_loadModule A m)" unfolding py_loadModule_def
    by (intro gains_ensure new_bind gone_bind) (auto intro!: ask_bind gone_bind gains_ret)
  show "no_refs (py_eval A n c)" "no_refs (py_executeCode A n c)" unfolding py_eval_def py_executeCode_def
    by (intro gains_ensure ask_bind new_bind gains_take; simp)+
  show "no_refs (py_executeFile A opens c)" unfolding py_executeFile_def
    by (rule gains_ensure) (auto intro!: ask_bind gains_ret)
  show "no_refs (py_getLastError A)" unfolding py_getLastError_def
    by (rule ask_bind) (auto intro!: gains_ret no_refs_steps split: option.split)
qed

lemma no_refs_changes:
  assumes "none_apart A"
  shows "no_refs (py_setVariable A fo x v)" "no_refs (py_createDict A fo n kvs)" "no_refs (\<lambda>s. Py_Done ((), py_finalize s))"
proof -
  show "no_refs (py_setVariable A fo x v)" unfolding py_setVariable_def
    by (intro gains_ensure ask_bind no_refs_store assms)
  show "no_refs (py_createDict A fo n kvs)" unfolding py_createDict_def
    by (intro new_bind no_refs_bind [OF no_refs_store_all [OF assms]] no_refs_bind [OF no_refs_convert] gone_bind gains_ret) simp
  show "no_refs (\<lambda>s. Py_Done ((), py_finalize s))" by (simp add: gains_def py_finalize_def py_net_def)
qed

lemma step_gains:
  assumes "none_apart A" "\<And>f vs. op \<noteq> Py_Call_Op f vs"
  shows "gains (py_step A fo opens n op) (\<lambda>r. lost_none A (none_stolen A op s))"
proof (cases op)
  case (Py_List_Op vs)
  then show ?thesis using gains_collection [OF assms(1)] by (simp add: none_stolen_def py_createList_def gains_done)
next
  case (Py_Tuple_Op vs)
  then show ?thesis using gains_collection [OF assms(1)] by (simp add: none_stolen_def py_createTuple_def gains_done)
qed (use assms(2) in \<open>simp_all add: none_stolen_def gains_done no_refs_others no_refs_initialize no_refs_changes [OF assms(1)]\<close>)

lemma step_counts:
  assumes "none_apart A" "py_step A fo opens n op s = Py_Done (u, t)"
  shows "py_net t a = py_net s a + lost_none A (none_stolen A op s) a"
proof (cases "\<exists>f vs. op = Py_Call_Op f vs")
  case True
  then obtain f vs r where op: "op = Py_Call_Op f vs" "py_callFunction A fo n f vs s = Py_Done (r, t)"
    using assms(2) by (auto simp: py_done_def py_bind_def py_ret_def split: py_out.splits)
  show ?thesis using call_counts [OF assms(1) op(2)] op(1) by simp
next
  case False
  then show ?thesis using step_gains [OF assms(1), of op fo opens n s] assms(2) unfolding gains_def by blast
qed

text \<open>C33: in every program over the bridge that runs to its end without an exception, the references to every
  object are given up as often as they were received, except that None is given up once more for each value
  without a conversion that a called function, a list or a tuple gets; a dictionary or \<open>setVariable\<close> loses none. (A
  result whose text has no UTF-8 form makes the conversion throw, which ends the program; the reference to that
  result is then not given up.)\<close>

theorem python_references:
  assumes "none_apart A" "py_program A fo opens n ops (new_python i) = Py_Done (u, t)"
  shows "py_net t a = (if a = py_none A then - int (none_stolen_by A fo opens n ops (new_python i)) else 0)"
proof -
  have "py_net t a = py_net s a + lost_none A (none_stolen_by A fo opens n ops s) a"
    if "py_program A fo opens n ops s = Py_Done (u, t)" for s
    using that
  proof (induction ops arbitrary: s)
    case Nil
    then show ?case by (simp add: py_ret_def)
  next
    case (Cons op ops)
    then obtain u1 s1 where s1: "py_step A fo opens n op s = Py_Done (u1, s1)" "py_program A fo opens n ops s1 = Py_Done (u, t)"
      by (auto simp: py_bind_def split: py_out.splits)
    show ?case using Cons.IH [OF s1(2)] step_counts [OF assms(1) s1(1), of a] s1(1) by (simp add: lost_none_def)
  qed
  from this [OF assms(2)] show ?thesis by (simp add: lost_none_def new_python_def py_net_def)
qed


text \<open>An interpreter whose objects are numbers: 1 is None, 2 the main module, 3 a function, the others integers.\<close>

definition toy_python :: "(nat, int) python" where
  "toy_python = \<lparr>py_none = 1, py_isInitialized = \<lambda>i. True, py_initialize_api = \<lambda>i. i, py_version = ''3'',
     py_add_module = \<lambda>m i. (2, i), py_import = \<lambda>m i. (0, i), py_module_dict = \<lambda>m i. 2, py_all_modules = \<lambda>i. 2,
     py_dict_get = \<lambda>d x i. 3, py_dict_set = \<lambda>d x a i. i, py_dict_del = \<lambda>d x i. (True, i), py_dict_contains = \<lambda>d x i. False,
     py_callable = \<lambda>a i. a = 3, py_new_int = \<lambda>w i. (i + 4, i + 1), py_new_float = \<lambda>d i. (i + 4, i + 1),
     py_new_text = \<lambda>x i. (i + 4, i + 1), py_new_bool = \<lambda>b i. (i + 4, i + 1), py_new_tuple = \<lambda>k i. (i + 4, i + 1),
     py_new_list = \<lambda>k i. (i + 4, i + 1), py_new_dict = \<lambda>i. (i + 4, i + 1), py_set_item = \<lambda>t k a i. i,
     py_call = \<lambda>f t i. (i + 4, i + 1), py_run_eval = \<lambda>c d i. (0, i), py_run_file = \<lambda>c d i. (0, i), py_run_simple = \<lambda>f i. i,
     py_err_print = \<lambda>i. i, py_err_clear = \<lambda>i. i, py_err_occurred = \<lambda>i. False, py_err_message = \<lambda>i. None,
     py_isLong = \<lambda>a i. a > 3, py_isFloat = \<lambda>a i. False, py_isText = \<lambda>a i. False, py_isBool = \<lambda>a i. False,
     py_isList = \<lambda>a i. False, py_isDict = \<lambda>a i. False, py_isTrue = \<lambda>a i. False, py_long_value = \<lambda>a i. (of_nat a, i),
     py_float_value = \<lambda>a i. (0, i), py_utf8 = \<lambda>a i. (None, i), py_list_items = \<lambda>a i. [], py_dict_items = \<lambda>a i. []\<rparr>"

theorem python_references_witness:
  "\<forall>fo opens. \<exists>t. py_program toy_python fo opens 1 [Py_Initialize_Op, Py_Call_Op ''f'' [ffi_undefined]] (new_python 0) = Py_Done ((), t)
     \<and> py_net t 1 = - 1"
proof (intro allI)
  fix fo :: "int float_ops" and opens
  have n: "none_apart toy_python" by (simp add: none_apart_def toy_python_def)
  obtain t where t: "py_program toy_python fo opens 1 [Py_Initialize_Op, Py_Call_Op ''f'' [ffi_undefined]] (new_python 0) = Py_Done ((), t)"
    by (simp add: py_done_def py_initialize_def py_callFunction_def when_initialized_def bind_calls py_bind_def py_ret_def
      new_python_def toy_python_def py_new_def py_gone_def py_object_of_def py_do_def py_take_result_def py_get_def
      pythonToFFIValue.simps ffi_undefined_def ffi_make_def py_ask_def)
  have "none_stolen_by toy_python fo opens 1 [Py_Initialize_Op, Py_Call_Op ''f'' [ffi_undefined]] (new_python 0) = 1"
    by (simp add: none_stolen_def py_done_def py_initialize_def py_bind_def py_ret_def new_python_def toy_python_def
      call_reached_def unconverted_def ffi_undefined_def ffi_make_def split: py_out.split)
  then show "\<exists>t. py_program toy_python fo opens 1 [Py_Initialize_Op, Py_Call_Op ''f'' [ffi_undefined]] (new_python 0) = Py_Done ((), t)
     \<and> py_net t 1 = - 1"
    using python_references [OF n t, of 1] t by (simp add: toy_python_def)
qed

section \<open>Converting nested values\<close>

lemma each_cong: "(\<And>x. x \<in> set xs \<Longrightarrow> f x = g x) \<Longrightarrow> py_each f xs = py_each g xs"
  by (induction xs) simp_all

lemma bind_deep: "py_bind m f s = Py_Deep \<Longrightarrow> (\<And>r t. m s = Py_Done (r, t) \<Longrightarrow> f r t \<noteq> Py_Deep) \<Longrightarrow> m s = Py_Deep"
  by (auto simp: py_bind_def split: py_out.splits)

lemma not_deep_steps [simp]:
  "py_ret x s \<noteq> Py_Deep" "py_get k s \<noteq> Py_Deep" "py_ask q s \<noteq> Py_Deep" "py_text A a s \<noteq> Py_Deep"
  by (auto simp: py_ret_def py_get_def py_ask_def py_text_def py_bind_def split: prod.splits option.splits)

lemma each_deep: "(\<And>x s. x \<in> set xs \<Longrightarrow> f x s \<noteq> Py_Deep) \<Longrightarrow> py_each f xs s \<noteq> Py_Deep"
proof (induction xs arbitrary: s)
  case (Cons x xs)
  then show ?case by (auto dest!: bind_deep)
qed simp

lemma entry_deep: "(\<And>s. conv (snd kv) s \<noteq> Py_Deep) \<Longrightarrow> py_entry A conv kv s \<noteq> Py_Deep"
  by (auto simp: py_entry_def py_bind_def split: py_out.splits if_splits)

text \<open>The elements of a list and the values of a dictionary have a lower rank.\<close>

definition ranked :: "('i, 'd) python \<Rightarrow> (nat \<Rightarrow> nat) \<Rightarrow> bool" where
  "ranked A rank \<longleftrightarrow> (\<forall>a i. (\<forall>b \<in> set (py_list_items A a i). rank b < rank a)
     \<and> (\<forall>kv \<in> set (py_dict_items A a i). rank (snd kv) < rank a))"

lemma ranked_less:
  "ranked A rank \<Longrightarrow> b \<in> set (py_list_items A a i) \<Longrightarrow> rank b < rank a"
  "ranked A rank \<Longrightarrow> kv \<in> set (py_dict_items A a i) \<Longrightarrow> rank (snd kv) < rank a"
  by (auto simp: ranked_def)

lemma ranked_not_deep: "ranked A rank \<Longrightarrow> rank a < n \<Longrightarrow> pythonToFFIValue A n a s \<noteq> Py_Deep"
proof (induction n arbitrary: a s)
  case (Suc n)
  have items: "py_each (pythonToFFIValue A n) (py_list_items A a i) t \<noteq> Py_Deep" for i t
    using Suc.IH [OF Suc.prems(1)] ranked_less(1) [OF Suc.prems(1)] Suc.prems(2) by (intro each_deep) (metis less_trans_Suc not_less_eq)
  have entries: "py_each (py_entry A (pythonToFFIValue A n)) (py_dict_items A a i) t \<noteq> Py_Deep" for i t
    using Suc.IH [OF Suc.prems(1)] ranked_less(2) [OF Suc.prems(1)] Suc.prems(2)
    by (intro each_deep entry_deep) (metis less_trans_Suc not_less_eq)
  show ?case using items entries by (auto simp: pythonToFFIValue.simps bind_calls(2) dest!: bind_deep)
qed simp

lemma ranked_same: "ranked A rank \<Longrightarrow> rank a < n \<Longrightarrow> rank a < m \<Longrightarrow> pythonToFFIValue A n a = pythonToFFIValue A m a"
proof (induction n arbitrary: a m)
  case (Suc n)
  then obtain k where m: "m = Suc k" by (cases m) auto
  have same: "pythonToFFIValue A n b = pythonToFFIValue A k b" if "rank b < rank a" for b
    using that Suc m by (intro Suc.IH) auto
  have "py_each (pythonToFFIValue A n) (py_list_items A a i) = py_each (pythonToFFIValue A k) (py_list_items A a i)" for i
    using same ranked_less(1) [OF Suc.prems(1)] by (intro each_cong) blast
  moreover have "py_each (py_entry A (pythonToFFIValue A n)) (py_dict_items A a i)
      = py_each (py_entry A (pythonToFFIValue A k)) (py_dict_items A a i)" for i
  proof (rule each_cong)
    fix kv assume "kv \<in> set (py_dict_items A a i)"
    then have "pythonToFFIValue A n (snd kv) = pythonToFFIValue A k (snd kv)"
      using same ranked_less(2) [OF Suc.prems(1)] by blast
    then show "py_entry A (pythonToFFIValue A n) kv = py_entry A (pythonToFFIValue A k) kv" by (simp add: py_entry_def cong: if_cong)
  qed
  ultimately show ?case by (simp add: pythonToFFIValue.simps m cong: if_cong)
qed simp

text \<open>On values without cycles the conversion to a foreign value returns, and a greater depth gives the same.\<close>

theorem conversion_returns:
  assumes "ranked A rank" "rank a < n"
  shows "pythonToFFIValue A n a s \<noteq> Py_Deep \<and> pythonToFFIValue A n a s = pythonToFFIValue A (Suc (rank a)) a s"
  using ranked_not_deep [OF assms] ranked_same [OF assms, of "Suc (rank a)"] by simp

theorem conversion_returns_witness:
  "pythonToFFIValue toy_python 3 7 (new_python 0) = pythonToFFIValue toy_python 1 7 (new_python 0)"
  using conversion_returns [of toy_python "\<lambda>a. 0" 7 3 "new_python 0"] by (simp add: ranked_def toy_python_def)

text \<open>A list that contains itself is never converted, whatever the depth.\<close>

theorem cyclic_list_never_converted:
  assumes "\<forall>i. py_isList A a i \<and> py_list_items A a i = [a] \<and> \<not> py_isLong A a i \<and> \<not> py_isFloat A a i \<and> \<not> py_isText A a i
    \<and> \<not> py_isBool A a i" "a \<noteq> 0" "a \<noteq> py_none A"
  shows "pythonToFFIValue A n a s = Py_Deep"
  using assms by (induction n arbitrary: s) (simp_all add: pythonToFFIValue.simps py_ask_def py_bind_def)

text \<open>A Python \<open>bool\<close> is an \<open>int\<close>, so that a truth value becomes an integer.\<close>

theorem booleans_become_integers:
  assumes "\<forall>a i. py_isBool A a i \<longrightarrow> py_isLong A a i" "pythonToFFIValue A n a s = Py_Done (v, t)"
  shows "ffi_getType v \<noteq> BOOLEAN_TYPE \<and> (py_isBool A a (py_interp s) \<and> a \<noteq> 0 \<and> a \<noteq> py_none A \<longrightarrow> ffi_getType v = INTEGER_TYPE)"
  using assms
  by (cases n) (auto simp: pythonToFFIValue.simps py_ask_def py_bind_def py_ret_def ffi_undefined_def ffi_make_def
      split: if_splits py_out.splits)

text \<open>An error of an evaluated text is printed and cleared, so that \<open>hasError\<close> does not see it.\<close>

theorem failed_evaluation_unseen:
  assumes "\<forall>i. \<not> py_err_occurred A (py_err_print A i)" "\<forall>c d i. fst (py_run_eval A c d i) = 0"
  shows "\<exists>t. py_eval A n c s = Py_Done (ffi_undefined, t) \<and> \<not> py_hasError A t"
  using assms
  by (simp add: py_eval_def ensure_initialized_def bind_calls py_bind_def py_take_result_def py_do_def py_ret_def py_hasError_def
      py_new_def py_initialize_def py_get_def py_ask_def case_prod_beta Let_def)

end
