(* ===== verification/Tocin_Memory.thy ===== *)
theory Tocin_Memory
  imports Tocin_Prelude "HOL-Library.Word" "HOL-Library.Multiset"
begin

text \<open>
  The owning handles of \<open>src/util/memory_safe.h\<close> and \<open>.cpp\<close>, the buffers and handles of
  \<open>src/util/memory_safety.cpp\<close>, and \<open>ErrorInfo\<close> of \<open>src/util/error_handling.cpp\<close>. A pointer is a number, null
  is 0; what a function hands to a cleanup, to \<open>fclose\<close> or to \<open>dlclose\<close> is part of its result. Memory is
  never exhausted, and a size is a natural number. A locale holds the argument that the owner of a resource
  is unique; the classes that own something interpret it.
\<close>

section \<open>Programs over handles\<close>

text \<open>What a class of handles does. \<open>hc_takes\<close> is what the arguments of a constructor make over to the handle,
  \<open>hc_gains\<close> what those of a member function do. Constructing from a handle that is moved gives the new handle and
  what is left of the old one; assigning one gives the released resources and both handles, and is told whether
  the two are the same object. A member function gives the released resources, those that it hands out (or
  cancels), and the handle.\<close>

record ('r, 'h, 'f, 'q) handle_class =
  hc_takes :: "'r \<Rightarrow> 'q multiset"
  hc_construct :: "'r \<Rightarrow> 'h"
  hc_destroy :: "'h \<Rightarrow> 'q list"
  hc_move :: "'h \<Rightarrow> 'h \<times> 'h"
  hc_assign :: "bool \<Rightarrow> 'h \<Rightarrow> 'h \<Rightarrow> 'q list \<times> 'h \<times> 'h"
  hc_gains :: "'f \<Rightarrow> 'q multiset"
  hc_call :: "'f \<Rightarrow> 'h \<Rightarrow> 'q list \<times> 'q multiset \<times> 'h"

datatype ('r, 'f) own_cmd =
  Own_New nat 'r | Own_Move nat nat | Own_Assign nat nat | Own_Call nat 'f | Own_Drop nat

record ('h, 'q) own_state =
  own_vars :: "(nat \<times> 'h) list"
  own_taken :: "'q multiset"
  own_released :: "'q list"
  own_handed :: "'q multiset"

definition own_start :: "('h, 'q) own_state" where
  "own_start = \<lparr>own_vars = [], own_taken = {#}, own_released = [], own_handed = {#}\<rparr>"

definition own_put :: "nat \<Rightarrow> 'h \<Rightarrow> (nat \<times> 'h) list \<Rightarrow> (nat \<times> 'h) list" where
  "own_put x h vs = map (\<lambda>(y, g). (y, if y = x then h else g)) vs"

text \<open>A command on a variable that is not there, or that declares one again, is no program.\<close>

definition own_step ::
  "('r, 'h, 'f, 'q) handle_class \<Rightarrow> ('r, 'f) own_cmd \<Rightarrow> ('h, 'q) own_state \<Rightarrow> ('h, 'q) own_state" where
  "own_step C c s =
     (case c of
        Own_New x r \<Rightarrow>
          if x \<in> fst ` set (own_vars s) then s
          else s\<lparr>own_vars := (x, hc_construct C r) # own_vars s, own_taken := own_taken s + hc_takes C r\<rparr>
      | Own_Move x y \<Rightarrow>
          (case map_of (own_vars s) y of
             None \<Rightarrow> s
           | Some h \<Rightarrow>
               if x \<in> fst ` set (own_vars s) then s
               else s\<lparr>own_vars := (x, fst (hc_move C h)) # own_put y (snd (hc_move C h)) (own_vars s)\<rparr>)
      | Own_Assign x y \<Rightarrow>
          (case (map_of (own_vars s) x, map_of (own_vars s) y) of
             (Some g, Some h) \<Rightarrow>
               (let (rs, g', h') = hc_assign C (x = y) g h
                in s\<lparr>own_vars := own_put x g' (own_put y h' (own_vars s)), own_released := own_released s @ rs\<rparr>)
           | _ \<Rightarrow> s)
      | Own_Call x f \<Rightarrow>
          (case map_of (own_vars s) x of
             None \<Rightarrow> s
           | Some h \<Rightarrow>
               (let (rs, gs, h') = hc_call C f h
                in s\<lparr>own_vars := own_put x h' (own_vars s), own_taken := own_taken s + hc_gains C f,
                     own_released := own_released s @ rs, own_handed := own_handed s + gs\<rparr>))
      | Own_Drop x \<Rightarrow>
          (case map_of (own_vars s) x of
             None \<Rightarrow> s
           | Some h \<Rightarrow> s\<lparr>own_vars := filter (\<lambda>v. fst v \<noteq> x) (own_vars s), own_released := own_released s @ hc_destroy C h\<rparr>))"

definition own_run :: "('r, 'h, 'f, 'q) handle_class \<Rightarrow> ('r, 'f) own_cmd list \<Rightarrow> ('h, 'q) own_state" where
  "own_run C cs = fold (own_step C) cs own_start"

text \<open>The end of the scope: the destructors of the variables that are left, the last one first.\<close>

definition own_end :: "('r, 'h, 'f, 'q) handle_class \<Rightarrow> ('h, 'q) own_state \<Rightarrow> ('h, 'q) own_state" where
  "own_end C s = s\<lparr>own_vars := [], own_released := own_released s @ concat (map (hc_destroy C \<circ> snd) (own_vars s))\<rparr>"

text \<open>In the end every resource that the handles got was released or handed out, as often as they got it.\<close>

definition settles_up :: "('r, 'h, 'f, 'q) handle_class \<Rightarrow> ('r, 'f) own_cmd list \<Rightarrow> bool" where
  "settles_up C cs \<longleftrightarrow>
     (let s = own_end C (own_run C cs) in own_taken s = mset (own_released s) + own_handed s)"

section \<open>Unique owners\<close>

text \<open>The laws of a class: \<open>held\<close> is what a handle owns. Then every program settles up.\<close>

locale unique_owner =
  fixes C :: "('r, 'h, 'f, 'q) handle_class"
    and held :: "'h \<Rightarrow> 'q multiset"
  assumes construct_held: "held (hc_construct C r) = hc_takes C r"
    and destroy_held: "mset (hc_destroy C h) = held h"
    and move_held: "held (fst (hc_move C h)) + held (snd (hc_move C h)) = held h"
    and assign_held: "mset (fst (hc_assign C False h g)) + held (fst (snd (hc_assign C False h g))) + held (snd (snd (hc_assign C False h g))) = held h + held g"
    and assign_same: "mset (fst (hc_assign C True h h)) + held (fst (snd (hc_assign C True h h))) = held h"
    and call_held: "mset (fst (hc_call C f h)) + fst (snd (hc_call C f h)) + held (snd (snd (hc_call C f h))) = held h + hc_gains C f"

definition held_all :: "('h \<Rightarrow> 'q multiset) \<Rightarrow> (nat \<times> 'h) list \<Rightarrow> 'q multiset" where
  "held_all held vs = sum_list (map (held \<circ> snd) vs)"

lemma held_all_simps [simp]:
  "held_all held [] = {#}" "held_all held (v # vs) = held (snd v) + held_all held vs"
  by (simp_all add: held_all_def)

lemma put_keys [simp]: "map fst (own_put x h vs) = map fst vs"
  by (induction vs) (auto simp: own_put_def)

lemma put_absent: "x \<notin> fst ` set vs \<Longrightarrow> own_put x h vs = vs"
  by (induction vs) (auto simp: own_put_def)

lemma put_map_of: "map_of (own_put x h vs) y = (if y = x \<and> map_of vs x \<noteq> None then Some h else map_of vs y)"
  by (induction vs) (auto simp: own_put_def)

lemma held_put:
  "distinct (map fst vs) \<Longrightarrow> map_of vs x = Some g \<Longrightarrow> held_all held (own_put x h vs) + held g = held_all held vs + held h"
proof (induction vs)
  case (Cons v vs)
  show ?case
  proof (cases "fst v = x")
    case True
    then have "own_put x h vs = vs" using Cons.prems(1) True by (intro put_absent) auto
    then show ?thesis using True Cons.prems(2) by (cases v) (auto simp: own_put_def)
  next
    case False
    have "held_all held (own_put x h (v # vs)) = held (snd v) + held_all held (own_put x h vs)"
      using False by (cases v) (simp add: own_put_def)
    moreover have "held_all held (own_put x h vs) + held g = held_all held vs + held h"
      using False Cons by (cases v) simp
    ultimately show ?thesis by (simp add: union_assoc)
  qed
qed simp

lemma held_drop:
  "distinct (map fst vs) \<Longrightarrow> map_of vs x = Some g \<Longrightarrow> held_all held (filter (\<lambda>v. fst v \<noteq> x) vs) + held g = held_all held vs"
proof (induction vs)
  case (Cons v vs)
  show ?case
  proof (cases "fst v = x")
    case True
    then have "filter (\<lambda>v. fst v \<noteq> x) vs = vs" using Cons.prems(1) True by (intro filter_True) (auto simp: image_iff)
    then show ?thesis using True Cons.prems(2) by (cases v) auto
  qed (use Cons in \<open>cases v; auto simp: union_assoc\<close>)
qed simp

lemma exchanged:
  fixes A B C g h g' h' r :: "'q multiset"
  assumes "B + h = A + h'" "C + g = B + g'" "g + h = r + g' + h'"
  shows "C + r = A"
proof -
  have "(C + r) + (g' + h') = C + g + h" using assms(3) by (simp add: ac_simps)
  also have "\<dots> = A + h' + g'" using assms(1,2) by (simp add: ac_simps)
  finally show ?thesis by (simp add: ac_simps)
qed

lemma moved_on:
  fixes A B h h' p :: "'q multiset"
  assumes "B + h = A + h'" "p + h' = h"
  shows "p + B = A"
proof -
  have "(p + B) + h = A + (p + h')" using assms(1) by (simp add: ac_simps)
  then show ?thesis using assms(2) by simp
qed

lemma put_put: "own_put x g (own_put x h vs) = own_put x g vs"
  by (induction vs) (auto simp: own_put_def)

context unique_owner begin

definition own_inv where
  "own_inv s \<longleftrightarrow> distinct (map fst (own_vars s))
     \<and> own_taken s = mset (own_released s) + own_handed s + held_all held (own_vars s)"

lemma owned_move: assumes inv: "own_inv s" shows "own_inv (own_step C (Own_Move x y) s)"
proof (cases "map_of (own_vars s) y")
  case (Some h)
  have "held_all held (own_put y (snd (hc_move C h)) (own_vars s)) + held h = held_all held (own_vars s) + held (snd (hc_move C h))"
    using held_put [OF _ Some] inv by (simp add: own_inv_def)
  then have "held (fst (hc_move C h)) + held_all held (own_put y (snd (hc_move C h)) (own_vars s)) = held_all held (own_vars s)"
    by (rule moved_on [OF _ move_held])
  then show ?thesis using inv Some by (auto simp: own_inv_def own_step_def)
qed (use inv in \<open>simp add: own_step_def\<close>)

lemma owned_assign: assumes inv: "own_inv s" shows "own_inv (own_step C (Own_Assign x y) s)"
proof (cases "map_of (own_vars s) x \<noteq> None \<and> map_of (own_vars s) y \<noteq> None")
  case True
  then obtain g h where gh: "map_of (own_vars s) x = Some g" "map_of (own_vars s) y = Some h" by auto
  obtain rs g' h' where a: "hc_assign C (x = y) g h = (rs, g', h')" by (cases "hc_assign C (x = y) g h")
  have d: "distinct (map fst (own_vars s))" using inv by (simp add: own_inv_def)
  have "held_all held (own_put x g' (own_put y h' (own_vars s))) + mset rs = held_all held (own_vars s)"
  proof (cases "x = y")
    case True
    then have "held g = mset rs + held g'" using assign_same [of g] a gh by simp
    then have "(held_all held (own_put x g' (own_vars s)) + mset rs) + held g' = held_all held (own_vars s) + held g'"
      using held_put [OF d gh(1), of held g'] by (simp add: ac_simps)
    then show ?thesis using True by (simp add: put_put)
  next
    case False
    have "held_all held (own_put y h' (own_vars s)) + held h = held_all held (own_vars s) + held h'"
      using held_put [OF d gh(2)] .
    moreover have "held_all held (own_put x g' (own_put y h' (own_vars s))) + held g
        = held_all held (own_put y h' (own_vars s)) + held g'"
    proof (rule held_put)
      show "map_of (own_put y h' (own_vars s)) x = Some g" using gh False by (simp add: put_map_of)
    qed (use d in simp)
    moreover have "held g + held h = mset rs + held g' + held h'" using assign_held [of g h] a False by simp
    ultimately show ?thesis by (rule exchanged)
  qed
  then show ?thesis using inv gh a
    by (simp add: own_inv_def own_step_def) (metis add.assoc add.commute)
qed (use inv in \<open>auto simp: own_step_def split: option.split\<close>)

lemma owned_call: assumes inv: "own_inv s" shows "own_inv (own_step C (Own_Call x f) s)"
proof (cases "map_of (own_vars s) x")
  case (Some h)
  obtain rs gs h' where c: "hc_call C f h = (rs, gs, h')" by (cases "hc_call C f h")
  have "held_all held (own_put x h' (own_vars s)) + held h = held_all held (own_vars s) + held h'"
    using held_put [OF _ Some] inv by (simp add: own_inv_def)
  moreover have "mset rs + gs + held h' = held h + hc_gains C f" using call_held [of f h] c by simp
  ultimately have "(held_all held (own_put x h' (own_vars s)) + mset rs + gs) + held h'
      = (held_all held (own_vars s) + hc_gains C f) + held h'"
    by (metis (no_types, lifting) add.assoc add.commute)
  then have "held_all held (own_put x h' (own_vars s)) + mset rs + gs = held_all held (own_vars s) + hc_gains C f"
    by simp
  then show ?thesis using inv Some c
    by (simp add: own_inv_def own_step_def) (metis (no_types, lifting) add.assoc add.commute)
qed (use inv in \<open>simp add: own_step_def\<close>)

lemma owned_drop: assumes inv: "own_inv s" shows "own_inv (own_step C (Own_Drop x) s)"
proof (cases "map_of (own_vars s) x")
  case (Some h)
  then show ?thesis
    using inv held_drop [of "own_vars s" x h held] destroy_held [of h]
    by (auto simp: own_inv_def own_step_def distinct_map_filter ac_simps)
qed (use inv in \<open>simp add: own_step_def\<close>)

lemma own_inv_step: "own_inv s \<Longrightarrow> own_inv (own_step C c s)"
  using owned_move owned_assign owned_call owned_drop
  by (cases c) (auto simp: own_inv_def own_step_def construct_held ac_simps)

lemma own_inv_run: "own_inv (own_run C cs)"
proof -
  have "own_inv (fold (own_step C) cs s)" if "own_inv s" for s
    using that by (induction cs arbitrary: s) (simp_all add: own_inv_step)
  then show ?thesis by (simp add: own_run_def own_start_def own_inv_def)
qed

lemma destroys_held: "mset (concat (map (hc_destroy C \<circ> snd) vs)) = held_all held vs"
  by (induction vs) (simp_all add: destroy_held)

lemma all_settled: "settles_up C cs"
  using own_inv_run [of cs] by (simp add: settles_up_def own_end_def own_inv_def destroys_held ac_simps)

end


section \<open>LLVMResourceHandle\<close>

text \<open>A cleanup is a number; calling it with the pointer is the pair of both.\<close>

record resource_handle =
  rh_ptr :: nat
  rh_cleanup :: "nat option"

definition new_resource :: "nat \<times> nat option \<Rightarrow> resource_handle" where
  "new_resource pc = \<lparr>rh_ptr = fst pc, rh_cleanup = snd pc\<rparr>"

definition no_resource :: resource_handle where
  "no_resource = \<lparr>rh_ptr = 0, rh_cleanup = None\<rparr>"

definition rh_destroy :: "resource_handle \<Rightarrow> (nat \<times> nat) list" where
  "rh_destroy h = (case rh_cleanup h of Some c \<Rightarrow> if rh_ptr h \<noteq> 0 then [(c, rh_ptr h)] else [] | None \<Rightarrow> [])"

definition rh_move :: "resource_handle \<Rightarrow> resource_handle \<times> resource_handle" where
  "rh_move h = (h, h\<lparr>rh_ptr := 0, rh_cleanup := None\<rparr>)"

definition rh_reset :: "nat \<Rightarrow> nat option \<Rightarrow> resource_handle \<Rightarrow> (nat \<times> nat) list \<times> resource_handle" where
  "rh_reset p c h = (rh_destroy h, h\<lparr>rh_ptr := p, rh_cleanup := c\<rparr>)"

text \<open>The first argument of an assignment: is it the same object?\<close>

definition rh_assign :: "bool \<Rightarrow> resource_handle \<Rightarrow> resource_handle \<Rightarrow> (nat \<times> nat) list \<times> resource_handle \<times> resource_handle" where
  "rh_assign same h g =
     (if same then ([], h, g)
      else let (rs, h1) = rh_reset 0 None h
        in (rs, h1\<lparr>rh_ptr := rh_ptr g, rh_cleanup := rh_cleanup g\<rparr>, g\<lparr>rh_ptr := 0, rh_cleanup := None\<rparr>))"

definition rh_release :: "resource_handle \<Rightarrow> nat \<times> resource_handle" where
  "rh_release h = (rh_ptr h, h\<lparr>rh_ptr := 0, rh_cleanup := None\<rparr>)"

definition rh_valid :: "resource_handle \<Rightarrow> bool" where
  "rh_valid h \<longleftrightarrow> rh_ptr h \<noteq> 0"

section \<open>NotNull\<close>

text \<open>None is the exception of the constructor.\<close>

definition new_NotNull :: "nat \<Rightarrow> nat option" where
  "new_NotNull p = (if p = 0 then None else Some p)"

section \<open>ScopeGuard\<close>

record scope_guard =
  sg_cleanup :: "nat option"
  sg_dismissed :: bool

definition makeScopeGuard :: "nat option \<Rightarrow> scope_guard" where
  "makeScopeGuard c = \<lparr>sg_cleanup = c, sg_dismissed = False\<rparr>"

definition sg_destroy :: "scope_guard \<Rightarrow> nat list" where
  "sg_destroy g = (if \<not> sg_dismissed g then (case sg_cleanup g of Some c \<Rightarrow> [c] | None \<Rightarrow> []) else [])"

definition sg_dismiss :: "scope_guard \<Rightarrow> scope_guard" where
  "sg_dismiss g = g\<lparr>sg_dismissed := True\<rparr>"

definition sg_move :: "scope_guard \<Rightarrow> scope_guard \<times> scope_guard" where
  "sg_move g = (g, g\<lparr>sg_cleanup := None, sg_dismissed := True\<rparr>)"

definition sg_assign :: "bool \<Rightarrow> scope_guard \<Rightarrow> scope_guard \<Rightarrow> nat list \<times> scope_guard \<times> scope_guard" where
  "sg_assign same h g =
     (if same then ([], h, g)
      else (if \<not> sg_dismissed h then (case sg_cleanup h of Some c \<Rightarrow> [c] | None \<Rightarrow> []) else [],
            g, g\<lparr>sg_cleanup := None, sg_dismissed := True\<rparr>))"

section \<open>ResourcePool\<close>

text \<open>The objects that the pool owns, in the order of their allocation.\<close>

definition rp_allocate :: "nat \<Rightarrow> nat list \<Rightarrow> nat list" where
  "rp_allocate a p = p @ [a]"

definition rp_clear :: "nat list \<Rightarrow> nat list \<times> nat list" where
  "rp_clear p = (p, [])"

definition rp_size :: "nat list \<Rightarrow> nat" where
  "rp_size p = length p"

definition rp_empty :: "nat list \<Rightarrow> bool" where
  "rp_empty p \<longleftrightarrow> p = []"

definition rp_destroy :: "nat list \<Rightarrow> nat list" where
  "rp_destroy p = fst (rp_clear p)"

definition rp_move :: "nat list \<Rightarrow> nat list \<times> nat list" where
  "rp_move p = (p, [])"

text \<open>The assignment is the default one, of the vectors. What it does to a vector that is assigned to itself is up
  to the library: it keeps the elements or destroys them.\<close>

definition rp_assign :: "bool \<Rightarrow> bool \<Rightarrow> nat list \<Rightarrow> nat list \<Rightarrow> nat list \<times> nat list \<times> nat list" where
  "rp_assign keeps same p q = (if same then (if keeps then ([], p, q) else (p, [], [])) else (p, q, []))"

section \<open>FileHandle and LibraryHandle\<close>

text \<open>A file or library is a number; closing it is the number.\<close>

definition fh_open :: "(string \<Rightarrow> string \<Rightarrow> nat) \<Rightarrow> string \<Rightarrow> string \<Rightarrow> nat" where
  "fh_open opens path mode = opens path mode"

definition fh_destroy :: "nat \<Rightarrow> nat list" where
  "fh_destroy f = (if f \<noteq> 0 then [f] else [])"

definition fh_move :: "nat \<Rightarrow> nat \<times> nat" where
  "fh_move f = (f, 0)"

definition fh_assign :: "bool \<Rightarrow> nat \<Rightarrow> nat \<Rightarrow> nat list \<times> nat \<times> nat" where
  "fh_assign same f g = (if same then ([], f, g) else (if f \<noteq> 0 then [f] else [], g, 0))"

definition fh_close :: "nat \<Rightarrow> nat list \<times> nat" where
  "fh_close f = (if f \<noteq> 0 then ([f], 0) else ([], f))"

definition library_close :: "nat \<Rightarrow> nat list \<times> nat" where
  "library_close h = (if h \<noteq> 0 then ([h], 0) else ([], h))"

definition library_destroy :: "nat \<Rightarrow> nat list" where
  "library_destroy h = fst (library_close h)"

definition library_move :: "nat \<Rightarrow> nat \<times> nat" where
  "library_move h = (h, 0)"

definition library_assign :: "bool \<Rightarrow> nat \<Rightarrow> nat \<Rightarrow> nat list \<times> nat \<times> nat" where
  "library_assign same h g = (if same then ([], h, g) else let (rs, h1) = library_close h in (rs, g, 0))"

definition library_getSymbol :: "(nat \<Rightarrow> string \<Rightarrow> nat) \<Rightarrow> nat \<Rightarrow> string \<Rightarrow> nat" where
  "library_getSymbol dl h n = (if h = 0 then 0 else dl h n)"

section \<open>Handles of LLVM objects\<close>

text \<open>\<open>LLVMValueHandle\<close> and \<open>LLVMFunctionHandle\<close> refer, \<open>LLVMModuleHandle\<close> owns its module.\<close>

definition value_move :: "nat \<Rightarrow> nat \<times> nat" where
  "value_move v = (v, 0)"

definition value_assign :: "bool \<Rightarrow> nat \<Rightarrow> nat \<Rightarrow> nat \<times> nat" where
  "value_assign same v w = (if same then (v, w) else (w, 0))"

definition value_release :: "nat \<Rightarrow> nat \<times> nat" where
  "value_release v = (v, 0)"

definition value_reset :: "nat \<Rightarrow> nat \<Rightarrow> nat" where
  "value_reset w v = w"

definition function_cleanup :: "nat \<Rightarrow> nat" where
  "function_cleanup f = 0"

definition function_move :: "nat \<Rightarrow> nat \<times> nat" where
  "function_move f = (f, 0)"

definition function_assign :: "bool \<Rightarrow> nat \<Rightarrow> nat \<Rightarrow> nat \<times> nat" where
  "function_assign same f g = (if same then (f, g) else let f1 = function_cleanup f in (g, 0))"

definition function_release :: "nat \<Rightarrow> nat \<times> nat" where
  "function_release f = (f, 0)"

definition function_reset :: "nat \<Rightarrow> nat \<Rightarrow> nat" where
  "function_reset g f = (let f1 = function_cleanup f in g)"

definition module_destroy :: "nat \<Rightarrow> nat list" where
  "module_destroy m = (if m \<noteq> 0 then [m] else [])"

definition module_move :: "nat \<Rightarrow> nat \<times> nat" where
  "module_move m = (m, 0)"

definition module_assign :: "bool \<Rightarrow> nat \<Rightarrow> nat \<Rightarrow> nat list \<times> nat \<times> nat" where
  "module_assign same m k = (if same then ([], m, k) else (module_destroy m, k, 0))"

definition module_release :: "nat \<Rightarrow> nat \<times> nat" where
  "module_release m = (m, 0)"

definition module_reset :: "nat \<Rightarrow> nat \<Rightarrow> nat list \<times> nat" where
  "module_reset k m = (module_destroy m, k)"

section \<open>No resource is released twice or lost\<close>

text \<open>Null is no resource.\<close>

definition resource :: "nat \<Rightarrow> nat multiset" where
  "resource a = (if a = 0 then {#} else {#a#})"

text \<open>A pointer with its cleanup. \<open>release\<close> hands the pointer out; its cleanup is then not called.\<close>

datatype rh_fun = Rh_Reset nat "nat option" | Rh_Release

definition cleanup_of :: "nat \<Rightarrow> nat option \<Rightarrow> (nat \<times> nat) multiset" where
  "cleanup_of p c = (case c of None \<Rightarrow> {#} | Some f \<Rightarrow> image_mset (Pair f) (resource p))"

definition rh_class :: "(nat \<times> nat option, resource_handle, rh_fun, nat \<times> nat) handle_class" where
  "rh_class = \<lparr>hc_takes = (\<lambda>(p, c). cleanup_of p c), hc_construct = new_resource, hc_destroy = rh_destroy, hc_move = rh_move, hc_assign = rh_assign,
     hc_gains = (\<lambda>f. case f of Rh_Reset p c \<Rightarrow> cleanup_of p c | Rh_Release \<Rightarrow> {#}),
     hc_call = (\<lambda>f h. case f of
         Rh_Reset p c \<Rightarrow> (let (rs, h') = rh_reset p c h in (rs, {#}, h'))
       | Rh_Release \<Rightarrow> (let (p, h') = rh_release h in ([], cleanup_of p (rh_cleanup h), h')))\<rparr>"

text \<open>The resource of a guard is its cleanup. \<open>dismiss\<close> cancels it.\<close>

datatype sg_fun = Sg_Dismiss

definition sg_owed :: "scope_guard \<Rightarrow> nat multiset" where
  "sg_owed g = (if sg_dismissed g then {#} else mset_set (set_option (sg_cleanup g)))"

definition sg_class :: "(nat option, scope_guard, sg_fun, nat) handle_class" where
  "sg_class = \<lparr>hc_takes = (\<lambda>c. mset_set (set_option c)), hc_construct = makeScopeGuard, hc_destroy = sg_destroy, hc_move = sg_move, hc_assign = sg_assign,
     hc_gains = (\<lambda>f. {#}), hc_call = (\<lambda>f g. ([], sg_owed g, sg_dismiss g))\<rparr>"

datatype rp_fun = Rp_Allocate nat | Rp_Clear

definition rp_class :: "bool \<Rightarrow> (unit, nat list, rp_fun, nat) handle_class" where
  "rp_class keeps = \<lparr>hc_takes = (\<lambda>u. {#}), hc_construct = (\<lambda>u. []), hc_destroy = rp_destroy, hc_move = rp_move, hc_assign = rp_assign keeps,
     hc_gains = (\<lambda>f. case f of Rp_Allocate a \<Rightarrow> {#a#} | Rp_Clear \<Rightarrow> {#}),
     hc_call = (\<lambda>f p. case f of
         Rp_Allocate a \<Rightarrow> ([], {#}, rp_allocate a p)
       | Rp_Clear \<Rightarrow> (let (rs, p') = rp_clear p in (rs, {#}, p')))\<rparr>"

datatype fh_new = Fh_File nat | Fh_Path string string
datatype closing_fun = Close_It

definition fh_class :: "(string \<Rightarrow> string \<Rightarrow> nat) \<Rightarrow> (fh_new, nat, closing_fun, nat) handle_class" where
  "fh_class opens =
     \<lparr>hc_takes = (\<lambda>r. case r of Fh_File f \<Rightarrow> resource f | Fh_Path path mode \<Rightarrow> resource (opens path mode)),
      hc_construct = (\<lambda>r. case r of Fh_File f \<Rightarrow> f | Fh_Path path mode \<Rightarrow> fh_open opens path mode),
      hc_destroy = fh_destroy, hc_move = fh_move, hc_assign = fh_assign,
      hc_gains = (\<lambda>f. {#}), hc_call = (\<lambda>f h. let (rs, h') = fh_close h in (rs, {#}, h'))\<rparr>"

definition library_class :: "(nat, nat, closing_fun, nat) handle_class" where
  "library_class = \<lparr>hc_takes = resource, hc_construct = (\<lambda>h. h), hc_destroy = library_destroy, hc_move = library_move, hc_assign = library_assign,
     hc_gains = (\<lambda>f. {#}), hc_call = (\<lambda>f h. let (rs, h') = library_close h in (rs, {#}, h'))\<rparr>"

datatype md_fun = Md_Reset nat | Md_Release

definition module_class :: "(nat, nat, md_fun, nat) handle_class" where
  "module_class = \<lparr>hc_takes = resource, hc_construct = (\<lambda>m. m), hc_destroy = module_destroy, hc_move = module_move, hc_assign = module_assign,
     hc_gains = (\<lambda>f. case f of Md_Reset k \<Rightarrow> resource k | Md_Release \<Rightarrow> {#}),
     hc_call = (\<lambda>f m. case f of
         Md_Reset k \<Rightarrow> (let (rs, m') = module_reset k m in (rs, {#}, m'))
       | Md_Release \<Rightarrow> (let (k, m') = module_release m in ([], resource k, m')))\<rparr>"

interpretation rh: unique_owner rh_class "\<lambda>h. cleanup_of (rh_ptr h) (rh_cleanup h)"
  by unfold_locales (auto simp: rh_class_def new_resource_def rh_destroy_def rh_move_def rh_assign_def rh_reset_def rh_release_def
    cleanup_of_def resource_def Let_def split: option.splits rh_fun.splits)

interpretation sg: unique_owner sg_class sg_owed
  by unfold_locales (auto simp: sg_class_def makeScopeGuard_def sg_destroy_def sg_move_def sg_assign_def sg_dismiss_def sg_owed_def
    split: option.splits)

interpretation rp: unique_owner "rp_class keeps" mset for keeps
  by unfold_locales (auto simp: rp_class_def rp_destroy_def rp_move_def rp_assign_def rp_clear_def rp_allocate_def split: rp_fun.splits)

interpretation fh: unique_owner "fh_class opens" resource for opens
  by unfold_locales (auto simp: fh_class_def fh_open_def fh_destroy_def fh_move_def fh_assign_def fh_close_def resource_def
    split: fh_new.splits)

interpretation lib: unique_owner library_class resource
  by unfold_locales (auto simp: library_class_def library_destroy_def library_move_def library_assign_def library_close_def resource_def)

interpretation md: unique_owner module_class resource
  by unfold_locales (auto simp: module_class_def module_destroy_def module_move_def module_assign_def module_reset_def module_release_def
    resource_def split: md_fun.splits)

text \<open>C34: in every program that constructs, moves, assigns (also to itself), drops and calls the member functions of
  handles, until the end of its scope, each resource that the constructors, \<open>reset\<close> and \<open>allocate\<close> got was either
  released exactly once or handed out by \<open>release\<close> (cancelled by \<open>dismiss\<close>): for resource handles, scope guards,
  pools, files, libraries and modules.\<close>

theorem handles_release_once:
  "settles_up rh_class cs1 \<and> settles_up sg_class cs2 \<and> settles_up (rp_class keeps) cs3 \<and> settles_up (fh_class opens) cs4
   \<and> settles_up library_class cs5 \<and> settles_up module_class cs6"
  by (intro conjI rh.all_settled sg.all_settled rp.all_settled fh.all_settled lib.all_settled md.all_settled)

section \<open>CheckedPointer\<close>

text \<open>The distance from the base, and the number of elements. An offset is a signed 64-bit number.\<close>

record checked_pointer =
  cp_offset :: int
  cp_size :: "64 word"

datatype cp_result = Cp_Throws | Cp_Undefined | Cp_Moved checked_pointer

definition new_CheckedPointer :: "64 word \<Rightarrow> checked_pointer" where
  "new_CheckedPointer n = \<lparr>cp_offset = 0, cp_size = n\<rparr>"

text \<open>\<open>operator[]\<close>: the distance from the base of the element that is read, None if it throws.\<close>

definition cp_index :: "64 word \<Rightarrow> checked_pointer \<Rightarrow> int option" where
  "cp_index i p = (if i \<ge> cp_size p then None else Some (cp_offset p + uint i))"

definition cp_add :: "64 word \<Rightarrow> checked_pointer \<Rightarrow> cp_result" where
  "cp_add k p =
     (if sint k = - (2 ^ 63) then Cp_Undefined
      else if sint k < 0 \<and> - k > word_of_int (cp_offset p) then Cp_Throws
      else if sint k > 0 \<and> k \<ge> cp_size p - word_of_int (cp_offset p) then Cp_Throws
      else Cp_Moved (p\<lparr>cp_offset := cp_offset p + sint k\<rparr>))"

definition cp_remaining :: "checked_pointer \<Rightarrow> 64 word" where
  "cp_remaining p = cp_size p - word_of_int (cp_offset p)"

primrec cp_moves :: "64 word list \<Rightarrow> checked_pointer \<Rightarrow> cp_result" where
  "cp_moves [] p = Cp_Moved p"
| "cp_moves (k # ks) p = (case cp_add k p of Cp_Moved q \<Rightarrow> cp_moves ks q | r \<Rightarrow> r)"

definition cp_inside :: "checked_pointer \<Rightarrow> bool" where
  "cp_inside p \<longleftrightarrow> 0 \<le> cp_offset p \<and> cp_offset p < uint (cp_size p)"

lemma uint_minus_sint:
  fixes k :: "64 word"
  assumes "sint k < 0" "sint k \<noteq> - (2 ^ 63)"
  shows "uint (- k) = - sint k"
proof -
  have "- k = word_of_int (- sint k)" by simp
  then have "uint (- k) = (- sint k) mod 2 ^ LENGTH(64)" by (metis uint_word_of_int)
  moreover have "0 \<le> - sint k" "- sint k < 2 ^ 64" using assms(1) sint_ge [of k] by simp_all
  ultimately show ?thesis by simp
qed

lemma uint_sint:
  fixes k :: "64 word"
  assumes "0 \<le> sint k"
  shows "uint k = sint k"
proof -
  have "k = word_of_int (sint k)" by simp
  then have "uint k = sint k mod 2 ^ LENGTH(64)" by (metis uint_word_of_int)
  moreover have "sint k < 2 ^ 64" using sint_lt [of k] by simp
  ultimately show ?thesis using assms by simp
qed

lemma inside_add: "cp_inside p \<Longrightarrow> cp_add k p = Cp_Moved q \<Longrightarrow> cp_inside q \<and> cp_size q = cp_size p"
proof -
  assume p: "cp_inside p" "cp_add k p = Cp_Moved q"
  let ?w = "word_of_int (cp_offset p) :: 64 word"
  have q: "q = p\<lparr>cp_offset := cp_offset p + sint k\<rparr>" and min: "sint k \<noteq> - (2 ^ 63)"
    and neg: "sint k < 0 \<Longrightarrow> \<not> - k > ?w" and pos: "0 < sint k \<Longrightarrow> \<not> cp_size p - ?w \<le> k"
    using p(2) by (auto simp: cp_add_def split: if_splits)
  have w: "uint ?w = cp_offset p"
    using p(1) uint_lt2p [of "cp_size p"] by (simp add: cp_inside_def uint_word_of_int)
  have "uint (cp_size p - ?w) = uint (cp_size p) - cp_offset p"
    using p(1) w uint_sub_lem [of ?w "cp_size p"] by (simp add: cp_inside_def)
  then have "sint k < uint (cp_size p) - cp_offset p" if "0 < sint k"
    using pos [OF that] uint_sint [of k] that by (simp add: word_le_def)
  moreover have "- sint k \<le> cp_offset p" if "sint k < 0"
    using neg [OF that] uint_minus_sint [OF that min] w by (simp add: word_less_def)
  ultimately show ?thesis using p(1) by (cases "sint k" "0 :: int" rule: linorder_cases) (auto simp: q cp_inside_def)
qed

lemma inside_moves: "cp_inside p \<Longrightarrow> cp_moves ks p = Cp_Moved q \<Longrightarrow> cp_inside q \<and> cp_size q = cp_size p"
  using inside_add by (induction ks arbitrary: p) (fastforce split: cp_result.splits)+

text \<open>C35: moving a checked pointer keeps it inside of its elements, or throws, but the index is compared with the
  number of all elements: reads outside are possible exactly after the pointer was moved off its base.\<close>

theorem checked_pointer_bounds:
  assumes "0 < n" and "cp_moves ks (new_CheckedPointer n) = Cp_Moved p"
  shows "cp_inside p \<and> cp_size p = n \<and> ((\<exists>i a. cp_index i p = Some a \<and> uint n \<le> a) \<longleftrightarrow> cp_offset p \<noteq> 0)"
proof -
  have "cp_inside (new_CheckedPointer n)" using assms(1) by (simp add: cp_inside_def new_CheckedPointer_def word_less_def)
  then have p: "cp_inside p" "cp_size p = n"
    using inside_moves assms(2) by (auto simp: new_CheckedPointer_def)
  have "\<exists>i a. cp_index i p = Some a \<and> uint n \<le> a" if "cp_offset p \<noteq> 0"
  proof (intro exI conjI)
    have last: "uint (n - 1) = uint n - 1"
      using assms(1) uint_minus_simple_alt [of 1 n] by (simp add: word_le_def word_less_def)
    then have less: "n - 1 < n" by (simp add: word_less_def)
    show "cp_index (n - 1) p = Some (cp_offset p + uint (n - 1))" using less p by (simp add: cp_index_def)
    show "uint n \<le> cp_offset p + uint (n - 1)" using that p last by (simp add: cp_inside_def)
  qed
  moreover have "a < uint n" if "cp_index i p = Some a" "cp_offset p = 0" for i a
    using that p by (auto simp: cp_index_def word_le_def split: if_splits)
  ultimately show ?thesis using p by force
qed

theorem checked_pointer_bounds_witness:
  "\<exists>i a. cp_index i \<lparr>cp_offset = 3, cp_size = 4\<rparr> = Some a \<and> uint (4 :: 64 word) \<le> a"
proof -
  have m: "cp_moves [3] (new_CheckedPointer 4) = Cp_Moved \<lparr>cp_offset = 3, cp_size = 4\<rparr>"
    by (simp add: new_CheckedPointer_def cp_add_def)
  show ?thesis using checked_pointer_bounds [OF _ m] by simp
qed

section \<open>ManagedBuffer\<close>

record managed_buffer =
  mb_data :: "8 word list option"
  mb_size :: nat
  mb_capacity :: nat

definition new_buffer :: "nat \<Rightarrow> managed_buffer" where
  "new_buffer n = \<lparr>mb_data = (if n > 0 then Some (replicate n 0) else None), mb_size = n, mb_capacity = n\<rparr>"

text \<open>The constructor that copies: from \<open>n\<close> bytes, or from null.\<close>

definition buffer_of :: "8 word list option \<Rightarrow> nat \<Rightarrow> managed_buffer" where
  "buffer_of bs n = \<lparr>mb_data = (if n > 0 then map_option (take n) bs else None), mb_size = n, mb_capacity = n\<rparr>"

definition buffer_move :: "managed_buffer \<Rightarrow> managed_buffer \<times> managed_buffer" where
  "buffer_move b = (b, \<lparr>mb_data = None, mb_size = 0, mb_capacity = 0\<rparr>)"

definition grow :: "nat \<Rightarrow> managed_buffer \<Rightarrow> managed_buffer" where
  "grow n b =
     (if n > mb_capacity b then
        b\<lparr>mb_data := Some (case mb_data b of
              None \<Rightarrow> replicate n 0
            | Some xs \<Rightarrow> take (mb_size b) xs @ replicate (n - mb_size b) 0),
          mb_capacity := n\<rparr>
      else b)"

definition buffer_resize :: "nat \<Rightarrow> managed_buffer \<Rightarrow> managed_buffer" where
  "buffer_resize n b = (grow n b)\<lparr>mb_size := n\<rparr>"

definition buffer_reserve :: "nat \<Rightarrow> managed_buffer \<Rightarrow> managed_buffer" where
  "buffer_reserve n b = grow n b"

definition buffer_clear :: "managed_buffer \<Rightarrow> managed_buffer" where
  "buffer_clear b = b\<lparr>mb_size := 0\<rparr>"

definition buffer_empty :: "managed_buffer \<Rightarrow> bool" where
  "buffer_empty b \<longleftrightarrow> mb_size b = 0"

definition buffer_ok :: "managed_buffer \<Rightarrow> bool" where
  "buffer_ok b \<longleftrightarrow> mb_size b \<le> mb_capacity b
     \<and> (case mb_data b of None \<Rightarrow> mb_capacity b = 0 | Some xs \<Rightarrow> length xs = mb_capacity b)"

definition buffer_bytes :: "managed_buffer \<Rightarrow> 8 word list" where
  "buffer_bytes b = (case mb_data b of None \<Rightarrow> [] | Some xs \<Rightarrow> xs)"

definition buffer_contents :: "managed_buffer \<Rightarrow> 8 word list" where
  "buffer_contents b = take (mb_size b) (buffer_bytes b)"

text \<open>On a well-formed buffer every operation keeps it well formed; reserving keeps the contents, and resizing
  keeps their beginning and fills up with zeros when it allocates, otherwise with the bytes that were there
  before a shrinking.\<close>

theorem buffer_operations:
  assumes "buffer_ok b"
  shows "buffer_ok (buffer_resize n b) \<and> buffer_ok (buffer_reserve n b) \<and> buffer_ok (buffer_clear b)
    \<and> length (buffer_contents b) = mb_size b \<and> buffer_contents (buffer_reserve n b) = buffer_contents b
    \<and> buffer_contents (buffer_resize n b) = take n (buffer_contents b @
        (if mb_capacity b < n then replicate (n - mb_size b) 0 else drop (mb_size b) (buffer_bytes b)))"
proof (cases "mb_data b")
  case None
  then show ?thesis using assms
    by (auto simp: buffer_ok_def buffer_resize_def buffer_reserve_def buffer_clear_def grow_def buffer_contents_def buffer_bytes_def)
next
  case (Some xs)
  then show ?thesis using assms
    by (auto simp: buffer_ok_def buffer_resize_def buffer_reserve_def buffer_clear_def grow_def buffer_contents_def
        buffer_bytes_def min_def take_add [symmetric])
qed

theorem buffer_operations_witness:
  "buffer_contents (buffer_resize 2 (buffer_clear (buffer_of (Some [7, 8]) 2))) = [7, 8]"
  using buffer_operations [of "buffer_clear (buffer_of (Some [7, 8]) 2)" 2]
  by (simp add: buffer_ok_def buffer_of_def buffer_clear_def buffer_contents_def buffer_bytes_def)

text \<open>A buffer that is made from null with a size claims bytes that it does not have.\<close>

theorem null_source_buffer: "0 < n \<Longrightarrow> \<not> buffer_ok (buffer_of None n) \<and> buffer_contents (buffer_of None n) = []"
  by (simp add: buffer_ok_def buffer_of_def buffer_contents_def buffer_bytes_def)

section \<open>ErrorInfo\<close>

datatype util_code =
    Success_Code | SyntaxError_Code | TypeError_Code | RuntimeError_Code | IOError_Code | MemoryError_Code
  | CompilationError_Code | LinkError_Code | InternalError_Code | Other_Code

record error_info =
  ei_code :: util_code
  ei_message :: string
  ei_location :: string

definition util_code_text :: "util_code \<Rightarrow> string" where
  "util_code_text c =
     (case c of
        Success_Code \<Rightarrow> ''SUCCESS'' | SyntaxError_Code \<Rightarrow> ''SYNTAX_ERROR'' | TypeError_Code \<Rightarrow> ''TYPE_ERROR''
      | RuntimeError_Code \<Rightarrow> ''RUNTIME_ERROR'' | IOError_Code \<Rightarrow> ''IO_ERROR'' | MemoryError_Code \<Rightarrow> ''MEMORY_ERROR''
      | CompilationError_Code \<Rightarrow> ''COMPILATION_ERROR'' | LinkError_Code \<Rightarrow> ''LINK_ERROR''
      | InternalError_Code \<Rightarrow> ''INTERNAL_ERROR'' | Other_Code \<Rightarrow> ''UNKNOWN'')"

definition error_info_text :: "error_info \<Rightarrow> string" where
  "error_info_text e =
     ''['' @ util_code_text (ei_code e) @ ''] '' @
     (if ei_location e \<noteq> [] then ei_location e @ '': '' else []) @ ei_message e"

end
