(* ===== verification/Tocin_Results.thy ===== *)
theory Tocin_Results
  imports Tocin_Prelude
begin

text \<open>
  The two pairs of option and result types: \<open>Option\<close> and \<open>Result\<close> of \<open>src/util/result.h\<close>, which wrap
  \<open>std::optional\<close> and \<open>std::variant\<close> and so are HOL's option and sum, and those of
  \<open>src/type/option_result_types.h\<close>, which keep a flag beside a value that always exists. A thrown
  exception is its message on the left of a sum. A function that is passed in returns. The member union of
  the second \<open>Result\<close> is for types that need no destructor; it is modelled as the values of both members.
  \<open>src/type/result.h\<close> has a third result.
\<close>

section \<open>util::Option\<close>

definition uo_unwrap :: "'a option \<Rightarrow> string + 'a" where
  "uo_unwrap v = (case v of None \<Rightarrow> Inl ''Option::unwrap() called on None value'' | Some x \<Rightarrow> Inr x)"

definition uo_expect :: "string \<Rightarrow> 'a option \<Rightarrow> string + 'a" where
  "uo_expect m v = (case v of None \<Rightarrow> Inl m | Some x \<Rightarrow> Inr x)"

definition uo_unwrapOr :: "'a \<Rightarrow> 'a option \<Rightarrow> 'a" where
  "uo_unwrapOr d v = (case v of None \<Rightarrow> d | Some x \<Rightarrow> x)"

definition uo_unwrapOrElse :: "(unit \<Rightarrow> 'a) \<Rightarrow> 'a option \<Rightarrow> 'a" where
  "uo_unwrapOrElse f v = (case v of None \<Rightarrow> f () | Some x \<Rightarrow> x)"

definition uo_map :: "('a \<Rightarrow> 'b) \<Rightarrow> 'a option \<Rightarrow> 'b option" where
  "uo_map f v = (case v of None \<Rightarrow> None | Some x \<Rightarrow> Some (f x))"

definition uo_andThen :: "('a \<Rightarrow> 'b option) \<Rightarrow> 'a option \<Rightarrow> 'b option" where
  "uo_andThen f v = (case v of None \<Rightarrow> None | Some x \<Rightarrow> f x)"

definition uo_filter :: "('a \<Rightarrow> bool) \<Rightarrow> 'a option \<Rightarrow> 'a option" where
  "uo_filter p v = (case v of None \<Rightarrow> None | Some x \<Rightarrow> if p x then v else None)"

section \<open>util::Result\<close>

definition ur_isOk :: "'e + 'a \<Rightarrow> bool" where
  "ur_isOk r = (case r of Inr x \<Rightarrow> True | Inl e \<Rightarrow> False)"

definition ur_isErr :: "'e + 'a \<Rightarrow> bool" where
  "ur_isErr r = (case r of Inr x \<Rightarrow> False | Inl e \<Rightarrow> True)"

definition ur_unwrap :: "'e + 'a \<Rightarrow> string + 'a" where
  "ur_unwrap r = (case r of Inl e \<Rightarrow> Inl ''Result::unwrap() called on Err value'' | Inr x \<Rightarrow> Inr x)"

definition ur_expect :: "string \<Rightarrow> 'e + 'a \<Rightarrow> string + 'a" where
  "ur_expect m r = (case r of Inl e \<Rightarrow> Inl m | Inr x \<Rightarrow> Inr x)"

definition ur_unwrapOr :: "'a \<Rightarrow> 'e + 'a \<Rightarrow> 'a" where
  "ur_unwrapOr d r = (case r of Inr x \<Rightarrow> x | Inl e \<Rightarrow> d)"

definition ur_unwrapOrElse :: "('e \<Rightarrow> 'a) \<Rightarrow> 'e + 'a \<Rightarrow> 'a" where
  "ur_unwrapOrElse f r = (case r of Inr x \<Rightarrow> x | Inl e \<Rightarrow> f e)"

definition ur_unwrapErr :: "'e + 'a \<Rightarrow> string + 'e" where
  "ur_unwrapErr r = (case r of Inr x \<Rightarrow> Inl ''Result::unwrapErr() called on Ok value'' | Inl e \<Rightarrow> Inr e)"

definition ur_map :: "('a \<Rightarrow> 'b) \<Rightarrow> 'e + 'a \<Rightarrow> 'e + 'b" where
  "ur_map f r = (case r of Inr x \<Rightarrow> Inr (f x) | Inl e \<Rightarrow> Inl e)"

definition ur_mapErr :: "('e \<Rightarrow> 'f) \<Rightarrow> 'e + 'a \<Rightarrow> 'f + 'a" where
  "ur_mapErr f r = (case r of Inl e \<Rightarrow> Inl (f e) | Inr x \<Rightarrow> Inr x)"

definition ur_andThen :: "('a \<Rightarrow> 'e + 'b) \<Rightarrow> 'e + 'a \<Rightarrow> 'e + 'b" where
  "ur_andThen f r = (case r of Inr x \<Rightarrow> f x | Inl e \<Rightarrow> Inl e)"

definition ur_orElse :: "('e \<Rightarrow> 'e + 'a) \<Rightarrow> 'e + 'a \<Rightarrow> 'e + 'a" where
  "ur_orElse f r = (case r of Inl e \<Rightarrow> f e | Inr x \<Rightarrow> r)"

definition ur_ok :: "'e + 'a \<Rightarrow> 'a option" where
  "ur_ok r = (case r of Inr x \<Rightarrow> Some x | Inl e \<Rightarrow> None)"

definition ur_err :: "'e + 'a \<Rightarrow> 'e option" where
  "ur_err r = (case r of Inl e \<Rightarrow> Some e | Inr x \<Rightarrow> None)"

section \<open>VoidResult and CompilerError\<close>

record 'e void_result =
  vr_isOk :: bool
  vr_error :: 'e

definition vr_Ok :: "'e \<Rightarrow> 'e void_result" where
  "vr_Ok dv = \<lparr>vr_isOk = True, vr_error = dv\<rparr>"

definition vr_Err :: "'e \<Rightarrow> 'e void_result" where
  "vr_Err e = \<lparr>vr_isOk = False, vr_error = e\<rparr>"

definition vr_unwrap :: "'e void_result \<Rightarrow> string + unit" where
  "vr_unwrap r = (if \<not> vr_isOk r then Inl ''VoidResult::unwrap() called on Err value'' else Inr ())"

definition vr_expect :: "string \<Rightarrow> 'e void_result \<Rightarrow> string + unit" where
  "vr_expect m r = (if \<not> vr_isOk r then Inl m else Inr ())"

definition vr_unwrapErr :: "'e void_result \<Rightarrow> string + 'e" where
  "vr_unwrapErr r = (if vr_isOk r then Inl ''VoidResult::unwrapErr() called on Ok value'' else Inr (vr_error r))"

definition vr_err :: "'e void_result \<Rightarrow> 'e option" where
  "vr_err r = (if \<not> vr_isOk r then Some (vr_error r) else None)"

record located_error =
  ce_message :: string
  ce_file :: string
  ce_line :: int
  ce_column :: int

definition located_error_text :: "located_error \<Rightarrow> string" where
  "located_error_text e =
     (if ce_file e = [] then ce_message e
      else ce_file e @ '':'' @ show_int (ce_line e) @ '':'' @ show_int (ce_column e) @ '': '' @ ce_message e)"

section \<open>type_checker::Option\<close>

record 'a flagged =
  fo_has :: bool
  fo_value :: 'a

definition fo_None :: "'a \<Rightarrow> 'a flagged" where
  "fo_None dv = \<lparr>fo_has = False, fo_value = dv\<rparr>"

definition fo_Some :: "'a \<Rightarrow> 'a flagged" where
  "fo_Some x = \<lparr>fo_has = True, fo_value = x\<rparr>"

text \<open>\<open>moved\<close>: what a moved value leaves behind.\<close>

definition fo_move :: "('a \<Rightarrow> 'a) \<Rightarrow> 'a flagged \<Rightarrow> 'a flagged \<times> 'a flagged" where
  "fo_move moved v = (v, \<lparr>fo_has = False, fo_value = moved (fo_value v)\<rparr>)"

definition fo_isNone :: "'a flagged \<Rightarrow> bool" where
  "fo_isNone v \<longleftrightarrow> \<not> fo_has v"

definition fo_unwrap :: "'a flagged \<Rightarrow> string + 'a" where
  "fo_unwrap v = (if \<not> fo_has v then Inl ''Called unwrap on None value'' else Inr (fo_value v))"

definition fo_unwrapOr :: "'a \<Rightarrow> 'a flagged \<Rightarrow> 'a" where
  "fo_unwrapOr d v = (if fo_has v then fo_value v else d)"

definition fo_unwrapOrElse :: "(unit \<Rightarrow> 'a) \<Rightarrow> 'a flagged \<Rightarrow> 'a" where
  "fo_unwrapOrElse f v = (if fo_has v then fo_value v else f ())"

definition fo_map :: "'b \<Rightarrow> ('a \<Rightarrow> 'b) \<Rightarrow> 'a flagged \<Rightarrow> 'b flagged" where
  "fo_map dv f v = (if fo_has v then fo_Some (f (fo_value v)) else fo_None dv)"

definition fo_flatMap :: "'b \<Rightarrow> ('a \<Rightarrow> 'b flagged) \<Rightarrow> 'a flagged \<Rightarrow> 'b flagged" where
  "fo_flatMap dv f v = (if fo_has v then f (fo_value v) else fo_None dv)"

definition fo_filter :: "'a \<Rightarrow> ('a \<Rightarrow> bool) \<Rightarrow> 'a flagged \<Rightarrow> 'a flagged" where
  "fo_filter dv p v = (if fo_has v \<and> p (fo_value v) then v else fo_None dv)"

definition fo_equal :: "'a flagged \<Rightarrow> 'a flagged \<Rightarrow> bool" where
  "fo_equal v w = (if fo_has v \<noteq> fo_has w then False else if \<not> fo_has v then True else fo_value v = fo_value w)"

section \<open>type_checker::Result\<close>

record ('e, 'a) tagged =
  tr_isOk :: bool
  tr_value :: 'a
  tr_error :: 'e

definition tr_Ok :: "'e \<Rightarrow> 'a \<Rightarrow> ('e, 'a) tagged" where
  "tr_Ok junk x = \<lparr>tr_isOk = True, tr_value = x, tr_error = junk\<rparr>"

definition tr_Err :: "'a \<Rightarrow> 'e \<Rightarrow> ('e, 'a) tagged" where
  "tr_Err junk e = \<lparr>tr_isOk = False, tr_value = junk, tr_error = e\<rparr>"

text \<open>The copy assigns only the member that is in use.\<close>

definition tr_assign :: "('e, 'a) tagged \<Rightarrow> ('e, 'a) tagged \<Rightarrow> ('e, 'a) tagged" where
  "tr_assign r other =
     (let r1 = r\<lparr>tr_isOk := tr_isOk other\<rparr>
      in if tr_isOk r1 then r1\<lparr>tr_value := tr_value other\<rparr> else r1\<lparr>tr_error := tr_error other\<rparr>)"

definition tr_unwrap :: "('e, 'a) tagged \<Rightarrow> string + 'a" where
  "tr_unwrap r = (if \<not> tr_isOk r then Inl ''Called unwrap on Err value'' else Inr (tr_value r))"

definition tr_unwrapErr :: "('e, 'a) tagged \<Rightarrow> string + 'e" where
  "tr_unwrapErr r = (if tr_isOk r then Inl ''Called unwrapErr on Ok value'' else Inr (tr_error r))"

definition tr_unwrapOr :: "'a \<Rightarrow> ('e, 'a) tagged \<Rightarrow> 'a" where
  "tr_unwrapOr d r = (if tr_isOk r then tr_value r else d)"

definition tr_unwrapOrElse :: "('e \<Rightarrow> 'a) \<Rightarrow> ('e, 'a) tagged \<Rightarrow> 'a" where
  "tr_unwrapOrElse f r = (if tr_isOk r then tr_value r else f (tr_error r))"

definition tr_map :: "'e \<Rightarrow> 'b \<Rightarrow> ('a \<Rightarrow> 'b) \<Rightarrow> ('e, 'a) tagged \<Rightarrow> ('e, 'b) tagged" where
  "tr_map je jb f r = (if tr_isOk r then tr_Ok je (f (tr_value r)) else tr_Err jb (tr_error r))"

definition tr_mapErr :: "'f \<Rightarrow> 'a \<Rightarrow> ('e \<Rightarrow> 'f) \<Rightarrow> ('e, 'a) tagged \<Rightarrow> ('f, 'a) tagged" where
  "tr_mapErr jf ja f r = (if tr_isOk r then tr_Ok jf (tr_value r) else tr_Err ja (f (tr_error r)))"

definition tr_flatMap :: "'b \<Rightarrow> ('a \<Rightarrow> ('e, 'b) tagged) \<Rightarrow> ('e, 'a) tagged \<Rightarrow> ('e, 'b) tagged" where
  "tr_flatMap jb f r = (if tr_isOk r then f (tr_value r) else tr_Err jb (tr_error r))"

definition tr_ok :: "'a \<Rightarrow> ('e, 'a) tagged \<Rightarrow> 'a flagged" where
  "tr_ok dv r = (if tr_isOk r then fo_Some (tr_value r) else fo_None dv)"

definition tr_err :: "'e \<Rightarrow> ('e, 'a) tagged \<Rightarrow> 'e flagged" where
  "tr_err dv r = (if \<not> tr_isOk r then fo_Some (tr_error r) else fo_None dv)"

definition tr_equal :: "('e, 'a) tagged \<Rightarrow> ('e, 'a) tagged \<Rightarrow> bool" where
  "tr_equal r s =
     (if tr_isOk r \<noteq> tr_isOk s then False else if tr_isOk r then tr_value r = tr_value s else tr_error r = tr_error s)"

section \<open>tocin::Result\<close>

record 'a simple_result =
  sr_isSuccess :: bool
  sr_value :: 'a
  sr_text :: string

definition sr_success :: "'a \<Rightarrow> 'a simple_result" where
  "sr_success x = \<lparr>sr_isSuccess = True, sr_value = x, sr_text = []\<rparr>"

definition sr_failure :: "'a \<Rightarrow> string \<Rightarrow> 'a simple_result" where
  "sr_failure dv m = \<lparr>sr_isSuccess = False, sr_value = dv, sr_text = m\<rparr>"

definition sr_getValue :: "'a simple_result \<Rightarrow> string + 'a" where
  "sr_getValue r = (if \<not> sr_isSuccess r then Inl ''Attempting to get value from error result'' else Inr (sr_value r))"

definition sr_getError :: "'a simple_result \<Rightarrow> string + string" where
  "sr_getError r = (if sr_isSuccess r then Inl ''Attempting to get error from success result'' else Inr (sr_text r))"

section \<open>OptionResultUtils\<close>

definition fromPointer :: "'a \<Rightarrow> 'a option \<Rightarrow> 'a flagged" where
  "fromPointer dv p = (case p of Some x \<Rightarrow> fo_Some x | None \<Rightarrow> fo_None dv)"

definition fromException :: "'a \<Rightarrow> string + 'a \<Rightarrow> (string, 'a) tagged" where
  "fromException junk outcome = (case outcome of Inr x \<Rightarrow> tr_Ok [] x | Inl what \<Rightarrow> tr_Err junk what)"

definition fromBool :: "bool \<Rightarrow> 'a \<Rightarrow> 'e \<Rightarrow> ('e, 'a) tagged" where
  "fromBool success x e = (if success then tr_Ok e x else tr_Err x e)"

definition combine_options :: "'a \<times> 'b \<Rightarrow> 'a flagged \<Rightarrow> 'b flagged \<Rightarrow> ('a \<times> 'b) flagged" where
  "combine_options dv v w =
     (if fo_has v \<and> fo_has w then fo_Some (fo_value v, fo_value w) else fo_None dv)"

definition combine_results :: "'e \<Rightarrow> 'a \<times> 'b \<Rightarrow> ('e, 'a) tagged \<Rightarrow> ('e, 'b) tagged \<Rightarrow> ('e, 'a \<times> 'b) tagged" where
  "combine_results je jab r s =
     (if tr_isOk r \<and> tr_isOk s then tr_Ok je (tr_value r, tr_value s)
      else if \<not> tr_isOk r then tr_Err jab (tr_error r) else tr_Err jab (tr_error s))"

text \<open>The loops, with the vector that is filled.\<close>

primrec sequence_options :: "'a flagged list \<Rightarrow> 'a list \<Rightarrow> 'a list flagged" where
  "sequence_options [] xs = fo_Some xs"
| "sequence_options (v # vs) xs = (if fo_isNone v then fo_None [] else sequence_options vs (xs @ [fo_value v]))"

primrec sequence_results :: "'e \<Rightarrow> ('e, 'a) tagged list \<Rightarrow> 'a list \<Rightarrow> ('e, 'a list) tagged" where
  "sequence_results je [] xs = tr_Ok je xs"
| "sequence_results je (r # rs) xs =
     (if \<not> tr_isOk r then tr_Err [] (tr_error r) else sequence_results je rs (xs @ [tr_value r]))"

section \<open>The two implementations\<close>

definition flagged_abs :: "'a flagged \<Rightarrow> 'a option" where
  "flagged_abs v = (if fo_has v then Some (fo_value v) else None)"

definition tagged_abs :: "('e, 'a) tagged \<Rightarrow> 'e + 'a" where
  "tagged_abs r = (if tr_isOk r then Inr (tr_value r) else Inl (tr_error r))"

lemma abs_simps [simp]:
  "flagged_abs (fo_Some x) = Some x" "flagged_abs (fo_None d) = None"
  "tagged_abs (tr_Ok je x) = Inr x" "tagged_abs (tr_Err ja e) = Inl e"
  by (simp_all add: flagged_abs_def tagged_abs_def fo_Some_def fo_None_def tr_Ok_def tr_Err_def)

text \<open>The flagged option refines \<open>util::Option\<close>, whatever value it keeps when it has none: mapping, chaining,
  filtering, defaults and equality agree, and \<open>sequence\<close> is the list of the values if all are there.\<close>

theorem option_refines:
  "flagged_abs (fo_map d f v) = uo_map f (flagged_abs v)
   \<and> flagged_abs (fo_flatMap d g v) = uo_andThen (flagged_abs \<circ> g) (flagged_abs v)
   \<and> flagged_abs (fo_filter e p v) = uo_filter p (flagged_abs v)
   \<and> fo_unwrapOr x v = uo_unwrapOr x (flagged_abs v) \<and> fo_unwrapOrElse h v = uo_unwrapOrElse h (flagged_abs v)
   \<and> fo_equal v w = (flagged_abs v = flagged_abs w)
   \<and> (\<exists>m n. fo_unwrap v = uo_expect m (flagged_abs v) \<and> uo_unwrap (flagged_abs v) = uo_expect n (flagged_abs v))
   \<and> flagged_abs (sequence_options vs []) = those (map flagged_abs vs)"
proof -
  have "flagged_abs (sequence_options vs xs) = map_option ((@) xs) (those (map flagged_abs vs))" for xs
  proof (induction vs arbitrary: xs)
    case (Cons v vs)
    have "flagged_abs v = (if fo_has v then Some (fo_value v) else None)" by (simp add: flagged_abs_def)
    then show ?case using Cons by (cases "those (map flagged_abs vs)") (simp_all add: fo_isNone_def)
  qed simp
  then have "flagged_abs (sequence_options vs []) = those (map flagged_abs vs)"
    by (cases "those (map flagged_abs vs)") simp_all
  moreover have "\<exists>m n. fo_unwrap v = uo_expect m (flagged_abs v) \<and> uo_unwrap (flagged_abs v) = uo_expect n (flagged_abs v)"
    by (auto simp: fo_unwrap_def uo_expect_def uo_unwrap_def flagged_abs_def)
  ultimately show ?thesis
    by (auto simp: fo_map_def uo_map_def fo_flatMap_def uo_andThen_def fo_filter_def uo_filter_def fo_unwrapOr_def
      uo_unwrapOr_def fo_unwrapOrElse_def uo_unwrapOrElse_def fo_equal_def flagged_abs_def fo_Some_def fo_None_def)
qed

text \<open>The results that are not errors up to the first error decide: \<open>sequence\<close> returns that error.\<close>

fun sequence_spec :: "('e + 'a) list \<Rightarrow> 'e + 'a list" where
  "sequence_spec [] = Inr []"
| "sequence_spec (r # rs) = ur_andThen (\<lambda>x. ur_map ((#) x) (sequence_spec rs)) r"

text \<open>The tagged result refines \<open>util::Result\<close>, whatever is in the member that is not in use: mapping both
  sides, chaining, defaults, the conversions to options, equality and assignment agree, and \<open>sequence\<close> returns
  the first error or all values.\<close>

theorem result_refines:
  "tagged_abs (tr_map je jb f r) = ur_map f (tagged_abs r) \<and> tagged_abs (tr_mapErr jf ja g r) = ur_mapErr g (tagged_abs r)
   \<and> tagged_abs (tr_flatMap jb h r) = ur_andThen (tagged_abs \<circ> h) (tagged_abs r)
   \<and> tr_unwrapOr x r = ur_unwrapOr x (tagged_abs r) \<and> tr_unwrapOrElse k r = ur_unwrapOrElse k (tagged_abs r)
   \<and> flagged_abs (tr_ok d r) = ur_ok (tagged_abs r) \<and> flagged_abs (tr_err e r) = ur_err (tagged_abs r)
   \<and> tr_equal r s = (tagged_abs r = tagged_abs s) \<and> tagged_abs (tr_assign r s) = tagged_abs s
   \<and> tagged_abs (sequence_results je rs []) = sequence_spec (map tagged_abs rs)"
proof -
  have "tagged_abs (sequence_results je rs xs) = ur_map ((@) xs) (sequence_spec (map tagged_abs rs))" for xs
  proof (induction rs arbitrary: xs)
    case (Cons r rs)
    have "tagged_abs r = (if tr_isOk r then Inr (tr_value r) else Inl (tr_error r))" by (simp add: tagged_abs_def)
    then show ?case using Cons by (cases "sequence_spec (map tagged_abs rs)") (simp_all add: ur_andThen_def ur_map_def)
  qed (simp add: ur_map_def)
  from this [of "[]"] have "tagged_abs (sequence_results je rs []) = sequence_spec (map tagged_abs rs)"
    by (auto simp: ur_map_def split: sum.split)
  then show ?thesis
    by (auto simp: tr_map_def ur_map_def tr_mapErr_def ur_mapErr_def tr_flatMap_def ur_andThen_def tr_unwrapOr_def
      ur_unwrapOr_def tr_unwrapOrElse_def ur_unwrapOrElse_def tr_ok_def ur_ok_def tr_err_def ur_err_def tr_equal_def
      tr_assign_def tagged_abs_def flagged_abs_def fo_Some_def fo_None_def tr_Ok_def tr_Err_def Let_def)
qed

end
