(* ===== verification/Tocin_Builtins.thy ===== *)
theory Tocin_Builtins
  imports Tocin_Stdlib
begin

text \<open>
  The built-in functions of the interpreter that \<open>interpreter/src/Builtins.cpp\<close> defines, on the values of
  \<open>interpreter/include/Runtime.h\<close>, which refers to the variant inside of its own definition: the values are
  the recursive ones that are meant. Functions and classes are numbers. \<open>print\<close>, \<open>to_string\<close> and
  \<open>str_join\<close> write alternatives to a stream that has no operator for them and are left out. The functions
  of \<open><cmath>\<close>, the clock, the environment and the directory are parameters.
\<close>

section \<open>Values\<close>

datatype 'd rt_value =
    RT_Null | RT_Bool bool | RT_Int "64 word" | RT_Double 'd | RT_String string | RT_Function nat | RT_Class nat
  | RT_Array "'d rt_value list" | RT_Dict "(string \<times> 'd rt_value) list"

datatype 'd rt_result = RT_Returns "'d rt_value" | RT_Throws string

section \<open>Strings\<close>

definition b_strLength :: "'d rt_value list \<Rightarrow> 'd rt_result" where
  "b_strLength args =
     (case args of [RT_String s] \<Rightarrow> RT_Returns (RT_Int (of_nat (length s)))
      | _ \<Rightarrow> RT_Throws ''str_length expects one string'')"

definition b_strConcat :: "'d rt_value list \<Rightarrow> 'd rt_result" where
  "b_strConcat args =
     (case args of [RT_String s, RT_String t] \<Rightarrow> RT_Returns (RT_String (s @ t))
      | _ \<Rightarrow> RT_Throws ''str_concat expects two strings'')"

definition b_strSlice :: "'d rt_value list \<Rightarrow> 'd rt_result" where
  "b_strSlice args =
     (case args of
        [RT_String s, RT_Int a, RT_Int b] \<Rightarrow>
          if sint a < 0 \<or> sint b > int (length s) \<or> sint a > sint b then RT_Returns (RT_String [])
          else RT_Returns (RT_String (substr s (nat (sint a)) (nat (sint b - sint a))))
      | _ \<Rightarrow> RT_Throws ''str_slice expects string, start, end'')"

text \<open>The loop that cuts the front of the string off; None if it does not end.\<close>

partial_function (option) cut_loop :: "string \<Rightarrow> string \<Rightarrow> string list \<Rightarrow> string list option" where
  "cut_loop delim s parts =
     (case find_from delim s 0 of
        None \<Rightarrow> Some (parts @ [s])
      | Some p \<Rightarrow> cut_loop delim (drop (p + length delim) s) (parts @ [substr s 0 p]))"

definition b_strSplit :: "'d rt_value list \<Rightarrow> 'd rt_result option" where
  "b_strSplit args =
     (case args of
        [RT_String s, RT_String d] \<Rightarrow> map_option (\<lambda>ps. RT_Returns (RT_Array (map RT_String ps))) (cut_loop d s [])
      | _ \<Rightarrow> Some (RT_Throws ''str_split expects string and delimiter''))"

definition wide_blank :: "char \<Rightarrow> bool" where
  "wide_blank c \<longleftrightarrow> c \<in> {CHR '' '', TAB, NL, CR, CHR 0x0C, CHR 0x0B}"

text \<open>\<open>erase\<close> from the front and, after \<open>find_last_not_of\<close>, from the end.\<close>

definition b_strTrim :: "'d rt_value list \<Rightarrow> 'd rt_result" where
  "b_strTrim args =
     (case args of
        [RT_String s] \<Rightarrow>
          (let t = dropWhile wide_blank s
           in RT_Returns (RT_String (take (length t - length (takeWhile wide_blank (rev t))) t)))
      | _ \<Rightarrow> RT_Throws ''str_trim expects one string'')"

definition b_strToUpper :: "'d rt_value list \<Rightarrow> 'd rt_result" where
  "b_strToUpper args =
     (case args of [RT_String s] \<Rightarrow> RT_Returns (RT_String (map toupper s))
      | _ \<Rightarrow> RT_Throws ''str_to_upper expects one string'')"

definition b_strToLower :: "'d rt_value list \<Rightarrow> 'd rt_result" where
  "b_strToLower args =
     (case args of [RT_String s] \<Rightarrow> RT_Returns (RT_String (map tolower s))
      | _ \<Rightarrow> RT_Throws ''str_to_lower expects one string'')"

partial_function (option) exchange_loop :: "string \<Rightarrow> string \<Rightarrow> string \<Rightarrow> nat \<Rightarrow> string option" where
  "exchange_loop pattern replacement s pos =
     (case find_from pattern s pos of
        None \<Rightarrow> Some s
      | Some p \<Rightarrow>
          exchange_loop pattern replacement (take p s @ replacement @ drop (p + length pattern) s) (p + length replacement))"

definition b_strReplace :: "'d rt_value list \<Rightarrow> 'd rt_result option" where
  "b_strReplace args =
     (case args of
        [RT_String s, RT_String p, RT_String r] \<Rightarrow> map_option (\<lambda>t. RT_Returns (RT_String t)) (exchange_loop p r s 0)
      | _ \<Rightarrow> Some (RT_Throws ''str_replace expects string, pattern, and replacement''))"

definition b_strContains :: "'d rt_value list \<Rightarrow> 'd rt_result" where
  "b_strContains args =
     (case args of [RT_String s, RT_String p] \<Rightarrow> RT_Returns (RT_Bool (find_from p s 0 \<noteq> None))
      | _ \<Rightarrow> RT_Throws ''str_contains expects two strings'')"

definition b_strStartsWith :: "'d rt_value list \<Rightarrow> 'd rt_result" where
  "b_strStartsWith args =
     (case args of [RT_String s, RT_String p] \<Rightarrow> RT_Returns (RT_Bool (substr s 0 (length p) = p))
      | _ \<Rightarrow> RT_Throws ''str_starts_with expects two strings'')"

definition b_strEndsWith :: "'d rt_value list \<Rightarrow> 'd rt_result" where
  "b_strEndsWith args =
     (case args of
        [RT_String s, RT_String x] \<Rightarrow>
          if length s < length x then RT_Returns (RT_Bool False)
          else RT_Returns (RT_Bool (drop (length s - length x) s = x))
      | _ \<Rightarrow> RT_Throws ''str_ends_with expects two strings'')"

section \<open>Numbers\<close>

definition b_unary :: "string \<Rightarrow> ('d \<Rightarrow> 'd) \<Rightarrow> 'd rt_value list \<Rightarrow> 'd rt_result" where
  "b_unary message f args =
     (case args of [RT_Double x] \<Rightarrow> RT_Returns (RT_Double (f x)) | _ \<Rightarrow> RT_Throws message)"

definition b_mathSqrt :: "'d math_ops \<Rightarrow> 'd rt_value list \<Rightarrow> 'd rt_result" where
  "b_mathSqrt mo = b_unary ''sqrt expects one float'' (m_sqrt mo)"

definition b_mathSin :: "'d math_ops \<Rightarrow> 'd rt_value list \<Rightarrow> 'd rt_result" where
  "b_mathSin mo = b_unary ''math_sin expects one number'' (m_sin mo)"

definition b_mathCos :: "'d math_ops \<Rightarrow> 'd rt_value list \<Rightarrow> 'd rt_result" where
  "b_mathCos mo = b_unary ''math_cos expects one number'' (m_cos mo)"

definition b_mathTan :: "'d math_ops \<Rightarrow> 'd rt_value list \<Rightarrow> 'd rt_result" where
  "b_mathTan mo = b_unary ''math_tan expects one number'' (m_tan mo)"

definition b_mathLog :: "'d math_ops \<Rightarrow> 'd rt_value list \<Rightarrow> 'd rt_result" where
  "b_mathLog mo = b_unary ''math_log expects one number'' (m_log mo)"

definition b_mathExp :: "'d math_ops \<Rightarrow> 'd rt_value list \<Rightarrow> 'd rt_result" where
  "b_mathExp mo = b_unary ''math_exp expects one number'' (m_exp mo)"

definition b_mathAbs :: "'d math_ops \<Rightarrow> 'd rt_value list \<Rightarrow> 'd rt_result" where
  "b_mathAbs mo = b_unary ''math_abs expects one number'' (m_abs mo)"

definition b_mathFloor :: "'d math_ops \<Rightarrow> 'd rt_value list \<Rightarrow> 'd rt_result" where
  "b_mathFloor mo = b_unary ''math_floor expects one number'' (m_floor mo)"

definition b_mathCeil :: "'d math_ops \<Rightarrow> 'd rt_value list \<Rightarrow> 'd rt_result" where
  "b_mathCeil mo = b_unary ''math_ceil expects one number'' (m_ceil mo)"

definition b_mathRound :: "'d math_ops \<Rightarrow> 'd rt_value list \<Rightarrow> 'd rt_result" where
  "b_mathRound mo = b_unary ''math_round expects one number'' (m_round mo)"

definition b_mathPow :: "'d math_ops \<Rightarrow> 'd rt_value list \<Rightarrow> 'd rt_result" where
  "b_mathPow mo args =
     (case args of [RT_Double x, RT_Double y] \<Rightarrow> RT_Returns (RT_Double (m_pow mo x y))
      | _ \<Rightarrow> RT_Throws ''math_pow expects two numbers'')"

definition b_mathRandom :: "'d \<Rightarrow> 'd rt_value list \<Rightarrow> 'd rt_result" where
  "b_mathRandom r args = RT_Returns (RT_Double r)"

definition b_toInt :: "'d float_ops \<Rightarrow> 'd rt_value list \<Rightarrow> 'd rt_result" where
  "b_toInt fo args =
     (case args of
        [RT_Int i] \<Rightarrow> RT_Returns (RT_Int i)
      | [RT_Double x] \<Rightarrow> RT_Returns (RT_Int (fl_to_int64 fo x))
      | [RT_String s] \<Rightarrow>
          (case stoi_value 64 s of None \<Rightarrow> RT_Throws ''Cannot convert string to integer''
           | Some i \<Rightarrow> RT_Returns (RT_Int (word_of_int i)))
      | [v] \<Rightarrow> RT_Throws ''Cannot convert to integer''
      | _ \<Rightarrow> RT_Throws ''to_int expects one argument'')"

definition b_toFloat :: "'d float_ops \<Rightarrow> 'd rt_value list \<Rightarrow> 'd rt_result" where
  "b_toFloat fo args =
     (case args of
        [RT_Double x] \<Rightarrow> RT_Returns (RT_Double x)
      | [RT_Int i] \<Rightarrow> RT_Returns (RT_Double (fl_of_int fo i))
      | [RT_String s] \<Rightarrow>
          (case fl_parse fo s of None \<Rightarrow> RT_Throws ''Cannot convert string to float'' | Some x \<Rightarrow> RT_Returns (RT_Double x))
      | [v] \<Rightarrow> RT_Throws ''Cannot convert to float''
      | _ \<Rightarrow> RT_Throws ''to_float expects one argument'')"

definition b_toBool :: "'d float_ops \<Rightarrow> 'd rt_value list \<Rightarrow> 'd rt_result" where
  "b_toBool fo args =
     (case args of
        [RT_Bool b] \<Rightarrow> RT_Returns (RT_Bool b)
      | [RT_Int i] \<Rightarrow> RT_Returns (RT_Bool (i \<noteq> 0))
      | [RT_Double x] \<Rightarrow> RT_Returns (RT_Bool (fl_nonzero fo x))
      | [RT_String s] \<Rightarrow> RT_Returns (RT_Bool (s \<noteq> []))
      | [v] \<Rightarrow> RT_Returns (RT_Bool False)
      | _ \<Rightarrow> RT_Throws ''to_bool expects one argument'')"

section \<open>Arrays and dictionaries\<close>

text \<open>An argument is copied, so that no operation changes the array or dictionary of the caller.\<close>

definition b_arrayLength :: "'d rt_value list \<Rightarrow> 'd rt_result" where
  "b_arrayLength args =
     (case args of [RT_Array vs] \<Rightarrow> RT_Returns (RT_Int (of_nat (length vs))) | _ \<Rightarrow> RT_Throws ''array_length expects one array'')"

definition b_arrayPush :: "'d rt_value list \<Rightarrow> 'd rt_result" where
  "b_arrayPush args =
     (case args of RT_Array vs # w # ws \<Rightarrow> RT_Returns (RT_Array (vs @ w # ws))
      | _ \<Rightarrow> RT_Throws ''array_push expects array and at least one value'')"

definition b_arrayPop :: "'d rt_value list \<Rightarrow> 'd rt_result" where
  "b_arrayPop args =
     (case args of
        [RT_Array vs] \<Rightarrow> if vs = [] then RT_Throws ''Cannot pop from empty array'' else RT_Returns (last vs)
      | _ \<Rightarrow> RT_Throws ''array_pop expects one array'')"

definition b_dictKeys :: "'d rt_value list \<Rightarrow> 'd rt_result" where
  "b_dictKeys args =
     (case args of [RT_Dict kvs] \<Rightarrow> RT_Returns (RT_Array (map (RT_String \<circ> fst) kvs))
      | _ \<Rightarrow> RT_Throws ''dict_keys expects one dictionary'')"

definition b_dictValues :: "'d rt_value list \<Rightarrow> 'd rt_result" where
  "b_dictValues args =
     (case args of [RT_Dict kvs] \<Rightarrow> RT_Returns (RT_Array (map snd kvs))
      | _ \<Rightarrow> RT_Throws ''dict_values expects one dictionary'')"

definition b_dictHasKey :: "'d rt_value list \<Rightarrow> 'd rt_result" where
  "b_dictHasKey args =
     (case args of [RT_Dict kvs, RT_String k] \<Rightarrow> RT_Returns (RT_Bool (map_of kvs k \<noteq> None))
      | _ \<Rightarrow> RT_Throws ''dict_has_key expects dictionary and key'')"

definition b_dictGet :: "'d rt_value list \<Rightarrow> 'd rt_result" where
  "b_dictGet args =
     (case args of
        [RT_Dict kvs, RT_String k] \<Rightarrow> RT_Returns (case map_of kvs k of Some v \<Rightarrow> v | None \<Rightarrow> RT_Null)
      | _ \<Rightarrow> RT_Throws ''dict_get expects dictionary and key'')"

definition b_dictSet :: "'d rt_value list \<Rightarrow> 'd rt_result" where
  "b_dictSet args =
     (case args of
        [RT_Dict kvs, RT_String k, v] \<Rightarrow> (let dict = AList.update k v kvs in RT_Returns RT_Null)
      | _ \<Rightarrow> RT_Throws ''dict_set expects dictionary, key, and value'')"

definition b_dictDelete :: "'d rt_value list \<Rightarrow> 'd rt_result" where
  "b_dictDelete args =
     (case args of
        [RT_Dict kvs, RT_String k] \<Rightarrow> (let dict = AList.delete k kvs in RT_Returns RT_Null)
      | _ \<Rightarrow> RT_Throws ''dict_delete expects dictionary and key'')"

definition b_dictMerge :: "'d rt_value list \<Rightarrow> 'd rt_result" where
  "b_dictMerge args =
     (case args of
        [RT_Dict kvs, RT_Dict ms] \<Rightarrow> (let dict = fold (\<lambda>(k, v). AList.update k v) ms kvs in RT_Returns RT_Null)
      | _ \<Rightarrow> RT_Throws ''dict_merge expects two dictionaries'')"

definition b_toArray :: "'d rt_value list \<Rightarrow> 'd rt_result" where
  "b_toArray args = (case args of [RT_Array vs] \<Rightarrow> RT_Returns (RT_Array vs) | _ \<Rightarrow> RT_Throws ''to_array expects one array'')"

definition b_toDict :: "'d rt_value list \<Rightarrow> 'd rt_result" where
  "b_toDict args = (case args of [RT_Dict kvs] \<Rightarrow> RT_Returns (RT_Dict kvs) | _ \<Rightarrow> RT_Throws ''to_dict expects one dictionary'')"

section \<open>The system\<close>

definition b_timeNow :: "'d \<Rightarrow> 'd rt_value list \<Rightarrow> 'd rt_result" where
  "b_timeNow seconds args = RT_Returns (RT_Double seconds)"

definition b_systemEnv :: "(string \<Rightarrow> string option) \<Rightarrow> 'd rt_value list \<Rightarrow> 'd rt_result" where
  "b_systemEnv env args =
     (case args of
        [RT_String n] \<Rightarrow> RT_Returns (case env (takeWhile (\<lambda>c. c \<noteq> NUL) n) of Some v \<Rightarrow> RT_String v | None \<Rightarrow> RT_Null)
      | _ \<Rightarrow> RT_Throws ''system_env expects one string'')"

definition b_systemCwd :: "string \<Rightarrow> 'd rt_value list \<Rightarrow> 'd rt_result" where
  "b_systemCwd path args = RT_Returns (RT_String path)"

text \<open>The table of the names of the functions above, those without an argument of the system left out.\<close>

definition b_call :: "'d float_ops \<Rightarrow> 'd math_ops \<Rightarrow> string \<Rightarrow> 'd rt_value list \<Rightarrow> 'd rt_result option option" where
  "b_call fo mo name args = map_of
    [(''str_length'', Some (b_strLength args)), (''str_concat'', Some (b_strConcat args)),
      (''str_slice'', Some (b_strSlice args)), (''str_trim'', Some (b_strTrim args)),
      (''str_to_upper'', Some (b_strToUpper args)), (''str_to_lower'', Some (b_strToLower args)),
      (''str_contains'', Some (b_strContains args)), (''str_starts_with'', Some (b_strStartsWith args)),
      (''str_ends_with'', Some (b_strEndsWith args)), (''math_sqrt'', Some (b_mathSqrt mo args)),
      (''math_pow'', Some (b_mathPow mo args)), (''math_sin'', Some (b_mathSin mo args)),
      (''math_cos'', Some (b_mathCos mo args)), (''math_tan'', Some (b_mathTan mo args)),
      (''math_log'', Some (b_mathLog mo args)), (''math_exp'', Some (b_mathExp mo args)),
      (''math_abs'', Some (b_mathAbs mo args)), (''math_floor'', Some (b_mathFloor mo args)),
      (''math_ceil'', Some (b_mathCeil mo args)), (''math_round'', Some (b_mathRound mo args)),
      (''array_length'', Some (b_arrayLength args)), (''array_push'', Some (b_arrayPush args)),
      (''array_pop'', Some (b_arrayPop args)), (''dict_keys'', Some (b_dictKeys args)),
      (''dict_values'', Some (b_dictValues args)), (''dict_has_key'', Some (b_dictHasKey args)),
      (''dict_get'', Some (b_dictGet args)), (''dict_set'', Some (b_dictSet args)),
      (''dict_delete'', Some (b_dictDelete args)), (''dict_merge'', Some (b_dictMerge args)),
      (''to_int'', Some (b_toInt fo args)), (''to_float'', Some (b_toFloat fo args)),
      (''to_bool'', Some (b_toBool fo args)), (''to_array'', Some (b_toArray args)),
      (''to_dict'', Some (b_toDict args)), (''str_split'', b_strSplit args),
      (''str_replace'', b_strReplace args)] name"

section \<open>Comparison with the standard library of the compiler\<close>

text \<open>The foreign value of a value of the interpreter; functions and classes have none and become null.\<close>

primrec ffi_of_value :: "'d rt_value \<Rightarrow> 'd ffi" where
  "ffi_of_value RT_Null = ffi_createNull"
| "ffi_of_value (RT_Bool b) = ffi_make BOOLEAN_TYPE (P_Bool b)"
| "ffi_of_value (RT_Int i) = ffi_make INTEGER_TYPE (P_Int i)"
| "ffi_of_value (RT_Double x) = ffi_make FLOAT_TYPE (P_Double x)"
| "ffi_of_value (RT_String s) = ffi_make STRING_TYPE (P_String s)"
| "ffi_of_value (RT_Function f) = ffi_createNull"
| "ffi_of_value (RT_Class c) = ffi_createNull"
| "ffi_of_value (RT_Array vs) = ffi_make ARRAY_TYPE (P_Array (map ffi_of_value vs))"
| "ffi_of_value (RT_Dict kvs) = ffi_make OBJECT_TYPE (P_Object (map (map_prod id ffi_of_value) kvs))"

definition same_result :: "'d rt_result \<Rightarrow> 'd std_result \<Rightarrow> bool" where
  "same_result r s =
     (case r of
        RT_Returns v \<Rightarrow> s = Returns (ffi_of_value v)
      | RT_Throws m \<Rightarrow> (case s of Throws_Error n \<Rightarrow> True | _ \<Rightarrow> False))"

definition same_outcome :: "'d rt_result option \<Rightarrow> 'd std_result option \<Rightarrow> bool" where
  "same_outcome r s = rel_option same_result r s"

lemma type_of_value [simp]:
  "ffi_getType (ffi_of_value v) = STRING_TYPE \<longleftrightarrow> (\<exists>s. v = RT_String s)"
  "ffi_getType (ffi_of_value v) = INTEGER_TYPE \<longleftrightarrow> (\<exists>i. v = RT_Int i)"
  by (cases v; simp add: ffi_make_def ffi_createNull_def)+

lemma string_args:
  "has_types [STRING_TYPE] (map ffi_of_value args) \<longleftrightarrow> (\<exists>s. args = [RT_String s])"
  "has_types [STRING_TYPE, STRING_TYPE] (map ffi_of_value args) \<longleftrightarrow> (\<exists>s t. args = [RT_String s, RT_String t])"
  "has_types [STRING_TYPE, STRING_TYPE, STRING_TYPE] (map ffi_of_value args) \<longleftrightarrow>
     (\<exists>s t u. args = [RT_String s, RT_String t, RT_String u])"
  "has_types [STRING_TYPE, INTEGER_TYPE, INTEGER_TYPE] (map ffi_of_value args) \<longleftrightarrow>
     (\<exists>s i j. args = [RT_String s, RT_Int i, RT_Int j])"
  by (auto simp: has_types_def map_eq_Cons_conv)


lemma cut_is_split:
  assumes "d \<noteq> []"
  shows "cut_loop d s acc = split_loop d (pre @ s) (length pre) acc"
proof (induction s arbitrary: acc pre rule: length_induct)
  case (1 s)
  have cut: "find_from d s 0 = find_first d s" by (cases "find_first d s") (simp_all add: find_from_def)
  show ?case
  proof (cases "find_first d s")
    case None
    then show ?thesis
      by (simp add: cut_loop.simps [of d s] split_loop.simps [of d "pre @ s"] cut find_from_append)
  next
    case (Some i)
    let ?n = "i + length d"
    have n: "?n \<le> length s" "0 < length d" using find_first_Some [OF Some] assms by simp_all
    then have "length (drop ?n s) < length s" unfolding length_drop by linarith
    then have IH: "cut_loop d (drop ?n s) (acc @ [take i s])
        = split_loop d ((pre @ take ?n s) @ drop ?n s) (length (pre @ take ?n s)) (acc @ [take i s])"
      using 1 by blast
    have "length (pre @ take ?n s) = length pre + i + length d" using n by simp
    then have "split_loop d (pre @ s) (length pre + i + length d) (acc @ [take i s]) = cut_loop d (drop ?n s) (acc @ [take i s])"
      unfolding IH by (simp add: add.assoc)
    then show ?thesis using Some
      by (simp add: cut_loop.simps [of d s] split_loop.simps [of d "pre @ s" "length pre"] cut find_from_append substr_def)
  qed
qed

lemma exchange_is_replace: "exchange_loop p r s pos = replace_loop p r s pos"
proof -
  have "replace_loop p r s pos = Some t" if "exchange_loop p r s pos = Some t" for t
    using that
    by (rule exchange_loop.raw_induct [where P = "\<lambda>p r s pos t. replace_loop p r s pos = Some t", rotated])
       (subst replace_loop.simps, auto split: option.splits)
  moreover have "exchange_loop p r s pos = Some t" if "replace_loop p r s pos = Some t" for t
    using that
    by (rule replace_loop.raw_induct [where P = "\<lambda>p r s pos t. exchange_loop p r s pos = Some t", rotated])
       (subst exchange_loop.simps, auto split: option.splits)
  ultimately show ?thesis by (metis not_Some_eq)
qed

lemma cut_empty: "cut_loop [] s acc = None" "split_loop [] s 0 acc = None"
proof -
  have "d \<noteq> []" if "cut_loop d s acc = Some r" for d s acc r
    using that
    by (rule cut_loop.raw_induct [where P = "\<lambda>d s acc r. d \<noteq> []", rotated])
       (auto simp: find_from_def find_empty split: option.splits if_splits)
  then show "cut_loop [] s acc = None" by (metis not_Some_eq)
  have "d \<noteq> [] \<or> prev > length s" if "split_loop d s prev acc = Some r" for d s prev acc r
    using that
    by (rule split_loop.raw_induct [where P = "\<lambda>d s prev acc r. d \<noteq> [] \<or> prev > length s", rotated])
       (fastforce simp: find_from_def find_empty split: option.splits if_splits)
  from this [of "[]" s 0] show "split_loop [] s 0 acc = None" by (cases "split_loop [] s 0 acc") auto
qed

lemma cut_loop_split: "cut_loop d s [] = split_loop d s 0 []"
  using cut_is_split [of d s "[]" "[]"] cut_empty [of s "[]"] by (cases "d = []") simp_all

lemma int_arg [simp]: "asInt64 fo (ffi_make INTEGER_TYPE (P_Int i)) = Some i"
  by (simp add: asInt64_def ffi_make_def get_int_def)

lemma agree_strings:
  "same_result (b_strLength args) (std_str_length fo (map ffi_of_value args))"
  "same_result (b_strConcat args) (std_str_concat fo (map ffi_of_value args))"
  "same_result (b_strSlice args) (std_str_slice fo (map ffi_of_value args))"
  "same_result (b_strToUpper args) (std_str_to_upper fo (map ffi_of_value args))"
  "same_result (b_strToLower args) (std_str_to_lower fo (map ffi_of_value args))"
  "same_result (b_strContains args) (std_str_contains fo (map ffi_of_value args))"
  "same_result (b_strStartsWith args) (std_str_starts_with fo (map ffi_of_value args))"
  "same_result (b_strEndsWith args) (std_str_ends_with fo (map ffi_of_value args))"
  by (auto simp: b_strLength_def std_str_length_def b_strConcat_def std_str_concat_def b_strSlice_def std_str_slice_def
      b_strToUpper_def std_str_to_upper_def b_strToLower_def std_str_to_lower_def b_strContains_def std_str_contains_def
      b_strStartsWith_def std_str_starts_with_def b_strEndsWith_def std_str_ends_with_def string_args with_text_def with_int_def
      same_result_def ret_string_def ret_int_def ret_bool_def split: list.split rt_value.split)

lemma agree_loops:
  "same_outcome (b_strSplit args) (std_str_split fo (map ffi_of_value args))"
  "same_outcome (b_strReplace args) (std_str_replace fo (map ffi_of_value args))"
  by (auto simp: b_strSplit_def std_str_split_def b_strReplace_def std_str_replace_def string_args cut_loop_split
      exchange_is_replace same_outcome_def same_result_def ret_string_def option.rel_map comp_def rel_option_iff
      split: list.split rt_value.split option.split)

text \<open>A form feed is a blank for the interpreter only.\<close>

lemma trims_differ: "\<not> same_result (b_strTrim [RT_String [CHR 0x0C]]) (std_str_trim fo (map ffi_of_value [RT_String [CHR 0x0C]]))"
  by (simp add: b_strTrim_def std_str_trim_def wide_blank_def same_result_def trim_blanks_def is_blank_def string_args with_text_def
      ret_string_def substr_def has_types_def ffi_make_def asString_def get_string_def)


end
