(* ===== verification/Tocin_Futures.thy ===== *)
theory Tocin_Futures
  imports Tocin_Async Tocin_Thread_Pool Tocin_Channel
begin

text \<open>
  The promises and futures of \<open>src/runtime/concurrency.h\<close>, the tasks that settle them (\<open>AsyncScheduler::submit\<close> and
  \<open>delay\<close> of \<open>src/runtime/async_system.h\<close>, \<open>Scheduler::async\<close>), and \<open>Select\<close>. A \<open>Promise\<close> is a shared state of the C++
  library together with the one \<open>std::future\<close> that belongs to it. The standard leaves an access to a
  \<open>std::future\<close> without a shared state undefined.
\<close>

section \<open>Promise\<close>

text \<open>An exception that derives from \<open>std::exception\<close>: its type and the text of \<open>what\<close>.\<close>

datatype thrown = Std_Exception string string | Other_Exception

datatype 'a shared = Not_Settled | Has_Value 'a | Has_Exception thrown

record 'a cell =
  cl_state :: "'a shared"
  cl_valid :: bool    \<comment> \<open>the \<open>std::future\<close> still refers to the shared state\<close>

definition new_Promise :: "'a cell" where
  "new_Promise = \<lparr>cl_state = Not_Settled, cl_valid = True\<rparr>"

definition already_satisfied :: thrown where
  "already_satisfied = Std_Exception ''std::future_error'' ''std::future_error: Promise already satisfied''"

definition is_settled :: "'a cell \<Rightarrow> bool" where
  "is_settled c = (case cl_state c of Not_Settled \<Rightarrow> False | _ \<Rightarrow> True)"

definition setValue :: "'a \<Rightarrow> 'a cell \<Rightarrow> thrown + 'a cell" where
  "setValue x c = (if is_settled c then Inl already_satisfied else Inr (c\<lparr>cl_state := Has_Value x\<rparr>))"

definition setException :: "thrown \<Rightarrow> 'a cell \<Rightarrow> thrown + 'a cell" where
  "setException e c = (if is_settled c then Inl already_satisfied else Inr (c\<lparr>cl_state := Has_Exception e\<rparr>))"

definition resolve :: "'a \<Rightarrow> 'a cell \<Rightarrow> thrown + 'a cell" where
  "resolve x c = setValue x c"

definition reject :: "string \<Rightarrow> 'a cell \<Rightarrow> thrown + 'a cell" where
  "reject reason c = setException (Std_Exception ''std::runtime_error'' reason) c"

section \<open>Future\<close>

datatype 'r fut = Fut_Returns 'r | Fut_Throws thrown | Fut_Waits | Fut_Undefined

text \<open>\<open>get\<close> of the library releases the shared state, also when it throws.\<close>

definition get_shared :: "'a cell \<Rightarrow> 'a fut \<times> 'a cell" where
  "get_shared c =
     (if \<not> cl_valid c then (Fut_Undefined, c)
      else case cl_state c of
        Not_Settled \<Rightarrow> (Fut_Waits, c)
      | Has_Value x \<Rightarrow> (Fut_Returns x, c\<lparr>cl_valid := False\<rparr>)
      | Has_Exception e \<Rightarrow> (Fut_Throws e, c\<lparr>cl_valid := False\<rparr>))"

text \<open>The wrapper. The copies of one share its \<open>std::future\<close>, named by its place in a list of promises, and have
  caches of their own; \<open>waitForAny\<close> makes one with a null pointer.\<close>

record 'a future =
  fu_shared :: "nat option"
  fu_cached :: "'a option"
  fu_has_cached :: bool

definition new_Future :: "nat option \<Rightarrow> 'a future" where
  "new_Future p = \<lparr>fu_shared = p, fu_cached = None, fu_has_cached = False\<rparr>"

definition future_get :: "'a cell list \<Rightarrow> 'a future \<Rightarrow> 'a fut \<times> 'a cell list \<times> 'a future" where
  "future_get cs u =
     (if fu_has_cached u then
        (case fu_cached u of Some x \<Rightarrow> (Fut_Returns x, cs, u) | None \<Rightarrow> (Fut_Undefined, cs, u))
      else case fu_shared u of
        None \<Rightarrow> (Fut_Undefined, cs, u)
      | Some i \<Rightarrow>
          (case get_shared (cs ! i) of
             (Fut_Returns x, c) \<Rightarrow> (Fut_Returns x, cs[i := c], u\<lparr>fu_cached := Some x, fu_has_cached := True\<rparr>)
           | (r, c) \<Rightarrow> (r, cs[i := c], u)))"

definition future_isReady :: "'a cell list \<Rightarrow> 'a future \<Rightarrow> bool fut" where
  "future_isReady cs u =
     (case fu_shared u of
        None \<Rightarrow> Fut_Undefined
      | Some i \<Rightarrow> if cl_valid (cs ! i) then Fut_Returns (is_settled (cs ! i)) else Fut_Undefined)"

definition future_wait :: "'a cell list \<Rightarrow> 'a future \<Rightarrow> unit fut" where
  "future_wait cs u =
     (case fu_shared u of
        None \<Rightarrow> Fut_Undefined
      | Some i \<Rightarrow>
          if \<not> cl_valid (cs ! i) then Fut_Undefined
          else if is_settled (cs ! i) then Fut_Returns () else Fut_Waits)"

text \<open>The specialization for \<open>void\<close> remembers only that it has called \<open>get\<close>.\<close>

record void_future =
  vf_shared :: "nat option"
  vf_has_cached :: bool

definition void_get :: "unit cell list \<Rightarrow> void_future \<Rightarrow> unit fut \<times> unit cell list \<times> void_future" where
  "void_get cs u =
     (if vf_has_cached u then (Fut_Returns (), cs, u)
      else case vf_shared u of
        None \<Rightarrow> (Fut_Undefined, cs, u)
      | Some i \<Rightarrow>
          (case get_shared (cs ! i) of
             (Fut_Returns x, c) \<Rightarrow> (Fut_Returns (), cs[i := c], u\<lparr>vf_has_cached := True\<rparr>)
           | (r, c) \<Rightarrow> (r, cs[i := c], u)))"

definition void_abs :: "unit future \<Rightarrow> void_future" where
  "void_abs u = \<lparr>vf_shared = fu_shared u, vf_has_cached = fu_has_cached u\<rparr>"

lemma void_get_refines:
  assumes "fu_has_cached u \<longrightarrow> fu_cached u \<noteq> None"
  shows "void_get cs (void_abs u) = (case future_get cs u of (r, ds, w) \<Rightarrow> (r, ds, void_abs w))"
  using assms by (auto simp: void_get_def void_abs_def future_get_def split: option.splits prod.splits fut.splits)

text \<open>Of \<open>AsyncSystem\<close>: \<open>await\<close> is \<open>get\<close>, \<open>waitForAll\<close> gets one future after the other, \<open>waitForAny\<close> returns the first.\<close>

definition await :: "'a cell list \<Rightarrow> 'a future \<Rightarrow> 'a fut \<times> 'a cell list \<times> 'a future" where
  "await cs u = future_get cs u"

primrec wait_for_all :: "'a cell list \<Rightarrow> 'a future list \<Rightarrow> unit fut \<times> 'a cell list \<times> 'a future list" where
  "wait_for_all cs [] = (Fut_Returns (), cs, [])"
| "wait_for_all cs (u # us) =
     (case future_get cs u of
        (Fut_Returns x, ds, v) \<Rightarrow> (case wait_for_all ds us of (r, es, vs) \<Rightarrow> (r, es, v # vs))
      | (Fut_Throws e, ds, v) \<Rightarrow> (Fut_Throws e, ds, v # us)
      | (Fut_Waits, ds, v) \<Rightarrow> (Fut_Waits, ds, v # us)
      | (Fut_Undefined, ds, v) \<Rightarrow> (Fut_Undefined, ds, v # us))"

definition waitForAny :: "'a future list \<Rightarrow> 'a future" where
  "waitForAny us = (case us of [] \<Rightarrow> new_Future None | u # _ \<Rightarrow> u)"

section \<open>The tasks\<close>

text \<open>What the function of a task does when it is called.\<close>

datatype 'a called = Call_Returns 'a | Call_Throws thrown

text \<open>The task of \<open>AsyncScheduler::submit\<close> and \<open>delay\<close> catches what derives from \<open>std::exception\<close>; anything else leaves
  the worker's thread, which ends the process.\<close>

definition catch_reject :: "thrown \<Rightarrow> 'a cell \<Rightarrow> 'a cell option" where
  "catch_reject e c =
     (case e of
        Std_Exception type what \<Rightarrow> (case reject what c of Inl _ \<Rightarrow> None | Inr d \<Rightarrow> Some d)
      | Other_Exception \<Rightarrow> None)"

definition submitted_task :: "'a called \<Rightarrow> 'a cell \<Rightarrow> 'a cell option" where
  "submitted_task r c =
     (case r of
        Call_Returns x \<Rightarrow> (case resolve x c of Inr d \<Rightarrow> Some d | Inl e \<Rightarrow> catch_reject e c)
      | Call_Throws e \<Rightarrow> catch_reject e c)"

text \<open>The task of \<open>Scheduler::async\<close> catches everything. It runs in a \<open>std::packaged_task\<close>, which keeps what
  \<open>setException\<close> throws.\<close>

definition catch_all :: "thrown \<Rightarrow> 'a cell \<Rightarrow> 'a cell option" where
  "catch_all e c = Some (case setException e c of Inl _ \<Rightarrow> c | Inr d \<Rightarrow> d)"

definition async_body :: "'a called \<Rightarrow> 'a cell \<Rightarrow> 'a cell option" where
  "async_body r c =
     (case r of
        Call_Returns x \<Rightarrow> (case setValue x c of Inr d \<Rightarrow> Some d | Inl e \<Rightarrow> catch_all e c)
      | Call_Throws e \<Rightarrow> catch_all e c)"

text \<open>A scheduler with the promises of its tasks. The task with number \<open>t\<close> settles promise \<open>t\<close>: \<open>submit\<close> makes a promise
  and queues the task, \<open>delay\<close> queues it later. A client can get a future at any time.\<close>

record ('s, 'a) promises =
  pr_scheduler :: 's
  pr_cells :: "'a cell list"
  pr_terminated :: bool

definition new_promises :: "'s \<Rightarrow> ('s, 'a) promises" where
  "new_promises s = \<lparr>pr_scheduler = s, pr_cells = [], pr_terminated = False\<rparr>"

definition finish_task :: "('a called \<Rightarrow> 'a cell \<Rightarrow> 'a cell option) \<Rightarrow> 'a called \<Rightarrow> nat \<Rightarrow> ('s, 'a) promises \<Rightarrow> ('s, 'a) promises" where
  "finish_task task r t w =
     (case task r (pr_cells w ! t) of
        Some c \<Rightarrow> w\<lparr>pr_cells := (pr_cells w)[t := c]\<rparr>
      | None \<Rightarrow> w\<lparr>pr_terminated := True\<rparr>)"

inductive promise_step :: "('s \<Rightarrow> 's \<Rightarrow> bool) \<Rightarrow> ('s \<Rightarrow> nat list) \<Rightarrow> ('s \<Rightarrow> nat list) \<Rightarrow> ('a called \<Rightarrow> 'a cell \<Rightarrow> 'a cell option)
    \<Rightarrow> (nat \<Rightarrow> 'a called) \<Rightarrow> ('s, 'a) promises \<Rightarrow> ('s, 'a) promises \<Rightarrow> bool"
  for stp queued ran task f where
  make_promise: "\<not> pr_terminated w \<Longrightarrow> promise_step stp queued ran task f w (w\<lparr>pr_cells := pr_cells w @ [new_Promise]\<rparr>)"
| queue_task: "\<not> pr_terminated w \<Longrightarrow> stp (pr_scheduler w) s \<Longrightarrow> queued s = queued (pr_scheduler w) @ [t] \<Longrightarrow>
     ran s = ran (pr_scheduler w) \<Longrightarrow> t < length (pr_cells w) \<Longrightarrow> t \<notin> set (queued (pr_scheduler w)) \<Longrightarrow>
     promise_step stp queued ran task f w (w\<lparr>pr_scheduler := s\<rparr>)"
| run_task: "\<not> pr_terminated w \<Longrightarrow> stp (pr_scheduler w) s \<Longrightarrow> queued s = queued (pr_scheduler w) \<Longrightarrow>
     ran s = ran (pr_scheduler w) @ [t] \<Longrightarrow>
     promise_step stp queued ran task f w (finish_task task (f t) t (w\<lparr>pr_scheduler := s\<rparr>))"
| move_scheduler: "\<not> pr_terminated w \<Longrightarrow> stp (pr_scheduler w) s \<Longrightarrow> queued s = queued (pr_scheduler w) \<Longrightarrow>
     ran s = ran (pr_scheduler w) \<Longrightarrow> promise_step stp queued ran task f w (w\<lparr>pr_scheduler := s\<rparr>)"
| get_future: "\<not> pr_terminated w \<Longrightarrow> t < length (pr_cells w) \<Longrightarrow>
     promise_step stp queued ran task f w (w\<lparr>pr_cells := (pr_cells w)[t := snd (get_shared (pr_cells w ! t))]\<rparr>)"

inductive promises_reachable :: "('s \<Rightarrow> 's \<Rightarrow> bool) \<Rightarrow> ('s \<Rightarrow> nat list) \<Rightarrow> ('s \<Rightarrow> nat list) \<Rightarrow> ('a called \<Rightarrow> 'a cell \<Rightarrow> 'a cell option)
    \<Rightarrow> (nat \<Rightarrow> 'a called) \<Rightarrow> 's \<Rightarrow> ('s, 'a) promises \<Rightarrow> bool"
  for stp queued ran task f s where
  promises_start: "promises_reachable stp queued ran task f s (new_promises s)"
| promises_next: "promises_reachable stp queued ran task f s w \<Longrightarrow> promise_step stp queued ran task f w v \<Longrightarrow>
     promises_reachable stp queued ran task f s v"

text \<open>What a settled promise holds. \<open>AsyncScheduler\<close> passes only the text of an exception on: whatever its type was,
  the future throws a \<open>std::runtime_error\<close>.\<close>

definition promised :: "'a called \<Rightarrow> 'a shared" where
  "promised r = (case r of Call_Returns x \<Rightarrow> Has_Value x | Call_Throws e \<Rightarrow> Has_Exception e)"

definition as_runtime_error :: "thrown \<Rightarrow> thrown" where
  "as_runtime_error e = (case e of Std_Exception type what \<Rightarrow> Std_Exception ''std::runtime_error'' what | Other_Exception \<Rightarrow> Other_Exception)"

definition async_promised :: "'a called \<Rightarrow> 'a shared" where
  "async_promised r = (case r of Call_Returns x \<Rightarrow> Has_Value x | Call_Throws e \<Rightarrow> Has_Exception (as_runtime_error e))"

section \<open>A queue that runs its tasks once\<close>

locale task_queue =
  fixes stp :: "'s \<Rightarrow> 's \<Rightarrow> bool" and reach :: "'s \<Rightarrow> bool" and queued ran :: "'s \<Rightarrow> nat list" and start :: 's
    and settles :: "'a called \<Rightarrow> 'a shared" and task :: "'a called \<Rightarrow> 'a cell \<Rightarrow> 'a cell option"
  assumes reach_start: "reach start" and nothing_queued: "queued start = []"
    and reach_step: "reach s \<Longrightarrow> stp s s' \<Longrightarrow> reach s'"
    and ran_queued: "reach s \<Longrightarrow> mset (ran s) \<subseteq># mset (queued s)"
    and task_settles: "\<not> is_settled c \<Longrightarrow> task r c = Some d \<Longrightarrow> cl_state d = settles r"
    and task_terminates: "\<not> is_settled c \<Longrightarrow> task r c = None \<Longrightarrow> r = Call_Throws Other_Exception"
begin

definition promises_inv :: "(nat \<Rightarrow> 'a called) \<Rightarrow> ('s, 'a) promises \<Rightarrow> bool" where
  "promises_inv f w \<longleftrightarrow>
     reach (pr_scheduler w) \<and> distinct (queued (pr_scheduler w))
   \<and> set (queued (pr_scheduler w)) \<subseteq> {..< length (pr_cells w)}
   \<and> (if pr_terminated w then \<exists>t \<in> set (ran (pr_scheduler w)). f t = Call_Throws Other_Exception
      else \<forall>t < length (pr_cells w). cl_state (pr_cells w ! t) = (if t \<in> set (ran (pr_scheduler w)) then settles (f t) else Not_Settled))"

lemma ran_once:
  assumes "reach s" "distinct (queued s)"
  shows "distinct (ran s) \<and> set (ran s) \<subseteq> set (queued s)"
proof -
  have "set (ran s) \<subseteq> set (queued s)" using set_mset_mono [OF ran_queued [OF assms(1)]] by simp
  moreover have "count (mset (ran s)) t \<le> 1" for t
  proof (cases "t \<in> set (queued s)")
    case True
    then show ?thesis using mset_subset_eq_count [OF ran_queued [OF assms(1)], of t] assms(2) by (simp add: distinct_count_atmost_1)
  next
    case False
    then have "count (mset (ran s)) t = 0" using \<open>set (ran s) \<subseteq> set (queued s)\<close> by auto
    then show ?thesis by linarith
  qed
  then have "count (mset (ran s)) t = (if t \<in> set (ran s) then 1 else 0)" for t
    using count_mset_gt_0 [of t "ran s"] by (auto simp: le_Suc_eq)
  then have "distinct (ran s)" by (simp add: distinct_count_atmost_1)
  ultimately show ?thesis by simp
qed

lemma inv_finish:
  assumes "promises_inv f w" "\<not> pr_terminated w" "stp (pr_scheduler w) s" "queued s = queued (pr_scheduler w)"
    "ran s = ran (pr_scheduler w) @ [t]"
  shows "promises_inv f (finish_task task (f t) t (w\<lparr>pr_scheduler := s\<rparr>))"
proof -
  have reach: "reach s" using reach_step [of "pr_scheduler w"] assms(1,3) by (simp add: promises_inv_def)
  have "distinct (queued s)" using assms(1,4) by (simp add: promises_inv_def)
  from ran_once [OF reach this] have t: "t \<notin> set (ran (pr_scheduler w))" "t < length (pr_cells w)"
    using assms(1,4,5) by (auto simp: promises_inv_def)
  then have "\<not> is_settled (pr_cells w ! t)" using assms(1,2) by (simp add: promises_inv_def is_settled_def)
  then show ?thesis
    using task_settles [of "pr_cells w ! t" "f t"] task_terminates [of "pr_cells w ! t" "f t"] assms t reach
    by (auto simp: promises_inv_def finish_task_def nth_list_update split: option.splits)
qed

lemma get_keeps_state: "cl_state (snd (get_shared c)) = cl_state c"
  by (simp add: get_shared_def split: shared.split)

lemma inv_promise_step:
  assumes "promise_step stp queued ran task f w v" "promises_inv f w"
  shows "promises_inv f v"
  using assms
proof (induction rule: promise_step.induct)
  case (make_promise w)
  have "t \<noteq> length (pr_cells w)" if "t \<in> set (ran (pr_scheduler w))" for t
    using make_promise ran_once [of "pr_scheduler w"] that by (auto simp: promises_inv_def)
  then show ?case
    using make_promise by (auto simp: promises_inv_def nth_append new_Promise_def less_Suc_eq)
next
  case (run_task w s t)
  then show ?case by (intro inv_finish)
qed (auto simp: promises_inv_def nth_list_update get_keeps_state intro: reach_step)

lemma inv_promises:
  assumes "promises_reachable stp queued ran task f start w"
  shows "promises_inv f w"
  using assms
proof (induction rule: promises_reachable.induct)
  case promises_start
  then show ?case using reach_start nothing_queued by (simp add: promises_inv_def new_promises_def)
qed (auto intro: inv_promise_step)

lemma promise_of_task:
  assumes "promises_reachable stp queued ran task f start w" "t < length (pr_cells w)"
  shows "if pr_terminated w then \<exists>u \<in> set (ran (pr_scheduler w)). f u = Call_Throws Other_Exception
    else cl_state (pr_cells w ! t) = (if t \<in> set (ran (pr_scheduler w)) then settles (f t) else Not_Settled)"
  using inv_promises [OF assms(1)] assms(2) by (auto simp: promises_inv_def)

end

text \<open>The two schedulers.\<close>

definition async_moves :: "async \<Rightarrow> async \<Rightarrow> bool" where
  "async_moves p q \<longleftrightarrow> async_step p q \<or> async_call p q"

definition pool_moves :: "pool \<Rightarrow> pool \<Rightarrow> bool" where
  "pool_moves p q \<longleftrightarrow> pool_step p q \<or> (\<exists>i < length (workers p). q = set_worker i (wake_worker (workers p ! i)) p)"

lemma task_facts:
  assumes "\<not> is_settled c"
  shows "submitted_task r c = Some d \<Longrightarrow> cl_state d = async_promised r" "submitted_task r c = None \<Longrightarrow> r = Call_Throws Other_Exception"
    "async_body r c = Some d \<Longrightarrow> cl_state d = promised r" "async_body r c \<noteq> None"
  using assms
  by (auto simp: submitted_task_def catch_reject_def resolve_def reject_def setValue_def setException_def promised_def
    async_promised_def as_runtime_error_def
    async_body_def catch_all_def split: called.splits thrown.splits)

interpretation aq: task_queue async_moves "async_reachable n m" async_submitted async_executed "new_AsyncScheduler n m" async_promised submitted_task
  for n m
proof
  fix s s' assume s: "async_reachable n m s"
  show "mset (async_executed s) \<subseteq># mset (async_submitted s)" using inv_async [OF s] by (simp add: async_inv_def)
  show "async_moves s s' \<Longrightarrow> async_reachable n m s'"
    using async_next [OF s] async_calls [OF s] by (auto simp: async_moves_def)
qed (auto simp: task_facts intro: async_start, simp add: new_AsyncScheduler_def)

interpretation tq: task_queue pool_moves "pool_reachable n" submitted executed "new_ThreadPool n" promised async_body for n
proof
  fix s s' assume s: "pool_reachable n s"
  show "mset (executed s) \<subseteq># mset (submitted s)" using inv_pool_reachable [OF s] by (simp add: pool_inv_def)
  show "pool_moves s s' \<Longrightarrow> pool_reachable n s'"
    using pool_next [OF s] pool_spurious [OF s] by (auto simp: pool_moves_def)
qed (auto simp: task_facts intro: pool_start, simp add: new_ThreadPool_def)

section \<open>What a future gives\<close>

text \<open>On both schedulers, in every reachable state, the promise of a task is settled exactly if the task has run, and
  with what its function returned or, on the pool, threw; on \<open>AsyncScheduler\<close> a thrown exception becomes a
  \<open>std::runtime_error\<close> with its text. No promise is settled twice. Only \<open>AsyncScheduler\<close> can end the
  process, through a task that throws something that does not derive from \<open>std::exception\<close>.\<close>

theorem promises_settled_by_tasks:
  assumes "promises_reachable async_moves async_submitted async_executed submitted_task f (new_AsyncScheduler n m) w"
    and "promises_reachable pool_moves submitted executed async_body f (new_ThreadPool n) v"
    and "t < length (pr_cells w)" "t < length (pr_cells v)"
  shows "(if pr_terminated w then \<exists>u. f u = Call_Throws Other_Exception
      else cl_state (pr_cells w ! t) = (if t \<in> set (async_executed (pr_scheduler w)) then async_promised (f t) else Not_Settled))
    \<and> \<not> pr_terminated v
    \<and> cl_state (pr_cells v ! t) = (if t \<in> set (executed (pr_scheduler v)) then promised (f t) else Not_Settled)"
proof -
  have "\<not> pr_terminated v"
    using assms(2)
  proof (induction rule: promises_reachable.induct)
    case (promises_next w v)
    from promises_next(2,3) show ?case
      by (induction rule: promise_step.induct) (auto simp: finish_task_def task_facts async_body_def catch_all_def
        split: option.splits called.splits sum.splits)
  qed (simp add: new_promises_def)
  then show ?thesis
    using aq.promise_of_task [OF assms(1,3)] tq.promise_of_task [OF assms(2,4)] by (auto split: if_splits)
qed

text \<open>One worker runs one submitted task, from the start to its sleep.\<close>

definition one_task :: "nat list \<Rightarrow> nat list \<Rightarrow> nat \<Rightarrow> async_thread \<Rightarrow> async" where
  "one_task su ex k th = \<lparr>async_threads = [th], async_tasks = drop (length ex + (case th of Work_Running _ \<Rightarrow> 1 | _ \<Rightarrow> 0)) su,
     async_stop = False, async_notify = k, async_joining = False, async_submitted = su, async_executed = ex\<rparr>"

definition one_promise :: "async \<Rightarrow> nat cell list \<Rightarrow> (async, nat) promises" where
  "one_promise s cs = \<lparr>pr_scheduler = s, pr_cells = cs, pr_terminated = False\<rparr>"

abbreviation one_reachable :: "async \<Rightarrow> nat cell list \<Rightarrow> bool" where
  "one_reachable s cs \<equiv> promises_reachable async_moves async_submitted async_executed submitted_task (\<lambda>t. Call_Returns (t + 7))
     (new_AsyncScheduler 1 0) (one_promise s cs)"

lemma one_move:
  assumes "one_reachable s cs" "async_moves s s'" "async_submitted s' = async_submitted s" "async_executed s' = async_executed s"
  shows "one_reachable s' cs"
  using promises_next [OF assms(1) move_scheduler [of _ _ s']] assms(2-4) by (simp add: one_promise_def)

lemma one_task_reachable: "one_reachable (one_task [0] [0] 0 Work_Asleep) [\<lparr>cl_state = Has_Value 7, cl_valid = True\<rparr>]"
proof -
  note upd = one_task_def async_test_def async_run_def async_submit_def set_async_def
  have "one_reachable (one_task [] [] 0 Work_Ready) []"
    using promises_start [of async_moves async_submitted async_executed submitted_task "\<lambda>t. Call_Returns (t + 7)" "new_AsyncScheduler 1 0"]
    by (simp add: one_promise_def new_promises_def new_AsyncScheduler_def one_task_def)
  from promises_next [OF this make_promise] have 1: "one_reachable (one_task [] [] 0 Work_Ready) [new_Promise]"
    by (simp add: one_promise_def)
  have "async_moves (one_task [] [] 0 Work_Ready) (one_task [0] [] 1 Work_Ready)"
    using call_submit [of "one_task [] [] 0 Work_Ready" 0] by (simp add: async_moves_def upd)
  then have 2: "one_reachable (one_task [0] [] 1 Work_Ready) [new_Promise]"
    using promises_next [OF 1 queue_task [of _ _ "one_task [0] [] 1 Work_Ready" _ 0]] by (simp add: one_promise_def one_task_def)
  have "async_moves (one_task [0] [] 1 Work_Ready) (one_task [0] [] 0 Work_Ready)"
    using async_notifies [of "one_task [0] [] 1 Work_Ready" 0 "[Work_Ready]"] by (simp add: async_moves_def one_task_def notify_some_def)
  from one_move [OF 2 this] have 3: "one_reachable (one_task [0] [] 0 Work_Ready) [new_Promise]" by (simp add: one_task_def)
  have "async_moves (one_task [0] [] 0 Work_Ready) (one_task [0] [] 0 (Work_Running 0))"
    using async_tests [of 0 "one_task [0] [] 0 Work_Ready"] by (simp add: async_moves_def upd)
  from one_move [OF 3 this] have 4: "one_reachable (one_task [0] [] 0 (Work_Running 0)) [new_Promise]" by (simp add: one_task_def)
  have "async_moves (one_task [0] [] 0 (Work_Running 0)) (one_task [0] [0] 0 Work_Ready)"
    using async_runs [of 0 "one_task [0] [] 0 (Work_Running 0)" 0] by (simp add: async_moves_def upd)
  then have 5: "one_reachable (one_task [0] [0] 0 Work_Ready) [\<lparr>cl_state = Has_Value 7, cl_valid = True\<rparr>]"
    using promises_next [OF 4 run_task [of _ _ "one_task [0] [0] 0 Work_Ready" _ _ 0]]
    by (simp add: one_promise_def one_task_def finish_task_def submitted_task_def resolve_def setValue_def is_settled_def new_Promise_def)
  have "async_moves (one_task [0] [0] 0 Work_Ready) (one_task [0] [0] 0 Work_Asleep)"
    using async_tests [of 0 "one_task [0] [0] 0 Work_Ready"] by (simp add: async_moves_def upd)
  from one_move [OF 5 this] show ?thesis by (simp add: one_task_def)
qed

theorem promises_settled_by_tasks_witness:
  "cl_state (pr_cells (one_promise (one_task [0] [0] 0 Work_Asleep) [\<lparr>cl_state = Has_Value 7, cl_valid = True\<rparr>]) ! 0) = Has_Value 7"
proof -
  have "promise_step pool_moves submitted executed async_body (\<lambda>t. Call_Returns (t + 7)) (new_promises (new_ThreadPool 1))
      ((new_promises (new_ThreadPool 1))\<lparr>pr_cells := [new_Promise :: nat cell]\<rparr>)"
    using make_promise [of "new_promises (new_ThreadPool 1)"] by (simp add: new_promises_def)
  from promises_settled_by_tasks [OF one_task_reachable promises_next [OF promises_start this], of 0]
  show ?thesis by (simp add: one_promise_def one_task_def async_promised_def)
qed

text \<open>C37: when an \<open>AsyncScheduler\<close> with at least one worker rests, was not stopped, nobody calls its \<open>waitForAll\<close> and
  no task threw something that does not derive from \<open>std::exception\<close>, every task that was queued has settled its
  promise: the first \<open>get\<close> of its future returns what its function returned, or throws a \<open>std::runtime_error\<close> with
  the text of what it threw. (A caller of \<open>waitForAll\<close> can take the notification of a task, which then is never run;
  the type of an exception is lost.)\<close>

theorem async_futures_delivered:
  assumes "promises_reachable async_moves async_submitted async_executed submitted_task f (new_AsyncScheduler n 0) w"
    and "async_stuck (pr_scheduler w)" "0 < n" "\<not> async_stop (pr_scheduler w)" "\<not> pr_terminated w"
    and "t \<in> set (async_submitted (pr_scheduler w))" "cl_valid (pr_cells w ! t)"
  shows "fst (future_get (pr_cells w) (new_Future (Some t))) = (case f t of Call_Returns x \<Rightarrow> Fut_Returns x | Call_Throws e \<Rightarrow> Fut_Throws (as_runtime_error e))"
proof -
  note inv = aq.inv_promises [OF assms(1), unfolded aq.promises_inv_def]
  have "mset (async_executed (pr_scheduler w)) = mset (async_submitted (pr_scheduler w))"
    using inv assms(2-4) by (intro rest_executed) simp_all
  then have "t \<in> set (async_executed (pr_scheduler w))" using assms(6) by (metis set_mset_mset)
  moreover have "t < length (pr_cells w)" using inv assms(6) by auto
  ultimately have "cl_state (pr_cells w ! t) = async_promised (f t)" using inv assms(5) by simp
  then show ?thesis
    using assms(7) by (auto simp: future_get_def new_Future_def get_shared_def async_promised_def split: called.splits)
qed

theorem async_futures_delivered_witness:
  "fst (future_get [\<lparr>cl_state = Has_Value (7::nat), cl_valid = True\<rparr>] (new_Future (Some 0))) = Fut_Returns 7"
  using async_futures_delivered [OF one_task_reachable, of 0] sleeping_stuck [of "one_task [0] [0] 0 Work_Asleep"]
  by (simp add: one_promise_def one_task_def)

section \<open>Copies of a future\<close>

text \<open>A program over futures that share one promise. Variables are numbered in the order in which they are made.\<close>

datatype client_op = Copy_Future nat | Get nat | Is_Ready nat | Wait nat

datatype 'a answer = Copied | Got "'a fut" | Said "bool fut" | Waited "unit fut"

definition client_step :: "client_op \<Rightarrow> 'a cell list \<times> 'a future list \<Rightarrow> 'a answer \<times> 'a cell list \<times> 'a future list" where
  "client_step p s =
     (case s of (cs, us) \<Rightarrow>
       (case p of
          Copy_Future j \<Rightarrow> (Copied, cs, us @ [us ! j])
        | Get j \<Rightarrow> (case future_get cs (us ! j) of (r, ds, u) \<Rightarrow> (Got r, ds, us[j := u]))
        | Is_Ready j \<Rightarrow> (Said (future_isReady cs (us ! j)), cs, us)
        | Wait j \<Rightarrow> (Waited (future_wait cs (us ! j)), cs, us)))"

primrec client_run :: "client_op list \<Rightarrow> 'a cell list \<times> 'a future list \<Rightarrow> 'a answer list" where
  "client_run [] s = []"
| "client_run (p # ps) s = (case client_step p s of (a, s') \<Rightarrow> a # client_run ps s')"

text \<open>Every operation names a variable that exists.\<close>

primrec names_exist :: "nat \<Rightarrow> client_op list \<Rightarrow> bool" where
  "names_exist n [] = True"
| "names_exist n (p # ps) =
     (case p of Copy_Future j \<Rightarrow> j < n \<and> names_exist (Suc n) ps | Get j \<Rightarrow> j < n \<and> names_exist n ps
      | Is_Ready j \<Rightarrow> j < n \<and> names_exist n ps | Wait j \<Rightarrow> j < n \<and> names_exist n ps)"

definition no_get :: "client_op \<Rightarrow> bool" where
  "no_get p = (case p of Get j \<Rightarrow> False | _ \<Rightarrow> True)"

definition is_copy :: "client_op \<Rightarrow> bool" where
  "is_copy p = (case p of Copy_Future j \<Rightarrow> True | _ \<Rightarrow> False)"

text \<open>The answers before the first \<open>get\<close>, that of the first \<open>get\<close>, and those after it, when \<open>holders\<close> tells
  which variables have the value in their cache.\<close>

definition early_answer :: "client_op \<Rightarrow> 'a answer" where
  "early_answer p =
     (case p of Copy_Future j \<Rightarrow> Copied | Is_Ready j \<Rightarrow> Said (Fut_Returns True) | Wait j \<Rightarrow> Waited (Fut_Returns ())
      | Get j \<Rightarrow> Got Fut_Undefined)"

definition first_answer :: "'a shared \<Rightarrow> 'a fut" where
  "first_answer x = (case x of Not_Settled \<Rightarrow> Fut_Waits | Has_Value v \<Rightarrow> Fut_Returns v | Has_Exception e \<Rightarrow> Fut_Throws e)"

definition has_value :: "'a shared \<Rightarrow> bool" where
  "has_value x = (case x of Has_Value v \<Rightarrow> True | _ \<Rightarrow> False)"

primrec late_answers :: "'a shared \<Rightarrow> bool list \<Rightarrow> client_op list \<Rightarrow> 'a answer list" where
  "late_answers x holders [] = []"
| "late_answers x holders (p # ps) =
     (case p of
        Copy_Future j \<Rightarrow> Copied # late_answers x (holders @ [holders ! j]) ps
      | Get j \<Rightarrow> Got (if holders ! j then first_answer x else Fut_Undefined) # late_answers x holders ps
      | Is_Ready j \<Rightarrow> Said Fut_Undefined # late_answers x holders ps
      | Wait j \<Rightarrow> Waited Fut_Undefined # late_answers x holders ps)"

definition fresh_copy :: "'a future \<Rightarrow> bool" where
  "fresh_copy u \<longleftrightarrow> u = new_Future (Some 0)"

definition old_copy :: "'a shared \<Rightarrow> bool \<Rightarrow> 'a future \<Rightarrow> bool" where
  "old_copy x h u \<longleftrightarrow> fu_shared u = Some 0 \<and> fu_has_cached u = h \<and> (h \<longrightarrow> (\<exists>v. x = Has_Value v \<and> fu_cached u = Some v))"

lemma answers_after:
  assumes "names_exist (length us) ps" "list_all2 (old_copy x) hs us"
  shows "client_run ps ([\<lparr>cl_state = x, cl_valid = False\<rparr>], us) = late_answers x hs ps"
  using assms
proof (induction ps arbitrary: us hs)
  case (Cons p ps)
  have old: "old_copy x (hs ! j) (us ! j)" if "j < length us" for j
    using Cons(3) that by (simp add: list_all2_conv_all_nth)
  show ?case
  proof (cases p)
    case (Get j)
    then have "future_get [\<lparr>cl_state = x, cl_valid = False\<rparr>] (us ! j)
        = (if hs ! j then first_answer x else Fut_Undefined, [\<lparr>cl_state = x, cl_valid = False\<rparr>], us ! j)"
      using old [of j] Cons(2) by (auto simp: future_get_def get_shared_def old_copy_def first_answer_def)
    then show ?thesis using Get Cons by (simp add: client_step_def)
  next
    case (Copy_Future j)
    then have "list_all2 (old_copy x) (hs @ [hs ! j]) (us @ [us ! j])"
      using Cons(2,3) old [of j] by (intro list_all2_appendI) simp_all
    then show ?thesis using Copy_Future Cons by (simp add: client_step_def)
  qed (use Cons old in \<open>auto simp: client_step_def future_isReady_def future_wait_def old_copy_def\<close>)
qed simp

lemma answers_before:
  assumes "names_exist (length us) ps" "list_all fresh_copy us" "list_all no_get ps" "x \<noteq> Not_Settled"
  shows "\<exists>vs. list_all fresh_copy vs \<and> length vs = length us + length (filter is_copy ps)
    \<and> (\<forall>qs. client_run (ps @ qs) ([\<lparr>cl_state = x, cl_valid = True\<rparr>], us)
        = map early_answer ps @ client_run qs ([\<lparr>cl_state = x, cl_valid = True\<rparr>], vs))"
  using assms
proof (induction ps arbitrary: us)
  case Nil
  then show ?case by (intro exI [of _ us]) simp
next
  case (Cons p ps)
  have settled: "is_settled \<lparr>cl_state = x, cl_valid = True\<rparr>" using Cons(5) by (simp add: is_settled_def split: shared.split)
  have fresh: "us ! j = new_Future (Some 0)" if "j < length us" for j
    using Cons(3) that by (simp add: list_all_length fresh_copy_def)
  define us1 where "us1 = (case p of Copy_Future j \<Rightarrow> us @ [us ! j] | _ \<Rightarrow> us)"
  have step: "client_step p ([\<lparr>cl_state = x, cl_valid = True\<rparr>], us) = (early_answer p, [\<lparr>cl_state = x, cl_valid = True\<rparr>], us1)"
      "list_all fresh_copy us1" "names_exist (length us1) ps" "length us1 = length us + (if is_copy p then 1 else 0)"
    using Cons(2-4) settled fresh
    by (cases p; simp add: us1_def client_step_def early_answer_def no_get_def is_copy_def future_isReady_def future_wait_def
        fresh_copy_def; simp add: new_Future_def)+
  have "list_all no_get ps" using Cons(4) by simp
  from Cons(1) [OF step(3,2) this Cons(5)] obtain vs where v: "list_all fresh_copy vs" "length vs = length us1 + length (filter is_copy ps)"
    "\<And>qs. client_run (ps @ qs) ([\<lparr>cl_state = x, cl_valid = True\<rparr>], us1)
      = map early_answer ps @ client_run qs ([\<lparr>cl_state = x, cl_valid = True\<rparr>], vs)"
    by blast
  then show ?case using step(1,4) by (intro exI [of _ vs]) simp
qed

lemma names_append: "names_exist n (ps @ qs) \<longleftrightarrow> names_exist n ps \<and> names_exist (n + length (filter is_copy ps)) qs"
  by (induction ps arbitrary: n) (auto simp: is_copy_def split: client_op.splits)

text \<open>C38: when the promise of a future is settled, the answers to every program over the future and its copies are: before
  the first \<open>get\<close> every copy is ready and waiting returns; the first \<open>get\<close> returns the value or throws; after it
  \<open>isReady\<close> and \<open>wait\<close> are undefined on every copy, and \<open>get\<close> returns the same value exactly on the copy that got
  it and on the copies made of that one afterwards, and is undefined on every other. If the function threw, every
  later \<open>get\<close> is undefined.\<close>

theorem future_asked_once:
  assumes "x \<noteq> Not_Settled" "list_all no_get ps" "names_exist 1 (ps @ Get j # qs)"
  shows "client_run (ps @ Get j # qs) ([\<lparr>cl_state = x, cl_valid = True\<rparr>], [new_Future (Some 0)])
    = map early_answer ps @ Got (first_answer x)
      # late_answers x ((replicate (1 + length (filter is_copy ps)) False)[j := has_value x]) qs"
proof -
  let ?c = "\<lparr>cl_state = x, cl_valid = True\<rparr>"
  obtain vs where v: "list_all fresh_copy vs" "length vs = 1 + length (filter is_copy ps)"
      "\<And>qs. client_run (ps @ qs) ([?c], [new_Future (Some 0)]) = map early_answer ps @ client_run qs ([?c], vs)"
    using answers_before [of "[new_Future (Some 0)]" ps x] assms names_append by (auto simp: fresh_copy_def)
  have j: "j < length vs" "names_exist (length vs) qs" using assms(3) v(2) names_append [of 1 ps] by auto
  then have u: "vs ! j = new_Future (Some 0)" using v(1) by (auto simp: list_all_length fresh_copy_def)
  define u1 where "u1 = snd (snd (future_get [?c] (vs ! j)))"
  have get: "future_get [?c] (vs ! j) = (first_answer x, [\<lparr>cl_state = x, cl_valid = False\<rparr>], u1)" "old_copy x (has_value x) u1"
    using assms(1) u by (cases x; simp add: u1_def future_get_def get_shared_def new_Future_def old_copy_def first_answer_def has_value_def)+
  have "list_all2 (old_copy x) (replicate (length vs) False) vs"
    using v(1) by (auto simp: list_all2_conv_all_nth list_all_length fresh_copy_def old_copy_def new_Future_def)
  then have "list_all2 (old_copy x) ((replicate (length vs) False)[j := has_value x]) (vs[j := u1])"
    using get(2) by (rule list_all2_update_cong)
  then have "client_run qs ([\<lparr>cl_state = x, cl_valid = False\<rparr>], vs[j := u1])
      = late_answers x ((replicate (length vs) False)[j := has_value x]) qs"
    using j(2) by (intro answers_after) simp_all
  then show ?thesis using v(2,3) get by (simp add: client_step_def)
qed

theorem future_asked_once_witness:
  "client_run [Copy_Future 0, Is_Ready 1, Get 0, Get 1, Get 0, Copy_Future 0, Get 2, Wait 2]
     ([\<lparr>cl_state = Has_Value (7::nat), cl_valid = True\<rparr>], [new_Future (Some 0)])
   = [Copied, Said (Fut_Returns True), Got (Fut_Returns 7), Got Fut_Undefined, Got (Fut_Returns 7), Copied, Got (Fut_Returns 7),
      Waited Fut_Undefined]"
  using future_asked_once [of "Has_Value (7::nat)" "[Copy_Future 0, Is_Ready 1]" 0 "[Get 1, Get 0, Copy_Future 0, Get 2, Wait 2]"]
  by (simp add: no_get_def is_copy_def early_answer_def first_answer_def has_value_def)

section \<open>Select\<close>

text \<open>\<open>tryReceive\<close> on the channels in turn, until one gives a value. \<open>receive\<close> waits on a channel that is open and empty.\<close>

primrec try_receive_all :: "nat \<Rightarrow> 'a channel list \<Rightarrow> (nat \<times> 'a) option outcome \<times> 'a channel list" where
  "try_receive_all i [] = (Return None, [])"
| "try_receive_all i (c # cs) =
     (case receive c of
        (Sleep, d) \<Rightarrow> (Sleep, d # cs)
      | (Return (Some x), d) \<Rightarrow> (Return (Some (i, x)), d # cs)
      | (Return None, d) \<Rightarrow> (case try_receive_all (Suc i) cs of (r, ds) \<Rightarrow> (r, d # ds)))"

text \<open>The result, and the call of \<open>onReceive\<close> if there is one.\<close>

definition select_execute :: "bool \<Rightarrow> 'a channel list \<Rightarrow> (int \<times> (nat \<times> 'a) option) outcome \<times> 'a channel list" where
  "select_execute has_receiver cs =
     (case try_receive_all 0 cs of
        (Sleep, ds) \<Rightarrow> (Sleep, ds)
      | (Return r, ds) \<Rightarrow> (Return (- 1, if has_receiver then r else None), ds))"

definition exhausted :: "'a channel \<Rightarrow> bool" where
  "exhausted c \<longleftrightarrow> ch_closed c \<and> ch_buffer c = []"

text \<open>\<open>execute\<close> depends only on the first channel that is not closed and empty: it waits there although a later one is
  ready, and returns -1 whether it received a value or not.\<close>

theorem select_first_open:
  "select_execute h cs =
     (let k = length (takeWhile exhausted cs) in
      if k = length cs then (Return (- 1, None), cs)
      else if ch_buffer (cs ! k) = [] then (Sleep, cs)
      else (Return (- 1, if h then Some (k, hd (ch_buffer (cs ! k))) else None), cs[k := (cs ! k)\<lparr>ch_buffer := tl (ch_buffer (cs ! k))\<rparr>]))"
proof -
  have "try_receive_all i cs =
     (let k = length (takeWhile exhausted cs) in
      if k = length cs then (Return None, cs)
      else if ch_buffer (cs ! k) = [] then (Sleep, cs)
      else (Return (Some (i + k, hd (ch_buffer (cs ! k)))), cs[k := (cs ! k)\<lparr>ch_buffer := tl (ch_buffer (cs ! k))\<rparr>]))" for i
    by (induction cs arbitrary: i) (auto simp: receive_def exhausted_def Let_def)
  from this [of 0] show ?thesis by (simp add: select_execute_def Let_def)
qed

end
