(* ===== verification/Tocin_Enhanced.thy ===== *)
theory Tocin_Enhanced
  imports Tocin_Interpreter
begin

text \<open>
  The visitors of \<open>EnhancedInterpreter\<close> in \<open>interpreter/src/Interpreter.cpp\<close>, over the caches and guards of
  \<open>Tocin_Interpreter\<close>. The visitors of its base class are declared and defined nowhere, so what they do to a node is an
  argument, as are the visits of the nodes below. The optimizer changes only pointers of its own and is left out.
\<close>

section \<open>State\<close>

text \<open>Of the compiler for functions only two pointers matter: its module, which the first compilation gives to the engine,
  and the engine.\<close>

record 'v enhanced =
  en_cache :: "string \<Rightarrow> 'v option"
  en_counts :: "string \<Rightarrow> nat option"
  en_registry :: "string \<Rightarrow> nat option"
  en_nullable :: "string set"
  en_loops :: loops
  en_environment :: environment
  en_store :: "'v env_store"
  en_modules :: "string \<Rightarrow> environment option"
  en_analyzer :: analyzer
  en_jit_module :: bool
  en_jit_engine :: bool
  en_reported :: "string list"

text \<open>What a visit ends with. A visitor that returns nothing gives \<open>None\<close>.\<close>

datatype 'v en_result = En_Value "'v option" | En_Throws string | En_Undefined

type_synonym 'v en_visit = "'v enhanced \<Rightarrow> 'v en_result \<times> 'v enhanced"

definition initializeEnhancedFeatures :: "'v enhanced \<Rightarrow> 'v enhanced" where
  "initializeEnhancedFeatures s =
     s\<lparr>en_analyzer := analyzeSymbol ''print'' \<lparr>si_type = ''function'', si_mutable = False, si_nullable = False, si_dependencies = []\<rparr>
         (en_analyzer s)\<rparr>"

definition new_EnhancedInterpreter :: "environment \<Rightarrow> 'v env_store \<Rightarrow> 'v enhanced" where
  "new_EnhancedInterpreter e st = initializeEnhancedFeatures
     \<lparr>en_cache = Map.empty, en_counts = Map.empty, en_registry = Map.empty, en_nullable = {}, en_loops = Map.empty,
      en_environment = e, en_store = st, en_modules = Map.empty, en_analyzer = new_StaticAnalyzer,
      en_jit_module = True, en_jit_engine = False, en_reported = []\<rparr>"

definition en_report :: "string \<Rightarrow> 'v enhanced \<Rightarrow> 'v enhanced" where
  "en_report msg s = s\<lparr>en_reported := en_reported s @ [msg]\<rparr>"

section \<open>Visitors\<close>

text \<open>The key of a binary expression is its operator alone. \<open>oldest\<close> is the entry that the cache would drop.\<close>

definition binary_key :: "nat \<Rightarrow> string" where
  "binary_key op = ''binary_'' @ show_nat op"

definition visitBinary :: "string \<Rightarrow> 'v en_visit \<Rightarrow> nat \<Rightarrow> 'v en_visit" where
  "visitBinary oldest base op s =
     (case cache_get (binary_key op) (en_cache s) of
        Some v \<Rightarrow> (En_Value (Some v), s)
      | None \<Rightarrow>
          (case base s of
             (En_Value (Some v), s1) \<Rightarrow> (En_Value (Some v), s1\<lparr>en_cache := cache_put oldest (binary_key op) v (en_cache s1)\<rparr>)
           | r \<Rightarrow> r))"

text \<open>The compiler for functions. The first compilation makes the engine from the module.\<close>

definition compileFunction :: "bool \<Rightarrow> 'v en_visit" where
  "compileFunction creates s =
     (if en_jit_engine s then (En_Value None, s)
      else if creates then (En_Value None, s\<lparr>en_jit_module := False, en_jit_engine := True\<rparr>)
      else (En_Throws ''Failed to create execution engine: '', s\<lparr>en_jit_module := False\<rparr>))"

definition visitFunction :: "bool \<Rightarrow> 'v en_visit \<Rightarrow> string \<Rightarrow> 'v en_visit" where
  "visitFunction creates base n s =
     (let c = (case en_counts s n of None \<Rightarrow> 0 | Some c \<Rightarrow> c);
          s1 = s\<lparr>en_analyzer := analyzeSymbol n \<lparr>si_type = ''function'', si_mutable = False, si_nullable = False, si_dependencies = []\<rparr>
                   (en_analyzer s), en_counts := (en_counts s)(n \<mapsto> c)\<rparr>
      in (case (if c > 1000 then compileFunction creates s1 else (En_Value None, s1)) of
            (En_Value _, s2) \<Rightarrow> base s2
          | r \<Rightarrow> r))"

text \<open>\<open>getCompiledFunction\<close> asks the engine for a function of the module: with a null pointer as either it is undefined.\<close>

definition visitCall :: "bool \<Rightarrow> 'v en_visit \<Rightarrow> 'v en_visit \<Rightarrow> 'v en_visit" where
  "visitCall is_compiled native base s =
     (if \<not> en_jit_engine s \<or> \<not> en_jit_module s then (En_Undefined, s)
      else if is_compiled then native s else base s)"

text \<open>The cache of patterns has one entry, the test for a floating point number.\<close>

primrec match_patterns :: "('v \<Rightarrow> bool) \<Rightarrow> 'v \<Rightarrow> (string \<times> 'v en_visit) list \<Rightarrow> 'v en_visit option" where
  "match_patterns is_double v [] = None"
| "match_patterns is_double v (p # ps) =
     (if fst p = ''number'' \<and> is_double v then Some (snd p) else match_patterns is_double v ps)"

definition visitMatch :: "('v \<Rightarrow> bool) \<Rightarrow> 'v en_visit \<Rightarrow> (string \<times> 'v en_visit) list \<Rightarrow> 'v en_visit option \<Rightarrow> 'v en_visit" where
  "visitMatch is_double subject ps default_case s =
     (case subject s of
        (En_Value (Some v), s1) \<Rightarrow>
          (case match_patterns is_double v ps of
             Some body \<Rightarrow> body s1
           | None \<Rightarrow> (case default_case of Some d \<Rightarrow> d s1 | None \<Rightarrow> (En_Value None, s1)))
      | r \<Rightarrow> r)"

primrec en_visit_all :: "'v en_visit list \<Rightarrow> 'v en_visit" where
  "en_visit_all [] s = (En_Value None, s)"
| "en_visit_all (f # fs) s = (case f s of (En_Value _, s1) \<Rightarrow> en_visit_all fs s1 | r \<Rightarrow> r)"

text \<open>\<open>files\<close> reads a file, \<open>program\<close> says what the lexer and the parser make of a module. The environment is not
  put back.\<close>

datatype 'v en_module = Lexical_Errors | Syntax_Errors | Statements "'v en_visit list"

definition import_fails :: "string \<Rightarrow> string \<Rightarrow> 'v en_visit" where
  "import_fails path msg s = (En_Throws msg, en_report (''Error loading module '' @ path @ '': '' @ msg) s)"

definition visitImport :: "(string \<Rightarrow> string option) \<Rightarrow> (string \<Rightarrow> string \<Rightarrow> 'v en_module) \<Rightarrow> string \<Rightarrow> 'v en_visit" where
  "visitImport files program path s =
     (case en_modules s path of
        Some e \<Rightarrow> (En_Value None, s\<lparr>en_environment := e\<rparr>)
      | None \<Rightarrow>
          (case new_Environment None (en_store s) of (e, st) \<Rightarrow>
            (let s1 = s\<lparr>en_environment := e, en_store := st\<rparr>
             in case files path of
                  None \<Rightarrow> import_fails path (''Could not open module file: '' @ path) s1
                | Some content \<Rightarrow>
                    (case program path content of
                       Lexical_Errors \<Rightarrow> import_fails path (''Lexical error in module: '' @ path) s1
                     | Syntax_Errors \<Rightarrow> import_fails path (''Parse error in module: '' @ path) s1
                     | Statements fs \<Rightarrow>
                         (case en_visit_all fs s1 of
                            (En_Value _, s2) \<Rightarrow> (En_Value None, s2\<lparr>en_modules := (en_modules s2)(path \<mapsto> e)\<rparr>)
                          | (En_Throws msg, s2) \<Rightarrow> import_fails path msg s2
                          | (En_Undefined, s2) \<Rightarrow> (En_Undefined, s2))))))"

text \<open>\<open>type_name\<close> stands for \<open>getTypeName\<close>, \<open>null_value\<close> for the value of a declaration without initializer.\<close>

definition visitVariable :: "('v \<Rightarrow> string) \<Rightarrow> ('v \<Rightarrow> bool) \<Rightarrow> 'v \<Rightarrow> string \<Rightarrow> string \<Rightarrow> 'v en_visit option \<Rightarrow> 'v en_visit" where
  "visitVariable type_name is_null null_value n ty initializer s =
     (case initializer of
        None \<Rightarrow> (En_Value (Some null_value), s\<lparr>en_store := env_define (en_environment s) n null_value (en_store s)\<rparr>)
      | Some f \<Rightarrow>
          (case f s of
             (En_Value (Some v), s1) \<Rightarrow>
               (if \<not> isTypeCompatible (type_name v) ty (en_registry s1) then
                  (En_Throws (''Type mismatch in variable declaration: '' @ n), s1)
                else case checkNull n (is_null v) (en_nullable s1) of
                  Some msg \<Rightarrow> (En_Throws msg, s1)
                | None \<Rightarrow> (En_Value (Some v), s1\<lparr>en_store := env_define (en_environment s1) n v (en_store s1)\<rparr>))
           | r \<Rightarrow> r))"

text \<open>The guarded loop of \<open>visitWhileStmt\<close>. \<open>isTruthy\<close> and the identifier \<open>l\<close> of the loop, which is the address of its
  node, are arguments. The visits of the condition and the body may start, count and end any loops, this one included, and
  throw, which ends the loop without \<open>exitLoop\<close>.\<close>

partial_function (option) while_loop :: "('v \<Rightarrow> bool) \<Rightarrow> string \<Rightarrow> 'v en_visit \<Rightarrow> 'v en_visit \<Rightarrow> 'v enhanced \<Rightarrow>
    ('v en_result \<times> 'v enhanced) option" where
  "while_loop truthy l cond body s =
     (case cond s of
        (En_Value (Some v), s1) \<Rightarrow>
          (if truthy v then
             (case incrementLoop l (en_loops s1) of
                (Some msg, ls) \<Rightarrow> Some (En_Throws msg, s1\<lparr>en_loops := ls\<rparr>)
              | (None, ls) \<Rightarrow>
                  (case body (s1\<lparr>en_loops := ls\<rparr>) of
                     (En_Value _, s2) \<Rightarrow> while_loop truthy l cond body s2
                   | r \<Rightarrow> Some r))
           else Some (En_Value None, s1))
      | r \<Rightarrow> Some r)"

definition leave_loop :: "'v \<Rightarrow> string \<Rightarrow> 'v en_result \<times> 'v enhanced \<Rightarrow> 'v en_result \<times> 'v enhanced" where
  "leave_loop null_value l r =
     (case r of
        (En_Value _, s) \<Rightarrow> (En_Value (Some null_value), s\<lparr>en_loops := exitLoop l (en_loops s)\<rparr>)
      | _ \<Rightarrow> r)"

definition visitWhile :: "('v \<Rightarrow> bool) \<Rightarrow> 'v \<Rightarrow> string \<Rightarrow> 'v en_visit \<Rightarrow> 'v en_visit \<Rightarrow> 'v enhanced \<Rightarrow>
    ('v en_result \<times> 'v enhanced) option" where
  "visitWhile truthy null_value l cond body s =
     map_option (leave_loop null_value l)
       (while_loop truthy l cond body (s\<lparr>en_loops := enterLoop l (en_loops s)\<rparr>))"

text \<open>The guarded loop of \<open>visitForStmt\<close>.\<close>

definition en_optional :: "'v en_visit option \<Rightarrow> 'v en_visit" where
  "en_optional f s = (case f of None \<Rightarrow> (En_Value None, s) | Some g \<Rightarrow> g s)"

partial_function (option) for_loop :: "('v \<Rightarrow> bool) \<Rightarrow> string \<Rightarrow> 'v en_visit option \<Rightarrow> 'v en_visit option \<Rightarrow> 'v en_visit \<Rightarrow>
    'v enhanced \<Rightarrow> ('v en_result \<times> 'v enhanced) option" where
  "for_loop truthy l cond increment body s =
     (case cond of
        None \<Rightarrow> Some (En_Value None, s)
      | Some c \<Rightarrow>
          (case c s of
             (En_Value (Some v), s1) \<Rightarrow>
               (if truthy v then
                  (case incrementLoop l (en_loops s1) of
                     (Some msg, ls) \<Rightarrow> Some (En_Throws msg, s1\<lparr>en_loops := ls\<rparr>)
                   | (None, ls) \<Rightarrow>
                       (case en_visit_all [body, en_optional increment] (s1\<lparr>en_loops := ls\<rparr>) of
                          (En_Value _, s2) \<Rightarrow> for_loop truthy l cond increment body s2
                        | r \<Rightarrow> Some r))
                else Some (En_Value None, s1))
           | r \<Rightarrow> Some r))"

definition visitFor :: "('v \<Rightarrow> bool) \<Rightarrow> 'v \<Rightarrow> string \<Rightarrow> 'v en_visit option \<Rightarrow> 'v en_visit option \<Rightarrow> 'v en_visit option \<Rightarrow> 'v en_visit \<Rightarrow>
    'v enhanced \<Rightarrow> ('v en_result \<times> 'v enhanced) option" where
  "visitFor truthy null_value l initializer cond increment body s =
     (case en_optional initializer (s\<lparr>en_loops := enterLoop l (en_loops s)\<rparr>) of
        (En_Value _, s1) \<Rightarrow> map_option (leave_loop null_value l) (for_loop truthy l cond increment body s1)
      | r \<Rightarrow> Some r)"

text \<open>\<open>optimizeCode\<close>: the reports of the analysis. The orders are those in which the maps are iterated,
  \<open>room\<close> is the number of insertions that the map of the call graph takes without a rehash.\<close>

definition optimizeCode :: "nat \<Rightarrow> string list \<Rightarrow> string list \<Rightarrow> 'v enhanced \<Rightarrow> ('v en_result \<times> 'v enhanced) option" where
  "optimizeCode room graph_order table_order s =
     (case detectCircularDependencies room graph_order (en_analyzer s) of
        Never_Ends \<Rightarrow> None
      | Undefined_Behaviour \<Rightarrow> Some (En_Undefined, s)
      | Detected cyclic a \<Rightarrow>
          (let s1 = (if cyclic then en_report ''Circular dependencies detected'' else id) (s\<lparr>en_analyzer := a\<rparr>)
           in Some (En_Value None,
                fold (\<lambda>n. en_report (''Unused symbol: '' @ n)) (getUnusedSymbols graph_order table_order a) s1)))"

section \<open>Runs of the interpreter\<close>

text \<open>A function of the base class or of the runtime touches nothing but the environments and what it reports.\<close>

definition base_only :: "'v en_visit \<Rightarrow> bool" where
  "base_only f \<longleftrightarrow> (\<forall>s. \<exists>e st rs. snd (f s) = s\<lparr>en_environment := e, en_store := st, en_reported := rs\<rparr>)"

text \<open>The visits: what the visitors, \<open>optimizeCode\<close> and the functions of the base class can do, one after the other and in
  each other. A loop is a visit if it returns from every state; a visit that never returns has no successor.
  Operators are the numbers of token types, of which there are fewer than 200.\<close>

inductive en_visits :: "'v en_visit \<Rightarrow> bool" where
  vis_base: "base_only f \<Longrightarrow> en_visits f"
| vis_then: "en_visits f \<Longrightarrow> (\<And>v. en_visits (g v)) \<Longrightarrow> en_visits (\<lambda>s. case f s of (En_Value v, s1) \<Rightarrow> g v s1 | r \<Rightarrow> r)"
| vis_catch: "en_visits f \<Longrightarrow> (\<And>m. en_visits (g m)) \<Longrightarrow> en_visits (\<lambda>s. case f s of (En_Throws m, s1) \<Rightarrow> g m s1 | r \<Rightarrow> r)"
| vis_binary: "en_visits f \<Longrightarrow> op < 200 \<Longrightarrow> en_visits (visitBinary oldest f op)"
| vis_function: "en_visits f \<Longrightarrow> en_visits (visitFunction creates f n)"
| vis_call: "en_visits f \<Longrightarrow> en_visits g \<Longrightarrow> en_visits (visitCall is_compiled f g)"
| vis_declaration: "en_visits (visitVariable type_name is_null null_value n ty None)"
| vis_variable: "en_visits f \<Longrightarrow> en_visits (visitVariable type_name is_null null_value n ty (Some f))"
| vis_import: "(\<And>p c fs. program p c = Statements fs \<Longrightarrow> list_all en_visits fs) \<Longrightarrow> en_visits (visitImport files program path)"
| vis_match: "en_visits f \<Longrightarrow> list_all (\<lambda>p. en_visits (snd p)) ps \<Longrightarrow> (\<And>g. d = Some g \<Longrightarrow> en_visits g)
    \<Longrightarrow> en_visits (visitMatch is_double f ps d)"
| vis_while: "en_visits c \<Longrightarrow> en_visits b \<Longrightarrow> (\<And>s. visitWhile truthy null_value l c b s = Some (g s)) \<Longrightarrow> en_visits g"
| vis_for: "(\<And>h. i = Some h \<Longrightarrow> en_visits h) \<Longrightarrow> (\<And>h. c = Some h \<Longrightarrow> en_visits h) \<Longrightarrow> (\<And>h. k = Some h \<Longrightarrow> en_visits h) \<Longrightarrow> en_visits b
    \<Longrightarrow> (\<And>s. visitFor truthy null_value l i c k b s = Some (g s)) \<Longrightarrow> en_visits g"
| vis_optimize: "(\<And>s. \<exists>room xs ys. optimizeCode room xs ys s = Some (g s)) \<Longrightarrow> en_visits g"

text \<open>The invariant of all visits. The cache holds nothing but results of operators, so that it is never full; no type is
  registered; no call is counted; the compiler has only one of its two pointers.\<close>

definition en_inv :: "'v enhanced \<Rightarrow> bool" where
  "en_inv s \<longleftrightarrow> dom (en_cache s) \<subseteq> binary_key ` {..<200} \<and> en_registry s = Map.empty
     \<and> (\<forall>n c. en_counts s n = Some c \<longrightarrow> c = 0) \<and> \<not> (en_jit_engine s \<and> en_jit_module s)"

text \<open>A visit keeps the invariant and every result in the cache.\<close>

definition en_keeps :: "'v en_visit \<Rightarrow> bool" where
  "en_keeps f \<longleftrightarrow> (\<forall>s. en_inv s \<longrightarrow> en_inv (snd (f s)) \<and> en_cache s \<subseteq>\<^sub>m en_cache (snd (f s)))"

lemma en_keepsD: "en_keeps f \<Longrightarrow> f s = (r, t) \<Longrightarrow> en_inv s \<Longrightarrow> en_inv t \<and> en_cache s \<subseteq>\<^sub>m en_cache t"
  unfolding en_keeps_def by (metis snd_conv)

lemma cache_not_full:
  assumes "dom c \<subseteq> binary_key ` {..<200}"
  shows "cache_put oldest k v c = c(k \<mapsto> v)"
proof -
  have "card (dom c) \<le> card (binary_key ` {..<200})" using assms by (intro card_mono) simp_all
  also have "\<dots> \<le> 200" using card_image_le [of "{..<200}" binary_key] by simp
  finally show ?thesis by (simp add: cache_put_def cache_max_def)
qed

lemma en_keeps_then:
  assumes "en_keeps f" "\<And>v. en_keeps (g v)"
  shows "en_keeps (\<lambda>s. case f s of (En_Value v, s1) \<Rightarrow> g v s1 | r \<Rightarrow> r)"
  unfolding en_keeps_def
proof (intro allI impI)
  fix s :: "'a enhanced" assume s: "en_inv s"
  obtain r t where f: "f s = (r, t)" by (cases "f s")
  note t = en_keepsD [OF assms(1) f s]
  show "en_inv (snd (case f s of (En_Value v, s1) \<Rightarrow> g v s1 | r \<Rightarrow> r))
      \<and> en_cache s \<subseteq>\<^sub>m en_cache (snd (case f s of (En_Value v, s1) \<Rightarrow> g v s1 | r \<Rightarrow> r))"
    using t assms(2) f unfolding en_keeps_def by (cases r) (auto intro: map_le_trans)
qed

lemma en_keeps_catch:
  assumes "en_keeps f" "\<And>m. en_keeps (g m)"
  shows "en_keeps (\<lambda>s. case f s of (En_Throws m, s1) \<Rightarrow> g m s1 | r \<Rightarrow> r)"
  unfolding en_keeps_def
proof (intro allI impI)
  fix s :: "'a enhanced" assume s: "en_inv s"
  obtain r t where f: "f s = (r, t)" by (cases "f s")
  note t = en_keepsD [OF assms(1) f s]
  show "en_inv (snd (case f s of (En_Throws m, s1) \<Rightarrow> g m s1 | r \<Rightarrow> r))
      \<and> en_cache s \<subseteq>\<^sub>m en_cache (snd (case f s of (En_Throws m, s1) \<Rightarrow> g m s1 | r \<Rightarrow> r))"
    using t assms(2) f unfolding en_keeps_def by (cases r) (auto intro: map_le_trans)
qed

lemma en_keeps_binary:
  assumes "en_keeps f" "op < 200"
  shows "en_keeps (visitBinary oldest f op)"
  unfolding en_keeps_def
proof (intro allI impI)
  fix s :: "'a enhanced" assume s: "en_inv s"
  show "en_inv (snd (visitBinary oldest f op s)) \<and> en_cache s \<subseteq>\<^sub>m en_cache (snd (visitBinary oldest f op s))"
  proof (cases "en_cache s (binary_key op)")
    case None
    obtain r t where f: "f s = (r, t)" by (cases "f s")
    note t = en_keepsD [OF assms(1) f s]
    have "en_cache s \<subseteq>\<^sub>m (en_cache t)(binary_key op \<mapsto> v)" for v
      using t None by (auto simp: map_le_def)
    then show ?thesis using None f t assms(2)
      by (auto simp: visitBinary_def cache_get_def en_inv_def cache_not_full split: en_result.split option.split)
  qed (use s in \<open>simp add: visitBinary_def cache_get_def\<close>)
qed

lemma en_keeps_all: "list_all en_keeps fs \<Longrightarrow> en_keeps (en_visit_all fs)"
proof (induction fs)
  case (Cons f fs)
  then have "en_keeps (\<lambda>s. case f s of (En_Value v, s1) \<Rightarrow> en_visit_all fs s1 | r \<Rightarrow> r)" by (intro en_keeps_then) simp_all
  moreover have "en_visit_all (f # fs) = (\<lambda>s. case f s of (En_Value v, s1) \<Rightarrow> en_visit_all fs s1 | r \<Rightarrow> r)"
    by (rule ext) (simp split: prod.split en_result.split)
  ultimately show ?case by (simp only:)
qed (simp add: en_keeps_def)

lemma en_keeps_frame:
  assumes "\<And>s. en_inv s \<Longrightarrow> en_cache (snd (f s)) = en_cache s \<and> en_registry (snd (f s)) = en_registry s
      \<and> en_counts (snd (f s)) = en_counts s \<and> en_jit_engine (snd (f s)) = en_jit_engine s \<and> en_jit_module (snd (f s)) = en_jit_module s"
  shows "en_keeps f"
  using assms by (simp add: en_keeps_def en_inv_def)

lemma en_keeps_base: "base_only f \<Longrightarrow> en_keeps f"
proof (rule en_keeps_frame)
  fix s :: "'a enhanced" assume "base_only f"
  then obtain e st rs where "snd (f s) = s\<lparr>en_environment := e, en_store := st, en_reported := rs\<rparr>"
    unfolding base_only_def by blast
  then show "en_cache (snd (f s)) = en_cache s \<and> en_registry (snd (f s)) = en_registry s
      \<and> en_counts (snd (f s)) = en_counts s \<and> en_jit_engine (snd (f s)) = en_jit_engine s \<and> en_jit_module (snd (f s)) = en_jit_module s"
    by simp
qed

lemma visitFunction_inv:
  assumes "en_inv s"
  shows "visitFunction creates f n s = f (s\<lparr>en_analyzer := analyzeSymbol n
      \<lparr>si_type = ''function'', si_mutable = False, si_nullable = False, si_dependencies = []\<rparr> (en_analyzer s),
      en_counts := (en_counts s)(n \<mapsto> 0)\<rparr>)"
proof -
  have "(case en_counts s n of None \<Rightarrow> 0 | Some c \<Rightarrow> c) = 0"
    using assms by (simp add: en_inv_def split: option.split)
  then show ?thesis by (simp add: visitFunction_def)
qed

lemma en_keeps_function:
  assumes "en_keeps f"
  shows "en_keeps (visitFunction creates f n)"
  unfolding en_keeps_def
proof (intro allI impI)
  fix s :: "'a enhanced" assume s: "en_inv s"
  let ?s = "s\<lparr>en_analyzer := analyzeSymbol n
      \<lparr>si_type = ''function'', si_mutable = False, si_nullable = False, si_dependencies = []\<rparr> (en_analyzer s),
      en_counts := (en_counts s)(n \<mapsto> 0)\<rparr>"
  have "en_inv ?s" using s by (simp add: en_inv_def)
  then show "en_inv (snd (visitFunction creates f n s)) \<and> en_cache s \<subseteq>\<^sub>m en_cache (snd (visitFunction creates f n s))"
    using assms unfolding en_keeps_def visitFunction_inv [OF s] by fastforce
qed

lemma visitCall_inv: "en_inv s \<Longrightarrow> visitCall is_compiled f g s = (En_Undefined, s)"
  by (auto simp: visitCall_def en_inv_def)

lemma en_keeps_variable:
  assumes "\<And>g. f = Some g \<Longrightarrow> en_keeps g"
  shows "en_keeps (visitVariable type_name is_null null_value n ty f)"
proof (cases f)
  case (Some g)
  have "en_keeps (\<lambda>s. case g s of (En_Value v, s1) \<Rightarrow>
      (case v of None \<Rightarrow> (En_Value None, s1) | Some v \<Rightarrow> visitVariable type_name is_null null_value n ty (Some (\<lambda>s. (En_Value (Some v), s))) s1)
    | r \<Rightarrow> r)"
  proof (rule en_keeps_then)
    show "en_keeps g" using assms Some by simp
    show "en_keeps (\<lambda>s1. case v of None \<Rightarrow> (En_Value None, s1)
        | Some v \<Rightarrow> visitVariable type_name is_null null_value n ty (Some (\<lambda>s. (En_Value (Some v), s))) s1)" for v
      by (rule en_keeps_frame) (auto simp: visitVariable_def split: option.split)
  qed
  moreover have "visitVariable type_name is_null null_value n ty (Some g) = (\<lambda>s. case g s of (En_Value v, s1) \<Rightarrow>
      (case v of None \<Rightarrow> (En_Value None, s1) | Some v \<Rightarrow> visitVariable type_name is_null null_value n ty (Some (\<lambda>s. (En_Value (Some v), s))) s1)
    | r \<Rightarrow> r)"
    by (rule ext) (simp add: visitVariable_def split: prod.split en_result.split option.split)
  ultimately show ?thesis using Some by (simp only:)
qed (auto intro!: en_keeps_frame simp: visitVariable_def)

lemma import_frame [simp]:
  "en_inv (s\<lparr>en_environment := e\<rparr>) = en_inv s" "en_inv (s\<lparr>en_environment := e, en_store := st\<rparr>) = en_inv s"
  "en_inv (s\<lparr>en_modules := m\<rparr>) = en_inv s" "en_inv (en_report x s) = en_inv s" "en_cache (en_report x s) = en_cache s"
  by (simp_all add: en_inv_def en_report_def)

lemma en_keeps_import:
  assumes "\<And>p c fs. program p c = Statements fs \<Longrightarrow> list_all en_keeps fs"
  shows "en_keeps (visitImport files program path)"
  unfolding en_keeps_def
proof (intro allI impI)
  fix s :: "'a enhanced" assume s: "en_inv s"
  show "en_inv (snd (visitImport files program path s)) \<and> en_cache s \<subseteq>\<^sub>m en_cache (snd (visitImport files program path s))"
  proof (cases "en_modules s path")
    case None
    obtain e st where new: "new_Environment None (en_store s) = (e, st)" by (cases "new_Environment None (en_store s)")
    show ?thesis
    proof (cases "files path")
      case None
      then show ?thesis using s new \<open>en_modules s path = None\<close> by (simp add: visitImport_def import_fails_def Let_def)
    next
      case (Some c)
      show ?thesis
      proof (cases "program path c")
        case (Statements fs)
        obtain r t where run: "en_visit_all fs (s\<lparr>en_environment := e, en_store := st\<rparr>) = (r, t)" by fastforce
        have "en_inv t \<and> en_cache (s\<lparr>en_environment := e, en_store := st\<rparr>) \<subseteq>\<^sub>m en_cache t"
          using s by (intro en_keepsD [OF en_keeps_all [OF assms [OF Statements]] run]) simp
        then show ?thesis using s new run Some Statements \<open>en_modules s path = None\<close>
          by (simp add: visitImport_def import_fails_def Let_def split: en_result.split)
      qed (use s new Some \<open>en_modules s path = None\<close> in \<open>simp_all add: visitImport_def import_fails_def Let_def\<close>)
    qed
  qed (use s in \<open>simp add: visitImport_def\<close>)
qed

lemma inv_loops [simp]: "en_inv (s\<lparr>en_loops := ls\<rparr>) = en_inv s" "en_inv (s\<lparr>en_analyzer := a\<rparr>) = en_inv s"
  by (simp_all add: en_inv_def)

lemma leave_loop_keeps [simp]:
  "en_inv (snd (leave_loop v l r)) = en_inv (snd r)" "en_cache (snd (leave_loop v l r)) = en_cache (snd r)"
  by (cases r; cases "fst r"; simp add: leave_loop_def)+

definition kept :: "'v enhanced \<Rightarrow> 'v en_result \<times> 'v enhanced \<Rightarrow> bool" where
  "kept s r \<longleftrightarrow> (en_inv s \<longrightarrow> en_inv (snd r) \<and> en_cache s \<subseteq>\<^sub>m en_cache (snd r))"

lemma keptI: "en_keeps f \<Longrightarrow> kept s (f s)"
  by (simp add: en_keeps_def kept_def)

lemma kept_trans: "kept s (q, t) \<Longrightarrow> kept t r \<Longrightarrow> kept s r"
  by (auto simp: kept_def intro: map_le_trans)

lemma kept_loops [simp]: "kept (s\<lparr>en_loops := ls\<rparr>) r = kept s r" "kept s (q, t\<lparr>en_loops := ls\<rparr>) = kept s (q, t)"
  "kept s (leave_loop v l r) = kept s r"
  by (simp_all add: kept_def)

lemma kept_value: "kept s (q, t) = kept s (p, t)"
  by (simp add: kept_def)

lemma while_loop_kept:
  assumes "while_loop truthy l c b s = Some r"
  shows "en_keeps c \<longrightarrow> en_keeps b \<longrightarrow> kept s r"
proof (rule while_loop.raw_induct [OF _ assms, where P = "\<lambda>truthy l c b s r. en_keeps c \<longrightarrow> en_keeps b \<longrightarrow> kept s r"], goal_cases)
  case (1 while_loop truthy l c b s r)
  show ?case
  proof (intro impI)
    assume c: "en_keeps c" and b: "en_keeps b"
    obtain q s1 where q: "c s = (q, s1)" by (cases "c s")
    have s1: "kept s (p, s1)" for p using keptI [OF c, of s] kept_value q by metis
    obtain e ls where e: "incrementLoop l (en_loops s1) = (e, ls)" by (cases "incrementLoop l (en_loops s1)")
    obtain p s2 where p: "b (s1\<lparr>en_loops := ls\<rparr>) = (p, s2)" by (cases "b (s1\<lparr>en_loops := ls\<rparr>)")
    have "kept s1 (p, s2)" using keptI [OF b, of "s1\<lparr>en_loops := ls\<rparr>"] by (simp add: p)
    then have s2: "kept s (p', s2)" for p' using kept_trans [OF s1] kept_value by metis
    obtain r1 r2 where r: "r = (r1, r2)" by (cases r)
    show "kept s r"
      using r "1"(2) "1"(1) [of truthy l c b s2 r] c b q e p s1 s2 kept_trans [OF s2]
      by (auto split: en_result.splits option.splits if_splits)
  qed
qed

lemma en_keeps_while:
  assumes "en_keeps c" "en_keeps b" "\<And>s. visitWhile truthy null_value l c b s = Some (g s)"
  shows "en_keeps g"
proof -
  have "kept s (g s)" for s
  proof -
    obtain r where r: "while_loop truthy l c b (s\<lparr>en_loops := enterLoop l (en_loops s)\<rparr>) = Some r"
      "g s = leave_loop null_value l r"
      using assms(3) [of s] by (auto simp: visitWhile_def)
    from while_loop_kept [OF r(1)] show ?thesis using assms(1,2) r(2) by simp
  qed
  then show ?thesis by (simp add: en_keeps_def kept_def)
qed

lemma en_keeps_optional: "(\<And>h. k = Some h \<Longrightarrow> en_keeps h) \<Longrightarrow> en_keeps (en_optional k)"
  by (cases k) (simp_all add: en_keeps_def en_optional_def)

lemma for_loop_kept:
  assumes "for_loop truthy l c k b s = Some r"
  shows "(\<forall>h. c = Some h \<longrightarrow> en_keeps h) \<longrightarrow> en_keeps (en_optional k) \<longrightarrow> en_keeps b \<longrightarrow> kept s r"
proof (rule for_loop.raw_induct [OF _ assms, where P = "\<lambda>truthy l c k b s r.
    (\<forall>h. c = Some h \<longrightarrow> en_keeps h) \<longrightarrow> en_keeps (en_optional k) \<longrightarrow> en_keeps b \<longrightarrow> kept s r"], goal_cases)
  case (1 for_loop truthy l c k b s r)
  show ?case
  proof (intro impI)
    assume c: "\<forall>h. c = Some h \<longrightarrow> en_keeps h" and k: "en_keeps (en_optional k)" and b: "en_keeps b"
    show "kept s r"
    proof (cases c)
      case None
      then show ?thesis using "1"(2) by (auto simp: kept_def)
    next
      case (Some h)
      obtain q s1 where q: "h s = (q, s1)" by (cases "h s")
      have s1: "kept s (p, s1)" for p using keptI [of h s] kept_value q c Some by metis
      obtain e ls where e: "incrementLoop l (en_loops s1) = (e, ls)" by (cases "incrementLoop l (en_loops s1)")
      obtain p s2 where p: "en_visit_all [b, en_optional k] (s1\<lparr>en_loops := ls\<rparr>) = (p, s2)"
        by (cases "en_visit_all [b, en_optional k] (s1\<lparr>en_loops := ls\<rparr>)")
      have "en_keeps (en_visit_all [b, en_optional k])" using b k by (intro en_keeps_all) simp
      then have "kept s1 (p, s2)" using keptI [of _ "s1\<lparr>en_loops := ls\<rparr>"] p by (metis kept_loops(1))
      then have s2: "kept s (p', s2)" for p' using kept_trans [OF s1] kept_value by metis
      obtain r1 r2 where r: "r = (r1, r2)" by (cases r)
      show ?thesis
        using r "1"(2) "1"(1) [of truthy l c k b s2 r] b c k Some q e p s1 s2 kept_trans [OF s2]
        by (auto simp del: en_visit_all.simps split: en_result.splits option.splits if_splits)
    qed
  qed
qed

lemma en_keeps_for:
  assumes "\<And>h. i = Some h \<Longrightarrow> en_keeps h" "\<And>h. c = Some h \<Longrightarrow> en_keeps h" "\<And>h. k = Some h \<Longrightarrow> en_keeps h"
    and "en_keeps b" "\<And>s. visitFor truthy null_value l i c k b s = Some (g s)"
  shows "en_keeps g"
proof -
  have "kept s (g s)" for s
  proof -
    let ?s = "s\<lparr>en_loops := enterLoop l (en_loops s)\<rparr>"
    obtain q s1 where q: "en_optional i ?s = (q, s1)" by (cases "en_optional i ?s")
    have "en_keeps (en_optional i)" using assms(1) by (rule en_keeps_optional)
    from keptI [OF this, of ?s] have "kept s (q, s1)" using q by simp
    then have s1: "kept s (p, s1)" for p using kept_value by metis
    show ?thesis
    proof (cases "\<exists>x. q = En_Value x")
      case True
      then obtain r where r: "for_loop truthy l c k b s1 = Some r" "g s = leave_loop null_value l r"
        using assms(5) [of s] q by (auto simp: visitFor_def)
      have "kept s1 r" using for_loop_kept [OF r(1)] assms(2-4) by (auto intro: en_keeps_optional)
      then show ?thesis using kept_trans [OF s1] r(2) by simp
    next
      case False
      obtain r1 r2 where r: "g s = (r1, r2)" by (cases "g s")
      show ?thesis using False r assms(5) [of s] q s1 by (cases q) (auto simp: visitFor_def)
    qed
  qed
  then show ?thesis by (simp add: en_keeps_def kept_def)
qed

lemma fold_report [simp]:
  "en_inv (fold (\<lambda>n. en_report (f n)) ns s) = en_inv s" "en_cache (fold (\<lambda>n. en_report (f n)) ns s) = en_cache s"
  by (induction ns arbitrary: s) simp_all

lemma optimize_kept: "optimizeCode room xs ys s = Some r \<Longrightarrow> kept s r"
  by (auto simp: kept_def optimizeCode_def Let_def split: detection.splits)

lemma en_keeps_optimize:
  assumes "\<And>s. \<exists>room xs ys. optimizeCode room xs ys s = Some (g s)"
  shows "en_keeps g"
  using assms optimize_kept unfolding en_keeps_def kept_def by metis

lemma en_keeps_match:
  assumes "en_keeps f" "list_all (\<lambda>p. en_keeps (snd p)) ps" "\<And>g. d = Some g \<Longrightarrow> en_keeps g"
  shows "en_keeps (visitMatch is_double f ps d)"
proof -
  have ps: "en_keeps b" if "match_patterns is_double v ps = Some b" for v b
    using assms(2) that by (induction ps) (auto split: if_splits)
  have "kept s (visitMatch is_double f ps d s)" for s
  proof -
    obtain q s1 where q: "f s = (q, s1)" by (cases "f s")
    have s1: "kept s (p, s1)" for p using keptI [OF assms(1), of s] kept_value q by metis
    show ?thesis
      using q s1 keptI [OF ps] keptI [OF assms(3)]
      by (auto simp: visitMatch_def intro: kept_trans [OF s1] split: en_result.split option.split)
  qed
  then show ?thesis by (simp add: en_keeps_def kept_def)
qed

lemma visits_keep: "en_visits f \<Longrightarrow> en_keeps f"
proof (induction rule: en_visits.induct)
  case (vis_call f g is_compiled)
  show ?case by (rule en_keeps_frame) (simp add: visitCall_inv)
next
  case (vis_import program files path)
  then have "list_all en_keeps fs" if "program p c = Statements fs" for p c fs using that by (auto simp: list_all_iff)
  then show ?case by (rule en_keeps_import)
next
  case (vis_match f ps d is_double)
  then show ?case by (intro en_keeps_match) (auto simp: list_all_iff)
next
  case (vis_while c b truthy null_value l g)
  show ?case by (rule en_keeps_while [OF vis_while.IH vis_while.hyps(3)])
next
  case (vis_for i c k b truthy null_value l g)
  show ?case
    by (rule en_keeps_for [where i = i and c = c and k = k and b = b]) (use vis_for in auto)
next
  case (vis_optimize g)
  then show ?case by (rule en_keeps_optimize)
qed (auto intro: en_keeps_base en_keeps_then en_keeps_catch en_keeps_binary en_keeps_function en_keeps_variable)

definition en_run :: "'v en_visit list \<Rightarrow> 'v enhanced \<Rightarrow> 'v enhanced" where
  "en_run fs s = fold (\<lambda>f s. snd (f s)) fs s"

lemma run_keeps: "list_all en_visits fs \<Longrightarrow> en_inv s \<Longrightarrow> en_inv (en_run fs s) \<and> en_cache s \<subseteq>\<^sub>m en_cache (en_run fs s)"
proof (induction fs arbitrary: s)
  case (Cons f fs)
  then have f: "en_inv (snd (f s))" "en_cache s \<subseteq>\<^sub>m en_cache (snd (f s))"
    using visits_keep [of f] by (simp_all add: en_keeps_def)
  have "en_inv (en_run fs (snd (f s))) \<and> en_cache (snd (f s)) \<subseteq>\<^sub>m en_cache (en_run fs (snd (f s)))"
    using Cons f by simp
  then show ?case using f map_le_trans unfolding en_run_def by fastforce
qed (simp add: en_run_def)

lemma inv_new: "en_inv (new_EnhancedInterpreter e st)"
  by (simp add: en_inv_def new_EnhancedInterpreter_def initializeEnhancedFeatures_def)

section \<open>What the interpreter computes\<close>

text \<open>C39: a binary expression is looked up in the cache by its operator alone. Once an expression with an operator has
  given a value, every later expression with this operator gives the same value, whatever its operands are and
  whatever was visited in between.\<close>

theorem binary_answers_repeated:
  assumes "list_all en_visits fs" "en_visits f" "op < 200"
    and "visitBinary oldest f op (en_run fs (new_EnhancedInterpreter e st)) = (En_Value (Some v), t)"
    and "list_all en_visits gs"
  shows "visitBinary oldest' g op (en_run gs t) = (En_Value (Some v), en_run gs t)"
proof -
  let ?s = "en_run fs (new_EnhancedInterpreter e st)"
  have s: "en_inv ?s" using run_keeps [OF assms(1) inv_new] by simp
  have "en_keeps (visitBinary oldest f op)" using assms(2,3) by (intro en_keeps_binary visits_keep)
  from en_keepsD [OF this assms(4) s] have t: "en_inv t" by simp
  have "en_cache t (binary_key op) = Some v"
    using assms(4) by (auto simp: visitBinary_def cache_get_def cache_put_def Let_def split: option.splits prod.splits en_result.splits)
  moreover have "en_cache t \<subseteq>\<^sub>m en_cache (en_run gs t)" using run_keeps [OF assms(5) t] by simp
  ultimately have "en_cache (en_run gs t) (binary_key op) = Some v" by (force simp: map_le_def)
  then show ?thesis by (simp add: visitBinary_def cache_get_def)
qed

lemma base_constant: "base_only (\<lambda>s. (En_Value (Some x), s))"
  unfolding base_only_def
proof
  fix s show "\<exists>e st rs. snd (En_Value (Some x), s) = s\<lparr>en_environment := e, en_store := st, en_reported := rs\<rparr>"
    by (intro exI [of _ "en_environment s"] exI [of _ "en_store s"] exI [of _ "en_reported s"]) simp
qed

text \<open>Operator 3 gives 30 at first; then the expression that should give 70 gives 30.\<close>

theorem binary_answers_repeated_witness:
  "fst (visitBinary [] (\<lambda>s. (En_Value (Some 70), s)) 3
     (snd (visitBinary [] (\<lambda>s. (En_Value (Some (30::int)), s)) 3 (new_EnhancedInterpreter [0] \<lparr>env_tables = \<lambda>_. Map.empty, env_next = 1\<rparr>))))
   = En_Value (Some 30)"
proof -
  let ?s = "new_EnhancedInterpreter [0] \<lparr>env_tables = \<lambda>_. Map.empty, env_next = 1\<rparr> :: int enhanced"
  let ?f = "\<lambda>s. (En_Value (Some (30::int)), s :: int enhanced)"
  have first: "visitBinary [] ?f 3 ?s = (En_Value (Some 30), snd (visitBinary [] ?f 3 ?s))"
    by (simp add: visitBinary_def cache_get_def new_EnhancedInterpreter_def initializeEnhancedFeatures_def)
  have f: "en_visits ?f" by (rule vis_base [OF base_constant])
  show ?thesis
    using binary_answers_repeated [of "[]" ?f 3 "[]" "[0]" "\<lparr>env_tables = \<lambda>_. Map.empty, env_next = 1\<rparr>" 30
        "snd (visitBinary [] ?f 3 ?s)" "[]" "[]" "\<lambda>s. (En_Value (Some 70), s)"] first f
      arg_cong [OF first, of fst, unfolded fst_conv]
    by (simp add: en_run_def)
qed

text \<open>C40: nothing registers a type and nothing compiles a function before it is asked for: after any visits a declaration
  whose initializer has a value throws, for every declared type, and a call is undefined.\<close>

theorem declarations_throw_calls_undefined:
  assumes "list_all en_visits fs" "en_visits f"
  shows "let s = en_run fs (new_EnhancedInterpreter e st)
    in visitCall is_compiled native base s = (En_Undefined, s)
     \<and> visitVariable type_name is_null null_value n ty (Some f) s =
        (case f s of (En_Value (Some v), t) \<Rightarrow> (En_Throws (''Type mismatch in variable declaration: '' @ n), t) | r \<Rightarrow> r)"
proof -
  let ?s = "en_run fs (new_EnhancedInterpreter e st)"
  have s: "en_inv ?s" using run_keeps [OF assms(1) inv_new] by simp
  obtain r t where f: "f ?s = (r, t)" by (cases "f ?s")
  from en_keepsD [OF visits_keep [OF assms(2)] f s] have "en_registry t = Map.empty" by (simp add: en_inv_def)
  then show ?thesis
    using f visitCall_inv [OF s] by (simp add: Let_def visitVariable_def isTypeCompatible_def split: en_result.split option.split)
qed

theorem declarations_throw_calls_undefined_witness:
  "fst (visitVariable (\<lambda>v. ''int'') (\<lambda>v. False) 0 ''x'' ''int'' (Some (\<lambda>s. (En_Value (Some (5::int)), s)))
     (new_EnhancedInterpreter [0] \<lparr>env_tables = \<lambda>_. Map.empty, env_next = 1\<rparr>))
   = En_Throws ''Type mismatch in variable declaration: x''"
proof -
  have f: "en_visits (\<lambda>s. (En_Value (Some (5::int)), s))" by (rule vis_base [OF base_constant])
  show ?thesis
    using declarations_throw_calls_undefined [of "[]" "\<lambda>s. (En_Value (Some (5::int)), s)" "[0]" "\<lparr>env_tables = \<lambda>_. Map.empty, env_next = 1\<rparr>"
      undefined undefined undefined "\<lambda>v. ''int''" "\<lambda>v. False" 0 "''x''" "''int''"] f
    by (simp add: en_run_def Let_def)
qed

text \<open>An import leaves its importer in the environment of the module. If the file cannot be read, no name has a value
  there, whatever was defined before.\<close>

theorem failed_import_forgets:
  assumes "en_modules s path = None" "files path = None"
  shows "(case visitImport files program path s of (r, t) \<Rightarrow>
      r = En_Throws (''Could not open module file: '' @ path)
      \<and> env_get (en_environment t) n (en_store t) = Inl (''Undefined variable: '' @ n))"
  using assms by (simp add: visitImport_def import_fails_def new_Environment_def en_report_def Let_def)

text \<open>Only patterns of type \<open>number\<close> match, and only floating point numbers match them.\<close>

lemma only_numbers_match:
  "match_patterns is_double v ps = (if is_double v then map_of ps ''number'' else None)"
  by (induction ps) auto

text \<open>As nothing calls \<open>addDependency\<close>, every symbol is reported as unused, and no cycle.\<close>

lemma nothing_used:
  assumes "call_graph (en_analyzer s) = Map.empty"
  shows "optimizeCode room [] order s = Some (En_Value None, fold (\<lambda>n. en_report (''Unused symbol: '' @ n)) order s)"
  using assms
  by (cases s; cases "en_analyzer s") (simp add: optimizeCode_def detectCircularDependencies_def getUnusedSymbols_def)

section \<open>The guarded loops\<close>

lemma increment_ok:
  assumes "ls l = Some n" "n < max_iterations"
  shows "incrementLoop l ls = (None, ls(l \<mapsto> n + 1))"
  using assms by (simp add: incrementLoop_Some)

text \<open>A loop of at most \<open>k\<close> more rounds, by recursion on \<open>k\<close>: a round tests the condition, counts and runs the body. The loop
  ends with the condition, or with what the condition or the body throws; if the condition still holds after
  the last round, it throws.\<close>

definition count_round :: "string \<Rightarrow> 'v enhanced \<Rightarrow> 'v enhanced" where
  "count_round l s = s\<lparr>en_loops := (en_loops s)(l \<mapsto> the (en_loops s l) + 1)\<rparr>"

primrec bounded_loop :: "('v \<Rightarrow> bool) \<Rightarrow> string \<Rightarrow> 'v en_visit \<Rightarrow> 'v en_visit \<Rightarrow> nat \<Rightarrow> 'v en_visit" where
  "bounded_loop truthy l cond body 0 s =
     (case cond s of
        (En_Value (Some v), s1) \<Rightarrow>
          (if truthy v then (En_Throws (''Loop exceeded maximum iterations: '' @ l), count_round l s1)
           else (En_Value None, s1))
      | r \<Rightarrow> r)"
| "bounded_loop truthy l cond body (Suc k) s =
     (case cond s of
        (En_Value (Some v), s1) \<Rightarrow>
          (if truthy v then
             (case body (count_round l s1) of
                (En_Value _, s2) \<Rightarrow> bounded_loop truthy l cond body k s2
              | r \<Rightarrow> r)
           else (En_Value None, s1))
      | r \<Rightarrow> r)"

lemma while_loop_bounded:
  assumes "\<And>s. en_loops (snd (cond s)) l = en_loops s l" "\<And>s. en_loops (snd (body s)) l = en_loops s l"
    and "en_loops s l = Some n" "n + k = max_iterations"
  shows "while_loop truthy l cond body s = Some (bounded_loop truthy l cond body k s)"
  using assms(3,4)
proof (induction k arbitrary: n s)
  case 0
  obtain r s1 where c: "cond s = (r, s1)" by (cases "cond s")
  have s1: "en_loops s1 l = Some n" using assms(1) [of s] 0 c by simp
  then show ?case
    unfolding while_loop.simps [of truthy l cond body s]
    using c 0 by (auto simp: incrementLoop_Some count_round_def split: en_result.split option.split)
next
  case (Suc k)
  obtain r s1 where c: "cond s = (r, s1)" by (cases "cond s")
  have s1: "en_loops s1 l = Some n" using assms(1) [of s] Suc.prems c by simp
  obtain q s2 where b: "body (count_round l s1) = (q, s2)" by (cases "body (count_round l s1)")
  have "en_loops s2 l = Some (n + 1)" using assms(2) [of "count_round l s1"] b s1 by (simp add: count_round_def)
  from Suc.IH [OF this] have "while_loop truthy l cond body s2 = Some (bounded_loop truthy l cond body k s2)"
    using Suc.prems by simp
  then show ?case
    unfolding while_loop.simps [of truthy l cond body s]
    using c b s1 Suc.prems increment_ok [of "en_loops s1" l n]
    by (auto simp: count_round_def split: en_result.split option.split)
qed

text \<open>C26: A while loop of the enhanced interpreter returns from every state, if neither its condition nor its body touches the
  counter of this loop, that is, does not run the same loop again: it is the loop of at most a million rounds, which
  then throws, and when it ends normally its counter is gone. The condition and the body may change
  anything else, run other loops, throw or be undefined.\<close>

theorem guarded_loop_bounded:
  assumes "\<And>s. en_loops (snd (cond s)) l = en_loops s l" "\<And>s. en_loops (snd (body s)) l = en_loops s l"
  shows "visitWhile truthy null_value l cond body s =
     Some (leave_loop null_value l (bounded_loop truthy l cond body 1000000 (s\<lparr>en_loops := (en_loops s)(l \<mapsto> 0)\<rparr>)))"
  using while_loop_bounded [OF assms, of "s\<lparr>en_loops := (en_loops s)(l \<mapsto> 0)\<rparr>" 0 max_iterations truthy]
  by (simp add: visitWhile_def enterLoop_def max_iterations_def)

theorem guarded_loop_bounded_witness:
  "visitWhile (\<lambda>v. v \<noteq> 0) (0::int) ''while_1'' (\<lambda>s. (En_Value (Some 0), s)) (\<lambda>s. (En_Value None, s))
     (new_EnhancedInterpreter [0] \<lparr>env_tables = \<lambda>_. Map.empty, env_next = 1\<rparr>)
   = Some (En_Value (Some 0), new_EnhancedInterpreter [0] \<lparr>env_tables = \<lambda>_. Map.empty, env_next = 1\<rparr>)"
proof -
  have "\<exists>k. (1000000::nat) = Suc k" by presburger
  then obtain k where k: "(1000000::nat) = Suc k" ..
  show ?thesis
    by (subst guarded_loop_bounded)
       (simp_all add: k leave_loop_def exitLoop_def new_EnhancedInterpreter_def initializeEnhancedFeatures_def fun_upd_idem)
qed

text \<open>A body that runs the same loop again, as a recursive function does, comes back with the counter erased by
  \<open>exitLoop\<close>. The count starts again in every round, and with a condition that stays true the loop never returns.\<close>

lemma reentered_while_loop:
  assumes "while_loop truthy l c b s = Some r"
  shows "c = (\<lambda>s. (En_Value (Some v), s)) \<longrightarrow> b = (\<lambda>s. (En_Value None, s\<lparr>en_loops := exitLoop l (en_loops s)\<rparr>))
    \<longrightarrow> truthy v \<longrightarrow> en_loops s l \<in> {None, Some 0} \<longrightarrow> False"
proof (rule while_loop.raw_induct [OF _ assms, where P = "\<lambda>truthy l c b s r.
    c = (\<lambda>s. (En_Value (Some v), s)) \<longrightarrow> b = (\<lambda>s. (En_Value None, s\<lparr>en_loops := exitLoop l (en_loops s)\<rparr>))
    \<longrightarrow> truthy v \<longrightarrow> en_loops s l \<in> {None, Some 0} \<longrightarrow> False"], goal_cases)
  case (1 while_loop truthy l c b s r)
  show ?case
  proof (intro impI)
    assume cb: "c = (\<lambda>s. (En_Value (Some v), s))" "b = (\<lambda>s. (En_Value None, s\<lparr>en_loops := exitLoop l (en_loops s)\<rparr>))"
      and v: "truthy v" and s: "en_loops s l \<in> {None, Some 0}"
    then have "incrementLoop l (en_loops s) = (None, (en_loops s)(l \<mapsto> 1))"
      by (auto simp: incrementLoop_def max_iterations_def)
    moreover have "\<not> while_loop truthy l c b (s\<lparr>en_loops := exitLoop l ((en_loops s)(l \<mapsto> 1))\<rparr>) = Some r"
      using "1"(1) [of truthy l c b "s\<lparr>en_loops := exitLoop l ((en_loops s)(l \<mapsto> 1))\<rparr>" r] cb v
      by (auto simp: exitLoop_def)
    ultimately show False using "1"(2) cb v by simp
  qed
qed

theorem reentered_loop_never_returns:
  assumes "truthy v"
  shows "visitWhile truthy null_value l (\<lambda>s. (En_Value (Some v), s))
      (\<lambda>s. (En_Value None, s\<lparr>en_loops := exitLoop l (en_loops s)\<rparr>)) s = None"
proof -
  have "while_loop truthy l (\<lambda>s. (En_Value (Some v), s)) (\<lambda>s. (En_Value None, s\<lparr>en_loops := exitLoop l (en_loops s)\<rparr>))
      (s\<lparr>en_loops := enterLoop l (en_loops s)\<rparr>) \<noteq> Some r" for r
    using reentered_while_loop [of truthy l _ _ _ r] assms by (fastforce simp: enterLoop_def)
  then show ?thesis by (simp only: visitWhile_def map_option_is_None) (meson option.exhaust)
qed

lemma for_loop_ends:
  assumes "\<And>s. \<forall>c. cond = Some c \<longrightarrow> en_loops (snd (c s)) l = en_loops s l"
    and "\<And>s. en_loops (snd (body s)) l = en_loops s l"
    and "\<And>s. en_loops (snd (en_optional increment s)) l = en_loops s l"
    and "en_loops s l = Some n"
  shows "for_loop truthy l cond increment body s \<noteq> None"
  using assms(4)
proof (induction "max_iterations - n" arbitrary: n s rule: less_induct)
  case less
  show ?case
  proof (cases cond)
    case None
    then show ?thesis by (simp add: for_loop.simps)
  next
    case (Some c)
    obtain r s1 where c: "c s = (r, s1)" by (cases "c s")
    have s1: "en_loops s1 l = Some n" using assms(1) [of s] less(2) Some c by auto
    show ?thesis
    proof (cases "n < max_iterations")
      case True
      let ?s = "s1\<lparr>en_loops := (en_loops s1)(l \<mapsto> n + 1)\<rparr>"
      obtain q s2 where b: "body ?s = (q, s2)" by (cases "body ?s")
      obtain q3 s3 where i: "en_optional increment s2 = (q3, s3)" by (cases "en_optional increment s2")
      have "en_loops s3 l = Some (n + 1)" using assms(2) [of ?s] assms(3) [of s2] b i by simp
      from less(1) [OF _ this] True have again: "for_loop truthy l cond increment body s3 \<noteq> None" by simp
      show ?thesis
        unfolding for_loop.simps [of truthy l cond increment body s]
        using again Some c b i increment_ok [of "en_loops s1" l n] s1 True
        by (auto split: en_result.split option.split)
    next
      case False
      then show ?thesis
        unfolding for_loop.simps [of truthy l cond increment body s]
        using Some c s1 by (auto simp: incrementLoop_Some split: en_result.split option.split)
    qed
  qed
qed

text \<open>A for loop ends, with its value, an exception or undefined, if no visit inside of it ends or starts the same loop
  again: the guard throws after a million rounds.\<close>

theorem for_loop_returns:
  assumes "\<And>s. \<forall>c. cond = Some c \<longrightarrow> en_loops (snd (c s)) l = en_loops s l"
    and "\<And>s. en_loops (snd (body s)) l = en_loops s l"
    and "\<And>s. en_loops (snd (en_optional initializer s)) l = en_loops s l"
    and "\<And>s. en_loops (snd (en_optional increment s)) l = en_loops s l"
  shows "visitFor truthy null_value l initializer cond increment body s \<noteq> None"
proof -
  obtain r s1 where i: "en_optional initializer (s\<lparr>en_loops := enterLoop l (en_loops s)\<rparr>) = (r, s1)" by fastforce
  have "en_loops s1 l = Some 0"
    using assms(3) [of "s\<lparr>en_loops := enterLoop l (en_loops s)\<rparr>"] i by (simp add: enterLoop_def)
  from for_loop_ends [OF assms(1,2,4) this] obtain q s2 where "for_loop truthy l cond increment body s1 = Some (q, s2)" by fastforce
  then show ?thesis using i by (cases r) (simp_all add: visitFor_def)
qed

theorem for_loop_returns_witness:
  "visitFor (\<lambda>v. True) (0::int) ''for_1'' None (Some (\<lambda>s. (En_Value (Some 1), s))) None (\<lambda>s. (En_Value None, s))
     (new_EnhancedInterpreter [0] \<lparr>env_tables = \<lambda>_. Map.empty, env_next = 1\<rparr>) \<noteq> None"
  by (rule for_loop_returns) (simp_all add: en_optional_def)

end
