(* ===== verification/Tocin_Compiler_Output.thy ===== *)
theory Tocin_Compiler_Output
  imports Tocin_Compiler
begin

text \<open>
  What \<open>Compiler\<close> of \<open>src/compiler/compiler.cpp\<close> does with the module that it has: optimizing it, writing it to a file,
  running it and handing it out. The functions of LLVM are the fields of a parameter.
\<close>

section \<open>LLVM\<close>

datatype llvm_pass =
  Instruction_Combining | Reassociate | GVN | CFG_Simplification | Dead_Code_Elimination | Loop_Unroll | SROA | Early_CSE

datatype file_type = Object_File | Assembly_File

record ('m, 'e, 't) llvm_tools =
  lt_run :: "llvm_pass list \<Rightarrow> 'm \<Rightarrow> 'm"                    \<comment> \<open>the passes on every function\<close>
  lt_engine :: "'m \<Rightarrow> string + 'e"
  lt_main :: "'e \<Rightarrow> int option"                        \<comment> \<open>what \<open>main\<close> returns, if there is one\<close>
  lt_target :: "string + 't option"                    \<comment> \<open>the target of the host, and its machine\<close>
  lt_configure :: "'t \<Rightarrow> 'm \<Rightarrow> 'm"                      \<comment> \<open>triple and data layout\<close>
  lt_open_error :: "string \<Rightarrow> string option"
  lt_text :: "'m \<Rightarrow> string"
  lt_emit :: "'t \<Rightarrow> file_type \<Rightarrow> 'm \<Rightarrow> string option"    \<comment> \<open>None: the machine cannot emit this type\<close>

section \<open>Operations\<close>

definition report_at_none :: "ErrorCode \<Rightarrow> string \<Rightarrow> 'm compiler \<Rightarrow> 'm compiler" where
  "report_at_none ec msg c =
     c\<lparr>compiler_handler := record_error ec msg [] 0 0 ERROR_SEVERITY (compiler_handler c)\<rparr>"

definition getModule :: "'m compiler \<Rightarrow> 'm option \<times> 'm compiler" where
  "getModule c = (module_ptr c, c\<lparr>module_ptr := None\<rparr>)"

text \<open>The engine gets the module whether it can be made or not.\<close>

definition executeJIT :: "('m, 'e, 't) llvm_tools \<Rightarrow> 'm compiler \<Rightarrow> int \<times> 'm compiler" where
  "executeJIT T c =
     (case module_ptr c of
        None \<Rightarrow> (1, report_at_none (Compiler C002_CODEGEN_ERROR) ''No module to execute'' c)
      | Some m \<Rightarrow>
          (let c1 = c\<lparr>module_ptr := None\<rparr>
           in case lt_engine T m of
                Inl e \<Rightarrow> (1, report_at_none (Compiler C002_CODEGEN_ERROR) (''Failed to create execution engine: '' @ e) c1)
              | Inr engine \<Rightarrow>
                  (case lt_main T engine of
                     None \<Rightarrow> (1, report_at_none (Compiler C002_CODEGEN_ERROR) ''No main function found'' c1)
                   | Some r \<Rightarrow> (r, c1))))"

definition pass_list :: "int \<Rightarrow> llvm_pass list" where
  "pass_list level =
     (if level \<ge> 1 then [Instruction_Combining, Reassociate] else [])
   @ (if level \<ge> 2 then [GVN, CFG_Simplification] else [])
   @ (if level \<ge> 3 then [Dead_Code_Elimination, Loop_Unroll, SROA, Early_CSE] else [])"

definition optimize_module :: "('m, 'e, 't) llvm_tools \<Rightarrow> int \<Rightarrow> 'm compiler \<Rightarrow> bool \<times> 'm compiler" where
  "optimize_module T level c =
     (case module_ptr c of
        None \<Rightarrow> (False, report_at_none (Compiler C002_CODEGEN_ERROR) ''No module to optimize'' c)
      | Some m \<Rightarrow> (True, c\<lparr>module_ptr := Some (lt_run T (pass_list level) m)\<rparr>))"

definition createTargetMachine :: "('m, 'e, 't) llvm_tools \<Rightarrow> 'm compiler \<Rightarrow> 't option \<times> 'm compiler" where
  "createTargetMachine T c =
     (case lt_target T of
        Inl e \<Rightarrow> (None, report_at_none (Compiler C002_CODEGEN_ERROR) (''Failed to lookup target: '' @ e) c)
      | Inr None \<Rightarrow> (None, report_at_none (Compiler C002_CODEGEN_ERROR) ''Failed to create target machine'' c)
      | Inr (Some t) \<Rightarrow> (Some t, c))"

text \<open>The last component is what stands in the file afterwards; the file is emptied when it is opened.\<close>

definition outputToFile :: "('m, 'e, 't) llvm_tools \<Rightarrow> string \<Rightarrow> bool \<Rightarrow> bool \<Rightarrow> 'm compiler \<Rightarrow> bool \<times> 'm compiler \<times> string option" where
  "outputToFile T file object assembly c =
     (case module_ptr c of
        None \<Rightarrow> (False, report_at_none (Compiler C002_CODEGEN_ERROR) ''No module to output'' c, None)
      | Some m \<Rightarrow>
          (case createTargetMachine T c of
             (None, c1) \<Rightarrow> (False, c1, None)
           | (Some t, c1) \<Rightarrow>
               (let m1 = lt_configure T t m; c2 = c1\<lparr>module_ptr := Some m1\<rparr>
                in case lt_open_error T file of
                     Some e \<Rightarrow> (False, report_at_none (IO I004_WRITE_ERROR) (''Could not open output file: '' @ e) c2, None)
                   | None \<Rightarrow>
                       if \<not> object \<and> \<not> assembly then (True, c2, Some (lt_text T m1))
                       else (case lt_emit T t (if object then Object_File else Assembly_File) m1 of
                               None \<Rightarrow> (False, report_at_none (Compiler C002_CODEGEN_ERROR)
                                          ''Target machine can't emit a file of this type'' c2, Some [])
                             | Some text \<Rightarrow> (True, c2, Some text)))))"

section \<open>Properties\<close>

text \<open>A module can be run once: after \<open>executeJIT\<close>, whatever its result was, and after \<open>getModule\<close>, the compiler has no
  module, and running, optimizing and writing fail and report it.\<close>

theorem module_handed_out_once:
  assumes "d = snd (executeJIT T c) \<or> d = snd (getModule c)"
  shows "executeJIT T d = (1, report_at_none (Compiler C002_CODEGEN_ERROR) ''No module to execute'' d)"
    and "optimize_module T l d = (False, report_at_none (Compiler C002_CODEGEN_ERROR) ''No module to optimize'' d)"
    and "outputToFile T file ob asm d = (False, report_at_none (Compiler C002_CODEGEN_ERROR) ''No module to output'' d, None)"
proof -
  have "module_ptr d = None"
    using assms by (auto simp: executeJIT_def getModule_def report_at_none_def Let_def split: option.split sum.split)
  then show "executeJIT T d = (1, report_at_none (Compiler C002_CODEGEN_ERROR) ''No module to execute'' d)"
    "optimize_module T l d = (False, report_at_none (Compiler C002_CODEGEN_ERROR) ''No module to optimize'' d)"
    "outputToFile T file ob asm d = (False, report_at_none (Compiler C002_CODEGEN_ERROR) ''No module to output'' d, None)"
    by (simp_all add: executeJIT_def optimize_module_def outputToFile_def)
qed

text \<open>A higher level runs the passes of a lower one first.\<close>

theorem levels_extend:
  assumes "i \<le> j"
  shows "\<exists>ps. pass_list j = pass_list i @ ps"
  using assms by (auto simp: pass_list_def)

text \<open>Writing succeeds exactly if there is a module, a machine, a file and, for machine code, a way to emit it. It reports
  exactly if it fails, one error. A failed emission leaves the file empty.\<close>

theorem output_succeeds_iff:
  "(case outputToFile T file ob asm c of (ok, d, text) \<Rightarrow>
      (ok \<longleftrightarrow> (\<exists>m t. module_ptr c = Some m \<and> lt_target T = Inr (Some t) \<and> lt_open_error T file = None
         \<and> (ob \<or> asm \<longrightarrow> lt_emit T t (if ob then Object_File else Assembly_File) (lt_configure T t m) \<noteq> None)))
    \<and> length (errors (compiler_handler d)) = length (errors (compiler_handler c)) + (if ok then 0 else 1)
    \<and> (ok \<longrightarrow> text \<noteq> None))"
  by (auto simp: outputToFile_def createTargetMachine_def report_at_none_def record_error_def Let_def
      split: option.split sum.split)

end
