(* ===== verification/Tocin_Features.thy ===== *)
theory Tocin_Features
  imports Tocin_Null_Safety
begin

text \<open>
  \<open>FeatureManager\<close> and \<open>FeatureIntegrationUtils\<close> of \<open>src/type/feature_integration.cpp\<close>, over the ownership checker and the
  null-safety checker. The error handler is shared by the three, so the manager hands it to a checker and takes it back.
  The other components are made and never asked.
\<close>

section \<open>State\<close>

record feature_manager =
  fm_handler :: ErrorHandler
  fm_ownership :: "ownership_checker option"
  fm_null_safety :: "null_checker option"
  fm_flags :: "string \<Rightarrow> bool option"
  fm_initialized :: bool
  fm_cache :: "string \<Rightarrow> type option"

definition feature_names :: "string list" where
  "feature_names = [''ownership'', ''result_option'', ''null_safety'', ''extension_functions'', ''move_semantics'', ''traits'',
     ''async_await'', ''linq'', ''pattern_matching'', ''generics'']"

definition initializeFeatureFlags :: "feature_manager \<Rightarrow> feature_manager" where
  "initializeFeatureFlags m = m\<lparr>fm_flags := fold (\<lambda>n fs. fs(n \<mapsto> True)) feature_names (fm_flags m)\<rparr>"

definition new_FeatureManager :: "ErrorHandler \<Rightarrow> feature_manager" where
  "new_FeatureManager h = initializeFeatureFlags
     \<lparr>fm_handler = h, fm_ownership = None, fm_null_safety = None, fm_flags = Map.empty, fm_initialized = False, fm_cache = Map.empty\<rparr>"

definition fm_initialize :: "feature_manager \<Rightarrow> bool \<times> feature_manager" where
  "fm_initialize m =
     (if fm_initialized m then (True, m)
      else (True, m\<lparr>fm_ownership := Some (new_OwnershipChecker (fm_handler m)),
        fm_null_safety := Some (new_NullSafetyChecker (fm_handler m)), fm_initialized := True\<rparr>))"

definition fm_finalize :: "feature_manager \<Rightarrow> feature_manager" where
  "fm_finalize m = (if \<not> fm_initialized m then m else m\<lparr>fm_cache := Map.empty, fm_initialized := False\<rparr>)"

section \<open>Flags\<close>

definition isFeatureEnabled :: "string \<Rightarrow> feature_manager \<Rightarrow> bool" where
  "isFeatureEnabled n m \<longleftrightarrow> fm_flags m n = Some True"

definition enableFeature :: "string \<Rightarrow> feature_manager \<Rightarrow> feature_manager" where
  "enableFeature n m = m\<lparr>fm_flags := (fm_flags m)(n \<mapsto> True)\<rparr>"

definition disableFeature :: "string \<Rightarrow> feature_manager \<Rightarrow> feature_manager" where
  "disableFeature n m = m\<lparr>fm_flags := (fm_flags m)(n \<mapsto> False)\<rparr>"

text \<open>\<open>order\<close> is the order in which the table is iterated.\<close>

definition getActiveFeatures :: "string list \<Rightarrow> feature_manager \<Rightarrow> string list" where
  "getActiveFeatures order m = filter (\<lambda>n. isFeatureEnabled n m) order"

section \<open>Checks\<close>

text \<open>A call of a checker, if its feature is enabled. A null pointer to a checker is \<open>None\<close>: the call is undefined.\<close>

definition ask_ownership :: "(ownership_checker \<Rightarrow> bool \<times> ownership_checker) \<Rightarrow> feature_manager \<Rightarrow> (bool \<times> feature_manager) option" where
  "ask_ownership f m =
     (if isFeatureEnabled ''ownership'' m then
        map_option (\<lambda>oc. let (b, oc1) = f (oc\<lparr>oc_handler := fm_handler m\<rparr>)
          in (b, m\<lparr>fm_ownership := Some oc1, fm_handler := oc_handler oc1\<rparr>)) (fm_ownership m)
      else Some (True, m))"

definition ask_null_safety :: "(null_checker \<Rightarrow> bool \<times> null_checker) \<Rightarrow> feature_manager \<Rightarrow> (bool \<times> feature_manager) option" where
  "ask_null_safety f m =
     (if isFeatureEnabled ''null_safety'' m then
        map_option (\<lambda>nc. let (b, nc1) = f (nc\<lparr>nc_handler := fm_handler m\<rparr>)
          in (b, m\<lparr>fm_null_safety := Some nc1, fm_handler := nc_handler nc1\<rparr>)) (fm_null_safety m)
      else Some (True, m))"

definition fm_check :: "(ownership_checker \<Rightarrow> bool \<times> ownership_checker) \<Rightarrow> (null_checker \<Rightarrow> bool \<times> null_checker) \<Rightarrow>
    feature_manager \<Rightarrow> (bool \<times> feature_manager) option" where
  "fm_check f g m =
     (if \<not> fm_initialized m then Some (False, m)
      else case ask_ownership f m of
        None \<Rightarrow> None
      | Some (False, m1) \<Rightarrow> Some (False, m1)
      | Some (True, m1) \<Rightarrow> ask_null_safety g m1)"

definition fm_checkExpression :: "expr option \<Rightarrow> feature_manager \<Rightarrow> (bool \<times> feature_manager) option" where
  "fm_checkExpression e = fm_check (checkExpression e) (ns_checkExpression e)"

definition fm_checkStatement :: "stmt option \<Rightarrow> feature_manager \<Rightarrow> (bool \<times> feature_manager) option" where
  "fm_checkStatement st = fm_check (checkStatement st) (ns_checkStatement st)"

text \<open>Both checkers answer true for every function; classes and traits are not looked at.\<close>

definition fm_checkFunction :: "feature_manager \<Rightarrow> (bool \<times> feature_manager) option" where
  "fm_checkFunction = fm_check (\<lambda>oc. (True, oc)) (\<lambda>nc. (True, nc))"

definition fm_checkClass :: "feature_manager \<Rightarrow> bool" where
  "fm_checkClass m \<longleftrightarrow> fm_initialized m"

definition fm_checkTrait :: "feature_manager \<Rightarrow> bool" where
  "fm_checkTrait m \<longleftrightarrow> fm_initialized m"

section \<open>Types\<close>

definition fm_resolveType :: "type option \<Rightarrow> feature_manager \<Rightarrow> (type option \<times> feature_manager) option" where
  "fm_resolveType p m =
     (case p of
        None \<Rightarrow> Some (None, m)
      | Some ty \<Rightarrow>
          (case fm_cache m (type_toString ty) of
             Some r \<Rightarrow> Some (Some r, m)
           | None \<Rightarrow>
               if isFeatureEnabled ''null_safety'' m \<and> fm_null_safety m = None then None
               else (let r = (if isFeatureEnabled ''null_safety'' m then resolveType p else p)
                     in Some (r, m\<lparr>fm_cache := (fm_cache m)(type_toString ty := r)\<rparr>))))"

definition fm_isTypeCompatible :: "type option \<Rightarrow> type option \<Rightarrow> bool" where
  "fm_isTypeCompatible a b =
     (case (a, b) of (Some x, Some y) \<Rightarrow> type_toString x = type_toString y | _ \<Rightarrow> False)"

definition fm_isNullableType :: "type option \<Rightarrow> feature_manager \<Rightarrow> bool option" where
  "fm_isNullableType p m =
     (if p = None then Some False
      else if isFeatureEnabled ''null_safety'' m then map_option (\<lambda>_. isNullableType p) (fm_null_safety m)
      else Some False)"

definition fm_isNonNullType :: "type option \<Rightarrow> feature_manager \<Rightarrow> bool option" where
  "fm_isNonNullType p m =
     (if p = None then Some False
      else if isFeatureEnabled ''null_safety'' m then map_option (\<lambda>_. isNonNullType p) (fm_null_safety m)
      else Some False)"

definition fm_canMove :: "expr option \<Rightarrow> feature_manager \<Rightarrow> bool option" where
  "fm_canMove e m =
     (if e = None then Some False
      else if isFeatureEnabled ''move_semantics'' m then map_option (canMove e) (fm_ownership m)
      else Some False)"

definition fm_shouldMove :: "expr option \<Rightarrow> feature_manager \<Rightarrow> bool option" where
  "fm_shouldMove e m =
     (if e = None then Some False
      else if isFeatureEnabled ''move_semantics'' m then map_option (\<lambda>_. shouldMove e) (fm_ownership m)
      else Some False)"

definition isAdvancedType :: "type option \<Rightarrow> bool" where
  "isAdvancedType p =
     (case p of
        None \<Rightarrow> False
      | Some ty \<Rightarrow> (let s = type_toString ty in
          str_contains ''Option<'' s \<or> str_contains ''Result<'' s \<or> str_contains ''?'' s \<or> str_contains ''&'' s \<or> str_contains ''mut '' s))"

definition getAdvancedTypeDescription :: "type option \<Rightarrow> string" where
  "getAdvancedTypeDescription p =
     (case p of
        None \<Rightarrow> ''unknown''
      | Some ty \<Rightarrow> (let s = type_toString ty in
          if str_contains ''Option<'' s then ''optional type''
          else if str_contains ''Result<'' s then ''result type''
          else if str_contains ''?'' s then ''nullable type''
          else if str_contains ''&'' s then ''reference type''
          else if str_contains ''mut '' s then ''mutable reference type''
          else ''basic type''))"

text \<open>The description names an advanced type exactly if there is one.\<close>

lemma description_advanced:
  "p \<noteq> None \<Longrightarrow> isAdvancedType p \<longleftrightarrow> getAdvancedTypeDescription p \<noteq> ''basic type''"
  by (auto simp: isAdvancedType_def getAdvancedTypeDescription_def Let_def split: option.splits)

section \<open>Programs over the manager\<close>

datatype fm_op =
  Initialize | Enable string | Disable string | Check_Expression "expr option" | Check_Statement "stmt option" | Check_Function
| Resolve "type option"

definition fm_step :: "fm_op \<Rightarrow> feature_manager \<Rightarrow> feature_manager option" where
  "fm_step p m =
     (case p of
        Initialize \<Rightarrow> Some (snd (fm_initialize m))
      | Enable n \<Rightarrow> Some (enableFeature n m)
      | Disable n \<Rightarrow> Some (disableFeature n m)
      | Check_Expression e \<Rightarrow> map_option snd (fm_checkExpression e m)
      | Check_Statement st \<Rightarrow> map_option snd (fm_checkStatement st m)
      | Check_Function \<Rightarrow> map_option snd (fm_checkFunction m)
      | Resolve ty \<Rightarrow> map_option snd (fm_resolveType ty m))"

primrec fm_run :: "fm_op list \<Rightarrow> feature_manager \<Rightarrow> feature_manager option" where
  "fm_run [] m = Some m"
| "fm_run (p # ps) m = Option.bind (fm_step p m) (fm_run ps)"

lemma ask_fields:
  "ask_ownership f m = Some (b, m1) \<Longrightarrow> fm_cache m1 = fm_cache m \<and> fm_flags m1 = fm_flags m \<and> fm_initialized m1 = fm_initialized m
     \<and> (fm_ownership m1 = None \<longleftrightarrow> fm_ownership m = None) \<and> fm_null_safety m1 = fm_null_safety m"
  "ask_null_safety g m = Some (b, m1) \<Longrightarrow> fm_cache m1 = fm_cache m \<and> fm_flags m1 = fm_flags m \<and> fm_initialized m1 = fm_initialized m
     \<and> (fm_null_safety m1 = None \<longleftrightarrow> fm_null_safety m = None) \<and> fm_ownership m1 = fm_ownership m"
  by (auto simp: ask_ownership_def ask_null_safety_def Let_def case_prod_beta split: if_splits)

lemma check_fields:
  assumes "fm_check f g m = Some (b, m1)"
  shows "fm_cache m1 = fm_cache m \<and> fm_initialized m1 = fm_initialized m
    \<and> (fm_ownership m1 = None \<longleftrightarrow> fm_ownership m = None) \<and> (fm_null_safety m1 = None \<longleftrightarrow> fm_null_safety m = None)"
  using assms by (auto simp: fm_check_def split: if_splits option.splits prod.splits bool.splits dest!: ask_fields)

text \<open>An initialized manager has both checkers; entries of the cache stay until \<open>finalize\<close>.\<close>

definition fm_ok :: "feature_manager \<Rightarrow> bool" where
  "fm_ok m \<longleftrightarrow> (fm_initialized m \<longrightarrow> fm_ownership m \<noteq> None \<and> fm_null_safety m \<noteq> None)"

lemma fm_step_ok:
  assumes "fm_step p m = Some m1" "fm_ok m"
  shows "fm_ok m1 \<and> fm_cache m \<subseteq>\<^sub>m fm_cache m1"
proof (cases p)
  case (Resolve ty)
  then show ?thesis using assms
    by (auto simp: fm_step_def fm_resolveType_def fm_ok_def Let_def map_le_def split: option.splits if_splits)
qed (use assms in \<open>auto simp: fm_step_def fm_ok_def fm_initialize_def enableFeature_def disableFeature_def fm_checkExpression_def
      fm_checkStatement_def fm_checkFunction_def split: if_splits dest!: check_fields\<close>)

lemma fm_run_ok:
  assumes "fm_run ps m = Some m1" "fm_ok m"
  shows "fm_ok m1 \<and> fm_cache m \<subseteq>\<^sub>m fm_cache m1"
  using assms
proof (induction ps arbitrary: m)
  case (Cons p ps)
  obtain m2 where p: "fm_step p m = Some m2" "fm_run ps m2 = Some m1" using Cons(2) by (auto split: bind_splits)
  note step = fm_step_ok [OF p(1) Cons(3)]
  have "fm_ok m1 \<and> fm_cache m2 \<subseteq>\<^sub>m fm_cache m1" using Cons(1) [OF p(2)] step by simp
  then show ?case using step map_le_trans by blast
qed simp

text \<open>The answer to a type is final: until \<open>finalize\<close> every type with the same text is resolved to it, whatever features are
  enabled or disabled in between.\<close>

theorem resolution_is_final:
  assumes "fm_ok m" "fm_resolveType (Some x) m = Some (Some r, m1)" "fm_run ps m1 = Some m2" "type_toString y = type_toString x"
  shows "fm_resolveType (Some y) m2 = Some (Some r, m2)"
proof -
  have m1: "fm_cache m1 (type_toString x) = Some r" "fm_ok m1"
    using assms(1,2) by (auto simp: fm_resolveType_def Let_def fm_ok_def split: option.splits if_splits)
  have "fm_cache m1 \<subseteq>\<^sub>m fm_cache m2" using fm_run_ok [OF assms(3) m1(2)] by simp
  then have "fm_cache m2 (type_toString x) = Some r" using m1(1) by (force simp: map_le_def)
  then show ?thesis using assms(4) by (simp add: fm_resolveType_def)
qed

text \<open>Every statement, function, class and trait passes an initialized manager, and nothing is reported.\<close>

theorem statements_pass:
  assumes "fm_ok m" "fm_initialized m"
  shows "(\<exists>m1. fm_checkStatement st m = Some (True, m1) \<and> fm_handler m1 = fm_handler m)
    \<and> (\<exists>m1. fm_checkFunction m = Some (True, m1) \<and> fm_handler m1 = fm_handler m) \<and> fm_checkClass m \<and> fm_checkTrait m"
  using assms
  by (auto simp: fm_checkStatement_def fm_checkFunction_def fm_check_def ask_ownership_def ask_null_safety_def fm_ok_def
      checkStatement_def checkStatementOwnership_def ns_checkStatement_def isFeatureEnabled_def fm_checkClass_def fm_checkTrait_def
      split: prod.splits if_splits)

text \<open>A manager that was never initialized has no checker to ask about types.\<close>

lemma uninitialized_resolve:
  "fm_resolveType (Some ty) (new_FeatureManager h) = None"
  by (simp add: fm_resolveType_def new_FeatureManager_def initializeFeatureFlags_def feature_names_def isFeatureEnabled_def)

end
