(* ===== verification/Tocin_Native.thy ===== *)
theory Tocin_Native
  imports Tocin_Prelude "HOL-Library.Word"
begin

text \<open>
  The functions of \<open>src/runtime/native_functions.cpp\<close> that work on memory: C strings, allocation, arrays and the stubs for
  dictionaries. Those on the console, the clock, random numbers and doubles only call the C library. An access outside
  of a block of memory is undefined: \<open>None\<close>.
\<close>

section \<open>Memory\<close>

text \<open>A pointer is a block and an offset in it; a null pointer is \<open>None\<close>.\<close>

type_synonym address = "nat \<times> nat"

record heap =
  hp_blocks :: "nat \<Rightarrow> string option"
  hp_next :: nat

text \<open>Whether the library has memory for a size, and what stands in the memory that it gives.\<close>

record allocator =
  al_ok :: "nat \<Rightarrow> bool"
  al_byte :: "nat \<Rightarrow> char"

definition c_malloc :: "allocator \<Rightarrow> nat \<Rightarrow> heap \<Rightarrow> address option \<times> heap" where
  "c_malloc A n h =
     (if al_ok A n then
        (Some (hp_next h, 0), h\<lparr>hp_blocks := (hp_blocks h)(hp_next h \<mapsto> map (al_byte A) [0..<n]), hp_next := hp_next h + 1\<rparr>)
      else (None, h))"

definition c_read :: "address \<Rightarrow> nat \<Rightarrow> heap \<Rightarrow> string option" where
  "c_read p n h =
     (case hp_blocks h (fst p) of
        None \<Rightarrow> None
      | Some xs \<Rightarrow> if snd p + n \<le> length xs then Some (take n (drop (snd p) xs)) else None)"

definition c_write :: "address \<Rightarrow> string \<Rightarrow> heap \<Rightarrow> heap option" where
  "c_write p s h =
     (case hp_blocks h (fst p) of
        None \<Rightarrow> None
      | Some xs \<Rightarrow>
          if snd p + length s \<le> length xs
          then Some (h\<lparr>hp_blocks := (hp_blocks h)(fst p \<mapsto> take (snd p) xs @ s @ drop (snd p + length s) xs)\<rparr>)
          else None)"

text \<open>The C string at an address, which \<open>strlen\<close>, \<open>strcpy\<close> and \<open>strcat\<close> read.\<close>

definition c_text :: "address \<Rightarrow> heap \<Rightarrow> string option" where
  "c_text p h =
     (case hp_blocks h (fst p) of
        None \<Rightarrow> None
      | Some xs \<Rightarrow> if NUL \<in> set (drop (snd p) xs) then Some (takeWhile (\<lambda>c. c \<noteq> NUL) (drop (snd p) xs)) else None)"

definition c_strcpy :: "address \<Rightarrow> string \<Rightarrow> heap \<Rightarrow> heap option" where
  "c_strcpy p s h = c_write p (s @ [NUL]) h"

definition c_strcat :: "address \<Rightarrow> string \<Rightarrow> heap \<Rightarrow> heap option" where
  "c_strcat p s h = Option.bind (c_text p h) (\<lambda>t. c_write (fst p, snd p + length t) (s @ [NUL]) h)"

section \<open>Strings\<close>

definition text_or_empty :: "address option \<Rightarrow> heap \<Rightarrow> string option" where
  "text_or_empty p h = (case p of None \<Rightarrow> Some [] | Some a \<Rightarrow> c_text a h)"

definition native_string_length :: "address option \<Rightarrow> heap \<Rightarrow> 64 word option" where
  "native_string_length p h = (case p of None \<Rightarrow> Some 0 | Some a \<Rightarrow> map_option (\<lambda>s. word_of_nat (length s)) (c_text a h))"

definition native_string_concat :: "allocator \<Rightarrow> address option \<Rightarrow> address option \<Rightarrow> heap \<Rightarrow> (address option \<times> heap) option" where
  "native_string_concat A p q h =
     Option.bind (text_or_empty p h) (\<lambda>s. Option.bind (text_or_empty q h) (\<lambda>t.
       case c_malloc A (length s + length t + 1) h of
         (None, h1) \<Rightarrow> Some (None, h1)
       | (Some a, h1) \<Rightarrow> Option.bind (c_strcpy a s h1) (\<lambda>h2. map_option (\<lambda>h3. (Some a, h3)) (c_strcat a t h2))))"

definition native_int_to_string :: "allocator \<Rightarrow> 64 word \<Rightarrow> heap \<Rightarrow> (address option \<times> heap) option" where
  "native_int_to_string A v h =
     (let str = show_int (sint v) in
      case c_malloc A (length str + 1) h of
        (None, h1) \<Rightarrow> Some (None, h1)
      | (Some a, h1) \<Rightarrow> map_option (\<lambda>h2. (Some a, h2)) (c_strcpy a str h1))"

definition native_string_to_int :: "address option \<Rightarrow> heap \<Rightarrow> 64 word option" where
  "native_string_to_int p h =
     (case p of
        None \<Rightarrow> Some 0
      | Some a \<Rightarrow> map_option (\<lambda>s. case stoi_value 64 s of None \<Rightarrow> 0 | Some i \<Rightarrow> word_of_int i) (c_text a h))"

section \<open>Allocation, arrays and dictionaries\<close>

definition native_malloc :: "allocator \<Rightarrow> 64 word \<Rightarrow> heap \<Rightarrow> address option \<times> heap" where
  "native_malloc A n h = c_malloc A (unat n) h"

definition native_free :: "address option \<Rightarrow> heap \<Rightarrow> heap option" where
  "native_free p h =
     (case p of
        None \<Rightarrow> Some h
      | Some a \<Rightarrow> if snd a = 0 \<and> hp_blocks h (fst a) \<noteq> None then Some (h\<lparr>hp_blocks := (hp_blocks h)(fst a := None)\<rparr>) else None)"

text \<open>\<open>calloc\<close> sees an overflow of the product.\<close>

definition native_array_create :: "allocator \<Rightarrow> 64 word \<Rightarrow> 64 word \<Rightarrow> heap \<Rightarrow> address option \<times> heap" where
  "native_array_create A n esize h =
     (if unat n * unat esize < 2 ^ 64 then c_malloc (A\<lparr>al_byte := \<lambda>i. NUL\<rparr>) (unat n * unat esize) h else (None, h))"

text \<open>The offset is computed in 64 bits.\<close>

definition element_offset :: "64 word \<Rightarrow> 64 word \<Rightarrow> nat" where
  "element_offset i esize = unat (i * esize)"

definition native_array_set :: "address option \<Rightarrow> 64 word \<Rightarrow> address option \<Rightarrow> 64 word \<Rightarrow> heap \<Rightarrow> heap option" where
  "native_array_set arr i value esize h =
     (case (arr, value) of
        (Some a, Some v) \<Rightarrow>
          Option.bind (c_read v (unat esize) h) (\<lambda>bytes. c_write (fst a, snd a + element_offset i esize) bytes h)
      | _ \<Rightarrow> Some h)"

definition native_array_get :: "address option \<Rightarrow> 64 word \<Rightarrow> 64 word \<Rightarrow> address option" where
  "native_array_get arr i esize = (case arr of None \<Rightarrow> None | Some a \<Rightarrow> Some (fst a, snd a + element_offset i esize))"

definition native_array_length :: "address option \<Rightarrow> 64 word" where
  "native_array_length arr = 0"

definition native_dict_create :: "allocator \<Rightarrow> heap \<Rightarrow> address option \<times> heap" where
  "native_dict_create A h = c_malloc A 8 h"

definition native_dict_set :: "address option \<Rightarrow> address option \<Rightarrow> address option \<Rightarrow> heap \<Rightarrow> heap" where
  "native_dict_set d k v h = h"

definition native_dict_get :: "address option \<Rightarrow> address option \<Rightarrow> heap \<Rightarrow> address option" where
  "native_dict_get d k h = None"

definition native_dict_has :: "address option \<Rightarrow> address option \<Rightarrow> heap \<Rightarrow> bool" where
  "native_dict_has d k h = False"

section \<open>Properties\<close>

text \<open>A heap in which the next block is not in use.\<close>

definition heap_ok :: "heap \<Rightarrow> bool" where
  "heap_ok h \<longleftrightarrow> (\<forall>b. hp_blocks h b \<noteq> None \<longrightarrow> b < hp_next h)"

lemma text_of_block:
  assumes "hp_blocks h b = Some (s @ NUL # rest)" "NUL \<notin> set s"
  shows "c_text (b, 0) h = Some s"
proof -
  have "takeWhile (\<lambda>c. c \<noteq> NUL) (s @ NUL # rest) = s" using assms(2) by (subst takeWhile_append2) auto
  then show ?thesis using assms(1) by (simp add: c_text_def)
qed

lemma text_no_nul: "c_text p h = Some s \<Longrightarrow> NUL \<notin> set s"
  by (auto simp: c_text_def split: option.splits if_splits dest: set_takeWhileD)

lemma text_or_empty_no_nul: "text_or_empty p h = Some s \<Longrightarrow> NUL \<notin> set s"
  by (auto simp: text_or_empty_def text_no_nul split: option.splits)

lemma copy_fresh:
  assumes "c_malloc A n h = (Some a, h1)" "length s < n"
  shows "\<exists>rest. c_strcpy a s h1 = Some (h\<lparr>hp_blocks := (hp_blocks h)(hp_next h \<mapsto> s @ NUL # rest), hp_next := hp_next h + 1\<rparr>)
    \<and> a = (hp_next h, 0) \<and> length rest = n - length s - 1"
  using assms
  by (intro exI [of _ "drop (Suc (length s)) (map (al_byte A) [0..<n])"])
     (auto simp: c_malloc_def c_strcpy_def c_write_def split: if_splits)

text \<open>Concatenation succeeds on C strings if there is memory. The result is a new C string, both texts one after the other,
  and no block that was there changes.\<close>

theorem concat_correct:
  assumes "text_or_empty p h = Some s" "text_or_empty q h = Some t" "al_ok A (length s + length t + 1)" "heap_ok h"
  shows "\<exists>a h1. native_string_concat A p q h = Some (Some a, h1) \<and> c_text a h1 = Some (s @ t)
    \<and> hp_blocks h (fst a) = None \<and> (\<forall>b. hp_blocks h b \<noteq> None \<longrightarrow> hp_blocks h1 b = hp_blocks h b) \<and> heap_ok h1"
proof -
  obtain a h1 where m: "c_malloc A (length s + length t + 1) h = (Some a, h1)" using assms(3) by (simp add: c_malloc_def)
  obtain rest where cpy: "c_strcpy a s h1 = Some (h\<lparr>hp_blocks := (hp_blocks h)(hp_next h \<mapsto> s @ NUL # rest), hp_next := hp_next h + 1\<rparr>)"
    "a = (hp_next h, 0)" "length rest = length t"
    using copy_fresh [OF m, of s] by auto
  let ?h2 = "h\<lparr>hp_blocks := (hp_blocks h)(hp_next h \<mapsto> s @ NUL # rest), hp_next := hp_next h + 1\<rparr>"
  let ?h3 = "h\<lparr>hp_blocks := (hp_blocks h)(hp_next h \<mapsto> s @ t @ [NUL]), hp_next := hp_next h + 1\<rparr>"
  have "c_text a ?h2 = Some s" using cpy(2) text_or_empty_no_nul [OF assms(1)] text_of_block [of ?h2 "hp_next h" s rest] by simp
  then have "c_strcat a t ?h2 = Some ?h3" using cpy(2,3) by (simp add: c_strcat_def c_write_def)
  then have "native_string_concat A p q h = Some (Some a, ?h3)"
    using assms(1,2) m cpy(1) by (simp add: native_string_concat_def)
  moreover have "c_text a ?h3 = Some (s @ t)"
    using cpy(2) text_or_empty_no_nul [OF assms(1)] text_or_empty_no_nul [OF assms(2)]
      text_of_block [of ?h3 "hp_next h" "s @ t" "[]"] by simp
  moreover have "hp_blocks h (hp_next h) = None" using assms(4) unfolding heap_ok_def by blast
  ultimately show ?thesis
    using cpy(2) assms(4) by (intro exI [of _ a] exI [of _ ?h3]) (auto simp: heap_ok_def less_Suc_eq)
qed

text \<open>An integer of 64 bits is read back from its text.\<close>

theorem int_text_roundtrip:
  assumes "al_ok A (length (show_int (sint v)) + 1)"
  shows "\<exists>a h1. native_int_to_string A v h = Some (Some a, h1) \<and> native_string_to_int (Some a) h1 = Some v"
proof -
  let ?s = "show_int (sint v)"
  obtain a h1 where m: "c_malloc A (length ?s + 1) h = (Some a, h1)" using assms by (simp add: c_malloc_def)
  obtain rest where cpy: "c_strcpy a ?s h1 = Some (h\<lparr>hp_blocks := (hp_blocks h)(hp_next h \<mapsto> ?s @ NUL # rest), hp_next := hp_next h + 1\<rparr>)"
    "a = (hp_next h, 0)"
    using copy_fresh [OF m, of ?s] by auto
  let ?h2 = "h\<lparr>hp_blocks := (hp_blocks h)(hp_next h \<mapsto> ?s @ NUL # rest), hp_next := hp_next h + 1\<rparr>"
  have "isdigit c \<or> c = CHR ''-''" if "c \<in> set ?s" for c
    using that show_nat_digits by (auto simp: show_int_def list_all_iff split: if_splits)
  moreover have "\<not> isdigit NUL" "NUL \<noteq> CHR ''-''" by (simp_all add: isdigit_def code_def)
  ultimately have "NUL \<notin> set ?s" by blast
  then have "c_text a ?h2 = Some ?s" using cpy(2) text_of_block [of ?h2 "hp_next h" ?s rest] by simp
  moreover have "stoi_value 64 ?s = Some (sint v)"
    using sint_range_size [of v] by (intro stoi_show_int) (simp_all add: word_size)
  ultimately have "native_string_to_int (Some a) ?h2 = Some v" by (simp add: native_string_to_int_def)
  then show ?thesis using m cpy(1) by (auto simp: native_int_to_string_def Let_def)
qed

text \<open>In an array that holds all its elements, setting one is seen at its place and nowhere else. The value lies in another block.\<close>

theorem array_set_get:
  assumes "hp_blocks h b = Some xs" "unat n * unat esize = length xs" "i < n" "j < n" "length xs < 2 ^ 64"
    and "c_read v (unat esize) h = Some bytes" "fst v \<noteq> b"
  shows "\<exists>h1. native_array_set (Some (b, 0)) i (Some v) esize h = Some h1
    \<and> c_read (the (native_array_get (Some (b, 0)) j esize)) (unat esize) h1
      = (if i = j then Some bytes else c_read (the (native_array_get (Some (b, 0)) j esize)) (unat esize) h)
    \<and> c_read v (unat esize) h1 = Some bytes"
proof -
  have place: "element_offset k esize = unat k * unat esize \<and> unat k * unat esize + unat esize \<le> length xs" if "k < n" for k
  proof -
    have k: "Suc (unat k) \<le> unat n" using that by (simp add: word_less_nat_alt)
    then have fits: "Suc (unat k) * unat esize \<le> length xs" using assms(2) mult_le_mono1 by metis
    then have "unat k * unat esize < 2 ^ 64" using assms(5) by simp
    then show ?thesis using fits by (simp add: element_offset_def unat_word_ariths)
  qed
  have len: "length bytes = unat esize" using assms(6) by (auto simp: c_read_def split: option.splits if_splits)
  let ?h1 = "h\<lparr>hp_blocks := (hp_blocks h)(b \<mapsto> take (unat i * unat esize) xs @ bytes @ drop (unat i * unat esize + unat esize) xs)\<rparr>"
  have set: "native_array_set (Some (b, 0)) i (Some v) esize h = Some ?h1"
    using assms(1,6) len place [OF assms(3)] by (simp add: native_array_set_def c_write_def)
  have other: "c_read v (unat esize) ?h1 = Some bytes" using assms(6,7) by (simp add: c_read_def)
  have read: "take (unat esize) (drop (unat j * unat esize) (take (unat i * unat esize) xs @ bytes @ drop (unat i * unat esize + unat esize) xs))
      = (if i = j then bytes else take (unat esize) (drop (unat j * unat esize) xs))"
  proof (cases "unat i" "unat j" rule: linorder_cases)
    case less
    then have "Suc (unat i) * unat esize \<le> unat j * unat esize" by (intro mult_le_mono1) simp
    then show ?thesis using less len place [OF assms(3)] by (auto simp: drop_append add.commute)
  next
    case equal
    then show ?thesis using len place [OF assms(3)] by (simp add: word_unat_eq_iff)
  next
    case greater
    then have "Suc (unat j) * unat esize \<le> unat i * unat esize" by (intro mult_le_mono1) simp
    then show ?thesis using greater len place [OF assms(3)] by (auto simp: drop_append drop_take min_def)
  qed
  have "unat j * unat esize + unat esize \<le> length (take (unat i * unat esize) xs @ bytes @ drop (unat i * unat esize + unat esize) xs)"
    using place [OF assms(3)] place [OF assms(4)] len by simp
  then have "c_read (the (native_array_get (Some (b, 0)) j esize)) (unat esize) ?h1
      = (if i = j then Some bytes else c_read (the (native_array_get (Some (b, 0)) j esize)) (unat esize) h)"
    using assms(1) place [OF assms(4)] read by (simp add: native_array_get_def c_read_def)
  then show ?thesis using set other by blast
qed

text \<open>Nothing checks an index: an index whose offset wraps around reaches the first element.\<close>

lemma offset_wraps: "element_offset (2 ^ 61) 8 = 0"
  by (simp add: element_offset_def)

text \<open>The length of every array is 0, and no dictionary has a key, also after it was set.\<close>

lemma stubs: "native_array_length arr = 0" "\<not> native_dict_has d k (native_dict_set d k v h)"
  by (simp_all add: native_array_length_def native_dict_has_def)

end
