(* ===== verification/Spec2Isabelle.thy ===== *)
theory Spec2Isabelle
  imports Tocin_Lexer_Roundtrip Tocin_Compiler Tocin_Null_Safety Tocin_Channel Tocin_Thread_Pool
    Tocin_Codegen_Exec Tocin_Codegen_Blocks Tocin_Codegen_Extra Tocin_Scheduler Tocin_Main
    Tocin_Async Tocin_Context Tocin_Interpreter
    Tocin_Stdlib Tocin_Ffi_Cpp_Utils Tocin_Macros Tocin_Traits
    Tocin_Ffi_JavaScript Tocin_Ffi_Python Tocin_Memory Tocin_Results Tocin_Builtins
    Tocin_Futures Tocin_Enhanced Tocin_Compiler_Output Tocin_Features Tocin_Native
begin

text \<open>
  A verification development for the Tocin compiler (\<open>src/\<close>).

  \<^bold>\<open>The program.\<close> Tocin is a compiler and an interpreter for a small language, in C++. The driver
  reads a file, the lexer turns the text into tokens, the parser turns the tokens into a tree,
  the type layer checks the tree, and the tree is compiled through LLVM or interpreted. Errors
  go to an error handler. The driver, the lexer and the parser each own one.

  \<^bold>\<open>The theories.\<close>

  \<^item> \<open>Tocin_Prelude\<close>: lemmas on lists, characters and numbers that the components share.
  \<^item> \<open>Tocin_Token\<close>: \<open>lexer/token.h\<close>, \<open>lexer/token.cpp\<close>, the keyword table of \<open>lexer/lexer.cpp\<close>.
  \<^item> \<open>Tocin_Errors\<close>: \<open>error/error_handler.h\<close>, \<open>error/error_handler.cpp\<close>. The mutex is a flag of
    the state, so that locking it twice is an outcome.
  \<^item> \<open>Tocin_Lexer_State\<close>, \<open>Tocin_Lexer\<close>, \<open>Tocin_Tokenize\<close>: \<open>lexer/lexer.cpp\<close>. The state is the
    record \<open>lexer\<close> with the members of the class; each function of the class is a function on it.
  \<^item> \<open>Tocin_Lexer_Invariants\<close>, \<open>Tocin_Lexer_Spec\<close>, \<open>Tocin_Lexer_Roundtrip\<close>: the properties of
    the lexer. The first interprets the locale of lexer invariants, the second relates the
    scanners to tables and to printing, the third composes them over a whole source.
  \<^item> \<open>Tocin_Types\<close>, \<open>Tocin_Ast\<close>: \<open>ast/types.h\<close>, \<open>ast/ast.h\<close>.
  \<^item> \<open>Tocin_Parser_Core\<close>, \<open>Tocin_Parser_Expr\<close>, \<open>Tocin_Parser\<close>: \<open>parser/parser.h\<close>,
    \<open>parser/parser.cpp\<close>. A production is a function from the parser's state to an outcome: a
    value, an exception, a read outside the token vector, or no fuel left.
  \<^item> \<open>Tocin_Parser_Shape\<close>: which trees the parser builds, production by production. The later
    phases are stated on such trees.
  \<^item> \<open>Tocin_Type_Checker\<close>: \<open>type/type_checker.cpp\<close>, on the type objects of \<open>Tocin_Type_Objects\<close>: they
    carry their address, because \<open>Type::equals\<close> compares the addresses of basic, simple, union
    and class types; the overrides of the other classes compare the members.
  \<^item> \<open>Tocin_Compiler\<close>: \<open>Compiler::compile\<close> of \<open>compiler/compiler.cpp\<close>, over the lexer, the parser and
    the type checker; the LLVM functions are the fields of a parameter.
  \<^item> \<open>Tocin_LLVM\<close>, \<open>Tocin_Codegen\<close>, \<open>Tocin_Codegen_Stmt\<close>, \<open>Tocin_Codegen_Extra\<close>:
    \<open>codegen/ir_generator.cpp\<close>. The first is the record of what the generator asks of LLVM and the
    builder calls, the others are its visitors. A visit ends normally, with an exception, or in
    undefined behaviour, and leaves its value in \<open>lastValue\<close>.
  \<^item> \<open>Tocin_Codegen_Relations\<close>: two locales, for relations between the states before and after
    a visit that every step respects: the steps of an ordinary expression, and all steps.
  \<^item> \<open>Tocin_Codegen_Frame\<close>, \<open>Tocin_Codegen_Blocks\<close>, \<open>Tocin_Codegen_Exec\<close>: what no visit
    changes, the basic blocks of a function, and what the code of an expression computes.
  \<^item> \<open>Tocin_Main\<close>: \<open>main.cpp\<close>, the command line, the interactive loop and the compilation of one source,
    composed with the phases above.
  \<^item> \<open>Tocin_Scopes\<close>: the locale of a table of nested scopes, which the code generator and the compilation
    context interpret. \<open>Tocin_Context\<close>: \<open>compiler/compilation_context.h\<close> and \<open>.cpp\<close>.
  \<^item> \<open>Tocin_Static_Analyzer\<close>, \<open>Tocin_Collectors\<close>, \<open>Tocin_Interpreter\<close>: the classes of
    \<open>interpreter/src/Interpreter.cpp\<close> that keep a state of their own, and \<open>interpreter/src/Environment.cpp\<close>.
  \<^item> \<open>Tocin_Ffi_Value\<close>, \<open>Tocin_Ffi_Store\<close>: \<open>ffi/ffi_value.cpp\<close>, and programs over its values.
    \<open>Tocin_Stdlib\<close>: the functions of \<open>compiler/stdlib.cpp\<close> on them.
  \<^item> \<open>Tocin_Ffi_Cpp\<close>, \<open>Tocin_Ffi_Cpp_Utils\<close>: the bridge to native libraries of \<open>ffi/ffi_cpp.cpp\<close>. What the
    dynamic linker, the called functions and the allocator do is a parameter; the calls to them are recorded.
  \<^item> \<open>Tocin_Ffi_Python\<close>: \<open>ffi/ffi_python.cpp\<close>, over a record of what CPython does. Every reference that the
    bridge receives or gives up is recorded. \<open>Tocin_Ffi_JavaScript\<close>: \<open>ffi/ffi_javascript.cpp\<close>, which calls no
    library: its evaluator of literals, its promises and its tables.
  \<^item> \<open>Tocin_Memory\<close>: the handles, guards, pools, buffers and pointers of \<open>util/memory_safe.h\<close>,
    \<open>util/memory_safety.cpp\<close> and \<open>util/error_handling.cpp\<close>. The locale \<open>unique_owner\<close> has the laws of a handle
    that can be moved; six classes interpret it, and their programs are run to the end of the scope.
  \<^item> \<open>Tocin_Results\<close>: the three pairs of option and result types of \<open>util/result.h\<close>,
    \<open>type/option_result_types.h\<close> and \<open>type/result.h\<close>.
  \<^item> \<open>Tocin_Builtins\<close>: \<open>interpreter/src/Builtins.cpp\<close>, compared with \<open>Tocin_Stdlib\<close>.
  \<^item> \<open>Tocin_Enhanced\<close>: the visitors of \<open>EnhancedInterpreter\<close>. The visitors of its base class have no definition and
    are arguments; \<open>en_visits\<close> is what can be built from both, \<open>match\<close>, \<open>while\<close> and \<open>for\<close> included. The loop guard of
    \<open>Tocin_Interpreter\<close> is shared by a loop and its re-entries, so its bound is for loops whose body does not run
    them again.
  \<^item> \<open>Tocin_Futures\<close>: promises, futures and \<open>Select\<close> of \<open>runtime/concurrency.h\<close>. The locale \<open>task_queue\<close> is what a
    promise needs of a scheduler; the workers of \<open>Tocin_Async\<close> and the pool of \<open>Tocin_Thread_Pool\<close> interpret it.
  \<^item> \<open>Tocin_Compiler_Output\<close>: what \<open>compiler/compiler.cpp\<close> does with a module. \<open>Tocin_Features\<close>:
    \<open>type/feature_integration.cpp\<close>, over the ownership and null-safety checkers. \<open>Tocin_Native\<close>: the functions of
    \<open>runtime/native_functions.cpp\<close> on memory, over blocks of bytes.
  \<^item> \<open>Tocin_Macros\<close>: \<open>compiler/macro_system.cpp\<close>. An expansion builds nodes that can hold null; the theory says
    which are syntax trees, and composes one with the code generator.
  \<^item> \<open>Tocin_Traits\<close>: the traits, implementations and bounds of \<open>type/traits.h\<close>, with the registry and the solver.
  \<^item> \<open>Tocin_Ownership\<close>, \<open>Tocin_Ownership_Checker\<close>: the classes \<open>OwnershipStateTracker\<close>,
    \<open>OwnershipChecker\<close> and \<open>OwnershipUtils\<close> of \<open>type/ownership.h\<close>. What the checker answers is
    compared with a specification over the history of its calls.
  \<^item> \<open>Tocin_Null_Safety\<close>: the three classes of \<open>type/null_safety.h\<close>.
  \<^item> \<open>Tocin_Channel\<close>, \<open>Tocin_Thread_Pool\<close>: \<open>Channel\<close> and \<open>ThreadPool\<close> of \<open>runtime/concurrency.h\<close>, as
    step relations for any number of threads. A stretch under the mutex is one step, unless
    another thread can change the state meanwhile.
  \<^item> \<open>Tocin_Condition\<close>: condition variables. The locale \<open>condition_variable\<close> holds the argument that no
    wake-up is lost; a channel has two of them, the workers of \<open>Tocin_Async\<close> one.
  \<^item> \<open>Tocin_Async\<close>: \<open>runtime/async_system.h\<close>, the scheduler as a step relation like the pool.
  \<^item> \<open>Tocin_Scheduler\<close>: \<open>runtime/lightweight_scheduler.h\<close> and \<open>.cpp\<close>. Fibers are numbers into a store,
    so that a fiber that two queues hold is one fiber; the queue is compared with a list. The threads of
    the workers and of the balancing go in the steps of \<open>worker_step\<close> and \<open>balancer_step\<close>, in any order.

  \<^bold>\<open>What the lemmas show.\<close> Lexer: for a positive indentation width (the public constructor also
  takes 0, a division by which is recorded in the state) the token stream is well formed, balanced, sorted and
  complete, and printing is undone by scanning. Parser: it returns on every token vector and builds only
  certain trees. Type layer: what the checkers decide, and that on parsed trees two of them
  decide nothing. Drivers: every source reaches the code generator, no diagnostic
  makes a compilation fail, and no expression compiles at the prompt. Code generator: the code of an expression
  computes its value, the blocks of a function are closed, assignments never compile. Runtime: values and tasks
  are neither lost nor doubled; where the channel wakes its threads and the pool may not; which tasks the work stealing queue
  returns again or loses, and that a fiber is called again only by a worker that overlaps with another in it. Bridges, macros, traits: no library is used after it was closed, except through
  functions that stay registered; which macros expand to a tree; the registry is the list of the registrations; which references to Python
  objects are lost; what the JavaScript evaluator reads back. Utilities: every resource of a handle is released or handed out once, the two
  kinds of options and results agree, the two libraries of string functions agree except on trimming. Futures hold what their
  tasks returned, and only the copy that got a value can give it again. The enhanced interpreter computes an operator once and declares nothing.

  \<^bold>\<open>Loops and fuel.\<close> The loops of the lexer are recursions on the length of the text that is
  left. The productions of the parser are mutually recursive through the token vector: they
  take fuel, and \<open>parse\<close> starts with one more than the number of tokens. Every recursive call
  reads a token first, so this is enough: \<open>parse_total\<close> shows that the outcome \<open>No_Fuel\<close> is not
  reached.

  \<^bold>\<open>LLVM.\<close> The libraries are not under \<open>src/\<close>. A builder call is recorded as an instruction with
  the type of its result, without the folding of constants; the two verifiers are functions of the
  module, and the arithmetic of the instructions is a parameter with the laws of the language
  reference. The class table of the generator stays empty, so the field accesses that need it are
  left out. \<open>function_blocks_closed\<close> is about bodies without loops over lists, nested functions,
  lambdas, \<open>go\<close> and \<open>select\<close>, in which \<open>return\<close> comes last in a block: the generator does emit two
  terminators for a statement after a \<open>return\<close> and for a loop over a list that returns.

  \<^bold>\<open>Not modelled.\<close> The optimizer works on LLVM modules, the other native functions on the console, the
  clock and the C library. The V8 runtime, the additional native bridge, the enhanced type system, the queries of
  \<open>runtime/linq.h\<close> and the optimizer of the interpreter use members, classes or functions that do not exist,
  so they have no meaning to model. The debugger and the package manager are declarations only. Exhausted
  memory, and machine threads that cannot be started, are not outcomes of the model.
\<close>

end
